(* ===== verification/Prelude.thy ===== *)
theory Prelude
  imports Main "HOL-Library.AList" "HOL-Library.Word"
begin

text \<open>
  Shared vocabulary of the AIOS development: fallible results, instants, the arithmetic of
  Rust's fixed-width integers, hash maps as association lists behind an interface locale,
  and the interface of a lifecycle state machine (a finite graph of phases some of which
  are terminal). Every component theory builds on this one.
\<close>

section \<open>Collections of facts\<close>

named_theorems result_simps \<open>equations that run a fallible computation\<close>
named_theorems policy_simps \<open>characteristic equations of the policy components\<close>

section \<open>Results, instants, integers\<close>

text \<open>Rust's \<open>Result<T, E>\<close> is a sum, the error on the left.\<close>

type_synonym ('e, 'a) result = "'e + 'a"

abbreviation Err :: "'e \<Rightarrow> ('e, 'a) result" where
  "Err \<equiv> Inl"

abbreviation Ok :: "'a \<Rightarrow> ('e, 'a) result" where
  "Ok \<equiv> Inr"

text \<open>The \<open>?\<close> operator: stop at the first error, otherwise continue with the value.\<close>

fun try_then :: "('e, 'a) result \<Rightarrow> ('a \<Rightarrow> ('e, 'b) result) \<Rightarrow> ('e, 'b) result" where
  "try_then (Inl e) f = Inl e"
| "try_then (Inr a) f = f a"

lemma try_then_Ok_iff [result_simps]:
  "try_then r f = Ok b \<longleftrightarrow> (\<exists>a. r = Ok a \<and> f a = Ok b)"
  by (cases r) auto

lemma try_then_Err_iff [result_simps]:
  "try_then r f = Err e \<longleftrightarrow> r = Err e \<or> (\<exists>a. r = Ok a \<and> f a = Err e)"
  by (cases r) auto

text \<open>
  \<open>DateTime<Utc>\<close> is an instant in nanoseconds; \<open>Utc::now()\<close> is an argument of the
  operations that read the clock. A \<open>Duration::seconds n\<close> is that many nanoseconds.
\<close>

type_synonym instant = int

definition duration_seconds :: "int \<Rightarrow> int" where
  "duration_seconds n = n * 1000000000"

lemma duration_seconds_mono: "m \<le> n \<Longrightarrow> duration_seconds m \<le> duration_seconds n"
  by (simp add: duration_seconds_def)

lemma duration_seconds_pos_iff [simp]: "0 < duration_seconds n \<longleftrightarrow> 0 < n"
  by (simp add: duration_seconds_def)

type_synonym u8 = "8 word"
type_synonym u32 = "32 word"
type_synonym u64 = "64 word"

text \<open>Rust's \<open>saturating_add\<close> on an unsigned integer of any width.\<close>

definition saturating_add :: "'l::len word \<Rightarrow> 'l word \<Rightarrow> 'l word" where
  "saturating_add a b = (if unat a + unat b < 2 ^ LENGTH('l) then a + b else - 1)"

lemma unat_saturating_add:
  "unat (saturating_add (a :: 'l::len word) b) = min (unat a + unat b) (2 ^ LENGTH('l) - 1)"
  by (auto simp: saturating_add_def unat_word_ariths unsigned_minus_1_eq_mask mask_eq_exp_minus_1)

lemma saturating_add_mono: "unat a \<le> unat (saturating_add (a :: 'l::len word) b)"
proof -
  have "unat a < 2 ^ LENGTH('l)" by (rule unsigned_less)
  then have "unat a \<le> 2 ^ LENGTH('l) - 1" by linarith
  then show ?thesis by (simp add: unat_saturating_add)
qed

text \<open>The range of \<open>i64\<close>, for values kept as \<open>int\<close>.\<close>

definition i64_range :: "int \<Rightarrow> bool" where
  "i64_range n \<longleftrightarrow> - (2 ^ 63) \<le> n \<and> n < 2 ^ 63"

section \<open>Hash maps\<close>

text \<open>
  \<open>HashMap<K, V>\<close> and \<open>BTreeMap<K, V>\<close> are association lists with distinct keys; the
  order of the list stands for the iteration order, which Rust leaves unspecified for
  \<open>HashMap\<close>. Clients rely on the interface below and never on the order.
\<close>

locale keyed_store =
  fixes empty :: "'m"
    and lookup :: "'m \<Rightarrow> 'k \<Rightarrow> 'v option"
    and insert_kv :: "'k \<Rightarrow> 'v \<Rightarrow> 'm \<Rightarrow> 'm"
    and remove_k :: "'k \<Rightarrow> 'm \<Rightarrow> 'm"
    and count :: "'m \<Rightarrow> nat"
    and invar :: "'m \<Rightarrow> bool"
  assumes lookup_empty: "lookup empty k = None"
    and lookup_insert: "invar m \<Longrightarrow> lookup (insert_kv k v m) = (lookup m)(k \<mapsto> v)"
    and lookup_remove: "invar m \<Longrightarrow> lookup (remove_k k m) = (lookup m)(k := None)"
    and count_empty: "count empty = 0"
    and count_insert:
      "invar m \<Longrightarrow> count (insert_kv k v m) = (if lookup m k = None then Suc (count m) else count m)"
    and count_remove:
      "invar m \<Longrightarrow> count (remove_k k m) = (if lookup m k = None then count m else count m - 1)"
    and invar_empty: "invar empty"
    and invar_insert: "invar m \<Longrightarrow> invar (insert_kv k v m)"
    and invar_remove: "invar m \<Longrightarrow> invar (remove_k k m)"
begin

lemma lookup_insert_same: "invar m \<Longrightarrow> lookup (insert_kv k v m) k = Some v"
  by (simp add: lookup_insert)

lemma lookup_insert_other: "invar m \<Longrightarrow> k' \<noteq> k \<Longrightarrow> lookup (insert_kv k v m) k' = lookup m k'"
  by (simp add: lookup_insert)

lemma lookup_remove_same: "invar m \<Longrightarrow> lookup (remove_k k m) k = None"
  by (simp add: lookup_remove)

text \<open>A fresh insertion after making room keeps the number of entries.\<close>

lemma count_replace:
  assumes "invar m" and "lookup m old \<noteq> None" and "lookup m k = None" and "0 < count m"
  shows "count (insert_kv k v (remove_k old m)) = count m"
proof -
  have "lookup (remove_k old m) k = None"
    using assms by (simp add: lookup_remove)
  then show ?thesis
    using assms by (simp add: count_insert count_remove invar_remove)
qed

end

lemma map_of_eq_None_keys: "map_of al k = None \<longleftrightarrow> k \<notin> set (map fst al)"
  by (simp add: map_of_eq_None_iff)

lemma set_AList_update: "set (AList.update k v al) \<subseteq> insert (k, v) (set al)"
  by (induction al) auto

lemma length_AList_update:
  "length (AList.update k v al) = (if k \<in> fst ` set al then length al else Suc (length al))"
  by (induction al) auto

lemma length_AList_delete:
  "distinct (map fst al) \<Longrightarrow>
   length (AList.delete k al) = (if k \<in> fst ` set al then length al - 1 else length al)"
proof (induction al)
  case Nil
  then show ?case by simp
next
  case (Cons a al)
  then show ?case by (cases al) (auto simp: AList.delete_eq image_iff)
qed

interpretation hm: keyed_store "[]" map_of AList.update AList.delete length
  "\<lambda>al. distinct (map fst al)"
  by unfold_locales
    (auto simp: AList.update_conv' AList.delete_conv' length_AList_update length_AList_delete
      map_of_eq_None_keys AList.distinct_update AList.distinct_delete fun_eq_iff)

section \<open>Lifecycle state machines\<close>

text \<open>
  A path from a state: each element is one allowed transition from the one before it.
\<close>

fun fsm_path :: "('s \<Rightarrow> 's \<Rightarrow> bool) \<Rightarrow> 's \<Rightarrow> 's list \<Rightarrow> bool" where
  "fsm_path can s [] = True"
| "fsm_path can s (t # ts) = (can s t \<and> fsm_path can t ts)"

text \<open>
  The contract several AIOS components promise for their phase enums: terminal states have
  no way out, every other state has one, and every transition makes progress towards a
  terminal state.
\<close>

locale lifecycle_fsm =
  fixes can :: "'s \<Rightarrow> 's \<Rightarrow> bool"
    and terminal :: "'s \<Rightarrow> bool"
    and rank :: "'s \<Rightarrow> nat"
  assumes terminal_stuck: "terminal s \<Longrightarrow> \<not> can s t"
    and progress: "\<not> terminal s \<Longrightarrow> \<exists>t. can s t"
    and rank_decreases: "can s t \<Longrightarrow> rank t < rank s"
begin

lemma path_from_terminal: "terminal s \<Longrightarrow> fsm_path can s ts \<Longrightarrow> ts = []"
  by (cases ts) (auto simp: terminal_stuck)

lemma path_rank: "fsm_path can s ts \<Longrightarrow> t \<in> set ts \<Longrightarrow> rank t < rank s"
proof (induction ts arbitrary: s)
  case (Cons u us)
  have "rank u < rank s"
    using Cons.prems by (simp add: rank_decreases)
  then show ?case
    using Cons.prems Cons.IH [of u] by auto
qed simp

lemma path_no_revisit: "fsm_path can s ts \<Longrightarrow> distinct (s # ts)"
proof (induction ts arbitrary: s)
  case (Cons u us)
  then show ?case
    using path_rank [of s "u # us"] by fastforce
qed simp

lemma path_length: "fsm_path can s ts \<Longrightarrow> length ts \<le> rank s"
proof (induction ts arbitrary: s)
  case (Cons u us)
  then have "can s u" and "length us \<le> rank u" by auto
  then show ?case using rank_decreases [of s u] by simp
qed simp

lemma path_to_terminal: "\<exists>ts. fsm_path can s ts \<and> terminal (last (s # ts))"
proof (induction "rank s" arbitrary: s rule: less_induct)
  case less
  show ?case
  proof (cases "terminal s")
    case True
    then show ?thesis by (intro exI [of _ "[]"]) simp
  next
    case False
    then obtain t where t: "can s t" using progress by blast
    then obtain ts where "fsm_path can t ts" and "terminal (last (t # ts))"
      using less rank_decreases by blast
    with t show ?thesis by (intro exI [of _ "t # ts"]) auto
  qed
qed

end

end
