(* ===== verification/Rust_Data.thy ===== *)
theory Rust_Data
  imports Prelude "HOL-Library.Sublist" "HOL-Library.List_Lexorder" "HOL-Library.Char_ord"
begin

text \<open>
  The data of the host language that the components share. A Rust \<open>str\<close> is its UTF-8 byte
  sequence, one \<open>char\<close> per byte, so byte offsets, byte lengths and the lexicographic order
  are those of Rust; the operations that work on Unicode scalar values (whitespace tests,
  column counts, taking the first characters) are written on the encoded form. A JSON value
  is the public enum of its library, an object a list of key/value pairs with distinct keys.
\<close>

section \<open>UTF-8 strings\<close>

definition utf8_continuation :: "char \<Rightarrow> bool" where
  "utf8_continuation c \<longleftrightarrow> 128 \<le> (of_char c :: nat) \<and> (of_char c :: nat) < 192"

text \<open>The encodings of the Unicode characters with the \<open>White_Space\<close> property.\<close>

definition unicode_whitespace :: "string list" where
  "unicode_whitespace =
    [[CHR 0x20], [CHR 0x09], [CHR 0x0A], [CHR 0x0B], [CHR 0x0C], [CHR 0x0D],
     [CHR 0xC2, CHR 0x85], [CHR 0xC2, CHR 0xA0], [CHR 0xE1, CHR 0x9A, CHR 0x80],
     [CHR 0xE2, CHR 0x80, CHR 0x80], [CHR 0xE2, CHR 0x80, CHR 0x81],
     [CHR 0xE2, CHR 0x80, CHR 0x82], [CHR 0xE2, CHR 0x80, CHR 0x83],
     [CHR 0xE2, CHR 0x80, CHR 0x84], [CHR 0xE2, CHR 0x80, CHR 0x85],
     [CHR 0xE2, CHR 0x80, CHR 0x86], [CHR 0xE2, CHR 0x80, CHR 0x87],
     [CHR 0xE2, CHR 0x80, CHR 0x88], [CHR 0xE2, CHR 0x80, CHR 0x89],
     [CHR 0xE2, CHR 0x80, CHR 0x8A], [CHR 0xE2, CHR 0x80, CHR 0xA8],
     [CHR 0xE2, CHR 0x80, CHR 0xA9], [CHR 0xE2, CHR 0x80, CHR 0xAF],
     [CHR 0xE2, CHR 0x81, CHR 0x9F], [CHR 0xE3, CHR 0x80, CHR 0x80]]"

text \<open>The byte length of the whitespace character a string starts with, 0 if none.\<close>

definition ws_prefix :: "string \<Rightarrow> nat" where
  "ws_prefix s = (case find (\<lambda>w. prefix w s) unicode_whitespace of None \<Rightarrow> 0 | Some w \<Rightarrow> length w)"

lemma ws_prefix_Nil [simp]: "ws_prefix [] = 0"
  by (simp add: ws_prefix_def unicode_whitespace_def)

lemma find_eq_Some_props: "find P xs = Some x \<Longrightarrow> x \<in> set xs \<and> P x"
  by (induction xs) (auto split: if_splits)

lemma find_eq_None_iff: "find P xs = None \<longleftrightarrow> (\<forall>x \<in> set xs. \<not> P x)"
  by (induction xs) auto

lemma ws_prefix_le: "ws_prefix s \<le> length s"
  by (auto simp: ws_prefix_def prefix_length_le split: option.splits dest: find_eq_Some_props)

function trim_ws_start :: "string \<Rightarrow> string" where
  "trim_ws_start s = (if ws_prefix s = 0 then s else trim_ws_start (drop (ws_prefix s) s))"
  by pat_completeness auto
termination
proof (relation "measure length")
  fix s assume "ws_prefix s \<noteq> 0"
  then show "(drop (ws_prefix s) s, s) \<in> measure length"
    using ws_prefix_le [of s] by simp
qed simp

declare trim_ws_start.simps [simp del]

text \<open>\<open>str::trim_end\<close>: strip whitespace characters from the end.\<close>

definition ws_suffix :: "string \<Rightarrow> nat" where
  "ws_suffix s = (case find (\<lambda>w. suffix w s) unicode_whitespace of None \<Rightarrow> 0 | Some w \<Rightarrow> length w)"

lemma ws_suffix_le: "ws_suffix s \<le> length s"
  by (auto simp: ws_suffix_def suffix_length_le split: option.splits dest: find_eq_Some_props)

function trim_end :: "string \<Rightarrow> string" where
  "trim_end s = (if ws_suffix s = 0 then s else trim_end (take (length s - ws_suffix s) s))"
  by pat_completeness auto
termination
proof (relation "measure length")
  fix s assume "ws_suffix s \<noteq> 0"
  then show "(take (length s - ws_suffix s) s, s) \<in> measure length"
    using ws_suffix_le [of s] by simp
qed simp

declare trim_end.simps [simp del]

text \<open>\<open>chars().count()\<close> and \<open>chars().take(n)\<close>: a character starts at every byte that is not a
  continuation byte.\<close>

definition char_count :: "string \<Rightarrow> nat" where
  "char_count s = length (filter (\<lambda>c. \<not> utf8_continuation c) s)"

fun take_chars :: "nat \<Rightarrow> string \<Rightarrow> string" where
  "take_chars n [] = []"
| "take_chars n (c # cs) =
     (if utf8_continuation c then c # take_chars n cs
      else if n = 0 then [] else c # take_chars (n - 1) cs)"

text \<open>\<open>str::contains\<close> and \<open>trim_end_matches\<close> with a one-byte pattern.\<close>

fun str_contains :: "string \<Rightarrow> string \<Rightarrow> bool" where
  "str_contains [] needle = (needle = [])"
| "str_contains (c # cs) needle = (prefix needle (c # cs) \<or> str_contains cs needle)"

lemma str_contains_iff_sublist: "str_contains s needle \<longleftrightarrow> sublist needle s"
proof (induction s)
  case (Cons c cs)
  then show ?case by (auto simp: sublist_Cons_right)
qed simp

definition trim_end_matches :: "char \<Rightarrow> string \<Rightarrow> string" where
  "trim_end_matches c s = rev (dropWhile (\<lambda>d. d = c) (rev s))"

text \<open>ASCII classes used by the hand-written parsers.\<close>

definition is_ascii_digit :: "char \<Rightarrow> bool" where
  "is_ascii_digit c \<longleftrightarrow> CHR ''0'' \<le> c \<and> c \<le> CHR ''9''"

definition is_ascii_alphabetic :: "char \<Rightarrow> bool" where
  "is_ascii_alphabetic c \<longleftrightarrow>
     (CHR ''a'' \<le> c \<and> c \<le> CHR ''z'') \<or> (CHR ''A'' \<le> c \<and> c \<le> CHR ''Z'')"

definition is_ascii_alphanumeric :: "char \<Rightarrow> bool" where
  "is_ascii_alphanumeric c \<longleftrightarrow> is_ascii_alphabetic c \<or> is_ascii_digit c"

text \<open>\<open>str::parse::<i64>\<close> on an optional minus sign followed by at least one digit.\<close>

definition decimal_value :: "string \<Rightarrow> int" where
  "decimal_value ds = foldl (\<lambda>n c. 10 * n + (of_char c - 48)) 0 ds"

definition parse_i64 :: "string \<Rightarrow> int option" where
  "parse_i64 s =
     (let n = (case s of CHR ''-'' # ds \<Rightarrow> - decimal_value ds | _ \<Rightarrow> decimal_value s)
      in if i64_range n then Some n else None)"

section \<open>JSON values\<close>

text \<open>The decimal text of an unsigned integer, as \<open>Display\<close> prints it.\<close>

definition digit_char :: "nat \<Rightarrow> char" where
  "digit_char d = char_of (48 + d)"

fun show_nat :: "nat \<Rightarrow> string" where
  "show_nat n = (if n < 10 then [digit_char n] else show_nat (n div 10) @ [digit_char (n mod 10)])"

declare show_nat.simps [simp del]

lemma digit_char: "d < 10 \<Longrightarrow> of_char (digit_char d) = (48 + int d) \<and> is_ascii_digit (digit_char d)"
proof -
  assume "d < 10"
  then have "int (of_char (digit_char d)) = 48 + int d"
    and "is_ascii_digit (digit_char d)"
    by (simp_all add: digit_char_def is_ascii_digit_def less_eq_char_def)
  then show ?thesis by (simp add: of_nat_of_char)
qed

lemma show_nat_digits: "list_all is_ascii_digit (show_nat n)"
proof (induction n rule: show_nat.induct)
  case (1 n)
  then show ?case using digit_char by (subst show_nat.simps) simp
qed

lemma show_nat_nonempty: "show_nat n \<noteq> []"
  by (subst show_nat.simps) simp

lemma decimal_show_nat: "decimal_value (show_nat n) = int n"
proof (induction n rule: show_nat.induct)
  case (1 n)
  show ?case
  proof (cases "n < 10")
    case True
    then show ?thesis using digit_char [of n]
      by (subst show_nat.simps) (simp add: decimal_value_def)
  next
    case False
    then have "decimal_value (show_nat n) = 10 * int (n div 10) + int (n mod 10)"
      using 1 digit_char [of "n mod 10"] by (subst show_nat.simps) (simp add: decimal_value_def)
    then show ?thesis by presburger
  qed
qed

text \<open>
  \<open>serde_json::Value\<close>, with the accessors the sources use. A number is an integer or a
  float; \<open>as_i64\<close> is defined on the integers that fit.
\<close>

datatype json_number = JInt int | JFloat string

datatype json =
    JNull
  | JBool bool
  | JNumber json_number
  | JString string
  | JArray "json list"
  | JObject "(string \<times> json) list"

fun as_object :: "json \<Rightarrow> (string \<times> json) list option" where
  "as_object (JObject kvs) = Some kvs"
| "as_object _ = None"

fun as_str :: "json \<Rightarrow> string option" where
  "as_str (JString s) = Some s"
| "as_str _ = None"

fun as_bool :: "json \<Rightarrow> bool option" where
  "as_bool (JBool b) = Some b"
| "as_bool _ = None"

fun json_as_i64 :: "json_number \<Rightarrow> int option" where
  "json_as_i64 (JInt n) = (if i64_range n then Some n else None)"
| "json_as_i64 (JFloat _) = None"

definition json_get :: "json \<Rightarrow> string \<Rightarrow> json option" where
  "json_get v key = Option.bind (as_object v) (\<lambda>m. map_of m key)"

end
