(* ===== verification/Action_Envelope.thy ===== *)
theory Action_Envelope
  imports Rust_Data
begin

text \<open>
  The action envelope of crate \<open>aios-action\<close>: the lifecycle phases (\<open>phase.rs\<close>), the
  runtime-owned execution block (\<open>execution.rs\<close>), the caller's request and identity
  (\<open>request.rs\<close>, \<open>identity.rs\<close>, \<open>trace.rs\<close>), and the operations of the envelope itself
  (\<open>envelope.rs\<close>). \<open>Utc::now()\<close> is the argument \<open>now\<close>; the JCS encoder and BLAKE3 are
  third-party and enter as the argument \<open>canonical_hash\<close>.
\<close>

section \<open>Phases\<close>

datatype action_phase = Pending | Running | Succeeded | Failed | RolledBack

fun is_terminal :: "action_phase \<Rightarrow> bool" where
  "is_terminal Succeeded = True"
| "is_terminal Failed = True"
| "is_terminal RolledBack = True"
| "is_terminal _ = False"

fun can_transition_to :: "action_phase \<Rightarrow> action_phase \<Rightarrow> bool" where
  "can_transition_to Pending Failed = True"
| "can_transition_to Pending Running = True"
| "can_transition_to Running Succeeded = True"
| "can_transition_to Running Failed = True"
| "can_transition_to Running RolledBack = True"
| "can_transition_to _ _ = False"

text \<open>The number of transitions still possible from a phase.\<close>

fun phase_rank :: "action_phase \<Rightarrow> nat" where
  "phase_rank Pending = 2"
| "phase_rank Running = 1"
| "phase_rank _ = 0"

interpretation ph: lifecycle_fsm can_transition_to is_terminal phase_rank
proof
  fix s t
  show "is_terminal s \<Longrightarrow> \<not> can_transition_to s t" by (cases s) auto
  show "\<not> is_terminal s \<Longrightarrow> \<exists>t. can_transition_to s t"
    by (cases s) (auto intro: exI [of _ Failed])
  show "can_transition_to s t \<Longrightarrow> phase_rank t < phase_rank s" by (cases s; cases t) auto
qed

section \<open>Data\<close>

datatype condition_type =
    PolicyEvaluated | PolicyAccepted | ApprovalRequired | ApprovalGranted | ApprovalExpired
  | Sandboxed | Executed | Verified | RollbackPossible | CondRolledBack | Idempotent
  | Simulated | DeprecatedFieldUsed

datatype condition_status = StatusTrue | StatusFalse | StatusUnknown

record condition =
  condition_type :: condition_type
  cond_status :: condition_status
  observed_at :: instant
  cond_message :: string

definition now_true :: "condition_type \<Rightarrow> string \<Rightarrow> instant \<Rightarrow> condition" where
  "now_true ct message now =
     \<lparr>condition_type = ct, cond_status = StatusTrue, observed_at = now, cond_message = message\<rparr>"

record execution =
  phase :: action_phase
  phase_changed_at :: instant
  started_at :: "instant option"
  ended_at :: "instant option"
  exec_sandbox_profile_id :: "string option"
  conditions :: "condition list"

definition pending :: "instant \<Rightarrow> execution" where
  "pending now =
     \<lparr>phase = Pending, phase_changed_at = now, started_at = None, ended_at = None,
      exec_sandbox_profile_id = None, conditions = []\<rparr>"

datatype dry_run_mode = Live | Validate | Simulate

record request =
  action :: string
  target :: json
  idempotency_key :: "string option"
  parent_action_id :: "string option"
  dry_run :: dry_run_mode

definition request_new :: "string \<Rightarrow> json \<Rightarrow> request" where
  "request_new act tgt =
     \<lparr>action = act, target = tgt, idempotency_key = None, parent_action_id = None,
      dry_run = Live\<rparr>"

record identity =
  subject_canonical_id :: string
  ident_is_ai :: bool
  session_id :: "string option"

definition identity_new :: "string \<Rightarrow> bool \<Rightarrow> identity" where
  "identity_new sid ai =
     \<lparr>subject_canonical_id = sid, ident_is_ai = ai, session_id = None\<rparr>"

record trace_ctx =
  trace_id :: string
  span_id :: string
  parent_span_id :: "string option"

record action_envelope =
  schema_version :: string
  env_identity :: identity
  env_request :: request
  env_execution :: execution
  env_trace :: trace_ctx

definition SCHEMA_VERSION :: string where
  "SCHEMA_VERSION = ''aios.action.v1alpha1''"

definition envelope_new :: "identity \<Rightarrow> request \<Rightarrow> trace_ctx \<Rightarrow> instant \<Rightarrow> action_envelope" where
  "envelope_new ident req tr now =
     \<lparr>schema_version = SCHEMA_VERSION, env_identity = ident, env_request = req,
      env_execution = pending now, env_trace = tr\<rparr>"

section \<open>Hashes\<close>

text \<open>
  \<open>canonical_hash\<close> stands for \<open>blake3_hash\<close> after \<open>jcs_canonicalize\<close>, which fails only where
  the value cannot be projected. \<open>request_json\<close> is the serde projection of the request.
\<close>

datatype canonical_error = Projection string

type_synonym canonical_hash = "json \<Rightarrow> (canonical_error, string) result"

fun opt_str_json :: "string option \<Rightarrow> json" where
  "opt_str_json None = JNull"
| "opt_str_json (Some s) = JString s"

fun dry_run_json :: "dry_run_mode \<Rightarrow> json" where
  "dry_run_json Live = JString ''LIVE''"
| "dry_run_json Validate = JString ''VALIDATE''"
| "dry_run_json Simulate = JString ''SIMULATE''"

definition request_json :: "request \<Rightarrow> json" where
  "request_json r = JObject
     [(''action'', JString (action r)), (''target'', target r),
      (''idempotency_key'', opt_str_json (idempotency_key r)),
      (''parent_action_id'', opt_str_json (parent_action_id r)),
      (''dry_run'', dry_run_json (dry_run r))]"

definition request_hash :: "canonical_hash \<Rightarrow> request \<Rightarrow> (canonical_error, string) result" where
  "request_hash canonical_hash r = canonical_hash (request_json r)"

definition idempotency_hash ::
    "canonical_hash \<Rightarrow> action_envelope \<Rightarrow> (canonical_error, string option) result" where
  "idempotency_hash canonical_hash e =
     (case idempotency_key (env_request e) of
        None \<Rightarrow> Ok None
      | Some key \<Rightarrow>
          try_then
            (canonical_hash (JObject [(''idempotency_key'', JString key),
                                      (''request'', request_json (env_request e))]))
            (\<lambda>h. Ok (Some h)))"

lemma opt_str_json_inject [simp]: "opt_str_json a = opt_str_json b \<longleftrightarrow> a = b"
  by (cases a; cases b) auto

lemma dry_run_json_inject [simp]: "dry_run_json a = dry_run_json b \<longleftrightarrow> a = b"
  by (cases a; cases b) auto

lemma request_json_inject: "request_json r = request_json r' \<longleftrightarrow> r = r'"
  by (cases r; cases r') (auto simp: request_json_def)

section \<open>Transitions and conditions\<close>

text \<open>
  The two sources of a \<open>MonotonicityViolation\<close>; the code renders them as text.
\<close>

datatype monotonicity_violation =
    ObservedAtRegresses instant instant
  | TrueFlipped condition_type condition_status

datatype transition_error =
    IllegalTransition action_phase action_phase
  | TerminalPhase
  | MonotonicityViolation monotonicity_violation
  | PhaseConditionMismatch action_phase "condition_type list"

definition transition_to ::
    "action_phase \<Rightarrow> instant \<Rightarrow> action_envelope \<Rightarrow> (transition_error, action_envelope) result" where
  "transition_to nxt now e =
     (let x = env_execution e in
      if is_terminal (phase x) then Err TerminalPhase
      else if \<not> can_transition_to (phase x) nxt then Err (IllegalTransition (phase x) nxt)
      else
        let new_stamp = (if now < phase_changed_at x then phase_changed_at x else now);
            x1 = (if phase x = Pending \<and> nxt = Running \<and> started_at x = None
                  then x\<lparr>started_at := Some new_stamp\<rparr> else x);
            x2 = (if is_terminal nxt \<and> ended_at x1 = None
                  then x1\<lparr>ended_at := Some new_stamp\<rparr> else x1);
            x3 = x2\<lparr>phase := nxt, phase_changed_at := new_stamp\<rparr>
        in Ok (e\<lparr>env_execution := x3\<rparr>))"

definition add_condition ::
    "condition \<Rightarrow> action_envelope \<Rightarrow> (transition_error, action_envelope) result" where
  "add_condition c e =
     (let cs = conditions (env_execution e) in
      if cs \<noteq> [] \<and> observed_at c < observed_at (last cs)
      then Err (MonotonicityViolation (ObservedAtRegresses (observed_at c) (observed_at (last cs))))
      else if cond_status c \<noteq> StatusTrue \<and>
              (\<exists>x \<in> set cs. condition_type x = condition_type c \<and> cond_status x = StatusTrue)
      then Err (MonotonicityViolation (TrueFlipped (condition_type c) (cond_status c)))
      else Ok (e\<lparr>env_execution := (env_execution e)\<lparr>conditions := cs @ [c]\<rparr>\<rparr>))"

fun canonical_conditions :: "action_phase \<Rightarrow> condition_type list" where
  "canonical_conditions Pending = []"
| "canonical_conditions Running = [PolicyEvaluated, Sandboxed]"
| "canonical_conditions Succeeded = [PolicyEvaluated, Sandboxed, Executed, Verified]"
| "canonical_conditions Failed = [PolicyEvaluated]"
| "canonical_conditions RolledBack = [PolicyEvaluated, Sandboxed, Executed, CondRolledBack]"

definition canonical_conditions_for_phase :: "action_envelope \<Rightarrow> condition_type list" where
  "canonical_conditions_for_phase e = canonical_conditions (phase (env_execution e))"

definition observed_true :: "action_envelope \<Rightarrow> condition_type \<Rightarrow> bool" where
  "observed_true e ct \<longleftrightarrow>
     (\<exists>c \<in> set (conditions (env_execution e)).
        condition_type c = ct \<and> cond_status c = StatusTrue)"

definition validate_phase_conditions ::
    "action_envelope \<Rightarrow> (transition_error, unit) result" where
  "validate_phase_conditions e =
     (let missing = filter (\<lambda>ct. \<not> observed_true e ct) (canonical_conditions_for_phase e)
      in if missing = [] then Ok ()
         else Err (PhaseConditionMismatch (phase (env_execution e)) missing))"

section \<open>What an accepted call does\<close>

lemma transition_to_Ok_iff:
  "transition_to nxt now e = Ok e' \<longleftrightarrow>
     can_transition_to (phase (env_execution e)) nxt \<and>
     (let x = env_execution e; stamp = max (phase_changed_at x) now in
      e' = e\<lparr>env_execution := x\<lparr>
        started_at := (if nxt = Running \<and> started_at x = None then Some stamp else started_at x),
        ended_at := (if is_terminal nxt \<and> ended_at x = None then Some stamp else ended_at x),
        phase := nxt, phase_changed_at := stamp\<rparr>\<rparr>)"
  (is "?l \<longleftrightarrow> ?r")
proof
  assume ?l
  then show ?r
    by (cases "phase (env_execution e)"; cases nxt)
      (auto simp: transition_to_def Let_def max_def split: if_splits)
next
  assume ?r
  then show ?l
    by (cases "phase (env_execution e)"; cases nxt)
      (auto simp: transition_to_def Let_def max_def)
qed

lemma transition_to_Err:
  "transition_to nxt now e = Err err \<longleftrightarrow>
     (is_terminal (phase (env_execution e)) \<and> err = TerminalPhase) \<or>
     (\<not> is_terminal (phase (env_execution e)) \<and>
      \<not> can_transition_to (phase (env_execution e)) nxt \<and>
      err = IllegalTransition (phase (env_execution e)) nxt)"
  by (auto simp: transition_to_def Let_def)

definition condition_admissible :: "condition \<Rightarrow> condition list \<Rightarrow> bool" where
  "condition_admissible c cs \<longleftrightarrow>
     (cs \<noteq> [] \<longrightarrow> observed_at (last cs) \<le> observed_at c) \<and>
     (\<forall>x \<in> set cs. condition_type x = condition_type c \<and> cond_status x = StatusTrue \<longrightarrow>
        cond_status c = StatusTrue)"

lemma add_condition_Ok_iff:
  "add_condition c e = Ok e' \<longleftrightarrow>
     condition_admissible c (conditions (env_execution e)) \<and>
     e' = e\<lparr>env_execution := (env_execution e)
              \<lparr>conditions := conditions (env_execution e) @ [c]\<rparr>\<rparr>"
  by (auto simp: add_condition_def condition_admissible_def Let_def not_less)

section \<open>The envelope invariant\<close>

text \<open>The stamps agree with the phase.\<close>

fun stamps_ok :: "action_phase \<Rightarrow> instant \<Rightarrow> instant option \<Rightarrow> instant option \<Rightarrow> bool" where
  "stamps_ok Pending t st en \<longleftrightarrow> st = None \<and> en = None"
| "stamps_ok Running t st en \<longleftrightarrow> st = Some t \<and> en = None"
| "stamps_ok Failed t st en \<longleftrightarrow> en = Some t \<and> (\<forall>s. st = Some s \<longrightarrow> s \<le> t)"
| "stamps_ok _ t st en \<longleftrightarrow> en = Some t \<and> (\<exists>s. st = Some s \<and> s \<le> t)"

text \<open>Once a condition type is observed true, it stays true in every later observation.\<close>

fun true_is_sticky :: "condition list \<Rightarrow> bool" where
  "true_is_sticky [] = True"
| "true_is_sticky (c # cs) \<longleftrightarrow>
     (cond_status c = StatusTrue \<longrightarrow>
        (\<forall>d \<in> set cs. condition_type d = condition_type c \<longrightarrow> cond_status d = StatusTrue)) \<and>
     true_is_sticky cs"

definition envelope_inv :: "action_envelope \<Rightarrow> bool" where
  "envelope_inv e \<longleftrightarrow>
     (let x = env_execution e in
      stamps_ok (phase x) (phase_changed_at x) (started_at x) (ended_at x) \<and>
      sorted (map observed_at (conditions x)) \<and> true_is_sticky (conditions x))"

lemma true_is_sticky_snoc:
  "true_is_sticky (cs @ [c]) \<longleftrightarrow>
     true_is_sticky cs \<and>
     (\<forall>x \<in> set cs. condition_type x = condition_type c \<and> cond_status x = StatusTrue \<longrightarrow>
        cond_status c = StatusTrue)"
  by (induction cs) auto

lemma sorted_le_last: "sorted xs \<Longrightarrow> y \<in> set xs \<Longrightarrow> y \<le> (last xs :: 'a::linorder)"
  by (induction xs) auto

lemma sorted_snoc_last:
  "sorted xs \<Longrightarrow> (xs \<noteq> [] \<longrightarrow> last xs \<le> (x :: 'a::linorder)) \<Longrightarrow> sorted (xs @ [x])"
  using sorted_le_last by (fastforce simp: sorted_append)

lemma envelope_new_inv: "envelope_inv (envelope_new ident req tr now)"
  by (simp add: envelope_inv_def envelope_new_def pending_def)

lemma transition_to_inv:
  "envelope_inv e \<Longrightarrow> transition_to nxt now e = Ok e' \<Longrightarrow> envelope_inv e'"
  by (cases "phase (env_execution e)"; cases nxt)
    (auto simp: transition_to_Ok_iff envelope_inv_def Let_def)

lemma add_condition_inv:
  "envelope_inv e \<Longrightarrow> add_condition c e = Ok e' \<Longrightarrow> envelope_inv e'"
  using sorted_snoc_last [of "map observed_at (conditions (env_execution e))" "observed_at c"]
  by (auto simp: add_condition_Ok_iff envelope_inv_def Let_def true_is_sticky_snoc
      condition_admissible_def last_map)

section \<open>Runs of the envelope\<close>

text \<open>
  The Capability Runtime drives an envelope by any interleaving of the two operations, each
  with whatever clock reading or observation it has; a rejected call leaves the envelope as
  it was.
\<close>

inductive env_step :: "action_envelope \<Rightarrow> action_envelope \<Rightarrow> bool" where
  step_transition: "transition_to nxt now e = Ok e' \<Longrightarrow> env_step e e'"
| step_condition: "add_condition c e = Ok e' \<Longrightarrow> env_step e e'"

inductive_cases env_stepE: "env_step e e'"

definition env_reaches :: "action_envelope \<Rightarrow> action_envelope \<Rightarrow> bool" where
  "env_reaches = env_step\<^sup>*\<^sup>*"

text \<open>What no step gives up: caller-owned sections, observations, time and terminal phases.\<close>

definition env_extends :: "action_envelope \<Rightarrow> action_envelope \<Rightarrow> bool" where
  "env_extends e e' \<longleftrightarrow>
     schema_version e' = schema_version e \<and> env_identity e' = env_identity e \<and>
     env_request e' = env_request e \<and> env_trace e' = env_trace e \<and>
     prefix (conditions (env_execution e)) (conditions (env_execution e')) \<and>
     phase_changed_at (env_execution e) \<le> phase_changed_at (env_execution e') \<and>
     (is_terminal (phase (env_execution e)) \<longrightarrow>
        phase (env_execution e') = phase (env_execution e) \<and>
        phase_changed_at (env_execution e') = phase_changed_at (env_execution e) \<and>
        started_at (env_execution e') = started_at (env_execution e) \<and>
        ended_at (env_execution e') = ended_at (env_execution e))"

lemma env_extends_refl: "env_extends e e"
  by (simp add: env_extends_def)

lemma env_extends_trans: "env_extends a b \<Longrightarrow> env_extends b c \<Longrightarrow> env_extends a c"
  by (auto simp: env_extends_def intro: prefix_order.trans)

lemma env_step_extends: "env_step e e' \<Longrightarrow> env_extends e e'"
proof (erule env_stepE)
  fix nxt now assume "transition_to nxt now e = Ok e'"
  then show ?thesis
    using ph.terminal_stuck by (auto simp: transition_to_Ok_iff env_extends_def Let_def)
next
  fix c assume "add_condition c e = Ok e'"
  then show ?thesis by (auto simp: add_condition_Ok_iff env_extends_def)
qed

lemma env_step_inv: "env_step e e' \<Longrightarrow> envelope_inv e \<Longrightarrow> envelope_inv e'"
  by (erule env_stepE) (auto intro: transition_to_inv add_condition_inv)

lemma env_reaches_extends: "env_reaches e e' \<Longrightarrow> env_extends e e'"
  unfolding env_reaches_def
  by (induction rule: rtranclp_induct)
    (auto intro: env_extends_refl env_extends_trans env_step_extends)

lemma env_reaches_inv: "env_reaches e e' \<Longrightarrow> envelope_inv e \<Longrightarrow> envelope_inv e'"
  unfolding env_reaches_def by (induction rule: rtranclp_induct) (auto intro: env_step_inv)

text \<open>A sequence of requested transitions, with the phases that were accepted.\<close>

fun run_transitions ::
    "(action_phase \<times> instant) list \<Rightarrow> action_envelope \<Rightarrow> action_envelope \<times> action_phase list" where
  "run_transitions [] e = (e, [])"
| "run_transitions ((nxt, now) # calls) e =
     (case transition_to nxt now e of
        Inl _ \<Rightarrow> run_transitions calls e
      | Inr e' \<Rightarrow> (let (r, ps) = run_transitions calls e' in (r, nxt # ps)))"

lemma run_transitions_path:
  "run_transitions calls e = (r, ps) \<Longrightarrow>
     fsm_path can_transition_to (phase (env_execution e)) ps \<and>
     phase (env_execution r) = last (phase (env_execution e) # ps)"
proof (induction calls arbitrary: e r ps)
  case (Cons call calls)
  obtain nxt now where call: "call = (nxt, now)" by (cases call)
  show ?case
  proof (cases "transition_to nxt now e")
    case (Inl err)
    then show ?thesis using Cons call by simp
  next
    case (Inr e')
    then have step: "can_transition_to (phase (env_execution e)) nxt"
      and at: "phase (env_execution e') = nxt"
      by (auto simp: transition_to_Ok_iff Let_def)
    obtain qs where "run_transitions calls e' = (r, qs)" and "ps = nxt # qs"
      using Cons.prems call Inr by (auto split: prod.splits)
    then show ?thesis using Cons.IH [of e' r qs] step at by auto
  qed
qed simp

section \<open>Properties\<close>

text \<open>
  C33: every envelope the runtime can reach from a fresh one, by any interleaving of accepted
  \<open>transition_to\<close> and \<open>add_condition\<close> calls and whatever the clock reads, keeps the
  caller's identity, request and trace, has stamps that agree with its phase, observations
  in time order, and no condition type that was ever retracted after being observed true.
\<close>

theorem envelope_lifecycle:
  assumes "env_reaches (envelope_new ident req tr now) e"
  shows "envelope_inv e \<and> env_identity e = ident \<and> env_request e = req \<and> env_trace e = tr \<and>
     schema_version e = SCHEMA_VERSION \<and> now \<le> phase_changed_at (env_execution e)"
proof -
  have "env_extends (envelope_new ident req tr now) e"
    using assms by (rule env_reaches_extends)
  moreover have "envelope_inv e" by (rule env_reaches_inv [OF assms envelope_new_inv])
  ultimately show ?thesis by (auto simp: env_extends_def envelope_new_def pending_def)
qed

definition sample_envelope :: action_envelope where
  "sample_envelope = envelope_new (identity_new ''agent:dev'' True)
     (request_new ''service.restart'' (JObject [(''service'', JString ''nginx'')]))
     \<lparr>trace_id = ''0af7651916cd43dd8448eb211c80319c'', span_id = ''b7ad6b7169203331'',
      parent_span_id = None\<rparr> 100"

lemma sample_envelope_failed:
  "transition_to Failed 90 sample_envelope =
     Ok (sample_envelope\<lparr>env_execution := (env_execution sample_envelope)
        \<lparr>phase := Failed, ended_at := Some 100\<rparr>\<rparr>)"
  by (simp add: transition_to_def sample_envelope_def envelope_new_def pending_def Let_def)

theorem envelope_lifecycle_witness:
  "env_reaches sample_envelope (sample_envelope\<lparr>env_execution := (env_execution sample_envelope)
        \<lparr>phase := Failed, ended_at := Some 100\<rparr>\<rparr>) \<and>
   envelope_inv (sample_envelope\<lparr>env_execution := (env_execution sample_envelope)
        \<lparr>phase := Failed, ended_at := Some 100\<rparr>\<rparr>)"
proof -
  have "env_step sample_envelope (sample_envelope\<lparr>env_execution := (env_execution sample_envelope)
        \<lparr>phase := Failed, ended_at := Some 100\<rparr>\<rparr>)"
    by (rule step_transition [OF sample_envelope_failed])
  then have r: "env_reaches sample_envelope (sample_envelope\<lparr>env_execution :=
      (env_execution sample_envelope) \<lparr>phase := Failed, ended_at := Some 100\<rparr>\<rparr>)"
    by (simp add: env_reaches_def)
  show ?thesis
    using r envelope_lifecycle [OF r [unfolded sample_envelope_def], folded sample_envelope_def]
    by simp
qed

text \<open>
  Whatever transitions are requested, in whatever order and at whatever clock readings,
  the accepted ones form a path of the lifecycle graph, no phase is entered twice, at most
  two are accepted from a fresh envelope and none after a terminal phase.
\<close>

theorem transition_runs_bounded:
  "case run_transitions calls e of (r, ps) \<Rightarrow>
     fsm_path can_transition_to (phase (env_execution e)) ps \<and>
     phase (env_execution r) = last (phase (env_execution e) # ps) \<and>
     distinct (phase (env_execution e) # ps) \<and>
     length ps \<le> phase_rank (phase (env_execution e))"
proof -
  obtain r ps where run: "run_transitions calls e = (r, ps)" by fastforce
  then have "fsm_path can_transition_to (phase (env_execution e)) ps"
    and "phase (env_execution r) = last (phase (env_execution e) # ps)"
    using run_transitions_path by blast+
  then show ?thesis
    using run ph.path_no_revisit [of "phase (env_execution e)" ps] ph.path_length by auto
qed

lemma observed_true_mono: "env_extends e e' \<Longrightarrow> observed_true e ct \<Longrightarrow> observed_true e' ct"
  by (auto simp: env_extends_def observed_true_def dest: set_mono_prefix)

lemma validate_phase_conditions_Ok_iff:
  "validate_phase_conditions e = Ok () \<longleftrightarrow>
     (\<forall>ct \<in> set (canonical_conditions (phase (env_execution e))). observed_true e ct)"
  by (auto simp: validate_phase_conditions_def canonical_conditions_for_phase_def Let_def
      filter_empty_conv)

text \<open>
  A terminal envelope is frozen: no later run changes its phase or stamps, every further
  transition is refused as terminal, and once its phase agrees with its conditions it keeps
  agreeing whatever is still observed.
\<close>

theorem terminal_envelope_frozen:
  assumes "env_reaches e e'" and "is_terminal (phase (env_execution e))"
  shows "phase (env_execution e') = phase (env_execution e) \<and>
     started_at (env_execution e') = started_at (env_execution e) \<and>
     ended_at (env_execution e') = ended_at (env_execution e) \<and>
     transition_to nxt now e' = Err TerminalPhase \<and>
     (validate_phase_conditions e = Ok () \<longrightarrow> validate_phase_conditions e' = Ok ())"
proof -
  have ext: "env_extends e e'" using assms(1) by (rule env_reaches_extends)
  then have ph: "phase (env_execution e') = phase (env_execution e)"
    using assms(2) by (auto simp: env_extends_def)
  moreover have "transition_to nxt now e' = Err TerminalPhase"
    using ph assms(2) by (simp add: transition_to_Err)
  moreover have "validate_phase_conditions e = Ok () \<longrightarrow> validate_phase_conditions e' = Ok ()"
    using ph ext by (auto simp: validate_phase_conditions_Ok_iff intro: observed_true_mono)
  ultimately show ?thesis using ext assms(2) by (auto simp: env_extends_def)
qed

definition sample_failed :: action_envelope where
  "sample_failed = sample_envelope\<lparr>env_execution := (env_execution sample_envelope)
        \<lparr>phase := Failed, ended_at := Some 100,
         conditions := [now_true PolicyEvaluated ''denied'' 100]\<rparr>\<rparr>"

theorem terminal_envelope_frozen_witness:
  "is_terminal (phase (env_execution sample_failed)) \<and>
   validate_phase_conditions sample_failed = Ok () \<and>
   transition_to RolledBack 7 sample_failed = Err TerminalPhase"
proof -
  have r: "env_reaches sample_failed sample_failed" by (simp add: env_reaches_def)
  have t: "is_terminal (phase (env_execution sample_failed))"
    by (simp add: sample_failed_def)
  have "validate_phase_conditions sample_failed = Ok ()"
    by (simp add: validate_phase_conditions_Ok_iff sample_failed_def observed_true_def now_true_def)
  then show ?thesis using t terminal_envelope_frozen [OF r t] by simp
qed

end
