(* ===== verification/Policy_Types.thy ===== *)
theory Policy_Types
  imports Action_Envelope
begin

text \<open>
  The data model of crate \<open>aios-policy\<close>: subjects (\<open>subject.rs\<close>), constraints and approval
  requirements (\<open>constraints.rs\<close>), decisions (\<open>decision.rs\<close>), the precedence ladder
  (\<open>precedence.rs\<close>), hard-deny classes (\<open>hard_deny.rs\<close>), the enrichment snapshot
  (\<open>snapshot.rs\<close>), rules and bundles (\<open>bundle.rs\<close>), errors (\<open>error.rs\<close>) and the context of an
  evaluation (\<open>kernel.rs\<close>).
\<close>

section \<open>Subjects\<close>

datatype subject_type =
    Human | Agent | Application | Service | Device | Workflow | RemoteOperator

record hydrated_subject =
  canonical_subject_id :: string
  subject_type :: subject_type
  groups :: "string list"
  capabilities :: "string list"
  session_class :: string
  recovery_mode :: bool
  is_ai :: bool

section \<open>Constraints and approval requirements\<close>

datatype evidence_grade = E2 | E3 | E4 | E5

datatype network_policy = LocalhostOnly | LanAllowed | InternetAllowed

datatype session_class_enum =
    SessPublic | SessInternal | SessConfidential | SessRestricted | SessRecovery

datatype approval_scope = ExactRequestHash

datatype approver_class =
    ApHuman | ApOperator | ApAgent | ApApplication | ApService | ApDevice | ApWorkflow
  | ApRemoteOperator

record constraints =
  sandbox_profile_id :: "string option"
  max_runtime_seconds :: "u32 option"
  verification_required :: bool
  dry_run_only :: bool
  require_evidence_grade :: "evidence_grade option"
  c_require_human_co_signer :: bool
  network_policy :: "network_policy option"
  max_concurrent_per_subject :: "u32 option"
  min_subject_session_class :: "session_class_enum option"
  vault_capability_required :: "string option"
  c_ttl_seconds :: u32
  c_expires_at :: "instant option"

definition DEFAULT_TTL_SECONDS :: u32 where
  "DEFAULT_TTL_SECONDS = 300"

definition MAX_TTL_SECONDS :: u32 where
  "MAX_TTL_SECONDS = 3600"

definition constraints_default :: constraints where
  "constraints_default =
     \<lparr>sandbox_profile_id = None, max_runtime_seconds = None, verification_required = False,
      dry_run_only = False, require_evidence_grade = None, c_require_human_co_signer = False,
      network_policy = None, max_concurrent_per_subject = None,
      min_subject_session_class = None, vault_capability_required = None,
      c_ttl_seconds = DEFAULT_TTL_SECONDS, c_expires_at = None\<rparr>"

record approval_requirement =
  required :: bool
  approval_scope :: approval_scope
  ar_ttl_seconds :: u32
  approver_classes :: "approver_class list"
  require_human_co_signer :: bool

definition approval_requirement_default :: approval_requirement where
  "approval_requirement_default =
     \<lparr>required = False, approval_scope = ExactRequestHash, ar_ttl_seconds = 0,
      approver_classes = [], require_human_co_signer = False\<rparr>"

section \<open>Errors\<close>

text \<open>
  The reasons a constraint set is refused, in the order of the checks; the code renders them
  as the text of \<open>ConstraintsInvalid\<close>.
\<close>

datatype constraints_problem =
    TtlZeroSeconds | TtlAboveMax u32 | MaxRuntimeZero | MaxConcurrentZero | ExpiryNotFuture instant

datatype policy_error =
    SubjectUnauthenticated
  | EnrichmentUnavailable
  | BundleLoad string
  | SchemaInvalid string
  | ConstraintsInvalid constraints_problem
  | ConditionParse string
  | ConditionEval string
  | InvalidPolicyBundle string
  | BundleSignatureInvalid
  | BundleVersionMismatch string string
  | BundleUnknownAuthority string

definition validate_constraints :: "instant \<Rightarrow> constraints \<Rightarrow> (policy_error, unit) result" where
  "validate_constraints now c =
     (if c_ttl_seconds c = 0 then Err (ConstraintsInvalid TtlZeroSeconds)
      else if MAX_TTL_SECONDS < c_ttl_seconds c
      then Err (ConstraintsInvalid (TtlAboveMax (c_ttl_seconds c)))
      else if max_runtime_seconds c = Some 0 then Err (ConstraintsInvalid MaxRuntimeZero)
      else if max_concurrent_per_subject c = Some 0 then Err (ConstraintsInvalid MaxConcurrentZero)
      else (case c_expires_at c of
              None \<Rightarrow> Ok ()
            | Some t \<Rightarrow> if t \<le> now then Err (ConstraintsInvalid (ExpiryNotFuture t)) else Ok ()))"

section \<open>Decisions\<close>

datatype decision = Unspecified | Allow | RequireApproval | Deny

record policy_decision =
  policy_decision_id :: string
  action_id :: string
  pd_request_hash :: string
  pd_bundle_version :: string
  enrichment_snapshot_id :: string
  decision :: decision
  reason_code :: string
  reason_message :: string
  pd_constraints :: constraints
  approval :: approval_requirement
  evidence_receipt_id :: string
  evaluated_at :: instant
  rules_consulted :: u32
  simulated :: bool

section \<open>Precedence and hard-deny classes\<close>

datatype rule_precedence =
    InvalidSubjectTier | HardDenyTier | EmergencyOverrideDenylist | ExplicitScopedDeny
  | ExplicitScopedAllow | AiSelfApprovalUpgrade | DefaultDenyTier

definition precedence_iter :: "rule_precedence list" where
  "precedence_iter =
     [InvalidSubjectTier, HardDenyTier, EmergencyOverrideDenylist, ExplicitScopedDeny,
      ExplicitScopedAllow, AiSelfApprovalUpgrade, DefaultDenyTier]"

datatype hard_deny_class =
    SecretRawReadByAi | RecursiveDeleteRoot | PolicyLogMutation | EvidenceLogMutation
  | DisablePolicyKernel | DisableRecoveryPath | ModifyBootChain | UntypedShellPrivileged
  | AiosFsPointerRollbackOnRecovery | PrivacyClassDowngrade

section \<open>Bundles\<close>

datatype rule_effect = EffectUnspecified | EffectAllow | EffectDeny

datatype rule_scope = Global | PerSubjectType | PerActionTarget | PerSubject | PerAction

text \<open>\<open>priority\<close> is an \<open>i32\<close>; the loader and the pipeline only carry it.\<close>

record policy_rule =
  rule_id :: string
  scope :: rule_scope
  effect :: rule_effect
  priority :: int
  rule_subjects :: "string list"
  rule_actions :: "string list"
  rule_conditions :: "string list"
  rule_constraints :: "constraints option"
  rule_approval :: "approval_requirement option"
  rule_reason_code :: string

record policy_bundle =
  bundle_version :: string
  bundle_id :: string
  created_at :: instant
  signing_authority :: string
  signature_ed25519 :: "u8 list"
  rules :: "policy_rule list"

section \<open>Enrichment and context\<close>

record object_enrichment =
  privacy_class :: "string option"
  policy_tags :: "string list"
  obj_kind :: "string option"
  lifecycle_state :: "string option"
  created_by :: "string option"

record adapter_enrichment =
  risk_template :: "string option"
  default_sandbox_profile_id :: "string option"

record enrichment_snapshot =
  snapshot_id :: string
  object :: object_enrichment
  adapter :: adapter_enrichment

definition object_enrichment_default :: object_enrichment where
  "object_enrichment_default =
     \<lparr>privacy_class = None, policy_tags = [], obj_kind = None, lifecycle_state = None,
      created_by = None\<rparr>"

definition adapter_enrichment_default :: adapter_enrichment where
  "adapter_enrichment_default = \<lparr>risk_template = None, default_sandbox_profile_id = None\<rparr>"

definition SNAPSHOT_ID_PREFIX :: string where
  "SNAPSHOT_ID_PREFIX = ''polb_snap_''"

definition ID_HEX_LEN :: nat where
  "ID_HEX_LEN = 32"

text \<open>
  \<open>compute_id\<close>: the digest of the canonical encoding of the two enrichment sections, an
  argument here because JCS and BLAKE3 are third-party; the identifier itself is not hashed.
\<close>

type_synonym snapshot_digest =
  "object_enrichment \<Rightarrow> adapter_enrichment \<Rightarrow> (string, string) result"

definition compute_id :: "snapshot_digest \<Rightarrow> enrichment_snapshot \<Rightarrow> (policy_error, string) result" where
  "compute_id digest s =
     (case digest (object s) (adapter s) of
        Inl e \<Rightarrow> Err (InvalidPolicyBundle (''enrichment snapshot canonicalize: '' @ e))
      | Inr hex \<Rightarrow> Ok (SNAPSHOT_ID_PREFIX @ take (min ID_HEX_LEN (length hex)) hex))"

definition with_fields ::
    "snapshot_digest \<Rightarrow> object_enrichment \<Rightarrow> adapter_enrichment \<Rightarrow>
     (policy_error, enrichment_snapshot) result" where
  "with_fields digest obj adp =
     (let s = \<lparr>snapshot_id = [], object = obj, adapter = adp\<rparr>
      in try_then (compute_id digest s) (\<lambda>i. Ok (s\<lparr>snapshot_id := i\<rparr>)))"

definition recompute_id ::
    "snapshot_digest \<Rightarrow> enrichment_snapshot \<Rightarrow> (policy_error, enrichment_snapshot) result" where
  "recompute_id digest s = try_then (compute_id digest s) (\<lambda>i. Ok (s\<lparr>snapshot_id := i\<rparr>))"

record policy_context =
  subject :: hydrated_subject
  enrichment :: enrichment_snapshot
  ctx_bundle_version :: string
  code_version :: string

lemma validate_constraints_Ok_iff:
  "validate_constraints now c = Ok () \<longleftrightarrow>
     0 < c_ttl_seconds c \<and> c_ttl_seconds c \<le> MAX_TTL_SECONDS \<and>
     max_runtime_seconds c \<noteq> Some 0 \<and> max_concurrent_per_subject c \<noteq> Some 0 \<and>
     (\<forall>t. c_expires_at c = Some t \<longrightarrow> now < t)"
  by (auto simp: validate_constraints_def not_less word_neq_0_conv [symmetric]
      split: option.splits if_splits)

lemma constraints_default_valid: "validate_constraints now constraints_default = Ok ()"
  by (simp add: validate_constraints_Ok_iff constraints_default_def DEFAULT_TTL_SECONDS_def
      MAX_TTL_SECONDS_def)

text \<open>Two subjects for the instances of the properties: an AI agent and a human operator.\<close>

definition sample_subject :: hydrated_subject where
  "sample_subject =
     \<lparr>canonical_subject_id = ''agent:a1'', subject_type = Agent, groups = [''dev''],
      capabilities = [''fs.read''], session_class = ''INTERNAL'', recovery_mode = False,
      is_ai = True\<rparr>"

definition sample_operator :: hydrated_subject where
  "sample_operator =
     sample_subject\<lparr>canonical_subject_id := ''human:op'', subject_type := Human, is_ai := False\<rparr>"

end
