(* ===== verification/Policy_Hard_Deny.thy ===== *)
theory Policy_Hard_Deny
  imports Policy_Types
begin

text \<open>
  The hard-deny engine, \<open>hard_deny_engine.rs\<close>: ten classes of requests that no rule and no
  override can allow, each recognised by its own detector, checked in the order of the
  constitutional table. The configured \<open>HashSet\<close>s are sets; the code only asks for membership
  and whether some element satisfies a test, so iteration order does not matter.
\<close>

section \<open>Configuration\<close>

record hard_deny_engine_config =
  secret_raw_read_actions :: "string set"
  recursive_delete_actions :: "string set"
  protected_roots :: "string set"
  recovery_partition_prefixes :: "string list"
  policy_log_mutation_actions :: "string set"
  evidence_log_mutation_actions :: "string set"
  disable_policy_kernel_actions :: "string set"
  disable_recovery_path_actions :: "string set"
  modify_boot_chain_actions :: "string set"
  untyped_shell_actions :: "string set"
  privileged_groups :: "string set"
  privileged_capabilities :: "string set"
  aiosfs_pointer_rollback_actions :: "string set"
  privacy_class_downgrade_actions :: "string set"

definition spec_defaults :: hard_deny_engine_config where
  "spec_defaults =
     \<lparr>secret_raw_read_actions =
        {''vault.read_raw'', ''secret.read_raw'', ''secret.reveal'', ''vault.reveal''},
      recursive_delete_actions =
        {''aiosfs.recursive_delete'', ''aiosfs.delete_recursive'', ''fs.rm_rf'',
         ''fs.recursive_delete''},
      protected_roots = {''/'', ''/home'', ''/root'', ''/aios''},
      recovery_partition_prefixes = [''/recovery'', ''/boot/recovery'', ''/aios/recovery''],
      policy_log_mutation_actions =
        {''policy.log.delete'', ''policy.log.mutate'', ''policy.log.truncate'',
         ''policy.log.rewrite''},
      evidence_log_mutation_actions =
        {''evidence.log.delete'', ''evidence.log.mutate'', ''evidence.log.truncate'',
         ''evidence.log.rewrite'', ''evidence.tamper''},
      disable_policy_kernel_actions =
        {''policy_kernel.disable'', ''policy.kernel.disable'', ''policy.kernel.stop''},
      disable_recovery_path_actions =
        {''recovery.disable'', ''recovery.path.disable'', ''recovery.partition.disable''},
      modify_boot_chain_actions =
        {''boot.chain.modify'', ''boot.loader.modify'', ''boot.efi.modify'', ''bootloader.modify''},
      untyped_shell_actions =
        {''shell.exec_untyped'', ''shell.untyped'', ''shell.exec_free_form''},
      privileged_groups = {''root'', ''sudo'', ''wheel'', ''privileged'', ''operators''},
      privileged_capabilities = {''shell.untyped'', ''system_admin'', ''root_shell''},
      aiosfs_pointer_rollback_actions = {''aiosfs.pointer.rollback'', ''aiosfs.pointer.revert''},
      privacy_class_downgrade_actions =
        {''aiosfs.object.set_privacy_class'', ''object.privacy.downgrade'',
         ''aiosfs.privacy.downgrade''}\<rparr>"

section \<open>Helpers\<close>

definition target_string_field :: "action_envelope \<Rightarrow> string \<Rightarrow> string option" where
  "target_string_field env key =
     Option.bind (as_object (target (env_request env)))
       (\<lambda>m. Option.bind (map_of m key) as_str)"

definition normalise_path :: "string \<Rightarrow> string" where
  "normalise_path p =
     (if 1 < length p \<and> suffix ''/'' p then trim_end_matches (CHR ''/'') p else p)"

definition privacy_rank :: "string \<Rightarrow> u8" where
  "privacy_rank c =
     (if c = ''PUBLIC'' then 0
      else if c = ''INTERNAL'' then 1
      else if c = ''CONFIDENTIAL'' then 2
      else if c = ''SECRET'' then 3
      else if c = ''TOP_SECRET'' then 4
      else - 1)"

section \<open>Detectors\<close>

definition detect_secret_raw_read_by_ai ::
    "hard_deny_engine_config \<Rightarrow> action_envelope \<Rightarrow> hydrated_subject \<Rightarrow> bool" where
  "detect_secret_raw_read_by_ai cfg env subj \<longleftrightarrow>
     is_ai subj \<and> action (env_request env) \<in> secret_raw_read_actions cfg"

definition detect_recursive_delete_root :: "hard_deny_engine_config \<Rightarrow> action_envelope \<Rightarrow> bool" where
  "detect_recursive_delete_root cfg env \<longleftrightarrow>
     (if action (env_request env) \<notin> recursive_delete_actions cfg then False
      else (case target_string_field env ''path'' of
              None \<Rightarrow> False
            | Some path \<Rightarrow>
                let normalised = normalise_path path in
                if normalised \<in> protected_roots cfg then True
                else if \<exists>root \<in> protected_roots cfg.
                     root = ''/'' \<or> prefix (root @ ''/'') normalised
                then True
                else list_ex (\<lambda>p. normalised = p \<or> prefix (p @ ''/'') normalised)
                       (recovery_partition_prefixes cfg)))"

definition detect_policy_log_mutation :: "hard_deny_engine_config \<Rightarrow> action_envelope \<Rightarrow> bool" where
  "detect_policy_log_mutation cfg env \<longleftrightarrow>
     action (env_request env) \<in> policy_log_mutation_actions cfg"

definition detect_evidence_log_mutation :: "hard_deny_engine_config \<Rightarrow> action_envelope \<Rightarrow> bool" where
  "detect_evidence_log_mutation cfg env \<longleftrightarrow>
     action (env_request env) \<in> evidence_log_mutation_actions cfg"

definition detect_disable_policy_kernel :: "hard_deny_engine_config \<Rightarrow> action_envelope \<Rightarrow> bool" where
  "detect_disable_policy_kernel cfg env \<longleftrightarrow>
     action (env_request env) \<in> disable_policy_kernel_actions cfg"

definition detect_disable_recovery_path :: "hard_deny_engine_config \<Rightarrow> action_envelope \<Rightarrow> bool" where
  "detect_disable_recovery_path cfg env \<longleftrightarrow>
     action (env_request env) \<in> disable_recovery_path_actions cfg"

definition detect_modify_boot_chain :: "hard_deny_engine_config \<Rightarrow> action_envelope \<Rightarrow> bool" where
  "detect_modify_boot_chain cfg env \<longleftrightarrow>
     action (env_request env) \<in> modify_boot_chain_actions cfg"

definition detect_untyped_shell_privileged ::
    "hard_deny_engine_config \<Rightarrow> action_envelope \<Rightarrow> hydrated_subject \<Rightarrow> bool" where
  "detect_untyped_shell_privileged cfg env subj \<longleftrightarrow>
     (if action (env_request env) \<notin> untyped_shell_actions cfg then False
      else list_ex (\<lambda>g. g \<in> privileged_groups cfg) (groups subj) \<or>
           list_ex (\<lambda>c. c \<in> privileged_capabilities cfg) (capabilities subj))"

definition detect_aios_fs_pointer_rollback_on_recovery ::
    "hard_deny_engine_config \<Rightarrow> action_envelope \<Rightarrow> bool" where
  "detect_aios_fs_pointer_rollback_on_recovery cfg env \<longleftrightarrow>
     action (env_request env) \<in> aiosfs_pointer_rollback_actions cfg"

definition detect_privacy_class_downgrade :: "hard_deny_engine_config \<Rightarrow> action_envelope \<Rightarrow> bool" where
  "detect_privacy_class_downgrade cfg env \<longleftrightarrow>
     (if action (env_request env) \<notin> privacy_class_downgrade_actions cfg then False
      else (case (target_string_field env ''current_class'', target_string_field env ''new_class'') of
              (Some current, Some new) \<Rightarrow> privacy_rank new < privacy_rank current
            | _ \<Rightarrow> True))"

section \<open>The check\<close>

definition check ::
    "hard_deny_engine_config \<Rightarrow> action_envelope \<Rightarrow> hydrated_subject \<Rightarrow> hard_deny_class option" where
  "check cfg env subj =
     (if detect_secret_raw_read_by_ai cfg env subj then Some SecretRawReadByAi
      else if detect_recursive_delete_root cfg env then Some RecursiveDeleteRoot
      else if detect_policy_log_mutation cfg env then Some PolicyLogMutation
      else if detect_evidence_log_mutation cfg env then Some EvidenceLogMutation
      else if detect_disable_policy_kernel cfg env then Some DisablePolicyKernel
      else if detect_disable_recovery_path cfg env then Some DisableRecoveryPath
      else if detect_modify_boot_chain cfg env then Some ModifyBootChain
      else if detect_untyped_shell_privileged cfg env subj then Some UntypedShellPrivileged
      else if detect_aios_fs_pointer_rollback_on_recovery cfg env
      then Some AiosFsPointerRollbackOnRecovery
      else if detect_privacy_class_downgrade cfg env then Some PrivacyClassDowngrade
      else None)"

fun reason_code_for :: "hard_deny_class \<Rightarrow> string" where
  "reason_code_for SecretRawReadByAi = ''HardDeny:SecretRawReadByAi''"
| "reason_code_for RecursiveDeleteRoot = ''HardDeny:RecursiveDeleteRoot''"
| "reason_code_for PolicyLogMutation = ''HardDeny:PolicyLogMutation''"
| "reason_code_for EvidenceLogMutation = ''HardDeny:EvidenceLogMutation''"
| "reason_code_for DisablePolicyKernel = ''HardDeny:DisablePolicyKernel''"
| "reason_code_for DisableRecoveryPath = ''HardDeny:DisableRecoveryPath''"
| "reason_code_for ModifyBootChain = ''HardDeny:ModifyBootChain''"
| "reason_code_for UntypedShellPrivileged = ''HardDeny:UntypedShellPrivileged''"
| "reason_code_for AiosFsPointerRollbackOnRecovery = ''HardDeny:AiosFsPointerRollbackOnRecovery''"
| "reason_code_for PrivacyClassDowngrade = ''HardDeny:PrivacyClassDowngrade''"

text \<open>The section sign of the messages, in UTF-8.\<close>

abbreviation section_sign :: string where
  "section_sign \<equiv> [CHR 0xC2, CHR 0xA7]"

fun reason_base :: "hard_deny_class \<Rightarrow> string" where
  "reason_base SecretRawReadByAi =
     ''raw secret read by AI subject is constitutionally forbidden (S2.3 '' @ section_sign @ ''6 row 1)''"
| "reason_base RecursiveDeleteRoot =
     ''recursive deletion of a protected root path is constitutionally forbidden (S2.3 '' @ section_sign @ ''6 row 2)''"
| "reason_base PolicyLogMutation =
     ''mutation of the policy log is constitutionally forbidden (S2.3 '' @ section_sign @ ''6 row 3)''"
| "reason_base EvidenceLogMutation =
     ''mutation of the evidence log is constitutionally forbidden (S2.3 '' @ section_sign @ ''6 row 4)''"
| "reason_base DisablePolicyKernel =
     ''disabling the Policy Kernel is constitutionally forbidden (S2.3 '' @ section_sign @ ''6 row 5)''"
| "reason_base DisableRecoveryPath =
     ''disabling the recovery path is constitutionally forbidden (S2.3 '' @ section_sign @ ''6 row 6)''"
| "reason_base ModifyBootChain =
     ''modifying the boot chain is constitutionally forbidden (S2.3 '' @ section_sign @ ''6 row 7)''"
| "reason_base UntypedShellPrivileged =
     ''untyped shell execution as a privileged subject is constitutionally forbidden (S2.3 '' @ section_sign @ ''6 row 8)''"
| "reason_base AiosFsPointerRollbackOnRecovery =
     ''rolling back recovery-essential AIOS-FS pointers is constitutionally forbidden (S2.3 '' @ section_sign @ ''6 row 9)''"
| "reason_base PrivacyClassDowngrade =
     ''lowering an object's privacy class is constitutionally forbidden (S2.3 '' @ section_sign @ ''6 row 10)''"

definition has_recovery_override_path :: "hard_deny_class \<Rightarrow> bool" where
  "has_recovery_override_path cls \<longleftrightarrow>
     cls = ModifyBootChain \<or> cls = AiosFsPointerRollbackOnRecovery"

definition reason_message_for :: "hard_deny_class \<Rightarrow> string" where
  "reason_message_for cls =
     (if cls = ModifyBootChain \<or> cls = AiosFsPointerRollbackOnRecovery
      then reason_base cls @ '' (override path: recovery-mode operator approval)''
      else reason_base cls)"

section \<open>Properties\<close>

text \<open>The detector of each class, and the order of the constitutional table.\<close>

fun detects ::
    "hard_deny_engine_config \<Rightarrow> action_envelope \<Rightarrow> hydrated_subject \<Rightarrow> hard_deny_class \<Rightarrow> bool" where
  "detects cfg env subj SecretRawReadByAi = detect_secret_raw_read_by_ai cfg env subj"
| "detects cfg env subj RecursiveDeleteRoot = detect_recursive_delete_root cfg env"
| "detects cfg env subj PolicyLogMutation = detect_policy_log_mutation cfg env"
| "detects cfg env subj EvidenceLogMutation = detect_evidence_log_mutation cfg env"
| "detects cfg env subj DisablePolicyKernel = detect_disable_policy_kernel cfg env"
| "detects cfg env subj DisableRecoveryPath = detect_disable_recovery_path cfg env"
| "detects cfg env subj ModifyBootChain = detect_modify_boot_chain cfg env"
| "detects cfg env subj UntypedShellPrivileged = detect_untyped_shell_privileged cfg env subj"
| "detects cfg env subj AiosFsPointerRollbackOnRecovery =
     detect_aios_fs_pointer_rollback_on_recovery cfg env"
| "detects cfg env subj PrivacyClassDowngrade = detect_privacy_class_downgrade cfg env"

definition hard_deny_table :: "hard_deny_class list" where
  "hard_deny_table =
     [SecretRawReadByAi, RecursiveDeleteRoot, PolicyLogMutation, EvidenceLogMutation,
      DisablePolicyKernel, DisableRecoveryPath, ModifyBootChain, UntypedShellPrivileged,
      AiosFsPointerRollbackOnRecovery, PrivacyClassDowngrade]"

lemma hard_deny_table_complete: "cls \<in> set hard_deny_table"
  by (cases cls) (simp_all add: hard_deny_table_def)

lemma check_find: "check cfg env subj = find (detects cfg env subj) hard_deny_table"
  by (simp add: check_def hard_deny_table_def)

lemma check_None: "check cfg env subj = None \<longleftrightarrow> (\<forall>cls. \<not> detects cfg env subj cls)"
  using hard_deny_table_complete by (auto simp: check_find find_None_iff)

lemma check_Some: "check cfg env subj = Some cls \<Longrightarrow> detects cfg env subj cls"
  by (auto simp: check_find find_Some_iff)

text \<open>The actions by which each class is recognised.\<close>

fun class_actions :: "hard_deny_engine_config \<Rightarrow> hard_deny_class \<Rightarrow> string set" where
  "class_actions cfg SecretRawReadByAi = secret_raw_read_actions cfg"
| "class_actions cfg RecursiveDeleteRoot = recursive_delete_actions cfg"
| "class_actions cfg PolicyLogMutation = policy_log_mutation_actions cfg"
| "class_actions cfg EvidenceLogMutation = evidence_log_mutation_actions cfg"
| "class_actions cfg DisablePolicyKernel = disable_policy_kernel_actions cfg"
| "class_actions cfg DisableRecoveryPath = disable_recovery_path_actions cfg"
| "class_actions cfg ModifyBootChain = modify_boot_chain_actions cfg"
| "class_actions cfg UntypedShellPrivileged = untyped_shell_actions cfg"
| "class_actions cfg AiosFsPointerRollbackOnRecovery = aiosfs_pointer_rollback_actions cfg"
| "class_actions cfg PrivacyClassDowngrade = privacy_class_downgrade_actions cfg"

lemmas detect_defs = detect_secret_raw_read_by_ai_def detect_recursive_delete_root_def
  detect_policy_log_mutation_def detect_evidence_log_mutation_def detect_disable_policy_kernel_def
  detect_disable_recovery_path_def detect_modify_boot_chain_def detect_untyped_shell_privileged_def
  detect_aios_fs_pointer_rollback_on_recovery_def detect_privacy_class_downgrade_def

lemma detects_action:
  "detects cfg env subj cls \<Longrightarrow> action (env_request env) \<in> class_actions cfg cls"
  by (cases cls) (auto simp: detect_defs split: if_splits)

text \<open>The spec defaults name every action in one class only.\<close>

definition default_class_of :: "string \<Rightarrow> hard_deny_class option" where
  "default_class_of a = find (\<lambda>cls. a \<in> class_actions spec_defaults cls) hard_deny_table"

lemma default_class_of_all: "\<forall>a \<in> class_actions spec_defaults cls. default_class_of a = Some cls"
  by (cases cls) (simp_all add: default_class_of_def hard_deny_table_def spec_defaults_def)

lemma default_class_of:
  "a \<in> class_actions spec_defaults cls \<Longrightarrow> default_class_of a = Some cls"
  using default_class_of_all by blast

lemma default_detects_class:
  "detects spec_defaults env subj cls \<Longrightarrow> default_class_of (action (env_request env)) = Some cls"
  using detects_action default_class_of by blast

lemma default_check_iff:
  "check spec_defaults env subj = Some cls \<longleftrightarrow> detects spec_defaults env subj cls"
proof
  assume d: "detects spec_defaults env subj cls"
  then obtain cls' where c: "check spec_defaults env subj = Some cls'"
    using check_None by fastforce
  then show "check spec_defaults env subj = Some cls"
    using d default_detects_class [OF d] default_detects_class [OF check_Some [OF c]] by simp
qed (rule check_Some)

text \<open>
  The engine reports the first class of the constitutional table whose detector fires,
  and nothing exactly when no detector fires, for every configuration.
\<close>

theorem check_first_match:
  "check cfg env subj = find (detects cfg env subj) hard_deny_table \<and>
   (check cfg env subj = None \<longleftrightarrow> \<not> (\<exists>cls. detects cfg env subj cls))"
  using check_find check_None by blast

text \<open>
  With the spec defaults the ten classes exclude one another, so the engine reports a
  class exactly when that class's detector fires, whatever the order of the checks.
\<close>

theorem default_classes_exclusive:
  "(check spec_defaults env subj = Some cls) = detects spec_defaults env subj cls"
  by (rule default_check_iff)

text \<open>
  Under the spec defaults a recursive delete of any path whatsoever is denied, because
  the root directory is one of the protected roots: the request needs only a string path.
\<close>

theorem recursive_delete_always_denied:
  assumes "action (env_request env) \<in> recursive_delete_actions spec_defaults"
    and "target_string_field env ''path'' = Some path"
  shows "check spec_defaults env subj = Some RecursiveDeleteRoot"
proof -
  have "''/'' \<in> protected_roots spec_defaults" by (simp add: spec_defaults_def)
  then show ?thesis
    using assms by (auto simp: default_check_iff detect_recursive_delete_root_def Let_def)
qed

definition delete_envelope :: action_envelope where
  "delete_envelope =
     envelope_new (identity_new ''user:u'' False)
       (request_new ''fs.rm_rf'' (JObject [(''path'', JString ''/srv/data'')]))
       \<lparr>trace_id = ''t'', span_id = ''s'', parent_span_id = None\<rparr> 0"

theorem recursive_delete_always_denied_witness:
  "check spec_defaults delete_envelope sample_operator = Some RecursiveDeleteRoot"
  by (rule recursive_delete_always_denied [where path = "''/srv/data''"])
    (simp_all add: delete_envelope_def envelope_new_def request_new_def spec_defaults_def
      target_string_field_def)

definition privacy_ladder :: "string list" where
  "privacy_ladder = [''PUBLIC'', ''INTERNAL'', ''CONFIDENTIAL'', ''SECRET'', ''TOP_SECRET'']"

lemma privacy_rank_unknown: "c \<notin> set privacy_ladder \<Longrightarrow> privacy_rank c = - 1"
  by (simp add: privacy_rank_def privacy_ladder_def)

text \<open>
  A privacy change to a class outside the ladder is not denied. Unknown classes rank above
  every known class, so naming one as the new class of an object, whatever its current class,
  passes the downgrade detector and the whole default engine.
\<close>

theorem unknown_new_class_not_denied:
  assumes "action (env_request env) \<in> privacy_class_downgrade_actions spec_defaults"
    and "target_string_field env ''current_class'' = Some current"
    and "target_string_field env ''new_class'' = Some new" and "new \<notin> set privacy_ladder"
  shows "check spec_defaults env subj = None"
proof -
  have only: "default_class_of (action (env_request env)) = Some PrivacyClassDowngrade"
    using assms(1) by (intro default_class_of) simp
  have "\<not> privacy_rank new < privacy_rank current"
    using privacy_rank_unknown [OF assms(4)] by (simp add: not_less)
  then have "\<not> detects spec_defaults env subj PrivacyClassDowngrade"
    using assms by (simp add: detect_privacy_class_downgrade_def)
  then have "\<not> detects spec_defaults env subj cls" for cls
    using only default_detects_class [of env subj cls] by auto
  then show ?thesis using check_None by blast
qed

definition reclass_envelope :: action_envelope where
  "reclass_envelope =
     envelope_new (identity_new ''agent:a'' True)
       (request_new ''object.privacy.downgrade''
          (JObject [(''current_class'', JString ''TOP_SECRET''), (''new_class'', JString ''public'')]))
       \<lparr>trace_id = ''t'', span_id = ''s'', parent_span_id = None\<rparr> 0"

theorem unknown_new_class_not_denied_witness:
  "check spec_defaults reclass_envelope sample_subject = None"
  by (rule unknown_new_class_not_denied [where current = "''TOP_SECRET''" and new = "''public''"])
    (simp_all add: reclass_envelope_def envelope_new_def request_new_def spec_defaults_def
      target_string_field_def privacy_ladder_def)

end
