(* ===== verification/Policy_Override.thy ===== *)
theory Policy_Override
  imports Policy_Types
begin

text \<open>
  Emergency overrides, \<open>override_boundary.rs\<close>. The grants are the map behind the boundary's
  lock; every method takes the lock for its whole critical section and recovers a poisoned
  lock, so a method is one step on the map. The identifier of a new grant comes from the ULID
  generator and is an argument. A run of the boundary is a list of operations.
\<close>

section \<open>Grants\<close>

definition MAX_OVERRIDE_TTL_SECONDS :: u64 where
  "MAX_OVERRIDE_TTL_SECONDS = 24 * 60 * 60"

record override_scope =
  os_rule_id :: string
  os_action :: string
  os_subjects :: "string list"

record override_request =
  granted_by_subject :: hydrated_subject
  req_scope :: override_scope
  req_reason :: string
  ttl_seconds :: u64
  attempted_hard_deny :: "hard_deny_class option"

record emergency_override =
  override_id :: string
  granted_by_subject_id :: string
  granted_at :: instant
  eo_expires_at :: instant
  eo_scope :: override_scope
  eo_reason :: string
  revoked :: bool

definition is_expired_or_revoked :: "instant \<Rightarrow> emergency_override \<Rightarrow> bool" where
  "is_expired_or_revoked now g \<longleftrightarrow> revoked g \<or> eo_expires_at g \<le> now"

datatype override_error =
    HardDenyCannotBeOverridden hard_deny_class
  | HumanOnly string
  | OvrTtlExceeded u64 u64
  | ScopeInvalid
  | OvrTtlZero

type_synonym override_boundary = "(string \<times> emergency_override) list"

definition boundary_new :: override_boundary where
  "boundary_new = []"

section \<open>Operations\<close>

text \<open>\<open>i64::try_from(ttl).unwrap_or(i32::MAX)\<close>.\<close>

definition ttl_i64 :: "u64 \<Rightarrow> int" where
  "ttl_i64 ttl = (if i64_range (uint ttl) then uint ttl else 2 ^ 31 - 1)"

text \<open>The grant record that \<open>request_override_at\<close> builds.\<close>

definition new_grant :: "string \<Rightarrow> override_request \<Rightarrow> instant \<Rightarrow> emergency_override" where
  "new_grant ulid req now =
     \<lparr>override_id = ''ovr_'' @ ulid,
      granted_by_subject_id = canonical_subject_id (granted_by_subject req),
      granted_at = now,
      eo_expires_at = now + duration_seconds (ttl_i64 (ttl_seconds req)),
      eo_scope = req_scope req, eo_reason = req_reason req, revoked = False\<rparr>"

definition request_override_at ::
    "string \<Rightarrow> override_request \<Rightarrow> instant \<Rightarrow> override_boundary \<Rightarrow>
     (override_error, emergency_override) result \<times> override_boundary" where
  "request_override_at ulid req now b =
     (case attempted_hard_deny req of
        Some cls \<Rightarrow> (Err (HardDenyCannotBeOverridden cls), b)
      | None \<Rightarrow>
          if is_ai (granted_by_subject req)
          then (Err (HumanOnly (canonical_subject_id (granted_by_subject req))), b)
          else if ttl_seconds req = 0 then (Err OvrTtlZero, b)
          else if MAX_OVERRIDE_TTL_SECONDS < ttl_seconds req
          then (Err (OvrTtlExceeded (ttl_seconds req) MAX_OVERRIDE_TTL_SECONDS), b)
          else if os_action (req_scope req) = [] then (Err ScopeInvalid, b)
          else
            let grant = new_grant ulid req now
            in (Ok grant, AList.update (override_id grant) grant b))"

definition in_scope :: "string \<Rightarrow> string \<Rightarrow> emergency_override \<Rightarrow> bool" where
  "in_scope act subj g \<longleftrightarrow>
     os_action (eo_scope g) = act \<and>
     (os_subjects (eo_scope g) = [] \<or> list_ex (\<lambda>s. s = subj) (os_subjects (eo_scope g)))"

definition is_overridden_at ::
    "string \<Rightarrow> string \<Rightarrow> instant \<Rightarrow> override_boundary \<Rightarrow> emergency_override option" where
  "is_overridden_at act subj now b =
     find (\<lambda>g. \<not> is_expired_or_revoked now g \<and> in_scope act subj g) (map snd b)"

definition revoke :: "string \<Rightarrow> override_boundary \<Rightarrow> bool \<times> override_boundary" where
  "revoke oid b =
     (case map_of b oid of
        Some g \<Rightarrow>
          if \<not> revoked g then (True, AList.update oid (g\<lparr>revoked := True\<rparr>) b) else (False, b)
      | None \<Rightarrow> (False, b))"

definition invalidate_for_bundle_flip :: "override_boundary \<Rightarrow> nat \<times> override_boundary" where
  "invalidate_for_bundle_flip b = (length b, [])"

definition boundary_len :: "override_boundary \<Rightarrow> nat" where
  "boundary_len b = length b"

definition boundary_is_empty :: "override_boundary \<Rightarrow> bool" where
  "boundary_is_empty b \<longleftrightarrow> boundary_len b = 0"

definition prune_expired :: "instant \<Rightarrow> override_boundary \<Rightarrow> nat \<times> override_boundary" where
  "prune_expired now b =
     (let to_remove = map fst (filter (\<lambda>(_, g). is_expired_or_revoked now g) b)
      in (length to_remove, fold AList.delete to_remove b))"

definition boundary_snapshot :: "override_boundary \<Rightarrow> emergency_override list" where
  "boundary_snapshot b = map snd b"

section \<open>Runs\<close>

datatype override_op =
    OpRequest string override_request instant
  | OpRevoke string
  | OpBundleFlip
  | OpPrune instant

fun override_apply :: "override_op \<Rightarrow> override_boundary \<Rightarrow> override_boundary" where
  "override_apply (OpRequest ulid req now) b = snd (request_override_at ulid req now b)"
| "override_apply (OpRevoke oid) b = snd (revoke oid b)"
| "override_apply OpBundleFlip b = snd (invalidate_for_bundle_flip b)"
| "override_apply (OpPrune now) b = snd (prune_expired now b)"

definition boundary_after :: "override_op list \<Rightarrow> override_boundary" where
  "boundary_after ops = fold override_apply ops boundary_new"

section \<open>Invariants of the boundary\<close>

definition accepted :: "override_request \<Rightarrow> bool" where
  "accepted req \<longleftrightarrow>
     attempted_hard_deny req = None \<and> \<not> is_ai (granted_by_subject req) \<and>
     0 < ttl_seconds req \<and> ttl_seconds req \<le> MAX_OVERRIDE_TTL_SECONDS \<and>
     os_action (req_scope req) \<noteq> []"

lemma request_accepted:
  "accepted req \<Longrightarrow> request_override_at ulid req now b =
     (Ok (new_grant ulid req now), AList.update (''ovr_'' @ ulid) (new_grant ulid req now) b)"
  by (auto simp: accepted_def request_override_at_def new_grant_def Let_def)

lemma request_refused:
  "\<not> accepted req \<Longrightarrow> \<exists>e. request_override_at ulid req now b = (Err e, b)"
  by (auto simp: accepted_def request_override_at_def not_less word_neq_0_conv [symmetric]
      split: option.splits)

lemma accepted_ttl: "accepted req \<Longrightarrow> ttl_i64 (ttl_seconds req) = uint (ttl_seconds req)"
proof -
  assume "accepted req"
  then have "uint (ttl_seconds req) \<le> 86400"
    by (simp add: accepted_def MAX_OVERRIDE_TTL_SECONDS_def word_le_def)
  moreover have "- (2 ^ 63) \<le> uint (ttl_seconds req)"
    by (rule order_trans [of _ 0]) simp_all
  ultimately show ?thesis by (simp add: ttl_i64_def i64_range_def)
qed

definition boundary_inv :: "override_boundary \<Rightarrow> bool" where
  "boundary_inv b \<longleftrightarrow>
     distinct (map fst b) \<and> (\<forall>k g. map_of b k = Some g \<longrightarrow> override_id g = k)"

lemma fold_delete: "fold AList.delete ks b = filter (\<lambda>(k, _). k \<notin> set ks) b"
proof (induction ks arbitrary: b)
  case (Cons k ks)
  then show ?case by (auto simp: AList.delete_eq intro: filter_cong)
qed simp

lemma prune_filter:
  assumes "distinct (map fst b)"
  shows "snd (prune_expired now b) = filter (\<lambda>(_, g). \<not> is_expired_or_revoked now g) b"
proof -
  have "k \<in> fst ` {(k, g) \<in> set b. is_expired_or_revoked now g} \<longleftrightarrow> is_expired_or_revoked now g"
    if "(k, g) \<in> set b" for k g
    using that assms by (auto simp: image_iff split: prod.splits) (metis map_of_is_SomeI option.inject)
  then show ?thesis
    by (auto simp: prune_expired_def fold_delete Let_def intro!: filter_cong)
qed

lemma prune_lookup:
  assumes "distinct (map fst b)"
  shows "map_of (snd (prune_expired now b)) k =
    (case map_of b k of Some g \<Rightarrow> if is_expired_or_revoked now g then None else Some g | None \<Rightarrow> None)"
  using assms by (induction b) (auto simp: prune_filter map_of_eq_None_iff split: option.splits)

lemma inv_new: "boundary_inv boundary_new"
  by (simp add: boundary_inv_def boundary_new_def)

lemma inv_update:
  "boundary_inv b \<Longrightarrow> override_id g = k \<Longrightarrow> boundary_inv (AList.update k g b)"
  by (auto simp: boundary_inv_def hm.invar_insert hm.lookup_insert)

lemma inv_apply: "boundary_inv b \<Longrightarrow> boundary_inv (override_apply op b)"
proof (cases op)
  case (OpRequest ulid req now)
  assume inv: "boundary_inv b"
  show ?thesis
  proof (cases "accepted req")
    case True
    then show ?thesis
      using OpRequest inv by (simp add: request_accepted inv_update new_grant_def)
  next
    case False
    then show ?thesis using OpRequest inv request_refused [OF False, of ulid now b] by auto
  qed
next
  case (OpRevoke oid)
  assume "boundary_inv b"
  then show ?thesis using OpRevoke
    by (auto simp: revoke_def inv_update boundary_inv_def [of b] split: option.splits
        intro!: inv_update)
next
  case OpBundleFlip
  then show ?thesis using inv_new by (simp add: invalidate_for_bundle_flip_def boundary_new_def)
next
  case (OpPrune now)
  assume "boundary_inv b"
  then show ?thesis using OpPrune
    by (auto simp: boundary_inv_def prune_lookup prune_filter distinct_map_filter
        split: option.splits if_splits)
qed

lemma inv_after: "boundary_inv b \<Longrightarrow> boundary_inv (fold override_apply ops b)"
  by (induction ops arbitrary: b) (simp_all add: inv_apply)

lemma boundary_after_inv: "boundary_inv (boundary_after ops)"
  unfolding boundary_after_def by (rule inv_after [OF inv_new])

lemma in_force:
  assumes "boundary_inv b"
  shows "is_overridden_at act subj now b = Some g \<Longrightarrow>
    map_of b (override_id g) = Some g \<and> \<not> is_expired_or_revoked now g \<and> in_scope act subj g"
proof -
  assume "is_overridden_at act subj now b = Some g"
  then obtain k where "(k, g) \<in> set b" "\<not> is_expired_or_revoked now g" "in_scope act subj g"
    by (auto simp: is_overridden_at_def find_Some_iff) (metis nth_mem prod.collapse)
  then show ?thesis using assms by (auto simp: boundary_inv_def)
qed

section \<open>Where the grants in force come from\<close>

text \<open>A grant is traced to a run when some accepted request of the run built it.\<close>

definition traced :: "override_op list \<Rightarrow> emergency_override \<Rightarrow> bool" where
  "traced ops g \<longleftrightarrow>
     (\<exists>ulid req t r. OpRequest ulid req t \<in> set ops \<and> accepted req \<and>
        g = (new_grant ulid req t)\<lparr>revoked := r\<rparr>)"

lemma traced_mono: "traced ops g \<Longrightarrow> traced (ops @ [op]) g"
  by (fastforce simp: traced_def)

lemma traced_revoke: "traced ops g \<Longrightarrow> traced ops (g\<lparr>revoked := True\<rparr>)"
  by (fastforce simp: traced_def)

lemma new_grant_unrevoked: "(new_grant ulid req t)\<lparr>revoked := False\<rparr> = new_grant ulid req t"
  by (simp add: new_grant_def)

lemma traced_step:
  assumes inv: "boundary_inv b" and old: "\<And>k g. map_of b k = Some g \<Longrightarrow> traced ops g"
    and "map_of (override_apply op b) k = Some g"
  shows "traced (ops @ [op]) g"
proof (cases op)
  case (OpRequest ulid req t)
  have dist: "distinct (map fst b)" using inv by (simp add: boundary_inv_def)
  show ?thesis
  proof (cases "accepted req \<and> k = ''ovr_'' @ ulid")
    case True
    then have "g = (new_grant ulid req t)\<lparr>revoked := False\<rparr>"
      using assms(3) OpRequest dist
      by (auto simp: request_accepted hm.lookup_insert new_grant_unrevoked)
    then show ?thesis using True OpRequest unfolding traced_def by fastforce
  next
    case False
    then have "map_of b k = Some g"
      using assms(3) OpRequest dist request_refused [of req ulid t b]
      by (cases "accepted req") (auto simp: request_accepted hm.lookup_insert)
    then show ?thesis using old traced_mono by blast
  qed
next
  case (OpRevoke oid)
  have dist: "distinct (map fst b)" using inv by (simp add: boundary_inv_def)
  then have "map_of b k = Some g \<or> (\<exists>h. map_of b k = Some h \<and> g = h\<lparr>revoked := True\<rparr>)"
    using assms(3) OpRevoke
    by (auto simp: revoke_def hm.lookup_insert split: option.splits if_splits)
  then show ?thesis using old traced_revoke traced_mono by blast
next
  case OpBundleFlip
  then show ?thesis using assms(3) by (simp add: invalidate_for_bundle_flip_def)
next
  case (OpPrune now)
  have "distinct (map fst b)" using inv by (simp add: boundary_inv_def)
  then have "map_of b k = Some g"
    using assms(3) OpPrune by (auto simp: prune_lookup split: option.splits if_splits)
  then show ?thesis using old traced_mono by blast
qed

lemma traced_after: "map_of (boundary_after ops) k = Some g \<Longrightarrow> traced ops g"
proof (induction ops arbitrary: k g rule: rev_induct)
  case Nil
  then show ?case by (simp add: boundary_after_def boundary_new_def)
next
  case (snoc op ops)
  show ?case
    using snoc boundary_after_inv by (intro traced_step [of "boundary_after ops" ops op k g])
      (auto simp: boundary_after_def)
qed

text \<open>What later operations do to a revoked grant.\<close>

fun creates :: "string \<Rightarrow> override_op \<Rightarrow> bool" where
  "creates oid (OpRequest ulid req t) = (''ovr_'' @ ulid = oid)"
| "creates oid _ = False"

definition dead :: "string \<Rightarrow> override_boundary \<Rightarrow> bool" where
  "dead oid b \<longleftrightarrow> (\<forall>g. map_of b oid = Some g \<longrightarrow> revoked g)"

lemma dead_revoke: "distinct (map fst b) \<Longrightarrow> dead oid (snd (revoke oid b))"
  by (auto simp: dead_def revoke_def hm.lookup_insert split: option.splits)

lemma dead_apply:
  assumes "boundary_inv b" and "dead oid b" and "\<not> creates oid op"
  shows "dead oid (override_apply op b)"
proof (cases op)
  case (OpRequest ulid req t)
  then show ?thesis
    using assms request_refused [of req ulid t b]
    by (cases "accepted req") (auto simp: dead_def boundary_inv_def request_accepted hm.lookup_insert)
next
  case (OpRevoke x)
  then show ?thesis
    using assms by (auto simp: dead_def boundary_inv_def revoke_def hm.lookup_insert split: option.splits)
next
  case (OpPrune now)
  then show ?thesis
    using assms by (auto simp: dead_def boundary_inv_def prune_lookup split: option.splits if_splits)
qed (simp_all add: dead_def invalidate_for_bundle_flip_def)

lemma dead_fold:
  "boundary_inv b \<Longrightarrow> dead oid b \<Longrightarrow> list_all (\<lambda>op. \<not> creates oid op) ops \<Longrightarrow>
   dead oid (fold override_apply ops b)"
  by (induction ops arbitrary: b) (simp_all add: dead_apply inv_apply)

lemma in_force_traced:
  assumes "is_overridden_at act subj now (boundary_after ops) = Some g"
  shows "\<exists>ulid req t.
    OpRequest ulid req t \<in> set ops \<and> g = new_grant ulid req t \<and>
    attempted_hard_deny req = None \<and> \<not> is_ai (granted_by_subject req) \<and>
    0 < ttl_seconds req \<and> unat (ttl_seconds req) \<le> 86400 \<and>
    now < t + duration_seconds (uint (ttl_seconds req)) \<and>
    os_action (req_scope req) = act \<and>
    (os_subjects (req_scope req) = [] \<or> subj \<in> set (os_subjects (req_scope req)))"
proof -
  note force = in_force [OF boundary_after_inv assms]
  then obtain ulid req t r where req: "OpRequest ulid req t \<in> set ops" "accepted req"
      "g = (new_grant ulid req t)\<lparr>revoked := r\<rparr>"
    using traced_after unfolding traced_def by blast
  have g: "g = new_grant ulid req t"
    using force req(3) by (simp add: is_expired_or_revoked_def new_grant_def)
  moreover have "now < t + duration_seconds (uint (ttl_seconds req))"
    using force accepted_ttl [OF req(2)] by (simp add: g is_expired_or_revoked_def new_grant_def)
  moreover have "unat (ttl_seconds req) \<le> 86400"
    using req(2) by (simp add: accepted_def MAX_OVERRIDE_TTL_SECONDS_def word_le_nat_alt)
  moreover have "os_action (req_scope req) = act \<and>
      (os_subjects (req_scope req) = [] \<or> subj \<in> set (os_subjects (req_scope req)))"
    using force by (auto simp: g in_scope_def new_grant_def list_ex_iff)
  ultimately show ?thesis using req(1,2) unfolding accepted_def by blast
qed

section \<open>Properties\<close>

text \<open>
  An override in force is always the unexpired grant of an accepted human request. If the
  boundary, after any run, lets a subject's action through, then the run contains a request
  issued by a non-AI subject that named no hard-deny class, whose time to live was positive, at
  most a day, and not yet over, and whose scope covers that action and that subject.
\<close>

theorem override_provenance:
  assumes "is_overridden_at act subj now (boundary_after ops) = Some g"
  shows "\<exists>ulid req t.
    OpRequest ulid req t \<in> set ops \<and> g = new_grant ulid req t \<and>
    attempted_hard_deny req = None \<and> \<not> is_ai (granted_by_subject req) \<and>
    0 < ttl_seconds req \<and> unat (ttl_seconds req) \<le> 86400 \<and>
    now < t + duration_seconds (uint (ttl_seconds req)) \<and>
    os_action (req_scope req) = act \<and>
    (os_subjects (req_scope req) = [] \<or> subj \<in> set (os_subjects (req_scope req)))"
  using assms by (rule in_force_traced)

definition sample_override :: override_request where
  "sample_override =
     \<lparr>granted_by_subject = sample_operator,
      req_scope = \<lparr>os_rule_id = [], os_action = ''svc.restart'', os_subjects = []\<rparr>,
      req_reason = ''incident'', ttl_seconds = 600, attempted_hard_deny = None\<rparr>"

lemma sample_override_accepted: "accepted sample_override"
  by (simp add: accepted_def sample_override_def sample_operator_def sample_subject_def
      MAX_OVERRIDE_TTL_SECONDS_def)

theorem override_provenance_witness:
  "\<exists>ulid req t.
    OpRequest ulid req t \<in> set [OpRequest ''U'' sample_override 0] \<and>
    new_grant ''U'' sample_override 0 = new_grant ulid req t \<and>
    attempted_hard_deny req = None \<and> \<not> is_ai (granted_by_subject req) \<and>
    0 < ttl_seconds req \<and> unat (ttl_seconds req) \<le> 86400 \<and>
    5 < t + duration_seconds (uint (ttl_seconds req)) \<and>
    os_action (req_scope req) = ''svc.restart'' \<and>
    (os_subjects (req_scope req) = [] \<or> ''human:x'' \<in> set (os_subjects (req_scope req)))"
  by (rule override_provenance)
    (simp add: boundary_after_def boundary_new_def request_accepted [OF sample_override_accepted]
      is_overridden_at_def,
     simp add: is_expired_or_revoked_def in_scope_def new_grant_def
      ttl_i64_def i64_range_def sample_override_def duration_seconds_def)

text \<open>
  Revocation is final. After a grant is revoked, no later run that does not mint the same
  identifier again brings it back, at any time and for any action and subject.
\<close>

theorem revocation_final:
  assumes "list_all (\<lambda>op. \<not> creates oid op) later"
    and "is_overridden_at act subj now (boundary_after (ops @ OpRevoke oid # later)) = Some g"
  shows "override_id g \<noteq> oid"
proof
  assume oid: "override_id g = oid"
  let ?b = "boundary_after ops"
  have inv: "boundary_inv ?b" by (rule boundary_after_inv)
  have run: "boundary_after (ops @ OpRevoke oid # later) =
      fold override_apply later (override_apply (OpRevoke oid) ?b)"
    by (simp add: boundary_after_def)
  have "dead oid (override_apply (OpRevoke oid) ?b)"
    using inv dead_revoke by (simp add: boundary_inv_def)
  then have "dead oid (fold override_apply later (override_apply (OpRevoke oid) ?b))"
    using inv_apply [OF inv] assms(1) by (intro dead_fold)
  moreover have "boundary_inv (fold override_apply later (override_apply (OpRevoke oid) ?b))"
    using inv by (intro inv_after inv_apply)
  ultimately show False
    using in_force [of "fold override_apply later (override_apply (OpRevoke oid) ?b)" act subj now g]
      assms(2) oid by (auto simp: run dead_def is_expired_or_revoked_def)
qed

theorem revocation_final_witness:
  "override_id (new_grant ''V'' sample_override 9) \<noteq> ''ovr_U''"
proof (rule revocation_final)
  show "list_all (\<lambda>op. \<not> creates ''ovr_U'' op) [OpRequest ''V'' sample_override 9]" by simp
  show "is_overridden_at ''svc.restart'' ''human:x'' 10
      (boundary_after ([OpRequest ''U'' sample_override 0] @ OpRevoke ''ovr_U'' #
         [OpRequest ''V'' sample_override 9])) = Some (new_grant ''V'' sample_override 9)"
    by (simp add: boundary_after_def boundary_new_def request_accepted [OF sample_override_accepted]
          revoke_def is_overridden_at_def)
      (simp add: is_expired_or_revoked_def in_scope_def new_grant_def
        ttl_i64_def i64_range_def sample_override_def duration_seconds_def)
qed

text \<open>
  Pruning is invisible. Removing the expired and revoked grants at some instant changes no
  answer of the boundary at that instant or later.
\<close>

theorem prune_invisible:
  assumes "t \<le> now"
  shows "is_overridden_at act subj now (boundary_after (ops @ [OpPrune t])) =
    is_overridden_at act subj now (boundary_after ops)"
proof -
  have "distinct (map fst (boundary_after ops))"
    using boundary_after_inv [of ops] by (simp add: boundary_inv_def)
  moreover have "find P (map snd (filter (\<lambda>(_, g). \<not> is_expired_or_revoked t g) b)) = find P (map snd b)"
    if "\<And>g. P g \<Longrightarrow> \<not> is_expired_or_revoked t g" for P and b :: override_boundary
  proof (induction b)
    case (Cons x b)
    then show ?case using that [of "snd x"] by (cases x; cases "P (snd x)") simp_all
  qed simp
  moreover have "\<not> is_expired_or_revoked t g"
    if "\<not> is_expired_or_revoked now g \<and> in_scope act subj g" for g
    using that assms by (auto simp: is_expired_or_revoked_def)
  ultimately show ?thesis
    by (simp add: boundary_after_def is_overridden_at_def prune_filter)
qed

theorem prune_invisible_witness:
  "is_overridden_at ''svc.restart'' ''human:x'' 5
     (boundary_after ([OpRequest ''U'' sample_override 0] @ [OpPrune 4])) =
   is_overridden_at ''svc.restart'' ''human:x'' 5 (boundary_after [OpRequest ''U'' sample_override 0])"
  by (rule prune_invisible) simp

end
