(* ===== verification/Action_Ids.thy ===== *)
theory Action_Ids
  imports Rust_Data
begin

text \<open>
  Identifiers and errors of crate \<open>aios-action\<close>: the prefix-namespaced ULID identifiers and
  the content-addressed transition-plan identifier (\<open>id.rs\<close>), the error codes and the bounded
  cause chain (\<open>error.rs\<close>). The ULID library and BLAKE3 are third-party: their parsing,
  printing and hashing functions are arguments.
\<close>

section \<open>Identifiers\<close>

datatype id_error =
    EmptyId
  | WrongPrefix string string
  | ColonSeparatorForbidden string
  | InvalidUlidBody string string
  | InvalidHexBody string string

text \<open>The identifier types the macro \<open>define_prefixed_id!\<close> declares, and their prefixes.\<close>

datatype id_kind =
    ActionId | IntentId | PlanId | CorrelationId | EvidenceReceiptId | PolicyRequestId
  | PolicyDecisionId | ApprovalId | ApprovalRequestId | ApprovalBindingId | OverrideRequestId
  | OverrideBindingId | ActionRuntimeRequestId

fun id_prefix :: "id_kind \<Rightarrow> string" where
  "id_prefix ActionId = ''act_''"
| "id_prefix IntentId = ''intent_''"
| "id_prefix PlanId = ''plan_''"
| "id_prefix CorrelationId = ''corr_''"
| "id_prefix EvidenceReceiptId = ''evr_''"
| "id_prefix PolicyRequestId = ''polreq_''"
| "id_prefix PolicyDecisionId = ''poldec_''"
| "id_prefix ApprovalId = ''appr_''"
| "id_prefix ApprovalRequestId = ''apprq_''"
| "id_prefix ApprovalBindingId = ''appb_''"
| "id_prefix OverrideRequestId = ''ovrq_''"
| "id_prefix OverrideBindingId = ''ovr_''"
| "id_prefix ActionRuntimeRequestId = ''actrq_''"

text \<open>\<open>str::strip_prefix\<close> and \<open>str::strip_suffix\<close>.\<close>

definition strip_prefix_str :: "string \<Rightarrow> string \<Rightarrow> string option" where
  "strip_prefix_str p s = (if prefix p s then Some (drop (length p) s) else None)"

definition strip_suffix_str :: "string \<Rightarrow> string \<Rightarrow> string option" where
  "strip_suffix_str q s = (if suffix q s then Some (take (length s - length q) s) else None)"

text \<open>\<open>Ulid::from_string\<close>: an error message, or success.\<close>

type_synonym ulid_from_string = "string \<Rightarrow> (string, unit) result"

definition validate_prefixed_ulid ::
    "ulid_from_string \<Rightarrow> string \<Rightarrow> string \<Rightarrow> (id_error, string) result" where
  "validate_prefixed_ulid from_string input expected =
     (if input = [] then Err EmptyId
      else if (case strip_suffix_str ''_'' expected of
                 None \<Rightarrow> False | Some stripped \<Rightarrow> prefix (stripped @ '':'') input)
      then Err (ColonSeparatorForbidden input)
      else (case strip_prefix_str expected input of
              None \<Rightarrow> Err (WrongPrefix expected input)
            | Some body \<Rightarrow>
                (case from_string body of
                   Inl detail \<Rightarrow> Err (InvalidUlidBody input detail)
                 | Inr _ \<Rightarrow> Ok input)))"

definition fresh_id :: "string \<Rightarrow> string \<Rightarrow> string" where
  "fresh_id pre ulid = pre @ ulid"

definition id_new :: "id_kind \<Rightarrow> string \<Rightarrow> string" where
  "id_new k ulid = fresh_id (id_prefix k) ulid"

definition id_parse :: "ulid_from_string \<Rightarrow> id_kind \<Rightarrow> string \<Rightarrow> (id_error, string) result" where
  "id_parse from_string k input = validate_prefixed_ulid from_string input (id_prefix k)"

definition TPLAN_PREFIX :: string where
  "TPLAN_PREFIX = ''tplan_''"

definition TPLAN_BODY_LEN :: nat where
  "TPLAN_BODY_LEN = 32"

text \<open>\<open>blake3_truncated\<close>: the first 32 characters of the hex digest, in lower case.\<close>

definition to_ascii_lowercase :: "char \<Rightarrow> char" where
  "to_ascii_lowercase c =
     (if CHR ''A'' \<le> c \<and> c \<le> CHR ''Z'' then char_of ((of_char c :: nat) + 32) else c)"

definition blake3_truncated :: "('b \<Rightarrow> string) \<Rightarrow> 'b \<Rightarrow> string" where
  "blake3_truncated hex_digest bytes =
     (let full = hex_digest bytes
      in if 32 \<le> length full then map to_ascii_lowercase (take 32 full) else [])"

definition tplan_from_content :: "('b \<Rightarrow> string) \<Rightarrow> 'b \<Rightarrow> string" where
  "tplan_from_content hex_digest bytes = TPLAN_PREFIX @ blake3_truncated hex_digest bytes"

definition is_lower_hex :: "char \<Rightarrow> bool" where
  "is_lower_hex c \<longleftrightarrow> is_ascii_digit c \<or> (CHR ''a'' \<le> c \<and> c \<le> CHR ''f'')"

text \<open>The two details of an invalid hex body; the first one prints the lengths.\<close>

definition tplan_parse :: "string \<Rightarrow> (id_error, string) result" where
  "tplan_parse input =
     (if input = [] then Err EmptyId
      else if prefix ''tplan:'' input then Err (ColonSeparatorForbidden input)
      else (case strip_prefix_str TPLAN_PREFIX input of
              None \<Rightarrow> Err (WrongPrefix TPLAN_PREFIX input)
            | Some body \<Rightarrow>
                (if length body \<noteq> TPLAN_BODY_LEN
                 then Err (InvalidHexBody input
                   (''expected '' @ show_nat TPLAN_BODY_LEN @ ''-char lowercase hex body, got '' @
                    show_nat (length body) @ '' chars''))
                 else if \<not> list_all is_lower_hex body
                 then Err (InvalidHexBody input ''body must be lowercase hex [0-9a-f] only'')
                 else Ok input)))"

section \<open>Error codes and cause chains\<close>

datatype action_error_code =
    EnvelopeMalformed | MissingReason | InvalidActionName | UnknownAdapter | InvalidSubject
  | InvalidIdempotencyKey | IdempotencyConflict | SchemaVersionUnsupported
  | TargetSchemaInvalid | SandboxProfileUnknown | InvalidTargetPath
  | PolicyDenied | ApprovalDenied | ErrApprovalExpired | EmergencyLockout
  | PolicyKernelUnavailable
  | ErrSubjectUnauthenticated | SubjectUnauthorized | SecretAccessDenied
  | AdapterFailure | AdapterCrashed | AdapterTimeout | AdapterDoesNotSupportSimulate
  | SandboxViolation | ResourceExhausted | Cancelled | Preempted
  | VerificationFailed | VerificationTimeout | VerificationGrammarUnsupported
  | RollbackFailed | RollbackNotPossible
  | EvidenceWriteFailed | RuntimeUnavailable | Internal

fun retryable_default :: "action_error_code \<Rightarrow> bool option" where
  "retryable_default ErrApprovalExpired = Some True"
| "retryable_default PolicyKernelUnavailable = Some True"
| "retryable_default AdapterFailure = None"
| "retryable_default Internal = None"
| "retryable_default AdapterCrashed = Some True"
| "retryable_default AdapterTimeout = Some True"
| "retryable_default ResourceExhausted = Some True"
| "retryable_default Preempted = Some True"
| "retryable_default VerificationTimeout = Some True"
| "retryable_default EvidenceWriteFailed = Some True"
| "retryable_default RuntimeUnavailable = Some True"
| "retryable_default _ = Some False"

datatype action_error =
  ActionError (err_code: action_error_code) (err_message: string) (err_retryable: bool)
    (err_cause: "action_error option")

definition MAX_CAUSE_CHAIN_DEPTH :: nat where
  "MAX_CAUSE_CHAIN_DEPTH = 8"

datatype cause_chain_too_deep = CauseChainTooDeep nat

definition action_error_new :: "action_error_code \<Rightarrow> string \<Rightarrow> bool \<Rightarrow> action_error" where
  "action_error_new code message retryable = ActionError code message retryable None"

fun cause_chain_depth :: "action_error \<Rightarrow> nat" where
  "cause_chain_depth (ActionError _ _ _ None) = 0"
| "cause_chain_depth (ActionError _ _ _ (Some next)) = Suc (cause_chain_depth next)"

definition with_cause ::
    "action_error \<Rightarrow> action_error \<Rightarrow> (cause_chain_too_deep, action_error) result" where
  "with_cause e c =
     (let new_depth = cause_chain_depth c + 1
      in if MAX_CAUSE_CHAIN_DEPTH < new_depth then Err (CauseChainTooDeep new_depth)
         else Ok (ActionError (err_code e) (err_message e) (err_retryable e) (Some c)))"

section \<open>Identifier lemmas\<close>

lemma strip_suffix_id_prefix:
  "\<exists>stem. strip_suffix_str ''_'' (id_prefix k) = Some stem \<and> id_prefix k = stem @ ''_'' \<and>
     CHR '':'' \<notin> set stem"
  by (cases k) (auto simp: strip_suffix_str_def suffix_def)

text \<open>No prefix is a prefix of another one.\<close>

lemma id_prefix_free: "prefix (id_prefix j) (id_prefix k) \<Longrightarrow> j = k"
  by (cases j; cases k) simp_all

lemma id_parse_Ok_iff:
  "id_parse from_string k input = Ok s \<longleftrightarrow>
     s = input \<and> (\<exists>body. input = id_prefix k @ body \<and> from_string body = Ok ())"
proof -
  obtain stem where stem: "strip_suffix_str ''_'' (id_prefix k) = Some stem"
    and pre: "id_prefix k = stem @ ''_''"
    using strip_suffix_id_prefix by blast
  have no_colon: "\<not> prefix (stem @ '':'') (id_prefix k @ body)" for body
    by (simp add: pre)
  show ?thesis
    using stem no_colon
    by (auto simp: id_parse_def validate_prefixed_ulid_def strip_prefix_str_def pre
        elim!: prefixE split: option.splits sum.splits if_splits)
qed

section \<open>Properties\<close>

text \<open>
  Identifiers are typed: a string is accepted by at most one of the identifier parsers,
  a freshly minted identifier is accepted by the parser of its own kind, and the legacy
  colon form of any kind is refused as such, provided the ULID parser accepts what the ULID
  printer writes.
\<close>

theorem id_parse_discriminates:
  assumes "from_string ulid = Ok ()"
  shows "id_parse from_string k (id_new k ulid) = Ok (id_new k ulid) \<and>
     (\<forall>s j. id_parse from_string k s = Ok s \<longrightarrow> id_parse from_string j s = Ok s \<longrightarrow> j = k) \<and>
     (\<forall>stem rest. id_prefix k = stem @ ''_'' \<longrightarrow>
        id_parse from_string k (stem @ '':'' @ rest) =
          Err (ColonSeparatorForbidden (stem @ '':'' @ rest)))"
proof (intro conjI allI impI)
  show "id_parse from_string k (id_new k ulid) = Ok (id_new k ulid)"
    using assms by (auto simp: id_parse_Ok_iff id_new_def fresh_id_def)
next
  fix s j
  assume "id_parse from_string k s = Ok s" and "id_parse from_string j s = Ok s"
  then have "prefix (id_prefix k) s" and "prefix (id_prefix j) s"
    unfolding id_parse_Ok_iff prefix_def by blast+
  then have "prefix (id_prefix j) (id_prefix k) \<or> prefix (id_prefix k) (id_prefix j)"
    using prefix_same_cases by blast
  then show "j = k" using id_prefix_free by metis
next
  fix stem rest
  assume "id_prefix k = stem @ ''_''"
  then show "id_parse from_string k (stem @ '':'' @ rest) =
      Err (ColonSeparatorForbidden (stem @ '':'' @ rest))"
    by (simp add: id_parse_def validate_prefixed_ulid_def strip_suffix_str_def suffix_def)
qed

theorem id_parse_discriminates_witness:
  "id_parse (\<lambda>b. if length b = 26 then Ok () else Err ''invalid length'') ApprovalId
     (id_new ApprovalId ''01HX0000000000000000000000'') =
     Ok ''appr_01HX0000000000000000000000''"
  using id_parse_discriminates
    [of "\<lambda>b. if length b = 26 then Ok () else Err ''invalid length''"
        "''01HX0000000000000000000000''" ApprovalId]
  by (simp add: id_new_def fresh_id_def)

lemma tplan_parse_Ok_iff:
  "tplan_parse input = Ok s \<longleftrightarrow>
     s = input \<and> (\<exists>body. input = TPLAN_PREFIX @ body \<and> length body = TPLAN_BODY_LEN \<and>
       list_all is_lower_hex body)"
  by (auto simp: tplan_parse_def strip_prefix_str_def TPLAN_PREFIX_def prefix_def
      split: option.splits if_splits)

definition is_hex_digit :: "char \<Rightarrow> bool" where
  "is_hex_digit c \<longleftrightarrow> is_lower_hex c \<or> (CHR ''A'' \<le> c \<and> c \<le> CHR ''F'')"

lemma to_ascii_lowercase_hex: "is_hex_digit c \<Longrightarrow> is_lower_hex (to_ascii_lowercase c)"
  by (auto simp: is_hex_digit_def to_ascii_lowercase_def is_lower_hex_def is_ascii_digit_def
      less_eq_char_def)

text \<open>
  A transition-plan identifier minted from content is accepted by its own parser, for any
  digest that prints at least 32 hexadecimal characters; and the parser accepts exactly the
  prefix followed by 32 lower-case hexadecimal characters.
\<close>

theorem tplan_roundtrip:
  assumes "32 \<le> length (hex_digest bytes)" and "list_all is_hex_digit (hex_digest bytes)"
  shows "tplan_parse (tplan_from_content hex_digest bytes) =
     Ok (tplan_from_content hex_digest bytes)"
proof -
  have "list_all is_lower_hex (blake3_truncated hex_digest bytes)"
    using assms by (auto simp: blake3_truncated_def Let_def list_all_iff
        intro!: to_ascii_lowercase_hex dest: in_set_takeD)
  moreover have "length (blake3_truncated hex_digest bytes) = TPLAN_BODY_LEN"
    using assms(1) by (simp add: blake3_truncated_def Let_def TPLAN_BODY_LEN_def)
  ultimately show ?thesis by (auto simp: tplan_parse_Ok_iff tplan_from_content_def)
qed

theorem tplan_roundtrip_witness:
  "tplan_parse (tplan_from_content (\<lambda>u. replicate 64 CHR ''A'') ()) =
     Ok (''tplan_'' @ replicate 32 CHR ''a'')"
proof -
  have "list_all is_hex_digit (replicate 64 CHR ''A'')"
    by (simp add: is_hex_digit_def less_eq_char_def list_all_iff)
  then have "tplan_parse (tplan_from_content (\<lambda>u. replicate 64 CHR ''A'') ()) =
      Ok (tplan_from_content (\<lambda>u. replicate 64 CHR ''A'') ())"
    by (intro tplan_roundtrip) simp_all
  then show ?thesis
    by (simp add: tplan_from_content_def blake3_truncated_def TPLAN_PREFIX_def
        to_ascii_lowercase_def less_eq_char_def Let_def char_of_def bit_0)
qed

inductive built_error :: "action_error \<Rightarrow> bool" where
  built_new: "built_error (action_error_new code message retryable)"
| built_cause: "built_error e \<Longrightarrow> built_error c \<Longrightarrow> with_cause e c = Ok e' \<Longrightarrow> built_error e'"

lemma with_cause_Ok_iff:
  "with_cause e c = Ok e' \<longleftrightarrow>
     cause_chain_depth c < MAX_CAUSE_CHAIN_DEPTH \<and>
     e' = ActionError (err_code e) (err_message e) (err_retryable e) (Some c)"
  by (auto simp: with_cause_def Let_def)

lemma built_error_depth: "built_error e \<Longrightarrow> cause_chain_depth e \<le> MAX_CAUSE_CHAIN_DEPTH"
  by (induction rule: built_error.induct) (auto simp: action_error_new_def with_cause_Ok_iff)

text \<open>
  An error assembled from \<open>new\<close> and \<open>with_cause\<close> never carries a cause chain deeper than
  eight, \<open>with_cause\<close> refuses exactly the causes that are already eight deep, and it reports
  the depth that was observed.
\<close>

theorem cause_chain_bounded:
  assumes "built_error e" and "built_error c"
  shows "cause_chain_depth e \<le> MAX_CAUSE_CHAIN_DEPTH \<and>
     (if cause_chain_depth c = MAX_CAUSE_CHAIN_DEPTH
      then with_cause e c = Err (CauseChainTooDeep 9)
      else \<exists>e'. with_cause e c = Ok e' \<and> err_cause e' = Some c \<and> err_code e' = err_code e \<and>
        cause_chain_depth e' = Suc (cause_chain_depth c))"
  using built_error_depth [OF assms(1)] built_error_depth [OF assms(2)]
  by (auto simp: with_cause_def MAX_CAUSE_CHAIN_DEPTH_def)

theorem cause_chain_bounded_witness:
  "with_cause (action_error_new Internal ''outer'' False) (action_error_new AdapterTimeout ''t'' True)
     = Ok (ActionError Internal ''outer'' False (Some (action_error_new AdapterTimeout ''t'' True)))"
  using cause_chain_bounded [OF built_new [of Internal "''outer''" False]
      built_new [of AdapterTimeout "''t''" True]]
  by (simp add: with_cause_def action_error_new_def MAX_CAUSE_CHAIN_DEPTH_def)

end
