(* ===== verification/Policy_Pipeline.thy ===== *)
theory Policy_Pipeline
  imports Policy_Hard_Deny Policy_Override Action_Ids
begin

text \<open>
  The decision pipeline, \<open>pipeline.rs\<close>. A pipeline step either continues or ends the
  evaluation with a decision; the steps run in the order of the specification. What an
  evaluation draws from outside the program is an argument: the canonical hash (JCS and BLAKE3),
  the clock as it is read by the override lookup and when the decision is written, and the two
  ULIDs of the decision.
\<close>

section \<open>Outside inputs of an evaluation\<close>

record eval_env =
  env_hash :: canonical_hash
  now_override :: instant
  now_emit :: instant
  decision_ulid :: string
  action_ulid :: string

datatype pipeline_state = Continue | ShortCircuit policy_decision

definition SCHEMA_INVALID :: string where
  "SCHEMA_INVALID = ''SchemaInvalid''"

definition DEFAULT_DENY :: string where
  "DEFAULT_DENY = ''DefaultDeny''"

definition SUBJECT_UNAUTHENTICATED :: string where
  "SUBJECT_UNAUTHENTICATED = ''SubjectUnauthenticated''"

definition AI_SELF_APPROVAL_UPGRADE :: string where
  "AI_SELF_APPROVAL_UPGRADE = ''AiSelfApprovalUpgrade''"

definition EMERGENCY_OVERRIDE_RELAXED :: string where
  "EMERGENCY_OVERRIDE_RELAXED = ''EmergencyOverrideRelaxed''"

section \<open>Risk flags and self-approval\<close>

definition risk_flag :: "action_envelope \<Rightarrow> string \<Rightarrow> bool" where
  "risk_flag env flag =
     (case Option.bind (Option.bind (json_get (target (env_request env)) ''risk'')
             (\<lambda>r. json_get r flag)) as_bool of
        Some b \<Rightarrow> b | None \<Rightarrow> False)"

definition any_risk_flag :: "action_envelope \<Rightarrow> bool" where
  "any_risk_flag env \<longleftrightarrow>
     risk_flag env ''destructive'' \<or> risk_flag env ''privileged'' \<or>
     risk_flag env ''network_exposure'' \<or> risk_flag env ''secret_access'' \<or>
     risk_flag env ''recovery_path_affected''"

definition evaluate_ai_self_approval_prevention ::
    "decision \<Rightarrow> hydrated_subject \<Rightarrow> action_envelope \<Rightarrow> approval_requirement option" where
  "evaluate_ai_self_approval_prevention d subj env =
     (if d \<noteq> Allow then None
      else if \<not> is_ai subj then None
      else if \<not> any_risk_flag env then None
      else Some \<lparr>required = True, approval_scope = ExactRequestHash, ar_ttl_seconds = 300,
                 approver_classes = [ApHuman], require_human_co_signer = False\<rparr>)"

section \<open>Writing a decision\<close>

record emit_parts =
  ep_envelope :: action_envelope
  ep_context :: policy_context
  ep_request_hash :: string
  ep_decision :: decision
  ep_reason_code :: string
  ep_reason_message :: string
  ep_rules_consulted :: u32

definition compute_request_hash :: "eval_env \<Rightarrow> action_envelope \<Rightarrow> string" where
  "compute_request_hash ev env =
     (case request_hash (env_hash ev) (env_request env) of Inl _ \<Rightarrow> [] | Inr h \<Rightarrow> h)"

definition envelope_action_id :: "eval_env \<Rightarrow> action_envelope \<Rightarrow> string" where
  "envelope_action_id ev env = id_new ActionId (action_ulid ev)"

definition step_10_bind_constraints :: constraints where
  "step_10_bind_constraints = constraints_default"

definition emit_decision :: "eval_env \<Rightarrow> emit_parts \<Rightarrow> policy_decision" where
  "emit_decision ev parts =
     \<lparr>policy_decision_id = ''poldec_'' @ decision_ulid ev,
      action_id = envelope_action_id ev (ep_envelope parts),
      pd_request_hash = ep_request_hash parts,
      pd_bundle_version = ctx_bundle_version (ep_context parts),
      enrichment_snapshot_id = snapshot_id (enrichment (ep_context parts)),
      decision = ep_decision parts,
      reason_code = ep_reason_code parts,
      reason_message = ep_reason_message parts,
      pd_constraints = step_10_bind_constraints,
      approval = approval_requirement_default,
      evidence_receipt_id = [],
      evaluated_at = now_emit ev,
      rules_consulted = ep_rules_consulted parts,
      simulated = False\<rparr>"

section \<open>Steps\<close>

definition step_1_validate_schema ::
    "eval_env \<Rightarrow> action_envelope \<Rightarrow> policy_context \<Rightarrow> string \<Rightarrow> pipeline_state" where
  "step_1_validate_schema ev env ctx h =
     (if schema_version env = [] \<or> action (env_request env) = [] \<or>
         subject_canonical_id (env_identity env) = []
      then ShortCircuit (emit_decision ev
             \<lparr>ep_envelope = env, ep_context = ctx, ep_request_hash = h, ep_decision = Deny,
              ep_reason_code = SCHEMA_INVALID,
              ep_reason_message =
                ''envelope failed schema validation (S2.3 '' @ section_sign @ ''3 step 1)'',
              ep_rules_consulted = 1\<rparr>)
      else Continue)"

definition step_2_normalize_subject :: pipeline_state where
  "step_2_normalize_subject = Continue"

definition step_3_enrich_resources :: pipeline_state where
  "step_3_enrich_resources = Continue"

definition step_4_evaluate_hard_denies :: pipeline_state where
  "step_4_evaluate_hard_denies = Continue"

definition step_4_evaluate_hard_denies_with_engine ::
    "eval_env \<Rightarrow> action_envelope \<Rightarrow> policy_context \<Rightarrow> string \<Rightarrow>
     hard_deny_engine_config option \<Rightarrow> pipeline_state" where
  "step_4_evaluate_hard_denies_with_engine ev env ctx h engine =
     (case engine of
        None \<Rightarrow> Continue
      | Some cfg \<Rightarrow>
          (case check cfg env (subject ctx) of
             None \<Rightarrow> Continue
           | Some cls \<Rightarrow>
               ShortCircuit (emit_decision ev
                 \<lparr>ep_envelope = env, ep_context = ctx, ep_request_hash = h, ep_decision = Deny,
                  ep_reason_code = reason_code_for cls,
                  ep_reason_message = reason_message_for cls,
                  ep_rules_consulted = 1\<rparr>)))"

definition step_5_emergency_override_denylist :: pipeline_state where
  "step_5_emergency_override_denylist = Continue"

definition override_message :: "emergency_override \<Rightarrow> string" where
  "override_message g =
     ''scoped rule `'' @ os_rule_id (eo_scope g) @ ''` relaxed by emergency override `'' @
     override_id g @ ''` (granted_by='' @ granted_by_subject_id g @ '', reason='' @ eo_reason g @
     '') '' @ [CHR 0xE2, CHR 0x80, CHR 0x94] @ '' S2.3 '' @ section_sign @ ''16''"

definition step_5_emergency_override_with_boundary ::
    "eval_env \<Rightarrow> action_envelope \<Rightarrow> policy_context \<Rightarrow> string \<Rightarrow>
     override_boundary option \<Rightarrow> pipeline_state" where
  "step_5_emergency_override_with_boundary ev env ctx h boundary =
     (case boundary of
        None \<Rightarrow> Continue
      | Some b \<Rightarrow>
          (case is_overridden_at (action (env_request env)) (canonical_subject_id (subject ctx))
                  (now_override ev) b of
             None \<Rightarrow> Continue
           | Some grant \<Rightarrow>
               ShortCircuit (emit_decision ev
                 \<lparr>ep_envelope = env, ep_context = ctx, ep_request_hash = h, ep_decision = Allow,
                  ep_reason_code = EMERGENCY_OVERRIDE_RELAXED,
                  ep_reason_message = override_message grant,
                  ep_rules_consulted = 1\<rparr>)))"

definition step_6_evaluate_scoped_denies :: pipeline_state where
  "step_6_evaluate_scoped_denies = Continue"

definition step_7_evaluate_scoped_allows :: pipeline_state where
  "step_7_evaluate_scoped_allows = Continue"

definition step_8_ai_self_approval_prevention :: pipeline_state where
  "step_8_ai_self_approval_prevention = Continue"

definition apply_step_8 ::
    "policy_decision \<Rightarrow> hydrated_subject \<Rightarrow> action_envelope \<Rightarrow> policy_decision" where
  "apply_step_8 d subj env =
     (case evaluate_ai_self_approval_prevention (decision d) subj env of
        None \<Rightarrow> d
      | Some appr \<Rightarrow>
          d\<lparr>decision := RequireApproval,
            reason_code := AI_SELF_APPROVAL_UPGRADE,
            reason_message :=
              ''AI subject self-approval prevented; human approval required (S2.3 '' @ section_sign @ ''17)'',
            approval := appr,
            rules_consulted := saturating_add (rules_consulted d) 1\<rparr>)"

definition step_9_apply_default_deny ::
    "eval_env \<Rightarrow> action_envelope \<Rightarrow> policy_context \<Rightarrow> string \<Rightarrow> pipeline_state" where
  "step_9_apply_default_deny ev env ctx h =
     ShortCircuit (emit_decision ev
       \<lparr>ep_envelope = env, ep_context = ctx, ep_request_hash = h, ep_decision = Deny,
        ep_reason_code = DEFAULT_DENY,
        ep_reason_message = ''no matching policy rule; default deny (S2.3 '' @ section_sign @ ''11)'',
        ep_rules_consulted = 0\<rparr>)"

section \<open>The pipeline\<close>

text \<open>\<open>if let ShortCircuit(d) = step { return *d; }\<close>, followed by the rest.\<close>

fun or_else :: "pipeline_state \<Rightarrow> policy_decision \<Rightarrow> policy_decision" where
  "or_else (ShortCircuit d) continued = d"
| "or_else Continue continued = continued"

definition evaluate_with_chain_full ::
    "eval_env \<Rightarrow> action_envelope \<Rightarrow> policy_context \<Rightarrow> policy_context option \<Rightarrow>
     hard_deny_engine_config option \<Rightarrow> override_boundary option \<Rightarrow> policy_decision" where
  "evaluate_with_chain_full ev env original_context hydrated_context engine boundary =
     (let h = compute_request_hash ev env in
      or_else (step_1_validate_schema ev env original_context h)
       (case hydrated_context of
          None \<Rightarrow>
            emit_decision ev
              \<lparr>ep_envelope = env, ep_context = original_context, ep_request_hash = h,
               ep_decision = Deny, ep_reason_code = SUBJECT_UNAUTHENTICATED,
               ep_reason_message =
                 ''subject hydration failed: unknown, expired, or revoked subject (S2.3 ''
                 @ section_sign @ ''7)'',
               ep_rules_consulted = 1\<rparr>
        | Some ctx \<Rightarrow>
            or_else step_3_enrich_resources
            (or_else (step_4_evaluate_hard_denies_with_engine ev env ctx h engine)
            (or_else (step_5_emergency_override_with_boundary ev env ctx h boundary)
            (or_else step_6_evaluate_scoped_denies
            (or_else step_7_evaluate_scoped_allows
            (or_else step_8_ai_self_approval_prevention
            (or_else (step_9_apply_default_deny ev env ctx h)
              (emit_decision ev
                 \<lparr>ep_envelope = env, ep_context = ctx, ep_request_hash = h, ep_decision = Deny,
                  ep_reason_code = DEFAULT_DENY,
                  ep_reason_message = ''default deny (S2.3 '' @ section_sign @ ''11)'',
                  ep_rules_consulted = 0\<rparr>)))))))))"

definition evaluate_with_chain ::
    "eval_env \<Rightarrow> action_envelope \<Rightarrow> policy_context \<Rightarrow> policy_context option \<Rightarrow>
     hard_deny_engine_config option \<Rightarrow> policy_decision" where
  "evaluate_with_chain ev env original_context hydrated_context engine =
     evaluate_with_chain_full ev env original_context hydrated_context engine None"

definition evaluate_with_hard_deny_engine ::
    "eval_env \<Rightarrow> action_envelope \<Rightarrow> policy_context \<Rightarrow> hard_deny_engine_config option \<Rightarrow>
     policy_decision" where
  "evaluate_with_hard_deny_engine ev env ctx engine =
     evaluate_with_chain ev env ctx (Some ctx) engine"

definition pipeline_evaluate ::
    "eval_env \<Rightarrow> action_envelope \<Rightarrow> policy_context \<Rightarrow> policy_decision" where
  "pipeline_evaluate ev env ctx = evaluate_with_hard_deny_engine ev env ctx None"

section \<open>The precedence ladder\<close>

definition schema_valid :: "action_envelope \<Rightarrow> bool" where
  "schema_valid env \<longleftrightarrow>
     schema_version env \<noteq> [] \<and> action (env_request env) \<noteq> [] \<and>
     subject_canonical_id (env_identity env) \<noteq> []"

text \<open>
  When a tier of \<open>precedence.rs\<close> has something to say about a request, and what the table at the head of
  that file (and section 5 of \<open>01_policy_kernel.md\<close>) documents it to say. The tiers of the scoped rules and of the
  self-approval filter apply when the step of the pipeline behind them speaks; these steps have no rule
  index behind them yet and always continue.
\<close>

fun hard_deny_of ::
    "hard_deny_engine_config option \<Rightarrow> action_envelope \<Rightarrow> policy_context \<Rightarrow> hard_deny_class option" where
  "hard_deny_of None env ctx = None"
| "hard_deny_of (Some cfg) env ctx = check cfg env (subject ctx)"

fun override_of ::
    "instant \<Rightarrow> override_boundary option \<Rightarrow> action_envelope \<Rightarrow> policy_context \<Rightarrow>
     emergency_override option" where
  "override_of now None env ctx = None"
| "override_of now (Some b) env ctx =
     is_overridden_at (action (env_request env)) (canonical_subject_id (subject ctx)) now b"

fun tier_applies ::
    "eval_env \<Rightarrow> action_envelope \<Rightarrow> policy_context option \<Rightarrow> hard_deny_engine_config option \<Rightarrow>
     override_boundary option \<Rightarrow> rule_precedence \<Rightarrow> bool" where
  "tier_applies ev env hyd engine boundary InvalidSubjectTier \<longleftrightarrow>
     \<not> schema_valid env \<or> hyd = None"
| "tier_applies ev env hyd engine boundary HardDenyTier \<longleftrightarrow>
     (case hyd of None \<Rightarrow> False | Some ctx \<Rightarrow> hard_deny_of engine env ctx \<noteq> None)"
| "tier_applies ev env hyd engine boundary EmergencyOverrideDenylist \<longleftrightarrow>
     (case hyd of None \<Rightarrow> False | Some ctx \<Rightarrow> override_of (now_override ev) boundary env ctx \<noteq> None)"
| "tier_applies ev env hyd engine boundary ExplicitScopedDeny \<longleftrightarrow> step_6_evaluate_scoped_denies \<noteq> Continue"
| "tier_applies ev env hyd engine boundary ExplicitScopedAllow \<longleftrightarrow> step_7_evaluate_scoped_allows \<noteq> Continue"
| "tier_applies ev env hyd engine boundary AiSelfApprovalUpgrade \<longleftrightarrow> step_8_ai_self_approval_prevention \<noteq> Continue"
| "tier_applies ev env hyd engine boundary DefaultDenyTier \<longleftrightarrow> True"

fun documented_decisions :: "rule_precedence \<Rightarrow> decision list" where
  "documented_decisions ExplicitScopedAllow = [Allow, RequireApproval]"
| "documented_decisions AiSelfApprovalUpgrade = [RequireApproval]"
| "documented_decisions _ = [Deny]"

text \<open>The reason a tier gives for its decision.\<close>

fun tier_reason ::
    "action_envelope \<Rightarrow> policy_context option \<Rightarrow> hard_deny_engine_config option \<Rightarrow> rule_precedence \<Rightarrow> string option" where
  "tier_reason env hyd engine InvalidSubjectTier =
     Some (if schema_valid env then SUBJECT_UNAUTHENTICATED else SCHEMA_INVALID)"
| "tier_reason env hyd engine HardDenyTier =
     Option.bind hyd (\<lambda>ctx. map_option reason_code_for (hard_deny_of engine env ctx))"
| "tier_reason env hyd engine EmergencyOverrideDenylist = Some EMERGENCY_OVERRIDE_RELAXED"
| "tier_reason env hyd engine DefaultDenyTier = Some DEFAULT_DENY"
| "tier_reason env hyd engine _ = None"

lemmas step_defs = step_1_validate_schema_def step_3_enrich_resources_def
  step_4_evaluate_hard_denies_with_engine_def step_5_emergency_override_with_boundary_def
  step_6_evaluate_scoped_denies_def step_7_evaluate_scoped_allows_def
  step_8_ai_self_approval_prevention_def step_9_apply_default_deny_def

lemma chain_schema_invalid:
  "\<not> schema_valid env \<Longrightarrow> evaluate_with_chain_full ev env ctx hyd engine boundary =
     emit_decision ev \<lparr>ep_envelope = env, ep_context = ctx,
       ep_request_hash = compute_request_hash ev env, ep_decision = Deny,
       ep_reason_code = SCHEMA_INVALID,
       ep_reason_message = ''envelope failed schema validation (S2.3 '' @ section_sign @ ''3 step 1)'',
       ep_rules_consulted = 1\<rparr>"
  by (simp add: evaluate_with_chain_full_def step_1_validate_schema_def schema_valid_def Let_def)

lemma chain_unauthenticated:
  "schema_valid env \<Longrightarrow> evaluate_with_chain_full ev env ctx None engine boundary =
     emit_decision ev \<lparr>ep_envelope = env, ep_context = ctx,
       ep_request_hash = compute_request_hash ev env, ep_decision = Deny,
       ep_reason_code = SUBJECT_UNAUTHENTICATED,
       ep_reason_message = ''subject hydration failed: unknown, expired, or revoked subject (S2.3 ''
         @ section_sign @ ''7)'',
       ep_rules_consulted = 1\<rparr>"
  by (simp add: evaluate_with_chain_full_def step_1_validate_schema_def schema_valid_def Let_def)

lemma chain_hydrated:
  "schema_valid env \<Longrightarrow> evaluate_with_chain_full ev env ctx0 (Some ctx) engine boundary =
     (case hard_deny_of engine env ctx of
        Some cls \<Rightarrow>
          emit_decision ev \<lparr>ep_envelope = env, ep_context = ctx,
            ep_request_hash = compute_request_hash ev env, ep_decision = Deny,
            ep_reason_code = reason_code_for cls, ep_reason_message = reason_message_for cls,
            ep_rules_consulted = 1\<rparr>
      | None \<Rightarrow>
          (case override_of (now_override ev) boundary env ctx of
             Some g \<Rightarrow>
               emit_decision ev \<lparr>ep_envelope = env, ep_context = ctx,
                 ep_request_hash = compute_request_hash ev env, ep_decision = Allow,
                 ep_reason_code = EMERGENCY_OVERRIDE_RELAXED,
                 ep_reason_message = override_message g, ep_rules_consulted = 1\<rparr>
           | None \<Rightarrow>
               emit_decision ev \<lparr>ep_envelope = env, ep_context = ctx,
                 ep_request_hash = compute_request_hash ev env, ep_decision = Deny,
                 ep_reason_code = DEFAULT_DENY,
                 ep_reason_message = ''no matching policy rule; default deny (S2.3 '' @ section_sign @ ''11)'',
                 ep_rules_consulted = 0\<rparr>))"
  by (cases engine; cases boundary)
    (auto simp: evaluate_with_chain_full_def step_defs schema_valid_def Let_def split: option.splits)

lemmas chain_cases = chain_schema_invalid chain_unauthenticated chain_hydrated

lemma emit_decision_simps [simp]:
  "decision (emit_decision ev p) = ep_decision p"
  "reason_code (emit_decision ev p) = ep_reason_code p"
  "pd_request_hash (emit_decision ev p) = ep_request_hash p"
  "pd_constraints (emit_decision ev p) = constraints_default"
  "rules_consulted (emit_decision ev p) = ep_rules_consulted p"
  "approval (emit_decision ev p) = approval_requirement_default"
  "evaluated_at (emit_decision ev p) = now_emit ev"
  by (simp_all add: emit_decision_def step_10_bind_constraints_def)

lemma emit_replay:
  "emit_decision ev' p = (emit_decision ev p)
     \<lparr>policy_decision_id := ''poldec_'' @ decision_ulid ev',
      action_id := envelope_action_id ev' (ep_envelope p), evaluated_at := now_emit ev'\<rparr>"
  by (simp add: emit_decision_def)

lemma chain_allow:
  assumes "decision (evaluate_with_chain_full ev env ctx0 hyd engine boundary) = Allow"
  shows "\<exists>ctx b g. hyd = Some ctx \<and> boundary = Some b \<and> schema_valid env \<and>
    hard_deny_of engine env ctx = None \<and>
    is_overridden_at (action (env_request env)) (canonical_subject_id (subject ctx))
      (now_override ev) b = Some g"
proof (cases "schema_valid env \<and> hyd \<noteq> None")
  case True
  then obtain ctx where "hyd = Some ctx" and "schema_valid env" by auto
  then show ?thesis
    using assms by (cases boundary) (auto simp: chain_hydrated split: option.splits)
next
  case False
  then show ?thesis using assms by (cases "schema_valid env") (simp_all add: chain_cases)
qed

section \<open>Properties\<close>

text \<open>Inputs for the instances: a fixed hash, an operator, and a boundary with one grant.\<close>

definition sample_env :: eval_env where
  "sample_env =
     \<lparr>env_hash = (\<lambda>_. Ok ''h''), now_override = 5, now_emit = 6, decision_ulid = ''D'',
      action_ulid = ''A''\<rparr>"

definition sample_policy_context :: "hydrated_subject \<Rightarrow> policy_context" where
  "sample_policy_context subj =
     \<lparr>subject = subj,
      enrichment = \<lparr>snapshot_id = ''polb_snap_0'', object = object_enrichment_default,
                     adapter = adapter_enrichment_default\<rparr>,
      ctx_bundle_version = ''b1'', code_version = ''1.0''\<rparr>"

definition restart_envelope :: action_envelope where
  "restart_envelope =
     envelope_new (identity_new ''human:op'' False) (request_new ''svc.restart'' JNull)
       \<lparr>trace_id = ''t'', span_id = ''s'', parent_span_id = None\<rparr> 0"

definition sample_boundary :: override_boundary where
  "sample_boundary = boundary_after [OpRequest ''U'' sample_override 0]"

lemma sample_boundary_grant:
  "is_overridden_at ''svc.restart'' s 5 sample_boundary = Some (new_grant ''U'' sample_override 0)"
  by (simp add: sample_boundary_def boundary_after_def boundary_new_def
        request_accepted [OF sample_override_accepted] is_overridden_at_def)
    (simp add: is_expired_or_revoked_def in_scope_def new_grant_def ttl_i64_def i64_range_def
        sample_override_def duration_seconds_def)

lemma sample_delete_check: "check spec_defaults delete_envelope subj = Some RecursiveDeleteRoot"
  by (simp add: default_check_iff detect_recursive_delete_root_def)
    (simp add: delete_envelope_def envelope_new_def request_new_def spec_defaults_def
      target_string_field_def Let_def)

lemma sample_schema_valid: "schema_valid delete_envelope" "schema_valid restart_envelope"
  by (simp_all add: schema_valid_def delete_envelope_def restart_envelope_def envelope_new_def
      SCHEMA_VERSION_def request_new_def identity_new_def)

lemma restart_action [simp]: "action (env_request restart_envelope) = ''svc.restart''"
  by (simp add: restart_envelope_def envelope_new_def request_new_def)

lemma restart_check: "check spec_defaults restart_envelope subj = None"
  by (simp add: check_def detect_defs spec_defaults_def)

text \<open>
  C14: the pipeline evaluates in the order of the precedence ladder. The first tier, in the order of
  \<open>precedence_iter\<close>, that applies to a request decides it: the decision is one that the ladder documents for this
  tier, and the reason code is that of the tier. The one exception is tier 3, for which the ladder
  says \<open>DENY\<close> (\<open>precedence.rs\<close>, and section 5 of \<open>01_policy_kernel.md\<close>) while the pipeline, as its section 16
  describes, reads it as the place where a grant in force allows the request
  (\<open>override_tier_allows\<close>). Tiers 4 to 6 apply when the steps 6 to 8 of the pipeline say something,
  which they do not yet.
\<close>

theorem pipeline_follows_precedence:
  "\<exists>tier. find (tier_applies ev env hyd engine boundary) precedence_iter = Some tier \<and>
     (if tier = EmergencyOverrideDenylist
      then decision (evaluate_with_chain_full ev env ctx hyd engine boundary) = Allow
      else decision (evaluate_with_chain_full ev env ctx hyd engine boundary) \<in> set (documented_decisions tier)) \<and>
     tier_reason env hyd engine tier = Some (reason_code (evaluate_with_chain_full ev env ctx hyd engine boundary))"
proof (cases "schema_valid env \<and> hyd \<noteq> None")
  case True
  then obtain c where "hyd = Some c" and "schema_valid env" by auto
  then show ?thesis
    by (simp add: precedence_iter_def chain_hydrated step_defs split: option.splits)
next
  case False
  then show ?thesis
    by (cases "schema_valid env") (simp_all add: precedence_iter_def chain_cases)
qed

text \<open>
  The third tier of the ladder is documented as a deny. A grant in force for a request that is not hard-denied
  makes the pipeline allow it at this tier.
\<close>

lemma override_tier_allows:
  assumes "find (tier_applies ev env hyd engine boundary) precedence_iter = Some EmergencyOverrideDenylist"
  shows "decision (evaluate_with_chain_full ev env ctx hyd engine boundary) = Allow \<and>
    documented_decisions EmergencyOverrideDenylist = [Deny]"
proof (cases "schema_valid env \<and> hyd \<noteq> None")
  case True
  then obtain c where "hyd = Some c" and "schema_valid env" by auto
  then show ?thesis
    using assms by (simp add: precedence_iter_def chain_hydrated step_defs split: option.splits if_splits)
next
  case False
  then show ?thesis using assms by (auto simp: precedence_iter_def)
qed

text \<open>
  C4: a hard deny beats everything after it. Whatever grants the override boundary holds, a
  well-formed request of a known subject that falls into a hard-deny class is denied with the
  reason of that class.
\<close>

theorem hard_deny_beats_override:
  assumes "schema_valid env" and "check cfg env (subject ctx) = Some cls"
  shows "decision (evaluate_with_chain_full ev env ctx0 (Some ctx) (Some cfg) boundary) = Deny \<and>
    reason_code (evaluate_with_chain_full ev env ctx0 (Some ctx) (Some cfg) boundary) =
      reason_code_for cls"
  using assms by (simp add: chain_hydrated)

theorem hard_deny_beats_override_witness:
  "decision (evaluate_with_chain_full sample_env delete_envelope
       (sample_policy_context sample_operator) (Some (sample_policy_context sample_operator))
       (Some spec_defaults) (Some sample_boundary)) = Deny \<and>
   reason_code (evaluate_with_chain_full sample_env delete_envelope
       (sample_policy_context sample_operator) (Some (sample_policy_context sample_operator))
       (Some spec_defaults) (Some sample_boundary)) = reason_code_for RecursiveDeleteRoot"
  by (rule hard_deny_beats_override) (rule sample_schema_valid, rule sample_delete_check)

text \<open>
  The pipeline allows a request only on an override. An allow means the request was well
  formed, its subject was hydrated, the hard-deny engine, if there is one, found nothing, and
  the override boundary had a grant in force for that action and subject.
\<close>

theorem allow_only_by_override:
  assumes "decision (evaluate_with_chain_full ev env ctx0 hyd engine boundary) = Allow"
  shows "\<exists>ctx b g. hyd = Some ctx \<and> boundary = Some b \<and> schema_valid env \<and>
    hard_deny_of engine env ctx = None \<and>
    is_overridden_at (action (env_request env)) (canonical_subject_id (subject ctx))
      (now_override ev) b = Some g"
  using assms by (rule chain_allow)

theorem allow_only_by_override_witness:
  "\<exists>ctx b g. Some (sample_policy_context sample_operator) = Some ctx \<and>
    Some sample_boundary = Some b \<and> schema_valid restart_envelope \<and>
    hard_deny_of (Some spec_defaults) restart_envelope ctx = None \<and>
    is_overridden_at (action (env_request restart_envelope)) (canonical_subject_id (subject ctx))
      (now_override sample_env) b = Some g"
  by (rule allow_only_by_override [where ?ctx0.0 = "sample_policy_context sample_operator"])
    (simp add: chain_hydrated sample_schema_valid restart_check sample_env_def
      sample_boundary_grant)

text \<open>
  Every decision the pipeline writes is definite and usable: it allows or denies, carries
  the hash of the request it was computed for, at most one consulted rule and no approval
  demand, and its constraints pass their own validation at every instant.
\<close>

theorem decisions_well_formed:
  "let d = evaluate_with_chain_full ev env ctx hyd engine boundary in
     decision d \<in> {Allow, Deny} \<and> pd_request_hash d = compute_request_hash ev env \<and>
     rules_consulted d \<le> 1 \<and> approval d = approval_requirement_default \<and>
     validate_constraints now (pd_constraints d) = Ok ()"
proof (cases "schema_valid env \<and> hyd \<noteq> None")
  case True
  then obtain c where "hyd = Some c" and "schema_valid env" by auto
  then show ?thesis
    by (simp add: chain_hydrated constraints_default_valid Let_def split: option.splits)
next
  case False
  then show ?thesis
    by (cases "schema_valid env") (simp_all add: chain_cases constraints_default_valid Let_def)
qed

text \<open>
  Evaluation is deterministic up to identifiers and the write time. Two evaluations with
  the same hash function and the same instant at the override lookup give the same decision
  except for the two fresh identifiers and \<open>evaluated_at\<close>.
\<close>

theorem evaluation_replay:
  assumes "env_hash ev' = env_hash ev" and "now_override ev' = now_override ev"
  shows "evaluate_with_chain_full ev' env ctx hyd engine boundary =
    (evaluate_with_chain_full ev env ctx hyd engine boundary)
      \<lparr>policy_decision_id := ''poldec_'' @ decision_ulid ev',
       action_id := envelope_action_id ev' env, evaluated_at := now_emit ev'\<rparr>"
proof -
  have h: "compute_request_hash ev' env = compute_request_hash ev env"
    using assms(1) by (simp add: compute_request_hash_def)
  show ?thesis
  proof (cases "schema_valid env \<and> hyd \<noteq> None")
    case True
    then obtain c where "hyd = Some c" and "schema_valid env" by auto
    then show ?thesis
      using emit_replay [of ev' _ ev] assms(2) h
      by (simp add: chain_hydrated split: option.splits)
  next
    case False
    then show ?thesis
      using emit_replay [of ev' _ ev] h by (cases "schema_valid env") (simp_all add: chain_cases)
  qed
qed

theorem evaluation_replay_witness:
  "evaluate_with_chain_full (sample_env\<lparr>decision_ulid := ''E'', now_emit := 99\<rparr>) restart_envelope
     (sample_policy_context sample_operator) None None None =
   (evaluate_with_chain_full sample_env restart_envelope
     (sample_policy_context sample_operator) None None None)
      \<lparr>policy_decision_id := ''poldec_'' @ decision_ulid (sample_env\<lparr>decision_ulid := ''E'', now_emit := 99\<rparr>),
       action_id := envelope_action_id (sample_env\<lparr>decision_ulid := ''E'', now_emit := 99\<rparr>) restart_envelope,
       evaluated_at := now_emit (sample_env\<lparr>decision_ulid := ''E'', now_emit := 99\<rparr>)\<rparr>"
  by (rule evaluation_replay) simp_all

text \<open>
  The self-approval filter. After step 8 an AI subject never holds a plain allow for a
  request with a risk flag; the filter changes nothing else, keeps the identity of the decision
  it upgrades, and applying it twice is applying it once.
\<close>

theorem self_approval_filter:
  "(decision (apply_step_8 d subj env) = Allow \<longleftrightarrow>
      decision d = Allow \<and> \<not> (is_ai subj \<and> any_risk_flag env)) \<and>
   (decision (apply_step_8 d subj env) = Deny \<longleftrightarrow> decision d = Deny) \<and>
   policy_decision_id (apply_step_8 d subj env) = policy_decision_id d \<and>
   pd_request_hash (apply_step_8 d subj env) = pd_request_hash d \<and>
   evaluated_at (apply_step_8 d subj env) = evaluated_at d \<and>
   apply_step_8 (apply_step_8 d subj env) subj env = apply_step_8 d subj env"
  by (auto simp: apply_step_8_def evaluate_ai_self_approval_prevention_def)

end
