(* ===== verification/Policy_Hydration.thy ===== *)
theory Policy_Hydration
  imports Policy_Types
begin

text \<open>
  Subject hydration, \<open>subject_hydration.rs\<close>: the trait that turns a provisional subject name
  into a hydrated subject, and its in-memory implementation. The clock is an argument.
\<close>

section \<open>Records\<close>

record hydrated_record =
  hr_subject :: hydrated_subject
  valid_until :: "instant option"
  hr_revoked :: bool

definition record_new :: "hydrated_subject \<Rightarrow> hydrated_record" where
  "record_new s = \<lparr>hr_subject = s, valid_until = None, hr_revoked = False\<rparr>"

definition record_revoked :: "hydrated_record \<Rightarrow> hydrated_record" where
  "record_revoked r = r\<lparr>hr_revoked := True\<rparr>"

definition with_expiry :: "instant \<Rightarrow> hydrated_record \<Rightarrow> hydrated_record" where
  "with_expiry t r = r\<lparr>valid_until := Some t\<rparr>"

definition is_currently_valid :: "instant \<Rightarrow> hydrated_record \<Rightarrow> bool" where
  "is_currently_valid now r \<longleftrightarrow>
     (if hr_revoked r then False else (case valid_until r of None \<Rightarrow> True | Some t \<Rightarrow> now < t))"

section \<open>The in-memory hydrator\<close>

type_synonym in_memory_hydrator = "(string \<times> hydrated_record) list"

definition hydrator_new :: in_memory_hydrator where
  "hydrator_new = []"

definition hydrator_insert ::
    "string \<Rightarrow> hydrated_record \<Rightarrow> in_memory_hydrator \<Rightarrow> in_memory_hydrator" where
  "hydrator_insert provisional r h = AList.update provisional r h"

definition hydrator_len :: "in_memory_hydrator \<Rightarrow> nat" where
  "hydrator_len h = length h"

definition hydrator_is_empty :: "in_memory_hydrator \<Rightarrow> bool" where
  "hydrator_is_empty h \<longleftrightarrow> h = []"

definition with_fixtures :: in_memory_hydrator where
  "with_fixtures =
     hydrator_insert ''service:systemd''
       (record_new \<lparr>canonical_subject_id = ''service:systemd:01HX3333333333333333333333'',
          subject_type = Service, groups = [''system''], capabilities = [],
          session_class = ''INTERNAL'', recovery_mode = False, is_ai = False\<rparr>)
     (hydrator_insert ''application:planner''
       (record_new \<lparr>canonical_subject_id = ''application:planner:01HX2222222222222222222222'',
          subject_type = Application, groups = [''apps''], capabilities = [],
          session_class = ''INTERNAL'', recovery_mode = False, is_ai = True\<rparr>)
     (hydrator_insert ''agent:dev''
       (record_new \<lparr>canonical_subject_id = ''agent:dev:01HX1111111111111111111111'',
          subject_type = Agent, groups = [''cognitive-core''], capabilities = [],
          session_class = ''INTERNAL'', recovery_mode = False, is_ai = True\<rparr>)
     (hydrator_insert ''human:lucky''
       (record_new \<lparr>canonical_subject_id = ''human:lucky:01HX0000000000000000000000'',
          subject_type = Human, groups = [''operators''], capabilities = [],
          session_class = ''INTERNAL'', recovery_mode = False, is_ai = False\<rparr>)
     hydrator_new)))"

definition in_memory_hydrate ::
    "in_memory_hydrator \<Rightarrow> instant \<Rightarrow> string \<Rightarrow> (policy_error, hydrated_subject) result" where
  "in_memory_hydrate h now provisional =
     (case map_of h provisional of
        None \<Rightarrow> Err SubjectUnauthenticated
      | Some r \<Rightarrow>
          if \<not> is_currently_valid now r then Err SubjectUnauthenticated else Ok (hr_subject r))"

section \<open>The interface\<close>

text \<open>
  What the kernel relies on in a hydrator: the only failure is an unauthenticated subject, and a
  name that has lapsed stays lapsed as time passes.
\<close>

locale subject_hydrator =
  fixes hydrate :: "instant \<Rightarrow> string \<Rightarrow> (policy_error, hydrated_subject) result"
  assumes only_unauthenticated: "hydrate now p = Err e \<Longrightarrow> e = SubjectUnauthenticated"
    and lapse_is_final: "hydrate now p = Err e \<Longrightarrow> now \<le> later \<Longrightarrow> hydrate later p = Err e"
    and same_subject: "hydrate now p = Ok s \<Longrightarrow> hydrate later p = Ok s' \<Longrightarrow> s' = s"
begin

text \<open>The answers of a hydrator over time: one subject up to some point, then nothing.\<close>

lemma hydrate_history:
  assumes "hydrate later p = Ok s" and "now \<le> later"
  shows "hydrate now p = Ok s"
proof (cases "hydrate now p")
  case (Inl e)
  then show ?thesis using lapse_is_final [OF Inl assms(2)] assms(1) by simp
next
  case (Inr s')
  then show ?thesis using same_subject assms(1) by blast
qed

end

interpretation imh: subject_hydrator "in_memory_hydrate h" for h
proof
  show "in_memory_hydrate h now p = Err e \<Longrightarrow> e = SubjectUnauthenticated" for now p e
    by (auto simp: in_memory_hydrate_def split: option.splits if_splits)
  show "in_memory_hydrate h later p = Err e"
    if "in_memory_hydrate h now p = Err e" "now \<le> later" for now p e later
    using that
    by (auto simp: in_memory_hydrate_def is_currently_valid_def split: option.splits if_splits)
  show "in_memory_hydrate h now p = Ok s \<Longrightarrow> in_memory_hydrate h later p = Ok s' \<Longrightarrow> s' = s"
    for now p s later s'
    by (auto simp: in_memory_hydrate_def split: option.splits if_splits)
qed

section \<open>Properties\<close>

text \<open>
  Hydration answers with what was registered last. After a record is inserted under a name,
  that name hydrates to the record's subject exactly while the record is valid and is
  unauthenticated otherwise, and every other name answers as before.
\<close>

theorem hydrate_after_insert:
  assumes "distinct (map fst h)"
  shows "in_memory_hydrate (hydrator_insert p r h) now q =
    (if q = p
     then if hr_revoked r \<or> (\<exists>t. valid_until r = Some t \<and> t \<le> now)
          then Err SubjectUnauthenticated else Ok (hr_subject r)
     else in_memory_hydrate h now q)"
  using assms
  by (auto simp: in_memory_hydrate_def hydrator_insert_def hm.lookup_insert is_currently_valid_def
      split: option.splits)

theorem hydrate_after_insert_witness:
  "in_memory_hydrate (hydrator_insert ''human:op'' (with_expiry 10 (record_new sample_operator)) []) 10
     ''human:op'' =
   (if ''human:op'' = ''human:op''
    then if hr_revoked (with_expiry 10 (record_new sample_operator)) \<or>
            (\<exists>t. valid_until (with_expiry 10 (record_new sample_operator)) = Some t \<and> t \<le> (10 :: int))
         then Err SubjectUnauthenticated
         else Ok (hr_subject (with_expiry 10 (record_new sample_operator)))
    else in_memory_hydrate [] 10 ''human:op'')"
  by (rule hydrate_after_insert) simp

end
