(* ===== verification/Policy_Cache.thy ===== *)
theory Policy_Cache
  imports Policy_Types
begin

text \<open>
  The decision cache, \<open>cache.rs\<close>. The \<open>lru\<close> crate behind it is a third-party package: its
  operations are a record of functions, an argument of every definition, and its documented
  behaviour is the locale \<open>lru_cache\<close>. The cache itself adds the key, the capacity default and
  the invalidation of a bundle's entries.
\<close>

section \<open>The interface of the LRU store\<close>

record ('k, 'v, 'c) lru_ops =
  lru_new :: "nat \<Rightarrow> 'c"
  lru_get :: "'k \<Rightarrow> 'c \<Rightarrow> 'v option \<times> 'c"
  lru_put :: "'k \<Rightarrow> 'v \<Rightarrow> 'c \<Rightarrow> 'v option \<times> 'c"
  lru_pop :: "'k \<Rightarrow> 'c \<Rightarrow> 'v option \<times> 'c"
  lru_iter :: "'c \<Rightarrow> ('k \<times> 'v) list"
  lru_cap :: "'c \<Rightarrow> nat"

definition without :: "'k \<Rightarrow> ('k \<times> 'v) list \<Rightarrow> ('k \<times> 'v) list" where
  "without k xs = filter (\<lambda>(k', _). k' \<noteq> k) xs"

text \<open>
  \<open>iter\<close> lists the entries from the most to the least recently used. A hit moves its entry to
  the front; an insertion puts its entry in front and drops the last one when there is no room;
  \<open>pop\<close> takes an entry out.
\<close>

locale lru_cache =
  fixes L :: "('k, 'v, 'c) lru_ops"
  assumes iter_new: "0 < n \<Longrightarrow> lru_iter L (lru_new L n) = []"
    and cap_new: "0 < n \<Longrightarrow> lru_cap L (lru_new L n) = n"
    and get_value: "fst (lru_get L k c) = map_of (lru_iter L c) k"
    and get_iter: "lru_iter L (snd (lru_get L k c)) =
      (case map_of (lru_iter L c) k of
         None \<Rightarrow> lru_iter L c | Some v \<Rightarrow> (k, v) # without k (lru_iter L c))"
    and get_cap: "lru_cap L (snd (lru_get L k c)) = lru_cap L c"
    and put_value: "fst (lru_put L k v c) = map_of (lru_iter L c) k"
    and put_iter: "lru_iter L (snd (lru_put L k v c)) =
      take (lru_cap L c) ((k, v) # without k (lru_iter L c))"
    and put_cap: "lru_cap L (snd (lru_put L k v c)) = lru_cap L c"
    and pop_iter: "lru_iter L (snd (lru_pop L k c)) = without k (lru_iter L c)"
    and pop_cap: "lru_cap L (snd (lru_pop L k c)) = lru_cap L c"
    and cap_pos: "0 < lru_cap L c"
begin

definition lookup_entry :: "'c \<Rightarrow> 'k \<Rightarrow> 'v option" where
  "lookup_entry c k = map_of (lru_iter L c) k"

lemma map_of_without: "map_of (without k xs) k' = (if k' = k then None else map_of xs k')"
  by (induction xs) (auto simp: without_def)

lemma map_of_take: "map_of (take n xs) k = Some v \<Longrightarrow> \<exists>v'. map_of xs k = Some v'"
  by (metis in_set_takeD map_of_SomeD not_None_eq weak_map_of_SomeI)

lemma get_after_put: "lookup_entry (snd (lru_put L k v c)) k = Some v"
  using cap_pos [of c] by (cases "lru_cap L c") (simp_all add: lookup_entry_def put_iter)

lemma get_keeps: "lookup_entry (snd (lru_get L k c)) k' = lookup_entry c k'"
  by (auto simp: lookup_entry_def get_iter map_of_without split: option.splits)

lemma len_put: "length (lru_iter L (snd (lru_put L k v c))) \<le> lru_cap L c"
  by (simp add: put_iter)

lemma fold_pop: "lru_iter L (fold (\<lambda>k c. snd (lru_pop L k c)) ks c) =
    filter (\<lambda>(k, _). k \<notin> set ks) (lru_iter L c)"
proof (induction ks arbitrary: c)
  case (Cons k ks)
  then show ?case by (auto simp: pop_iter without_def intro!: filter_cong)
qed simp

lemma fold_pop_cap: "lru_cap L (fold (\<lambda>k c. snd (lru_pop L k c)) ks c) = lru_cap L c"
  by (induction ks arbitrary: c) (simp_all add: pop_cap)

end

text \<open>A store that does what the interface says: the capacity and the list of entries.\<close>

definition list_lru :: "('k, 'v, nat \<times> ('k \<times> 'v) list) lru_ops" where
  "list_lru =
     \<lparr>lru_new = (\<lambda>n. (n - 1, [])),
      lru_get = (\<lambda>k (n, xs). case map_of xs k of
                   None \<Rightarrow> (None, n, xs) | Some v \<Rightarrow> (Some v, n, (k, v) # without k xs)),
      lru_put = (\<lambda>k v (n, xs). (map_of xs k, n, take (Suc n) ((k, v) # without k xs))),
      lru_pop = (\<lambda>k (n, xs). (map_of xs k, n, without k xs)),
      lru_iter = snd,
      lru_cap = (\<lambda>(n, xs). Suc n)\<rparr>"

interpretation ll: lru_cache list_lru
  by unfold_locales (auto simp: list_lru_def split: option.splits prod.splits)

section \<open>The decision cache\<close>

definition DEFAULT_CAPACITY :: nat where
  "DEFAULT_CAPACITY = 1024"

record cache_key =
  ck_request_hash :: string
  ck_bundle_version :: string

definition cache_key_new :: "string \<Rightarrow> string \<Rightarrow> cache_key" where
  "cache_key_new h v = \<lparr>ck_request_hash = h, ck_bundle_version = v\<rparr>"

text \<open>
  \<open>wire_form\<close>: the JCS encoding (which may fail) and the hex BLAKE3 digest are arguments.
\<close>

definition wire_form ::
    "((string \<times> json) list \<Rightarrow> string option) \<Rightarrow> (string \<Rightarrow> string) \<Rightarrow> cache_key \<Rightarrow> string" where
  "wire_form jcs blake3_hex k =
     (let view = [(''request_hash'', JString (ck_request_hash k)),
                  (''bundle_version'', JString (ck_bundle_version k))];
          bytes = (case jcs view of None \<Rightarrow> ''<jcs-error>'' | Some b \<Rightarrow> b);
          hex = blake3_hex bytes
      in ''polc_'' @ take (min 32 (length hex)) hex)"

type_synonym 'c cache_ops = "(cache_key, policy_decision, 'c) lru_ops"

definition cache_new :: "'c cache_ops \<Rightarrow> nat \<Rightarrow> 'c" where
  "cache_new L capacity = lru_new L (if capacity = 0 then DEFAULT_CAPACITY else capacity)"

definition cache_get :: "'c cache_ops \<Rightarrow> cache_key \<Rightarrow> 'c \<Rightarrow> policy_decision option \<times> 'c" where
  "cache_get L k c = lru_get L k c"

definition cache_put ::
    "'c cache_ops \<Rightarrow> cache_key \<Rightarrow> policy_decision \<Rightarrow> 'c \<Rightarrow> policy_decision option \<times> 'c" where
  "cache_put L k d c = lru_put L k d c"

definition invalidate_for_bundle :: "'c cache_ops \<Rightarrow> string \<Rightarrow> 'c \<Rightarrow> nat \<times> 'c" where
  "invalidate_for_bundle L bv c =
     (let to_remove = map fst (filter (\<lambda>(k, _). ck_bundle_version k = bv) (lru_iter L c))
      in (length to_remove, fold (\<lambda>k c. snd (lru_pop L k c)) to_remove c))"

definition cache_len :: "'c cache_ops \<Rightarrow> 'c \<Rightarrow> nat" where
  "cache_len L c = length (lru_iter L c)"

definition cache_capacity :: "'c cache_ops \<Rightarrow> 'c \<Rightarrow> nat" where
  "cache_capacity L c = lru_cap L c"

definition cache_is_empty :: "'c cache_ops \<Rightarrow> 'c \<Rightarrow> bool" where
  "cache_is_empty L c \<longleftrightarrow> cache_len L c = 0"

section \<open>Properties\<close>

definition sample_decision :: policy_decision where
  "sample_decision =
     \<lparr>policy_decision_id = ''poldec_0'', action_id = ''act_0'', pd_request_hash = ''h'',
      pd_bundle_version = ''b1'', enrichment_snapshot_id = ''polb_snap_0'', decision = Deny,
      reason_code = ''DefaultDeny'', reason_message = [], pd_constraints = constraints_default,
      approval = approval_requirement_default, evidence_receipt_id = [], evaluated_at = 0,
      rules_consulted = 0, simulated = False\<rparr>"

lemma invalidate_iter:
  assumes "lru_cache L"
  shows "lru_iter L (snd (invalidate_for_bundle L bv c)) =
    filter (\<lambda>(k, _). ck_bundle_version k \<noteq> bv) (lru_iter L c)"
proof -
  have "k \<notin> fst ` {(k, v). (k, v) \<in> set (lru_iter L c) \<and> ck_bundle_version k = bv} \<longleftrightarrow>
      ck_bundle_version k \<noteq> bv" if "(k, v) \<in> set (lru_iter L c)" for k v
    using that by (force simp: image_iff)
  then show ?thesis
    by (auto simp: invalidate_for_bundle_def Let_def lru_cache.fold_pop [OF assms]
        case_prod_unfold image_iff intro!: filter_cong)
qed

text \<open>
  Invalidating a bundle removes exactly the decisions cached for that bundle, reports how
  many they were, and keeps every other entry in its place in the recency order.
\<close>

theorem invalidate_exact:
  assumes "lru_cache L"
  shows "let r = invalidate_for_bundle L bv c in
    lru_iter L (snd r) = filter (\<lambda>(k, _). ck_bundle_version k \<noteq> bv) (lru_iter L c) \<and>
    cache_len L (snd r) + fst r = cache_len L c \<and> cache_capacity L (snd r) = cache_capacity L c"
proof -
  have "length (filter (\<lambda>(k, _). ck_bundle_version k \<noteq> bv) xs) +
      length (filter (\<lambda>(k, _). ck_bundle_version k = bv) xs) = length xs"
    for xs :: "(cache_key \<times> policy_decision) list"
    by (induction xs) auto
  moreover have "lru_cap L (snd (invalidate_for_bundle L bv c)) = lru_cap L c"
    by (simp add: invalidate_for_bundle_def Let_def lru_cache.fold_pop_cap [OF assms])
  ultimately show ?thesis
    using invalidate_iter [OF assms, of bv c]
    by (simp add: Let_def cache_len_def cache_capacity_def)
      (simp add: invalidate_for_bundle_def Let_def)
qed

theorem invalidate_exact_witness:
  "let r = invalidate_for_bundle list_lru ''b1''
       (3, [(cache_key_new ''h'' ''b1'', sample_decision), (cache_key_new ''h'' ''b2'', sample_decision)]) in
    lru_iter list_lru (snd r) = filter (\<lambda>(k, _). ck_bundle_version k \<noteq> ''b1'')
      (lru_iter list_lru (3, [(cache_key_new ''h'' ''b1'', sample_decision), (cache_key_new ''h'' ''b2'', sample_decision)])) \<and>
    cache_len list_lru (snd r) + fst r =
      cache_len list_lru (3, [(cache_key_new ''h'' ''b1'', sample_decision), (cache_key_new ''h'' ''b2'', sample_decision)]) \<and>
    cache_capacity list_lru (snd r) =
      cache_capacity list_lru (3, [(cache_key_new ''h'' ''b1'', sample_decision), (cache_key_new ''h'' ''b2'', sample_decision)])"
  by (rule invalidate_exact) unfold_locales

end
