(* ===== verification/Policy_Kernel.thy ===== *)
theory Policy_Kernel
  imports Policy_Pipeline Policy_Hydration Policy_Cache
begin

text \<open>
  The in-memory policy kernel, \<open>kernel.rs\<close>: the pipeline with an optional hard-deny engine,
  subject hydrator, decision cache and override boundary, and the active bundle with its
  bounded rollback stack. The kernel's locks are taken one after the other and a poisoned lock
  is recovered; the model runs each method as one step. The dynamically dispatched hydrator is
  a function of the instant at which it is called and of the provisional name.
\<close>

section \<open>State\<close>

definition DEFAULT_ROLLBACK_STACK_CAPACITY :: nat where
  "DEFAULT_ROLLBACK_STACK_CAPACITY = 8"

type_synonym hydrator_fn = "instant \<Rightarrow> string \<Rightarrow> (policy_error, hydrated_subject) result"

record 'c policy_kernel =
  hard_deny_engine :: "hard_deny_engine_config option"
  subject_hydrator_fn :: "hydrator_fn option"
  decision_cache :: "'c option"
  active_bundle :: "policy_bundle option"
  rollback_stack :: "policy_bundle list"
  rollback_capacity :: nat
  kernel_boundary :: "override_boundary option"

definition context_new ::
    "hydrated_subject \<Rightarrow> enrichment_snapshot \<Rightarrow> string \<Rightarrow> string \<Rightarrow> policy_context" where
  "context_new subj enr bv cv =
     \<lparr>subject = subj, enrichment = enr, ctx_bundle_version = bv, code_version = cv\<rparr>"

definition kernel_new :: "'c policy_kernel" where
  "kernel_new =
     \<lparr>hard_deny_engine = None, subject_hydrator_fn = None, decision_cache = None,
      active_bundle = None, rollback_stack = [],
      rollback_capacity = DEFAULT_ROLLBACK_STACK_CAPACITY, kernel_boundary = None\<rparr>"

definition new_with_hard_deny :: "hard_deny_engine_config \<Rightarrow> 'c policy_kernel" where
  "new_with_hard_deny engine = kernel_new\<lparr>hard_deny_engine := Some engine\<rparr>"

definition new_with_full_chain :: "hydrator_fn \<Rightarrow> hard_deny_engine_config \<Rightarrow> 'c policy_kernel" where
  "new_with_full_chain hydrator engine =
     kernel_new\<lparr>hard_deny_engine := Some engine, subject_hydrator_fn := Some hydrator\<rparr>"

definition new_with_subject_hydrator :: "hydrator_fn \<Rightarrow> 'c policy_kernel" where
  "new_with_subject_hydrator hydrator = kernel_new\<lparr>subject_hydrator_fn := Some hydrator\<rparr>"

definition new_with_cache :: "'c \<Rightarrow> 'c policy_kernel" where
  "new_with_cache cache = kernel_new\<lparr>decision_cache := Some cache\<rparr>"

definition new_with_full_chain_and_cache ::
    "hydrator_fn \<Rightarrow> hard_deny_engine_config \<Rightarrow> 'c \<Rightarrow> 'c policy_kernel" where
  "new_with_full_chain_and_cache hydrator engine cache =
     kernel_new\<lparr>hard_deny_engine := Some engine, subject_hydrator_fn := Some hydrator,
       decision_cache := Some cache\<rparr>"

definition with_rollback_capacity :: "nat \<Rightarrow> 'c policy_kernel \<Rightarrow> 'c policy_kernel" where
  "with_rollback_capacity capacity k = k\<lparr>rollback_capacity := max capacity 1\<rparr>"

definition with_override_boundary :: "override_boundary \<Rightarrow> 'c policy_kernel \<Rightarrow> 'c policy_kernel" where
  "with_override_boundary b k = k\<lparr>kernel_boundary := Some b\<rparr>"

definition rollback_stack_depth :: "'c policy_kernel \<Rightarrow> nat" where
  "rollback_stack_depth k = length (rollback_stack k)"

section \<open>Bundle operations\<close>

definition flip_overrides :: "override_boundary option \<Rightarrow> override_boundary option" where
  "flip_overrides ob = map_option (\<lambda>b. snd (invalidate_for_bundle_flip b)) ob"

definition push_rollback :: "nat \<Rightarrow> policy_bundle \<Rightarrow> policy_bundle list \<Rightarrow> policy_bundle list" where
  "push_rollback capacity prev stack =
     (if capacity \<le> length stack \<and> stack \<noteq> [] then drop 1 stack else stack) @ [prev]"

definition set_active_bundle ::
    "policy_bundle \<Rightarrow> 'c policy_kernel \<Rightarrow> policy_bundle option \<times> 'c policy_kernel" where
  "set_active_bundle b k =
     (let previous = active_bundle k;
          stack = (case previous of
                     None \<Rightarrow> rollback_stack k
                   | Some prev \<Rightarrow> push_rollback (rollback_capacity k) prev (rollback_stack k))
      in (previous,
          k\<lparr>active_bundle := Some b, rollback_stack := stack,
            kernel_boundary := flip_overrides (kernel_boundary k)\<rparr>))"

definition rollback_active_bundle ::
    "'c policy_kernel \<Rightarrow> (policy_bundle \<times> string option) option \<times> 'c policy_kernel" where
  "rollback_active_bundle k =
     (if rollback_stack k = [] then (None, k)
      else
        let restore = last (rollback_stack k); displaced = active_bundle k
        in (Some (restore, map_option bundle_version displaced),
            k\<lparr>active_bundle := Some restore, rollback_stack := butlast (rollback_stack k),
              kernel_boundary := flip_overrides (kernel_boundary k)\<rparr>))"

section \<open>Evaluation\<close>

text \<open>The clock is read again for a cache hit and by the hydrator.\<close>

record kernel_env = eval_env +
  now_cached :: instant
  now_hydrate :: instant

text \<open>\<open>None\<close> is a subject the hydrator does not know; the pipeline turns it into a denial.\<close>

definition hydrate_context ::
    "hydrator_fn option \<Rightarrow> instant \<Rightarrow> action_envelope \<Rightarrow> policy_context \<Rightarrow>
     (policy_error, policy_context option) result" where
  "hydrate_context hydrator now env ctx =
     (case hydrator of
        None \<Rightarrow> Ok (Some ctx)
      | Some hydrate \<Rightarrow>
          (case hydrate now (subject_canonical_id (env_identity env)) of
             Inr s \<Rightarrow> Ok (Some (ctx\<lparr>subject := s\<rparr>))
           | Inl SubjectUnauthenticated \<Rightarrow> Ok None
           | Inl e \<Rightarrow> Err e))"

definition evaluate_policy ::
    "'c cache_ops \<Rightarrow> kernel_env \<Rightarrow> action_envelope \<Rightarrow> policy_context \<Rightarrow> 'c policy_kernel \<Rightarrow>
     (policy_error, policy_decision) result \<times> 'c policy_kernel" where
  "evaluate_policy L kev env ctx k =
     (let ev = eval_env.truncate kev;
          h = compute_request_hash ev env;
          key = cache_key_new h (ctx_bundle_version ctx);
          (hit, k) = (case decision_cache k of
                        None \<Rightarrow> (None, k)
                      | Some c \<Rightarrow>
                          (case cache_get L key c of
                             (found, c') \<Rightarrow> (found, k\<lparr>decision_cache := Some c'\<rparr>)))
      in case hit of
           Some cached \<Rightarrow> (Ok (cached\<lparr>evaluated_at := now_cached kev\<rparr>), k)
         | None \<Rightarrow>
             (case hydrate_context (subject_hydrator_fn k) (now_hydrate kev) env ctx of
                Inl e \<Rightarrow> (Err e, k)
              | Inr hydrated \<Rightarrow>
                  let d = evaluate_with_chain_full ev env ctx hydrated (hard_deny_engine k)
                            (kernel_boundary k);
                      k = (case decision_cache k of
                             None \<Rightarrow> k
                           | Some c \<Rightarrow> k\<lparr>decision_cache := Some (snd (cache_put L key d c))\<rparr>)
                  in (Ok d, k)))"

section \<open>Facts about the bundle operations\<close>

definition kernel_inv :: "'c policy_kernel \<Rightarrow> bool" where
  "kernel_inv k \<longleftrightarrow>
     0 < rollback_capacity k \<and> length (rollback_stack k) \<le> rollback_capacity k \<and>
     (active_bundle k = None \<longrightarrow> rollback_stack k = [])"

lemma length_push_rollback:
  "0 < n \<Longrightarrow> length st \<le> n \<Longrightarrow> length (push_rollback n b st) = min n (Suc (length st))"
  by (auto simp: push_rollback_def)

lemma push_rollback_room: "length st < n \<Longrightarrow> push_rollback n b st = st @ [b]"
  by (simp add: push_rollback_def)

lemma kernel_inv_new: "kernel_inv kernel_new"
  by (simp add: kernel_inv_def kernel_new_def DEFAULT_ROLLBACK_STACK_CAPACITY_def)

lemma kernel_inv_set: "kernel_inv k \<Longrightarrow> kernel_inv (snd (set_active_bundle b k))"
  by (auto simp: kernel_inv_def set_active_bundle_def Let_def length_push_rollback split: option.splits)

lemma kernel_inv_rollback: "kernel_inv k \<Longrightarrow> kernel_inv (snd (rollback_active_bundle k))"
  by (auto simp: kernel_inv_def rollback_active_bundle_def Let_def)

lemma flip_overrides_simps [simp]: "flip_overrides None = None" "flip_overrides (Some b) = Some []"
  by (simp_all add: flip_overrides_def invalidate_for_bundle_flip_def)

datatype kernel_op = KSetActive policy_bundle | KRollback

fun kernel_apply :: "kernel_op \<Rightarrow> 'c policy_kernel \<Rightarrow> 'c policy_kernel" where
  "kernel_apply (KSetActive b) k = snd (set_active_bundle b k)"
| "kernel_apply KRollback k = snd (rollback_active_bundle k)"

lemma kernel_inv_run: "kernel_inv k \<Longrightarrow> kernel_inv (fold kernel_apply ops k)"
proof (induction ops arbitrary: k)
  case (Cons op ops)
  then show ?case by (cases op) (simp_all add: kernel_inv_set kernel_inv_rollback)
qed simp

text \<open>The abstract history: the active bundle and an unbounded list of the bundles before it.\<close>

type_synonym history = "policy_bundle option \<times> policy_bundle list"

fun history_apply :: "kernel_op \<Rightarrow> history \<Rightarrow> history" where
  "history_apply (KSetActive b) (a, hs) = (Some b, case a of None \<Rightarrow> hs | Some p \<Rightarrow> hs @ [p])"
| "history_apply KRollback (a, hs) = (if hs = [] then (a, hs) else (Some (last hs), butlast hs))"

fun history_fits :: "nat \<Rightarrow> kernel_op list \<Rightarrow> history \<Rightarrow> bool" where
  "history_fits n [] s = (length (snd s) \<le> n)"
| "history_fits n (op # ops) s = (length (snd s) \<le> n \<and> history_fits n ops (history_apply op s))"

definition kernel_history :: "'c policy_kernel \<Rightarrow> history" where
  "kernel_history k = (active_bundle k, rollback_stack k)"

lemma history_fits_head: "history_fits n ops s \<Longrightarrow> length (snd s) \<le> n"
  by (cases ops) simp_all

lemma kernel_apply_history:
  assumes "length (snd (history_apply op (kernel_history k))) \<le> rollback_capacity k"
  shows "kernel_history (kernel_apply op k) = history_apply op (kernel_history k) \<and>
    rollback_capacity (kernel_apply op k) = rollback_capacity k"
proof (cases op)
  case (KSetActive b)
  then show ?thesis
    using assms by (cases "active_bundle k")
      (simp_all add: kernel_history_def set_active_bundle_def push_rollback_room)
next
  case KRollback
  then show ?thesis by (simp add: kernel_history_def rollback_active_bundle_def Let_def)
qed

lemma kernel_run_history:
  "history_fits (rollback_capacity k) ops (kernel_history k) \<Longrightarrow>
   kernel_history (fold kernel_apply ops k) = fold history_apply ops (kernel_history k)"
proof (induction ops arbitrary: k)
  case (Cons op ops)
  then have fits: "history_fits (rollback_capacity k) ops (history_apply op (kernel_history k))"
    by simp
  note step = kernel_apply_history [OF history_fits_head [OF fits]]
  then show ?case using Cons.IH [of "kernel_apply op k"] fits by simp
qed simp

section \<open>Facts about evaluation\<close>

definition kernel_key :: "kernel_env \<Rightarrow> action_envelope \<Rightarrow> policy_context \<Rightarrow> cache_key" where
  "kernel_key kev env ctx =
     cache_key_new (compute_request_hash (eval_env.truncate kev) env) (ctx_bundle_version ctx)"

lemma evaluate_uncached:
  assumes "decision_cache k = None"
  shows "evaluate_policy L kev env ctx k =
    (case hydrate_context (subject_hydrator_fn k) (now_hydrate kev) env ctx of
       Inl e \<Rightarrow> (Err e, k)
     | Inr hydrated \<Rightarrow>
         (Ok (evaluate_with_chain_full (eval_env.truncate kev) env ctx hydrated (hard_deny_engine k)
                (kernel_boundary k)), k))"
  using assms by (simp add: evaluate_policy_def Let_def split: sum.splits)

lemma evaluate_hit:
  assumes "decision_cache k = Some c" and "cache_get L (kernel_key kev env ctx) c = (Some d, c')"
  shows "evaluate_policy L kev env ctx k =
    (Ok (d\<lparr>evaluated_at := now_cached kev\<rparr>), k\<lparr>decision_cache := Some c'\<rparr>)"
  using assms by (simp add: evaluate_policy_def kernel_key_def Let_def)

lemma evaluate_miss:
  assumes "decision_cache k = Some c" and "cache_get L (kernel_key kev env ctx) c = (None, c')"
  shows "evaluate_policy L kev env ctx k =
    (case hydrate_context (subject_hydrator_fn k) (now_hydrate kev) env ctx of
       Inl e \<Rightarrow> (Err e, k\<lparr>decision_cache := Some c'\<rparr>)
     | Inr hydrated \<Rightarrow>
         let d = evaluate_with_chain_full (eval_env.truncate kev) env ctx hydrated
                   (hard_deny_engine k) (kernel_boundary k)
         in (Ok d, k\<lparr>decision_cache := Some (snd (cache_put L (kernel_key kev env ctx) d c'))\<rparr>))"
  using assms by (simp add: evaluate_policy_def kernel_key_def Let_def split: sum.splits)

text \<open>After a successful evaluation the cache holds a decision for its key.\<close>

lemma evaluate_fills_cache:
  assumes L: "lru_cache L" and "decision_cache k = Some c"
    and "evaluate_policy L kev env ctx k = (Ok d, k')"
  shows "\<exists>c' d'. decision_cache k' = Some c' \<and>
    map_of (lru_iter L c') (kernel_key kev env ctx) = Some d' \<and>
    d\<lparr>evaluated_at := t\<rparr> = d'\<lparr>evaluated_at := t\<rparr>"
proof -
  obtain hit c1 where get: "cache_get L (kernel_key kev env ctx) c = (hit, c1)" by fastforce
  show ?thesis
  proof (cases hit)
    case None
    then obtain hydrated where k': "k' = k\<lparr>decision_cache := Some (snd (cache_put L
          (kernel_key kev env ctx) d c1))\<rparr>"
      using assms(2,3) get by (auto simp: evaluate_miss Let_def split: sum.splits)
    then show ?thesis
      using lru_cache.get_after_put [OF L, of "kernel_key kev env ctx" d c1]
      by (simp add: cache_put_def lru_cache.lookup_entry_def [OF L])
  next
    case (Some d0)
    then have "d = d0\<lparr>evaluated_at := now_cached kev\<rparr>" "k' = k\<lparr>decision_cache := Some c1\<rparr>"
      using assms(2,3) get by (auto simp: evaluate_hit)
    moreover have "map_of (lru_iter L c1) (kernel_key kev env ctx) = Some d0"
      using lru_cache.get_keeps [OF L, of "kernel_key kev env ctx" c "kernel_key kev env ctx"]
        lru_cache.get_value [OF L, of "kernel_key kev env ctx" c] get Some
      by (simp add: cache_get_def lru_cache.lookup_entry_def [OF L])
    ultimately show ?thesis by simp
  qed
qed

section \<open>The hydrator's contract in the kernel\<close>

context subject_hydrator
begin

lemma hydrate_context_total:
  "\<exists>hydrated. hydrate_context (Some hydrate) now env ctx = Ok hydrated"
  using only_unauthenticated [of now "subject_canonical_id (env_identity env)"]
  by (cases "hydrate now (subject_canonical_id (env_identity env))")
    (auto simp: hydrate_context_def)

end

lemma evaluate_total:
  assumes "\<exists>hydrated. hydrate_context (subject_hydrator_fn k) (now_hydrate kev) env ctx = Ok hydrated"
  shows "\<exists>d. fst (evaluate_policy L kev env ctx k) = Ok d"
proof (cases "decision_cache k")
  case None
  then show ?thesis using assms by (auto simp: evaluate_uncached)
next
  case (Some c)
  obtain hit c1 where get: "cache_get L (kernel_key kev env ctx) c = (hit, c1)" by fastforce
  then show ?thesis
    using assms Some by (cases hit) (auto simp: evaluate_hit evaluate_miss Let_def)
qed

section \<open>Properties\<close>

definition sample_bundle :: "string \<Rightarrow> policy_bundle" where
  "sample_bundle v =
     \<lparr>bundle_version = v, bundle_id = ''pb'', created_at = 0, signing_authority = ''root'',
      signature_ed25519 = [], rules = []\<rparr>"

definition sample_kernel_env :: kernel_env where
  "sample_kernel_env = eval_env.extend sample_env \<lparr>now_cached = 7, now_hydrate = 4\<rparr>"

text \<open>
  The rollback stack is always bounded. After any sequence of bundle changes and rollbacks
  on a fresh kernel, the stack holds at most the configured number of bundles, and it is empty
  while no bundle is active.
\<close>

theorem rollback_stack_bounded:
  "let k = fold kernel_apply ops (with_rollback_capacity n (kernel_new :: 'c policy_kernel)) in
     rollback_stack_depth k \<le> max n 1 \<and> (rollback_stack k = [] \<or> (\<exists>b. active_bundle k = Some b))"
proof -
  have cap: "rollback_capacity (fold kernel_apply ops k) = rollback_capacity k"
    for k :: "'c policy_kernel"
  proof (induction ops arbitrary: k)
    case (Cons op ops)
    then show ?case
      by (cases op) (simp_all add: set_active_bundle_def rollback_active_bundle_def Let_def)
  qed simp
  have "kernel_inv (fold kernel_apply ops (with_rollback_capacity n (kernel_new :: 'c policy_kernel)))"
    by (intro kernel_inv_run) (simp add: kernel_inv_def with_rollback_capacity_def kernel_new_def)
  then show ?thesis
    using cap [of "with_rollback_capacity n kernel_new"]
    by (auto simp: kernel_inv_def Let_def rollback_stack_depth_def with_rollback_capacity_def)
qed

text \<open>
  C34: while the history fits, the kernel is an undo history. For any sequence of bundle changes
  and rollbacks whose undo depth stays within the capacity, the active bundle and the stack of
  the kernel are exactly those of the unbounded history.
\<close>

theorem bundle_history_refinement:
  assumes "history_fits (rollback_capacity k) ops (kernel_history k)"
  shows "kernel_history (fold kernel_apply ops k) = fold history_apply ops (kernel_history k)"
  using assms by (rule kernel_run_history)

theorem bundle_history_refinement_witness:
  "kernel_history (fold kernel_apply
     [KSetActive (sample_bundle ''v1''), KSetActive (sample_bundle ''v2''), KRollback]
     (kernel_new :: unit policy_kernel)) =
   fold history_apply
     [KSetActive (sample_bundle ''v1''), KSetActive (sample_bundle ''v2''), KRollback]
     (kernel_history (kernel_new :: unit policy_kernel))"
  by (rule bundle_history_refinement)
    (simp add: kernel_new_def kernel_history_def DEFAULT_ROLLBACK_STACK_CAPACITY_def)

text \<open>
  Rollback undoes a bundle change. With room on the stack, a change followed by a rollback
  reports the restored bundle and the displaced version and leaves the kernel as it was, except
  that the overrides granted before are gone.
\<close>

theorem rollback_undoes_set:
  assumes "active_bundle k = Some old" and "length (rollback_stack k) < rollback_capacity k"
  shows "rollback_active_bundle (snd (set_active_bundle b k)) =
    (Some (old, Some (bundle_version b)),
     k\<lparr>kernel_boundary := map_option (\<lambda>_. []) (kernel_boundary k)\<rparr>)"
  using assms
  by (cases "kernel_boundary k")
    (simp_all add: set_active_bundle_def rollback_active_bundle_def push_rollback_room Let_def)

theorem rollback_undoes_set_witness:
  "rollback_active_bundle (snd (set_active_bundle (sample_bundle ''v2'')
      ((kernel_new :: unit policy_kernel)\<lparr>active_bundle := Some (sample_bundle ''v1'')\<rparr>))) =
    (Some (sample_bundle ''v1'', Some (bundle_version (sample_bundle ''v2''))),
     ((kernel_new :: unit policy_kernel)\<lparr>active_bundle := Some (sample_bundle ''v1'')\<rparr>)
       \<lparr>kernel_boundary := map_option (\<lambda>_. [])
         (kernel_boundary ((kernel_new :: unit policy_kernel)\<lparr>active_bundle := Some (sample_bundle ''v1'')\<rparr>))\<rparr>)"
  by (rule rollback_undoes_set) (simp_all add: kernel_new_def DEFAULT_ROLLBACK_STACK_CAPACITY_def)

text \<open>
  A bundle flip closes every override. Right after the active bundle changes, a kernel
  without a cache allows nothing, whatever grants were in force before.
\<close>

theorem flip_closes_overrides:
  assumes "decision_cache k = None"
    and "fst (evaluate_policy L kev env ctx (snd (set_active_bundle b k))) = Ok d"
  shows "decision d = Deny"
proof -
  let ?k = "snd (set_active_bundle b k)"
  have "decision_cache ?k = None" using assms(1) by (simp add: set_active_bundle_def Let_def)
  moreover have "kernel_boundary ?k = None \<or> kernel_boundary ?k = Some []"
    by (cases "kernel_boundary k") (simp_all add: set_active_bundle_def Let_def)
  ultimately obtain hydrated ob where
    d: "d = evaluate_with_chain_full (eval_env.truncate kev) env ctx hydrated (hard_deny_engine ?k) ob"
    and ob: "ob = None \<or> ob = Some []"
    using assms(2) by (auto simp: evaluate_uncached split: sum.splits)
  then have "override_of now ob env c = None" for now c by (auto simp: is_overridden_at_def)
  then show ?thesis
    by (cases "schema_valid env"; cases hydrated) (simp_all add: d chain_cases split: option.splits)
qed

theorem flip_closes_overrides_witness:
  "decision (evaluate_with_chain_full sample_env restart_envelope
     (sample_policy_context sample_operator) (Some (sample_policy_context sample_operator)) None
     (Some [])) = Deny"
  by (rule flip_closes_overrides [where L = "list_lru :: (nat \<times> _) cache_ops" and
        kev = sample_kernel_env and env = restart_envelope and b = "sample_bundle ''v1''" and
        ctx = "sample_policy_context sample_operator" and
        k = "with_override_boundary sample_boundary kernel_new"])
    (simp_all add: with_override_boundary_def kernel_new_def set_active_bundle_def evaluate_uncached
      hydrate_context_def sample_kernel_env_def eval_env.defs sample_env_def)

text \<open>
  A kernel whose subjects come from the in-memory hydrator always reaches a decision, with
  or without a cache, whatever the store behind the cache does.
\<close>

theorem evaluation_total:
  assumes "subject_hydrator_fn k = Some (in_memory_hydrate h)"
  shows "\<exists>d. fst (evaluate_policy L kev env ctx k) = Ok d"
  using assms imh.hydrate_context_total by (intro evaluate_total) simp

theorem evaluation_total_witness:
  "\<exists>d. fst (evaluate_policy list_lru sample_kernel_env restart_envelope
     (sample_policy_context sample_operator)
     (new_with_full_chain (in_memory_hydrate with_fixtures) spec_defaults)) = Ok d"
  by (rule evaluation_total [where h = with_fixtures]) (simp add: new_with_full_chain_def)

text \<open>
  A cached decision is served for the request and the bundle version alone. Once an
  evaluation has succeeded on a kernel with a cache, every later evaluation of an envelope with
  the same request under the same bundle version returns that decision with a new time stamp:
  for any other subject, whether or not it would hydrate, and on any kernel that shares the
  cache, even one with a stricter hard-deny engine or with the override revoked.
\<close>

theorem cache_serves_any_subject:
  assumes "lru_cache L" and "decision_cache k = Some c"
    and "evaluate_policy L kev env ctx k = (Ok d, k')"
    and "decision_cache k2 = decision_cache k'"
    and "env_request env2 = env_request env" and "ctx_bundle_version ctx2 = ctx_bundle_version ctx"
    and "env_hash kev2 = env_hash kev"
  shows "fst (evaluate_policy L kev2 env2 ctx2 k2) = Ok (d\<lparr>evaluated_at := now_cached kev2\<rparr>)"
proof -
  have key: "kernel_key kev2 env2 ctx2 = kernel_key kev env ctx"
    using assms(5-7)
    by (simp add: kernel_key_def compute_request_hash_def eval_env.defs)
  obtain c' d' where c': "decision_cache k' = Some c'"
    and hit: "map_of (lru_iter L c') (kernel_key kev env ctx) = Some d'"
    and d: "d\<lparr>evaluated_at := now_cached kev2\<rparr> = d'\<lparr>evaluated_at := now_cached kev2\<rparr>"
    using evaluate_fills_cache [OF assms(1-3), of "now_cached kev2"] by blast
  obtain x c2 where get: "cache_get L (kernel_key kev2 env2 ctx2) c' = (x, c2)" by fastforce
  then have "x = Some d'"
    using lru_cache.get_value [OF assms(1), of "kernel_key kev2 env2 ctx2" c'] hit key
    by (simp add: cache_get_def)
  then show ?thesis using assms(4) c' get d by (simp add: evaluate_hit)
qed

text \<open>An override for one operator only, granted and revoked.\<close>

definition scoped_override :: override_request where
  "scoped_override =
     sample_override\<lparr>req_scope := \<lparr>os_rule_id = [], os_action = ''svc.restart'',
       os_subjects = [''human:op'']\<rparr>\<rparr>"

definition cached_kernel :: "(nat \<times> (cache_key \<times> policy_decision) list) policy_kernel" where
  "cached_kernel =
     with_override_boundary (boundary_after [OpRequest ''U'' scoped_override 0])
       (new_with_cache (cache_new list_lru 0))"

lemma scoped_override_accepted: "accepted scoped_override"
  using sample_override_accepted by (simp add: accepted_def scoped_override_def)

lemma scoped_grant:
  "is_overridden_at ''svc.restart'' ''human:op'' 5 (boundary_after [OpRequest ''U'' scoped_override 0])
     = Some (new_grant ''U'' scoped_override 0)"
  by (simp add: boundary_after_def boundary_new_def request_accepted [OF scoped_override_accepted]
        is_overridden_at_def)
    (simp add: is_expired_or_revoked_def in_scope_def new_grant_def ttl_i64_def i64_range_def
        sample_override_def scoped_override_def duration_seconds_def)

theorem cache_serves_any_subject_witness:
  "\<exists>d k'. evaluate_policy list_lru sample_kernel_env restart_envelope
       (sample_policy_context sample_operator) cached_kernel = (Ok d, k') \<and> decision d = Allow \<and>
     fst (evaluate_policy list_lru sample_kernel_env restart_envelope
       (sample_policy_context sample_subject)
       (with_override_boundary (snd (invalidate_for_bundle_flip (the (kernel_boundary k')))) k')) =
     Ok (d\<lparr>evaluated_at := now_cached sample_kernel_env\<rparr>)"
proof -
  define d where "d = evaluate_with_chain_full sample_env restart_envelope
    (sample_policy_context sample_operator) (Some (sample_policy_context sample_operator)) None
    (kernel_boundary cached_kernel)"
  have trunc: "eval_env.truncate sample_kernel_env = sample_env"
    by (simp add: sample_kernel_env_def eval_env.defs sample_env_def)
  have allow: "decision d = Allow"
    using scoped_grant
    by (simp add: d_def chain_hydrated sample_schema_valid cached_kernel_def with_override_boundary_def
        sample_env_def sample_policy_context_def sample_operator_def)
  define k' where "k' = snd (evaluate_policy list_lru sample_kernel_env restart_envelope
    (sample_policy_context sample_operator) cached_kernel)"
  have eval: "evaluate_policy list_lru sample_kernel_env restart_envelope
      (sample_policy_context sample_operator) cached_kernel = (Ok d, k')"
    unfolding k'_def
    by (simp add: evaluate_policy_def trunc d_def cached_kernel_def with_override_boundary_def
        new_with_cache_def cache_new_def cache_get_def list_lru_def kernel_new_def hydrate_context_def Let_def)
  have "fst (evaluate_policy list_lru sample_kernel_env restart_envelope
       (sample_policy_context sample_subject)
       (with_override_boundary (snd (invalidate_for_bundle_flip (the (kernel_boundary k')))) k')) =
     Ok (d\<lparr>evaluated_at := now_cached sample_kernel_env\<rparr>)"
    by (rule cache_serves_any_subject [OF _ _ eval, where c = "cache_new list_lru 0"])
      (unfold_locales, simp_all add: cached_kernel_def with_override_boundary_def new_with_cache_def
        sample_policy_context_def)
  then show ?thesis using eval allow by blast
qed

end
