(* ===== verification/Policy_Conditions.thy ===== *)
theory Policy_Conditions
  imports Policy_Types
begin

text \<open>
  The condition language of policy rules, \<open>conditions.rs\<close>: the abstract syntax, the closed
  vocabulary of fields grouped by namespace, and the two directions between a field and its
  dotted name. The match of \<open>ClosedField::resolve\<close> is a table per namespace, searched in the
  order of the source's arms; the target namespace falls through to adapter-declared fields.
\<close>

section \<open>Syntax\<close>

datatype compare_op = Eq | Neq | Lt | Lte | Gt | Gte

fun compare_op_str :: "compare_op \<Rightarrow> string" where
  "compare_op_str Eq = ''=''"
| "compare_op_str Neq = ''!=''"
| "compare_op_str Lt = ''<''"
| "compare_op_str Lte = ''<=''"
| "compare_op_str Gt = ''>''"
| "compare_op_str Gte = ''>=''"

datatype namespace = NsSubject | NsRequest | NsTarget | NsObject | NsTime | NsSystem

fun namespace_str :: "namespace \<Rightarrow> string" where
  "namespace_str NsSubject = ''subject''"
| "namespace_str NsRequest = ''request''"
| "namespace_str NsTarget = ''target''"
| "namespace_str NsObject = ''object''"
| "namespace_str NsTime = ''time''"
| "namespace_str NsSystem = ''system''"

definition namespace_from_token :: "string \<Rightarrow> namespace option" where
  "namespace_from_token s =
     (if s = ''subject'' then Some NsSubject
      else if s = ''request'' then Some NsRequest
      else if s = ''target'' then Some NsTarget
      else if s = ''object'' then Some NsObject
      else if s = ''time'' then Some NsTime
      else if s = ''system'' then Some NsSystem
      else None)"

datatype closed_field =
   SubjectCanonicalSubjectId | SubjectSubjectType | SubjectGroups | SubjectCapabilities
    | SubjectSessionClass | SubjectRecoveryMode | SubjectIsAi | SubjectPrimaryGroupId
    | SubjectIsFirstBoot | SubjectNetworkOutboundDirective | SubjectAiExternalPosture
    | RequestAction | RequestEnvironment | RequestRiskDestructive | RequestRiskPrivileged
    | RequestRiskNetworkExposure | RequestRiskSecretAccess | RequestRiskRecoveryPathAffected
    | RequestDryRun | RequestSandboxProfileId | TargetScope | TargetGroupId | TargetUserId
    | TargetReservedName | TargetIsConstitutionalSubstrate | TargetSurfaceKind
    | TargetCompositionZone | TargetGpuCapabilityClass | TargetGpuDeviceKind | TargetThemeKind
    | TargetThemeId | TargetExposureClass | TargetDeviceClass | TargetDeviceTrustClass
    | TargetRemovable | TargetDriverProvenance | TargetFirmwareTrusted
    | TargetAdapterDeclared string | ObjectPrivacyClass | ObjectPolicyTags | ObjectKind
    | ObjectLifecycleState | ObjectCreatedBy | TimeRecoveryMode | TimeWeekday | TimeHourUtc
    | SystemHostId | SystemClusterId | SystemReleaseChannel

datatype cvalue =
    VString string | VIdentifier string | VInt int | VBool bool | VTimestamp string

fun value_type_name :: "cvalue \<Rightarrow> string" where
  "value_type_name (VString _) = ''string''"
| "value_type_name (VIdentifier _) = ''identifier''"
| "value_type_name (VInt _) = ''int''"
| "value_type_name (VBool _) = ''bool''"
| "value_type_name (VTimestamp _) = ''timestamp''"

datatype predicate =
    Compare closed_field compare_op cvalue
  | In closed_field "cvalue list"
  | Contains closed_field string
  | Exists closed_field

text \<open>A condition is the conjunction of its predicates.\<close>

datatype pcondition = Condition (predicates: "predicate list")

definition empty_condition :: pcondition where
  "empty_condition = Condition []"

section \<open>The field vocabulary\<close>

fun field_namespace :: "closed_field \<Rightarrow> namespace" where
  "field_namespace SubjectCanonicalSubjectId = NsSubject"
| "field_namespace SubjectSubjectType = NsSubject"
| "field_namespace SubjectGroups = NsSubject"
| "field_namespace SubjectCapabilities = NsSubject"
| "field_namespace SubjectSessionClass = NsSubject"
| "field_namespace SubjectRecoveryMode = NsSubject"
| "field_namespace SubjectIsAi = NsSubject"
| "field_namespace SubjectPrimaryGroupId = NsSubject"
| "field_namespace SubjectIsFirstBoot = NsSubject"
| "field_namespace SubjectNetworkOutboundDirective = NsSubject"
| "field_namespace SubjectAiExternalPosture = NsSubject"
| "field_namespace RequestAction = NsRequest"
| "field_namespace RequestEnvironment = NsRequest"
| "field_namespace RequestRiskDestructive = NsRequest"
| "field_namespace RequestRiskPrivileged = NsRequest"
| "field_namespace RequestRiskNetworkExposure = NsRequest"
| "field_namespace RequestRiskSecretAccess = NsRequest"
| "field_namespace RequestRiskRecoveryPathAffected = NsRequest"
| "field_namespace RequestDryRun = NsRequest"
| "field_namespace RequestSandboxProfileId = NsRequest"
| "field_namespace TargetScope = NsTarget"
| "field_namespace TargetGroupId = NsTarget"
| "field_namespace TargetUserId = NsTarget"
| "field_namespace TargetReservedName = NsTarget"
| "field_namespace TargetIsConstitutionalSubstrate = NsTarget"
| "field_namespace TargetSurfaceKind = NsTarget"
| "field_namespace TargetCompositionZone = NsTarget"
| "field_namespace TargetGpuCapabilityClass = NsTarget"
| "field_namespace TargetGpuDeviceKind = NsTarget"
| "field_namespace TargetThemeKind = NsTarget"
| "field_namespace TargetThemeId = NsTarget"
| "field_namespace TargetExposureClass = NsTarget"
| "field_namespace TargetDeviceClass = NsTarget"
| "field_namespace TargetDeviceTrustClass = NsTarget"
| "field_namespace TargetRemovable = NsTarget"
| "field_namespace TargetDriverProvenance = NsTarget"
| "field_namespace TargetFirmwareTrusted = NsTarget"
| "field_namespace (TargetAdapterDeclared _) = NsTarget"
| "field_namespace ObjectPrivacyClass = NsObject"
| "field_namespace ObjectPolicyTags = NsObject"
| "field_namespace ObjectKind = NsObject"
| "field_namespace ObjectLifecycleState = NsObject"
| "field_namespace ObjectCreatedBy = NsObject"
| "field_namespace TimeRecoveryMode = NsTime"
| "field_namespace TimeWeekday = NsTime"
| "field_namespace TimeHourUtc = NsTime"
| "field_namespace SystemHostId = NsSystem"
| "field_namespace SystemClusterId = NsSystem"
| "field_namespace SystemReleaseChannel = NsSystem"

definition subject_fields :: "(string \<times> closed_field) list" where
  "subject_fields =
     [(''canonical_subject_id'', SubjectCanonicalSubjectId),
      (''subject_type'', SubjectSubjectType),
      (''groups'', SubjectGroups),
      (''capabilities'', SubjectCapabilities),
      (''session_class'', SubjectSessionClass),
      (''recovery_mode'', SubjectRecoveryMode),
      (''is_ai'', SubjectIsAi),
      (''primary_group_id'', SubjectPrimaryGroupId),
      (''is_first_boot'', SubjectIsFirstBoot),
      (''network_outbound_directive'', SubjectNetworkOutboundDirective),
      (''ai_external_posture'', SubjectAiExternalPosture)]"

definition request_fields :: "(string \<times> closed_field) list" where
  "request_fields =
     [(''action'', RequestAction),
      (''environment'', RequestEnvironment),
      (''risk.destructive'', RequestRiskDestructive),
      (''risk.privileged'', RequestRiskPrivileged),
      (''risk.network_exposure'', RequestRiskNetworkExposure),
      (''risk.secret_access'', RequestRiskSecretAccess),
      (''risk.recovery_path_affected'', RequestRiskRecoveryPathAffected),
      (''dry_run'', RequestDryRun),
      (''sandbox_profile_id'', RequestSandboxProfileId)]"

definition target_fields :: "(string \<times> closed_field) list" where
  "target_fields =
     [(''scope'', TargetScope),
      (''group_id'', TargetGroupId),
      (''user_id'', TargetUserId),
      (''reserved_name'', TargetReservedName),
      (''is_constitutional_substrate'', TargetIsConstitutionalSubstrate),
      (''surface_kind'', TargetSurfaceKind),
      (''composition_zone'', TargetCompositionZone),
      (''gpu_capability_class'', TargetGpuCapabilityClass),
      (''gpu_device_kind'', TargetGpuDeviceKind),
      (''theme_kind'', TargetThemeKind),
      (''theme_id'', TargetThemeId),
      (''exposure_class'', TargetExposureClass),
      (''device_class'', TargetDeviceClass),
      (''device_trust_class'', TargetDeviceTrustClass),
      (''removable'', TargetRemovable),
      (''driver_provenance'', TargetDriverProvenance),
      (''firmware_trusted'', TargetFirmwareTrusted)]"

definition object_fields :: "(string \<times> closed_field) list" where
  "object_fields =
     [(''privacy_class'', ObjectPrivacyClass),
      (''policy_tags'', ObjectPolicyTags),
      (''kind'', ObjectKind),
      (''lifecycle_state'', ObjectLifecycleState),
      (''created_by'', ObjectCreatedBy)]"

definition time_fields :: "(string \<times> closed_field) list" where
  "time_fields =
     [(''recovery_mode'', TimeRecoveryMode),
      (''weekday'', TimeWeekday),
      (''hour_utc'', TimeHourUtc)]"

definition system_fields :: "(string \<times> closed_field) list" where
  "system_fields =
     [(''host_id'', SystemHostId),
      (''cluster_id'', SystemClusterId),
      (''release_channel'', SystemReleaseChannel)]"

fun namespace_fields :: "namespace \<Rightarrow> (string \<times> closed_field) list" where
  "namespace_fields NsSubject = subject_fields"
| "namespace_fields NsRequest = request_fields"
| "namespace_fields NsTarget = target_fields"
| "namespace_fields NsObject = object_fields"
| "namespace_fields NsTime = time_fields"
| "namespace_fields NsSystem = system_fields"

definition resolve_field :: "namespace \<Rightarrow> string \<Rightarrow> closed_field option" where
  "resolve_field ns subpath =
     (case map_of (namespace_fields ns) subpath of
        Some f \<Rightarrow> Some f
      | None \<Rightarrow> if ns = NsTarget then Some (TargetAdapterDeclared subpath) else None)"

fun as_dotted :: "closed_field \<Rightarrow> string" where
  "as_dotted SubjectCanonicalSubjectId = ''subject.canonical_subject_id''"
| "as_dotted SubjectSubjectType = ''subject.subject_type''"
| "as_dotted SubjectGroups = ''subject.groups''"
| "as_dotted SubjectCapabilities = ''subject.capabilities''"
| "as_dotted SubjectSessionClass = ''subject.session_class''"
| "as_dotted SubjectRecoveryMode = ''subject.recovery_mode''"
| "as_dotted SubjectIsAi = ''subject.is_ai''"
| "as_dotted SubjectPrimaryGroupId = ''subject.primary_group_id''"
| "as_dotted SubjectIsFirstBoot = ''subject.is_first_boot''"
| "as_dotted SubjectNetworkOutboundDirective = ''subject.network_outbound_directive''"
| "as_dotted SubjectAiExternalPosture = ''subject.ai_external_posture''"
| "as_dotted RequestAction = ''request.action''"
| "as_dotted RequestEnvironment = ''request.environment''"
| "as_dotted RequestRiskDestructive = ''request.risk.destructive''"
| "as_dotted RequestRiskPrivileged = ''request.risk.privileged''"
| "as_dotted RequestRiskNetworkExposure = ''request.risk.network_exposure''"
| "as_dotted RequestRiskSecretAccess = ''request.risk.secret_access''"
| "as_dotted RequestRiskRecoveryPathAffected = ''request.risk.recovery_path_affected''"
| "as_dotted RequestDryRun = ''request.dry_run''"
| "as_dotted RequestSandboxProfileId = ''request.sandbox_profile_id''"
| "as_dotted TargetScope = ''target.scope''"
| "as_dotted TargetGroupId = ''target.group_id''"
| "as_dotted TargetUserId = ''target.user_id''"
| "as_dotted TargetReservedName = ''target.reserved_name''"
| "as_dotted TargetIsConstitutionalSubstrate = ''target.is_constitutional_substrate''"
| "as_dotted TargetSurfaceKind = ''target.surface_kind''"
| "as_dotted TargetCompositionZone = ''target.composition_zone''"
| "as_dotted TargetGpuCapabilityClass = ''target.gpu_capability_class''"
| "as_dotted TargetGpuDeviceKind = ''target.gpu_device_kind''"
| "as_dotted TargetThemeKind = ''target.theme_kind''"
| "as_dotted TargetThemeId = ''target.theme_id''"
| "as_dotted TargetExposureClass = ''target.exposure_class''"
| "as_dotted TargetDeviceClass = ''target.device_class''"
| "as_dotted TargetDeviceTrustClass = ''target.device_trust_class''"
| "as_dotted TargetRemovable = ''target.removable''"
| "as_dotted TargetDriverProvenance = ''target.driver_provenance''"
| "as_dotted TargetFirmwareTrusted = ''target.firmware_trusted''"
| "as_dotted (TargetAdapterDeclared sub) = ''target.'' @ sub"
| "as_dotted ObjectPrivacyClass = ''object.privacy_class''"
| "as_dotted ObjectPolicyTags = ''object.policy_tags''"
| "as_dotted ObjectKind = ''object.kind''"
| "as_dotted ObjectLifecycleState = ''object.lifecycle_state''"
| "as_dotted ObjectCreatedBy = ''object.created_by''"
| "as_dotted TimeRecoveryMode = ''time.recovery_mode''"
| "as_dotted TimeWeekday = ''time.weekday''"
| "as_dotted TimeHourUtc = ''time.hour_utc''"
| "as_dotted SystemHostId = ''system.host_id''"
| "as_dotted SystemClusterId = ''system.cluster_id''"
| "as_dotted SystemReleaseChannel = ''system.release_channel''"

lemmas field_tables =
  subject_fields_def request_fields_def target_fields_def object_fields_def time_fields_def
  system_fields_def

section \<open>Names and fields\<close>

text \<open>
  An adapter-declared field never carries the name of a field of the target vocabulary.
\<close>

fun canonical_field :: "closed_field \<Rightarrow> bool" where
  "canonical_field (TargetAdapterDeclared sub) \<longleftrightarrow> sub \<notin> fst ` set target_fields"
| "canonical_field _ = True"

lemma namespace_from_token_iff: "namespace_from_token s = Some ns \<longleftrightarrow> s = namespace_str ns"
  by (cases ns) (auto simp: namespace_from_token_def)

lemma namespace_fields_sound:
  "(s, f) \<in> set (namespace_fields ns) \<Longrightarrow>
     field_namespace f = ns \<and> as_dotted f = namespace_str ns @ ''.'' @ s \<and> canonical_field f"
  by (cases ns) (auto simp: field_tables)

lemma resolve_field_sound:
  assumes "resolve_field ns s = Some f"
  shows "field_namespace f = ns \<and> as_dotted f = namespace_str ns @ ''.'' @ s \<and> canonical_field f"
proof (cases "map_of (namespace_fields ns) s")
  case (Some g)
  then show ?thesis
    using assms namespace_fields_sound [OF map_of_SomeD [OF Some]] by (simp add: resolve_field_def)
next
  case None
  then have fresh: "s \<notin> fst ` set (namespace_fields ns)" by (simp add: map_of_eq_None_iff)
  from None assms have "ns = NsTarget" and "f = TargetAdapterDeclared s"
    by (auto simp: resolve_field_def split: if_splits)
  with fresh show ?thesis by simp
qed

lemma namespace_fields_distinct: "distinct (map fst (namespace_fields ns))"
  by (cases ns) (simp_all add: field_tables)

lemma namespace_fields_cover:
  "f \<in> snd ` set (namespace_fields (field_namespace f)) \<or> (\<exists>sub. f = TargetAdapterDeclared sub)"
  by (cases f) (simp_all add: field_tables)

lemma resolve_field_complete:
  assumes "canonical_field f" and "as_dotted f = namespace_str (field_namespace f) @ ''.'' @ s"
  shows "resolve_field (field_namespace f) s = Some f"
proof (cases "\<exists>sub. f = TargetAdapterDeclared sub")
  case True
  then have f: "f = TargetAdapterDeclared s" using assms(2) by auto
  then have "s \<notin> fst ` set target_fields" using assms(1) by simp
  then have "map_of target_fields s = None" by (simp add: map_of_eq_None_iff)
  with f show ?thesis by (simp add: resolve_field_def)
next
  case False
  then obtain s' where mem: "(s', f) \<in> set (namespace_fields (field_namespace f))"
    using namespace_fields_cover [of f] by force
  then have "s' = s"
    using namespace_fields_sound [OF mem] assms(2) by simp
  with mem have "map_of (namespace_fields (field_namespace f)) s = Some f"
    by (simp add: map_of_is_SomeI namespace_fields_distinct)
  then show ?thesis by (simp add: resolve_field_def)
qed

section \<open>Properties\<close>

text \<open>
  The field vocabulary and its dotted names agree in both directions: resolving a
  namespace and a path gives a field exactly when the field's namespace and dotted name are
  that namespace and that path, and an adapter-declared field never shadows a named field of
  the target vocabulary.
\<close>

theorem resolve_dotted_roundtrip:
  "resolve_field ns s = Some f \<longleftrightarrow>
     field_namespace f = ns \<and> as_dotted f = namespace_str ns @ ''.'' @ s \<and> canonical_field f"
  using resolve_field_sound resolve_field_complete by blast

end
