(* ===== verification/Policy_Condition_Parser.thy ===== *)
theory Policy_Condition_Parser
  imports Policy_Conditions
begin

text \<open>
  The recursive-descent parser of policy conditions, \<open>conditions_parser.rs\<close>. The parser state
  is the source text and a byte offset into it; every parsing function returns the state it
  leaves behind, also where the Rust method only moves past whitespace before it gives up.
  Scanning loops that move over a run of characters are \<open>takeWhile\<close>; the loops that call
  other parsing functions are recursive functions that terminate because the offset grows.
\<close>

section \<open>State and errors\<close>

datatype condition_parse_error =
    UnexpectedEof nat nat string
  | UnexpectedToken nat nat string string
  | UnknownNamespace nat nat string
  | UnknownField nat nat string
  | UnknownOperator nat nat string
  | DisallowedToken nat nat string
  | UnterminatedString nat nat
  | InvalidInteger nat nat string
  | EmptyValueList nat nat

record parser =
  source :: string
  pos :: nat

definition parser_new :: "string \<Rightarrow> parser" where
  "parser_new s = \<lparr>source = s, pos = 0\<rparr>"

definition rest :: "parser \<Rightarrow> string" where
  "rest p = drop (pos p) (source p)"

definition is_ident_start :: "char \<Rightarrow> bool" where
  "is_ident_start c \<longleftrightarrow> is_ascii_alphabetic c \<or> c = CHR ''_''"

definition is_ident_continue :: "char \<Rightarrow> bool" where
  "is_ident_continue c \<longleftrightarrow> is_ascii_alphanumeric c \<or> c = CHR ''_''"

fun count_position :: "nat \<times> nat \<Rightarrow> string \<Rightarrow> nat \<times> nat" where
  "count_position lc [] = lc"
| "count_position (line, col) (c # cs) =
     count_position
       (if c = CHR 0x0A then (line + 1, 1)
        else if utf8_continuation c then (line, col) else (line, col + 1)) cs"

definition position_for :: "string \<Rightarrow> nat \<Rightarrow> nat \<times> nat" where
  "position_for src offset = count_position (1, 1) (take (min offset (length src)) src)"

definition position :: "parser \<Rightarrow> nat \<times> nat" where
  "position p = position_for (source p) (pos p)"

text \<open>\<open>str::split('\n').next()\<close> is the text before the first newline.\<close>

definition short_snippet :: "string \<Rightarrow> string" where
  "short_snippet r =
     (let line = takeWhile (\<lambda>c. c \<noteq> CHR 0x0A) (trim_end r)
      in if 32 < char_count line then take_chars 32 line @ [CHR 0xE2, CHR 0x80, CHR 0xA6]
         else if line = [] then ''<end of input>''
         else line)"

section \<open>Tokens\<close>

definition skip_whitespace :: "parser \<Rightarrow> parser" where
  "skip_whitespace p = p\<lparr>pos := pos p + (length (rest p) - length (trim_ws_start (rest p)))\<rparr>"

text \<open>\<open>at_eof\<close> skips whitespace and then tests.\<close>

definition at_eof :: "parser \<Rightarrow> bool \<times> parser" where
  "at_eof p = (let p = skip_whitespace p in (length (source p) \<le> pos p, p))"

definition try_consume :: "string \<Rightarrow> parser \<Rightarrow> bool \<times> parser" where
  "try_consume token p =
     (let p = skip_whitespace p in
      if prefix token (rest p) then
        let after_pos = pos p + length token in
        if (case token of [] \<Rightarrow> False | c # _ \<Rightarrow> is_ascii_alphabetic c) \<and>
           (case drop after_pos (source p) of [] \<Rightarrow> False | c # _ \<Rightarrow> is_ident_continue c)
        then (False, p)
        else (True, p\<lparr>pos := after_pos\<rparr>)
      else (False, p))"

text \<open>\<open>try_consume_char\<close> and \<open>try_consume_char_seq\<close>.\<close>

definition try_consume_char_seq :: "string \<Rightarrow> parser \<Rightarrow> bool \<times> parser" where
  "try_consume_char_seq token p =
     (let p = skip_whitespace p in
      if prefix token (rest p) then (True, p\<lparr>pos := pos p + length token\<rparr>) else (False, p))"

definition try_consume_char :: "char \<Rightarrow> parser \<Rightarrow> bool \<times> parser" where
  "try_consume_char c p =
     (let p = skip_whitespace p in
      if prefix [c] (rest p) then (True, p\<lparr>pos := pos p + 1\<rparr>) else (False, p))"

definition unexpected :: "parser \<Rightarrow> string \<Rightarrow> condition_parse_error" where
  "unexpected p wanted =
     (case position p of (line, col) \<Rightarrow> UnexpectedToken line col wanted (short_snippet (rest p)))"

definition expect_eof :: "parser \<Rightarrow> (condition_parse_error, parser) result" where
  "expect_eof p =
     (case at_eof p of (eof, p) \<Rightarrow> if eof then Ok p else Err (unexpected p ''end of input''))"

definition word_here :: "string \<Rightarrow> parser \<Rightarrow> bool" where
  "word_here w p \<longleftrightarrow>
     prefix w (rest p) \<and>
     \<not> (case drop (pos p + length w) (source p) of [] \<Rightarrow> False | c # _ \<Rightarrow> is_ident_continue c)"

definition reject_disallowed_conjunctions ::
    "parser \<Rightarrow> (condition_parse_error, parser) result" where
  "reject_disallowed_conjunctions p =
     (let p = skip_whitespace p; (line, col) = position p in
      if word_here ''or'' p then Err (DisallowedToken line col ''or'')
      else if word_here ''not'' p then Err (DisallowedToken line col ''not'')
      else if prefix ''('' (rest p) \<or> prefix '')'' (rest p)
      then Err (DisallowedToken line col (take 1 (rest p)))
      else Ok p)"

definition parse_identifier :: "parser \<Rightarrow> (condition_parse_error, string \<times> parser) result" where
  "parse_identifier p =
     (let p = skip_whitespace p; start = pos p in
      case rest p of
        [] \<Rightarrow> Err (unexpected p ''identifier'')
      | c # cs \<Rightarrow>
          if is_ident_start c
          then let stop = start + 1 + length (takeWhile is_ident_continue cs)
               in Ok (take (stop - start) (drop start (source p)), p\<lparr>pos := stop\<rparr>)
          else Err (unexpected p ''identifier''))"

section \<open>Literals\<close>

definition digits_after :: "nat \<Rightarrow> parser \<Rightarrow> nat" where
  "digits_after i p = length (takeWhile is_ascii_digit (drop i (source p)))"

definition parse_number_literal ::
    "parser \<Rightarrow> (condition_parse_error, cvalue \<times> parser) result" where
  "parse_number_literal p =
     (let p = skip_whitespace p; start = pos p;
          digits_start = (if prefix ''-'' (rest p) then start + 1 else start);
          stop = digits_start + digits_after digits_start p;
          (line, col) = position_for (source p) start;
          text = (\<lambda>e. take (e - start) (drop start (source p)))
      in if stop = digits_start then Err (InvalidInteger line col (text stop))
         else if prefix ''.'' (drop stop (source p)) \<and>
                 (case drop (stop + 1) (source p) of [] \<Rightarrow> False | c # _ \<Rightarrow> is_ascii_digit c)
         then let stop2 = stop + 1 + digits_after (stop + 1) p
              in Err (InvalidInteger line col (text stop2))
         else (case parse_i64 (text stop) of
                 None \<Rightarrow> Err (InvalidInteger line col (text stop))
               | Some n \<Rightarrow> Ok (VInt n, p\<lparr>pos := stop\<rparr>)))"

text \<open>
  The scan for the closing quote, as the number of bytes before it. An escape skips the
  character after the backslash; the bytes of a longer character are ordinary bytes of the
  literal, so skipping its first byte has the same effect.
\<close>

fun scan_string :: "nat \<Rightarrow> string \<Rightarrow> nat option" where
  "scan_string n [] = None"
| "scan_string n (c # cs) =
     (if c = CHR 0x22 then Some n
      else if c = CHR 0x5C then (case cs of [] \<Rightarrow> None | _ # ds \<Rightarrow> scan_string (n + 2) ds)
      else scan_string (n + 1) cs)"

definition parse_string_literal ::
    "parser \<Rightarrow> (condition_parse_error, string \<times> parser) result" where
  "parse_string_literal p =
     (let p = skip_whitespace p; (line, col) = position p in
      case try_consume_char (CHR 0x22) p of
        (False, p) \<Rightarrow>
          Err (UnexpectedToken line col (''`'' @ [CHR 0x22] @ ''`-quoted string literal'')
                 (short_snippet (rest p)))
      | (True, p) \<Rightarrow>
          (case scan_string 0 (rest p) of
             None \<Rightarrow> Err (UnterminatedString line col)
           | Some n \<Rightarrow> Ok (take n (rest p), p\<lparr>pos := pos p + n + 1\<rparr>)))"

definition parse_value :: "parser \<Rightarrow> (condition_parse_error, cvalue \<times> parser) result" where
  "parse_value p =
     (let p = skip_whitespace p in
      case rest p of
        [] \<Rightarrow> Err (unexpected p
                ''value literal (string, number, bool, identifier, or timestamp)'')
      | c # _ \<Rightarrow>
          if c = CHR 0x22 then
            (case parse_string_literal p of Inl e \<Rightarrow> Err e | Inr (s, p) \<Rightarrow> Ok (VString s, p))
          else if c = CHR ''-'' \<or> is_ascii_digit c then parse_number_literal p
          else if is_ident_start c then
            (case parse_identifier p of
               Inl e \<Rightarrow> Err e
             | Inr (ident, p) \<Rightarrow>
                 Ok (if ident = ''true'' then VBool True
                     else if ident = ''false'' then VBool False
                     else VIdentifier ident, p))
          else Err (unexpected p
                 ''value literal (string, number, bool, identifier, or timestamp)''))"

section \<open>Every token function moves forward\<close>

definition advances :: "parser \<Rightarrow> parser \<Rightarrow> bool" where
  "advances p q \<longleftrightarrow> source q = source p \<and> pos p \<le> pos q"

named_theorems forward \<open>parsing functions only move the offset forward\<close>

lemma advances_refl [simp]: "advances p p"
  by (simp add: advances_def)

lemma advances_trans: "advances p q \<Longrightarrow> advances q r \<Longrightarrow> advances p r"
  by (auto simp: advances_def)

lemma advances_skip [simp]: "advances p (skip_whitespace p)"
  by (simp add: advances_def skip_whitespace_def)

lemma advances_skipI: "advances (skip_whitespace p) q \<Longrightarrow> advances p q"
  by (rule advances_trans [OF advances_skip])

lemma source_skip [simp]: "source (skip_whitespace p) = source p"
  by (simp add: skip_whitespace_def)

lemma pos_skip: "pos p \<le> pos (skip_whitespace p)"
  by (simp add: skip_whitespace_def)

lemma try_consume_forward [forward]: "try_consume t p = (b, q) \<Longrightarrow> advances p q"
  using advances_skip [of p]
  by (auto simp: try_consume_def Let_def advances_def split: if_splits)

lemma try_consume_char_forward [forward]: "try_consume_char c p = (b, q) \<Longrightarrow> advances p q"
  using advances_skip [of p]
  by (auto simp: try_consume_char_def Let_def advances_def split: if_splits)

lemma try_consume_char_seq_forward [forward]:
  "try_consume_char_seq c p = (b, q) \<Longrightarrow> advances p q"
  using advances_skip [of p]
  by (auto simp: try_consume_char_seq_def Let_def advances_def split: if_splits)

lemma at_eof_forward [forward]: "at_eof p = (b, q) \<Longrightarrow> advances p q"
  by (auto simp: at_eof_def Let_def)

lemma parse_identifier_forward [forward]:
  "parse_identifier p = Ok (s, q) \<Longrightarrow> advances p q \<and> pos p < pos q"
  using advances_skip [of p]
  by (auto simp: parse_identifier_def Let_def advances_def split: list.splits if_splits)

lemma parse_string_literal_forward [forward]:
  "parse_string_literal p = Ok (s, q) \<Longrightarrow> advances p q"
  using advances_skip [of p]
  by (auto simp: parse_string_literal_def Let_def advances_def
      split: prod.splits bool.splits option.splits dest!: try_consume_char_forward)

lemma parse_number_literal_forward [forward]:
  "parse_number_literal p = Ok (v, q) \<Longrightarrow> advances p q"
  using advances_skip [of p]
  by (auto simp: parse_number_literal_def Let_def advances_def split: prod.splits option.splits if_splits)

lemma parse_value_forward [forward]: "parse_value p = Ok (v, q) \<Longrightarrow> advances p q"
  by (auto simp: parse_value_def Let_def split: list.splits if_splits sum.splits
      dest!: parse_string_literal_forward parse_identifier_forward parse_number_literal_forward
      intro: advances_skipI)

lemma rest_nonempty_pos: "rest p \<noteq> [] \<Longrightarrow> pos p < length (source p)"
  by (simp add: rest_def)

section \<open>Field paths and value lists\<close>

text \<open>The loop over the segments of a dotted path; it stops in front of anything else.\<close>

function path_loop ::
    "string \<Rightarrow> parser \<Rightarrow> (condition_parse_error, string \<times> parser) result" where
  "path_loop subpath p =
     (let p1 = skip_whitespace p in
      if \<not> prefix ''.'' (rest p1) then Ok (subpath, p)
      else if \<not> (case drop (pos p1 + 1) (source p1) of [] \<Rightarrow> False | c # _ \<Rightarrow> is_ident_start c)
      then Ok (subpath, p)
      else (case parse_identifier (p1\<lparr>pos := pos p1 + 1\<rparr>) of
              Inl e \<Rightarrow> Err e
            | Inr (segment, p2) \<Rightarrow> path_loop (subpath @ ''.'' @ segment) p2))"
  by pat_completeness auto
termination
proof (relation "measure (\<lambda>(s, p). length (source p) - pos p)", goal_cases)
  case 1
  show ?case by simp
next
  case (2 subpath p p1 x segment p2)
  then have "rest (skip_whitespace p) \<noteq> []" by auto
  then have "pos p < length (source p)"
    using rest_nonempty_pos [of "skip_whitespace p"] pos_skip [of p] by simp
  moreover have "advances (p1\<lparr>pos := pos p1 + 1\<rparr>) p2"
    using 2 parse_identifier_forward by blast
  ultimately show ?case using 2 pos_skip [of p] by (auto simp: advances_def)
qed

declare path_loop.simps [simp del]

definition parse_field_path ::
    "nat \<Rightarrow> parser \<Rightarrow> (condition_parse_error, closed_field \<times> parser) result" where
  "parse_field_path position_for_errors p =
     (let (line, col) = position_for (source p) position_for_errors in
      case parse_identifier p of
        Inl e \<Rightarrow> Err e
      | Inr (namespace_ident, p) \<Rightarrow>
          (case namespace_from_token namespace_ident of
             None \<Rightarrow> Err (UnknownNamespace line col namespace_ident)
           | Some ns \<Rightarrow>
               (case try_consume_char (CHR ''.'') (skip_whitespace p) of
                  (False, p) \<Rightarrow> Err (unexpected p ''`.` after namespace'')
                | (True, p) \<Rightarrow>
                    (case parse_identifier p of
                       Inl e \<Rightarrow> Err e
                     | Inr (subpath, p) \<Rightarrow>
                         (case path_loop subpath p of
                            Inl e \<Rightarrow> Err e
                          | Inr (subpath, p) \<Rightarrow>
                              (case resolve_field ns subpath of
                                 None \<Rightarrow> Err (UnknownField line col
                                          (namespace_str ns @ ''.'' @ subpath))
                               | Some f \<Rightarrow> Ok (f, p)))))))"

function value_list_loop ::
    "cvalue list \<Rightarrow> parser \<Rightarrow> (condition_parse_error, cvalue list \<times> parser) result" where
  "value_list_loop vs p =
     (case parse_value p of
        Inl e \<Rightarrow> Err e
      | Inr (v, p1) \<Rightarrow>
          (case try_consume_char (CHR '','') (skip_whitespace p1) of
             (True, p2) \<Rightarrow> value_list_loop (vs @ [v]) p2
           | (False, p2) \<Rightarrow>
               (case try_consume_char (CHR '']'') p2 of
                  (True, p3) \<Rightarrow> Ok (vs @ [v], p3)
                | (False, p3) \<Rightarrow> Err (unexpected p3 ''`,` or `]`''))))"
  by pat_completeness auto
termination
proof (relation "measure (\<lambda>(vs, p). length (source p) - pos p)", goal_cases)
  case 1
  show ?case by simp
next
  case (2 vs p x v p1 y p2)
  then have "parse_value p = Ok (v, p1)" and "try_consume_char (CHR '','') (skip_whitespace p1) = (True, p2)"
    by auto
  then have a: "advances p p1" and "rest (skip_whitespace (skip_whitespace p1)) \<noteq> []"
    and p2: "p2 = (skip_whitespace (skip_whitespace p1))
      \<lparr>pos := pos (skip_whitespace (skip_whitespace p1)) + 1\<rparr>"
    by (auto simp: try_consume_char_def Let_def split: if_splits dest: parse_value_forward)
  then have "pos (skip_whitespace (skip_whitespace p1)) < length (source p1)"
    using rest_nonempty_pos [of "skip_whitespace (skip_whitespace p1)"] by simp
  then show ?case
    using a p2 pos_skip [of p1] pos_skip [of "skip_whitespace p1"] by (auto simp: advances_def)
qed

declare value_list_loop.simps [simp del]

definition parse_value_list ::
    "parser \<Rightarrow> (condition_parse_error, cvalue list \<times> parser) result" where
  "parse_value_list p =
     (case try_consume_char (CHR ''['') (skip_whitespace p) of
        (False, p) \<Rightarrow> Err (unexpected p ''`[` to open value list'')
      | (True, p) \<Rightarrow>
          (case try_consume_char (CHR '']'') (skip_whitespace p) of
             (True, p) \<Rightarrow> (case position p of (line, col) \<Rightarrow> Err (EmptyValueList line col))
           | (False, p) \<Rightarrow> value_list_loop [] p))"

section \<open>Predicates and conditions\<close>

definition try_parse_compare_op :: "parser \<Rightarrow> compare_op option \<times> parser" where
  "try_parse_compare_op p =
     (case try_consume_char_seq ''!='' p of (True, p) \<Rightarrow> (Some Neq, p) | (False, p) \<Rightarrow>
     (case try_consume_char_seq ''<='' p of (True, p) \<Rightarrow> (Some Lte, p) | (False, p) \<Rightarrow>
     (case try_consume_char_seq ''>='' p of (True, p) \<Rightarrow> (Some Gte, p) | (False, p) \<Rightarrow>
     (case try_consume_char (CHR ''='') p of (True, p) \<Rightarrow> (Some Eq, p) | (False, p) \<Rightarrow>
     (case try_consume_char (CHR ''<'') p of (True, p) \<Rightarrow> (Some Lt, p) | (False, p) \<Rightarrow>
     (case try_consume_char (CHR ''>'') p of (True, p) \<Rightarrow> (Some Gt, p) | (False, p) \<Rightarrow>
        (None, p)))))))"

text \<open>\<open>at_alt_boundary\<close> restores the offset, so it is a test.\<close>

definition at_alt_boundary :: "parser \<Rightarrow> bool" where
  "at_alt_boundary p =
     (let q = skip_whitespace p in fst (at_eof q) \<or> prefix ''and'' (rest (snd (at_eof q))))"

definition parse_predicate ::
    "parser \<Rightarrow> (condition_parse_error, predicate \<times> parser) result" where
  "parse_predicate p =
     (case reject_disallowed_conjunctions (skip_whitespace p) of
        Inl e \<Rightarrow> Err e
      | Inr p \<Rightarrow>
          (case parse_field_path (pos p) p of
             Inl e \<Rightarrow> Err e
           | Inr (field, p) \<Rightarrow>
               (case try_parse_compare_op (skip_whitespace p) of
                  (Some op, p) \<Rightarrow>
                    (case parse_value p of
                       Inl e \<Rightarrow> Err e | Inr (rhs, p) \<Rightarrow> Ok (Compare field op rhs, p))
                | (None, p) \<Rightarrow>
               (case try_consume ''in'' p of
                  (True, p) \<Rightarrow>
                    (case parse_value_list p of
                       Inl e \<Rightarrow> Err e | Inr (vs, p) \<Rightarrow> Ok (In field vs, p))
                | (False, p) \<Rightarrow>
               (case try_consume ''contains'' p of
                  (True, p) \<Rightarrow>
                    (case parse_string_literal p of
                       Inl e \<Rightarrow> Err e | Inr (needle, p) \<Rightarrow> Ok (Contains field needle, p))
                | (False, p) \<Rightarrow>
               (case try_consume ''exists'' p of
                  (True, p) \<Rightarrow> Ok (Exists field, p)
                | (False, p) \<Rightarrow>
                    if field = TimeRecoveryMode \<and> at_alt_boundary p
                    then Ok (Compare field Eq (VBool True), p)
                    else (case position p of (line, col) \<Rightarrow>
                            Err (UnknownOperator line col (short_snippet (rest p))))))))))"

lemma reject_forward [forward]:
  "reject_disallowed_conjunctions p = Ok q \<Longrightarrow> advances p q \<and> q = skip_whitespace p"
  by (auto simp: reject_disallowed_conjunctions_def Let_def split: prod.splits if_splits)

lemma path_loop_forward [forward]: "path_loop s p = Ok (r, q) \<Longrightarrow> advances p q"
proof (induction s p rule: path_loop.induct)
  case (1 s p)
  show ?case
  proof (cases "path_loop s p = Ok (s, p)")
    case True
    then show ?thesis using 1(2) by simp
  next
    case False
    then obtain seg p2 where
      next_seg: "parse_identifier ((skip_whitespace p)\<lparr>pos := pos (skip_whitespace p) + 1\<rparr>) = Ok (seg, p2)"
      and more: "path_loop (s @ ''.'' @ seg) p2 = Ok (r, q)"
      and guards: "prefix ''.'' (rest (skip_whitespace p))"
        "case drop (pos (skip_whitespace p) + 1) (source (skip_whitespace p)) of
           [] \<Rightarrow> False | c # _ \<Rightarrow> is_ident_start c"
      using 1(2) by (subst (asm) (1 2) path_loop.simps) (auto simp: Let_def split: if_splits sum.splits)
    have "advances p2 q" using 1(1) [OF refl _ _ next_seg refl more] guards by simp
    moreover have "advances p p2"
      using parse_identifier_forward [OF next_seg] pos_skip [of p] by (auto simp: advances_def)
    ultimately show ?thesis by (rule advances_trans [rotated])
  qed
qed

lemma parse_field_path_forward [forward]:
  "parse_field_path n p = Ok (f, q) \<Longrightarrow> advances p q"
  by (auto simp: parse_field_path_def Let_def split: prod.splits sum.splits option.splits bool.splits
      dest!: parse_identifier_forward try_consume_char_forward path_loop_forward advances_skipI
      intro: advances_trans)

lemma value_list_loop_forward [forward]: "value_list_loop vs p = Ok (r, q) \<Longrightarrow> advances p q"
proof (induction vs p rule: value_list_loop.induct)
  case (1 vs p)
  from 1(2) obtain v p1 where v: "parse_value p = Ok (v, p1)"
    by (subst (asm) value_list_loop.simps) (auto split: sum.splits)
  obtain b p2 where comma: "try_consume_char (CHR '','') (skip_whitespace p1) = (b, p2)" by fastforce
  have p2: "advances p p2"
    using parse_value_forward [OF v] try_consume_char_forward [OF comma]
    by (blast intro: advances_trans advances_skipI)
  show ?case
  proof (cases b)
    case True
    then have "value_list_loop (vs @ [v]) p2 = Ok (r, q)"
      using 1(2) v comma by (subst (asm) value_list_loop.simps) simp
    then have "advances p2 q" using 1(1) [OF v refl] comma True by simp
    with p2 show ?thesis by (rule advances_trans)
  next
    case False
    then have "try_consume_char (CHR '']'') p2 = (True, q)"
      using 1(2) v comma
      by (subst (asm) value_list_loop.simps) (auto split: prod.splits bool.splits)
    then show ?thesis using p2 by (blast intro: advances_trans try_consume_char_forward)
  qed
qed

lemma parse_value_list_forward [forward]: "parse_value_list p = Ok (vs, q) \<Longrightarrow> advances p q"
  by (auto simp: parse_value_list_def split: prod.splits bool.splits
      dest!: value_list_loop_forward try_consume_char_forward advances_skipI intro: advances_trans)

lemma try_parse_compare_op_forward [forward]: "try_parse_compare_op p = (r, q) \<Longrightarrow> advances p q"
  by (auto simp: try_parse_compare_op_def split: prod.splits bool.splits
      dest!: try_consume_char_forward try_consume_char_seq_forward)
    (meson advances_trans)+

lemma parse_predicate_forward [forward]: "parse_predicate p = Ok (x, q) \<Longrightarrow> advances p q"
  by (auto simp: parse_predicate_def Let_def
      split: prod.splits bool.splits sum.splits option.splits if_splits
      dest!: reject_forward parse_field_path_forward try_parse_compare_op_forward
        parse_value_forward parse_value_list_forward parse_string_literal_forward
        try_consume_forward advances_skipI)
    (meson advances_trans advances_skipI)+

function condition_loop ::
    "predicate list \<Rightarrow> parser \<Rightarrow> (condition_parse_error, pcondition \<times> parser) result" where
  "condition_loop preds p =
     (case at_eof p of
        (True, p1) \<Rightarrow> Ok (Condition preds, p1)
      | (False, p1) \<Rightarrow>
          (case reject_disallowed_conjunctions p1 of
             Inl e \<Rightarrow> Err e
           | Inr p2 \<Rightarrow>
               (case try_consume ''and'' p2 of
                  (False, p3) \<Rightarrow> Err (unexpected p3 ''`and` or end of input'')
                | (True, p3) \<Rightarrow>
                    (case parse_predicate p3 of
                       Inl e \<Rightarrow> Err e
                     | Inr (x, p4) \<Rightarrow> condition_loop (preds @ [x]) p4))))"
  by pat_completeness auto
termination
proof (relation "measure (\<lambda>(xs, p). length (source p) - pos p)", goal_cases)
  case 1
  show ?case by simp
next
  case (2 preds p b1 p1 p2 b3 p3 x4 x p4)
  then have eof: "at_eof p = (False, p1)" by simp
  then have "pos p < length (source p)"
    using pos_skip [of p] by (auto simp: at_eof_def Let_def)
  moreover have "advances p p2"
    using 2 at_eof_forward [OF eof] by (auto dest!: reject_forward intro: advances_trans)
  moreover have "source p3 = source p2 \<and> pos p2 < pos p3"
    using 2 pos_skip [of p2] by (auto simp: try_consume_def Let_def split: if_splits)
  moreover have "advances p3 p4" using 2 parse_predicate_forward by auto
  ultimately show ?case by (auto simp: advances_def)
qed

declare condition_loop.simps [simp del]

definition parse_condition ::
    "parser \<Rightarrow> (condition_parse_error, pcondition \<times> parser) result" where
  "parse_condition p =
     (case parse_predicate p of Inl e \<Rightarrow> Err e | Inr (x, p) \<Rightarrow> condition_loop [x] p)"

definition parse :: "string \<Rightarrow> (condition_parse_error, pcondition) result" where
  "parse src =
     (case parse_condition (parser_new src) of
        Inl e \<Rightarrow> Err e
      | Inr (c, p) \<Rightarrow> (case expect_eof p of Inl e \<Rightarrow> Err e | Inr _ \<Rightarrow> Ok c))"

end
