(* ===== verification/Policy_Bundle_Loader.thy ===== *)
theory Policy_Bundle_Loader
  imports Policy_Condition_Parser
begin

text \<open>
  The loader of signed policy bundles, \<open>bundle_loader.rs\<close> with the signed body of \<open>bundle.rs\<close>.
  Reading and writing JSON (\<open>serde_json\<close>), Ed25519 verification and reading a file are
  arguments, collected in a record.
\<close>

section \<open>Error texts\<close>

definition at_position :: "nat \<Rightarrow> nat \<Rightarrow> string" where
  "at_position line col = '' at line '' @ show_nat line @ '', column '' @ show_nat col"

abbreviation sec :: string where
  "sec \<equiv> [CHR 0xC2, CHR 0xA7]"

fun show_parse_error :: "condition_parse_error \<Rightarrow> string" where
  "show_parse_error (UnexpectedEof l c e) =
     ''unexpected end of input'' @ at_position l c @ '': expected '' @ e"
| "show_parse_error (UnexpectedToken l c e f) =
     ''unexpected token'' @ at_position l c @ '': expected '' @ e @ '', found '' @ f"
| "show_parse_error (UnknownNamespace l c n) =
     ''unknown namespace'' @ at_position l c @ '': '' @ n @
     '' (closed set: subject, request, target, object, time, system)''"
| "show_parse_error (UnknownField l c f) =
     ''unknown field'' @ at_position l c @ '': '' @ f @ '' is not in the '' @ sec @ ''9.2 / '' @ sec @
     ''26 / '' @ sec @ ''27 / '' @ sec @ ''28 / '' @ sec @ ''29 closed vocabulary''"
| "show_parse_error (UnknownOperator l c op) =
     ''unknown operator'' @ at_position l c @ '': '' @ op @
     '' (allowed: =, !=, <, <=, >, >=, in, contains, exists)''"
| "show_parse_error (DisallowedToken l c t) =
     ''disallowed grammar token'' @ at_position l c @ '': '' @ t @ '' '' @
     [CHR 0xE2, CHR 0x80, CHR 0x94] @ '' '' @ sec @ ''9.1 forbids `or`, `not`, and parentheses''"
| "show_parse_error (UnterminatedString l c) =
     ''unterminated string literal'' @ at_position l c"
| "show_parse_error (InvalidInteger l c t) =
     ''invalid integer literal'' @ at_position l c @ '': '' @ t"
| "show_parse_error (EmptyValueList l c) =
     ''empty value list'' @ at_position l c @ '': `in` requires at least one value''"

section \<open>The loader\<close>

record signed_bundle_body =
  sb_bundle_version :: string
  sb_bundle_id :: string
  sb_created_at :: instant
  sb_signing_authority :: string
  sb_rules :: "policy_rule list"

definition signed_body :: "policy_bundle \<Rightarrow> signed_bundle_body" where
  "signed_body b =
     \<lparr>sb_bundle_version = bundle_version b, sb_bundle_id = bundle_id b,
      sb_created_at = created_at b, sb_signing_authority = signing_authority b,
      sb_rules = rules b\<rparr>"

record 'key loader_lib =
  from_slice :: "u8 list \<Rightarrow> (string, policy_bundle) result"
  to_vec :: "signed_bundle_body \<Rightarrow> (string, u8 list) result"
  verify :: "'key \<Rightarrow> u8 list \<Rightarrow> u8 list \<Rightarrow> bool"
  read_file :: "string \<Rightarrow> (string, u8 list) result"

definition canonical_signed_body_bytes ::
    "'key loader_lib \<Rightarrow> policy_bundle \<Rightarrow> (policy_error, u8 list) result" where
  "canonical_signed_body_bytes lib b =
     (case to_vec lib (signed_body b) of
        Inl e \<Rightarrow> Err (InvalidPolicyBundle (''signed-body serialise: '' @ e))
      | Inr bytes \<Rightarrow> Ok bytes)"

record 'key bundle_loader =
  trusted_authorities :: "(string \<times> 'key) list"
  expected_bundle_version :: "string option"

definition loader_new :: "(string \<times> 'key) list \<Rightarrow> 'key bundle_loader" where
  "loader_new ta = \<lparr>trusted_authorities = ta, expected_bundle_version = None\<rparr>"

definition with_version_pin :: "(string \<times> 'key) list \<Rightarrow> string \<Rightarrow> 'key bundle_loader" where
  "with_version_pin ta v = \<lparr>trusted_authorities = ta, expected_bundle_version = Some v\<rparr>"

definition pin_version :: "string \<Rightarrow> 'key bundle_loader \<Rightarrow> 'key bundle_loader" where
  "pin_version v l = l\<lparr>expected_bundle_version := Some v\<rparr>"

definition clear_version_pin :: "'key bundle_loader \<Rightarrow> 'key bundle_loader" where
  "clear_version_pin l = l\<lparr>expected_bundle_version := None\<rparr>"

definition trusts_authority :: "string \<Rightarrow> 'key bundle_loader \<Rightarrow> bool" where
  "trusts_authority name l \<longleftrightarrow> map_of (trusted_authorities l) name \<noteq> None"

text \<open>The two loops over the rules and over a rule's conditions.\<close>

fun check_conditions :: "string \<Rightarrow> string list \<Rightarrow> (policy_error, unit) result" where
  "check_conditions rid [] = Ok ()"
| "check_conditions rid (c # cs) =
     (case parse c of
        Inl e \<Rightarrow> Err (InvalidPolicyBundle (''rule '' @ rid @ '' condition: '' @ show_parse_error e))
      | Inr _ \<Rightarrow> check_conditions rid cs)"

fun check_rules :: "policy_rule list \<Rightarrow> (policy_error, unit) result" where
  "check_rules [] = Ok ()"
| "check_rules (r # rs) =
     (if effect r = EffectUnspecified
      then Err (InvalidPolicyBundle (''rule '' @ rule_id r @
             '' effect: UNSPECIFIED is reserved for proto3 wire compatibility''))
      else try_then (check_conditions (rule_id r) (rule_conditions r)) (\<lambda>_. check_rules rs))"

definition accept_bundle ::
    "'key loader_lib \<Rightarrow> 'key bundle_loader \<Rightarrow> policy_bundle \<Rightarrow> (policy_error, policy_bundle) result" where
  "accept_bundle lib l b =
     (if (case expected_bundle_version l of None \<Rightarrow> False | Some v \<Rightarrow> bundle_version b \<noteq> v)
      then Err (BundleVersionMismatch (the (expected_bundle_version l)) (bundle_version b))
      else (case map_of (trusted_authorities l) (signing_authority b) of
              None \<Rightarrow> Err (BundleUnknownAuthority (signing_authority b))
            | Some key \<Rightarrow>
                if length (signature_ed25519 b) \<noteq> 64 then Err BundleSignatureInvalid
                else try_then (canonical_signed_body_bytes lib b) (\<lambda>body.
                     if \<not> verify lib key body (signature_ed25519 b) then Err BundleSignatureInvalid
                     else try_then (check_rules (rules b)) (\<lambda>_. Ok b))))"

definition load_from_bytes ::
    "'key loader_lib \<Rightarrow> 'key bundle_loader \<Rightarrow> u8 list \<Rightarrow> (policy_error, policy_bundle) result" where
  "load_from_bytes lib l bytes =
     (case from_slice lib bytes of
        Inl e \<Rightarrow> Err (InvalidPolicyBundle (''JSON deserialise: '' @ e))
      | Inr b \<Rightarrow>
          if (case expected_bundle_version l of None \<Rightarrow> False | Some v \<Rightarrow> bundle_version b \<noteq> v)
          then Err (BundleVersionMismatch (the (expected_bundle_version l)) (bundle_version b))
          else (case map_of (trusted_authorities l) (signing_authority b) of
                  None \<Rightarrow> Err (BundleUnknownAuthority (signing_authority b))
                | Some key \<Rightarrow>
                    if length (signature_ed25519 b) \<noteq> 64 then Err BundleSignatureInvalid
                    else try_then (canonical_signed_body_bytes lib b) (\<lambda>body.
                         if \<not> verify lib key body (signature_ed25519 b)
                         then Err BundleSignatureInvalid
                         else try_then (check_rules (rules b)) (\<lambda>_. Ok b))))"

definition load_from_file ::
    "'key loader_lib \<Rightarrow> 'key bundle_loader \<Rightarrow> string \<Rightarrow> (policy_error, policy_bundle) result" where
  "load_from_file lib l path =
     (case read_file lib path of
        Inl e \<Rightarrow> Err (InvalidPolicyBundle (''file read '' @ path @ '': '' @ e))
      | Inr bytes \<Rightarrow> load_from_bytes lib l bytes)"

section \<open>Properties\<close>

lemma check_conditions_Ok:
  "check_conditions rid cs = Ok () \<longleftrightarrow> list_all (\<lambda>c. \<exists>p. parse c = Ok p) cs"
  by (induction cs) (auto split: sum.splits)

lemma check_rules_Ok:
  "check_rules rs = Ok () \<longleftrightarrow>
     list_all (\<lambda>r. effect r \<noteq> EffectUnspecified \<and>
       list_all (\<lambda>c. \<exists>p. parse c = Ok p) (rule_conditions r)) rs"
  by (induction rs) (auto simp: result_simps check_conditions_Ok)

lemma accept_bundle_Ok:
  "accept_bundle lib l b = Ok b' \<longleftrightarrow>
     b' = b \<and> expected_bundle_version l \<in> {None, Some (bundle_version b)} \<and>
     (\<exists>key body. map_of (trusted_authorities l) (signing_authority b) = Some key \<and>
        length (signature_ed25519 b) = 64 \<and> to_vec lib (signed_body b) = Ok body \<and>
        verify lib key body (signature_ed25519 b)) \<and>
     check_rules (rules b) = Ok ()"
  by (auto simp: accept_bundle_def canonical_signed_body_bytes_def result_simps
      split: option.splits sum.splits if_splits)

text \<open>
  C35: what the loader accepts. Loading bytes succeeds exactly when they decode to a bundle of
  the pinned version, if one is pinned, signed over its own body by a trusted authority's key
  with a 64-byte signature, in which every rule has a definite effect and every condition
  parses; the bundle returned is the decoded one.
\<close>

theorem load_accepts_exactly:
  "load_from_bytes lib l bytes = Ok b \<longleftrightarrow>
     from_slice lib bytes = Ok b \<and>
     expected_bundle_version l \<in> {None, Some (bundle_version b)} \<and>
     (\<exists>key body. map_of (trusted_authorities l) (signing_authority b) = Some key \<and>
        length (signature_ed25519 b) = 64 \<and> to_vec lib (signed_body b) = Ok body \<and>
        verify lib key body (signature_ed25519 b)) \<and>
     list_all (\<lambda>r. effect r \<noteq> EffectUnspecified \<and>
       list_all (\<lambda>c. \<exists>p. parse c = Ok p) (rule_conditions r)) (rules b)"
proof -
  have "load_from_bytes lib l bytes =
      (case from_slice lib bytes of
         Inl e \<Rightarrow> Err (InvalidPolicyBundle (''JSON deserialise: '' @ e))
       | Inr b \<Rightarrow> accept_bundle lib l b)"
    by (cases "from_slice lib bytes") (simp_all add: load_from_bytes_def accept_bundle_def)
  then show ?thesis
    by (cases "from_slice lib bytes") (auto simp: accept_bundle_Ok check_rules_Ok)
qed

end
