(* ===== verification/Policy_Decision_Log.thy ===== *)
theory Policy_Decision_Log
  imports Policy_Types
begin

text \<open>
  The explain log, \<open>explain.rs\<close>: the last decisions by identifier, with first-in-first-out
  eviction. The shared wrapper forwards under its lock.
\<close>

section \<open>Decision paths\<close>

record decision_path =
  dp_decision :: policy_decision
  rule_chain :: "string list"
  narrative :: string

text \<open>\<open>{:?}\<close> of a decision.\<close>

fun decision_debug :: "decision \<Rightarrow> string" where
  "decision_debug Unspecified = ''Unspecified''"
| "decision_debug Allow = ''Allow''"
| "decision_debug RequireApproval = ''RequireApproval''"
| "decision_debug Deny = ''Deny''"

definition from_decision :: "policy_decision \<Rightarrow> decision_path" where
  "from_decision d =
     \<lparr>dp_decision = d, rule_chain = [],
      narrative = ''decision='' @ decision_debug (decision d) @ '' reason='' @ reason_code d @
        '' rules_consulted='' @ show_nat (unat (rules_consulted d))\<rparr>"

definition with_rule_chain :: "string list \<Rightarrow> decision_path \<Rightarrow> decision_path" where
  "with_rule_chain chain p = p\<lparr>rule_chain := chain\<rparr>"

definition with_narrative :: "string \<Rightarrow> decision_path \<Rightarrow> decision_path" where
  "with_narrative n p = p\<lparr>narrative := n\<rparr>"

section \<open>The log\<close>

definition DEFAULT_LOG_CAPACITY :: nat where
  "DEFAULT_LOG_CAPACITY = 1024"

record decision_log =
  log_capacity :: nat
  log_map :: "(string \<times> decision_path) list"
  log_queue :: "string list"

definition log_with_capacity :: "nat \<Rightarrow> decision_log" where
  "log_with_capacity capacity =
     \<lparr>log_capacity = (if capacity = 0 then DEFAULT_LOG_CAPACITY else capacity), log_map = [],
      log_queue = []\<rparr>"

definition log_record :: "decision_path \<Rightarrow> decision_log \<Rightarrow> decision_log" where
  "log_record p l =
     (let i = policy_decision_id (dp_decision p) in
      if map_of (log_map l) i \<noteq> None then l\<lparr>log_map := AList.update i p (log_map l)\<rparr>
      else
        let l = (if log_capacity l \<le> length (log_map l)
                 then (case log_queue l of
                         [] \<Rightarrow> l
                       | oldest # q \<Rightarrow>
                           l\<lparr>log_queue := q, log_map := AList.delete oldest (log_map l)\<rparr>)
                 else l)
        in l\<lparr>log_queue := log_queue l @ [i], log_map := AList.update i p (log_map l)\<rparr>)"

definition log_get :: "string \<Rightarrow> decision_log \<Rightarrow> decision_path option" where
  "log_get i l = map_of (log_map l) i"

definition log_len :: "decision_log \<Rightarrow> nat" where
  "log_len l = length (log_map l)"

definition log_is_empty :: "decision_log \<Rightarrow> bool" where
  "log_is_empty l \<longleftrightarrow> log_map l = []"

section \<open>Invariant\<close>

definition log_inv :: "decision_log \<Rightarrow> bool" where
  "log_inv l \<longleftrightarrow>
     0 < log_capacity l \<and> distinct (map fst (log_map l)) \<and> distinct (log_queue l) \<and>
     set (log_queue l) = fst ` set (log_map l) \<and> length (log_map l) \<le> log_capacity l"

lemma log_inv_new: "log_inv (log_with_capacity n)"
  by (simp add: log_inv_def log_with_capacity_def DEFAULT_LOG_CAPACITY_def)

lemma log_inv_length: "log_inv l \<Longrightarrow> length (log_queue l) = length (log_map l)"
  unfolding log_inv_def by (metis distinct_card length_map set_map)

text \<open>
  The log stands for a window: the retained paths in the order in which their identifiers
  entered, with the map as their index.
\<close>

definition path_id :: "decision_path \<Rightarrow> string" where
  "path_id p = policy_decision_id (dp_decision p)"

definition indexed :: "decision_path list \<Rightarrow> (string \<times> decision_path) list" where
  "indexed ps = map (\<lambda>p. (path_id p, p)) ps"

definition represents :: "decision_log \<Rightarrow> decision_path list \<Rightarrow> bool" where
  "represents l ps \<longleftrightarrow>
     log_inv l \<and> log_queue l = map path_id ps \<and> map_of (log_map l) = map_of (indexed ps)"

definition push_window :: "nat \<Rightarrow> decision_path \<Rightarrow> decision_path list \<Rightarrow> decision_path list" where
  "push_window n p ps = (if n \<le> length ps then tl ps else ps) @ [p]"

lemma indexed_lookup: "map_of (indexed ps) i = None \<longleftrightarrow> i \<notin> path_id ` set ps"
  by (auto simp: indexed_def map_of_eq_None_iff image_iff)

lemma keys_update: "fst ` set (AList.update k v al) = insert k (fst ` set al)"
  by (simp add: dom_map_of_conv_image_fst [symmetric] AList.update_conv')

lemma keys_delete: "fst ` set (AList.delete k al) = fst ` set al - {k}"
  by (simp add: dom_map_of_conv_image_fst [symmetric] AList.delete_conv')

lemma insert_represents:
  assumes "represents l ps" and "path_id p \<notin> path_id ` set ps" and "length ps < log_capacity l"
  shows "represents (l\<lparr>log_queue := log_queue l @ [path_id p],
      log_map := AList.update (path_id p) p (log_map l)\<rparr>) (ps @ [p])"
proof -
  have inv: "log_inv l" and q: "log_queue l = map path_id ps"
    and m: "map_of (log_map l) = map_of (indexed ps)"
    using assms(1) by (auto simp: represents_def)
  have len: "length (log_map l) < log_capacity l"
    using log_inv_length [OF inv] q assms(3) by simp
  have none: "map_of (indexed ps) (path_id p) = None" using assms(2) indexed_lookup by blast
  have "map_of (AList.update (path_id p) p (log_map l)) = map_of (indexed (ps @ [p]))"
    using m none
    by (auto simp: AList.update_conv' indexed_def map_add_def fun_eq_iff split: option.splits)
  moreover have "log_inv (l\<lparr>log_queue := log_queue l @ [path_id p],
      log_map := AList.update (path_id p) p (log_map l)\<rparr>)"
    using inv len q assms(2)
    by (auto simp: log_inv_def keys_update AList.distinct_update length_AList_update)
  ultimately show ?thesis using q by (simp add: represents_def)
qed

lemma evict_represents:
  assumes "represents l (p # ps)"
  shows "represents (l\<lparr>log_queue := tl (log_queue l),
      log_map := AList.delete (path_id p) (log_map l)\<rparr>) ps"
proof -
  have inv: "log_inv l" and q: "log_queue l = map path_id (p # ps)"
    and m: "map_of (log_map l) = map_of (indexed (p # ps))"
    using assms by (auto simp: represents_def)
  have new: "path_id p \<notin> path_id ` set ps" using inv q by (auto simp: log_inv_def)
  then have "map_of (indexed ps) (path_id p) = None" using indexed_lookup by blast
  then have "map_of (AList.delete (path_id p) (log_map l)) = map_of (indexed ps)"
    using m by (auto simp: AList.delete_conv' indexed_def fun_eq_iff)
  moreover have "log_inv (l\<lparr>log_queue := tl (log_queue l),
      log_map := AList.delete (path_id p) (log_map l)\<rparr>)"
    using inv q new
    by (auto simp: log_inv_def keys_delete AList.distinct_delete length_AList_delete)
      (metis image_eqI)
  ultimately show ?thesis using q by (simp add: represents_def)
qed

lemma record_represents:
  assumes "represents l ps" and "path_id p \<notin> path_id ` set ps"
  shows "represents (log_record p l) (push_window (log_capacity l) p ps)"
proof -
  have inv: "log_inv l" and q: "log_queue l = map path_id ps"
    and m: "map_of (log_map l) = map_of (indexed ps)"
    using assms(1) by (auto simp: represents_def)
  have fresh: "map_of (log_map l) (path_id p) = None" using assms(2) m indexed_lookup by simp
  have len: "length (log_map l) = length ps" using log_inv_length [OF inv] q by simp
  show ?thesis
  proof (cases "log_capacity l \<le> length ps")
    case False
    then show ?thesis
      using insert_represents [OF assms] fresh len
      by (simp add: log_record_def push_window_def path_id_def Let_def)
  next
    case True
    then obtain x xs where ps: "ps = x # xs" using inv by (cases ps) (auto simp: log_inv_def)
    let ?l = "l\<lparr>log_queue := tl (log_queue l), log_map := AList.delete (path_id x) (log_map l)\<rparr>"
    have "represents ?l xs" using evict_represents assms(1) ps by simp
    moreover have "length xs < log_capacity ?l"
      using inv len ps by (auto simp: log_inv_def)
    ultimately have "represents (?l\<lparr>log_queue := log_queue ?l @ [path_id p],
        log_map := AList.update (path_id p) p (log_map ?l)\<rparr>) (xs @ [p])"
      using assms(2) ps by (intro insert_represents) auto
    then show ?thesis
      using True fresh len ps q by (simp add: log_record_def push_window_def path_id_def Let_def)
  qed
qed

lemma log_get_record:
  "log_inv l \<Longrightarrow> log_get (policy_decision_id (dp_decision p)) (log_record p l) = Some p"
  by (simp add: log_get_def log_record_def Let_def AList.update_conv' split: list.splits)

lemma record_capacity [simp]: "log_capacity (log_record p l) = log_capacity l"
  by (simp add: log_record_def Let_def split: list.splits)

lemma push_window_drop:
  "0 < n \<Longrightarrow> push_window n p (drop (length ps - n) ps) = drop (length (ps @ [p]) - n) (ps @ [p])"
  by (auto simp: push_window_def drop_Suc tl_drop Suc_diff_le not_le)

section \<open>Properties\<close>

lemma run_represents:
  assumes "distinct (map path_id ps)" and "0 < n"
  shows "represents (fold log_record ps (log_with_capacity n)) (drop (length ps - n) ps) \<and>
    log_capacity (fold log_record ps (log_with_capacity n)) = n"
  using assms(1)
proof (induction ps rule: rev_induct)
  case Nil
  then show ?case
    using assms(2) log_inv_new [of n] by (simp add: represents_def log_with_capacity_def indexed_def)
next
  case (snoc p ps)
  let ?l = "fold log_record ps (log_with_capacity n)"
  have "path_id p \<notin> path_id ` set (drop (length ps - n) ps)"
    using snoc.prems by (auto dest: in_set_dropD)
  then have "represents (log_record p ?l) (push_window n p (drop (length ps - n) ps))"
    using record_represents snoc by fastforce
  then show ?case using snoc push_window_drop [OF assms(2), of p ps] by simp
qed

definition sample_logged :: "string \<Rightarrow> policy_decision" where
  "sample_logged i =
     \<lparr>policy_decision_id = i, action_id = ''act_0'', pd_request_hash = ''h'',
      pd_bundle_version = ''b1'', enrichment_snapshot_id = ''polb_snap_0'', decision = Deny,
      reason_code = ''DefaultDeny'', reason_message = [], pd_constraints = constraints_default,
      approval = approval_requirement_default, evidence_receipt_id = [], evaluated_at = 0,
      rules_consulted = 0, simulated = False\<rparr>"

text \<open>
  The explain log is the window of the latest decisions. After recording decisions with
  pairwise different identifiers into a log of positive capacity, a lookup finds exactly the
  last that many of them, and the log never holds more.
\<close>

theorem log_is_recent_window:
  assumes "distinct (map path_id ps)" and "0 < n"
  shows "log_get i (fold log_record ps (log_with_capacity n)) =
      map_of (indexed (drop (length ps - n) ps)) i \<and>
    log_len (fold log_record ps (log_with_capacity n)) = min n (length ps)"
proof -
  let ?l = "fold log_record ps (log_with_capacity n)"
  have r: "represents ?l (drop (length ps - n) ps)" using run_represents [OF assms] by simp
  then have "length (log_map ?l) = length (drop (length ps - n) ps)"
    using log_inv_length [of ?l] by (simp add: represents_def)
  then show ?thesis using r by (auto simp: log_get_def log_len_def represents_def)
qed

theorem log_is_recent_window_witness:
  "log_get ''poldec_1'' (fold log_record
       [from_decision (sample_logged ''poldec_1''), from_decision (sample_logged ''poldec_2'')]
       (log_with_capacity 1)) =
     map_of (indexed (drop (length
       [from_decision (sample_logged ''poldec_1''), from_decision (sample_logged ''poldec_2'')] - 1)
       [from_decision (sample_logged ''poldec_1''), from_decision (sample_logged ''poldec_2'')]))
       ''poldec_1'' \<and>
   log_len (fold log_record
       [from_decision (sample_logged ''poldec_1''), from_decision (sample_logged ''poldec_2'')]
       (log_with_capacity 1)) =
     min 1 (length
       [from_decision (sample_logged ''poldec_1''), from_decision (sample_logged ''poldec_2'')])"
  by (rule log_is_recent_window)
    (simp_all add: path_id_def from_decision_def sample_logged_def)

end
