(* ===== verification/Policy_Service.thy ===== *)
theory Policy_Service
  imports Policy_Kernel Policy_Bundle_Loader Policy_Decision_Log
begin

text \<open>
  The gRPC service over the kernel, \<open>service/server.rs\<close> with the status mapping and envelope
  decoding of \<open>service/conversions.rs\<close>. Requests and answers are the Rust values on either side of
  the protobuf conversion: the generated message types are not part of the sources, so a bundle
  arrives as the outcome of its conversion and a decision leaves before it. A status carries its
  code and, for a policy error, the error itself instead of the rendered text. The service is the
  one built by \<open>new_in_memory\<close> or \<open>new\<close> around an in-memory kernel; a service-side cache handle
  is the handle of the kernel's cache, as the documentation of \<open>with_cache\<close> requires.
\<close>

section \<open>Status values\<close>

datatype status_code =
    InvalidArgument | FailedPrecondition | Unimplemented | NotFound | Unauthenticated

datatype status = Status status_code string | ErrorStatus status_code policy_error

fun policy_error_code :: "policy_error \<Rightarrow> status_code" where
  "policy_error_code SubjectUnauthenticated = Unauthenticated"
| "policy_error_code EnrichmentUnavailable = FailedPrecondition"
| "policy_error_code (BundleLoad _) = FailedPrecondition"
| "policy_error_code (SchemaInvalid _) = InvalidArgument"
| "policy_error_code (ConstraintsInvalid _) = InvalidArgument"
| "policy_error_code (ConditionParse _) = InvalidArgument"
| "policy_error_code (ConditionEval _) = InvalidArgument"
| "policy_error_code (InvalidPolicyBundle _) = InvalidArgument"
| "policy_error_code BundleSignatureInvalid = FailedPrecondition"
| "policy_error_code (BundleVersionMismatch _ _) = FailedPrecondition"
| "policy_error_code (BundleUnknownAuthority _) = FailedPrecondition"

definition policy_error_to_status :: "policy_error \<Rightarrow> status" where
  "policy_error_to_status e = ErrorStatus (policy_error_code e) e"

definition envelope_from_bytes ::
    "(u8 list \<Rightarrow> (string, action_envelope) result) \<Rightarrow> u8 list \<Rightarrow> (status, action_envelope) result" where
  "envelope_from_bytes decode bytes =
     (if bytes = []
      then Err (Status InvalidArgument
             ''envelope_proto is empty (expected serialized aios.action.v1alpha1.ActionEnvelope)'')
      else (case decode bytes of
              Inl e \<Rightarrow> Err (Status InvalidArgument
                (''envelope_proto deserialize failed (JSON placeholder per task #26): '' @ e))
            | Inr env \<Rightarrow> Ok env))"

section \<open>The service\<close>

definition POLICY_SCHEMA_VERSION :: string where
  "POLICY_SCHEMA_VERSION = ''aios.policy.v1alpha1''"

definition DEFAULT_ENGINE_ID :: string where
  "DEFAULT_ENGINE_ID = ''aios-policy-inproc''"

definition DEFAULT_CODE_VERSION :: string where
  "DEFAULT_CODE_VERSION = ''aios-policy/0.1.0-T025''"

definition DEFAULT_BUNDLE_VERSION :: string where
  "DEFAULT_BUNDLE_VERSION = ''polb_default''"

record ('c, 'key) policy_service =
  svc_kernel :: "'c policy_kernel"
  in_memory_handle :: bool
  engine_id :: string
  svc_code_version :: string
  active_bundle_version :: string
  default_subject :: hydrated_subject
  svc_started_at :: instant
  svc_loader :: "'key bundle_loader option"
  cache_handle :: bool
  svc_log :: "decision_log option"

definition default_placeholder_subject :: hydrated_subject where
  "default_placeholder_subject =
     \<lparr>canonical_subject_id = ''agent:dev'', subject_type = Agent, groups = [], capabilities = [],
      session_class = ''INTERNAL'', recovery_mode = False, is_ai = True\<rparr>"

definition service_new :: "'c policy_kernel \<Rightarrow> instant \<Rightarrow> ('c, 'key) policy_service" where
  "service_new k now =
     \<lparr>svc_kernel = k, in_memory_handle = False, engine_id = DEFAULT_ENGINE_ID,
      svc_code_version = DEFAULT_CODE_VERSION, active_bundle_version = DEFAULT_BUNDLE_VERSION,
      default_subject = default_placeholder_subject, svc_started_at = now, svc_loader = None,
      cache_handle = False, svc_log = None\<rparr>"

definition new_in_memory :: "'c policy_kernel \<Rightarrow> instant \<Rightarrow> ('c, 'key) policy_service" where
  "new_in_memory k now =
     \<lparr>svc_kernel = k, in_memory_handle = True, engine_id = DEFAULT_ENGINE_ID,
      svc_code_version = DEFAULT_CODE_VERSION, active_bundle_version = DEFAULT_BUNDLE_VERSION,
      default_subject = default_placeholder_subject, svc_started_at = now, svc_loader = None,
      cache_handle = False, svc_log = None\<rparr>"

definition with_bundle_version ::
    "string \<Rightarrow> ('c, 'key) policy_service \<Rightarrow> ('c, 'key) policy_service" where
  "with_bundle_version v s = s\<lparr>active_bundle_version := v\<rparr>"

definition with_bundle_loader ::
    "'key bundle_loader \<Rightarrow> ('c, 'key) policy_service \<Rightarrow> ('c, 'key) policy_service" where
  "with_bundle_loader l s = s\<lparr>svc_loader := Some l\<rparr>"

definition with_cache :: "('c, 'key) policy_service \<Rightarrow> ('c, 'key) policy_service" where
  "with_cache s = s\<lparr>cache_handle := True\<rparr>"

definition with_decision_log ::
    "decision_log \<Rightarrow> ('c, 'key) policy_service \<Rightarrow> ('c, 'key) policy_service" where
  "with_decision_log l s = s\<lparr>svc_log := Some l\<rparr>"

definition swap_active_bundle_version ::
    "string \<Rightarrow> ('c, 'key) policy_service \<Rightarrow> string \<times> ('c, 'key) policy_service" where
  "swap_active_bundle_version v s = (active_bundle_version s, s\<lparr>active_bundle_version := v\<rparr>)"

definition check_schema_version :: "string \<Rightarrow> (status, unit) result" where
  "check_schema_version supplied =
     (if supplied = [] \<or> supplied = POLICY_SCHEMA_VERSION then Ok ()
      else Err (Status FailedPrecondition
             (''schema_version mismatch: server speaks `'' @ POLICY_SCHEMA_VERSION @
              ''`, request sent `'' @ supplied @ ''`'')))"

definition build_context ::
    "snapshot_digest \<Rightarrow> ('c, 'key) policy_service \<Rightarrow> action_envelope \<Rightarrow> policy_context" where
  "build_context digest s env =
     context_new
       ((default_subject s)\<lparr>canonical_subject_id := subject_canonical_id (env_identity env)\<rparr>)
       (case with_fields digest object_enrichment_default adapter_enrichment_default of
          Inl _ \<Rightarrow> \<lparr>snapshot_id = [], object = object_enrichment_default,
                     adapter = adapter_enrichment_default\<rparr>
        | Inr snap \<Rightarrow> snap)
       (active_bundle_version s) (svc_code_version s)"

section \<open>Requests\<close>

text \<open>What the evaluation of a request needs from outside: the decoder and the digest.\<close>

record wire_lib =
  decode_envelope :: "u8 list \<Rightarrow> (string, action_envelope) result"
  snap_digest :: snapshot_digest

definition evaluate_internal ::
    "'c cache_ops \<Rightarrow> wire_lib \<Rightarrow> kernel_env \<Rightarrow> u8 list \<Rightarrow> string \<Rightarrow> bool \<Rightarrow>
     ('c, 'key) policy_service \<Rightarrow>
     (status, policy_decision) result \<times> ('c, 'key) policy_service" where
  "evaluate_internal L w kev bytes schema simulate s =
     (case check_schema_version schema of
        Inl st \<Rightarrow> (Err st, s)
      | Inr _ \<Rightarrow>
          (case envelope_from_bytes (decode_envelope w) bytes of
             Inl st \<Rightarrow> (Err st, s)
           | Inr env \<Rightarrow>
               (case evaluate_policy L kev env (build_context (snap_digest w) s env) (svc_kernel s) of
                  (Inl e, k) \<Rightarrow> (Err (policy_error_to_status e), s\<lparr>svc_kernel := k\<rparr>)
                | (Inr d, k) \<Rightarrow>
                    let d = (if simulate then d\<lparr>simulated := True\<rparr> else d) in
                    (Ok d, s\<lparr>svc_kernel := k,
                             svc_log := map_option (log_record (from_decision d)) (svc_log s)\<rparr>))))"

definition rpc_evaluate_policy ::
    "'c cache_ops \<Rightarrow> wire_lib \<Rightarrow> kernel_env \<Rightarrow> u8 list \<Rightarrow> string \<Rightarrow> ('c, 'key) policy_service \<Rightarrow>
     (status, policy_decision) result \<times> ('c, 'key) policy_service" where
  "rpc_evaluate_policy L w kev bytes schema s = evaluate_internal L w kev bytes schema False s"

definition simulate_policy ::
    "'c cache_ops \<Rightarrow> wire_lib \<Rightarrow> kernel_env \<Rightarrow> u8 list \<Rightarrow> string \<Rightarrow> ('c, 'key) policy_service \<Rightarrow>
     (status, policy_decision) result \<times> ('c, 'key) policy_service" where
  "simulate_policy L w kev bytes schema s = evaluate_internal L w kev bytes schema True s"

text \<open>Invalidation through the service's handle on the cache.\<close>

definition invalidate_shared ::
    "'c cache_ops \<Rightarrow> string \<Rightarrow> ('c, 'key) policy_service \<Rightarrow> nat \<times> ('c, 'key) policy_service" where
  "invalidate_shared L v s =
     (if cache_handle s
      then (case decision_cache (svc_kernel s) of
              None \<Rightarrow> (0, s)
            | Some c \<Rightarrow>
                (case invalidate_for_bundle L v c of
                   (n, c') \<Rightarrow> (n, s\<lparr>svc_kernel := (svc_kernel s)\<lparr>decision_cache := Some c'\<rparr>\<rparr>)))
      else (0, s))"

record load_bundle_response =
  lb_bundle_version :: string
  lb_active :: bool
  lb_status_message :: string
  lb_activated_at :: instant

definition load_bundle ::
    "'c cache_ops \<Rightarrow> 'key loader_lib \<Rightarrow> instant \<Rightarrow> (policy_error, policy_bundle) result option \<Rightarrow> bool \<Rightarrow>
     ('c, 'key) policy_service \<Rightarrow>
     (status, load_bundle_response) result \<times> ('c, 'key) policy_service" where
  "load_bundle L lib now converted stage_only s =
     (case converted of
        None \<Rightarrow> (Err (Status InvalidArgument ''LoadBundleRequest.bundle is required''), s)
      | Some conversion \<Rightarrow>
          (case svc_loader s of
             None \<Rightarrow> (Err (Status Unimplemented
                       (''LoadBundle disabled '' @ [CHR 0xE2, CHR 0x80, CHR 0x94] @
                        '' service constructed without a BundleLoader (T-024 opt-in)'')), s)
           | Some l \<Rightarrow>
               (case try_then conversion (accept_bundle lib l) of
                  Inl e \<Rightarrow> (Err (policy_error_to_status e), s)
                | Inr b \<Rightarrow>
                    if stage_only
                    then (Ok \<lparr>lb_bundle_version = bundle_version b, lb_active = False,
                              lb_status_message = ''bundle verified; not activated (stage_only=true)'',
                              lb_activated_at = now\<rparr>, s)
                    else
                      let (previous, s) = swap_active_bundle_version (bundle_version b) s;
                          s = (if in_memory_handle s
                               then s\<lparr>svc_kernel := snd (set_active_bundle b (svc_kernel s))\<rparr>
                               else s);
                          (invalidated, s) = invalidate_shared L previous s
                      in (Ok \<lparr>lb_bundle_version = bundle_version b, lb_active = True,
                              lb_status_message = ''bundle activated; previous='' @ previous @
                                ''; cache entries invalidated='' @ show_nat invalidated,
                              lb_activated_at = now\<rparr>, s))))"

record rollback_response =
  rb_previous :: string
  rb_current :: string
  rb_evidence_receipt_id :: string

definition rollback_bundle ::
    "'c cache_ops \<Rightarrow> string \<Rightarrow> string \<Rightarrow> ('c, 'key) policy_service \<Rightarrow>
     (status, rollback_response) result \<times> ('c, 'key) policy_service" where
  "rollback_bundle L ulid wanted s =
     (if \<not> in_memory_handle s
      then (Err (Status Unimplemented
             ''RollbackBundle requires an InMemoryPolicyKernel (constructed via PolicyKernelService::new_in_memory)''), s)
      else
        (case rollback_active_bundle (svc_kernel s) of
           (None, k) \<Rightarrow>
             (Err (Status FailedPrecondition
                (''RollbackBundle: rollback stack is empty (no previous bundle to restore '' @
                 [CHR 0xE2, CHR 0x80, CHR 0x94] @ '' S2.3 '' @ section_sign @ ''12.5)'')),
              s\<lparr>svc_kernel := k\<rparr>)
         | (Some (restored, displaced), k) \<Rightarrow>
             if wanted \<noteq> [] \<and> wanted \<noteq> bundle_version restored
             then (Err (Status FailedPrecondition
                     (''RollbackBundle: target_bundle_version='' @ wanted @
                      '' but the rollback stack head is '' @ bundle_version restored @
                      '' (S2.3 '' @ section_sign @ ''12.5)'')),
                   s\<lparr>svc_kernel := snd (set_active_bundle restored k)\<rparr>)
             else
               let (previously_active, s) =
                     swap_active_bundle_version (bundle_version restored) (s\<lparr>svc_kernel := k\<rparr>);
                   (invalidated, s) = invalidate_shared L previously_active s
               in (Ok \<lparr>rb_previous = previously_active, rb_current = bundle_version restored,
                       rb_evidence_receipt_id = ''evr_rb_'' @ ulid\<rparr>, s)))"

definition explain_decision ::
    "string \<Rightarrow> ('c, 'key) policy_service \<Rightarrow> (status, decision_path) result" where
  "explain_decision i s =
     (case svc_log s of
        None \<Rightarrow> Err (Status Unimplemented
                 (''ExplainDecision disabled '' @ [CHR 0xE2, CHR 0x80, CHR 0x94] @
                  '' service constructed without a SharedDecisionLog (T-024 opt-in)''))
      | Some l \<Rightarrow>
          (case log_get i l of
             None \<Rightarrow> Err (Status NotFound (''no decision found for policy_decision_id='' @ i))
           | Some p \<Rightarrow> Ok p))"

record engine_info =
  ei_engine_id :: string
  ei_schema_versions :: "string list"
  ei_default_schema :: string
  ei_active_bundle_version :: string
  ei_degraded :: bool
  ei_rules :: nat
  ei_started_at :: instant

definition get_policy_engine_info :: "('c, 'key) policy_service \<Rightarrow> engine_info" where
  "get_policy_engine_info s =
     \<lparr>ei_engine_id = engine_id s, ei_schema_versions = [POLICY_SCHEMA_VERSION],
      ei_default_schema = POLICY_SCHEMA_VERSION,
      ei_active_bundle_version = active_bundle_version s, ei_degraded = False, ei_rules = 0,
      ei_started_at = svc_started_at s\<rparr>"

section \<open>Facts\<close>

lemma invalidate_shared_frame:
  "active_bundle_version (snd (invalidate_shared L v s)) = active_bundle_version s"
  "active_bundle (svc_kernel (snd (invalidate_shared L v s))) = active_bundle (svc_kernel s)"
  "kernel_boundary (svc_kernel (snd (invalidate_shared L v s))) = kernel_boundary (svc_kernel s)"
  by (auto simp: invalidate_shared_def split: option.splits prod.splits)

lemma invalidate_shared_clears:
  assumes "lru_cache L" and "cache_handle s"
  shows "case decision_cache (svc_kernel (snd (invalidate_shared L v s))) of
    None \<Rightarrow> True | Some c \<Rightarrow> list_all (\<lambda>(k, _). ck_bundle_version k \<noteq> v) (lru_iter L c)"
proof (cases "decision_cache (svc_kernel s)")
  case None
  then show ?thesis using assms(2) by (simp add: invalidate_shared_def)
next
  case (Some c)
  then show ?thesis
    using assms(2) invalidate_iter [OF assms(1), of v c]
    by (auto simp: invalidate_shared_def list_all_iff split: prod.splits)
qed

section \<open>Properties\<close>

text \<open>A loader that trusts one key, a signed bundle, and a service for the instances.\<close>

definition sample_lib :: "unit loader_lib" where
  "sample_lib =
     \<lparr>from_slice = (\<lambda>_. Err []), to_vec = (\<lambda>_. Ok []), verify = (\<lambda>_ _ _. True),
      read_file = (\<lambda>_. Err [])\<rparr>"

definition signed_bundle :: "string \<Rightarrow> policy_bundle" where
  "signed_bundle v = (sample_bundle v)\<lparr>signature_ed25519 := replicate 64 0\<rparr>"

definition sample_service :: "(nat \<times> (cache_key \<times> policy_decision) list, unit) policy_service" where
  "sample_service =
     with_cache (with_bundle_loader (loader_new [(''root'', ())]) (with_decision_log (log_with_capacity 4)
       (new_in_memory cached_kernel 0)))"

lemma sample_accept: "accept_bundle sample_lib (loader_new [(''root'', ())]) (signed_bundle v) = Ok (signed_bundle v)"
  by (simp add: accept_bundle_Ok loader_new_def sample_lib_def signed_bundle_def sample_bundle_def)

lemma sample_load:
  "\<exists>r s'. load_bundle list_lru sample_lib 1 (Some (Ok (signed_bundle ''v2''))) False sample_service =
     (Ok r, s')"
  by (simp add: load_bundle_def sample_service_def with_cache_def with_bundle_loader_def
      with_decision_log_def new_in_memory_def sample_accept split: prod.splits)

definition sample_wire :: wire_lib where
  "sample_wire =
     \<lparr>decode_envelope = (\<lambda>_. Ok restart_envelope), snap_digest = (\<lambda>_ _. Ok ''d'')\<rparr>"

text \<open>
  Loading a bundle switches everything over. After a successful activating load on a
  service that holds the kernel and its cache, the version label of the service and the active
  bundle of the kernel agree on a bundle that its loader accepts, no cached decision of the
  version before remains, and every override is gone.
\<close>

theorem load_bundle_switches:
  assumes "lru_cache L" and "in_memory_handle s" and "cache_handle s"
    and "load_bundle L lib now converted False s = (Ok r, s')"
  shows "\<exists>b l. svc_loader s = Some l \<and> accept_bundle lib l b = Ok b \<and>
    active_bundle (svc_kernel s') = Some b \<and> active_bundle_version s' = bundle_version b \<and>
    lb_bundle_version r = bundle_version b \<and> lb_active r \<and>
    kernel_boundary (svc_kernel s') = map_option (\<lambda>_. []) (kernel_boundary (svc_kernel s)) \<and>
    (case decision_cache (svc_kernel s') of
       None \<Rightarrow> True
     | Some c \<Rightarrow> list_all (\<lambda>(k, _). ck_bundle_version k \<noteq> active_bundle_version s) (lru_iter L c))"
proof -
  obtain conversion l b0 b where c: "converted = Some conversion" "svc_loader s = Some l"
      "conversion = Ok b0" "accept_bundle lib l b0 = Ok b"
    using assms(4) by (auto simp: load_bundle_def result_simps split: option.splits sum.splits)
  have b: "b0 = b" using c(4) by (simp add: accept_bundle_Ok)
  let ?s = "s\<lparr>active_bundle_version := bundle_version b,
    svc_kernel := snd (set_active_bundle b (svc_kernel s))\<rparr>"
  have s': "s' = snd (invalidate_shared L (active_bundle_version s) ?s)"
    and r: "lb_bundle_version r = bundle_version b" "lb_active r"
    using assms(2,4) c b
    by (auto simp: load_bundle_def swap_active_bundle_version_def split: prod.splits)
  have "active_bundle (svc_kernel s') = Some b" "active_bundle_version s' = bundle_version b"
    "kernel_boundary (svc_kernel s') = map_option (\<lambda>_. []) (kernel_boundary (svc_kernel s))"
    by (cases "kernel_boundary (svc_kernel s)";
        simp add: s' invalidate_shared_frame set_active_bundle_def Let_def)+
  moreover have "case decision_cache (svc_kernel s') of
      None \<Rightarrow> True
    | Some c \<Rightarrow> list_all (\<lambda>(k, _). ck_bundle_version k \<noteq> active_bundle_version s) (lru_iter L c)"
    unfolding s' using assms(3) by (intro invalidate_shared_clears [OF assms(1)]) simp
  ultimately show ?thesis using c b r by blast
qed

theorem load_bundle_switches_witness:
  "\<exists>r s' b l. load_bundle list_lru sample_lib 1 (Some (Ok (signed_bundle ''v2''))) False sample_service
      = (Ok r, s') \<and>
    svc_loader sample_service = Some l \<and> accept_bundle sample_lib l b = Ok b \<and>
    active_bundle (svc_kernel s') = Some b \<and> active_bundle_version s' = bundle_version b \<and>
    lb_bundle_version r = bundle_version b \<and> lb_active r \<and>
    kernel_boundary (svc_kernel s') = map_option (\<lambda>_. []) (kernel_boundary (svc_kernel sample_service)) \<and>
    (case decision_cache (svc_kernel s') of
       None \<Rightarrow> True
     | Some c \<Rightarrow> list_all (\<lambda>(k, _). ck_bundle_version k \<noteq> active_bundle_version sample_service)
         (lru_iter list_lru c))"
proof -
  obtain r s' where load: "load_bundle list_lru sample_lib 1 (Some (Ok (signed_bundle ''v2''))) False
      sample_service = (Ok r, s')"
    using sample_load by blast
  have "in_memory_handle sample_service" "cache_handle sample_service"
    by (simp_all add: sample_service_def with_cache_def with_bundle_loader_def with_decision_log_def
        new_in_memory_def)
  from load_bundle_switches [OF ll.lru_cache_axioms this load] show ?thesis using load by blast
qed

text \<open>
  A load that fails or only stages changes nothing: the service, its kernel, its cache and
  its overrides are exactly as before.
\<close>

theorem rejected_load_changes_nothing:
  assumes "load_bundle L lib now converted stage_only s = (r, s')"
    and "stage_only \<or> (\<exists>st. r = Err st)"
  shows "s' = s"
  using assms
  by (auto simp: load_bundle_def Let_def split: option.splits sum.splits if_splits prod.splits)

theorem rejected_load_changes_nothing_witness:
  "snd (load_bundle list_lru sample_lib 1 (Some (Ok (sample_bundle ''v2''))) False sample_service) =
     sample_service"
proof (rule rejected_load_changes_nothing)
  have "accept_bundle sample_lib (loader_new [(''root'', ())]) (sample_bundle ''v2'') =
      Err BundleSignatureInvalid"
    by (simp add: accept_bundle_def loader_new_def sample_bundle_def)
  then show "load_bundle list_lru sample_lib 1 (Some (Ok (sample_bundle ''v2''))) False sample_service =
      (Err (policy_error_to_status BundleSignatureInvalid),
       snd (load_bundle list_lru sample_lib 1 (Some (Ok (sample_bundle ''v2''))) False sample_service))"
    by (simp add: load_bundle_def sample_service_def with_cache_def with_bundle_loader_def
        with_decision_log_def new_in_memory_def)
qed simp

text \<open>
  A decision that was served can be explained. On a service with an explain log, the
  identifier of the decision just returned looks up exactly that decision, with its narrative.
\<close>

theorem served_decision_explained:
  assumes "svc_log s = Some l" and "log_inv l"
    and "evaluate_internal L w kev bytes schema simulate s = (Ok d, s')"
  shows "explain_decision (policy_decision_id d) s' = Ok (from_decision d)"
proof -
  have "svc_log s' = Some (log_record (from_decision d) l)"
    using assms(1,3)
    by (auto simp: evaluate_internal_def Let_def split: sum.splits prod.splits if_splits)
  moreover have "policy_decision_id (dp_decision (from_decision d)) = policy_decision_id d"
    by (simp add: from_decision_def)
  ultimately show ?thesis
    using log_get_record [OF assms(2), of "from_decision d"] by (simp add: explain_decision_def)
qed

theorem served_decision_explained_witness:
  "\<exists>d s'. evaluate_internal list_lru sample_wire sample_kernel_env [0] [] False sample_service = (Ok d, s') \<and>
     explain_decision (policy_decision_id d) s' = Ok (from_decision d)"
proof -
  have "\<exists>d k. evaluate_policy list_lru sample_kernel_env restart_envelope
      (build_context (snap_digest sample_wire) sample_service restart_envelope)
      (svc_kernel sample_service) = (Ok d, k)"
    by (simp add: evaluate_policy_def sample_service_def with_cache_def with_bundle_loader_def
        with_decision_log_def new_in_memory_def cached_kernel_def with_override_boundary_def
        new_with_cache_def kernel_new_def cache_new_def cache_get_def list_lru_def
        hydrate_context_def Let_def)
  then obtain d s' where eval:
    "evaluate_internal list_lru sample_wire sample_kernel_env [0] [] False sample_service = (Ok d, s')"
    by (auto simp: evaluate_internal_def check_schema_version_def envelope_from_bytes_def
        sample_wire_def)
  have "svc_log sample_service = Some (log_with_capacity 4)"
    by (simp add: sample_service_def with_cache_def with_bundle_loader_def with_decision_log_def)
  from served_decision_explained [OF this log_inv_new eval] show ?thesis using eval by blast
qed

text \<open>
  A refused rollback takes effect. When the operator names a target version that is not the
  head of the rollback stack, the request fails, yet the kernel ends up on the older bundle, the
  bundle that was active is lost from the kernel, and the version label of the service still
  names it.
\<close>

theorem refused_rollback_displaces_bundle:
  assumes "in_memory_handle s" and "active_bundle (svc_kernel s) = Some cur"
    and "rollback_stack (svc_kernel s) = st @ [old]"
    and "length (rollback_stack (svc_kernel s)) \<le> rollback_capacity (svc_kernel s)"
    and "wanted \<noteq> []" and "wanted \<noteq> bundle_version old"
  shows "\<exists>msg s'. rollback_bundle L ulid wanted s = (Err (Status FailedPrecondition msg), s') \<and>
    active_bundle (svc_kernel s') = Some old \<and> rollback_stack (svc_kernel s') = st @ [old] \<and>
    active_bundle_version s' = active_bundle_version s"
  using assms
  by (simp add: rollback_bundle_def rollback_active_bundle_def set_active_bundle_def Let_def
      push_rollback_room)

theorem refused_rollback_displaces_bundle_witness:
  "\<exists>msg s'. rollback_bundle list_lru ''R'' ''v9''
      (sample_service\<lparr>svc_kernel := cached_kernel\<lparr>active_bundle := Some (sample_bundle ''v2''),
         rollback_stack := [sample_bundle ''v1'']\<rparr>\<rparr>) = (Err (Status FailedPrecondition msg), s') \<and>
    active_bundle (svc_kernel s') = Some (sample_bundle ''v1'') \<and>
    rollback_stack (svc_kernel s') = [] @ [sample_bundle ''v1''] \<and>
    active_bundle_version s' = active_bundle_version
      (sample_service\<lparr>svc_kernel := cached_kernel\<lparr>active_bundle := Some (sample_bundle ''v2''),
         rollback_stack := [sample_bundle ''v1'']\<rparr>\<rparr>)"
  by (rule refused_rollback_displaces_bundle [where cur = "sample_bundle ''v2''"])
    (simp_all add: sample_service_def with_cache_def with_bundle_loader_def with_decision_log_def
      new_in_memory_def cached_kernel_def with_override_boundary_def new_with_cache_def kernel_new_def
      DEFAULT_ROLLBACK_STACK_CAPACITY_def sample_bundle_def)

end
