(* ===== verification/Policy_Condition_Roundtrip.thy ===== *)
theory Policy_Condition_Roundtrip
  imports Policy_Condition_Parser
begin

text \<open>
  What the condition parser accepts. A reference printer writes a condition in its canonical
  text; the conditions the parser can return are exactly the well-formed ones, and each of
  them is recovered from its canonical text. The printer and the well-formedness predicate are
  specification; the parser is the one of \<open>Policy_Condition_Parser\<close>.
\<close>

section \<open>Moving over the text\<close>

definition adv :: "nat \<Rightarrow> parser \<Rightarrow> parser" where
  "adv n p = p\<lparr>pos := pos p + n\<rparr>"

lemma rest_adv [simp]: "rest (adv n p) = drop n (rest p)"
  by (simp add: rest_def adv_def add.commute)

lemma source_adv [simp]: "source (adv n p) = source p"
  by (simp add: adv_def)

lemma pos_adv [simp]: "pos (adv n p) = pos p + n"
  by (simp add: adv_def)

lemma adv_adv [simp]: "adv m (adv n p) = adv (n + m) p"
  by (simp add: adv_def)

lemma adv_0 [simp]: "adv 0 p = p"
  by (simp add: adv_def)

lemma drop_source [simp]: "drop (pos p + n) (source p) = drop n (rest p)"
  by (simp add: rest_def add.commute)

lemma drop_source_Suc [simp]: "drop (Suc (pos p)) (source p) = tl (rest p)"
  by (simp add: rest_def drop_Suc tl_drop)

lemma drop_source_0 [simp]: "drop (pos p) (source p) = rest p"
  by (simp add: rest_def)

text \<open>The bytes that do not start a whitespace character.\<close>

definition token_char :: "char \<Rightarrow> bool" where
  "token_char c \<longleftrightarrow> c \<notin> set [CHR 0x20, CHR 0x09, CHR 0x0A, CHR 0x0B, CHR 0x0C, CHR 0x0D,
     CHR 0xC2, CHR 0xE1, CHR 0xE2, CHR 0xE3]"

lemma ws_prefix_token [simp]: "token_char c \<Longrightarrow> ws_prefix (c # s) = 0"
proof -
  assume c: "token_char c"
  have "hd w \<in> - Collect token_char \<and> w \<noteq> []" if "w \<in> set unicode_whitespace" for w
    using that by (auto simp: unicode_whitespace_def token_char_def)
  then have "\<not> prefix w (c # s)" if "w \<in> set unicode_whitespace" for w
    using that c by (cases w) force+
  then have "find (\<lambda>w. prefix w (c # s)) unicode_whitespace = None"
    by (simp add: find_None_iff)
  then show ?thesis by (simp add: ws_prefix_def)
qed

lemma trim_token [simp]: "token_char c \<Longrightarrow> trim_ws_start (c # s) = c # s"
  by (subst trim_ws_start.simps) simp

lemma trim_Nil [simp]: "trim_ws_start [] = []"
  by (subst trim_ws_start.simps) simp

lemma trim_space [simp]: "trim_ws_start (CHR '' '' # s) = trim_ws_start s"
proof -
  have "ws_prefix (CHR '' '' # s) = 1"
    by (simp add: ws_prefix_def unicode_whitespace_def)
  then show ?thesis by (subst trim_ws_start.simps) simp
qed

lemma skip_adv: "skip_whitespace p = adv (length (rest p) - length (trim_ws_start (rest p))) p"
  by (simp add: skip_whitespace_def adv_def)

lemma skip_token: "rest p = c # s \<Longrightarrow> token_char c \<Longrightarrow> skip_whitespace p = p"
  by (simp add: skip_adv)

lemma skip_space: "rest p = CHR '' '' # c # s \<Longrightarrow> token_char c \<Longrightarrow> skip_whitespace p = adv 1 p"
  by (simp add: skip_adv)

lemma skip_Nil: "rest p = [] \<Longrightarrow> skip_whitespace p = p"
  by (simp add: skip_adv)

lemma is_ident_start_token: "is_ident_start c \<Longrightarrow> token_char c"
  by (auto simp: is_ident_start_def is_ascii_alphabetic_def token_char_def less_eq_char_def)

lemma is_ident_start_continue: "is_ident_start c \<Longrightarrow> is_ident_continue c"
  by (auto simp: is_ident_start_def is_ident_continue_def is_ascii_alphanumeric_def)

lemma is_ascii_digit_token: "is_ascii_digit c \<Longrightarrow> token_char c"
  by (auto simp: is_ascii_digit_def token_char_def less_eq_char_def)

definition stops :: "(char \<Rightarrow> bool) \<Rightarrow> string \<Rightarrow> bool" where
  "stops P r \<longleftrightarrow> (case r of [] \<Rightarrow> True | c # _ \<Rightarrow> \<not> P c)"

lemma stops_simps [simp]: "stops P []" "stops P (c # r) \<longleftrightarrow> \<not> P c"
  by (simp_all add: stops_def)

lemma takeWhile_stops: "list_all P xs \<Longrightarrow> stops P r \<Longrightarrow> takeWhile P (xs @ r) = xs"
  by (induction xs) (auto simp: stops_def split: list.splits)

section \<open>Identifiers and paths\<close>

definition ident :: "string \<Rightarrow> bool" where
  "ident s \<longleftrightarrow> (case s of [] \<Rightarrow> False | c # cs \<Rightarrow> is_ident_start c \<and> list_all is_ident_continue cs)"

lemma identE: "ident s \<Longrightarrow> (\<And>c cs. s = c # cs \<Longrightarrow> is_ident_start c \<Longrightarrow>
    list_all is_ident_continue cs \<Longrightarrow> thesis) \<Longrightarrow> thesis"
  by (auto simp: ident_def split: list.splits)

lemma ident_token: "ident s \<Longrightarrow> \<exists>c cs. s = c # cs \<and> token_char c"
  by (auto elim!: identE intro: is_ident_start_token)

lemma ident_all_continue: "ident s \<Longrightarrow> list_all is_ident_continue s"
  by (auto elim!: identE intro: is_ident_start_continue)

lemma parse_identifier_ident:
  assumes "rest p = s @ r" and "ident s" and "stops is_ident_continue r"
  shows "parse_identifier p = Ok (s, adv (length s) p)"
proof -
  obtain c cs where s: "s = c # cs" "is_ident_start c" "list_all is_ident_continue cs"
    using assms(2) by (rule identE)
  have "skip_whitespace p = p"
    using assms(1) s is_ident_start_token by (simp add: skip_token)
  then show ?thesis
    using assms(1,3) s
    by (simp add: parse_identifier_def Let_def takeWhile_stops adv_def add.assoc)
qed

fun join_dots :: "string list \<Rightarrow> string" where
  "join_dots [] = []"
| "join_dots (s # ss) = ''.'' @ s @ join_dots ss"

text \<open>A path is a first identifier followed by dotted identifiers.\<close>

definition valid_path :: "string \<Rightarrow> bool" where
  "valid_path s \<longleftrightarrow> (\<exists>x xs. s = x @ join_dots xs \<and> ident x \<and> list_all ident xs)"

lemma path_loop_join:
  assumes "rest p = join_dots ss @ CHR '' '' # c # r" and "list_all ident ss"
    and "token_char c" and "c \<noteq> CHR ''.''"
  shows "path_loop s p = Ok (s @ join_dots ss, adv (length (join_dots ss)) p)"
  using assms
proof (induction ss arbitrary: s p)
  case Nil
  then show ?case by (subst path_loop.simps) (simp add: skip_space Let_def)
next
  case (Cons x xs)
  have dot: "rest p = CHR ''.'' # x @ join_dots xs @ CHR '' '' # c # r"
    using Cons.prems(1) by simp
  have skip: "skip_whitespace p = p" using dot by (simp add: skip_token token_char_def)
  obtain d ds where x: "x = d # ds" "is_ident_start d"
    using Cons.prems(2) by (auto elim: identE)
  have "stops is_ident_continue (join_dots xs @ CHR '' '' # c # r)"
    by (cases xs) (simp_all add: is_ident_continue_def is_ascii_alphanumeric_def
        is_ascii_alphabetic_def is_ascii_digit_def less_eq_char_def)
  then have "parse_identifier (adv 1 p) = Ok (x, adv (length x) (adv 1 p))"
    using dot Cons.prems(2) by (intro parse_identifier_ident) simp_all
  then have seg: "parse_identifier (p\<lparr>pos := Suc (pos p)\<rparr>) = Ok (x, adv (length x) (adv 1 p))"
    by (simp add: adv_def)
  have "path_loop (s @ ''.'' @ x) (adv (length x) (adv 1 p)) =
      Ok ((s @ ''.'' @ x) @ join_dots xs, adv (length (join_dots xs)) (adv (length x) (adv 1 p)))"
    using Cons.prems dot by (intro Cons.IH) simp_all
  then show ?case
    using dot skip seg x by (subst path_loop.simps) (simp add: Let_def)
qed

text \<open>Every field's dotted name is its namespace followed by a path.\<close>

fun wf_field :: "closed_field \<Rightarrow> bool" where
  "wf_field (TargetAdapterDeclared sub) \<longleftrightarrow>
     canonical_field (TargetAdapterDeclared sub) \<and> valid_path sub"
| "wf_field _ = True"

lemma wf_field_canonical: "wf_field f \<Longrightarrow> canonical_field f"
  by (cases f) auto

fun split_dots :: "string \<Rightarrow> string list" where
  "split_dots [] = [[]]"
| "split_dots (c # cs) =
     (if c = CHR ''.'' then [] # split_dots cs
      else (case split_dots cs of [] \<Rightarrow> [[c]] | x # xs \<Rightarrow> (c # x) # xs))"

lemma split_dots_join: "\<exists>x xs. split_dots s = x # xs \<and> s = x @ join_dots xs"
  by (induction s) auto

lemma valid_path_split:
  assumes "list_all ident (split_dots s)"
  shows "valid_path s"
proof -
  obtain x xs where "split_dots s = x # xs" and "s = x @ join_dots xs"
    using split_dots_join [of s] by blast
  then have "s = x @ join_dots xs \<and> ident x \<and> list_all ident xs" using assms by simp
  then show ?thesis unfolding valid_path_def by blast
qed

lemmas ident_eval = ident_def is_ident_start_def is_ident_continue_def is_ascii_alphabetic_def
  is_ascii_alphanumeric_def is_ascii_digit_def less_eq_char_def

lemma table_idents: "list_all (\<lambda>(s, f). list_all ident (split_dots s)) (namespace_fields ns)"
  by (cases ns; hypsubst; code_simp)

lemma table_paths: "(s, f) \<in> set (namespace_fields ns) \<Longrightarrow> valid_path s"
  using table_idents [of ns] by (auto simp: list_all_iff intro!: valid_path_split)

lemma wf_field_path:
  assumes "wf_field f"
  shows "\<exists>s. as_dotted f = namespace_str (field_namespace f) @ ''.'' @ s \<and> valid_path s"
proof (cases "\<exists>sub. f = TargetAdapterDeclared sub")
  case True
  then show ?thesis using assms by auto
next
  case False
  then obtain s where "(s, f) \<in> set (namespace_fields (field_namespace f))"
    using namespace_fields_cover [of f] by force
  then show ?thesis using namespace_fields_sound table_paths by blast
qed

lemma namespace_ident: "ident (namespace_str ns)"
  by (cases ns) (simp_all add: ident_eval)

lemma dot_not_continue: "\<not> is_ident_continue (CHR ''.'')"
  by (simp add: ident_eval)

lemma space_not_continue: "\<not> is_ident_continue (CHR '' '')"
  by (simp add: ident_eval)

lemma parse_field_path_print:
  assumes "rest p = as_dotted f @ CHR '' '' # c # r" and "wf_field f"
    and "token_char c" and "c \<noteq> CHR ''.''"
  shows "parse_field_path n p = Ok (f, adv (length (as_dotted f)) p)"
proof -
  let ?ns = "namespace_str (field_namespace f)"
  obtain s where dotted: "as_dotted f = ?ns @ ''.'' @ s" and "valid_path s"
    using wf_field_path [OF assms(2)] by blast
  then obtain x xs where s: "s = x @ join_dots xs" "ident x" "list_all ident xs"
    by (auto simp: valid_path_def)
  let ?p1 = "adv (length ?ns) p"
  have ns: "parse_identifier p = Ok (?ns, ?p1)"
    using assms(1) dotted namespace_ident dot_not_continue
    by (intro parse_identifier_ident [where r = "''.'' @ s @ CHR '' '' # c # r"]) simp_all
  have dot: "rest ?p1 = CHR ''.'' # s @ CHR '' '' # c # r" using assms(1) dotted by simp
  then have skip: "skip_whitespace ?p1 = ?p1" by (simp add: skip_token token_char_def)
  then have consume: "try_consume_char (CHR ''.'') ?p1 = (True, adv 1 ?p1)"
    using dot by (simp add: try_consume_char_def Let_def adv_def)
  have stop: "stops is_ident_continue (join_dots xs @ CHR '' '' # c # r)"
    using dot_not_continue space_not_continue by (cases xs) simp_all
  have first: "parse_identifier (adv 1 ?p1) = Ok (x, adv (length x) (adv 1 ?p1))"
    using assms(1) dotted s stop by (intro parse_identifier_ident) simp_all
  have more: "path_loop x (adv (length x) (adv 1 ?p1)) =
      Ok (x @ join_dots xs, adv (length (join_dots xs)) (adv (length x) (adv 1 ?p1)))"
    using assms dotted s by (intro path_loop_join) simp_all
  have "resolve_field (field_namespace f) s = Some f"
    using resolve_field_complete [OF wf_field_canonical [OF assms(2)] dotted] .
  then show ?thesis
    using ns skip consume first more s dotted
    by (simp add: parse_field_path_def namespace_from_token_iff [THEN iffD2] split: prod.splits)
qed

section \<open>Literals\<close>

definition show_int :: "int \<Rightarrow> string" where
  "show_int i = (if i < 0 then CHR ''-'' # show_nat (nat (- i)) else show_nat (nat i))"

lemma minus_not_digit: "\<not> is_ascii_digit (CHR ''-'')"
  by (simp add: is_ascii_digit_def less_eq_char_def)

lemma parse_i64_show:
  assumes "i64_range i"
  shows "parse_i64 (show_int i) = Some i"
proof (cases "i < 0")
  case True
  then show ?thesis using assms by (simp add: parse_i64_def show_int_def decimal_show_nat)
next
  case False
  obtain c cs where "show_nat (nat i) = c # cs" and "c \<noteq> CHR ''-''"
    using show_nat_nonempty [of "nat i"] show_nat_digits [of "nat i"] minus_not_digit
    by (cases "show_nat (nat i)") auto
  then have "(case show_nat (nat i) of CHR ''-'' # ds \<Rightarrow> - decimal_value ds | _ \<Rightarrow> decimal_value (show_nat (nat i)))
      = decimal_value (show_nat (nat i))"
    by (simp split: char.splits bool.splits)
  then show ?thesis using False assms by (simp add: parse_i64_def show_int_def decimal_show_nat)
qed

text \<open>What may follow a value in the canonical text.\<close>

definition delimited :: "string \<Rightarrow> bool" where
  "delimited r \<longleftrightarrow> (case r of [] \<Rightarrow> True | c # _ \<Rightarrow> c \<in> {CHR '','', CHR '']'', CHR '' ''})"

lemma delimited_simps [simp]:
  "delimited []" "delimited (CHR '','' # r)" "delimited (CHR '']'' # r)" "delimited (CHR '' '' # r)"
  by (simp_all add: delimited_def)

lemma delimited_stops: "delimited r \<Longrightarrow> stops is_ident_continue r \<and> stops is_ascii_digit r \<and> \<not> prefix ''.'' r"
  by (cases r) (auto simp: delimited_def ident_eval)

lemma parse_number_show:
  assumes "rest p = show_int i @ r" and "i64_range i" and "delimited r"
  shows "parse_number_literal p = Ok (VInt i, adv (length (show_int i)) p)"
proof -
  define ds where "ds = show_nat (nat (abs i))"
  define sg where "sg = (if i < 0 then ''-'' else [])"
  have show_i: "show_int i = sg @ ds" by (simp add: show_int_def sg_def ds_def)
  obtain d ds' where d: "ds = d # ds'" "is_ascii_digit d"
    using show_nat_nonempty show_nat_digits [of "nat (abs i)"] by (cases ds) (auto simp: ds_def)
  have "\<exists>c cs. show_int i = c # cs \<and> token_char c"
    using d is_ascii_digit_token by (auto simp: show_i sg_def token_char_def)
  then have skip: "skip_whitespace p = p" using assms(1) skip_token by auto
  have sign: "(if prefix ''-'' (rest p) then pos p + 1 else pos p) = pos p + length sg"
    using assms(1) d minus_not_digit by (auto simp: show_i sg_def)
  have tw: "takeWhile is_ascii_digit (ds @ r) = ds"
    using show_nat_digits assms(3) delimited_stops by (simp add: ds_def takeWhile_stops)
  have digits: "digits_after (pos p + length sg) p = length ds"
    using assms(1) tw by (simp add: digits_after_def show_i)
  have after: "drop (pos p + length sg + length ds) (source p) = r"
    using assms(1) by (simp add: show_i add.assoc)
  have "ds \<noteq> []" using d by simp
  moreover have "take (length sg + length ds) (rest p) = show_int i"
    using assms(1) by (simp add: show_i)
  ultimately show ?thesis
    using skip sign digits after parse_i64_show [OF assms(2)] delimited_stops [OF assms(3)]
    by (simp add: parse_number_literal_def Let_def adv_def show_i add.assoc split: prod.splits)
qed

text \<open>A text without an unescaped quote and without an escape at its end.\<close>

definition wf_text :: "string \<Rightarrow> bool" where
  "wf_text s \<longleftrightarrow> scan_string 0 (s @ [CHR 0x22]) = Some (length s)"

lemma scan_string_append: "scan_string n xs = Some k \<Longrightarrow> scan_string n (xs @ ys) = Some k"
proof (induction n xs rule: scan_string.induct)
  case (2 n c cs)
  then show ?case by (cases cs) (auto split: if_splits)
qed simp

lemma scan_string_prefix:
  "scan_string n xs = Some k \<Longrightarrow>
    n \<le> k \<and> k < n + length xs \<and> scan_string n (take (k - n) xs @ [CHR 0x22]) = Some k"
proof (induction n xs rule: scan_string.induct)
  case (2 n c cs)
  consider "c = CHR 0x22" | "c = CHR 0x5C" | "c \<noteq> CHR 0x22" "c \<noteq> CHR 0x5C" by blast
  then show ?case
  proof cases
    case 2
    then obtain d ds where cs: "cs = d # ds" and "scan_string (n + 2) ds = Some k"
      using "2.prems" by (auto split: list.splits)
    with 2 "2.IH"(1) have "n + 2 \<le> k \<and> k < n + 2 + length ds \<and>
        scan_string (n + 2) (take (k - (n + 2)) ds @ [CHR 0x22]) = Some k" by simp
    moreover from this have "k - n = Suc (Suc (k - (n + 2)))" by linarith
    ultimately show ?thesis using 2 cs by simp
  next
    case 3
    with "2.prems" "2.IH"(2) have "n + 1 \<le> k \<and> k < n + 1 + length cs \<and>
        scan_string (n + 1) (take (k - (n + 1)) cs @ [CHR 0x22]) = Some k" by simp
    moreover from this have "k - n = Suc (k - (n + 1))" by linarith
    ultimately show ?thesis using 3 by simp
  qed (use "2.prems" in auto)
qed simp

lemma parse_string_print:
  assumes "rest p = CHR 0x22 # s @ CHR 0x22 # r" and "wf_text s"
  shows "parse_string_literal p = Ok (s, adv (length s + 2) p)"
proof -
  have skip: "skip_whitespace p = p" using assms(1) by (simp add: skip_token token_char_def)
  have "scan_string 0 (s @ CHR 0x22 # r) = Some (length s)"
    using scan_string_append [of 0 "s @ [CHR 0x22]" "length s" r] assms(2) by (simp add: wf_text_def)
  moreover have "rest (adv 1 p) = s @ CHR 0x22 # r" using assms(1) by simp
  ultimately show ?thesis
    using skip assms(1)
    by (simp add: parse_string_literal_def try_consume_char_def Let_def adv_def split: prod.splits)
qed

section \<open>Canonical text\<close>

fun print_value :: "cvalue \<Rightarrow> string" where
  "print_value (VString s) = CHR 0x22 # s @ [CHR 0x22]"
| "print_value (VIdentifier s) = s"
| "print_value (VInt i) = show_int i"
| "print_value (VBool b) = (if b then ''true'' else ''false'')"
| "print_value (VTimestamp s) = s"

text \<open>
  The values that the parser accepts. The two boolean words are not identifiers. The grammar of the
  specification (section 9.1 of \<open>01_policy_kernel.md\<close>) and the type \<open>Value\<close> of \<open>conditions.rs\<close> have timestamp
  literals too, but the parser has no branch that returns one, see \<open>timestamps_do_not_parse\<close>.
\<close>

fun wf_value :: "cvalue \<Rightarrow> bool" where
  "wf_value (VString s) \<longleftrightarrow> wf_text s"
| "wf_value (VIdentifier s) \<longleftrightarrow> ident s \<and> s \<noteq> ''true'' \<and> s \<noteq> ''false''"
| "wf_value (VInt i) \<longleftrightarrow> i64_range i"
| "wf_value (VBool b) \<longleftrightarrow> True"
| "wf_value (VTimestamp s) \<longleftrightarrow> False"

fun print_values :: "cvalue list \<Rightarrow> string" where
  "print_values [] = ''''"
| "print_values [v] = print_value v"
| "print_values (v # vs) = print_value v @ '', '' @ print_values vs"

fun print_predicate :: "predicate \<Rightarrow> string" where
  "print_predicate (Compare f op v) =
     as_dotted f @ '' '' @ compare_op_str op @ '' '' @ print_value v"
| "print_predicate (In f vs) = as_dotted f @ '' in ['' @ print_values vs @ '']''"
| "print_predicate (Contains f s) = as_dotted f @ '' contains '' @ CHR 0x22 # s @ [CHR 0x22]"
| "print_predicate (Exists f) = as_dotted f @ '' exists''"

fun wf_predicate :: "predicate \<Rightarrow> bool" where
  "wf_predicate (Compare f op v) \<longleftrightarrow> wf_field f \<and> wf_value v"
| "wf_predicate (In f vs) \<longleftrightarrow> wf_field f \<and> vs \<noteq> [] \<and> list_all wf_value vs"
| "wf_predicate (Contains f s) \<longleftrightarrow> wf_field f \<and> wf_text s"
| "wf_predicate (Exists f) \<longleftrightarrow> wf_field f"

fun print_predicates :: "predicate list \<Rightarrow> string" where
  "print_predicates [] = ''''"
| "print_predicates [x] = print_predicate x"
| "print_predicates (x # xs) = print_predicate x @ '' and '' @ print_predicates xs"

definition print_condition :: "pcondition \<Rightarrow> string" where
  "print_condition c = print_predicates (predicates c)"

definition wf_condition :: "pcondition \<Rightarrow> bool" where
  "wf_condition c \<longleftrightarrow> predicates c \<noteq> [] \<and> list_all wf_predicate (predicates c)"

section \<open>Every well-formed condition is recovered from its text\<close>

lemma ident_starts:
  "is_ident_start c \<Longrightarrow> c \<noteq> CHR '']'' \<and> c \<noteq> CHR 0x22 \<and> c \<noteq> CHR ''-'' \<and> \<not> is_ascii_digit c"
  by (auto simp: ident_eval)

lemma minus_token: "token_char (CHR ''-'')"
  by (simp add: token_char_def)

lemma digit_starts: "is_ascii_digit c \<Longrightarrow> c \<noteq> CHR 0x22 \<and> c \<noteq> CHR '']''"
  by (auto simp: ident_eval)

lemma parse_value_ident:
  assumes "rest p = s @ r" and "ident s" and "delimited r"
  shows "parse_value p = Ok (if s = ''true'' then VBool True
           else if s = ''false'' then VBool False else VIdentifier s, adv (length s) p)"
proof -
  obtain c cs where s: "s = c # cs" "is_ident_start c" using assms(2) by (rule identE)
  then have "skip_whitespace p = p"
    using assms(1) is_ident_start_token by (simp add: skip_token)
  then show ?thesis
    using assms s ident_starts [OF s(2)] delimited_stops [OF assms(3)]
      parse_identifier_ident [OF assms(1,2)]
    by (simp add: parse_value_def Let_def)
qed

lemma show_int_starts:
  "\<exists>c cs. show_int i = c # cs \<and> (c = CHR ''-'' \<or> is_ascii_digit c) \<and>
     token_char c \<and> c \<noteq> CHR 0x22 \<and> c \<noteq> CHR '']''"
proof (cases "i < 0")
  case True
  then show ?thesis using minus_token by (simp add: show_int_def)
next
  case False
  obtain c cs where "show_nat (nat i) = c # cs" "is_ascii_digit c"
    using show_nat_nonempty [of "nat i"] show_nat_digits [of "nat i"]
    by (cases "show_nat (nat i)") auto
  then show ?thesis
    using False is_ascii_digit_token digit_starts by (simp add: show_int_def)
qed

lemma parse_value_int:
  assumes "rest p = show_int i @ r" and "i64_range i" and "delimited r"
  shows "parse_value p = Ok (VInt i, adv (length (show_int i)) p)"
proof -
  obtain c cs where c: "show_int i = c # cs" "c = CHR ''-'' \<or> is_ascii_digit c"
      "token_char c" "c \<noteq> CHR 0x22"
    using show_int_starts by blast
  moreover from this have "skip_whitespace p = p" using assms(1) by (simp add: skip_token)
  ultimately show ?thesis
    using assms(1) c parse_number_show [OF assms] by (simp add: parse_value_def Let_def)
qed

lemma parse_value_print:
  assumes "rest p = print_value v @ r" and "wf_value v" and "delimited r"
  shows "parse_value p = Ok (v, adv (length (print_value v)) p)"
proof (cases v)
  case (VString s)
  then have "rest p = CHR 0x22 # s @ CHR 0x22 # r" and "wf_text s" using assms by simp_all
  then show ?thesis
    using VString parse_string_print [of p s r]
    by (simp add: parse_value_def Let_def skip_token token_char_def)
next
  case (VBool b)
  have "ident (print_value v)" using VBool by (simp add: ident_eval)
  then show ?thesis using assms parse_value_ident [OF assms(1) _ assms(3)] VBool by simp
qed (use assms in \<open>auto simp: parse_value_ident parse_value_int\<close>)

lemma print_value_token:
  "wf_value v \<Longrightarrow> \<exists>c cs. print_value v = c # cs \<and> token_char c \<and> c \<noteq> CHR '']''"
proof (cases v)
  case (VInt i)
  then show ?thesis using show_int_starts [of i] by auto
next
  case (VIdentifier s)
  assume "wf_value v"
  then obtain c cs where "s = c # cs" "is_ident_start c" using VIdentifier by (auto elim: identE)
  then show ?thesis using VIdentifier is_ident_start_token ident_starts by simp
qed (auto simp: token_char_def)

lemma try_consume_char_token:
  "rest p = d # s \<Longrightarrow> token_char d \<Longrightarrow>
    try_consume_char c p = (if d = c then (True, adv 1 p) else (False, p))"
  by (simp add: try_consume_char_def Let_def skip_token adv_def)

lemma parse_value_space:
  assumes "rest p = CHR '' '' # c # s" and "token_char c"
  shows "parse_value p = parse_value (adv 1 p)"
proof -
  have "skip_whitespace p = adv 1 p" "skip_whitespace (adv 1 p) = adv 1 p"
    using assms by (simp_all add: skip_space skip_token)
  then show ?thesis by (simp add: parse_value_def)
qed

lemma parse_value_print_space:
  assumes "rest p = sp @ print_value v @ r" and "sp = [] \<or> sp = '' ''"
    and "wf_value v" and "delimited r"
  shows "parse_value p = Ok (v, adv (length sp + length (print_value v)) p)"
proof -
  let ?q = "adv (length sp) p"
  obtain c cs where c: "print_value v = c # cs" "token_char c"
    using print_value_token [OF assms(3)] by blast
  have "parse_value p = parse_value ?q"
    using assms(1,2) c parse_value_space [of p c] by auto
  also have "\<dots> = Ok (v, adv (length (print_value v)) ?q)"
    using assms by (intro parse_value_print) auto
  finally show ?thesis by simp
qed

lemma comma_bracket_token: "token_char (CHR '','')" "token_char (CHR '']'')"
    "token_char (CHR ''['')"
  by (simp_all add: token_char_def)

lemma value_list_loop_print:
  assumes "rest p = sp @ print_values vs @ CHR '']'' # r" and "sp = [] \<or> sp = '' ''"
    and "vs \<noteq> []" and "list_all wf_value vs"
  shows "value_list_loop acc p = Ok (acc @ vs, adv (length sp + length (print_values vs) + 1) p)"
  using assms
proof (induction vs arbitrary: acc p sp rule: print_values.induct)
  case (2 v)
  have v: "parse_value p = Ok (v, adv (length sp + length (print_value v)) p)"
    using 2 parse_value_print_space [of p sp v "CHR '']'' # r"] by simp
  have "rest (adv (length sp + length (print_value v)) p) = CHR '']'' # r" using 2 by auto
  then show ?case
    by (subst value_list_loop.simps)
      (simp add: v skip_token try_consume_char_token comma_bracket_token)
next
  case (3 v w vs)
  let ?tail = "print_values (w # vs) @ CHR '']'' # r"
  have v: "parse_value p = Ok (v, adv (length sp + length (print_value v)) p)"
    using 3 parse_value_print_space [of p sp v "CHR '','' # '' '' @ ?tail"] by simp
  let ?p1 = "adv (length sp + length (print_value v)) p"
  have r: "rest ?p1 = CHR '','' # '' '' @ ?tail" using 3 by auto
  have "rest (adv 1 ?p1) = '' '' @ ?tail" using 3 by auto
  then have "value_list_loop (acc @ [v]) (adv 1 ?p1) =
      Ok ((acc @ [v]) @ (w # vs), adv (length '' '' + length (print_values (w # vs)) + 1) (adv 1 ?p1))"
    using 3 by (intro "3.IH") simp_all
  then show ?case
    using r by (subst value_list_loop.simps)
      (simp add: v skip_token try_consume_char_token comma_bracket_token)
qed simp

lemma parse_value_list_print:
  assumes "rest p = '' ['' @ print_values vs @ CHR '']'' # r" and "vs \<noteq> []"
    and "list_all wf_value vs"
  shows "parse_value_list p = Ok (vs, adv (length (print_values vs) + 3) p)"
proof -
  obtain c cs where c: "print_values vs = c # cs" "token_char c" "c \<noteq> CHR '']''"
    using assms(2,3) print_value_token by (cases vs rule: print_values.cases) fastforce+
  have open_br: "try_consume_char (CHR ''['') (skip_whitespace p) = (True, adv 2 p)"
    using assms(1) by (simp add: skip_space try_consume_char_token comma_bracket_token numeral_2_eq_2)
  have at: "rest (adv 2 p) = print_values vs @ CHR '']'' # r" using assms(1) by simp
  have no_close: "try_consume_char (CHR '']'') (skip_whitespace (adv 2 p)) = (False, adv 2 p)"
    using at c by (simp add: skip_token try_consume_char_token)
  have "value_list_loop [] (adv 2 p) = Ok (vs, adv (length (print_values vs) + 1) (adv 2 p))"
    using value_list_loop_print [of "adv 2 p" "[]" vs r "[]"] at assms(2,3) by simp
  then show ?thesis using open_br no_close
    by (simp add: parse_value_list_def numeral_eq_Suc)
qed

lemma try_consume_char_seq_token:
  "rest p = d # s \<Longrightarrow> token_char d \<Longrightarrow>
    try_consume_char_seq t p = (if prefix t (d # s) then (True, adv (length t) p) else (False, p))"
  by (simp add: try_consume_char_seq_def Let_def skip_token adv_def)

lemma try_consume_token:
  assumes "rest p = d # s" and "token_char d"
  shows "try_consume t p =
    (if prefix t (d # s) \<and>
        \<not> ((case t of [] \<Rightarrow> False | c # _ \<Rightarrow> is_ascii_alphabetic c) \<and>
           (case drop (length t) (d # s) of [] \<Rightarrow> False | c # _ \<Rightarrow> is_ident_continue c))
     then (True, adv (length t) p) else (False, p))"
  using assms by (simp add: try_consume_def Let_def skip_token adv_def)

lemma op_starts: "\<exists>c cs. compare_op_str op = c # cs \<and> token_char c \<and> c \<noteq> CHR ''.''"
  by (cases op) (simp_all add: token_char_def)

lemma compare_op_print:
  assumes "rest p = compare_op_str op @ CHR '' '' # r"
  shows "try_parse_compare_op p = (Some op, adv (length (compare_op_str op)) p)"
proof (cases op)
qed (use assms in \<open>simp_all add: try_parse_compare_op_def try_consume_char_seq_token
       try_consume_char_token token_char_def\<close>)

lemma compare_op_none:
  assumes "rest p = c # r" and "is_ident_start c"
  shows "try_parse_compare_op p = (None, p)"
proof -
  have "token_char c" using assms(2) by (rule is_ident_start_token)
  moreover have "c \<notin> {CHR ''!'', CHR ''<'', CHR ''>'', CHR ''=''}"
    using assms(2) by (auto simp: ident_eval)
  ultimately show ?thesis
    using assms(1) by (auto simp: try_parse_compare_op_def try_consume_char_seq_token
        try_consume_char_token)
qed

lemma dotted_starts:
  assumes "wf_field f"
  shows "\<exists>c cs. as_dotted f = c # cs \<and> token_char c" and
    "\<not> prefix ''or'' (as_dotted f @ r)" and "\<not> prefix ''not'' (as_dotted f @ r)" and
    "\<not> prefix ''('' (as_dotted f @ r)" and "\<not> prefix '')'' (as_dotted f @ r)"
proof -
  obtain s where s: "as_dotted f = namespace_str (field_namespace f) @ ''.'' @ s"
    using wf_field_path [OF assms] by blast
  show "\<exists>c cs. as_dotted f = c # cs \<and> token_char c" "\<not> prefix ''or'' (as_dotted f @ r)"
    "\<not> prefix ''not'' (as_dotted f @ r)" "\<not> prefix ''('' (as_dotted f @ r)"
    "\<not> prefix '')'' (as_dotted f @ r)"
    by (cases "field_namespace f"; simp add: s token_char_def)+
qed

lemma predicate_field:
  assumes "rest p = sp @ as_dotted f @ CHR '' '' # c # r" and "sp = [] \<or> sp = '' ''"
    and "wf_field f" and "token_char c" and "c \<noteq> CHR ''.''"
  defines "q \<equiv> adv (length sp) p"
  shows "reject_disallowed_conjunctions (skip_whitespace p) = Ok q"
    and "parse_field_path n q = Ok (f, adv (length (as_dotted f)) q)"
    and "skip_whitespace (adv (length (as_dotted f)) q) = adv (length (as_dotted f) + 1) q"
proof -
  obtain d ds where d: "as_dotted f = d # ds" "token_char d"
    using dotted_starts(1) [OF assms(3)] by blast
  have rest_q: "rest q = as_dotted f @ CHR '' '' # c # r" using assms(1,2) by (auto simp: q_def)
  have "skip_whitespace p = q"
    using assms(1,2) d by (auto simp: q_def skip_token skip_space)
  moreover have "skip_whitespace q = q" using rest_q d by (simp add: skip_token)
  ultimately show "reject_disallowed_conjunctions (skip_whitespace p) = Ok q"
    using dotted_starts(2-5) [OF assms(3), of "CHR '' '' # c # r"] rest_q
    by (simp add: reject_disallowed_conjunctions_def Let_def word_here_def split: prod.splits)
  show "parse_field_path n q = Ok (f, adv (length (as_dotted f)) q)"
    using rest_q assms(3-5) by (rule parse_field_path_print)
  show "skip_whitespace (adv (length (as_dotted f)) q) = adv (length (as_dotted f) + 1) q"
    using rest_q assms(4) by (subst skip_space [of _ c r]) simp_all
qed

lemma parse_predicate_compare:
  assumes "rest p = sp @ print_predicate (Compare f op v) @ r" and "sp = [] \<or> sp = '' ''"
    and "wf_predicate (Compare f op v)" and "delimited r"
  shows "parse_predicate p =
    Ok (Compare f op v, adv (length sp + length (print_predicate (Compare f op v))) p)"
proof -
  let ?q = "adv (length sp) p"
  let ?q1 = "adv (length (as_dotted f) + 1) ?q"
  obtain c cs where c: "compare_op_str op = c # cs" "token_char c" "c \<noteq> CHR ''.''"
    using op_starts by blast
  have at: "rest p = sp @ as_dotted f @ CHR '' '' # c # cs @ '' '' @ print_value v @ r"
    using assms(1) c by simp
  have wf: "wf_field f" "wf_value v" using assms(3) by simp_all
  note field = predicate_field [OF at assms(2) wf(1) c(2,3)]
  have r1: "rest ?q1 = compare_op_str op @ CHR '' '' # print_value v @ r" using at c by simp
  have op: "try_parse_compare_op ?q1 = (Some op, adv (length (compare_op_str op)) ?q1)"
    using r1 by (rule compare_op_print)
  have "rest (adv (length (compare_op_str op)) ?q1) = '' '' @ print_value v @ r"
    using at c by simp
  then have "parse_value (adv (length (compare_op_str op)) ?q1) =
      Ok (v, adv (length '' '' + length (print_value v)) (adv (length (compare_op_str op)) ?q1))"
    using wf(2) assms(4) by (intro parse_value_print_space) simp_all
  then show ?thesis
    using field op by (simp add: parse_predicate_def add.assoc)
qed

lemma parse_predicate_in:
  assumes "rest p = sp @ print_predicate (In f vs) @ r" and "sp = [] \<or> sp = '' ''"
    and "wf_predicate (In f vs)"
  shows "parse_predicate p = Ok (In f vs, adv (length sp + length (print_predicate (In f vs))) p)"
proof -
  let ?q1 = "adv (length (as_dotted f) + 1) (adv (length sp) p)"
  have at: "rest p = sp @ as_dotted f @ CHR '' '' # CHR ''i'' # ''n ['' @ print_values vs @ CHR '']'' # r"
    using assms(1) by simp
  have wf: "wf_field f" "vs \<noteq> []" "list_all wf_value vs" using assms(3) by simp_all
  note field = predicate_field [OF at assms(2) wf(1)]
  have r1: "rest ?q1 = CHR ''i'' # ''n ['' @ print_values vs @ CHR '']'' # r" using at by simp
  have op: "try_parse_compare_op ?q1 = (None, ?q1)"
    using r1 by (rule compare_op_none) (simp add: ident_eval)
  have kw: "try_consume ''in'' ?q1 = (True, adv 2 ?q1)"
    using r1 space_not_continue by (subst try_consume_token [OF r1]) (simp_all add: token_char_def)
  have "rest (adv 2 ?q1) = '' ['' @ print_values vs @ CHR '']'' # r" using at by simp
  then have "parse_value_list (adv 2 ?q1) = Ok (vs, adv (length (print_values vs) + 3) (adv 2 ?q1))"
    using wf(2,3) by (rule parse_value_list_print)
  then show ?thesis
    using field op kw by (simp add: parse_predicate_def token_char_def numeral_eq_Suc)
qed

lemma parse_string_print_space:
  assumes "rest p = CHR '' '' # CHR 0x22 # s @ CHR 0x22 # r" and "wf_text s"
  shows "parse_string_literal p = Ok (s, adv (length s + 3) p)"
proof -
  have "skip_whitespace p = adv 1 p" "skip_whitespace (adv 1 p) = adv 1 p"
    using assms by (simp_all add: skip_space skip_token token_char_def)
  then have "parse_string_literal p = parse_string_literal (adv 1 p)"
    by (simp add: parse_string_literal_def)
  also have "\<dots> = Ok (s, adv (length s + 2) (adv 1 p))"
    using assms by (intro parse_string_print [where r = r]) simp_all
  finally show ?thesis by (simp add: numeral_eq_Suc)
qed

lemma parse_predicate_contains:
  assumes "rest p = sp @ print_predicate (Contains f s) @ r" and "sp = [] \<or> sp = '' ''"
    and "wf_predicate (Contains f s)"
  shows "parse_predicate p =
    Ok (Contains f s, adv (length sp + length (print_predicate (Contains f s))) p)"
proof -
  let ?q1 = "adv (length (as_dotted f) + 1) (adv (length sp) p)"
  let ?t = "CHR '' '' # CHR 0x22 # s @ CHR 0x22 # r"
  have at: "rest p = sp @ as_dotted f @ CHR '' '' # CHR ''c'' # ''ontains'' @ ?t"
    using assms(1) by simp
  have wf: "wf_field f" "wf_text s" using assms(3) by simp_all
  note field = predicate_field [OF at assms(2) wf(1)]
  have r1: "rest ?q1 = CHR ''c'' # ''ontains'' @ ?t" using at by simp
  have op: "try_parse_compare_op ?q1 = (None, ?q1)"
    using r1 by (rule compare_op_none) (simp add: ident_eval)
  have kw: "try_consume ''in'' ?q1 = (False, ?q1)" "try_consume ''contains'' ?q1 = (True, adv 8 ?q1)"
    using space_not_continue by (subst try_consume_token [OF r1]; simp add: token_char_def)+
  have "rest (adv 8 ?q1) = ?t" using at by simp
  then have "parse_string_literal (adv 8 ?q1) = Ok (s, adv (length s + 3) (adv 8 ?q1))"
    using wf(2) by (rule parse_string_print_space)
  then show ?thesis
    using field op kw by (simp add: parse_predicate_def token_char_def numeral_eq_Suc)
qed

lemma parse_predicate_exists:
  assumes "rest p = sp @ print_predicate (Exists f) @ r" and "sp = [] \<or> sp = '' ''"
    and "wf_predicate (Exists f)" and "delimited r"
  shows "parse_predicate p = Ok (Exists f, adv (length sp + length (print_predicate (Exists f))) p)"
proof -
  let ?q1 = "adv (length (as_dotted f) + 1) (adv (length sp) p)"
  have at: "rest p = sp @ as_dotted f @ CHR '' '' # CHR ''e'' # ''xists'' @ r"
    using assms(1) by simp
  note field = predicate_field [OF at assms(2)]
  have r1: "rest ?q1 = CHR ''e'' # ''xists'' @ r" using at by simp
  have op: "try_parse_compare_op ?q1 = (None, ?q1)"
    using r1 by (rule compare_op_none) (simp add: ident_eval)
  have "\<not> (case r of [] \<Rightarrow> False | c # _ \<Rightarrow> is_ident_continue c)"
    using delimited_stops [OF assms(4)] by (cases r) auto
  then have kw: "try_consume ''in'' ?q1 = (False, ?q1)" "try_consume ''contains'' ?q1 = (False, ?q1)"
      "try_consume ''exists'' ?q1 = (True, adv 6 ?q1)"
    by (subst try_consume_token [OF r1]; simp add: token_char_def)+
  then show ?thesis
    using field op assms(3) by (simp add: parse_predicate_def token_char_def numeral_eq_Suc)
qed

lemma parse_predicate_print:
  assumes "rest p = sp @ print_predicate x @ r" and "sp = [] \<or> sp = '' ''"
    and "wf_predicate x" and "delimited r"
  shows "parse_predicate p = Ok (x, adv (length sp + length (print_predicate x)) p)"
  using assms parse_predicate_compare parse_predicate_in parse_predicate_contains
    parse_predicate_exists
  by (cases x) blast+

fun print_more :: "predicate list \<Rightarrow> string" where
  "print_more [] = ''''"
| "print_more (x # xs) = '' and '' @ print_predicate x @ print_more xs"

lemma print_predicates_more: "print_predicates (x # xs) = print_predicate x @ print_more xs"
  by (induction xs arbitrary: x) simp_all

lemma delimited_more: "delimited (print_more xs)"
  by (cases xs) simp_all

lemma rest_Nil: "rest p = [] \<Longrightarrow> length (source p) \<le> pos p"
  by (simp add: rest_def del: drop_source_0)

lemma condition_loop_print:
  assumes "rest p = print_more xs" and "list_all wf_predicate xs"
  shows "condition_loop acc p = Ok (Condition (acc @ xs), adv (length (print_more xs)) p)"
  using assms
proof (induction xs arbitrary: acc p)
  case Nil
  then have "at_eof p = (True, p)" by (simp add: at_eof_def skip_Nil rest_Nil)
  then show ?case by (subst condition_loop.simps) simp
next
  case (Cons x xs)
  let ?p1 = "adv 1 p" and ?p3 = "adv 4 p"
  let ?t = "'' '' @ print_predicate x @ print_more xs"
  have at: "rest p = CHR '' '' # CHR ''a'' # ''nd'' @ ?t" using Cons.prems(1) by simp
  have r1: "rest ?p1 = CHR ''a'' # ''nd'' @ ?t" using at by simp
  then have skips: "skip_whitespace p = ?p1" "skip_whitespace ?p1 = ?p1"
    using at by (simp_all add: skip_space skip_token token_char_def)
  have "pos ?p1 < length (source ?p1)" using r1 rest_nonempty_pos [of ?p1] by simp
  then have eof: "at_eof p = (False, ?p1)" using skips by (simp add: at_eof_def)
  have rej: "reject_disallowed_conjunctions ?p1 = Ok ?p1"
    using r1 skips
    by (simp add: reject_disallowed_conjunctions_def Let_def word_here_def split: prod.splits)
  have kw: "try_consume ''and'' ?p1 = (True, ?p3)"
    using space_not_continue
    by (subst try_consume_token [OF r1]; simp add: token_char_def numeral_eq_Suc)
  have "rest ?p3 = ?t" using at by simp
  then have pred: "parse_predicate ?p3 = Ok (x, adv (1 + length (print_predicate x)) ?p3)"
    using parse_predicate_print [of ?p3 "'' ''" x "print_more xs"] Cons.prems(2) delimited_more
    by simp
  let ?p4 = "adv (1 + length (print_predicate x)) ?p3"
  have r4: "rest ?p4 = print_more xs" using at by (simp add: numeral_eq_Suc)
  have "condition_loop (acc @ [x]) ?p4 =
      Ok (Condition ((acc @ [x]) @ xs), adv (length (print_more xs)) ?p4)"
    using r4 Cons.prems(2) by (intro Cons.IH) simp_all
  then show ?case
    using eof rej kw pred by (subst condition_loop.simps) (simp add: numeral_eq_Suc)
qed

lemma parse_print:
  assumes "wf_condition c"
  shows "parse (print_condition c) = Ok c"
proof -
  obtain x xs where c: "predicates c = x # xs" and wf: "wf_predicate x" "list_all wf_predicate xs"
    using assms by (cases "predicates c") (auto simp: wf_condition_def)
  let ?p = "parser_new (print_condition c)"
  have at: "rest ?p = print_predicate x @ print_more xs"
    by (simp add: parser_new_def rest_def print_condition_def c print_predicates_more
        del: print_predicates.simps)
  let ?p1 = "adv (length (print_predicate x)) ?p"
  have "parse_predicate ?p = Ok (x, ?p1)"
    using parse_predicate_print [of ?p "[]" x "print_more xs"] at wf(1) delimited_more by simp
  moreover have loop: "condition_loop [x] ?p1 = Ok (Condition ([x] @ xs), adv (length (print_more xs)) ?p1)"
    using at wf(2) by (intro condition_loop_print) simp_all
  moreover have "expect_eof (adv (length (print_more xs)) ?p1) = Ok (adv (length (print_more xs)) ?p1)"
  proof -
    have "rest (adv (length (print_more xs)) ?p1) = []" using at by simp
    then show ?thesis using rest_Nil [of "adv (length (print_more xs)) ?p1"]
      by (simp add: expect_eof_def at_eof_def skip_Nil)
  qed
  moreover have "c = Condition (x # xs)" using c by (cases c) simp
  ultimately show ?thesis by (simp add: parse_def parse_condition_def)
qed

section \<open>The parser returns only well-formed conditions\<close>

lemma parse_identifier_sound: "parse_identifier p = Ok (s, q) \<Longrightarrow> ident s"
proof -
  assume "parse_identifier p = Ok (s, q)"
  then obtain c cs where c: "rest (skip_whitespace p) = c # cs" "is_ident_start c"
    and s: "s = take (1 + length (takeWhile is_ident_continue cs)) (rest (skip_whitespace p))"
    by (auto simp: parse_identifier_def Let_def rest_def simp del: drop_source_0
        split: list.splits if_splits)
  then have "s = c # takeWhile is_ident_continue cs"
    using takeWhile_eq_take [of is_ident_continue cs] by simp
  then show ?thesis using c set_takeWhileD by (fastforce simp: ident_def list_all_iff)
qed

lemma join_dots_snoc: "join_dots (xs @ [y]) = join_dots xs @ ''.'' @ y"
  by (induction xs) simp_all

lemma valid_path_snoc: "valid_path s \<Longrightarrow> ident y \<Longrightarrow> valid_path (s @ ''.'' @ y)"
proof -
  assume "valid_path s" and y: "ident y"
  then obtain x xs where "s = x @ join_dots xs" "ident x" "list_all ident xs"
    unfolding valid_path_def by blast
  then have "s @ ''.'' @ y = x @ join_dots (xs @ [y]) \<and> ident x \<and> list_all ident (xs @ [y])"
    using y by (simp add: join_dots_snoc)
  then show ?thesis unfolding valid_path_def by blast
qed

lemma path_loop_sound: "path_loop s p = Ok (r, q) \<Longrightarrow> valid_path s \<Longrightarrow> valid_path r"
proof (induction s p rule: path_loop.induct)
  case (1 s p)
  let ?p1 = "skip_whitespace p"
  show ?case
  proof (cases "prefix ''.'' (rest ?p1) \<and>
      (case drop (pos ?p1 + 1) (source ?p1) of [] \<Rightarrow> False | c # _ \<Rightarrow> is_ident_start c)")
    case True
    then obtain seg p2 where seg: "parse_identifier (?p1\<lparr>pos := pos ?p1 + 1\<rparr>) = Ok (seg, p2)"
      and more: "path_loop (s @ ''.'' @ seg) p2 = Ok (r, q)"
      using 1(2) by (subst (asm) path_loop.simps) (auto simp: Let_def split: sum.splits)
    have "valid_path (s @ ''.'' @ seg)"
      using 1(3) parse_identifier_sound [OF seg] by (rule valid_path_snoc)
    then show ?thesis using 1(1) [OF refl _ _ seg refl more] True by simp
  next
    case False
    then have "path_loop s p = Ok (s, p)" by (subst path_loop.simps) (auto simp: Let_def)
    then show ?thesis using 1(2,3) by simp
  qed
qed

lemma resolve_field_wf:
  assumes "resolve_field ns s = Some f" and "valid_path s"
  shows "wf_field f"
proof (cases "\<exists>sub. f = TargetAdapterDeclared sub")
  case True
  then show ?thesis using resolve_field_sound [OF assms(1)] assms(2) by auto
next
  case False
  then show ?thesis by (cases f) auto
qed

lemma ident_valid_path: "ident s \<Longrightarrow> valid_path s"
proof -
  assume "ident s"
  then have "s = s @ join_dots [] \<and> ident s \<and> list_all ident []" by simp
  then show ?thesis unfolding valid_path_def by blast
qed

lemma parse_field_path_sound: "parse_field_path n p = Ok (f, q) \<Longrightarrow> wf_field f"
  by (auto simp: parse_field_path_def
      split: prod.splits sum.splits option.splits bool.splits
      dest!: parse_identifier_sound path_loop_sound
      intro: resolve_field_wf ident_valid_path)

lemma parse_string_literal_sound: "parse_string_literal p = Ok (s, q) \<Longrightarrow> wf_text s"
proof -
  assume "parse_string_literal p = Ok (s, q)"
  then obtain p1 n where "scan_string 0 (rest p1) = Some n" and s: "s = take n (rest p1)"
    by (auto simp: parse_string_literal_def Let_def split: prod.splits bool.splits option.splits)
  from scan_string_prefix [OF this(1)] show ?thesis using s by (auto simp: wf_text_def)
qed

lemma parse_number_literal_sound: "parse_number_literal p = Ok (v, q) \<Longrightarrow> wf_value v"
  by (auto simp: parse_number_literal_def parse_i64_def Let_def
      split: prod.splits option.splits if_splits)

lemma parse_value_sound: "parse_value p = Ok (v, q) \<Longrightarrow> wf_value v"
  by (auto simp: parse_value_def Let_def split: list.splits if_splits sum.splits
      dest: parse_string_literal_sound parse_number_literal_sound parse_identifier_sound)

lemma value_list_loop_sound:
  "value_list_loop vs p = Ok (r, q) \<Longrightarrow> list_all wf_value vs \<Longrightarrow> r \<noteq> [] \<and> list_all wf_value r"
proof (induction vs p rule: value_list_loop.induct)
  case (1 vs p)
  from 1(2) obtain v p1 where v: "parse_value p = Ok (v, p1)"
    by (subst (asm) value_list_loop.simps) (auto split: sum.splits)
  then have wf: "list_all wf_value (vs @ [v])" using 1(3) parse_value_sound by simp
  obtain b p2 where comma: "try_consume_char (CHR '','') (skip_whitespace p1) = (b, p2)" by fastforce
  show ?case
  proof (cases b)
    case True
    then have "value_list_loop (vs @ [v]) p2 = Ok (r, q)"
      using 1(2) v comma by (subst (asm) value_list_loop.simps) simp
    then show ?thesis using 1(1) [OF v refl] comma True wf by simp
  next
    case False
    then have "r = vs @ [v]"
      using 1(2) v comma
      by (subst (asm) value_list_loop.simps) (auto split: prod.splits bool.splits)
    then show ?thesis using wf by simp
  qed
qed

lemma parse_value_list_sound:
  "parse_value_list p = Ok (vs, q) \<Longrightarrow> vs \<noteq> [] \<and> list_all wf_value vs"
  by (auto simp: parse_value_list_def split: prod.splits bool.splits dest: value_list_loop_sound)

lemma parse_predicate_sound: "parse_predicate p = Ok (x, q) \<Longrightarrow> wf_predicate x"
  by (auto simp: parse_predicate_def
      split: prod.splits bool.splits sum.splits option.splits if_splits
      dest: parse_field_path_sound parse_value_sound parse_value_list_sound
        parse_string_literal_sound)

lemma condition_loop_sound:
  "condition_loop xs p = Ok (c, q) \<Longrightarrow> list_all wf_predicate xs \<Longrightarrow> xs \<noteq> [] \<Longrightarrow> wf_condition c"
proof (induction xs p rule: condition_loop.induct)
  case (1 xs p)
  obtain b p1 where eof: "at_eof p = (b, p1)" by fastforce
  show ?case
  proof (cases b)
    case True
    then have "c = Condition xs" using 1(2) eof by (subst (asm) condition_loop.simps) simp
    then show ?thesis using 1(3,4) by (simp add: wf_condition_def)
  next
    case False
    then obtain p2 p3 x p4 where steps: "reject_disallowed_conjunctions p1 = Ok p2"
        "try_consume ''and'' p2 = (True, p3)" "parse_predicate p3 = Ok (x, p4)"
        "condition_loop (xs @ [x]) p4 = Ok (c, q)"
      using 1(2) eof by (subst (asm) condition_loop.simps)
        (auto split: prod.splits sum.splits bool.splits)
    have "wf_predicate x" using steps(3) by (rule parse_predicate_sound)
    then show ?thesis
      using 1(1) [OF eof [symmetric] _ steps(1) steps(2) [symmetric] _ steps(3) refl steps(4)] False 1(3)
      by simp
  qed
qed

lemma parse_sound: "parse s = Ok c \<Longrightarrow> wf_condition c"
  by (auto simp: parse_def parse_condition_def split: sum.splits prod.splits
      dest!: condition_loop_sound parse_predicate_sound)

section \<open>Properties\<close>

text \<open>
  C15: the text language and the syntax trees of conditions correspond exactly. A condition
  comes out of the parser for some text if and only if it is well formed (at least one
  predicate, every field in the vocabulary, no empty \<open>in\<close> list, 64-bit integers, closed string
  literals, no timestamp literal), and then the parser returns exactly it on its canonical text.
  That timestamp literals are not accepted is what the code does and not what it says: they are in
  the documented grammar and in the parser's own error text (\<open>timestamps_do_not_parse\<close>).
\<close>

theorem parse_exactly_wf_conditions:
  "((\<exists>s. parse s = Ok c) \<longleftrightarrow> wf_condition c) \<and>
   (wf_condition c \<longleftrightarrow> parse (print_condition c) = Ok c)"
  using parse_print parse_sound by blast

section \<open>Departures\<close>

text \<open>
  The documented grammar lists a timestamp literal among the values. No text parses to a condition with
  one, and a condition on a time stamp is refused, the parser having read its year as a number.
\<close>

lemma timestamps_do_not_parse:
  "parse_value p = Ok (v, q) \<Longrightarrow> v \<noteq> VTimestamp t"
  "parse s = Ok (Condition [Compare f op v]) \<Longrightarrow> v \<noteq> VTimestamp t"
  "isl (parse ''object.created_by >= 2024-01-01T00:00:00Z'')"
proof -
  show "v \<noteq> VTimestamp t" if "parse_value p = Ok (v, q)" using parse_value_sound [OF that] by auto
  show "v \<noteq> VTimestamp t" if "parse s = Ok (Condition [Compare f op v])"
    using parse_sound [OF that] by (auto simp: wf_condition_def)
  show "isl (parse ''object.created_by >= 2024-01-01T00:00:00Z'')" by code_simp
qed

end
