(* ===== verification/Policy_Condition_Eval.thy ===== *)
theory Policy_Condition_Eval
  imports Policy_Conditions
begin

text \<open>
  The evaluator of policy conditions, \<open>conditions_eval.rs\<close>: a field is looked up in the
  context, every predicate gives a boolean or a typed error, and the conjunction stops at the
  first predicate that is false or fails.
\<close>

section \<open>Context and field values\<close>

record clock_snapshot =
  clk_recovery_mode :: bool
  weekday :: u8
  hour_utc :: u8

record eval_context =
  ec_subject :: hydrated_subject
  envelope :: action_envelope
  ec_enrichment :: enrichment_snapshot
  now_clock :: clock_snapshot

datatype condition_eval_error =
    TypeMismatch string string string string
  | UnsupportedOperator string string
  | HeterogeneousValueList string

datatype field_value =
    FStr string | FStrList "string list" | FBool bool | FInt int | FAbsent

fun type_name :: "field_value \<Rightarrow> string" where
  "type_name (FStr _) = ''string''"
| "type_name (FStrList _) = ''string-list''"
| "type_name (FBool _) = ''bool''"
| "type_name (FInt _) = ''int''"
| "type_name FAbsent = ''absent''"

fun subject_type_token :: "subject_type \<Rightarrow> string" where
  "subject_type_token Human = ''human''"
| "subject_type_token Agent = ''agent''"
| "subject_type_token Application = ''application''"
| "subject_type_token Service = ''service''"
| "subject_type_token Device = ''device''"
| "subject_type_token Workflow = ''workflow''"
| "subject_type_token RemoteOperator = ''remote_operator''"

fun dry_run_token :: "dry_run_mode \<Rightarrow> string" where
  "dry_run_token Live = ''LIVE''"
| "dry_run_token Validate = ''VALIDATE''"
| "dry_run_token Simulate = ''SIMULATE''"

fun target_key :: "closed_field \<Rightarrow> string option" where
  "target_key TargetScope = Some ''scope''"
| "target_key TargetGroupId = Some ''group_id''"
| "target_key TargetUserId = Some ''user_id''"
| "target_key TargetReservedName = Some ''reserved_name''"
| "target_key TargetIsConstitutionalSubstrate = Some ''is_constitutional_substrate''"
| "target_key TargetSurfaceKind = Some ''surface_kind''"
| "target_key TargetCompositionZone = Some ''composition_zone''"
| "target_key TargetGpuCapabilityClass = Some ''gpu_capability_class''"
| "target_key TargetGpuDeviceKind = Some ''gpu_device_kind''"
| "target_key TargetThemeKind = Some ''theme_kind''"
| "target_key TargetThemeId = Some ''theme_id''"
| "target_key TargetExposureClass = Some ''exposure_class''"
| "target_key TargetDeviceClass = Some ''device_class''"
| "target_key TargetDeviceTrustClass = Some ''device_trust_class''"
| "target_key TargetRemovable = Some ''removable''"
| "target_key TargetDriverProvenance = Some ''driver_provenance''"
| "target_key TargetFirmwareTrusted = Some ''firmware_trusted''"
| "target_key (TargetAdapterDeclared sub) = Some sub"
| "target_key _ = None"

text \<open>The loop over an array target: every item must be a string.\<close>

fun string_items :: "json list \<Rightarrow> string list option" where
  "string_items [] = Some []"
| "string_items (JString s # items) = map_option (\<lambda>ss. s # ss) (string_items items)"
| "string_items (_ # items) = None"

definition resolve_target_from_request :: "closed_field \<Rightarrow> json \<Rightarrow> field_value" where
  "resolve_target_from_request f tgt =
     (case target_key f of
        None \<Rightarrow> FAbsent
      | Some key \<Rightarrow>
          (case json_get tgt key of
             Some (JString s) \<Rightarrow> FStr s
           | Some (JBool b) \<Rightarrow> FBool b
           | Some (JNumber n) \<Rightarrow> (case json_as_i64 n of None \<Rightarrow> FAbsent | Some i \<Rightarrow> FInt i)
           | Some (JArray items) \<Rightarrow>
               (case string_items items of None \<Rightarrow> FAbsent | Some ss \<Rightarrow> FStrList ss)
           | _ \<Rightarrow> FAbsent))"

fun resolve_field_value :: "closed_field \<Rightarrow> eval_context \<Rightarrow> field_value" where
  "resolve_field_value SubjectCanonicalSubjectId ctx = FStr (canonical_subject_id (ec_subject ctx))"
| "resolve_field_value SubjectSubjectType ctx =
     FStr (subject_type_token (subject_type (ec_subject ctx)))"
| "resolve_field_value SubjectGroups ctx = FStrList (groups (ec_subject ctx))"
| "resolve_field_value SubjectCapabilities ctx = FStrList (capabilities (ec_subject ctx))"
| "resolve_field_value SubjectSessionClass ctx = FStr (session_class (ec_subject ctx))"
| "resolve_field_value SubjectRecoveryMode ctx = FBool (recovery_mode (ec_subject ctx))"
| "resolve_field_value SubjectIsAi ctx = FBool (is_ai (ec_subject ctx))"
| "resolve_field_value RequestAction ctx = FStr (action (env_request (envelope ctx)))"
| "resolve_field_value RequestDryRun ctx =
     FStr (dry_run_token (dry_run (env_request (envelope ctx))))"
| "resolve_field_value TimeRecoveryMode ctx = FBool (clk_recovery_mode (now_clock ctx))"
| "resolve_field_value TimeWeekday ctx = FInt (uint (weekday (now_clock ctx)))"
| "resolve_field_value TimeHourUtc ctx = FInt (uint (hour_utc (now_clock ctx)))"
| "resolve_field_value f ctx =
     (if field_namespace f = NsTarget
      then resolve_target_from_request f (target (env_request (envelope ctx)))
      else FAbsent)"

section \<open>Predicates\<close>

fun compare_ord :: "int \<Rightarrow> int \<Rightarrow> compare_op \<Rightarrow> bool" where
  "compare_ord a b Eq = (a = b)"
| "compare_ord a b Neq = (a \<noteq> b)"
| "compare_ord a b Lt = (a < b)"
| "compare_ord a b Lte = (a \<le> b)"
| "compare_ord a b Gt = (b < a)"
| "compare_ord a b Gte = (b \<le> a)"

text \<open>The comparison of two strings, bytewise and lexicographic as \<open>str\<close> is in Rust.\<close>

fun compare_str :: "string \<Rightarrow> string \<Rightarrow> compare_op \<Rightarrow> bool" where
  "compare_str a b Eq = (a = b)"
| "compare_str a b Neq = (a \<noteq> b)"
| "compare_str a b Lt = (a < b)"
| "compare_str a b Lte = (a \<le> b)"
| "compare_str a b Gt = (b < a)"
| "compare_str a b Gte = (b \<le> a)"

definition type_mismatch :: "closed_field \<Rightarrow> string \<Rightarrow> string \<Rightarrow> string \<Rightarrow> condition_eval_error" where
  "type_mismatch f op expected actual = TypeMismatch (as_dotted f) op expected actual"

definition eval_compare ::
    "closed_field \<Rightarrow> compare_op \<Rightarrow> cvalue \<Rightarrow> eval_context \<Rightarrow> (condition_eval_error, bool) result" where
  "eval_compare f op rhs ctx =
     (let actual = resolve_field_value f ctx in
      case (actual, rhs) of
        (FBool a, VBool b) \<Rightarrow>
          (case op of
             Eq \<Rightarrow> Ok (a = b)
           | Neq \<Rightarrow> Ok (a \<noteq> b)
           | _ \<Rightarrow> Err (UnsupportedOperator (as_dotted f) (compare_op_str op)))
      | (FInt a, VInt b) \<Rightarrow> Ok (compare_ord a b op)
      | (FStr a, VString b) \<Rightarrow> Ok (compare_str a b op)
      | (FStr a, VIdentifier b) \<Rightarrow> Ok (compare_str a b op)
      | (FStr a, VTimestamp b) \<Rightarrow>
          (case op of
             Eq \<Rightarrow> Ok (a = b)
           | Neq \<Rightarrow> Ok (a \<noteq> b)
           | _ \<Rightarrow> Err (type_mismatch f (compare_op_str op) ''string'' (value_type_name rhs)))
      | (FAbsent, _) \<Rightarrow> Ok False
      | _ \<Rightarrow> Err (type_mismatch f (compare_op_str op) (type_name actual) (value_type_name rhs)))"

text \<open>\<open>std::mem::discriminant\<close> on values is equality of their constructors.\<close>

fun same_discriminant :: "cvalue \<Rightarrow> cvalue \<Rightarrow> bool" where
  "same_discriminant (VString _) (VString _) = True"
| "same_discriminant (VIdentifier _) (VIdentifier _) = True"
| "same_discriminant (VInt _) (VInt _) = True"
| "same_discriminant (VBool _) (VBool _) = True"
| "same_discriminant (VTimestamp _) (VTimestamp _) = True"
| "same_discriminant _ _ = False"

fun is_bool_value :: "bool \<Rightarrow> cvalue \<Rightarrow> bool" where
  "is_bool_value a (VBool b) = (b = a)"
| "is_bool_value a _ = False"

fun is_int_value :: "int \<Rightarrow> cvalue \<Rightarrow> bool" where
  "is_int_value a (VInt b) = (b = a)"
| "is_int_value a _ = False"

fun value_word :: "cvalue \<Rightarrow> string option" where
  "value_word (VString b) = Some b"
| "value_word (VIdentifier b) = Some b"
| "value_word _ = None"

definition word_value_in :: "string list \<Rightarrow> cvalue \<Rightarrow> bool" where
  "word_value_in list v = (case value_word v of None \<Rightarrow> False | Some b \<Rightarrow> list_ex (\<lambda>item. item = b) list)"

definition eval_in ::
    "closed_field \<Rightarrow> cvalue list \<Rightarrow> eval_context \<Rightarrow> (condition_eval_error, bool) result" where
  "eval_in f vs ctx =
     (case vs of
        first # others \<Rightarrow>
          if list_ex (\<lambda>v. \<not> same_discriminant first v) others
          then Err (HeterogeneousValueList (as_dotted f))
          else
            (let actual = resolve_field_value f ctx in
             case (actual, first) of
               (FAbsent, _) \<Rightarrow> Ok False
             | (FBool a, VBool _) \<Rightarrow> Ok (list_ex (is_bool_value a) vs)
             | (FInt a, VInt _) \<Rightarrow> Ok (list_ex (is_int_value a) vs)
             | (FStr a, VString _) \<Rightarrow> Ok (list_ex (word_value_in [a]) vs)
             | (FStr a, VIdentifier _) \<Rightarrow> Ok (list_ex (word_value_in [a]) vs)
             | (FStrList l, VString _) \<Rightarrow> Ok (list_ex (word_value_in l) vs)
             | (FStrList l, VIdentifier _) \<Rightarrow> Ok (list_ex (word_value_in l) vs)
             | _ \<Rightarrow> Err (type_mismatch f ''in'' (type_name actual) (value_type_name first)))
      | [] \<Rightarrow> Ok False)"

definition eval_contains ::
    "closed_field \<Rightarrow> string \<Rightarrow> eval_context \<Rightarrow> (condition_eval_error, bool) result" where
  "eval_contains f needle ctx =
     (case resolve_field_value f ctx of
        FAbsent \<Rightarrow> Ok False
      | FStr haystack \<Rightarrow> Ok (str_contains haystack needle)
      | FStrList l \<Rightarrow> Ok (list_ex (\<lambda>item. item = needle) l)
      | other \<Rightarrow> Err (type_mismatch f ''contains'' ''string-or-string-list'' (type_name other)))"

definition eval_exists :: "closed_field \<Rightarrow> eval_context \<Rightarrow> bool" where
  "eval_exists f ctx =
     (case resolve_field_value f ctx of
        FAbsent \<Rightarrow> False
      | FStr s \<Rightarrow> s \<noteq> []
      | FStrList l \<Rightarrow> l \<noteq> []
      | FBool _ \<Rightarrow> True
      | FInt _ \<Rightarrow> True)"

fun evaluate_predicate :: "predicate \<Rightarrow> eval_context \<Rightarrow> (condition_eval_error, bool) result" where
  "evaluate_predicate (Compare f op rhs) ctx = eval_compare f op rhs ctx"
| "evaluate_predicate (In f vs) ctx = eval_in f vs ctx"
| "evaluate_predicate (Contains f needle) ctx = eval_contains f needle ctx"
| "evaluate_predicate (Exists f) ctx = Ok (eval_exists f ctx)"

fun evaluate_predicates ::
    "predicate list \<Rightarrow> eval_context \<Rightarrow> (condition_eval_error, bool) result" where
  "evaluate_predicates [] ctx = Ok True"
| "evaluate_predicates (x # xs) ctx =
     (case evaluate_predicate x ctx of
        Inl e \<Rightarrow> Err e
      | Inr b \<Rightarrow> if \<not> b then Ok False else evaluate_predicates xs ctx)"

definition evaluate :: "pcondition \<Rightarrow> eval_context \<Rightarrow> (condition_eval_error, bool) result" where
  "evaluate c ctx = evaluate_predicates (predicates c) ctx"

section \<open>Facts about evaluation\<close>

lemma evaluate_predicates_True_iff:
  "evaluate_predicates xs ctx = Ok True \<longleftrightarrow> (\<forall>x \<in> set xs. evaluate_predicate x ctx = Ok True)"
  by (induction xs) (auto split: sum.splits)

text \<open>The predicate at which the evaluation of a conjunction stops.\<close>

definition stops_at :: "predicate list \<Rightarrow> nat \<Rightarrow> eval_context \<Rightarrow> bool" where
  "stops_at xs i ctx \<longleftrightarrow>
     i < length xs \<and> evaluate_predicate (xs ! i) ctx \<noteq> Ok True \<and>
     (\<forall>j < i. evaluate_predicate (xs ! j) ctx = Ok True)"

lemma stops_at_Cons:
  "stops_at (x # xs) i ctx \<longleftrightarrow>
     (case i of
        0 \<Rightarrow> evaluate_predicate x ctx \<noteq> Ok True
      | Suc j \<Rightarrow> evaluate_predicate x ctx = Ok True \<and> stops_at xs j ctx)"
  by (cases i) (auto simp: stops_at_def less_Suc_eq_0_disj)

lemma evaluate_predicates_stops:
  "stops_at xs i ctx \<Longrightarrow> evaluate_predicates xs ctx = evaluate_predicate (xs ! i) ctx"
proof (induction xs arbitrary: i)
  case (Cons x xs)
  then show ?case by (cases i) (auto simp: stops_at_Cons split: sum.splits)
qed (simp add: stops_at_def)

lemma evaluate_stops_exists:
  "evaluate_predicates xs ctx \<noteq> Ok True \<Longrightarrow> \<exists>i. stops_at xs i ctx"
proof (induction xs)
  case (Cons x xs)
  show ?case
  proof (cases "evaluate_predicate x ctx = Ok True")
    case True
    then obtain i where "stops_at xs i ctx" using Cons by auto
    then have "stops_at (x # xs) (Suc i) ctx" using True by (simp add: stops_at_Cons)
    then show ?thesis by blast
  next
    case False
    then have "stops_at (x # xs) 0 ctx" by (simp add: stops_at_Cons)
    then show ?thesis by blast
  qed
qed simp

fun predicate_field_of :: "predicate \<Rightarrow> closed_field" where
  "predicate_field_of (Compare f _ _) = f"
| "predicate_field_of (In f _) = f"
| "predicate_field_of (Contains f _) = f"
| "predicate_field_of (Exists f) = f"

lemma absent_predicate:
  assumes "resolve_field_value (predicate_field_of x) ctx = FAbsent"
  shows "evaluate_predicate x ctx = Ok False \<or>
    (\<exists>f vs. x = In f vs \<and> evaluate_predicate x ctx = Err (HeterogeneousValueList (as_dotted f)))"
  using assms
  by (cases x) (auto simp: eval_compare_def eval_in_def eval_contains_def eval_exists_def Let_def
      split: list.splits)

lemma eval_in_Ok:
  assumes "eval_in f vs ctx = Ok b"
  shows "vs = [] \<or> (\<exists>v ws. vs = v # ws \<and> list_all (same_discriminant v) ws)"
  using assms by (auto simp: eval_in_def list_ex_iff list_all_iff split: list.splits if_splits)

lemma same_discriminant_sym: "same_discriminant v w = same_discriminant w v"
  by (cases v; cases w) simp_all

lemma eval_in_scalar:
  assumes "eval_in f vs ctx = Ok b" and "\<And>l. resolve_field_value f ctx \<noteq> FStrList l"
  shows "b \<longleftrightarrow> list_ex (\<lambda>v. eval_compare f Eq v ctx = Ok True) vs"
proof (cases vs)
  case (Cons v ws)
  then have same: "list_all (same_discriminant v) ws" using eval_in_Ok [OF assms(1)] by auto
  have eq: "eval_compare f Eq w ctx = Ok True \<longleftrightarrow>
      (case resolve_field_value f ctx of
         FBool a \<Rightarrow> is_bool_value a w
       | FInt a \<Rightarrow> is_int_value a w
       | FStr a \<Rightarrow> word_value_in [a] w
       | _ \<Rightarrow> False)" if "same_discriminant v w" "\<And>t. v \<noteq> VTimestamp t" for w
    using that assms(2)
    by (cases v; cases w; cases "resolve_field_value f ctx")
      (auto simp: eval_compare_def Let_def word_value_in_def)
  have "same_discriminant v w" if "w \<in> set vs" for w
    using that same Cons by (cases "w = v"; cases v) (auto simp: list_all_iff)
  with eq have members: "list_ex (\<lambda>w. eval_compare f Eq w ctx = Ok True) vs \<longleftrightarrow>
      list_ex (\<lambda>w. case resolve_field_value f ctx of
         FBool a \<Rightarrow> is_bool_value a w
       | FInt a \<Rightarrow> is_int_value a w
       | FStr a \<Rightarrow> word_value_in [a] w
       | _ \<Rightarrow> False) vs" if "\<And>t. v \<noteq> VTimestamp t"
    using that by (auto simp: list_ex_iff)
  have absent: "\<not> eval_compare f Eq w ctx = Ok True" if "resolve_field_value f ctx = FAbsent" for w
    using that by (simp add: eval_compare_def)
  show ?thesis
  proof (cases "resolve_field_value f ctx")
    case FAbsent
    then show ?thesis
      using assms(1) Cons absent by (auto simp: eval_in_def list_ex_iff split: if_splits)
  qed (use assms Cons members in \<open>cases v; auto simp: eval_in_def Let_def split: if_splits\<close>)+
qed (use assms in \<open>simp add: eval_in_def\<close>)

section \<open>Properties\<close>

text \<open>A context for the instances below: an agent asks for a recursive delete at noon.\<close>

definition ctx_envelope :: action_envelope where
  "ctx_envelope =
     envelope_new (identity_new ''agent:a1'' True)
       (request_new ''fs.delete'' (JObject [(''scope'', JString ''system'')]))
       \<lparr>trace_id = ''t'', span_id = ''s'', parent_span_id = None\<rparr> 0"

definition sample_context :: eval_context where
  "sample_context =
     \<lparr>ec_subject = sample_subject, envelope = ctx_envelope,
      ec_enrichment = \<lparr>snapshot_id = ''polb_snap_0'', object = object_enrichment_default,
                        adapter = adapter_enrichment_default\<rparr>,
      now_clock = \<lparr>clk_recovery_mode = False, weekday = 2, hour_utc = 12\<rparr>\<rparr>"

lemmas sample_defs = sample_subject_def ctx_envelope_def sample_context_def envelope_new_def
  identity_new_def request_new_def pending_def object_enrichment_default_def
  adapter_enrichment_default_def

text \<open>
  A condition is a short-circuit conjunction. Either every predicate holds and the
  condition is true, or there is a first predicate that does not hold, and the condition's
  result, false or an error, is the result of exactly that predicate.
\<close>

theorem evaluate_conjunction:
  "(evaluate c ctx = Ok True \<and>
      list_all (\<lambda>x. evaluate_predicate x ctx = Ok True) (predicates c)) \<or>
   (\<exists>i. stops_at (predicates c) i ctx \<and> evaluate c ctx \<noteq> Ok True \<and>
      evaluate c ctx = evaluate_predicate (predicates c ! i) ctx)"
proof (cases "evaluate c ctx = Ok True")
  case True
  then show ?thesis by (simp add: evaluate_def evaluate_predicates_True_iff list_all_iff)
next
  case False
  then obtain i where "stops_at (predicates c) i ctx"
    using evaluate_stops_exists by (auto simp: evaluate_def)
  then show ?thesis using False evaluate_predicates_stops by (auto simp: evaluate_def)
qed

text \<open>
  Conditions fail closed. A condition with a predicate on a field that the context does
  not supply is never true, whatever its other predicates say.
\<close>

theorem absent_field_fails_closed:
  assumes "x \<in> set (predicates c)"
    and "resolve_field_value (predicate_field_of x) ctx = FAbsent"
  shows "evaluate c ctx \<noteq> Ok True"
proof -
  have "evaluate_predicate x ctx \<noteq> Ok True" using absent_predicate [OF assms(2)] by auto
  then show ?thesis using assms(1) by (auto simp: evaluate_def evaluate_predicates_True_iff)
qed

theorem absent_field_fails_closed_witness:
  "evaluate (Condition [Exists SubjectGroups, Exists SystemHostId]) sample_context \<noteq> Ok True"
  by (rule absent_field_fails_closed [where x = "Exists SystemHostId"]) simp_all

text \<open>
  On a field that holds one value, \<open>in\<close> is the disjunction of equalities: whenever the
  list test returns a verdict, that verdict says whether some listed value equals the field.
\<close>

theorem in_is_disjunction_of_equalities:
  assumes "eval_in f vs ctx = Ok b" and "\<And>l. resolve_field_value f ctx \<noteq> FStrList l"
  shows "b \<longleftrightarrow> list_ex (\<lambda>v. eval_compare f Eq v ctx = Ok True) vs"
  using assms by (rule eval_in_scalar)

theorem in_is_disjunction_of_equalities_witness:
  "True \<longleftrightarrow> list_ex (\<lambda>v. eval_compare TargetScope Eq v sample_context = Ok True)
     [VString ''user'', VString ''system'']"
  by (rule in_is_disjunction_of_equalities)
    (simp_all add: eval_in_def word_value_in_def resolve_target_from_request_def json_get_def
      sample_defs)

end
