(* ===== verification/Evidence_Records.thy ===== *)
theory Evidence_Records
  imports Action_Ids
begin

text \<open>
  The record taxonomy of the evidence log, \<open>record.rs\<close> of crate \<open>aios-evidence\<close>, and the
  record categories of \<open>redaction.rs\<close>. The enum \<open>RecordType\<close> has 428 variants without
  payload, in one-to-one correspondence with their wire names, so a variant is represented
  by its wire name; the enum itself is the table of the names in the order of declaration,
  with the retention class of each.
\<close>

section \<open>Retention classes\<close>

datatype retention_class = Standard24M | Extended60M | Forever

fun retention_wire_str :: "retention_class \<Rightarrow> string" where
  "retention_wire_str Standard24M = ''STANDARD_24M''"
| "retention_wire_str Extended60M = ''EXTENDED_60M''"
| "retention_wire_str Forever = ''FOREVER''"

section \<open>Record types\<close>

datatype record_type = RecordType (as_wire_str: string)

definition record_names_1 :: "string list" where
  "record_names_1 = [
    ''ACTION_RECEIVED'', ''TRANSLATION_CREATED'', ''ROUTING_DECISION'', ''POLICY_DECISION'',
    ''APPROVAL_REQUESTED'', ''APPROVAL_GRANTED'', ''APPROVAL_DENIED'', ''EXECUTION_STARTED'',
    ''EXECUTION_COMPLETED'', ''VERIFICATION_RESULT'', ''ROLLBACK_COMPLETED'',
    ''RECOVERY_EVENT'', ''MODEL_CALL'', ''CHAIN_CHECKPOINT'', ''GC_PASS'',
    ''QUARANTINE_EVENT'', ''CONFLICT_EVENT'', ''EMERGENCY_OVERRIDE_GRANT'',
    ''POLICY_BUNDLE_LOAD'', ''SEGMENT_SEALED'', ''CHAIN_INCONSISTENCY_DETECTED'',
    ''TAMPER_DETECTED'', ''SYSTEM_ADMIN_OPERATION'', ''CROSS_GROUP_ACCESS_DENIED'',
    ''SURFACE_CREATED'', ''SURFACE_DESTROYED'', ''SURFACE_GPU_BUDGET_EXCEEDED'',
    ''CROSS_SURFACE_READ_DENIED'', ''CROSS_ZONE_VIOLATION_ATTEMPTED'',
    ''RECOVERY_KIND_REJECTED'', ''SURFACE_NEVER_RENDERED'', ''UI_TREE_VALIDATION_REJECTED'',
    ''UI_TRUST_BEARING_AUTHORSHIP_REFUSED'', ''UI_RECOVERY_NODE_DROPPED'', ''THEME_LOADED'',
    ''THEME_REJECTED'', ''THEME_SWITCHED'', ''THEME_INVARIANT_VIOLATED'',
    ''KDE_RENDERER_STARTED'', ''KDE_RENDERER_DEGRADED'', ''KDE_FRAME_DROPPED'',
    ''KDE_LAYER_SHELL_REJECTED'', ''KDE_KWIN_SCRIPT_LOADED'', ''KDE_KWIN_SCRIPT_REJECTED'',
    ''KDE_RECOVERY_SHELL_STARTED'', ''KDE_RECOVERY_KIND_REJECTED_AT_RENDERER'',
    ''KDE_PLASMA_THEME_OVERRIDDEN'', ''KDE_RENDER_FAILED'', ''KDE_TOKEN_FALLBACK_USED'',
    ''WEB_LAN_EXPOSURE_GRANTED'', ''WEB_PUBLIC_EXPOSURE_GRANTED'',
    ''WEB_RECOVERY_KIND_REJECTED'', ''WEB_PUBLIC_EXPOSURE_FIREWALL_RECORDED'',
    ''WEB_RECOVERY_PAGE_LOADED'', ''WEB_RECOVERY_PAGE_EXITED'', ''WEB_RENDERER_STARTED'',
    ''WEB_RENDERER_DEGRADED'', ''WEB_LAN_EXPOSURE_ACTIVE'', ''WEB_EXPOSURE_REVOKED'',
    ''WEB_EXTENSION_INTERFERENCE'', ''WEB_FULLSCREEN_REQUESTED'',
    ''WEB_THEME_INJECTION_BLOCKED'', ''WEB_THEME_FALLBACK_USED'',
    ''WEB_CLIENT_STORAGE_QUOTA_BREACH'', ''WEB_RENDERER_CLS_BREACH'',
    ''WEB_CONSTITUTIONAL_ELEMENT_REREGISTER_BLOCKED'', ''GPU_DEVICE_ENUMERATED'',
    ''GPU_DEVICE_DISCONNECTED'', ''GPU_VK_DEVICE_CREATED'', ''GPU_VK_DEVICE_DESTROYED'',
    ''GPU_DMABUF_GRANTED'', ''GPU_DMABUF_DENIED'', ''GPU_CAPABILITY_DENIED'',
    ''GPU_VALIDATION_DISABLED_RECOVERY'', ''GPU_VALIDATION_ENABLED_NORMAL'',
    ''DRIVER_UNAVAILABLE'', ''GPU_BUDGET_EXCEEDED'', ''GPU_BUDGET_DOWNGRADED'',
    ''IOMMU_UNAVAILABLE_DEGRADED'', ''HOST_CAPABILITY_LIE'', ''GPU_BINDING_FORGERY'',
    ''GPU_DEVICE_FORCE_RECLAIMED'', ''VAULT_CAPABILITY_ISSUED'', ''VAULT_CAPABILITY_ROTATED'',
    ''VAULT_CAPABILITY_REVOKED'', ''VAULT_OPERATION'', ''VAULT_RAW_REVEAL'',
    ''VAULT_CAPABILITY_FORGERY'', ''SUBJECT_KIND_REJECTED_FOR_VAULT'',
    ''VAULT_RECOVERY_SNAPSHOT_LOADED'', ''APPROVAL_DELIVERED'', ''APPROVAL_EXPIRED'',
    ''APPROVAL_CONSUMED'', ''APPROVAL_REVOKED'', ''APPROVAL_DELIVERY_FAILED'',
    ''OVERRIDE_REQUESTED'', ''OVERRIDE_QUORUM_RECEIVED'', ''OVERRIDE_GRANTED'',
    ''OVERRIDE_CONSUMED'', ''OVERRIDE_DENIED'', ''OVERRIDE_EXPIRED'', ''OVERRIDE_REVOKED'',
    ''OVERRIDE_REVIEW'', ''RECOVERY_BOOT_ENTERED'', ''RECOVERY_OPERATOR_AUTHENTICATED'',
    ''RECOVERY_OPERATION_PERFORMED'', ''RECOVERY_TTL_EXPIRED_AUTO_REBOOT'',
    ''RECOVERY_BOOT_EXITED'', ''RECOVERY_L5_START_BLOCKED'', ''RECOVERY_NETWORK_LAN_ENABLED'']"

definition record_names_2 :: "string list" where
  "record_names_2 = [
    ''RECOVERY_NETWORK_LAN_DISABLED'', ''RECOVERY_FORENSIC_ATTACH_PERFORMED'',
    ''BOOT_FAILURE_AUTO_RECOVERY_TRIGGERED'', ''ACTION_VALIDATED'', ''ACTION_POLICY_DECISION'',
    ''ACTION_DISPATCHED'', ''EXECUTION_SUCCEEDED'', ''EXECUTION_FAILED'',
    ''EXECUTION_VERIFICATION_FAILED'', ''ROLLBACK_ATTEMPTED'', ''ROLLBACK_SUCCEEDED'',
    ''ROLLBACK_FAILED_REQUIRES_OPERATOR'', ''ADAPTER_REGISTERED'',
    ''ADAPTER_REGISTRATION_REJECTED'', ''ADAPTER_DEGRADED'', ''ADAPTER_DEREGISTERED'',
    ''IDEMPOTENCY_KEY_REPLAY_DETECTED'', ''BINDING_VOIDED_ACTION_REVISED'',
    ''AI_INTERACTIVE_QUEUE_DOWNGRADE'', ''DRY_RUN_SIMULATION_RECORDED'',
    ''EXPERIMENTAL_ADAPTER_LIVE_DISPATCH'', ''ADAPTER_DEPRECATED_DISPATCH'',
    ''NETWORK_POSTURE_CHANGED'', ''EXPOSURE_REQUESTED'', ''EXPOSURE_GRANTED'',
    ''EXPOSURE_DENIED'', ''EXPOSURE_REVOKED'', ''EXPOSURE_TERMINATED_TTL_EXPIRED'',
    ''PUBLIC_EXPOSURE_HEARTBEAT'', ''OUTBOUND_GRANT_ISSUED'', ''OUTBOUND_GRANT_REVOKED'',
    ''OUTBOUND_OUTSIDE_MANIFEST'', ''OUTBOUND_DEGRADED_TO_LOOPBACK_AUTO'',
    ''ALLOWLIST_FQDN_FANOUT_EXCEEDED'', ''LAN_SUBNET_DRIFT_DETECTED'',
    ''LAN_PEER_DRIFT_DETECTED'', ''AI_DIRECT_INTERNET_DENIED'',
    ''EXTERNAL_MODEL_CALL_BROKERED'', ''BACKEND_DEGRADED_NFTABLES_TO_IPTABLES'',
    ''RAW_SOCKET_BYPASS_ATTEMPTED'', ''PACKAGE_FETCH_STARTED'', ''PACKAGE_VERIFIED'',
    ''PACKAGE_VERIFICATION_FAILED'', ''PACKAGE_APPROVAL_REQUESTED'', ''PACKAGE_INSTALLED'',
    ''PACKAGE_INSTALL_FAILED'', ''PACKAGE_QUARANTINED'', ''PACKAGE_UNINSTALLED'',
    ''PACKAGE_DOWNGRADE_BLOCKED'', ''CAPABILITY_LIE_DETECTED'', ''TRUST_CHAIN_BROKEN'',
    ''TRUST_CHAIN_TOO_DEEP'', ''MANIFEST_FORGED'', ''MIRROR_HASH_MISMATCH_BLACKLISTED'',
    ''PUBLISHER_KEY_ROTATED'', ''PUBLISHER_DEPLATFORMED'',
    ''EXTERNAL_BRIDGE_PACKAGE_ADMITTED'', ''EXTERNAL_BRIDGE_UPSTREAM_SIGNATURE_FAILED'',
    ''AIOS_ROOT_KEY_ROTATED'', ''KERNEL_PIPELINE_STARTED'', ''KERNEL_BUILD_COMPLETED'',
    ''KERNEL_GATE_RESULT'', ''KERNEL_CONVERGED'', ''KERNEL_DIVERGED_REGRESSION'',
    ''KERNEL_PROMOTED_TO_A'', ''KERNEL_PROMOTED_TO_B'', ''KERNEL_ROLLBACK_PERFORMED'',
    ''KERNEL_IMAGE_OBSERVED'', ''KERNEL_IMAGE_DRIFT_DETECTED'', ''KERNEL_REFRESH_SCHEDULED'',
    ''KERNEL_REFRESH_PIPELINE_FAILED'', ''PIPELINE_DEFINITION_REPLACED'',
    ''APP_OBSERVE_STARTED'', ''APP_OBSERVE_COMPLETED'', ''APP_OBSERVE_TIMEOUT'',
    ''APP_TRANSLATE_MANIFEST_PROPOSED'', ''APP_TRANSLATE_MANIFEST_APPROVED'',
    ''APP_TRANSLATE_MANIFEST_REJECTED'', ''APP_RECIPE_CONTRIBUTED'', ''APP_RECIPE_IMPORTED'',
    ''APP_MANIFEST_DELTA_PROPOSED'', ''APP_MANIFEST_DELTA_APPROVED'',
    ''APP_HONESTY_CLASS_VIOLATION'', ''APP_ECOSYSTEM_RUNTIME_BREAKOUT_ATTEMPTED'',
    ''APP_AI_DIRECT_INSTALL_ATTEMPTED_BLOCKED'', ''APP_RECIPE_DECEPTIVE_REJECTED_AT_INGEST'',
    ''FIRST_BOOT_STARTED'', ''FIRST_BOOT_STAGE_COMPLETED'', ''FIRST_BOOT_FAILED'',
    ''VAULT_ROOT_KEY_GENERATED'', ''AI_PROVIDER_MODE_SET'', ''INITIAL_FIREWALL_POSTURE_SET'',
    ''FIRST_GROUP_REGISTERED'', ''FIRST_USER_REGISTERED'', ''RECOVERY_OPERATOR_REGISTERED'',
    ''FIRST_BOOT_COMPLETE'', ''RESET_TO_FACTORY_INITIATED'', ''FAILURE_OBSERVED'',
    ''DEGRADATION_LEVEL_TRANSITIONED'', ''COMPONENT_RESTARTED'',
    ''COMPONENT_RESTART_BUDGET_EXHAUSTED'', ''CIRCUIT_BREAKER_OPENED'',
    ''CIRCUIT_BREAKER_CLOSED'', ''HALTED_PENDING_OPERATOR'', ''TIME_DRIFT_DETECTED'',
    ''BACKEND_VERSION_MISMATCH'', ''RECOVERY_LOOP_DETECTED'', ''RECEIPT_REDACTION_FAILED'',
    ''RECEIPT_INTEGRITY_QUARANTINED'', ''RECEIPT_LINEAGE_CYCLE_DETECTED'']"

definition record_names_3 :: "string list" where
  "record_names_3 = [
    ''RECEIPT_SEQUENCE_OUT_OF_ORDER'', ''UNIT_REGISTERED'', ''UNIT_STARTED'', ''UNIT_HEALTHY'',
    ''UNIT_DEGRADED'', ''UNIT_FAILED'', ''UNIT_STOPPED'', ''UNIT_ROLLBACK_TRIGGERED'',
    ''UNIT_DEPENDENCY_CYCLE_DETECTED'', ''GRAPH_EVALUATED'', ''TRANSITION_QUEUED'',
    ''TRANSITION_STARTED'', ''TRANSITION_SUCCEEDED'', ''TRANSITION_FAILED'',
    ''AB_CANARY_PROMOTED'', ''AB_ROLLBACK_PERFORMED'', ''DEPENDENCY_CYCLE_DETECTED'',
    ''TRANSITION_CONFLICT'', ''RESOURCE_BUDGET_DENIED'', ''GRAPH_BLOCKED_RESOURCE'',
    ''GRAPH_CONVERGED'', ''ADAPTER_REGISTRATION_REQUESTED'', ''ADAPTER_HEALTHY'',
    ''ADAPTER_ACTION_KIND_VIOLATION'', ''ADAPTER_CAPABILITY_VIOLATION'',
    ''ADAPTER_HOT_RELOADED'', ''ADAPTER_DOWNGRADE_REJECTED'', ''MODEL_INVOCATION_STARTED'',
    ''MODEL_INVOCATION_SUCCEEDED'', ''MODEL_INVOCATION_FAILED'', ''MODEL_BACKEND_DEGRADED'',
    ''MODEL_CIRCUIT_OPENED'', ''MODEL_PROMPT_INJECTION_DETECTED'',
    ''MODEL_RESPONSE_SIGNATURE_FAILED'', ''MODEL_VAULT_DENY'', ''MODEL_NETWORK_DENY'',
    ''MODEL_RATE_LIMITED'', ''MODEL_BACKEND_REGISTERED'', ''MODEL_BACKEND_RETIRED'',
    ''AGENT_REGISTERED'', ''AGENT_RETIRED'', ''AGENT_INTERRUPTED_BY_RECOVERY'',
    ''AGENT_PROPOSAL_EMITTED'', ''AGENT_PROPOSAL_APPROVED'', ''AGENT_PROPOSAL_DENIED'',
    ''AGENT_PLAN_BUNDLED_APPROVED'', ''AGENT_PLAN_ABANDONED'', ''AGENT_MEMORY_WRITE'',
    ''AGENT_MEMORY_READ'', ''AGENT_MEMORY_CROSS_USER_DENIED'', ''AGENT_INTER_MESSAGE_SENT'',
    ''AGENT_INTER_MESSAGE_REJECTED'', ''AGENT_SELF_GRADING_BLOCKED'',
    ''AGENT_DIRECT_FS_WRITE_BLOCKED'', ''AGENT_CROSS_GROUP_COORDINATION_BLOCKED'',
    ''AGENT_BACKEND_DEGRADED'', ''AGENT_PROMPT_INJECTION_DETECTED'',
    ''PACKAGE_OBJECT_CREATED'', ''PACKAGE_OBJECT_UPDATED'', ''PACKAGE_OBJECT_ROLLED_BACK'',
    ''PACKAGE_OBJECT_QUARANTINED'', ''PACKAGE_PRIVATE_STATE_INITIALIZED'',
    ''PACKAGE_PRIVATE_STATE_CORRUPT_DETECTED'', ''PACKAGE_VERSION_DOWNGRADE_BLOCKED'',
    ''PACKAGE_OBJECT_RETIRED'', ''PACKAGE_OBJECT_VERIFICATION_FAILED'',
    ''PACKAGE_RECOVERY_RESTORE_PERFORMED'', ''APP_LAUNCH_STARTED'', ''APP_LAUNCH_SUCCEEDED'',
    ''APP_LAUNCH_FAILED'', ''WINE_PREFIX_CREATED'', ''WINE_PREFIX_BREAKOUT_ATTEMPTED'',
    ''WAYDROID_CONTAINER_STARTED'', ''WAYDROID_ESCAPE_ATTEMPTED'', ''KVM_VM_BOOTED'',
    ''KVM_VM_TERMINATED'', ''ORCHESTRATION_KIND_MISMATCH_REJECTED'', ''PROFILE_CONTRIBUTED'',
    ''PROFILE_RATING_AGGREGATED'', ''PROFILE_OUTLIER_DETECTED'',
    ''PROFILE_RECOMMENDATION_SHOWN'', ''PROFILE_IMPORTED_FROM_UPSTREAM'',
    ''PROFILE_REPUTATION_FARM_SUSPECTED'', ''PROFILE_VISIBILITY_DOWNGRADED'',
    ''PROFILE_RETIRED'', ''CLI_RENDER_STARTED'', ''CLI_RENDER_FAILED'',
    ''CLI_NODE_KIND_UNSUPPORTED'', ''CLI_RECOVERY_KIND_REJECTED'',
    ''CLI_AUTO_CONFIRM_REJECTED'', ''CLI_ANSI_INJECTION_BLOCKED'', ''CLI_DEGRADED_NO_TTY'',
    ''CLI_SCRIPTING_MODE_INVOKED'', ''CLI_OPERATOR_AUTHENTICATED'',
    ''CLI_TRUST_INDICATOR_REORDERED'', ''HARDWARE_GRAPH_REBUILT'', ''DEVICE_DETECTED'',
    ''DEVICE_DRIVER_BOUND'', ''DEVICE_DRIVER_REJECTED'', ''DEVICE_QUARANTINED'',
    ''DEVICE_DISCONNECTED'', ''REMOVABLE_DEVICE_REQUEST'', ''REMOVABLE_DEVICE_APPROVED'',
    ''REMOVABLE_DEVICE_DENIED'', ''AI_REMOVABLE_DEVICE_BLOCKED'',
    ''HARDWARE_GRAPH_DRIFT_DETECTED'', ''FIRMWARE_VERSION_DOWNGRADE_BLOCKED'',
    ''IOMMU_DMA_PROTECTION_DEGRADED'', ''OUT_OF_TREE_DRIVER_BLOCKED'', ''DNS_QUERY_PERFORMED'']"

definition record_names_4 :: "string list" where
  "record_names_4 = [
    ''DNS_RESOLVER_REBINDING_DETECTED'', ''DNS_PLAIN_BLOCKED'',
    ''DNS_RESOLVER_SUBSTITUTION_REJECTED'', ''VPN_TUNNEL_ESTABLISHED'', ''VPN_TUNNEL_FAILED'',
    ''VPN_PROVIDER_KEY_ROTATED'', ''VPN_PROVIDER_KEY_FORGERY_REJECTED'',
    ''MDNS_REQUEST_RECEIVED'', ''MDNS_BROADCAST_DENIED'', ''MDNS_POISONING_DETECTED'',
    ''RESOLVER_BACKEND_DEGRADED'', ''FIRMWARE_UPDATE_REQUESTED'',
    ''FIRMWARE_VERIFICATION_PASSED'', ''FIRMWARE_VERIFICATION_FAILED'',
    ''FIRMWARE_DOWNGRADE_BLOCKED'', ''FIRMWARE_UNSIGNED_REJECTED'',
    ''FIRMWARE_VENDOR_DEPLATFORMED'', ''FIRMWARE_APPLIED'', ''FIRMWARE_APPLY_FAILED'',
    ''FIRMWARE_ROLLBACK_PERFORMED'', ''BIOS_UEFI_UPDATE_DEFERRED'',
    ''FIRMWARE_TAMPER_DETECTED'', ''OPERATOR_LOCAL_FIRMWARE_INSTALLED'',
    ''TELEMETRY_PIPELINE_STARTED'', ''TELEMETRY_CARDINALITY_BREACH'',
    ''TELEMETRY_REDACTION_FAILED'', ''TELEMETRY_BACKEND_UNAVAILABLE'',
    ''TELEMETRY_BACKEND_DEGRADED'', ''TELEMETRY_LOG_INJECTION_DETECTED'',
    ''TELEMETRY_RETENTION_TIER_PROMOTED'', ''TELEMETRY_SAMPLING_RATE_ADJUSTED'',
    ''TELEMETRY_EBPF_PROBE_LOADED'', ''TELEMETRY_EBPF_PROBE_REJECTED'',
    ''PUBLISHER_ONBOARDING_APPLICATION_SUBMITTED'', ''PUBLISHER_ONBOARDING_IDENTITY_VERIFIED'',
    ''PUBLISHER_ONBOARDING_APPROVED'', ''PUBLISHER_ONBOARDING_REJECTED'',
    ''PUBLISHER_ONBOARDING_DEPLATFORMED'', ''CAPABILITY_REVIEW_REQUESTED'',
    ''CAPABILITY_REVIEW_APPROVED'', ''CAPABILITY_REVIEW_DECEPTIVE_REJECTED'',
    ''LISTING_PUBLISHED'', ''LISTING_VISIBILITY_DOWNGRADED'', ''LISTING_VS_MANIFEST_MISMATCH'',
    ''MARKETPLACE_REVIEW_BYPASS_ATTEMPTED'', ''BRIDGE_FETCH_STARTED'',
    ''BRIDGE_FETCH_COMPLETED'', ''BRIDGE_UPSTREAM_SIGNATURE_VERIFIED'',
    ''BRIDGE_UPSTREAM_SIGNATURE_FAILED'', ''BRIDGE_REPACKAGED_WITH_AIOS_KEY'',
    ''BRIDGE_DECEPTIVE_REJECTED'', ''BRIDGE_RATE_LIMIT_EXCEEDED'',
    ''BRIDGE_METADATA_IMPORTED'', ''BRIDGE_RECIPE_IMPORTED'', ''BRIDGE_BLACKLISTED'',
    ''BRIDGE_DEGRADED_UPSTREAM_UNAVAILABLE'', ''BRIDGE_TRUST_CLASS_DECEPTION_DETECTED'',
    ''STATUS_TRANSITION'', ''ARTIFACT_RECORDED'', ''BUILD_PASSED'', ''TEST_PASSED'',
    ''E2E_PASSED'', ''RECOVERY_REHEARSAL_PASSED'', ''RELEASE_GATE_PASSED'',
    ''OPERATIONAL_HEALTHY'', ''INVARIANT_BUNDLE_LOADED'', ''WEB_EXPOSURE_GRANTED'',
    ''IDENTITY_BUNDLE_LOADED'', ''GROUP_REGISTERED'', ''RECEIPT_FORGERY_DETECTED'',
    ''RECEIPT_PAYLOAD_DUPLICATE_OBSERVED'', ''RECEIPT_LINEAGE_DEPTH_EXCEEDED'',
    ''RECEIPT_ORPHAN_ACTION_REF_DETECTED'', ''INVARIANT_BUNDLE_REJECTED'',
    ''POLICY_BUNDLE_REJECTED'', ''IDENTITY_BUNDLE_REJECTED'', ''CAPABILITY_BUNDLE_REJECTED'',
    ''SANDBOX_BUNDLE_REJECTED'', ''FAILURE_OBSERVED_RATE_LIMITED'',
    ''GRAPH_EVALUATION_BUDGET_EXCEEDED'', ''TRANSITION_BUDGET_EXCEEDED'',
    ''ADAPTER_LIFECYCLE_ILLEGAL_TRANSITION'', ''PUBLISHER_TRUST_LEVEL_OBSERVED'',
    ''PUBLISHER_KEY_COLLISION'', ''MARKETPLACE_REVIEW_BUDGET_EXCEEDED'',
    ''BRIDGE_OPERATOR_CONSENT_GRANTED'', ''BRIDGE_DEFERRED_NEEDS_REVIEW'',
    ''BRIDGE_METADATA_DRIFT_DETECTED'', ''BRIDGE_BLACKLIST_LIFTED'',
    ''HARDWARE_SUBSTRATE_ACCEPT_OUTSIDE_RECOVERY_BLOCKED'', ''FIRST_BOOT_OPERATION'',
    ''VAULT_BOOTSTRAP_KEY_USED'', ''BOOTSTRAP_KEY_USE_AFTER_EXHAUST_BLOCKED'',
    ''VAULT_REKEYED'', ''HARDWARE_GRAPH_DRIFT_ACCEPTED'', ''VAULT_TPM_RESEAL_REQUIRED'',
    ''AGENT_LIFECYCLE_TRANSITIONED'']"

text \<open>The variants in the order of declaration; the wire identifiers count them from 1, and the
  last one opens the reserved range.\<close>

definition dense_names :: "string list" where
  "dense_names = record_names_1 @ record_names_2 @ record_names_3 @ record_names_4"

definition record_names :: "string list" where
  "record_names = dense_names @ [''COMPACTION_APPROVAL_REQUIRED'']"

definition is_variant :: "record_type \<Rightarrow> bool" where
  "is_variant rt \<longleftrightarrow> as_wire_str rt \<in> set record_names"

fun index_of :: "'a \<Rightarrow> 'a list \<Rightarrow> nat option" where
  "index_of x [] = None"
| "index_of x (y # ys) = (if x = y then Some 0 else map_option Suc (index_of x ys))"

definition wire_id :: "record_type \<Rightarrow> 16 word" where
  "wire_id rt =
     (case index_of (as_wire_str rt) dense_names of
        Some i \<Rightarrow> of_nat (i + 1)
      | None \<Rightarrow> 1000)"

text \<open>The variants whose retention is not the 24-month default.\<close>

definition extended_names :: "string list" where
  "extended_names = [
    ''APPROVAL_DENIED'', ''SURFACE_GPU_BUDGET_EXCEEDED'', ''CROSS_ZONE_VIOLATION_ATTEMPTED'',
    ''THEME_REJECTED'', ''KDE_RENDER_FAILED'', ''WEB_RECOVERY_PAGE_LOADED'',
    ''WEB_RECOVERY_PAGE_EXITED'', ''GPU_BUDGET_EXCEEDED'', ''GPU_BUDGET_DOWNGRADED'',
    ''IOMMU_UNAVAILABLE_DEGRADED'', ''VAULT_CAPABILITY_REVOKED'', ''APPROVAL_REVOKED'',
    ''APPROVAL_DELIVERY_FAILED'', ''EXECUTION_FAILED'', ''EXECUTION_VERIFICATION_FAILED'',
    ''ADAPTER_DEREGISTERED'', ''IDEMPOTENCY_KEY_REPLAY_DETECTED'',
    ''EXPERIMENTAL_ADAPTER_LIVE_DISPATCH'', ''EXPOSURE_DENIED'', ''EXPOSURE_REVOKED'',
    ''EXPOSURE_TERMINATED_TTL_EXPIRED'', ''OUTBOUND_GRANT_REVOKED'',
    ''ALLOWLIST_FQDN_FANOUT_EXCEEDED'', ''LAN_PEER_DRIFT_DETECTED'',
    ''PACKAGE_VERIFICATION_FAILED'', ''PACKAGE_INSTALL_FAILED'', ''PACKAGE_DOWNGRADE_BLOCKED'',
    ''EXTERNAL_BRIDGE_UPSTREAM_SIGNATURE_FAILED'', ''KERNEL_DIVERGED_REGRESSION'',
    ''KERNEL_REFRESH_PIPELINE_FAILED'', ''APP_OBSERVE_TIMEOUT'',
    ''APP_TRANSLATE_MANIFEST_REJECTED'', ''CIRCUIT_BREAKER_OPENED'', ''TIME_DRIFT_DETECTED'',
    ''UNIT_DEGRADED'', ''UNIT_FAILED'', ''UNIT_ROLLBACK_TRIGGERED'', ''TRANSITION_FAILED'',
    ''RESOURCE_BUDGET_DENIED'', ''MODEL_INVOCATION_FAILED'', ''MODEL_BACKEND_DEGRADED'',
    ''MODEL_CIRCUIT_OPENED'', ''MODEL_VAULT_DENY'', ''MODEL_NETWORK_DENY'',
    ''MODEL_BACKEND_RETIRED'', ''AGENT_RETIRED'', ''AGENT_PROPOSAL_DENIED'',
    ''AGENT_PLAN_ABANDONED'', ''AGENT_INTER_MESSAGE_REJECTED'', ''AGENT_BACKEND_DEGRADED'',
    ''PACKAGE_OBJECT_RETIRED'', ''PACKAGE_OBJECT_VERIFICATION_FAILED'', ''APP_LAUNCH_FAILED'',
    ''PROFILE_OUTLIER_DETECTED'', ''PROFILE_VISIBILITY_DOWNGRADED'', ''PROFILE_RETIRED'',
    ''CLI_RENDER_FAILED'', ''DEVICE_DRIVER_REJECTED'', ''REMOVABLE_DEVICE_DENIED'',
    ''IOMMU_DMA_PROTECTION_DEGRADED'', ''VPN_TUNNEL_FAILED'', ''MDNS_BROADCAST_DENIED'',
    ''RESOLVER_BACKEND_DEGRADED'', ''FIRMWARE_VERIFICATION_FAILED'', ''FIRMWARE_APPLY_FAILED'',
    ''BIOS_UEFI_UPDATE_DEFERRED'', ''TELEMETRY_BACKEND_UNAVAILABLE'',
    ''TELEMETRY_BACKEND_DEGRADED'', ''PUBLISHER_ONBOARDING_IDENTITY_VERIFIED'',
    ''CAPABILITY_REVIEW_APPROVED'', ''LISTING_VISIBILITY_DOWNGRADED'',
    ''BRIDGE_RATE_LIMIT_EXCEEDED'', ''BRIDGE_DEGRADED_UPSTREAM_UNAVAILABLE'', ''E2E_PASSED'',
    ''RECEIPT_ORPHAN_ACTION_REF_DETECTED'', ''GRAPH_EVALUATION_BUDGET_EXCEEDED'',
    ''TRANSITION_BUDGET_EXCEEDED'', ''BRIDGE_METADATA_DRIFT_DETECTED'']"

definition forever_names_1 :: "string list" where
  "forever_names_1 = [
    ''POLICY_DECISION'', ''EXECUTION_COMPLETED'', ''RECOVERY_EVENT'', ''CHAIN_CHECKPOINT'',
    ''EMERGENCY_OVERRIDE_GRANT'', ''POLICY_BUNDLE_LOAD'', ''SEGMENT_SEALED'',
    ''CHAIN_INCONSISTENCY_DETECTED'', ''TAMPER_DETECTED'', ''CROSS_SURFACE_READ_DENIED'',
    ''RECOVERY_KIND_REJECTED'', ''UI_TRUST_BEARING_AUTHORSHIP_REFUSED'',
    ''THEME_INVARIANT_VIOLATED'', ''KDE_RENDERER_DEGRADED'', ''KDE_LAYER_SHELL_REJECTED'',
    ''KDE_KWIN_SCRIPT_REJECTED'', ''KDE_RECOVERY_SHELL_STARTED'',
    ''KDE_RECOVERY_KIND_REJECTED_AT_RENDERER'', ''WEB_LAN_EXPOSURE_GRANTED'',
    ''WEB_PUBLIC_EXPOSURE_GRANTED'', ''WEB_RECOVERY_KIND_REJECTED'',
    ''WEB_PUBLIC_EXPOSURE_FIREWALL_RECORDED'', ''HOST_CAPABILITY_LIE'',
    ''GPU_BINDING_FORGERY'', ''GPU_DEVICE_FORCE_RECLAIMED'', ''VAULT_RAW_REVEAL'',
    ''VAULT_CAPABILITY_FORGERY'', ''SUBJECT_KIND_REJECTED_FOR_VAULT'',
    ''VAULT_RECOVERY_SNAPSHOT_LOADED'', ''OVERRIDE_REQUESTED'', ''OVERRIDE_QUORUM_RECEIVED'',
    ''OVERRIDE_GRANTED'', ''OVERRIDE_CONSUMED'', ''OVERRIDE_DENIED'', ''OVERRIDE_EXPIRED'',
    ''OVERRIDE_REVOKED'', ''OVERRIDE_REVIEW'', ''RECOVERY_BOOT_ENTERED'',
    ''RECOVERY_OPERATOR_AUTHENTICATED'', ''RECOVERY_OPERATION_PERFORMED'',
    ''RECOVERY_TTL_EXPIRED_AUTO_REBOOT'', ''RECOVERY_BOOT_EXITED'',
    ''RECOVERY_L5_START_BLOCKED'', ''RECOVERY_NETWORK_LAN_ENABLED'',
    ''RECOVERY_NETWORK_LAN_DISABLED'', ''RECOVERY_FORENSIC_ATTACH_PERFORMED'',
    ''BOOT_FAILURE_AUTO_RECOVERY_TRIGGERED'', ''ROLLBACK_FAILED_REQUIRES_OPERATOR'',
    ''ADAPTER_REGISTRATION_REJECTED'', ''BINDING_VOIDED_ACTION_REVISED'',
    ''NETWORK_POSTURE_CHANGED'', ''EXPOSURE_GRANTED'', ''OUTBOUND_OUTSIDE_MANIFEST'',
    ''OUTBOUND_DEGRADED_TO_LOOPBACK_AUTO'', ''AI_DIRECT_INTERNET_DENIED'',
    ''BACKEND_DEGRADED_NFTABLES_TO_IPTABLES'', ''RAW_SOCKET_BYPASS_ATTEMPTED'',
    ''PACKAGE_QUARANTINED'', ''CAPABILITY_LIE_DETECTED'', ''TRUST_CHAIN_BROKEN'',
    ''TRUST_CHAIN_TOO_DEEP'', ''MANIFEST_FORGED'', ''MIRROR_HASH_MISMATCH_BLACKLISTED'',
    ''PUBLISHER_KEY_ROTATED'', ''PUBLISHER_DEPLATFORMED'', ''AIOS_ROOT_KEY_ROTATED'',
    ''KERNEL_PROMOTED_TO_A'', ''KERNEL_PROMOTED_TO_B'', ''KERNEL_ROLLBACK_PERFORMED'',
    ''KERNEL_IMAGE_DRIFT_DETECTED'', ''PIPELINE_DEFINITION_REPLACED'',
    ''APP_HONESTY_CLASS_VIOLATION'', ''APP_ECOSYSTEM_RUNTIME_BREAKOUT_ATTEMPTED'',
    ''APP_AI_DIRECT_INSTALL_ATTEMPTED_BLOCKED'', ''APP_RECIPE_DECEPTIVE_REJECTED_AT_INGEST'',
    ''FIRST_BOOT_STARTED'', ''FIRST_BOOT_FAILED'', ''VAULT_ROOT_KEY_GENERATED'',
    ''AI_PROVIDER_MODE_SET'', ''INITIAL_FIREWALL_POSTURE_SET'', ''FIRST_GROUP_REGISTERED'',
    ''FIRST_USER_REGISTERED'', ''RECOVERY_OPERATOR_REGISTERED'', ''FIRST_BOOT_COMPLETE'',
    ''RESET_TO_FACTORY_INITIATED'', ''COMPONENT_RESTART_BUDGET_EXHAUSTED'',
    ''HALTED_PENDING_OPERATOR'']"

definition forever_names_2 :: "string list" where
  "forever_names_2 = [
    ''BACKEND_VERSION_MISMATCH'', ''RECOVERY_LOOP_DETECTED'', ''RECEIPT_REDACTION_FAILED'',
    ''RECEIPT_INTEGRITY_QUARANTINED'', ''RECEIPT_LINEAGE_CYCLE_DETECTED'',
    ''RECEIPT_SEQUENCE_OUT_OF_ORDER'', ''UNIT_DEPENDENCY_CYCLE_DETECTED'',
    ''AB_ROLLBACK_PERFORMED'', ''DEPENDENCY_CYCLE_DETECTED'', ''TRANSITION_CONFLICT'',
    ''ADAPTER_ACTION_KIND_VIOLATION'', ''ADAPTER_CAPABILITY_VIOLATION'',
    ''ADAPTER_DOWNGRADE_REJECTED'', ''MODEL_PROMPT_INJECTION_DETECTED'',
    ''MODEL_RESPONSE_SIGNATURE_FAILED'', ''AGENT_INTERRUPTED_BY_RECOVERY'',
    ''AGENT_MEMORY_CROSS_USER_DENIED'', ''AGENT_SELF_GRADING_BLOCKED'',
    ''AGENT_DIRECT_FS_WRITE_BLOCKED'', ''AGENT_CROSS_GROUP_COORDINATION_BLOCKED'',
    ''AGENT_PROMPT_INJECTION_DETECTED'', ''PACKAGE_OBJECT_ROLLED_BACK'',
    ''PACKAGE_OBJECT_QUARANTINED'', ''PACKAGE_PRIVATE_STATE_CORRUPT_DETECTED'',
    ''PACKAGE_VERSION_DOWNGRADE_BLOCKED'', ''PACKAGE_RECOVERY_RESTORE_PERFORMED'',
    ''WINE_PREFIX_BREAKOUT_ATTEMPTED'', ''WAYDROID_ESCAPE_ATTEMPTED'',
    ''ORCHESTRATION_KIND_MISMATCH_REJECTED'', ''PROFILE_REPUTATION_FARM_SUSPECTED'',
    ''CLI_RECOVERY_KIND_REJECTED'', ''CLI_AUTO_CONFIRM_REJECTED'',
    ''CLI_ANSI_INJECTION_BLOCKED'', ''CLI_TRUST_INDICATOR_REORDERED'', ''DEVICE_QUARANTINED'',
    ''AI_REMOVABLE_DEVICE_BLOCKED'', ''HARDWARE_GRAPH_DRIFT_DETECTED'',
    ''FIRMWARE_VERSION_DOWNGRADE_BLOCKED'', ''OUT_OF_TREE_DRIVER_BLOCKED'',
    ''DNS_RESOLVER_REBINDING_DETECTED'', ''DNS_PLAIN_BLOCKED'',
    ''DNS_RESOLVER_SUBSTITUTION_REJECTED'', ''VPN_PROVIDER_KEY_ROTATED'',
    ''VPN_PROVIDER_KEY_FORGERY_REJECTED'', ''MDNS_POISONING_DETECTED'',
    ''FIRMWARE_DOWNGRADE_BLOCKED'', ''FIRMWARE_UNSIGNED_REJECTED'',
    ''FIRMWARE_VENDOR_DEPLATFORMED'', ''FIRMWARE_ROLLBACK_PERFORMED'',
    ''FIRMWARE_TAMPER_DETECTED'', ''OPERATOR_LOCAL_FIRMWARE_INSTALLED'',
    ''TELEMETRY_CARDINALITY_BREACH'', ''TELEMETRY_REDACTION_FAILED'',
    ''TELEMETRY_LOG_INJECTION_DETECTED'', ''TELEMETRY_EBPF_PROBE_REJECTED'',
    ''PUBLISHER_ONBOARDING_APPROVED'', ''PUBLISHER_ONBOARDING_REJECTED'',
    ''PUBLISHER_ONBOARDING_DEPLATFORMED'', ''CAPABILITY_REVIEW_DECEPTIVE_REJECTED'',
    ''LISTING_VS_MANIFEST_MISMATCH'', ''MARKETPLACE_REVIEW_BYPASS_ATTEMPTED'',
    ''BRIDGE_UPSTREAM_SIGNATURE_FAILED'', ''BRIDGE_DECEPTIVE_REJECTED'',
    ''BRIDGE_BLACKLISTED'', ''BRIDGE_TRUST_CLASS_DECEPTION_DETECTED'',
    ''RECOVERY_REHEARSAL_PASSED'', ''RELEASE_GATE_PASSED'', ''INVARIANT_BUNDLE_LOADED'',
    ''WEB_EXPOSURE_GRANTED'', ''IDENTITY_BUNDLE_LOADED'', ''GROUP_REGISTERED'',
    ''RECEIPT_FORGERY_DETECTED'', ''INVARIANT_BUNDLE_REJECTED'', ''POLICY_BUNDLE_REJECTED'',
    ''IDENTITY_BUNDLE_REJECTED'', ''CAPABILITY_BUNDLE_REJECTED'', ''SANDBOX_BUNDLE_REJECTED'',
    ''ADAPTER_LIFECYCLE_ILLEGAL_TRANSITION'', ''PUBLISHER_KEY_COLLISION'',
    ''BRIDGE_BLACKLIST_LIFTED'', ''HARDWARE_SUBSTRATE_ACCEPT_OUTSIDE_RECOVERY_BLOCKED'',
    ''FIRST_BOOT_OPERATION'', ''VAULT_BOOTSTRAP_KEY_USED'',
    ''BOOTSTRAP_KEY_USE_AFTER_EXHAUST_BLOCKED'', ''VAULT_REKEYED'',
    ''HARDWARE_GRAPH_DRIFT_ACCEPTED'', ''VAULT_TPM_RESEAL_REQUIRED'',
    ''COMPACTION_APPROVAL_REQUIRED'']"

definition retention_class_for :: "record_type \<Rightarrow> retention_class" where
  "retention_class_for rt =
     (if as_wire_str rt \<in> set forever_names_1 \<or> as_wire_str rt \<in> set forever_names_2 then Forever
      else if as_wire_str rt \<in> set extended_names then Extended60M
      else Standard24M)"

section \<open>Wire identifiers\<close>

lemma index_of_SomeD: "index_of x xs = Some i \<Longrightarrow> i < length xs \<and> xs ! i = x"
  by (induction xs arbitrary: i) (auto split: if_splits)

lemma index_of_NoneD: "index_of x xs = None \<Longrightarrow> x \<notin> set xs"
  by (induction xs) (auto split: if_splits)

lemma length_dense_names: "length dense_names = 427"
  by code_simp

lemma compaction_name_not_dense: "''COMPACTION_APPROVAL_REQUIRED'' \<notin> set dense_names"
  by (simp add: dense_names_def record_names_1_def record_names_2_def record_names_3_def
      record_names_4_def)

lemma unat_wire_id:
  "unat (wire_id rt) =
     (case index_of (as_wire_str rt) dense_names of Some i \<Rightarrow> i + 1 | None \<Rightarrow> 1000)"
proof (cases "index_of (as_wire_str rt) dense_names")
  case None
  then show ?thesis by (simp add: wire_id_def)
next
  case (Some i)
  then have "i < 427" using index_of_SomeD [OF Some] length_dense_names by simp
  then have "unat (word_of_nat (i + 1) :: 16 word) = i + 1" by (simp only: unat_of_nat) simp
  then show ?thesis using Some by (simp add: wire_id_def)
qed

text \<open>
  The wire identifier determines the record type: two variants with the same 16-bit
  identifier are the same variant, and no identifier is zero.
\<close>

theorem wire_id_injective:
  assumes "is_variant rt" and "is_variant rt'" and "wire_id rt = wire_id rt'"
  shows "rt = rt' \<and> 0 < unat (wire_id rt)"
proof -
  have eq: "unat (wire_id rt) = unat (wire_id rt')" using assms(3) by simp
  have name: "as_wire_str r = ''COMPACTION_APPROVAL_REQUIRED''"
    if "is_variant r" and "index_of (as_wire_str r) dense_names = None" for r
    using that index_of_NoneD [of "as_wire_str r" dense_names]
    by (simp add: is_variant_def record_names_def)
  have "as_wire_str rt = as_wire_str rt'"
    using eq assms(1,2) name [of rt] name [of rt'] index_of_SomeD [of "as_wire_str rt" dense_names]
      index_of_SomeD [of "as_wire_str rt'" dense_names] length_dense_names
    by (auto simp: unat_wire_id split: option.splits)
  then show ?thesis by (auto simp: unat_wire_id record_type.expand split: option.splits)
qed

theorem wire_id_injective_witness:
  "is_variant (RecordType ''ACTION_RECEIVED'') \<and> 0 < unat (wire_id (RecordType ''ACTION_RECEIVED''))"
proof -
  have v: "is_variant (RecordType ''ACTION_RECEIVED'')"
    by (simp add: is_variant_def record_names_def dense_names_def record_names_1_def)
  show ?thesis using wire_id_injective [OF v v refl] v by simp
qed

end
