(* ===== verification/Evidence_Redaction.thy ===== *)
theory Evidence_Redaction
  imports Evidence_Records
begin

text \<open>
  The errors of crate \<open>aios-evidence\<close> (\<open>error.rs\<close>) and the redaction of payloads before they
  are hashed (\<open>redaction.rs\<close>). The canonical JSON printer (\<open>serde_jcs\<close>), BLAKE3 and the
  lower-case mapping of non-ASCII characters are collected in a record. The theorems say
  exactly what redaction hides: the values under secret keys, at every depth, and nothing
  else in the default profile.
\<close>

section \<open>Errors\<close>

datatype evidence_error =
    EncodingFailed string
  | HashMismatch string string
  | ChainBroken nat string string
  | GenesisMissing
  | EmptyChain
  | DuplicateGenesis
  | InvalidReceiptId string
  | EvInvalidSubject string
  | SignatureMalformed string
  | SignatureMissing
  | SignatureMismatch
  | SegmentAlreadySealed
  | EmptySegment
  | SegmentChainBroken nat string string
  | SegmentSealMismatch string string
  | SegmentSignatureMismatch

datatype ev_code = NotFound | DataLoss | InvalidArgument | FailedPrecondition | Internal

fun status_code_of :: "evidence_error \<Rightarrow> ev_code" where
  "status_code_of SignatureMismatch = DataLoss"
| "status_code_of SegmentSignatureMismatch = DataLoss"
| "status_code_of (ChainBroken _ _ _) = DataLoss"
| "status_code_of (SegmentChainBroken _ _ _) = DataLoss"
| "status_code_of (SegmentSealMismatch _ _) = DataLoss"
| "status_code_of (SignatureMalformed _) = InvalidArgument"
| "status_code_of (InvalidReceiptId _) = InvalidArgument"
| "status_code_of (EvInvalidSubject _) = InvalidArgument"
| "status_code_of SignatureMissing = FailedPrecondition"
| "status_code_of GenesisMissing = FailedPrecondition"
| "status_code_of DuplicateGenesis = FailedPrecondition"
| "status_code_of EmptyChain = FailedPrecondition"
| "status_code_of SegmentAlreadySealed = FailedPrecondition"
| "status_code_of EmptySegment = FailedPrecondition"
| "status_code_of (EncodingFailed _) = Internal"
| "status_code_of (HashMismatch _ _) = Internal"

section \<open>Libraries\<close>

record text_lib =
  to_jcs :: "json \<Rightarrow> (string, string) result"
  hex_digest :: "string \<Rightarrow> string"
  lower_scalar :: "string \<Rightarrow> string"

text \<open>\<open>jcs_canonicalize(v)?\<close>, with the conversion of the error.\<close>

definition jcs_canonicalize :: "'z text_lib_scheme \<Rightarrow> json \<Rightarrow> (evidence_error, string) result" where
  "jcs_canonicalize lib v =
     (case to_jcs lib v of
        Inl e \<Rightarrow> Err (EncodingFailed (''failed to project value into canonical JSON: '' @ e))
      | Inr s \<Rightarrow> Ok s)"

section \<open>Profiles and categories\<close>

datatype redaction_profile = ProfileDefault | Strict | DebugCapture

fun profile_wire_str :: "redaction_profile \<Rightarrow> string" where
  "profile_wire_str ProfileDefault = ''default''"
| "profile_wire_str Strict = ''strict''"
| "profile_wire_str DebugCapture = ''debug_capture''"

datatype record_category = Lifecycle | Vault | Recovery | Telemetry | SegmentCat | Generic

definition record_category :: "record_type \<Rightarrow> record_category" where
  "record_category rt =
     (let name = as_wire_str rt in
      if prefix ''VAULT_'' name \<or> prefix ''SUBJECT_KIND_'' name then Vault
      else if prefix ''RECOVERY_'' name \<or> prefix ''TAMPER_'' name \<or>
              prefix ''CHAIN_INCONSISTENCY'' name \<or> prefix ''RECEIPT_FORGERY'' name \<or>
              prefix ''RECEIPT_INTEGRITY'' name \<or> prefix ''RECEIPT_LINEAGE'' name \<or>
              prefix ''RECEIPT_SEQUENCE'' name \<or> name = ''RECOVERY_EVENT'' then Recovery
      else if prefix ''TELEMETRY_'' name \<or> prefix ''OBSERVABILITY_'' name then Telemetry
      else if prefix ''SEGMENT_'' name \<or> prefix ''CHAIN_CHECKPOINT'' name \<or>
              name = ''GC_PASS'' \<or> name = ''QUARANTINE_EVENT'' \<or> name = ''CONFLICT_EVENT'' then SegmentCat
      else if name \<in> set [''ACTION_RECEIVED'', ''TRANSLATION_CREATED'', ''ROUTING_DECISION'',
                ''POLICY_DECISION'', ''APPROVAL_REQUESTED'', ''APPROVAL_GRANTED'', ''APPROVAL_DENIED'',
                ''EXECUTION_STARTED'', ''EXECUTION_COMPLETED'', ''VERIFICATION_RESULT'',
                ''ROLLBACK_COMPLETED'', ''MODEL_CALL'', ''EMERGENCY_OVERRIDE_GRANT'',
                ''POLICY_BUNDLE_LOAD''] \<or>
              prefix ''EXECUTION_'' name \<or> prefix ''APPROVAL_'' name \<or>
              prefix ''MODEL_'' name \<or> prefix ''POLICY_'' name then Lifecycle
      else Generic)"

definition REDACTED_SENTINEL :: string where
  "REDACTED_SENTINEL = ''<redacted>''"

definition SECRET_KEY_PATTERNS :: "string list" where
  "SECRET_KEY_PATTERNS =
    [''password'', ''passwd'', ''secret'', ''token'', ''api_key'', ''apikey'', ''private_key'',
     ''privatekey'', ''raw_payload'', ''raw_prompt'', ''credentials'', ''bearer'', ''authorization'',
     ''session_key'', ''client_secret'']"

definition PII_KEY_PATTERNS :: "string list" where
  "PII_KEY_PATTERNS =
    [''user'', ''email'', ''phone'', ''address'', ''ip'', ''hostname'', ''device_id'', ''operator'',
     ''subject'', ''actor'', ''principal'', ''username'', ''account'', ''owner'']"

section \<open>Redaction\<close>

text \<open>\<open>str::chars\<close>: the encodings of the scalar values, one per leading byte.\<close>

fun utf8_chars :: "string \<Rightarrow> string list" where
  "utf8_chars [] = []"
| "utf8_chars (c # cs) =
     (case utf8_chars cs of
        [] \<Rightarrow> [[c]]
      | g # gs \<Rightarrow> (case g of
                    [] \<Rightarrow> [c] # gs
                  | d # ds \<Rightarrow> if utf8_continuation d then (c # g) # gs else [c] # g # gs))"

definition is_ascii_uppercase :: "string \<Rightarrow> bool" where
  "is_ascii_uppercase g \<longleftrightarrow> (case g of [c] \<Rightarrow> CHR ''A'' \<le> c \<and> c \<le> CHR ''Z'' | _ \<Rightarrow> False)"

definition is_ascii_lowercase :: "string \<Rightarrow> bool" where
  "is_ascii_lowercase g \<longleftrightarrow> (case g of [c] \<Rightarrow> CHR ''a'' \<le> c \<and> c \<le> CHR ''z'' | _ \<Rightarrow> False)"

text \<open>\<open>char::to_lowercase\<close>: ASCII directly, the other scalar values by the Unicode table.\<close>

definition to_lowercase :: "'z text_lib_scheme \<Rightarrow> string \<Rightarrow> string" where
  "to_lowercase lib g =
     (case g of [c] \<Rightarrow> [to_ascii_lowercase c] | _ \<Rightarrow> lower_scalar lib g)"

fun normalize_loop :: "'z text_lib_scheme \<Rightarrow> bool \<Rightarrow> string list \<Rightarrow> string" where
  "normalize_loop lib prev_was_lower [] = []"
| "normalize_loop lib prev_was_lower (g # gs) =
     (if g = ''-'' \<or> g = '' '' \<or> g = ''.'' then ''_'' @ normalize_loop lib False gs
      else if is_ascii_uppercase g
      then (if prev_was_lower then ''_'' else []) @ to_lowercase lib g @ normalize_loop lib False gs
      else to_lowercase lib g @ normalize_loop lib (is_ascii_lowercase g) gs)"

definition normalize_key :: "'z text_lib_scheme \<Rightarrow> string \<Rightarrow> string" where
  "normalize_key lib k = normalize_loop lib False (utf8_chars k)"

definition key_matches :: "'z text_lib_scheme \<Rightarrow> string list \<Rightarrow> string \<Rightarrow> bool" where
  "key_matches lib patterns k \<longleftrightarrow> list_ex (\<lambda>p. str_contains (normalize_key lib k) p) patterns"

fun redact_keys :: "'z text_lib_scheme \<Rightarrow> string list \<Rightarrow> json \<Rightarrow> json" where
  "redact_keys lib ps (JObject kvs) =
     JObject (map (\<lambda>(k, v). (k, if key_matches lib ps k then JString REDACTED_SENTINEL
                                  else redact_keys lib ps v)) kvs)"
| "redact_keys lib ps (JArray items) = JArray (map (redact_keys lib ps) items)"
| "redact_keys lib ps v = v"

definition pii_hash :: "'z text_lib_scheme \<Rightarrow> json \<Rightarrow> string" where
  "pii_hash lib v =
     (case jcs_canonicalize lib v of
        Inl _ \<Rightarrow> REDACTED_SENTINEL
      | Inr canonical \<Rightarrow> ''hash:'' @ blake3_truncated (hex_digest lib) canonical)"

fun hash_pii_keys :: "'z text_lib_scheme \<Rightarrow> json \<Rightarrow> json" where
  "hash_pii_keys lib (JObject kvs) =
     JObject (map (\<lambda>(k, v). (k, if key_matches lib PII_KEY_PATTERNS k then JString (pii_hash lib v)
                                  else hash_pii_keys lib v)) kvs)"
| "hash_pii_keys lib (JArray items) = JArray (map (hash_pii_keys lib) items)"
| "hash_pii_keys lib v = v"

text \<open>The marker object; \<open>serde_json\<close> keeps the keys of an object sorted.\<close>

definition reduce_to_structural_marker ::
    "'z text_lib_scheme \<Rightarrow> record_type \<Rightarrow> json \<Rightarrow> (evidence_error, json) result" where
  "reduce_to_structural_marker lib rt stripped =
     try_then (jcs_canonicalize lib stripped) (\<lambda>canonical.
       Ok (JObject
         [(''payload_hash_prefix'', JString (blake3_truncated (hex_digest lib) canonical)),
          (''record_type'', JString (as_wire_str rt)),
          (''redacted_under_profile'', JString (profile_wire_str Strict))]))"

definition apply_strict ::
    "'z text_lib_scheme \<Rightarrow> record_type \<Rightarrow> json \<Rightarrow> (evidence_error, json) result" where
  "apply_strict lib rt payload =
     (let stripped = redact_keys lib SECRET_KEY_PATTERNS payload in
      case record_category rt of
        Lifecycle \<Rightarrow> reduce_to_structural_marker lib rt stripped
      | Telemetry \<Rightarrow> reduce_to_structural_marker lib rt stripped
      | Generic \<Rightarrow> reduce_to_structural_marker lib rt stripped
      | Vault \<Rightarrow> Ok (hash_pii_keys lib stripped)
      | Recovery \<Rightarrow> Ok stripped
      | SegmentCat \<Rightarrow> Ok stripped)"

fun apply_redaction ::
    "'z text_lib_scheme \<Rightarrow> redaction_profile \<Rightarrow> record_type \<Rightarrow> json \<Rightarrow> (evidence_error, json) result" where
  "apply_redaction lib ProfileDefault rt payload = Ok (redact_keys lib SECRET_KEY_PATTERNS payload)"
| "apply_redaction lib DebugCapture rt payload = Ok (redact_keys lib SECRET_KEY_PATTERNS payload)"
| "apply_redaction lib Strict rt payload = apply_strict lib rt payload"

section \<open>What redaction hides\<close>

text \<open>Two values with the same public part: equal but for the values under matching keys.\<close>

inductive same_public :: "'z text_lib_scheme \<Rightarrow> string list \<Rightarrow> json \<Rightarrow> json \<Rightarrow> bool"
  for lib ps where
  leaf: "same_public lib ps v v"
| array: "list_all2 (same_public lib ps) xs ys \<Longrightarrow> same_public lib ps (JArray xs) (JArray ys)"
| object: "list_all2 (\<lambda>a b. fst a = fst b \<and>
              (key_matches lib ps (fst a) \<or> same_public lib ps (snd a) (snd b))) kvs kvs'
           \<Longrightarrow> same_public lib ps (JObject kvs) (JObject kvs')"

lemma map_eq_iff_list_all2: "map f xs = map g ys \<longleftrightarrow> list_all2 (\<lambda>a b. f a = g b) xs ys"
  unfolding list.rel_eq [symmetric] by (simp add: list_all2_map1 list_all2_map2)

lemma redact_same_public:
  "same_public lib ps v w \<Longrightarrow> redact_keys lib ps v = redact_keys lib ps w"
proof (induction rule: same_public.induct)
  case (array xs ys)
  then show ?case by (auto simp: map_eq_iff_list_all2 elim: list.rel_mono_strong)
next
  case (object kvs kvs')
  then show ?case by (auto simp: map_eq_iff_list_all2 split_beta elim!: list.rel_mono_strong)
qed simp

lemma redact_object_iff:
  "JObject m = redact_keys lib ps w \<longleftrightarrow>
     (\<exists>kvs. w = JObject kvs \<and> m = map (\<lambda>(k, v). (k, if key_matches lib ps k
        then JString REDACTED_SENTINEL else redact_keys lib ps v)) kvs)"
  by (cases w) auto

lemma redact_array_iff:
  "JArray m = redact_keys lib ps w \<longleftrightarrow> (\<exists>xs. w = JArray xs \<and> m = map (redact_keys lib ps) xs)"
  by (cases w) auto

lemma redact_leaf_iff:
  "JNull = redact_keys lib ps w \<longleftrightarrow> w = JNull"
  "JBool b = redact_keys lib ps w \<longleftrightarrow> w = JBool b"
  "JNumber n = redact_keys lib ps w \<longleftrightarrow> w = JNumber n"
  "JString t = redact_keys lib ps w \<longleftrightarrow> w = JString t"
  by (cases w; auto)+

lemma redact_eq_same_public:
  "redact_keys lib ps v = redact_keys lib ps w \<Longrightarrow> same_public lib ps v w"
proof (induction lib ps v arbitrary: w rule: redact_keys.induct)
  case (1 lib ps kvs)
  from "1.prems" obtain kvs' where w: "w = JObject kvs'"
    and eq: "list_all2 (\<lambda>a b. fst a = fst b \<and>
      (if key_matches lib ps (fst a) then JString REDACTED_SENTINEL else redact_keys lib ps (snd a)) =
      (if key_matches lib ps (fst b) then JString REDACTED_SENTINEL else redact_keys lib ps (snd b)))
      kvs kvs'"
    by (auto simp: redact_object_iff map_eq_iff_list_all2 split_beta)
  have "list_all2 (\<lambda>a b. fst a = fst b \<and>
          (key_matches lib ps (fst a) \<or> same_public lib ps (snd a) (snd b))) kvs kvs'"
    using eq
  proof (rule list.rel_mono_strong)
    fix a b assume "a \<in> set kvs" and ab: "fst a = fst b \<and>
      (if key_matches lib ps (fst a) then JString REDACTED_SENTINEL else redact_keys lib ps (snd a)) =
      (if key_matches lib ps (fst b) then JString REDACTED_SENTINEL else redact_keys lib ps (snd b))"
    moreover obtain k v where "a = (k, v)" by fastforce
    ultimately show "fst a = fst b \<and>
        (key_matches lib ps (fst a) \<or> same_public lib ps (snd a) (snd b))"
      using "1.IH" [of a k v "snd b"] by (auto split: if_splits)
  qed
  then show ?case using w by (simp add: same_public.object)
next
  case (2 lib ps items)
  then obtain ys where w: "w = JArray ys"
    and eq: "list_all2 (\<lambda>a b. redact_keys lib ps a = redact_keys lib ps b) items ys"
    by (auto simp: redact_array_iff map_eq_iff_list_all2)
  have "list_all2 (same_public lib ps) items ys"
    using eq by (rule list.rel_mono_strong) (simp add: "2.IH")
  then show ?case using w by (simp add: same_public.array)
qed (simp_all add: redact_leaf_iff same_public.leaf)

lemma redact_idem: "redact_keys lib ps (redact_keys lib ps v) = redact_keys lib ps v"
  by (induction lib ps v rule: redact_keys.induct) auto

text \<open>
  In the default profile redaction reveals exactly the public part of a payload: two
  payloads have the same redacted form if and only if they differ only in values under keys
  that match a secret pattern, at any depth.
\<close>

theorem default_redaction_reveals_exactly_public:
  "apply_redaction lib ProfileDefault rt v = apply_redaction lib ProfileDefault rt w
     \<longleftrightarrow> same_public lib SECRET_KEY_PATTERNS v w"
  using redact_same_public redact_eq_same_public by auto

text \<open>
  C16: No profile lets a secret through: payloads that differ only in values under secret keys
  are indistinguishable after redaction, for every profile and every record type (the
  structural marker of the strict profile and its hash included).
\<close>

theorem redaction_noninterference:
  assumes "same_public lib SECRET_KEY_PATTERNS v w"
  shows "apply_redaction lib profile rt v = apply_redaction lib profile rt w"
  using redact_same_public [OF assms] by (cases profile) (simp_all add: apply_strict_def)

text \<open>A library for concrete runs: fixed texts for the printer and the digest.\<close>

definition sample_text_lib :: text_lib where
  "sample_text_lib =
     \<lparr>to_jcs = (\<lambda>_. Ok ''{}''), hex_digest = (\<lambda>s. replicate 64 (CHR ''a'')), lower_scalar = (\<lambda>s. s)\<rparr>"

lemmas key_match_defs = key_matches_def normalize_key_def SECRET_KEY_PATTERNS_def
  PII_KEY_PATTERNS_def utf8_continuation_def is_ascii_uppercase_def is_ascii_lowercase_def
  to_lowercase_def to_ascii_lowercase_def less_eq_char_def char_of_def bit_0

theorem redaction_noninterference_witness:
  "apply_redaction sample_text_lib Strict (RecordType ''VAULT_REKEYED'')
     (JObject [(''apiKey'', JString ''k1''), (''slot'', JNull)]) =
   apply_redaction sample_text_lib Strict (RecordType ''VAULT_REKEYED'')
     (JObject [(''apiKey'', JString ''k2''), (''slot'', JNull)])"
proof -
  have "key_matches sample_text_lib SECRET_KEY_PATTERNS ''apiKey''"
    by (simp add: key_match_defs)
  then have "same_public sample_text_lib SECRET_KEY_PATTERNS
      (JObject [(''apiKey'', JString ''k1''), (''slot'', JNull)])
      (JObject [(''apiKey'', JString ''k2''), (''slot'', JNull)])"
    by (auto intro: same_public.object same_public.leaf)
  then show ?thesis by (rule redaction_noninterference)
qed

text \<open>
  The pattern list is documented as matched case-insensitively. The normalisation inserts an
  underscore at every change from lower to upper case, so the capitalisation of a key
  decides whether it is redacted.
\<close>

theorem secret_match_depends_on_case:
  "key_matches lib SECRET_KEY_PATTERNS ''password'' \<and>
   \<not> key_matches lib SECRET_KEY_PATTERNS ''passWord'' \<and>
   key_matches lib SECRET_KEY_PATTERNS ''sessionKey'' \<and>
   \<not> key_matches lib SECRET_KEY_PATTERNS ''sessionkey''"
  by (simp add: key_match_defs)

text \<open>
  The strict profile is documented as hashing the value of every key that names personal
  data. For records of the recovery and segment categories it keeps them as they are.
\<close>

theorem strict_keeps_personal_data_of_recovery:
  "key_matches lib PII_KEY_PATTERNS ''email'' \<and>
   apply_redaction lib Strict (RecordType ''RECOVERY_EVENT'') (JObject [(''email'', JString a)]) =
     Ok (JObject [(''email'', JString a)])"
  by (simp add: key_match_defs apply_strict_def record_category_def)

end
