(* ===== verification/Evidence_Receipt.thy ===== *)
theory Evidence_Receipt
  imports Evidence_Redaction
begin

unbundle bit_operations_syntax

text \<open>
  Evidence receipts, \<open>receipt.rs\<close>: the lower-case hex codec of signatures, the receipt with
  its two JSON projections (the full one that links hash, the one without the signature that
  is signed), the builder and the checks of content hash and signature. Ed25519, the clock,
  the identifier generator and the printing of instants are parameters; \<open>evidence_lib\<close> extends
  the record of the redaction libraries with them.
\<close>

section \<open>Signatures in hex\<close>

definition SIGNATURE_LENGTH :: nat where
  "SIGNATURE_LENGTH = 64"

text \<open>The bytes of a string, and the two digits of \<open>{:02x}\<close>.\<close>

definition byte_of :: "char \<Rightarrow> u8" where
  "byte_of c = word_of_nat (of_char c)"

definition hex_digit :: "u8 \<Rightarrow> char" where
  "hex_digit n = char_of (if n < 10 then unat n + 48 else unat n + 87)"

definition hex_byte :: "u8 \<Rightarrow> string" where
  "hex_byte b = [hex_digit (drop_bit 4 b), hex_digit (take_bit 4 b)]"

definition encode_signature_hex :: "u8 list \<Rightarrow> string" where
  "encode_signature_hex sig = concat (map hex_byte sig)"

text \<open>\<open>what\<close> is the noun of the error text, which differs between receipts and segments.\<close>

definition hex_nibble :: "string \<Rightarrow> u8 \<Rightarrow> (evidence_error, u8) result" where
  "hex_nibble what c =
     (if 48 \<le> c \<and> c \<le> 57 then Ok (c - 48)
      else if 97 \<le> c \<and> c \<le> 102 then Ok (c - 97 + 10)
      else Err (SignatureMalformed (''non-lowercase-hex byte 0x'' @ hex_byte c @ '' in Ed25519 '' @ what @ '' blob'')))"

fun decode_chunks :: "string \<Rightarrow> string \<Rightarrow> (evidence_error, u8 list) result" where
  "decode_chunks what (c # d # rest) =
     try_then (hex_nibble what (byte_of c)) (\<lambda>hi.
     try_then (hex_nibble what (byte_of d)) (\<lambda>lo.
     try_then (decode_chunks what rest) (\<lambda>out. Ok ((push_bit 4 hi OR lo) # out))))"
| "decode_chunks what _ = Ok []"

definition decode_signature_hex :: "string \<Rightarrow> (evidence_error, u8 list) result" where
  "decode_signature_hex hex =
     (if length hex \<noteq> SIGNATURE_LENGTH * 2
      then Err (SignatureMalformed (''expected '' @ show_nat (SIGNATURE_LENGTH * 2) @
             '' lowercase hex chars, got '' @ show_nat (length hex) @ '' chars''))
      else decode_chunks ''signature'' hex)"

section \<open>Receipts\<close>

record ('sk, 'vk) evidence_lib = text_lib +
  ser_datetime :: "instant \<Rightarrow> string"
  to_rfc3339 :: "instant \<Rightarrow> string"
  ed25519_sign :: "'sk \<Rightarrow> string \<Rightarrow> u8 list"
  ed25519_verify :: "'vk \<Rightarrow> string \<Rightarrow> u8 list \<Rightarrow> bool"

record evidence_receipt =
  receipt_id :: string
  recorded_at :: instant
  r_record_type :: record_type
  r_retention_class :: retention_class
  r_subject_canonical_id :: string
  r_action_id :: "string option"
  previous_receipt_hash :: "string option"
  content_hash :: string
  r_payload :: json
  r_redaction_profile :: redaction_profile
  r_signature :: "string option"

fun opt_string :: "string option \<Rightarrow> json" where
  "opt_string None = JNull"
| "opt_string (Some s) = JString s"

fun skip_none :: "string \<Rightarrow> string option \<Rightarrow> (string \<times> json) list" where
  "skip_none k None = []"
| "skip_none k (Some s) = [(k, JString s)]"

text \<open>The derived \<open>Serialize\<close> of \<open>EvidenceReceipt\<close> and of \<open>ReceiptForSigning\<close>.\<close>

definition receipt_json :: "('sk, 'vk) evidence_lib \<Rightarrow> evidence_receipt \<Rightarrow> json" where
  "receipt_json lib r = JObject (
     [(''receipt_id'', JString (receipt_id r)),
      (''recorded_at'', JString (ser_datetime lib (recorded_at r))),
      (''record_type'', JString (as_wire_str (r_record_type r))),
      (''retention_class'', JString (retention_wire_str (r_retention_class r))),
      (''subject_canonical_id'', JString (r_subject_canonical_id r)),
      (''action_id'', opt_string (r_action_id r)),
      (''previous_receipt_hash'', opt_string (previous_receipt_hash r)),
      (''content_hash'', JString (content_hash r)),
      (''payload'', r_payload r),
      (''redaction_profile'', JString (profile_wire_str (r_redaction_profile r)))] @
     skip_none ''signature'' (r_signature r))"

definition receipt_for_signing :: "('sk, 'vk) evidence_lib \<Rightarrow> evidence_receipt \<Rightarrow> json" where
  "receipt_for_signing lib r = JObject (
     [(''receipt_id'', JString (receipt_id r)),
      (''recorded_at'', JString (ser_datetime lib (recorded_at r))),
      (''record_type'', JString (as_wire_str (r_record_type r))),
      (''retention_class'', JString (retention_wire_str (r_retention_class r))),
      (''subject_canonical_id'', JString (r_subject_canonical_id r))] @
     skip_none ''action_id'' (r_action_id r) @
     skip_none ''previous_receipt_hash'' (previous_receipt_hash r) @
     [(''content_hash'', JString (content_hash r)),
      (''payload'', r_payload r),
      (''redaction_profile'', JString (profile_wire_str (r_redaction_profile r)))])"

definition is_signed :: "evidence_receipt \<Rightarrow> bool" where
  "is_signed r \<longleftrightarrow> r_signature r \<noteq> None"

definition signing_digest ::
    "('sk, 'vk) evidence_lib \<Rightarrow> evidence_receipt \<Rightarrow> (evidence_error, string) result" where
  "signing_digest lib r =
     try_then (jcs_canonicalize lib (receipt_for_signing lib r)) (\<lambda>canonical.
       Ok (hex_digest lib canonical))"

definition verify_signature ::
    "('sk, 'vk) evidence_lib \<Rightarrow> 'vk \<Rightarrow> evidence_receipt \<Rightarrow> (evidence_error, unit) result" where
  "verify_signature lib vk r =
     (case r_signature r of
        None \<Rightarrow> Err SignatureMissing
      | Some hex_sig \<Rightarrow>
          try_then (decode_signature_hex hex_sig) (\<lambda>sig.
          try_then (signing_digest lib r) (\<lambda>digest.
            if ed25519_verify lib vk digest sig then Ok () else Err SignatureMismatch)))"

definition verify_content_hash ::
    "('sk, 'vk) evidence_lib \<Rightarrow> evidence_receipt \<Rightarrow> (evidence_error, string) result" where
  "verify_content_hash lib r =
     try_then (jcs_canonicalize lib (r_payload r)) (\<lambda>canonical.
       let computed = hex_digest lib canonical in
       if computed = content_hash r then Ok computed
       else Err (HashMismatch (content_hash r) computed))"

definition link_hash ::
    "('sk, 'vk) evidence_lib \<Rightarrow> evidence_receipt \<Rightarrow> (evidence_error, string) result" where
  "link_hash lib r =
     try_then (jcs_canonicalize lib (receipt_json lib r)) (\<lambda>canonical.
       Ok (blake3_truncated (hex_digest lib) canonical))"

section \<open>The builder\<close>

record receipt_builder =
  b_record_type :: record_type
  b_retention_class :: retention_class
  b_subject_canonical_id :: string
  b_action_id :: "string option"
  b_payload :: json
  b_redaction_profile :: redaction_profile

definition builder_new :: "record_type \<Rightarrow> retention_class \<Rightarrow> string \<Rightarrow> receipt_builder" where
  "builder_new rt rc subject =
     \<lparr>b_record_type = rt, b_retention_class = rc, b_subject_canonical_id = subject,
      b_action_id = None, b_payload = JNull, b_redaction_profile = ProfileDefault\<rparr>"

definition with_action_id :: "string \<Rightarrow> receipt_builder \<Rightarrow> receipt_builder" where
  "with_action_id a b = b\<lparr>b_action_id := Some a\<rparr>"

definition with_payload :: "json \<Rightarrow> receipt_builder \<Rightarrow> receipt_builder" where
  "with_payload v b = b\<lparr>b_payload := v\<rparr>"

definition with_redaction_profile :: "redaction_profile \<Rightarrow> receipt_builder \<Rightarrow> receipt_builder" where
  "with_redaction_profile p b = b\<lparr>b_redaction_profile := p\<rparr>"

definition trim :: "string \<Rightarrow> string" where
  "trim s = trim_end (trim_ws_start s)"

text \<open>The fresh ULID and the current instant are arguments of the operations that seal.\<close>

definition seal_inner ::
    "('sk, 'vk) evidence_lib \<Rightarrow> string \<Rightarrow> instant \<Rightarrow> receipt_builder \<Rightarrow> evidence_receipt option \<Rightarrow>
     string option \<Rightarrow> (evidence_error, evidence_receipt) result" where
  "seal_inner lib ulid now b previous sig =
     (if trim (b_subject_canonical_id b) = []
      then Err (EvInvalidSubject ''subject_canonical_id is empty or whitespace-only'')
      else
        try_then (apply_redaction lib (b_redaction_profile b) (b_record_type b) (b_payload b)) (\<lambda>redacted.
        try_then (jcs_canonicalize lib redacted) (\<lambda>canonical.
        try_then (case previous of None \<Rightarrow> Ok None
                  | Some prev \<Rightarrow> try_then (link_hash lib prev) (\<lambda>h. Ok (Some h))) (\<lambda>prev_hash.
          Ok \<lparr>receipt_id = id_new EvidenceReceiptId ulid, recorded_at = now,
              r_record_type = b_record_type b, r_retention_class = b_retention_class b,
              r_subject_canonical_id = b_subject_canonical_id b, r_action_id = b_action_id b,
              previous_receipt_hash = prev_hash, content_hash = hex_digest lib canonical,
              r_payload = redacted, r_redaction_profile = b_redaction_profile b,
              r_signature = sig\<rparr>))))"

definition seal ::
    "('sk, 'vk) evidence_lib \<Rightarrow> string \<Rightarrow> instant \<Rightarrow> receipt_builder \<Rightarrow> evidence_receipt option \<Rightarrow>
     (evidence_error, evidence_receipt) result" where
  "seal lib ulid now b previous = seal_inner lib ulid now b previous None"

definition seal_signed ::
    "('sk, 'vk) evidence_lib \<Rightarrow> string \<Rightarrow> instant \<Rightarrow> receipt_builder \<Rightarrow> evidence_receipt option \<Rightarrow>
     'sk \<Rightarrow> (evidence_error, evidence_receipt) result" where
  "seal_signed lib ulid now b previous sk =
     try_then (seal_inner lib ulid now b previous None) (\<lambda>receipt.
     try_then (signing_digest lib receipt) (\<lambda>digest.
       Ok (receipt\<lparr>r_signature := Some (encode_signature_hex (ed25519_sign lib sk digest))\<rparr>)))"

section \<open>The hex codec\<close>

lemma hex_nibble_digit:
  assumes "n < (16 :: u8)"
  shows "hex_nibble what (byte_of (hex_digit n)) = Ok n"
proof -
  have "unat n < 16" using assms by (simp add: word_less_nat_alt)
  then consider "unat n < 10" | "10 \<le> unat n" "unat n < 16" by linarith
  then show ?thesis
  proof cases
    case 1
    then have lt: "n < 10" by (simp add: word_less_nat_alt)
    have "byte_of (hex_digit n) = n + 48"
      using 1 lt by (simp add: byte_of_def hex_digit_def)
    moreover have "48 \<le> n + 48" and "n + 48 \<le> 57"
      using 1 by (simp_all add: word_le_nat_alt unat_word_ariths)
    ultimately show ?thesis by (simp add: hex_nibble_def)
  next
    case 2
    then have ge: "\<not> n < 10" by (simp add: word_less_nat_alt)
    have "byte_of (hex_digit n) = n + 87"
      using 2 ge by (simp add: byte_of_def hex_digit_def)
    moreover have "97 \<le> n + 87" and "n + 87 \<le> 102" and "\<not> n + 87 \<le> 57"
      using 2 by (simp_all add: word_le_nat_alt unat_word_ariths)
    ultimately show ?thesis by (simp add: hex_nibble_def)
  qed
qed

lemma nibbles_less: "drop_bit 4 (b :: u8) < 16" "take_bit 4 (b :: u8) < 16"
proof -
  have "unat b < 256" using unsigned_less [of b] by simp
  then show "drop_bit 4 b < 16"
    by (simp add: word_less_nat_alt drop_bit_eq_div unat_div)
  show "take_bit 4 b < 16"
    by (simp add: word_less_nat_alt take_bit_eq_mod unat_mod)
qed

lemma nibbles_join: "push_bit 4 (drop_bit 4 b) OR take_bit 4 b = (b :: u8)"
  by (rule bit_word_eqI) (auto simp: bit_simps)

lemma decode_encode_chunks: "decode_chunks what (concat (map hex_byte sig)) = Ok sig"
  by (induction sig) (simp_all add: hex_byte_def hex_nibble_digit nibbles_less nibbles_join)

lemma length_encode: "length (encode_signature_hex sig) = 2 * length sig"
  by (induction sig) (simp_all add: encode_signature_hex_def hex_byte_def)

lemma decode_encode_signature:
  "length sig = SIGNATURE_LENGTH \<Longrightarrow> decode_signature_hex (encode_signature_hex sig) = Ok sig"
  using decode_encode_chunks [of "''signature''" sig] length_encode [of sig]
  by (simp add: decode_signature_hex_def encode_signature_hex_def)

lemma unat_byte_of: "unat (byte_of c) = of_char c"
  using of_char_mod_256 [of c, where 'a = nat] by (simp add: byte_of_def unat_of_nat)

lemma hex_digit_nibble:
  assumes "hex_nibble what (byte_of c) = Ok n"
  shows "n < 16 \<and> hex_digit n = c"
proof -
  let ?b = "byte_of c"
  consider "48 \<le> ?b" "?b \<le> 57" "n = ?b - 48" | "97 \<le> ?b" "?b \<le> 102" "n = ?b - 97 + 10"
    using assms by (auto simp: hex_nibble_def split: if_splits)
  then show ?thesis
  proof cases
    case 1
    then have "unat n = of_char c - 48" and "of_char c \<le> (57 :: nat)" and "48 \<le> (of_char c :: nat)"
      by (simp_all add: word_le_nat_alt unat_byte_of unat_sub)
    moreover from this have "of_char c - 48 < (10 :: nat)" by linarith
    ultimately show ?thesis by (simp add: hex_digit_def word_less_nat_alt)
  next
    case 2
    then have c: "97 \<le> (of_char c :: nat)" "of_char c \<le> (102 :: nat)"
      by (simp_all add: word_le_nat_alt unat_byte_of)
    then have "unat n = of_char c - 87" using 2(3)
      by (simp add: unat_sub unat_byte_of word_le_nat_alt)
    moreover have "\<not> of_char c - 87 < (10 :: nat)" and "of_char c - 87 < (16 :: nat)"
      using c by linarith+
    ultimately show ?thesis using c by (simp add: hex_digit_def word_less_nat_alt)
  qed
qed

lemma nibbles_split:
  assumes "hi < (16 :: u8)" and "lo < 16"
  shows "drop_bit 4 (push_bit 4 hi OR lo) = hi \<and> take_bit 4 (push_bit 4 hi OR lo) = lo"
proof -
  have hi: "take_bit 4 hi = hi" and lo: "take_bit 4 lo = lo"
    using assms by (simp_all add: word_unat_eq_iff take_bit_eq_mod unat_mod word_less_nat_alt)
  have "\<not> bit hi m" and "\<not> bit lo m" if "4 \<le> m" for m
    using that hi lo by (metis bit_take_bit_iff not_less)+
  then show ?thesis
    by (auto intro!: bit_word_eqI simp: bit_simps) (use linorder_not_less in blast)+
qed

lemma encode_decode_chunks:
  "decode_chunks what s = Ok sig \<Longrightarrow> even (length s) \<Longrightarrow> concat (map hex_byte sig) = s"
proof (induction what s arbitrary: sig rule: decode_chunks.induct)
  case (1 what c d rest)
  then obtain hi lo out where "hex_nibble what (byte_of c) = Ok hi"
    and "hex_nibble what (byte_of d) = Ok lo" and "decode_chunks what rest = Ok out"
    and "sig = (push_bit 4 hi OR lo) # out"
    by (auto simp: result_simps)
  then show ?case
    using 1 hex_digit_nibble [of what c hi] hex_digit_nibble [of what d lo] nibbles_split [of hi lo]
    by (simp add: hex_byte_def)
qed auto

lemma encode_decode_signature:
  "decode_signature_hex s = Ok sig \<Longrightarrow> encode_signature_hex sig = s \<and> length sig = SIGNATURE_LENGTH"
  using encode_decode_chunks [of "''signature''" s sig] length_encode [of sig]
  by (auto simp: decode_signature_hex_def encode_signature_hex_def split: if_splits)

text \<open>
  The hex text of a signature is canonical: a text decodes to a signature if and only if the
  signature has 64 bytes and the text is the one the encoder produces, so no second spelling
  of a signature is accepted.
\<close>

theorem signature_hex_canonical:
  "decode_signature_hex s = Ok sig \<longleftrightarrow>
     length sig = SIGNATURE_LENGTH \<and> s = encode_signature_hex sig"
  using decode_encode_signature encode_decode_signature by blast

section \<open>Sealing\<close>

text \<open>What the code relies on of Ed25519: a signature has 64 bytes and verifies under the
  public key of the pair.\<close>

definition key_pair :: "('sk, 'vk) evidence_lib \<Rightarrow> 'sk \<Rightarrow> 'vk \<Rightarrow> bool" where
  "key_pair lib sk vk \<longleftrightarrow>
     (\<forall>m. length (ed25519_sign lib sk m) = SIGNATURE_LENGTH \<and>
          ed25519_verify lib vk m (ed25519_sign lib sk m))"

lemma seal_inner_Ok_iff:
  "seal_inner lib ulid now b previous sig = Ok r \<longleftrightarrow>
     trim (b_subject_canonical_id b) \<noteq> [] \<and>
     (\<exists>redacted canonical prev_hash.
        apply_redaction lib (b_redaction_profile b) (b_record_type b) (b_payload b) = Ok redacted \<and>
        jcs_canonicalize lib redacted = Ok canonical \<and>
        (case previous of None \<Rightarrow> prev_hash = None
         | Some prev \<Rightarrow> (\<exists>h. link_hash lib prev = Ok h \<and> prev_hash = Some h)) \<and>
        r = \<lparr>receipt_id = id_new EvidenceReceiptId ulid, recorded_at = now,
             r_record_type = b_record_type b, r_retention_class = b_retention_class b,
             r_subject_canonical_id = b_subject_canonical_id b, r_action_id = b_action_id b,
             previous_receipt_hash = prev_hash, content_hash = hex_digest lib canonical,
             r_payload = redacted, r_redaction_profile = b_redaction_profile b, r_signature = sig\<rparr>)"
  by (cases previous) (auto simp: seal_inner_def result_simps)

lemma signing_ignores_signature:
  "receipt_for_signing lib (r\<lparr>r_signature := s\<rparr>) = receipt_for_signing lib r"
  "signing_digest lib (r\<lparr>r_signature := s\<rparr>) = signing_digest lib r"
  by (simp_all add: receipt_for_signing_def signing_digest_def)

lemma seal_signed_Ok_iff:
  "seal_signed lib ulid now b previous sk = Ok r \<longleftrightarrow>
     (\<exists>r0 digest. seal_inner lib ulid now b previous None = Ok r0 \<and>
        signing_digest lib r0 = Ok digest \<and>
        r = r0\<lparr>r_signature := Some (encode_signature_hex (ed25519_sign lib sk digest))\<rparr>)"
  by (auto simp: seal_signed_def result_simps)

lemma seal_inner_facts:
  assumes "seal_inner lib ulid now b previous sig = Ok r"
  shows "verify_content_hash lib r = Ok (content_hash r)"
    and "previous = None \<Longrightarrow> previous_receipt_hash r = None"
    and "previous = Some p \<Longrightarrow> \<exists>h. link_hash lib p = Ok h \<and> previous_receipt_hash r = Some h"
    and "apply_redaction lib (b_redaction_profile b) (b_record_type b) (b_payload b) = Ok (r_payload r)"
    and "r_signature r = sig"
  using assms by (auto simp: seal_inner_Ok_iff verify_content_hash_def)

lemma seal_signed_facts:
  assumes "seal_signed lib ulid now b previous sk = Ok r"
  shows "verify_content_hash lib r = Ok (content_hash r)"
    and "previous = None \<Longrightarrow> previous_receipt_hash r = None"
    and "previous = Some p \<Longrightarrow> \<exists>h. link_hash lib p = Ok h \<and> previous_receipt_hash r = Some h"
    and "apply_redaction lib (b_redaction_profile b) (b_record_type b) (b_payload b) = Ok (r_payload r)"
proof -
  obtain r0 sig where r0: "seal_inner lib ulid now b previous None = Ok r0"
    and r: "r = r0\<lparr>r_signature := sig\<rparr>"
    using assms by (auto simp: seal_signed_Ok_iff)
  show "verify_content_hash lib r = Ok (content_hash r)"
    using seal_inner_facts(1) [OF r0] r by (simp add: verify_content_hash_def Let_def cong: if_cong)
  show "previous = None \<Longrightarrow> previous_receipt_hash r = None"
    using seal_inner_facts(2) [OF r0] r by simp
  show "previous = Some p \<Longrightarrow> \<exists>h. link_hash lib p = Ok h \<and> previous_receipt_hash r = Some h"
    using seal_inner_facts(3) [OF r0] r by simp
  show "apply_redaction lib (b_redaction_profile b) (b_record_type b) (b_payload b) = Ok (r_payload r)"
    using seal_inner_facts(4) [OF r0] r by simp
qed

lemma seal_signed_verifies:
  assumes "key_pair lib sk vk" and "seal_signed lib ulid now b previous sk = Ok r"
  shows "verify_signature lib vk r = Ok ()"
proof -
  obtain r0 digest where "signing_digest lib r0 = Ok digest"
    and "r = r0\<lparr>r_signature := Some (encode_signature_hex (ed25519_sign lib sk digest))\<rparr>"
    using assms(2) by (auto simp: seal_signed_Ok_iff)
  then show ?thesis
    using assms(1) by (simp add: verify_signature_def signing_ignores_signature key_pair_def
        decode_encode_signature)
qed

text \<open>
  A sealed and signed receipt is complete: its content hash matches its payload, its signature
  verifies under the public key, it points at the receipt before it, and its payload is the
  redacted form of the builder's payload, so that nothing under a secret key is hashed or
  signed.
\<close>

theorem sealed_receipt_complete:
  assumes "key_pair lib sk vk" and "seal_signed lib ulid now b previous sk = Ok r"
  shows "verify_content_hash lib r = Ok (content_hash r) \<and> verify_signature lib vk r = Ok () \<and>
    (case previous of None \<Rightarrow> previous_receipt_hash r = None
     | Some p \<Rightarrow> map_option Ok (previous_receipt_hash r) = Some (link_hash lib p)) \<and>
    apply_redaction lib (b_redaction_profile b) (b_record_type b) (b_payload b) = Ok (r_payload r)"
  using seal_signed_verifies [OF assms] seal_signed_facts [OF assms(2)]
  by (cases previous) fastforce+

text \<open>Keys and a library for concrete runs: the signature is one byte repeated.\<close>

definition sample_evidence_lib :: "(unit, unit) evidence_lib" where
  "sample_evidence_lib =
     \<lparr>to_jcs = (\<lambda>_. Ok ''{}''), hex_digest = (\<lambda>s. replicate 64 (CHR ''a'')), lower_scalar = (\<lambda>s. s),
      ser_datetime = (\<lambda>_. ''t''), to_rfc3339 = (\<lambda>_. ''t''),
      ed25519_sign = (\<lambda>_ _. replicate 64 7), ed25519_verify = (\<lambda>_ _ s. s = replicate 64 7)\<rparr>"

lemma sample_key_pair: "key_pair sample_evidence_lib () ()"
  by (simp add: key_pair_def sample_evidence_lib_def SIGNATURE_LENGTH_def)

definition sample_builder :: receipt_builder where
  "sample_builder = builder_new (RecordType ''ACTION_RECEIVED'') Standard24M ''human:a''"

lemma trim_not_blank: "ws_prefix s = 0 \<Longrightarrow> ws_suffix s = 0 \<Longrightarrow> trim s = s"
  by (simp add: trim_def trim_end.simps trim_ws_start.simps)

lemma sample_subject_not_blank: "trim ''human:a'' = ''human:a''"
  by (rule trim_not_blank)
    (simp_all add: ws_prefix_def ws_suffix_def unicode_whitespace_def suffix_def)

lemma sample_seal:
  "\<exists>r. seal_signed sample_evidence_lib ulid now sample_builder None () = Ok r"
  by (simp add: seal_signed_def seal_inner_def sample_builder_def builder_new_def
      sample_subject_not_blank jcs_canonicalize_def sample_evidence_lib_def signing_digest_def)

theorem sealed_receipt_complete_witness:
  "\<exists>r. seal_signed sample_evidence_lib ''U'' 0 sample_builder None () = Ok r \<and>
     verify_content_hash sample_evidence_lib r = Ok (content_hash r) \<and>
     verify_signature sample_evidence_lib () r = Ok () \<and> previous_receipt_hash r = None"
proof -
  obtain r where r: "seal_signed sample_evidence_lib ''U'' 0 sample_builder None () = Ok r"
    using sample_seal by blast
  from sealed_receipt_complete [OF sample_key_pair r] r show ?thesis by auto
qed

end
