(* ===== verification/Evidence_Chain.thy ===== *)
theory Evidence_Chain
  imports Evidence_Receipt
begin

text \<open>
  The receipt chain, \<open>chain.rs\<close>. The locale \<open>linked_log\<close> is the contract that the receipt chain
  and the segment chain share: elements carry a digest and a pointer to the digest of their
  predecessor, an append operation that checks the pointer and a walk that checks a whole
  log. Its lemmas say that appending keeps a log checked, that the checked logs are the
  logs that appends build, and that the digest of the last element commits to the whole log.
\<close>

section \<open>Hash-linked logs\<close>

fun grow :: "('a list \<Rightarrow> 'a \<Rightarrow> ('e, 'a list) result) \<Rightarrow> 'a list \<Rightarrow> 'a list \<Rightarrow> ('e, 'a list) result" where
  "grow app log [] = Ok log"
| "grow app log (x # xs) = try_then (app log x) (\<lambda>log'. grow app log' xs)"

lemma grow_append: "grow app log (xs @ ys) = try_then (grow app log xs) (\<lambda>log'. grow app log' ys)"
proof (induction xs arbitrary: log)
  case (Cons x xs)
  then show ?case by (cases "app log x") simp_all
qed simp

locale linked_log =
  fixes digest :: "'a \<Rightarrow> 'h option"
    and prev :: "'a \<Rightarrow> 'h option"
    and start :: "'a \<Rightarrow> bool"
    and root :: "'a \<Rightarrow> bool"
    and app :: "'a list \<Rightarrow> 'a \<Rightarrow> ('e, 'a list) result"
    and check :: "'a list \<Rightarrow> ('e, unit) result"
  assumes app_Ok_iff:
      "app xs x = Ok ys \<longleftrightarrow> ys = xs @ [x] \<and>
         (if xs = [] then start x else prev x \<noteq> None \<and> digest (last xs) = prev x)"
    and check_Ok_iff:
      "xs \<noteq> [] \<Longrightarrow> check xs = Ok () \<longleftrightarrow>
         root (hd xs) \<and> successively (\<lambda>a b. prev b \<noteq> None \<and> digest a = prev b) xs"
    and start_root: "start x \<Longrightarrow> root x"
    and root_prev: "root x \<Longrightarrow> prev x = None"
begin

lemma app_keeps_check:
  assumes "xs \<noteq> []" and "check xs = Ok ()" and "app xs x = Ok ys"
  shows "check ys = Ok ()"
  using assms by (auto simp: app_Ok_iff check_Ok_iff successively_append_iff)

lemma grow_Ok_iff:
  "grow app [] xs = Ok ys \<longleftrightarrow> ys = xs \<and> (xs = [] \<or> start (hd xs) \<and> check xs = Ok ())"
proof (induction xs arbitrary: ys rule: rev_induct)
  case (snoc x xs)
  show ?case
  proof (cases "xs = []")
    case True
    then show ?thesis using snoc start_root by (auto simp: app_Ok_iff check_Ok_iff result_simps)
  next
    case False
    have "check (xs @ [x]) = Ok () \<longleftrightarrow> check xs = Ok () \<and> prev x \<noteq> None \<and> digest (last xs) = prev x"
      using False by (auto simp: check_Ok_iff successively_append_iff)
    then show ?thesis
      using False snoc by (auto simp: grow_append app_Ok_iff result_simps)
  qed
qed auto

lemma check_prefix: "check (xs @ ys) = Ok () \<Longrightarrow> xs \<noteq> [] \<Longrightarrow> check xs = Ok ()"
  by (auto simp: check_Ok_iff successively_append_iff)

lemma head_commits:
  assumes "check xs = Ok ()" and "check ys = Ok ()" and "xs \<noteq> []" and "ys \<noteq> []"
    and "digest (last xs) = Some h" and "digest (last ys) = Some h"
    and "\<And>a b d. a \<in> set xs \<Longrightarrow> b \<in> set ys \<Longrightarrow> digest a = Some d \<Longrightarrow> digest b = Some d \<Longrightarrow> a = b"
  shows "xs = ys"
  using assms
proof (induction xs arbitrary: ys h rule: rev_induct)
  case (snoc x xs)
  obtain y zs where ys: "ys = zs @ [y]" using snoc.prems(4) by (metis rev_exhaust)
  have xy: "x = y" using snoc.prems(7) [of x y h] snoc.prems(5,6) ys by simp
  show ?case
  proof (cases "xs = [] \<or> zs = []")
    case True
    have "prev x = None \<longleftrightarrow> xs = []" and "prev y = None \<longleftrightarrow> zs = []"
      using snoc.prems(1,2) ys root_prev
      by (cases xs rule: rev_cases; cases zs rule: rev_cases;
          auto simp: check_Ok_iff successively_append_iff)+
    then show ?thesis using xy ys True by simp
  next
    case False
    then obtain d where d: "digest (last xs) = Some d" "digest (last zs) = Some d"
      using snoc.prems(1,2) ys xy by (auto simp: check_Ok_iff successively_append_iff)
    have "check xs = Ok ()" and "check zs = Ok ()"
      using False check_prefix snoc.prems(1,2) ys by auto
    then have "xs = zs"
      using snoc.IH [of zs d] d False snoc.prems(7) ys by auto
    then show ?thesis using xy ys by simp
  qed
qed simp

end

section \<open>The receipt chain\<close>

definition chain_append ::
    "('sk, 'vk) evidence_lib \<Rightarrow> evidence_receipt list \<Rightarrow> evidence_receipt \<Rightarrow>
     (evidence_error, evidence_receipt list) result" where
  "chain_append lib receipts receipt =
     (case receipts of
        [] \<Rightarrow> (case previous_receipt_hash receipt of
                None \<Rightarrow> Ok (receipts @ [receipt])
              | Some _ \<Rightarrow> Err GenesisMissing)
      | _ # _ \<Rightarrow>
          (case previous_receipt_hash receipt of
             None \<Rightarrow> Err DuplicateGenesis
           | Some claimed_link \<Rightarrow>
               try_then (link_hash lib (last receipts)) (\<lambda>expected.
                 if expected = claimed_link then Ok (receipts @ [receipt])
                 else Err (ChainBroken (length receipts) claimed_link expected))))"

text \<open>The loop over the windows of two receipts; \<open>i\<close> is the index of the second one.\<close>

fun walk_links ::
    "('sk, 'vk) evidence_lib \<Rightarrow> nat \<Rightarrow> evidence_receipt list \<Rightarrow> (evidence_error, unit) result" where
  "walk_links lib i (prv # cur # rest) =
     (case previous_receipt_hash cur of
        None \<Rightarrow> try_then (link_hash lib prv) (\<lambda>expected.
                 Err (ChainBroken i ''<missing previous_receipt_hash>'' expected))
      | Some claimed \<Rightarrow>
          try_then (link_hash lib prv) (\<lambda>expected.
            if expected \<noteq> claimed then Err (ChainBroken i claimed expected)
            else walk_links lib (i + 1) (cur # rest)))"
| "walk_links lib i _ = Ok ()"

definition verify_integrity ::
    "('sk, 'vk) evidence_lib \<Rightarrow> evidence_receipt list \<Rightarrow> (evidence_error, unit) result" where
  "verify_integrity lib receipts =
     (case receipts of
        [] \<Rightarrow> Err EmptyChain
      | genesis # _ \<Rightarrow>
          if previous_receipt_hash genesis \<noteq> None then Err GenesisMissing
          else walk_links lib 1 receipts)"

fun verify_signatures ::
    "('sk, 'vk) evidence_lib \<Rightarrow> 'vk \<Rightarrow> evidence_receipt list \<Rightarrow> (evidence_error, unit) result" where
  "verify_signatures lib vk [] = Ok ()"
| "verify_signatures lib vk (r # rs) =
     try_then (verify_signature lib vk r) (\<lambda>_. verify_signatures lib vk rs)"

definition verify_integrity_signed ::
    "('sk, 'vk) evidence_lib \<Rightarrow> 'vk \<Rightarrow> evidence_receipt list \<Rightarrow> (evidence_error, unit) result" where
  "verify_integrity_signed lib vk receipts =
     try_then (verify_integrity lib receipts) (\<lambda>_. verify_signatures lib vk receipts)"

section \<open>The receipt chain is a hash-linked log\<close>

definition link_of :: "('sk, 'vk) evidence_lib \<Rightarrow> evidence_receipt \<Rightarrow> string option" where
  "link_of lib r = (case link_hash lib r of Inl _ \<Rightarrow> None | Inr h \<Rightarrow> Some h)"

lemma walk_links_Ok_iff:
  "walk_links lib i rs = Ok () \<longleftrightarrow>
     successively (\<lambda>a b. previous_receipt_hash b \<noteq> None \<and> link_of lib a = previous_receipt_hash b) rs"
proof (induction lib i rs rule: walk_links.induct)
  case (1 lib i prv cur rest)
  then show ?case
    by (auto simp: link_of_def result_simps split: option.splits sum.splits)
qed auto

lemma chain_append_Ok_iff:
  "chain_append lib rs r = Ok rs' \<longleftrightarrow> rs' = rs @ [r] \<and>
     (if rs = [] then previous_receipt_hash r = None
      else previous_receipt_hash r \<noteq> None \<and> link_of lib (last rs) = previous_receipt_hash r)"
  by (auto simp: chain_append_def link_of_def result_simps split: list.splits option.splits
      sum.splits if_splits)

interpretation rc: linked_log "link_of lib" previous_receipt_hash
  "\<lambda>r. previous_receipt_hash r = None" "\<lambda>r. previous_receipt_hash r = None"
  "chain_append lib" "verify_integrity lib" for lib :: "('sk, 'vk) evidence_lib"
proof
  show "verify_integrity lib xs = Ok () \<longleftrightarrow> previous_receipt_hash (hd xs) = None \<and>
      successively (\<lambda>a b. previous_receipt_hash b \<noteq> None \<and> link_of lib a = previous_receipt_hash b) xs"
    if "xs \<noteq> []" for xs
    using that by (cases xs) (auto simp: verify_integrity_def walk_links_Ok_iff)
qed (auto simp: chain_append_Ok_iff)

lemma verify_signatures_Ok_iff:
  "verify_signatures lib vk rs = Ok () \<longleftrightarrow> list_all (\<lambda>r. verify_signature lib vk r = Ok ()) rs"
  by (induction rs) (auto simp: result_simps)

lemma link_of_eq_Some: "link_of lib r = Some h \<longleftrightarrow> link_hash lib r = Ok h"
  by (auto simp: link_of_def split: sum.splits)

text \<open>
  C13: The link hash of the last receipt commits to the whole chain. Two chains that pass the
  integrity walk and end in receipts with the same link hash are equal, receipt by receipt
  and in length, unless two different receipts of the two chains have the same link hash.
\<close>

theorem receipt_head_commits:
  assumes "verify_integrity lib xs = Ok ()" and "verify_integrity lib ys = Ok ()"
    and "link_hash lib (last xs) = Ok h" and "link_hash lib (last ys) = Ok h"
    and "\<And>a b d. a \<in> set xs \<Longrightarrow> b \<in> set ys \<Longrightarrow> link_hash lib a = Ok d \<Longrightarrow> link_hash lib b = Ok d \<Longrightarrow> a = b"
  shows "xs = ys"
proof (rule rc.head_commits)
  show "xs \<noteq> []" and "ys \<noteq> []" using assms(1,2) by (auto simp: verify_integrity_def)
qed (use assms in \<open>auto simp: link_of_eq_Some\<close>)

text \<open>
  The chains that pass the integrity walk are exactly the non-empty chains that appends build
  from the empty chain.
\<close>

theorem verified_chains_are_grown:
  "verify_integrity lib rs = Ok () \<longleftrightarrow> rs \<noteq> [] \<and> grow (chain_append lib) [] rs = Ok rs"
proof (cases "rs = []")
  case False
  then show ?thesis
    using rc.grow_Ok_iff [of lib rs rs] rc.check_Ok_iff [of rs lib] by auto
qed (simp add: verify_integrity_def)

section \<open>A concrete run\<close>

definition sample_receipt :: evidence_receipt where
  "sample_receipt =
     \<lparr>receipt_id = ''evr_U'', recorded_at = 0, r_record_type = RecordType ''ACTION_RECEIVED'',
      r_retention_class = Standard24M, r_subject_canonical_id = ''human:a'', r_action_id = None,
      previous_receipt_hash = None, content_hash = replicate 64 (CHR ''a''), r_payload = JNull,
      r_redaction_profile = ProfileDefault,
      r_signature = Some (encode_signature_hex (replicate 64 7))\<rparr>"

lemma sample_receipt_sealed:
  "seal_signed sample_evidence_lib ''U'' 0 sample_builder None () = Ok sample_receipt"
  by (simp add: seal_signed_def seal_inner_def sample_builder_def builder_new_def
      sample_subject_not_blank jcs_canonicalize_def sample_evidence_lib_def signing_digest_def
      sample_receipt_def id_new_def fresh_id_def)

lemma sample_chain_verifies:
  "verify_integrity_signed sample_evidence_lib () [sample_receipt] = Ok ()"
  using seal_signed_verifies [OF sample_key_pair sample_receipt_sealed]
  by (simp add: verify_integrity_signed_def verify_integrity_def sample_receipt_def)

theorem receipt_head_commits_witness:
  "verify_integrity sample_evidence_lib [sample_receipt] = Ok () \<and>
   [sample_receipt] = [sample_receipt\<lparr>recorded_at := 0\<rparr>]"
proof -
  have v: "verify_integrity sample_evidence_lib [sample_receipt] = Ok ()"
    by (simp add: verify_integrity_def sample_receipt_def)
  have l: "link_hash sample_evidence_lib sample_receipt = Ok (replicate 32 (CHR ''a''))"
    by (simp add: link_hash_def jcs_canonicalize_def sample_evidence_lib_def blake3_truncated_def
        to_ascii_lowercase_def less_eq_char_def)
  have "sample_receipt = sample_receipt\<lparr>recorded_at := 0\<rparr>" by (simp add: sample_receipt_def)
  then have "[sample_receipt] = [sample_receipt\<lparr>recorded_at := 0\<rparr>]"
    using v l by (intro receipt_head_commits [where lib = sample_evidence_lib]) simp_all
  then show ?thesis using v by blast
qed

end
