(* ===== verification/Evidence_Segment.thy ===== *)
theory Evidence_Segment
  imports Evidence_Chain
begin

text \<open>
  Segments (\<open>segment.rs\<close>) and the chain of sealed segments (\<open>segment_chain.rs\<close>): opening,
  appending, sealing with the terminal receipt, the verification of the seal, and the chain
  as a second instance of \<open>linked_log\<close>.
\<close>

section \<open>Segment identifiers\<close>

definition GENESIS_PREVIOUS_SEGMENT_SEAL_HASH :: string where
  "GENESIS_PREVIOUS_SEGMENT_SEAL_HASH = replicate 64 (CHR ''0'')"

definition SEGMENT_PREFIX :: string where
  "SEGMENT_PREFIX = ''seg_''"

definition SEGMENT_BODY_LEN :: nat where
  "SEGMENT_BODY_LEN = 32"

definition segment_id_from_content :: "'z text_lib_scheme \<Rightarrow> string \<Rightarrow> string" where
  "segment_id_from_content lib seed = SEGMENT_PREFIX @ blake3_truncated (hex_digest lib) seed"

definition segment_id_parse :: "string \<Rightarrow> (evidence_error, string) result" where
  "segment_id_parse input =
     (if input = [] then Err (InvalidReceiptId ''segment id is empty'')
      else if prefix ''seg:'' input
      then Err (InvalidReceiptId (''colon-separated segment id form is forbidden: `'' @ input @ ''`''))
      else (case strip_prefix_str SEGMENT_PREFIX input of
              None \<Rightarrow> Err (InvalidReceiptId (''expected `seg_` prefix, got `'' @ input @ ''`''))
            | Some body \<Rightarrow>
                if length body \<noteq> SEGMENT_BODY_LEN
                then Err (InvalidReceiptId (''expected '' @ show_nat SEGMENT_BODY_LEN @
                       ''-char lowercase hex body, got '' @ show_nat (length body) @ '' chars''))
                else if \<not> list_all is_lower_hex body
                then Err (InvalidReceiptId
                       (''segment id body must be lowercase hex [0-9a-f] only: `'' @ body @ ''`''))
                else Ok input))"

section \<open>Open and sealed segments\<close>

record segment =
  seg_retention_class :: retention_class
  seg_receipts :: "evidence_receipt list"
  seg_is_sealed :: bool

record sealed_segment =
  segment_id :: string
  ss_retention_class :: retention_class
  ss_receipts :: "evidence_receipt list"
  segment_seal_hash :: string
  segment_signature :: string
  previous_segment_id :: "string option"
  previous_segment_seal_hash :: "string option"
  sealed_at :: instant

definition segment_new :: "retention_class \<Rightarrow> segment" where
  "segment_new rc = \<lparr>seg_retention_class = rc, seg_receipts = [], seg_is_sealed = False\<rparr>"

definition segment_append :: "segment \<Rightarrow> evidence_receipt \<Rightarrow> (evidence_error, segment) result" where
  "segment_append s r =
     (if seg_is_sealed s then Err SegmentAlreadySealed
      else Ok (s\<lparr>seg_receipts := seg_receipts s @ [r]\<rparr>))"

definition SegmentSealed :: record_type where
  "SegmentSealed = RecordType ''SEGMENT_SEALED''"

text \<open>The JSON projections of the terminal payload and of the seal metadata. Counts saturate at
  the width of the field.\<close>

definition saturated_count :: "nat \<Rightarrow> nat \<Rightarrow> json" where
  "saturated_count w n = JNumber (JInt (int (min n (2 ^ w - 1))))"

definition segment_sealed_payload ::
    "string \<Rightarrow> retention_class \<Rightarrow> nat \<Rightarrow> string option \<Rightarrow> string option \<Rightarrow> json" where
  "segment_sealed_payload sid rc n prev_id prev_hash = JObject (
     skip_none ''previous_segment_id'' prev_id @
     skip_none ''previous_segment_seal_hash'' prev_hash @
     [(''receipt_count'', saturated_count 32 n),
      (''retention_class'', JString (retention_wire_str rc)),
      (''segment_id'', JString sid)])"

definition segment_seal_metadata ::
    "string \<Rightarrow> retention_class \<Rightarrow> nat \<Rightarrow> string \<Rightarrow> string \<Rightarrow> json" where
  "segment_seal_metadata sid rc n prev_hash all_hash = JObject
     [(''segment_id'', JString sid),
      (''retention_class'', JString (retention_wire_str rc)),
      (''receipt_count'', saturated_count 64 n),
      (''previous_segment_seal_hash'', JString prev_hash),
      (''all_receipts_canonical_hash'', JString all_hash)]"

definition canonical_hash_of :: "('sk, 'vk) evidence_lib \<Rightarrow> json \<Rightarrow> (evidence_error, string) result" where
  "canonical_hash_of lib v =
     try_then (jcs_canonicalize lib v) (\<lambda>canonical. Ok (hex_digest lib canonical))"

definition receipts_hash ::
    "('sk, 'vk) evidence_lib \<Rightarrow> evidence_receipt list \<Rightarrow> (evidence_error, string) result" where
  "receipts_hash lib rs = canonical_hash_of lib (JArray (map (receipt_json lib) rs))"

text \<open>\<open>Segment::seal\<close>. The clock is read twice, for the seal and for the terminal receipt.\<close>

definition unwrap_prev :: "string option \<Rightarrow> string" where
  "unwrap_prev h = (case h of None \<Rightarrow> GENESIS_PREVIOUS_SEGMENT_SEAL_HASH | Some s \<Rightarrow> s)"

definition segment_seal ::
    "('sk, 'vk) evidence_lib \<Rightarrow> string \<Rightarrow> instant \<Rightarrow> instant \<Rightarrow> segment \<Rightarrow> string option \<Rightarrow>
     string option \<Rightarrow> 'sk \<Rightarrow> (evidence_error, sealed_segment) result" where
  "segment_seal lib ulid now_seal now_receipt s prev_id prev_hash sk =
     (if seg_receipts s = [] then Err EmptySegment
      else if (prev_id = None) \<noteq> (prev_hash = None)
      then Err (SegmentChainBroken 0
             (case prev_hash of None \<Rightarrow> ''<missing>'' | Some h \<Rightarrow> h)
             (case prev_id of None \<Rightarrow> ''<missing>'' | Some i \<Rightarrow> i))
      else
        try_then (receipts_hash lib (seg_receipts s)) (\<lambda>all_hash.
        let sid = segment_id_from_content lib
                    (receipt_id (hd (seg_receipts s)) @ to_rfc3339 lib now_seal) in
        try_then (seal_signed lib ulid now_receipt
          (with_payload
            (segment_sealed_payload sid (seg_retention_class s) (length (seg_receipts s)) prev_id prev_hash)
            (builder_new SegmentSealed Forever ''_system:service:evidence-segment-signer''))
          (Some (last (seg_receipts s))) sk) (\<lambda>terminal.
        let receipts = seg_receipts s @ [terminal] in
        try_then (canonical_hash_of lib
          (segment_seal_metadata sid (seg_retention_class s) (length receipts) (unwrap_prev prev_hash) all_hash))
          (\<lambda>seal_hash.
        Ok \<lparr>segment_id = sid, ss_retention_class = seg_retention_class s, ss_receipts = receipts,
            segment_seal_hash = seal_hash,
            segment_signature = encode_signature_hex (ed25519_sign lib sk seal_hash),
            previous_segment_id = prev_id, previous_segment_seal_hash = prev_hash,
            sealed_at = now_seal\<rparr>))))"

definition duration_days :: "int \<Rightarrow> int" where
  "duration_days n = duration_seconds (n * 86400)"

fun retention_eligible :: "retention_class \<Rightarrow> instant \<Rightarrow> instant \<Rightarrow> bool" where
  "retention_eligible Standard24M sealed now \<longleftrightarrow> duration_days 730 \<le> now - sealed"
| "retention_eligible Extended60M sealed now \<longleftrightarrow> duration_days 1825 \<le> now - sealed"
| "retention_eligible Forever sealed now \<longleftrightarrow> False"

definition is_compaction_eligible :: "sealed_segment \<Rightarrow> instant \<Rightarrow> bool" where
  "is_compaction_eligible s now = retention_eligible (ss_retention_class s) (sealed_at s) now"

section \<open>Verification of a segment\<close>

definition receipts_excluding_terminal :: "sealed_segment \<Rightarrow> evidence_receipt list" where
  "receipts_excluding_terminal s =
     (if ss_receipts s \<noteq> [] \<and> r_record_type (last (ss_receipts s)) = SegmentSealed
      then take (length (ss_receipts s) - 1) (ss_receipts s)
      else ss_receipts s)"

definition recompute_all_receipts_canonical_hash ::
    "('sk, 'vk) evidence_lib \<Rightarrow> sealed_segment \<Rightarrow> (evidence_error, string) result" where
  "recompute_all_receipts_canonical_hash lib s = receipts_hash lib (receipts_excluding_terminal s)"

definition decode_signature_hex_64 :: "string \<Rightarrow> (evidence_error, u8 list) result" where
  "decode_signature_hex_64 hex =
     (if length hex \<noteq> SIGNATURE_LENGTH * 2
      then Err (SignatureMalformed (''expected '' @ show_nat (SIGNATURE_LENGTH * 2) @
             '' lowercase hex chars on segment signature, got '' @ show_nat (length hex) @ '' chars''))
      else decode_chunks ''segment signature'' hex)"

definition verify_seal ::
    "('sk, 'vk) evidence_lib \<Rightarrow> 'vk \<Rightarrow> sealed_segment \<Rightarrow> (evidence_error, unit) result" where
  "verify_seal lib vk s =
     try_then (recompute_all_receipts_canonical_hash lib s) (\<lambda>all_hash.
     try_then (canonical_hash_of lib
       (segment_seal_metadata (segment_id s) (ss_retention_class s) (length (ss_receipts s))
          (unwrap_prev (previous_segment_seal_hash s)) all_hash)) (\<lambda>computed.
       if computed \<noteq> segment_seal_hash s
       then Err (SegmentSealMismatch (segment_seal_hash s) computed)
       else try_then (decode_signature_hex_64 (segment_signature s)) (\<lambda>sig.
            if ed25519_verify lib vk (segment_seal_hash s) sig then Ok ()
            else Err SegmentSignatureMismatch)))"

definition verify_segment_full ::
    "('sk, 'vk) evidence_lib \<Rightarrow> 'vk \<Rightarrow> sealed_segment \<Rightarrow> (evidence_error, unit) result" where
  "verify_segment_full lib vk s =
     try_then (verify_signatures lib vk (ss_receipts s)) (\<lambda>_. verify_seal lib vk s)"

section \<open>The chain of segments\<close>

definition missing_or :: "string option \<Rightarrow> string" where
  "missing_or h = (case h of None \<Rightarrow> ''<missing>'' | Some s \<Rightarrow> s)"

definition genesis_expected :: string where
  "genesis_expected =
     ''<none '' @ [CHR 0xE2, CHR 0x80, CHR 0x94] @ '' genesis segment must carry no previous link>''"

text \<open>The comparison of a segment with its predecessor, which \<open>append\<close> and \<open>verify_chain\<close> share.\<close>

definition check_link :: "nat \<Rightarrow> sealed_segment \<Rightarrow> sealed_segment \<Rightarrow> (evidence_error, unit) result" where
  "check_link index prv cur =
     (case previous_segment_seal_hash cur of
        None \<Rightarrow> Err (SegmentChainBroken index ''<missing previous_segment_seal_hash>'' (segment_seal_hash prv))
      | Some h \<Rightarrow>
          if h \<noteq> segment_seal_hash prv then Err (SegmentChainBroken index h (segment_seal_hash prv))
          else (case previous_segment_id cur of
                  None \<Rightarrow> Err (SegmentChainBroken index ''<missing previous_segment_id>'' (segment_id prv))
                | Some i \<Rightarrow> if i \<noteq> segment_id prv then Err (SegmentChainBroken index i (segment_id prv))
                            else Ok ()))"

definition segment_chain_append ::
    "sealed_segment list \<Rightarrow> sealed_segment \<Rightarrow> (evidence_error, sealed_segment list) result" where
  "segment_chain_append segs s =
     try_then
       (if segs = [] then
          if previous_segment_id s \<noteq> None \<or> previous_segment_seal_hash s \<noteq> None
          then Err (SegmentChainBroken 0 (missing_or (previous_segment_seal_hash s)) genesis_expected)
          else Ok ()
        else check_link (length segs) (last segs) s)
       (\<lambda>_. Ok (segs @ [s]))"

fun walk_segments :: "nat \<Rightarrow> sealed_segment list \<Rightarrow> (evidence_error, unit) result" where
  "walk_segments i (prv # cur # rest) =
     try_then (check_link i prv cur) (\<lambda>_. walk_segments (i + 1) (cur # rest))"
| "walk_segments i _ = Ok ()"

definition verify_chain :: "sealed_segment list \<Rightarrow> (evidence_error, unit) result" where
  "verify_chain segs =
     (case segs of
        [] \<Rightarrow> Ok ()
      | first # _ \<Rightarrow>
          if previous_segment_id first \<noteq> None \<or>
             (case previous_segment_seal_hash first of None \<Rightarrow> False
              | Some h \<Rightarrow> h \<noteq> GENESIS_PREVIOUS_SEGMENT_SEAL_HASH)
          then Err (SegmentChainBroken 0 (missing_or (previous_segment_seal_hash first)) genesis_expected)
          else walk_segments 1 segs)"

fun verify_each :: "(sealed_segment \<Rightarrow> (evidence_error, unit) result) \<Rightarrow> sealed_segment list \<Rightarrow>
    (evidence_error, unit) result" where
  "verify_each f [] = Ok ()"
| "verify_each f (s # ss) = try_then (f s) (\<lambda>_. verify_each f ss)"

definition verify_chain_signed ::
    "('sk, 'vk) evidence_lib \<Rightarrow> 'vk \<Rightarrow> sealed_segment list \<Rightarrow> (evidence_error, unit) result" where
  "verify_chain_signed lib vk segs =
     try_then (verify_chain segs) (\<lambda>_. verify_each (verify_seal lib vk) segs)"

definition verify_chain_full ::
    "('sk, 'vk) evidence_lib \<Rightarrow> 'vk \<Rightarrow> sealed_segment list \<Rightarrow> (evidence_error, unit) result" where
  "verify_chain_full lib vk segs =
     try_then (verify_chain segs) (\<lambda>_. verify_each (verify_segment_full lib vk) segs)"

section \<open>Sealing and verification\<close>

lemma decode_encode_signature_64:
  "length sig = SIGNATURE_LENGTH \<Longrightarrow> decode_signature_hex_64 (encode_signature_hex sig) = Ok sig"
  using decode_encode_chunks [of "''segment signature''" sig] length_encode [of sig]
  by (simp add: decode_signature_hex_64_def encode_signature_hex_def)

lemma segment_seal_Ok_iff:
  "segment_seal lib ulid now_seal now_receipt s prev_id prev_hash sk = Ok ss \<longleftrightarrow>
     seg_receipts s \<noteq> [] \<and> (prev_id = None \<longleftrightarrow> prev_hash = None) \<and>
     (\<exists>all_hash terminal sid seal_hash.
        receipts_hash lib (seg_receipts s) = Ok all_hash \<and>
        sid = segment_id_from_content lib (receipt_id (hd (seg_receipts s)) @ to_rfc3339 lib now_seal) \<and>
        seal_signed lib ulid now_receipt
          (with_payload
            (segment_sealed_payload sid (seg_retention_class s) (length (seg_receipts s)) prev_id prev_hash)
            (builder_new SegmentSealed Forever ''_system:service:evidence-segment-signer''))
          (Some (last (seg_receipts s))) sk = Ok terminal \<and>
        canonical_hash_of lib (segment_seal_metadata sid (seg_retention_class s)
          (Suc (length (seg_receipts s))) (unwrap_prev prev_hash) all_hash) = Ok seal_hash \<and>
        ss = \<lparr>segment_id = sid, ss_retention_class = seg_retention_class s,
              ss_receipts = seg_receipts s @ [terminal], segment_seal_hash = seal_hash,
              segment_signature = encode_signature_hex (ed25519_sign lib sk seal_hash),
              previous_segment_id = prev_id, previous_segment_seal_hash = prev_hash,
              sealed_at = now_seal\<rparr>)"
  by (auto simp: segment_seal_def result_simps Let_def)

lemma seal_signed_record_type:
  "seal_signed lib ulid now b previous sk = Ok r \<Longrightarrow> r_record_type r = b_record_type b"
  by (auto simp: seal_signed_Ok_iff seal_inner_Ok_iff)

text \<open>What sealing adds to the receipts: one terminal receipt, linked and signed.\<close>

lemma segment_seal_terminal:
  assumes "segment_seal lib ulid t t' s prev_id prev_hash sk = Ok ss"
  obtains terminal where "ss_receipts ss = seg_receipts s @ [terminal]"
    and "r_record_type terminal = SegmentSealed"
    and "previous_receipt_hash terminal = link_of lib (last (seg_receipts s))"
    and "link_of lib (last (seg_receipts s)) \<noteq> None"
    and "\<And>vk. key_pair lib sk vk \<Longrightarrow> verify_signature lib vk terminal = Ok ()"
    and "seg_receipts s \<noteq> []"
proof -
  obtain b terminal where seal: "seal_signed lib ulid t' b (Some (last (seg_receipts s))) sk = Ok terminal"
    and b: "b_record_type b = SegmentSealed" and rs: "ss_receipts ss = seg_receipts s @ [terminal]"
    and "seg_receipts s \<noteq> []"
    using assms by (auto simp: segment_seal_Ok_iff with_payload_def builder_new_def)
  have "r_record_type terminal = SegmentSealed"
    using seal_signed_record_type [OF seal] b by simp
  moreover have "previous_receipt_hash terminal = link_of lib (last (seg_receipts s))"
    and "link_of lib (last (seg_receipts s)) \<noteq> None"
    using seal_signed_facts(3) [OF seal] by (auto simp: link_of_def)
  moreover have "verify_signature lib vk terminal = Ok ()" if "key_pair lib sk vk" for vk
    using seal_signed_verifies [OF that seal] .
  ultimately show ?thesis using that [OF rs] \<open>seg_receipts s \<noteq> []\<close> by blast
qed

lemma segment_seal_verifies:
  assumes "key_pair lib sk vk" and "segment_seal lib ulid t t' s prev_id prev_hash sk = Ok ss"
  shows "verify_seal lib vk ss = Ok ()"
proof -
  obtain terminal where rs: "ss_receipts ss = seg_receipts s @ [terminal]"
    and "r_record_type terminal = SegmentSealed"
    using segment_seal_terminal [OF assms(2)] .
  then have "receipts_excluding_terminal ss = seg_receipts s"
    by (simp add: receipts_excluding_terminal_def)
  then obtain all_hash where "recompute_all_receipts_canonical_hash lib ss = Ok all_hash"
    and "canonical_hash_of lib (segment_seal_metadata (segment_id ss) (ss_retention_class ss)
      (length (ss_receipts ss)) (unwrap_prev (previous_segment_seal_hash ss)) all_hash) =
      Ok (segment_seal_hash ss)"
    and "segment_signature ss = encode_signature_hex (ed25519_sign lib sk (segment_seal_hash ss))"
    using assms(2) by (auto simp: segment_seal_Ok_iff recompute_all_receipts_canonical_hash_def)
  then show ?thesis
    using assms(1) by (simp add: verify_seal_def decode_encode_signature_64 key_pair_def)
qed

text \<open>
  Sealing produces a segment that passes every check: if the open segment is a verified,
  fully signed chain, then the sealed segment verifies in full (all receipt signatures, the
  seal hash and the seal signature), and its receipts with the terminal receipt are again a
  verified chain.
\<close>

theorem sealed_segment_verifies:
  assumes "key_pair lib sk vk" and "segment_seal lib ulid t t' s prev_id prev_hash sk = Ok ss"
    and "verify_integrity_signed lib vk (seg_receipts s) = Ok ()"
  shows "verify_segment_full lib vk ss = Ok () \<and> verify_integrity_signed lib vk (ss_receipts ss) = Ok ()"
proof -
  obtain terminal where t: "ss_receipts ss = seg_receipts s @ [terminal]"
    "previous_receipt_hash terminal = link_of lib (last (seg_receipts s))"
    "link_of lib (last (seg_receipts s)) \<noteq> None" "verify_signature lib vk terminal = Ok ()"
    "seg_receipts s \<noteq> []"
    using segment_seal_terminal [OF assms(2)] assms(1) by metis
  then have "chain_append lib (seg_receipts s) terminal = Ok (ss_receipts ss)"
    by (simp add: chain_append_Ok_iff)
  then have "verify_integrity lib (ss_receipts ss) = Ok ()"
    using rc.app_keeps_check t(5) assms(3) by (auto simp: verify_integrity_signed_def result_simps)
  moreover have "verify_signatures lib vk (ss_receipts ss) = Ok ()"
    using assms(3) t by (auto simp: verify_integrity_signed_def result_simps verify_signatures_Ok_iff)
  ultimately show ?thesis
    using segment_seal_verifies [OF assms(1,2)]
    by (simp add: verify_segment_full_def verify_integrity_signed_def)
qed

text \<open>
  The seal does not cover the terminal receipt. Replacing it by any receipt of the same record
  type leaves the verification of the seal unchanged, although a segment is documented to be
  frozen by its seal.
\<close>

theorem terminal_receipt_not_sealed:
  assumes "ss_receipts ss = body @ [terminal]" and "r_record_type terminal = SegmentSealed"
    and "r_record_type other = SegmentSealed"
  shows "verify_seal lib vk (ss\<lparr>ss_receipts := body @ [other]\<rparr>) = verify_seal lib vk ss"
  using assms by (simp add: verify_seal_def recompute_all_receipts_canonical_hash_def
      receipts_excluding_terminal_def cong: if_cong)

section \<open>What the seal commits to\<close>

definition no_collision :: "('sk, 'vk) evidence_lib \<Rightarrow> json \<Rightarrow> json \<Rightarrow> bool" where
  "no_collision lib a b \<longleftrightarrow> (canonical_hash_of lib a = canonical_hash_of lib b \<longrightarrow> a = b)"

definition body_json :: "('sk, 'vk) evidence_lib \<Rightarrow> sealed_segment \<Rightarrow> json" where
  "body_json lib s = JArray (map (receipt_json lib) (receipts_excluding_terminal s))"

definition metadata_json :: "('sk, 'vk) evidence_lib \<Rightarrow> sealed_segment \<Rightarrow> json" where
  "metadata_json lib s =
     segment_seal_metadata (segment_id s) (ss_retention_class s) (length (ss_receipts s))
       (unwrap_prev (previous_segment_seal_hash s))
       (case recompute_all_receipts_canonical_hash lib s of Inl _ \<Rightarrow> [] | Inr h \<Rightarrow> h)"

lemma retention_wire_str_inj: "retention_wire_str a = retention_wire_str b \<longleftrightarrow> a = b"
  by (cases a; cases b) simp_all

lemma verify_seal_hashes:
  assumes "verify_seal lib vk s = Ok ()"
  shows "canonical_hash_of lib (metadata_json lib s) = Ok (segment_seal_hash s)"
    and "\<exists>h. recompute_all_receipts_canonical_hash lib s = Ok h"
  using assms by (auto simp: verify_seal_def metadata_json_def result_simps split: if_splits)

text \<open>
  The seal hash commits to the segment: two segments whose seals verify (under any keys) and
  carry the same seal hash agree on the identifier, the retention class, the link to the
  previous segment and the JSON of every receipt before the terminal one, unless the hash
  collides on their metadata or on their bodies.
\<close>

theorem seal_hash_commits:
  assumes "verify_seal lib vk s = Ok ()" and "verify_seal lib vk' s' = Ok ()"
    and "segment_seal_hash s = segment_seal_hash s'"
    and "no_collision lib (metadata_json lib s) (metadata_json lib s')"
    and "no_collision lib (body_json lib s) (body_json lib s')"
  shows "segment_id s = segment_id s' \<and> ss_retention_class s = ss_retention_class s' \<and>
    unwrap_prev (previous_segment_seal_hash s) = unwrap_prev (previous_segment_seal_hash s') \<and>
    map (receipt_json lib) (receipts_excluding_terminal s) =
    map (receipt_json lib) (receipts_excluding_terminal s')"
proof -
  have meta: "metadata_json lib s = metadata_json lib s'"
    using verify_seal_hashes(1) [OF assms(1)] verify_seal_hashes(1) [OF assms(2)] assms(3,4)
    by (simp add: no_collision_def)
  obtain h h' where "recompute_all_receipts_canonical_hash lib s = Ok h"
    and "recompute_all_receipts_canonical_hash lib s' = Ok h'"
    using verify_seal_hashes(2) [OF assms(1)] verify_seal_hashes(2) [OF assms(2)] by blast
  then have "canonical_hash_of lib (body_json lib s) = canonical_hash_of lib (body_json lib s')"
    using meta by (simp add: metadata_json_def segment_seal_metadata_def body_json_def
        recompute_all_receipts_canonical_hash_def receipts_hash_def)
  then have "body_json lib s = body_json lib s'" using assms(5) by (simp add: no_collision_def)
  then show ?thesis
    using meta by (simp add: metadata_json_def segment_seal_metadata_def body_json_def
        retention_wire_str_inj)
qed

section \<open>The segment chain is a hash-linked log\<close>

definition segment_digest :: "sealed_segment \<Rightarrow> (string \<times> string) option" where
  "segment_digest s = Some (segment_seal_hash s, segment_id s)"

definition segment_prev :: "sealed_segment \<Rightarrow> (string \<times> string) option" where
  "segment_prev s =
     (case (previous_segment_seal_hash s, previous_segment_id s) of
        (Some h, Some i) \<Rightarrow> Some (h, i) | _ \<Rightarrow> None)"

definition genesis_segment :: "sealed_segment \<Rightarrow> bool" where
  "genesis_segment s \<longleftrightarrow> previous_segment_id s = None \<and> previous_segment_seal_hash s = None"

definition accepted_genesis :: "sealed_segment \<Rightarrow> bool" where
  "accepted_genesis s \<longleftrightarrow> previous_segment_id s = None \<and>
     previous_segment_seal_hash s \<in> {None, Some GENESIS_PREVIOUS_SEGMENT_SEAL_HASH}"

lemma check_link_Ok_iff:
  "check_link i prv cur = Ok () \<longleftrightarrow> segment_prev cur \<noteq> None \<and> segment_digest prv = segment_prev cur"
  by (auto simp: check_link_def segment_prev_def segment_digest_def split: option.splits)

lemma walk_segments_Ok_iff:
  "walk_segments i segs = Ok () \<longleftrightarrow>
     successively (\<lambda>a b. segment_prev b \<noteq> None \<and> segment_digest a = segment_prev b) segs"
  by (induction i segs rule: walk_segments.induct) (auto simp: result_simps check_link_Ok_iff)

interpretation sc: linked_log segment_digest segment_prev genesis_segment accepted_genesis
  segment_chain_append verify_chain
proof
  show "verify_chain xs = Ok () \<longleftrightarrow> accepted_genesis (hd xs) \<and>
      successively (\<lambda>a b. segment_prev b \<noteq> None \<and> segment_digest a = segment_prev b) xs"
    if "xs \<noteq> []" for xs
    using that by (cases xs)
      (auto simp: verify_chain_def walk_segments_Ok_iff accepted_genesis_def split: option.splits)
qed (auto simp: segment_chain_append_def result_simps check_link_Ok_iff genesis_segment_def
      accepted_genesis_def segment_prev_def split: if_splits option.splits)

text \<open>
  The last segment commits to the whole chain: two verified chains of segments that end in the
  same identifier and seal hash are equal, unless two different segments of theirs share both.
\<close>

theorem segment_head_commits:
  assumes "verify_chain xs = Ok ()" and "verify_chain ys = Ok ()" and "xs \<noteq> []" and "ys \<noteq> []"
    and "segment_id (last xs) = segment_id (last ys)"
    and "segment_seal_hash (last xs) = segment_seal_hash (last ys)"
    and "\<And>a b. a \<in> set xs \<Longrightarrow> b \<in> set ys \<Longrightarrow> segment_id a = segment_id b \<Longrightarrow>
           segment_seal_hash a = segment_seal_hash b \<Longrightarrow> a = b"
  shows "xs = ys"
  by (rule sc.head_commits [OF assms(1-4), of "(segment_seal_hash (last xs), segment_id (last xs))"])
    (use assms(5-7) in \<open>auto simp: segment_digest_def\<close>)

text \<open>
  Appending and checking disagree on the first segment: one that carries the documented zero
  hash as its link passes \<open>verify_chain\<close>, but \<open>append\<close> refuses it.
\<close>

theorem zero_hash_genesis_refused:
  assumes "previous_segment_id s = None"
    and "previous_segment_seal_hash s = Some GENESIS_PREVIOUS_SEGMENT_SEAL_HASH"
  shows "verify_chain [s] = Ok () \<and>
    segment_chain_append [] s =
      Err (SegmentChainBroken 0 GENESIS_PREVIOUS_SEGMENT_SEAL_HASH genesis_expected)"
  using assms by (simp add: verify_chain_def segment_chain_append_def missing_or_def)

section \<open>Segment identifiers are parsed back\<close>

text \<open>What the code relies on of BLAKE3: the digest is printed as 64 lower-case hex digits.\<close>

definition hex_digests :: "'z text_lib_scheme \<Rightarrow> bool" where
  "hex_digests lib \<longleftrightarrow> (\<forall>s. length (hex_digest lib s) = 64 \<and> list_all is_lower_hex (hex_digest lib s))"

lemma lower_hex_lowercase: "is_lower_hex c \<Longrightarrow> to_ascii_lowercase c = c"
  by (auto simp: is_lower_hex_def is_ascii_digit_def to_ascii_lowercase_def less_eq_char_def)

lemma blake3_truncated_hex:
  assumes "hex_digests lib"
  shows "length (blake3_truncated (hex_digest lib) s) = 32 \<and>
    list_all is_lower_hex (blake3_truncated (hex_digest lib) s)"
  using assms lower_hex_lowercase
  by (auto simp: hex_digests_def blake3_truncated_def Let_def list_all_iff dest: in_set_takeD)

lemma segment_id_roundtrip:
  assumes "hex_digests lib"
  shows "segment_id_parse (segment_id_from_content lib seed) = Ok (segment_id_from_content lib seed)"
  using blake3_truncated_hex [OF assms, of seed]
  by (simp add: segment_id_parse_def segment_id_from_content_def SEGMENT_PREFIX_def
      SEGMENT_BODY_LEN_def strip_prefix_str_def)

section \<open>Concrete runs\<close>

definition sample_segment :: segment where
  "sample_segment =
     \<lparr>seg_retention_class = Standard24M, seg_receipts = [sample_receipt], seg_is_sealed = False\<rparr>"

lemma sample_segment_seals:
  "\<exists>ss. segment_seal sample_evidence_lib ''V'' 1 2 sample_segment None None () = Ok ss"
proof -
  have "trim ''_system:service:evidence-segment-signer'' = ''_system:service:evidence-segment-signer''"
    by (rule trim_not_blank)
      (simp_all add: ws_prefix_def ws_suffix_def unicode_whitespace_def suffix_def)
  then show ?thesis
    by (simp add: segment_seal_def sample_segment_def receipts_hash_def canonical_hash_of_def
        jcs_canonicalize_def sample_evidence_lib_def Let_def seal_signed_def seal_inner_def
        with_payload_def builder_new_def link_hash_def signing_digest_def)
qed

theorem sealed_segment_verifies_witness:
  "\<exists>ss. segment_seal sample_evidence_lib ''V'' 1 2 sample_segment None None () = Ok ss \<and>
     verify_segment_full sample_evidence_lib () ss = Ok () \<and>
     verify_integrity_signed sample_evidence_lib () (ss_receipts ss) = Ok ()"
proof -
  obtain ss where ss: "segment_seal sample_evidence_lib ''V'' 1 2 sample_segment None None () = Ok ss"
    using sample_segment_seals by blast
  have "verify_integrity_signed sample_evidence_lib () (seg_receipts sample_segment) = Ok ()"
    using sample_chain_verifies by (simp add: sample_segment_def)
  from sealed_segment_verifies [OF sample_key_pair ss this] ss show ?thesis by blast
qed

theorem seal_hash_commits_witness:
  "\<exists>ss. verify_seal sample_evidence_lib () ss = Ok () \<and>
     segment_id ss = segment_id (ss\<lparr>sealed_at := 5\<rparr>) \<and> sealed_at ss \<noteq> sealed_at (ss\<lparr>sealed_at := 5\<rparr>)"
proof -
  obtain ss where ss: "segment_seal sample_evidence_lib ''V'' 1 2 sample_segment None None () = Ok ss"
    using sample_segment_seals by blast
  note v = segment_seal_verifies [OF sample_key_pair ss]
  have v': "verify_seal sample_evidence_lib () (ss\<lparr>sealed_at := 5\<rparr>) = Ok ()"
    using v by (simp add: verify_seal_def recompute_all_receipts_canonical_hash_def
        receipts_excluding_terminal_def cong: if_cong)
  have m: "no_collision sample_evidence_lib (metadata_json sample_evidence_lib ss)
      (metadata_json sample_evidence_lib (ss\<lparr>sealed_at := 5\<rparr>))"
    and b: "no_collision sample_evidence_lib (body_json sample_evidence_lib ss)
      (body_json sample_evidence_lib (ss\<lparr>sealed_at := 5\<rparr>))"
    by (simp_all add: no_collision_def metadata_json_def body_json_def
        recompute_all_receipts_canonical_hash_def receipts_excluding_terminal_def)
  have "sealed_at ss = 1" using ss by (auto simp: segment_seal_Ok_iff)
  then show ?thesis using seal_hash_commits [OF v v' _ m b] v by (intro exI [of _ ss]) simp
qed

theorem segment_head_commits_witness:
  "\<exists>ss. verify_chain [ss] = Ok () \<and> [ss] = [ss\<lparr>sealed_at := sealed_at ss\<rparr>]"
proof -
  obtain ss where ss: "segment_seal sample_evidence_lib ''V'' 1 2 sample_segment None None () = Ok ss"
    using sample_segment_seals by blast
  then have v: "verify_chain [ss] = Ok ()" by (auto simp: segment_seal_Ok_iff verify_chain_def)
  then have "[ss] = [ss\<lparr>sealed_at := sealed_at ss\<rparr>]"
    by (intro segment_head_commits) (simp_all add: verify_chain_def)
  then show ?thesis using v by blast
qed

end
