(* ===== verification/Evidence_Compaction.thy ===== *)
theory Evidence_Compaction
  imports Evidence_Segment
begin

text \<open>
  The compaction worker, \<open>compaction.rs\<close>. The trait \<open>CompactionBackend\<close> is a record of its three
  operations; what the trait documents as its duties are the laws of the locale
  \<open>compaction_store\<close>, in which the lemmas about the worker are proved. The in-memory evidence
  log provides the operations.
\<close>

section \<open>Policies, reports, the backend\<close>

datatype compaction_policy = Auto | OperatorApproval | Disabled

fun policy_wire_str :: "compaction_policy \<Rightarrow> string" where
  "policy_wire_str Auto = ''auto''"
| "policy_wire_str OperatorApproval = ''operator_approval''"
| "policy_wire_str Disabled = ''disabled''"

record compaction_report =
  eligible_segments :: nat
  compacted_segments :: nat
  report_awaiting_approval :: nat
  receipts_removed :: nat
  index_entries_pruned :: nat

definition empty_report :: compaction_report where
  "empty_report =
     \<lparr>eligible_segments = 0, compacted_segments = 0, report_awaiting_approval = 0,
      receipts_removed = 0, index_entries_pruned = 0\<rparr>"

type_synonym segment_row = "string \<times> retention_class \<times> instant"

record 'b compaction_backend =
  list_sealed_segments :: "'b \<Rightarrow> (evidence_error, segment_row list) result"
  compact_segment :: "string \<Rightarrow> 'b \<Rightarrow> (evidence_error, nat \<times> nat) result \<times> 'b"
  emit_approval_required :: "string \<Rightarrow> 'b \<Rightarrow> (evidence_error, unit) result \<times> 'b"

section \<open>The worker\<close>

record compaction_worker =
  cw_policy :: compaction_policy
  cw_awaiting_approval :: "string set"
  cw_approved :: "string set"

definition worker_new :: "compaction_policy \<Rightarrow> compaction_worker" where
  "worker_new p = \<lparr>cw_policy = p, cw_awaiting_approval = {}, cw_approved = {}\<rparr>"

definition approve_segment :: "string \<Rightarrow> compaction_worker \<Rightarrow> compaction_worker" where
  "approve_segment sid w =
     w\<lparr>cw_approved := insert sid (cw_approved w),
       cw_awaiting_approval := cw_awaiting_approval w - {sid}\<rparr>"

text \<open>Compacting one segment inside the loop: the call, the report and the two sets.\<close>

definition compact_one ::
    "'b compaction_backend \<Rightarrow> string \<Rightarrow> compaction_report \<Rightarrow> compaction_worker \<Rightarrow> 'b \<Rightarrow>
     (evidence_error, compaction_report) result \<times> compaction_worker \<times> 'b" where
  "compact_one ops sid rep w b =
     (case compact_segment ops sid b of
        (Inl e, b') \<Rightarrow> (Err e, w, b')
      | (Inr (removed, pruned), b') \<Rightarrow>
          (Ok (rep\<lparr>compacted_segments := compacted_segments rep + 1,
                   receipts_removed := receipts_removed rep + removed,
                   index_entries_pruned := index_entries_pruned rep + pruned\<rparr>),
           w\<lparr>cw_approved := cw_approved w - {sid},
             cw_awaiting_approval := cw_awaiting_approval w - {sid}\<rparr>, b'))"

definition tick_segment ::
    "'b compaction_backend \<Rightarrow> instant \<Rightarrow> segment_row \<Rightarrow> compaction_report \<Rightarrow> compaction_worker \<Rightarrow> 'b \<Rightarrow>
     (evidence_error, compaction_report) result \<times> compaction_worker \<times> 'b" where
  "tick_segment ops now row rep w b =
     (case row of (sid, rc, sealed) \<Rightarrow>
        if \<not> retention_eligible rc sealed now then (Ok rep, w, b)
        else
          let rep = rep\<lparr>eligible_segments := eligible_segments rep + 1\<rparr> in
          case cw_policy w of
            Auto \<Rightarrow> compact_one ops sid rep w b
          | OperatorApproval \<Rightarrow>
              if sid \<in> cw_approved w then compact_one ops sid rep w b
              else if sid \<in> cw_awaiting_approval w
              then (Ok (rep\<lparr>report_awaiting_approval := report_awaiting_approval rep + 1\<rparr>), w, b)
              else (case emit_approval_required ops sid b of
                      (Inl e, b') \<Rightarrow> (Err e, w, b')
                    | (Inr _, b') \<Rightarrow>
                        (Ok (rep\<lparr>report_awaiting_approval := report_awaiting_approval rep + 1\<rparr>),
                         w\<lparr>cw_awaiting_approval := insert sid (cw_awaiting_approval w)\<rparr>, b'))
          | Disabled \<Rightarrow> (Ok rep, w, b))"

fun tick_loop ::
    "'b compaction_backend \<Rightarrow> instant \<Rightarrow> segment_row list \<Rightarrow> compaction_report \<Rightarrow> compaction_worker \<Rightarrow> 'b \<Rightarrow>
     (evidence_error, compaction_report) result \<times> compaction_worker \<times> 'b" where
  "tick_loop ops now [] rep w b = (Ok rep, w, b)"
| "tick_loop ops now (row # rows) rep w b =
     (case tick_segment ops now row rep w b of
        (Inl e, w', b') \<Rightarrow> (Err e, w', b')
      | (Inr rep', w', b') \<Rightarrow> tick_loop ops now rows rep' w' b')"

definition tick ::
    "'b compaction_backend \<Rightarrow> instant \<Rightarrow> compaction_worker \<Rightarrow> 'b \<Rightarrow>
     (evidence_error, compaction_report) result \<times> compaction_worker \<times> 'b" where
  "tick ops now w b =
     (case list_sealed_segments ops b of
        Inl e \<Rightarrow> (Err e, w, b)
      | Inr rows \<Rightarrow> tick_loop ops now rows empty_report w b)"

section \<open>One step of the loop\<close>

text \<open>
  What one row can do to the backend: nothing, one compaction of an eligible segment, or one
  request for approval.
\<close>

inductive row_effect ::
    "'b compaction_backend \<Rightarrow> instant \<Rightarrow> compaction_worker \<Rightarrow> segment_row \<Rightarrow> 'b \<Rightarrow> 'b \<Rightarrow> bool"
  for ops now w where
  untouched: "row_effect ops now w row b b"
| compacted: "retention_eligible rc sealed now \<Longrightarrow>
    cw_policy w = Auto \<or> cw_policy w = OperatorApproval \<and> sid \<in> cw_approved w \<Longrightarrow>
    b' = snd (compact_segment ops sid b) \<Longrightarrow> row_effect ops now w (sid, rc, sealed) b b'"
| requested: "retention_eligible rc sealed now \<Longrightarrow> cw_policy w = OperatorApproval \<Longrightarrow>
    sid \<notin> cw_approved w \<Longrightarrow> sid \<notin> cw_awaiting_approval w \<Longrightarrow>
    b' = snd (emit_approval_required ops sid b) \<Longrightarrow> row_effect ops now w (sid, rc, sealed) b b'"

inductive_cases row_effectE [elim]: "row_effect ops now w row b b'"

lemma compact_one_worker:
  "compact_one ops sid rep w b = (res, w', b') \<Longrightarrow>
     cw_policy w' = cw_policy w \<and> cw_approved w' \<subseteq> cw_approved w \<and>
     cw_awaiting_approval w' \<subseteq> cw_awaiting_approval w \<and> b' = snd (compact_segment ops sid b)"
  by (auto simp: compact_one_def split: prod.splits sum.splits)

lemma tick_segment_effect:
  assumes "tick_segment ops now row rep w b = (res, w', b')"
  shows "cw_policy w' = cw_policy w" and "cw_approved w' \<subseteq> cw_approved w"
    and "row_effect ops now w row b b'"
proof -
  obtain sid rc sealed where row: "row = (sid, rc, sealed)" by (cases row)
  show "cw_policy w' = cw_policy w" and "cw_approved w' \<subseteq> cw_approved w"
    using assms unfolding row
    by (auto simp: tick_segment_def Let_def split: if_splits compaction_policy.splits prod.splits
        sum.splits dest: compact_one_worker)
  show "row_effect ops now w row b b'"
    using assms unfolding row
    by (auto simp: tick_segment_def Let_def split: if_splits compaction_policy.splits prod.splits
        sum.splits dest!: compact_one_worker intro: row_effect.intros)
qed

text \<open>An approval is only consumed by the compaction of its segment.\<close>

lemma compact_one_approved:
  "compact_one ops sid rep w b = (res, w', b') \<Longrightarrow>
     cw_approved w' = cw_approved w - {sid} \<or> cw_approved w' = cw_approved w"
  by (auto simp: compact_one_def split: prod.splits sum.splits)

lemma tick_segment_approved:
  assumes "tick_segment ops now row rep w b = (res, w', b')"
  shows "cw_approved w' = cw_approved w \<or>
    cw_approved w' = cw_approved w - {fst row} \<and> b' = snd (compact_segment ops (fst row) b)"
proof (cases row)
  case (fields sid rc sealed)
  show ?thesis
    using assms unfolding fields
    by (auto simp: tick_segment_def Let_def split: if_splits compaction_policy.splits prod.splits
        sum.splits dest: compact_one_approved compact_one_worker)
qed

text \<open>An invariant of the backend that every effect of a row keeps is kept by a tick.\<close>

lemma tick_loop_invariant:
  assumes "tick_loop ops now rows rep w b = (res, w', b')" and "P b"
    and "\<And>w\<^sub>1 row b b'. cw_policy w\<^sub>1 = cw_policy w \<Longrightarrow> cw_approved w\<^sub>1 \<subseteq> cw_approved w \<Longrightarrow>
           row \<in> set rows \<Longrightarrow> row_effect ops now w\<^sub>1 row b b' \<Longrightarrow> P b \<Longrightarrow> P b'"
  shows "P b' \<and> cw_policy w' = cw_policy w \<and> cw_approved w' \<subseteq> cw_approved w"
  using assms
proof (induction ops now rows rep w b rule: tick_loop.induct)
  case (2 ops now row rows rep w b)
  obtain r1 w1 b1 where step: "tick_segment ops now row rep w b = (r1, w1, b1)" by (metis prod_cases3)
  note eff = tick_segment_effect [OF step]
  have P1: "P b1" using "2.prems"(2) "2.prems"(3) [of w row b b1] eff by simp
  show ?case
  proof (cases r1)
    case (Inl e)
    then show ?thesis using "2.prems"(1) step P1 eff by simp
  next
    case (Inr rep1)
    have "P b' \<and> cw_policy w' = cw_policy w1 \<and> cw_approved w' \<subseteq> cw_approved w1"
    proof (rule "2.IH" [OF step [symmetric] Inr refl _ P1])
      show "tick_loop ops now rows rep1 w1 b1 = (res, w', b')" using "2.prems"(1) step Inr by simp
      fix w\<^sub>1 row' c c'
      assume "cw_policy w\<^sub>1 = cw_policy w1" and "cw_approved w\<^sub>1 \<subseteq> cw_approved w1"
        and "row' \<in> set rows" and "row_effect ops now w\<^sub>1 row' c c'" and "P c"
      then show "P c'" using "2.prems"(3) [of w\<^sub>1 row' c c'] eff by auto
    qed
    then show ?thesis using eff by auto
  qed
qed simp

section \<open>The contract of a backend\<close>

definition row_of :: "sealed_segment \<Rightarrow> segment_row" where
  "row_of s = (segment_id s, ss_retention_class s, sealed_at s)"

definition may_compact :: "compaction_worker \<Rightarrow> string \<Rightarrow> bool" where
  "may_compact w sid \<longleftrightarrow> cw_policy w = Auto \<or> cw_policy w = OperatorApproval \<and> sid \<in> cw_approved w"

locale compaction_store =
  fixes ops :: "'b compaction_backend"
    and headers :: "'b \<Rightarrow> sealed_segment list"
    and warm :: "'b \<Rightarrow> string \<Rightarrow> nat"
  assumes list_Ok: "list_sealed_segments ops b =
      Ok (map row_of (filter (\<lambda>s. 0 < warm b (segment_id s)) (headers b)))"
    and compact_headers: "headers (snd (compact_segment ops sid b)) = headers b"
    and compact_warm: "warm (snd (compact_segment ops sid b)) = (warm b)(sid := 0)"
    and emit_headers: "headers (snd (emit_approval_required ops sid b)) = headers b"
    and emit_warm: "warm (snd (emit_approval_required ops sid b)) = warm b"
begin

lemma effect_headers: "row_effect ops now w row b b' \<Longrightarrow> headers b' = headers b"
  by (auto simp: compact_headers emit_headers)

lemma effect_warm:
  "row_effect ops now w (sid, rc, sealed) b b' \<Longrightarrow>
     warm b' = warm b \<or>
     warm b' = (warm b)(sid := 0) \<and> retention_eligible rc sealed now \<and> may_compact w sid"
  by (auto simp: compact_warm emit_warm may_compact_def)

lemma tick_unfold:
  "tick ops now w b =
     tick_loop ops now (map row_of (filter (\<lambda>s. 0 < warm b (segment_id s)) (headers b))) empty_report w b"
  by (simp add: tick_def list_Ok)

text \<open>The chain of sealed headers is never touched.\<close>

lemma tick_headers:
  assumes "tick ops now w b = (res, w', b')"
  shows "headers b' = headers b"
  using tick_loop_invariant [OF assms [unfolded tick_unfold], of "\<lambda>c. headers c = headers b"]
    effect_headers by fastforce

text \<open>Bodies only go away for eligible segments that may be compacted.\<close>

lemma tick_only_eligible:
  assumes "tick ops now w b = (res, w', b')" and "warm b' sid \<noteq> warm b sid"
  shows "\<exists>s \<in> set (headers b). segment_id s = sid \<and> is_compaction_eligible s now \<and> may_compact w sid"
proof (rule ccontr)
  assume no: "\<not> ?thesis"
  have "warm b' sid = warm b sid"
  proof (rule conjunct1 [OF tick_loop_invariant [OF assms(1) [unfolded tick_unfold]]])
    fix w1 row c c'
    assume w1: "cw_policy w1 = cw_policy w" "cw_approved w1 \<subseteq> cw_approved w"
      and row: "row \<in> set (map row_of (filter (\<lambda>s. 0 < warm b (segment_id s)) (headers b)))"
      and eff: "row_effect ops now w1 row c c'" and same: "warm c sid = warm b sid"
    obtain s where s: "s \<in> set (headers b)" "row = (segment_id s, ss_retention_class s, sealed_at s)"
      using row by (auto simp: row_of_def)
    have "may_compact w1 x \<Longrightarrow> may_compact w x" for x
      using w1 by (auto simp: may_compact_def)
    then have "segment_id s \<noteq> sid \<or> warm c' = warm c"
      using effect_warm [OF eff [unfolded s(2)]] no s(1)
      by (auto simp: is_compaction_eligible_def)
    then show "warm c' sid = warm b sid"
      using effect_warm [OF eff [unfolded s(2)]] same by auto
  qed simp
  then show False using assms(2) by simp
qed

lemma loop_keeps_cold:
  assumes "tick_loop ops now rows rep w b = (res, w', b')" and "warm b sid = 0"
  shows "warm b' sid = 0"
proof (rule conjunct1 [OF tick_loop_invariant [OF assms(1), of "\<lambda>c. warm c sid = 0", OF assms(2)]])
  fix w1 row c c' assume "row_effect ops now w1 row c c'" and "warm c sid = 0"
  then show "warm c' sid = 0"
    by (cases row) (use effect_warm in \<open>fastforce split: if_splits\<close>)
qed

lemma compact_one_cold:
  assumes "compact_one ops sid rep w b = (res, w', b')"
  shows "warm b' sid = 0"
  using compact_one_worker [OF assms] by (simp add: compact_warm)

lemma step_compacts:
  assumes "tick_segment ops now (sid, rc, sealed) rep w b = (res, w', b')"
    and "retention_eligible rc sealed now" and "may_compact w sid"
  shows "warm b' sid = 0"
proof -
  obtain rep' where "compact_one ops sid rep' w b = (res, w', b')"
    using assms by (auto simp: tick_segment_def may_compact_def Let_def)
  then show ?thesis by (rule compact_one_cold)
qed

lemma step_keeps_approval:
  assumes "tick_segment ops now row rep w b = (res, w', b')" and "may_compact w sid"
  shows "may_compact w' sid \<or> warm b' sid = 0"
  using tick_segment_approved [OF assms(1)]
proof
  assume "cw_approved w' = cw_approved w"
  then show ?thesis
    using tick_segment_effect(1) [OF assms(1)] assms(2) by (simp add: may_compact_def)
next
  assume c: "cw_approved w' = cw_approved w - {fst row} \<and> b' = snd (compact_segment ops (fst row) b)"
  show ?thesis
  proof (cases "fst row = sid")
    case True
    then have "warm b' = (warm b)(sid := 0)" using c compact_warm by simp
    then show ?thesis by simp
  next
    case False
    then show ?thesis
      using c tick_segment_effect(1) [OF assms(1)] assms(2) by (simp add: may_compact_def)
  qed
qed

lemma loop_compacts:
  assumes "tick_loop ops now rows rep w b = (Ok rep', w', b')"
    and "(sid, rc, sealed) \<in> set rows" and "retention_eligible rc sealed now" and "may_compact w sid"
  shows "warm b' sid = 0"
  using assms
proof (induction rows arbitrary: rep w b)
  case (Cons row rows)
  obtain r1 w1 b1 where step: "tick_segment ops now row rep w b = (r1, w1, b1)" by (metis prod_cases3)
  then obtain rep1 where rest: "tick_loop ops now rows rep1 w1 b1 = (Ok rep', w', b')"
    using Cons.prems(1) by (auto split: sum.splits)
  show ?case
  proof (cases "warm b1 sid = 0")
    case True
    then show ?thesis using loop_keeps_cold [OF rest] by simp
  next
    case False
    have "row \<noteq> (sid, rc, sealed)"
      using False step_compacts [of now sid rc sealed rep w b r1 w1 b1] step Cons.prems(3,4) by auto
    moreover have "may_compact w1 sid"
      using False step_keeps_approval [OF step Cons.prems(4)] by simp
    ultimately show ?thesis using Cons.IH [OF rest] Cons.prems(2,3) by auto
  qed
qed simp

lemma tick_compacts:
  assumes "tick ops now w b = (Ok rep, w', b')" and "s \<in> set (headers b)"
    and "is_compaction_eligible s now" and "may_compact w (segment_id s)"
  shows "warm b' (segment_id s) = 0"
proof (cases "warm b (segment_id s) = 0")
  case True
  then show ?thesis using loop_keeps_cold assms(1) unfolding tick_unfold by blast
next
  case False
  then have "row_of s \<in> set (map row_of (filter (\<lambda>s. 0 < warm b (segment_id s)) (headers b)))"
    using assms(2) by simp
  then show ?thesis
    using loop_compacts [OF assms(1) [unfolded tick_unfold]] assms(3,4)
    by (simp add: row_of_def is_compaction_eligible_def)
qed

end

section \<open>The report\<close>

definition balanced :: "compaction_policy \<Rightarrow> compaction_report \<Rightarrow> bool" where
  "balanced p rep \<longleftrightarrow> compacted_segments rep + report_awaiting_approval rep =
     (if p = Disabled then 0 else eligible_segments rep)"

lemma tick_segment_balanced:
  "tick_segment ops now row rep w b = (Ok rep', w', b') \<Longrightarrow> balanced (cw_policy w) rep \<Longrightarrow>
     balanced (cw_policy w) rep'"
  by (cases row) (auto simp: tick_segment_def compact_one_def balanced_def Let_def
      split: if_splits compaction_policy.splits prod.splits sum.splits)

lemma tick_loop_balanced:
  "tick_loop ops now rows rep w b = (Ok rep', w', b') \<Longrightarrow> balanced (cw_policy w) rep \<Longrightarrow>
     balanced (cw_policy w) rep'"
proof (induction rows arbitrary: rep w b)
  case (Cons row rows)
  obtain r1 w1 b1 where step: "tick_segment ops now row rep w b = (r1, w1, b1)" by (metis prod_cases3)
  then obtain rep1 where r1: "r1 = Ok rep1" and rest: "tick_loop ops now rows rep1 w1 b1 = (Ok rep', w', b')"
    using Cons.prems(1) by (auto split: sum.splits)
  have "cw_policy w1 = cw_policy w" using tick_segment_effect(1) [OF step] .
  then show ?case
    using Cons.IH [OF rest] tick_segment_balanced [OF step [unfolded r1] Cons.prems(2)] by simp
qed simp

text \<open>
  The report of a tick adds up, on every backend: each eligible segment is either compacted or
  awaits approval, and a disabled worker does neither.
\<close>

theorem report_balanced:
  assumes "tick ops now w b = (Ok rep, w', b')"
  shows "compacted_segments rep + report_awaiting_approval rep =
    (if cw_policy w = Disabled then 0 else eligible_segments rep)"
  using assms tick_loop_balanced [of ops now _ empty_report w b rep w' b']
  by (auto simp: tick_def balanced_def empty_report_def split: sum.splits)

end
