(* ===== verification/Evidence_Privacy.thy ===== *)
theory Evidence_Privacy
  imports Evidence_Receipt
begin

text \<open>
  The privacy ceiling of readers, \<open>privacy.rs\<close>: which receipts a caller may see. The decision
  procedure with its early returns is compared with a declarative rule per kind of caller.
\<close>

section \<open>Subjects and public records\<close>

definition split_once :: "char \<Rightarrow> string \<Rightarrow> (string \<times> string) option" where
  "split_once c s =
     (if c \<in> set s then Some (takeWhile (\<lambda>d. d \<noteq> c) s, tl (dropWhile (\<lambda>d. d \<noteq> c) s)) else None)"

definition subject_primary_group :: "string \<Rightarrow> string option" where
  "subject_primary_group sid =
     Option.bind (split_once (CHR '':'') sid) (\<lambda>(_, after_kind).
     Option.bind (split_once (CHR ''/'') after_kind) (\<lambda>(group, _).
       if group = [] then None else Some group))"

definition receipt_subject_is_system :: "string \<Rightarrow> bool" where
  "receipt_subject_is_system sid \<longleftrightarrow> prefix ''_system'' sid"

definition public_record_names :: "string list" where
  "public_record_names = [
    ''POLICY_DECISION'', ''APPROVAL_REQUESTED'', ''APPROVAL_GRANTED'', ''APPROVAL_DENIED'',
    ''RECOVERY_EVENT'', ''CHAIN_CHECKPOINT'', ''SEGMENT_SEALED'',
    ''CHAIN_INCONSISTENCY_DETECTED'', ''TAMPER_DETECTED'', ''EMERGENCY_OVERRIDE_GRANT'',
    ''POLICY_BUNDLE_LOAD'', ''SYSTEM_ADMIN_OPERATION'', ''CROSS_GROUP_ACCESS_DENIED'',
    ''RECOVERY_BOOT_ENTERED'', ''RECOVERY_OPERATOR_AUTHENTICATED'',
    ''RECOVERY_OPERATION_PERFORMED'', ''RECOVERY_TTL_EXPIRED_AUTO_REBOOT'',
    ''RECOVERY_BOOT_EXITED'', ''RECOVERY_L5_START_BLOCKED'',
    ''RECOVERY_FORENSIC_ATTACH_PERFORMED'', ''BOOT_FAILURE_AUTO_RECOVERY_TRIGGERED'',
    ''FIRST_BOOT_STARTED'', ''FIRST_BOOT_STAGE_COMPLETED'', ''FIRST_BOOT_FAILED'',
    ''FIRST_BOOT_COMPLETE'', ''RESET_TO_FACTORY_INITIATED'', ''FIRST_BOOT_OPERATION'',
    ''IDENTITY_BUNDLE_LOADED'', ''INVARIANT_BUNDLE_LOADED'', ''INVARIANT_BUNDLE_REJECTED'',
    ''POLICY_BUNDLE_REJECTED'', ''IDENTITY_BUNDLE_REJECTED'', ''CAPABILITY_BUNDLE_REJECTED'',
    ''SANDBOX_BUNDLE_REJECTED'', ''OVERRIDE_REQUESTED'', ''OVERRIDE_QUORUM_RECEIVED'',
    ''OVERRIDE_GRANTED'', ''OVERRIDE_CONSUMED'', ''OVERRIDE_DENIED'', ''OVERRIDE_EXPIRED'',
    ''OVERRIDE_REVOKED'', ''OVERRIDE_REVIEW'', ''COMPACTION_APPROVAL_REQUIRED'']"

definition is_constitutionally_public_record_type :: "record_type \<Rightarrow> bool" where
  "is_constitutionally_public_record_type rt \<longleftrightarrow> as_wire_str rt \<in> set public_record_names"

section \<open>The ceiling\<close>

record privacy_ceiling =
  pc_subject_canonical_id :: string
  pc_primary_group :: "string option"
  pc_is_ai :: bool
  pc_is_recovery_mode :: bool

definition from_caller :: "string \<Rightarrow> string option \<Rightarrow> bool \<Rightarrow> bool \<Rightarrow> privacy_ceiling" where
  "from_caller sid grp ai rec =
     \<lparr>pc_subject_canonical_id = sid, pc_primary_group = grp, pc_is_ai = ai,
      pc_is_recovery_mode = rec\<rparr>"

definition system_caller :: privacy_ceiling where
  "system_caller =
     \<lparr>pc_subject_canonical_id = [], pc_primary_group = None, pc_is_ai = False,
      pc_is_recovery_mode = False\<rparr>"

definition is_system_caller :: "privacy_ceiling \<Rightarrow> bool" where
  "is_system_caller c \<longleftrightarrow> pc_subject_canonical_id c = []"

definition admits_wire :: "privacy_ceiling \<Rightarrow> string \<Rightarrow> record_type \<Rightarrow> bool" where
  "admits_wire c receipt_subject rt =
     (if is_system_caller c then True
      else if receipt_subject = pc_subject_canonical_id c then True
      else
        let is_public_record = is_constitutionally_public_record_type rt in
        if is_public_record \<and> \<not> pc_is_ai c then True
        else if pc_is_ai c
        then (if is_public_record \<and> receipt_subject_is_system receipt_subject then True else False)
        else if (case pc_primary_group c of None \<Rightarrow> False
                 | Some caller_group \<Rightarrow>
                     (case subject_primary_group receipt_subject of None \<Rightarrow> False
                      | Some receipt_group \<Rightarrow> receipt_group = caller_group)) then True
        else if pc_is_recovery_mode c \<and> retention_class_for rt = Forever then True
        else False)"

definition admits :: "privacy_ceiling \<Rightarrow> evidence_receipt \<Rightarrow> bool" where
  "admits c r = admits_wire c (r_subject_canonical_id r) (r_record_type r)"

section \<open>Who sees what\<close>

text \<open>
  The ceiling is the documented rule. A named AI caller sees its own receipts and the public
  records about the system, in recovery mode or not, whatever its group. A named caller that
  is not an AI sees its own receipts, the public records, the receipts of its group and, in
  recovery mode, the records kept forever. Nobody else sees anything, except that the empty
  caller name sees everything.
\<close>

theorem ceiling_rule:
  "admits_wire c sid rt \<longleftrightarrow>
     pc_subject_canonical_id c = [] \<or> sid = pc_subject_canonical_id c \<or>
     (if pc_is_ai c
      then is_constitutionally_public_record_type rt \<and> prefix ''_system'' sid
      else is_constitutionally_public_record_type rt \<or>
           (pc_primary_group c \<noteq> None \<and> subject_primary_group sid = pc_primary_group c) \<or>
           (pc_is_recovery_mode c \<and> retention_class_for rt = Forever))"
  by (auto simp: admits_wire_def is_system_caller_def receipt_subject_is_system_def Let_def
      split: option.splits)

text \<open>
  The empty caller name, documented as a test-only shortcut, is what a request without a
  subject produces; it lifts the ceiling even for a caller that declares itself an AI.
\<close>

theorem anonymous_caller_sees_all: "admits_wire (from_caller [] grp True rec) sid rt"
  by (simp add: admits_wire_def is_system_caller_def from_caller_def)

end
