(* ===== verification/Evidence_Log.thy ===== *)
theory Evidence_Log
  imports Evidence_Compaction Evidence_Privacy
begin

text \<open>
  The in-memory evidence log behind the gRPC service, \<open>service/impl_inmemory.rs\<close>, with the
  conversions it uses (\<open>service/conversions.rs\<close>). The generated protobuf enum appears as two
  lookups between names and numbers. The broadcast channel is the sequence of receipts sent on
  it; a subscription remembers from where it reads. Timestamps of requests arrive converted.
\<close>

section \<open>Wire forms\<close>

record proto_lib =
  from_str_name :: "string \<Rightarrow> int option"
  str_name_of :: "int \<Rightarrow> string option"

definition record_type_to_proto :: "proto_lib \<Rightarrow> record_type \<Rightarrow> int" where
  "record_type_to_proto pl rt =
     (case from_str_name pl (as_wire_str rt) of None \<Rightarrow> 0 | Some n \<Rightarrow> n)"

definition record_type_from_wire_str :: "string \<Rightarrow> (evidence_error, record_type) result" where
  "record_type_from_wire_str name =
     (if name = ''RECORD_TYPE_UNSPECIFIED''
      then Err (EncodingFailed
             ''wire RecordType is RECORD_TYPE_UNSPECIFIED (proto3 default); rejecting'')
      else if name \<in> set record_names then Ok (RecordType name)
      else Err (EncodingFailed (''wire RecordType `'' @ name @ ''` is not part of the closed '' @
             [CHR 0xC2, CHR 0xA7] @ ''29 vocabulary'')))"

definition record_type_from_proto_i32 ::
    "proto_lib \<Rightarrow> (int \<Rightarrow> string) \<Rightarrow> int \<Rightarrow> (evidence_error, record_type) result" where
  "record_type_from_proto_i32 pl show_int v =
     (case str_name_of pl v of
        None \<Rightarrow> Err (EncodingFailed (''wire RecordType value '' @ show_int v @
                    '' is outside the proto vocabulary''))
      | Some name \<Rightarrow> record_type_from_wire_str name)"

record wire_receipt =
  w_receipt_id :: string
  w_recorded_at :: instant
  w_record_type :: int
  w_subject :: string
  w_action_id :: string
  w_correlation_id :: string
  w_payload_hash :: string
  w_redaction_profile :: string
  w_previous_receipt_hash :: string

definition receipt_to_proto :: "proto_lib \<Rightarrow> evidence_receipt \<Rightarrow> wire_receipt" where
  "receipt_to_proto pl r =
     \<lparr>w_receipt_id = receipt_id r, w_recorded_at = recorded_at r,
      w_record_type = record_type_to_proto pl (r_record_type r),
      w_subject = r_subject_canonical_id r,
      w_action_id = (case r_action_id r of None \<Rightarrow> [] | Some a \<Rightarrow> a),
      w_correlation_id = [], w_payload_hash = content_hash r,
      w_redaction_profile = profile_wire_str (r_redaction_profile r),
      w_previous_receipt_hash = (case previous_receipt_hash r of None \<Rightarrow> [] | Some h \<Rightarrow> h)\<rparr>"

datatype ev_status =
    EvStatus ev_code string
  | EvError evidence_error
  | EvInvalidActionId id_error

text \<open>\<open>Iterator::collect\<close> into a \<open>Result\<close>: stop at the first error.\<close>

fun collect_results :: "('a \<Rightarrow> ('e, 'b) result) \<Rightarrow> 'a list \<Rightarrow> ('e, 'b list) result" where
  "collect_results f [] = Ok []"
| "collect_results f (x # xs) =
     try_then (f x) (\<lambda>y. try_then (collect_results f xs) (\<lambda>ys. Ok (y # ys)))"

fun map_err :: "('e \<Rightarrow> 'f) \<Rightarrow> ('e, 'a) result \<Rightarrow> ('f, 'a) result" where
  "map_err f (Inl e) = Inl (f e)"
| "map_err f (Inr a) = Inr a"

section \<open>The log\<close>

record 'sk evidence_log =
  el_chain :: "evidence_receipt list"
  el_previous_segment_link :: "(string \<times> string) option"
  el_sealed :: "sealed_segment list"
  el_warm_receipt_count :: "(string \<times> nat) list"
  el_warm_index_count :: "(string \<times> nat) list"
  el_signing_key :: 'sk
  el_live :: "wire_receipt list"
  el_started_at :: instant
  el_log_id :: string

definition evidence_log_new :: "'sk \<Rightarrow> string \<Rightarrow> instant \<Rightarrow> 'sk evidence_log" where
  "evidence_log_new sk ulid now =
     \<lparr>el_chain = [], el_previous_segment_link = None, el_sealed = [], el_warm_receipt_count = [],
      el_warm_index_count = [], el_signing_key = sk, el_live = [], el_started_at = now,
      el_log_id = ''aios-evidence-log/'' @ id_new EvidenceReceiptId ulid\<rparr>"

definition last_option :: "'a list \<Rightarrow> 'a option" where
  "last_option xs = (if xs = [] then None else Some (last xs))"

text \<open>Sealing a builder after the head of the chain, appending it and sending it to the
  subscribers: the common end of \<open>append\<close> and \<open>emit_approval_required\<close>.\<close>

definition commit_receipt ::
    "('sk, 'vk) evidence_lib \<Rightarrow> proto_lib \<Rightarrow> string \<Rightarrow> instant \<Rightarrow> receipt_builder \<Rightarrow> 'sk evidence_log \<Rightarrow>
     (evidence_error, wire_receipt) result \<times> 'sk evidence_log" where
  "commit_receipt lib pl ulid now b log =
     (case try_then (seal_signed lib ulid now b (last_option (el_chain log)) (el_signing_key log))
             (\<lambda>r. try_then (chain_append lib (el_chain log) r) (\<lambda>chain. Ok (r, chain))) of
        Inl e \<Rightarrow> (Err e, log)
      | Inr (r, chain) \<Rightarrow>
          (Ok (receipt_to_proto pl r),
           log\<lparr>el_chain := chain, el_live := el_live log @ [receipt_to_proto pl r]\<rparr>))"

record append_request =
  ar_record_type :: int
  ar_subject :: string
  ar_action_id :: string

definition DEFAULT_RETENTION :: retention_class where
  "DEFAULT_RETENTION = Standard24M"

record wire_env =
  we_proto :: proto_lib
  we_show_int :: "int \<Rightarrow> string"
  we_ulid_from_string :: ulid_from_string

definition log_append ::
    "('sk, 'vk) evidence_lib \<Rightarrow> wire_env \<Rightarrow> string \<Rightarrow> instant \<Rightarrow> append_request \<Rightarrow> 'sk evidence_log \<Rightarrow>
     (ev_status, wire_receipt) result \<times> 'sk evidence_log" where
  "log_append lib we ulid now req log =
     (case record_type_from_proto_i32 (we_proto we) (we_show_int we) (ar_record_type req) of
        Inl e \<Rightarrow> (Err (EvError e), log)
      | Inr rt \<Rightarrow>
          if trim (ar_subject req) = []
          then (Err (EvStatus InvalidArgument
                  ''AppendRequest.subject must be non-empty (S5.1 canonical id)''), log)
          else
            let b = builder_new rt DEFAULT_RETENTION (ar_subject req) in
            case (if ar_action_id req = [] then Ok b
                  else try_then (id_parse (we_ulid_from_string we) ActionId (ar_action_id req))
                         (\<lambda>a. Ok (with_action_id a b))) of
              Inl e \<Rightarrow> (Err (EvInvalidActionId e), log)
            | Inr b \<Rightarrow>
                (case commit_receipt lib (we_proto we) ulid now b log of
                   (res, log') \<Rightarrow> (map_err EvError res, log')))"

fun segment_append_all :: "segment \<Rightarrow> evidence_receipt list \<Rightarrow> (evidence_error, segment) result" where
  "segment_append_all s [] = Ok s"
| "segment_append_all s (r # rs) = try_then (segment_append s r) (\<lambda>s'. segment_append_all s' rs)"

definition seal_current_segment ::
    "('sk, 'vk) evidence_lib \<Rightarrow> string \<Rightarrow> instant \<Rightarrow> instant \<Rightarrow> retention_class \<Rightarrow> 'sk evidence_log \<Rightarrow>
     (evidence_error, sealed_segment) result \<times> 'sk evidence_log" where
  "seal_current_segment lib ulid now_seal now_receipt rc log =
     (if el_chain log = [] then (Err EmptySegment, log)
      else
        (case try_then (segment_append_all (segment_new rc) (el_chain log)) (\<lambda>seg.
                segment_seal lib ulid now_seal now_receipt seg
                  (map_option fst (el_previous_segment_link log))
                  (map_option snd (el_previous_segment_link log)) (el_signing_key log)) of
           Inl e \<Rightarrow> (Err e, log)
         | Inr sealed \<Rightarrow>
             (Ok sealed,
              log\<lparr>el_previous_segment_link := Some (segment_id sealed, segment_seal_hash sealed),
                  el_chain := [],
                  el_warm_receipt_count :=
                    AList.update (segment_id sealed) (length (ss_receipts sealed)) (el_warm_receipt_count log),
                  el_warm_index_count :=
                    AList.update (segment_id sealed) (length (ss_receipts sealed)) (el_warm_index_count log),
                  el_sealed := el_sealed log @ [sealed]\<rparr>)))"

section \<open>The log as a compaction backend\<close>

definition COMPACTION_WORKER_SUBJECT :: string where
  "COMPACTION_WORKER_SUBJECT = ''_system:service:evidence-compaction-worker''"

definition warm_count :: "'sk evidence_log \<Rightarrow> string \<Rightarrow> nat" where
  "warm_count log sid = (case map_of (el_warm_receipt_count log) sid of None \<Rightarrow> 0 | Some n \<Rightarrow> n)"

definition log_list_sealed :: "'sk evidence_log \<Rightarrow> (evidence_error, segment_row list) result" where
  "log_list_sealed log =
     Ok (map (\<lambda>s. (segment_id s, ss_retention_class s, sealed_at s))
           (filter (\<lambda>s. 0 < warm_count log (segment_id s)) (el_sealed log)))"

text \<open>\<open>HashMap::insert\<close> returns the old value; the new entry stays also when there was none.\<close>

definition log_compact_segment ::
    "string \<Rightarrow> 'sk evidence_log \<Rightarrow> (evidence_error, nat \<times> nat) result \<times> 'sk evidence_log" where
  "log_compact_segment sid log =
     (let old = map_of (el_warm_receipt_count log) sid;
          log1 = log\<lparr>el_warm_receipt_count := AList.update sid 0 (el_warm_receipt_count log)\<rparr> in
      case old of
        None \<Rightarrow> (Err (EncodingFailed (''compact_segment: unknown segment `'' @ sid @ ''`'')), log1)
      | Some removed \<Rightarrow>
          let old_index = map_of (el_warm_index_count log1) sid;
              log2 = log1\<lparr>el_warm_index_count := AList.update sid 0 (el_warm_index_count log1)\<rparr> in
          case old_index of
            None \<Rightarrow> (Err (EncodingFailed (''compact_segment: unknown segment index `'' @ sid @ ''`'')), log2)
          | Some pruned \<Rightarrow> (Ok (removed, pruned), log2))"

definition log_emit_approval_required ::
    "('sk, 'vk) evidence_lib \<Rightarrow> proto_lib \<Rightarrow> string \<Rightarrow> instant \<Rightarrow> string \<Rightarrow> 'sk evidence_log \<Rightarrow>
     (evidence_error, unit) result \<times> 'sk evidence_log" where
  "log_emit_approval_required lib pl ulid now sid log =
     (case commit_receipt lib pl ulid now
             (with_payload
               (JObject [(''reason'', JString ''retention_horizon_passed''), (''segment_id'', JString sid)])
               (builder_new (RecordType ''COMPACTION_APPROVAL_REQUIRED'') Forever
                 (COMPACTION_WORKER_SUBJECT @ ''/'' @ sid))) log of
        (Inl e, log') \<Rightarrow> (Err e, log')
      | (Inr _, log') \<Rightarrow> (Ok (), log'))"

text \<open>The fresh ULID and the time of each emitted record depend on the segment it is for.\<close>

definition log_backend ::
    "('sk, 'vk) evidence_lib \<Rightarrow> proto_lib \<Rightarrow> (string \<Rightarrow> string) \<Rightarrow> (string \<Rightarrow> instant) \<Rightarrow>
     'sk evidence_log compaction_backend" where
  "log_backend lib pl ulid_of now_of =
     \<lparr>list_sealed_segments = log_list_sealed, compact_segment = log_compact_segment,
      emit_approval_required = (\<lambda>sid. log_emit_approval_required lib pl (ulid_of sid) (now_of sid) sid)\<rparr>"

lemma commit_receipt_frame:
  "el_sealed (snd (commit_receipt lib pl ulid now b log)) = el_sealed log"
  "warm_count (snd (commit_receipt lib pl ulid now b log)) = warm_count log"
  "el_previous_segment_link (snd (commit_receipt lib pl ulid now b log)) = el_previous_segment_link log"
  "el_signing_key (snd (commit_receipt lib pl ulid now b log)) = el_signing_key log"
  by (auto simp: commit_receipt_def warm_count_def fun_eq_iff split: sum.splits)

lemma snd_emit:
  "snd (log_emit_approval_required lib pl ulid now sid log) =
   snd (commit_receipt lib pl ulid now
             (with_payload
               (JObject [(''reason'', JString ''retention_horizon_passed''), (''segment_id'', JString sid)])
               (builder_new (RecordType ''COMPACTION_APPROVAL_REQUIRED'') Forever
                 (COMPACTION_WORKER_SUBJECT @ ''/'' @ sid))) log)"
  by (auto simp: log_emit_approval_required_def split: prod.splits sum.splits)

lemma log_compact_frame:
  "el_sealed (snd (log_compact_segment sid log)) = el_sealed log"
  "el_chain (snd (log_compact_segment sid log)) = el_chain log"
  "el_previous_segment_link (snd (log_compact_segment sid log)) = el_previous_segment_link log"
  "el_signing_key (snd (log_compact_segment sid log)) = el_signing_key log"
  "warm_count (snd (log_compact_segment sid log)) = (warm_count log)(sid := 0)"
  by (auto simp: log_compact_segment_def warm_count_def Let_def AList.update_conv' fun_eq_iff
      split: option.splits)

interpretation lb: compaction_store "log_backend lib pl ulid_of now_of" el_sealed warm_count
  for lib :: "('sk, 'vk) evidence_lib" and pl ulid_of now_of
proof
  show "list_sealed_segments (log_backend lib pl ulid_of now_of) b =
      Ok (map row_of (filter (\<lambda>s. 0 < warm_count b (segment_id s)) (el_sealed b)))" for b
    by (simp add: log_backend_def log_list_sealed_def row_of_def)
qed (simp_all add: log_backend_def log_compact_frame snd_emit commit_receipt_frame)

section \<open>Every reachable log verifies\<close>

definition log_inv :: "('sk, 'vk) evidence_lib \<Rightarrow> 'vk \<Rightarrow> 'sk evidence_log \<Rightarrow> bool" where
  "log_inv lib vk log \<longleftrightarrow>
     (el_chain log = [] \<or> verify_integrity_signed lib vk (el_chain log) = Ok ()) \<and>
     verify_chain_full lib vk (el_sealed log) = Ok () \<and>
     el_previous_segment_link log =
       map_option (\<lambda>s. (segment_id s, segment_seal_hash s)) (last_option (el_sealed log))"

inductive log_reachable ::
    "('sk, 'vk) evidence_lib \<Rightarrow> 'sk \<Rightarrow> 'sk evidence_log \<Rightarrow> bool" for lib sk where
  new: "log_reachable lib sk (evidence_log_new sk ulid now)"
| append: "log_reachable lib sk log \<Longrightarrow>
    log_reachable lib sk (snd (log_append lib we ulid now req log))"
| seal: "log_reachable lib sk log \<Longrightarrow>
    log_reachable lib sk (snd (seal_current_segment lib ulid now now' rc log))"
| tick: "log_reachable lib sk log \<Longrightarrow>
    log_reachable lib sk (snd (snd (tick (log_backend lib pl ulid_of now_of) now w log)))"

lemma commit_receipt_Ok:
  assumes "seal_signed lib ulid now b (last_option (el_chain log)) (el_signing_key log) = Ok r"
  shows "commit_receipt lib pl ulid now b log =
    (Ok (receipt_to_proto pl r),
     log\<lparr>el_chain := el_chain log @ [r], el_live := el_live log @ [receipt_to_proto pl r]\<rparr>)"
proof -
  have "chain_append lib (el_chain log) r = Ok (el_chain log @ [r])"
    using seal_signed_facts(2,3) [OF assms]
    by (auto simp: chain_append_Ok_iff link_of_eq_Some last_option_def split: if_splits)
  then show ?thesis using assms by (simp add: commit_receipt_def)
qed

lemma commit_receipt_Err:
  "seal_signed lib ulid now b (last_option (el_chain log)) (el_signing_key log) = Err e \<Longrightarrow>
     commit_receipt lib pl ulid now b log = (Err e, log)"
  by (simp add: commit_receipt_def)

lemma signed_chain_grows:
  assumes "key_pair lib sk vk" and "seal_signed lib ulid now b (last_option chain) sk = Ok r"
    and "chain = [] \<or> verify_integrity_signed lib vk chain = Ok ()"
  shows "verify_integrity_signed lib vk (chain @ [r]) = Ok ()"
proof -
  have app: "chain_append lib chain r = Ok (chain @ [r])"
    using seal_signed_facts(2,3) [OF assms(2)]
    by (auto simp: chain_append_Ok_iff link_of_eq_Some last_option_def split: if_splits)
  have "verify_integrity lib (chain @ [r]) = Ok ()"
  proof (cases "chain = []")
    case True
    then show ?thesis using app by (simp add: chain_append_Ok_iff verify_integrity_def)
  next
    case False
    then show ?thesis
      using rc.app_keeps_check [OF False _ app] assms(3)
      by (auto simp: verify_integrity_signed_def result_simps)
  qed
  then show ?thesis
    using assms(3) seal_signed_verifies [OF assms(1,2)]
    by (auto simp: verify_integrity_signed_def result_simps verify_signatures_Ok_iff)
qed

lemma commit_receipt_inv:
  assumes "key_pair lib (el_signing_key log) vk" and "log_inv lib vk log"
  shows "log_inv lib vk (snd (commit_receipt lib pl ulid now b log))"
proof (cases "seal_signed lib ulid now b (last_option (el_chain log)) (el_signing_key log)")
  case (Inl e)
  then show ?thesis using assms(2) by (simp add: commit_receipt_Err)
next
  case (Inr r)
  then show ?thesis
    using assms signed_chain_grows [OF assms(1) Inr]
    by (simp add: commit_receipt_Ok [OF Inr] log_inv_def)
qed

lemma log_append_cases:
  "snd (log_append lib we ulid now req log) = log \<or>
   (\<exists>b. snd (log_append lib we ulid now req log) = snd (commit_receipt lib (we_proto we) ulid now b log))"
  by (auto simp: log_append_def Let_def split: sum.splits prod.splits if_splits)
    (metis snd_conv)+

lemma segment_append_all_open:
  "\<not> seg_is_sealed s \<Longrightarrow> segment_append_all s rs = Ok (s\<lparr>seg_receipts := seg_receipts s @ rs\<rparr>)"
  by (induction rs arbitrary: s) (simp_all add: segment_append_def)

lemma verify_each_Ok_iff: "verify_each f ss = Ok () \<longleftrightarrow> list_all (\<lambda>s. f s = Ok ()) ss"
  by (induction ss) (auto simp: result_simps)

lemma seal_current_segment_Ok:
  assumes "el_chain log \<noteq> []"
    and "segment_seal lib ulid now now' \<lparr>seg_retention_class = rc, seg_receipts = el_chain log,
      seg_is_sealed = False\<rparr> (map_option fst (el_previous_segment_link log))
      (map_option snd (el_previous_segment_link log)) (el_signing_key log) = Ok ss"
  shows "seal_current_segment lib ulid now now' rc log = (Ok ss,
    log\<lparr>el_previous_segment_link := Some (segment_id ss, segment_seal_hash ss), el_chain := [],
        el_warm_receipt_count :=
          AList.update (segment_id ss) (length (ss_receipts ss)) (el_warm_receipt_count log),
        el_warm_index_count :=
          AList.update (segment_id ss) (length (ss_receipts ss)) (el_warm_index_count log),
        el_sealed := el_sealed log @ [ss]\<rparr>)"
  using assms by (simp add: seal_current_segment_def segment_new_def segment_append_all_open)

lemma seal_current_segment_inv:
  assumes "key_pair lib (el_signing_key log) vk" and "log_inv lib vk log"
  shows "log_inv lib vk (snd (seal_current_segment lib ulid now now' rc log))"
proof (cases "fst (seal_current_segment lib ulid now now' rc log)")
  case (Inl e)
  then have "snd (seal_current_segment lib ulid now now' rc log) = log"
    by (auto simp: seal_current_segment_def split: if_splits sum.splits)
  then show ?thesis using assms(2) by simp
next
  case (Inr ss)
  let ?link = "el_previous_segment_link log"
  let ?log' = "snd (seal_current_segment lib ulid now now' rc log)"
  have seal: "segment_seal lib ulid now now' \<lparr>seg_retention_class = rc, seg_receipts = el_chain log,
      seg_is_sealed = False\<rparr> (map_option fst ?link) (map_option snd ?link) (el_signing_key log) = Ok ss"
    and new: "el_chain ?log' = []" "el_sealed ?log' = el_sealed log @ [ss]"
      "el_previous_segment_link ?log' = Some (segment_id ss, segment_seal_hash ss)"
    and ne: "el_chain log \<noteq> []"
    using Inr by (auto simp: seal_current_segment_def segment_new_def segment_append_all_open
        result_simps split: if_splits sum.splits)
  have "verify_segment_full lib vk ss = Ok ()"
    using sealed_segment_verifies [OF assms(1) seal] assms(2) ne by (simp add: log_inv_def)
  moreover have "previous_segment_id ss = map_option fst ?link"
    and "previous_segment_seal_hash ss = map_option snd ?link"
    using seal by (auto simp: segment_seal_Ok_iff)
  then have "segment_chain_append (el_sealed log) ss = Ok (el_sealed log @ [ss])"
    using assms(2) unfolding log_inv_def sc.app_Ok_iff
    by (auto simp: last_option_def segment_prev_def segment_digest_def genesis_segment_def)
  then have "verify_chain (el_sealed log @ [ss]) = Ok ()"
    using assms(2) sc.app_keeps_check sc.grow_Ok_iff [of "[ss]" "[ss]"]
    by (cases "el_sealed log = []") (auto simp: log_inv_def verify_chain_full_def result_simps)
  ultimately show ?thesis
    using assms(2) new by (auto simp: log_inv_def verify_chain_full_def result_simps
        verify_each_Ok_iff last_option_def)
qed

lemma log_row_effect:
  assumes "row_effect (log_backend lib pl ulid_of now_of) now w row log log'"
  shows "log' = log \<or> (\<exists>sid. log' = snd (log_compact_segment sid log)) \<or>
    (\<exists>ulid t b. log' = snd (commit_receipt lib pl ulid t b log))"
  using assms by (cases rule: row_effect.cases) (auto simp: log_backend_def snd_emit)

lemma tick_inv:
  assumes "key_pair lib (el_signing_key log) vk" and "log_inv lib vk log"
  shows "log_inv lib vk (snd (snd (tick (log_backend lib pl ulid_of now_of) now w log)))"
    and "el_signing_key (snd (snd (tick (log_backend lib pl ulid_of now_of) now w log))) = el_signing_key log"
proof -
  let ?ops = "log_backend lib pl ulid_of now_of"
  let ?P = "\<lambda>l. log_inv lib vk l \<and> el_signing_key l = el_signing_key log"
  obtain res w' log' where t: "tick ?ops now w log = (res, w', log')" by (metis prod_cases3)
  have "?P log'"
  proof (rule conjunct1 [OF tick_loop_invariant [OF t [unfolded lb.tick_unfold], of ?P]])
    fix w1 row c c'
    assume "row_effect ?ops now w1 row c c'" and "?P c"
    then show "?P c'"
      using log_row_effect [of lib pl ulid_of now_of now w1 row c c'] assms(1)
        commit_receipt_inv [of lib c vk]
      by (auto simp: commit_receipt_frame log_compact_frame) (simp_all add: log_inv_def log_compact_frame)
  qed (use assms in simp)
  then show "log_inv lib vk (snd (snd (tick ?ops now w log)))"
    and "el_signing_key (snd (snd (tick ?ops now w log))) = el_signing_key log"
    using t by simp_all
qed

lemma log_reachable_inv:
  assumes "key_pair lib sk vk" and "log_reachable lib sk log"
  shows "log_inv lib vk log \<and> el_signing_key log = sk"
  using assms(2)
proof (induction rule: log_reachable.induct)
  case (new ulid now)
  then show ?case
    by (simp add: log_inv_def evidence_log_new_def verify_chain_full_def verify_chain_def last_option_def)
next
  case (append log we ulid now req)
  then show ?case
    using log_append_cases [of lib we ulid now req log] commit_receipt_inv [of lib log vk] assms(1)
    by (auto simp: commit_receipt_frame)
next
  case (seal log ulid now now' rc)
  have "el_signing_key (snd (seal_current_segment lib ulid now now' rc log)) = el_signing_key log"
    by (auto simp: seal_current_segment_def split: sum.splits)
  then show ?case using seal seal_current_segment_inv [of lib log vk] assms(1) by simp
next
  case (tick log pl ulid_of now_of now w)
  then show ?case using tick_inv [of lib log vk] assms(1) by simp
qed

text \<open>
  C5: Every reachable evidence log verifies. After any sequence of appends, seals and compaction
  ticks on a fresh log, successful or refused, the open chain is empty or passes the integrity
  and signature walk, the chain of sealed segments passes the full verification, and the next
  segment will link to the last sealed one.
\<close>

theorem reachable_log_verifies:
  assumes "key_pair lib sk vk" and "log_reachable lib sk log"
  shows "(el_chain log = [] \<or> verify_integrity_signed lib vk (el_chain log) = Ok ()) \<and>
    verify_chain_full lib vk (el_sealed log) = Ok () \<and>
    el_previous_segment_link log =
      map_option (\<lambda>s. (segment_id s, segment_seal_hash s)) (last_option (el_sealed log))"
  using log_reachable_inv [OF assms] by (simp add: log_inv_def)

text \<open>A request, a wire environment and a log for concrete runs.\<close>

definition sample_wire_env :: wire_env where
  "sample_wire_env =
     \<lparr>we_proto = \<lparr>from_str_name = (\<lambda>n. if n = ''ACTION_RECEIVED'' then Some 1 else None),
                  str_name_of = (\<lambda>i. if i = 1 then Some ''ACTION_RECEIVED'' else None)\<rparr>,
      we_show_int = (\<lambda>_. ''?''), we_ulid_from_string = (\<lambda>_. Ok ())\<rparr>"

definition sample_open_log :: "unit evidence_log" where
  "sample_open_log =
     snd (log_append sample_evidence_lib sample_wire_env ''U'' 0
       \<lparr>ar_record_type = 1, ar_subject = ''human:a'', ar_action_id = []\<rparr> (evidence_log_new () ''L'' 0))"

definition sample_log :: "unit evidence_log" where
  "sample_log = snd (seal_current_segment sample_evidence_lib ''V'' 1 2 Standard24M sample_open_log)"

lemma sample_log_reachable: "log_reachable sample_evidence_lib () sample_log"
  unfolding sample_log_def sample_open_log_def by (intro log_reachable.intros)

lemma sample_open_log:
  "sample_open_log = (evidence_log_new () ''L'' 0)
     \<lparr>el_chain := [sample_receipt],
      el_live := [receipt_to_proto (we_proto sample_wire_env) sample_receipt]\<rparr>"
proof -
  have "''ACTION_RECEIVED'' \<in> set record_names"
    by (simp add: record_names_def dense_names_def record_names_1_def)
  then have rt: "record_type_from_proto_i32 (we_proto sample_wire_env) (we_show_int sample_wire_env) 1 =
      Ok (RecordType ''ACTION_RECEIVED'')"
    by (simp add: record_type_from_proto_i32_def sample_wire_env_def record_type_from_wire_str_def)
  have b: "builder_new (RecordType ''ACTION_RECEIVED'') DEFAULT_RETENTION ''human:a'' = sample_builder"
    by (simp add: sample_builder_def DEFAULT_RETENTION_def)
  have new: "el_chain (evidence_log_new () ''L'' 0) = []" "el_live (evidence_log_new () ''L'' 0) = []"
    by (simp_all add: evidence_log_new_def)
  then have "commit_receipt sample_evidence_lib pl ''U'' 0 sample_builder (evidence_log_new () ''L'' 0) =
      (Ok (receipt_to_proto pl sample_receipt), (evidence_log_new () ''L'' 0)
         \<lparr>el_chain := el_chain (evidence_log_new () ''L'' 0) @ [sample_receipt],
          el_live := el_live (evidence_log_new () ''L'' 0) @ [receipt_to_proto pl sample_receipt]\<rparr>)" for pl
    by (intro commit_receipt_Ok) (simp add: last_option_def sample_receipt_sealed)
  then show ?thesis
    by (simp add: sample_open_log_def log_append_def rt b new sample_subject_not_blank Let_def)
qed

lemma sample_log_sealed: "\<exists>ss. el_sealed sample_log = [ss] \<and> ss_retention_class ss = Standard24M \<and>
    sealed_at ss = 1 \<and> el_warm_receipt_count sample_log = [(segment_id ss, 2)] \<and>
    el_warm_index_count sample_log = [(segment_id ss, 2)]"
proof -
  obtain ss where ss: "segment_seal sample_evidence_lib ''V'' 1 2 sample_segment None None () = Ok ss"
    using sample_segment_seals by blast
  obtain terminal where "ss_receipts ss = seg_receipts sample_segment @ [terminal]"
    by (rule segment_seal_terminal [OF ss])
  then have "length (ss_receipts ss) = 2" by (simp add: sample_segment_def)
  moreover have "ss_retention_class ss = Standard24M" "sealed_at ss = 1"
    using ss by (auto simp: segment_seal_Ok_iff sample_segment_def)
  moreover have "seal_current_segment sample_evidence_lib ''V'' 1 2 Standard24M sample_open_log = (Ok ss,
      sample_open_log\<lparr>el_previous_segment_link := Some (segment_id ss, segment_seal_hash ss), el_chain := [],
        el_warm_receipt_count := AList.update (segment_id ss) (length (ss_receipts ss))
          (el_warm_receipt_count sample_open_log),
        el_warm_index_count := AList.update (segment_id ss) (length (ss_receipts ss))
          (el_warm_index_count sample_open_log),
        el_sealed := el_sealed sample_open_log @ [ss]\<rparr>)"
    by (rule seal_current_segment_Ok)
      (use ss in \<open>simp_all add: sample_open_log evidence_log_new_def sample_segment_def\<close>)
  ultimately show ?thesis by (simp add: sample_log_def sample_open_log evidence_log_new_def)
qed

theorem reachable_log_verifies_witness:
  "el_sealed sample_log \<noteq> [] \<and> verify_chain_full sample_evidence_lib () (el_sealed sample_log) = Ok ()"
  using reachable_log_verifies [OF sample_key_pair sample_log_reachable] sample_log_sealed by auto

section \<open>Compaction of the log\<close>

text \<open>
  C17: Compaction is safe: a tick leaves every sealed segment, with its seal hash, signature and
  receipt identities, as it is, and takes away bodies only of segments whose retention class is
  not \<open>Forever\<close>, whose age has reached 730 or 1825 days, and which the policy or an approval
  releases.
\<close>

theorem compaction_safe:
  assumes "tick (log_backend lib pl ulid_of now_of) now w log = (res, w', log')"
  shows "el_sealed log' = el_sealed log \<and>
    (\<forall>sid. warm_count log' sid \<noteq> warm_count log sid \<longrightarrow>
       (\<exists>s \<in> set (el_sealed log). segment_id s = sid \<and> ss_retention_class s \<noteq> Forever \<and>
          duration_days (if ss_retention_class s = Standard24M then 730 else 1825) \<le> now - sealed_at s \<and>
          (cw_policy w = Auto \<or> cw_policy w = OperatorApproval \<and> sid \<in> cw_approved w)))"
proof (intro conjI allI impI)
  show "el_sealed log' = el_sealed log" using lb.tick_headers [OF assms] .
  fix sid assume "warm_count log' sid \<noteq> warm_count log sid"
  then obtain s where s: "s \<in> set (el_sealed log)" "segment_id s = sid"
    "is_compaction_eligible s now" "may_compact w sid"
    using lb.tick_only_eligible [OF assms] by blast
  have "ss_retention_class s \<noteq> Forever \<and>
      duration_days (if ss_retention_class s = Standard24M then 730 else 1825) \<le> now - sealed_at s"
    using s(3) by (cases "ss_retention_class s") (simp_all add: is_compaction_eligible_def)
  then show "\<exists>s \<in> set (el_sealed log). segment_id s = sid \<and> ss_retention_class s \<noteq> Forever \<and>
      duration_days (if ss_retention_class s = Standard24M then 730 else 1825) \<le> now - sealed_at s \<and>
      (cw_policy w = Auto \<or> cw_policy w = OperatorApproval \<and> sid \<in> cw_approved w)"
    using s by (auto simp: may_compact_def)
qed

theorem compaction_safe_witness:
  "el_sealed (snd (snd (tick (log_backend sample_evidence_lib (we_proto sample_wire_env) (\<lambda>_. ''T'') (\<lambda>_. 3))
     3 (worker_new Auto) sample_log))) = el_sealed sample_log"
proof -
  obtain res w' log' where t: "tick (log_backend sample_evidence_lib (we_proto sample_wire_env)
      (\<lambda>_. ''T'') (\<lambda>_. 3)) 3 (worker_new Auto) sample_log = (res, w', log')"
    by (metis prod_cases3)
  show ?thesis using compaction_safe [OF t] t by simp
qed

text \<open>
  Compaction makes progress: after a tick that succeeds, every segment that is past its
  retention and released by the policy or an approval has no warm body left.
\<close>

theorem compaction_progress:
  assumes "tick (log_backend lib pl ulid_of now_of) now w log = (Ok rep, w', log')"
    and "s \<in> set (el_sealed log)" and "is_compaction_eligible s now"
    and "cw_policy w = Auto \<or> cw_policy w = OperatorApproval \<and> segment_id s \<in> cw_approved w"
  shows "warm_count log' (segment_id s) = 0"
  using lb.tick_compacts [OF assms(1-3)] assms(4) by (simp add: may_compact_def)

theorem compaction_progress_witness:
  "\<exists>ss \<in> set (el_sealed sample_log).
     0 < warm_count sample_log (segment_id ss) \<and>
     warm_count (snd (snd (tick (log_backend sample_evidence_lib (we_proto sample_wire_env) (\<lambda>_. ''T'')
       (\<lambda>_. 3)) (1 + duration_days 730) (worker_new Auto) sample_log))) (segment_id ss) = 0"
proof -
  let ?ops = "log_backend sample_evidence_lib (we_proto sample_wire_env) (\<lambda>_. ''T'') (\<lambda>_. 3)"
  obtain ss where ss: "el_sealed sample_log = [ss]" "ss_retention_class ss = Standard24M"
    "sealed_at ss = 1" "el_warm_receipt_count sample_log = [(segment_id ss, 2)]"
    "el_warm_index_count sample_log = [(segment_id ss, 2)]"
    using sample_log_sealed by blast
  then have warm: "warm_count sample_log (segment_id ss) = 2" by (simp add: warm_count_def)
  obtain log1 where "log_compact_segment (segment_id ss) sample_log = (Ok (2, 2), log1)"
    using ss(4,5) by (simp add: log_compact_segment_def Let_def)
  then obtain rep w' log' where
    t: "tick ?ops (1 + duration_days 730) (worker_new Auto) sample_log = (Ok rep, w', log')"
    unfolding lb.tick_unfold
    using ss(1-3) warm by (simp add: row_of_def tick_segment_def worker_new_def compact_one_def
        log_backend_def Let_def)
  have "warm_count log' (segment_id ss) = 0"
    by (rule compaction_progress [OF t])
      (use ss in \<open>simp_all add: is_compaction_eligible_def worker_new_def\<close>)
  then show ?thesis using t ss(1) warm by simp
qed

text \<open>
  Retention is decided per segment: sealing puts every receipt of the open chain, whatever its
  own retention class or that of its record type, into a segment that is eligible for compaction
  730 days later. The documentation of the worker says that denials and failures are never
  eligible because they are kept forever.
\<close>

theorem seal_ignores_receipt_retention:
  assumes "seal_current_segment lib ulid now now' Standard24M log = (Ok ss, log')"
    and "r \<in> set (el_chain log)"
  shows "r \<in> set (ss_receipts ss) \<and> is_compaction_eligible ss (now + duration_days 730)"
  using assms by (auto simp: seal_current_segment_def segment_new_def segment_append_all_open
      result_simps segment_seal_Ok_iff is_compaction_eligible_def split: if_splits sum.splits)

end
