(* ===== verification/Evidence_Read.thy ===== *)
theory Evidence_Read
  imports Evidence_Log
begin

text \<open>
  The reading side of the evidence service, \<open>service/impl_inmemory.rs\<close>: reading one receipt,
  subscriptions, queries, the verification call, and the information calls. The query loop with
  its counter, limit and early exit is equal to a filter and a take over the chain; a
  subscription delivers every admitted receipt once, provided nothing is appended between its
  replay and the moment it joins the channel.
\<close>

section \<open>Operations\<close>

definition read_receipt ::
    "proto_lib \<Rightarrow> string \<Rightarrow> 'sk evidence_log \<Rightarrow> (ev_status, wire_receipt) result" where
  "read_receipt pl rid log =
     (if rid = [] then Err (EvStatus InvalidArgument ''ReadReceiptRequest.receipt_id must be non-empty'')
      else (case find (\<lambda>r. receipt_id r = rid) (el_chain log) of
              None \<Rightarrow> Err (EvStatus NotFound (''no evidence receipt with id `'' @ rid @ ''`''))
            | Some r \<Rightarrow> Ok (receipt_to_proto pl r)))"

definition optional_group :: "string \<Rightarrow> string option" where
  "optional_group raw = (if raw = [] then None else Some raw)"

definition subscribe_filters_pass ::
    "wire_env \<Rightarrow> wire_receipt \<Rightarrow> record_type list \<Rightarrow> string \<Rightarrow> string \<Rightarrow> bool" where
  "subscribe_filters_pass we wire record_filter subject_filter correlation_filter =
     (if record_filter \<noteq> [] \<and>
         (case record_type_from_proto_i32 (we_proto we) (we_show_int we) (w_record_type wire) of
            Inl _ \<Rightarrow> True | Inr rt \<Rightarrow> rt \<notin> set record_filter) then False
      else if subject_filter \<noteq> [] \<and> w_subject wire \<noteq> subject_filter then False
      else if correlation_filter \<noteq> [] \<and> w_correlation_id wire \<noteq> correlation_filter then False
      else True)"

record subscribe_request =
  sr_record_types_filter :: "int list"
  sr_subject_filter :: string
  sr_correlation_id_filter :: string
  sr_resume_from_receipt_id :: string
  sr_caller_subject :: string
  sr_caller_primary_group :: string
  sr_caller_is_ai :: bool
  sr_caller_is_recovery_mode :: bool

definition sr_ceiling :: "subscribe_request \<Rightarrow> privacy_ceiling" where
  "sr_ceiling req = from_caller (sr_caller_subject req) (optional_group (sr_caller_primary_group req))
     (sr_caller_is_ai req) (sr_caller_is_recovery_mode req)"

text \<open>The replay loop with its bookmark flag.\<close>

fun replay_loop ::
    "wire_env \<Rightarrow> subscribe_request \<Rightarrow> record_type list \<Rightarrow> bool \<Rightarrow> evidence_receipt list \<Rightarrow> wire_receipt list" where
  "replay_loop we req rf replaying [] = []"
| "replay_loop we req rf replaying (r # rs) =
     (if \<not> replaying
      then replay_loop we req rf (receipt_id r = sr_resume_from_receipt_id req) rs
      else if \<not> admits (sr_ceiling req) r then replay_loop we req rf replaying rs
      else
        let wire = receipt_to_proto (we_proto we) r in
        (if subscribe_filters_pass we wire rf (sr_subject_filter req) (sr_correlation_id_filter req)
         then [wire] else []) @ replay_loop we req rf replaying rs)"

text \<open>What the live part delivers of one receipt sent on the channel.\<close>

definition live_passes :: "wire_env \<Rightarrow> subscribe_request \<Rightarrow> record_type list \<Rightarrow> wire_receipt \<Rightarrow> bool" where
  "live_passes we req rf wire =
     (case record_type_from_proto_i32 (we_proto we) (we_show_int we) (w_record_type wire) of
        Inl _ \<Rightarrow> False
      | Inr rt \<Rightarrow>
          admits_wire (sr_ceiling req) (w_subject wire) rt \<and>
          subscribe_filters_pass we wire rf (sr_subject_filter req) (sr_correlation_id_filter req))"

record subscription =
  sub_replay :: "wire_receipt list"
  sub_filter :: "wire_receipt \<Rightarrow> bool"
  sub_from :: nat

text \<open>
  \<open>subscribe\<close> reads the chain under the lock, releases it and then joins the channel: \<open>log1\<close> is the
  log at the replay, \<open>log2\<close> the log at the moment of joining.
\<close>

definition subscribe ::
    "wire_env \<Rightarrow> subscribe_request \<Rightarrow> 'sk evidence_log \<Rightarrow> 'sk evidence_log \<Rightarrow>
     (ev_status, subscription) result" where
  "subscribe we req log1 log2 =
     (case collect_results (record_type_from_proto_i32 (we_proto we) (we_show_int we))
             (sr_record_types_filter req) of
        Inl e \<Rightarrow> Err (EvError e)
      | Inr rf \<Rightarrow>
          Ok \<lparr>sub_replay = replay_loop we req rf (sr_resume_from_receipt_id req = []) (el_chain log1),
              sub_filter = live_passes we req rf, sub_from = length (el_live log2)\<rparr>)"

definition stream_until :: "subscription \<Rightarrow> 'sk evidence_log \<Rightarrow> wire_receipt list" where
  "stream_until sub log = sub_replay sub @ filter (sub_filter sub) (drop (sub_from sub) (el_live log))"

record query_request =
  qr_record_types_filter :: "int list"
  qr_subject_filter :: string
  qr_action_id_filter :: string
  qr_from_time :: "instant option"
  qr_to_time :: "instant option"
  qr_limit :: u32
  qr_subject :: string
  qr_caller_primary_group :: string
  qr_caller_is_ai :: bool
  qr_caller_is_recovery_mode :: bool

definition DEFAULT_QUERY_LIMIT :: u32 where
  "DEFAULT_QUERY_LIMIT = 1000"

definition effective_limit :: "query_request \<Rightarrow> u32" where
  "effective_limit req = (if qr_limit req = 0 then DEFAULT_QUERY_LIMIT else qr_limit req)"

definition qr_ceiling :: "query_request \<Rightarrow> privacy_ceiling" where
  "qr_ceiling req = from_caller (qr_subject req) (optional_group (qr_caller_primary_group req))
     (qr_caller_is_ai req) (qr_caller_is_recovery_mode req)"

definition query_matches :: "query_request \<Rightarrow> record_type list \<Rightarrow> evidence_receipt \<Rightarrow> bool" where
  "query_matches req rf r =
     (if qr_action_id_filter req \<noteq> [] \<and> r_action_id r \<noteq> Some (qr_action_id_filter req) then False
      else if qr_subject_filter req \<noteq> [] \<and> r_subject_canonical_id r \<noteq> qr_subject_filter req then False
      else if rf \<noteq> [] \<and> r_record_type r \<notin> set rf then False
      else if (case qr_from_time req of None \<Rightarrow> False | Some t \<Rightarrow> recorded_at r < t) then False
      else if (case qr_to_time req of None \<Rightarrow> False | Some t \<Rightarrow> recorded_at r > t) then False
      else True)"

fun query_loop ::
    "proto_lib \<Rightarrow> query_request \<Rightarrow> record_type list \<Rightarrow> wire_receipt list \<Rightarrow> u64 \<Rightarrow> evidence_receipt list \<Rightarrow>
     wire_receipt list \<times> u64" where
  "query_loop pl req rf hits suppressed [] = (hits, suppressed)"
| "query_loop pl req rf hits suppressed (r # rs) =
     (if \<not> query_matches req rf r then query_loop pl req rf hits suppressed rs
      else if \<not> admits (qr_ceiling req) r
      then query_loop pl req rf hits (saturating_add suppressed 1) rs
      else
        let hits' = hits @ [receipt_to_proto pl r] in
        if unat (effective_limit req) \<le> min (length hits') (2 ^ 32 - 1) then (hits', suppressed)
        else query_loop pl req rf hits' suppressed rs)"

definition query ::
    "wire_env \<Rightarrow> query_request \<Rightarrow> 'sk evidence_log \<Rightarrow> (ev_status, wire_receipt list \<times> u64) result" where
  "query we req log =
     (case collect_results (record_type_from_proto_i32 (we_proto we) (we_show_int we))
             (qr_record_types_filter req) of
        Inl e \<Rightarrow> Err (EvError e)
      | Inr rf \<Rightarrow> Ok (query_loop (we_proto we) req rf [] 0 (el_chain log)))"

record verify_chain_response =
  vc_consistent :: bool
  vc_receipts_checked :: u64
  vc_first_anomalous_receipt_id :: string
  vc_detection_method :: string

definition log_verify_chain ::
    "('sk, 'vk) evidence_lib \<Rightarrow> 'sk evidence_log \<Rightarrow> (ev_status, verify_chain_response) result" where
  "log_verify_chain lib log =
     (case verify_integrity lib (el_chain log) of
        Inr _ \<Rightarrow>
          Ok \<lparr>vc_consistent = True, vc_receipts_checked = of_nat (length (el_chain log)),
              vc_first_anomalous_receipt_id = [], vc_detection_method = ''in_memory_walk_link_hash''\<rparr>
      | Inl (ChainBroken i actual expected) \<Rightarrow>
          Ok \<lparr>vc_consistent = False, vc_receipts_checked = of_nat (length (el_chain log)),
              vc_first_anomalous_receipt_id =
                (if i < length (el_chain log) then receipt_id (el_chain log ! i) else []),
              vc_detection_method = ''chain_broken_link_at_'' @ show_nat i @ '': actual=`'' @ actual @
                ''` expected=`'' @ expected @ ''`''\<rparr>
      | Inl other \<Rightarrow> Err (EvError other))"

definition rebuild_index :: "'sk evidence_log \<Rightarrow> u64" where
  "rebuild_index log = of_nat (length (el_chain log))"

record log_info =
  li_log_id :: string
  li_active_segment_record_count :: u64
  li_started_at :: instant

definition get_log_info :: "'sk evidence_log \<Rightarrow> log_info" where
  "get_log_info log =
     \<lparr>li_log_id = el_log_id log, li_active_segment_record_count = of_nat (length (el_chain log)),
      li_started_at = el_started_at log\<rparr>"

section \<open>Queries\<close>

text \<open>
  The declarative query: the matching receipts the ceiling admits, in the order of the chain,
  cut at the limit.
\<close>

definition query_spec :: "query_request \<Rightarrow> record_type list \<Rightarrow> evidence_receipt list \<Rightarrow> evidence_receipt list" where
  "query_spec req rf rs =
     take (unat (effective_limit req)) (filter (\<lambda>r. query_matches req rf r \<and> admits (qr_ceiling req) r) rs)"

lemma effective_limit_bounds: "0 < unat (effective_limit req)" "unat (effective_limit req) \<le> 2 ^ 32 - 1"
proof -
  show "0 < unat (effective_limit req)"
    by (auto simp: effective_limit_def DEFAULT_QUERY_LIMIT_def word_greater_zero_iff unat_gt_0)
  have "unat (effective_limit req) < 2 ^ LENGTH(32)" by (rule unsigned_less)
  then show "unat (effective_limit req) \<le> 2 ^ 32 - 1" by simp
qed

lemma query_loop_hits:
  assumes "length hits < unat (effective_limit req)"
  shows "fst (query_loop pl req rf hits n rs) = hits @ map (receipt_to_proto pl)
    (take (unat (effective_limit req) - length hits)
      (filter (\<lambda>r. query_matches req rf r \<and> admits (qr_ceiling req) r) rs))"
  using assms
proof (induction rs arbitrary: hits n)
  case (Cons r rs)
  have lim: "unat (effective_limit req) \<le> min (Suc (length hits)) (2 ^ 32 - 1) \<longleftrightarrow>
      unat (effective_limit req) = Suc (length hits)"
    using Cons.prems effective_limit_bounds(2) [of req] by auto
  show ?case
    using Cons.IH [of hits] Cons.IH [of "hits @ [receipt_to_proto pl r]"] Cons.prems lim
    by (auto simp: Let_def take_Cons' Suc_diff_Suc)
qed simp

lemma query_loop_suppressed_le:
  "unat (snd (query_loop pl req rf hits n rs)) \<le>
     unat n + length (filter (\<lambda>r. query_matches req rf r \<and> \<not> admits (qr_ceiling req) r) rs)"
proof (induction rs arbitrary: hits n)
  case (Cons r rs)
  have "unat (saturating_add n 1) \<le> Suc (unat n)" by (simp add: unat_saturating_add)
  then show ?case
    using Cons.IH [of hits n] Cons.IH [of hits "saturating_add n 1"]
      Cons.IH [of "hits @ [receipt_to_proto pl r]" n]
    by (auto simp: Let_def)
qed simp

lemma query_loop_suppressed:
  assumes "length hits + length (filter (\<lambda>r. query_matches req rf r \<and> admits (qr_ceiling req) r) rs)
      < unat (effective_limit req)"
    and "unat n + length (filter (\<lambda>r. query_matches req rf r \<and> \<not> admits (qr_ceiling req) r) rs) < 2 ^ 64"
  shows "unat (snd (query_loop pl req rf hits n rs)) =
     unat n + length (filter (\<lambda>r. query_matches req rf r \<and> \<not> admits (qr_ceiling req) r) rs)"
  using assms
proof (induction rs arbitrary: hits n)
  case (Cons r rs)
  have "unat (saturating_add n 1) = Suc (unat n)" if "Suc (unat n) < 2 ^ 64"
    using that by (simp add: unat_saturating_add)
  then show ?case
    using Cons.IH [of hits n] Cons.IH [of hits "saturating_add n 1"]
      Cons.IH [of "hits @ [receipt_to_proto pl r]" n] Cons.prems
    by (auto simp: Let_def)
qed simp

text \<open>
  The query loop implements the declarative query: its hits are the matching admitted receipts of
  the chain in order, cut at the limit (1000 when none is given), so that nothing above the
  caller's ceiling is returned; and when the limit is not reached the suppressed count is the
  number of matching receipts the ceiling withheld.
\<close>

theorem query_equals_filter:
  assumes "collect_results (record_type_from_proto_i32 (we_proto we) (we_show_int we))
      (qr_record_types_filter req) = Ok rf"
    and "length (filter (\<lambda>r. query_matches req rf r \<and> admits (qr_ceiling req) r) (el_chain log))
      < unat (effective_limit req)"
    and "length (el_chain log) < 2 ^ 64"
  shows "\<exists>n. query we req log = Ok (map (receipt_to_proto (we_proto we)) (query_spec req rf (el_chain log)), n) \<and>
    unat n = length (filter (\<lambda>r. query_matches req rf r \<and> \<not> admits (qr_ceiling req) r) (el_chain log))"
proof -
  let ?q = "query_loop (we_proto we) req rf [] 0 (el_chain log)"
  have "length (filter (\<lambda>r. query_matches req rf r \<and> \<not> admits (qr_ceiling req) r) (el_chain log)) < 2 ^ 64"
    using assms(3) le_less_trans [OF length_filter_le] by blast
  then have "unat (snd ?q) =
      length (filter (\<lambda>r. query_matches req rf r \<and> \<not> admits (qr_ceiling req) r) (el_chain log))"
    using query_loop_suppressed [of "[]" req rf "el_chain log" 0] assms(2) by simp
  moreover have "fst ?q = map (receipt_to_proto (we_proto we)) (query_spec req rf (el_chain log))"
    using query_loop_hits [of "[]" req] effective_limit_bounds(1) [of req] by (simp add: query_spec_def)
  ultimately show ?thesis
    using assms(1) by (intro exI [of _ "snd ?q"]) (simp add: query_def prod_eq_iff)
qed

section \<open>Subscriptions\<close>

text \<open>What the code relies on of the generated enum: names and numbers are inverse on the variants.\<close>

definition proto_names :: "wire_env \<Rightarrow> bool" where
  "proto_names we \<longleftrightarrow>
     (\<forall>rt. is_variant rt \<longrightarrow>
        record_type_from_proto_i32 (we_proto we) (we_show_int we) (record_type_to_proto (we_proto we) rt) = Ok rt)"

definition delivered :: "wire_env \<Rightarrow> subscribe_request \<Rightarrow> record_type list \<Rightarrow> evidence_receipt \<Rightarrow> bool" where
  "delivered we req rf r \<longleftrightarrow> admits (sr_ceiling req) r \<and>
     subscribe_filters_pass we (receipt_to_proto (we_proto we) r) rf (sr_subject_filter req)
       (sr_correlation_id_filter req)"

lemma replay_all:
  "replay_loop we req rf True rs = map (receipt_to_proto (we_proto we)) (filter (delivered we req rf) rs)"
  by (induction rs) (simp_all add: delivered_def Let_def)

lemma replay_bookmark:
  "replay_loop we req rf False rs = map (receipt_to_proto (we_proto we))
     (filter (delivered we req rf) (tl (dropWhile (\<lambda>r. receipt_id r \<noteq> sr_resume_from_receipt_id req) rs)))"
  by (induction rs) (simp_all add: replay_all)

lemma live_passes_receipt:
  assumes "proto_names we" and "is_variant (r_record_type r)"
  shows "live_passes we req rf (receipt_to_proto (we_proto we) r) \<longleftrightarrow> delivered we req rf r"
proof -
  have "record_type_from_proto_i32 (we_proto we) (we_show_int we)
      (w_record_type (receipt_to_proto (we_proto we) r)) = Ok (r_record_type r)"
    using assms by (simp add: proto_names_def receipt_to_proto_def)
  then show ?thesis
    by (simp add: live_passes_def delivered_def admits_def) (simp add: receipt_to_proto_def)
qed

lemma filter_live:
  assumes "proto_names we" and "list_all (\<lambda>r. is_variant (r_record_type r)) rs"
  shows "filter (live_passes we req rf) (map (receipt_to_proto (we_proto we)) rs) =
    map (receipt_to_proto (we_proto we)) (filter (delivered we req rf) rs)"
  using assms(2) by (induction rs) (simp_all add: live_passes_receipt [OF assms(1)])

text \<open>
  A subscription without a bookmark that joins the channel at the moment of its replay delivers
  every receipt exactly once and in order: after further receipts \<open>new\<close> were appended, the stream
  is the admitted and matching part of the old chain followed by that of the new receipts.
\<close>

theorem subscription_complete:
  assumes "proto_names we" and "sr_resume_from_receipt_id req = []"
    and "collect_results (record_type_from_proto_i32 (we_proto we) (we_show_int we))
      (sr_record_types_filter req) = Ok rf"
    and "el_live log' = el_live log @ map (receipt_to_proto (we_proto we)) new"
    and "list_all (\<lambda>r. is_variant (r_record_type r)) new"
  shows "\<exists>sub. subscribe we req log log = Ok sub \<and>
    stream_until sub log' =
      map (receipt_to_proto (we_proto we)) (filter (delivered we req rf) (el_chain log @ new))"
  using assms by (simp add: subscribe_def stream_until_def replay_all filter_live)

text \<open>
  When receipts are appended after the replay and before the subscription joins the channel, they
  are in neither part: the stream jumps from the old chain to what is appended after joining.
\<close>

theorem subscription_gap:
  assumes "proto_names we" and "sr_resume_from_receipt_id req = []"
    and "collect_results (record_type_from_proto_i32 (we_proto we) (we_show_int we))
      (sr_record_types_filter req) = Ok rf"
    and "el_live log2 = el_live log1 @ map (receipt_to_proto (we_proto we)) between"
    and "el_live log' = el_live log2 @ map (receipt_to_proto (we_proto we)) new"
    and "list_all (\<lambda>r. is_variant (r_record_type r)) new"
  shows "\<exists>sub. subscribe we req log1 log2 = Ok sub \<and>
    stream_until sub log' =
      map (receipt_to_proto (we_proto we)) (filter (delivered we req rf) (el_chain log1 @ new))"
  using assms by (simp add: subscribe_def stream_until_def replay_all filter_live)

section \<open>Verification calls\<close>

text \<open>
  The verification call of a reachable log never reports an anomaly: on a non-empty open chain it
  answers consistent, and it refuses the empty chain.
\<close>

theorem reachable_log_reports_consistent:
  assumes "key_pair lib sk vk" and "log_reachable lib sk log"
  shows "if el_chain log = [] then log_verify_chain lib log = Err (EvError EmptyChain)
    else \<exists>resp. log_verify_chain lib log = Ok resp \<and> vc_consistent resp"
proof -
  have "el_chain log = [] \<or> verify_integrity lib (el_chain log) = Ok ()"
    using log_reachable_inv [OF assms] by (auto simp: log_inv_def verify_integrity_signed_def result_simps)
  then show ?thesis by (auto simp: log_verify_chain_def verify_integrity_def)
qed

section \<open>Concrete runs\<close>

text \<open>The generated enum numbered by the position in the table of record types.\<close>

definition table_wire_env :: wire_env where
  "table_wire_env =
     \<lparr>we_proto = \<lparr>from_str_name = (\<lambda>n. map_option int (index_of n record_names)),
                  str_name_of = (\<lambda>i. if 0 \<le> i \<and> nat i < length record_names
                                     then Some (record_names ! nat i) else None)\<rparr>,
      we_show_int = (\<lambda>_. ''?''), we_ulid_from_string = (\<lambda>_. Ok ())\<rparr>"

lemma unspecified_not_a_record: "''RECORD_TYPE_UNSPECIFIED'' \<notin> set record_names"
  by (simp add: record_names_def dense_names_def record_names_1_def record_names_2_def
      record_names_3_def record_names_4_def)

lemma table_wire_env_names: "proto_names table_wire_env"
proof -
  have "record_type_from_proto_i32 (we_proto table_wire_env) (we_show_int table_wire_env)
      (record_type_to_proto (we_proto table_wire_env) rt) = Ok rt" if v: "is_variant rt" for rt
  proof -
    obtain i where i: "index_of (as_wire_str rt) record_names = Some i"
      using v index_of_NoneD [of "as_wire_str rt" record_names] by (auto simp: is_variant_def)
    have "as_wire_str rt \<noteq> ''RECORD_TYPE_UNSPECIFIED''"
      using v unspecified_not_a_record by (auto simp: is_variant_def)
    then show ?thesis
      using i index_of_SomeD [OF i] v
      by (simp add: record_type_from_proto_i32_def record_type_to_proto_def table_wire_env_def
          record_type_from_wire_str_def is_variant_def)
  qed
  then show ?thesis by (simp add: proto_names_def)
qed

definition sample_subscribe :: subscribe_request where
  "sample_subscribe =
     \<lparr>sr_record_types_filter = [], sr_subject_filter = [], sr_correlation_id_filter = [],
      sr_resume_from_receipt_id = [], sr_caller_subject = ''human:a'', sr_caller_primary_group = [],
      sr_caller_is_ai = False, sr_caller_is_recovery_mode = False\<rparr>"

lemma sample_receipt_variant: "is_variant (r_record_type sample_receipt)"
  by (simp add: sample_receipt_def is_variant_def record_names_def dense_names_def record_names_1_def)

theorem subscription_complete_witness:
  "\<exists>sub. subscribe table_wire_env sample_subscribe (evidence_log_new () ''L'' 0) (evidence_log_new () ''L'' 0) = Ok sub \<and>
     stream_until sub ((evidence_log_new () ''L'' 0)\<lparr>el_live := [receipt_to_proto (we_proto table_wire_env) sample_receipt]\<rparr>) =
     [receipt_to_proto (we_proto table_wire_env) sample_receipt]"
proof -
  have d: "delivered table_wire_env sample_subscribe [] sample_receipt"
    by (simp add: delivered_def admits_def admits_wire_def sr_ceiling_def from_caller_def
        sample_subscribe_def sample_receipt_def subscribe_filters_pass_def)
  obtain sub where "subscribe table_wire_env sample_subscribe (evidence_log_new () ''L'' 0)
      (evidence_log_new () ''L'' 0) = Ok sub" and "stream_until sub
      ((evidence_log_new () ''L'' 0)\<lparr>el_live := [receipt_to_proto (we_proto table_wire_env) sample_receipt]\<rparr>) =
      map (receipt_to_proto (we_proto table_wire_env)) (filter (delivered table_wire_env sample_subscribe [])
        (el_chain (evidence_log_new () ''L'' 0) @ [sample_receipt]))"
    using subscription_complete [of table_wire_env sample_subscribe "[]"
        "(evidence_log_new () ''L'' 0)\<lparr>el_live := [receipt_to_proto (we_proto table_wire_env) sample_receipt]\<rparr>"
        "evidence_log_new () ''L'' 0" "[sample_receipt]"]
      table_wire_env_names sample_receipt_variant
    by (auto simp: sample_subscribe_def evidence_log_new_def)
  then show ?thesis using d by (simp add: evidence_log_new_def)
qed

definition sample_query :: query_request where
  "sample_query =
     \<lparr>qr_record_types_filter = [], qr_subject_filter = [], qr_action_id_filter = [],
      qr_from_time = None, qr_to_time = None, qr_limit = 0, qr_subject = ''human:a'',
      qr_caller_primary_group = [], qr_caller_is_ai = True, qr_caller_is_recovery_mode = False\<rparr>"

theorem query_equals_filter_witness:
  "\<exists>n. query table_wire_env sample_query sample_open_log =
     Ok ([receipt_to_proto (we_proto table_wire_env) sample_receipt], n) \<and> unat n = 0"
proof -
  have chain: "el_chain sample_open_log = [sample_receipt]" by (simp add: sample_open_log)
  have m: "query_matches sample_query [] sample_receipt" and a: "admits (qr_ceiling sample_query) sample_receipt"
    by (simp_all add: query_matches_def sample_query_def admits_def admits_wire_def qr_ceiling_def
        from_caller_def sample_receipt_def)
  have lim: "unat (effective_limit sample_query) = 1000"
    by (simp add: effective_limit_def sample_query_def DEFAULT_QUERY_LIMIT_def)
  have "collect_results (record_type_from_proto_i32 (we_proto table_wire_env) (we_show_int table_wire_env))
      (qr_record_types_filter sample_query) = Ok []"
    by (simp add: sample_query_def)
  from query_equals_filter [OF this, of sample_open_log] show ?thesis
    using m a lim chain by (simp add: query_spec_def)
qed

theorem reachable_log_reports_consistent_witness:
  "\<exists>resp. log_verify_chain sample_evidence_lib sample_open_log = Ok resp \<and> vc_consistent resp"
proof -
  have "log_reachable sample_evidence_lib () sample_open_log"
    unfolding sample_open_log_def by (intro log_reachable.intros)
  from reachable_log_reports_consistent [OF sample_key_pair this] show ?thesis
    by (simp add: sample_open_log)
qed

end
