(* ===== verification/Runtime_Types.thy ===== *)
theory Runtime_Types
  imports Policy_Types Action_Ids
begin

text \<open>
  The data of the capability runtime (\<open>aios-capability-runtime/src\<close>): the closed enums of
  \<open>dispatch.rs\<close>, \<open>status.rs\<close> and \<open>failure.rs\<close> with their wire names, the errors of \<open>error.rs\<close>, the
  context of an action (\<open>context.rs\<close>), the adapter manifest (\<open>adapter_manifest.rs\<close>), and from
  \<open>pipeline.rs\<close> the transition table of the lifecycle with the function that applies it. The
  theory closes with the combinator that runs fallible steps on a shared state.
\<close>

section \<open>Closed enums\<close>

datatype action_dispatch_kind = InProcessRpc | SubprocessFork | IsolatedSandbox | DryRun

datatype adapter_io_mode = TypedParametersOnly | TemplateParameters

datatype adapter_stability = Registered | Experimental | Stable | Deprecated | Retired

datatype queue_class = Interactive | AgentProposal | Background | RecoveryPriority

datatype action_lifecycle_state =
    Created | PolicyPending | ApprovalPending | OverridePending | Approved | PolicyDenied
  | OverrideDenied | Queued | Executing | Verifying | ActionSucceeded | ActionFailed
  | ActionRolledBack | RollbackFailed

fun lifecycle_is_terminal :: "action_lifecycle_state \<Rightarrow> bool" where
  "lifecycle_is_terminal s \<longleftrightarrow> s \<in> {ActionSucceeded, ActionRolledBack, RollbackFailed, OverrideDenied}"

datatype execution_failure_reason =
    SandboxApplicationFailed | AdapterTimeout | AdapterPanic | ResourceBudgetExceeded
  | DependencyUnready | BackendUnavailable | IdempotencyKeyReplayDetected
  | EnvelopeValidationFailed | RollbackPreconditionFailed | BindingExpired
  | BindingVoidedActionRevised | AdapterRefused

datatype rollback_outcome =
    OutcomeNotAttempted | OutcomeSucceeded | OutcomeFailed | OutcomeNotApplicable

text \<open>The wire names, by \<open>rename_all = "SCREAMING_SNAKE_CASE"\<close>.\<close>

fun dispatch_kind_wire :: "action_dispatch_kind \<Rightarrow> string" where
  "dispatch_kind_wire InProcessRpc = ''IN_PROCESS_RPC''"
| "dispatch_kind_wire SubprocessFork = ''SUBPROCESS_FORK''"
| "dispatch_kind_wire IsolatedSandbox = ''ISOLATED_SANDBOX''"
| "dispatch_kind_wire DryRun = ''DRY_RUN''"

fun io_mode_wire :: "adapter_io_mode \<Rightarrow> string" where
  "io_mode_wire TypedParametersOnly = ''TYPED_PARAMETERS_ONLY''"
| "io_mode_wire TemplateParameters = ''TEMPLATE_PARAMETERS''"

fun stability_wire :: "adapter_stability \<Rightarrow> string" where
  "stability_wire Registered = ''REGISTERED''"
| "stability_wire Experimental = ''EXPERIMENTAL''"
| "stability_wire Stable = ''STABLE''"
| "stability_wire Deprecated = ''DEPRECATED''"
| "stability_wire Retired = ''RETIRED''"

fun queue_class_wire :: "queue_class \<Rightarrow> string" where
  "queue_class_wire Interactive = ''INTERACTIVE''"
| "queue_class_wire AgentProposal = ''AGENT_PROPOSAL''"
| "queue_class_wire Background = ''BACKGROUND''"
| "queue_class_wire RecoveryPriority = ''RECOVERY_PRIORITY''"

fun lifecycle_wire :: "action_lifecycle_state \<Rightarrow> string" where
  "lifecycle_wire Created = ''CREATED''"
| "lifecycle_wire PolicyPending = ''POLICY_PENDING''"
| "lifecycle_wire ApprovalPending = ''APPROVAL_PENDING''"
| "lifecycle_wire OverridePending = ''OVERRIDE_PENDING''"
| "lifecycle_wire Approved = ''APPROVED''"
| "lifecycle_wire PolicyDenied = ''POLICY_DENIED''"
| "lifecycle_wire OverrideDenied = ''OVERRIDE_DENIED''"
| "lifecycle_wire Queued = ''QUEUED''"
| "lifecycle_wire Executing = ''EXECUTING''"
| "lifecycle_wire Verifying = ''VERIFYING''"
| "lifecycle_wire ActionSucceeded = ''SUCCEEDED''"
| "lifecycle_wire ActionFailed = ''FAILED''"
| "lifecycle_wire ActionRolledBack = ''ROLLED_BACK''"
| "lifecycle_wire RollbackFailed = ''ROLLBACK_FAILED''"

fun failure_wire :: "execution_failure_reason \<Rightarrow> string" where
  "failure_wire SandboxApplicationFailed = ''SANDBOX_APPLICATION_FAILED''"
| "failure_wire AdapterTimeout = ''ADAPTER_TIMEOUT''"
| "failure_wire AdapterPanic = ''ADAPTER_PANIC''"
| "failure_wire ResourceBudgetExceeded = ''RESOURCE_BUDGET_EXCEEDED''"
| "failure_wire DependencyUnready = ''DEPENDENCY_UNREADY''"
| "failure_wire BackendUnavailable = ''BACKEND_UNAVAILABLE''"
| "failure_wire IdempotencyKeyReplayDetected = ''IDEMPOTENCY_KEY_REPLAY_DETECTED''"
| "failure_wire EnvelopeValidationFailed = ''ENVELOPE_VALIDATION_FAILED''"
| "failure_wire RollbackPreconditionFailed = ''ROLLBACK_PRECONDITION_FAILED''"
| "failure_wire BindingExpired = ''BINDING_EXPIRED''"
| "failure_wire BindingVoidedActionRevised = ''BINDING_VOIDED_ACTION_REVISED''"
| "failure_wire AdapterRefused = ''ADAPTER_REFUSED''"

fun outcome_wire :: "rollback_outcome \<Rightarrow> string" where
  "outcome_wire OutcomeNotAttempted = ''NOT_ATTEMPTED''"
| "outcome_wire OutcomeSucceeded = ''SUCCEEDED''"
| "outcome_wire OutcomeFailed = ''FAILED''"
| "outcome_wire OutcomeNotApplicable = ''NOT_APPLICABLE''"

section \<open>Errors\<close>

datatype runtime_error =
    ActionNotFound string
  | InvalidTransition action_lifecycle_state action_lifecycle_state
  | AdapterUnknown string
  | AdapterSignatureInvalid
  | AdapterUnknownAuthority string
  | AdapterAlreadyRegistered string
  | ManifestInvalid string
  | QueueFull queue_class
  | RateLimited string
  | Internal string
  | PolicyEvalFailed string
  | EvidenceEmitFailed string
  | ApprovalBindingInvalid string
  | ApprovalBindingConsumed
  | ApprovalBindingExpired
  | ApprovalRequestNotFound string
  | ApprovalApproverClassMismatch

section \<open>The context of an action\<close>

record action_context =
  ac_action_id :: string
  status :: action_lifecycle_state
  dispatch_kind :: action_dispatch_kind
  queue_class :: queue_class
  ac_created_at :: instant
  last_updated_at :: instant
  ac_error :: "execution_failure_reason option"
  rollback_outcome :: "rollback_outcome option"
  evidence_chain :: "string list"

definition action_context_new ::
    "string \<Rightarrow> action_dispatch_kind \<Rightarrow> queue_class \<Rightarrow> instant \<Rightarrow> action_context" where
  "action_context_new aid kind cls now =
     \<lparr>ac_action_id = aid, status = Created, dispatch_kind = kind, queue_class = cls,
      ac_created_at = now, last_updated_at = now, ac_error = None, rollback_outcome = None,
      evidence_chain = []\<rparr>"

definition fresh_context :: "string \<Rightarrow> instant \<Rightarrow> action_context" where
  "fresh_context aid now = action_context_new aid SubprocessFork Interactive now"

section \<open>The adapter manifest\<close>

record adapter_action_declaration =
  action_kind :: string
  target_schema :: json
  response_schema :: json
  rollback_strategy :: string
  timeout_seconds :: u32
  template_string :: "string option"
  template_substitution_variables :: "string list"

record adapter_manifest =
  adapter_id :: string
  adapter_version :: string
  vendor :: string
  adapter_name :: string
  declared_stability :: adapter_stability
  io_mode :: adapter_io_mode
  m_dispatch_kind :: action_dispatch_kind
  declared_actions :: "adapter_action_declaration list"
  declared_invariants_supported :: "string list"
  default_adapter_timeout_seconds :: u32
  m_default_sandbox_profile_id :: string
  adapter_signature :: string
  signing_key_id :: string
  manifest_created_at :: instant
  manifest_expires_at :: instant

section \<open>Lifecycle transitions\<close>

definition TRANSITIONS :: "(action_lifecycle_state \<times> action_lifecycle_state) list" where
  "TRANSITIONS =
    [(Created, PolicyPending), (Created, ActionFailed),
     (PolicyPending, Approved), (PolicyPending, ApprovalPending),
     (PolicyPending, PolicyDenied), (PolicyPending, OverridePending),
     (ApprovalPending, Approved), (ApprovalPending, ActionFailed),
     (OverridePending, Approved), (OverridePending, OverrideDenied),
     (Approved, Queued), (Queued, Executing), (Queued, ActionFailed),
     (Executing, Verifying), (Executing, ActionFailed),
     (Verifying, ActionSucceeded), (Verifying, ActionFailed),
     (ActionFailed, ActionRolledBack), (ActionFailed, RollbackFailed),
     (PolicyDenied, OverridePending)]"

definition may_transition :: "action_lifecycle_state \<Rightarrow> action_lifecycle_state \<Rightarrow> bool" where
  "may_transition s t \<longleftrightarrow> list_ex (\<lambda>(f, g). f = s \<and> g = t) TRANSITIONS"

definition apply_transition ::
    "action_context \<Rightarrow> action_lifecycle_state \<Rightarrow> instant \<Rightarrow> (runtime_error, action_context) result" where
  "apply_transition ctx to now =
     (if may_transition (status ctx) to then Ok (ctx\<lparr>status := to, last_updated_at := now\<rparr>)
      else Err (InvalidTransition (status ctx) to))"

lemma apply_transition_Ok_iff [result_simps]:
  "apply_transition ctx to now = Ok ctx' \<longleftrightarrow>
     may_transition (status ctx) to \<and> ctx' = ctx\<lparr>status := to, last_updated_at := now\<rparr>"
  by (auto simp: apply_transition_def)

text \<open>The number of states that can still follow; every transition lowers it.\<close>

fun lifecycle_rank :: "action_lifecycle_state \<Rightarrow> nat" where
  "lifecycle_rank Created = 9"
| "lifecycle_rank PolicyPending = 8"
| "lifecycle_rank PolicyDenied = 7"
| "lifecycle_rank ApprovalPending = 6"
| "lifecycle_rank OverridePending = 6"
| "lifecycle_rank Approved = 5"
| "lifecycle_rank Queued = 4"
| "lifecycle_rank Executing = 3"
| "lifecycle_rank Verifying = 2"
| "lifecycle_rank ActionFailed = 1"
| "lifecycle_rank _ = 0"

interpretation lc: lifecycle_fsm may_transition lifecycle_is_terminal lifecycle_rank
proof unfold_locales
  fix s assume "\<not> lifecycle_is_terminal s"
  then show "\<exists>t. may_transition s t"
    by (cases s) (auto simp: may_transition_def TRANSITIONS_def)
qed (auto simp: may_transition_def TRANSITIONS_def)

lemma may_transition_simps [simp]:
  "may_transition Created PolicyPending" "may_transition Created ActionFailed"
  "may_transition PolicyPending Approved" "may_transition PolicyPending ApprovalPending"
  "may_transition PolicyPending PolicyDenied" "may_transition ApprovalPending Approved"
  "may_transition Approved Queued" "may_transition Queued Executing"
  "may_transition Queued ActionFailed" "may_transition Executing Verifying"
  "may_transition Executing ActionFailed" "may_transition Verifying ActionSucceeded"
  "may_transition Verifying ActionFailed" "may_transition ActionFailed ActionRolledBack"
  "may_transition ActionFailed RollbackFailed"
  by (simp_all add: may_transition_def TRANSITIONS_def)

lemma path_without_approval:
  assumes "fsm_path may_transition s ts" and "Approved \<notin> set ts"
    and "s \<notin> {Approved, Queued, Executing, Verifying, ActionSucceeded}"
  shows "set ts \<inter> {Queued, Executing, Verifying, ActionSucceeded} = {}"
  using assms
proof (induction ts arbitrary: s)
  case (Cons t ts)
  then have "may_transition s t" and "t \<noteq> Approved" by auto
  then have "t \<notin> {Approved, Queued, Executing, Verifying, ActionSucceeded}"
    using Cons.prems(3) by (auto simp: may_transition_def TRANSITIONS_def)
  then show ?case using Cons.IH [of t] Cons.prems by auto
qed simp

text \<open>
  Every execution is preceded by an approval: each path through the table from \<open>Created\<close> to
  \<open>Executing\<close> passes through \<open>Approved\<close> and \<open>Queued\<close>, and no path repeats a state or has more
  than nine steps.
\<close>

theorem lifecycle_paths:
  assumes "fsm_path may_transition Created ts"
  shows "distinct (Created # ts) \<and> length ts \<le> 9 \<and>
    (Executing \<in> set ts \<longrightarrow> Approved \<in> set ts) \<and>
    (\<exists>us. fsm_path may_transition (last (Created # ts)) us \<and>
       lifecycle_is_terminal (last (last (Created # ts) # us)))"
  using lc.path_no_revisit [OF assms] lc.path_length [OF assms]
    path_without_approval [OF assms] lc.path_to_terminal [of "last (Created # ts)"] by auto

theorem lifecycle_paths_witness:
  "distinct [Created, PolicyPending, Approved, Queued, Executing]"
  using lifecycle_paths [of "[PolicyPending, Approved, Queued, Executing]"] by simp

section \<open>Fallible steps on a shared state\<close>

text \<open>
  An asynchronous method that may fail, on state behind locks: an error leaves the state as it
  was changed up to that point.
\<close>

type_synonym ('s, 'a) rt = "'s \<Rightarrow> (runtime_error, 'a) result \<times> 's"

definition rt_return :: "'a \<Rightarrow> ('s, 'a) rt" where
  "rt_return a = (\<lambda>st. (Ok a, st))"

definition rt_lift :: "(runtime_error, 'a) result \<Rightarrow> ('s, 'a) rt" where
  "rt_lift r = (\<lambda>st. (r, st))"

definition rt_then :: "('s, 'a) rt \<Rightarrow> ('a \<Rightarrow> ('s, 'b) rt) \<Rightarrow> ('s, 'b) rt" where
  "rt_then m f = (\<lambda>st. case m st of (Inl e, st') \<Rightarrow> (Err e, st') | (Inr a, st') \<Rightarrow> f a st')"

lemma rt_return_simp [simp]: "rt_return a st = (Ok a, st)"
  by (simp add: rt_return_def)

lemma rt_lift_simp [simp]: "rt_lift r st = (r, st)"
  by (simp add: rt_lift_def)

lemma rt_then_Ok_iff [result_simps]:
  "rt_then m f st = (Ok b, st'') \<longleftrightarrow> (\<exists>a st'. m st = (Ok a, st') \<and> f a st' = (Ok b, st''))"
  by (auto simp: rt_then_def split: prod.splits sum.splits)

lemma rt_then_eq [simp]:
  "m st = (Ok a, st') \<Longrightarrow> rt_then m f st = f a st'"
  "m st = (Err e, st') \<Longrightarrow> rt_then m f st = (Err e, st')"
  by (simp_all add: rt_then_def)

text \<open>A property of the state that every step keeps, whether it succeeds or fails.\<close>

definition rt_keeps :: "('s \<Rightarrow> bool) \<Rightarrow> ('s, 'a) rt \<Rightarrow> bool" where
  "rt_keeps P m \<longleftrightarrow> (\<forall>st. P st \<longrightarrow> P (snd (m st)))"

named_theorems rt_keeps_intros \<open>rules that carry a state invariant through a step\<close>

lemma rt_keepsD: "rt_keeps P m \<Longrightarrow> P st \<Longrightarrow> P (snd (m st))"
  by (simp add: rt_keeps_def)

lemma rt_keeps_return [rt_keeps_intros]: "rt_keeps P (rt_return a)"
  by (simp add: rt_keeps_def)

lemma rt_keeps_lift [rt_keeps_intros]: "rt_keeps P (rt_lift r)"
  by (simp add: rt_keeps_def)

lemma rt_keeps_then [rt_keeps_intros]:
  assumes "rt_keeps P m" and "\<And>a. rt_keeps P (f a)"
  shows "rt_keeps P (rt_then m f)"
  unfolding rt_keeps_def
proof (intro allI impI)
  fix st assume "P st"
  then have "P (snd (m st))" using assms(1) by (simp add: rt_keeps_def)
  then show "P (snd (rt_then m f st))"
    using assms(2) by (auto simp: rt_then_def rt_keeps_def split: prod.splits sum.splits)
qed

lemma rt_keeps_if [rt_keeps_intros]:
  "rt_keeps P m \<Longrightarrow> rt_keeps P n \<Longrightarrow> rt_keeps P (if b then m else n)"
  by simp

end
