(* ===== verification/Runtime_Gate.thy ===== *)
theory Runtime_Gate
  imports Runtime_Types
begin

text \<open>
  The approval gate, \<open>approval_gate.rs\<close>: the policy, the pending requests and the append-only audit
  trail, with every operation. The clock is an argument; BLAKE3, \<open>serde_json\<close> and the printing of
  instants are the fields of \<open>gate_lib\<close>. \<open>expire_stale_pending\<close> takes the read lock and then the
  write lock; the state it read and the state it changes are separate arguments.
\<close>

section \<open>Policies, requests, decisions\<close>

datatype approval_policy = AutoDeny | HumanRequired | ClassifiedOnly | Delegated string

definition approval_policy_default :: approval_policy where
  "approval_policy_default = HumanRequired"

fun is_auto_deny :: "approval_policy \<Rightarrow> bool" where
  "is_auto_deny p \<longleftrightarrow> p = AutoDeny"

fun is_human_required :: "approval_policy \<Rightarrow> bool" where
  "is_human_required p \<longleftrightarrow> p = HumanRequired"

record gate_approval_request =
  gr_action_id :: string
  proposed_by_capsule_id :: string
  target_resource :: string
  required_capability :: string
  delegated_scope_tag :: "string option"
  is_classified :: bool
  submitted_at :: instant

definition gate_request_new ::
    "string \<Rightarrow> string \<Rightarrow> string \<Rightarrow> string \<Rightarrow> instant \<Rightarrow> gate_approval_request" where
  "gate_request_new aid capsule target_res capability now =
     \<lparr>gr_action_id = aid, proposed_by_capsule_id = capsule, target_resource = target_res,
      required_capability = capability, delegated_scope_tag = None, is_classified = False,
      submitted_at = now\<rparr>"

definition with_classified :: "bool \<Rightarrow> gate_approval_request \<Rightarrow> gate_approval_request" where
  "with_classified c r = r\<lparr>is_classified := c\<rparr>"

definition with_scope_tag :: "string \<Rightarrow> gate_approval_request \<Rightarrow> gate_approval_request" where
  "with_scope_tag tag r = r\<lparr>delegated_scope_tag := Some tag\<rparr>"

datatype approval_decision =
    GateApproved string
  | GateDenied string
  | GateEscalated string string
  | GatePending instant

fun is_pending :: "approval_decision \<Rightarrow> bool" where
  "is_pending (GatePending _) \<longleftrightarrow> True"
| "is_pending _ \<longleftrightarrow> False"

section \<open>Audit entries\<close>

record gate_lib =
  gl_to_string :: "json \<Rightarrow> string option"
  gl_datetime :: "instant \<Rightarrow> string"
  gl_rfc3339 :: "instant \<Rightarrow> string"
  gl_hex_digest :: "string \<Rightarrow> string"

definition gate_request_json :: "gate_lib \<Rightarrow> gate_approval_request \<Rightarrow> json" where
  "gate_request_json lib r = JObject (
     [(''action_id'', JString (gr_action_id r)),
      (''proposed_by_capsule_id'', JString (proposed_by_capsule_id r)),
      (''target_resource'', JString (target_resource r)),
      (''required_capability'', JString (required_capability r))] @
     (case delegated_scope_tag r of None \<Rightarrow> [] | Some t \<Rightarrow> [(''delegated_scope_tag'', JString t)]) @
     [(''is_classified'', JBool (is_classified r)),
      (''submitted_at'', JString (gl_datetime lib (submitted_at r)))])"

fun gate_decision_json :: "gate_lib \<Rightarrow> approval_decision \<Rightarrow> json" where
  "gate_decision_json lib (GateApproved who) = JObject [(''Approved'', JString who)]"
| "gate_decision_json lib (GateDenied why) = JObject [(''Denied'', JString why)]"
| "gate_decision_json lib (GateEscalated to_whom why) =
     JObject [(''Escalated'', JObject [(''escalated_to'', JString to_whom), (''reason'', JString why)])]"
| "gate_decision_json lib (GatePending t) = JObject [(''Pending'', JString (gl_datetime lib t))]"

definition or_default :: "string option \<Rightarrow> string" where
  "or_default s = (case s of None \<Rightarrow> [] | Some t \<Rightarrow> t)"

definition compute_evidence_hash ::
    "gate_lib \<Rightarrow> gate_approval_request \<Rightarrow> approval_decision \<Rightarrow> instant \<Rightarrow> string" where
  "compute_evidence_hash lib r d now =
     take 32 (gl_hex_digest lib
       (or_default (gl_to_string lib (gate_request_json lib r)) @ ''|'' @
        or_default (gl_to_string lib (gate_decision_json lib d)) @ ''|'' @ gl_rfc3339 lib now))"

record gate_audit_entry =
  ga_request :: gate_approval_request
  ga_decision :: approval_decision
  decided_at :: instant
  evidence_hash :: string

definition audit_entry ::
    "gate_lib \<Rightarrow> gate_approval_request \<Rightarrow> approval_decision \<Rightarrow> instant \<Rightarrow> gate_audit_entry" where
  "audit_entry lib r d now =
     \<lparr>ga_request = r, ga_decision = d, decided_at = now,
      evidence_hash = compute_evidence_hash lib r d now\<rparr>"

section \<open>The gate\<close>

record approval_gate =
  gate_policy :: approval_policy
  gate_pending :: "(string \<times> gate_approval_request) list"
  audit_trail :: "gate_audit_entry list"

definition gate_new :: "approval_policy \<Rightarrow> approval_gate" where
  "gate_new p = \<lparr>gate_policy = p, gate_pending = [], audit_trail = []\<rparr>"

definition gate_decide :: "approval_policy \<Rightarrow> gate_approval_request \<Rightarrow> instant \<Rightarrow> approval_decision" where
  "gate_decide p r deadline =
     (case p of
        AutoDeny \<Rightarrow> GateDenied ''automatic denial policy in effect''
      | HumanRequired \<Rightarrow> GatePending deadline
      | ClassifiedOnly \<Rightarrow>
          if is_classified r then GatePending deadline else GateApproved ''system:classified-bypass''
      | Delegated tag \<Rightarrow>
          if delegated_scope_tag r = Some tag then GateApproved ''system:delegated''
          else GatePending deadline)"

definition gate_evaluate ::
    "gate_lib \<Rightarrow> instant \<Rightarrow> gate_approval_request \<Rightarrow> approval_gate \<Rightarrow> approval_decision \<times> approval_gate" where
  "gate_evaluate lib now r g =
     (let d = gate_decide (gate_policy g) r (now + duration_seconds 300);
          g = g\<lparr>audit_trail := audit_trail g @ [audit_entry lib r d now]\<rparr>;
          g = (if is_pending d then g\<lparr>gate_pending := AList.update (gr_action_id r) r (gate_pending g)\<rparr>
               else g)
      in (d, g))"

definition gate_set_policy :: "approval_policy \<Rightarrow> approval_gate \<Rightarrow> approval_gate" where
  "gate_set_policy p g = g\<lparr>gate_policy := p\<rparr>"

definition is_ai_actor :: "string \<Rightarrow> bool" where
  "is_ai_actor who \<longleftrightarrow> prefix ''ai:'' who"

text \<open>Both manual decisions: remove the pending request and record the decision.\<close>

definition resolve_pending ::
    "gate_lib \<Rightarrow> instant \<Rightarrow> string \<Rightarrow> approval_decision \<Rightarrow> approval_gate \<Rightarrow> bool \<times> approval_gate" where
  "resolve_pending lib now aid d g =
     (case map_of (gate_pending g) aid of
        Some r \<Rightarrow> (True, g\<lparr>gate_pending := AList.delete aid (gate_pending g),
                          audit_trail := audit_trail g @ [audit_entry lib r d now]\<rparr>)
      | None \<Rightarrow> (False, g))"

definition approve_manually ::
    "gate_lib \<Rightarrow> instant \<Rightarrow> string \<Rightarrow> string \<Rightarrow> approval_gate \<Rightarrow> bool \<times> approval_gate" where
  "approve_manually lib now aid approver g =
     (if is_ai_actor approver then (False, g)
      else resolve_pending lib now aid (GateApproved approver) g)"

definition deny_manually ::
    "gate_lib \<Rightarrow> instant \<Rightarrow> string \<Rightarrow> string \<Rightarrow> string \<Rightarrow> approval_gate \<Rightarrow> bool \<times> approval_gate" where
  "deny_manually lib now aid why denier g =
     (if is_ai_actor denier then (False, g)
      else resolve_pending lib now aid (GateDenied why) g)"

definition gate_escalate ::
    "gate_lib \<Rightarrow> instant \<Rightarrow> string \<Rightarrow> string \<Rightarrow> string \<Rightarrow> approval_gate \<Rightarrow> bool \<times> approval_gate" where
  "gate_escalate lib now aid to_whom why g =
     (case map_of (gate_pending g) aid of
        Some r \<Rightarrow> (True, g\<lparr>audit_trail := audit_trail g @ [audit_entry lib r (GateEscalated to_whom why) now]\<rparr>)
      | None \<Rightarrow> (False, g))"

definition stale_pending :: "instant \<Rightarrow> approval_gate \<Rightarrow> (string \<times> gate_approval_request) list" where
  "stale_pending now g =
     filter (\<lambda>(aid, r). submitted_at r + duration_seconds 300 \<le> now) (gate_pending g)"

definition expire_one ::
    "gate_lib \<Rightarrow> instant \<Rightarrow> string \<times> gate_approval_request \<Rightarrow> approval_gate \<Rightarrow> approval_gate" where
  "expire_one lib now p g =
     g\<lparr>gate_pending := AList.delete (fst p) (gate_pending g),
       audit_trail := audit_trail g @ [audit_entry lib (snd p) (GateDenied ''pending timeout expired'') now]\<rparr>"

text \<open>\<open>seen\<close> is the gate when the read lock was held, \<open>g\<close> when the write lock is taken.\<close>

definition expire_stale_pending ::
    "gate_lib \<Rightarrow> instant \<Rightarrow> approval_gate \<Rightarrow> approval_gate \<Rightarrow> nat \<times> approval_gate" where
  "expire_stale_pending lib now seen g =
     (let expired = stale_pending now seen
      in if expired = [] then (0, g) else (length expired, fold (expire_one lib now) expired g))"

definition pending_count :: "approval_gate \<Rightarrow> nat" where
  "pending_count g = length (gate_pending g)"

section \<open>Runs of the gate\<close>

datatype gate_op =
    GateEvaluate instant gate_approval_request
  | GateSetPolicy approval_policy
  | GateApprove instant string string
  | GateDeny instant string string string
  | GateEscalate instant string string string
  | GateExpire instant

fun gate_step :: "gate_lib \<Rightarrow> gate_op \<Rightarrow> approval_gate \<Rightarrow> approval_gate" where
  "gate_step lib (GateEvaluate now r) g = snd (gate_evaluate lib now r g)"
| "gate_step lib (GateSetPolicy p) g = gate_set_policy p g"
| "gate_step lib (GateApprove now aid who) g = snd (approve_manually lib now aid who g)"
| "gate_step lib (GateDeny now aid why who) g = snd (deny_manually lib now aid why who g)"
| "gate_step lib (GateEscalate now aid to_whom why) g = snd (gate_escalate lib now aid to_whom why g)"
| "gate_step lib (GateExpire now) g = snd (expire_stale_pending lib now g g)"

definition gate_after :: "gate_lib \<Rightarrow> approval_policy \<Rightarrow> gate_op list \<Rightarrow> approval_gate" where
  "gate_after lib p ops = fold (gate_step lib) ops (gate_new p)"

lemmas gate_defs = gate_evaluate_def gate_set_policy_def approve_manually_def deny_manually_def
  gate_escalate_def resolve_pending_def Let_def

lemma expire_fold:
  "audit_trail (fold (expire_one lib now) es g) = audit_trail g @
     map (\<lambda>p. audit_entry lib (snd p) (GateDenied ''pending timeout expired'') now) es"
  "map_of (gate_pending (fold (expire_one lib now) es g)) = (map_of (gate_pending g)) |` (- fst ` set es)"
  "gate_policy (fold (expire_one lib now) es g) = gate_policy g"
  by (induction es arbitrary: g)
    (auto simp: expire_one_def AList.delete_conv' restrict_map_def fun_eq_iff)

lemma expire_fold_subset: "set (gate_pending (fold (expire_one lib now) es g)) \<subseteq> set (gate_pending g)"
proof (induction es arbitrary: g)
  case (Cons e es)
  have "set (gate_pending (expire_one lib now e g)) \<subseteq> set (gate_pending g)"
    by (auto simp: expire_one_def AList.delete_eq)
  then show ?case using Cons.IH [of "expire_one lib now e g"] by simp
qed simp

text \<open>The entries an operation appends, and what it leaves pending.\<close>

definition new_entries :: "gate_lib \<Rightarrow> gate_op \<Rightarrow> approval_gate \<Rightarrow> gate_audit_entry list" where
  "new_entries lib op g = drop (length (audit_trail g)) (audit_trail (gate_step lib op g))"

lemma gate_step_appends:
  "audit_trail (gate_step lib op g) = audit_trail g @ new_entries lib op g"
  by (cases op) (auto simp: new_entries_def gate_defs expire_stale_pending_def expire_fold
      split: option.splits)

section \<open>Who approves\<close>

definition gate_policies :: "approval_policy \<Rightarrow> gate_op list \<Rightarrow> approval_policy set" where
  "gate_policies p ops = insert p {q. GateSetPolicy q \<in> set ops}"

definition entry_ok :: "gate_lib \<Rightarrow> approval_policy \<Rightarrow> gate_op list \<Rightarrow> gate_audit_entry \<Rightarrow> bool" where
  "entry_ok lib p ops e \<longleftrightarrow>
     evidence_hash e = compute_evidence_hash lib (ga_request e) (ga_decision e) (decided_at e) \<and>
     (\<exists>t. GateEvaluate t (ga_request e) \<in> set ops) \<and>
     (case ga_decision e of
        GateApproved who \<Rightarrow>
          who = ''system:classified-bypass'' \<and> \<not> is_classified (ga_request e) \<and>
            ClassifiedOnly \<in> gate_policies p ops \<or>
          who = ''system:delegated'' \<and>
            (\<exists>tag. delegated_scope_tag (ga_request e) = Some tag \<and> Delegated tag \<in> gate_policies p ops) \<or>
          \<not> is_ai_actor who \<and> (\<exists>t. GateApprove t (gr_action_id (ga_request e)) who \<in> set ops)
      | _ \<Rightarrow> True)"

definition gate_inv :: "gate_lib \<Rightarrow> approval_policy \<Rightarrow> gate_op list \<Rightarrow> approval_gate \<Rightarrow> bool" where
  "gate_inv lib p ops g \<longleftrightarrow>
     gate_policy g \<in> gate_policies p ops \<and>
     (\<forall>(aid, r) \<in> set (gate_pending g). gr_action_id r = aid \<and> (\<exists>t. GateEvaluate t r \<in> set ops)) \<and>
     (\<forall>e \<in> set (audit_trail g). entry_ok lib p ops e)"

lemma gate_inv_pending:
  assumes "gate_inv lib p ops g" and "(aid, r) \<in> set (gate_pending g)"
  shows "gr_action_id r = aid" and "\<exists>t. GateEvaluate t r \<in> set (ops @ ops')"
  using assms by (auto simp: gate_inv_def)

lemma entry_ok_mono: "entry_ok lib p ops e \<Longrightarrow> entry_ok lib p (ops @ [op]) e"
  by (auto simp: entry_ok_def gate_policies_def split: approval_decision.splits)

lemma entry_ok_new:
  assumes "\<exists>t. GateEvaluate t r \<in> set ops"
    and "\<And>who. d = GateApproved who \<Longrightarrow> \<not> is_ai_actor who \<and> (\<exists>t. GateApprove t (gr_action_id r) who \<in> set ops)"
  shows "entry_ok lib p ops (audit_entry lib r d now)"
  using assms by (auto simp: entry_ok_def audit_entry_def split: approval_decision.splits)

lemma entry_ok_evaluate:
  assumes "gate_policy g \<in> gate_policies p ops"
  shows "entry_ok lib p (ops @ [GateEvaluate now r])
    (audit_entry lib r (gate_decide (gate_policy g) r deadline) now)"
  using assms
  by (auto simp: entry_ok_def audit_entry_def gate_decide_def gate_policies_def
      split: approval_decision.splits approval_policy.splits if_splits)

lemma gate_inv_extend:
  assumes "gate_inv lib p ops g" and "gate_policy g' \<in> gate_policies p (ops @ [op])"
    and "\<And>aid r. (aid, r) \<in> set (gate_pending g') \<Longrightarrow>
      (aid, r) \<in> set (gate_pending g) \<or> gr_action_id r = aid \<and> (\<exists>t. op = GateEvaluate t r)"
    and "audit_trail g' = audit_trail g @ es" and "\<And>e. e \<in> set es \<Longrightarrow> entry_ok lib p (ops @ [op]) e"
  shows "gate_inv lib p (ops @ [op]) g'"
  unfolding gate_inv_def
proof (intro conjI ballI)
  fix x assume "x \<in> set (gate_pending g')"
  moreover obtain aid r where x: "x = (aid, r)" by force
  ultimately have "(aid, r) \<in> set (gate_pending g')" by simp
  from assms(3) [OF this] show "case x of (aid, r) \<Rightarrow>
      gr_action_id r = aid \<and> (\<exists>t. GateEvaluate t r \<in> set (ops @ [op]))"
    using gate_inv_pending(1) [OF assms(1), of aid r] gate_inv_pending(2) [OF assms(1), of aid r "[op]"] x
    by auto
next
  fix e assume "e \<in> set (audit_trail g')"
  then show "entry_ok lib p (ops @ [op]) e"
    using assms(1,4,5) entry_ok_mono by (auto simp: gate_inv_def)
qed (use assms(2) in simp)

lemma gate_policies_mono: "q \<in> gate_policies p ops \<Longrightarrow> q \<in> gate_policies p (ops @ [op])"
  by (auto simp: gate_policies_def)

lemma pending_entry_ok:
  assumes "gate_inv lib p ops g" and "(aid, r) \<in> set (gate_pending g)"
    and "\<And>who. d = GateApproved who \<Longrightarrow> \<not> is_ai_actor who \<and> (\<exists>t. op = GateApprove t aid who)"
  shows "entry_ok lib p (ops @ [op]) (audit_entry lib r d now)"
  using assms gate_inv_pending(1) [OF assms(1,2)] gate_inv_pending(2) [OF assms(1,2), of "[op]"]
  by (intro entry_ok_new) auto

lemma gate_inv_resolve:
  assumes "gate_inv lib p ops g"
    and "\<And>who. d = GateApproved who \<Longrightarrow> \<not> is_ai_actor who \<and> (\<exists>t. op = GateApprove t aid who)"
  shows "gate_inv lib p (ops @ [op]) (snd (resolve_pending lib now aid d g))"
proof (cases "map_of (gate_pending g) aid")
  case None
  show ?thesis
    by (rule gate_inv_extend [OF assms(1), where es = "[]"])
      (use assms(1) None in \<open>auto simp: gate_inv_def resolve_pending_def gate_policies_mono\<close>)
next
  case (Some r)
  show ?thesis
    by (rule gate_inv_extend [OF assms(1), where es = "[audit_entry lib r d now]"])
      (use assms Some pending_entry_ok [OF assms(1) map_of_SomeD [OF Some] assms(2)] in
        \<open>auto simp: gate_inv_def resolve_pending_def gate_policies_mono AList.delete_eq\<close>)
qed

lemma gate_inv_same:
  assumes "gate_inv lib p ops g"
  shows "gate_inv lib p (ops @ [op]) g"
  by (rule gate_inv_extend [OF assms, where es = "[]"])
    (use assms in \<open>auto simp: gate_inv_def gate_policies_mono\<close>)

lemma gate_inv_step: "gate_inv lib p ops g \<Longrightarrow> gate_inv lib p (ops @ [op]) (gate_step lib op g)"
proof (cases op)
  case (GateEvaluate now r)
  assume inv: "gate_inv lib p ops g"
  let ?d = "gate_decide (gate_policy g) r (now + duration_seconds 300)"
  show ?thesis
    by (rule gate_inv_extend [OF inv, where es = "[audit_entry lib r ?d now]"])
      (use inv GateEvaluate entry_ok_evaluate [of g p ops lib now r] in
        \<open>auto simp: gate_inv_def gate_evaluate_def Let_def gate_policies_mono
          split: if_splits dest!: subsetD [OF set_AList_update]\<close>)
next
  case (GateSetPolicy q)
  assume inv: "gate_inv lib p ops g"
  show ?thesis
    by (rule gate_inv_extend [OF inv, where es = "[]"])
      (use GateSetPolicy in \<open>auto simp: gate_set_policy_def gate_policies_def\<close>)
next
  case (GateEscalate now aid to_whom why)
  assume inv: "gate_inv lib p ops g"
  show ?thesis
  proof (cases "map_of (gate_pending g) aid")
    case (Some r)
    show ?thesis
      by (rule gate_inv_extend [OF inv, where es = "[audit_entry lib r (GateEscalated to_whom why) now]"])
        (use inv Some GateEscalate pending_entry_ok [OF inv map_of_SomeD [OF Some], of "GateEscalated to_whom why" op now] in
          \<open>auto simp: gate_inv_def gate_escalate_def gate_policies_mono\<close>)
  qed (use inv GateEscalate gate_inv_same in \<open>simp add: gate_escalate_def\<close>)
next
  case (GateExpire now)
  assume inv: "gate_inv lib p ops g"
  let ?es = "map (\<lambda>p. audit_entry lib (snd p) (GateDenied ''pending timeout expired'') now) (stale_pending now g)"
  show ?thesis
  proof (cases "stale_pending now g = []")
    case False
    show ?thesis
    proof (rule gate_inv_extend [OF inv, where es = ?es])
      fix e assume "e \<in> set ?es"
      then obtain aid r where "(aid, r) \<in> set (gate_pending g)"
        and "e = audit_entry lib r (GateDenied ''pending timeout expired'') now"
        by (auto simp: stale_pending_def)
      then show "entry_ok lib p (ops @ [op]) e" using pending_entry_ok [OF inv] by blast
    qed (use inv GateExpire False expire_fold_subset [of lib now "stale_pending now g" g] in
        \<open>auto simp: expire_stale_pending_def Let_def expire_fold gate_inv_def gate_policies_mono\<close>)
  qed (use inv GateExpire gate_inv_same in \<open>simp add: expire_stale_pending_def\<close>)
qed (auto simp: approve_manually_def deny_manually_def gate_inv_same intro!: gate_inv_resolve)

lemma gate_after_inv: "gate_inv lib p ops (gate_after lib p ops)"
proof (induction ops rule: rev_induct)
  case Nil
  show ?case by (simp add: gate_inv_def gate_after_def gate_new_def gate_policies_def)
next
  case (snoc op ops)
  then show ?case using gate_inv_step by (simp add: gate_after_def)
qed

text \<open>
  Every approval in the audit trail is accounted for: it is the bypass of a request that is not
  classified under the policy that allows it, the delegation of a request that carries the
  delegated tag, or a manual approval by an actor that does not carry the AI prefix; the request
  was put to the gate, and the hash of the entry is that of its contents.
\<close>

theorem gate_approvals_accounted:
  assumes "e \<in> set (audit_trail (gate_after lib p ops))" and "ga_decision e = GateApproved who"
  shows "(\<exists>t. GateEvaluate t (ga_request e) \<in> set ops) \<and>
    evidence_hash e = compute_evidence_hash lib (ga_request e) (ga_decision e) (decided_at e) \<and>
    (who = ''system:classified-bypass'' \<and> \<not> is_classified (ga_request e) \<and>
       (p = ClassifiedOnly \<or> GateSetPolicy ClassifiedOnly \<in> set ops) \<or>
     who = ''system:delegated'' \<and>
       (\<exists>tag. delegated_scope_tag (ga_request e) = Some tag \<and>
          (p = Delegated tag \<or> GateSetPolicy (Delegated tag) \<in> set ops)) \<or>
     \<not> prefix ''ai:'' who \<and> (\<exists>t. GateApprove t (gr_action_id (ga_request e)) who \<in> set ops))"
proof -
  have "entry_ok lib p ops e" using gate_after_inv [of lib p ops] assms(1) by (simp add: gate_inv_def)
  then show ?thesis using assms(2) by (auto simp: entry_ok_def gate_policies_def is_ai_actor_def)
qed

definition sample_gate_lib :: gate_lib where
  "sample_gate_lib =
     \<lparr>gl_to_string = (\<lambda>_. Some []), gl_datetime = (\<lambda>_. []), gl_rfc3339 = (\<lambda>_. []), gl_hex_digest = (\<lambda>s. s)\<rparr>"

definition sample_gate_request :: gate_approval_request where
  "sample_gate_request = gate_request_new ''act_1'' ''ai:agent-42'' ''svc'' ''service.restart'' 0"

lemma sample_gate_trail:
  "audit_trail (gate_after sample_gate_lib HumanRequired
     [GateEvaluate 0 sample_gate_request, GateApprove 1 ''act_1'' ''human:alice'']) =
   [audit_entry sample_gate_lib sample_gate_request (GatePending (duration_seconds 300)) 0,
    audit_entry sample_gate_lib sample_gate_request (GateApproved ''human:alice'') 1]"
  by (simp add: gate_after_def gate_new_def gate_defs gate_decide_def is_ai_actor_def
      sample_gate_request_def gate_request_new_def)

theorem gate_approvals_accounted_witness:
  "\<exists>t. GateApprove t ''act_1'' ''human:alice'' \<in>
     set [GateEvaluate 0 sample_gate_request, GateApprove 1 ''act_1'' ''human:alice'']"
  using gate_approvals_accounted [of "audit_entry sample_gate_lib sample_gate_request
      (GateApproved ''human:alice'') 1" sample_gate_lib HumanRequired
      "[GateEvaluate 0 sample_gate_request, GateApprove 1 ''act_1'' ''human:alice'']" "''human:alice''"]
  by (auto simp: sample_gate_trail audit_entry_def)

text \<open>
  The trail only grows, and a request leaves the pending map only with a recorded decision: an
  operation that removes it appends an approval or a denial of it, unless the operation puts a new
  request under the same action identifier in its place.
\<close>

theorem pending_leaves_decided:
  assumes "map_of (gate_pending g) aid = Some r"
    and "map_of (gate_pending (gate_step lib op g)) aid \<noteq> Some r"
    and "distinct (map fst (gate_pending g))"
  shows "(\<exists>es e. audit_trail (gate_step lib op g) = audit_trail g @ es \<and> e \<in> set es \<and> ga_request e = r \<and>
      (\<exists>s. ga_decision e = GateApproved s \<or> ga_decision e = GateDenied s)) \<or>
    (\<exists>now r'. op = GateEvaluate now r' \<and> gr_action_id r' = aid)"
proof (cases op)
  case (GateEvaluate now r')
  then show ?thesis using assms by (auto simp: gate_defs AList.update_conv' split: if_splits)
next
  case (GateExpire now)
  let ?stale = "stale_pending now g"
  have ne: "?stale \<noteq> []" using assms GateExpire by (auto simp: expire_stale_pending_def)
  then have "aid \<in> fst ` set ?stale"
    using assms GateExpire
    by (auto simp: expire_stale_pending_def Let_def expire_fold restrict_map_def split: if_splits)
  then obtain r' where "(aid, r') \<in> set ?stale" by auto
  moreover from this have "map_of (gate_pending g) aid = Some r'"
    using assms(3) by (simp add: stale_pending_def)
  then have "r' = r" using assms(1) by simp
  ultimately have mem: "audit_entry lib r (GateDenied ''pending timeout expired'') now \<in>
      set (map (\<lambda>p. audit_entry lib (snd p) (GateDenied ''pending timeout expired'') now) ?stale)"
    by force
  have trail: "audit_trail (gate_step lib op g) = audit_trail g @
      map (\<lambda>p. audit_entry lib (snd p) (GateDenied ''pending timeout expired'') now) ?stale"
    using GateExpire ne by (simp add: expire_stale_pending_def Let_def expire_fold)
  show ?thesis
    by (rule disjI1, intro exI conjI, rule trail, rule mem) (auto simp: audit_entry_def)
qed (use assms(1,2) in \<open>auto simp: gate_defs audit_entry_def AList.delete_conv' split: if_splits option.splits\<close>)

theorem pending_leaves_decided_witness:
  "\<exists>es e. audit_trail (gate_step sample_gate_lib (GateExpire (duration_seconds 300))
       (gate_after sample_gate_lib HumanRequired [GateEvaluate 0 sample_gate_request])) =
     audit_trail (gate_after sample_gate_lib HumanRequired [GateEvaluate 0 sample_gate_request]) @ es \<and>
     e \<in> set es \<and> ga_request e = sample_gate_request \<and>
     (\<exists>s. ga_decision e = GateApproved s \<or> ga_decision e = GateDenied s)"
proof -
  let ?g = "gate_after sample_gate_lib HumanRequired [GateEvaluate 0 sample_gate_request]"
  have g: "gate_pending ?g = [(''act_1'', sample_gate_request)]"
    by (simp add: gate_after_def gate_new_def gate_defs gate_decide_def sample_gate_request_def
        gate_request_new_def)
  have "gate_pending (gate_step sample_gate_lib (GateExpire (duration_seconds 300)) ?g) = []"
    using g by (simp add: expire_stale_pending_def stale_pending_def Let_def expire_one_def
        sample_gate_request_def gate_request_new_def)
  then show ?thesis
    using pending_leaves_decided [of ?g "''act_1''" sample_gate_request sample_gate_lib
        "GateExpire (duration_seconds 300)"] g by simp
qed

section \<open>Departures\<close>

text \<open>
  A second request under the same action identifier silently replaces the first: the first never
  gets a decision.
\<close>

theorem resubmission_drops_pending:
  assumes "gate_policy g = HumanRequired" and "gr_action_id r' = gr_action_id r"
  shows "let g1 = gate_step lib (GateEvaluate t r) g; g2 = gate_step lib (GateEvaluate t' r') g1 in
    map_of (gate_pending g1) (gr_action_id r) = Some r \<and>
    map_of (gate_pending g2) (gr_action_id r) = Some r' \<and>
    audit_trail g2 = audit_trail g @
      [audit_entry lib r (GatePending (t + duration_seconds 300)) t,
       audit_entry lib r' (GatePending (t' + duration_seconds 300)) t']"
  using assms by (simp add: gate_defs gate_decide_def AList.update_conv')

text \<open>
  The read lock of \<open>expire_stale_pending\<close> is released before the write lock is taken. A request that
  is approved in between is denied as well: the trail holds both decisions.
\<close>

theorem expiry_race:
  assumes "map_of (gate_pending g) aid = Some r" and "\<not> is_ai_actor who"
    and "submitted_at r + duration_seconds 300 \<le> now" and "gate_pending g = [(aid, r)]"
  shows "audit_trail (snd (expire_stale_pending lib now g (snd (approve_manually lib t aid who g)))) =
    audit_trail g @ [audit_entry lib r (GateApproved who) t,
      audit_entry lib r (GateDenied ''pending timeout expired'') now]"
  using assms by (simp add: gate_defs expire_stale_pending_def stale_pending_def expire_one_def)

text \<open>
  The gate recognises an AI by the prefix \<open>ai:\<close> of its name; elsewhere in the system the subjects
  that carry the AI flag are named \<open>agent:\<close>. Such a subject can approve.
\<close>

theorem agent_may_approve:
  assumes "map_of (gate_pending g) aid = Some r"
  shows "fst (approve_manually lib now aid ''agent:dev'' g)"
  using assms by (simp add: gate_defs is_ai_actor_def)

text \<open>
  The deadline announced with a pending decision counts from the evaluation, the expiry from the
  submission: a request evaluated after it was submitted is expired before the announced instant.
\<close>

theorem announced_deadline_not_kept:
  assumes "gate_policy g = HumanRequired" and "submitted_at r < now"
  shows "\<exists>t. t < now + duration_seconds 300 \<and>
    fst (gate_evaluate lib now r g) = GatePending (now + duration_seconds 300) \<and>
    (gr_action_id r, r) \<in> set (stale_pending t (snd (gate_evaluate lib now r g)))"
proof (intro exI conjI)
  show "submitted_at r + duration_seconds 300 < now + duration_seconds 300" using assms(2) by simp
  have "map_of (AList.update (gr_action_id r) r (gate_pending g)) (gr_action_id r) = Some r"
    by (simp add: AList.update_conv')
  then show "(gr_action_id r, r) \<in> set (stale_pending (submitted_at r + duration_seconds 300)
      (snd (gate_evaluate lib now r g)))"
    using assms(1) by (auto simp: gate_defs gate_decide_def stale_pending_def dest: map_of_SomeD)
qed (use assms in \<open>simp add: gate_defs gate_decide_def\<close>)

end
