(* ===== verification/Rust_Float.thy ===== *)
theory Rust_Float
  imports Prelude "HOL-Library.Log_Nat" Complex_Main
begin

text \<open>
  The \<open>f64\<close> arithmetic the rate limiter uses: IEEE 754 binary64 values with rounding to the
  nearest value, ties to even. A finite value is the rational it denotes; the two zeros are
  identified, which the sources cannot observe because they neither divide by a float nor
  print one. \<open>round_f64\<close> computes, so concrete calculations are evaluated by the simplifier.
\<close>

section \<open>Rounding\<close>

definition pow2 :: "int \<Rightarrow> rat" where
  "pow2 e = (if 0 \<le> e then 2 ^ nat e else 1 / 2 ^ nat (- e))"

lemma pow2_pos [simp]: "0 < pow2 e"
  by (simp add: pow2_def)

lemma pow2_powi: "pow2 e = 2 powi e"
  by (simp add: pow2_def power_int_def inverse_eq_divide power_one_over)

lemma pow2_add: "pow2 (a + b) = pow2 a * pow2 b"
  by (simp add: pow2_powi power_int_add)

lemma pow2_mono: "a \<le> b \<Longrightarrow> pow2 a \<le> pow2 b"
  by (simp add: pow2_powi power_int_increasing)

lemma pow2_less: "a < b \<Longrightarrow> pow2 a < pow2 b"
  by (simp add: pow2_powi power_int_strict_increasing)

lemma pow2_of_nat: "pow2 (int n) = 2 ^ n"
  by (simp add: pow2_def)

lemma pow2_53: "pow2 53 = 2 ^ 53"
  by (simp add: pow2_def)

text \<open>The binary exponent of a positive rational.\<close>

definition floor_log2 :: "rat \<Rightarrow> int" where
  "floor_log2 x =
     (case quotient_of x of (p, q) \<Rightarrow>
        let e = int (floorlog 2 (nat p)) - int (floorlog 2 (nat q))
        in if pow2 e \<le> x then e else e - 1)"

definition round_half_even :: "rat \<Rightarrow> int" where
  "round_half_even x =
     (let f = \<lfloor>x\<rfloor>; d = x - of_int f
      in if d < 1 / 2 then f else if 1 / 2 < d then f + 1 else if even f then f else f + 1)"

datatype f64 = NaN | Infinity bool | Finite rat

text \<open>The unit in the last place: 53 significant bits, gradual underflow below \<open>2 ^ (-1022)\<close>.\<close>

definition f64_exp :: "rat \<Rightarrow> int" where
  "f64_exp x = max (floor_log2 x) (- 1022)"

definition f64_ulp :: "rat \<Rightarrow> rat" where
  "f64_ulp x = pow2 (f64_exp x - 52)"

definition round_f64 :: "rat \<Rightarrow> f64" where
  "round_f64 x =
     (if x = 0 then Finite 0
      else
        let a = \<bar>x\<bar>; u = f64_ulp a; r = of_int (round_half_even (a / u)) * u
        in if 2 ^ 1024 \<le> r then Infinity (x < 0) else Finite (sgn x * r))"

section \<open>Operations\<close>

fun f64_neg :: "f64 \<Rightarrow> f64" where
  "f64_neg NaN = NaN"
| "f64_neg (Infinity s) = Infinity (\<not> s)"
| "f64_neg (Finite a) = Finite (- a)"

fun f64_add :: "f64 \<Rightarrow> f64 \<Rightarrow> f64" where
  "f64_add (Finite a) (Finite b) = round_f64 (a + b)"
| "f64_add (Infinity s) (Infinity t) = (if s = t then Infinity s else NaN)"
| "f64_add (Infinity s) (Finite b) = Infinity s"
| "f64_add (Finite a) (Infinity t) = Infinity t"
| "f64_add _ _ = NaN"

definition f64_sub :: "f64 \<Rightarrow> f64 \<Rightarrow> f64" where
  "f64_sub a b = f64_add a (f64_neg b)"

fun f64_mul :: "f64 \<Rightarrow> f64 \<Rightarrow> f64" where
  "f64_mul (Finite a) (Finite b) = round_f64 (a * b)"
| "f64_mul (Infinity s) (Infinity t) = Infinity (s \<noteq> t)"
| "f64_mul (Infinity s) (Finite b) = (if b = 0 then NaN else Infinity (s \<noteq> (b < 0)))"
| "f64_mul (Finite a) (Infinity t) = (if a = 0 then NaN else Infinity (t \<noteq> (a < 0)))"
| "f64_mul _ _ = NaN"

fun f64_le :: "f64 \<Rightarrow> f64 \<Rightarrow> bool" where
  "f64_le (Finite a) (Finite b) \<longleftrightarrow> a \<le> b"
| "f64_le (Infinity s) (Infinity t) \<longleftrightarrow> s \<or> \<not> t"
| "f64_le (Infinity s) (Finite b) \<longleftrightarrow> s"
| "f64_le (Finite a) (Infinity t) \<longleftrightarrow> \<not> t"
| "f64_le _ _ \<longleftrightarrow> False"

definition f64_lt :: "f64 \<Rightarrow> f64 \<Rightarrow> bool" where
  "f64_lt a b \<longleftrightarrow> f64_le a b \<and> a \<noteq> b"

text \<open>\<open>f64::min\<close> ignores a NaN.\<close>

definition f64_min :: "f64 \<Rightarrow> f64 \<Rightarrow> f64" where
  "f64_min a b = (if a = NaN then b else if b = NaN then a else if f64_le a b then a else b)"

fun is_finite :: "f64 \<Rightarrow> bool" where
  "is_finite (Finite _) \<longleftrightarrow> True"
| "is_finite _ \<longleftrightarrow> False"

text \<open>\<open>Duration::as_secs_f64\<close> of a duration in nanoseconds.\<close>

definition as_secs_f64 :: "int \<Rightarrow> f64" where
  "as_secs_f64 d =
     f64_add (round_f64 (of_int (d div 1000000000)))
       (round_f64 (of_int (d mod 1000000000) / 1000000000))"

text \<open>A value that is a binary64 number.\<close>

fun f64_ok :: "f64 \<Rightarrow> bool" where
  "f64_ok (Finite x) \<longleftrightarrow> round_f64 x = Finite x"
| "f64_ok _ \<longleftrightarrow> True"

section \<open>Facts\<close>

lemma floor_log2_bounds:
  assumes "0 < x"
  shows "pow2 (floor_log2 x) \<le> x \<and> x < pow2 (floor_log2 x + 1)"
proof -
  obtain p q where pq: "quotient_of x = (p, q)" by force
  have q: "0 < q" and x: "x = of_int p / of_int q"
    using pq by (simp_all add: quotient_of_denom_pos quotient_of_div)
  then have p: "0 < p" using assms by (simp add: zero_less_divide_iff)
  define bp bq where "bp = floorlog 2 (nat p)" and "bq = floorlog 2 (nat q)"
  have bp: "1 \<le> bp" "1 \<le> bq"
    using p q by (simp_all add: bp_def bq_def floorlog_def)
  have pb: "2 ^ (bp - 1) \<le> nat p \<and> nat p < 2 ^ bp"
    using floorlog_bounds [of "nat p" 2] p by (simp add: bp_def)
  have qb: "2 ^ (bq - 1) \<le> nat q \<and> nat q < 2 ^ bq"
    using floorlog_bounds [of "nat q" 2] q by (simp add: bq_def)
  have up: "of_int p < pow2 (int bp)" and lp: "pow2 (int bp - 1) \<le> of_int p"
  proof -
    have "rat_of_nat (nat p) < of_nat (2 ^ bp)" and "of_nat (2 ^ (bp - 1)) \<le> rat_of_nat (nat p)"
      using pb by (simp_all only: of_nat_less_iff of_nat_le_iff)
    then show "of_int p < pow2 (int bp)" and "pow2 (int bp - 1) \<le> of_int p"
      using p bp pow2_of_nat [of "bp - 1"] by (simp_all add: pow2_of_nat of_nat_diff)
  qed
  have uq: "of_int q < pow2 (int bq)" and lq: "pow2 (int bq - 1) \<le> of_int q"
  proof -
    have "rat_of_nat (nat q) < of_nat (2 ^ bq)" and "of_nat (2 ^ (bq - 1)) \<le> rat_of_nat (nat q)"
      using qb by (simp_all only: of_nat_less_iff of_nat_le_iff)
    then show "of_int q < pow2 (int bq)" and "pow2 (int bq - 1) \<le> of_int q"
      using q bp pow2_of_nat [of "bq - 1"] by (simp_all add: pow2_of_nat of_nat_diff)
  qed
  define e where "e = int bp - int bq"
  have upper: "x < pow2 (e + 1)"
  proof -
    have "of_int p < pow2 (e + 1) * pow2 (int bq - 1)"
      using up by (simp add: e_def flip: pow2_add)
    also have "\<dots> \<le> pow2 (e + 1) * of_int q"
      using lq by (simp add: mult_left_mono less_imp_le)
    finally show ?thesis using q by (simp add: x pos_divide_less_eq)
  qed
  have lower: "pow2 (e - 1) \<le> x"
  proof -
    have "pow2 (e - 1) * of_int q \<le> pow2 (e - 1) * pow2 (int bq)"
      using uq by (simp add: mult_left_mono less_imp_le)
    also have "\<dots> \<le> of_int p"
      using lp by (simp add: e_def algebra_simps flip: pow2_add)
    finally show ?thesis using q by (simp add: x pos_le_divide_eq)
  qed
  have "floor_log2 x = (if pow2 e \<le> x then e else e - 1)"
    by (simp add: floor_log2_def pq e_def bp_def bq_def Let_def)
  then show ?thesis using upper lower by (simp add: not_le)
qed

lemma floor_log2_mono:
  assumes "0 < x" and "x \<le> y"
  shows "floor_log2 x \<le> floor_log2 y"
proof (rule ccontr)
  assume "\<not> ?thesis"
  then have "pow2 (floor_log2 y + 1) \<le> pow2 (floor_log2 x)" by (intro pow2_mono) simp
  moreover have "pow2 (floor_log2 x) \<le> x" and "y < pow2 (floor_log2 y + 1)"
    using floor_log2_bounds [of x] floor_log2_bounds [of y] assms by auto
  ultimately show False using assms by linarith
qed

lemma round_half_even_mono: "x \<le> y \<Longrightarrow> round_half_even x \<le> round_half_even y"
proof -
  assume le: "x \<le> y"
  then have f: "\<lfloor>x\<rfloor> \<le> \<lfloor>y\<rfloor>" by (rule floor_mono)
  show ?thesis
  proof (cases "\<lfloor>x\<rfloor> = \<lfloor>y\<rfloor>")
    case True
    then show ?thesis using le by (auto simp: round_half_even_def Let_def)
  next
    case False
    then have "\<lfloor>x\<rfloor> + 1 \<le> \<lfloor>y\<rfloor>" using f by simp
    moreover have "round_half_even x \<le> \<lfloor>x\<rfloor> + 1" and "\<lfloor>y\<rfloor> \<le> round_half_even y"
      by (simp_all add: round_half_even_def Let_def)
    ultimately show ?thesis by linarith
  qed
qed

lemma round_half_even_int [simp]: "round_half_even (of_int n) = n"
  by (simp add: round_half_even_def)

lemma round_half_even_nonneg: "0 \<le> x \<Longrightarrow> 0 \<le> round_half_even x"
  using round_half_even_mono [of 0 x] round_half_even_int [of 0] by simp

lemma f64_ulp_pos [simp]: "0 < f64_ulp x"
  by (simp add: f64_ulp_def)

lemma f64_ulp_nonzero [simp]: "f64_ulp x \<noteq> 0"
  using f64_ulp_pos [of x] less_irrefl by metis

lemma binade_ulp: "pow2 (f64_exp x + 1) = of_int (2 ^ 53) * f64_ulp x"
proof -
  have "pow2 (f64_exp x + 1) = pow2 53 * f64_ulp x"
    by (simp add: f64_ulp_def add.commute flip: pow2_add)
  then show ?thesis by (simp add: pow2_53)
qed

text \<open>The rounded magnitude, and that it stays below any larger binary64 number.\<close>

definition round_mag :: "rat \<Rightarrow> rat" where
  "round_mag a = of_int (round_half_even (a / f64_ulp a)) * f64_ulp a"

lemma round_f64_pos:
  "0 < x \<Longrightarrow> round_f64 x = (if 2 ^ 1024 \<le> round_mag x then Infinity False else Finite (round_mag x))"
  by (simp add: round_f64_def round_mag_def Let_def)

lemma round_mag_nonneg: "0 \<le> a \<Longrightarrow> 0 \<le> round_mag a"
  unfolding round_mag_def
  by (intro mult_nonneg_nonneg) (simp_all add: round_half_even_nonneg less_imp_le)

lemma round_mag_less_binade:
  assumes "0 < a"
  shows "round_mag a \<le> pow2 (f64_exp a + 1)"
proof -
  have "a < pow2 (f64_exp a + 1)"
    using floor_log2_bounds [OF assms] pow2_mono [of "floor_log2 a + 1" "f64_exp a + 1"]
    by (simp add: f64_exp_def)
  then have "a / f64_ulp a \<le> pow2 (f64_exp a + 1) / f64_ulp a"
    by (simp add: divide_right_mono less_imp_le)
  also have "\<dots> = of_int (2 ^ 53)" by (simp add: binade_ulp)
  finally have "round_half_even (a / f64_ulp a) \<le> 2 ^ 53"
    using round_half_even_mono round_half_even_int by metis
  then have "round_mag a \<le> of_int (2 ^ 53) * f64_ulp a"
    unfolding round_mag_def by (intro mult_right_mono) (simp_all only: of_int_le_iff, simp add: less_imp_le)
  also have "\<dots> = pow2 (f64_exp a + 1)"
    by (rule binade_ulp [symmetric])
  finally show ?thesis .
qed

lemma round_mag_le:
  assumes "0 < x" and "x \<le> y" and "round_mag y = y"
  shows "round_mag x \<le> y"
proof (cases "f64_exp x = f64_exp y")
  case True
  then have u: "f64_ulp x = f64_ulp y" by (simp add: f64_ulp_def)
  have "x / f64_ulp y \<le> y / f64_ulp y" using assms(2) by (simp add: divide_right_mono less_imp_le)
  then have "rat_of_int (round_half_even (x / f64_ulp y)) \<le> of_int (round_half_even (y / f64_ulp y))"
    by (simp only: of_int_le_iff round_half_even_mono)
  then have "round_mag x \<le> round_mag y"
    unfolding round_mag_def u by (intro mult_right_mono) (simp_all add: less_imp_le)
  then show ?thesis using assms(3) by simp
next
  case False
  have "floor_log2 x \<le> floor_log2 y" using assms floor_log2_mono by blast
  then have lt: "f64_exp x < f64_exp y" and fl: "f64_exp y = floor_log2 y"
    using False by (auto simp: f64_exp_def max_def split: if_splits)
  have "round_mag x \<le> pow2 (f64_exp x + 1)" by (rule round_mag_less_binade [OF assms(1)])
  also have "\<dots> \<le> pow2 (floor_log2 y)" using lt fl by (intro pow2_mono) simp
  also have "\<dots> \<le> y" using floor_log2_bounds [of y] assms by simp
  finally show ?thesis .
qed

lemma round_f64_le:
  assumes "0 \<le> x" and "x \<le> y" and "f64_ok (Finite y)"
  shows "\<exists>r. round_f64 x = Finite r \<and> 0 \<le> r \<and> r \<le> y"
proof (cases "x = 0")
  case True
  then show ?thesis using assms by (auto simp: round_f64_def)
next
  case False
  then have pos: "0 < x" "0 < y" using assms by auto
  then have y: "round_mag y = y" "y < 2 ^ 1024"
    using assms(3) by (auto simp: round_f64_pos split: if_splits)
  then have "round_mag x \<le> y" using round_mag_le pos assms(2) by blast
  then show ?thesis using pos y round_mag_nonneg [of x] by (auto simp: round_f64_pos)
qed

fun f64_nonneg :: "f64 \<Rightarrow> bool" where
  "f64_nonneg (Finite a) \<longleftrightarrow> 0 \<le> a"
| "f64_nonneg (Infinity s) \<longleftrightarrow> \<not> s"
| "f64_nonneg NaN \<longleftrightarrow> False"

lemma round_f64_nonneg: "0 \<le> x \<Longrightarrow> f64_nonneg (round_f64 x)"
  using round_mag_nonneg [of x] by (cases "x = 0") (auto simp: round_f64_def [of 0] round_f64_pos)

lemma f64_add_nonneg: "f64_nonneg x \<Longrightarrow> f64_nonneg y \<Longrightarrow> f64_nonneg (f64_add x y)"
  by (cases x; cases y) (simp_all add: round_f64_nonneg)

lemma f64_mul_nonneg: "f64_nonneg x \<Longrightarrow> f64_nonneg y \<Longrightarrow> f64_mul x y = NaN \<or> f64_nonneg (f64_mul x y)"
  by (cases x; cases y) (auto simp: round_f64_nonneg)

lemma as_secs_f64_nonneg: "0 \<le> d \<Longrightarrow> f64_nonneg (as_secs_f64 d)"
  unfolding as_secs_f64_def
  by (intro f64_add_nonneg round_f64_nonneg) (simp_all add: pos_imp_zdiv_nonneg_iff)

lemma f64_min_nonneg:
  "x = NaN \<or> f64_nonneg x \<Longrightarrow> 0 \<le> c \<Longrightarrow> \<exists>t. f64_min x (Finite c) = Finite t \<and> 0 \<le> t \<and> t \<le> c"
  by (cases x) (auto simp: f64_min_def)

text \<open>Small integers are exact.\<close>

lemma round_f64_nat:
  assumes "n < 2 ^ 53"
  shows "round_f64 (of_nat n) = Finite (of_nat n)"
proof (cases "n = 0")
  case False
  let ?x = "rat_of_nat n"
  have pos: "0 < ?x" using False by simp
  have "?x < of_nat (2 ^ 53)" using assms by (simp only: of_nat_less_iff)
  then have "pow2 (floor_log2 ?x) < pow2 53"
    using floor_log2_bounds [OF pos] by (simp add: pow2_def [of 53])
  then have "floor_log2 ?x < 53" using pow2_mono [of 53 "floor_log2 ?x"] by fastforce
  then have le: "f64_exp ?x - 52 \<le> 0" by (simp add: f64_exp_def)
  define k where "k = nat (52 - f64_exp ?x)"
  have u: "f64_ulp ?x = 1 / 2 ^ k"
    using le by (simp add: f64_ulp_def pow2_def k_def)
  have "?x / f64_ulp ?x = of_int (int n * 2 ^ k)" by (simp add: u)
  then have mag: "round_mag ?x = ?x"
    by (simp only: round_mag_def round_half_even_int) (simp add: u)
  have "?x < 2 ^ 1024"
  proof -
    have "n < 2 ^ 1024" using assms by (rule less_le_trans) simp
    then have "?x < of_nat (2 ^ 1024)" by (simp only: of_nat_less_iff)
    then show ?thesis by simp
  qed
  then show ?thesis using pos mag by (simp add: round_f64_pos)
qed (simp add: round_f64_def)

lemma f64_ok_nat: "n < 2 ^ 53 \<Longrightarrow> f64_ok (Finite (of_nat n))"
  by (simp add: round_f64_nat)

end
