(* ===== verification/Runtime_Queue.thy ===== *)
theory Runtime_Queue
  imports Runtime_Types Rust_Float Action_Envelope
begin

text \<open>
  Dispatching: the choice of queue and dispatch kind (\<open>dispatcher.rs\<close>, and the second decision
  function of \<open>pipeline.rs\<close>), the token bucket and the per-class queues of \<open>dispatch_queue.rs\<close>.
  The locale \<open>class_queue\<close> is the contract of a queue with one FIFO lane per class and a bound
  per lane; it is interpreted on the dispatch queue. The monotonic clock is an argument.
\<close>

section \<open>The dispatcher\<close>

definition AI_INTERACTIVE_DOWNGRADE_MARKER :: string where
  "AI_INTERACTIVE_DOWNGRADE_MARKER = ''AI_INTERACTIVE_QUEUE_DOWNGRADE''"

definition select_queue_class :: "action_envelope \<Rightarrow> bool \<Rightarrow> queue_class" where
  "select_queue_class env in_recovery =
     (if in_recovery then RecoveryPriority
      else if ident_is_ai (env_identity env) then AgentProposal else Interactive)"

definition select_dispatch_kind ::
    "adapter_manifest \<Rightarrow> bool \<Rightarrow> bool \<Rightarrow> bool \<Rightarrow> action_dispatch_kind" where
  "select_dispatch_kind m ai simulate risk_privileged =
     (if simulate then DryRun
      else if ai \<or> risk_privileged then IsolatedSandbox
      else if m_dispatch_kind m = InProcessRpc \<and> declared_stability m = Stable then InProcessRpc
      else SubprocessFork)"

definition apply_ai_interactive_downgrade :: "action_context \<Rightarrow> bool \<Rightarrow> string option" where
  "apply_ai_interactive_downgrade ctx ai =
     (if ai \<and> queue_class ctx = Interactive then Some AI_INTERACTIVE_DOWNGRADE_MARKER else None)"

record dispatch_kind_inputs =
  in_is_simulate :: bool
  in_is_ai :: bool
  in_risk_privileged :: bool
  in_manifest_stable :: bool

definition compute_dispatch_kind ::
    "action_dispatch_kind \<Rightarrow> dispatch_kind_inputs \<Rightarrow> action_dispatch_kind" where
  "compute_dispatch_kind manifest_kind i =
     (if in_is_simulate i then DryRun
      else if in_is_ai i \<or> in_risk_privileged i then IsolatedSandbox
      else if manifest_kind = InProcessRpc \<and> in_manifest_stable i then InProcessRpc
      else SubprocessFork)"

section \<open>The token bucket\<close>

definition DEFAULT_REFILL_PER_SECOND :: f64 where
  "DEFAULT_REFILL_PER_SECOND = Finite (1 / 2)"

definition DEFAULT_BURST_CAPACITY :: f64 where
  "DEFAULT_BURST_CAPACITY = Finite 15"

record token_bucket =
  tokens :: f64
  tb_capacity :: f64
  refill_per_second :: f64
  last_refill :: instant

definition clamp_rate :: "f64 \<Rightarrow> f64" where
  "clamp_rate x = (if is_finite x \<and> f64_le (Finite 0) x then x else Finite 0)"

definition token_bucket_new :: "f64 \<Rightarrow> f64 \<Rightarrow> instant \<Rightarrow> token_bucket" where
  "token_bucket_new cap rate now =
     \<lparr>tokens = clamp_rate cap, tb_capacity = clamp_rate cap, refill_per_second = clamp_rate rate,
      last_refill = now\<rparr>"

definition default_ai_agent :: "instant \<Rightarrow> token_bucket" where
  "default_ai_agent now = token_bucket_new DEFAULT_BURST_CAPACITY DEFAULT_REFILL_PER_SECOND now"

definition refill_to_now :: "instant \<Rightarrow> token_bucket \<Rightarrow> token_bucket" where
  "refill_to_now now b =
     (let elapsed = max 0 (now - last_refill b);
          gain = f64_mul (refill_per_second b) (as_secs_f64 elapsed);
          new_tokens = f64_min (f64_add (tokens b) gain) (tb_capacity b)
      in b\<lparr>tokens := (if is_finite new_tokens then new_tokens else Finite 0), last_refill := now\<rparr>)"

definition consume_at :: "f64 \<Rightarrow> instant \<Rightarrow> token_bucket \<Rightarrow> bool \<times> token_bucket" where
  "consume_at n now b =
     (if \<not> is_finite n \<or> f64_lt n (Finite 0) then (False, b)
      else let b = refill_to_now now b
           in if f64_le n (tokens b) then (True, b\<lparr>tokens := f64_sub (tokens b) n\<rparr>) else (False, b))"

section \<open>The dispatch queue\<close>

definition USIZE_MAX :: nat where
  "USIZE_MAX = 2 ^ 64 - 1"

definition AGENT_PROPOSAL_CAP_NUM :: nat where
  "AGENT_PROPOSAL_CAP_NUM = 1"

definition AGENT_PROPOSAL_CAP_DEN :: nat where
  "AGENT_PROPOSAL_CAP_DEN = 2"

record dispatch_queue =
  dq_queues :: "(queue_class \<times> action_context list) list"
  capacity_per_class :: "(queue_class \<times> nat) list"
  rate_limiters :: "(string \<times> token_bucket) list"

definition new_with_capacities :: "(queue_class \<times> nat) list \<Rightarrow> dispatch_queue" where
  "new_with_capacities caps =
     \<lparr>dq_queues = foldl (\<lambda>m c. AList.update c [] m) []
        [Interactive, AgentProposal, Background, RecoveryPriority],
      capacity_per_class = caps, rate_limiters = []\<rparr>"

definition new_with_defaults :: dispatch_queue where
  "new_with_defaults = new_with_capacities
     [(Interactive, 300), (AgentProposal, 400), (Background, 250), (RecoveryPriority, 50)]"

definition capacity_of :: "dispatch_queue \<Rightarrow> queue_class \<Rightarrow> nat" where
  "capacity_of q c = (case map_of (capacity_per_class q) c of None \<Rightarrow> 0 | Some n \<Rightarrow> n)"

text \<open>The sum of the capacities is a \<open>usize\<close> sum.\<close>

definition total_capacity :: "dispatch_queue \<Rightarrow> nat" where
  "total_capacity q = sum_list (map snd (capacity_per_class q)) mod 2 ^ 64"

definition lane :: "dispatch_queue \<Rightarrow> queue_class \<Rightarrow> action_context list" where
  "lane q c = (case map_of (dq_queues q) c of None \<Rightarrow> [] | Some xs \<Rightarrow> xs)"

text \<open>The hard cap on the lane of the agents, with the saturating arithmetic of the source.\<close>

definition agent_cap_exceeded :: "nat \<Rightarrow> nat \<Rightarrow> bool" where
  "agent_cap_exceeded total_cap depth \<longleftrightarrow>
     min (total_cap * AGENT_PROPOSAL_CAP_NUM) USIZE_MAX
       < min (min (depth + 1) USIZE_MAX * AGENT_PROPOSAL_CAP_DEN) USIZE_MAX"

text \<open>
  \<open>enroll\<close> reads the clock when it creates the bucket of a new subject (\<open>t0\<close>) and again when it
  takes a token (\<open>t1\<close>).
\<close>

definition enroll ::
    "instant \<times> instant \<Rightarrow> string \<Rightarrow> action_context \<Rightarrow> dispatch_queue \<Rightarrow>
     (runtime_error, action_context) result \<times> dispatch_queue" where
  "enroll ts subject_id context q =
     (let bucket = (case map_of (rate_limiters q) subject_id of
                      None \<Rightarrow> default_ai_agent (fst ts) | Some b \<Rightarrow> b);
          (admitted, bucket) = consume_at (Finite 1) (snd ts) bucket;
          q = q\<lparr>rate_limiters := AList.update subject_id bucket (rate_limiters q)\<rparr>;
          target_class = queue_class context
      in if \<not> admitted then (Err (RateLimited subject_id), q)
         else if capacity_of q target_class < length (lane q target_class) + 1
         then (Err (QueueFull target_class), q)
         else if target_class = AgentProposal \<and>
           agent_cap_exceeded (total_capacity q) (length (lane q AgentProposal))
         then (Err (QueueFull AgentProposal), q)
         else (Ok context,
               q\<lparr>dq_queues := AList.update target_class (lane q target_class @ [context]) (dq_queues q)\<rparr>))"

definition dequeue :: "queue_class \<Rightarrow> dispatch_queue \<Rightarrow> action_context option \<times> dispatch_queue" where
  "dequeue c q =
     (case map_of (dq_queues q) c of
        Some (x # xs) \<Rightarrow> (Some x, q\<lparr>dq_queues := AList.update c xs (dq_queues q)\<rparr>)
      | _ \<Rightarrow> (None, q))"

definition depth_per_class :: "dispatch_queue \<Rightarrow> (queue_class \<times> nat) list" where
  "depth_per_class q = map (\<lambda>(c, xs). (c, length xs)) (dq_queues q)"

definition total_len :: "dispatch_queue \<Rightarrow> nat" where
  "total_len q = sum_list (map (\<lambda>(c, xs). length xs) (dq_queues q))"

section \<open>The choice of a dispatch kind\<close>

text \<open>
  Both decision functions agree: \<open>compute_dispatch_kind\<close>, given the manifest's kind and whether
  the manifest is stable, is \<open>select_dispatch_kind\<close>. An action of an AI subject that is not
  simulated is always isolated, and nothing runs in the runtime's process but what a stable
  manifest asks for.
\<close>

theorem dispatch_kind_table:
  "compute_dispatch_kind (m_dispatch_kind m)
     \<lparr>in_is_simulate = sim, in_is_ai = ai, in_risk_privileged = priv,
      in_manifest_stable = (declared_stability m = Stable)\<rparr> = select_dispatch_kind m ai sim priv \<and>
   (select_dispatch_kind m ai sim priv = InProcessRpc \<longleftrightarrow>
      \<not> sim \<and> \<not> ai \<and> \<not> priv \<and> m_dispatch_kind m = InProcessRpc \<and> declared_stability m = Stable) \<and>
   (select_dispatch_kind m ai sim priv = DryRun \<longleftrightarrow> sim) \<and>
   (select_dispatch_kind m True False priv = IsolatedSandbox)"
  by (simp add: compute_dispatch_kind_def select_dispatch_kind_def)

section \<open>Token buckets stay within their capacity\<close>

fun bucket_ok :: "token_bucket \<Rightarrow> bool" where
  "bucket_ok b \<longleftrightarrow>
     (case (tokens b, tb_capacity b, refill_per_second b) of
        (Finite t, Finite c, Finite r) \<Rightarrow> 0 \<le> t \<and> t \<le> c \<and> f64_ok (Finite c) \<and> 0 \<le> r
      | _ \<Rightarrow> False)"

lemma bucket_okE:
  assumes "bucket_ok b"
  obtains t c r where "tokens b = Finite t" and "tb_capacity b = Finite c"
    and "refill_per_second b = Finite r" and "0 \<le> t" and "t \<le> c" and "f64_ok (Finite c)" and "0 \<le> r"
  using assms by (auto split: f64.splits)

lemma bucket_ok_new: "f64_ok cap \<Longrightarrow> bucket_ok (token_bucket_new cap rate now)"
proof (cases cap; cases rate)
qed (auto simp: token_bucket_new_def clamp_rate_def round_f64_def [of 0])

lemma bucket_ok_refill:
  assumes "bucket_ok b"
  shows "bucket_ok (refill_to_now now b)"
  using assms
proof (rule bucket_okE)
  fix t c r
  assume b: "tokens b = Finite t" "tb_capacity b = Finite c" "refill_per_second b = Finite r"
    "0 \<le> t" "t \<le> c" "f64_ok (Finite c)" "0 \<le> r"
  let ?x = "f64_add (Finite t) (f64_mul (Finite r) (as_secs_f64 (max 0 (now - last_refill b))))"
  have "?x = NaN \<or> f64_nonneg ?x"
    using b f64_mul_nonneg [of "Finite r" "as_secs_f64 (max 0 (now - last_refill b))"]
      f64_add_nonneg [of "Finite t"] as_secs_f64_nonneg [of "max 0 (now - last_refill b)"] by auto
  then obtain t' where "f64_min ?x (Finite c) = Finite t'" "0 \<le> t'" "t' \<le> c"
    using f64_min_nonneg [of ?x c] b by auto
  then show ?thesis using b by (simp add: refill_to_now_def Let_def)
qed

lemma bucket_ok_consume:
  assumes "bucket_ok b"
  shows "bucket_ok (snd (consume_at n now b))"
proof (cases "is_finite n \<and> \<not> f64_lt n (Finite 0) \<and> f64_le n (tokens (refill_to_now now b))")
  case False
  then show ?thesis using assms bucket_ok_refill [OF assms, of now]
    by (auto simp: consume_at_def Let_def simp del: bucket_ok.simps)
next
  case True
  let ?b = "refill_to_now now b"
  obtain t c r where b: "tokens ?b = Finite t" "tb_capacity ?b = Finite c"
    "refill_per_second ?b = Finite r" "0 \<le> t" "t \<le> c" "f64_ok (Finite c)" "0 \<le> r"
    using bucket_ok_refill [OF assms, of now] by (rule bucket_okE)
  obtain m where n: "n = Finite m" "0 \<le> m" "m \<le> t"
    using True b(1) by (cases n) (auto simp: f64_lt_def)
  then obtain s where "round_f64 (t - m) = Finite s" "0 \<le> s" "s \<le> c"
    using b round_f64_le [of "t - m" c] by auto
  moreover have "snd (consume_at n now b) = ?b\<lparr>tokens := f64_sub (tokens ?b) n\<rparr>"
    using True by (simp add: consume_at_def Let_def)
  ultimately show ?thesis using b n by (simp add: f64_sub_def)
qed

declare bucket_ok.simps [simp del]

text \<open>A fresh bucket admits fifteen requests in the instant it is created, and no more.\<close>

fun consume_times :: "nat \<Rightarrow> instant \<Rightarrow> token_bucket \<Rightarrow> bool list \<times> token_bucket" where
  "consume_times 0 now b = ([], b)"
| "consume_times (Suc n) now b =
     (case consume_at (Finite 1) now b of
        (ok, b') \<Rightarrow> (case consume_times n now b' of (oks, b'') \<Rightarrow> (ok # oks, b'')))"

definition burst_bucket :: "nat \<Rightarrow> instant \<Rightarrow> token_bucket" where
  "burst_bucket k now =
     \<lparr>tokens = Finite (of_nat k), tb_capacity = Finite 15, refill_per_second = Finite (1 / 2),
      last_refill = now\<rparr>"

lemma default_is_burst: "default_ai_agent now = burst_bucket 15 now"
  by (simp add: default_ai_agent_def token_bucket_new_def burst_bucket_def clamp_rate_def
      DEFAULT_BURST_CAPACITY_def DEFAULT_REFILL_PER_SECOND_def)

lemma consume_burst:
  assumes "k \<le> 15"
  shows "consume_at (Finite 1) now (burst_bucket k now) =
    (if k = 0 then (False, burst_bucket 0 now) else (True, burst_bucket (k - 1) now))"
proof -
  have k: "round_f64 (of_nat k) = Finite (of_nat k)" and k1: "round_f64 (of_nat (k - 1)) = Finite (of_nat (k - 1))"
    by (rule round_f64_nat, use assms in simp)+
  have "refill_to_now now (burst_bucket k now) = burst_bucket k now"
    using assms k by (simp add: refill_to_now_def burst_bucket_def as_secs_f64_def round_f64_def [of 0]
        f64_min_def)
  moreover have "k \<noteq> 0 \<Longrightarrow> rat_of_nat k - 1 = of_nat (k - 1)" by simp
  ultimately show ?thesis using k1
    by (auto simp: consume_at_def f64_lt_def f64_sub_def burst_bucket_def)
qed

lemma consume_times_burst:
  "k \<le> 15 \<Longrightarrow> fst (consume_times n now (burst_bucket k now)) = map (\<lambda>i. i < k) [0..<n]"
proof (induction n arbitrary: k)
  case (Suc n)
  have "map (\<lambda>i. i < k) [0..<Suc n] = (0 < k) # map (\<lambda>i. i < k - 1) [0..<n]"
    by (simp add: upt_conv_Cons map_Suc_upt [symmetric] comp_def less_diff_conv del: upt_Suc map_Suc_upt)
  then show ?case
    using Suc.IH [of "k - 1"] Suc.IH [of 0] Suc.prems
    by (cases "k = 0") (auto simp: consume_burst split: prod.splits simp del: upt_Suc)
qed simp

theorem burst_bound:
  "fst (consume_times n now (default_ai_agent now)) = map (\<lambda>i. i < 15) [0..<n]"
  using consume_times_burst [of 15 n now] by (simp add: default_is_burst)

section \<open>Lanes with a bound\<close>

text \<open>
  The contract: an item that is accepted goes to the end of the lane of its class, which had
  room for it; a refused one changes no lane; taking removes the oldest item of a lane.
\<close>

datatype ('i, 'a, 'k) queue_op = Put 'i 'a | Take 'k

text \<open>A run returns the items accepted, the items taken, and the queue.\<close>

fun run_ops ::
    "('i \<Rightarrow> 'a \<Rightarrow> 'q \<Rightarrow> ('e, 'a) result \<times> 'q) \<Rightarrow> ('k \<Rightarrow> 'q \<Rightarrow> 'a option \<times> 'q) \<Rightarrow>
     ('i, 'a, 'k) queue_op list \<Rightarrow> 'q \<Rightarrow> 'a list \<times> 'a list \<times> 'q" where
  "run_ops put take_first [] q = ([], [], q)"
| "run_ops put take_first (Put i a # ops) q =
     (case put i a q of (r, q') \<Rightarrow>
        case run_ops put take_first ops q' of (ins, outs, q'') \<Rightarrow>
          (case r of Inl _ \<Rightarrow> (ins, outs, q'') | Inr b \<Rightarrow> (b # ins, outs, q'')))"
| "run_ops put take_first (Take k # ops) q =
     (case take_first k q of (r, q') \<Rightarrow>
        case run_ops put take_first ops q' of (ins, outs, q'') \<Rightarrow>
          (case r of None \<Rightarrow> (ins, outs, q'') | Some a \<Rightarrow> (ins, a # outs, q'')))"

locale class_queue =
  fixes items :: "'q \<Rightarrow> 'k \<Rightarrow> 'a list"
    and room :: "'q \<Rightarrow> 'k \<Rightarrow> nat"
    and key :: "'a \<Rightarrow> 'k"
    and put :: "'i \<Rightarrow> 'a \<Rightarrow> 'q \<Rightarrow> ('e, 'a) result \<times> 'q"
    and take_first :: "'k \<Rightarrow> 'q \<Rightarrow> 'a option \<times> 'q"
  assumes put_Ok: "put i a q = (Ok b, q') \<Longrightarrow>
      b = a \<and> items q' = (items q)(key a := items q (key a) @ [a]) \<and>
      length (items q (key a)) < room q (key a)"
    and put_Err: "put i a q = (Err e, q') \<Longrightarrow> items q' = items q"
    and put_room: "room (snd (put i a q)) = room q"
    and take_first: "take_first k q = (r, q') \<Longrightarrow>
      (case items q k of [] \<Rightarrow> r = None \<and> items q' = items q
       | x # xs \<Rightarrow> r = Some x \<and> items q' = (items q)(k := xs))"
    and take_room: "room (snd (take_first k q)) = room q"
begin

definition keyed :: "'q \<Rightarrow> bool" where
  "keyed q \<longleftrightarrow> (\<forall>k. \<forall>a \<in> set (items q k). key a = k)"

definition lanes_bounded :: "'q \<Rightarrow> bool" where
  "lanes_bounded q \<longleftrightarrow> (\<forall>k. length (items q k) \<le> room q k)"

lemma put_keeps: "keyed q \<Longrightarrow> lanes_bounded q \<Longrightarrow> keyed (snd (put i a q)) \<and> lanes_bounded (snd (put i a q))"
proof (cases "put i a q")
  case (Pair r q')
  assume "keyed q" "lanes_bounded q"
  then show ?thesis
    using Pair put_Ok [of i a q _ q'] put_Err [of i a q _ q'] put_room [of i a q]
    by (cases r) (auto simp: keyed_def lanes_bounded_def)
qed

lemma take_keeps:
  "keyed q \<Longrightarrow> lanes_bounded q \<Longrightarrow> keyed (snd (take_first k q)) \<and> lanes_bounded (snd (take_first k q))"
proof (cases "take_first k q")
  case (Pair r q')
  assume inv: "keyed q" "lanes_bounded q"
  show ?thesis
  proof (cases "items q k")
    case (Cons x xs)
    moreover have "length (items q k) \<le> room q k" "\<forall>a \<in> set (items q k). key a = k"
      using inv by (auto simp: keyed_def lanes_bounded_def)
    ultimately show ?thesis
      using inv Pair take_first [OF Pair] take_room [of k q] by (auto simp: keyed_def lanes_bounded_def)
  qed (use inv Pair take_first [OF Pair] take_room [of k q] in \<open>auto simp: keyed_def lanes_bounded_def\<close>)
qed

lemma run_keeps:
  "keyed q \<Longrightarrow> lanes_bounded q \<Longrightarrow> run_ops put take_first ops q = (ins, outs, q') \<Longrightarrow>
   keyed q' \<and> lanes_bounded q' \<and> room q' = room q"
proof (induction ops arbitrary: q ins outs)
  case (Cons op ops)
  show ?case
  proof (cases op)
    case (Put i a)
    then show ?thesis using Cons put_keeps [of q i a] put_room [of i a q]
      by (auto split: prod.splits sum.splits)
  next
    case (Take k)
    then show ?thesis using Cons take_keeps [of q k] take_room [of k q]
      by (auto split: prod.splits option.splits)
  qed
qed simp

text \<open>First in, first out, lane by lane: what was there and what came in is what went out and what
  is left.\<close>

lemma run_fifo:
  "keyed q \<Longrightarrow> lanes_bounded q \<Longrightarrow> run_ops put take_first ops q = (ins, outs, q') \<Longrightarrow>
   items q k @ filter (\<lambda>a. key a = k) ins = filter (\<lambda>a. key a = k) outs @ items q' k"
proof (induction ops arbitrary: q ins outs)
  case (Cons op ops)
  show ?case
  proof (cases op)
    case (Put i a)
    obtain r q1 where p: "put i a q = (r, q1)" by force
    obtain ins' outs' where r: "run_ops put take_first ops q1 = (ins', outs', q')"
      using Cons.prems(3) Put p by (auto split: prod.splits sum.splits)
    have "items q1 k @ filter (\<lambda>a. key a = k) ins' = filter (\<lambda>a. key a = k) outs' @ items q' k"
      using Cons.IH [OF _ _ r] put_keeps [of q i a] Cons.prems p by simp
    then show ?thesis
      using Put p r Cons.prems(3) put_Ok [of i a q _ q1] put_Err [of i a q _ q1]
      by (cases r) (auto split: if_splits)
  next
    case (Take l)
    obtain r q1 where p: "take_first l q = (r, q1)" by force
    obtain ins' outs' where r: "run_ops put take_first ops q1 = (ins', outs', q')"
      using Cons.prems(3) Take p by (auto split: prod.splits option.splits)
    have "items q1 k @ filter (\<lambda>a. key a = k) ins' = filter (\<lambda>a. key a = k) outs' @ items q' k"
      using Cons.IH [OF _ _ r] take_keeps [of q l] Cons.prems p by simp
    moreover have "\<forall>a \<in> set (items q l). key a = l" using Cons.prems(1) by (simp add: keyed_def)
    ultimately show ?thesis
      using Take p r Cons.prems(3) take_first [OF p] by (cases "items q l") (auto split: if_splits)
  qed
qed simp

end

section \<open>The dispatch queue is such a queue\<close>

definition lane_room :: "dispatch_queue \<Rightarrow> queue_class \<Rightarrow> nat" where
  "lane_room q c =
     (if c = AgentProposal \<and> total_capacity q < USIZE_MAX
      then min (capacity_of q c) (total_capacity q div 2) else capacity_of q c)"

definition enroll_as ::
    "(instant \<times> instant) \<times> string \<Rightarrow> action_context \<Rightarrow> dispatch_queue \<Rightarrow>
     (runtime_error, action_context) result \<times> dispatch_queue" where
  "enroll_as i = enroll (fst i) (snd i)"

lemma lane_update:
  "lane (q\<lparr>dq_queues := AList.update c xs (dq_queues q)\<rparr>) = (lane q)(c := xs)"
  by (auto simp: lane_def fun_eq_iff AList.update_conv')

lemma lane_limiters [simp]:
  "lane (q\<lparr>rate_limiters := l\<rparr>) = lane q" "capacity_of (q\<lparr>rate_limiters := l\<rparr>) = capacity_of q"
  "total_capacity (q\<lparr>rate_limiters := l\<rparr>) = total_capacity q"
  by (auto simp: lane_def capacity_of_def total_capacity_def fun_eq_iff)

lemma room_update [simp]:
  "lane_room (q\<lparr>dq_queues := m\<rparr>) = lane_room q" "lane_room (q\<lparr>rate_limiters := l\<rparr>) = lane_room q"
  by (auto simp: lane_room_def capacity_of_def total_capacity_def fun_eq_iff)

text \<open>The two admission checks are one: the lane has room.\<close>

lemma enroll_agent_cap:
  assumes "t \<le> USIZE_MAX"
  shows "agent_cap_exceeded t n \<longleftrightarrow> t < USIZE_MAX \<and> t div 2 < n + 1"
proof -
  have "t < min (min (n + 1) USIZE_MAX * 2) USIZE_MAX \<longleftrightarrow> t < USIZE_MAX \<and> t div 2 < n + 1"
  proof (cases "n + 1 \<le> USIZE_MAX")
    case False
    then have "min (n + 1) USIZE_MAX = USIZE_MAX" by simp
    moreover have "t < USIZE_MAX \<Longrightarrow> t div 2 < n + 1" using False by linarith
    ultimately show ?thesis by (auto simp: USIZE_MAX_def)
  qed auto
  then show ?thesis using assms
    by (simp add: agent_cap_exceeded_def AGENT_PROPOSAL_CAP_NUM_def AGENT_PROPOSAL_CAP_DEN_def)
qed

lemma total_capacity_le: "total_capacity q \<le> USIZE_MAX"
proof -
  have "sum_list (map snd (capacity_per_class q)) mod 2 ^ 64 < (2 ^ 64 :: nat)" by simp
  then show ?thesis unfolding total_capacity_def USIZE_MAX_def by linarith
qed

lemma enroll_cases:
  "enroll ts subj ctx q =
     (let b = consume_at (Finite 1) (snd ts)
                (case map_of (rate_limiters q) subj of None \<Rightarrow> default_ai_agent (fst ts) | Some b \<Rightarrow> b);
          q' = q\<lparr>rate_limiters := AList.update subj (snd b) (rate_limiters q)\<rparr>;
          c = queue_class ctx
      in if \<not> fst b then (Err (RateLimited subj), q')
         else if length (lane q c) < lane_room q c
         then (Ok ctx, q'\<lparr>dq_queues := AList.update c (lane q c @ [ctx]) (dq_queues q')\<rparr>)
         else (Err (QueueFull c), q'))"
  by (auto simp: enroll_def Let_def split_beta enroll_agent_cap [OF total_capacity_le] lane_room_def)

interpretation dq: class_queue lane lane_room queue_class enroll_as dequeue
proof unfold_locales
  fix i a q b q'
  assume "enroll_as i a q = (Ok b, q')"
  then show "b = a \<and> lane q' = (lane q)(queue_class a := lane q (queue_class a) @ [a]) \<and>
      length (lane q (queue_class a)) < lane_room q (queue_class a)"
    using lane_update [where q = "q\<lparr>rate_limiters := l\<rparr>" for l]
    by (auto simp: enroll_as_def enroll_cases Let_def split: if_splits)
next
  fix i a q e q'
  assume "enroll_as i a q = (Err e, q')"
  then show "lane q' = lane q"
    by (auto simp: enroll_as_def enroll_cases Let_def split: if_splits)
next
  fix i a q
  show "lane_room (snd (enroll_as i a q)) = lane_room q"
    by (auto simp: enroll_as_def enroll_cases Let_def)
next
  fix k q r q'
  assume "dequeue k q = (r, q')"
  then show "case lane q k of [] \<Rightarrow> r = None \<and> lane q' = lane q
      | x # xs \<Rightarrow> r = Some x \<and> lane q' = (lane q)(k := xs)"
    by (auto simp: dequeue_def lane_update lane_def [of q k] split: option.splits list.splits)
next
  fix k q
  show "lane_room (snd (dequeue k q)) = lane_room q"
    by (auto simp: dequeue_def split: option.splits list.splits)
qed

section \<open>Order, bounds and rate limits of the dispatch queue\<close>

lemma lane_new [simp]: "lane (new_with_capacities caps) c = []"
  by (cases c) (simp_all add: lane_def new_with_capacities_def)

lemma new_queue_ok: "dq.keyed (new_with_capacities caps)" "dq.lanes_bounded (new_with_capacities caps)"
  by (simp_all add: dq.keyed_def dq.lanes_bounded_def)

text \<open>
  Each class of the dispatch queue is first in, first out: the contexts of a class that were
  admitted are, in order, those that were dequeued followed by those still waiting, whatever the
  interleaving with other classes, refusals and other subjects.
\<close>

theorem dispatch_fifo:
  assumes "run_ops enroll_as dequeue ops (new_with_capacities caps) = (ins, outs, q)"
  shows "filter (\<lambda>a. queue_class a = c) ins = filter (\<lambda>a. queue_class a = c) outs @ lane q c"
  using dq.run_fifo [OF new_queue_ok assms, of c] by simp

theorem dispatch_fifo_witness:
  "let a = fresh_context ''a'' 0 in
     filter (\<lambda>a. queue_class a = Interactive)
       (fst (run_ops enroll_as dequeue [Put ((0, 0), ''s'') a, Take Interactive] new_with_defaults)) =
     filter (\<lambda>a. queue_class a = Interactive)
       (fst (snd (run_ops enroll_as dequeue [Put ((0, 0), ''s'') a, Take Interactive] new_with_defaults))) @
     lane (snd (snd (run_ops enroll_as dequeue [Put ((0, 0), ''s'') a, Take Interactive] new_with_defaults)))
       Interactive"
proof -
  let ?ops = "[Put ((0, 0), ''s'') (fresh_context ''a'' 0), Take Interactive]"
  obtain ins outs q where r: "run_ops enroll_as dequeue ?ops new_with_defaults = (ins, outs, q)"
    by (metis prod_cases3)
  show ?thesis
    using dispatch_fifo [OF r [unfolded new_with_defaults_def], of Interactive] r by simp
qed

lemma room_new:
  "lane_room (new_with_capacities caps) c \<le> (case map_of caps c of None \<Rightarrow> 0 | Some n \<Rightarrow> n)"
  "sum_list (map snd caps) < 2 ^ 64 - 1 \<Longrightarrow>
     2 * lane_room (new_with_capacities caps) AgentProposal \<le> sum_list (map snd caps)"
  by (auto simp: lane_room_def capacity_of_def total_capacity_def new_with_capacities_def
      USIZE_MAX_def split: option.splits)

text \<open>
  C36: No class ever holds more contexts than its capacity, and the agents hold at most half of the
  total capacity, whatever capacity they were given (as long as the sum of the capacities does
  not reach the largest \<open>usize\<close>).
\<close>

theorem dispatch_bounded:
  assumes "run_ops enroll_as dequeue ops (new_with_capacities caps) = (ins, outs, q)"
    and "sum_list (map snd caps) < 2 ^ 64 - 1"
  shows "length (lane q c) \<le> (case map_of caps c of None \<Rightarrow> 0 | Some n \<Rightarrow> n) \<and>
    2 * length (lane q AgentProposal) \<le> sum_list (map snd caps)"
proof -
  have q: "dq.lanes_bounded q" "lane_room q = lane_room (new_with_capacities caps)"
    using dq.run_keeps [OF new_queue_ok assms(1)] by simp_all
  have "length (lane q d) \<le> lane_room (new_with_capacities caps) d" for d
    using q by (metis dq.lanes_bounded_def)
  then show ?thesis
    using room_new(1) [of caps c] room_new(2) [OF assms(2)] by (meson le_trans mult_le_mono2)
qed

text \<open>
  Two lanes filled by subjects that are not limited yet: of two humans one finds the interactive lane full, and of
  three agents the last finds half of all slots taken, although its lane has a slot left.
\<close>

definition sample_small_queue :: dispatch_queue where
  "sample_small_queue = new_with_capacities [(Interactive, 1), (AgentProposal, 3)]"

definition sample_full_ops :: "((instant \<times> instant) \<times> string, action_context, queue_class) queue_op list" where
  "sample_full_ops =
     map (\<lambda>(subj, aid, c). Put ((0, 0), subj) (action_context_new aid SubprocessFork c 0))
       [(''human:a'', ''act_1'', Interactive), (''human:b'', ''act_2'', Interactive), (''agent:a'', ''act_3'', AgentProposal),
        (''agent:b'', ''act_4'', AgentProposal), (''agent:c'', ''act_5'', AgentProposal)]"

definition limited_subjects :: "dispatch_queue \<Rightarrow> string set" where
  "limited_subjects q = dom (map_of (rate_limiters q))"

lemma enroll_new_subject:
  assumes "subj \<notin> limited_subjects q" and "queue_class ctx = c"
  shows "length (lane q c) < lane_room q c \<Longrightarrow> \<exists>q'. enroll_as ((0, 0), subj) ctx q = (Ok ctx, q') \<and>
      limited_subjects q' = insert subj (limited_subjects q) \<and> lane_room q' = lane_room q \<and> lane q' = (lane q)(c := lane q c @ [ctx])"
    and "\<not> length (lane q c) < lane_room q c \<Longrightarrow> \<exists>q'. enroll_as ((0, 0), subj) ctx q = (Err (QueueFull c), q') \<and>
      limited_subjects q' = insert subj (limited_subjects q) \<and> lane_room q' = lane_room q \<and> lane q' = lane q"
proof -
  have new: "map_of (rate_limiters q) subj = None" using assms(1) by (auto simp: limited_subjects_def)
  have "fst (consume_at (Finite 1) 0 (default_ai_agent 0))" by code_simp
  note facts = this new assms(2) lane_update [where q = "q\<lparr>rate_limiters := l\<rparr>" for l]
  show "length (lane q c) < lane_room q c \<Longrightarrow> \<exists>q'. enroll_as ((0, 0), subj) ctx q = (Ok ctx, q') \<and>
      limited_subjects q' = insert subj (limited_subjects q) \<and> lane_room q' = lane_room q \<and> lane q' = (lane q)(c := lane q c @ [ctx])"
    using facts by (simp add: enroll_as_def enroll_cases Let_def limited_subjects_def AList.update_conv')
  show "\<not> length (lane q c) < lane_room q c \<Longrightarrow> \<exists>q'. enroll_as ((0, 0), subj) ctx q = (Err (QueueFull c), q') \<and>
      limited_subjects q' = insert subj (limited_subjects q) \<and> lane_room q' = lane_room q \<and> lane q' = lane q"
    using facts by (simp add: enroll_as_def enroll_cases Let_def limited_subjects_def AList.update_conv')
qed

lemma sample_full_run:
  "\<exists>ins outs q. run_ops enroll_as dequeue sample_full_ops sample_small_queue = (ins, outs, q) \<and>
     map ac_action_id ins = [''act_1'', ''act_3'', ''act_4''] \<and> length (lane q Interactive) = 1 \<and> length (lane q AgentProposal) = 2"
proof -
  let ?i = "\<lambda>aid. action_context_new aid SubprocessFork Interactive 0"
  let ?a = "\<lambda>aid. action_context_new aid SubprocessFork AgentProposal 0"
  have key: "queue_class (?i aid) = Interactive" "queue_class (?a aid) = AgentProposal" "ac_action_id (?i aid) = aid"
    "ac_action_id (?a aid) = aid" for aid by (simp_all add: action_context_new_def)
  have k0: "limited_subjects sample_small_queue = {}" by (simp add: limited_subjects_def sample_small_queue_def new_with_capacities_def)
  have l0: "lane sample_small_queue = (\<lambda>_. [])" by (simp add: sample_small_queue_def fun_eq_iff)
  have room: "lane_room sample_small_queue Interactive = 1" "lane_room sample_small_queue AgentProposal = 2"
    by (simp_all add: lane_room_def capacity_of_def total_capacity_def USIZE_MAX_def sample_small_queue_def new_with_capacities_def)
  obtain q1 where q1: "enroll_as ((0, 0), ''human:a'') (?i ''act_1'') sample_small_queue = (Ok (?i ''act_1''), q1)"
    "limited_subjects q1 = {''human:a''}" "lane_room q1 = lane_room sample_small_queue" "lane q1 = (\<lambda>_. [])(Interactive := [?i ''act_1''])"
    using enroll_new_subject(1) [of "''human:a''" sample_small_queue "?i ''act_1''" Interactive] unfolding k0 l0 room key by auto
  obtain q2 where q2: "enroll_as ((0, 0), ''human:b'') (?i ''act_2'') q1 = (Err (QueueFull Interactive), q2)"
    "limited_subjects q2 = {''human:b'', ''human:a''}" "lane_room q2 = lane_room sample_small_queue" "lane q2 = lane q1"
    using enroll_new_subject(2) [of "''human:b''" q1 "?i ''act_2''" Interactive] unfolding q1(2-) room key by auto
  obtain q3 where q3: "enroll_as ((0, 0), ''agent:a'') (?a ''act_3'') q2 = (Ok (?a ''act_3''), q3)"
    "limited_subjects q3 = {''agent:a'', ''human:b'', ''human:a''}" "lane_room q3 = lane_room sample_small_queue"
    "lane q3 = (lane q1)(AgentProposal := [?a ''act_3''])"
    using enroll_new_subject(1) [of "''agent:a''" q2 "?a ''act_3''" AgentProposal] unfolding q2(2-) q1(4) room key by auto
  obtain q4 where q4: "enroll_as ((0, 0), ''agent:b'') (?a ''act_4'') q3 = (Ok (?a ''act_4''), q4)"
    "limited_subjects q4 = {''agent:b'', ''agent:a'', ''human:b'', ''human:a''}" "lane_room q4 = lane_room sample_small_queue"
    "lane q4 = (lane q1)(AgentProposal := [?a ''act_3'', ?a ''act_4''])"
    using enroll_new_subject(1) [of "''agent:b''" q3 "?a ''act_4''" AgentProposal] unfolding q3(2-) room key by auto
  obtain q5 where q5: "enroll_as ((0, 0), ''agent:c'') (?a ''act_5'') q4 = (Err (QueueFull AgentProposal), q5)" "lane q5 = lane q4"
    using enroll_new_subject(2) [of "''agent:c''" q4 "?a ''act_5''" AgentProposal] unfolding q4(2-) room key by auto
  show ?thesis
    by (simp add: sample_full_ops_def q1(1) q2(1) q3(1) q4(1) q5 key) (simp add: q1(4) q4(4))
qed

theorem dispatch_bounded_witness:
  "\<exists>ins outs q. run_ops enroll_as dequeue sample_full_ops sample_small_queue = (ins, outs, q) \<and>
     map ac_action_id ins = [''act_1'', ''act_3'', ''act_4''] \<and> length (lane q Interactive) = 1 \<and> length (lane q AgentProposal) = 2 \<and>
     2 * length (lane q AgentProposal) \<le> 4"
proof -
  obtain ins outs q where r: "run_ops enroll_as dequeue sample_full_ops sample_small_queue = (ins, outs, q)"
    "map ac_action_id ins = [''act_1'', ''act_3'', ''act_4'']" "length (lane q Interactive) = 1" "length (lane q AgentProposal) = 2"
    using sample_full_run by (elim exE conjE)
  have "2 * length (lane q AgentProposal) \<le> 4"
    using dispatch_bounded [OF r(1) [unfolded sample_small_queue_def]] by simp
  then show ?thesis using r by (intro exI conjI)
qed

definition limiters_ok :: "dispatch_queue \<Rightarrow> bool" where
  "limiters_ok q \<longleftrightarrow>
     (\<forall>(s, b) \<in> set (rate_limiters q). bucket_ok b \<and> tb_capacity b = Finite 15)"

lemma consume_capacity [simp]: "tb_capacity (snd (consume_at n now b)) = tb_capacity b"
  by (auto simp: consume_at_def refill_to_now_def Let_def)

lemma default_bucket_ok: "bucket_ok (default_ai_agent t) \<and> tb_capacity (default_ai_agent t) = Finite 15"
proof -
  have "f64_ok DEFAULT_BURST_CAPACITY"
    using f64_ok_nat [of 15] by (simp add: DEFAULT_BURST_CAPACITY_def)
  then have "bucket_ok (default_ai_agent t)" unfolding default_ai_agent_def by (rule bucket_ok_new)
  then show ?thesis
    by (simp add: default_ai_agent_def token_bucket_new_def clamp_rate_def DEFAULT_BURST_CAPACITY_def)
qed

lemma limiters_ok_enroll: "limiters_ok q \<Longrightarrow> limiters_ok (snd (enroll_as i a q))"
proof -
  assume ok: "limiters_ok q"
  define b where "b = (case map_of (rate_limiters q) (snd i) of
    None \<Rightarrow> default_ai_agent (fst (fst i)) | Some b \<Rightarrow> b)"
  have "bucket_ok b \<and> tb_capacity b = Finite 15"
    using ok default_bucket_ok unfolding b_def limiters_ok_def
    by (auto split: option.splits dest: map_of_SomeD)
  then have "bucket_ok (snd (consume_at (Finite 1) (snd (fst i)) b)) \<and>
      tb_capacity (snd (consume_at (Finite 1) (snd (fst i)) b)) = Finite 15"
    using bucket_ok_consume by simp
  moreover have "rate_limiters (snd (enroll_as i a q)) =
      AList.update (snd i) (snd (consume_at (Finite 1) (snd (fst i)) b)) (rate_limiters q)"
    by (simp add: enroll_as_def enroll_cases Let_def b_def)
  ultimately show ?thesis
    using ok set_AList_update [of "snd i" _ "rate_limiters q"] unfolding limiters_ok_def by fastforce
qed

lemma limiters_ok_dequeue: "limiters_ok q \<Longrightarrow> limiters_ok (snd (dequeue k q))"
  by (auto simp: dequeue_def limiters_ok_def split: option.splits list.splits)

lemma run_limiters_ok:
  "limiters_ok q \<Longrightarrow> run_ops enroll_as dequeue ops q = (ins, outs, q') \<Longrightarrow> limiters_ok q'"
proof (induction ops arbitrary: q ins outs)
  case (Cons op ops)
  show ?case
  proof (cases op)
    case (Put i a)
    then show ?thesis using Cons limiters_ok_enroll [of q i a]
      by (auto split: prod.splits sum.splits)
  next
    case (Take k)
    then show ?thesis using Cons limiters_ok_dequeue [of q k]
      by (auto split: prod.splits option.splits)
  qed
qed simp

text \<open>
  In every reachable queue the bucket of every subject holds between none and fifteen tokens, a
  finite number, in spite of rounding and of clocks that jump.
\<close>

theorem rate_limits_bounded:
  assumes "run_ops enroll_as dequeue ops (new_with_capacities caps) = (ins, outs, q)"
    and "map_of (rate_limiters q) subj = Some b"
  shows "\<exists>t. tokens b = Finite t \<and> 0 \<le> t \<and> t \<le> 15"
proof -
  have "limiters_ok q"
    by (rule run_limiters_ok [OF _ assms(1)]) (simp add: limiters_ok_def new_with_capacities_def)
  then have "bucket_ok b" and "tb_capacity b = Finite 15"
    using assms(2) by (auto simp: limiters_ok_def dest!: map_of_SomeD)
  then show ?thesis by (metis bucket_okE f64.inject(2))
qed

theorem rate_limits_bounded_witness:
  "\<exists>b t. map_of (rate_limiters (snd (snd (run_ops enroll_as dequeue
       [Put ((0, 0), ''s'') (fresh_context ''a'' 0)] new_with_defaults)))) ''s'' = Some b \<and>
     tokens b = Finite t \<and> 0 \<le> t \<and> t \<le> 15"
proof -
  let ?ops = "[Put ((0, 0), ''s'') (fresh_context ''a'' 0)]"
  obtain ins outs q where r: "run_ops enroll_as dequeue ?ops new_with_defaults = (ins, outs, q)"
    by (metis prod_cases3)
  have "map_of (rate_limiters (snd (enroll_as ((0, 0), ''s'') (fresh_context ''a'' 0) new_with_defaults)))
      ''s'' \<noteq> None"
    by (simp add: enroll_as_def enroll_cases Let_def new_with_defaults_def new_with_capacities_def)
  then obtain b where "map_of (rate_limiters q) ''s'' = Some b"
    using r by (auto split: prod.splits sum.splits)
  then show ?thesis using rate_limits_bounded [OF r [unfolded new_with_defaults_def]] r by auto
qed

end
