(* ===== verification/Runtime_Approval.thy ===== *)
theory Runtime_Approval
  imports Runtime_Types
begin

text \<open>
  Approval bindings, \<open>approval.rs\<close> and \<open>approval_sink.rs\<close>: requests, the bindings that grant them
  and the in-memory sink with every operation that changes it, the test seams included. The
  locale \<open>single_use\<close> is the anti-replay contract of the trait \<open>ApprovalBindingSink\<close>: what is
  used was usable and is not afterwards, and nothing becomes usable again unless it is minted.
\<close>

section \<open>Requests and bindings\<close>

datatype approval_binding_state = BindPending | BindGranted | BindConsumed | BindDenied | BindExpired

fun binding_is_terminal :: "approval_binding_state \<Rightarrow> bool" where
  "binding_is_terminal s \<longleftrightarrow> s \<in> {BindConsumed, BindDenied, BindExpired}"

record approval_request =
  aq_request_id :: string
  aq_action_id :: string
  requirement :: approval_requirement
  proposing_subject_id :: string
  proposing_subject_is_ai :: bool
  aq_bound_hash :: string
  requested_at :: instant

record approval_binding =
  binding_id :: string
  ab_request_id :: string
  ab_action_id :: string
  granted_by :: string
  granted_by_class :: approver_class
  granted_at :: instant
  ab_expires_at :: instant
  bound_action_canonical_hash :: string
  ab_signature_ed25519 :: "u8 list"
  binding_state :: approval_binding_state

definition is_consumable :: "approval_binding \<Rightarrow> bool" where
  "is_consumable b \<longleftrightarrow> binding_state b = BindGranted"

section \<open>The in-memory sink\<close>

record approval_sink =
  sk_requests :: "(string \<times> approval_request) list"
  sk_bindings :: "(string \<times> approval_binding) list"
  request_to_binding :: "(string \<times> string) list"

definition sink_new :: approval_sink where
  "sink_new = \<lparr>sk_requests = [], sk_bindings = [], request_to_binding = []\<rparr>"

definition submit_request :: "approval_request \<Rightarrow> approval_sink \<Rightarrow> approval_sink" where
  "submit_request r s = s\<lparr>sk_requests := AList.update (aq_request_id r) r (sk_requests s)\<rparr>"

definition poll_state :: "string \<Rightarrow> approval_sink \<Rightarrow> (runtime_error, approval_binding_state) result" where
  "poll_state rid s =
     (case map_of (sk_requests s) rid of
        None \<Rightarrow> Err (ApprovalRequestNotFound rid)
      | Some _ \<Rightarrow>
          Ok (case map_of (request_to_binding s) rid of
                None \<Rightarrow> BindPending
              | Some bid \<Rightarrow> (case map_of (sk_bindings s) bid of
                               None \<Rightarrow> BindPending | Some b \<Rightarrow> binding_state b)))"

definition set_binding :: "string \<Rightarrow> approval_binding \<Rightarrow> approval_sink \<Rightarrow> approval_sink" where
  "set_binding bid b s = s\<lparr>sk_bindings := AList.update bid b (sk_bindings s)\<rparr>"

definition consume_binding ::
    "instant \<Rightarrow> string \<Rightarrow> approval_sink \<Rightarrow> (runtime_error, approval_binding) result \<times> approval_sink" where
  "consume_binding now bid s =
     (case map_of (sk_bindings s) bid of
        None \<Rightarrow> (Err (ApprovalBindingInvalid bid), s)
      | Some b \<Rightarrow>
          (case binding_state b of
             BindPending \<Rightarrow> (Err (ApprovalBindingInvalid
               (''binding '' @ bid @ '' is not yet GRANTED (state = PENDING)'')), s)
           | BindConsumed \<Rightarrow> (Err ApprovalBindingConsumed, s)
           | BindDenied \<Rightarrow> (Err (ApprovalBindingInvalid (''binding '' @ bid @ '' is DENIED'')), s)
           | BindExpired \<Rightarrow> (Err ApprovalBindingExpired, s)
           | BindGranted \<Rightarrow>
               if ab_expires_at b \<le> now
               then (Err ApprovalBindingExpired, set_binding bid (b\<lparr>binding_state := BindExpired\<rparr>) s)
               else (Ok (b\<lparr>binding_state := BindConsumed\<rparr>),
                     set_binding bid (b\<lparr>binding_state := BindConsumed\<rparr>) s)))"

definition inject_granted_binding ::
    "string \<Rightarrow> instant \<Rightarrow> string \<Rightarrow> string \<Rightarrow> approver_class \<Rightarrow> approval_sink \<Rightarrow>
     (runtime_error, approval_binding) result \<times> approval_sink" where
  "inject_granted_binding ulid now rid by_subject by_class s =
     (case map_of (sk_requests s) rid of
        None \<Rightarrow> (Err (ApprovalRequestNotFound rid), s)
      | Some r \<Rightarrow>
          let ttl = (if ar_ttl_seconds (requirement r) = 0 then 300
                     else uint (ar_ttl_seconds (requirement r)));
              b = \<lparr>binding_id = id_new ApprovalBindingId ulid, ab_request_id = rid,
                   ab_action_id = aq_action_id r, granted_by = by_subject, granted_by_class = by_class,
                   granted_at = now, ab_expires_at = now + duration_seconds ttl,
                   bound_action_canonical_hash = aq_bound_hash r, ab_signature_ed25519 = [],
                   binding_state = BindGranted\<rparr>
          in (Ok b, set_binding (binding_id b) b
                (s\<lparr>request_to_binding := AList.update rid (binding_id b) (request_to_binding s)\<rparr>)))"

text \<open>The three seams that rewrite one field of a binding.\<close>

definition modify_binding ::
    "(approval_binding \<Rightarrow> approval_binding) \<Rightarrow> string \<Rightarrow> approval_sink \<Rightarrow>
     (runtime_error, unit) result \<times> approval_sink" where
  "modify_binding f bid s =
     (case map_of (sk_bindings s) bid of
        None \<Rightarrow> (Err (ApprovalBindingInvalid bid), s)
      | Some b \<Rightarrow> (Ok (), set_binding bid (f b) s))"

definition force_expire ::
    "instant \<Rightarrow> string \<Rightarrow> approval_sink \<Rightarrow> (runtime_error, unit) result \<times> approval_sink" where
  "force_expire now = modify_binding (\<lambda>b. b\<lparr>ab_expires_at := now - duration_seconds 1\<rparr>)"

definition force_denied ::
    "string \<Rightarrow> approval_sink \<Rightarrow> (runtime_error, unit) result \<times> approval_sink" where
  "force_denied = modify_binding (\<lambda>b. b\<lparr>binding_state := BindDenied\<rparr>)"

definition force_pending ::
    "string \<Rightarrow> approval_sink \<Rightarrow> (runtime_error, unit) result \<times> approval_sink" where
  "force_pending = modify_binding (\<lambda>b. b\<lparr>binding_state := BindPending\<rparr>)"

definition get_request :: "string \<Rightarrow> approval_sink \<Rightarrow> approval_request option" where
  "get_request rid s = map_of (sk_requests s) rid"

section \<open>Runs of the sink\<close>

datatype sink_op =
    SinkSubmit approval_request
  | SinkInject string instant string string approver_class
  | SinkConsume instant string
  | SinkForceExpire instant string
  | SinkForceDenied string
  | SinkForcePending string

fun sink_step :: "sink_op \<Rightarrow> approval_sink \<Rightarrow> approval_sink" where
  "sink_step (SinkSubmit r) s = submit_request r s"
| "sink_step (SinkInject ulid now rid by_subject by_class) s =
     snd (inject_granted_binding ulid now rid by_subject by_class s)"
| "sink_step (SinkConsume now bid) s = snd (consume_binding now bid s)"
| "sink_step (SinkForceExpire now bid) s = snd (force_expire now bid s)"
| "sink_step (SinkForceDenied bid) s = snd (force_denied bid s)"
| "sink_step (SinkForcePending bid) s = snd (force_pending bid s)"

text \<open>The binding an operation hands out for execution, and the one it creates.\<close>

fun sink_uses :: "sink_op \<Rightarrow> approval_sink \<Rightarrow> string option" where
  "sink_uses (SinkConsume now bid) s =
     (case fst (consume_binding now bid s) of Inl _ \<Rightarrow> None | Inr b \<Rightarrow> Some bid)"
| "sink_uses _ s = None"

fun sink_mints :: "sink_op \<Rightarrow> approval_sink \<Rightarrow> string option" where
  "sink_mints (SinkInject ulid now rid by_subject by_class) s =
     (case fst (inject_granted_binding ulid now rid by_subject by_class s) of
        Inl _ \<Rightarrow> None | Inr b \<Rightarrow> Some (binding_id b))"
| "sink_mints _ s = None"

fun collect_run :: "('o \<Rightarrow> 's \<Rightarrow> 's) \<Rightarrow> ('o \<Rightarrow> 's \<Rightarrow> 'b option) \<Rightarrow> 'o list \<Rightarrow> 's \<Rightarrow> 'b list" where
  "collect_run step out [] s = []"
| "collect_run step out (op # ops) s =
     (case out op s of None \<Rightarrow> [] | Some b \<Rightarrow> [b]) @ collect_run step out ops (step op s)"

section \<open>Single use\<close>

locale single_use =
  fixes usable :: "'s \<Rightarrow> 'b \<Rightarrow> bool"
    and step :: "'o \<Rightarrow> 's \<Rightarrow> 's"
    and uses :: "'o \<Rightarrow> 's \<Rightarrow> 'b option"
    and mints :: "'o \<Rightarrow> 's \<Rightarrow> 'b option"
  assumes use_spends: "uses op s = Some b \<Longrightarrow> usable s b \<and> \<not> usable (step op s) b"
    and usable_origin: "usable (step op s) b \<Longrightarrow> usable s b \<or> mints op s = Some b"
begin

lemma used_from:
  "set (collect_run step uses ops s) \<subseteq> {b. usable s b} \<union> set (collect_run step mints ops s)"
proof (induction ops arbitrary: s)
  case (Cons op ops)
  show ?case
  proof
    fix b assume "b \<in> set (collect_run step uses (op # ops) s)"
    then consider "uses op s = Some b" | "b \<in> set (collect_run step uses ops (step op s))"
      by (auto split: option.splits)
    then show "b \<in> {b. usable s b} \<union> set (collect_run step mints (op # ops) s)"
    proof cases
      case 2
      then have "usable (step op s) b \<or> b \<in> set (collect_run step mints ops (step op s))"
        using Cons.IH by blast
      then have "usable s b \<or> mints op s = Some b \<or> b \<in> set (collect_run step mints ops (step op s))"
        using usable_origin by blast
      then show ?thesis by auto
    qed (use use_spends in blast)
  qed
qed simp

lemma used_once:
  assumes "distinct (collect_run step mints ops s)"
    and "\<forall>b \<in> set (collect_run step mints ops s). \<not> usable s b"
  shows "distinct (collect_run step uses ops s)"
  using assms
proof (induction ops arbitrary: s)
  case (Cons op ops)
  let ?s = "step op s"
  have "distinct (collect_run step mints ops ?s)" using Cons.prems(1) by simp
  moreover have "\<forall>b \<in> set (collect_run step mints ops ?s). \<not> usable ?s b"
    using Cons.prems usable_origin [of op s] by (auto split: option.splits)
  ultimately have ih: "distinct (collect_run step uses ops ?s)" by (rule Cons.IH)
  have "b \<notin> set (collect_run step uses ops ?s)" if "uses op s = Some b" for b
    using use_spends [OF that] used_from [of ops ?s] Cons.prems(2) by (auto split: option.splits)
  then show ?case using ih by (auto split: option.splits)
qed simp

end

definition sink_usable :: "approval_sink \<Rightarrow> string \<Rightarrow> bool" where
  "sink_usable s bid \<longleftrightarrow>
     (case map_of (sk_bindings s) bid of None \<Rightarrow> False | Some b \<Rightarrow> is_consumable b)"

lemma bindings_set [simp]:
  "map_of (sk_bindings (set_binding bid b s)) = (map_of (sk_bindings s))(bid \<mapsto> b)"
  "sk_requests (set_binding bid b s) = sk_requests s"
  by (simp_all add: set_binding_def AList.update_conv')

lemma consume_Ok_iff:
  "fst (consume_binding now bid s) = Ok b \<longleftrightarrow>
     (\<exists>g. map_of (sk_bindings s) bid = Some g \<and> binding_state g = BindGranted \<and>
        now < ab_expires_at g \<and> b = g\<lparr>binding_state := BindConsumed\<rparr>)"
  by (auto simp: consume_binding_def split: option.splits approval_binding_state.splits)

interpretation sk: single_use sink_usable sink_step sink_uses sink_mints
proof unfold_locales
  fix op s b
  assume "sink_uses op s = Some b"
  then show "sink_usable s b \<and> \<not> sink_usable (sink_step op s) b"
    by (cases op)
      (auto simp: sink_usable_def is_consumable_def consume_binding_def
        split: option.splits approval_binding_state.splits sum.splits if_splits)
next
  fix op s b
  assume "sink_usable (sink_step op s) b"
  then show "sink_usable s b \<or> sink_mints op s = Some b"
    by (cases op)
      (auto simp: sink_usable_def is_consumable_def consume_binding_def submit_request_def
        inject_granted_binding_def force_expire_def force_denied_def force_pending_def
        modify_binding_def Let_def
        split: option.splits approval_binding_state.splits sum.splits if_splits)
qed

text \<open>
  A binding is consumed at most once. In any run of the sink, test seams included, in which no
  binding identifier is generated twice, the identifiers handed out for execution are distinct.
\<close>

theorem binding_consumed_once:
  assumes "distinct (collect_run sink_step sink_mints ops sink_new)"
  shows "distinct (collect_run sink_step sink_uses ops sink_new)"
  by (rule sk.used_once [OF assms]) (simp add: sink_usable_def sink_new_def)

definition sample_approval_request :: approval_request where
  "sample_approval_request =
     \<lparr>aq_request_id = ''actrq_1'', aq_action_id = ''act_1'', requirement = approval_requirement_default,
      proposing_subject_id = ''agent:a'', proposing_subject_is_ai = True, aq_bound_hash = ''h'',
      requested_at = 0\<rparr>"

definition sample_sink_ops :: "sink_op list" where
  "sample_sink_ops =
     [SinkSubmit sample_approval_request,
      SinkInject ''U'' 0 ''actrq_1'' ''operator:o'' ApOperator,
      SinkConsume 1 ''appb_U'', SinkConsume 2 ''appb_U'']"

lemma sample_sink_eval:
  "collect_run sink_step sink_mints sample_sink_ops sink_new = [''appb_U'']"
  "collect_run sink_step sink_uses sample_sink_ops sink_new = [''appb_U'']"
  by (simp_all add: sample_sink_ops_def sample_approval_request_def sink_new_def submit_request_def
      inject_granted_binding_def consume_binding_def set_binding_def id_new_def fresh_id_def
      approval_requirement_default_def duration_seconds_def Let_def)

theorem binding_consumed_once_witness:
  "collect_run sink_step sink_uses sample_sink_ops sink_new = [''appb_U''] \<and>
   distinct (collect_run sink_step sink_uses sample_sink_ops sink_new)"
  using binding_consumed_once [of sample_sink_ops] by (simp add: sample_sink_eval)

section \<open>Where a consumed binding comes from\<close>

definition sink_after :: "sink_op list \<Rightarrow> approval_sink" where
  "sink_after ops = fold sink_step ops sink_new"

definition binding_ttl :: "approval_request \<Rightarrow> int" where
  "binding_ttl r = (if ar_ttl_seconds (requirement r) = 0 then 300 else uint (ar_ttl_seconds (requirement r)))"

definition binding_traced :: "sink_op list \<Rightarrow> string \<Rightarrow> approval_binding \<Rightarrow> bool" where
  "binding_traced ops bid b \<longleftrightarrow>
     (\<exists>ulid t r.
        SinkSubmit r \<in> set ops \<and>
        SinkInject ulid t (aq_request_id r) (granted_by b) (granted_by_class b) \<in> set ops \<and>
        bid = id_new ApprovalBindingId ulid \<and> ab_request_id b = aq_request_id r \<and>
        ab_action_id b = aq_action_id r \<and> bound_action_canonical_hash b = aq_bound_hash r \<and>
        ((\<forall>now. SinkForceExpire now bid \<notin> set ops) \<longrightarrow>
           ab_expires_at b = t + duration_seconds (binding_ttl r)))"

lemma binding_traced_mono: "binding_traced ops bid b \<Longrightarrow>
    (\<And>now. op \<noteq> SinkForceExpire now bid) \<Longrightarrow> binding_traced (ops @ [op]) bid b"
  unfolding binding_traced_def by (metis (no_types, lifting) Un_iff list.set_intros(1) set_append
      set_ConsD empty_iff list.set(1))

lemma traced_modify:
  assumes "binding_traced ops bid b" and "granted_by c = granted_by b"
    and "granted_by_class c = granted_by_class b" and "ab_request_id c = ab_request_id b"
    and "ab_action_id c = ab_action_id b"
    and "bound_action_canonical_hash c = bound_action_canonical_hash b"
    and "ab_expires_at c = ab_expires_at b \<or> (\<exists>now. op = SinkForceExpire now bid)"
  shows "binding_traced (ops @ [op]) bid c"
proof -
  obtain ulid t r where *: "SinkSubmit r \<in> set ops"
    "SinkInject ulid t (aq_request_id r) (granted_by b) (granted_by_class b) \<in> set ops"
    "bid = id_new ApprovalBindingId ulid" "ab_request_id b = aq_request_id r"
    "ab_action_id b = aq_action_id r" "bound_action_canonical_hash b = aq_bound_hash r"
    "(\<forall>now. SinkForceExpire now bid \<notin> set ops) \<longrightarrow> ab_expires_at b = t + duration_seconds (binding_ttl r)"
    using assms(1) unfolding binding_traced_def by blast
  show ?thesis
    unfolding binding_traced_def
    by (rule exI [of _ ulid], rule exI [of _ t], rule exI [of _ r]) (use * assms(2-) in auto)
qed

definition sink_traced :: "sink_op list \<Rightarrow> approval_sink \<Rightarrow> bool" where
  "sink_traced ops s \<longleftrightarrow>
     (\<forall>rid r. map_of (sk_requests s) rid = Some r \<longrightarrow> aq_request_id r = rid \<and> SinkSubmit r \<in> set ops) \<and>
     (\<forall>bid b. map_of (sk_bindings s) bid = Some b \<longrightarrow> binding_traced ops bid b)"

lemma sink_traced_set:
  assumes "sink_traced ops s" and "\<And>bid b. map_of (sk_bindings s') bid = Some b \<Longrightarrow>
      binding_traced (ops @ [op]) bid b" and "sk_requests s' = sk_requests s"
  shows "sink_traced (ops @ [op]) s'"
  using assms by (auto simp: sink_traced_def)

lemma traced_same:
  assumes "sink_traced ops s" and "map_of (sk_bindings s) bid = Some b"
    and "ab_expires_at c = ab_expires_at b \<or> (\<exists>now. op = SinkForceExpire now bid)"
    and "c = b\<lparr>binding_state := st, ab_expires_at := e\<rparr>"
  shows "binding_traced (ops @ [op]) bid c"
  by (rule traced_modify [of ops bid b]) (use assms in \<open>auto simp: sink_traced_def\<close>)

lemma sink_traced_modify:
  assumes "sink_traced ops s" and "\<And>b. \<exists>st e. f b = b\<lparr>binding_state := st, ab_expires_at := e\<rparr>"
    and "\<And>b. ab_expires_at (f b) = ab_expires_at b \<or> (\<exists>now. op = SinkForceExpire now bid)"
    and "\<And>now bid'. op = SinkForceExpire now bid' \<Longrightarrow> bid' = bid"
  shows "sink_traced (ops @ [op]) (snd (modify_binding f bid s))"
proof (rule sink_traced_set [OF assms(1)])
  fix bid' b assume b: "map_of (sk_bindings (snd (modify_binding f bid s))) bid' = Some b"
  show "binding_traced (ops @ [op]) bid' b"
  proof (cases "bid' = bid")
    case True
    then obtain g where g: "map_of (sk_bindings s) bid = Some g" "b = f g"
      using b by (auto simp: modify_binding_def split: option.splits)
    obtain st e where "f g = g\<lparr>binding_state := st, ab_expires_at := e\<rparr>" using assms(2) by blast
    then show ?thesis using traced_same [OF assms(1) g(1), where c = b and op = op] g(2) assms(3) [of g] True by simp
  next
    case False
    then have "map_of (sk_bindings s) bid' = Some b"
      using b by (auto simp: modify_binding_def split: option.splits)
    then show ?thesis using assms(1,4) False by (intro binding_traced_mono) (auto simp: sink_traced_def)
  qed
qed (simp add: modify_binding_def split: option.splits)

lemma consume_as_modify:
  "snd (consume_binding now bid s) \<in>
     {s, snd (modify_binding (\<lambda>b. b\<lparr>binding_state := BindExpired\<rparr>) bid s),
      snd (modify_binding (\<lambda>b. b\<lparr>binding_state := BindConsumed\<rparr>) bid s)}"
  by (auto simp: consume_binding_def modify_binding_def split: option.splits approval_binding_state.splits)

lemma record_self: "(b :: approval_binding)\<lparr>binding_state := st\<rparr> =
    b\<lparr>binding_state := st, ab_expires_at := ab_expires_at b\<rparr>"
  "b\<lparr>ab_expires_at := e\<rparr> = b\<lparr>binding_state := binding_state b, ab_expires_at := e\<rparr>"
  by simp_all

lemma sink_traced_weaken:
  assumes "sink_traced ops s" and "\<And>now bid. op \<noteq> SinkForceExpire now bid"
  shows "sink_traced (ops @ [op]) s"
proof (rule sink_traced_set [OF assms(1)])
  fix bid b assume "map_of (sk_bindings s) bid = Some b"
  then have "binding_traced ops bid b" using assms(1) by (simp add: sink_traced_def)
  then show "binding_traced (ops @ [op]) bid b" using assms(2) by (rule binding_traced_mono)
qed simp

lemma sink_traced_state:
  assumes "sink_traced ops s" and "\<And>now bid. op \<noteq> SinkForceExpire now bid"
  shows "sink_traced (ops @ [op]) (snd (modify_binding (\<lambda>b. b\<lparr>binding_state := st\<rparr>) bid s))"
  using assms by (intro sink_traced_modify) (auto intro: record_self)

lemma sink_traced_inject:
  assumes "sink_traced ops s"
  shows "sink_traced (ops @ [SinkInject ulid now rid by_subject by_class])
    (snd (inject_granted_binding ulid now rid by_subject by_class s))" (is "sink_traced (_ @ [?op]) ?s")
proof (cases "map_of (sk_requests s) rid")
  case None
  then show ?thesis using sink_traced_weaken [OF assms] by (simp add: inject_granted_binding_def)
next
  case (Some r)
  then have r: "aq_request_id r = rid" "SinkSubmit r \<in> set ops"
    using assms by (auto simp: sink_traced_def)
  show ?thesis
  proof (rule sink_traced_set [OF assms])
    fix bid b assume b: "map_of (sk_bindings ?s) bid = Some b"
    show "binding_traced (ops @ [?op]) bid b"
    proof (cases "bid = id_new ApprovalBindingId ulid")
      case True
      then show ?thesis using b r Some unfolding binding_traced_def
        by (intro exI [of _ ulid] exI [of _ now] exI [of _ r])
          (auto simp: inject_granted_binding_def binding_ttl_def Let_def)
    next
      case False
      then have "map_of (sk_bindings s) bid = Some b"
        using b Some by (auto simp: inject_granted_binding_def Let_def)
      then show ?thesis using assms by (intro binding_traced_mono) (auto simp: sink_traced_def)
    qed
  qed (use Some in \<open>simp add: inject_granted_binding_def Let_def\<close>)
qed

lemma sink_traced_step: "sink_traced ops s \<Longrightarrow> sink_traced (ops @ [op]) (sink_step op s)"
proof (cases op)
  case (SinkSubmit r)
  assume "sink_traced ops s"
  then show ?thesis using SinkSubmit
    by (auto simp: sink_traced_def submit_request_def AList.update_conv' intro: binding_traced_mono)
next
  case (SinkConsume now bid)
  assume "sink_traced ops s"
  then show ?thesis
    using SinkConsume consume_as_modify [of now bid s] sink_traced_weaken [of ops s op]
      sink_traced_state [of ops s op _ bid] by auto
next
  case (SinkForceExpire now bid)
  assume "sink_traced ops s"
  then show ?thesis using SinkForceExpire
    by (auto simp: force_expire_def intro!: sink_traced_modify) (metis record_self(2))
qed (auto simp: sink_traced_inject force_denied_def force_pending_def intro!: sink_traced_state)

lemma sink_after_traced: "sink_traced ops (sink_after ops)"
proof (induction ops rule: rev_induct)
  case Nil
  show ?case by (simp add: sink_traced_def sink_after_def sink_new_def)
next
  case (snoc op ops)
  then show ?case using sink_traced_step by (simp add: sink_after_def)
qed

text \<open>
  A binding handed out for execution was granted for a request that was submitted: it names the
  subject and class of a grant, carries the action and the hash of that request, and, unless it
  was expired by hand, its time to live (300 seconds when the policy gives none) has not elapsed.
\<close>

theorem consumed_binding_provenance:
  assumes "fst (consume_binding now bid (sink_after ops)) = Ok b"
  shows "\<exists>ulid t r. SinkSubmit r \<in> set ops \<and>
    SinkInject ulid t (aq_request_id r) (granted_by b) (granted_by_class b) \<in> set ops \<and>
    bid = id_new ApprovalBindingId ulid \<and> ab_action_id b = aq_action_id r \<and>
    bound_action_canonical_hash b = aq_bound_hash r \<and>
    ((\<forall>n. SinkForceExpire n bid \<notin> set ops) \<longrightarrow>
       now < t + duration_seconds (if ar_ttl_seconds (requirement r) = 0 then 300
                                   else uint (ar_ttl_seconds (requirement r))))"
proof -
  obtain g where g: "map_of (sk_bindings (sink_after ops)) bid = Some g" "now < ab_expires_at g"
    "b = g\<lparr>binding_state := BindConsumed\<rparr>"
    using assms by (auto simp: consume_Ok_iff)
  then have "binding_traced ops bid g" using sink_after_traced [of ops] by (simp add: sink_traced_def)
  then show ?thesis
    using g(2) unfolding binding_traced_def binding_ttl_def g(3) by fastforce
qed

theorem consumed_binding_provenance_witness:
  "\<exists>ulid t r. SinkSubmit r \<in> set (take 2 sample_sink_ops) \<and>
    SinkInject ulid t (aq_request_id r) ''operator:o'' ApOperator \<in> set (take 2 sample_sink_ops) \<and>
    aq_bound_hash r = ''h''"
proof -
  obtain b where "fst (consume_binding 1 ''appb_U'' (sink_after (take 2 sample_sink_ops))) = Ok b"
    and "granted_by b = ''operator:o''" and "granted_by_class b = ApOperator"
    and "bound_action_canonical_hash b = ''h''"
    by (simp add: sink_after_def sample_sink_ops_def sample_approval_request_def sink_new_def
        submit_request_def inject_granted_binding_def consume_binding_def set_binding_def id_new_def
        fresh_id_def approval_requirement_default_def duration_seconds_def Let_def)
  then show ?thesis using consumed_binding_provenance by metis
qed

end
