(* ===== verification/Runtime_Adapters.thy ===== *)
theory Runtime_Adapters
  imports Runtime_Types Evidence_Receipt
begin

unbundle bit_operations_syntax

text \<open>
  Adapters: the registry of signed manifests (\<open>adapter_registry.rs\<close>, \<open>adapter_handle.rs\<close>), the
  rollback strategies a manifest declares (\<open>rollback_strategy.rs\<close>) and the driver that runs them
  (\<open>rollback.rs\<close>). Ed25519 verification, \<open>serde_json::to_vec\<close> and the \<open>Debug\<close> text of a string are
  the fields of \<open>registry_lib\<close>. The registry has its own hex codec for signatures; it is shown
  to be that of the evidence receipts.
\<close>

section \<open>The signed body of a manifest\<close>

record 'vk registry_lib =
  rl_to_vec :: "json \<Rightarrow> (string, string) result"
  rl_verify :: "'vk \<Rightarrow> string \<Rightarrow> u8 list \<Rightarrow> bool"
  rl_debug_str :: "string \<Rightarrow> string"

definition declaration_json :: "adapter_action_declaration \<Rightarrow> json" where
  "declaration_json d = JObject (
     [(''action_kind'', JString (action_kind d)), (''target_schema'', target_schema d),
      (''response_schema'', response_schema d), (''rollback_strategy'', JString (rollback_strategy d)),
      (''timeout_seconds'', JNumber (JInt (uint (timeout_seconds d))))] @
     skip_none ''template_string'' (template_string d) @
     (if template_substitution_variables d = [] then []
      else [(''template_substitution_variables'',
             JArray (map JString (template_substitution_variables d)))]))"

definition signed_manifest_body :: "adapter_manifest \<Rightarrow> json" where
  "signed_manifest_body m = JObject
     [(''adapter_id'', JString (adapter_id m)), (''adapter_version'', JString (adapter_version m)),
      (''vendor'', JString (vendor m)), (''name'', JString (adapter_name m)),
      (''declared_stability'', JString (stability_wire (declared_stability m))),
      (''io_mode'', JString (io_mode_wire (io_mode m))),
      (''dispatch_kind'', JString (dispatch_kind_wire (m_dispatch_kind m))),
      (''declared_actions'', JArray (map declaration_json (declared_actions m))),
      (''declared_invariants_supported'', JArray (map JString (declared_invariants_supported m))),
      (''default_adapter_timeout_seconds'', JNumber (JInt (uint (default_adapter_timeout_seconds m)))),
      (''default_sandbox_profile_id'', JString (m_default_sandbox_profile_id m))]"

definition canonical_signed_manifest_bytes ::
    "'vk registry_lib \<Rightarrow> adapter_manifest \<Rightarrow> (runtime_error, string) result" where
  "canonical_signed_manifest_bytes lib m =
     (case rl_to_vec lib (signed_manifest_body m) of
        Inl e \<Rightarrow> Err (ManifestInvalid (''signed-body serialise: '' @ e))
      | Inr bytes \<Rightarrow> Ok bytes)"

section \<open>The hex codec of the registry\<close>

definition manifest_hex_nibble :: "u8 \<Rightarrow> u8 option" where
  "manifest_hex_nibble b =
     (if 48 \<le> b \<and> b \<le> 57 then Some (b - 48)
      else if 97 \<le> b \<and> b \<le> 102 then Some (b - 97 + 10) else None)"

fun decode_hex_pairs :: "string \<Rightarrow> u8 list option" where
  "decode_hex_pairs (c # d # rest) =
     Option.bind (manifest_hex_nibble (byte_of c)) (\<lambda>hi.
     Option.bind (manifest_hex_nibble (byte_of d)) (\<lambda>lo.
     Option.bind (decode_hex_pairs rest) (\<lambda>out. Some ((push_bit 4 hi OR lo) # out))))"
| "decode_hex_pairs _ = Some []"

definition decode_hex_signature :: "string \<Rightarrow> u8 list option" where
  "decode_hex_signature hex = (if length hex \<noteq> 128 then None else decode_hex_pairs hex)"

definition HEX :: string where
  "HEX = ''0123456789abcdef''"

definition encode_hex_signature :: "u8 list \<Rightarrow> string" where
  "encode_hex_signature sig =
     concat (map (\<lambda>b. [HEX ! unat (drop_bit 4 b), HEX ! unat (b AND 0x0f)]) sig)"

section \<open>The registry\<close>

record registered_adapter =
  ra_manifest :: adapter_manifest
  registered_at :: instant

record 'vk adapter_registry =
  trusted_authorities :: "(string \<times> 'vk) list"
  adapters :: "(string \<times> registered_adapter) list"

definition registry_new :: "(string \<times> 'vk) list \<Rightarrow> 'vk adapter_registry" where
  "registry_new trusted = \<lparr>trusted_authorities = trusted, adapters = []\<rparr>"

definition registry_trusts_authority :: "'vk adapter_registry \<Rightarrow> string \<Rightarrow> bool" where
  "registry_trusts_authority reg k \<longleftrightarrow> map_of (trusted_authorities reg) k \<noteq> None"

definition register_adapter ::
    "'vk registry_lib \<Rightarrow> adapter_manifest \<Rightarrow> instant \<Rightarrow> 'vk adapter_registry \<Rightarrow>
     (runtime_error, unit) result \<times> 'vk adapter_registry" where
  "register_adapter lib m now reg =
     (case map_of (trusted_authorities reg) (signing_key_id m) of
        None \<Rightarrow> (Err (AdapterUnknownAuthority (signing_key_id m)), reg)
      | Some vk \<Rightarrow>
          (case decode_hex_signature (adapter_signature m) of
             None \<Rightarrow> (Err AdapterSignatureInvalid, reg)
           | Some sig \<Rightarrow>
               (case canonical_signed_manifest_bytes lib m of
                  Inl e \<Rightarrow> (Err e, reg)
                | Inr body \<Rightarrow>
                    if \<not> rl_verify lib vk body sig then (Err AdapterSignatureInvalid, reg)
                    else if map_of (adapters reg) (adapter_id m) \<noteq> None
                    then (Err (AdapterAlreadyRegistered (adapter_id m)), reg)
                    else (Ok (), reg\<lparr>adapters := AList.update (adapter_id m)
                            \<lparr>ra_manifest = m, registered_at = now\<rparr> (adapters reg)\<rparr>))))"

definition lookup_by_id :: "string \<Rightarrow> 'vk adapter_registry \<Rightarrow> registered_adapter option" where
  "lookup_by_id aid reg =
     (case map_of (adapters reg) aid of
        None \<Rightarrow> None
      | Some r \<Rightarrow> if declared_stability (ra_manifest r) = Retired then None else Some r)"

definition serves :: "string \<Rightarrow> registered_adapter \<Rightarrow> bool" where
  "serves kind r \<longleftrightarrow>
     declared_stability (ra_manifest r) \<noteq> Retired \<and>
     list_ex (\<lambda>d. action_kind d = kind) (declared_actions (ra_manifest r))"

definition lookup_for_target :: "string \<Rightarrow> 'vk adapter_registry \<Rightarrow> registered_adapter option" where
  "lookup_for_target kind reg = find (serves kind) (map snd (adapters reg))"

text \<open>The synchronous lookup gives up when a writer holds the lock.\<close>

definition adapter_lookup :: "bool \<Rightarrow> string \<Rightarrow> 'vk adapter_registry \<Rightarrow> adapter_manifest option" where
  "adapter_lookup locked kind reg =
     (if locked then None else map_option ra_manifest (find (serves kind) (map snd (adapters reg))))"

definition list_adapters :: "'vk adapter_registry \<Rightarrow> registered_adapter list" where
  "list_adapters reg = map snd (adapters reg)"

definition prune_expired_adapters :: "instant \<Rightarrow> 'vk adapter_registry \<Rightarrow> nat \<times> 'vk adapter_registry" where
  "prune_expired_adapters now reg =
     (let kept = filter (\<lambda>(_, r). now < manifest_expires_at (ra_manifest r)) (adapters reg)
      in (length (adapters reg) - length kept, reg\<lparr>adapters := kept\<rparr>))"

section \<open>Rollback strategies and the rollback driver\<close>

datatype rollback_strategy =
    StrategyUnspecified | StrategyNone | IdempotentReverse | CheckpointBased | ExternalRequired

definition parse_manifest_value ::
    "(string \<Rightarrow> string) \<Rightarrow> string \<Rightarrow> (runtime_error, rollback_strategy) result" where
  "parse_manifest_value dbg raw =
     (let t = trim raw in
      if t = [] \<or> t = ''ROLLBACK_STRATEGY_UNSPECIFIED'' then Ok StrategyUnspecified
      else if t = ''NONE'' then Ok StrategyNone
      else if t = ''IDEMPOTENT_REVERSE'' then Ok IdempotentReverse
      else if t = ''CHECKPOINT_BASED'' then Ok CheckpointBased
      else if t = ''EXTERNAL_REQUIRED'' then Ok ExternalRequired
      else Err (ManifestInvalid (''unknown rollback_strategy: '' @ dbg t)))"

fun admits_auto_rollback :: "rollback_strategy \<Rightarrow> bool" where
  "admits_auto_rollback s \<longleftrightarrow> s \<in> {IdempotentReverse, CheckpointBased, ExternalRequired}"

datatype rollback_failure_mode = SucceedSimulated | FailSimulated

record rollback_driver =
  failure_mode :: rollback_failure_mode
  inject_verify_failure :: bool

definition driver_new_with_defaults :: rollback_driver where
  "driver_new_with_defaults = \<lparr>failure_mode = SucceedSimulated, inject_verify_failure = False\<rparr>"

definition with_failure_mode :: "rollback_failure_mode \<Rightarrow> rollback_driver \<Rightarrow> rollback_driver" where
  "with_failure_mode mode d = d\<lparr>failure_mode := mode\<rparr>"

definition with_inject_verify_failure :: "bool \<Rightarrow> rollback_driver \<Rightarrow> rollback_driver" where
  "with_inject_verify_failure b d = d\<lparr>inject_verify_failure := b\<rparr>"

fun run_rollback :: "rollback_driver \<Rightarrow> rollback_strategy \<Rightarrow> rollback_outcome" where
  "run_rollback d StrategyNone = OutcomeNotAttempted"
| "run_rollback d StrategyUnspecified = OutcomeNotAttempted"
| "run_rollback d ExternalRequired = OutcomeNotApplicable"
| "run_rollback d _ =
     (case failure_mode d of SucceedSimulated \<Rightarrow> OutcomeSucceeded | FailSimulated \<Rightarrow> OutcomeFailed)"

fun classify_terminal :: "rollback_outcome \<Rightarrow> action_lifecycle_state" where
  "classify_terminal OutcomeSucceeded = ActionRolledBack"
| "classify_terminal OutcomeFailed = RollbackFailed"
| "classify_terminal _ = ActionFailed"

section \<open>The two hex codecs agree\<close>

lemma nibble_agrees:
  "manifest_hex_nibble b = (case hex_nibble what b of Inl _ \<Rightarrow> None | Inr n \<Rightarrow> Some n)"
  by (simp add: manifest_hex_nibble_def hex_nibble_def)

lemma pairs_agree:
  "decode_hex_pairs s = (case decode_chunks what s of Inl _ \<Rightarrow> None | Inr out \<Rightarrow> Some out)"
proof (induction what s rule: decode_chunks.induct)
  case (1 what c d rest)
  then show ?case
    by (auto simp: nibble_agrees [of _ what] split: sum.splits)
qed simp_all

lemma HEX_digits: "map (\<lambda>n. hex_digit (word_of_nat n)) [0..<16] = HEX"
  by code_simp

lemma HEX_digit: "n < (16 :: nat) \<Longrightarrow> HEX ! n = hex_digit (word_of_nat n)"
  by (simp flip: HEX_digits)

lemma encode_agrees: "encode_hex_signature sig = encode_signature_hex sig"
proof -
  have "[HEX ! unat (drop_bit 4 b), HEX ! unat (b AND 0x0f)] = hex_byte b" for b :: u8
  proof -
    have mask: "b AND 0x0f = take_bit 4 b" by (simp add: take_bit_eq_mask mask_eq_exp_minus_1)
    have "unat (drop_bit 4 b) < 16" and "unat (take_bit 4 b) < 16"
      using nibbles_less [of b] by (simp_all add: word_less_nat_alt)
    then show ?thesis by (simp add: mask HEX_digit hex_byte_def)
  qed
  then show ?thesis by (simp add: encode_hex_signature_def encode_signature_hex_def)
qed

lemma decode_agrees:
  "decode_hex_signature s = (case decode_signature_hex s of Inl _ \<Rightarrow> None | Inr out \<Rightarrow> Some out)"
  by (simp add: decode_hex_signature_def decode_signature_hex_def SIGNATURE_LENGTH_def
      pairs_agree [of s "''signature''"])

lemma decode_hex_Some_iff:
  "decode_hex_signature s = Some sig \<longleftrightarrow> length sig = 64 \<and> s = encode_hex_signature sig"
proof -
  have "decode_hex_signature s = Some sig \<longleftrightarrow> decode_signature_hex s = Ok sig"
    by (auto simp: decode_agrees split: sum.splits)
  also have "\<dots> \<longleftrightarrow> length sig = 64 \<and> s = encode_signature_hex sig"
    using decode_encode_signature [of sig] encode_decode_signature [of s sig]
    by (auto simp: SIGNATURE_LENGTH_def)
  finally show ?thesis by (simp add: encode_agrees)
qed

text \<open>
  The registry's codec for signatures is that of the evidence log: both encoders produce the
  same text, both decoders accept the same texts with the same result, and a text decodes exactly
  when it is the encoding of 64 bytes.
\<close>

theorem hex_codecs_agree:
  "encode_hex_signature sig = encode_signature_hex sig \<and>
   decode_hex_signature s = (case decode_signature_hex s of Inl _ \<Rightarrow> None | Inr out \<Rightarrow> Some out) \<and>
   (decode_hex_signature s = Some sig \<longleftrightarrow> length sig = 64 \<and> s = encode_hex_signature sig)"
  using encode_agrees decode_agrees decode_hex_Some_iff by blast

section \<open>What the registry serves\<close>

datatype registry_op = RegRegister adapter_manifest instant | RegPrune instant

fun registry_step :: "'vk registry_lib \<Rightarrow> registry_op \<Rightarrow> 'vk adapter_registry \<Rightarrow> 'vk adapter_registry" where
  "registry_step lib (RegRegister m now) reg = snd (register_adapter lib m now reg)"
| "registry_step lib (RegPrune now) reg = snd (prune_expired_adapters now reg)"

definition registry_after ::
    "'vk registry_lib \<Rightarrow> (string \<times> 'vk) list \<Rightarrow> registry_op list \<Rightarrow> 'vk adapter_registry" where
  "registry_after lib trusted ops = fold (registry_step lib) ops (registry_new trusted)"

definition manifest_signed :: "'vk registry_lib \<Rightarrow> (string \<times> 'vk) list \<Rightarrow> adapter_manifest \<Rightarrow> bool" where
  "manifest_signed lib trusted m \<longleftrightarrow>
     (\<exists>vk sig body. map_of trusted (signing_key_id m) = Some vk \<and>
        decode_hex_signature (adapter_signature m) = Some sig \<and>
        canonical_signed_manifest_bytes lib m = Ok body \<and> rl_verify lib vk body sig)"

lemma register_Ok_iff:
  "fst (register_adapter lib m now reg) = Ok () \<longleftrightarrow>
     manifest_signed lib (trusted_authorities reg) m \<and> map_of (adapters reg) (adapter_id m) = None"
  by (auto simp: register_adapter_def manifest_signed_def split: option.splits sum.splits if_splits)

lemma register_accepts:
  assumes "manifest_signed lib (trusted_authorities reg) m" and "map_of (adapters reg) (adapter_id m) = None"
  shows "register_adapter lib m now reg =
    (Ok (), reg\<lparr>adapters := AList.update (adapter_id m) \<lparr>ra_manifest = m, registered_at = now\<rparr> (adapters reg)\<rparr>)"
  using assms by (auto simp: register_adapter_def manifest_signed_def)

lemma register_refuses:
  assumes "\<not> (manifest_signed lib (trusted_authorities reg) m \<and> map_of (adapters reg) (adapter_id m) = None)"
  shows "\<exists>e. register_adapter lib m now reg = (Err e, reg)"
  using assms by (auto simp: register_adapter_def manifest_signed_def split: option.splits sum.splits)

text \<open>
  Registration is all or nothing: it succeeds exactly for a manifest signed by a trusted authority
  under a fresh identifier, and otherwise leaves the registry as it was.
\<close>

theorem register_all_or_nothing:
  "if manifest_signed lib (trusted_authorities reg) m \<and> map_of (adapters reg) (adapter_id m) = None
   then register_adapter lib m now reg =
     (Ok (), reg\<lparr>adapters := AList.update (adapter_id m) \<lparr>ra_manifest = m, registered_at = now\<rparr> (adapters reg)\<rparr>)
   else \<exists>e. register_adapter lib m now reg = (Err e, reg)"
  using register_accepts [of lib reg m now] register_refuses [of lib reg m now] by presburger

definition registry_inv ::
    "'vk registry_lib \<Rightarrow> (string \<times> 'vk) list \<Rightarrow> registry_op list \<Rightarrow> 'vk adapter_registry \<Rightarrow> bool" where
  "registry_inv lib trusted ops reg \<longleftrightarrow>
     trusted_authorities reg = trusted \<and> distinct (map fst (adapters reg)) \<and>
     (\<forall>(k, r) \<in> set (adapters reg). k = adapter_id (ra_manifest r) \<and>
        manifest_signed lib trusted (ra_manifest r) \<and>
        RegRegister (ra_manifest r) (registered_at r) \<in> set ops)"

lemma registry_inv_step:
  assumes "registry_inv lib trusted ops reg"
  shows "registry_inv lib trusted (ops @ [op]) (registry_step lib op reg)"
proof (cases op)
  case (RegRegister m now)
  show ?thesis
  proof (cases "manifest_signed lib (trusted_authorities reg) m \<and> map_of (adapters reg) (adapter_id m) = None")
    case True
    then have "registry_step lib op reg = reg\<lparr>adapters := AList.update (adapter_id m)
        \<lparr>ra_manifest = m, registered_at = now\<rparr> (adapters reg)\<rparr>"
      using register_accepts [of lib reg m now] RegRegister by simp
    then show ?thesis
      using assms True RegRegister
      by (auto simp: registry_inv_def AList.distinct_update dest!: subsetD [OF set_AList_update])
  next
    case False
    from register_refuses [OF False, of now] have "registry_step lib op reg = reg"
      using RegRegister by auto
    then show ?thesis using assms by (auto simp: registry_inv_def)
  qed
next
  case (RegPrune now)
  then show ?thesis using assms
    by (auto simp: registry_inv_def prune_expired_adapters_def Let_def distinct_map_filter)
qed

lemma registry_after_inv: "registry_inv lib trusted ops (registry_after lib trusted ops)"
proof (induction ops rule: rev_induct)
  case Nil
  show ?case by (simp add: registry_inv_def registry_after_def registry_new_def)
next
  case (snoc op ops)
  then show ?case using registry_inv_step by (simp add: registry_after_def)
qed

lemma lookup_for_target_Some:
  "lookup_for_target kind reg = Some r \<Longrightarrow> r \<in> snd ` set (adapters reg) \<and> serves kind r"
  by (auto simp: lookup_for_target_def dest!: find_eq_Some_props)

text \<open>
  An adapter that the registry hands out for an action was registered, is signed by a trusted
  authority over its canonical body, is not retired and declares the action.
\<close>

theorem served_adapter_signed:
  assumes "lookup_for_target kind (registry_after lib trusted ops) = Some r"
  shows "RegRegister (ra_manifest r) (registered_at r) \<in> set ops \<and>
    manifest_signed lib trusted (ra_manifest r) \<and> declared_stability (ra_manifest r) \<noteq> Retired \<and>
    (\<exists>d \<in> set (declared_actions (ra_manifest r)). action_kind d = kind)"
  using lookup_for_target_Some [OF assms] registry_after_inv [of lib trusted ops]
  by (auto simp: registry_inv_def serves_def list_ex_iff)

definition sample_manifest :: adapter_manifest where
  "sample_manifest =
     \<lparr>adapter_id = ''ad1'', adapter_version = ''1'', vendor = ''v'', adapter_name = ''n'',
      declared_stability = Stable, io_mode = TypedParametersOnly, m_dispatch_kind = SubprocessFork,
      declared_actions = [\<lparr>action_kind = ''service.restart'', target_schema = JNull,
        response_schema = JNull, rollback_strategy = ''IDEMPOTENT_REVERSE'', timeout_seconds = 30,
        template_string = None, template_substitution_variables = []\<rparr>],
      declared_invariants_supported = [], default_adapter_timeout_seconds = 30,
      m_default_sandbox_profile_id = ''p'', adapter_signature = replicate 128 (CHR ''0''),
      signing_key_id = ''root'', manifest_created_at = 0, manifest_expires_at = 10\<rparr>"

definition sample_registry_lib :: "unit registry_lib" where
  "sample_registry_lib = \<lparr>rl_to_vec = (\<lambda>_. Ok []), rl_verify = (\<lambda>_ _ _. True), rl_debug_str = (\<lambda>s. s)\<rparr>"

definition sample_registry :: "unit adapter_registry" where
  "sample_registry = registry_after sample_registry_lib [(''root'', ())] [RegRegister sample_manifest 0]"

lemma sample_signature: "decode_hex_signature (replicate 128 (CHR ''0'')) = Some (replicate 64 0)"
proof -
  have "replicate 128 (CHR ''0'') = encode_hex_signature (replicate 64 0)"
    by (simp add: encode_agrees encode_signature_hex_def) code_simp
  then show ?thesis by (simp only: decode_hex_Some_iff) simp
qed

lemma sample_registry_adapters:
  "adapters sample_registry = [(''ad1'', \<lparr>ra_manifest = sample_manifest, registered_at = 0\<rparr>)]"
proof -
  have "manifest_signed sample_registry_lib [(''root'', ())] sample_manifest"
    using sample_signature
    by (simp add: manifest_signed_def canonical_signed_manifest_bytes_def sample_registry_lib_def
        sample_manifest_def)
  then show ?thesis
    using register_accepts [of sample_registry_lib "registry_new [(''root'', ())]" sample_manifest 0]
    by (simp add: sample_registry_def registry_after_def registry_new_def sample_manifest_def)
qed

lemma sample_lookup:
  "lookup_for_target ''service.restart'' sample_registry =
     Some \<lparr>ra_manifest = sample_manifest, registered_at = 0\<rparr>"
  by (simp add: lookup_for_target_def sample_registry_adapters serves_def sample_manifest_def)

theorem served_adapter_signed_witness:
  "manifest_signed sample_registry_lib [(''root'', ())] sample_manifest"
  using served_adapter_signed [OF sample_lookup [unfolded sample_registry_def]] by simp

text \<open>
  Pruning removes exactly the expired manifests, reports their number, and no lookup after it
  returns one of them.
\<close>

theorem prune_exact:
  assumes "prune_expired_adapters now reg = (n, reg')"
  shows "set (adapters reg') = {(k, r) \<in> set (adapters reg). now < manifest_expires_at (ra_manifest r)} \<and>
    n = length (filter (\<lambda>(k, r). manifest_expires_at (ra_manifest r) \<le> now) (adapters reg)) \<and>
    (\<forall>kind r. lookup_for_target kind reg' = Some r \<longrightarrow> now < manifest_expires_at (ra_manifest r))"
proof -
  let ?P = "\<lambda>(k :: string, r). now < manifest_expires_at (ra_manifest r)"
  have reg': "adapters reg' = filter ?P (adapters reg)" and n: "n = length (adapters reg) - length (adapters reg')"
    using assms by (auto simp: prune_expired_adapters_def Let_def)
  have "length (filter ?P xs) + length (filter (\<lambda>(k, r). manifest_expires_at (ra_manifest r) \<le> now) xs) = length xs"
    for xs by (induction xs) auto
  from this [of "adapters reg"]
  have "n = length (filter (\<lambda>(k, r). manifest_expires_at (ra_manifest r) \<le> now) (adapters reg))"
    unfolding n reg' by (metis add_diff_cancel_left')
  then show ?thesis
    using reg' by (fastforce dest: lookup_for_target_Some)
qed

theorem prune_exact_witness: "adapters (snd (prune_expired_adapters 10 sample_registry)) = []"
proof -
  obtain n reg where p: "prune_expired_adapters 10 sample_registry = (n, reg)" by force
  have "set (adapters reg) = {}"
    using prune_exact [OF p] by (simp add: sample_registry_adapters sample_manifest_def)
  then show ?thesis using p by simp
qed

section \<open>Departures\<close>

text \<open>
  The expiry of a manifest is not part of what is signed: whoever submits the manifest can give it
  any life time, and registration behaves the same.
\<close>

theorem expiry_not_signed:
  "manifest_signed lib trusted (m\<lparr>manifest_expires_at := t\<rparr>) = manifest_signed lib trusted m"
  by (simp add: manifest_signed_def canonical_signed_manifest_bytes_def signed_manifest_body_def)

text \<open>
  An expired adapter is served until someone prunes the registry, and the registry does not enforce
  that an action has one adapter: a second manifest for the same action is accepted.
\<close>

theorem expired_adapter_served:
  "manifest_expires_at (ra_manifest \<lparr>ra_manifest = sample_manifest, registered_at = 0\<rparr>) \<le> 10 \<and>
   lookup_for_target ''service.restart''
     (registry_after sample_registry_lib [(''root'', ())] [RegRegister sample_manifest 0]) \<noteq> None"
  using sample_lookup by (simp add: sample_registry_def sample_manifest_def)

theorem action_kind_not_exclusive:
  "let (res, reg) = register_adapter sample_registry_lib (sample_manifest\<lparr>adapter_id := ''ad2''\<rparr>) 0 sample_registry
   in res = Ok () \<and> length (filter (serves ''service.restart'') (list_adapters reg)) = 2"
proof -
  have "manifest_signed sample_registry_lib [(''root'', ())] (sample_manifest\<lparr>adapter_id := ''ad2''\<rparr>)"
    using sample_signature
    by (simp add: manifest_signed_def canonical_signed_manifest_bytes_def sample_registry_lib_def
        sample_manifest_def)
  moreover have "trusted_authorities sample_registry = [(''root'', ())]"
    using registry_after_inv [of sample_registry_lib "[(''root'', ())]" "[RegRegister sample_manifest 0]"]
    by (simp add: sample_registry_def registry_inv_def)
  ultimately have "register_adapter sample_registry_lib (sample_manifest\<lparr>adapter_id := ''ad2''\<rparr>) 0 sample_registry =
      (Ok (), sample_registry\<lparr>adapters := AList.update ''ad2''
        \<lparr>ra_manifest = sample_manifest\<lparr>adapter_id := ''ad2''\<rparr>, registered_at = 0\<rparr> (adapters sample_registry)\<rparr>)"
    by (simp add: register_accepts sample_registry_adapters)
  then show ?thesis
    by (simp add: list_adapters_def sample_registry_adapters serves_def sample_manifest_def)
qed

end
