(* ===== verification/Runtime_Evidence.thy ===== *)
theory Runtime_Evidence
  imports Runtime_Types Evidence_Chain Action_Envelope
begin

text \<open>
  The evidence the runtime emits, \<open>evidence_emit.rs\<close> and \<open>evidence_payloads.rs\<close>: the in-memory sink
  that seals each builder onto its receipt chain, the payloads as the JSON they serialise to,
  and one emission function per kind of record. The identifiers and instants of the receipts are
  drawn from functions of the position in the chain.
\<close>

section \<open>The sink\<close>

definition CAPABILITY_RUNTIME_SUBJECT :: string where
  "CAPABILITY_RUNTIME_SUBJECT = ''_system:service:capability-runtime''"

record ('sk, 'vk) emit_env =
  em_lib :: "('sk, 'vk) evidence_lib"
  em_key :: 'sk
  em_ulid :: "nat \<Rightarrow> string"
  em_now :: "nat \<Rightarrow> instant"
  em_show :: "evidence_error \<Rightarrow> string"

definition last_receipt :: "evidence_receipt list \<Rightarrow> evidence_receipt option" where
  "last_receipt chain = (if chain = [] then None else Some (last chain))"

definition append_signed ::
    "('sk, 'vk) emit_env \<Rightarrow> receipt_builder \<Rightarrow> evidence_receipt list \<Rightarrow>
     (evidence_error, evidence_receipt) result \<times> evidence_receipt list" where
  "append_signed em b chain =
     (case seal_signed (em_lib em) (em_ulid em (length chain)) (em_now em (length chain)) b
             (last_receipt chain) (em_key em) of
        Inl e \<Rightarrow> (Err e, chain)
      | Inr r \<Rightarrow> (case chain_append (em_lib em) chain r of
                    Inl e \<Rightarrow> (Err e, chain)
                  | Inr chain' \<Rightarrow> (Ok r, chain')))"

section \<open>Payloads\<close>

definition action_received_payload :: "('sk, 'vk) emit_env \<Rightarrow> action_envelope \<Rightarrow> action_context \<Rightarrow> json" where
  "action_received_payload em env ctx = JObject
     [(''action_kind'', JString (action (env_request env))),
      (''subject_canonical_id'', JString (subject_canonical_id (env_identity env))),
      (''is_ai'', JBool (ident_is_ai (env_identity env))),
      (''received_at'', JString (ser_datetime (em_lib em) (ac_created_at ctx))),
      (''lifecycle_state_after'', JString (lifecycle_wire (status ctx)))]"

text \<open>The \<open>Debug\<close> text of a decision in upper case.\<close>

fun decision_token :: "decision \<Rightarrow> string" where
  "decision_token Unspecified = ''UNSPECIFIED''"
| "decision_token Allow = ''ALLOW''"
| "decision_token RequireApproval = ''REQUIREAPPROVAL''"
| "decision_token Deny = ''DENY''"

definition policy_decision_payload :: "action_context \<Rightarrow> policy_decision \<Rightarrow> json" where
  "policy_decision_payload ctx d = JObject
     [(''policy_decision_id'', JString (policy_decision_id d)),
      (''decision'', JString (decision_token (decision d))),
      (''reason_code'', JString (reason_code d)),
      (''bundle_version'', JString (pd_bundle_version d)),
      (''lifecycle_state_after'', JString (lifecycle_wire (status ctx)))]"

definition routing_decision_payload :: "action_envelope \<Rightarrow> string \<Rightarrow> action_dispatch_kind \<Rightarrow> json" where
  "routing_decision_payload env aid kind = JObject
     [(''adapter_id'', JString aid), (''action_kind'', JString (action (env_request env))),
      (''dispatch_kind'', JString (dispatch_kind_wire kind))]"

definition action_queued_payload :: "action_envelope \<Rightarrow> queue_class \<Rightarrow> json" where
  "action_queued_payload env cls = JObject
     [(''queue_class'', JString (queue_class_wire cls)), (''dispatched'', JBool False),
      (''subject_canonical_id'', JString (subject_canonical_id (env_identity env)))]"

definition execution_started_payload :: "action_context \<Rightarrow> json" where
  "execution_started_payload ctx = JObject
     [(''dispatch_kind'', JString (dispatch_kind_wire (dispatch_kind ctx))),
      (''queue_class'', JString (queue_class_wire (queue_class ctx)))]"

definition execution_completed_payload :: "action_context \<Rightarrow> string \<Rightarrow> json" where
  "execution_completed_payload ctx outcome = JObject
     [(''outcome'', JString outcome), (''lifecycle_state_after'', JString (lifecycle_wire (status ctx)))]"

definition verification_result_payload :: "action_context \<Rightarrow> bool \<Rightarrow> json" where
  "verification_result_payload ctx passed = JObject
     [(''passed'', JBool passed), (''lifecycle_state_after'', JString (lifecycle_wire (status ctx)))]"

definition rollback_completed_payload ::
    "action_context \<Rightarrow> rollback_outcome \<Rightarrow> execution_failure_reason option \<Rightarrow> json" where
  "rollback_completed_payload ctx outcome why = JObject (
     [(''outcome'', JString (outcome_wire outcome))] @
     skip_none ''triggering_reason'' (map_option failure_wire why) @
     [(''lifecycle_state_after'', JString (lifecycle_wire (status ctx)))])"

definition approval_requested_payload ::
    "action_context \<Rightarrow> string \<Rightarrow> string \<Rightarrow> bool \<Rightarrow> u32 \<Rightarrow> bool \<Rightarrow> json" where
  "approval_requested_payload ctx rid subj ai ttl cosigner = JObject
     [(''approval_request_id'', JString rid), (''proposing_subject_id'', JString subj),
      (''proposing_subject_is_ai'', JBool ai), (''ttl_seconds'', JNumber (JInt (uint ttl))),
      (''require_human_co_signer'', JBool cosigner),
      (''lifecycle_state_after'', JString (lifecycle_wire (status ctx)))]"

definition approval_granted_payload ::
    "action_context \<Rightarrow> string \<Rightarrow> string \<Rightarrow> string \<Rightarrow> string \<Rightarrow> json" where
  "approval_granted_payload ctx rid bid who hash = JObject
     [(''approval_request_id'', JString rid), (''binding_id'', JString bid),
      (''granting_subject_id'', JString who), (''bound_action_canonical_hash'', JString hash),
      (''lifecycle_state_after'', JString (lifecycle_wire (status ctx)))]"

definition approval_denied_payload :: "string option \<Rightarrow> string option \<Rightarrow> string \<Rightarrow> string \<Rightarrow> json" where
  "approval_denied_payload rid bid code message = JObject (
     skip_none ''approval_request_id'' rid @ skip_none ''binding_id'' bid @
     [(''reason_code'', JString code), (''reason_message'', JString message)])"

definition ai_downgrade_payload :: "action_envelope \<Rightarrow> json" where
  "ai_downgrade_payload env = JObject
     [(''subject_canonical_id'', JString (subject_canonical_id (env_identity env))),
      (''original_queue_class'', JString (queue_class_wire Interactive)),
      (''effective_queue_class'', JString (queue_class_wire AgentProposal))]"

section \<open>Emission\<close>

definition emit_with_retention ::
    "('sk, 'vk) emit_env \<Rightarrow> string \<Rightarrow> retention_class \<Rightarrow> action_context \<Rightarrow> json \<Rightarrow>
     (evidence_receipt list, action_context) rt" where
  "emit_with_retention em rt rc ctx payload chain =
     (let b = with_payload payload (with_action_id (ac_action_id ctx)
                (builder_new (RecordType rt) rc CAPABILITY_RUNTIME_SUBJECT))
      in case append_signed em b chain of
           (Inl e, chain') \<Rightarrow> (Err (EvidenceEmitFailed (em_show em e)), chain')
         | (Inr r, chain') \<Rightarrow> (Ok (ctx\<lparr>evidence_chain := evidence_chain ctx @ [receipt_id r]\<rparr>), chain'))"

definition emit ::
    "('sk, 'vk) emit_env \<Rightarrow> string \<Rightarrow> action_context \<Rightarrow> json \<Rightarrow> (evidence_receipt list, action_context) rt" where
  "emit em rt = emit_with_retention em rt (retention_class_for (RecordType rt))"

definition emit_action_received ::
    "('sk, 'vk) emit_env \<Rightarrow> action_envelope \<Rightarrow> action_context \<Rightarrow> (evidence_receipt list, action_context) rt" where
  "emit_action_received em env ctx = emit em ''ACTION_RECEIVED'' ctx (action_received_payload em env ctx)"

definition emit_policy_decision ::
    "('sk, 'vk) emit_env \<Rightarrow> action_context \<Rightarrow> policy_decision \<Rightarrow> (evidence_receipt list, action_context) rt" where
  "emit_policy_decision em ctx d = emit em ''POLICY_DECISION'' ctx (policy_decision_payload ctx d)"

definition emit_routing_decision ::
    "('sk, 'vk) emit_env \<Rightarrow> action_envelope \<Rightarrow> action_context \<Rightarrow> string \<Rightarrow> action_dispatch_kind \<Rightarrow>
     (evidence_receipt list, action_context) rt" where
  "emit_routing_decision em env ctx aid kind =
     emit em ''ROUTING_DECISION'' ctx (routing_decision_payload env aid kind)"

definition emit_action_queued ::
    "('sk, 'vk) emit_env \<Rightarrow> action_envelope \<Rightarrow> action_context \<Rightarrow> queue_class \<Rightarrow>
     (evidence_receipt list, action_context) rt" where
  "emit_action_queued em env ctx cls = emit em ''ACTION_DISPATCHED'' ctx (action_queued_payload env cls)"

definition emit_execution_started ::
    "('sk, 'vk) emit_env \<Rightarrow> action_context \<Rightarrow> (evidence_receipt list, action_context) rt" where
  "emit_execution_started em ctx = emit em ''EXECUTION_STARTED'' ctx (execution_started_payload ctx)"

definition emit_execution_completed ::
    "('sk, 'vk) emit_env \<Rightarrow> action_context \<Rightarrow> string \<Rightarrow> (evidence_receipt list, action_context) rt" where
  "emit_execution_completed em ctx outcome =
     emit em ''EXECUTION_COMPLETED'' ctx (execution_completed_payload ctx outcome)"

definition emit_verification_result ::
    "('sk, 'vk) emit_env \<Rightarrow> action_context \<Rightarrow> bool \<Rightarrow> (evidence_receipt list, action_context) rt" where
  "emit_verification_result em ctx passed =
     emit em ''VERIFICATION_RESULT'' ctx (verification_result_payload ctx passed)"

definition emit_rollback_completed ::
    "('sk, 'vk) emit_env \<Rightarrow> action_context \<Rightarrow> rollback_outcome \<Rightarrow> execution_failure_reason option \<Rightarrow>
     (evidence_receipt list, action_context) rt" where
  "emit_rollback_completed em ctx outcome why =
     (let payload = rollback_completed_payload ctx outcome why
      in if outcome = OutcomeFailed
         then emit_with_retention em ''ROLLBACK_COMPLETED'' Forever ctx payload
         else emit em ''ROLLBACK_COMPLETED'' ctx payload)"

definition emit_approval_requested ::
    "('sk, 'vk) emit_env \<Rightarrow> action_context \<Rightarrow> string \<Rightarrow> string \<Rightarrow> bool \<Rightarrow> u32 \<Rightarrow> bool \<Rightarrow>
     (evidence_receipt list, action_context) rt" where
  "emit_approval_requested em ctx rid subj ai ttl cosigner =
     emit em ''APPROVAL_REQUESTED'' ctx (approval_requested_payload ctx rid subj ai ttl cosigner)"

definition emit_approval_granted ::
    "('sk, 'vk) emit_env \<Rightarrow> action_context \<Rightarrow> string \<Rightarrow> string \<Rightarrow> string \<Rightarrow> string \<Rightarrow>
     (evidence_receipt list, action_context) rt" where
  "emit_approval_granted em ctx rid bid who hash =
     emit em ''APPROVAL_GRANTED'' ctx (approval_granted_payload ctx rid bid who hash)"

definition emit_approval_denied ::
    "('sk, 'vk) emit_env \<Rightarrow> action_context \<Rightarrow> string option \<Rightarrow> string option \<Rightarrow> string \<Rightarrow> string \<Rightarrow>
     (evidence_receipt list, action_context) rt" where
  "emit_approval_denied em ctx rid bid code message =
     emit em ''APPROVAL_DENIED'' ctx (approval_denied_payload rid bid code message)"

definition emit_ai_interactive_queue_downgrade ::
    "('sk, 'vk) emit_env \<Rightarrow> action_envelope \<Rightarrow> action_context \<Rightarrow> (evidence_receipt list, action_context) rt" where
  "emit_ai_interactive_queue_downgrade em env ctx =
     emit em ''AI_INTERACTIVE_QUEUE_DOWNGRADE'' ctx (ai_downgrade_payload env)"

lemmas emit_defs = emit_def emit_action_received_def emit_policy_decision_def emit_routing_decision_def
  emit_action_queued_def emit_execution_started_def emit_execution_completed_def
  emit_verification_result_def emit_rollback_completed_def emit_approval_requested_def
  emit_approval_granted_def emit_approval_denied_def emit_ai_interactive_queue_downgrade_def

section \<open>What an emission does\<close>

text \<open>The chain of the sink: empty, or one that passes the integrity walk.\<close>

definition chain_ok :: "('sk, 'vk) emit_env \<Rightarrow> 'vk \<Rightarrow> evidence_receipt list \<Rightarrow> bool" where
  "chain_ok em vk chain \<longleftrightarrow>
     (chain = [] \<or> verify_integrity (em_lib em) chain = Ok ()) \<and>
     list_all (\<lambda>r. verify_signature (em_lib em) vk r = Ok ()) chain"

lemma append_signed_Ok:
  assumes "append_signed em b chain = (Ok r, chain')"
  shows "chain' = chain @ [r]"
    and "seal_signed (em_lib em) (em_ulid em (length chain)) (em_now em (length chain)) b
      (last_receipt chain) (em_key em) = Ok r"
    and "chain_append (em_lib em) chain r = Ok chain'"
  using assms by (auto simp: append_signed_def chain_append_Ok_iff split: sum.splits)

lemma append_signed_Err: "append_signed em b chain = (Err e, chain') \<Longrightarrow> chain' = chain"
  by (auto simp: append_signed_def split: sum.splits)

lemma append_signed_chain_ok:
  assumes "key_pair (em_lib em) (em_key em) vk" and "chain_ok em vk chain"
  shows "chain_ok em vk (snd (append_signed em b chain))"
proof (cases "append_signed em b chain")
  case (Pair res chain')
  show ?thesis
  proof (cases res)
    case (Inr r)
    note ok = append_signed_Ok [OF Pair [unfolded Inr]]
    have "verify_signature (em_lib em) vk r = Ok ()"
      using seal_signed_verifies [OF assms(1) ok(2)] .
    moreover have "verify_integrity (em_lib em) chain' = Ok ()"
    proof (cases "chain = []")
      case True
      then show ?thesis using ok by (simp add: chain_append_Ok_iff verify_integrity_def)
    next
      case False
      then show ?thesis using assms(2) ok(3) rc.app_keeps_check [of chain "em_lib em" r chain']
        by (simp add: chain_ok_def)
    qed
    ultimately show ?thesis using assms(2) Pair ok(1) by (simp add: chain_ok_def)
  qed (use Pair append_signed_Err [of em b chain _ chain'] assms(2) in simp)
qed

text \<open>The receipts that an emission adds record the action and the type it was called with.\<close>

definition emits :: "('sk, 'vk) emit_env \<Rightarrow> string \<Rightarrow> action_context \<Rightarrow> evidence_receipt list \<Rightarrow>
    action_context \<Rightarrow> evidence_receipt list \<Rightarrow> bool" where
  "emits em rt ctx chain ctx' chain' \<longleftrightarrow>
     (\<exists>r. chain' = chain @ [r] \<and> r_record_type r = RecordType rt \<and>
        r_action_id r = Some (ac_action_id ctx) \<and>
        r_subject_canonical_id r = CAPABILITY_RUNTIME_SUBJECT \<and>
        ctx' = ctx\<lparr>evidence_chain := evidence_chain ctx @ [receipt_id r]\<rparr>)"

lemma emit_with_retention_Ok:
  assumes "emit_with_retention em rt rc ctx payload chain = (Ok ctx', chain')"
  shows "emits em rt ctx chain ctx' chain'"
proof -
  obtain r where r: "append_signed em (with_payload payload (with_action_id (ac_action_id ctx)
      (builder_new (RecordType rt) rc CAPABILITY_RUNTIME_SUBJECT))) chain = (Ok r, chain')"
    and ctx': "ctx' = ctx\<lparr>evidence_chain := evidence_chain ctx @ [receipt_id r]\<rparr>"
    using assms by (auto simp: emit_with_retention_def Let_def split: prod.splits sum.splits)
  have "r_record_type r = RecordType rt" and "r_action_id r = Some (ac_action_id ctx)"
    and "r_subject_canonical_id r = CAPABILITY_RUNTIME_SUBJECT"
    using append_signed_Ok(2) [OF r]
    by (auto simp: seal_signed_Ok_iff seal_inner_Ok_iff builder_new_def with_action_id_def with_payload_def)
  then show ?thesis using append_signed_Ok(1) [OF r] ctx' by (auto simp: emits_def)
qed

lemma emit_with_retention_Err:
  "emit_with_retention em rt rc ctx payload chain = (Err e, chain') \<Longrightarrow> chain' = chain"
  by (auto simp: emit_with_retention_def Let_def dest!: append_signed_Err split: prod.splits sum.splits)

lemma emit_Ok: "emit em rt ctx payload chain = (Ok ctx', chain') \<Longrightarrow> emits em rt ctx chain ctx' chain'"
  unfolding emit_def by (rule emit_with_retention_Ok)

lemma emit_with_retention_keeps:
  assumes "key_pair (em_lib em) (em_key em) vk"
  shows "rt_keeps (chain_ok em vk) (emit_with_retention em rt rc ctx payload)"
  unfolding rt_keeps_def
proof (intro allI impI)
  fix chain assume "chain_ok em vk chain"
  then show "chain_ok em vk (snd (emit_with_retention em rt rc ctx payload chain))"
    using append_signed_chain_ok [OF assms, of chain]
    by (auto simp: emit_with_retention_def Let_def split: prod.splits sum.splits)
      (metis snd_conv)+
qed

end
