(* ===== verification/Runtime_Pipeline.thy ===== *)
theory Runtime_Pipeline
  imports Runtime_Queue Runtime_Approval Runtime_Adapters Runtime_Evidence Policy_Kernel
begin

text \<open>
  The action pipeline, \<open>pipeline.rs\<close>: one definition per step, with and without engines, and the
  drivers that chain them. What the steps share and change (queue, kernel, receipt chain, approval
  sink, the policy slots of the runtime context, the counters) is the record \<open>engines\<close>; what they
  only read (registry, hooks, clocks, digests) is the record \<open>pipeline_env\<close>. A step is a fallible
  transformer of the engines; an engine that is not wired is \<open>None\<close>.
\<close>

section \<open>Engines and environment\<close>

record 'c engines =
  en_queue :: "dispatch_queue option"
  en_kernel :: "'c policy_kernel option"
  en_chain :: "evidence_receipt list"
  en_sink :: "approval_sink option"
  policy_constraints :: "constraints option"
  policy_approval :: "approval_requirement option"
  policy_double_check_warnings :: u64
  operator_alerts :: u64

record sandbox_profile_summary =
  profile_id :: string
  isolation_kind :: string
  network_posture :: string
  gpu_capability_class :: string

text \<open>
  The context of a call. Its two policy slots are mutable; the record holds their values when the
  call starts, the engines their current values.
\<close>

record runtime_context =
  rc_subject :: hydrated_subject
  rc_bundle_version :: string
  rc_code_version :: string
  rc_constraints :: "constraints option"
  rc_approval :: "approval_requirement option"

text \<open>
  The hooks are functions of what the code passes them. \<open>pe_request_hash\<close> is the JCS text of the
  request and \<open>pe_hex\<close> the BLAKE3 hex digest of a text; \<open>pe_enroll_clock\<close> the two readings of the
  monotonic clock when an action is enrolled.
\<close>

record ('c, 'rk) pipeline_env =
  pe_cache :: "'c cache_ops"
  pe_kernel_env :: kernel_env
  pe_show_policy :: "policy_error \<Rightarrow> string"
  pe_enroll_clock :: "instant \<times> instant"
  pe_sink_clock :: instant
  pe_jcs :: "json \<Rightarrow> (canonical_error, string) result"
  pe_hex :: "string \<Rightarrow> string"
  pe_request_ulid :: string
  pe_debug_str :: "string \<Rightarrow> string"
  pe_summary_json :: "sandbox_profile_summary \<Rightarrow> string option"
  pe_registry :: "'rk adapter_registry option"
  pe_context :: "runtime_context option"
  pe_verification :: "(string \<Rightarrow> string \<Rightarrow> (string, bool) result) option"
  pe_recovery :: "bool option"
  pe_provenance :: "(action_envelope \<Rightarrow> (string, unit) result) option"
  pe_sandbox :: "(string \<Rightarrow> string \<Rightarrow> bool \<Rightarrow> bool \<Rightarrow> (string, sandbox_profile_summary) result) option"

datatype step_state = StepContinue action_context | StepShortCircuit action_context

fun into_context :: "step_state \<Rightarrow> action_context" where
  "into_context (StepContinue c) = c"
| "into_context (StepShortCircuit c) = c"

text \<open>The drivers' \<open>match\<close>: go on with the context, or return it.\<close>

definition step_then ::
    "('s, step_state) rt \<Rightarrow> (action_context \<Rightarrow> ('s, action_context) rt) \<Rightarrow> ('s, action_context) rt" where
  "step_then m f = rt_then m (\<lambda>s. case s of StepContinue c \<Rightarrow> f c | StepShortCircuit c \<Rightarrow> rt_return c)"

definition on_chain :: "(evidence_receipt list, 'a) rt \<Rightarrow> ('c engines, 'a) rt" where
  "on_chain m st = (case m (en_chain st) of (r, chain) \<Rightarrow> (r, st\<lparr>en_chain := chain\<rparr>))"

definition transition_to_state ::
    "action_context \<Rightarrow> action_lifecycle_state \<Rightarrow> instant \<Rightarrow> ('s, action_context) rt" where
  "transition_to_state ctx to now = rt_lift (apply_transition ctx to now)"

text \<open>The recurring end of a failing step: \<open>Failed\<close>, with a reason, and stop.\<close>

definition fail_step ::
    "action_context \<Rightarrow> execution_failure_reason \<Rightarrow> instant \<Rightarrow> ('s, step_state) rt" where
  "fail_step ctx why now =
     rt_then (transition_to_state ctx ActionFailed now) (\<lambda>ctx.
       rt_return (StepShortCircuit (ctx\<lparr>ac_error := Some why\<rparr>)))"

section \<open>Helpers of the pipeline\<close>

definition verification_intent_json :: "action_envelope \<Rightarrow> string option" where
  "verification_intent_json env =
     (case Option.bind (json_get (target (env_request env)) ''verification_intent'') as_str of
        None \<Rightarrow> None | Some intent \<Rightarrow> if trim intent = [] then None else Some intent)"

definition recovery_only_action_kind :: "string \<Rightarrow> bool" where
  "recovery_only_action_kind kind \<longleftrightarrow>
     kind \<in> {''hardware.accept_drift_substrate'', ''network.resolver.set_allowlist'',
             ''recovery.firstboot.reset''}"

definition adapter_requires_recovery :: "adapter_manifest \<Rightarrow> string \<Rightarrow> bool" where
  "adapter_requires_recovery m kind \<longleftrightarrow>
     list_ex (\<lambda>d. action_kind d = kind \<and> recovery_only_action_kind (action_kind d)) (declared_actions m)"

definition canonical_request_hash :: "('c, 'rk) pipeline_env \<Rightarrow> action_envelope \<Rightarrow> string" where
  "canonical_request_hash pe env =
     (case pe_jcs pe (request_json (env_request env)) of
        Inl _ \<Rightarrow> [] | Inr s \<Rightarrow> blake3_truncated (pe_hex pe) s)"

section \<open>Step 1: validate\<close>

definition step_validate :: "action_envelope \<Rightarrow> action_context \<Rightarrow> instant \<Rightarrow> ('s, step_state) rt" where
  "step_validate env ctx now =
     (if trim (action (env_request env)) = [] \<or> trim (subject_canonical_id (env_identity env)) = []
      then fail_step ctx EnvelopeValidationFailed now
      else rt_then (transition_to_state ctx PolicyPending now) (\<lambda>ctx. rt_return (StepContinue ctx)))"

definition provenance_refused ::
    "(action_envelope \<Rightarrow> (string, unit) result) option \<Rightarrow> action_envelope \<Rightarrow> bool" where
  "provenance_refused provenance env \<longleftrightarrow>
     ident_is_ai (env_identity env) \<and>
     (case provenance of None \<Rightarrow> False
      | Some hook \<Rightarrow> (case hook env of Inl _ \<Rightarrow> True | Inr _ \<Rightarrow> False))"

definition step_validate_with_provenance ::
    "('c, 'rk) pipeline_env \<Rightarrow> action_envelope \<Rightarrow> action_context \<Rightarrow> instant \<Rightarrow> ('s, step_state) rt" where
  "step_validate_with_provenance pe env ctx now =
     (if provenance_refused (pe_provenance pe) env then fail_step ctx AdapterRefused now
      else step_validate env ctx now)"

definition note_sandbox_profile ::
    "('c, 'rk) pipeline_env \<Rightarrow> action_envelope \<Rightarrow> bool \<Rightarrow> action_context \<Rightarrow> action_context" where
  "note_sandbox_profile pe env in_recovery ctx =
     (case pe_sandbox pe of
        None \<Rightarrow> ctx
      | Some compose \<Rightarrow>
          (case compose (action (env_request env)) (subject_canonical_id (env_identity env))
                  (ident_is_ai (env_identity env)) in_recovery of
             Inl _ \<Rightarrow> ctx
           | Inr summary \<Rightarrow>
               (case pe_summary_json pe summary of
                  None \<Rightarrow> ctx
                | Some j \<Rightarrow> ctx\<lparr>evidence_chain := evidence_chain ctx @ [''sandbox_profile:'' @ j]\<rparr>)))"

definition step_validate_with_provenance_and_sandbox ::
    "('c, 'rk) pipeline_env \<Rightarrow> action_envelope \<Rightarrow> action_context \<Rightarrow> instant \<Rightarrow> bool \<Rightarrow> ('s, step_state) rt" where
  "step_validate_with_provenance_and_sandbox pe env ctx now in_recovery =
     (if provenance_refused (pe_provenance pe) env then fail_step ctx AdapterRefused now
      else step_validate env (note_sandbox_profile pe env in_recovery ctx) now)"

section \<open>Step 2: policy\<close>

definition step_policy_evaluate :: "action_envelope \<Rightarrow> action_context \<Rightarrow> instant \<Rightarrow> ('s, step_state) rt" where
  "step_policy_evaluate env ctx now =
     rt_then (transition_to_state ctx Approved now) (\<lambda>ctx. rt_return (StepContinue ctx))"

definition install_policy ::
    "constraints option \<Rightarrow> approval_requirement option \<Rightarrow> 'c engines \<Rightarrow> 'c engines" where
  "install_policy c a st = st\<lparr>policy_constraints := c, policy_approval := a\<rparr>"

definition enrichment_snapshot_default :: enrichment_snapshot where
  "enrichment_snapshot_default =
     \<lparr>snapshot_id = [], object = object_enrichment_default, adapter = adapter_enrichment_default\<rparr>"

definition requires_human :: "approval_requirement \<Rightarrow> bool" where
  "requires_human a \<longleftrightarrow> list_ex (\<lambda>c. c = ApHuman \<or> c = ApOperator) (approver_classes a)"

text \<open>What a decision of the kernel does to the context, the policy slots and the tripwire.\<close>

definition apply_decision ::
    "runtime_context \<Rightarrow> policy_decision \<Rightarrow> action_context \<Rightarrow> instant \<Rightarrow> ('c engines, step_state) rt" where
  "apply_decision rc d ctx now =
     (case decision d of
        Allow \<Rightarrow>
          rt_then (transition_to_state ctx Approved now) (\<lambda>ctx st.
            let st = install_policy (Some (pd_constraints d)) (Some (approval d)) st;
                st = (if is_ai (rc_subject rc) \<and> \<not> requires_human (approval d)
                      then st\<lparr>policy_double_check_warnings := policy_double_check_warnings st + 1\<rparr> else st)
            in (Ok (StepContinue ctx), st))
      | RequireApproval \<Rightarrow>
          rt_then (transition_to_state ctx ApprovalPending now) (\<lambda>ctx st.
            (Ok (StepShortCircuit ctx), install_policy (Some (pd_constraints d)) (Some (approval d)) st))
      | Deny \<Rightarrow>
          rt_then (transition_to_state ctx PolicyDenied now) (\<lambda>ctx st.
            (Ok (StepShortCircuit ctx), install_policy None None st))
      | Unspecified \<Rightarrow>
          rt_lift (Err (PolicyEvalFailed
            (''kernel returned Decision::Unspecified (S2.3 '' @ [CHR 0xC2, CHR 0xA7] @ ''4 invariant violated)''))))"

text \<open>The errors of the kernel: an unknown subject is a denial, anything else an error.\<close>

definition policy_error_step ::
    "('c, 'rk) pipeline_env \<Rightarrow> policy_error \<Rightarrow> action_context \<Rightarrow> instant \<Rightarrow> ('c engines, step_state) rt" where
  "policy_error_step pe e ctx now =
     (if e = SubjectUnauthenticated
      then rt_then (transition_to_state ctx PolicyDenied now) (\<lambda>ctx st.
             (Ok (StepShortCircuit (ctx\<lparr>ac_error := Some EnvelopeValidationFailed\<rparr>)), install_policy None None st))
      else rt_lift (Err (PolicyEvalFailed (pe_show_policy pe e))))"

definition ask_kernel ::
    "('c, 'rk) pipeline_env \<Rightarrow> action_envelope \<Rightarrow> runtime_context \<Rightarrow> 'c policy_kernel \<Rightarrow>
     (policy_error, policy_decision) result \<times> 'c policy_kernel" where
  "ask_kernel pe env rc k =
     evaluate_policy (pe_cache pe) (pe_kernel_env pe) env
       (context_new (rc_subject rc) enrichment_snapshot_default (rc_bundle_version rc) (rc_code_version rc)) k"

definition step_policy_evaluate_with_kernel ::
    "('c, 'rk) pipeline_env \<Rightarrow> action_envelope \<Rightarrow> action_context \<Rightarrow> instant \<Rightarrow> ('c engines, step_state) rt" where
  "step_policy_evaluate_with_kernel pe env ctx now st =
     (case (en_kernel st, pe_context pe) of
        (Some k, Some rc) \<Rightarrow>
          (case ask_kernel pe env rc k of
             (Inr d, k') \<Rightarrow> apply_decision rc d ctx now (st\<lparr>en_kernel := Some k'\<rparr>)
           | (Inl e, k') \<Rightarrow> policy_error_step pe e ctx now (st\<lparr>en_kernel := Some k'\<rparr>))
      | _ \<Rightarrow> step_policy_evaluate env ctx now st)"

definition step_policy_evaluate_with_kernel_and_emit ::
    "('sk, 'vk) emit_env \<Rightarrow> ('c, 'rk) pipeline_env \<Rightarrow> action_envelope \<Rightarrow> action_context \<Rightarrow> instant \<Rightarrow>
     ('c engines, step_state) rt" where
  "step_policy_evaluate_with_kernel_and_emit em pe env ctx now st =
     (case (en_kernel st, pe_context pe) of
        (Some k, Some rc) \<Rightarrow>
          (case ask_kernel pe env rc k of
             (Inr d, k') \<Rightarrow>
               rt_then (apply_decision rc d ctx now) (\<lambda>state.
                 rt_then (on_chain (emit_policy_decision em (into_context state) d)) (\<lambda>ctx.
                   rt_return (if decision d = Allow then StepContinue ctx else StepShortCircuit ctx)))
                 (st\<lparr>en_kernel := Some k'\<rparr>)
           | (Inl e, k') \<Rightarrow> policy_error_step pe e ctx now (st\<lparr>en_kernel := Some k'\<rparr>))
      | _ \<Rightarrow> step_policy_evaluate env ctx now st)"

section \<open>Step 3: approval\<close>

definition step_request_approval_passthrough ::
    "action_envelope \<Rightarrow> action_context \<Rightarrow> instant \<Rightarrow> ('s, step_state) rt" where
  "step_request_approval_passthrough env ctx now = rt_return (StepContinue ctx)"

definition default_approval_requirement :: approval_requirement where
  "default_approval_requirement =
     \<lparr>required = True, approval_scope = ExactRequestHash, ar_ttl_seconds = 300,
      approver_classes = [ApHuman], require_human_co_signer = False\<rparr>"

definition step_request_approval ::
    "('sk, 'vk) emit_env option \<Rightarrow> ('c, 'rk) pipeline_env \<Rightarrow> action_envelope \<Rightarrow> action_context \<Rightarrow>
     approval_requirement option \<Rightarrow> ('c engines, step_state) rt" where
  "step_request_approval em pe env ctx wanted st =
     (if status ctx \<noteq> ApprovalPending then (Ok (StepContinue ctx), st)
      else case en_sink st of
        None \<Rightarrow> (Ok (StepShortCircuit ctx), st)
      | Some sink \<Rightarrow>
          let req = (case wanted of None \<Rightarrow> default_approval_requirement | Some r \<Rightarrow> r);
              rid = id_new ActionRuntimeRequestId (pe_request_ulid pe);
              subj = subject_canonical_id (env_identity env);
              ai = ident_is_ai (env_identity env);
              request = \<lparr>aq_request_id = rid, aq_action_id = ac_action_id ctx, requirement = req,
                         proposing_subject_id = subj, proposing_subject_is_ai = ai,
                         aq_bound_hash = canonical_request_hash pe env,
                         requested_at = last_updated_at ctx\<rparr>;
              st = st\<lparr>en_sink := Some (submit_request request sink)\<rparr>
          in (case em of
                None \<Rightarrow> (Ok (StepShortCircuit ctx), st)
              | Some em \<Rightarrow>
                  rt_then (on_chain (emit_approval_requested em ctx rid subj ai (ar_ttl_seconds req)
                    (require_human_co_signer req))) (\<lambda>ctx. rt_return (StepShortCircuit ctx)) st))"

text \<open>A refused binding: record the denial when evidence is wired, then fail.\<close>

definition refuse_binding ::
    "('sk, 'vk) emit_env option \<Rightarrow> action_context \<Rightarrow> approval_binding \<Rightarrow> string \<Rightarrow> string \<Rightarrow> runtime_error \<Rightarrow>
     ('c engines, step_state) rt" where
  "refuse_binding em ctx b code message e =
     (case em of
        None \<Rightarrow> rt_lift (Err e)
      | Some em \<Rightarrow>
          rt_then (on_chain (emit_approval_denied em ctx (Some (ab_request_id b)) (Some (binding_id b)) code message))
            (\<lambda>_. rt_lift (Err e)))"

definition class_matches :: "approval_requirement option \<Rightarrow> approver_class \<Rightarrow> bool" where
  "class_matches wanted cls \<longleftrightarrow>
     (case wanted of
        Some req \<Rightarrow> if approver_classes req \<noteq> [] then cls \<in> set (approver_classes req) else cls \<noteq> ApAgent
      | None \<Rightarrow> cls \<noteq> ApAgent)"

definition step_consume_binding ::
    "('sk, 'vk) emit_env option \<Rightarrow> ('c, 'rk) pipeline_env \<Rightarrow> action_envelope \<Rightarrow> action_context \<Rightarrow> instant \<Rightarrow>
     approval_sink \<Rightarrow> string \<Rightarrow> approval_requirement option \<Rightarrow> ('c engines, step_state) rt" where
  "step_consume_binding em pe env ctx now sink bid wanted st =
     (if status ctx \<noteq> ApprovalPending then (Err (InvalidTransition (status ctx) Approved), st)
      else case consume_binding (pe_sink_clock pe) bid sink of
        (Inl e, sink') \<Rightarrow> (Err e, st\<lparr>en_sink := Some sink'\<rparr>)
      | (Inr b, sink') \<Rightarrow>
          let st = st\<lparr>en_sink := Some sink'\<rparr> in
          if bound_action_canonical_hash b \<noteq> [] \<and> canonical_request_hash pe env \<noteq> bound_action_canonical_hash b
          then refuse_binding em ctx b ''ACTION_REVISED''
                 ''binding voided: action canonical hash changed between grant and execute''
                 (ApprovalBindingInvalid (''binding '' @ bid @ '' bound to a different canonical hash'')) st
          else if ident_is_ai (env_identity env) \<and> granted_by b = subject_canonical_id (env_identity env)
          then refuse_binding em ctx b ''AI_SELF_APPROVAL_BLOCKED''
                 ''AI subject cannot approve its own action (INV-002 defense-in-depth)''
                 ApprovalApproverClassMismatch st
          else if \<not> class_matches wanted (granted_by_class b)
          then refuse_binding em ctx b ''APPROVER_CLASS_MISMATCH''
                 ''binding granted_by_class is not in the policy's required approver classes''
                 ApprovalApproverClassMismatch st
          else rt_then (transition_to_state ctx Approved now) (\<lambda>ctx.
                 case em of
                   None \<Rightarrow> rt_return (StepContinue ctx)
                 | Some em \<Rightarrow>
                     rt_then (on_chain (emit_approval_granted em ctx (ab_request_id b) (binding_id b)
                       (granted_by b) (bound_action_canonical_hash b))) (\<lambda>ctx. rt_return (StepContinue ctx))) st)"

section \<open>Step 4: queue\<close>

definition step_queue :: "action_envelope \<Rightarrow> action_context \<Rightarrow> instant \<Rightarrow> ('s, step_state) rt" where
  "step_queue env ctx now =
     rt_then (transition_to_state ctx Queued now) (\<lambda>ctx. rt_return (StepContinue ctx))"

definition step_queue_with_engine ::
    "('c, 'rk) pipeline_env \<Rightarrow> action_envelope \<Rightarrow> action_context \<Rightarrow> instant \<Rightarrow> ('c engines, step_state) rt" where
  "step_queue_with_engine pe env ctx now st =
     (case en_queue st of
        None \<Rightarrow> step_queue env ctx now st
      | Some q \<Rightarrow>
          rt_then (transition_to_state (ctx\<lparr>queue_class := select_queue_class env False\<rparr>) Queued now) (\<lambda>ctx st.
            case enroll (pe_enroll_clock pe) (subject_canonical_id (env_identity env)) ctx q of
              (Inr stored, q') \<Rightarrow> (Ok (StepContinue stored), st\<lparr>en_queue := Some q'\<rparr>)
            | (Inl (QueueFull _), q') \<Rightarrow> fail_step ctx ResourceBudgetExceeded now (st\<lparr>en_queue := Some q'\<rparr>)
            | (Inl (RateLimited _), q') \<Rightarrow> fail_step ctx ResourceBudgetExceeded now (st\<lparr>en_queue := Some q'\<rparr>)
            | (Inl other, q') \<Rightarrow> (Err other, st\<lparr>en_queue := Some q'\<rparr>)) st)"

definition step_queue_with_engine_and_emit ::
    "('sk, 'vk) emit_env \<Rightarrow> ('c, 'rk) pipeline_env \<Rightarrow> action_envelope \<Rightarrow> action_context \<Rightarrow> instant \<Rightarrow>
     ('c engines, step_state) rt" where
  "step_queue_with_engine_and_emit em pe env ctx now =
     (let downgrade_marker = apply_ai_interactive_downgrade ctx (ident_is_ai (env_identity env))
      in rt_then (step_queue_with_engine pe env ctx now) (\<lambda>state.
           case state of
             StepContinue c \<Rightarrow>
               rt_then (on_chain (emit_action_queued em env c (queue_class c))) (\<lambda>c.
                 if downgrade_marker \<noteq> None
                 then rt_then (on_chain (emit_ai_interactive_queue_downgrade em env c)) (\<lambda>c.
                        rt_return (StepContinue c))
                 else rt_return (StepContinue c))
           | StepShortCircuit c \<Rightarrow> rt_return (StepShortCircuit c)))"

section \<open>Step 5: execute\<close>

definition step_execute ::
    "bool \<Rightarrow> 'rk adapter_registry option \<Rightarrow> action_envelope \<Rightarrow> action_context \<Rightarrow> instant \<Rightarrow> ('s, step_state) rt" where
  "step_execute locked registry env ctx now =
     (if (case registry of None \<Rightarrow> False
          | Some reg \<Rightarrow> adapter_lookup locked (action (env_request env)) reg = None)
      then fail_step ctx DependencyUnready now
      else rt_then (transition_to_state ctx Executing now) (\<lambda>ctx. rt_return (StepContinue ctx)))"

definition chosen_dispatch_kind :: "adapter_manifest \<Rightarrow> action_envelope \<Rightarrow> action_dispatch_kind" where
  "chosen_dispatch_kind m env =
     compute_dispatch_kind (m_dispatch_kind m)
       \<lparr>in_is_simulate = (dry_run (env_request env) = Simulate), in_is_ai = ident_is_ai (env_identity env),
        in_risk_privileged = False, in_manifest_stable = True\<rparr>"

definition step_execute_with_engines ::
    "('c, 'rk) pipeline_env \<Rightarrow> bool option \<Rightarrow> action_envelope \<Rightarrow> action_context \<Rightarrow> instant \<Rightarrow>
     ('s, step_state) rt" where
  "step_execute_with_engines pe recovery env ctx now =
     (let execute = (\<lambda>ctx. rt_then (transition_to_state ctx Executing now) (\<lambda>ctx. rt_return (StepContinue ctx)))
      in case pe_registry pe of
           None \<Rightarrow> execute ctx
         | Some reg \<Rightarrow>
             (case lookup_for_target (action (env_request env)) reg of
                None \<Rightarrow> fail_step ctx DependencyUnready now
              | Some r \<Rightarrow>
                  if adapter_requires_recovery (ra_manifest r) (action (env_request env)) \<and> recovery = Some False
                  then fail_step ctx AdapterRefused now
                  else execute (ctx\<lparr>dispatch_kind := chosen_dispatch_kind (ra_manifest r) env\<rparr>)))"

definition step_execute_with_engines_and_emit ::
    "('sk, 'vk) emit_env \<Rightarrow> ('c, 'rk) pipeline_env \<Rightarrow> bool option \<Rightarrow> action_envelope \<Rightarrow> action_context \<Rightarrow>
     instant \<Rightarrow> ('c engines, step_state) rt" where
  "step_execute_with_engines_and_emit em pe recovery env ctx now =
     (let routed = (case pe_registry pe of
                      None \<Rightarrow> None
                    | Some reg \<Rightarrow> map_option (\<lambda>_. action (env_request env))
                                   (lookup_for_target (action (env_request env)) reg))
      in rt_then (step_execute_with_engines pe recovery env ctx now) (\<lambda>state.
           case state of
             StepContinue c \<Rightarrow>
               rt_then (case routed of
                          None \<Rightarrow> rt_return c
                        | Some kind \<Rightarrow> on_chain (emit_routing_decision em env c kind (dispatch_kind c))) (\<lambda>c.
                 rt_then (on_chain (emit_execution_started em c)) (\<lambda>c. rt_return (StepContinue c)))
           | StepShortCircuit c \<Rightarrow> rt_return (StepShortCircuit c)))"

section \<open>Step 6: verify\<close>

definition step_verify :: "action_envelope \<Rightarrow> action_context \<Rightarrow> instant \<Rightarrow> ('s, step_state) rt" where
  "step_verify env ctx now =
     rt_then (transition_to_state ctx Verifying now) (\<lambda>ctx.
     rt_then (transition_to_state ctx ActionSucceeded now) (\<lambda>ctx. rt_return (StepShortCircuit ctx)))"

definition step_verify_with_engine ::
    "('c, 'rk) pipeline_env \<Rightarrow> action_envelope \<Rightarrow> action_context \<Rightarrow> instant \<Rightarrow> ('s, step_state) rt" where
  "step_verify_with_engine pe env ctx now =
     (case (pe_verification pe, verification_intent_json env) of
        (Some verify, Some intent) \<Rightarrow>
          rt_then (transition_to_state ctx Verifying now) (\<lambda>ctx.
            let passed = (case verify intent (ac_action_id ctx) of Inl _ \<Rightarrow> False | Inr b \<Rightarrow> b)
            in if passed
               then rt_then (transition_to_state ctx ActionSucceeded now) (\<lambda>ctx. rt_return (StepShortCircuit ctx))
               else rt_then (transition_to_state ctx ActionFailed now) (\<lambda>ctx.
                      rt_return (StepContinue (ctx\<lparr>ac_error := Some AdapterRefused\<rparr>))))
      | _ \<Rightarrow> step_verify env ctx now)"

definition step_verify_with_engine_and_emit ::
    "('sk, 'vk) emit_env \<Rightarrow> ('c, 'rk) pipeline_env \<Rightarrow> action_envelope \<Rightarrow> action_context \<Rightarrow> instant \<Rightarrow>
     ('c engines, step_state) rt" where
  "step_verify_with_engine_and_emit em pe env ctx now =
     rt_then (on_chain (emit_execution_completed em ctx ''ADAPTER_OK'')) (\<lambda>ctx.
     rt_then (step_verify_with_engine pe env ctx now) (\<lambda>state.
       let c = into_context state; passed = (status c = ActionSucceeded)
       in rt_then (on_chain (emit_verification_result em c passed)) (\<lambda>c.
            rt_return (if passed then StepShortCircuit c else StepContinue c))))"

definition step_verify_and_emit ::
    "('sk, 'vk) emit_env \<Rightarrow> ('c, 'rk) pipeline_env \<Rightarrow> action_envelope \<Rightarrow> action_context \<Rightarrow> instant \<Rightarrow>
     ('c engines, step_state) rt" where
  "step_verify_and_emit em pe env ctx now =
     step_verify_with_engine_and_emit em (pe\<lparr>pe_verification := None\<rparr>) env ctx now"

definition step_verify_inject_failure_and_emit ::
    "('sk, 'vk) emit_env \<Rightarrow> ('c, 'rk) pipeline_env \<Rightarrow> rollback_driver option \<Rightarrow> action_envelope \<Rightarrow>
     action_context \<Rightarrow> instant \<Rightarrow> ('c engines, step_state) rt" where
  "step_verify_inject_failure_and_emit em pe driver env ctx now =
     (if (case driver of None \<Rightarrow> True | Some d \<Rightarrow> \<not> inject_verify_failure d)
      then step_verify_with_engine_and_emit em pe env ctx now
      else
        rt_then (on_chain (emit_execution_completed em ctx ''ADAPTER_OK'')) (\<lambda>ctx.
        rt_then (transition_to_state ctx Verifying now) (\<lambda>ctx.
        rt_then (transition_to_state ctx ActionFailed now) (\<lambda>ctx.
        rt_then (on_chain (emit_verification_result em (ctx\<lparr>ac_error := Some AdapterRefused\<rparr>) False)) (\<lambda>ctx.
          rt_return (StepContinue ctx))))))"

section \<open>Step 7: rollback\<close>

definition step_rollback :: "action_envelope \<Rightarrow> action_context \<Rightarrow> instant \<Rightarrow> ('s, step_state) rt" where
  "step_rollback env ctx now = rt_return (StepContinue ctx)"

definition declared_strategy ::
    "('c, 'rk) pipeline_env \<Rightarrow> adapter_manifest \<Rightarrow> string \<Rightarrow> (runtime_error, rollback_strategy) result" where
  "declared_strategy pe m kind =
     (case find (\<lambda>d. action_kind d = kind) (declared_actions m) of
        None \<Rightarrow> Ok StrategyUnspecified
      | Some d \<Rightarrow> parse_manifest_value (pe_debug_str pe) (rollback_strategy d))"

definition step_rollback_with_driver ::
    "('c, 'rk) pipeline_env \<Rightarrow> rollback_driver option \<Rightarrow> action_envelope \<Rightarrow> action_context \<Rightarrow> instant \<Rightarrow>
     ('c engines, step_state \<times> rollback_outcome option) rt" where
  "step_rollback_with_driver pe driver env ctx now =
     (case driver of
        None \<Rightarrow> rt_return (StepContinue ctx, None)
      | Some d \<Rightarrow>
          if status ctx \<noteq> ActionFailed then rt_return (StepContinue ctx, None)
          else (case pe_registry pe of
            None \<Rightarrow> rt_return (StepShortCircuit ctx, None)
          | Some reg \<Rightarrow>
              (case lookup_for_target (action (env_request env)) reg of
                 None \<Rightarrow> rt_return (StepShortCircuit ctx, None)
               | Some r \<Rightarrow>
                   rt_then (rt_lift (declared_strategy pe (ra_manifest r) (action (env_request env)))) (\<lambda>strategy.
                     let outcome = run_rollback d strategy;
                         ctx = ctx\<lparr>rollback_outcome := Some outcome\<rparr>
                     in case outcome of
                          OutcomeSucceeded \<Rightarrow>
                            rt_then (transition_to_state ctx (classify_terminal outcome) now) (\<lambda>ctx.
                              rt_return (StepShortCircuit ctx, Some outcome))
                        | OutcomeFailed \<Rightarrow>
                            rt_then (transition_to_state ctx (classify_terminal outcome) now) (\<lambda>ctx st.
                              (Ok (StepShortCircuit ctx, Some outcome),
                               st\<lparr>operator_alerts := operator_alerts st + 1\<rparr>))
                        | _ \<Rightarrow> rt_return (StepShortCircuit ctx, Some outcome)))))"

definition step_rollback_with_driver_and_emit ::
    "('sk, 'vk) emit_env \<Rightarrow> ('c, 'rk) pipeline_env \<Rightarrow> rollback_driver option \<Rightarrow> action_envelope \<Rightarrow>
     action_context \<Rightarrow> instant \<Rightarrow> ('c engines, step_state) rt" where
  "step_rollback_with_driver_and_emit em pe driver env ctx now =
     rt_then (step_rollback_with_driver pe driver env ctx now) (\<lambda>(state, outcome).
       case outcome of
         None \<Rightarrow> rt_return state
       | Some outcome \<Rightarrow>
           let c = into_context state
           in rt_then (on_chain (emit_rollback_completed em c outcome (ac_error c))) (\<lambda>c.
                rt_return (StepShortCircuit c)))"

section \<open>Step 8 and the drivers\<close>

definition step_emit_evidence :: "action_envelope \<Rightarrow> action_context \<Rightarrow> instant \<Rightarrow> ('s, step_state) rt" where
  "step_emit_evidence env ctx now = rt_return (StepContinue ctx)"

text \<open>The common end of the drivers: the last step runs on either state of the rollback step.\<close>

definition finish_with ::
    "action_envelope \<Rightarrow> instant \<Rightarrow> ('s, step_state) rt \<Rightarrow> ('s, action_context) rt" where
  "finish_with env now rollback =
     rt_then rollback (\<lambda>state.
     rt_then (step_emit_evidence env (into_context state) now) (\<lambda>state. rt_return (into_context state)))"

definition run_with_registry ::
    "bool \<Rightarrow> 'rk adapter_registry option \<Rightarrow> action_envelope \<Rightarrow> action_context \<Rightarrow> instant \<Rightarrow>
     ('s, action_context) rt" where
  "run_with_registry locked registry env ctx now =
     step_then (step_validate env ctx now) (\<lambda>c.
     step_then (step_policy_evaluate env c now) (\<lambda>c.
     step_then (step_request_approval_passthrough env c now) (\<lambda>c.
     step_then (step_queue env c now) (\<lambda>c.
     step_then (step_execute locked registry env c now) (\<lambda>c.
     step_then (step_verify env c now) (\<lambda>c.
       finish_with env now (step_rollback env c now)))))))"

definition run :: "action_envelope \<Rightarrow> action_context \<Rightarrow> instant \<Rightarrow> ('s, action_context) rt" where
  "run env ctx now = run_with_registry False (None :: unit adapter_registry option) env ctx now"

definition run_with_engines ::
    "('c, 'rk) pipeline_env \<Rightarrow> action_envelope \<Rightarrow> action_context \<Rightarrow> instant \<Rightarrow> ('c engines, action_context) rt" where
  "run_with_engines pe env ctx now =
     step_then (step_validate env ctx now) (\<lambda>c.
     step_then (step_policy_evaluate env c now) (\<lambda>c.
     step_then (step_request_approval_passthrough env c now) (\<lambda>c.
     step_then (step_queue_with_engine pe env c now) (\<lambda>c.
     step_then (step_execute_with_engines pe None env c now) (\<lambda>c.
     step_then (step_verify env c now) (\<lambda>c.
       finish_with env now (step_rollback env c now)))))))"

definition in_recovery_mode :: "('c, 'rk) pipeline_env \<Rightarrow> bool" where
  "in_recovery_mode pe = (case pe_context pe of None \<Rightarrow> False | Some rc \<Rightarrow> recovery_mode (rc_subject rc))"

definition run_with_full_engines ::
    "('c, 'rk) pipeline_env \<Rightarrow> action_envelope \<Rightarrow> action_context \<Rightarrow> instant \<Rightarrow> ('c engines, action_context) rt" where
  "run_with_full_engines pe env ctx now =
     step_then (step_validate_with_provenance_and_sandbox pe env ctx now (in_recovery_mode pe)) (\<lambda>c.
     step_then (step_policy_evaluate_with_kernel pe env c now) (\<lambda>c.
     step_then (step_request_approval_passthrough env c now) (\<lambda>c.
     step_then (step_queue_with_engine pe env c now) (\<lambda>c.
     step_then (step_execute_with_engines pe (pe_recovery pe) env c now) (\<lambda>c.
     step_then (step_verify_with_engine pe env c now) (\<lambda>c.
       finish_with env now (step_rollback env c now)))))))"

definition receive_action ::
    "('sk, 'vk) emit_env \<Rightarrow> ('c, 'rk) pipeline_env \<Rightarrow> action_envelope \<Rightarrow> action_context \<Rightarrow> instant \<Rightarrow>
     ('c engines, step_state) rt" where
  "receive_action em pe env ctx now =
     rt_then (step_validate_with_provenance_and_sandbox pe env ctx now (in_recovery_mode pe)) (\<lambda>state.
       case state of
         StepContinue c \<Rightarrow>
           rt_then (on_chain (emit_action_received em env c)) (\<lambda>c. rt_return (StepContinue c))
       | StepShortCircuit c \<Rightarrow> rt_return (StepShortCircuit c))"

definition run_with_full_engines_and_evidence ::
    "('sk, 'vk) emit_env \<Rightarrow> ('c, 'rk) pipeline_env \<Rightarrow> action_envelope \<Rightarrow> action_context \<Rightarrow> instant \<Rightarrow>
     ('c engines, action_context) rt" where
  "run_with_full_engines_and_evidence em pe env ctx now =
     step_then (receive_action em pe env ctx now) (\<lambda>c.
     step_then (step_policy_evaluate_with_kernel_and_emit em pe env c now) (\<lambda>c.
     step_then (step_request_approval_passthrough env c now) (\<lambda>c.
     step_then (step_queue_with_engine_and_emit em pe env c now) (\<lambda>c.
     step_then (step_execute_with_engines_and_emit em pe (pe_recovery pe) env c now) (\<lambda>c.
     step_then (step_verify_with_engine_and_emit em pe env c now) (\<lambda>c.
       finish_with env now (step_rollback env c now)))))))"

definition run_with_full_engines_and_evidence_and_rollback ::
    "('sk, 'vk) emit_env \<Rightarrow> ('c, 'rk) pipeline_env \<Rightarrow> rollback_driver option \<Rightarrow> action_envelope \<Rightarrow>
     action_context \<Rightarrow> instant \<Rightarrow> ('c engines, action_context) rt" where
  "run_with_full_engines_and_evidence_and_rollback em pe driver env ctx now =
     step_then (receive_action em pe env ctx now) (\<lambda>c.
     step_then (step_policy_evaluate_with_kernel_and_emit em pe env c now) (\<lambda>c.
     step_then (step_request_approval_passthrough env c now) (\<lambda>c.
     step_then (step_queue_with_engine_and_emit em pe env c now) (\<lambda>c.
     step_then (step_execute_with_engines_and_emit em pe (pe_recovery pe) env c now) (\<lambda>c.
     step_then (step_verify_inject_failure_and_emit em pe driver env c now) (\<lambda>c.
       finish_with env now (step_rollback_with_driver_and_emit em pe driver env c now)))))))"

end
