(* ===== verification/Runtime_Service.thy ===== *)
theory Runtime_Service
  imports Runtime_Pipeline
begin

text \<open>
  The in-memory runtime (\<open>runtime.rs\<close>): submitting an action, its status, and resuming an action
  that waits for approval; and of the gRPC server (\<open>service/server.rs\<close>) the context it builds and
  \<open>execute_action\<close>.
\<close>

section \<open>The runtime\<close>

record 'c runtime_state =
  rs_contexts :: "(string \<times> action_context) list"
  rs_engines :: "'c engines"

text \<open>What a runtime is wired with and does not change.\<close>

record ('c, 'rk, 'sk, 'vk) runtime_wiring =
  rw_env :: "('c, 'rk) pipeline_env"
  rw_emitter :: "('sk, 'vk) emit_env option"
  rw_driver :: "rollback_driver option"

definition default_hydrated_subject :: "string \<Rightarrow> hydrated_subject" where
  "default_hydrated_subject sid =
     \<lparr>canonical_subject_id = sid, subject_type = Human, groups = [], capabilities = [],
      session_class = ''INTERNAL'', recovery_mode = False, is_ai = False\<rparr>"

definition runtime_context_new :: "string \<Rightarrow> string \<Rightarrow> string \<Rightarrow> runtime_context" where
  "runtime_context_new sid bv cv =
     \<lparr>rc_subject = default_hydrated_subject sid, rc_bundle_version = bv, rc_code_version = cv,
      rc_constraints = None, rc_approval = None\<rparr>"

definition runtime_context_from_subject :: "hydrated_subject \<Rightarrow> string \<Rightarrow> string \<Rightarrow> runtime_context" where
  "runtime_context_from_subject subj bv cv =
     \<lparr>rc_subject = subj, rc_bundle_version = bv, rc_code_version = cv,
      rc_constraints = None, rc_approval = None\<rparr>"

definition enter_context :: "runtime_context \<Rightarrow> 'c engines \<Rightarrow> 'c engines" where
  "enter_context rc st = install_policy (rc_constraints rc) (rc_approval rc) st"

text \<open>The pipeline that the wiring selects.\<close>

definition run_pipeline ::
    "('c, 'rk, 'sk, 'vk) runtime_wiring \<Rightarrow> runtime_context \<Rightarrow> action_envelope \<Rightarrow> action_context \<Rightarrow> instant \<Rightarrow>
     ('c engines, action_context) rt" where
  "run_pipeline rw rc env ctx now =
     (let pe = (rw_env rw)\<lparr>pe_context := Some rc\<rparr>
      in case rw_emitter rw of
           Some em \<Rightarrow>
             if rw_driver rw \<noteq> None
             then run_with_full_engines_and_evidence_and_rollback em pe (rw_driver rw) env ctx now
             else run_with_full_engines_and_evidence em pe env ctx now
         | None \<Rightarrow> run_with_full_engines pe env ctx now)"

definition park_for_approval ::
    "('c, 'rk, 'sk, 'vk) runtime_wiring \<Rightarrow> action_envelope \<Rightarrow> action_context \<Rightarrow> ('c engines, action_context) rt" where
  "park_for_approval rw env ctx st =
     (if status ctx = ApprovalPending \<and> en_sink st \<noteq> None
      then rt_then (step_request_approval (rw_emitter rw) (rw_env rw) env ctx (policy_approval st))
             (\<lambda>state. rt_return (into_context state)) st
      else (Ok ctx, st))"

text \<open>Store the context of an action when the engines' run succeeded.\<close>

definition store_result ::
    "string \<Rightarrow> (runtime_error, action_context) result \<times> 'c engines \<Rightarrow> 'c runtime_state \<Rightarrow>
     (runtime_error, action_context) result \<times> 'c runtime_state" where
  "store_result aid out rt =
     (case out of
        (Inl e, st) \<Rightarrow> (Err e, rt\<lparr>rs_engines := st\<rparr>)
      | (Inr ctx, st) \<Rightarrow> (Ok ctx, rt\<lparr>rs_contexts := AList.update aid ctx (rs_contexts rt), rs_engines := st\<rparr>))"

definition submit_action ::
    "('c, 'rk, 'sk, 'vk) runtime_wiring \<Rightarrow> string \<Rightarrow> instant \<Rightarrow> action_envelope \<Rightarrow> runtime_context \<Rightarrow>
     'c runtime_state \<Rightarrow> (runtime_error, action_context) result \<times> 'c runtime_state" where
  "submit_action rw ulid now env rc rt =
     (let aid = id_new ActionId ulid
      in store_result aid
           (rt_then (run_pipeline rw rc env (fresh_context aid now) now) (park_for_approval rw env)
              (enter_context rc (rs_engines rt))) rt)"

definition get_action_status :: "string \<Rightarrow> 'c runtime_state \<Rightarrow> (runtime_error, action_context) result" where
  "get_action_status aid rt =
     (case map_of (rs_contexts rt) aid of None \<Rightarrow> Err (ActionNotFound aid) | Some ctx \<Rightarrow> Ok ctx)"

text \<open>The part of \<open>resume_with_binding\<close> after the binding is consumed: queue, execute, verify.\<close>

definition continue_approved ::
    "('c, 'rk, 'sk, 'vk) runtime_wiring \<Rightarrow> action_envelope \<Rightarrow> action_context \<Rightarrow> instant \<Rightarrow>
     ('c engines, action_context) rt" where
  "continue_approved rw env ctx now =
     (let pe = rw_env rw;
          queue = (case rw_emitter rw of Some em \<Rightarrow> step_queue_with_engine_and_emit em pe env ctx now
                   | None \<Rightarrow> step_queue_with_engine pe env ctx now);
          execute = (\<lambda>ctx. case rw_emitter rw of
                       Some em \<Rightarrow> step_execute_with_engines_and_emit em pe (pe_recovery pe) env ctx now
                     | None \<Rightarrow> step_execute_with_engines pe (pe_recovery pe) env ctx now);
          verify = (\<lambda>ctx. case rw_emitter rw of
                      Some em \<Rightarrow> step_verify_with_engine_and_emit em pe env ctx now
                    | None \<Rightarrow> step_verify_with_engine pe env ctx now)
      in rt_then queue (\<lambda>state.
           let ctx = into_context state in
           if status ctx = Queued
           then rt_then (execute ctx) (\<lambda>state.
                  let ctx = into_context state in
                  if status ctx = Executing
                  then rt_then (verify ctx) (\<lambda>state. rt_return (into_context state))
                  else rt_return ctx)
           else rt_return ctx))"

definition resume_with_binding ::
    "('c, 'rk, 'sk, 'vk) runtime_wiring \<Rightarrow> instant \<Rightarrow> string \<Rightarrow> action_envelope \<Rightarrow> runtime_context \<Rightarrow> string \<Rightarrow>
     'c runtime_state \<Rightarrow> (runtime_error, action_context) result \<times> 'c runtime_state" where
  "resume_with_binding rw now aid env rc bid rt =
     (case en_sink (rs_engines rt) of
        None \<Rightarrow> (Err (runtime_error.Internal ''no approval sink wired; cannot consume binding''), rt)
      | Some sink \<Rightarrow>
          (case map_of (rs_contexts rt) aid of
             None \<Rightarrow> (Err (ActionNotFound aid), rt)
           | Some stored \<Rightarrow>
               if status stored \<noteq> ApprovalPending
               then (Err (InvalidTransition (status stored) Approved), rt)
               else store_result aid
                 (rt_then (step_consume_binding (rw_emitter rw) (rw_env rw) env stored now sink bid (rc_approval rc))
                    (\<lambda>state. continue_approved rw env (into_context state) now)
                    (enter_context rc (rs_engines rt))) rt))"

section \<open>The service\<close>

definition build_runtime_context ::
    "hydrated_subject \<Rightarrow> string \<Rightarrow> string \<Rightarrow> action_envelope \<Rightarrow> runtime_context" where
  "build_runtime_context default_subject bv cv env =
     runtime_context_from_subject
       (default_subject\<lparr>canonical_subject_id := subject_canonical_id (env_identity env),
                         is_ai := ident_is_ai (env_identity env)\<rparr>) bv cv"

text \<open>
  \<open>execute_action\<close> after the envelope is decoded; \<open>valid\<close> stands for \<open>ActionId::parse\<close>, whose failure
  is the status \<open>None\<close>.
\<close>

definition execute_action ::
    "('c, 'rk, 'sk, 'vk) runtime_wiring \<Rightarrow> hydrated_subject \<Rightarrow> string \<Rightarrow> string \<Rightarrow> ulid_from_string \<Rightarrow>
     string \<Rightarrow> instant \<Rightarrow> action_envelope \<Rightarrow> string \<Rightarrow> string \<Rightarrow> 'c runtime_state \<Rightarrow>
     (id_error + runtime_error, action_context) result \<times> 'c runtime_state" where
  "execute_action rw default_subject bv cv valid ulid now env bid rid rt =
     (let rc = build_runtime_context default_subject bv cv env;
          wrap = (\<lambda>(r, rt'). (case r of Inl e \<Rightarrow> Err (Inr e) | Inr c \<Rightarrow> Ok c, rt'))
      in if trim bid \<noteq> [] \<and> trim rid \<noteq> []
         then (case id_parse valid ActionId rid of
                 Inl e \<Rightarrow> (Err (Inl e), rt)
               | Inr aid \<Rightarrow> wrap (resume_with_binding rw now aid env rc bid rt))
         else wrap (submit_action rw ulid now env rc rt))"

end
