(* ===== verification/Runtime_Outcomes.thy ===== *)
theory Runtime_Outcomes
  imports Runtime_Service
begin

text \<open>
  What a submission does, as one reference function, and that the drivers of the pipeline compute
  it. The verdict of a submission reads the wiring and the state of the engines once; the pipeline
  reaches it through eight steps, a queue, a kernel and up to eight receipts.
\<close>

section \<open>The verdict of a submission\<close>

definition validated :: "('c, 'rk) pipeline_env \<Rightarrow> action_envelope \<Rightarrow> bool" where
  "validated pe env \<longleftrightarrow>
     trim (action (env_request env)) \<noteq> [] \<and> trim (subject_canonical_id (env_identity env)) \<noteq> [] \<and>
     \<not> provenance_refused (pe_provenance pe) env"

definition policy_verdict :: "('c, 'rk) pipeline_env \<Rightarrow> action_envelope \<Rightarrow> 'c engines \<Rightarrow> decision" where
  "policy_verdict pe env st =
     (case (en_kernel st, pe_context pe) of
        (Some k, Some rc) \<Rightarrow>
          (case fst (ask_kernel pe env rc k) of
             Inr d \<Rightarrow> decision d
           | Inl e \<Rightarrow> if e = SubjectUnauthenticated then Deny else Unspecified)
      | _ \<Rightarrow> Allow)"

definition has_room :: "('c, 'rk) pipeline_env \<Rightarrow> action_envelope \<Rightarrow> 'c engines \<Rightarrow> bool" where
  "has_room pe env st \<longleftrightarrow>
     (case en_queue st of
        None \<Rightarrow> True
      | Some q \<Rightarrow>
          fst (consume_at (Finite 1) (snd (pe_enroll_clock pe))
            (case map_of (rate_limiters q) (subject_canonical_id (env_identity env)) of
               None \<Rightarrow> default_ai_agent (fst (pe_enroll_clock pe)) | Some b \<Rightarrow> b)) \<and>
          length (lane q (select_queue_class env False)) < lane_room q (select_queue_class env False))"

definition adapter_of :: "('c, 'rk) pipeline_env \<Rightarrow> action_envelope \<Rightarrow> adapter_manifest option" where
  "adapter_of pe env =
     (case pe_registry pe of None \<Rightarrow> None
      | Some reg \<Rightarrow> map_option ra_manifest (lookup_for_target (action (env_request env)) reg))"

definition runnable :: "('c, 'rk) pipeline_env \<Rightarrow> bool option \<Rightarrow> action_envelope \<Rightarrow> bool" where
  "runnable pe recovery env \<longleftrightarrow>
     pe_registry pe = None \<or>
     (case adapter_of pe env of None \<Rightarrow> False
      | Some m \<Rightarrow> \<not> (adapter_requires_recovery m (action (env_request env)) \<and> recovery = Some False))"

definition verified :: "('c, 'rk) pipeline_env \<Rightarrow> action_envelope \<Rightarrow> string \<Rightarrow> bool" where
  "verified pe env aid \<longleftrightarrow>
     (case (pe_verification pe, verification_intent_json env) of
        (Some verify, Some intent) \<Rightarrow> verify intent aid = Ok True
      | _ \<Rightarrow> True)"

definition failure_injected :: "rollback_driver option \<Rightarrow> bool" where
  "failure_injected driver \<longleftrightarrow> (case driver of None \<Rightarrow> False | Some d \<Rightarrow> inject_verify_failure d)"

text \<open>How a failed verification ends, with the rollback driver or without.\<close>

definition rollback_verdict ::
    "('c, 'rk) pipeline_env \<Rightarrow> rollback_driver option \<Rightarrow> action_envelope \<Rightarrow> action_lifecycle_state" where
  "rollback_verdict pe driver env =
     (case (driver, adapter_of pe env) of
        (Some d, Some m) \<Rightarrow>
          (case declared_strategy pe m (action (env_request env)) of
             Inl _ \<Rightarrow> ActionFailed
           | Inr s \<Rightarrow> if run_rollback d s \<in> {OutcomeSucceeded, OutcomeFailed}
                      then classify_terminal (run_rollback d s) else ActionFailed)
      | _ \<Rightarrow> ActionFailed)"

definition verdict ::
    "('c, 'rk) pipeline_env \<Rightarrow> rollback_driver option \<Rightarrow> action_envelope \<Rightarrow> string \<Rightarrow> 'c engines \<Rightarrow>
     action_lifecycle_state" where
  "verdict pe driver env aid st =
     (if \<not> validated pe env then ActionFailed
      else case policy_verdict pe env st of
        RequireApproval \<Rightarrow> ApprovalPending
      | Allow \<Rightarrow>
          if \<not> has_room pe env st \<or> \<not> runnable pe (pe_recovery pe) env then ActionFailed
          else if verified pe env aid \<and> \<not> failure_injected driver then ActionSucceeded
          else rollback_verdict pe driver env
      | _ \<Rightarrow> PolicyDenied)"

section \<open>What each step does\<close>

lemma transition_Ok_iff [result_simps]:
  "transition_to_state ctx to now st = (Ok ctx', st') \<longleftrightarrow>
     may_transition (status ctx) to \<and> ctx' = ctx\<lparr>status := to, last_updated_at := now\<rparr> \<and> st' = st"
  by (auto simp: transition_to_state_def result_simps)

lemma fail_step_Ok_iff [result_simps]:
  "fail_step ctx why now st = (Ok s, st') \<longleftrightarrow>
     may_transition (status ctx) ActionFailed \<and> st' = st \<and>
     s = StepShortCircuit (ctx\<lparr>status := ActionFailed, last_updated_at := now, ac_error := Some why\<rparr>)"
  by (auto simp: fail_step_def result_simps)

lemma rt_case_Ok_iff:
  "rt_then m (\<lambda>s. case s of StepContinue c \<Rightarrow> f c | StepShortCircuit c \<Rightarrow> g c) st = (Ok x, st'') \<longleftrightarrow>
     (\<exists>b st'. m st = (Ok (StepContinue b), st') \<and> f b st' = (Ok x, st'')) \<or>
     (\<exists>b st'. m st = (Ok (StepShortCircuit b), st') \<and> g b st' = (Ok x, st''))"
  (is "?l \<longleftrightarrow> ?r")
proof
  assume ?l
  then obtain s st' where "m st = (Ok s, st')"
    and "(case s of StepContinue c \<Rightarrow> f c | StepShortCircuit c \<Rightarrow> g c) st' = (Ok x, st'')"
    by (auto simp: result_simps)
  then show ?r by (cases s) auto
qed auto

lemma rt_map_Ok_iff:
  "rt_then m (\<lambda>a. rt_return (f a)) st = (Ok x, st') \<longleftrightarrow> (\<exists>a. m st = (Ok a, st') \<and> x = f a)"
  by (auto simp: result_simps)

lemma step_then_Ok_iff [result_simps]:
  "step_then m f st = (Ok c, st'') \<longleftrightarrow>
     (\<exists>b st'. m st = (Ok (StepContinue b), st') \<and> f b st' = (Ok c, st'')) \<or>
     m st = (Ok (StepShortCircuit c), st'')"
  unfolding step_then_def rt_case_Ok_iff by auto

lemma note_sandbox_fields [simp]:
  "ac_action_id (note_sandbox_profile pe env r ctx) = ac_action_id ctx"
  "status (note_sandbox_profile pe env r ctx) = status ctx"
  "queue_class (note_sandbox_profile pe env r ctx) = queue_class ctx"
  by (simp_all add: note_sandbox_profile_def split: option.splits sum.splits)

text \<open>
  One emission changes the receipt chain by one receipt and the context only in its list of
  receipts; the types of the receipts that a sequence of emissions leaves are its trail.
\<close>

definition trail :: "string \<Rightarrow> string list \<Rightarrow> 'c engines \<Rightarrow> 'c engines \<Rightarrow> bool" where
  "trail aid types st st' \<longleftrightarrow>
     (\<exists>rs. en_chain st' = en_chain st @ rs \<and> map r_record_type rs = map RecordType types \<and>
        (\<forall>r \<in> set rs. r_action_id r = Some aid \<and> r_subject_canonical_id r = CAPABILITY_RUNTIME_SUBJECT))"

lemma trail_Nil [simp]: "en_chain st' = en_chain st \<Longrightarrow> trail aid [] st st'"
  by (simp add: trail_def)

lemma trail_trans:
  assumes "trail aid xs st st'" and "trail aid ys st' st''" and "zs = xs @ ys"
  shows "trail aid zs st st''"
proof -
  obtain rs where 1: "en_chain st' = en_chain st @ rs" "map r_record_type rs = map RecordType xs"
    "\<forall>r \<in> set rs. r_action_id r = Some aid \<and> r_subject_canonical_id r = CAPABILITY_RUNTIME_SUBJECT"
    using assms(1) unfolding trail_def by blast
  obtain rs' where 2: "en_chain st'' = en_chain st' @ rs'" "map r_record_type rs' = map RecordType ys"
    "\<forall>r \<in> set rs'. r_action_id r = Some aid \<and> r_subject_canonical_id r = CAPABILITY_RUNTIME_SUBJECT"
    using assms(2) unfolding trail_def by blast
  show ?thesis unfolding trail_def
    by (rule exI [of _ "rs @ rs'"]) (use 1 2 assms(3) in auto)
qed

definition recorded :: "string \<Rightarrow> action_context \<Rightarrow> 'c engines \<Rightarrow> action_context \<Rightarrow> 'c engines \<Rightarrow> bool" where
  "recorded rt c st c' st' \<longleftrightarrow>
     trail (ac_action_id c) [rt] st st' \<and>
     (\<exists>ids. c' = c\<lparr>evidence_chain := ids\<rparr>) \<and> (\<exists>ch. st' = st\<lparr>en_chain := ch\<rparr>)"

lemma on_chain_emit_with:
  assumes "on_chain (emit_with_retention em rt rc c payload) st = (Ok c', st')"
  shows "recorded rt c st c' st'"
proof -
  obtain ch where e: "emit_with_retention em rt rc c payload (en_chain st) = (Ok c', ch)"
    and st': "st' = st\<lparr>en_chain := ch\<rparr>"
    using assms by (auto simp: on_chain_def split: prod.splits)
  show ?thesis using emit_with_retention_Ok [OF e] st'
    by (auto simp: emits_def recorded_def trail_def)
qed

lemma on_chain_emit: "on_chain (emit em rt c payload) st = (Ok c', st') \<Longrightarrow> recorded rt c st c' st'"
  unfolding emit_def by (rule on_chain_emit_with)

lemma recorded_fields:
  assumes "recorded rt c st c' st'"
  shows "ac_action_id c' = ac_action_id c" "status c' = status c" "queue_class c' = queue_class c"
    "en_queue st' = en_queue st" "en_kernel st' = en_kernel st" "en_sink st' = en_sink st"
    "policy_approval st' = policy_approval st" "trail (ac_action_id c) [rt] st st'"
  using assms by (auto simp: recorded_def)

lemmas emit_unfolds = emit_action_received_def emit_policy_decision_def emit_routing_decision_def
  emit_action_queued_def emit_execution_started_def emit_execution_completed_def
  emit_verification_result_def emit_approval_requested_def emit_approval_granted_def
  emit_ai_interactive_queue_downgrade_def

lemma emit_rollback_recorded:
  "on_chain (emit_rollback_completed em c outcome why) st = (Ok c', st') \<Longrightarrow>
   recorded ''ROLLBACK_COMPLETED'' c st c' st'"
  by (auto simp: emit_rollback_completed_def Let_def split: if_splits dest: on_chain_emit on_chain_emit_with)

text \<open>
  The outcome of a step that goes on: the action, the state it is in, and what was recorded.
\<close>

definition advanced ::
    "string list \<Rightarrow> action_lifecycle_state \<Rightarrow> action_context \<Rightarrow> 'c engines \<Rightarrow> action_context \<Rightarrow> 'c engines \<Rightarrow> bool" where
  "advanced types to c st c' st' \<longleftrightarrow>
     status c' = to \<and> ac_action_id c' = ac_action_id c \<and> trail (ac_action_id c) types st st'"

lemma advanced_trans:
  assumes "advanced xs a c st c' st'" and "advanced ys b c' st' c'' st''" and "zs = xs @ ys"
  shows "advanced zs b c st c'' st''"
  using assms trail_trans [of _ xs st st' ys st'' zs] by (simp add: advanced_def)

lemma recorded_advanced: "recorded rt c st c' st' \<Longrightarrow> advanced [rt] (status c) c st c' st'"
  by (auto simp: recorded_def advanced_def)

lemma transition_advanced:
  "transition_to_state c to now st = (Ok c', st') \<Longrightarrow> advanced [] to c st c' st'"
  by (simp add: result_simps advanced_def)

lemma validate_continue:
  assumes "step_validate_with_provenance_and_sandbox pe env ctx now r st = (Ok (StepContinue c), st')"
  shows "validated pe env \<and> st' = st \<and> status c = PolicyPending \<and> ac_action_id c = ac_action_id ctx \<and>
    queue_class c = queue_class ctx"
  using assms
  by (auto simp: step_validate_with_provenance_and_sandbox_def step_validate_def validated_def
      result_simps split: if_splits)

lemma validate_stop:
  assumes "step_validate_with_provenance_and_sandbox pe env ctx now r st = (Ok (StepShortCircuit c), st')"
  shows "\<not> validated pe env \<and> st' = st \<and> status c = ActionFailed \<and> ac_action_id c = ac_action_id ctx"
  using assms
  by (auto simp: step_validate_with_provenance_and_sandbox_def step_validate_def validated_def
      result_simps split: if_splits)

lemma receive_continue:
  assumes "receive_action em pe env ctx now st = (Ok (StepContinue c), st')"
  shows "validated pe env \<and> advanced [''ACTION_RECEIVED''] PolicyPending ctx st c st' \<and>
    queue_class c = queue_class ctx \<and> (\<exists>ch. st' = st\<lparr>en_chain := ch\<rparr>)"
proof -
  obtain b st1 where v: "step_validate_with_provenance_and_sandbox pe env ctx now (in_recovery_mode pe) st =
      (Ok (StepContinue b), st1)" and e: "on_chain (emit_action_received em env b) st1 = (Ok c, st')"
    using assms by (auto simp: receive_action_def rt_case_Ok_iff rt_map_Ok_iff)
  have r: "recorded ''ACTION_RECEIVED'' b st1 c st'"
    using e unfolding emit_action_received_def by (rule on_chain_emit)
  then show ?thesis using validate_continue [OF v] recorded_fields [OF r]
    by (auto simp: advanced_def recorded_def)
qed

lemma receive_stop:
  assumes "receive_action em pe env ctx now st = (Ok (StepShortCircuit c), st')"
  shows "\<not> validated pe env \<and> st' = st \<and> status c = ActionFailed \<and> ac_action_id c = ac_action_id ctx"
proof -
  have "step_validate_with_provenance_and_sandbox pe env ctx now (in_recovery_mode pe) st =
      (Ok (StepShortCircuit c), st')"
    using assms by (auto simp: receive_action_def rt_case_Ok_iff rt_map_Ok_iff)
  then show ?thesis by (rule validate_stop)
qed

text \<open>The policy step.\<close>

lemma apply_decision_Ok:
  assumes "apply_decision rc d ctx now st = (Ok s, st')"
  shows "ac_action_id (into_context s) = ac_action_id ctx \<and> queue_class (into_context s) = queue_class ctx \<and>
    en_queue st' = en_queue st \<and> en_chain st' = en_chain st \<and> en_sink st' = en_sink st \<and>
    (case decision d of
       Allow \<Rightarrow> status (into_context s) = Approved \<and> (\<exists>c. s = StepContinue c)
     | RequireApproval \<Rightarrow> status (into_context s) = ApprovalPending \<and> (\<exists>c. s = StepShortCircuit c) \<and>
         policy_approval st' = Some (approval d)
     | Deny \<Rightarrow> status (into_context s) = PolicyDenied \<and> (\<exists>c. s = StepShortCircuit c)
     | Unspecified \<Rightarrow> False)"
  using assms
  by (auto simp: apply_decision_def install_policy_def Let_def result_simps
      split: decision.splits if_splits)

lemma policy_error_Ok:
  assumes "policy_error_step pe e ctx now st = (Ok s, st')"
  shows "e = SubjectUnauthenticated \<and> ac_action_id (into_context s) = ac_action_id ctx \<and>
    en_queue st' = en_queue st \<and> en_chain st' = en_chain st \<and>
    status (into_context s) = PolicyDenied \<and> (\<exists>c. s = StepShortCircuit c)"
  using assms by (auto simp: policy_error_step_def install_policy_def result_simps split: if_splits)

lemma policy_continue:
  assumes "step_policy_evaluate_with_kernel pe env ctx now st = (Ok (StepContinue c), st')"
  shows "policy_verdict pe env st = Allow \<and> advanced [] Approved ctx st c st' \<and>
    queue_class c = queue_class ctx \<and> en_queue st' = en_queue st"
  using assms
  by (auto simp: step_policy_evaluate_with_kernel_def step_policy_evaluate_def policy_verdict_def
      advanced_def result_simps split: option.splits prod.splits sum.splits decision.splits
      dest!: apply_decision_Ok policy_error_Ok)

lemma policy_stop:
  assumes "step_policy_evaluate_with_kernel pe env ctx now st = (Ok (StepShortCircuit c), st')"
  shows "ac_action_id c = ac_action_id ctx \<and>
    (policy_verdict pe env st = RequireApproval \<and> status c = ApprovalPending \<or>
     policy_verdict pe env st = Deny \<and> status c = PolicyDenied)"
  using assms
  by (auto simp: step_policy_evaluate_with_kernel_def step_policy_evaluate_def policy_verdict_def
      result_simps split: option.splits prod.splits sum.splits decision.splits
      dest!: apply_decision_Ok policy_error_Ok)

definition policy_types :: "('c, 'rk) pipeline_env \<Rightarrow> 'c engines \<Rightarrow> string list" where
  "policy_types pe st = (if en_kernel st = None \<or> pe_context pe = None then [] else [''POLICY_DECISION''])"

lemma policy_emit_cases:
  assumes "step_policy_evaluate_with_kernel_and_emit em pe env ctx now st = (Ok s, st')"
    and "en_kernel st = Some k" and "pe_context pe = Some rc"
  obtains (decided) d k' s1 st1 c where "ask_kernel pe env rc k = (Ok d, k')"
      and "apply_decision rc d ctx now (st\<lparr>en_kernel := Some k'\<rparr>) = (Ok s1, st1)"
      and "recorded ''POLICY_DECISION'' (into_context s1) st1 c st'"
      and "s = (if decision d = Allow then StepContinue c else StepShortCircuit c)"
  | (unknown) k' where "ask_kernel pe env rc k = (Err SubjectUnauthenticated, k')"
      and "policy_error_step pe SubjectUnauthenticated ctx now (st\<lparr>en_kernel := Some k'\<rparr>) = (Ok s, st')"
proof -
  obtain r k' where ask: "ask_kernel pe env rc k = (r, k')" by fastforce
  show thesis
  proof (cases r)
    case (Inl e)
    then have "policy_error_step pe e ctx now (st\<lparr>en_kernel := Some k'\<rparr>) = (Ok s, st')"
      using assms ask by (simp add: step_policy_evaluate_with_kernel_and_emit_def)
    moreover from this have "e = SubjectUnauthenticated" using policy_error_Ok by blast
    ultimately show thesis using unknown ask Inl by simp
  next
    case (Inr d)
    obtain s1 st1 c where "apply_decision rc d ctx now (st\<lparr>en_kernel := Some k'\<rparr>) = (Ok s1, st1)"
      and "on_chain (emit_policy_decision em (into_context s1) d) st1 = (Ok c, st')"
      and "s = (if decision d = Allow then StepContinue c else StepShortCircuit c)"
      using assms ask Inr
      by (auto simp: step_policy_evaluate_with_kernel_and_emit_def result_simps split del: if_split)
    then show thesis using decided ask Inr on_chain_emit unfolding emit_policy_decision_def by blast
  qed
qed

lemma policy_emit_continue:
  assumes "step_policy_evaluate_with_kernel_and_emit em pe env ctx now st = (Ok (StepContinue c), st')"
  shows "policy_verdict pe env st = Allow \<and> advanced (policy_types pe st) Approved ctx st c st' \<and>
    queue_class c = queue_class ctx \<and> en_queue st' = en_queue st"
proof (cases "en_kernel st = None \<or> pe_context pe = None")
  case True
  then show ?thesis using assms
    by (auto simp: step_policy_evaluate_with_kernel_and_emit_def step_policy_evaluate_def
        policy_verdict_def policy_types_def advanced_def result_simps split: option.splits)
next
  case False
  then obtain k rc where k: "en_kernel st = Some k" "pe_context pe = Some rc" by auto
  show ?thesis using assms k
  proof (cases rule: policy_emit_cases)
    case (decided d k' s1 st1 b)
    then have d: "decision d = Allow" "b = c" by (auto split: if_splits)
    show ?thesis using decided d k apply_decision_Ok [OF decided(2)] recorded_fields [OF decided(3)]
      by (auto simp: policy_verdict_def policy_types_def advanced_def trail_def)
  qed (use policy_error_Ok in fastforce)
qed

lemma policy_emit_stop:
  assumes "step_policy_evaluate_with_kernel_and_emit em pe env ctx now st = (Ok (StepShortCircuit c), st')"
  shows "ac_action_id c = ac_action_id ctx \<and>
    (policy_verdict pe env st = RequireApproval \<and> status c = ApprovalPending \<or>
     policy_verdict pe env st = Deny \<and> status c = PolicyDenied)"
proof (cases "en_kernel st = None \<or> pe_context pe = None")
  case True
  then show ?thesis using assms
    by (auto simp: step_policy_evaluate_with_kernel_and_emit_def step_policy_evaluate_def
        result_simps split: option.splits)
next
  case False
  then obtain k rc where k: "en_kernel st = Some k" "pe_context pe = Some rc" by auto
  show ?thesis using assms k
  proof (cases rule: policy_emit_cases)
    case (decided d k' s1 st1 b)
    then have d: "decision d \<noteq> Allow" "b = c" by (auto split: if_splits)
    show ?thesis using decided d k apply_decision_Ok [OF decided(2)] recorded_fields [OF decided(3)]
      by (auto simp: policy_verdict_def split: decision.splits)
  next
    case (unknown k')
    then show ?thesis using k policy_error_Ok [OF unknown(2)] by (auto simp: policy_verdict_def)
  qed
qed

text \<open>The queue step.\<close>

lemma queue_continue:
  assumes "step_queue_with_engine pe env ctx now st = (Ok (StepContinue c), st')"
  shows "has_room pe env st \<and> advanced [] Queued ctx st c st'"
  using assms
  by (auto simp: step_queue_with_engine_def step_queue_def has_room_def advanced_def enroll_cases
      Let_def result_simps split: option.splits if_splits)

lemma queue_stop:
  assumes "step_queue_with_engine pe env ctx now st = (Ok (StepShortCircuit c), st')"
  shows "\<not> has_room pe env st \<and> status c = ActionFailed \<and> ac_action_id c = ac_action_id ctx"
  using assms
  by (auto simp: step_queue_with_engine_def step_queue_def has_room_def enroll_cases
      Let_def result_simps split: option.splits if_splits)

definition queue_types :: "action_envelope \<Rightarrow> action_context \<Rightarrow> string list" where
  "queue_types env c =
     (if ident_is_ai (env_identity env) \<and> queue_class c = Interactive
      then [''ACTION_DISPATCHED'', ''AI_INTERACTIVE_QUEUE_DOWNGRADE''] else [''ACTION_DISPATCHED''])"

lemma queue_emit_continue:
  assumes "step_queue_with_engine_and_emit em pe env ctx now st = (Ok (StepContinue c), st')"
  shows "has_room pe env st \<and> advanced (queue_types env ctx) Queued ctx st c st'"
proof -
  obtain b st1 where q: "step_queue_with_engine pe env ctx now st = (Ok (StepContinue b), st1)"
    and rest: "rt_then (on_chain (emit_action_queued em env b (queue_class b))) (\<lambda>c.
        if apply_ai_interactive_downgrade ctx (ident_is_ai (env_identity env)) \<noteq> None
        then rt_then (on_chain (emit_ai_interactive_queue_downgrade em env c)) (\<lambda>c. rt_return (StepContinue c))
        else rt_return (StepContinue c)) st1 = (Ok (StepContinue c), st')"
    using assms by (auto simp: step_queue_with_engine_and_emit_def Let_def rt_case_Ok_iff)
  note q = queue_continue [OF q]
  obtain b1 st2 where e: "on_chain (emit_action_queued em env b (queue_class b)) st1 = (Ok b1, st2)"
    and rest: "(if apply_ai_interactive_downgrade ctx (ident_is_ai (env_identity env)) \<noteq> None
        then rt_then (on_chain (emit_ai_interactive_queue_downgrade em env b1)) (\<lambda>c. rt_return (StepContinue c))
        else rt_return (StepContinue b1)) st2 = (Ok (StepContinue c), st')"
    using rest unfolding rt_then_Ok_iff by blast
  have r1: "advanced [''ACTION_DISPATCHED''] Queued ctx st b1 st2"
    using q e on_chain_emit recorded_advanced advanced_trans [of "[]" Queued ctx st b st1]
    unfolding emit_action_queued_def by (fastforce simp: advanced_def)
  show ?thesis
  proof (cases "ident_is_ai (env_identity env) \<and> queue_class ctx = Interactive")
    case True
    then have "on_chain (emit_ai_interactive_queue_downgrade em env b1) st2 = (Ok c, st')"
      using rest by (simp add: apply_ai_interactive_downgrade_def rt_map_Ok_iff)
    then have "advanced [''AI_INTERACTIVE_QUEUE_DOWNGRADE''] Queued b1 st2 c st'"
      using on_chain_emit recorded_advanced r1 unfolding emit_ai_interactive_queue_downgrade_def
      by (fastforce simp: advanced_def)
    then show ?thesis using q True advanced_trans [OF r1] by (simp add: queue_types_def)
  qed (use rest q r1 in \<open>auto simp: apply_ai_interactive_downgrade_def queue_types_def split: if_splits\<close>)
qed

lemma queue_emit_stop:
  assumes "step_queue_with_engine_and_emit em pe env ctx now st = (Ok (StepShortCircuit c), st')"
  shows "\<not> has_room pe env st \<and> status c = ActionFailed \<and> ac_action_id c = ac_action_id ctx"
proof -
  have "step_queue_with_engine pe env ctx now st = (Ok (StepShortCircuit c), st')"
    using assms by (auto simp: step_queue_with_engine_and_emit_def Let_def rt_case_Ok_iff)
      (auto simp: result_simps split: if_splits)
  then show ?thesis by (rule queue_stop)
qed

text \<open>The execution step.\<close>

lemma execute_continue:
  assumes "step_execute_with_engines pe recovery env ctx now st = (Ok (StepContinue c), st')"
  shows "runnable pe recovery env \<and> st' = st \<and> advanced [] Executing ctx st c st'"
  using assms
  by (auto simp: step_execute_with_engines_def runnable_def adapter_of_def advanced_def Let_def
      result_simps split: option.splits if_splits)

lemma execute_stop:
  assumes "step_execute_with_engines pe recovery env ctx now st = (Ok (StepShortCircuit c), st')"
  shows "\<not> runnable pe recovery env \<and> status c = ActionFailed \<and> ac_action_id c = ac_action_id ctx"
  using assms
  by (auto simp: step_execute_with_engines_def runnable_def adapter_of_def Let_def
      result_simps split: option.splits if_splits)

definition execute_types :: "('c, 'rk) pipeline_env \<Rightarrow> action_envelope \<Rightarrow> string list" where
  "execute_types pe env =
     (if adapter_of pe env = None then [''EXECUTION_STARTED''] else [''ROUTING_DECISION'', ''EXECUTION_STARTED''])"

lemma emit_advanced:
  assumes "on_chain (emit em rt c payload) st = (Ok c', st')" and "advanced xs to c0 st0 c st"
    and "zs = xs @ [rt]"
  shows "advanced zs to c0 st0 c' st'"
proof -
  have "advanced [rt] to c st c' st'"
    using recorded_advanced [OF on_chain_emit [OF assms(1)]] assms(2) by (simp add: advanced_def)
  then show ?thesis using advanced_trans [OF assms(2) _ assms(3)] by blast
qed

lemma execute_emit_continue:
  assumes "step_execute_with_engines_and_emit em pe recovery env ctx now st = (Ok (StepContinue c), st')"
  shows "runnable pe recovery env \<and> advanced (execute_types pe env) Executing ctx st c st'"
proof -
  let ?routed = "case pe_registry pe of None \<Rightarrow> None
    | Some reg \<Rightarrow> map_option (\<lambda>_. action (env_request env)) (lookup_for_target (action (env_request env)) reg)"
  obtain b st1 where x: "step_execute_with_engines pe recovery env ctx now st = (Ok (StepContinue b), st1)"
    and rest: "rt_then (case ?routed of None \<Rightarrow> rt_return b
        | Some kind \<Rightarrow> on_chain (emit_routing_decision em env b kind (dispatch_kind b)))
        (\<lambda>c. rt_then (on_chain (emit_execution_started em c)) (\<lambda>c. rt_return (StepContinue c))) st1 =
      (Ok (StepContinue c), st')"
    using assms unfolding step_execute_with_engines_and_emit_def Let_def rt_case_Ok_iff by auto
  note x = execute_continue [OF x]
  obtain b1 st2 where r: "(case ?routed of None \<Rightarrow> rt_return b
        | Some kind \<Rightarrow> on_chain (emit_routing_decision em env b kind (dispatch_kind b))) st1 = (Ok b1, st2)"
    and e: "on_chain (emit_execution_started em b1) st2 = (Ok c, st')"
    using rest by (auto simp: result_simps)
  show ?thesis
  proof (cases "adapter_of pe env")
    case None
    then have "advanced [] Executing ctx st b1 st2"
      using r x by (auto simp: adapter_of_def split: option.splits)
    from emit_advanced [OF e [unfolded emit_execution_started_def] this] show ?thesis
      using x None by (simp add: execute_types_def)
  next
    case (Some m)
    then have "on_chain (emit_routing_decision em env b (action (env_request env)) (dispatch_kind b)) st1 =
        (Ok b1, st2)"
      using r by (auto simp: adapter_of_def split: option.splits)
    then have "advanced [''ROUTING_DECISION''] Executing ctx st b1 st2"
      using emit_advanced x unfolding emit_routing_decision_def by (metis append_Nil)
    from emit_advanced [OF e [unfolded emit_execution_started_def] this] show ?thesis
      using x Some by (simp add: execute_types_def)
  qed
qed

lemma execute_emit_stop:
  assumes "step_execute_with_engines_and_emit em pe recovery env ctx now st = (Ok (StepShortCircuit c), st')"
  shows "\<not> runnable pe recovery env \<and> status c = ActionFailed \<and> ac_action_id c = ac_action_id ctx"
proof -
  have "step_execute_with_engines pe recovery env ctx now st = (Ok (StepShortCircuit c), st')"
    using assms unfolding step_execute_with_engines_and_emit_def Let_def rt_case_Ok_iff by auto
      (auto simp: result_simps)
  then show ?thesis by (rule execute_stop)
qed

text \<open>The verification step always stops on success and goes on to the rollback on failure.\<close>

lemma verify_Ok:
  assumes "step_verify_with_engine pe env ctx now st = (Ok s, st')"
  shows "if verified pe env (ac_action_id ctx)
    then advanced [] ActionSucceeded ctx st (into_context s) st' \<and> (\<exists>c. s = StepShortCircuit c)
    else advanced [] ActionFailed ctx st (into_context s) st' \<and> (\<exists>c. s = StepContinue c)"
proof (cases "pe_verification pe = None \<or> verification_intent_json env = None")
  case True
  then show ?thesis using assms
    by (auto simp: step_verify_with_engine_def step_verify_def verified_def advanced_def result_simps
        split: option.splits)
next
  case False
  then obtain v i where "pe_verification pe = Some v" "verification_intent_json env = Some i" by auto
  then show ?thesis using assms
    by (cases "v i (ac_action_id ctx)")
      (auto simp: step_verify_with_engine_def verified_def advanced_def Let_def result_simps split: if_splits)
qed

definition verify_types :: "string list" where
  "verify_types = [''EXECUTION_COMPLETED'', ''VERIFICATION_RESULT'']"

lemma verify_emit_Ok:
  assumes "step_verify_with_engine_and_emit em pe env ctx now st = (Ok s, st')"
  shows "if verified pe env (ac_action_id ctx)
    then advanced verify_types ActionSucceeded ctx st (into_context s) st' \<and> (\<exists>c. s = StepShortCircuit c)
    else advanced verify_types ActionFailed ctx st (into_context s) st' \<and> (\<exists>c. s = StepContinue c)"
proof -
  obtain b st1 s1 st2 c where e1: "on_chain (emit_execution_completed em ctx ''ADAPTER_OK'') st = (Ok b, st1)"
    and v: "step_verify_with_engine pe env b now st1 = (Ok s1, st2)"
    and e2: "on_chain (emit_verification_result em (into_context s1) (status (into_context s1) = ActionSucceeded)) st2
      = (Ok c, st')"
    and s: "s = (if status (into_context s1) = ActionSucceeded then StepShortCircuit c else StepContinue c)"
    using assms by (auto simp: step_verify_with_engine_and_emit_def Let_def result_simps)
  have b: "advanced [''EXECUTION_COMPLETED''] (status ctx) ctx st b st1"
    using recorded_advanced on_chain_emit e1 unfolding emit_execution_completed_def by blast
  let ?to = "if verified pe env (ac_action_id ctx) then ActionSucceeded else ActionFailed"
  have "advanced [] ?to b st1 (into_context s1) st2"
    using verify_Ok [OF v] b by (auto simp: advanced_def split: if_splits)
  then have m: "advanced [''EXECUTION_COMPLETED''] ?to ctx st (into_context s1) st2"
    using advanced_trans [OF b] by simp
  have "advanced verify_types ?to ctx st c st'"
    by (rule emit_advanced [OF e2 [unfolded emit_verification_result_def] m]) (simp add: verify_types_def)
  moreover have "status (into_context s1) = ?to" using m by (simp add: advanced_def)
  ultimately show ?thesis using s by (auto split: if_splits)
qed

lemma verify_injected_Ok:
  assumes "step_verify_inject_failure_and_emit em pe driver env ctx now st = (Ok s, st')"
  shows "if verified pe env (ac_action_id ctx) \<and> \<not> failure_injected driver
    then advanced verify_types ActionSucceeded ctx st (into_context s) st' \<and> (\<exists>c. s = StepShortCircuit c)
    else advanced verify_types ActionFailed ctx st (into_context s) st' \<and> (\<exists>c. s = StepContinue c)"
proof (cases "failure_injected driver")
  case False
  then have "step_verify_with_engine_and_emit em pe env ctx now st = (Ok s, st')"
    using assms by (auto simp: step_verify_inject_failure_and_emit_def failure_injected_def split: option.splits)
  from verify_emit_Ok [OF this] show ?thesis using False by simp
next
  case True
  then obtain b st1 c where e1: "on_chain (emit_execution_completed em ctx ''ADAPTER_OK'') st = (Ok b, st1)"
    and e2: "on_chain (emit_verification_result em (b\<lparr>status := ActionFailed, last_updated_at := now,
        ac_error := Some AdapterRefused\<rparr>) False) st1 = (Ok c, st')" and s: "s = StepContinue c"
    using assms by (auto simp: step_verify_inject_failure_and_emit_def failure_injected_def result_simps
        split: option.splits)
  have "advanced [''EXECUTION_COMPLETED''] (status ctx) ctx st b st1"
    using recorded_advanced on_chain_emit e1 unfolding emit_execution_completed_def by blast
  then have "advanced [''EXECUTION_COMPLETED''] ActionFailed ctx st (b\<lparr>status := ActionFailed,
      last_updated_at := now, ac_error := Some AdapterRefused\<rparr>) st1"
    by (simp add: advanced_def)
  then have "advanced verify_types ActionFailed ctx st c st'"
    by (rule emit_advanced [OF e2 [unfolded emit_verification_result_def]]) (simp add: verify_types_def)
  then show ?thesis using s True by simp
qed

text \<open>The rollback step.\<close>

lemma rollback_driver_Ok:
  assumes "step_rollback_with_driver pe driver env ctx now st = (Ok (s, outcome), st')"
    and "status ctx = ActionFailed"
  shows "status (into_context s) = rollback_verdict pe driver env \<and>
    ac_action_id (into_context s) = ac_action_id ctx"
proof (cases "driver = None \<or> adapter_of pe env = None")
  case True
  then show ?thesis using assms
    by (auto simp: step_rollback_with_driver_def rollback_verdict_def adapter_of_def split: option.splits)
next
  case False
  then obtain d reg r where *: "driver = Some d" "pe_registry pe = Some reg"
    "lookup_for_target (action (env_request env)) reg = Some r"
    by (auto simp: adapter_of_def split: option.splits)
  show ?thesis
  proof (cases "declared_strategy pe (ra_manifest r) (action (env_request env))")
    case (Inr strategy)
    then show ?thesis using assms *
      by (cases "run_rollback d strategy")
        (auto simp: step_rollback_with_driver_def rollback_verdict_def adapter_of_def Let_def result_simps)
  qed (use assms * in \<open>simp add: step_rollback_with_driver_def\<close>)
qed

lemma rollback_emit_Ok:
  assumes "step_rollback_with_driver_and_emit em pe driver env ctx now st = (Ok s, st')"
    and "status ctx = ActionFailed"
  shows "status (into_context s) = rollback_verdict pe driver env \<and>
    ac_action_id (into_context s) = ac_action_id ctx"
proof -
  obtain s1 outcome st1 where r: "step_rollback_with_driver pe driver env ctx now st = (Ok (s1, outcome), st1)"
    and rest: "(case outcome of None \<Rightarrow> rt_return s1 | Some outcome \<Rightarrow> let c = into_context s1 in
      rt_then (on_chain (emit_rollback_completed em c outcome (ac_error c)))
        (\<lambda>c. rt_return (StepShortCircuit c))) st1 = (Ok s, st')"
    using assms(1) by (auto simp: step_rollback_with_driver_and_emit_def result_simps)
  show ?thesis
  proof (cases outcome)
    case None
    then show ?thesis using rollback_driver_Ok [OF r assms(2)] rest by simp
  next
    case (Some o1)
    then obtain c where "on_chain (emit_rollback_completed em (into_context s1) o1
        (ac_error (into_context s1))) st1 = (Ok c, st')" and "s = StepShortCircuit c"
      using rest by (auto simp: Let_def rt_map_Ok_iff)
    then show ?thesis
      using rollback_driver_Ok [OF r assms(2)] emit_rollback_recorded recorded_fields(1,2) by fastforce
  qed
qed

lemma rollback_not_success: "rollback_verdict pe driver env \<noteq> ActionSucceeded"
proof -
  have "classify_terminal outcome \<noteq> ActionSucceeded" for outcome by (cases outcome) simp_all
  then show ?thesis by (auto simp: rollback_verdict_def split: option.splits sum.splits)
qed

section \<open>The drivers compute the verdict\<close>

lemma passthrough_Ok [simp]: "step_request_approval_passthrough env c now st = (Ok (StepContinue c), st)"
  by (simp add: step_request_approval_passthrough_def)

lemma finish_Ok_iff:
  "finish_with env now rollback st = (Ok c, st') \<longleftrightarrow> (\<exists>s. rollback st = (Ok s, st') \<and> c = into_context s)"
  by (auto simp: finish_with_def step_emit_evidence_def result_simps)

definition drive_admitted where
  "drive_admitted env now queue execute verify rollback ctx =
     step_then (queue ctx) (\<lambda>c. step_then (execute c) (\<lambda>c. step_then (verify c) (\<lambda>c.
       finish_with env now (rollback c))))"

definition drive where
  "drive env now validate policy queue execute verify rollback ctx =
     step_then (validate ctx) (\<lambda>c. step_then (policy c) (\<lambda>c.
     step_then (step_request_approval_passthrough env c now)
       (drive_admitted env now queue execute verify rollback)))"

text \<open>
  The three drivers differ in their steps and not in their shape. The interface says what a driver
  relies on each step for: the condition on which it goes on, the state it leaves the action in
  when it does not, and the receipts it adds when it does.
\<close>

locale action_steps =
  fixes pe :: "('c, 'rk) pipeline_env" and driver :: "rollback_driver option"
    and env :: action_envelope and now :: instant
    and validate policy queue execute verify rollback :: "action_context \<Rightarrow> ('c engines, step_state) rt"
    and vt :: "string list" and pt :: "bool \<Rightarrow> string list" and qt :: "queue_class \<Rightarrow> string list"
    and xt yt :: "string list"
  assumes validate_go: "validate b st = (Ok (StepContinue c), st') \<Longrightarrow> validated pe env \<and>
      ac_action_id c = ac_action_id b \<and> queue_class c = queue_class b \<and> en_kernel st' = en_kernel st \<and>
      en_queue st' = en_queue st \<and> trail (ac_action_id b) vt st st'"
    and validate_end: "validate b st = (Ok (StepShortCircuit c), st') \<Longrightarrow> \<not> validated pe env \<and>
      status c = ActionFailed \<and> ac_action_id c = ac_action_id b"
    and policy_go: "policy b st = (Ok (StepContinue c), st') \<Longrightarrow> policy_verdict pe env st = Allow \<and>
      ac_action_id c = ac_action_id b \<and> queue_class c = queue_class b \<and> en_queue st' = en_queue st \<and>
      trail (ac_action_id b) (pt (en_kernel st \<noteq> None)) st st'"
    and policy_end: "policy b st = (Ok (StepShortCircuit c), st') \<Longrightarrow> ac_action_id c = ac_action_id b \<and>
      (policy_verdict pe env st = RequireApproval \<and> status c = ApprovalPending \<or>
       policy_verdict pe env st = Deny \<and> status c = PolicyDenied)"
    and queue_go: "queue b st = (Ok (StepContinue c), st') \<Longrightarrow> has_room pe env st \<and>
      ac_action_id c = ac_action_id b \<and> trail (ac_action_id b) (qt (queue_class b)) st st'"
    and queue_end: "queue b st = (Ok (StepShortCircuit c), st') \<Longrightarrow> \<not> has_room pe env st \<and>
      status c = ActionFailed \<and> ac_action_id c = ac_action_id b"
    and execute_go: "execute b st = (Ok (StepContinue c), st') \<Longrightarrow> runnable pe (pe_recovery pe) env \<and>
      ac_action_id c = ac_action_id b \<and> trail (ac_action_id b) xt st st'"
    and execute_end: "execute b st = (Ok (StepShortCircuit c), st') \<Longrightarrow>
      \<not> runnable pe (pe_recovery pe) env \<and> status c = ActionFailed \<and> ac_action_id c = ac_action_id b"
    and verify_go: "verify b st = (Ok (StepContinue c), st') \<Longrightarrow>
      \<not> (verified pe env (ac_action_id b) \<and> \<not> failure_injected driver) \<and>
      status c = ActionFailed \<and> ac_action_id c = ac_action_id b"
    and verify_end: "verify b st = (Ok (StepShortCircuit c), st') \<Longrightarrow>
      (verified pe env (ac_action_id b) \<and> \<not> failure_injected driver) \<and>
      status c = ActionSucceeded \<and> ac_action_id c = ac_action_id b \<and> trail (ac_action_id b) yt st st'"
    and rollback_end: "rollback b st = (Ok s, st') \<Longrightarrow> status b = ActionFailed \<Longrightarrow>
      status (into_context s) = rollback_verdict pe driver env \<and> ac_action_id (into_context s) = ac_action_id b"
begin

lemma room_after: "en_queue st' = en_queue st \<Longrightarrow> has_room pe env st' = has_room pe env st"
  by (simp add: has_room_def)

lemma policy_after: "en_kernel st' = en_kernel st \<Longrightarrow> policy_verdict pe env st' = policy_verdict pe env st"
  by (simp add: policy_verdict_def)

lemma up_to_queue:
  assumes "validate ctx st = (Ok (StepContinue c1), st1)" and "policy c1 st1 = (Ok (StepContinue c2), st2)"
  shows "validated pe env \<and> policy_verdict pe env st = Allow \<and> has_room pe env st2 = has_room pe env st \<and>
    ac_action_id c2 = ac_action_id ctx \<and>
    trail (ac_action_id ctx) (vt @ pt (en_kernel st \<noteq> None)) st st2 \<and> queue_class c2 = queue_class ctx"
  using validate_go [OF assms(1)] policy_go [OF assms(2)] policy_after [of st1 st] room_after [of st2 st]
    trail_trans [of "ac_action_id ctx" vt st st1 _ st2] by simp

lemma driven:
  assumes "drive env now validate policy queue execute verify rollback ctx st = (Ok c', st')"
  shows "status c' = verdict pe driver env (ac_action_id ctx) st \<and> ac_action_id c' = ac_action_id ctx \<and>
    (status c' = ActionSucceeded \<longrightarrow>
       trail (ac_action_id ctx) (vt @ pt (en_kernel st \<noteq> None) @ qt (queue_class ctx) @ xt @ yt) st st')"
proof -
  consider (invalid) "validate ctx st = (Ok (StepShortCircuit c'), st')"
    | (refused) c1 st1 where "validate ctx st = (Ok (StepContinue c1), st1)"
        "policy c1 st1 = (Ok (StepShortCircuit c'), st')"
    | (admitted) c1 st1 c2 st2 where "validate ctx st = (Ok (StepContinue c1), st1)"
        "policy c1 st1 = (Ok (StepContinue c2), st2)"
        "drive_admitted env now queue execute verify rollback c2 st2 = (Ok c', st')"
    using assms by (auto simp: drive_def step_then_Ok_iff)
  then show ?thesis
  proof cases
    case invalid
    then show ?thesis using validate_end by (simp add: verdict_def)
  next
    case (refused c1 st1)
    then show ?thesis using validate_go [OF refused(1)] policy_end [OF refused(2)] policy_after [of st1 st]
      by (auto simp: verdict_def)
  next
    case (admitted c1 st1 c2 st2)
    note before = up_to_queue [OF admitted(1,2)]
    from admitted(3) consider (full) "queue c2 st2 = (Ok (StepShortCircuit c'), st')"
      | (unready) c3 st3 where "queue c2 st2 = (Ok (StepContinue c3), st3)"
          "execute c3 st3 = (Ok (StepShortCircuit c'), st')"
      | (succeeded) c3 st3 c4 st4 where "queue c2 st2 = (Ok (StepContinue c3), st3)"
          "execute c3 st3 = (Ok (StepContinue c4), st4)" "verify c4 st4 = (Ok (StepShortCircuit c'), st')"
      | (failed) c3 st3 c4 st4 c5 st5 s where "queue c2 st2 = (Ok (StepContinue c3), st3)"
          "execute c3 st3 = (Ok (StepContinue c4), st4)" "verify c4 st4 = (Ok (StepContinue c5), st5)"
          "rollback c5 st5 = (Ok s, st')" "c' = into_context s"
      by (auto simp: drive_admitted_def step_then_Ok_iff finish_Ok_iff)
    then show ?thesis
    proof cases
      case full
      then show ?thesis using before queue_end [OF full] by (simp add: verdict_def)
    next
      case (unready c3 st3)
      then show ?thesis using before queue_go [OF unready(1)] execute_end [OF unready(2)]
        by (simp add: verdict_def)
    next
      case (succeeded c3 st3 c4 st4)
      note q = queue_go [OF succeeded(1)] and x = execute_go [OF succeeded(2)] and y = verify_end [OF succeeded(3)]
      have "trail (ac_action_id ctx) (qt (queue_class ctx) @ xt @ yt) st2 st'"
        using before q x y trail_trans [of _ xt st3 st4 yt st' "xt @ yt"]
          trail_trans [of _ "qt (queue_class ctx)" st2 st3 "xt @ yt" st'] by simp
      then have "trail (ac_action_id ctx) (vt @ pt (en_kernel st \<noteq> None) @ qt (queue_class ctx) @ xt @ yt) st st'"
        using before trail_trans [of "ac_action_id ctx" "vt @ pt (en_kernel st \<noteq> None)" st st2] by simp
      then show ?thesis using before q x y by (simp add: verdict_def)
    next
      case (failed c3 st3 c4 st4 c5 st5 s)
      note r = rollback_end [OF failed(4)]
      show ?thesis
        using rollback_not_success [of pe driver env] before queue_go [OF failed(1)] execute_go [OF failed(2)] verify_go [OF failed(3)] r failed(5)
        by (auto simp: verdict_def)
    qed
  qed
qed

end

text \<open>The three drivers of the pipeline are such drivers.\<close>

lemma rollback_verdict_None [simp]: "rollback_verdict pe None env = ActionFailed"
  by (simp add: rollback_verdict_def)

lemma failure_injected_None [simp]: "\<not> failure_injected None"
  by (simp add: failure_injected_def)

interpretation plain: action_steps pe None env now
  "\<lambda>c. step_validate_with_provenance_and_sandbox pe env c now (in_recovery_mode pe)"
  "\<lambda>c. step_policy_evaluate_with_kernel pe env c now" "\<lambda>c. step_queue_with_engine pe env c now"
  "\<lambda>c. step_execute_with_engines pe (pe_recovery pe) env c now" "\<lambda>c. step_verify_with_engine pe env c now"
  "\<lambda>c. step_rollback env c now" "[]" "\<lambda>_. []" "\<lambda>_. []" "[]" "[]"
  for pe :: "('c, 'rk) pipeline_env" and env now
  by unfold_locales
    (auto simp: advanced_def step_rollback_def split: if_splits
      dest: validate_continue validate_stop policy_continue policy_stop queue_continue queue_stop
        execute_continue execute_stop verify_Ok)

lemmas drives = drive_def drive_admitted_def [abs_def]

lemma plain_driven:
  assumes "run_with_full_engines pe env ctx now st = (Ok c', st')"
  shows "status c' = verdict pe None env (ac_action_id ctx) st \<and> ac_action_id c' = ac_action_id ctx"
  using plain.driven [unfolded drives, OF assms [unfolded run_with_full_engines_def]] by simp

interpretation recording: action_steps pe driver env now
  "\<lambda>c. receive_action em pe env c now"
  "\<lambda>c. step_policy_evaluate_with_kernel_and_emit em pe env c now"
  "\<lambda>c. step_queue_with_engine_and_emit em pe env c now"
  "\<lambda>c. step_execute_with_engines_and_emit em pe (pe_recovery pe) env c now"
  "\<lambda>c. step_verify_inject_failure_and_emit em pe driver env c now"
  "\<lambda>c. step_rollback_with_driver_and_emit em pe driver env c now"
  "[''ACTION_RECEIVED'']"
  "\<lambda>wired. if wired \<and> pe_context pe \<noteq> None then [''POLICY_DECISION''] else []"
  "\<lambda>cls. if ident_is_ai (env_identity env) \<and> cls = Interactive
     then [''ACTION_DISPATCHED'', ''AI_INTERACTIVE_QUEUE_DOWNGRADE''] else [''ACTION_DISPATCHED'']"
  "execute_types pe env" verify_types
  for em :: "('sk, 'vk) emit_env" and pe :: "('c, 'rk) pipeline_env" and driver env now
  by unfold_locales
    (auto simp: advanced_def policy_types_def queue_types_def split: if_splits
      dest: receive_continue receive_stop policy_emit_continue policy_emit_stop queue_emit_continue
        queue_emit_stop execute_emit_continue execute_emit_stop verify_injected_Ok rollback_emit_Ok)

definition success_types :: "('c, 'rk) pipeline_env \<Rightarrow> action_envelope \<Rightarrow> 'c engines \<Rightarrow> queue_class \<Rightarrow> string list" where
  "success_types pe env st cls =
     [''ACTION_RECEIVED''] @
     (if en_kernel st \<noteq> None \<and> pe_context pe \<noteq> None then [''POLICY_DECISION''] else []) @
     (if ident_is_ai (env_identity env) \<and> cls = Interactive
      then [''ACTION_DISPATCHED'', ''AI_INTERACTIVE_QUEUE_DOWNGRADE''] else [''ACTION_DISPATCHED'']) @
     execute_types pe env @ verify_types"

lemma recording_driven:
  assumes "run_with_full_engines_and_evidence_and_rollback em pe driver env ctx now st = (Ok c', st')"
  shows "status c' = verdict pe driver env (ac_action_id ctx) st \<and> ac_action_id c' = ac_action_id ctx \<and>
    (status c' = ActionSucceeded \<longrightarrow>
       trail (ac_action_id ctx) (success_types pe env st (queue_class ctx)) st st')"
  using recording.driven [unfolded drives,
      OF assms [unfolded run_with_full_engines_and_evidence_and_rollback_def]]
  by (simp add: success_types_def)

text \<open>Without a rollback driver, the driver with rollback is the driver without it.\<close>

lemma no_rollback_driver:
  "run_with_full_engines_and_evidence_and_rollback em pe None env ctx now =
   run_with_full_engines_and_evidence em pe env ctx now"
proof -
  have "step_verify_inject_failure_and_emit em pe None env c now = step_verify_with_engine_and_emit em pe env c now"
    for c by (simp add: step_verify_inject_failure_and_emit_def)
  moreover have "step_rollback_with_driver_and_emit em pe None env c now = step_rollback env c now" for c
    by (simp add: step_rollback_with_driver_and_emit_def step_rollback_with_driver_def step_rollback_def
        fun_eq_iff)
  ultimately show ?thesis
    by (simp add: run_with_full_engines_and_evidence_and_rollback_def run_with_full_engines_and_evidence_def)
qed

section \<open>Submission\<close>

definition effective_driver :: "('c, 'rk, 'sk, 'vk) runtime_wiring \<Rightarrow> rollback_driver option" where
  "effective_driver rw = (if rw_emitter rw = None then None else rw_driver rw)"

definition wired_env ::
    "('c, 'rk, 'sk, 'vk) runtime_wiring \<Rightarrow> runtime_context \<Rightarrow> ('c, 'rk) pipeline_env" where
  "wired_env rw rc = (rw_env rw)\<lparr>pe_context := Some rc\<rparr>"

lemma run_pipeline_Ok:
  assumes "run_pipeline rw rc env ctx now st = (Ok c, st')"
  shows "status c = verdict (wired_env rw rc) (effective_driver rw) env (ac_action_id ctx) st \<and>
    ac_action_id c = ac_action_id ctx \<and>
    (rw_emitter rw \<noteq> None \<and> status c = ActionSucceeded \<longrightarrow>
       trail (ac_action_id ctx) (success_types (wired_env rw rc) env st (queue_class ctx)) st st')"
proof (cases "rw_emitter rw")
  case None
  then show ?thesis using assms plain_driven [of "wired_env rw rc" env ctx now st c st']
    by (simp add: run_pipeline_def wired_env_def effective_driver_def Let_def)
next
  case (Some em)
  then have "run_with_full_engines_and_evidence_and_rollback em (wired_env rw rc) (rw_driver rw) env ctx now st =
      (Ok c, st')"
    using assms no_rollback_driver [of em "wired_env rw rc" env ctx now]
    by (cases "rw_driver rw") (simp_all add: run_pipeline_def wired_env_def Let_def)
  from recording_driven [OF this] show ?thesis using Some by (simp add: effective_driver_def)
qed

lemma park_Ok:
  assumes "park_for_approval rw env c st = (Ok c', st')"
  shows "status c' = status c \<and> ac_action_id c' = ac_action_id c \<and>
    (status c \<noteq> ApprovalPending \<longrightarrow> c' = c \<and> st' = st)"
proof (cases "rw_emitter rw")
  case None
  then show ?thesis using assms
    by (auto simp: park_for_approval_def step_request_approval_def Let_def rt_map_Ok_iff
        split: if_splits option.splits)
next
  case (Some em)
  then show ?thesis using assms
    by (auto simp: park_for_approval_def step_request_approval_def Let_def rt_map_Ok_iff
        emit_approval_requested_def split: if_splits option.splits dest!: on_chain_emit)
      (auto simp: recorded_def)
qed

lemma fresh_fields [simp]:
  "ac_action_id (fresh_context aid now) = aid" "status (fresh_context aid now) = Created"
  "queue_class (fresh_context aid now) = Interactive"
  by (simp_all add: fresh_context_def action_context_new_def)

lemma enter_fields [simp]:
  "en_kernel (enter_context rc st) = en_kernel st" "en_queue (enter_context rc st) = en_queue st"
  "en_chain (enter_context rc st) = en_chain st" "en_sink (enter_context rc st) = en_sink st"
  by (simp_all add: enter_context_def install_policy_def)

lemma verdict_enter [simp]: "verdict pe driver env aid (enter_context rc st) = verdict pe driver env aid st"
proof -
  have "policy_verdict pe env (enter_context rc st) = policy_verdict pe env st"
    and "has_room pe env (enter_context rc st) = has_room pe env st"
    by (simp_all add: policy_verdict_def has_room_def)
  then show ?thesis unfolding verdict_def by (simp only:)
qed

lemma store_Ok_iff:
  "store_result aid out rt = (Ok c, rt') \<longleftrightarrow>
     (\<exists>st. out = (Ok c, st) \<and>
        rt' = rt\<lparr>rs_contexts := AList.update aid c (rs_contexts rt), rs_engines := st\<rparr>)"
  by (auto simp: store_result_def split: prod.splits sum.splits)

lemma submit_Ok:
  assumes "submit_action rw ulid now env rc rt = (Ok ctx, rt')"
  shows "status ctx = verdict (wired_env rw rc) (effective_driver rw) env (id_new ActionId ulid) (rs_engines rt) \<and>
    ac_action_id ctx = id_new ActionId ulid \<and> get_action_status (id_new ActionId ulid) rt' = Ok ctx \<and>
    (rw_emitter rw \<noteq> None \<and> status ctx = ActionSucceeded \<longrightarrow>
       trail (id_new ActionId ulid) (success_types (wired_env rw rc) env (rs_engines rt) Interactive)
         (rs_engines rt) (rs_engines rt'))"
proof -
  let ?aid = "id_new ActionId ulid" and ?st = "enter_context rc (rs_engines rt)"
  obtain c st1 st2 where run: "run_pipeline rw rc env (fresh_context ?aid now) now ?st = (Ok c, st1)"
    and park: "park_for_approval rw env c st1 = (Ok ctx, st2)"
    and rt': "rt' = rt\<lparr>rs_contexts := AList.update ?aid ctx (rs_contexts rt), rs_engines := st2\<rparr>"
    using assms by (auto simp: submit_action_def Let_def store_Ok_iff rt_then_Ok_iff)
  have "success_types (wired_env rw rc) env ?st Interactive =
      success_types (wired_env rw rc) env (rs_engines rt) Interactive"
    by (simp add: success_types_def)
  then show ?thesis using run_pipeline_Ok [OF run] park_Ok [OF park] rt'
    by (auto simp: get_action_status_def trail_def AList.update_conv')
qed

end
