(* ===== verification/Runtime_Liveness.thy ===== *)
theory Runtime_Liveness
  imports Runtime_Outcomes
begin

text \<open>
  A submission answers. The drivers fail only where an engine does: when the kernel gives no
  decision, when a receipt cannot be printed canonically, or when the manifest of the adapter names
  no rollback strategy. The same interface as for the outcomes, extended by what each step needs
  to return at all.
\<close>

section \<open>Submission always answers\<close>

definition returns :: "('s, 'a) rt \<Rightarrow> 's \<Rightarrow> bool" where
  "returns m st \<longleftrightarrow> (\<exists>a st'. m st = (Ok a, st'))"

lemma returns_return [simp]: "returns (rt_return a) st"
  by (simp add: returns_def)

lemma returns_then:
  assumes "returns m st" and "\<And>a st'. m st = (Ok a, st') \<Longrightarrow> returns (f a) st'"
  shows "returns (rt_then m f) st"
  using assms by (fastforce simp: returns_def)

lemma returns_step_then:
  assumes "returns m st" and "\<And>c st'. m st = (Ok (StepContinue c), st') \<Longrightarrow> returns (f c) st'"
  shows "returns (step_then m f) st"
proof -
  obtain s st' where "m st = (Ok s, st')" using assms(1) by (auto simp: returns_def)
  then show ?thesis using assms(2) by (cases s) (auto simp: returns_def step_then_def)
qed

lemma transition_eq [simp]:
  "may_transition (status c) to \<Longrightarrow>
   transition_to_state c to now st = (Ok (c\<lparr>status := to, last_updated_at := now\<rparr>), st)"
  by (simp add: transition_to_state_def apply_transition_def)

lemma step_returns:
  "status c = Created \<Longrightarrow> returns (step_validate_with_provenance_and_sandbox pe env c now r) st"
  "status c = PolicyPending \<Longrightarrow> policy_verdict pe env st \<noteq> Unspecified \<Longrightarrow>
     returns (step_policy_evaluate_with_kernel pe env c now) st"
  "status c = Approved \<Longrightarrow> returns (step_queue_with_engine pe env c now) st"
  "status c = Queued \<Longrightarrow> returns (step_execute_with_engines pe recovery env c now) st"
  "status c = Executing \<Longrightarrow> returns (step_verify_with_engine pe env c now) st"
proof -
  assume "status c = Created"
  then show "returns (step_validate_with_provenance_and_sandbox pe env c now r) st"
    by (simp add: returns_def step_validate_with_provenance_and_sandbox_def step_validate_def fail_step_def)
next
  assume "status c = PolicyPending" and "policy_verdict pe env st \<noteq> Unspecified"
  then show "returns (step_policy_evaluate_with_kernel pe env c now) st"
    by (auto simp: returns_def step_policy_evaluate_with_kernel_def step_policy_evaluate_def
        policy_verdict_def apply_decision_def policy_error_step_def Let_def
        split: option.splits prod.splits sum.splits decision.splits if_splits)
next
  assume "status c = Approved"
  then show "returns (step_queue_with_engine pe env c now) st"
    by (auto simp: returns_def step_queue_with_engine_def step_queue_def fail_step_def enroll_cases Let_def
        split: option.splits)
next
  assume "status c = Queued"
  then show "returns (step_execute_with_engines pe recovery env c now) st"
    by (auto simp: returns_def step_execute_with_engines_def fail_step_def Let_def split: option.splits)
next
  assume "status c = Executing"
  then show "returns (step_verify_with_engine pe env c now) st"
    by (auto simp: returns_def step_verify_with_engine_def step_verify_def Let_def
        split: option.splits sum.splits)
qed

locale live_steps = action_steps +
  assumes validate_status: "validate b st = (Ok (StepContinue c), st') \<Longrightarrow> status c = PolicyPending"
    and policy_status: "policy b st = (Ok (StepContinue c), st') \<Longrightarrow> status c = Approved"
    and queue_status: "queue b st = (Ok (StepContinue c), st') \<Longrightarrow> status c = Queued"
    and execute_status: "execute b st = (Ok (StepContinue c), st') \<Longrightarrow> status c = Executing"
    and validate_live: "status b = Created \<Longrightarrow> returns (validate b) st"
    and policy_live: "status b = PolicyPending \<Longrightarrow> policy_verdict pe env st \<noteq> Unspecified \<Longrightarrow>
      returns (policy b) st"
    and queue_live: "status b = Approved \<Longrightarrow> returns (queue b) st"
    and execute_live: "status b = Queued \<Longrightarrow> returns (execute b) st"
    and verify_live: "status b = Executing \<Longrightarrow> returns (verify b) st"
    and rollback_live: "status b = ActionFailed \<Longrightarrow> returns (rollback b) st"
begin

lemma drive_admitted_returns:
  assumes "status c = Approved"
  shows "returns (drive_admitted env now queue execute verify rollback c) st"
  unfolding drive_admitted_def
proof (rule returns_step_then [OF queue_live [OF assms]], rule returns_step_then, goal_cases)
  case (1 c1 st1)
  then show ?case by (rule execute_live [OF queue_status])
next
  case (2 c1 st1 c2 st2)
  then have "returns (verify c2) st2" by (intro verify_live execute_status)
  then show ?case
  proof (rule returns_step_then)
    fix c3 st3 assume "verify c2 st2 = (Ok (StepContinue c3), st3)"
    then have "returns (rollback c3) st3" using verify_go rollback_live by blast
    then show "returns (finish_with env now (rollback c3)) st3"
      by (auto simp: returns_def finish_Ok_iff)
  qed
qed

lemma drive_returns:
  assumes "status ctx = Created" and "validated pe env \<Longrightarrow> policy_verdict pe env st \<noteq> Unspecified"
  shows "returns (drive env now validate policy queue execute verify rollback ctx) st"
  unfolding drive_def
proof (rule returns_step_then [OF validate_live [OF assms(1)]], rule returns_step_then, goal_cases)
  case (1 c1 st1)
  then show ?case
    using validate_go [OF 1] validate_status [OF 1] policy_after [of st1 st] assms(2)
    by (intro policy_live) simp_all
next
  case (2 c1 st1 c2 st2)
  then have "returns (drive_admitted env now queue execute verify rollback c2) st2"
    by (intro drive_admitted_returns policy_status)
  then show ?case
    by (intro returns_step_then) (auto simp: returns_def [of "step_request_approval_passthrough env c2 now"])
qed

end

interpretation plain_live: live_steps pe None env now
  "\<lambda>c. step_validate_with_provenance_and_sandbox pe env c now (in_recovery_mode pe)"
  "\<lambda>c. step_policy_evaluate_with_kernel pe env c now" "\<lambda>c. step_queue_with_engine pe env c now"
  "\<lambda>c. step_execute_with_engines pe (pe_recovery pe) env c now" "\<lambda>c. step_verify_with_engine pe env c now"
  "\<lambda>c. step_rollback env c now" "[]" "\<lambda>_. []" "\<lambda>_. []" "[]" "[]"
  for pe :: "('c, 'rk) pipeline_env" and env now
  by unfold_locales
    (auto simp: advanced_def step_returns step_rollback_def
      dest: validate_continue policy_continue queue_continue execute_continue)

section \<open>With evidence\<close>

text \<open>An emission fails only when the canonical printer does.\<close>

definition jcs_total :: "('sk, 'vk) evidence_lib \<Rightarrow> bool" where
  "jcs_total lib \<longleftrightarrow> (\<forall>v. \<exists>s. to_jcs lib v = Ok s)"

lemma runtime_subject_not_blank: "trim CAPABILITY_RUNTIME_SUBJECT \<noteq> []"
  by (subst trim_not_blank)
    (simp_all add: CAPABILITY_RUNTIME_SUBJECT_def ws_prefix_def ws_suffix_def unicode_whitespace_def suffix_def)

lemma jcs_total_simps:
  assumes "jcs_total lib"
  obtains f where "\<And>v. jcs_canonicalize lib v = Ok (f v)"
proof -
  have "\<exists>s. jcs_canonicalize lib v = Ok s" for v
    using assms by (auto simp: jcs_total_def jcs_canonicalize_def split: sum.splits) (metis sum.distinct(1))
  then show thesis using that by metis
qed

lemma emit_with_returns:
  assumes "jcs_total (em_lib em)"
  shows "returns (on_chain (emit_with_retention em rt rc c payload)) st"
proof -
  obtain f where f: "\<And>v. jcs_canonicalize (em_lib em) v = Ok (f v)" using jcs_total_simps [OF assms] by blast
  show ?thesis
    by (cases "en_chain st")
      (auto simp: returns_def on_chain_def emit_with_retention_def append_signed_def seal_signed_def
        seal_inner_def signing_digest_def link_hash_def f builder_new_def with_payload_def
        with_action_id_def runtime_subject_not_blank last_receipt_def chain_append_def Let_def)
qed

lemma emit_returns: "jcs_total (em_lib em) \<Longrightarrow> returns (on_chain (emit em rt c payload)) st"
  unfolding emit_def by (rule emit_with_returns)

lemma receive_returns:
  assumes "jcs_total (em_lib em)" and "status c = Created"
  shows "returns (receive_action em pe env c now) st"
  unfolding receive_action_def emit_action_received_def
  by (rule returns_then [OF step_returns(1) [OF assms(2)]])
    (auto intro!: returns_then emit_returns [OF assms(1)] split: step_state.split)

lemma policy_emit_returns:
  assumes "jcs_total (em_lib em)" and "status c = PolicyPending" and "policy_verdict pe env st \<noteq> Unspecified"
  shows "returns (step_policy_evaluate_with_kernel_and_emit em pe env c now) st"
proof -
  obtain s st1 where p: "step_policy_evaluate_with_kernel pe env c now st = (Ok s, st1)"
    using step_returns(2) [OF assms(2,3), of now] by (auto simp: returns_def)
  have e: "returns (on_chain (emit_policy_decision em (into_context s) d)) st1" for d
    unfolding emit_policy_decision_def by (rule emit_returns [OF assms(1)])
  show ?thesis using p e
    by (auto simp: step_policy_evaluate_with_kernel_and_emit_def step_policy_evaluate_with_kernel_def
        returns_def split: option.splits prod.splits sum.splits)
      (metis (no_types, lifting) rt_then_eq(1) rt_return_simp)
qed

lemma queue_emit_returns:
  assumes "jcs_total (em_lib em)" and "status c = Approved"
  shows "returns (step_queue_with_engine_and_emit em pe env c now) st"
  unfolding step_queue_with_engine_and_emit_def Let_def emit_action_queued_def
    emit_ai_interactive_queue_downgrade_def
  by (rule returns_then [OF step_returns(3) [OF assms(2)]])
    (auto intro!: returns_then emit_returns [OF assms(1)] split: step_state.split)

lemma execute_emit_returns:
  assumes "jcs_total (em_lib em)" and "status c = Queued"
  shows "returns (step_execute_with_engines_and_emit em pe recovery env c now) st"
  unfolding step_execute_with_engines_and_emit_def Let_def emit_routing_decision_def emit_execution_started_def
  by (rule returns_then [OF step_returns(4) [OF assms(2)]])
    (auto intro!: returns_then emit_returns [OF assms(1)] split: step_state.split option.split)

lemma verify_emit_returns:
  assumes "jcs_total (em_lib em)" and "status c = Executing"
  shows "returns (step_verify_with_engine_and_emit em pe env c now) st"
  unfolding step_verify_with_engine_and_emit_def Let_def
proof (intro returns_then)
  show "returns (on_chain (emit_execution_completed em c ''ADAPTER_OK'')) st"
    unfolding emit_execution_completed_def by (rule emit_returns [OF assms(1)])
next
  fix b st1 assume "on_chain (emit_execution_completed em c ''ADAPTER_OK'') st = (Ok b, st1)"
  then have "status b = Executing"
    using on_chain_emit recorded_fields(2) assms(2) unfolding emit_execution_completed_def by metis
  then show "returns (step_verify_with_engine pe env b now) st1" by (rule step_returns(5))
qed (auto simp: emit_verification_result_def intro!: emit_returns [OF assms(1)])

lemma verify_injected_returns:
  assumes "jcs_total (em_lib em)" and "status c = Executing"
  shows "returns (step_verify_inject_failure_and_emit em pe driver env c now) st"
proof (cases "failure_injected driver")
  case False
  then show ?thesis using verify_emit_returns [OF assms]
    by (simp add: step_verify_inject_failure_and_emit_def failure_injected_def split: option.splits)
next
  case True
  obtain b st1 where b: "on_chain (emit_execution_completed em c ''ADAPTER_OK'') st = (Ok b, st1)"
    using emit_returns [OF assms(1)] unfolding emit_execution_completed_def returns_def by blast
  then have "status b = Executing"
    using on_chain_emit recorded_fields(2) assms(2) unfolding emit_execution_completed_def by metis
  then have "step_verify_inject_failure_and_emit em pe driver env c now st =
      rt_then (on_chain (emit_verification_result em (b\<lparr>status := ActionFailed, last_updated_at := now,
        ac_error := Some AdapterRefused\<rparr>) False)) (\<lambda>ctx. rt_return (StepContinue ctx)) st1"
    using b True by (simp add: step_verify_inject_failure_and_emit_def failure_injected_def split: option.splits)
  moreover have "returns (rt_then (on_chain (emit_verification_result em c' False))
      (\<lambda>ctx. rt_return (StepContinue ctx))) st1" for c'
    unfolding emit_verification_result_def by (intro returns_then emit_returns [OF assms(1)]) simp
  ultimately show ?thesis by (simp add: returns_def)
qed

definition strategies_parse :: "('c, 'rk) pipeline_env \<Rightarrow> action_envelope \<Rightarrow> bool" where
  "strategies_parse pe env \<longleftrightarrow>
     (case adapter_of pe env of None \<Rightarrow> True
      | Some m \<Rightarrow> (case declared_strategy pe m (action (env_request env)) of Inl _ \<Rightarrow> False | Inr _ \<Rightarrow> True))"

lemma rollback_emit_returns:
  assumes "jcs_total (em_lib em)" and "strategies_parse pe env" and "status c = ActionFailed"
  shows "returns (step_rollback_with_driver_and_emit em pe driver env c now) st"
  unfolding step_rollback_with_driver_and_emit_def
proof (rule returns_then)
  show "returns (step_rollback_with_driver pe driver env c now) st"
    using assms(2,3)
    by (auto simp: returns_def step_rollback_with_driver_def strategies_parse_def adapter_of_def Let_def
        split: option.splits sum.splits rollback_outcome.splits)
next
  fix r st1
  show "returns (case r of (state, outcome) \<Rightarrow> case outcome of None \<Rightarrow> rt_return state
      | Some outcome \<Rightarrow> let c = into_context state in
          rt_then (on_chain (emit_rollback_completed em c outcome (ac_error c)))
            (\<lambda>c. rt_return (StepShortCircuit c))) st1"
    by (auto simp: emit_rollback_completed_def Let_def split: prod.split option.split
        intro!: returns_then emit_returns [OF assms(1)] emit_with_returns [OF assms(1)])
qed

lemma recording_live:
  assumes "jcs_total (em_lib em)" and "strategies_parse pe env"
  shows "live_steps pe driver env
    (\<lambda>c. receive_action em pe env c now)
    (\<lambda>c. step_policy_evaluate_with_kernel_and_emit em pe env c now)
    (\<lambda>c. step_queue_with_engine_and_emit em pe env c now)
    (\<lambda>c. step_execute_with_engines_and_emit em pe (pe_recovery pe) env c now)
    (\<lambda>c. step_verify_inject_failure_and_emit em pe driver env c now)
    (\<lambda>c. step_rollback_with_driver_and_emit em pe driver env c now)
    [''ACTION_RECEIVED'']
    (\<lambda>wired. if wired \<and> pe_context pe \<noteq> None then [''POLICY_DECISION''] else [])
    (\<lambda>cls. if ident_is_ai (env_identity env) \<and> cls = Interactive
       then [''ACTION_DISPATCHED'', ''AI_INTERACTIVE_QUEUE_DOWNGRADE''] else [''ACTION_DISPATCHED''])
    (execute_types pe env) verify_types"
  by (intro live_steps.intro live_steps_axioms.intro recording.action_steps_axioms)
    (auto simp: advanced_def assms receive_returns policy_emit_returns queue_emit_returns
      execute_emit_returns verify_injected_returns rollback_emit_returns
      dest: receive_continue policy_emit_continue queue_emit_continue execute_emit_continue)

section \<open>The runtime answers\<close>

definition can_answer :: "('c, 'rk, 'sk, 'vk) runtime_wiring \<Rightarrow> action_envelope \<Rightarrow> bool" where
  "can_answer rw env \<longleftrightarrow>
     (case rw_emitter rw of None \<Rightarrow> True | Some em \<Rightarrow> jcs_total (em_lib em) \<and> strategies_parse (rw_env rw) env)"

lemma strategies_wired: "strategies_parse (wired_env rw rc) env = strategies_parse (rw_env rw) env"
proof -
  have "declared_strategy (wired_env rw rc) m kind = declared_strategy (rw_env rw) m kind" for m kind
    by (simp add: declared_strategy_def wired_env_def split: option.split)
  moreover have "adapter_of (wired_env rw rc) env = adapter_of (rw_env rw) env"
    by (simp add: adapter_of_def wired_env_def)
  ultimately show ?thesis unfolding strategies_parse_def by (simp only:)
qed

lemma run_pipeline_returns:
  assumes "can_answer rw env" and "status ctx = Created"
    and "validated (wired_env rw rc) env \<Longrightarrow> policy_verdict (wired_env rw rc) env st \<noteq> Unspecified"
  shows "returns (run_pipeline rw rc env ctx now) st"
proof (cases "rw_emitter rw")
  case None
  then show ?thesis using plain_live.drive_returns [OF assms(2,3), unfolded drives]
    by (simp add: run_pipeline_def run_with_full_engines_def wired_env_def Let_def)
next
  case (Some em)
  then have "jcs_total (em_lib em)" and "strategies_parse (wired_env rw rc) env"
    using assms(1) by (simp_all add: can_answer_def strategies_wired)
  note live = live_steps.drive_returns [OF recording_live [OF this] assms(2,3), unfolded drives]
  have "returns (run_with_full_engines_and_evidence_and_rollback em (wired_env rw rc) (rw_driver rw) env ctx now) st"
    unfolding run_with_full_engines_and_evidence_and_rollback_def by (rule live)
  then show ?thesis using Some no_rollback_driver [of em "wired_env rw rc" env ctx now]
    by (cases "rw_driver rw") (simp_all add: run_pipeline_def wired_env_def Let_def)
qed

lemma request_approval_returns:
  fixes st :: "'c engines"
  assumes "case em of None \<Rightarrow> True | Some em \<Rightarrow> jcs_total (em_lib em)"
  shows "returns (step_request_approval em pe env c wanted) st"
proof -
  have "returns (rt_then (on_chain (emit_approval_requested em' c rid subj ai ttl cosigner))
      (\<lambda>ctx. rt_return (StepShortCircuit ctx))) st1"
    if "em = Some em'" for em' rid subj ai ttl cosigner and st1 :: "'c engines"
    unfolding emit_approval_requested_def
    by (intro returns_then emit_returns) (use that assms in simp_all)
  then show ?thesis
    by (auto simp: returns_def step_request_approval_def Let_def split: option.splits)
qed

lemma park_returns:
  assumes "can_answer rw env"
  shows "returns (park_for_approval rw env c) st"
proof -
  have "returns (rt_then (step_request_approval (rw_emitter rw) (rw_env rw) env c (policy_approval st))
      (\<lambda>state. rt_return (into_context state))) st"
    using assms by (intro returns_then request_approval_returns) (auto simp: can_answer_def split: option.splits)
  then show ?thesis by (auto simp: returns_def park_for_approval_def)
qed

lemma submit_returns:
  assumes "can_answer rw env"
    and "validated (wired_env rw rc) env \<Longrightarrow> policy_verdict (wired_env rw rc) env (rs_engines rt) \<noteq> Unspecified"
  shows "\<exists>ctx rt'. submit_action rw ulid now env rc rt = (Ok ctx, rt')"
proof -
  let ?aid = "id_new ActionId ulid" and ?st = "enter_context rc (rs_engines rt)"
  have "policy_verdict (wired_env rw rc) env ?st = policy_verdict (wired_env rw rc) env (rs_engines rt)"
    by (simp add: policy_verdict_def)
  then obtain c st1 where "run_pipeline rw rc env (fresh_context ?aid now) now ?st = (Ok c, st1)"
    using run_pipeline_returns [OF assms(1), of "fresh_context ?aid now" rc ?st now] assms(2)
    by (auto simp: returns_def)
  moreover obtain c' st2 where "park_for_approval rw env c st1 = (Ok c', st2)"
    using park_returns [OF assms(1), of c st1] by (auto simp: returns_def)
  ultimately show ?thesis by (simp add: submit_action_def Let_def store_result_def)
qed

section \<open>Properties of submission\<close>

definition sample_pipeline_env :: "(nat \<times> (cache_key \<times> policy_decision) list, unit) pipeline_env" where
  "sample_pipeline_env =
     \<lparr>pe_cache = list_lru, pe_kernel_env = sample_kernel_env, pe_show_policy = (\<lambda>_. []),
      pe_enroll_clock = (0, 0), pe_sink_clock = 1, pe_jcs = (\<lambda>_. Ok ''{}''), pe_hex = (\<lambda>_. replicate 64 (CHR ''a'')),
      pe_request_ulid = ''R'', pe_debug_str = (\<lambda>s. s), pe_summary_json = (\<lambda>_. None), pe_registry = None,
      pe_context = None, pe_verification = None, pe_recovery = None, pe_provenance = None, pe_sandbox = None\<rparr>"

definition sample_emit_env :: "(unit, unit) emit_env" where
  "sample_emit_env =
     \<lparr>em_lib = sample_evidence_lib, em_key = (), em_ulid = (\<lambda>_. ''E''), em_now = (\<lambda>_. 0), em_show = (\<lambda>_. [])\<rparr>"

definition sample_wiring :: "(nat \<times> (cache_key \<times> policy_decision) list, unit, unit, unit) runtime_wiring" where
  "sample_wiring = \<lparr>rw_env = sample_pipeline_env, rw_emitter = Some sample_emit_env, rw_driver = None\<rparr>"

definition sample_engines :: "'c engines" where
  "sample_engines =
     \<lparr>en_queue = None, en_kernel = None, en_chain = [], en_sink = None, policy_constraints = None,
      policy_approval = None, policy_double_check_warnings = 0, operator_alerts = 0\<rparr>"

definition sample_runtime :: "'c runtime_state" where
  "sample_runtime = \<lparr>rs_contexts = [], rs_engines = sample_engines\<rparr>"

definition sample_runtime_context :: runtime_context where
  "sample_runtime_context = runtime_context_new ''human:a'' ''v1'' ''c1''"

lemma sample_can_answer: "can_answer sample_wiring env"
  by (simp add: can_answer_def sample_wiring_def sample_emit_env_def sample_evidence_lib_def jcs_total_def
      strategies_parse_def adapter_of_def sample_pipeline_env_def)

lemma sample_names_not_blank: "trim ''svc.restart'' = ''svc.restart''" "trim ''human:op'' = ''human:op''"
  by (rule trim_not_blank; simp add: ws_prefix_def ws_suffix_def unicode_whitespace_def suffix_def)+

lemma sample_validated: "validated (wired_env sample_wiring rc) restart_envelope"
proof -
  have "subject_canonical_id (env_identity restart_envelope) = ''human:op''"
    and "\<not> ident_is_ai (env_identity restart_envelope)"
    by (simp_all add: restart_envelope_def envelope_new_def identity_new_def)
  then show ?thesis by (simp add: validated_def sample_names_not_blank provenance_refused_def)
qed

lemma sample_verdict:
  "verdict (wired_env sample_wiring rc) (effective_driver sample_wiring) restart_envelope aid sample_engines =
   ActionSucceeded"
proof -
  have "policy_verdict (wired_env sample_wiring rc) restart_envelope sample_engines = Allow"
    and "has_room (wired_env sample_wiring rc) restart_envelope sample_engines"
    by (simp_all add: policy_verdict_def has_room_def sample_engines_def)
  moreover have "runnable (wired_env sample_wiring rc) r restart_envelope"
    and "verified (wired_env sample_wiring rc) restart_envelope aid"
    and "\<not> failure_injected (effective_driver sample_wiring)" for r
    by (simp_all add: runnable_def verified_def effective_driver_def failure_injected_def wired_env_def
        sample_wiring_def sample_pipeline_env_def)
  ultimately show ?thesis by (simp add: verdict_def sample_validated)
qed

lemma sample_submits:
  "\<exists>ctx rt'. submit_action sample_wiring ''A'' 0 restart_envelope sample_runtime_context sample_runtime = (Ok ctx, rt')"
  by (rule submit_returns [OF sample_can_answer])
    (simp add: policy_verdict_def sample_runtime_def sample_engines_def)

text \<open>
  C6: The pipeline computes the verdict: whenever a submission returns, the status of the action is
  the one that the reference function reads off the wiring, the envelope and the engines, and the
  stored context is the returned one. In particular an action is reported as succeeded exactly when
  it was valid, its provenance was not refused, the kernel (if wired) decided to allow it, the queue
  had room, an adapter was ready, and verification passed without an injected failure.
\<close>

theorem submit_computes_verdict:
  assumes "submit_action rw ulid now env rc rt = (Ok ctx, rt')"
  shows "status ctx = verdict (wired_env rw rc) (effective_driver rw) env (id_new ActionId ulid) (rs_engines rt) \<and>
    ac_action_id ctx = id_new ActionId ulid \<and> get_action_status (id_new ActionId ulid) rt' = Ok ctx \<and>
    (status ctx = ActionSucceeded \<longleftrightarrow>
       validated (wired_env rw rc) env \<and> policy_verdict (wired_env rw rc) env (rs_engines rt) = Allow \<and>
       has_room (wired_env rw rc) env (rs_engines rt) \<and> runnable (wired_env rw rc) (pe_recovery (rw_env rw)) env \<and>
       verified (wired_env rw rc) env (id_new ActionId ulid) \<and> \<not> failure_injected (effective_driver rw))"
proof -
  have "pe_recovery (wired_env rw rc) = pe_recovery (rw_env rw)" by (simp add: wired_env_def)
  then show ?thesis using submit_Ok [OF assms] rollback_not_success
    by (auto simp: verdict_def split: decision.splits if_splits)
qed

theorem submit_computes_verdict_witness:
  "\<exists>ctx rt'. submit_action sample_wiring ''A'' 0 restart_envelope sample_runtime_context sample_runtime = (Ok ctx, rt') \<and>
     status ctx = ActionSucceeded \<and> get_action_status (id_new ActionId ''A'') rt' = Ok ctx"
proof -
  obtain ctx rt' where s: "submit_action sample_wiring ''A'' 0 restart_envelope sample_runtime_context sample_runtime =
      (Ok ctx, rt')"
    using sample_submits by blast
  from submit_computes_verdict [OF s] s show ?thesis by (auto simp: sample_runtime_def sample_verdict)
qed

text \<open>
  C26: A submission always answers: when the canonical printer never fails, the manifest of the adapter
  (if any) names a rollback strategy, and the kernel (if asked) gives a decision or says that the
  subject is unknown, a submission returns a context, in one of six states.
\<close>

theorem submit_always_answers:
  assumes "can_answer rw env"
    and "validated (wired_env rw rc) env \<Longrightarrow> policy_verdict (wired_env rw rc) env (rs_engines rt) \<noteq> Unspecified"
  shows "\<exists>ctx rt'. submit_action rw ulid now env rc rt = (Ok ctx, rt') \<and>
    status ctx \<in> {ActionFailed, PolicyDenied, ApprovalPending, ActionSucceeded, ActionRolledBack, RollbackFailed}"
proof -
  obtain ctx rt' where s: "submit_action rw ulid now env rc rt = (Ok ctx, rt')"
    using submit_returns [OF assms] by blast
  have "classify_terminal outcome \<in> {ActionFailed, ActionRolledBack, RollbackFailed}" for outcome
    by (cases outcome) simp_all
  then have "rollback_verdict pe driver env \<in> {ActionFailed, ActionRolledBack, RollbackFailed}"
    for pe :: "('a, 'b) pipeline_env" and driver
    by (auto simp: rollback_verdict_def split: option.splits sum.splits)
  then have "verdict pe driver env aid st \<in> {ActionFailed, PolicyDenied, ApprovalPending, ActionSucceeded,
      ActionRolledBack, RollbackFailed}" for pe :: "('a, 'b) pipeline_env" and driver aid st
    by (auto simp: verdict_def split: decision.splits)
  then show ?thesis using s submit_Ok [OF s] by metis
qed

theorem submit_always_answers_witness:
  "\<exists>ctx rt'. submit_action sample_wiring ''A'' 0 restart_envelope sample_runtime_context sample_runtime = (Ok ctx, rt')"
  using submit_always_answers [OF sample_can_answer, of sample_runtime_context restart_envelope sample_runtime]
  by (fastforce simp: policy_verdict_def sample_runtime_def sample_engines_def)

text \<open>
  A successful submission leaves a complete record: the receipts it adds are, in this order, the
  reception, the policy decision when a kernel is wired, the dispatch with its downgrade when the
  subject is an AI, the routing decision when an adapter was found, the start and the completion of
  the execution and the result of the verification; every one names the action.
\<close>

theorem successful_submission_evidence:
  assumes "submit_action rw ulid now env rc rt = (Ok ctx, rt')" and "rw_emitter rw \<noteq> None"
    and "status ctx = ActionSucceeded"
  shows "\<exists>rs. en_chain (rs_engines rt') = en_chain (rs_engines rt) @ rs \<and>
    map r_record_type rs = map RecordType ([''ACTION_RECEIVED''] @
      (if en_kernel (rs_engines rt) = None then [] else [''POLICY_DECISION'']) @ [''ACTION_DISPATCHED''] @
      (if ident_is_ai (env_identity env) then [''AI_INTERACTIVE_QUEUE_DOWNGRADE''] else []) @
      (if adapter_of (rw_env rw) env = None then [] else [''ROUTING_DECISION'']) @
      [''EXECUTION_STARTED'', ''EXECUTION_COMPLETED'', ''VERIFICATION_RESULT'']) \<and>
    (\<forall>r \<in> set rs. r_action_id r = Some (id_new ActionId ulid) \<and>
       r_subject_canonical_id r = CAPABILITY_RUNTIME_SUBJECT)"
proof -
  have "adapter_of (wired_env rw rc) env = adapter_of (rw_env rw) env" and "pe_context (wired_env rw rc) = Some rc"
    by (simp_all add: adapter_of_def wired_env_def)
  then show ?thesis using submit_Ok [OF assms(1)] assms(2,3)
    unfolding trail_def success_types_def execute_types_def verify_types_def by (auto split: if_splits)
qed

theorem successful_submission_evidence_witness:
  "\<exists>ctx rt' rs. submit_action sample_wiring ''A'' 0 restart_envelope sample_runtime_context sample_runtime = (Ok ctx, rt') \<and>
     en_chain (rs_engines rt') = rs \<and>
     map r_record_type rs = map RecordType [''ACTION_RECEIVED'', ''ACTION_DISPATCHED'', ''EXECUTION_STARTED'',
       ''EXECUTION_COMPLETED'', ''VERIFICATION_RESULT'']"
proof -
  obtain ctx rt' where s: "submit_action sample_wiring ''A'' 0 restart_envelope sample_runtime_context sample_runtime =
      (Ok ctx, rt')"
    using sample_submits by blast
  have "status ctx = ActionSucceeded" using submit_Ok [OF s] by (simp add: sample_runtime_def sample_verdict)
  moreover have "rw_emitter sample_wiring \<noteq> None" by (simp add: sample_wiring_def)
  ultimately obtain rs where "en_chain (rs_engines rt') = rs" and "map r_record_type rs =
      map RecordType [''ACTION_RECEIVED'', ''ACTION_DISPATCHED'', ''EXECUTION_STARTED'',
       ''EXECUTION_COMPLETED'', ''VERIFICATION_RESULT'']"
    using successful_submission_evidence [OF s]
    by (auto simp: sample_runtime_def sample_engines_def sample_wiring_def sample_pipeline_env_def adapter_of_def
        restart_envelope_def envelope_new_def identity_new_def)
  then show ?thesis using s by blast
qed

end
