(* ===== verification/Runtime_Resume.thy ===== *)
theory Runtime_Resume
  imports Runtime_Liveness
begin

text \<open>
  Resuming an action that waits for approval, and what every run keeps: the receipt chain stays
  verified whatever the outcome, and the approval sink changes only where a request is filed or a
  binding is consumed. The theory also records where the runtime departs from its documentation.
\<close>

section \<open>What every run keeps\<close>

lemma queue_step_keeps:
  assumes "\<And>st q ts subj ctx. en_queue st = Some q \<Longrightarrow> P st \<Longrightarrow>
    P (st\<lparr>en_queue := Some (snd (enroll ts subj ctx q))\<rparr>)"
  shows "rt_keeps P (step_queue_with_engine pe env c now)"
  unfolding rt_keeps_def
proof (intro allI impI)
  fix st assume P: "P st"
  show "P (snd (step_queue_with_engine pe env c now st))"
  proof (cases "en_queue st")
    case None
    then show ?thesis using P
      by (simp add: step_queue_with_engine_def step_queue_def transition_to_state_def rt_then_def split: sum.split)
  next
    case (Some q)
    have "P (st\<lparr>en_queue := Some q'\<rparr>)" if "enroll ts subj ctx q = (r, q')" for ts subj ctx r q'
      using assms [OF Some P, of ts subj ctx] that by simp
    then show ?thesis using P Some
      by (auto simp: step_queue_with_engine_def transition_to_state_def fail_step_def rt_then_def
          split: prod.split sum.split runtime_error.split)
  qed
qed

locale run_invariant =
  fixes em :: "('sk, 'vk) emit_env" and P :: "'c engines \<Rightarrow> bool"
  assumes frame: "P (st\<lparr>en_kernel := k\<rparr>) = P st"
      "P (st\<lparr>policy_constraints := c, policy_approval := a\<rparr>) = P st"
      "P (st\<lparr>policy_double_check_warnings := n\<rparr>) = P st" "P (st\<lparr>operator_alerts := n\<rparr>) = P st"
    and emission: "rt_keeps P (on_chain (emit_with_retention em rt rc ctx payload))"
    and enrolment: "en_queue st = Some q \<Longrightarrow> P st \<Longrightarrow> P (st\<lparr>en_queue := Some (snd (enroll ts subj ctx q))\<rparr>)"
begin

lemma emit_keeps [rt_keeps_intros]: "rt_keeps P (on_chain (emit em rt ctx payload))"
  unfolding emit_def by (rule emission)

lemma step_then_keeps [rt_keeps_intros]:
  "rt_keeps P m \<Longrightarrow> (\<And>c. rt_keeps P (f c)) \<Longrightarrow> rt_keeps P (step_then m f)"
  unfolding step_then_def by (intro rt_keeps_then) (auto intro: rt_keeps_return split: step_state.split)

lemma transition_keeps [rt_keeps_intros]: "rt_keeps P (transition_to_state c to now)"
  unfolding transition_to_state_def by (rule rt_keeps_lift)

lemma fail_keeps [rt_keeps_intros]: "rt_keeps P (fail_step c why now)"
  unfolding fail_step_def by (intro rt_keeps_intros)

lemma validate_keeps [rt_keeps_intros]: "rt_keeps P (step_validate_with_provenance_and_sandbox pe env c now r)"
  unfolding step_validate_with_provenance_and_sandbox_def step_validate_def by (intro rt_keeps_intros)

lemma receive_keeps [rt_keeps_intros]: "rt_keeps P (receive_action em pe env c now)"
  unfolding receive_action_def emit_action_received_def
  by (intro rt_keeps_then validate_keeps) (auto intro!: rt_keeps_intros split: step_state.split)

lemma apply_decision_keeps: "rt_keeps P (apply_decision rc d c now)"
  by (auto simp: rt_keeps_def apply_decision_def transition_to_state_def install_policy_def rt_then_def
      Let_def frame split: decision.splits prod.splits sum.splits)

lemma policy_error_keeps: "rt_keeps P (policy_error_step pe e c now)"
  by (auto simp: rt_keeps_def policy_error_step_def transition_to_state_def install_policy_def rt_then_def
      frame split: prod.splits sum.splits)

lemma policy_step_keeps:
  assumes "\<And>rc d. rt_keeps P (decided rc d)"
  shows "rt_keeps P (\<lambda>st. case (en_kernel st, pe_context pe) of
      (Some k, Some rc) \<Rightarrow>
        (case ask_kernel pe env rc k of
           (Inr d, k') \<Rightarrow> decided rc d (st\<lparr>en_kernel := Some k'\<rparr>)
         | (Inl e, k') \<Rightarrow> policy_error_step pe e c now (st\<lparr>en_kernel := Some k'\<rparr>))
    | _ \<Rightarrow> step_policy_evaluate env c now st)"
  unfolding rt_keeps_def
proof (intro allI impI)
  fix st assume P: "P st"
  have "P (snd (step_policy_evaluate env c now st))"
    using P unfolding step_policy_evaluate_def by (intro rt_keepsD [of P]) (intro rt_keeps_intros)
  moreover have "P (snd (decided rc d (st\<lparr>en_kernel := k\<rparr>)))"
    and "P (snd (policy_error_step pe e c now (st\<lparr>en_kernel := k\<rparr>)))" for rc d e k
    using P frame(1) rt_keepsD [OF assms] rt_keepsD [OF policy_error_keeps] by blast+
  ultimately show "P (snd (case (en_kernel st, pe_context pe) of
      (Some k, Some rc) \<Rightarrow>
        (case ask_kernel pe env rc k of
           (Inr d, k') \<Rightarrow> decided rc d (st\<lparr>en_kernel := Some k'\<rparr>)
         | (Inl e, k') \<Rightarrow> policy_error_step pe e c now (st\<lparr>en_kernel := Some k'\<rparr>))
    | _ \<Rightarrow> step_policy_evaluate env c now st))"
    by (auto split: option.split prod.split sum.split)
qed

lemma policy_keeps [rt_keeps_intros]: "rt_keeps P (step_policy_evaluate_with_kernel pe env c now)"
  unfolding step_policy_evaluate_with_kernel_def [abs_def]
  by (rule policy_step_keeps) (rule apply_decision_keeps)

lemma policy_emit_keeps [rt_keeps_intros]:
  "rt_keeps P (step_policy_evaluate_with_kernel_and_emit em pe env c now)"
  unfolding step_policy_evaluate_with_kernel_and_emit_def [abs_def] emit_policy_decision_def
  by (rule policy_step_keeps) (intro rt_keeps_intros apply_decision_keeps)

lemma queue_keeps [rt_keeps_intros]: "rt_keeps P (step_queue_with_engine pe env c now)"
  by (rule queue_step_keeps) (rule enrolment)

lemma queue_emit_keeps [rt_keeps_intros]: "rt_keeps P (step_queue_with_engine_and_emit em pe env c now)"
  unfolding step_queue_with_engine_and_emit_def Let_def emit_action_queued_def
    emit_ai_interactive_queue_downgrade_def
  by (intro rt_keeps_then queue_keeps) (auto intro!: rt_keeps_intros split: step_state.split)

lemma execute_keeps [rt_keeps_intros]: "rt_keeps P (step_execute_with_engines pe recovery env c now)"
  unfolding step_execute_with_engines_def Let_def
  by (auto intro!: rt_keeps_intros split: option.split)

lemma execute_emit_keeps [rt_keeps_intros]:
  "rt_keeps P (step_execute_with_engines_and_emit em pe recovery env c now)"
  unfolding step_execute_with_engines_and_emit_def Let_def emit_routing_decision_def emit_execution_started_def
  by (intro rt_keeps_then execute_keeps) (auto intro!: rt_keeps_intros split: step_state.split option.split)

lemma verify_keeps [rt_keeps_intros]: "rt_keeps P (step_verify_with_engine pe env c now)"
  unfolding step_verify_with_engine_def step_verify_def Let_def
  by (auto intro!: rt_keeps_intros split: option.split sum.split)

lemma verify_emit_keeps [rt_keeps_intros]: "rt_keeps P (step_verify_with_engine_and_emit em pe env c now)"
  unfolding step_verify_with_engine_and_emit_def emit_execution_completed_def emit_verification_result_def Let_def
  by (intro rt_keeps_intros)

lemma verify_injected_keeps [rt_keeps_intros]:
  "rt_keeps P (step_verify_inject_failure_and_emit em pe driver env c now)"
  unfolding step_verify_inject_failure_and_emit_def
  by (intro rt_keeps_if verify_emit_keeps)
    (auto simp: emit_execution_completed_def emit_verification_result_def intro!: rt_keeps_intros)

lemma rollback_keeps [rt_keeps_intros]: "rt_keeps P (step_rollback_with_driver_and_emit em pe driver env c now)"
proof -
  have "rt_keeps P (step_rollback_with_driver pe driver env c now)"
    by (auto simp: rt_keeps_def step_rollback_with_driver_def rt_then_def transition_to_state_def Let_def frame
        split: option.split prod.split sum.split rollback_outcome.split)
  then show ?thesis unfolding step_rollback_with_driver_and_emit_def
    by (intro rt_keeps_then)
      (auto simp: emit_rollback_completed_def Let_def intro!: rt_keeps_intros emission split: option.split)
qed

lemma finish_keeps [rt_keeps_intros]: "rt_keeps P m \<Longrightarrow> rt_keeps P (finish_with env now m)"
  unfolding finish_with_def step_emit_evidence_def by (intro rt_keeps_intros)

lemma run_keeps [rt_keeps_intros]:
  "rt_keeps P (run_with_full_engines_and_evidence_and_rollback em pe driver env c now)"
  unfolding run_with_full_engines_and_evidence_and_rollback_def step_request_approval_passthrough_def
  by (intro rt_keeps_intros)

lemma run_plain_keeps [rt_keeps_intros]: "rt_keeps P (run_with_full_engines pe env c now)"
  unfolding run_with_full_engines_def step_request_approval_passthrough_def step_rollback_def
  by (intro rt_keeps_intros queue_keeps)

lemma run_pipeline_keeps:
  assumes "rw_emitter rw = None \<or> rw_emitter rw = Some em"
  shows "rt_keeps P (run_pipeline rw rc env c now)"
  using assms run_keeps [of "(rw_env rw)\<lparr>pe_context := Some rc\<rparr>" "rw_driver rw" env c now]
    no_rollback_driver [of em "(rw_env rw)\<lparr>pe_context := Some rc\<rparr>" env c now]
  by (cases "rw_driver rw") (auto simp: run_pipeline_def Let_def run_plain_keeps)

lemma continue_keeps:
  assumes "rw_emitter rw = None \<or> rw_emitter rw = Some em"
  shows "rt_keeps P (continue_approved rw env c now)"
  using assms unfolding continue_approved_def Let_def
  by (auto intro!: rt_keeps_intros queue_keeps)

end

text \<open>
  Three instances: the content of the approval sink, the verified receipt chain, and what a lane of
  the dispatch queue holds. Enrolling is the only step of the runtime that touches the queue.
\<close>

definition lane_grows :: "dispatch_queue \<Rightarrow> queue_class \<Rightarrow> 'c engines \<Rightarrow> bool" where
  "lane_grows q0 cls st \<longleftrightarrow>
     (\<exists>q. en_queue st = Some q \<and> prefix (lane q0 cls) (lane q cls) \<and> lane_room q = lane_room q0)"

lemma enroll_grows:
  "prefix (lane q cls) (lane (snd (enroll ts subj ctx q)) cls) \<and> lane_room (snd (enroll ts subj ctx q)) = lane_room q"
proof (cases "enroll ts subj ctx q")
  case (Pair r q')
  then have "enroll_as (ts, subj) ctx q = (r, q')" by (simp add: enroll_as_def)
  then show ?thesis using dq.put_Ok [of "(ts, subj)" ctx q _ q'] dq.put_Err [of "(ts, subj)" ctx q _ q']
      dq.put_room [of "(ts, subj)" ctx q] Pair
    by (cases r) auto
qed

interpretation lane_kept: run_invariant em "lane_grows q0 cls" for em q0 cls
  using enroll_grows
  by unfold_locales
    (fastforce simp: lane_grows_def rt_keeps_def on_chain_def split: prod.splits dest: prefix_order.trans)+

interpretation sink_kept: run_invariant em "\<lambda>st. en_sink st = s" for em s
  by unfold_locales (auto simp: rt_keeps_def on_chain_def split: prod.splits)

lemma chain_run_invariant:
  assumes "key_pair (em_lib em) (em_key em) vk"
  shows "run_invariant em (\<lambda>st. chain_ok em vk (en_chain st))"
proof
  fix rt rc ctx payload
  show "rt_keeps (\<lambda>st. chain_ok em vk (en_chain st)) (on_chain (emit_with_retention em rt rc ctx payload))"
    using emit_with_retention_keeps [OF assms, of rt rc ctx payload]
    by (auto simp: rt_keeps_def on_chain_def split: prod.splits)
qed simp_all

section \<open>Resumption\<close>

lemma consume_step_Ok:
  assumes "step_consume_binding em pe env ctx now sink bid wanted st = (Ok s, st')"
  shows "\<exists>g sink'. fst (consume_binding (pe_sink_clock pe) bid sink) = Ok (g\<lparr>binding_state := BindConsumed\<rparr>) \<and>
    sink' = snd (consume_binding (pe_sink_clock pe) bid sink) \<and> en_sink st' = Some sink' \<and>
    map_of (sk_bindings sink) bid = Some g \<and> binding_state g = BindGranted \<and>
    pe_sink_clock pe < ab_expires_at g \<and>
    (bound_action_canonical_hash g = [] \<or> bound_action_canonical_hash g = canonical_request_hash pe env) \<and>
    \<not> (ident_is_ai (env_identity env) \<and> granted_by g = subject_canonical_id (env_identity env)) \<and>
    class_matches wanted (granted_by_class g) \<and>
    status ctx = ApprovalPending \<and> status (into_context s) = Approved \<and>
    ac_action_id (into_context s) = ac_action_id ctx"
proof -
  obtain b sink' where c: "consume_binding (pe_sink_clock pe) bid sink = (Ok b, sink')"
    and st: "status ctx = ApprovalPending"
    using assms by (auto simp: step_consume_binding_def split: if_splits prod.splits sum.splits)
  obtain g where g: "map_of (sk_bindings sink) bid = Some g" "binding_state g = BindGranted"
    "pe_sink_clock pe < ab_expires_at g" "b = g\<lparr>binding_state := BindConsumed\<rparr>"
    using c consume_Ok_iff [of "pe_sink_clock pe" bid sink b] by auto
  have no_refusal: "refuse_binding em ctx b code message e st1 \<noteq> (Ok s, st')" for code message e st1
    by (auto simp: refuse_binding_def result_simps split: option.splits)
  obtain k: "\<not> (bound_action_canonical_hash g \<noteq> [] \<and> canonical_request_hash pe env \<noteq> bound_action_canonical_hash g)"
      "\<not> (ident_is_ai (env_identity env) \<and> granted_by g = subject_canonical_id (env_identity env))"
      "class_matches wanted (granted_by_class g)"
    and run: "rt_then (transition_to_state ctx Approved now) (\<lambda>ctx. case em of
          None \<Rightarrow> rt_return (StepContinue ctx)
        | Some em \<Rightarrow> rt_then (on_chain (emit_approval_granted em ctx (ab_request_id b) (binding_id b)
            (granted_by b) (bound_action_canonical_hash b))) (\<lambda>ctx. rt_return (StepContinue ctx)))
        (st\<lparr>en_sink := Some sink'\<rparr>) = (Ok s, st')"
    using assms c st g(4) no_refusal
    by (auto simp: step_consume_binding_def Let_def split: if_splits)
  have "en_sink st' = Some sink' \<and> status (into_context s) = Approved \<and>
      ac_action_id (into_context s) = ac_action_id ctx"
  proof (cases em)
    case None
    then show ?thesis using run by (auto simp: result_simps)
  next
    case (Some em')
    then obtain c' where "on_chain (emit_approval_granted em' (ctx\<lparr>status := Approved, last_updated_at := now\<rparr>)
        (ab_request_id b) (binding_id b) (granted_by b) (bound_action_canonical_hash b))
        (st\<lparr>en_sink := Some sink'\<rparr>) = (Ok c', st')" and "s = StepContinue c'"
      using run st by (auto simp: result_simps)
    then show ?thesis
      using recorded_fields [OF on_chain_emit] unfolding emit_approval_granted_def by fastforce
  qed
  then show ?thesis using c g k st by auto
qed

lemma queue_Ok:
  "step_queue_with_engine pe env c now st = (Ok s, st') \<Longrightarrow>
   status (into_context s) = (if has_room pe env st then Queued else ActionFailed) \<and>
   ac_action_id (into_context s) = ac_action_id c"
  "step_queue_with_engine_and_emit em pe env c now st = (Ok s, st') \<Longrightarrow>
   status (into_context s) = (if has_room pe env st then Queued else ActionFailed) \<and>
   ac_action_id (into_context s) = ac_action_id c"
  by (cases s; auto simp: advanced_def dest: queue_continue queue_stop queue_emit_continue queue_emit_stop)+

lemma execute_Ok:
  fixes st :: "'c engines"
  shows "step_execute_with_engines pe recovery env c now st = (Ok s, st') \<Longrightarrow>
   status (into_context s) = (if runnable pe recovery env then Executing else ActionFailed) \<and>
   ac_action_id (into_context s) = ac_action_id c"
  "step_execute_with_engines_and_emit em pe recovery env c now st = (Ok s, st') \<Longrightarrow>
   status (into_context s) = (if runnable pe recovery env then Executing else ActionFailed) \<and>
   ac_action_id (into_context s) = ac_action_id c"
  by (cases s; auto simp: advanced_def dest: execute_continue execute_stop execute_emit_continue execute_emit_stop)+

lemma verify_status:
  fixes st :: "'c engines"
  shows "step_verify_with_engine pe env c now st = (Ok s, st') \<Longrightarrow>
   status (into_context s) = (if verified pe env (ac_action_id c) then ActionSucceeded else ActionFailed) \<and>
   ac_action_id (into_context s) = ac_action_id c"
  "step_verify_with_engine_and_emit em pe env c now st = (Ok s, st') \<Longrightarrow>
   status (into_context s) = (if verified pe env (ac_action_id c) then ActionSucceeded else ActionFailed) \<and>
   ac_action_id (into_context s) = ac_action_id c"
  by (auto simp: advanced_def split: if_splits dest!: verify_Ok verify_emit_Ok)

lemma continue_outcome:
  assumes run: "rt_then queue (\<lambda>state.
      if status (into_context state) = Queued
      then rt_then (execute (into_context state)) (\<lambda>state.
             if status (into_context state) = Executing
             then rt_then (verify (into_context state)) (\<lambda>state. rt_return (into_context state))
             else rt_return (into_context state))
      else rt_return (into_context state)) st = (Ok c, st')"
    and q: "\<And>s st'. queue st = (Ok s, st') \<Longrightarrow> status (into_context s) = (if room then Queued else ActionFailed) \<and>
      ac_action_id (into_context s) = aid"
    and x: "\<And>b st s st'. execute b st = (Ok s, st') \<Longrightarrow> status (into_context s) =
      (if ready then Executing else ActionFailed) \<and> ac_action_id (into_context s) = ac_action_id b"
    and y: "\<And>b st s st'. verify b st = (Ok s, st') \<Longrightarrow> status (into_context s) =
      (if passed (ac_action_id b) then ActionSucceeded else ActionFailed) \<and>
      ac_action_id (into_context s) = ac_action_id b"
  shows "status c = (if room \<and> ready \<and> passed aid then ActionSucceeded else ActionFailed) \<and> ac_action_id c = aid"
proof -
  obtain s1 st1 where 1: "queue st = (Ok s1, st1)"
    and r1: "(if status (into_context s1) = Queued
      then rt_then (execute (into_context s1)) (\<lambda>state.
             if status (into_context state) = Executing
             then rt_then (verify (into_context state)) (\<lambda>state. rt_return (into_context state))
             else rt_return (into_context state))
      else rt_return (into_context s1)) st1 = (Ok c, st')"
    using run by (auto simp: rt_then_Ok_iff [of queue])
  show ?thesis
  proof (cases room)
    case True
    then obtain s2 st2 where 2: "execute (into_context s1) st1 = (Ok s2, st2)"
      and r2: "(if status (into_context s2) = Executing
        then rt_then (verify (into_context s2)) (\<lambda>state. rt_return (into_context state))
        else rt_return (into_context s2)) st2 = (Ok c, st')"
      using r1 q [OF 1] by (auto simp: rt_then_Ok_iff [of "execute (into_context s1)"] Let_def)
    show ?thesis
    proof (cases ready)
      case True
      then obtain s3 where 3: "verify (into_context s2) st2 = (Ok s3, st')" and "c = into_context s3"
        using r2 x [OF 2] by (auto simp: rt_map_Ok_iff)
      then show ?thesis using q [OF 1] x [OF 2] y [OF 3] \<open>room\<close> True by simp
    qed (use q [OF 1] x [OF 2] r2 in simp)
  qed (use q [OF 1] r1 in simp)
qed

lemma continue_Ok:
  assumes "continue_approved rw env ctx now st = (Ok c, st')"
  shows "status c = (if has_room (rw_env rw) env st \<and> runnable (rw_env rw) (pe_recovery (rw_env rw)) env \<and>
      verified (rw_env rw) env (ac_action_id ctx) then ActionSucceeded else ActionFailed) \<and>
    ac_action_id c = ac_action_id ctx \<and> en_sink st' = en_sink st"
proof -
  have "rt_keeps (\<lambda>st1. en_sink st1 = en_sink st) (continue_approved rw env ctx now)"
    by (cases "rw_emitter rw") (auto intro: sink_kept.continue_keeps)
  then have "en_sink st' = en_sink st" using rt_keepsD [of _ "continue_approved rw env ctx now" st] assms by fastforce
  moreover have "status c = (if has_room (rw_env rw) env st \<and> runnable (rw_env rw) (pe_recovery (rw_env rw)) env \<and>
      verified (rw_env rw) env (ac_action_id ctx) then ActionSucceeded else ActionFailed) \<and>
      ac_action_id c = ac_action_id ctx"
  proof (cases "rw_emitter rw")
    case None
    show ?thesis
      by (rule continue_outcome [OF assms [unfolded continue_approved_def Let_def None option.case]])
        (erule queue_Ok execute_Ok verify_status)+
  next
    case (Some em)
    show ?thesis
      by (rule continue_outcome [OF assms [unfolded continue_approved_def Let_def Some option.case]])
        (erule queue_Ok execute_Ok verify_status)+
  qed
  ultimately show ?thesis by blast
qed

lemma resume_Ok:
  assumes "resume_with_binding rw now aid env rc bid rt = (Ok ctx, rt')"
  shows "\<exists>sink stored g. en_sink (rs_engines rt) = Some sink \<and>
    map_of (rs_contexts rt) aid = Some stored \<and> status stored = ApprovalPending \<and>
    map_of (sk_bindings sink) bid = Some g \<and> binding_state g = BindGranted \<and>
    fst (consume_binding (pe_sink_clock (rw_env rw)) bid sink) = Ok (g\<lparr>binding_state := BindConsumed\<rparr>) \<and>
    (bound_action_canonical_hash g = [] \<or>
     bound_action_canonical_hash g = canonical_request_hash (rw_env rw) env) \<and>
    \<not> (ident_is_ai (env_identity env) \<and> granted_by g = subject_canonical_id (env_identity env)) \<and>
    class_matches (rc_approval rc) (granted_by_class g) \<and>
    en_sink (rs_engines rt') = Some (snd (consume_binding (pe_sink_clock (rw_env rw)) bid sink)) \<and>
    get_action_status aid rt' = Ok ctx \<and> status ctx \<in> {ActionSucceeded, ActionFailed}"
proof -
  obtain sink stored where sink: "en_sink (rs_engines rt) = Some sink"
    and stored: "map_of (rs_contexts rt) aid = Some stored" "status stored = ApprovalPending"
    using assms by (auto simp: resume_with_binding_def split: option.splits if_splits)
  then obtain s st1 st2 where c: "step_consume_binding (rw_emitter rw) (rw_env rw) env stored now sink bid
        (rc_approval rc) (enter_context rc (rs_engines rt)) = (Ok s, st1)"
    and k: "continue_approved rw env (into_context s) now st1 = (Ok ctx, st2)"
    and rt': "rt' = rt\<lparr>rs_contexts := AList.update aid ctx (rs_contexts rt), rs_engines := st2\<rparr>"
    using assms by (auto simp: resume_with_binding_def store_Ok_iff rt_then_Ok_iff)
  obtain g where g: "map_of (sk_bindings sink) bid = Some g" "binding_state g = BindGranted"
    "fst (consume_binding (pe_sink_clock (rw_env rw)) bid sink) = Ok (g\<lparr>binding_state := BindConsumed\<rparr>)"
    "bound_action_canonical_hash g = [] \<or>
      bound_action_canonical_hash g = canonical_request_hash (rw_env rw) env"
    "\<not> (ident_is_ai (env_identity env) \<and> granted_by g = subject_canonical_id (env_identity env))"
    "class_matches (rc_approval rc) (granted_by_class g)"
    "en_sink st1 = Some (snd (consume_binding (pe_sink_clock (rw_env rw)) bid sink))"
    using consume_step_Ok [OF c] by blast
  show ?thesis
    using sink stored g continue_Ok [OF k] rt'
    by (auto simp: get_action_status_def AList.update_conv' split: if_splits)
qed

section \<open>The service keeps its receipt chain verified\<close>

text \<open>One call of \<open>execute_action\<close>: its wiring (with the clocks it reads), the fresh identifier, the
  instant, the envelope, and the two optional identifiers of the request.\<close>

type_synonym ('c, 'rk, 'sk, 'vk) service_call =
  "('c, 'rk, 'sk, 'vk) runtime_wiring \<times> string \<times> instant \<times> action_envelope \<times> string \<times> string"

definition serve ::
    "hydrated_subject \<Rightarrow> string \<Rightarrow> string \<Rightarrow> ulid_from_string \<Rightarrow> ('c, 'rk, 'sk, 'vk) service_call \<Rightarrow>
     'c runtime_state \<Rightarrow> 'c runtime_state" where
  "serve subj bv cv valid call rt =
     (case call of (rw, ulid, now, env, bid, rid) \<Rightarrow>
        snd (execute_action rw subj bv cv valid ulid now env bid rid rt))"

lemma keeps_sink_update:
  assumes "\<And>st. P (st\<lparr>en_sink := s\<rparr>) = P st" and "rt_keeps P m"
  shows "rt_keeps P (\<lambda>st. m (st\<lparr>en_sink := s\<rparr>))"
  using assms by (auto simp: rt_keeps_def)

lemma store_engines: "rs_engines (snd (store_result aid out rt)) = snd out"
  by (auto simp: store_result_def split: prod.splits sum.splits)

context run_invariant
begin

lemma request_approval_keeps:
  assumes "\<And>st s. P (st\<lparr>en_sink := s\<rparr>) = P st"
  shows "rt_keeps P (step_request_approval (Some em) pe env c wanted)"
proof -
  have "rt_keeps P (rt_then (on_chain (emit_approval_requested em c rid subj ai ttl cosigner))
      (\<lambda>ctx. rt_return (StepShortCircuit ctx)))" for rid subj ai ttl cosigner
    unfolding emit_approval_requested_def by (intro rt_keeps_intros)
  then show ?thesis using assms
    by (auto simp: rt_keeps_def step_request_approval_def Let_def split: option.splits)
qed

lemma refuse_keeps: "rt_keeps P (refuse_binding (Some em) c b code message e)"
  unfolding refuse_binding_def emit_approval_denied_def by (auto intro!: rt_keeps_intros)

lemma consume_keeps:
  assumes "\<And>st s. P (st\<lparr>en_sink := s\<rparr>) = P st"
  shows "rt_keeps P (step_consume_binding (Some em) pe env c now sink bid wanted)"
proof -
  have granted: "rt_keeps P (rt_then (transition_to_state c Approved now) (\<lambda>ctx.
      rt_then (on_chain (emit_approval_granted em ctx rid b who hash)) (\<lambda>ctx. rt_return (StepContinue ctx))))"
    for rid b who hash
    unfolding emit_approval_granted_def by (intro rt_keeps_intros)
  show ?thesis unfolding rt_keeps_def
  proof (intro allI impI)
    fix st assume P: "P st"
    then have "P (st\<lparr>en_sink := s\<rparr>)" for s using assms by simp
    then show "P (snd (step_consume_binding (Some em) pe env c now sink bid wanted st))"
      using P rt_keepsD [OF granted] rt_keepsD [OF refuse_keeps]
      by (auto simp: step_consume_binding_def Let_def split: prod.splits sum.splits)
  qed
qed

lemma submit_keeps:
  assumes "\<And>st s. P (st\<lparr>en_sink := s\<rparr>) = P st" and "rw_emitter rw = Some em" and "P (rs_engines rt)"
  shows "P (rs_engines (snd (submit_action rw ulid now env rc rt)))"
proof -
  have park: "rt_keeps P (park_for_approval rw env c)" for c
    using rt_keepsD [OF rt_keeps_then [OF request_approval_keeps [OF assms(1)] rt_keeps_return]] assms(2)
    by (auto simp: rt_keeps_def park_for_approval_def)
  have "rt_keeps P (rt_then (run_pipeline rw rc env c now) (park_for_approval rw env))" for c
    using assms(2) by (intro rt_keeps_then run_pipeline_keeps park) simp
  then show ?thesis using assms(3)
    by (simp add: submit_action_def Let_def store_engines rt_keeps_def enter_context_def install_policy_def frame)
qed

lemma resume_keeps:
  assumes "\<And>st s. P (st\<lparr>en_sink := s\<rparr>) = P st" and "rw_emitter rw = Some em" and "P (rs_engines rt)"
  shows "P (rs_engines (snd (resume_with_binding rw now aid env rc bid rt)))"
proof -
  have "rt_keeps P (rt_then (step_consume_binding (rw_emitter rw) (rw_env rw) env c now sink bid wanted)
      (\<lambda>state. continue_approved rw env (into_context state) now))" for c sink wanted
    using assms(2) by (auto intro!: rt_keeps_then consume_keeps [OF assms(1)] continue_keeps)
  then show ?thesis using assms(3)
    by (auto simp: resume_with_binding_def store_engines rt_keeps_def enter_context_def install_policy_def frame
        split: option.split)
qed

lemma serve_keeps:
  assumes "\<And>st s. P (st\<lparr>en_sink := s\<rparr>) = P st" and "rw_emitter (fst call) = Some em" and "P (rs_engines rt)"
  shows "P (rs_engines (serve subj bv cv valid call rt))"
proof -
  obtain rw ulid now env bid rid where call: "call = (rw, ulid, now, env, bid, rid)" by (cases call)
  have "P (rs_engines (snd (submit_action rw ulid now env rc rt)))"
    and "P (rs_engines (snd (resume_with_binding rw now aid env rc bid rt)))" for rc aid
    using submit_keeps [OF assms(1) _ assms(3)] resume_keeps [OF assms(1) _ assms(3)] assms(2) call by simp_all
  then show ?thesis using assms(3)
    by (auto simp: serve_def execute_action_def call Let_def case_prod_beta split: sum.split)
qed

end

text \<open>
  C7: The service keeps its record verified. Whatever calls the service receives, in whatever order, and
  however they end, errors included, the receipt chain passes the integrity walk and every receipt
  on it carries a valid signature.
\<close>

theorem service_chain_verifies:
  assumes "key_pair (em_lib em) (em_key em) vk" and "\<forall>call \<in> set calls. rw_emitter (fst call) = Some em"
    and "en_chain (rs_engines rt) = []"
  shows "chain_ok em vk (en_chain (rs_engines (fold (serve subj bv cv valid) calls rt)))"
proof -
  have "chain_ok em vk (en_chain (rs_engines rt))" using assms(3) by (simp add: chain_ok_def)
  then show ?thesis using assms(2)
  proof (induction calls arbitrary: rt)
    case (Cons call calls)
    have "chain_ok em vk (en_chain (rs_engines (serve subj bv cv valid call rt)))"
      using run_invariant.serve_keeps [OF chain_run_invariant [OF assms(1)], of call rt] Cons.prems by simp
    then show ?case using Cons.IH Cons.prems by simp
  qed simp
qed

theorem service_chain_verifies_witness:
  "chain_ok sample_emit_env () (en_chain (rs_engines (fold (serve (default_hydrated_subject ''human:a'') ''v1'' ''c1''
     (\<lambda>_. Ok ())) [(sample_wiring, ''A'', 0, restart_envelope, [], []), (sample_wiring, ''B'', 1, restart_envelope, [], [])]
     sample_runtime)))"
  by (rule service_chain_verifies)
    (simp_all add: sample_emit_env_def sample_key_pair sample_wiring_def sample_runtime_def sample_engines_def)

text \<open>
  C8: Resumption fails closed. When an action that waits for approval is resumed successfully, the
  binding was granted and had not expired, it was bound to this request (or to none), an AI subject
  did not grant it to itself, and the class of the approver is one that the policy of the call
  accepts (never an agent when the policy names none); afterwards the binding is consumed, so that
  it cannot be used again.
\<close>

theorem resume_needs_granted_binding:
  assumes "resume_with_binding rw now aid env rc bid rt = (Ok ctx, rt')"
  shows "\<exists>sink g stored. en_sink (rs_engines rt) = Some sink \<and>
    map_of (rs_contexts rt) aid = Some stored \<and> status stored = ApprovalPending \<and>
    map_of (sk_bindings sink) bid = Some g \<and> binding_state g = BindGranted \<and>
    pe_sink_clock (rw_env rw) < ab_expires_at g \<and>
    bound_action_canonical_hash g \<in> {[], canonical_request_hash (rw_env rw) env} \<and>
    (ident_is_ai (env_identity env) \<longrightarrow> granted_by g \<noteq> subject_canonical_id (env_identity env)) \<and>
    (case rc_approval rc of
       Some req \<Rightarrow> if approver_classes req = [] then granted_by_class g \<noteq> ApAgent
                   else granted_by_class g \<in> set (approver_classes req)
     | None \<Rightarrow> granted_by_class g \<noteq> ApAgent) \<and>
    (\<exists>sink' g'. en_sink (rs_engines rt') = Some sink' \<and> map_of (sk_bindings sink') bid = Some g' \<and>
       binding_state g' = BindConsumed \<and>
       (\<forall>later b. fst (consume_binding later bid sink') \<noteq> Ok b))"
proof -
  obtain sink stored g where *: "en_sink (rs_engines rt) = Some sink" "map_of (rs_contexts rt) aid = Some stored"
    "status stored = ApprovalPending" "map_of (sk_bindings sink) bid = Some g" "binding_state g = BindGranted"
    "fst (consume_binding (pe_sink_clock (rw_env rw)) bid sink) = Ok (g\<lparr>binding_state := BindConsumed\<rparr>)"
    "bound_action_canonical_hash g = [] \<or> bound_action_canonical_hash g = canonical_request_hash (rw_env rw) env"
    "\<not> (ident_is_ai (env_identity env) \<and> granted_by g = subject_canonical_id (env_identity env))"
    "class_matches (rc_approval rc) (granted_by_class g)"
    "en_sink (rs_engines rt') = Some (snd (consume_binding (pe_sink_clock (rw_env rw)) bid sink))"
    using resume_Ok [OF assms] by blast
  let ?sink = "snd (consume_binding (pe_sink_clock (rw_env rw)) bid sink)"
  have fresh: "pe_sink_clock (rw_env rw) < ab_expires_at g" using *(4,6) by (auto simp: consume_Ok_iff)
  have consumed: "map_of (sk_bindings ?sink) bid = Some (g\<lparr>binding_state := BindConsumed\<rparr>)"
    using *(4,5) fresh by (simp add: consume_binding_def)
  then have "fst (consume_binding later bid ?sink) \<noteq> Ok b" for later b by (simp add: consume_Ok_iff)
  then show ?thesis using * fresh consumed
    by (intro exI [of _ sink] exI [of _ g] exI [of _ stored])
      (auto simp: class_matches_def split: option.splits if_splits)
qed

definition sample_granted_sink :: approval_sink where
  "sample_granted_sink = sink_after
     [SinkSubmit (sample_approval_request\<lparr>aq_bound_hash := canonical_request_hash sample_pipeline_env restart_envelope\<rparr>),
      SinkInject ''U'' 0 ''actrq_1'' ''operator:o'' ApOperator]"

definition sample_waiting_runtime :: "string \<Rightarrow> (nat \<times> (cache_key \<times> policy_decision) list) runtime_state" where
  "sample_waiting_runtime aid =
     \<lparr>rs_contexts = [(aid, (fresh_context aid 0)\<lparr>status := ApprovalPending\<rparr>)],
      rs_engines = sample_engines\<lparr>en_sink := Some sample_granted_sink\<rparr>\<rparr>"

definition sample_quiet_wiring :: "(nat \<times> (cache_key \<times> policy_decision) list, unit, unit, unit) runtime_wiring" where
  "sample_quiet_wiring = sample_wiring\<lparr>rw_emitter := None\<rparr>"

lemma sample_binding:
  obtains g where "map_of (sk_bindings sample_granted_sink) ''appb_U'' = Some g"
    and "ab_action_id g = ''act_1''" and "binding_state g = BindGranted" and "1 < ab_expires_at g" and "granted_by_class g = ApOperator"
    and "bound_action_canonical_hash g = canonical_request_hash sample_pipeline_env restart_envelope"
  by (simp add: sample_granted_sink_def sink_after_def sample_approval_request_def sink_new_def
      submit_request_def inject_granted_binding_def set_binding_def id_new_def fresh_id_def
      approval_requirement_default_def duration_seconds_def Let_def)

lemma sample_resumes:
  "\<exists>ctx rt'. resume_with_binding sample_quiet_wiring 2 aid restart_envelope sample_runtime_context ''appb_U''
     (sample_waiting_runtime aid) = (Ok ctx, rt') \<and> status ctx = ActionSucceeded \<and> ac_action_id ctx = aid"
proof -
  obtain g where g: "map_of (sk_bindings sample_granted_sink) ''appb_U'' = Some g"
    "binding_state g = BindGranted" "1 < ab_expires_at g" "granted_by_class g = ApOperator"
    "bound_action_canonical_hash g = canonical_request_hash sample_pipeline_env restart_envelope"
    using sample_binding by blast
  have env: "rw_env sample_quiet_wiring = sample_pipeline_env" "rw_emitter sample_quiet_wiring = None"
    by (simp_all add: sample_quiet_wiring_def sample_wiring_def)
  have "pe_sink_clock sample_pipeline_env = 1" "pe_registry sample_pipeline_env = None"
    "pe_verification sample_pipeline_env = None"
    by (simp_all add: sample_pipeline_env_def)
  moreover have "rc_approval sample_runtime_context = None"
    by (simp add: sample_runtime_context_def runtime_context_new_def)
  moreover have "\<not> ident_is_ai (env_identity restart_envelope)"
    by (simp add: restart_envelope_def envelope_new_def identity_new_def)
  ultimately show ?thesis using g env
    by (simp add: resume_with_binding_def sample_waiting_runtime_def store_result_def step_consume_binding_def
        consume_binding_def class_matches_def continue_approved_def step_queue_with_engine_def step_queue_def
        step_execute_with_engines_def step_verify_with_engine_def step_verify_def sample_engines_def
        enter_context_def install_policy_def Let_def)
qed

theorem resume_needs_granted_binding_witness:
  "\<exists>sink g. en_sink (rs_engines (sample_waiting_runtime ''act_1'')) = Some sink \<and>
     map_of (sk_bindings sink) ''appb_U'' = Some g \<and> binding_state g = BindGranted \<and> granted_by_class g \<noteq> ApAgent"
proof -
  obtain ctx rt' where "resume_with_binding sample_quiet_wiring 2 ''act_1'' restart_envelope sample_runtime_context ''appb_U''
      (sample_waiting_runtime ''act_1'') = (Ok ctx, rt')"
    using sample_resumes by blast
  from resume_needs_granted_binding [OF this] show ?thesis
    by (auto simp: sample_runtime_context_def runtime_context_new_def)
qed

section \<open>Departures\<close>

text \<open>
  Nothing takes actions out of the dispatch queue: the pipeline enrols an action and executes it in
  the same call. Once the lane of a class is full, no later submission of that class succeeds,
  whatever calls come in between.
\<close>

lemma lanes_grow:
  assumes "\<forall>call \<in> set calls. rw_emitter (fst call) \<noteq> None" and "lane_grows q0 cls (rs_engines rt)"
  shows "lane_grows q0 cls (rs_engines (fold (serve subj bv cv valid) calls rt))"
  using assms
proof (induction calls arbitrary: rt)
  case (Cons call calls)
  obtain em where "rw_emitter (fst call) = Some em" using Cons.prems(1) by auto
  then have "lane_grows q0 cls (rs_engines (serve subj bv cv valid call rt))"
    using Cons.prems(2) by (intro lane_kept.serve_keeps) (simp_all add: lane_grows_def)
  then show ?case using Cons by simp
qed simp

theorem full_lane_refuses_for_ever:
  assumes "en_queue (rs_engines rt) = Some q" and "lane_room q cls \<le> length (lane q cls)"
    and "\<forall>call \<in> set calls. rw_emitter (fst call) \<noteq> None"
    and "select_queue_class env False = cls"
    and "submit_action rw ulid now env rc (fold (serve subj bv cv valid) calls rt) = (Ok ctx, rt')"
  shows "status ctx \<noteq> ActionSucceeded"
proof -
  let ?st = "rs_engines (fold (serve subj bv cv valid) calls rt)"
  have "lane_grows q cls (rs_engines rt)" using assms(1) by (simp add: lane_grows_def)
  from lanes_grow [OF assms(3) this] obtain q' where q': "en_queue ?st = Some q'"
    "prefix (lane q cls) (lane q' cls)" "lane_room q' = lane_room q"
    unfolding lane_grows_def by blast
  then have "\<not> has_room (wired_env rw rc) env ?st"
    using assms(2,4) prefix_length_le [OF q'(2)] by (simp add: has_room_def)
  then show ?thesis using submit_Ok [OF assms(5)] by (auto simp: verdict_def split: decision.splits)
qed

text \<open>
  The stability of an adapter plays no part in the choice of its dispatch kind: the pipeline passes
  a constant, so an experimental adapter that asks for the process of the runtime gets it.
\<close>

theorem stability_ignored:
  "chosen_dispatch_kind (m\<lparr>declared_stability := s\<rparr>) env = chosen_dispatch_kind m env"
  "m_dispatch_kind m = InProcessRpc \<Longrightarrow> dry_run (env_request env) \<noteq> Simulate \<Longrightarrow>
   \<not> ident_is_ai (env_identity env) \<Longrightarrow> chosen_dispatch_kind m env = InProcessRpc"
  by (simp_all add: chosen_dispatch_kind_def compute_dispatch_kind_def)

text \<open>
  The service resumes with a context it has just built, which carries no approval requirement: the
  approver classes that the policy asked for when the action was parked are not looked at, and any
  class but the agent passes.
\<close>

theorem policy_classes_not_enforced:
  "class_matches (rc_approval (build_runtime_context subj bv cv env)) cls \<longleftrightarrow> cls \<noteq> ApAgent"
  by (simp add: class_matches_def build_runtime_context_def runtime_context_from_subject_def)

text \<open>
  A binding is not tied to the action it was granted for: the grant for one action resumes another
  action with an equal request.
\<close>

theorem binding_resumes_other_action:
  "\<exists>g ctx rt'. en_sink (rs_engines (sample_waiting_runtime ''act_2'')) = Some sample_granted_sink \<and>
     map_of (sk_bindings sample_granted_sink) ''appb_U'' = Some g \<and> ab_action_id g = ''act_1'' \<and>
     resume_with_binding sample_quiet_wiring 2 ''act_2'' restart_envelope sample_runtime_context ''appb_U''
       (sample_waiting_runtime ''act_2'') = (Ok ctx, rt') \<and>
     ac_action_id ctx = ''act_2'' \<and> status ctx = ActionSucceeded"
proof -
  have "en_sink (rs_engines (sample_waiting_runtime ''act_2'')) = Some sample_granted_sink"
    by (simp add: sample_waiting_runtime_def)
  then show ?thesis using sample_resumes [of "''act_2''"] sample_binding by metis
qed

text \<open>
  An action that fails after it was resumed is not rolled back, with or without a rollback driver.
\<close>

theorem resumed_failure_not_rolled_back:
  assumes "resume_with_binding rw now aid env rc bid rt = (Ok ctx, rt')"
  shows "status ctx \<in> {ActionSucceeded, ActionFailed}"
  using resume_Ok [OF assms] by blast

end
