(* ===== verification/Vault_Types.thy ===== *)
theory Vault_Types
  imports Runtime_Evidence
begin

text \<open>
  The data of crate \<open>aios-vault\<close>: capabilities (\<open>capability.rs\<close>), key material (\<open>key_material.rs\<close>), the
  requests, operations and results of the broker (\<open>broker.rs\<close>), identities and sessions
  (\<open>identity.rs\<close>), override bindings (\<open>override_class.rs\<close>), the errors (\<open>error.rs\<close>), and the evidence the
  vault emits (\<open>evidence_payloads.rs\<close>, \<open>evidence_emit.rs\<close>). The newtypes \<open>CapabilityId\<close>,
  \<open>KeyMaterialHandle\<close> and \<open>SubjectRef\<close> are their strings.
\<close>

text \<open>A map over the values of a hash map, as the iterations over \<open>values_mut\<close> perform it.\<close>

lemma map_of_map_value: "map_of (map (\<lambda>(i, v). (i, f v)) al) i = map_option f (map_of al i)"
  by (induction al) auto

section \<open>Capabilities and key material\<close>

type_synonym bytes = "u8 list"

definition CAPABILITY_PREFIX :: string where
  "CAPABILITY_PREFIX = ''cap_''"

definition capability_id_new :: "string \<Rightarrow> string" where
  "capability_id_new ulid = CAPABILITY_PREFIX @ ulid"

definition capability_id_parse :: "ulid_from_string \<Rightarrow> string \<Rightarrow> (string, string) result" where
  "capability_id_parse ulid_parse input =
     (if input = [] then Err ''identifier is empty''
      else case strip_prefix_str CAPABILITY_PREFIX input of
             None \<Rightarrow> Err (''expected prefix '' @ CAPABILITY_PREFIX @ '', got '' @ input)
           | Some body \<Rightarrow>
               (case ulid_parse body of
                  Inl e \<Rightarrow> Err (''invalid ULID body for '' @ input @ '': '' @ e)
                | Inr _ \<Rightarrow> Ok input))"

datatype capability_class =
    KeySign | KeyVerify | KeyEncrypt | KeyDecrypt | ClsMacGenerate | ClsMacVerify
  | ClsRandomGenerate | ClsSecretGet | BootstrapKeySign

datatype capability_state = CapDraft | CapActive | CapExpired | CapRevoked | CapRotated | CapDiscarded

record vault_capability =
  capability_id :: string
  cap_class :: capability_class
  issued_to :: string
  issued_at :: instant
  cap_expires_at :: "instant option"
  cap_state :: capability_state
  key_material_handle :: string

datatype key_algorithm = Aes256Gcm | HmacSha256 | HkdfSha256 | Ed25519 | X25519

record key_material =
  algorithm :: key_algorithm
  km_created_at :: instant
  km_bytes :: bytes

section \<open>Requests, operations, results\<close>

record issue_capability_request =
  ic_class :: capability_class
  ic_issued_to :: string
  ic_expires_at :: "instant option"
  key_algorithm :: key_algorithm
  key_material_bytes :: "bytes option"

datatype vault_operation =
    Encrypt bytes bytes
  | Decrypt bytes bytes
  | MacGenerate bytes
  | MacVerify bytes bytes
  | KdfDerive bytes u32
  | Sign bytes
  | Verify bytes bytes
  | RandomGenerate u32
  | SecretGet string

record use_capability_request =
  uc_capability_id :: string
  operation :: vault_operation

datatype use_capability_result =
    Encrypted bytes bytes bytes
  | Decrypted bytes
  | MacGenerated bytes
  | MacVerified bool
  | KdfDerived string
  | Signed bytes
  | Verified bool
  | RandomGenerated bytes

fun operation_kind :: "vault_operation \<Rightarrow> string" where
  "operation_kind (Encrypt _ _) = ''ENCRYPT''"
| "operation_kind (Decrypt _ _) = ''DECRYPT''"
| "operation_kind (MacGenerate _) = ''MAC_GENERATE''"
| "operation_kind (MacVerify _ _) = ''MAC_VERIFY''"
| "operation_kind (KdfDerive _ _) = ''KDF_DERIVE''"
| "operation_kind (Sign _) = ''SIGN''"
| "operation_kind (Verify _ _) = ''VERIFY''"
| "operation_kind (RandomGenerate _) = ''RANDOM_GENERATE''"
| "operation_kind (SecretGet _) = ''SECRET_GET''"

fun operation_matches_class :: "capability_class \<Rightarrow> vault_operation \<Rightarrow> bool" where
  "operation_matches_class KeySign op = (case op of Sign _ \<Rightarrow> True | _ \<Rightarrow> False)"
| "operation_matches_class BootstrapKeySign op = (case op of Sign _ \<Rightarrow> True | _ \<Rightarrow> False)"
| "operation_matches_class KeyVerify op = (case op of Verify _ _ \<Rightarrow> True | _ \<Rightarrow> False)"
| "operation_matches_class KeyEncrypt op = (case op of Encrypt _ _ \<Rightarrow> True | _ \<Rightarrow> False)"
| "operation_matches_class KeyDecrypt op = (case op of Decrypt _ _ \<Rightarrow> True | _ \<Rightarrow> False)"
| "operation_matches_class ClsMacGenerate op = (case op of MacGenerate _ \<Rightarrow> True | _ \<Rightarrow> False)"
| "operation_matches_class ClsMacVerify op = (case op of MacVerify _ _ \<Rightarrow> True | _ \<Rightarrow> False)"
| "operation_matches_class ClsRandomGenerate op = (case op of RandomGenerate _ \<Rightarrow> True | _ \<Rightarrow> False)"
| "operation_matches_class ClsSecretGet op = (case op of SecretGet _ \<Rightarrow> True | _ \<Rightarrow> False)"

fun operation_matches_t049_extension :: "capability_class \<Rightarrow> vault_operation \<Rightarrow> bool" where
  "operation_matches_t049_extension KeyEncrypt (KdfDerive _ _) = True"
| "operation_matches_t049_extension _ _ = False"

section \<open>Identities, sessions, override bindings\<close>

datatype vault_subject_type =
    VHuman | VAgent | VApplication | VService | VDevice | VWorkflow | VRemoteOperator | VLocalOperator

record vault_subject =
  vsub_id :: string
  vsub_type :: vault_subject_type
  provisional_name :: string
  vsub_groups :: "string list"
  vsub_is_ai :: bool
  vsub_created_at :: instant

datatype session_state = SessActive | SessSuspended | SessRevoked | SessExpired

record session =
  session_id :: string
  subject_id :: string
  started_at :: instant
  sess_expires_at :: instant
  sess_state :: session_state

datatype override_class = StrongSolo | DualHuman | TripleHuman

datatype override_binding_state = OvGranted | OvConsumed | OvRevoked | OvExpired

record override_binding =
  ob_id :: string
  ob_class :: override_class
  ob_granted_by :: "string list"
  ob_granted_at :: instant
  ob_expires_at :: instant
  target_action_id :: "string option"
  ob_state :: override_binding_state

section \<open>Errors\<close>

datatype vault_error =
    CapabilityNotFound string
  | CapabilityExpired string
  | CapabilityRevoked string
  | SubjectNotFound string
  | SubjectAlreadyRegistered string
  | SessionExpired string
  | SessionAlreadyActive string
  | GroupMembershipUnchanged
  | OverrideBindingNotFound string
  | OverrideAlreadyConsumed
  | OverrideRequiresHumanApprovers override_class "string list"
  | AiCannotGrantOverride string
  | OverrideClassApproverCountMismatch override_class u32 u32
  | OverrideExpired string
  | VInvalidTransition capability_state capability_state
  | OperationClassMismatch capability_class string
  | OperationUnsupportedInT047 vault_operation
  | OperationUnsupportedInT049 vault_operation
  | KeyAlgorithmMismatch key_algorithm key_algorithm
  | CryptoError string
  | VEvidenceEmitFailed string
  | VaultInternal string
  | KeyMaterialLeak

text \<open>
  \<open>KeyMaterial\<close> refuses to serialise, and \<open>Display\<close> and \<open>Debug\<close> print fixed texts in place of the
  handle and of the bytes (\<open>shown_handle\<close>, \<open>shown_key\<close>).
\<close>

definition serialize_key_material :: "key_material \<Rightarrow> (vault_error, json) result" where
  "serialize_key_material k = Err KeyMaterialLeak"

definition shown_handle :: "string \<Rightarrow> string" where
  "shown_handle h = ''<vault-handle>''"

definition shown_key :: "key_material \<Rightarrow> string" where
  "shown_key k = ''<key-material-redacted>''"

section \<open>Evidence payloads\<close>

fun capability_class_wire :: "capability_class \<Rightarrow> string" where
  "capability_class_wire KeySign = ''KEY_SIGN''"
| "capability_class_wire KeyVerify = ''KEY_VERIFY''"
| "capability_class_wire KeyEncrypt = ''KEY_ENCRYPT''"
| "capability_class_wire KeyDecrypt = ''KEY_DECRYPT''"
| "capability_class_wire ClsMacGenerate = ''MAC_GENERATE''"
| "capability_class_wire ClsMacVerify = ''MAC_VERIFY''"
| "capability_class_wire ClsRandomGenerate = ''RANDOM_GENERATE''"
| "capability_class_wire ClsSecretGet = ''SECRET_GET''"
| "capability_class_wire BootstrapKeySign = ''BOOTSTRAP_KEY_SIGN''"

fun override_class_token :: "override_class \<Rightarrow> string" where
  "override_class_token StrongSolo = ''STRONG_SOLO''"
| "override_class_token DualHuman = ''DUAL_HUMAN''"
| "override_class_token TripleHuman = ''TRIPLE_HUMAN''"

record ('sk, 'vk) vault_emitter = "('sk, 'vk) emit_env" +
  em_subject :: string

definition AIOS_VAULT_SUBJECT :: string where
  "AIOS_VAULT_SUBJECT = ''_system:service:vault-broker''"

definition json_instant :: "('sk, 'vk) vault_emitter \<Rightarrow> instant \<Rightarrow> json" where
  "json_instant em t = JString (ser_datetime (em_lib em) t)"

definition capability_issued_payload :: "('sk, 'vk) vault_emitter \<Rightarrow> vault_capability \<Rightarrow> string \<Rightarrow> json" where
  "capability_issued_payload em c who = JObject
     [(''capability_id'', JString (capability_id c)),
      (''class'', JString (capability_class_wire (cap_class c))),
      (''issued_to'', JString who),
      (''issued_at'', json_instant em (issued_at c)),
      (''expires_at'', opt_string (map_option (ser_datetime (em_lib em)) (cap_expires_at c)))]"

fun operation_kind_variant_name :: "string \<Rightarrow> string" where
  "operation_kind_variant_name k =
     (if k = ''ENCRYPT'' \<or> k = ''Encrypt'' then ''Encrypt''
      else if k = ''DECRYPT'' \<or> k = ''Decrypt'' then ''Decrypt''
      else if k = ''MAC_GENERATE'' \<or> k = ''MacGenerate'' then ''MacGenerate''
      else if k = ''MAC_VERIFY'' \<or> k = ''MacVerify'' then ''MacVerify''
      else if k = ''KDF_DERIVE'' \<or> k = ''KdfDerive'' then ''KdfDerive''
      else if k = ''SIGN'' \<or> k = ''Sign'' then ''Sign''
      else if k = ''VERIFY'' \<or> k = ''Verify'' then ''Verify''
      else if k = ''RANDOM_GENERATE'' \<or> k = ''RandomGenerate'' then ''RandomGenerate''
      else if k = ''SECRET_GET'' \<or> k = ''SecretGet'' then ''SecretGet''
      else k)"

definition capability_used_payload ::
    "('sk, 'vk) vault_emitter \<Rightarrow> string \<Rightarrow> string \<Rightarrow> instant \<Rightarrow> json" where
  "capability_used_payload em cid kind now = JObject
     [(''capability_id'', JString cid),
      (''operation_kind'', JString (operation_kind_variant_name kind)),
      (''used_at'', json_instant em now),
      (''subject'', JString (em_subject em))]"

definition capability_revoked_payload ::
    "('sk, 'vk) vault_emitter \<Rightarrow> string \<Rightarrow> string \<Rightarrow> string \<Rightarrow> instant \<Rightarrow> json" where
  "capability_revoked_payload em cid who why now = JObject
     [(''capability_id'', JString cid), (''revoked_by'', JString who), (''reason'', JString why),
      (''revoked_at'', json_instant em now)]"

definition capability_expired_payload :: "('sk, 'vk) vault_emitter \<Rightarrow> string \<Rightarrow> instant \<Rightarrow> json" where
  "capability_expired_payload em cid at = JObject
     [(''capability_id'', JString cid), (''expired_at'', json_instant em at)]"

definition override_granted_payload :: "('sk, 'vk) vault_emitter \<Rightarrow> override_binding \<Rightarrow> json" where
  "override_granted_payload em b = JObject
     [(''binding_id'', JString (ob_id b)), (''class'', JString (override_class_token (ob_class b))),
      (''granted_by'', JArray (map JString (ob_granted_by b))),
      (''target_action_id'', opt_string (target_action_id b)),
      (''granted_at'', json_instant em (ob_granted_at b)),
      (''expires_at'', json_instant em (ob_expires_at b))]"

definition override_consumed_payload ::
    "('sk, 'vk) vault_emitter \<Rightarrow> string \<Rightarrow> string \<Rightarrow> instant \<Rightarrow> json" where
  "override_consumed_payload em bid who now = JObject
     [(''binding_id'', JString bid), (''consumer'', JString who), (''consumed_at'', json_instant em now)]"

definition override_revoked_payload ::
    "('sk, 'vk) vault_emitter \<Rightarrow> string \<Rightarrow> string \<Rightarrow> instant \<Rightarrow> json" where
  "override_revoked_payload em bid who now = JObject
     [(''binding_id'', JString bid), (''revoker'', JString who), (''revoked_at'', json_instant em now)]"

section \<open>Emission\<close>

text \<open>
  The in-memory evidence log checks the receipt the caller expects at the end of the chain (no
  emission of the vault states one), seals the builder onto the chain and appends the receipt.
\<close>

definition validate_expected_previous_receipt ::
    "evidence_receipt option \<Rightarrow> string option \<Rightarrow> (evidence_error, unit) result" where
  "validate_expected_previous_receipt previous expected =
     (case expected of
        None \<Rightarrow> Ok ()
      | Some e \<Rightarrow>
          (case previous of
             None \<Rightarrow> Err (EncodingFailed (''expected previous receipt id '' @ e @ '', but chain is empty''))
           | Some p \<Rightarrow>
               if receipt_id p = e then Ok ()
               else Err (EncodingFailed (''expected previous receipt id '' @ e @
                      '', but chain tail is '' @ receipt_id p))))"

definition vault_append_signed ::
    "('sk, 'vk) vault_emitter \<Rightarrow> receipt_builder \<Rightarrow> string option \<Rightarrow> evidence_receipt list \<Rightarrow>
     (evidence_error, evidence_receipt) result \<times> evidence_receipt list" where
  "vault_append_signed em b expected chain =
     (case validate_expected_previous_receipt (last_receipt chain) expected of
        Inl e \<Rightarrow> (Err e, chain)
      | Inr _ \<Rightarrow>
          (case seal_signed (em_lib em) (em_ulid em (length chain)) (em_now em (length chain)) b
                  (last_receipt chain) (em_key em) of
             Inl e \<Rightarrow> (Err e, chain)
           | Inr r \<Rightarrow> (case chain_append (em_lib em) chain r of
                         Inl e \<Rightarrow> (Err e, chain)
                       | Inr chain' \<Rightarrow> (Ok r, chain'))))"

type_synonym emission = "evidence_receipt list \<Rightarrow> (vault_error, string) result \<times> evidence_receipt list"

definition vault_emit :: "('sk, 'vk) vault_emitter \<Rightarrow> string \<Rightarrow> json \<Rightarrow> string option \<Rightarrow> emission" where
  "vault_emit em rt payload prev chain =
     (case vault_append_signed em
             (with_payload payload
               (builder_new (RecordType rt) (retention_class_for (RecordType rt)) (em_subject em)))
             prev chain of
        (Inl e, chain') \<Rightarrow> (Err (VEvidenceEmitFailed (em_show em e)), chain')
      | (Inr r, chain') \<Rightarrow> (Ok (receipt_id r), chain'))"

definition emit_capability_issued ::
    "('sk, 'vk) vault_emitter \<Rightarrow> vault_capability \<Rightarrow> string \<Rightarrow> string option \<Rightarrow> emission" where
  "emit_capability_issued em c who prev =
     vault_emit em ''VAULT_CAPABILITY_ISSUED'' (capability_issued_payload em c who) prev"

definition emit_capability_used ::
    "('sk, 'vk) vault_emitter \<Rightarrow> instant \<Rightarrow> string \<Rightarrow> string \<Rightarrow> string option \<Rightarrow> emission" where
  "emit_capability_used em now cid kind prev =
     vault_emit em ''VAULT_OPERATION'' (capability_used_payload em cid kind now) prev"

definition emit_capability_revoked ::
    "('sk, 'vk) vault_emitter \<Rightarrow> instant \<Rightarrow> string \<Rightarrow> string \<Rightarrow> string \<Rightarrow> string option \<Rightarrow> emission" where
  "emit_capability_revoked em now cid who why prev =
     vault_emit em ''VAULT_CAPABILITY_REVOKED'' (capability_revoked_payload em cid who why now) prev"

definition emit_capability_expired ::
    "('sk, 'vk) vault_emitter \<Rightarrow> string \<Rightarrow> instant \<Rightarrow> string option \<Rightarrow> emission" where
  "emit_capability_expired em cid at prev =
     vault_emit em ''VAULT_OPERATION'' (capability_expired_payload em cid at) prev"

definition emit_override_granted :: "('sk, 'vk) vault_emitter \<Rightarrow> override_binding \<Rightarrow> string option \<Rightarrow> emission" where
  "emit_override_granted em b prev =
     vault_emit em ''OVERRIDE_GRANTED'' (override_granted_payload em b) prev"

definition emit_override_consumed ::
    "('sk, 'vk) vault_emitter \<Rightarrow> instant \<Rightarrow> string \<Rightarrow> string \<Rightarrow> string option \<Rightarrow> emission" where
  "emit_override_consumed em now bid who prev =
     vault_emit em ''OVERRIDE_CONSUMED'' (override_consumed_payload em bid who now) prev"

definition emit_override_revoked ::
    "('sk, 'vk) vault_emitter \<Rightarrow> instant \<Rightarrow> string \<Rightarrow> string \<Rightarrow> string option \<Rightarrow> emission" where
  "emit_override_revoked em now bid who prev =
     vault_emit em ''OVERRIDE_REVOKED'' (override_revoked_payload em bid who now) prev"

end
