(* ===== verification/Vault_Crypto.thy ===== *)
theory Vault_Crypto
  imports Vault_Types
begin

text \<open>
  The cryptographic front ends of the vault, \<open>crypto/aes_gcm.rs\<close>, \<open>hmac.rs\<close>, \<open>hkdf.rs\<close> and \<open>ed25519.rs\<close>.
  The primitives of the third-party crates are the fields of the record \<open>vault_crypto\<close>; the
  operating system's random source is the sequence of bytes one call draws from it. A \<open>usize\<close> has
  64 bits, so every \<open>u32\<close> converts to it.
\<close>

section \<open>Primitives\<close>

record vault_crypto =
  aes_new :: "bytes \<Rightarrow> bool"
  aead_seal :: "bytes \<Rightarrow> bytes \<Rightarrow> bytes \<Rightarrow> bytes \<Rightarrow> bytes option"
  aead_open :: "bytes \<Rightarrow> bytes \<Rightarrow> bytes \<Rightarrow> bytes \<Rightarrow> bytes option"
  hmac_new :: "bytes \<Rightarrow> bool"
  hmac_tag :: "bytes \<Rightarrow> bytes \<Rightarrow> bytes"
  hmac_check :: "bytes \<Rightarrow> bytes \<Rightarrow> bytes \<Rightarrow> bool"
  hkdf_expand :: "bytes \<Rightarrow> bytes \<Rightarrow> nat \<Rightarrow> bytes option"
  blake3_hex :: "bytes \<Rightarrow> string"
  ed_generate :: "(nat \<Rightarrow> u8) \<Rightarrow> bytes"
  ed_sign :: "bytes \<Rightarrow> bytes \<Rightarrow> bytes"
  ed_from_bytes :: "bytes \<Rightarrow> bytes option"
  ed_public :: "bytes \<Rightarrow> bytes"
  ed_verify :: "bytes \<Rightarrow> bytes \<Rightarrow> bytes \<Rightarrow> bool"
  x25519_secret :: "bytes \<Rightarrow> bytes"

definition fill_bytes :: "(nat \<Rightarrow> u8) \<Rightarrow> nat \<Rightarrow> bytes" where
  "fill_bytes rng n = map rng [0..<n]"

lemma length_fill_bytes [simp]: "length (fill_bytes rng n) = n"
  by (simp add: fill_bytes_def)

section \<open>AES-256-GCM\<close>

definition AES_KEY_LEN :: nat where
  "AES_KEY_LEN = 32"

definition NONCE_LEN :: nat where
  "NONCE_LEN = 12"

record encryption_output =
  eo_ciphertext :: bytes
  eo_nonce :: bytes

definition aes_generate_key :: "(nat \<Rightarrow> u8) \<Rightarrow> bytes" where
  "aes_generate_key rng = fill_bytes rng AES_KEY_LEN"

definition cipher :: "vault_crypto \<Rightarrow> bytes \<Rightarrow> (vault_error, bytes) result" where
  "cipher cr key =
     (if aes_new cr key then Ok key
      else Err (CryptoError (''AES-256-GCM key must be '' @ show_nat AES_KEY_LEN @ '' bytes, got '' @
             show_nat (length key))))"

definition aes_encrypt ::
    "vault_crypto \<Rightarrow> (nat \<Rightarrow> u8) \<Rightarrow> bytes \<Rightarrow> bytes \<Rightarrow> bytes \<Rightarrow> (vault_error, encryption_output) result" where
  "aes_encrypt cr rng key plaintext aad =
     try_then (cipher cr key) (\<lambda>c.
       let nonce = fill_bytes rng NONCE_LEN in
       case aead_seal cr c nonce aad plaintext of
         None \<Rightarrow> Err (CryptoError ''AES-256-GCM encryption failed'')
       | Some encrypted \<Rightarrow> Ok \<lparr>eo_ciphertext = nonce @ encrypted, eo_nonce = nonce\<rparr>)"

definition aes_decrypt :: "vault_crypto \<Rightarrow> bytes \<Rightarrow> bytes \<Rightarrow> bytes \<Rightarrow> (vault_error, bytes) result" where
  "aes_decrypt cr key nonce_prefixed aad =
     (if length nonce_prefixed < NONCE_LEN
      then Err (CryptoError ''AES-256-GCM ciphertext is missing nonce prefix'')
      else
        let nonce = take NONCE_LEN nonce_prefixed; ciphertext = drop NONCE_LEN nonce_prefixed in
        try_then (cipher cr key) (\<lambda>c.
          case aead_open cr c nonce aad ciphertext of
            None \<Rightarrow> Err (CryptoError ''AES-256-GCM decryption failed'')
          | Some plaintext \<Rightarrow> Ok plaintext))"

section \<open>HMAC-SHA256\<close>

definition HMAC_KEY_LEN :: nat where
  "HMAC_KEY_LEN = 32"

definition TAG_LEN :: nat where
  "TAG_LEN = 32"

definition hmac_generate_key :: "(nat \<Rightarrow> u8) \<Rightarrow> bytes" where
  "hmac_generate_key rng = fill_bytes rng HMAC_KEY_LEN"

definition mac :: "vault_crypto \<Rightarrow> bytes \<Rightarrow> (vault_error, bytes) result" where
  "mac cr key = (if hmac_new cr key then Ok key else Err (CryptoError ''HMAC-SHA256 key rejected''))"

definition hmac_generate :: "vault_crypto \<Rightarrow> bytes \<Rightarrow> bytes \<Rightarrow> (vault_error, bytes) result" where
  "hmac_generate cr key message = try_then (mac cr key) (\<lambda>m. Ok (hmac_tag cr m message))"

definition hmac_verify :: "vault_crypto \<Rightarrow> bytes \<Rightarrow> bytes \<Rightarrow> bytes \<Rightarrow> (vault_error, bool) result" where
  "hmac_verify cr key message tag =
     (if length tag \<noteq> TAG_LEN
      then Err (CryptoError (''HMAC-SHA256 tag must be '' @ show_nat TAG_LEN @ '' bytes, got '' @
             show_nat (length tag)))
      else try_then (mac cr key) (\<lambda>m. Ok (hmac_check cr m message tag)))"

section \<open>HKDF-SHA256\<close>

definition IKM_LEN :: nat where
  "IKM_LEN = 32"

record derived_key =
  dk_handle :: string
  dk_bytes :: bytes

definition generate_ikm :: "(nat \<Rightarrow> u8) \<Rightarrow> bytes" where
  "generate_ikm rng = fill_bytes rng IKM_LEN"

text \<open>\<open>usize::to_be_bytes\<close>: eight bytes, the most significant first.\<close>

definition to_be_bytes :: "nat \<Rightarrow> bytes" where
  "to_be_bytes n = map (\<lambda>i. of_nat (n div 256 ^ (7 - i))) [0..<8]"

definition derived_handle :: "vault_crypto \<Rightarrow> bytes \<Rightarrow> nat \<Rightarrow> bytes \<Rightarrow> string" where
  "derived_handle cr info len bs =
     ''vault-derived:hkdf-sha256:'' @
       take 32 (blake3_hex cr (map byte_of ''aios-vault:hkdf-sha256:v1'' @ to_be_bytes len @ info @ bs))"

definition hkdf_derive :: "vault_crypto \<Rightarrow> bytes \<Rightarrow> bytes \<Rightarrow> u32 \<Rightarrow> (vault_error, derived_key) result" where
  "hkdf_derive cr ikm info len =
     (if len = 0 then Err (CryptoError ''HKDF-SHA256 output length must be non-zero'')
      else case hkdf_expand cr ikm info (unat len) of
             None \<Rightarrow> Err (CryptoError ''HKDF-SHA256 expansion failed'')
           | Some bs \<Rightarrow> Ok \<lparr>dk_handle = derived_handle cr info (unat len) bs, dk_bytes = bs\<rparr>)"

section \<open>Ed25519\<close>

definition ED_KEY_LEN :: nat where
  "ED_KEY_LEN = 32"

definition ED_SIGNATURE_LEN :: nat where
  "ED_SIGNATURE_LEN = 64"

definition key_bytes :: "bytes \<Rightarrow> (vault_error, bytes) result" where
  "key_bytes key =
     (if length key = ED_KEY_LEN then Ok key
      else Err (CryptoError (''Ed25519 key material must be '' @ show_nat ED_KEY_LEN @ '' bytes, got '' @
             show_nat (length key))))"

definition ed25519_sign_op :: "vault_crypto \<Rightarrow> bytes \<Rightarrow> bytes \<Rightarrow> (vault_error, bytes) result" where
  "ed25519_sign_op cr key message = try_then (key_bytes key) (\<lambda>k. Ok (ed_sign cr k message))"

definition ed25519_verify_op ::
    "vault_crypto \<Rightarrow> bytes \<Rightarrow> bytes \<Rightarrow> bytes \<Rightarrow> (vault_error, bool) result" where
  "ed25519_verify_op cr key message sig =
     (if length sig \<noteq> ED_SIGNATURE_LEN
      then Err (CryptoError (''Ed25519 signature must be '' @ show_nat ED_SIGNATURE_LEN @ '' bytes, got '' @
             show_nat (length sig)))
      else try_then (key_bytes key) (\<lambda>k.
        if (case ed_from_bytes cr k of None \<Rightarrow> False | Some vk \<Rightarrow> ed_verify cr vk message sig)
        then Ok True
        else Ok (ed_verify cr (ed_public cr k) message sig)))"

section \<open>Keys for an algorithm\<close>

definition generate_x25519_static_secret :: "vault_crypto \<Rightarrow> (nat \<Rightarrow> u8) \<Rightarrow> bytes" where
  "generate_x25519_static_secret cr rng = x25519_secret cr (fill_bytes rng 32)"

fun generate_key_material :: "vault_crypto \<Rightarrow> (nat \<Rightarrow> u8) \<Rightarrow> key_algorithm \<Rightarrow> bytes" where
  "generate_key_material cr rng Aes256Gcm = aes_generate_key rng"
| "generate_key_material cr rng HmacSha256 = hmac_generate_key rng"
| "generate_key_material cr rng HkdfSha256 = generate_ikm rng"
| "generate_key_material cr rng Ed25519 = ed_generate cr rng"
| "generate_key_material cr rng X25519 = generate_x25519_static_secret cr rng"

section \<open>Round trips\<close>

lemma aes_roundtrip:
  assumes "aes_encrypt cr rng key m aad = Ok out"
    and "\<And>n c. length n = NONCE_LEN \<Longrightarrow> aead_seal cr key n aad m = Some c \<Longrightarrow> aead_open cr key n aad c = Some m"
  shows "aes_decrypt cr key (eo_ciphertext out) aad = Ok m"
  using assms
  by (auto simp: aes_encrypt_def aes_decrypt_def cipher_def Let_def result_simps
      split: option.splits if_splits)

lemma hmac_roundtrip:
  assumes "hmac_generate cr key m = Ok tag" and "length (hmac_tag cr key m) = TAG_LEN"
    and "hmac_check cr key m (hmac_tag cr key m)"
  shows "hmac_verify cr key m tag = Ok True"
  using assms by (auto simp: hmac_generate_def hmac_verify_def mac_def split: if_splits)

lemma ed25519_roundtrip:
  assumes "ed25519_sign_op cr key m = Ok sig" and "length (ed_sign cr key m) = ED_SIGNATURE_LEN"
    and "ed_verify cr (ed_public cr key) m (ed_sign cr key m)"
  shows "ed25519_verify_op cr key m sig = Ok True"
  using assms by (auto simp: ed25519_sign_op_def ed25519_verify_op_def key_bytes_def split: if_splits)

lemma derived_length:
  "hkdf_derive cr ikm info len = Ok dk \<Longrightarrow>
     hkdf_expand cr ikm info (unat len) = Some (dk_bytes dk) \<and> 0 < unat len"
  by (auto simp: hkdf_derive_def unat_gt_0 split: if_splits option.splits)

end
