(* ===== verification/Vault_Broker.thy ===== *)
theory Vault_Broker
  imports Vault_Crypto
begin

text \<open>
  The in-memory capability broker (\<open>in_memory_broker.rs\<close>), its audit log (\<open>audit.rs\<close>) and the lifecycle
  driver that expires capabilities (\<open>lifecycle.rs\<close>). The broker's stores, the audit log and the
  evidence log that broker and driver share, as the service wires them, are one state; a
  configuration says which of the two writes to which log. A call of the random source, of the
  ULID generator and of the clock takes its value from the record \<open>vault_inputs\<close> of the call.
  \<open>use_capability\<close> decides under the write lock and runs the operation after it has released
  the lock, so it is the composition of the two steps \<open>use_admit\<close> and \<open>use_complete\<close>.
\<close>

section \<open>The audit log\<close>

record capability_audit_entry =
  ae_capability_id :: string
  use_count :: u64
  last_used_at :: "instant option"
  last_used_op_kind :: "string option"
  issued_by :: string
  revoked_by :: "string option"
  revoked_at :: "instant option"
  expired_at :: "instant option"

type_synonym audit_log = "(string \<times> capability_audit_entry) list"

definition audit_new :: audit_log where
  "audit_new = []"

definition audit_modify ::
    "string \<Rightarrow> (capability_audit_entry \<Rightarrow> capability_audit_entry) \<Rightarrow> audit_log \<Rightarrow> audit_log" where
  "audit_modify cid f a =
     (case map_of a cid of None \<Rightarrow> a | Some e \<Rightarrow> AList.update cid (f e) a)"

definition record_issue :: "string \<Rightarrow> string \<Rightarrow> audit_log \<Rightarrow> audit_log" where
  "record_issue cid who a = AList.update cid
     \<lparr>ae_capability_id = cid, use_count = 0, last_used_at = None, last_used_op_kind = None,
      issued_by = who, revoked_by = None, revoked_at = None, expired_at = None\<rparr> a"

definition record_use :: "instant \<Rightarrow> string \<Rightarrow> string \<Rightarrow> audit_log \<Rightarrow> audit_log" where
  "record_use now cid kind = audit_modify cid (\<lambda>e.
     e\<lparr>use_count := saturating_add (use_count e) 1, last_used_at := Some now,
       last_used_op_kind := Some kind\<rparr>)"

definition record_revoke :: "instant \<Rightarrow> string \<Rightarrow> string \<Rightarrow> audit_log \<Rightarrow> audit_log" where
  "record_revoke now cid who = audit_modify cid (\<lambda>e.
     e\<lparr>revoked_by := Some who, revoked_at := Some now\<rparr>)"

definition record_expire :: "instant \<Rightarrow> string \<Rightarrow> audit_log \<Rightarrow> audit_log" where
  "record_expire now cid = audit_modify cid (\<lambda>e.
     e\<lparr>expired_at := Some (case expired_at e of None \<Rightarrow> now | Some t \<Rightarrow> t)\<rparr>)"

definition audit_lookup :: "string \<Rightarrow> audit_log \<Rightarrow> capability_audit_entry option" where
  "audit_lookup cid a = map_of a cid"

definition audit_list_all :: "audit_log \<Rightarrow> capability_audit_entry list" where
  "audit_list_all a = sort_key ae_capability_id (map snd a)"

section \<open>State, configuration, inputs\<close>

record vault_state =
  vs_caps :: "(string \<times> vault_capability \<times> key_material) list"
  vs_derived :: "(string \<times> key_material) list"
  vs_audit :: audit_log
  vs_chain :: "evidence_receipt list"

definition vault_new :: vault_state where
  "vault_new = \<lparr>vs_caps = [], vs_derived = [], vs_audit = audit_new, vs_chain = []\<rparr>"

record ('sk, 'vk) vault_config =
  vc_crypto :: vault_crypto
  vc_emitter :: "('sk, 'vk) vault_emitter"
  broker_audits :: bool
  broker_emits :: bool
  driver_emits :: bool

record vault_inputs =
  in_rng :: "nat \<Rightarrow> u8"
  in_ulid :: string
  in_clock :: "nat \<Rightarrow> instant"

definition audit_if :: "bool \<Rightarrow> (audit_log \<Rightarrow> audit_log) \<Rightarrow> vault_state \<Rightarrow> vault_state" where
  "audit_if on f s = (if on then s\<lparr>vs_audit := f (vs_audit s)\<rparr> else s)"

definition emit_if :: "bool \<Rightarrow> emission \<Rightarrow> 'a \<Rightarrow> vault_state \<Rightarrow> (vault_error, 'a) result \<times> vault_state" where
  "emit_if on em a s =
     (if on then (case em (vs_chain s) of
                    (Inl e, chain') \<Rightarrow> (Err e, s\<lparr>vs_chain := chain'\<rparr>)
                  | (Inr _, chain') \<Rightarrow> (Ok a, s\<lparr>vs_chain := chain'\<rparr>))
      else (Ok a, s))"

definition put_state :: "string \<Rightarrow> capability_state \<Rightarrow> vault_state \<Rightarrow> vault_state" where
  "put_state cid st s =
     (case map_of (vs_caps s) cid of
        None \<Rightarrow> s
      | Some (c, k) \<Rightarrow> s\<lparr>vs_caps := AList.update cid (c\<lparr>cap_state := st\<rparr>, k) (vs_caps s)\<rparr>)"

section \<open>Issue\<close>

definition expect_algorithm :: "key_algorithm \<Rightarrow> key_algorithm \<Rightarrow> (vault_error, unit) result" where
  "expect_algorithm expected found =
     (if expected = found then Ok () else Err (KeyAlgorithmMismatch expected found))"

fun validate_key_algorithm_for_class ::
    "capability_class \<Rightarrow> key_algorithm \<Rightarrow> (vault_error, unit) result" where
  "validate_key_algorithm_for_class KeySign found = expect_algorithm Ed25519 found"
| "validate_key_algorithm_for_class KeyVerify found = expect_algorithm Ed25519 found"
| "validate_key_algorithm_for_class BootstrapKeySign found = expect_algorithm Ed25519 found"
| "validate_key_algorithm_for_class KeyEncrypt found =
     (if found \<in> {Aes256Gcm, HkdfSha256, X25519} then Ok () else expect_algorithm Aes256Gcm found)"
| "validate_key_algorithm_for_class KeyDecrypt found =
     (if found \<in> {Aes256Gcm, HkdfSha256, X25519} then Ok () else expect_algorithm Aes256Gcm found)"
| "validate_key_algorithm_for_class ClsMacGenerate found = expect_algorithm HmacSha256 found"
| "validate_key_algorithm_for_class ClsMacVerify found = expect_algorithm HmacSha256 found"
| "validate_key_algorithm_for_class ClsRandomGenerate found = Ok ()"
| "validate_key_algorithm_for_class ClsSecretGet found = Ok ()"

definition new_capability :: "string \<Rightarrow> instant \<Rightarrow> issue_capability_request \<Rightarrow> vault_capability" where
  "new_capability ulid now req =
     \<lparr>capability_id = capability_id_new ulid, cap_class = ic_class req, issued_to = ic_issued_to req,
      issued_at = now, cap_expires_at = ic_expires_at req, cap_state = CapActive,
      key_material_handle = ''vault-internal:'' @ capability_id_new ulid\<rparr>"

definition new_key_material ::
    "vault_crypto \<Rightarrow> (nat \<Rightarrow> u8) \<Rightarrow> instant \<Rightarrow> issue_capability_request \<Rightarrow> key_material" where
  "new_key_material cr rng now req =
     \<lparr>algorithm = key_algorithm req, km_created_at = now,
      km_bytes = (case key_material_bytes req of
                    Some bs \<Rightarrow> bs
                  | None \<Rightarrow> generate_key_material cr rng (key_algorithm req))\<rparr>"

definition issue_capability ::
    "('sk, 'vk) vault_config \<Rightarrow> vault_inputs \<Rightarrow> issue_capability_request \<Rightarrow> vault_state \<Rightarrow>
     (vault_error, vault_capability) result \<times> vault_state" where
  "issue_capability cfg inp req s =
     (case validate_key_algorithm_for_class (ic_class req) (key_algorithm req) of
        Inl e \<Rightarrow> (Err e, s)
      | Inr _ \<Rightarrow>
          let now = in_clock inp 0;
              c = new_capability (in_ulid inp) now req;
              k = new_key_material (vc_crypto cfg) (in_rng inp) now req;
              s1 = s\<lparr>vs_caps := AList.update (capability_id c) (c, k) (vs_caps s)\<rparr>;
              s2 = audit_if (broker_audits cfg) (record_issue (capability_id c) (issued_to c)) s1
          in emit_if (broker_emits cfg) (emit_capability_issued (vc_emitter cfg) c (issued_to c) None) c s2)"

section \<open>Use\<close>

definition execute_operation ::
    "vault_crypto \<Rightarrow> vault_inputs \<Rightarrow> key_material \<Rightarrow> vault_operation \<Rightarrow> (string \<times> key_material) list \<Rightarrow>
     (vault_error, use_capability_result) result \<times> (string \<times> key_material) list" where
  "execute_operation cr inp k op d =
     (let alg = algorithm k; bs = km_bytes k in
      case op of
        Encrypt plaintext aad \<Rightarrow>
          if alg = Aes256Gcm
          then (try_then (aes_encrypt cr (in_rng inp) bs plaintext aad) (\<lambda>out.
                  Ok (Encrypted (eo_ciphertext out) (eo_nonce out) aad)), d)
          else (Err (OperationUnsupportedInT049 op), d)
      | Decrypt ciphertext aad \<Rightarrow>
          if alg = Aes256Gcm
          then (try_then (aes_decrypt cr bs ciphertext aad) (\<lambda>p. Ok (Decrypted p)), d)
          else (Err (OperationUnsupportedInT049 op), d)
      | MacGenerate message \<Rightarrow>
          if alg = HmacSha256
          then (try_then (hmac_generate cr bs message) (\<lambda>tag. Ok (MacGenerated tag)), d)
          else (Err (OperationUnsupportedInT049 op), d)
      | MacVerify message tag \<Rightarrow>
          if alg = HmacSha256
          then (try_then (hmac_verify cr bs message tag) (\<lambda>v. Ok (MacVerified v)), d)
          else (Err (OperationUnsupportedInT049 op), d)
      | KdfDerive info len \<Rightarrow>
          if alg = HkdfSha256
          then (case hkdf_derive cr bs info len of
                  Inl e \<Rightarrow> (Err e, d)
                | Inr dk \<Rightarrow>
                    (Ok (KdfDerived (dk_handle dk)),
                     AList.update (dk_handle dk)
                       \<lparr>algorithm = HkdfSha256, km_created_at = in_clock inp 1, km_bytes = dk_bytes dk\<rparr> d))
          else (Err (KeyAlgorithmMismatch HkdfSha256 alg), d)
      | Sign message \<Rightarrow>
          if alg = Ed25519
          then (try_then (ed25519_sign_op cr bs message) (\<lambda>sig. Ok (Signed sig)), d)
          else (Err (OperationUnsupportedInT049 op), d)
      | Verify message sig \<Rightarrow>
          if alg = Ed25519
          then (try_then (ed25519_verify_op cr bs message sig) (\<lambda>v. Ok (Verified v)), d)
          else (Err (OperationUnsupportedInT049 op), d)
      | RandomGenerate n \<Rightarrow> (Ok (RandomGenerated (fill_bytes (in_rng inp) (unat n))), d)
      | SecretGet _ \<Rightarrow> (Err (OperationUnsupportedInT049 op), d))"

text \<open>The part of \<open>use_capability\<close> under the write lock.\<close>

definition use_admit ::
    "('sk, 'vk) vault_config \<Rightarrow> vault_inputs \<Rightarrow> use_capability_request \<Rightarrow> vault_state \<Rightarrow>
     (vault_error, key_material) result \<times> vault_state" where
  "use_admit cfg inp req s =
     (let cid = uc_capability_id req in
      case map_of (vs_caps s) cid of
        None \<Rightarrow> (Err (CapabilityNotFound cid), s)
      | Some (c, k) \<Rightarrow>
          (case cap_state c of
             CapExpired \<Rightarrow> (Err (CapabilityExpired cid), s)
           | CapRevoked \<Rightarrow> (Err (CapabilityRevoked cid), s)
           | CapActive \<Rightarrow>
               if (case cap_expires_at c of None \<Rightarrow> False | Some t \<Rightarrow> t < in_clock inp 0)
               then (Err (CapabilityExpired cid),
                     audit_if (broker_audits cfg) (record_expire (in_clock inp 1) cid)
                       (put_state cid CapExpired s))
               else if \<not> operation_matches_class (cap_class c) (operation req) \<and>
                       \<not> operation_matches_t049_extension (cap_class c) (operation req)
               then (Err (OperationClassMismatch (cap_class c) (operation_kind (operation req))), s)
               else (Ok k, s)
           | st \<Rightarrow> (Err (VInvalidTransition st CapActive), s)))"

definition use_complete ::
    "('sk, 'vk) vault_config \<Rightarrow> vault_inputs \<Rightarrow> use_capability_request \<Rightarrow> key_material \<Rightarrow> vault_state \<Rightarrow>
     (vault_error, use_capability_result) result \<times> vault_state" where
  "use_complete cfg inp req k s =
     (let kind = operation_kind (operation req); cid = uc_capability_id req in
      case execute_operation (vc_crypto cfg) inp k (operation req) (vs_derived s) of
        (Inl e, d) \<Rightarrow> (Err e, s\<lparr>vs_derived := d\<rparr>)
      | (Inr r, d) \<Rightarrow>
          emit_if (broker_emits cfg) (emit_capability_used (vc_emitter cfg) (in_clock inp 3) cid kind None) r
            (audit_if (broker_audits cfg) (record_use (in_clock inp 2) cid kind) (s\<lparr>vs_derived := d\<rparr>)))"

definition use_capability ::
    "('sk, 'vk) vault_config \<Rightarrow> vault_inputs \<Rightarrow> use_capability_request \<Rightarrow> vault_state \<Rightarrow>
     (vault_error, use_capability_result) result \<times> vault_state" where
  "use_capability cfg inp req s =
     (case use_admit cfg inp req s of
        (Inl e, s') \<Rightarrow> (Err e, s')
      | (Inr k, s') \<Rightarrow> use_complete cfg inp req k s')"

section \<open>List, revoke\<close>

definition list_capabilities :: "string \<Rightarrow> vault_state \<Rightarrow> vault_capability list" where
  "list_capabilities subj s = map fst (filter (\<lambda>(c, k). issued_to c = subj) (map snd (vs_caps s)))"

definition revoke_capability ::
    "('sk, 'vk) vault_config \<Rightarrow> vault_inputs \<Rightarrow> string \<Rightarrow> string \<Rightarrow> vault_state \<Rightarrow>
     (vault_error, unit) result \<times> vault_state" where
  "revoke_capability cfg inp cid who s =
     (case map_of (vs_caps s) cid of
        None \<Rightarrow> (Err (CapabilityNotFound cid), s)
      | Some (c, k) \<Rightarrow>
          if cap_state c \<noteq> CapActive
          then (Err (VInvalidTransition (cap_state c) CapRevoked), s)
          else
            emit_if (broker_emits cfg)
              (emit_capability_revoked (vc_emitter cfg) (in_clock inp 1) cid who ''admin_request'' None) ()
              (audit_if (broker_audits cfg) (record_revoke (in_clock inp 0) cid who)
                (put_state cid CapRevoked s)))"

section \<open>The lifecycle driver\<close>

definition expire_capability ::
    "('sk, 'vk) vault_config \<Rightarrow> vault_inputs \<Rightarrow> string \<Rightarrow> vault_state \<Rightarrow>
     (vault_error, unit) result \<times> vault_state" where
  "expire_capability cfg inp cid s =
     (case map_of (vs_caps s) cid of
        None \<Rightarrow> (Err (CapabilityNotFound cid), s)
      | Some (c, k) \<Rightarrow>
          if cap_state c \<noteq> CapActive
          then (Err (VInvalidTransition (cap_state c) CapExpired), s)
          else
            emit_if (driver_emits cfg) (emit_capability_expired (vc_emitter cfg) cid (in_clock inp 1) None) ()
              (audit_if True (record_expire (in_clock inp 0) cid) (put_state cid CapExpired s)))"

record expiration_pass_report =
  pass_id :: string
  ep_started_at :: instant
  completed_at :: instant
  capabilities_inspected :: u64
  capabilities_expired :: u64

definition overdue :: "instant \<Rightarrow> vault_capability \<Rightarrow> bool" where
  "overdue now c \<longleftrightarrow> cap_state c = CapActive \<and>
     (case cap_expires_at c of None \<Rightarrow> False | Some t \<Rightarrow> t < now)"

definition expire_overdue :: "instant \<Rightarrow> vault_capability \<Rightarrow> vault_capability" where
  "expire_overdue now c = (if overdue now c then c\<lparr>cap_state := CapExpired\<rparr> else c)"

fun report_expired ::
    "('sk, 'vk) vault_config \<Rightarrow> vault_inputs \<Rightarrow> instant \<Rightarrow> string list \<Rightarrow> vault_state \<Rightarrow>
     (vault_error, unit) result \<times> vault_state" where
  "report_expired cfg inp now [] s = (Ok (), s)"
| "report_expired cfg inp now (cid # cids) s =
     (case emit_if (driver_emits cfg) (emit_capability_expired (vc_emitter cfg) cid now None) ()
             (audit_if True (record_expire (in_clock inp (2 + length cids)) cid) s) of
        (Inl e, s') \<Rightarrow> (Err e, s')
      | (Inr _, s') \<Rightarrow> report_expired cfg inp now cids s')"

definition run_expiration_pass ::
    "('sk, 'vk) vault_config \<Rightarrow> vault_inputs \<Rightarrow> instant \<Rightarrow> vault_state \<Rightarrow>
     (vault_error, expiration_pass_report) result \<times> vault_state" where
  "run_expiration_pass cfg inp now s =
     (let expired = map fst (filter (\<lambda>(_, c, _). overdue now c) (vs_caps s));
          s1 = s\<lparr>vs_caps := map (\<lambda>(cid, c, k). (cid, expire_overdue now c, k)) (vs_caps s)\<rparr>
      in case report_expired cfg inp now expired s1 of
           (Inl e, s2) \<Rightarrow> (Err e, s2)
         | (Inr _, s2) \<Rightarrow>
             (Ok \<lparr>pass_id = ''expp_'' @ in_ulid inp, ep_started_at = in_clock inp 0,
                  completed_at = in_clock inp 1, capabilities_inspected = of_nat (length (vs_caps s)),
                  capabilities_expired = of_nat (length expired)\<rparr>, s2))"

definition active_capability_count :: "vault_state \<Rightarrow> u64" where
  "active_capability_count s = of_nat (length (filter (\<lambda>(c, k). cap_state c = CapActive) (map snd (vs_caps s))))"

section \<open>What each operation does to the capability store\<close>

lemma emit_if_simps [simp]:
  "vs_caps (snd (emit_if on em a s)) = vs_caps s"
  "vs_derived (snd (emit_if on em a s)) = vs_derived s"
  "vs_audit (snd (emit_if on em a s)) = vs_audit s"
  by (auto simp: emit_if_def split: prod.splits sum.splits)

lemma emit_if_keeps:
  "emit_if on em a s = (r, s') \<Longrightarrow>
     vs_caps s' = vs_caps s \<and> vs_derived s' = vs_derived s \<and> vs_audit s' = vs_audit s"
  by (auto simp: emit_if_def split: prod.splits sum.splits if_splits)

lemma audit_if_simps [simp]:
  "vs_caps (audit_if on f s) = vs_caps s"
  "vs_derived (audit_if on f s) = vs_derived s"
  "vs_chain (audit_if on f s) = vs_chain s"
  "vs_audit (audit_if on f s) = (if on then f (vs_audit s) else vs_audit s)"
  by (auto simp: audit_if_def)

lemma put_state_simps [simp]:
  "vs_derived (put_state cid st s) = vs_derived s"
  "vs_audit (put_state cid st s) = vs_audit s"
  "vs_chain (put_state cid st s) = vs_chain s"
  by (auto simp: put_state_def split: option.splits)

lemma put_state_caps:
  "map_of (vs_caps (put_state cid st s)) =
     (case map_of (vs_caps s) cid of
        None \<Rightarrow> map_of (vs_caps s)
      | Some (c, k) \<Rightarrow> (map_of (vs_caps s))(cid \<mapsto> (c\<lparr>cap_state := st\<rparr>, k)))"
  by (auto simp: put_state_def AList.update_conv' split: option.splits)

lemma put_state_keys:
  "map fst (vs_caps (put_state cid st s)) = map fst (vs_caps s)"
proof (cases "map_of (vs_caps s) cid")
  case (Some ck)
  then have "cid \<in> set (map fst (vs_caps s))"
    by (metis map_of_eq_None_keys option.distinct(1))
  then show ?thesis using Some by (auto simp: put_state_def update_keys split: prod.splits)
qed (simp add: put_state_def)

lemma emit_if_ok [simp]: "fst (emit_if False em a s) = Ok a" "snd (emit_if False em a s) = s"
  by (simp_all add: emit_if_def)

lemma emit_if_answer:
  "fst (emit_if on em a s) = Ok a \<or> (\<exists>e. fst (emit_if on em a s) = Err e \<and> on \<and> fst (em (vs_chain s)) = Err e)"
  by (auto simp: emit_if_def split: prod.splits sum.splits)

lemma vault_emit_error:
  "fst (vault_emit em rt payload prev chain) = Err e \<Longrightarrow> \<exists>t. e = VEvidenceEmitFailed t"
  by (auto simp: vault_emit_def split: prod.splits sum.splits)

lemmas emission_defs = emit_capability_issued_def emit_capability_used_def emit_capability_revoked_def
  emit_capability_expired_def emit_override_granted_def emit_override_consumed_def emit_override_revoked_def

lemma issue_effect:
  "issue_capability cfg inp req s = (r, s') \<Longrightarrow>
   (\<exists>e. validate_key_algorithm_for_class (ic_class req) (key_algorithm req) = Err e \<and> s' = s \<and> r = Err e) \<or>
   (validate_key_algorithm_for_class (ic_class req) (key_algorithm req) = Ok () \<and>
    vs_derived s' = vs_derived s \<and>
    vs_audit s' = (if broker_audits cfg
                   then record_issue (capability_id_new (in_ulid inp)) (ic_issued_to req) (vs_audit s) else vs_audit s) \<and>
    vs_caps s' = AList.update (capability_id_new (in_ulid inp))
      (new_capability (in_ulid inp) (in_clock inp 0) req,
       new_key_material (vc_crypto cfg) (in_rng inp) (in_clock inp 0) req) (vs_caps s))"
  by (auto simp: issue_capability_def Let_def new_capability_def split: sum.splits
      dest!: arg_cong [of _ _ snd])

lemma use_complete_caps [simp]: "vs_caps (snd (use_complete cfg inp req k s)) = vs_caps s"
  by (auto simp: use_complete_def Let_def split: prod.splits sum.splits)

lemma report_expired_keeps:
  "report_expired cfg inp now cids s = (r, s') \<Longrightarrow> vs_caps s' = vs_caps s \<and> vs_derived s' = vs_derived s"
proof (induction cids arbitrary: s)
  case (Cons cid cids)
  then show ?case by (fastforce split: prod.splits sum.splits dest: emit_if_keeps)
qed simp

lemma pass_caps:
  "vs_caps (snd (run_expiration_pass cfg inp now s)) =
     map (\<lambda>(cid, c, k). (cid, expire_overdue now c, k)) (vs_caps s)"
  by (auto simp: run_expiration_pass_def Let_def split: prod.splits sum.splits dest: report_expired_keeps)

lemma pass_lookup:
  "map_of (vs_caps (snd (run_expiration_pass cfg inp now s))) cid =
     map_option (\<lambda>(c, k). (expire_overdue now c, k)) (map_of (vs_caps s) cid)"
proof -
  have eq: "(\<lambda>(cid, c, k). (cid, expire_overdue now c, k)) =
      (\<lambda>(i, v). (i, (\<lambda>(c, k). (expire_overdue now c, k)) v))"
    by (auto simp: fun_eq_iff)
  show ?thesis by (simp only: pass_caps eq map_of_map_value)
qed

end
