(* ===== verification/Labelled_Runs.thy ===== *)
theory Labelled_Runs
  imports Prelude
begin

text \<open>
  Runs of a labelled transition system, shared by the components whose calls interleave: a run
  is the list of the labels of its steps. The lemmas carry an invariant, or a quantity that
  each step accounts for, along a run.
\<close>

inductive lts_run :: "('s \<Rightarrow> 'e \<Rightarrow> 's \<Rightarrow> bool) \<Rightarrow> 's \<Rightarrow> 'e list \<Rightarrow> 's \<Rightarrow> bool"
  for step :: "'s \<Rightarrow> 'e \<Rightarrow> 's \<Rightarrow> bool" where
  run_nil [intro]: "lts_run step s [] s"
| run_cons [intro]: "step s e s1 \<Longrightarrow> lts_run step s1 es s2 \<Longrightarrow> lts_run step s (e # es) s2"

inductive_simps lts_run_nil [simp]: "lts_run step s [] s'"
inductive_simps lts_run_cons [simp]: "lts_run step s (e # es) s'"

lemma lts_run_append:
  "lts_run step s (es @ fs) s' \<longleftrightarrow> (\<exists>m. lts_run step s es m \<and> lts_run step m fs s')"
  by (induction es arbitrary: s) auto

lemma lts_run_split:
  assumes "lts_run step s es s'" and "e \<in> set es"
  obtains es1 es2 m m' where "es = es1 @ e # es2" "lts_run step s es1 m" "step m e m'" "lts_run step m' es2 s'"
proof -
  obtain es1 es2 where "es = es1 @ e # es2" using assms(2) by (meson split_list)
  with assms(1) that show thesis by (auto simp: lts_run_append)
qed

lemma lts_run_invariant:
  assumes "lts_run step s es s'" and "I s"
    and "\<And>m e m'. step m e m' \<Longrightarrow> e \<in> set es \<Longrightarrow> I m \<Longrightarrow> I m'"
  shows "I s'"
  using assms by (induction rule: lts_run.induct) auto

text \<open>A property that every state of the run has, at each of its steps.\<close>

lemma lts_run_each_step:
  assumes "lts_run step s es s'" and "I s"
    and "\<And>m e m'. step m e m' \<Longrightarrow> e \<in> set es \<Longrightarrow> I m \<Longrightarrow> I m' \<and> P e"
  shows "I s' \<and> (\<forall>e \<in> set es. P e)"
  using assms by (induction rule: lts_run.induct) auto

text \<open>A quantity that changes with each step by what the step's label accounts for.\<close>

lemma lts_run_balance:
  fixes \<mu> :: "'s \<Rightarrow> nat" and \<delta> :: "'e \<Rightarrow> nat"
  assumes "lts_run step s es s'" and "I s"
    and "\<And>m e m'. step m e m' \<Longrightarrow> e \<in> set es \<Longrightarrow> I m \<Longrightarrow> I m' \<and> \<mu> m' + \<delta> e = \<mu> m"
  shows "\<mu> s' + sum_list (map \<delta> es) = \<mu> s"
  using assms
proof (induction rule: lts_run.induct)
  case (run_cons s e s1 es s2)
  have "I s1" and "\<mu> s1 + \<delta> e = \<mu> s"
    using run_cons.prems(2) [OF run_cons.hyps(1) _ run_cons.prems(1)] by simp_all
  moreover have "\<mu> s2 + sum_list (map \<delta> es) = \<mu> s1"
    using run_cons.IH [OF \<open>I s1\<close>] run_cons.prems(2) by simp
  ultimately show ?case by simp
qed simp

end
