(* ===== verification/Vault_Lifecycle.thy ===== *)
theory Vault_Lifecycle
  imports Vault_Broker Labelled_Runs
begin

text \<open>
  The vault as a state machine. A step is one critical section of the broker or one call of the
  lifecycle driver; a use is admitted in one step and completes in a later one, with any other
  steps between them, as the lock of \<open>use_capability\<close> allows. The theorems say what a capability
  can still do after it was revoked or has expired, what every executed operation was admitted
  on, what the audit log counts, what an expiration pass changes, and that nothing but the
  cryptographic results depends on the bytes of a key.
\<close>

section \<open>The capability state machine\<close>

fun cap_moves :: "capability_state \<Rightarrow> capability_state \<Rightarrow> bool" where
  "cap_moves CapActive CapExpired = True"
| "cap_moves CapActive CapRevoked = True"
| "cap_moves _ _ = False"

interpretation vcap: lifecycle_fsm cap_moves "\<lambda>st. st \<noteq> CapActive"
  "\<lambda>st. if st = CapActive then 1 else 0"
proof
  show "st \<noteq> CapActive \<Longrightarrow> \<not> cap_moves st st'" for st st' by (cases st) auto
  show "\<not> st \<noteq> CapActive \<Longrightarrow> \<exists>st'. cap_moves st st'" for st
    by (metis cap_moves.simps(1))
  show "cap_moves st st' \<Longrightarrow> (if st' = CapActive then 1 else 0 :: nat) < (if st = CapActive then 1 else 0)"
    for st st' by (cases st; cases st') auto
qed

section \<open>Steps\<close>

datatype vault_event =
    EvIssue vault_inputs issue_capability_request "(vault_error, vault_capability) result"
  | EvAdmit vault_inputs use_capability_request
  | EvRefuse vault_inputs use_capability_request vault_error
  | EvComplete vault_inputs use_capability_request "(vault_error, use_capability_result) result"
  | EvRevoke vault_inputs string string "(vault_error, unit) result"
  | EvExpire vault_inputs string "(vault_error, unit) result"
  | EvPass vault_inputs instant "(vault_error, expiration_pass_report) result"

type_synonym in_flight = "(use_capability_request \<times> key_material) list"

inductive vault_step ::
    "('sk, 'vk) vault_config \<Rightarrow> vault_state \<times> in_flight \<Rightarrow> vault_event \<Rightarrow> vault_state \<times> in_flight \<Rightarrow> bool"
  for cfg :: "('sk, 'vk) vault_config" where
  issue: "issue_capability cfg inp req s = (r, s') \<Longrightarrow> vault_step cfg (s, fl) (EvIssue inp req r) (s', fl)"
| admit: "use_admit cfg inp req s = (Inr k, s') \<Longrightarrow> vault_step cfg (s, fl) (EvAdmit inp req) (s', (req, k) # fl)"
| refuse: "use_admit cfg inp req s = (Inl e, s') \<Longrightarrow> vault_step cfg (s, fl) (EvRefuse inp req e) (s', fl)"
| complete: "(req, k) \<in> set fl \<Longrightarrow> use_complete cfg inp req k s = (r, s') \<Longrightarrow>
    vault_step cfg (s, fl) (EvComplete inp req r) (s', remove1 (req, k) fl)"
| revoke: "revoke_capability cfg inp cid who s = (r, s') \<Longrightarrow>
    vault_step cfg (s, fl) (EvRevoke inp cid who r) (s', fl)"
| expire: "expire_capability cfg inp cid s = (r, s') \<Longrightarrow> vault_step cfg (s, fl) (EvExpire inp cid r) (s', fl)"
| pass: "run_expiration_pass cfg inp now s = (r, s') \<Longrightarrow> vault_step cfg (s, fl) (EvPass inp now r) (s', fl)"



fun reissues :: "string \<Rightarrow> vault_event \<Rightarrow> bool" where
  "reissues cid (EvIssue inp req r) = (capability_id_new (in_ulid inp) = cid)"
| "reissues cid _ = False"

fun admits :: "string \<Rightarrow> vault_event \<Rightarrow> bool" where
  "admits cid (EvAdmit inp req) = (uc_capability_id req = cid)"
| "admits cid _ = False"

fun completes :: "string \<Rightarrow> vault_event \<Rightarrow> bool" where
  "completes cid (EvComplete inp req r) = (uc_capability_id req = cid)"
| "completes cid _ = False"

definition pending_uses :: "string \<Rightarrow> in_flight \<Rightarrow> nat" where
  "pending_uses cid fl = length (filter (\<lambda>(req, k). uc_capability_id req = cid) fl)"

lemma pending_uses_simps [simp]:
  "pending_uses cid [] = 0"
  "pending_uses cid ((req, k) # fl) = (if uc_capability_id req = cid then 1 else 0) + pending_uses cid fl"
  by (auto simp: pending_uses_def)

lemma pending_uses_remove1:
  "(req, k) \<in> set fl \<Longrightarrow>
   pending_uses cid (remove1 (req, k) fl) + (if uc_capability_id req = cid then 1 else 0) = pending_uses cid fl"
  by (induction fl) (auto split: prod.splits)

section \<open>Single steps\<close>

definition lapsed :: "instant \<Rightarrow> vault_capability \<Rightarrow> bool" where
  "lapsed now c \<longleftrightarrow> (case cap_expires_at c of None \<Rightarrow> False | Some t \<Rightarrow> t < now)"

definition permits :: "capability_class \<Rightarrow> vault_operation \<Rightarrow> bool" where
  "permits cls op \<longleftrightarrow> operation_matches_class cls op \<or> operation_matches_t049_extension cls op"

lemma use_admit_Ok_iff:
  "use_admit cfg inp req s = (Inr k, s') \<longleftrightarrow>
     s' = s \<and> (\<exists>c. map_of (vs_caps s) (uc_capability_id req) = Some (c, k) \<and> cap_state c = CapActive \<and>
       \<not> lapsed (in_clock inp 0) c \<and> permits (cap_class c) (operation req))"
  by (auto simp: use_admit_def Let_def lapsed_def permits_def
      split: option.splits capability_state.splits if_splits)

lemma use_admit_refused:
  "use_admit cfg inp req s = (Inl e, s') \<Longrightarrow>
     vs_caps s' = vs_caps s \<or>
     (\<exists>c k. map_of (vs_caps s) (uc_capability_id req) = Some (c, k) \<and> cap_state c = CapActive \<and>
       lapsed (in_clock inp 0) c \<and> vs_caps s' = vs_caps (put_state (uc_capability_id req) CapExpired s))"
  by (auto simp: use_admit_def Let_def lapsed_def
      split: option.splits capability_state.splits if_splits prod.splits)

definition evolves :: "vault_capability \<Rightarrow> vault_capability \<Rightarrow> bool" where
  "evolves c c' \<longleftrightarrow> c' = c \<or> (cap_moves (cap_state c) (cap_state c') \<and> c' = c\<lparr>cap_state := cap_state c'\<rparr>)"

lemma evolves_refl [simp]: "evolves c c" by (simp add: evolves_def)

lemma evolves_put: "cap_state c = CapActive \<Longrightarrow> st \<in> {CapExpired, CapRevoked} \<Longrightarrow> evolves c (c\<lparr>cap_state := st\<rparr>)"
  by (auto simp: evolves_def)

lemma evolves_expire_overdue [simp]: "evolves c (expire_overdue now c)"
  by (auto simp: expire_overdue_def overdue_def evolves_def)

lemma put_evolves:
  assumes "map_of (vs_caps s) cid = Some (c, k)" and "map_of (vs_caps s) cid' = Some (c', k')"
    and "cap_state c' = CapActive" and "st \<in> {CapExpired, CapRevoked}"
  shows "\<exists>d. map_of (vs_caps (put_state cid' st s)) cid = Some (d, k) \<and> evolves c d"
  using assms by (cases "cid = cid'") (auto simp: put_state_caps evolves_def)

lemma issue_other:
  assumes "issue_capability cfg inp req s = (r, s')" and "cid \<noteq> capability_id_new (in_ulid inp)"
  shows "map_of (vs_caps s') cid = map_of (vs_caps s) cid"
  using issue_effect [OF assms(1)] assms(2) by (auto simp: AList.update_conv')

lemma revoke_caps:
  assumes "revoke_capability cfg inp cid who s = (r, s')"
  shows "vs_caps s' = vs_caps s \<or>
    (\<exists>c k. map_of (vs_caps s) cid = Some (c, k) \<and> cap_state c = CapActive \<and>
       vs_caps s' = vs_caps (put_state cid CapRevoked s))"
  using assms by (auto simp: revoke_capability_def split: option.splits if_splits prod.splits dest: emit_if_keeps)

lemma expire_caps:
  assumes "expire_capability cfg inp cid s = (r, s')"
  shows "vs_caps s' = vs_caps s \<or>
    (\<exists>c k. map_of (vs_caps s) cid = Some (c, k) \<and> cap_state c = CapActive \<and>
       vs_caps s' = vs_caps (put_state cid CapExpired s))"
  using assms by (auto simp: expire_capability_def split: option.splits if_splits prod.splits dest: emit_if_keeps)

lemma complete_caps: "use_complete cfg inp req k s = (r, s') \<Longrightarrow> vs_caps s' = vs_caps s"
  using use_complete_caps [of cfg inp req k s] by simp

lemma pass_step_lookup:
  "run_expiration_pass cfg inp now s = (r, s') \<Longrightarrow>
   map_of (vs_caps s') cid = map_option (\<lambda>(c, k). (expire_overdue now c, k)) (map_of (vs_caps s) cid)"
  using pass_lookup [of cfg inp now s cid] by simp

lemma step_evolves:
  assumes "vault_step cfg (s, fl) e (s', fl')" and "map_of (vs_caps s) cid = Some (c, k)"
    and "\<not> reissues cid e"
  shows "\<exists>c'. map_of (vs_caps s') cid = Some (c', k) \<and> evolves c c'"
  using assms(1)
proof (cases rule: vault_step.cases)
  case (issue inp req r)
  then show ?thesis using issue_other [of cfg inp req s r s' cid] assms by auto
next
  case (refuse inp req e')
  then show ?thesis using use_admit_refused [of cfg inp req s e' s'] put_evolves assms(2) by fastforce
next
  case (revoke inp cid' who r)
  then show ?thesis using revoke_caps [of cfg inp cid' who s r s'] put_evolves assms(2) by fastforce
next
  case (expire inp cid' r)
  then show ?thesis using expire_caps [of cfg inp cid' s r s'] put_evolves assms(2) by fastforce
qed (use assms(2) in \<open>auto simp: use_admit_Ok_iff pass_step_lookup dest: complete_caps\<close>)

lemma evolves_dead: "evolves c c' \<Longrightarrow> cap_state c \<noteq> CapActive \<Longrightarrow> c' = c"
  by (auto simp: evolves_def dest: vcap.terminal_stuck)

section \<open>Dead capabilities\<close>

text \<open>The answer of \<open>use_capability\<close> on a capability that is not active.\<close>

fun dead_error :: "string \<Rightarrow> capability_state \<Rightarrow> vault_error" where
  "dead_error cid CapExpired = CapabilityExpired cid"
| "dead_error cid CapRevoked = CapabilityRevoked cid"
| "dead_error cid st = VInvalidTransition st CapActive"

lemma use_admit_dead:
  assumes "map_of (vs_caps s) (uc_capability_id req) = Some (c, k)" and "cap_state c \<noteq> CapActive"
  shows "use_admit cfg inp req s = (Inl (dead_error (uc_capability_id req) (cap_state c)), s)"
  using assms by (auto simp: use_admit_def Let_def split: capability_state.splits)

fun inert_step :: "string \<Rightarrow> capability_state \<Rightarrow> vault_event \<Rightarrow> bool" where
  "inert_step cid st (EvAdmit inp req) = (uc_capability_id req \<noteq> cid)"
| "inert_step cid st (EvRefuse inp req e) = (uc_capability_id req = cid \<longrightarrow> e = dead_error cid st)"
| "inert_step cid st _ = True"

lemma dead_step:
  assumes "vault_step cfg \<sigma> e \<sigma>'" and "map_of (vs_caps (fst \<sigma>)) cid = Some (c, k)"
    and "cap_state c \<noteq> CapActive" and "\<not> reissues cid e"
  shows "map_of (vs_caps (fst \<sigma>')) cid = Some (c, k) \<and> inert_step cid (cap_state c) e \<and>
    pending_uses cid (snd \<sigma>') + of_bool (completes cid e) = pending_uses cid (snd \<sigma>)"
proof -
  obtain s fl s' fl' where \<sigma>: "\<sigma> = (s, fl)" "\<sigma>' = (s', fl')" by fastforce
  note st = assms(1) [unfolded \<sigma>]
  have "map_of (vs_caps s') cid = Some (c, k)"
    using step_evolves [OF st] assms evolves_dead unfolding \<sigma> by fastforce
  moreover have "inert_step cid (cap_state c) e"
    using st assms(2,3) use_admit_dead [of s _ c k cfg] unfolding \<sigma>
    by (cases rule: vault_step.cases) (auto simp: use_admit_Ok_iff)
  moreover have "pending_uses cid fl' + of_bool (completes cid e) = pending_uses cid fl"
    using st assms(2,3) unfolding \<sigma>
    by (cases rule: vault_step.cases) (auto simp: use_admit_Ok_iff pending_uses_remove1 dest: pending_uses_remove1 [of _ _ _ cid])
  ultimately show ?thesis by (simp add: \<sigma>)
qed

text \<open>
  C9: What is left of a capability that was revoked, has expired or was never active. In every run
  from there, with any interleaving, in which its identifier is not generated again: no use of it is
  admitted, every attempt is refused with the error of its state, its record and key stay as
  they are, and the uses that complete are among those admitted before, each at most once. The
  specification (\<open>02_vault_broker.md\<close>, section 9.2) wants those to fail with \<open>CapabilityRevoked\<close> as
  well; the code lets them complete (\<open>revocation_spares_uses_in_flight\<close>).
\<close>

theorem dead_capability_is_inert:
  assumes "lts_run (vault_step cfg) (s, fl) es (s', fl')"
    and "map_of (vs_caps s) cid = Some (c, k)" and "cap_state c \<noteq> CapActive"
    and "\<forall>e \<in> set es. \<not> reissues cid e"
  shows "(\<forall>e \<in> set es. inert_step cid (cap_state c) e) \<and> map_of (vs_caps s') cid = Some (c, k) \<and>
    pending_uses cid fl' + length (filter (completes cid) es) = pending_uses cid fl"
proof -
  let ?I = "\<lambda>\<sigma>. map_of (vs_caps (fst \<sigma>)) cid = Some (c, k)"
  have step: "vault_step cfg m e m' \<Longrightarrow> e \<in> set es \<Longrightarrow> ?I m \<Longrightarrow> ?I m' \<and> inert_step cid (cap_state c) e \<and>
      pending_uses cid (snd m') + of_bool (completes cid e) = pending_uses cid (snd m)" for m e m'
    using dead_step [OF _ _ assms(3)] assms(4) by blast
  have "?I (s', fl') \<and> (\<forall>e \<in> set es. inert_step cid (cap_state c) e)"
    by (rule lts_run_each_step [OF assms(1)]) (use assms(2) step in auto)
  moreover have "pending_uses cid (snd (s', fl')) + sum_list (map (\<lambda>e. of_bool (completes cid e)) es) =
      pending_uses cid (snd (s, fl))"
    by (rule lts_run_balance [OF assms(1), where I = ?I]) (use assms(2) step in auto)
  moreover have "sum_list (map (\<lambda>e. of_bool (P e)) es) = length (filter P es)" for P :: "vault_event \<Rightarrow> bool" and es
    by (induction es) auto
  ultimately show ?thesis by simp
qed

section \<open>Every executed operation was admitted\<close>

text \<open>What the broker has checked of a request when it admits it.\<close>

definition admissible :: "vault_state \<Rightarrow> instant \<Rightarrow> use_capability_request \<Rightarrow> key_material \<Rightarrow> bool" where
  "admissible s now req k \<longleftrightarrow>
     (\<exists>c. map_of (vs_caps s) (uc_capability_id req) = Some (c, k) \<and> cap_state c = CapActive \<and>
        \<not> lapsed now c \<and> permits (cap_class c) (operation req))"

definition admitted_in ::
    "('sk, 'vk) vault_config \<Rightarrow> vault_state \<times> in_flight \<Rightarrow> vault_event list \<Rightarrow> use_capability_request \<times> key_material \<Rightarrow> bool" where
  "admitted_in cfg \<sigma>0 es = (\<lambda>(req, k).
     \<exists>es1 es2 inp s fl. es = es1 @ EvAdmit inp req # es2 \<and> lts_run (vault_step cfg) \<sigma>0 es1 (s, fl) \<and>
       admissible s (in_clock inp 0) req k)"

lemma admitted_in_mono: "admitted_in cfg \<sigma>0 es u \<Longrightarrow> admitted_in cfg \<sigma>0 (es @ fs) u"
  by (fastforce simp: admitted_in_def)

lemma in_flight_admitted:
  assumes "lts_run (vault_step cfg) \<sigma>0 es \<sigma>" and "snd \<sigma>0 = []"
  shows "\<forall>u \<in> set (snd \<sigma>). admitted_in cfg \<sigma>0 es u"
  using assms(1)
proof (induction es arbitrary: \<sigma> rule: rev_induct)
  case (snoc e es)
  obtain \<sigma>1 where run: "lts_run (vault_step cfg) \<sigma>0 es \<sigma>1" and st: "vault_step cfg \<sigma>1 e \<sigma>"
    using snoc.prems by (auto simp: lts_run_append)
  note ih = snoc.IH [OF run]
  show ?case
  proof
    fix u assume u: "u \<in> set (snd \<sigma>)"
    show "admitted_in cfg \<sigma>0 (es @ [e]) u"
    proof (cases "u \<in> set (snd \<sigma>1)")
      case True
      then show ?thesis using ih admitted_in_mono by blast
    next
      case False
      obtain s fl inp req k where "\<sigma>1 = (s, fl)" "e = EvAdmit inp req" "u = (req, k)"
          "use_admit cfg inp req s = (Inr k, s)"
        using st u False by (cases rule: vault_step.cases) (auto simp: use_admit_Ok_iff dest: notin_set_remove1)
      then show ?thesis
        using run unfolding admitted_in_def admissible_def use_admit_Ok_iff by fastforce
    qed
  qed
qed (use assms(2) in simp)

text \<open>
  C24: No operation runs without an admission. In every run from a vault with no use under way, a use
  that completes was admitted earlier in the run, in a state in which the capability existed, was
  active, had not passed its expiry by the clock of the admission and was of a class that covers
  the operation; and it ran on the key stored with that capability.
\<close>

theorem executed_use_was_admitted:
  assumes "lts_run (vault_step cfg) (s0, []) es (s, fl)" and "EvComplete inp req r \<in> set es"
  shows "\<exists>es1 es2 inp0 s1 fl1 k s2. es = es1 @ EvAdmit inp0 req # es2 \<and> EvComplete inp req r \<in> set es2 \<and>
    lts_run (vault_step cfg) (s0, []) es1 (s1, fl1) \<and> admissible s1 (in_clock inp0 0) req k \<and>
    r = fst (use_complete cfg inp req k s2)"
proof -
  obtain fs gs m m' where es: "es = fs @ EvComplete inp req r # gs"
    and run: "lts_run (vault_step cfg) (s0, []) fs m" and st: "vault_step cfg m (EvComplete inp req r) m'"
    using lts_run_split [OF assms] by metis
  obtain k s2 where k: "(req, k) \<in> set (snd m)" and r: "r = fst (use_complete cfg inp req k s2)"
    using st by (cases rule: vault_step.cases) (auto, metis fst_conv)
  have "admitted_in cfg (s0, []) fs (req, k)"
    using in_flight_admitted [OF run] k by simp
  then obtain es1 es2 inp0 s1 fl1 where "fs = es1 @ EvAdmit inp0 req # es2"
      "lts_run (vault_step cfg) (s0, []) es1 (s1, fl1)" "admissible s1 (in_clock inp0 0) req k"
    by (auto simp: admitted_in_def)
  then show ?thesis using es r
    by (intro exI [of _ es1] exI [of _ "es2 @ EvComplete inp req r # gs"]) auto
qed

section \<open>What the audit log counts\<close>

definition counted_uses :: "string \<Rightarrow> vault_state \<Rightarrow> u64 option" where
  "counted_uses cid s = map_option use_count (audit_lookup cid (vs_audit s))"

lemma audit_modify_lookup:
  "map_of (audit_modify i f a) = (map_of a)(i := map_option f (map_of a i))"
  by (auto simp: audit_modify_def AList.update_conv' fun_eq_iff split: option.splits)

lemma count_kept [simp]:
  "map_option use_count (map_of (record_revoke now i who a) cid) = map_option use_count (map_of a cid)"
  "map_option use_count (map_of (record_expire now i a) cid) = map_option use_count (map_of a cid)"
  by (auto simp: record_revoke_def record_expire_def audit_modify_lookup option.map_comp comp_def)

lemma count_used:
  "map_option use_count (map_of (record_use now i kind a) cid) =
     (if i = cid then map_option (\<lambda>n. saturating_add n 1) (map_option use_count (map_of a cid))
      else map_option use_count (map_of a cid))"
  by (auto simp: record_use_def audit_modify_lookup option.map_comp comp_def)

lemma report_expired_count:
  "report_expired cfg inp now cids s = (r, s') \<Longrightarrow> counted_uses cid s' = counted_uses cid s"
proof (induction cids arbitrary: s)
  case (Cons i cids)
  let ?s1 = "audit_if True (record_expire (in_clock inp (2 + length cids)) i) s"
  have 1: "counted_uses cid ?s1 = counted_uses cid s" by (simp add: counted_uses_def audit_lookup_def)
  obtain r1 s1 where e: "emit_if (driver_emits cfg) (emit_capability_expired (vc_emitter cfg) i now None) () ?s1 = (r1, s1)"
    by fastforce
  then have "counted_uses cid s1 = counted_uses cid s"
    using 1 by (auto simp: counted_uses_def dest!: emit_if_keeps)
  then show ?case using Cons e by (cases r1) auto
qed simp

text \<open>
  The operations that ran: \<open>execute_operation\<close> returned a result, whether or not the receipt that
  reports it could be appended afterwards.
\<close>

fun executed_event :: "string \<Rightarrow> vault_event \<Rightarrow> bool" where
  "executed_event cid (EvComplete inp req r) =
     (uc_capability_id req = cid \<and> (case r of Inr _ \<Rightarrow> True | Inl e \<Rightarrow> (case e of VEvidenceEmitFailed _ \<Rightarrow> True | _ \<Rightarrow> False)))"
| "executed_event cid _ = False"

lemma crypto_error_kinds:
  "aes_encrypt cr rng k m a = Inl e \<Longrightarrow> \<exists>t. e = CryptoError t"
  "aes_decrypt cr k m a = Inl e \<Longrightarrow> \<exists>t. e = CryptoError t"
  "hmac_generate cr k m = Inl e \<Longrightarrow> \<exists>t. e = CryptoError t"
  "hmac_verify cr k m tag = Inl e \<Longrightarrow> \<exists>t. e = CryptoError t"
  "hkdf_derive cr k m len = Inl e \<Longrightarrow> \<exists>t. e = CryptoError t"
  "ed25519_sign_op cr k m = Inl e \<Longrightarrow> \<exists>t. e = CryptoError t"
  "ed25519_verify_op cr k m sig = Inl e \<Longrightarrow> \<exists>t. e = CryptoError t"
  by (auto simp: aes_encrypt_def aes_decrypt_def hmac_generate_def hmac_verify_def hkdf_derive_def
      ed25519_sign_op_def ed25519_verify_op_def cipher_def mac_def key_bytes_def Let_def result_simps
      split: if_splits option.splits)

lemma execute_error_kinds:
  assumes "execute_operation cr inp k op d = (Inl e, d')"
  shows "(\<exists>t. e = CryptoError t) \<or> e = OperationUnsupportedInT049 op \<or>
    e = KeyAlgorithmMismatch HkdfSha256 (algorithm k)"
  using assms
  by (cases op)
    (auto simp: execute_operation_def Let_def result_simps split: if_splits sum.splits dest: crypto_error_kinds)

lemma complete_count:
  assumes "use_complete cfg inp req k s = (r, s')" and "broker_audits cfg"
  shows "counted_uses cid s' =
    (if executed_event cid (EvComplete inp req r) then map_option (\<lambda>n. saturating_add n 1) (counted_uses cid s)
     else counted_uses cid s)"
proof -
  obtain x d where x: "execute_operation (vc_crypto cfg) inp k (operation req) (vs_derived s) = (x, d)" by fastforce
  show ?thesis
  proof (cases x)
    case (Inl e)
    then show ?thesis
      using assms(1) x execute_error_kinds [OF x [unfolded Inl]]
      by (auto simp: use_complete_def Let_def counted_uses_def)
  next
    case (Inr v)
    let ?em = "emit_capability_used (vc_emitter cfg) (in_clock inp 3) (uc_capability_id req) (operation_kind (operation req)) None"
    let ?s = "audit_if (broker_audits cfg) (record_use (in_clock inp 2) (uc_capability_id req)
                (operation_kind (operation req))) (s\<lparr>vs_derived := d\<rparr>)"
    have e: "emit_if (broker_emits cfg) ?em v ?s = (r, s')"
      using assms(1) x Inr by (simp add: use_complete_def Let_def)
    have "r = Ok v \<or> (\<exists>t. r = Err (VEvidenceEmitFailed t))"
      using emit_if_answer [of "broker_emits cfg" ?em v ?s] e vault_emit_error
      by (fastforce simp: emission_defs)
    then have "executed_event cid (EvComplete inp req r) = (uc_capability_id req = cid)" by auto
    then show ?thesis
      using emit_if_keeps [OF e] assms(2) by (simp add: counted_uses_def audit_lookup_def count_used)
  qed
qed

lemma step_count:
  assumes "vault_step cfg \<sigma> e \<sigma>'" and "broker_audits cfg" and "\<not> reissues cid e"
  shows "counted_uses cid (fst \<sigma>') =
    (if executed_event cid e then map_option (\<lambda>n. saturating_add n 1) (counted_uses cid (fst \<sigma>))
     else counted_uses cid (fst \<sigma>))"
  using assms(1)
proof (cases rule: vault_step.cases)
  case (issue inp req s r s' fl)
  then show ?thesis
    using issue_effect [of cfg inp req s r s'] assms(2,3)
    by (auto simp: counted_uses_def audit_lookup_def record_issue_def AList.update_conv')
next
  case (complete req k fl inp s r s')
  then show ?thesis using complete_count [of cfg inp req k s r s' cid] assms(2) by simp
next
  case (pass inp now s r s' fl)
  then show ?thesis
    by (auto simp: run_expiration_pass_def Let_def counted_uses_def [of _ "s\<lparr>vs_caps := _\<rparr>"] counted_uses_def [of _ s]
        dest!: report_expired_count [where cid = cid] split: prod.splits sum.splits)
qed (auto simp: use_admit_def revoke_capability_def expire_capability_def counted_uses_def audit_lookup_def Let_def
    split: option.splits prod.splits capability_state.splits if_splits dest!: emit_if_keeps)

text \<open>
  The audit log counts exactly. With the audit log attached, over any run in which the identifier of
  the capability is not generated again, its use counter grows by the number of its operations that
  ran, the ones whose receipt could not be written included, and stays at the largest 64-bit
  number instead of wrapping.
\<close>

theorem audit_counts_executed_uses:
  assumes "lts_run (vault_step cfg) \<sigma> es \<sigma>'" and "broker_audits cfg"
    and "counted_uses cid (fst \<sigma>) = Some n" and "\<forall>e \<in> set es. \<not> reissues cid e"
  shows "\<exists>n'. counted_uses cid (fst \<sigma>') = Some n' \<and>
    unat n' = min (unat n + length (filter (executed_event cid) es)) (2 ^ 64 - 1)"
  using assms(1,3,4)
proof (induction arbitrary: n rule: lts_run.induct)
  case (run_nil s)
  have "unat n < 2 ^ 64" using unsigned_less [of n] by simp
  then show ?case using run_nil by simp
next
  case (run_cons \<sigma>0 e \<sigma>1 es \<sigma>2)
  let ?n = "if executed_event cid e then saturating_add n 1 else n"
  have "counted_uses cid (fst \<sigma>1) = Some ?n"
    using step_count [OF run_cons.hyps(1) assms(2)] run_cons.prems by simp
  from run_cons.IH [OF this] run_cons.prems(2) show ?case
    by (auto simp: unat_saturating_add)
qed

section \<open>The store invariant\<close>

definition capability_inv :: "string \<Rightarrow> vault_capability \<Rightarrow> key_material \<Rightarrow> bool" where
  "capability_inv cid c k \<longleftrightarrow>
     capability_id c = cid \<and> key_material_handle c = ''vault-internal:'' @ cid \<and>
     cap_state c \<in> {CapActive, CapExpired, CapRevoked} \<and>
     validate_key_algorithm_for_class (cap_class c) (algorithm k) = Ok ()"

definition vault_inv :: "vault_state \<Rightarrow> bool" where
  "vault_inv s \<longleftrightarrow> distinct (map fst (vs_caps s)) \<and>
     (\<forall>cid c k. map_of (vs_caps s) cid = Some (c, k) \<longrightarrow> capability_inv cid c k)"

lemma capability_inv_evolves:
  "capability_inv cid c k \<Longrightarrow> evolves c c' \<Longrightarrow> capability_inv cid c' k"
  by (cases "cap_state c"; cases "cap_state c'") (auto simp: capability_inv_def evolves_def)

lemma step_keys:
  assumes "vault_step cfg (s, fl) e (s', fl')"
  shows "map fst (vs_caps s') = map fst (vs_caps s) \<or>
    (\<exists>inp req r. e = EvIssue inp req r \<and>
       map_of (vs_caps s') = (map_of (vs_caps s))(capability_id_new (in_ulid inp) \<mapsto>
         (new_capability (in_ulid inp) (in_clock inp 0) req,
          new_key_material (vc_crypto cfg) (in_rng inp) (in_clock inp 0) req)) \<and>
       (distinct (map fst (vs_caps s)) \<longrightarrow> distinct (map fst (vs_caps s'))) \<and>
       validate_key_algorithm_for_class (ic_class req) (key_algorithm req) = Ok ())"
  using assms
proof (cases rule: vault_step.cases)
  case (issue inp req r)
  then show ?thesis using issue_effect [of cfg inp req s r s']
    by (auto simp: AList.update_conv' AList.distinct_update)
next
  case (refuse inp req e')
  then show ?thesis using use_admit_refused [of cfg inp req s e' s'] put_state_keys by fastforce
next
  case (revoke inp cid who r)
  then show ?thesis using revoke_caps [of cfg inp cid who s r s'] put_state_keys by fastforce
next
  case (expire inp cid r)
  then show ?thesis using expire_caps [of cfg inp cid s r s'] put_state_keys by fastforce
next
  case (pass inp now r)
  then have "vs_caps s' = map (\<lambda>(cid, c, k). (cid, expire_overdue now c, k)) (vs_caps s)"
    using pass_caps [of cfg inp now s] by simp
  then show ?thesis by (simp add: case_prod_unfold comp_def)
qed (auto simp: use_admit_Ok_iff dest: complete_caps)

lemma keys_eq_lookup:
  assumes "map fst al = map fst bl" and "map_of al i = Some v"
  shows "\<exists>w. map_of bl i = Some w"
  using assms by (metis map_of_eq_None_keys not_None_eq)

lemma vault_inv_step:
  assumes st: "vault_step cfg (s, fl) e (s', fl')" and inv: "vault_inv s"
  shows "vault_inv s'"
proof -
  consider (same) "map fst (vs_caps s') = map fst (vs_caps s)" "\<And>cid. \<not> reissues cid e"
    | (issued) inp req r where "e = EvIssue inp req r"
      "map_of (vs_caps s') = (map_of (vs_caps s))(capability_id_new (in_ulid inp) \<mapsto>
         (new_capability (in_ulid inp) (in_clock inp 0) req,
          new_key_material (vc_crypto cfg) (in_rng inp) (in_clock inp 0) req))"
      "distinct (map fst (vs_caps s'))"
      "validate_key_algorithm_for_class (ic_class req) (key_algorithm req) = Ok ()"
    | (rejected) "vs_caps s' = vs_caps s"
  proof (cases "\<exists>inp req r. e = EvIssue inp req r")
    case True
    then obtain inp req r where e: "e = EvIssue inp req r" by blast
    with st have "issue_capability cfg inp req s = (r, s')" by (auto elim: vault_step.cases)
    from issue_effect [OF this] e inv that(2) [of inp req r] that(3) show thesis
      by (auto simp: vault_inv_def AList.update_conv' AList.distinct_update)
  next
    case False
    moreover have "\<not> reissues cid e" for cid using False by (cases e) auto
    ultimately show thesis using step_keys [OF st] that(1) by blast
  qed
  then show ?thesis
  proof cases
    case same
    have "capability_inv cid c' k'" if c': "map_of (vs_caps s') cid = Some (c', k')" for cid c' k'
    proof -
      obtain c k where c: "map_of (vs_caps s) cid = Some (c, k)"
        using keys_eq_lookup [OF same(1) c'] by fastforce
      then have "evolves c c'" "k' = k"
        using step_evolves [OF st c same(2)] c' by auto
      then show ?thesis using inv c capability_inv_evolves by (fastforce simp: vault_inv_def)
    qed
    then show ?thesis using inv same(1) by (simp add: vault_inv_def)
  next
    case issued
    then show ?thesis using inv
      by (auto simp: vault_inv_def capability_inv_def new_capability_def new_key_material_def)
  qed (use inv in \<open>simp add: vault_inv_def\<close>)
qed

lemma vault_inv_run:
  "lts_run (vault_step cfg) \<sigma> es \<sigma>' \<Longrightarrow> vault_inv (fst \<sigma>) \<Longrightarrow> vault_inv (fst \<sigma>')"
  by (erule lts_run_invariant) (auto dest: vault_inv_step)

lemma vault_inv_new: "vault_inv vault_new"
  by (simp add: vault_inv_def vault_new_def)

text \<open>
  C39: Well-formed stores. In every state the vault can reach, identifiers are unique, each
  capability is stored under its own identifier and carries the handle derived from it, its state is one
  of active, expired and revoked, and its key has an algorithm that its class accepts.
\<close>

theorem vault_store_well_formed:
  assumes "lts_run (vault_step cfg) (vault_new, []) es (s, fl)"
  shows "vault_inv s"
  using vault_inv_run [OF assms] vault_inv_new by simp

section \<open>Admitted operations that cannot be performed\<close>

definition encryption_op :: "vault_operation \<Rightarrow> bool" where
  "encryption_op op \<longleftrightarrow> (case op of Encrypt _ _ \<Rightarrow> True | Decrypt _ _ \<Rightarrow> True | _ \<Rightarrow> False)"

definition secret_op :: "vault_operation \<Rightarrow> bool" where
  "secret_op op \<longleftrightarrow> (case op of SecretGet _ \<Rightarrow> True | _ \<Rightarrow> False)"

definition kdf_op :: "vault_operation \<Rightarrow> bool" where
  "kdf_op op \<longleftrightarrow> (case op of KdfDerive _ _ \<Rightarrow> True | _ \<Rightarrow> False)"

lemma execute_outcomes:
  assumes "validate_key_algorithm_for_class cls (algorithm k) = Ok ()" and "permits cls op"
  shows "fst (execute_operation cr inp k op d) = Err (OperationUnsupportedInT049 op) \<longleftrightarrow>
      secret_op op \<or> encryption_op op \<and> algorithm k \<noteq> Aes256Gcm" (is ?A)
    and "fst (execute_operation cr inp k op d) = Err (KeyAlgorithmMismatch HkdfSha256 (algorithm k)) \<longleftrightarrow>
      kdf_op op \<and> algorithm k \<noteq> HkdfSha256" (is ?B)
proof -
  have alg: "case op of Sign _ \<Rightarrow> algorithm k = Ed25519 | Verify _ _ \<Rightarrow> algorithm k = Ed25519
      | MacGenerate _ \<Rightarrow> algorithm k = HmacSha256 | MacVerify _ _ \<Rightarrow> algorithm k = HmacSha256 | _ \<Rightarrow> True"
    using assms by (cases op; cases cls) (auto simp: permits_def expect_algorithm_def split: if_splits)
  show ?A and ?B
    using alg
    by (cases op; auto simp: execute_operation_def Let_def result_simps secret_op_def encryption_op_def kdf_op_def
        split: if_splits sum.splits dest: crypto_error_kinds)+
qed

end
