(* ===== verification/Vault_Guarantees.thy ===== *)
theory Vault_Guarantees
  imports Vault_Lifecycle
begin

text \<open>
  What clients of the vault rely on: what an operation undoes of another (ciphertexts decrypt, tags
  and signatures verify), which admitted operations cannot be performed, that an expiration pass
  changes no verdict, and that the answers, the audit log and the evidence chain do not depend
  on the bytes of the keys. The last section holds the sample vault of the witnesses.
\<close>

section \<open>Round trips through the broker\<close>

text \<open>What the three algorithms promise: what was sealed opens, what was tagged or signed checks.\<close>

definition crypto_correct :: "vault_crypto \<Rightarrow> bool" where
  "crypto_correct cr \<longleftrightarrow>
     (\<forall>k n a m c. length n = NONCE_LEN \<longrightarrow> aead_seal cr k n a m = Some c \<longrightarrow> aead_open cr k n a c = Some m) \<and>
     (\<forall>k m. length (hmac_tag cr k m) = TAG_LEN \<and> hmac_check cr k m (hmac_tag cr k m)) \<and>
     (\<forall>k m. length k = ED_KEY_LEN \<longrightarrow>
        length (ed_sign cr k m) = ED_SIGNATURE_LEN \<and> ed_verify cr (ed_public cr k) m (ed_sign cr k m))"

text \<open>The operation that checks the result of another, and the answer it should give.\<close>

fun check_of :: "vault_operation \<Rightarrow> use_capability_result \<Rightarrow> (vault_operation \<times> use_capability_result) option" where
  "check_of (Encrypt m a) (Encrypted c n a') = Some (Decrypt c a, Decrypted m)"
| "check_of (MacGenerate m) (MacGenerated t) = Some (MacVerify m t, MacVerified True)"
| "check_of (Sign m) (Signed g) = Some (Verify m g, Verified True)"
| "check_of _ _ = None"

lemma execute_check:
  assumes "crypto_correct cr" and "fst (execute_operation cr inp k op d) = Ok v"
    and "check_of op v = Some (op', v')" and "km_bytes k' = km_bytes k" and "algorithm k' = algorithm k"
  shows "fst (execute_operation cr inp' k' op' d') = Ok v'"
proof (cases op)
  case (Encrypt m a)
  then obtain out where out: "aes_encrypt cr (in_rng inp) (km_bytes k) m a = Ok out"
      "v = Encrypted (eo_ciphertext out) (eo_nonce out) a" "algorithm k = Aes256Gcm"
    using assms(2) by (auto simp: execute_operation_def Let_def result_simps split: if_splits)
  have "aes_decrypt cr (km_bytes k) (eo_ciphertext out) a = Ok m"
    by (rule aes_roundtrip [OF out(1)]) (use assms(1) in \<open>auto simp: crypto_correct_def\<close>)
  then show ?thesis using Encrypt out assms(3-5) by (auto simp: execute_operation_def Let_def)
next
  case (MacGenerate m)
  then obtain t where t: "hmac_generate cr (km_bytes k) m = Ok t" "v = MacGenerated t" "algorithm k = HmacSha256"
    using assms(2) by (auto simp: execute_operation_def Let_def result_simps split: if_splits)
  have "hmac_verify cr (km_bytes k) m t = Ok True"
    by (rule hmac_roundtrip [OF t(1)]) (use assms(1) in \<open>auto simp: crypto_correct_def\<close>)
  then show ?thesis using MacGenerate t assms(3-5) by (auto simp: execute_operation_def Let_def)
next
  case (Sign m)
  then obtain g where g: "ed25519_sign_op cr (km_bytes k) m = Ok g" "v = Signed g" "algorithm k = Ed25519"
    using assms(2) by (auto simp: execute_operation_def Let_def result_simps split: if_splits)
  then have "length (km_bytes k) = ED_KEY_LEN"
    by (auto simp: ed25519_sign_op_def key_bytes_def split: if_splits)
  then have "ed25519_verify_op cr (km_bytes k) m g = Ok True"
    by (intro ed25519_roundtrip [OF g(1)]) (use assms(1) in \<open>auto simp: crypto_correct_def\<close>)
  then show ?thesis using Sign g assms(3-5) by (auto simp: execute_operation_def Let_def)
qed (use assms(3) in auto)

lemma use_capability_Ok:
  assumes "use_capability cfg inp req s = (Inr v, s')"
  obtains k where "admissible s (in_clock inp 0) req k"
    and "fst (execute_operation (vc_crypto cfg) inp k (operation req) (vs_derived s)) = Ok v"
proof -
  obtain k where k: "use_admit cfg inp req s = (Inr k, s)" and c: "use_complete cfg inp req k s = (Inr v, s')"
    using assms by (auto simp: use_capability_def use_admit_Ok_iff split: prod.splits sum.splits)
  have "fst (execute_operation (vc_crypto cfg) inp k (operation req) (vs_derived s)) = Ok v"
    using c by (auto simp: use_complete_def Let_def emit_if_def split: prod.splits sum.splits if_splits)
  with k that show thesis by (auto simp: use_admit_Ok_iff admissible_def)
qed

lemma use_capability_executes:
  assumes "admissible s (in_clock inp 0) req k"
    and "fst (execute_operation (vc_crypto cfg) inp k (operation req) (vs_derived s)) = Ok v"
  shows "fst (use_capability cfg inp req s) = Ok v \<or>
    broker_emits cfg \<and> (\<exists>t. fst (use_capability cfg inp req s) = Err (VEvidenceEmitFailed t))"
proof -
  let ?em = "emit_capability_used (vc_emitter cfg) (in_clock inp 3) (uc_capability_id req) (operation_kind (operation req)) None"
  have "use_admit cfg inp req s = (Inr k, s)"
    using assms(1) by (simp add: use_admit_Ok_iff admissible_def)
  then obtain s1 where use: "fst (use_capability cfg inp req s) = fst (emit_if (broker_emits cfg) ?em v s1)"
    using assms(2) by (cases "execute_operation (vc_crypto cfg) inp k (operation req) (vs_derived s)")
      (auto simp: use_capability_def use_complete_def Let_def)
  show ?thesis
    unfolding use
    using emit_if_answer [of "broker_emits cfg" ?em v s1] by (auto simp: emission_defs dest: vault_emit_error)
qed

text \<open>
  C37: What one capability produces, another with the same key checks. If a use of \<open>op\<close> answered \<open>v\<close>,
  then in any later state the operation that undoes or checks it, admitted on a capability that
  holds the same key bytes and algorithm, returns the original plaintext or confirms the
  tag or signature. Only a broker that emits evidence may answer something else, and then only that
  this emission failed.
\<close>

theorem vault_roundtrip:
  assumes "crypto_correct (vc_crypto cfg)"
    and "use_capability cfg inp req s = (Inr v, s')" and "check_of (operation req) v = Some (op', v')"
    and "admissible s (in_clock inp 0) req k" and "operation req' = op'"
    and "admissible s2 (in_clock inp' 0) req' k'" and "km_bytes k' = km_bytes k" and "algorithm k' = algorithm k"
  shows "fst (use_capability cfg inp' req' s2) = Ok v' \<or>
    broker_emits cfg \<and> (\<exists>t. fst (use_capability cfg inp' req' s2) = Err (VEvidenceEmitFailed t))"
proof -
  obtain k1 where "admissible s (in_clock inp 0) req k1"
    and ex: "fst (execute_operation (vc_crypto cfg) inp k1 (operation req) (vs_derived s)) = Ok v"
    using use_capability_Ok [OF assms(2)] .
  then have "k1 = k" using assms(4) by (auto simp: admissible_def)
  then have "fst (execute_operation (vc_crypto cfg) inp' k' op' (vs_derived s2)) = Ok v'"
    using execute_check [OF assms(1) ex assms(3)] assms(7,8) by simp
  then show ?thesis using use_capability_executes [OF assms(6)] assms(5) by simp
qed

section \<open>Admitted and impossible\<close>

lemma use_complete_error:
  assumes "\<And>t. e \<noteq> VEvidenceEmitFailed t"
  shows "fst (use_complete cfg inp req k s) = Err e \<longleftrightarrow>
    fst (execute_operation (vc_crypto cfg) inp k (operation req) (vs_derived s)) = Err e"
proof -
  obtain x d where x: "execute_operation (vc_crypto cfg) inp k (operation req) (vs_derived s) = (x, d)" by fastforce
  show ?thesis
  proof (cases x)
    case (Inr v)
    let ?em = "emit_capability_used (vc_emitter cfg) (in_clock inp 3) (uc_capability_id req) (operation_kind (operation req)) None"
    have "fst (emit_if (broker_emits cfg) ?em v s1) \<noteq> Err e" for s1
      using emit_if_answer [of "broker_emits cfg" ?em v s1] assms
      by (auto simp: emission_defs dest: vault_emit_error)
    then show ?thesis using x Inr by (simp add: use_complete_def Let_def)
  qed (simp add: use_complete_def Let_def x)
qed

text \<open>
  C38: Which admitted uses can never be performed. In every state the vault can reach, an admitted use is
  answered \<open>OperationUnsupportedInT049\<close> exactly when it asks for a secret, or asks a capability
  whose key is not an AES key to encrypt or decrypt; and it is answered
  \<open>KeyAlgorithmMismatch\<close> exactly when it asks to derive from a key that is not an HKDF key. Signing, verifying and MACs
  fail only inside the cryptography.
\<close>

theorem unperformable_uses:
  assumes "lts_run (vault_step cfg) (vault_new, []) es (s, fl)" and "admissible s (in_clock inp 0) req k"
  shows "(fst (use_capability cfg inp req s) = Err (OperationUnsupportedInT049 (operation req)) \<longleftrightarrow>
       secret_op (operation req) \<or> encryption_op (operation req) \<and> algorithm k \<noteq> Aes256Gcm) \<and>
    (fst (use_capability cfg inp req s) = Err (KeyAlgorithmMismatch HkdfSha256 (algorithm k)) \<longleftrightarrow>
       kdf_op (operation req) \<and> algorithm k \<noteq> HkdfSha256)"
proof -
  have "vault_inv s" using vault_inv_run [OF assms(1)] vault_inv_new by simp
  moreover obtain c where c: "map_of (vs_caps s) (uc_capability_id req) = Some (c, k)"
      and "permits (cap_class c) (operation req)"
    using assms(2) by (auto simp: admissible_def)
  ultimately have "capability_inv (uc_capability_id req) c k" by (simp add: vault_inv_def)
  then have "validate_key_algorithm_for_class (cap_class c) (algorithm k) = Ok ()"
    by (simp add: capability_inv_def)
  note outcomes = execute_outcomes [OF this \<open>permits (cap_class c) (operation req)\<close>, of "vc_crypto cfg" inp "vs_derived s"]
  have adm: "use_admit cfg inp req s = (Inr k, s)"
    using assms(2) by (simp add: use_admit_Ok_iff admissible_def)
  have "fst (use_capability cfg inp req s) = Err e \<longleftrightarrow>
      fst (execute_operation (vc_crypto cfg) inp k (operation req) (vs_derived s)) = Err e"
    if "\<And>t. e \<noteq> VEvidenceEmitFailed t" for e
    using use_complete_error [OF that, of cfg inp req k s] by (simp add: use_capability_def adm)
  with outcomes show ?thesis by simp
qed

section \<open>The expiration pass\<close>

lemma not_overdue_after [simp]: "\<not> overdue now (expire_overdue now c)"
  by (cases "overdue now c") (simp_all add: overdue_def expire_overdue_def)

lemma pass_verdict:
  assumes "now \<le> in_clock inp 0"
  shows "fst (use_admit cfg inp req (snd (run_expiration_pass cfg inp' now s))) = fst (use_admit cfg inp req s)"
proof (cases "map_of (vs_caps s) (uc_capability_id req)")
  case None
  then show ?thesis by (simp add: use_admit_def Let_def pass_lookup)
next
  case (Some ck)
  then obtain c k where c: "map_of (vs_caps s) (uc_capability_id req) = Some (c, k)" by (cases ck) auto
  show ?thesis
  proof (cases "overdue now c")
    case True
    then obtain t where "cap_state c = CapActive" "cap_expires_at c = Some t" "t < now"
      by (auto simp: overdue_def split: option.splits)
    then show ?thesis using assms c True by (simp add: use_admit_def Let_def pass_lookup expire_overdue_def)
  next
    case False
    then show ?thesis using c by (simp add: use_admit_def Let_def pass_lookup expire_overdue_def split: capability_state.split)
  qed
qed

text \<open>
  An expiration pass is invisible to the clients. Whether or not its receipts could be written,
  after a pass at \<open>now\<close> no capability is overdue at \<open>now\<close>, capabilities that were not overdue keep
  their record, and a use attempted at \<open>now\<close> or later gets the same verdict as without the pass.
\<close>

theorem expiration_pass_keeps_verdicts:
  assumes "now \<le> in_clock inp 0"
  shows "fst (use_admit cfg inp req (snd (run_expiration_pass cfg inp' now s))) = fst (use_admit cfg inp req s) \<and>
    list_all (\<lambda>(cid, c, k). \<not> overdue now c) (vs_caps (snd (run_expiration_pass cfg inp' now s))) \<and>
    (\<forall>cid c k. map_of (vs_caps s) cid = Some (c, k) \<longrightarrow> \<not> overdue now c \<longrightarrow>
       map_of (vs_caps (snd (run_expiration_pass cfg inp' now s))) cid = Some (c, k))"
proof (intro conjI allI impI)
  show "fst (use_admit cfg inp req (snd (run_expiration_pass cfg inp' now s))) = fst (use_admit cfg inp req s)"
    by (rule pass_verdict [OF assms])
  show "list_all (\<lambda>(cid, c, k). \<not> overdue now c) (vs_caps (snd (run_expiration_pass cfg inp' now s)))"
    by (auto simp: pass_caps list_all_iff)
  show "map_of (vs_caps (snd (run_expiration_pass cfg inp' now s))) cid = Some (c, k)"
    if "map_of (vs_caps s) cid = Some (c, k)" "\<not> overdue now c" for cid c k
    using that by (simp add: pass_lookup expire_overdue_def)
qed

section \<open>Key bytes stay inside\<close>

text \<open>
  The public part of a vault: everything but the bytes of the keys and the store of derived keys.
\<close>

definition public_entry :: "vault_capability \<times> key_material \<Rightarrow> vault_capability \<times> key_algorithm \<times> instant" where
  "public_entry = (\<lambda>(c, k). (c, algorithm k, km_created_at k))"

definition public_store :: "vault_state \<Rightarrow> (string \<times> vault_capability \<times> key_algorithm \<times> instant) list" where
  "public_store s = map (\<lambda>(i, v). (i, public_entry v)) (vs_caps s)"

definition same_outside :: "vault_state \<Rightarrow> vault_state \<Rightarrow> bool" where
  "same_outside s t \<longleftrightarrow> public_store s = public_store t \<and> vs_audit s = vs_audit t \<and> vs_chain s = vs_chain t"

lemma map_value_update:
  "map (\<lambda>(i, v). (i, f v)) (AList.update i v al) = AList.update i (f v) (map (\<lambda>(i, v). (i, f v)) al)"
  by (induction al) auto

lemma public_lookup: "map_of (public_store s) cid = map_option public_entry (map_of (vs_caps s) cid)"
  by (simp add: public_store_def map_of_map_value)

lemma same_outside_lookup:
  assumes "same_outside s t"
  shows "map_option public_entry (map_of (vs_caps s) cid) = map_option public_entry (map_of (vs_caps t) cid)"
  using assms by (simp add: same_outside_def public_lookup [symmetric])

lemma same_outside_cases:
  assumes "same_outside s t"
  obtains (none) "map_of (vs_caps s) cid = None" "map_of (vs_caps t) cid = None"
    | (some) c k k' where "map_of (vs_caps s) cid = Some (c, k)" "map_of (vs_caps t) cid = Some (c, k')"
        "algorithm k' = algorithm k"
  using same_outside_lookup [OF assms, of cid]
  by (cases "map_of (vs_caps s) cid"; cases "map_of (vs_caps t) cid") (auto simp: public_entry_def)

lemma public_put:
  "public_store (put_state cid st u) =
     (case map_of (public_store u) cid of
        None \<Rightarrow> public_store u
      | Some (c, a, i) \<Rightarrow> AList.update cid (c\<lparr>cap_state := st\<rparr>, a, i) (public_store u))"
proof (cases "map_of (vs_caps u) cid")
  case None
  then show ?thesis by (simp add: put_state_def public_lookup)
next
  case (Some ck)
  then obtain c k where c: "map_of (vs_caps u) cid = Some (c, k)" by (cases ck) auto
  then have "public_store (put_state cid st u) =
      AList.update cid (public_entry (c\<lparr>cap_state := st\<rparr>, k)) (public_store u)"
    by (simp add: put_state_def public_store_def map_value_update)
  then show ?thesis using c by (simp add: public_lookup public_entry_def)
qed

lemma same_outside_put: "same_outside s t \<Longrightarrow> same_outside (put_state cid st s) (put_state cid st t)"
  by (auto simp: same_outside_def public_put split: option.split)

lemma same_outside_audit: "same_outside s t \<Longrightarrow> same_outside (audit_if on f s) (audit_if on f t)"
  by (simp add: same_outside_def audit_if_def public_store_def)

lemma same_outside_derived [simp]:
  "same_outside (s\<lparr>vs_derived := d\<rparr>) t = same_outside s t" "same_outside s (t\<lparr>vs_derived := d\<rparr>) = same_outside s t"
  by (simp_all add: same_outside_def public_store_def)

lemma same_outside_emit:
  assumes "same_outside s t"
  shows "fst (emit_if on em a s) = fst (emit_if on em a t)"
    and "same_outside (snd (emit_if on em a s)) (snd (emit_if on em b t))"
  using assms by (auto simp: emit_if_def same_outside_def public_store_def split: prod.splits sum.splits)

text \<open>The calls of the vault and their answers.\<close>

datatype vault_call =
    CallIssue issue_capability_request
  | CallUse use_capability_request
  | CallList string
  | CallRevoke string string
  | CallExpire string
  | CallPass instant

datatype vault_reply =
    ReplyIssue "(vault_error, vault_capability) result"
  | ReplyUse "(vault_error, use_capability_result) result"
  | ReplyList "vault_capability list"
  | ReplyUnit "(vault_error, unit) result"
  | ReplyPass "(vault_error, expiration_pass_report) result"

fun vault_call_run ::
    "('sk, 'vk) vault_config \<Rightarrow> vault_inputs \<Rightarrow> vault_call \<Rightarrow> vault_state \<Rightarrow> vault_reply \<times> vault_state" where
  "vault_call_run cfg inp (CallIssue req) s = map_prod ReplyIssue id (issue_capability cfg inp req s)"
| "vault_call_run cfg inp (CallUse req) s = map_prod ReplyUse id (use_capability cfg inp req s)"
| "vault_call_run cfg inp (CallList subj) s = (ReplyList (list_capabilities subj s), s)"
| "vault_call_run cfg inp (CallRevoke cid who) s = map_prod ReplyUnit id (revoke_capability cfg inp cid who s)"
| "vault_call_run cfg inp (CallExpire cid) s = map_prod ReplyUnit id (expire_capability cfg inp cid s)"
| "vault_call_run cfg inp (CallPass now) s = map_prod ReplyPass id (run_expiration_pass cfg inp now s)"

text \<open>Two calls that differ at most in the key bytes they bring along.\<close>

fun same_call :: "vault_call \<Rightarrow> vault_call \<Rightarrow> bool" where
  "same_call (CallIssue req) (CallIssue req') =
     (req\<lparr>key_material_bytes := None\<rparr> = req'\<lparr>key_material_bytes := None\<rparr>)"
| "same_call c c' = (c = c')"

text \<open>
  Two answers that agree up to the output of the cryptography: of two results only the kind has to be
  the same, any other two answers, every error included, are equal.
\<close>

fun same_kind :: "use_capability_result \<Rightarrow> use_capability_result \<Rightarrow> bool" where
  "same_kind (Encrypted _ _ a) (Encrypted _ _ a') = (a = a')"
| "same_kind (Decrypted _) (Decrypted _) = True"
| "same_kind (MacGenerated _) (MacGenerated _) = True"
| "same_kind (MacVerified _) (MacVerified _) = True"
| "same_kind (KdfDerived _) (KdfDerived _) = True"
| "same_kind (Signed _) (Signed _) = True"
| "same_kind (Verified _) (Verified _) = True"
| "same_kind (RandomGenerated _) (RandomGenerated _) = True"
| "same_kind _ _ = False"

fun same_reply :: "vault_reply \<Rightarrow> vault_reply \<Rightarrow> bool" where
  "same_reply (ReplyUse (Inr v)) (ReplyUse (Inr v')) = same_kind v v'"
| "same_reply r r' = (r = r')"

text \<open>
  Two keys of one shape: equally long, and accepted or rejected alike by the constructors of the
  cipher and of the MAC.
\<close>

definition same_shape :: "vault_crypto \<Rightarrow> bytes \<Rightarrow> bytes \<Rightarrow> bool" where
  "same_shape cr k k' \<longleftrightarrow>
     length k = length k' \<and> aes_new cr k = aes_new cr k' \<and> hmac_new cr k = hmac_new cr k'"

text \<open>The primitive behind an operation has the same output for two keys (and random sources).\<close>

fun same_output ::
    "vault_crypto \<Rightarrow> (nat \<Rightarrow> u8) \<Rightarrow> (nat \<Rightarrow> u8) \<Rightarrow> bytes \<Rightarrow> bytes \<Rightarrow> vault_operation \<Rightarrow> bool" where
  "same_output cr rng rng' k k' (Encrypt m a) =
     (fill_bytes rng NONCE_LEN = fill_bytes rng' NONCE_LEN \<and>
      aead_seal cr k (fill_bytes rng NONCE_LEN) a m = aead_seal cr k' (fill_bytes rng NONCE_LEN) a m)"
| "same_output cr rng rng' k k' (Decrypt c a) =
     (aead_open cr k (take NONCE_LEN c) a (drop NONCE_LEN c) = aead_open cr k' (take NONCE_LEN c) a (drop NONCE_LEN c))"
| "same_output cr rng rng' k k' (MacGenerate m) = (hmac_tag cr k m = hmac_tag cr k' m)"
| "same_output cr rng rng' k k' (MacVerify m t) = (hmac_check cr k m t = hmac_check cr k' m t)"
| "same_output cr rng rng' k k' (KdfDerive i n) = (hkdf_expand cr k i (unat n) = hkdf_expand cr k' i (unat n))"
| "same_output cr rng rng' k k' (Sign m) = (ed_sign cr k m = ed_sign cr k' m)"
| "same_output cr rng rng' k k' (Verify m g) =
     (map_option (\<lambda>v. ed_verify cr v m g) (ed_from_bytes cr k) = map_option (\<lambda>v. ed_verify cr v m g) (ed_from_bytes cr k') \<and>
      ed_verify cr (ed_public cr k) m g = ed_verify cr (ed_public cr k') m g)"
| "same_output cr rng rng' k k' (RandomGenerate n) = (fill_bytes rng (unat n) = fill_bytes rng' (unat n))"
| "same_output cr rng rng' k k' (SecretGet n) = True"

text \<open>The keys a use finds in two vaults, compared by a relation; other calls find none.\<close>

fun keys_related :: "(bytes \<Rightarrow> bytes \<Rightarrow> vault_operation \<Rightarrow> bool) \<Rightarrow> vault_call \<Rightarrow> vault_state \<Rightarrow> vault_state \<Rightarrow> bool" where
  "keys_related R (CallUse req) s t =
     (case (map_of (vs_caps s) (uc_capability_id req), map_of (vs_caps t) (uc_capability_id req)) of
        (Some (_, k), Some (_, k')) \<Rightarrow> R (km_bytes k) (km_bytes k') (operation req)
      | _ \<Rightarrow> True)"
| "keys_related R _ s t = True"

text \<open>The broker's part of an operation depends on the shape of a key, the rest is the output of the primitive.\<close>

lemma crypto_shape:
  assumes "same_shape cr k k'"
  shows "aes_encrypt cr rng k m a = Inl e \<Longrightarrow> aes_encrypt cr rng' k' m a = Inl e' \<Longrightarrow> e = e'"
    and "aes_decrypt cr k c a = Inl e \<Longrightarrow> aes_decrypt cr k' c a = Inl e' \<Longrightarrow> e = e'"
    and "hmac_generate cr k m = Inl e \<Longrightarrow> hmac_generate cr k' m = Inl e' \<Longrightarrow> e = e'"
    and "hmac_verify cr k m g = Inl e \<Longrightarrow> hmac_verify cr k' m g = Inl e' \<Longrightarrow> e = e'"
    and "hkdf_derive cr k m n = Inl e \<Longrightarrow> hkdf_derive cr k' m n = Inl e' \<Longrightarrow> e = e'"
    and "ed25519_sign_op cr k m = Inl e \<Longrightarrow> ed25519_sign_op cr k' m = Inl e' \<Longrightarrow> e = e'"
    and "ed25519_verify_op cr k m g = Inl e \<Longrightarrow> ed25519_verify_op cr k' m g = Inl e' \<Longrightarrow> e = e'"
  using assms
  by (auto simp: same_shape_def aes_encrypt_def aes_decrypt_def cipher_def hmac_generate_def hmac_verify_def mac_def
      hkdf_derive_def ed25519_sign_op_def ed25519_verify_op_def key_bytes_def Let_def
      split: if_splits option.splits)

lemma execute_same_kind:
  assumes "algorithm k' = algorithm k"
    and "fst (execute_operation cr inp k op d) = Inr v" and "fst (execute_operation cr inp' k' op d') = Inr v'"
  shows "same_kind v v'"
  using assms
  by (cases op) (auto simp: execute_operation_def Let_def result_simps split: sum.splits if_splits)

lemma execute_same_error:
  assumes "algorithm k' = algorithm k" and "same_shape cr (km_bytes k) (km_bytes k')"
    and "fst (execute_operation cr inp k op d) = Inl e" and "fst (execute_operation cr inp' k' op d') = Inl e'"
  shows "e = e'"
  using assms
  by (cases op) (auto simp: execute_operation_def Let_def result_simps split: sum.splits if_splits
      dest: crypto_shape [OF assms(2)])

lemma execute_same_output:
  assumes "algorithm k' = algorithm k" and "same_shape cr (km_bytes k) (km_bytes k')"
    and "same_output cr (in_rng inp) (in_rng inp') (km_bytes k) (km_bytes k') op"
  shows "fst (execute_operation cr inp k op d) = fst (execute_operation cr inp' k' op d')"
  using assms
  by (cases op) (auto simp: execute_operation_def Let_def same_shape_def aes_encrypt_def aes_decrypt_def cipher_def
      hmac_generate_def hmac_verify_def mac_def hkdf_derive_def ed25519_sign_op_def ed25519_verify_op_def key_bytes_def
      split: option.splits sum.splits if_splits)

text \<open>Whether a call reaches the cryptography and gets a result from it.\<close>

fun performs :: "('sk, 'vk) vault_config \<Rightarrow> vault_inputs \<Rightarrow> vault_call \<Rightarrow> vault_state \<Rightarrow> bool" where
  "performs cfg inp (CallUse req) s =
     (case fst (use_admit cfg inp req s) of
        Inl _ \<Rightarrow> False
      | Inr k \<Rightarrow> \<not> isl (fst (execute_operation (vc_crypto cfg) inp k (operation req) (vs_derived s))))"
| "performs cfg inp _ s = True"

lemma issue_public:
  assumes "same_outside s t" and "req\<lparr>key_material_bytes := None\<rparr> = req'\<lparr>key_material_bytes := None\<rparr>"
    and "in_ulid inp' = in_ulid inp" and "in_clock inp' = in_clock inp"
  shows "fst (issue_capability cfg inp req s) = fst (issue_capability cfg inp' req' t) \<and>
    same_outside (snd (issue_capability cfg inp req s)) (snd (issue_capability cfg inp' req' t))"
proof -
  have req: "ic_class req' = ic_class req" "ic_issued_to req' = ic_issued_to req"
      "ic_expires_at req' = ic_expires_at req" "key_algorithm req' = key_algorithm req"
    using assms(2) by (auto dest: arg_cong [where f = ic_class] arg_cong [where f = ic_issued_to]
        arg_cong [where f = ic_expires_at] arg_cong [where f = key_algorithm])
  then have c: "new_capability u now req' = new_capability u now req" for u now
    by (simp add: new_capability_def)
  have "same_outside (s\<lparr>vs_caps := AList.update i (c, new_key_material cr (in_rng inp) now req) (vs_caps s)\<rparr>)
      (t\<lparr>vs_caps := AList.update i (c, new_key_material cr (in_rng inp') now req') (vs_caps t)\<rparr>)" for i c cr now
    using assms(1) req
    by (simp add: same_outside_def public_store_def map_value_update public_entry_def new_key_material_def)
  then show ?thesis
    using assms(1)
    by (auto simp: issue_capability_def Let_def assms(3,4) req c split: sum.split
        intro!: same_outside_emit same_outside_audit)
qed

lemma use_admit_public:
  assumes "same_outside s t" and "in_clock inp' = in_clock inp"
  shows "same_outside (snd (use_admit cfg inp req s)) (snd (use_admit cfg inp' req t)) \<and>
    (\<forall>e. fst (use_admit cfg inp req s) = Inl e \<longleftrightarrow> fst (use_admit cfg inp' req t) = Inl e)"
  using assms(1)
proof (cases rule: same_outside_cases [where cid = "uc_capability_id req"])
  case none
  then show ?thesis using assms(1) by (simp add: use_admit_def Let_def)
next
  case (some c k k')
  then show ?thesis
    using assms
    by (auto simp: use_admit_def Let_def split: capability_state.splits option.splits
        intro!: same_outside_audit same_outside_put)
qed

lemma use_complete_public:
  fixes cfg :: "('sk, 'vk) vault_config" and req :: use_capability_request
  defines "ex \<equiv> \<lambda>inp k s. fst (execute_operation (vc_crypto cfg) inp k (operation req) (vs_derived s))"
  assumes "same_outside s t" and "in_clock inp' = in_clock inp" and "algorithm k' = algorithm k"
    and "isl (ex inp k s) = isl (ex inp' k' t)"
  shows "same_outside (snd (use_complete cfg inp req k s)) (snd (use_complete cfg inp' req k' t))"
    and "same_shape (vc_crypto cfg) (km_bytes k) (km_bytes k') \<or> \<not> isl (ex inp k s) \<Longrightarrow>
      same_reply (ReplyUse (fst (use_complete cfg inp req k s))) (ReplyUse (fst (use_complete cfg inp' req k' t)))"
    and "ex inp k s = ex inp' k' t \<Longrightarrow> fst (use_complete cfg inp req k s) = fst (use_complete cfg inp' req k' t)"
proof -
  obtain x d y d' where x: "execute_operation (vc_crypto cfg) inp k (operation req) (vs_derived s) = (x, d)"
      "execute_operation (vc_crypto cfg) inp' k' (operation req) (vs_derived t) = (y, d')" by fastforce
  have ex: "ex inp k s = x" "ex inp' k' t = y" and chain: "vs_chain s = vs_chain t"
    using x assms(2) by (simp_all add: ex_def same_outside_def)
  show "same_outside (snd (use_complete cfg inp req k s)) (snd (use_complete cfg inp' req k' t))"
    using assms x
    by (cases x; cases y) (auto simp: use_complete_def Let_def intro!: same_outside_emit(2) same_outside_audit)
  show "fst (use_complete cfg inp req k s) = fst (use_complete cfg inp' req k' t)" if "ex inp k s = ex inp' k' t"
    using that ex x chain assms(3)
    by (cases y) (auto simp: use_complete_def Let_def emit_if_def split: prod.splits sum.splits)
  assume shape: "same_shape (vc_crypto cfg) (km_bytes k) (km_bytes k') \<or> \<not> isl (ex inp k s)"
  show "same_reply (ReplyUse (fst (use_complete cfg inp req k s))) (ReplyUse (fst (use_complete cfg inp' req k' t)))"
  proof (cases x)
    case (Inl e)
    then obtain e' where "y = Inl e'" using assms(5) ex by (cases y) auto
    moreover have "e = e'" if "y = Inl e'" for e'
      using execute_same_error [OF assms(4)] shape x Inl that ex by (metis fst_conv isl_def)
    ultimately show ?thesis using x Inl by (simp add: use_complete_def Let_def)
  next
    case (Inr v)
    then obtain w where y: "y = Inr w" using assms(5) ex by (cases y) auto
    have "same_kind v w" using execute_same_kind [OF assms(4)] x Inr y by (metis fst_conv)
    then show ?thesis
      using x Inr y chain assms(3) by (auto simp: use_complete_def Let_def emit_if_def split: prod.splits sum.splits)
  qed
qed

lemma use_public:
  assumes "same_outside s t" and "in_clock inp' = in_clock inp"
    and "performs cfg inp (CallUse req) s = performs cfg inp' (CallUse req) t"
  shows "same_outside (snd (use_capability cfg inp req s)) (snd (use_capability cfg inp' req t))"
    and "keys_related (\<lambda>k k' op. same_shape (vc_crypto cfg) k k') (CallUse req) s t \<or> performs cfg inp (CallUse req) s \<Longrightarrow>
       same_reply (ReplyUse (fst (use_capability cfg inp req s))) (ReplyUse (fst (use_capability cfg inp' req t)))"
    and "keys_related (\<lambda>k k' op. same_shape (vc_crypto cfg) k k' \<and>
         same_output (vc_crypto cfg) (in_rng inp) (in_rng inp') k k' op) (CallUse req) s t \<Longrightarrow>
       fst (use_capability cfg inp req s) = fst (use_capability cfg inp' req t)"
proof -
  note adm = use_admit_public [OF assms(1,2), of cfg req]
  let ?shape = "same_shape (vc_crypto cfg)"
  let ?out = "\<lambda>k k' op. ?shape k k' \<and> same_output (vc_crypto cfg) (in_rng inp) (in_rng inp') k k' op"
  obtain x s1 y t1 where x: "use_admit cfg inp req s = (x, s1)" "use_admit cfg inp' req t = (y, t1)" by fastforce
  have "same_outside (snd (use_capability cfg inp req s)) (snd (use_capability cfg inp' req t)) \<and>
    (keys_related (\<lambda>k k' op. ?shape k k') (CallUse req) s t \<or> performs cfg inp (CallUse req) s \<longrightarrow>
       same_reply (ReplyUse (fst (use_capability cfg inp req s))) (ReplyUse (fst (use_capability cfg inp' req t)))) \<and>
    (keys_related ?out (CallUse req) s t \<longrightarrow> fst (use_capability cfg inp req s) = fst (use_capability cfg inp' req t))"
  proof (cases x)
    case (Inl e)
    then have "y = Inl e" using adm x by auto
    then show ?thesis using Inl adm x by (simp add: use_capability_def)
  next
    case (Inr k)
    then obtain k' where y: "y = Inr k'" using adm x by (cases y) auto
    have st: "s1 = s" "t1 = t" using x Inr y by (auto simp: use_admit_Ok_iff)
    obtain c c' where c: "map_of (vs_caps s) (uc_capability_id req) = Some (c, k)"
        "map_of (vs_caps t) (uc_capability_id req) = Some (c', k')"
      using x Inr y by (auto simp: use_admit_Ok_iff)
    then have alg: "algorithm k' = algorithm k"
      by (cases rule: same_outside_cases [OF assms(1), where cid = "uc_capability_id req"]) auto
    have use: "use_capability cfg inp req s = use_complete cfg inp req k s"
        "use_capability cfg inp' req t = use_complete cfg inp' req k' t"
      using x Inr y st by (simp_all add: use_capability_def)
    have per: "performs cfg inp (CallUse req) s \<longleftrightarrow>
          \<not> isl (fst (execute_operation (vc_crypto cfg) inp k (operation req) (vs_derived s)))"
        "performs cfg inp' (CallUse req) t \<longleftrightarrow>
          \<not> isl (fst (execute_operation (vc_crypto cfg) inp' k' (operation req) (vs_derived t)))"
      using x Inr y by simp_all
    have kr: "keys_related R (CallUse req) s t = R (km_bytes k) (km_bytes k') (operation req)" for R
      using c by simp
    note complete = use_complete_public [OF assms(1,2) alg, of cfg req]
    show ?thesis
      unfolding use kr
      using complete assms(3) per execute_same_output [OF alg] by metis
  qed
  then show "same_outside (snd (use_capability cfg inp req s)) (snd (use_capability cfg inp' req t))"
    and "keys_related (\<lambda>k k' op. ?shape k k') (CallUse req) s t \<or> performs cfg inp (CallUse req) s \<Longrightarrow>
       same_reply (ReplyUse (fst (use_capability cfg inp req s))) (ReplyUse (fst (use_capability cfg inp' req t)))"
    and "keys_related ?out (CallUse req) s t \<Longrightarrow>
       fst (use_capability cfg inp req s) = fst (use_capability cfg inp' req t)"
    by blast+
qed

lemma revoke_public:
  assumes "same_outside s t" and "in_clock inp' = in_clock inp"
  shows "fst (revoke_capability cfg inp cid who s) = fst (revoke_capability cfg inp' cid who t) \<and>
    same_outside (snd (revoke_capability cfg inp cid who s)) (snd (revoke_capability cfg inp' cid who t))"
  using assms(1)
proof (cases rule: same_outside_cases [where cid = cid])
  case (some c k k')
  then show ?thesis
    using assms
    by (auto simp: revoke_capability_def intro!: same_outside_emit same_outside_audit same_outside_put)
qed (use assms(1) in \<open>simp add: revoke_capability_def\<close>)

lemma expire_public:
  assumes "same_outside s t" and "in_clock inp' = in_clock inp"
  shows "fst (expire_capability cfg inp cid s) = fst (expire_capability cfg inp' cid t) \<and>
    same_outside (snd (expire_capability cfg inp cid s)) (snd (expire_capability cfg inp' cid t))"
  using assms(1)
proof (cases rule: same_outside_cases [where cid = cid])
  case (some c k k')
  then show ?thesis
    using assms
    by (auto simp: expire_capability_def intro!: same_outside_emit same_outside_audit same_outside_put)
qed (use assms(1) in \<open>simp add: expire_capability_def\<close>)

lemma report_public:
  assumes "same_outside s t" and "in_clock inp' = in_clock inp"
  shows "fst (report_expired cfg inp now cids s) = fst (report_expired cfg inp' now cids t) \<and>
    same_outside (snd (report_expired cfg inp now cids s)) (snd (report_expired cfg inp' now cids t))"
  using assms(1)
proof (induction cids arbitrary: s t)
  case (Cons cid cids)
  let ?e = "\<lambda>u. emit_if (driver_emits cfg) (emit_capability_expired (vc_emitter cfg) cid now None) ()
      (audit_if True (record_expire (in_clock inp (2 + length cids)) cid) u)"
  have "fst (?e s) = fst (?e t)" "same_outside (snd (?e s)) (snd (?e t))"
    using Cons.prems by (auto intro!: same_outside_emit same_outside_audit)
  then show ?case using Cons.IH [of "snd (?e s)" "snd (?e t)"] assms(2)
    by (cases "?e s"; cases "?e t"; cases "fst (?e s)") auto
qed simp

lemma overdue_public:
  "map fst (filter (\<lambda>(_, c, _). overdue now c) (vs_caps s)) =
     map fst (filter (\<lambda>(_, c, _, _). overdue now c) (public_store s))"
  "length (vs_caps s) = length (public_store s)"
  "public_store (s\<lparr>vs_caps := map (\<lambda>(cid, c, k). (cid, expire_overdue now c, k)) (vs_caps s)\<rparr>) =
     map (\<lambda>(cid, c, a, i). (cid, expire_overdue now c, a, i)) (public_store s)"
  by (auto simp: public_store_def public_entry_def filter_map comp_def case_prod_unfold)

lemma pass_public:
  assumes "same_outside s t" and "in_ulid inp' = in_ulid inp" and "in_clock inp' = in_clock inp"
  shows "fst (run_expiration_pass cfg inp now s) = fst (run_expiration_pass cfg inp' now t) \<and>
    same_outside (snd (run_expiration_pass cfg inp now s)) (snd (run_expiration_pass cfg inp' now t))"
proof -
  let ?x = "\<lambda>u. map fst (filter (\<lambda>(_, c, _). overdue now c) (vs_caps u))"
  let ?s = "\<lambda>u. u\<lparr>vs_caps := map (\<lambda>(cid, c, k). (cid, expire_overdue now c, k)) (vs_caps u)\<rparr>"
  let ?r = "report_expired cfg inp now (?x s) (?s s)" and ?q = "report_expired cfg inp' now (?x t) (?s t)"
  have x: "?x s = ?x t" and len: "length (vs_caps s) = length (vs_caps t)"
    using assms(1) by (simp_all only: overdue_public same_outside_def)
  have "same_outside (?s s) (?s t)"
    using assms(1) overdue_public(3) [where s = s] overdue_public(3) [where s = t] by (simp add: same_outside_def)
  then have "fst ?r = fst ?q \<and> same_outside (snd ?r) (snd ?q)"
    unfolding x by (rule report_public) (rule assms(3))
  then show ?thesis using x len assms(2,3)
    by (cases ?r; cases ?q; cases "fst ?r") (simp_all add: run_expiration_pass_def Let_def)
qed

lemma list_public: "same_outside s t \<Longrightarrow> list_capabilities subj s = list_capabilities subj t"
proof -
  have "list_capabilities subj u = map fst (filter (\<lambda>(c, _). issued_to c = subj) (map snd (public_store u)))" for u
    by (auto simp: list_capabilities_def public_store_def public_entry_def filter_map comp_def case_prod_unfold)
  then show "same_outside s t \<Longrightarrow> ?thesis" by (simp add: same_outside_def)
qed

text \<open>
  C12: The vault does not reveal its keys. Take two vaults that differ only in key bytes and derived keys,
  and the same call on both, itself differing at most in the key bytes it supplies and in the
  random source, and suppose that the cryptography does not succeed on one side and fail on the
  other. Then the capability records, the audit log and the whole evidence chain are the same
  afterwards. When the keys a use finds have the same shape (length, and acceptance by the
  constructors of the primitives), or when the use was performed, the answers agree too: every answer of
  every call is the same, error texts included, except that two performed uses return results of
  the same kind. And when moreover the primitive behind the use has the same output for
  both keys, even these results are the same: a key enters the answers through its shape and the output of the primitive
  only. The shape is needed: a malformed key is refused with a text that tells its length
  (\<open>malformed_key_reveals_its_length\<close>).
\<close>

theorem key_bytes_are_not_observable:
  assumes "same_outside s t" and "same_call call call'"
    and "in_ulid inp' = in_ulid inp" and "in_clock inp' = in_clock inp"
    and "performs cfg inp call s = performs cfg inp' call' t"
  shows "same_outside (snd (vault_call_run cfg inp call s)) (snd (vault_call_run cfg inp' call' t)) \<and>
    (keys_related (\<lambda>k k' op. same_shape (vc_crypto cfg) k k') call s t \<or> performs cfg inp call s \<longrightarrow>
       same_reply (fst (vault_call_run cfg inp call s)) (fst (vault_call_run cfg inp' call' t))) \<and>
    (keys_related (\<lambda>k k' op. same_shape (vc_crypto cfg) k k' \<and>
         same_output (vc_crypto cfg) (in_rng inp) (in_rng inp') k k' op) call s t \<longrightarrow>
       fst (vault_call_run cfg inp call s) = fst (vault_call_run cfg inp' call' t))"
proof (cases call)
  case (CallIssue req)
  then obtain req' where "call' = CallIssue req'"
      "req\<lparr>key_material_bytes := None\<rparr> = req'\<lparr>key_material_bytes := None\<rparr>"
    using assms(2) by (cases call') auto
  then show ?thesis using issue_public [OF assms(1) _ assms(3,4), of req req' cfg] CallIssue by simp
next
  case (CallUse req)
  then have call': "call' = CallUse req" using assms(2) by simp
  show ?thesis
    using use_public [OF assms(1,4) assms(5) [unfolded CallUse call']]
    by (simp add: CallUse call' del: performs.simps keys_related.simps)
next
  case (CallPass now)
  then show ?thesis using pass_public [OF assms(1,3,4), of cfg now] assms(2) by auto
qed (use assms(1,2) revoke_public [OF assms(1,4), of cfg] expire_public [OF assms(1,4), of cfg] list_public in auto)

section \<open>A sample vault\<close>

definition sample_crypto :: vault_crypto where
  "sample_crypto =
     \<lparr>aes_new = (\<lambda>k. length k = AES_KEY_LEN), aead_seal = (\<lambda>k n a m. Some m), aead_open = (\<lambda>k n a c. Some c),
      hmac_new = (\<lambda>k. True), hmac_tag = (\<lambda>k m. replicate TAG_LEN 0), hmac_check = (\<lambda>k m t. True),
      hkdf_expand = (\<lambda>k i n. if n \<le> 8160 then Some (replicate n 0) else None),
      blake3_hex = (\<lambda>b. replicate 64 CHR ''0''), ed_generate = (\<lambda>rng. fill_bytes rng ED_KEY_LEN),
      ed_sign = (\<lambda>k m. replicate ED_SIGNATURE_LEN 0), ed_from_bytes = (\<lambda>k. None), ed_public = (\<lambda>k. k),
      ed_verify = (\<lambda>k m g. True), x25519_secret = (\<lambda>k. k)\<rparr>"

definition sample_vault_config :: "(unit, unit) vault_config" where
  "sample_vault_config =
     \<lparr>vc_crypto = sample_crypto,
      vc_emitter = \<lparr>em_lib = sample_evidence_lib, em_key = (), em_ulid = (\<lambda>_. ''U''), em_now = (\<lambda>_. 0),
        em_show = (\<lambda>_. []), em_subject = AIOS_VAULT_SUBJECT\<rparr>,
      broker_audits = True, broker_emits = False, driver_emits = False\<rparr>"

definition sample_inputs :: "instant \<Rightarrow> vault_inputs" where
  "sample_inputs t = \<lparr>in_rng = (\<lambda>_. 7), in_ulid = ''U'', in_clock = (\<lambda>_. t)\<rparr>"

definition sample_issue :: issue_capability_request where
  "sample_issue = \<lparr>ic_class = KeySign, ic_issued_to = ''family:alice'', ic_expires_at = Some 10,
     key_algorithm = Ed25519, key_material_bytes = Some (replicate 32 1)\<rparr>"

definition sample_use :: use_capability_request where
  "sample_use = \<lparr>uc_capability_id = ''cap_U'', operation = Sign [1, 2]\<rparr>"

definition sample_key :: key_material where
  "sample_key = \<lparr>algorithm = Ed25519, km_created_at = 0, km_bytes = replicate 32 1\<rparr>"

definition sample_capability :: "capability_state \<Rightarrow> vault_capability" where
  "sample_capability st = \<lparr>capability_id = ''cap_U'', cap_class = KeySign, issued_to = ''family:alice'',
     issued_at = 0, cap_expires_at = Some 10, cap_state = st, key_material_handle = ''vault-internal:cap_U''\<rparr>"

definition sample_vault :: vault_state where
  "sample_vault = snd (issue_capability sample_vault_config (sample_inputs 0) sample_issue vault_new)"

lemmas sample_vault_defs = sample_vault_config_def sample_inputs_def sample_issue_def sample_use_def
  sample_key_def sample_capability_def capability_id_new_def CAPABILITY_PREFIX_def

lemma sample_vault_eval:
  "sample_vault = \<lparr>vs_caps = [(''cap_U'', sample_capability CapActive, sample_key)], vs_derived = [],
     vs_audit = record_issue ''cap_U'' ''family:alice'' [], vs_chain = []\<rparr>"
  "issue_capability sample_vault_config (sample_inputs 0) sample_issue vault_new =
     (Ok (sample_capability CapActive), sample_vault)"
  by (simp_all add: sample_vault_def sample_vault_defs issue_capability_def Let_def new_capability_def
      new_key_material_def vault_new_def audit_new_def audit_if_def emit_if_def expect_algorithm_def)

definition sample_revoked :: vault_state where
  "sample_revoked = snd (revoke_capability sample_vault_config (sample_inputs 1) ''cap_U'' ''operator:root'' sample_vault)"

lemma sample_revoked_eval:
  "vs_caps sample_revoked = [(''cap_U'', sample_capability CapRevoked, sample_key)]"
  "revoke_capability sample_vault_config (sample_inputs 1) ''cap_U'' ''operator:root'' sample_vault =
     (Ok (), sample_revoked)"
  by (simp_all add: sample_revoked_def sample_vault_eval revoke_capability_def sample_vault_defs audit_if_def
      emit_if_def put_state_def)

lemma sample_admit:
  "use_admit sample_vault_config (sample_inputs 1) sample_use sample_vault = (Inr sample_key, sample_vault)"
  by (simp add: use_admit_def Let_def sample_vault_eval sample_vault_defs)

lemma sample_refused:
  "use_admit sample_vault_config (sample_inputs 2) sample_use sample_revoked =
     (Inl (CapabilityRevoked ''cap_U''), sample_revoked)"
  by (simp add: use_admit_def Let_def sample_revoked_eval sample_vault_defs)

definition sample_used :: vault_state where
  "sample_used = snd (use_complete sample_vault_config (sample_inputs 2) sample_use sample_key sample_revoked)"

lemma sample_execute:
  "execute_operation (vc_crypto sample_vault_config) (sample_inputs t) sample_key (operation sample_use) d =
     (Inr (Signed (replicate 64 0)), d)"
  by (simp add: execute_operation_def sample_vault_defs ed25519_sign_op_def key_bytes_def ED_KEY_LEN_def
      ED_SIGNATURE_LEN_def sample_crypto_def)

lemma sample_config_flags [simp]:
  "broker_emits sample_vault_config = False" "broker_audits sample_vault_config = True"
  "driver_emits sample_vault_config = False"
  by (simp_all add: sample_vault_config_def)

lemma sample_complete:
  "use_complete sample_vault_config (sample_inputs 2) sample_use sample_key sample_revoked =
     (Inr (Signed (replicate 64 0)), sample_used)"
  by (simp add: sample_used_def use_complete_def Let_def sample_execute emit_if_def)

text \<open>Issue, admit a use, revoke, refuse a use, complete the admitted one.\<close>

definition sample_events :: "vault_event list" where
  "sample_events =
     [EvRefuse (sample_inputs 2) sample_use (CapabilityRevoked ''cap_U''),
      EvComplete (sample_inputs 2) sample_use (Inr (Signed (replicate 64 0)))]"

lemma sample_run_before:
  "lts_run (vault_step sample_vault_config) (vault_new, [])
     [EvIssue (sample_inputs 0) sample_issue (Ok (sample_capability CapActive)),
      EvAdmit (sample_inputs 1) sample_use,
      EvRevoke (sample_inputs 1) ''cap_U'' ''operator:root'' (Ok ())]
     (sample_revoked, [(sample_use, sample_key)])"
  by (rule run_cons, rule vault_step.issue, rule sample_vault_eval(2),
      rule run_cons, rule vault_step.admit, rule sample_admit,
      rule run_cons, rule vault_step.revoke, rule sample_revoked_eval(2), rule run_nil)

lemma sample_run_after:
  "lts_run (vault_step sample_vault_config) (sample_revoked, [(sample_use, sample_key)]) sample_events (sample_used, [])"
proof -
  have "vault_step sample_vault_config (sample_revoked, [(sample_use, sample_key)])
      (EvComplete (sample_inputs 2) sample_use (Inr (Signed (replicate 64 0))))
      (sample_used, remove1 (sample_use, sample_key) [(sample_use, sample_key)])"
    by (rule vault_step.complete [OF _ sample_complete]) simp
  note step = this
  show ?thesis
    unfolding sample_events_def
    by (rule run_cons, rule vault_step.refuse, rule sample_refused, rule run_cons, rule step) simp
qed

section \<open>Witnesses\<close>

theorem dead_capability_is_inert_witness:
  "list_all (inert_step ''cap_U'' CapRevoked) sample_events \<and>
   map_of (vs_caps sample_used) ''cap_U'' = Some (sample_capability CapRevoked, sample_key) \<and>
   pending_uses ''cap_U'' [] + length (filter (completes ''cap_U'') sample_events) =
     pending_uses ''cap_U'' [(sample_use, sample_key)]"
  using dead_capability_is_inert [OF sample_run_after, of "''cap_U''" "sample_capability CapRevoked" sample_key]
  by (simp add: sample_revoked_eval sample_capability_def sample_events_def)

lemma sample_whole_run:
  "lts_run (vault_step sample_vault_config) (vault_new, [])
     ([EvIssue (sample_inputs 0) sample_issue (Ok (sample_capability CapActive)),
       EvAdmit (sample_inputs 1) sample_use,
       EvRevoke (sample_inputs 1) ''cap_U'' ''operator:root'' (Ok ())] @ sample_events) (sample_used, [])"
  using sample_run_before sample_run_after unfolding lts_run_append by blast

theorem executed_use_was_admitted_witness:
  "\<exists>es1 es2 inp0 s1 fl1 k s2.
     [EvIssue (sample_inputs 0) sample_issue (Ok (sample_capability CapActive)),
      EvAdmit (sample_inputs 1) sample_use,
      EvRevoke (sample_inputs 1) ''cap_U'' ''operator:root'' (Ok ())] @ sample_events =
       es1 @ EvAdmit inp0 sample_use # es2 \<and>
     EvComplete (sample_inputs 2) sample_use (Inr (Signed (replicate 64 0))) \<in> set es2 \<and>
     lts_run (vault_step sample_vault_config) (vault_new, []) es1 (s1, fl1) \<and>
     admissible s1 (in_clock inp0 0) sample_use k \<and>
     Inr (Signed (replicate 64 0)) = fst (use_complete sample_vault_config (sample_inputs 2) sample_use k s2)"
  by (rule executed_use_was_admitted [OF sample_whole_run]) (simp add: sample_events_def)

theorem audit_counts_executed_uses_witness:
  "\<exists>n'. counted_uses ''cap_U'' (fst (sample_used, [] :: in_flight)) = Some n' \<and>
     unat n' = min (unat (0 :: u64) + length (filter (executed_event ''cap_U'') sample_events)) (2 ^ 64 - 1)"
  by (rule audit_counts_executed_uses [OF sample_run_after])
    (simp_all add: sample_vault_config_def sample_events_def counted_uses_def audit_lookup_def sample_revoked_def
      sample_vault_eval revoke_capability_def sample_inputs_def sample_capability_def record_issue_def)

theorem vault_store_well_formed_witness: "vault_inv sample_used"
  by (rule vault_store_well_formed [OF sample_whole_run])

theorem unperformable_uses_witness:
  "fst (use_capability sample_vault_config (sample_inputs 1) sample_use sample_vault) \<noteq>
     Err (OperationUnsupportedInT049 (Sign [1, 2]))"
proof -
  have run: "lts_run (vault_step sample_vault_config) (vault_new, [])
      [EvIssue (sample_inputs 0) sample_issue (Ok (sample_capability CapActive))] (sample_vault, [])"
    by (rule run_cons, rule vault_step.issue, rule sample_vault_eval(2), rule run_nil)
  have "admissible sample_vault (in_clock (sample_inputs 1) 0) sample_use sample_key"
    using sample_admit by (simp add: use_admit_Ok_iff admissible_def)
  then show ?thesis
    using unperformable_uses [OF run, of "sample_inputs 1" sample_use sample_key]
    by (simp add: sample_use_def secret_op_def encryption_op_def)
qed

theorem expiration_pass_keeps_verdicts_witness:
  "fst (use_admit sample_vault_config (sample_inputs 11) sample_use
     (snd (run_expiration_pass sample_vault_config (sample_inputs 11) 11 sample_vault))) =
   Err (CapabilityExpired ''cap_U'')"
  using expiration_pass_keeps_verdicts [of 11 "sample_inputs 11" sample_vault_config sample_use "sample_inputs 11" sample_vault]
  by (simp add: use_admit_def Let_def sample_vault_eval sample_vault_defs)

definition sample_verifier :: vault_state where
  "sample_verifier = sample_vault\<lparr>vs_caps := [(''cap_V'', (sample_capability CapActive)
     \<lparr>capability_id := ''cap_V'', cap_class := KeyVerify\<rparr>, sample_key)]\<rparr>"

theorem vault_roundtrip_witness:
  "fst (use_capability sample_vault_config (sample_inputs 2)
     \<lparr>uc_capability_id = ''cap_V'', operation = Verify [1, 2] (replicate 64 0)\<rparr> sample_verifier) = Ok (Verified True)"
proof -
  have "fst (use_capability sample_vault_config (sample_inputs 2)
     \<lparr>uc_capability_id = ''cap_V'', operation = Verify [1, 2] (replicate 64 0)\<rparr> sample_verifier) = Ok (Verified True) \<or>
    broker_emits sample_vault_config \<and> (\<exists>t. fst (use_capability sample_vault_config (sample_inputs 2)
     \<lparr>uc_capability_id = ''cap_V'', operation = Verify [1, 2] (replicate 64 0)\<rparr> sample_verifier) = Err (VEvidenceEmitFailed t))"
  proof (rule vault_roundtrip [where req = sample_use and s = sample_vault and inp = "sample_inputs 1" and k = sample_key
      and v = "Signed (replicate 64 0)" and k' = sample_key and op' = "Verify [1, 2] (replicate 64 0)"])
    show "crypto_correct (vc_crypto sample_vault_config)"
      by (simp add: crypto_correct_def sample_vault_config_def sample_crypto_def)
    show "use_capability sample_vault_config (sample_inputs 1) sample_use sample_vault =
      (Inr (Signed (replicate 64 0)), snd (use_capability sample_vault_config (sample_inputs 1) sample_use sample_vault))"
      by (simp add: use_capability_def sample_admit use_complete_def Let_def sample_execute emit_if_def)
    show "admissible sample_vault (in_clock (sample_inputs 1) 0) sample_use sample_key"
      using sample_admit by (simp add: use_admit_Ok_iff admissible_def)
  qed (simp_all add: sample_vault_defs admissible_def sample_verifier_def lapsed_def permits_def)
  then show ?thesis by simp
qed

text \<open>The sample vault with another key under the same capability.\<close>

definition sample_rekeyed_vault :: vault_state where
  "sample_rekeyed_vault =
     sample_vault\<lparr>vs_caps := [(''cap_U'', sample_capability CapActive, sample_key\<lparr>km_bytes := replicate 32 9\<rparr>)]\<rparr>"

lemma sample_rekeyed_admit:
  "use_admit sample_vault_config (sample_inputs 1) sample_use sample_rekeyed_vault =
     (Inr (sample_key\<lparr>km_bytes := replicate 32 9\<rparr>), sample_rekeyed_vault)"
  by (simp add: use_admit_def Let_def sample_rekeyed_vault_def sample_vault_eval sample_vault_defs)

lemma sample_rekeyed_execute:
  "execute_operation (vc_crypto sample_vault_config) (sample_inputs t) (sample_key\<lparr>km_bytes := replicate 32 9\<rparr>)
     (operation sample_use) d = (Inr (Signed (replicate 64 0)), d)"
  by (simp add: execute_operation_def sample_vault_defs ed25519_sign_op_def key_bytes_def ED_KEY_LEN_def
      ED_SIGNATURE_LEN_def sample_crypto_def)

theorem key_bytes_are_not_observable_witness:
  "same_outside
     (snd (vault_call_run sample_vault_config (sample_inputs 1) (CallUse sample_use) sample_vault))
     (snd (vault_call_run sample_vault_config (sample_inputs 1) (CallUse sample_use) sample_rekeyed_vault)) \<and>
   fst (vault_call_run sample_vault_config (sample_inputs 1) (CallUse sample_use) sample_vault) =
   fst (vault_call_run sample_vault_config (sample_inputs 1) (CallUse sample_use) sample_rekeyed_vault)"
proof -
  have out: "same_outside sample_vault sample_rekeyed_vault"
    by (simp add: same_outside_def sample_rekeyed_vault_def sample_vault_eval public_store_def public_entry_def)
  have per: "performs sample_vault_config (sample_inputs 1) (CallUse sample_use) sample_vault"
      "performs sample_vault_config (sample_inputs 1) (CallUse sample_use) sample_rekeyed_vault"
    by (simp_all add: sample_admit sample_rekeyed_admit sample_execute sample_rekeyed_execute)
  have "keys_related (\<lambda>k k' op. same_shape (vc_crypto sample_vault_config) k k' \<and>
      same_output (vc_crypto sample_vault_config) (in_rng (sample_inputs 1)) (in_rng (sample_inputs 1)) k k' op)
      (CallUse sample_use) sample_vault sample_rekeyed_vault"
    by (simp add: sample_rekeyed_vault_def sample_vault_eval sample_vault_defs same_shape_def sample_crypto_def)
  then show ?thesis
    using key_bytes_are_not_observable [OF out, of "CallUse sample_use" "CallUse sample_use" "sample_inputs 1"
        "sample_inputs 1" sample_vault_config] per by (simp del: keys_related.simps performs.simps vault_call_run.simps)
qed

section \<open>Departures\<close>

text \<open>
  A malformed key is refused when it is used, with a text that tells how many bytes it has: two vaults
  whose keys have different lengths can be told apart.
\<close>

lemma malformed_key_reveals_its_length:
  assumes "algorithm k = Ed25519" and "length (km_bytes k) \<noteq> 32"
  shows "fst (execute_operation cr inp k (Sign m) d) =
    Err (CryptoError (''Ed25519 key material must be 32 bytes, got '' @ show_nat (length (km_bytes k))))"
proof -
  have "show_nat 32 = ''32''" by code_simp
  then show ?thesis using assms by (simp add: execute_operation_def ed25519_sign_op_def key_bytes_def ED_KEY_LEN_def)
qed

text \<open>
  The specification of the vault lets a revocation fail the operations in flight
  (\<open>02_vault_broker.md\<close>, section 9.2: they fail with \<open>CapabilityRevoked\<close>). The broker looks at the state
  of a capability when it admits a use and not again: the answer of an admitted use is the same whether
  the capability was revoked meanwhile or not.
\<close>

lemma revocation_spares_uses_in_flight:
  assumes "revoke_capability cfg inp' (uc_capability_id req) who s = (Ok (), s')" and "\<not> broker_emits cfg"
  shows "fst (use_complete cfg inp req k s') = fst (use_complete cfg inp req k s)"
proof -
  have "vs_derived s' = vs_derived s"
    using assms by (auto simp: revoke_capability_def emit_if_def audit_if_def put_state_def
        split: option.splits if_splits prod.splits sum.splits)
  then show ?thesis using assms(2) by (auto simp: use_complete_def Let_def emit_if_def split: prod.splits sum.splits)
qed

lemma revoked_capability_still_signs:
  "\<exists>s fl. lts_run (vault_step sample_vault_config) (vault_new, [])
     [EvIssue (sample_inputs 0) sample_issue (Ok (sample_capability CapActive)),
      EvAdmit (sample_inputs 1) sample_use,
      EvRevoke (sample_inputs 1) ''cap_U'' ''operator:root'' (Ok ()),
      EvRefuse (sample_inputs 2) sample_use (CapabilityRevoked ''cap_U''),
      EvComplete (sample_inputs 2) sample_use (Ok (Signed (replicate 64 0)))] (s, fl)"
  using sample_whole_run unfolding sample_events_def append.simps by blast

text \<open>
  A capability that a use finds past its expiry is marked expired and the audit log says so, but no
  receipt is written, while the lifecycle driver writes one for the same transition.
\<close>

lemma expiry_on_use_leaves_no_receipt: "vs_chain (snd (use_admit cfg inp req s)) = vs_chain s"
  by (auto simp: use_admit_def Let_def split: option.splits capability_state.splits)

text \<open>The keys that \<open>KDF_DERIVE\<close> stores are never read: no later answer depends on them.\<close>

lemma derived_keys_are_never_read:
  "fst (use_capability cfg inp req (s\<lparr>vs_derived := d\<rparr>)) = fst (use_capability cfg inp req s)"
proof -
  have ex: "fst (execute_operation cr inp k op d1) = fst (execute_operation cr inp k op d2)" for cr k op d1 d2
    by (cases op) (auto simp: execute_operation_def Let_def split: sum.splits)
  have e: "fst (use_complete cfg inp req k (u\<lparr>vs_derived := d\<rparr>)) = fst (use_complete cfg inp req k u)" for k u
  proof -
    obtain x b where 1: "execute_operation (vc_crypto cfg) inp k (operation req) d = (x, b)" by fastforce
    obtain b' where 2: "execute_operation (vc_crypto cfg) inp k (operation req) (vs_derived u) = (x, b')"
      using ex [of "vc_crypto cfg" k "operation req" d "vs_derived u"] 1 by (metis fst_conv surj_pair)
    show ?thesis
      by (cases x) (auto simp: use_complete_def Let_def emit_if_def 1 2 split: sum.split prod.split)
  qed
  show ?thesis
    using e [of _ s]
    by (auto simp: use_capability_def use_admit_def Let_def put_state_def audit_if_def
        split: option.splits capability_state.splits)
qed

text \<open>
  The audit entry of a capability names as its issuer the subject the capability was issued to.
\<close>

lemma audit_issuer_is_the_holder:
  assumes "broker_audits cfg" and "issue_capability cfg inp req s = (Inr c, s')"
  shows "map_option issued_by (audit_lookup (capability_id c) (vs_audit s')) = Some (issued_to c)"
proof -
  have "c = new_capability (in_ulid inp) (in_clock inp 0) req"
    using assms(2) by (auto simp: issue_capability_def Let_def emit_if_def split: sum.splits if_splits prod.splits)
  then show ?thesis
    using issue_effect [OF assms(2)] assms(1)
    by (auto simp: audit_lookup_def record_issue_def AList.update_conv' new_capability_def)
qed

end
