(* ===== verification/Vault_Identity.thy ===== *)
theory Vault_Identity
  imports Vault_Types Policy_Hydration
begin

text \<open>
  The identity catalog of the vault (\<open>identity_catalog.rs\<close>), the hydrator on top of it (\<open>hydrator.rs\<close>)
  and its adaptation to the policy kernel's trait (\<open>integration.rs\<close>), which is a second
  interpretation of the locale \<open>subject_hydrator\<close>. Each call of the catalog is one step; the
  session identifier and the clock of a call are its arguments.
\<close>

section \<open>The catalog\<close>

record identity_catalog =
  cat_subjects :: "(string \<times> vault_subject) list"
  cat_sessions :: "(string \<times> session) list"
  cat_membership :: "(string \<times> string list) list"

definition catalog_new :: identity_catalog where
  "catalog_new = \<lparr>cat_subjects = [], cat_sessions = [], cat_membership = []\<rparr>"

definition join_group :: "string \<Rightarrow> string \<Rightarrow> (string \<times> string list) list \<Rightarrow> (string \<times> string list) list" where
  "join_group sid g m =
     (let members = (case map_of m g of None \<Rightarrow> [] | Some ms \<Rightarrow> ms)
      in AList.update g (if list_ex (\<lambda>x. x = sid) members then members else members @ [sid]) m)"

definition index_memberships ::
    "string \<Rightarrow> string list \<Rightarrow> (string \<times> string list) list \<Rightarrow> (string \<times> string list) list" where
  "index_memberships sid gs m = fold (join_group sid) gs m"

definition insert_subject :: "vault_subject \<Rightarrow> identity_catalog \<Rightarrow> identity_catalog" where
  "insert_subject subj cat =
     cat\<lparr>cat_subjects := AList.update (vsub_id subj) subj (cat_subjects cat),
         cat_membership := index_memberships (vsub_id subj) (vsub_groups subj) (cat_membership cat)\<rparr>"

definition fixture_subjects :: "instant \<Rightarrow> vault_subject list" where
  "fixture_subjects now =
     [\<lparr>vsub_id = ''family:alice'', vsub_type = VHuman, provisional_name = ''Alice'',
       vsub_groups = [''family''], vsub_is_ai = False, vsub_created_at = now\<rparr>,
      \<lparr>vsub_id = ''agent:dev'', vsub_type = VAgent, provisional_name = ''Developer Agent'',
       vsub_groups = [''agent''], vsub_is_ai = True, vsub_created_at = now\<rparr>,
      \<lparr>vsub_id = ''app:browser'', vsub_type = VApplication, provisional_name = ''Browser'',
       vsub_groups = [''app''], vsub_is_ai = False, vsub_created_at = now\<rparr>,
      \<lparr>vsub_id = ''_system:kwin'', vsub_type = VService, provisional_name = ''KWin'',
       vsub_groups = [''_system''], vsub_is_ai = False, vsub_created_at = now\<rparr>,
      \<lparr>vsub_id = ''operator:root'', vsub_type = VLocalOperator, provisional_name = ''Root Operator'',
       vsub_groups = [''operator''], vsub_is_ai = False, vsub_created_at = now\<rparr>]"

definition catalog_with_fixtures :: "instant \<Rightarrow> identity_catalog" where
  "catalog_with_fixtures now = fold insert_subject (fixture_subjects now) catalog_new"

definition register_subject ::
    "vault_subject \<Rightarrow> identity_catalog \<Rightarrow> (vault_error, unit) result \<times> identity_catalog" where
  "register_subject subj cat =
     (case map_of (cat_subjects cat) (vsub_id subj) of
        Some _ \<Rightarrow> (Err (SubjectAlreadyRegistered (vsub_id subj)), cat)
      | None \<Rightarrow> (Ok (), insert_subject subj cat))"

definition lookup_subject :: "string \<Rightarrow> identity_catalog \<Rightarrow> (vault_error, vault_subject) result" where
  "lookup_subject sid cat =
     (case map_of (cat_subjects cat) sid of None \<Rightarrow> Err (SubjectNotFound sid) | Some subj \<Rightarrow> Ok subj)"

section \<open>Sessions\<close>

definition transition_expired_session :: "instant \<Rightarrow> session \<Rightarrow> session" where
  "transition_expired_session now se =
     (if sess_state se \<in> {SessActive, SessSuspended} \<and> sess_expires_at se < now
      then se\<lparr>sess_state := SessExpired\<rparr> else se)"

definition expire_past_sessions_for_subject ::
    "string \<Rightarrow> instant \<Rightarrow> (string \<times> session) list \<Rightarrow> (string \<times> session) list" where
  "expire_past_sessions_for_subject sid now ss =
     map (\<lambda>(i, se). (i, if subject_id se = sid then transition_expired_session now se else se)) ss"

definition start_session ::
    "string \<Rightarrow> instant \<Rightarrow> string \<Rightarrow> instant \<Rightarrow> identity_catalog \<Rightarrow> (vault_error, session) result \<times> identity_catalog" where
  "start_session ulid now sid expires cat =
     (case map_of (cat_subjects cat) sid of
        None \<Rightarrow> (Err (SubjectNotFound sid), cat)
      | Some _ \<Rightarrow>
          let ss = expire_past_sessions_for_subject sid now (cat_sessions cat) in
          if list_ex (\<lambda>(_, se). subject_id se = sid \<and> sess_state se = SessActive \<and> now \<le> sess_expires_at se) ss
          then (Err (SessionAlreadyActive sid), cat\<lparr>cat_sessions := ss\<rparr>)
          else
            let se = \<lparr>session_id = ''sess_'' @ ulid, subject_id = sid, started_at = now,
                      sess_expires_at = expires, sess_state = SessActive\<rparr>
            in (Ok se, cat\<lparr>cat_sessions := AList.update (session_id se) se ss\<rparr>))"

definition session_not_found :: "string \<Rightarrow> vault_error" where
  "session_not_found i = VaultInternal (''session not found: '' @ i)"

definition session_not_active :: "string \<Rightarrow> vault_error" where
  "session_not_active i = VaultInternal (''session not active: '' @ i)"

definition set_session :: "string \<Rightarrow> session \<Rightarrow> identity_catalog \<Rightarrow> identity_catalog" where
  "set_session i se cat = cat\<lparr>cat_sessions := AList.update i se (cat_sessions cat)\<rparr>"

definition lookup_session ::
    "instant \<Rightarrow> string \<Rightarrow> identity_catalog \<Rightarrow> (vault_error, session) result \<times> identity_catalog" where
  "lookup_session now i cat =
     (case map_of (cat_sessions cat) i of
        None \<Rightarrow> (Err (session_not_found i), cat)
      | Some se \<Rightarrow> let se' = transition_expired_session now se in (Ok se', set_session i se' cat))"

definition suspend_session ::
    "instant \<Rightarrow> string \<Rightarrow> identity_catalog \<Rightarrow> (vault_error, unit) result \<times> identity_catalog" where
  "suspend_session now i cat =
     (case map_of (cat_sessions cat) i of
        None \<Rightarrow> (Err (session_not_found i), cat)
      | Some se \<Rightarrow>
          let se' = transition_expired_session now se in
          if sess_state se' \<noteq> SessActive then (Err (session_not_active i), set_session i se' cat)
          else (Ok (), set_session i (se'\<lparr>sess_state := SessSuspended\<rparr>) cat))"

definition revoke_session :: "string \<Rightarrow> identity_catalog \<Rightarrow> (vault_error, unit) result \<times> identity_catalog" where
  "revoke_session i cat =
     (case map_of (cat_sessions cat) i of
        None \<Rightarrow> (Err (session_not_found i), cat)
      | Some se \<Rightarrow> (Ok (), set_session i (se\<lparr>sess_state := SessRevoked\<rparr>) cat))"

section \<open>Groups\<close>

definition set_groups :: "string \<Rightarrow> string list \<Rightarrow> vault_subject \<Rightarrow> identity_catalog \<Rightarrow> identity_catalog" where
  "set_groups sid gs subj cat =
     cat\<lparr>cat_subjects := AList.update sid (subj\<lparr>vsub_groups := gs\<rparr>) (cat_subjects cat)\<rparr>"

definition add_to_group ::
    "string \<Rightarrow> string \<Rightarrow> identity_catalog \<Rightarrow> (vault_error, unit) result \<times> identity_catalog" where
  "add_to_group sid g cat =
     (case map_of (cat_subjects cat) sid of
        None \<Rightarrow> (Err (SubjectNotFound sid), cat)
      | Some subj \<Rightarrow>
          if list_ex (\<lambda>x. x = g) (vsub_groups subj) then (Err GroupMembershipUnchanged, cat)
          else (Ok (), (set_groups sid (vsub_groups subj @ [g]) subj cat)
                  \<lparr>cat_membership := join_group sid g (cat_membership cat)\<rparr>))"

definition remove_from_group ::
    "string \<Rightarrow> string \<Rightarrow> identity_catalog \<Rightarrow> (vault_error, unit) result \<times> identity_catalog" where
  "remove_from_group sid g cat =
     (case map_of (cat_subjects cat) sid of
        None \<Rightarrow> (Err (SubjectNotFound sid), cat)
      | Some subj \<Rightarrow>
          if \<not> list_ex (\<lambda>x. x = g) (vsub_groups subj) then (Err GroupMembershipUnchanged, cat)
          else (Ok (), (set_groups sid (remove1 g (vsub_groups subj)) subj cat)
                  \<lparr>cat_membership :=
                     (case map_of (cat_membership cat) g of
                        None \<Rightarrow> cat_membership cat
                      | Some ms \<Rightarrow> AList.update g (filter (\<lambda>x. x \<noteq> sid) ms) (cat_membership cat))\<rparr>))"

definition groups_for_subject :: "string \<Rightarrow> identity_catalog \<Rightarrow> string list" where
  "groups_for_subject sid cat =
     sort (map fst (filter (\<lambda>(_, ms). list_ex (\<lambda>x. x = sid) ms) (cat_membership cat)))"

section \<open>Hydration\<close>

record hydrated_subject_snapshot =
  hss_id :: string
  hss_type :: vault_subject_type
  hss_groups :: "string list"
  hss_capabilities :: "string list"
  hss_session_class :: string
  hss_recovery_mode :: bool
  hss_is_ai :: bool

fun session_class_for_subject_type :: "vault_subject_type \<Rightarrow> string" where
  "session_class_for_subject_type VHuman = ''INTERACTIVE''"
| "session_class_for_subject_type VDevice = ''INTERACTIVE''"
| "session_class_for_subject_type VAgent = ''SERVICE''"
| "session_class_for_subject_type VApplication = ''SERVICE''"
| "session_class_for_subject_type VService = ''SERVICE''"
| "session_class_for_subject_type VWorkflow = ''SERVICE''"
| "session_class_for_subject_type VRemoteOperator = ''RECOVERY''"
| "session_class_for_subject_type VLocalOperator = ''RECOVERY''"

definition recovery_mode_for_subject_type :: "vault_subject_type \<Rightarrow> bool" where
  "recovery_mode_for_subject_type ty \<longleftrightarrow> ty \<in> {VRemoteOperator, VLocalOperator}"

definition snapshot_for_subject :: "vault_subject \<Rightarrow> identity_catalog \<Rightarrow> hydrated_subject_snapshot" where
  "snapshot_for_subject subj cat =
     \<lparr>hss_id = vsub_id subj, hss_type = vsub_type subj, hss_groups = groups_for_subject (vsub_id subj) cat,
      hss_capabilities = [], hss_session_class = session_class_for_subject_type (vsub_type subj),
      hss_recovery_mode = recovery_mode_for_subject_type (vsub_type subj), hss_is_ai = vsub_is_ai subj\<rparr>"

definition hydrate_by_canonical_id ::
    "string \<Rightarrow> identity_catalog \<Rightarrow> (vault_error, hydrated_subject_snapshot) result" where
  "hydrate_by_canonical_id sid cat =
     try_then (lookup_subject sid cat) (\<lambda>subj. Ok (snapshot_for_subject subj cat))"

definition hydrate_by_session ::
    "instant \<Rightarrow> string \<Rightarrow> identity_catalog \<Rightarrow> (vault_error, hydrated_subject_snapshot) result \<times> identity_catalog" where
  "hydrate_by_session now i cat =
     (case lookup_session now i cat of
        (Inl e, cat') \<Rightarrow> (Err e, cat')
      | (Inr se, cat') \<Rightarrow>
          (case sess_state se of
             SessExpired \<Rightarrow> Err (SessionExpired i)
           | SessSuspended \<Rightarrow> Err (session_not_active i)
           | SessRevoked \<Rightarrow> Err (session_not_active i)
           | SessActive \<Rightarrow>
               try_then (lookup_subject (subject_id se) cat') (\<lambda>subj. Ok (snapshot_for_subject subj cat')), cat'))"

text \<open>\<open>HydratedSubjectSnapshot::from(Subject)\<close> takes the groups the subject record carries.\<close>

definition snapshot_from_subject :: "vault_subject \<Rightarrow> hydrated_subject_snapshot" where
  "snapshot_from_subject subj =
     \<lparr>hss_id = vsub_id subj, hss_type = vsub_type subj, hss_groups = vsub_groups subj,
      hss_capabilities = [], hss_session_class = session_class_for_subject_type (vsub_type subj),
      hss_recovery_mode = recovery_mode_for_subject_type (vsub_type subj), hss_is_ai = vsub_is_ai subj\<rparr>"

fun policy_subject_type :: "vault_subject_type \<Rightarrow> subject_type" where
  "policy_subject_type VHuman = Human"
| "policy_subject_type VAgent = Agent"
| "policy_subject_type VApplication = Application"
| "policy_subject_type VService = Service"
| "policy_subject_type VDevice = Device"
| "policy_subject_type VWorkflow = Workflow"
| "policy_subject_type VRemoteOperator = RemoteOperator"
| "policy_subject_type VLocalOperator = RemoteOperator"

definition hydrated_from_snapshot :: "hydrated_subject_snapshot \<Rightarrow> hydrated_subject" where
  "hydrated_from_snapshot sn =
     \<lparr>canonical_subject_id = hss_id sn, subject_type = policy_subject_type (hss_type sn), groups = hss_groups sn,
      capabilities = hss_capabilities sn, session_class = hss_session_class sn,
      recovery_mode = hss_recovery_mode sn, is_ai = hss_is_ai sn\<rparr>"

definition should_try_canonical_lookup :: "vault_error \<Rightarrow> bool" where
  "should_try_canonical_lookup e =
     (case e of VaultInternal m \<Rightarrow> prefix ''session not found:'' m | _ \<Rightarrow> False)"

definition vault_hydrate ::
    "instant \<Rightarrow> string \<Rightarrow> identity_catalog \<Rightarrow> (policy_error, hydrated_subject) result \<times> identity_catalog" where
  "vault_hydrate now provisional cat =
     (case hydrate_by_session now provisional cat of
        (Inr sn, cat') \<Rightarrow> (Ok (hydrated_from_snapshot sn), cat')
      | (Inl e, cat') \<Rightarrow>
          if should_try_canonical_lookup e
          then (case hydrate_by_canonical_id provisional cat' of
                  Inl _ \<Rightarrow> (Err SubjectUnauthenticated, cat')
                | Inr sn \<Rightarrow> (Ok (hydrated_from_snapshot sn), cat'))
          else (Err SubjectUnauthenticated, cat'))"

section \<open>The group index\<close>

definition members :: "string \<Rightarrow> (string \<times> string list) list \<Rightarrow> string set" where
  "members g m = (case map_of m g of None \<Rightarrow> {} | Some ms \<Rightarrow> set ms)"

lemma members_join: "members h (join_group sid g m) = members h m \<union> (if h = g then {sid} else {})"
  by (auto simp: members_def join_group_def Let_def AList.update_conv' list_ex_iff split: option.splits)

lemma members_index: "members h (index_memberships sid gs m) = members h m \<union> (if h \<in> set gs then {sid} else {})"
  unfolding index_memberships_def by (induction gs arbitrary: m) (auto simp: members_join)

lemma distinct_join: "distinct (map fst m) \<Longrightarrow> distinct (map fst (join_group sid g m))"
  by (simp add: join_group_def Let_def AList.distinct_update)

lemma distinct_index: "distinct (map fst m) \<Longrightarrow> distinct (map fst (index_memberships sid gs m))"
  unfolding index_memberships_def by (induction gs arbitrary: m) (auto simp: distinct_join)

lemma members_iff:
  assumes "distinct (map fst m)"
  shows "sid \<in> members g m \<longleftrightarrow> (\<exists>ms. (g, ms) \<in> set m \<and> sid \<in> set ms)"
proof (cases "map_of m g")
  case None
  then have "(g, ms) \<notin> set m" for ms by (auto simp: map_of_eq_None_iff image_iff)
  then show ?thesis using None by (simp add: members_def)
next
  case (Some ms)
  then have "(g, ns) \<in> set m \<longleftrightarrow> ns = ms" for ns
    using assms by (metis map_of_eq_Some_iff option.inject)
  then show ?thesis using Some by (simp add: members_def)
qed

definition catalog_inv :: "identity_catalog \<Rightarrow> bool" where
  "catalog_inv cat \<longleftrightarrow>
     distinct (map fst (cat_membership cat)) \<and>
     (\<forall>sid subj. map_of (cat_subjects cat) sid = Some subj \<longrightarrow> vsub_id subj = sid \<and> distinct (vsub_groups subj)) \<and>
     (\<forall>g sid. sid \<in> members g (cat_membership cat) \<longleftrightarrow>
        (\<exists>subj. map_of (cat_subjects cat) sid = Some subj \<and> g \<in> set (vsub_groups subj)))"

lemma insert_subject_inv:
  assumes "catalog_inv cat" and "distinct (vsub_groups subj)" and "map_of (cat_subjects cat) (vsub_id subj) = None"
  shows "catalog_inv (insert_subject subj cat)"
  using assms
  by (auto simp: catalog_inv_def insert_subject_def AList.update_conv' members_index distinct_index)

lemma catalog_inv_new: "catalog_inv catalog_new"
  by (simp add: catalog_inv_def catalog_new_def members_def)

lemma catalog_inv_fixtures: "catalog_inv (catalog_with_fixtures now)"
  unfolding catalog_with_fixtures_def fixture_subjects_def
  by (simp, intro insert_subject_inv catalog_inv_new)
    (simp_all add: insert_subject_def catalog_new_def)

lemma add_to_group_inv: "catalog_inv cat \<Longrightarrow> catalog_inv (snd (add_to_group sid g cat))"
  by (auto simp: catalog_inv_def add_to_group_def set_groups_def AList.update_conv' members_join distinct_join
      list_ex_iff split: option.splits)

lemma members_leave:
  "members h (case map_of m g of None \<Rightarrow> m | Some ms \<Rightarrow> AList.update g (filter (\<lambda>x. x \<noteq> sid) ms) m) =
     members h m - (if h = g then {sid} else {})"
  by (auto simp: members_def AList.update_conv' split: option.splits)

lemma remove_from_group_inv:
  assumes "catalog_inv cat"
  shows "catalog_inv (snd (remove_from_group sid g cat))"
proof (cases "map_of (cat_subjects cat) sid")
  case (Some subj)
  have "distinct (map fst (case map_of (cat_membership cat) g of None \<Rightarrow> cat_membership cat
      | Some ms \<Rightarrow> AList.update g (filter (\<lambda>x. x \<noteq> sid) ms) (cat_membership cat)))"
    using assms by (auto simp: catalog_inv_def AList.distinct_update split: option.splits)
  then show ?thesis
    using assms Some
    by (auto simp: catalog_inv_def remove_from_group_def set_groups_def AList.update_conv' members_leave list_ex_iff)
qed (use assms in \<open>simp add: remove_from_group_def\<close>)

lemma sessions_only_inv:
  "catalog_inv cat \<Longrightarrow> cat_subjects cat' = cat_subjects cat \<Longrightarrow> cat_membership cat' = cat_membership cat \<Longrightarrow>
   catalog_inv cat'"
  by (simp add: catalog_inv_def)

section \<open>Calls\<close>

datatype catalog_call =
    CatRegister vault_subject
  | CatStart string string instant
  | CatLookupSession string
  | CatSuspend string
  | CatRevoke string
  | CatJoin string string
  | CatLeave string string
  | CatHydrate string

fun catalog_step :: "instant \<Rightarrow> catalog_call \<Rightarrow> identity_catalog \<Rightarrow> identity_catalog" where
  "catalog_step now (CatRegister subj) cat = snd (register_subject subj cat)"
| "catalog_step now (CatStart ulid sid expires) cat = snd (start_session ulid now sid expires cat)"
| "catalog_step now (CatLookupSession i) cat = snd (lookup_session now i cat)"
| "catalog_step now (CatSuspend i) cat = snd (suspend_session now i cat)"
| "catalog_step now (CatRevoke i) cat = snd (revoke_session i cat)"
| "catalog_step now (CatJoin sid g) cat = snd (add_to_group sid g cat)"
| "catalog_step now (CatLeave sid g) cat = snd (remove_from_group sid g cat)"
| "catalog_step now (CatHydrate p) cat = snd (vault_hydrate now p cat)"

fun catalog_run :: "(instant \<times> catalog_call) list \<Rightarrow> identity_catalog \<Rightarrow> identity_catalog" where
  "catalog_run [] cat = cat"
| "catalog_run ((now, c) # cs) cat = catalog_run cs (catalog_step now c cat)"

fun well_formed_call :: "catalog_call \<Rightarrow> bool" where
  "well_formed_call (CatRegister subj) = distinct (vsub_groups subj)"
| "well_formed_call _ = True"

lemma hydrate_session_catalog: "snd (hydrate_by_session now i cat) = snd (lookup_session now i cat)"
  by (auto simp: hydrate_by_session_def split: prod.splits sum.splits)

lemma vault_hydrate_catalog: "snd (vault_hydrate now p cat) = snd (lookup_session now p cat)"
  using hydrate_session_catalog [of now p cat]
  by (auto simp: vault_hydrate_def split: prod.splits sum.splits)

lemma session_calls_keep:
  "cat_subjects (snd (lookup_session now i cat)) = cat_subjects cat"
  "cat_membership (snd (lookup_session now i cat)) = cat_membership cat"
  "cat_subjects (snd (suspend_session now i cat)) = cat_subjects cat"
  "cat_membership (snd (suspend_session now i cat)) = cat_membership cat"
  "cat_subjects (snd (revoke_session i cat)) = cat_subjects cat"
  "cat_membership (snd (revoke_session i cat)) = cat_membership cat"
  "cat_subjects (snd (start_session u now sid ex cat)) = cat_subjects cat"
  "cat_membership (snd (start_session u now sid ex cat)) = cat_membership cat"
  by (auto simp: lookup_session_def suspend_session_def revoke_session_def start_session_def set_session_def Let_def
      split: option.splits)

lemma catalog_inv_step:
  "catalog_inv cat \<Longrightarrow> well_formed_call c \<Longrightarrow> catalog_inv (catalog_step now c cat)"
  by (cases c)
    (auto simp: register_subject_def vault_hydrate_catalog insert_subject_inv add_to_group_inv remove_from_group_inv
      session_calls_keep elim!: sessions_only_inv split: option.splits)

lemma catalog_inv_run:
  "catalog_inv cat \<Longrightarrow> list_all (well_formed_call \<circ> snd) cs \<Longrightarrow> catalog_inv (catalog_run cs cat)"
  by (induction cs cat rule: catalog_run.induct) (auto simp: catalog_inv_step)

lemma groups_for_subject_eq:
  assumes "catalog_inv cat" and "map_of (cat_subjects cat) sid = Some subj"
  shows "groups_for_subject sid cat = sort (vsub_groups subj)"
proof -
  let ?xs = "map fst (filter (\<lambda>(_, ms). list_ex (\<lambda>x. x = sid) ms) (cat_membership cat))"
  have d: "distinct (map fst (cat_membership cat))" using assms(1) by (simp add: catalog_inv_def)
  have "distinct ?xs" by (rule distinct_map_filter) (rule d)
  moreover have "set ?xs = {g. sid \<in> members g (cat_membership cat)}"
    by (auto simp: members_iff [OF d] list_ex_iff image_iff)
  moreover have "{g. sid \<in> members g (cat_membership cat)} = set (vsub_groups subj)"
    using assms by (auto simp: catalog_inv_def)
  moreover have "distinct (vsub_groups subj)" using assms by (simp add: catalog_inv_def)
  ultimately have "sort ?xs = sort (vsub_groups subj)"
    by (intro sorted_distinct_set_unique) simp_all
  then show ?thesis by (simp add: groups_for_subject_def)
qed

text \<open>
  Two records of membership, one answer. The catalog keeps each subject's groups in its record
  and again in an index by group, and hydration reads the index. From the empty catalog or the
  fixtures, after any calls that register subjects without repeated groups, the groups a subject
  hydrates with are exactly the groups of its record, sorted.
\<close>

theorem hydrated_groups_are_the_registered_ones:
  assumes "cat0 = catalog_new \<or> cat0 = catalog_with_fixtures now"
    and "list_all (well_formed_call \<circ> snd) cs"
    and "lookup_subject sid (catalog_run cs cat0) = Ok subj"
  shows "hydrate_by_canonical_id sid (catalog_run cs cat0) =
    Ok ((snapshot_from_subject subj)\<lparr>hss_groups := sort (vsub_groups subj)\<rparr>)"
proof -
  have inv: "catalog_inv (catalog_run cs cat0)"
    using assms(1,2) catalog_inv_run catalog_inv_new catalog_inv_fixtures by blast
  have subj: "map_of (cat_subjects (catalog_run cs cat0)) sid = Some subj"
    using assms(3) by (auto simp: lookup_subject_def split: option.splits)
  then have "vsub_id subj = sid" using inv by (auto simp: catalog_inv_def)
  then show ?thesis
    using assms(3) groups_for_subject_eq [OF inv subj]
    by (simp add: hydrate_by_canonical_id_def snapshot_for_subject_def snapshot_from_subject_def)
qed

section \<open>Sessions in time\<close>

definition live :: "instant \<Rightarrow> session \<Rightarrow> bool" where
  "live t se \<longleftrightarrow> sess_state se = SessActive \<and> t \<le> sess_expires_at se"

definition one_live :: "instant \<Rightarrow> identity_catalog \<Rightarrow> bool" where
  "one_live t cat \<longleftrightarrow>
     (\<forall>i j se se'. map_of (cat_sessions cat) i = Some se \<longrightarrow> map_of (cat_sessions cat) j = Some se' \<longrightarrow>
        live t se \<longrightarrow> live t se' \<longrightarrow> subject_id se = subject_id se' \<longrightarrow> i = j)"

text \<open>A change of one session that keeps its subject and does not make it live.\<close>

definition tames :: "session \<Rightarrow> session \<Rightarrow> bool" where
  "tames se se' \<longleftrightarrow> subject_id se' = subject_id se \<and> (\<forall>t. live t se' \<longrightarrow> live t se)"

lemma tames_simps [simp]:
  "tames se se" "tames se (transition_expired_session now se)"
  "st \<noteq> SessActive \<Longrightarrow> tames se (se\<lparr>sess_state := st\<rparr>)"
  "st \<noteq> SessActive \<Longrightarrow> tames se ((transition_expired_session now se)\<lparr>sess_state := st\<rparr>)"
  by (auto simp: tames_def live_def transition_expired_session_def)

lemma one_live_tamed:
  assumes "one_live t cat"
    and "\<And>i se'. map_of (cat_sessions cat') i = Some se' \<Longrightarrow>
      \<exists>se. map_of (cat_sessions cat) i = Some se \<and> tames se se'"
  shows "one_live t cat'"
  unfolding one_live_def
proof (intro allI impI)
  fix i j se1 se2
  assume a: "map_of (cat_sessions cat') i = Some se1" "map_of (cat_sessions cat') j = Some se2"
    "live t se1" "live t se2" "subject_id se1 = subject_id se2"
  obtain u1 u2 where "map_of (cat_sessions cat) i = Some u1" "tames u1 se1"
      "map_of (cat_sessions cat) j = Some u2" "tames u2 se2"
    using assms(2) a(1,2) by blast
  then show "i = j" using assms(1) a(3-5) unfolding one_live_def tames_def by metis
qed

lemma set_session_tamed:
  assumes "map_of (cat_sessions (set_session i se' cat)) j = Some u"
    and "map_of (cat_sessions cat) i = Some se" and "tames se se'"
  shows "\<exists>v. map_of (cat_sessions cat) j = Some v \<and> tames v u"
  using assms by (cases "j = i") (auto simp: set_session_def AList.update_conv')

lemma lookup_tamed:
  assumes "map_of (cat_sessions (snd (lookup_session now i cat))) j = Some u"
  shows "\<exists>v. map_of (cat_sessions cat) j = Some v \<and> tames v u"
proof (cases "map_of (cat_sessions cat) i")
  case (Some se)
  then show ?thesis using assms set_session_tamed [OF _ Some] by (simp add: lookup_session_def Let_def)
qed (use assms in \<open>simp add: lookup_session_def\<close>)

lemma suspend_tamed:
  assumes "map_of (cat_sessions (snd (suspend_session now i cat))) j = Some u"
  shows "\<exists>v. map_of (cat_sessions cat) j = Some v \<and> tames v u"
proof (cases "map_of (cat_sessions cat) i")
  case (Some se)
  then show ?thesis using assms set_session_tamed [OF _ Some]
    by (simp add: suspend_session_def Let_def split: if_splits)
qed (use assms in \<open>simp add: suspend_session_def\<close>)

lemma revoke_tamed:
  assumes "map_of (cat_sessions (snd (revoke_session i cat))) j = Some u"
  shows "\<exists>v. map_of (cat_sessions cat) j = Some v \<and> tames v u"
proof (cases "map_of (cat_sessions cat) i")
  case (Some se)
  then show ?thesis using assms set_session_tamed [OF _ Some] by (simp add: revoke_session_def)
qed (use assms in \<open>simp add: revoke_session_def\<close>)

lemma map_of_expire_past:
  "map_of (expire_past_sessions_for_subject sid now ss) j =
     map_option (\<lambda>se. if subject_id se = sid then transition_expired_session now se else se) (map_of ss j)"
  by (simp add: expire_past_sessions_for_subject_def map_of_map_value)

lemma live_earlier: "live t' se \<Longrightarrow> t \<le> t' \<Longrightarrow> live t se"
  by (simp add: live_def)

lemma one_live_later: "one_live t cat \<Longrightarrow> t \<le> t' \<Longrightarrow> one_live t' cat"
  using live_earlier [of t'] unfolding one_live_def by metis

lemma start_one_live:
  assumes "one_live now cat"
  shows "one_live now (snd (start_session ulid now sid expires cat))"
proof -
  let ?ss = "expire_past_sessions_for_subject sid now (cat_sessions cat)"
  let ?cat = "cat\<lparr>cat_sessions := ?ss\<rparr>"
  have tamed: "map_of ?ss j = Some u \<Longrightarrow> \<exists>v. map_of (cat_sessions cat) j = Some v \<and> tames v u" for j u
    by (auto simp: map_of_expire_past split: if_splits)
  then have ol: "one_live now ?cat" using one_live_tamed [OF assms, of ?cat] by simp
  have other: "subject_id se \<noteq> sid \<or> \<not> live now se"
    if "\<not> list_ex (\<lambda>(_, se). subject_id se = sid \<and> sess_state se = SessActive \<and> now \<le> sess_expires_at se) ?ss"
      "map_of ?ss j = Some se" for j se
    using that map_of_SomeD [OF that(2)] by (fastforce simp: list_ex_iff live_def)
  show ?thesis
  proof (cases "map_of (cat_subjects cat) sid")
    case (Some subj)
    show ?thesis
    proof (cases "list_ex (\<lambda>(_, se). subject_id se = sid \<and> sess_state se = SessActive \<and> now \<le> sess_expires_at se) ?ss")
      case True
      then show ?thesis using Some ol by (simp add: start_session_def Let_def)
    next
      case False
      then show ?thesis
        using Some ol other [OF False] unfolding one_live_def
        by (auto simp: start_session_def Let_def AList.update_conv' split: if_splits)
    qed
  qed (use assms in \<open>simp add: start_session_def\<close>)
qed

lemma one_live_step:
  assumes "one_live now cat"
  shows "one_live now (catalog_step now c cat)"
proof (cases c)
  case (CatStart ulid sid expires)
  then show ?thesis using start_one_live [OF assms] by simp
next
  case (CatLookupSession i)
  then show ?thesis using one_live_tamed [OF assms lookup_tamed] by simp
next
  case (CatSuspend i)
  then show ?thesis using one_live_tamed [OF assms suspend_tamed] by simp
next
  case (CatRevoke i)
  then show ?thesis using one_live_tamed [OF assms revoke_tamed] by simp
next
  case (CatHydrate p)
  then show ?thesis using one_live_tamed [OF assms lookup_tamed] by (simp add: vault_hydrate_catalog)
qed (use assms in \<open>auto simp: one_live_def register_subject_def insert_subject_def add_to_group_def
    remove_from_group_def set_groups_def split: option.splits\<close>)

fun timely :: "instant \<Rightarrow> (instant \<times> catalog_call) list \<Rightarrow> bool" where
  "timely t [] = True"
| "timely t ((now, c) # cs) = (t \<le> now \<and> timely now cs)"

fun last_time :: "instant \<Rightarrow> (instant \<times> catalog_call) list \<Rightarrow> instant" where
  "last_time t [] = t"
| "last_time t ((now, c) # cs) = last_time now cs"

lemma one_live_run: "one_live t cat \<Longrightarrow> timely t cs \<Longrightarrow> one_live (last_time t cs) (catalog_run cs cat)"
proof (induction cs arbitrary: t cat)
  case (Cons nc cs)
  obtain now c where nc: "nc = (now, c)" by (cases nc)
  have "one_live now cat" using Cons.prems one_live_later nc by auto
  then show ?case using Cons.IH [OF one_live_step] Cons.prems(2) nc by simp
qed simp

text \<open>
  One session at a time. From a catalog without sessions, after any calls whose clock does not run
  backwards, no subject has two sessions that are active and unexpired, now or at any later instant.
\<close>

theorem one_live_session_per_subject:
  assumes "timely t cs" and "last_time t cs \<le> later"
  shows "one_live later (catalog_run cs (catalog_with_fixtures t0))"
proof -
  have "cat_sessions (fold insert_subject xs cat) = cat_sessions cat" for xs cat
    by (induction xs arbitrary: cat) (auto simp: insert_subject_def)
  then have "one_live t (catalog_with_fixtures t0)"
    by (simp add: one_live_def catalog_with_fixtures_def catalog_new_def)
  then show ?thesis
    using one_live_run [OF _ assms(1)] one_live_later assms(2) by blast
qed

section \<open>The policy kernel's hydrator\<close>

lemma hydrate_by_session_eq:
  "fst (hydrate_by_session now i cat) =
     (case map_of (cat_sessions cat) i of
        None \<Rightarrow> Err (session_not_found i)
      | Some se \<Rightarrow>
          if live now se then hydrate_by_canonical_id (subject_id se) cat
          else if sess_state se = SessExpired \<or> sess_state se \<noteq> SessRevoked \<and> sess_expires_at se < now
          then Err (SessionExpired i) else Err (session_not_active i))"
  by (auto simp: hydrate_by_session_def lookup_session_def Let_def transition_expired_session_def live_def
      hydrate_by_canonical_id_def lookup_subject_def snapshot_for_subject_def groups_for_subject_def set_session_def
      split: option.splits session_state.splits)

definition known_subject :: "string \<Rightarrow> identity_catalog \<Rightarrow> (policy_error, hydrated_subject) result" where
  "known_subject sid cat =
     (case map_of (cat_subjects cat) sid of
        None \<Rightarrow> Err SubjectUnauthenticated
      | Some subj \<Rightarrow> Ok (hydrated_from_snapshot (snapshot_for_subject subj cat)))"

lemma canonical_keeps_sessions:
  "hydrate_by_canonical_id sid (snd (lookup_session now i cat)) = hydrate_by_canonical_id sid cat"
  by (auto simp: hydrate_by_canonical_id_def lookup_subject_def snapshot_for_subject_def groups_for_subject_def
      session_calls_keep)

lemma vault_hydrate_eq:
  "fst (vault_hydrate now p cat) =
     (case map_of (cat_sessions cat) p of
        None \<Rightarrow> known_subject p cat
      | Some se \<Rightarrow> if live now se then known_subject (subject_id se) cat else Err SubjectUnauthenticated)"
proof -
  have c: "(case hydrate_by_canonical_id sid cat of Inl _ \<Rightarrow> Err SubjectUnauthenticated
      | Inr sn \<Rightarrow> Ok (hydrated_from_snapshot sn)) = known_subject sid cat" for sid
    by (auto simp: hydrate_by_canonical_id_def lookup_subject_def known_subject_def split: option.splits)
  obtain r cat' where h: "hydrate_by_session now p cat = (r, cat')" by fastforce
  have r: "r = fst (hydrate_by_session now p cat)" and cat': "cat' = snd (lookup_session now p cat)"
    using h hydrate_session_catalog [of now p cat] by simp_all
  have no: "\<not> should_try_canonical_lookup (session_not_active p)" "\<not> should_try_canonical_lookup (SessionExpired p)"
      "\<not> should_try_canonical_lookup (SubjectNotFound q)" "should_try_canonical_lookup (session_not_found p)" for q
    by (simp_all add: should_try_canonical_lookup_def session_not_active_def session_not_found_def)
  show ?thesis
    unfolding vault_hydrate_def h prod.case cat' canonical_keeps_sessions
    using r c no
    by (auto simp: hydrate_by_session_eq hydrate_by_canonical_id_def lookup_subject_def known_subject_def
        split: option.splits sum.splits if_splits)
qed

interpretation vph: subject_hydrator "\<lambda>now p. fst (vault_hydrate now p cat)" for cat
proof
  show "fst (vault_hydrate now p cat) = Err e \<Longrightarrow> e = SubjectUnauthenticated" for now p e
    by (auto simp: vault_hydrate_eq known_subject_def split: option.splits if_splits)
  show "fst (vault_hydrate later p cat) = Err e"
    if "fst (vault_hydrate now p cat) = Err e" "now \<le> later" for now p e later
    using that live_earlier by (auto simp: vault_hydrate_eq known_subject_def split: option.splits if_splits)
  show "fst (vault_hydrate now p cat) = Ok s \<Longrightarrow> fst (vault_hydrate later p cat) = Ok s' \<Longrightarrow> s' = s"
    for now p s later s'
    by (auto simp: vault_hydrate_eq split: option.splits if_splits)
qed

section \<open>Ended sessions\<close>

fun starts :: "string \<Rightarrow> catalog_call \<Rightarrow> bool" where
  "starts i (CatStart ulid sid expires) = (''sess_'' @ ulid = i)"
| "starts i _ = False"

definition session_after :: "session \<Rightarrow> string \<Rightarrow> identity_catalog \<Rightarrow> bool" where
  "session_after se i cat \<longleftrightarrow> (\<exists>se'. map_of (cat_sessions cat) i = Some se' \<and> tames se se')"

lemma session_after_same: "map_of (cat_sessions cat) i = Some se \<Longrightarrow> cat_sessions cat' = cat_sessions cat \<Longrightarrow>
    session_after se i cat'"
  by (auto simp: session_after_def)

lemma session_after_set:
  assumes "map_of (cat_sessions cat) i = Some se" and "map_of (cat_sessions cat) j = Some u" and "tames u u'"
  shows "session_after se i (set_session j u' cat)"
  using assms by (cases "i = j") (auto simp: session_after_def set_session_def AList.update_conv')

lemma session_after_lookup:
  assumes "map_of (cat_sessions cat) i = Some se"
  shows "session_after se i (snd (lookup_session now j cat))"
proof (cases "map_of (cat_sessions cat) j")
  case (Some u)
  then show ?thesis using session_after_set [OF assms Some] by (simp add: lookup_session_def Let_def)
qed (use assms in \<open>simp add: lookup_session_def session_after_same\<close>)

lemma session_after_start:
  assumes "map_of (cat_sessions cat) i = Some se" and "''sess_'' @ ulid \<noteq> i"
  shows "session_after se i (snd (start_session ulid now sid expires cat))"
  using assms
  by (auto simp: start_session_def Let_def session_after_def map_of_expire_past AList.update_conv' split: option.splits)

lemma session_after_step:
  assumes "map_of (cat_sessions cat) i = Some se" and "\<not> starts i c"
  shows "session_after se i (catalog_step now c cat)"
proof (cases c)
  case (CatStart ulid sid expires)
  then show ?thesis using session_after_start [OF assms(1)] assms(2) by simp
next
  case (CatSuspend j)
  then show ?thesis
    using assms(1) session_after_set [OF assms(1), of j]
    by (auto simp: suspend_session_def Let_def session_after_same split: option.splits)
next
  case (CatRevoke j)
  then show ?thesis
    using assms(1) session_after_set [OF assms(1), of j]
    by (auto simp: revoke_session_def session_after_same split: option.splits)
qed (use assms session_after_lookup [OF assms(1)] in \<open>auto simp: vault_hydrate_catalog register_subject_def
    insert_subject_def add_to_group_def remove_from_group_def set_groups_def session_after_same split: option.splits\<close>)

lemma session_after_run:
  assumes "map_of (cat_sessions cat) i = Some se" and "list_all (\<lambda>(_, c). \<not> starts i c) cs"
  shows "session_after se i (catalog_run cs cat)"
  using assms
proof (induction cs arbitrary: cat se)
  case Nil
  then show ?case by (simp add: session_after_def)
next
  case (Cons nc cs)
  obtain now c where nc: "nc = (now, c)" by (cases nc)
  obtain se1 where se1: "map_of (cat_sessions (catalog_step now c cat)) i = Some se1" "tames se se1"
    using session_after_step [OF Cons.prems(1), of c now] Cons.prems(2) nc by (auto simp: session_after_def)
  have "session_after se1 i (catalog_run cs (catalog_step now c cat))"
    using Cons.IH [OF se1(1)] Cons.prems(2) by simp
  then show ?case using se1(2) nc by (auto simp: session_after_def tames_def)
qed

text \<open>
  Ended sessions stay ended. Once a session is revoked, suspended, expired or past its expiry, its
  identifier authenticates nobody at any later instant, whatever is called on the catalog in
  between, as long as the identifier itself is not generated again.
\<close>

theorem ended_session_never_hydrates:
  assumes "map_of (cat_sessions cat) i = Some se" and "\<not> live t se"
    and "list_all (\<lambda>(_, c). \<not> starts i c) cs" and "t \<le> later"
  shows "fst (vault_hydrate later i (catalog_run cs cat)) = Err SubjectUnauthenticated"
proof -
  obtain se' where "map_of (cat_sessions (catalog_run cs cat)) i = Some se'" "tames se se'"
    using session_after_run [OF assms(1,3)] by (auto simp: session_after_def)
  moreover from this have "\<not> live later se'"
    using assms(2,4) live_earlier by (auto simp: tames_def)
  ultimately show ?thesis by (simp add: vault_hydrate_eq)
qed

section \<open>Witnesses and departures\<close>

definition sample_catalog_calls :: "(instant \<times> catalog_call) list" where
  "sample_catalog_calls =
     [(1, CatStart ''A'' ''family:alice'' 5), (2, CatStart ''B'' ''family:alice'' 9),
      (6, CatStart ''C'' ''family:alice'' 9), (7, CatJoin ''family:alice'' ''admins'')]"

definition sample_catalog :: identity_catalog where
  "sample_catalog = catalog_run sample_catalog_calls (catalog_with_fixtures 0)"

lemma sample_catalog_sessions:
  "map_of (cat_sessions sample_catalog) ''sess_A'' = Some \<lparr>session_id = ''sess_A'', subject_id = ''family:alice'',
     started_at = 1, sess_expires_at = 5, sess_state = SessExpired\<rparr>"
  "map_of (cat_sessions sample_catalog) ''sess_B'' = None"
  "map_of (cat_sessions sample_catalog) ''sess_C'' = Some \<lparr>session_id = ''sess_C'', subject_id = ''family:alice'',
     started_at = 6, sess_expires_at = 9, sess_state = SessActive\<rparr>"
  "map_of (cat_subjects sample_catalog) ''family:alice'' = Some \<lparr>vsub_id = ''family:alice'', vsub_type = VHuman,
     provisional_name = ''Alice'', vsub_groups = [''family'', ''admins''], vsub_is_ai = False, vsub_created_at = 0\<rparr>"
  by (simp_all add: sample_catalog_def sample_catalog_calls_def catalog_with_fixtures_def fixture_subjects_def
      insert_subject_def catalog_new_def start_session_def Let_def expire_past_sessions_for_subject_def
      transition_expired_session_def add_to_group_def set_groups_def)

theorem hydrated_groups_are_the_registered_ones_witness:
  "map_sum id hss_groups (hydrate_by_canonical_id ''family:alice'' sample_catalog) = Ok [''admins'', ''family'']"
  using hydrated_groups_are_the_registered_ones [of "catalog_with_fixtures 0" 0 sample_catalog_calls "''family:alice''",
      folded sample_catalog_def]
  by (simp add: lookup_subject_def sample_catalog_sessions sample_catalog_calls_def)

theorem one_live_session_per_subject_witness:
  "map_of (cat_sessions sample_catalog) ''sess_B'' = None \<and> one_live 8 sample_catalog"
  using one_live_session_per_subject [of 0 sample_catalog_calls 8 0, folded sample_catalog_def]
  by (simp add: sample_catalog_calls_def sample_catalog_sessions)

theorem ended_session_never_hydrates_witness:
  "fst (vault_hydrate 8 ''sess_A'' (catalog_run [(7, CatRevoke ''sess_C'')] sample_catalog)) = Err SubjectUnauthenticated"
  by (rule ended_session_never_hydrates [OF sample_catalog_sessions(1), where t = 8]) (simp_all add: live_def)

text \<open>
  Ending a subject's sessions does not stop the subject: the adapter falls back to the canonical
  identifier, which needs no session.
\<close>

lemma subject_without_session_hydrates:
  "fst (vault_hydrate 8 ''sess_C'' (snd (revoke_session ''sess_C'' sample_catalog))) = Err SubjectUnauthenticated \<and>
   map_sum id canonical_subject_id (fst (vault_hydrate 8 ''family:alice'' (snd (revoke_session ''sess_C'' sample_catalog)))) =
     Ok ''family:alice''"
proof -
  have "map_of (cat_sessions sample_catalog) ''family:alice'' = None"
    by (simp add: sample_catalog_def sample_catalog_calls_def catalog_with_fixtures_def fixture_subjects_def
      insert_subject_def catalog_new_def start_session_def Let_def expire_past_sessions_for_subject_def
      transition_expired_session_def add_to_group_def set_groups_def)
  then show ?thesis
    by (simp add: vault_hydrate_eq revoke_session_def sample_catalog_sessions set_session_def AList.update_conv'
      live_def known_subject_def hydrated_from_snapshot_def snapshot_for_subject_def)
qed

text \<open>
  A subject registered with a group listed twice: leaving the group removes one occurrence from the
  record and the subject from the index, so the record still names the group and hydration does not.
\<close>

lemma repeated_group_splits_the_records:
  "let subj = \<lparr>vsub_id = ''h:b'', vsub_type = VHuman, provisional_name = ''B'', vsub_groups = [''g'', ''g''],
         vsub_is_ai = False, vsub_created_at = 0\<rparr>;
       cat = snd (remove_from_group ''h:b'' ''g'' (snd (register_subject subj catalog_new)))
   in map_sum id vsub_groups (lookup_subject ''h:b'' cat) = Ok [''g''] \<and>
      map_sum id hss_groups (hydrate_by_canonical_id ''h:b'' cat) = Ok []"
  by (simp add: remove_from_group_def register_subject_def catalog_new_def insert_subject_def index_memberships_def
      join_group_def set_groups_def lookup_subject_def hydrate_by_canonical_id_def snapshot_for_subject_def
      groups_for_subject_def Let_def)

end
