(* ===== verification/Vault_Override.thy ===== *)
theory Vault_Override
  imports Vault_Identity Policy_Override Runtime_Approval
begin

text \<open>
  The override broker of the vault (\<open>override_broker.rs\<close>) and the boundary that answers the policy side
  from it (\<open>integration.rs\<close>). A call takes the write lock for its whole decision, so a call is one
  step; the identifier of a new binding and the instant of the call are arguments, and a grant reads the identity
  catalog as it is at that moment. The consumption of a binding is a second interpretation of
  the locale \<open>single_use\<close>.
\<close>

section \<open>State\<close>

record override_broker =
  ov_bindings :: "(string \<times> override_binding) list"
  ov_chain :: "evidence_receipt list"

definition override_broker_new :: override_broker where
  "override_broker_new = \<lparr>ov_bindings = [], ov_chain = []\<rparr>"

record grant_override_request =
  go_class :: override_class
  go_granted_by :: "string list"
  go_target_action_id :: "string option"
  go_expires_at :: instant
  go_reason :: string

text \<open>The broker's optional evidence emitter.\<close>

definition ov_emit ::
    "('sk, 'vk) vault_emitter option \<Rightarrow> (('sk, 'vk) vault_emitter \<Rightarrow> emission) \<Rightarrow> 'a \<Rightarrow> override_broker \<Rightarrow>
     (vault_error, 'a) result \<times> override_broker" where
  "ov_emit em f a br =
     (case em of
        None \<Rightarrow> (Ok a, br)
      | Some e \<Rightarrow> (case f e (ov_chain br) of
                    (Inl x, chain') \<Rightarrow> (Err x, br\<lparr>ov_chain := chain'\<rparr>)
                  | (Inr _, chain') \<Rightarrow> (Ok a, br\<lparr>ov_chain := chain'\<rparr>)))"

definition ov_put :: "string \<Rightarrow> override_binding \<Rightarrow> override_broker \<Rightarrow> override_broker" where
  "ov_put bid b br = br\<lparr>ov_bindings := AList.update bid b (ov_bindings br)\<rparr>"

section \<open>Granting\<close>

fun expected_approver_count :: "override_class \<Rightarrow> u32" where
  "expected_approver_count StrongSolo = 1"
| "expected_approver_count DualHuman = 2"
| "expected_approver_count TripleHuman = 3"

definition count_to_u32 :: "nat \<Rightarrow> u32" where
  "count_to_u32 n = (if n < 2 ^ 32 then of_nat n else - 1)"

definition validate_approver_count :: "override_class \<Rightarrow> nat \<Rightarrow> (vault_error, unit) result" where
  "validate_approver_count cls found =
     (if count_to_u32 found = expected_approver_count cls then Ok ()
      else Err (OverrideClassApproverCountMismatch cls (expected_approver_count cls) (count_to_u32 found)))"

fun lookup_granting_subjects :: "string list \<Rightarrow> identity_catalog \<Rightarrow> (vault_error, vault_subject list) result" where
  "lookup_granting_subjects [] cat = Ok []"
| "lookup_granting_subjects (g # gs) cat =
     try_then (lookup_subject g cat) (\<lambda>s.
       try_then (lookup_granting_subjects gs cat) (\<lambda>ss. Ok (s # ss)))"

definition reject_ai_granting_subjects :: "vault_subject list \<Rightarrow> (vault_error, unit) result" where
  "reject_ai_granting_subjects ss =
     (case find (\<lambda>s. vsub_type s \<in> {VAgent, VApplication}) ss of
        Some s \<Rightarrow> Err (AiCannotGrantOverride (vsub_id s))
      | None \<Rightarrow> Ok ())"

definition validate_human_approvers :: "override_class \<Rightarrow> vault_subject list \<Rightarrow> (vault_error, unit) result" where
  "validate_human_approvers cls ss =
     (let found_non_human = map vsub_id (filter (\<lambda>s. vsub_type s \<noteq> VHuman) ss)
      in if found_non_human = [] then Ok () else Err (OverrideRequiresHumanApprovers cls found_non_human))"

definition granted_binding :: "string \<Rightarrow> instant \<Rightarrow> grant_override_request \<Rightarrow> override_binding" where
  "granted_binding ulid now req =
     \<lparr>ob_id = ''ovr_'' @ ulid, ob_class = go_class req, ob_granted_by = go_granted_by req, ob_granted_at = now,
      ob_expires_at = go_expires_at req, target_action_id = go_target_action_id req, ob_state = OvGranted\<rparr>"

definition grant_checks :: "grant_override_request \<Rightarrow> identity_catalog \<Rightarrow> (vault_error, unit) result" where
  "grant_checks req cat =
     try_then (validate_approver_count (go_class req) (length (go_granted_by req))) (\<lambda>_.
     try_then (lookup_granting_subjects (go_granted_by req) cat) (\<lambda>ss.
     try_then (reject_ai_granting_subjects ss) (\<lambda>_.
     validate_human_approvers (go_class req) ss)))"

definition grant_override ::
    "('sk, 'vk) vault_emitter option \<Rightarrow> string \<Rightarrow> instant \<Rightarrow> identity_catalog \<Rightarrow> grant_override_request \<Rightarrow>
     override_broker \<Rightarrow> (vault_error, override_binding) result \<times> override_broker" where
  "grant_override em ulid now cat req br =
     (case grant_checks req cat of
        Inl e \<Rightarrow> (Err e, br)
      | Inr _ \<Rightarrow>
          let b = granted_binding ulid now req
          in ov_emit em (\<lambda>e. emit_override_granted e b None) b (ov_put (ob_id b) b br))"

section \<open>Consuming, revoking, reading\<close>

definition consume_override ::
    "('sk, 'vk) vault_emitter option \<Rightarrow> instant \<Rightarrow> string \<Rightarrow> string \<Rightarrow> override_broker \<Rightarrow>
     (vault_error, override_binding) result \<times> override_broker" where
  "consume_override em now bid who br =
     (case map_of (ov_bindings br) bid of
        None \<Rightarrow> (Err (OverrideBindingNotFound bid), br)
      | Some b \<Rightarrow>
          (case ob_state b of
             OvConsumed \<Rightarrow> (Err OverrideAlreadyConsumed, br)
           | OvExpired \<Rightarrow> (Err (OverrideExpired bid), br)
           | OvRevoked \<Rightarrow> (Err (VaultInternal (''override binding revoked: '' @ bid)), br)
           | OvGranted \<Rightarrow>
               if ob_expires_at b \<le> now
               then (Err (OverrideExpired bid), ov_put bid (b\<lparr>ob_state := OvExpired\<rparr>) br)
               else
                 let b' = b\<lparr>ob_state := OvConsumed\<rparr>
                 in ov_emit em (\<lambda>e. emit_override_consumed e now (ob_id b') who None) b' (ov_put bid b' br)))"

definition revoke_override ::
    "('sk, 'vk) vault_emitter option \<Rightarrow> instant \<Rightarrow> string \<Rightarrow> string \<Rightarrow> override_broker \<Rightarrow>
     (vault_error, unit) result \<times> override_broker" where
  "revoke_override em now bid who br =
     (case map_of (ov_bindings br) bid of
        None \<Rightarrow> (Err (OverrideBindingNotFound bid), br)
      | Some b \<Rightarrow>
          ov_emit em (\<lambda>e. emit_override_revoked e now bid who None) () (ov_put bid (b\<lparr>ob_state := OvRevoked\<rparr>) br))"

definition transition_expired_binding :: "instant \<Rightarrow> override_binding \<Rightarrow> override_binding" where
  "transition_expired_binding now b =
     (if ob_state b = OvGranted \<and> ob_expires_at b \<le> now then b\<lparr>ob_state := OvExpired\<rparr> else b)"

definition lookup_override ::
    "instant \<Rightarrow> string \<Rightarrow> override_broker \<Rightarrow> (vault_error, override_binding) result \<times> override_broker" where
  "lookup_override now bid br =
     (case map_of (ov_bindings br) bid of
        None \<Rightarrow> (Err (OverrideBindingNotFound bid), br)
      | Some b \<Rightarrow> let b' = transition_expired_binding now b in (Ok b', ov_put bid b' br))"

definition expire_bindings :: "instant \<Rightarrow> override_broker \<Rightarrow> override_broker" where
  "expire_bindings now br =
     br\<lparr>ov_bindings := map (\<lambda>(i, b). (i, transition_expired_binding now b)) (ov_bindings br)\<rparr>"

definition list_overrides :: "instant \<Rightarrow> override_broker \<Rightarrow> override_binding list \<times> override_broker" where
  "list_overrides now br =
     (let br' = expire_bindings now br in (sort_key ob_id (map snd (ov_bindings br')), br'))"

definition list_overrides_for_subject ::
    "instant \<Rightarrow> string \<Rightarrow> override_broker \<Rightarrow> override_binding list \<times> override_broker" where
  "list_overrides_for_subject now who br =
     (let br' = expire_bindings now br
      in (sort_key ob_id (filter (\<lambda>b. list_ex (\<lambda>g. g = who) (ob_granted_by b)) (map snd (ov_bindings br'))), br'))"

section \<open>The policy side\<close>

fun join_commas :: "string list \<Rightarrow> string" where
  "join_commas [] = []"
| "join_commas [g] = g"
| "join_commas (g # gs) = g @ '','' @ join_commas gs"

definition emergency_override_from :: "override_binding \<Rightarrow> emergency_override" where
  "emergency_override_from b =
     \<lparr>override_id = ob_id b, granted_by_subject_id = join_commas (ob_granted_by b), granted_at = ob_granted_at b,
      eo_expires_at = ob_expires_at b,
      eo_scope = \<lparr>os_rule_id = [],
        os_action = (case target_action_id b of None \<Rightarrow> [] | Some a \<Rightarrow> a), os_subjects = []\<rparr>,
      eo_reason = ''vault override binding class='' @ override_class_token (ob_class b),
      revoked = (ob_state b \<noteq> OvGranted)\<rparr>"

definition binding_matches_action :: "override_binding \<Rightarrow> string \<Rightarrow> instant \<Rightarrow> bool" where
  "binding_matches_action b act now \<longleftrightarrow>
     ob_state b = OvGranted \<and> now < ob_expires_at b \<and>
     (case target_action_id b of None \<Rightarrow> True | Some a \<Rightarrow> a = act)"

definition vault_is_overridden_at ::
    "instant \<Rightarrow> string \<Rightarrow> string \<Rightarrow> instant \<Rightarrow> override_broker \<Rightarrow> emergency_override option \<times> override_broker" where
  "vault_is_overridden_at clock act subj now br =
     (let (bs, br') = list_overrides clock br
      in (map_option emergency_override_from (find (\<lambda>b. binding_matches_action b act now) bs), br'))"

definition vault_is_overridden ::
    "instant \<Rightarrow> instant \<Rightarrow> string \<Rightarrow> string \<Rightarrow> override_broker \<Rightarrow> emergency_override option \<times> override_broker" where
  "vault_is_overridden now clock act subj br = vault_is_overridden_at clock act subj now br"

section \<open>Calls\<close>

datatype override_call =
    OvGrant string instant identity_catalog grant_override_request
  | OvConsume instant string string
  | OvRevoke instant string string
  | OvLookup instant string
  | OvList instant
  | OvListFor instant string
  | OvCheck instant string string instant

fun override_step :: "('sk, 'vk) vault_emitter option \<Rightarrow> override_call \<Rightarrow> override_broker \<Rightarrow> override_broker" where
  "override_step em (OvGrant ulid now cat req) br = snd (grant_override em ulid now cat req br)"
| "override_step em (OvConsume now bid who) br = snd (consume_override em now bid who br)"
| "override_step em (OvRevoke now bid who) br = snd (revoke_override em now bid who br)"
| "override_step em (OvLookup now bid) br = snd (lookup_override now bid br)"
| "override_step em (OvList now) br = snd (list_overrides now br)"
| "override_step em (OvListFor now who) br = snd (list_overrides_for_subject now who br)"
| "override_step em (OvCheck clock act subj now) br = snd (vault_is_overridden_at clock act subj now br)"

text \<open>The binding a call hands out for one overridden action, and the one it creates.\<close>

fun override_uses :: "('sk, 'vk) vault_emitter option \<Rightarrow> override_call \<Rightarrow> override_broker \<Rightarrow> string option" where
  "override_uses em (OvConsume now bid who) br =
     (case fst (consume_override em now bid who br) of Inl _ \<Rightarrow> None | Inr b \<Rightarrow> Some bid)"
| "override_uses em _ br = None"

fun override_mints :: "override_call \<Rightarrow> override_broker \<Rightarrow> string option" where
  "override_mints (OvGrant ulid now cat req) br =
     (case grant_checks req cat of Inl _ \<Rightarrow> None | Inr _ \<Rightarrow> Some (''ovr_'' @ ulid))"
| "override_mints _ br = None"

section \<open>Single use\<close>

definition override_usable :: "override_broker \<Rightarrow> string \<Rightarrow> bool" where
  "override_usable br bid \<longleftrightarrow> (case map_of (ov_bindings br) bid of None \<Rightarrow> False | Some b \<Rightarrow> ob_state b = OvGranted)"

lemma ov_emit_bindings [simp]: "ov_bindings (snd (ov_emit em f a br)) = ov_bindings br"
  by (auto simp: ov_emit_def split: option.splits prod.splits sum.splits)

lemma ov_emit_Ok: "fst (ov_emit em f a br) = Inr v \<Longrightarrow> v = a"
  by (auto simp: ov_emit_def split: option.splits prod.splits sum.splits)

lemma ov_put_bindings [simp]: "map_of (ov_bindings (ov_put bid b br)) = (map_of (ov_bindings br))(bid \<mapsto> b)"
  by (simp add: ov_put_def AList.update_conv')

lemma expire_bindings_lookup:
  "map_of (ov_bindings (expire_bindings now br)) bid = map_option (transition_expired_binding now) (map_of (ov_bindings br) bid)"
  by (simp add: expire_bindings_def map_of_map_value)

lemma transition_granted: "ob_state (transition_expired_binding now b) = OvGranted \<Longrightarrow> ob_state b = OvGranted"
  by (auto simp: transition_expired_binding_def split: if_splits)

lemma list_overrides_broker:
  "snd (list_overrides now br) = expire_bindings now br"
  "snd (list_overrides_for_subject now who br) = expire_bindings now br"
  "snd (vault_is_overridden_at now act subj t br) = expire_bindings now br"
  by (simp_all add: list_overrides_def list_overrides_for_subject_def vault_is_overridden_at_def Let_def)

lemma expire_usable: "override_usable (expire_bindings now br) bid \<Longrightarrow> override_usable br bid"
  by (auto simp: override_usable_def expire_bindings_lookup split: option.splits dest: transition_granted)

lemma consume_Ok:
  assumes "fst (consume_override em now bid who br) = Inr b"
  obtains g where "map_of (ov_bindings br) bid = Some g" "ob_state g = OvGranted" "now < ob_expires_at g"
    "b = g\<lparr>ob_state := OvConsumed\<rparr>"
    "map_of (ov_bindings (snd (consume_override em now bid who br))) bid = Some b"
  using assms
  by (auto simp: consume_override_def Let_def split: option.splits override_binding_state.splits if_splits
      dest: ov_emit_Ok)

interpretation ovr: single_use override_usable "override_step em" "override_uses em" override_mints for em
proof unfold_locales
  fix op br b
  assume use: "override_uses em op br = Some b"
  then obtain now who v where op: "op = OvConsume now b who" and v: "fst (consume_override em now b who br) = Inr v"
    by (cases op) (auto split: sum.splits)
  then show "override_usable br b \<and> \<not> override_usable (override_step em op br) b"
    using consume_Ok [OF v] by (fastforce simp: override_usable_def)
next
  fix op br b
  assume "override_usable (override_step em op br) b"
  then show "override_usable br b \<or> override_mints op br = Some b"
    by (cases op)
      (auto simp: list_overrides_broker grant_override_def granted_binding_def consume_override_def revoke_override_def
        lookup_override_def override_usable_def expire_bindings_lookup Let_def
        split: option.splits sum.splits override_binding_state.splits if_splits dest: transition_granted)
qed

text \<open>
  An override is consumed at most once. In any sequence of calls in which no binding identifier is
  generated twice, the bindings that \<open>consume_override\<close> hands out are distinct.
\<close>

theorem override_consumed_once:
  assumes "distinct (collect_run (override_step em) override_mints ops override_broker_new)"
  shows "distinct (collect_run (override_step em) (override_uses em) ops override_broker_new)"
  by (rule ovr.used_once [OF assms]) (simp add: override_usable_def override_broker_new_def)

section \<open>Who granted an override\<close>

lemma lookup_granting_all:
  "lookup_granting_subjects gs cat = Inr ss \<Longrightarrow>
     length ss = length gs \<and> list_all2 (\<lambda>g s. map_of (cat_subjects cat) g = Some s) gs ss"
  by (induction gs arbitrary: ss) (auto simp: result_simps lookup_subject_def split: option.splits)

definition human_quorum :: "override_class \<Rightarrow> string list \<Rightarrow> identity_catalog \<Rightarrow> bool" where
  "human_quorum cls gs cat \<longleftrightarrow>
     length gs = unat (expected_approver_count cls) \<and>
     list_all (\<lambda>g. case map_of (cat_subjects cat) g of None \<Rightarrow> False | Some s \<Rightarrow> vsub_type s = VHuman) gs"

lemma count_to_u32_eq:
  "count_to_u32 n = expected_approver_count cls \<longleftrightarrow> n = unat (expected_approver_count cls)"
proof -
  have small: "unat (expected_approver_count cls) \<le> 3" by (cases cls) simp_all
  show ?thesis
  proof (cases "n < 2 ^ 32")
    case True
    then have "unat (of_nat n :: u32) = n" by (simp add: unsigned_of_nat take_bit_nat_eq_self)
    then show ?thesis using True by (metis count_to_u32_def word_unat_eq_iff)
  next
    case False
    moreover have "(- 1 :: u32) \<noteq> expected_approver_count cls" by (cases cls) simp_all
    ultimately show ?thesis using small by (auto simp: count_to_u32_def)
  qed
qed

lemma grant_checks_iff: "grant_checks req cat = Inr () \<longleftrightarrow> human_quorum (go_class req) (go_granted_by req) cat"
proof
  assume "grant_checks req cat = Inr ()"
  then obtain ss where c: "length (go_granted_by req) = unat (expected_approver_count (go_class req))"
      and ss: "lookup_granting_subjects (go_granted_by req) cat = Inr ss"
      and h: "filter (\<lambda>s. vsub_type s \<noteq> VHuman) ss = []"
    by (auto simp: grant_checks_def result_simps validate_approver_count_def count_to_u32_eq validate_human_approvers_def
        Let_def split: if_splits)
  have "list_all2 (\<lambda>g s. map_of (cat_subjects cat) g = Some s) (go_granted_by req) ss"
    using lookup_granting_all [OF ss] by simp
  then have "list_all (\<lambda>g. case map_of (cat_subjects cat) g of None \<Rightarrow> False | Some s \<Rightarrow> vsub_type s = VHuman) (go_granted_by req)"
    using h by (induction rule: list_all2_induct) (auto split: if_splits)
  with c show "human_quorum (go_class req) (go_granted_by req) cat" by (simp add: human_quorum_def)
next
  assume q: "human_quorum (go_class req) (go_granted_by req) cat"
  have "\<exists>ss. lookup_granting_subjects gs cat = Inr ss \<and> (\<forall>s \<in> set ss. vsub_type s = VHuman)"
    if "list_all (\<lambda>g. case map_of (cat_subjects cat) g of None \<Rightarrow> False | Some s \<Rightarrow> vsub_type s = VHuman) gs" for gs
    using that by (induction gs) (auto simp: lookup_subject_def split: option.splits)
  then obtain ss where "lookup_granting_subjects (go_granted_by req) cat = Inr ss" and h: "\<forall>s \<in> set ss. vsub_type s = VHuman"
    using q unfolding human_quorum_def by blast
  moreover have "find (\<lambda>s. vsub_type s = VAgent \<or> vsub_type s = VApplication) ss = None"
    using h by (auto simp: find_eq_None_iff)
  moreover have "filter (\<lambda>s. vsub_type s \<noteq> VHuman) ss = []" using h by (auto simp: filter_empty_conv)
  ultimately show "grant_checks req cat = Inr ()"
    using q by (simp add: grant_checks_def validate_approver_count_def human_quorum_def count_to_u32_eq
        reject_ai_granting_subjects_def validate_human_approvers_def Let_def)
qed

text \<open>A binding is traced when the calls so far contain the grant that made it.\<close>

definition override_traced :: "override_call list \<Rightarrow> string \<Rightarrow> override_binding \<Rightarrow> bool" where
  "override_traced ops bid b \<longleftrightarrow>
     (\<exists>ulid now cat req. OvGrant ulid now cat req \<in> set ops \<and> human_quorum (go_class req) (go_granted_by req) cat \<and>
        bid = ''ovr_'' @ ulid \<and> b\<lparr>ob_state := OvGranted\<rparr> = granted_binding ulid now req)"

lemma override_traced_mono: "override_traced ops bid b \<Longrightarrow> override_traced (ops @ ops') bid b"
  unfolding override_traced_def by (metis Un_iff set_append)

lemma override_traced_state [simp]: "override_traced ops bid (b\<lparr>ob_state := st\<rparr>) = override_traced ops bid b"
  by (simp add: override_traced_def)

lemma override_traced_transition [simp]:
  "override_traced ops bid (transition_expired_binding now b) = override_traced ops bid b"
  by (simp add: transition_expired_binding_def)

definition all_traced :: "override_call list \<Rightarrow> override_broker \<Rightarrow> bool" where
  "all_traced ops br \<longleftrightarrow> (\<forall>bid b. map_of (ov_bindings br) bid = Some b \<longrightarrow> override_traced ops bid b)"

lemma all_traced_put:
  "all_traced ops br \<Longrightarrow> override_traced ops bid b \<Longrightarrow> all_traced ops (ov_put bid b br)"
  by (simp add: all_traced_def)

lemma all_traced_bindings: "ov_bindings br' = ov_bindings br \<Longrightarrow> all_traced ops br' = all_traced ops br"
  by (simp add: all_traced_def)

lemma all_traced_expire: "all_traced ops br \<Longrightarrow> all_traced ops (expire_bindings now br)"
  by (auto simp: all_traced_def expire_bindings_lookup)

lemma all_traced_grant:
  assumes "all_traced ops br"
  shows "all_traced (ops @ [OvGrant ulid now cat req]) (snd (grant_override em ulid now cat req br))"
proof (cases "grant_checks req cat")
  case (Inl e)
  then show ?thesis using assms by (auto simp: grant_override_def all_traced_def intro: override_traced_mono)
next
  case (Inr u)
  let ?b = "granted_binding ulid now req"
  have q: "human_quorum (go_class req) (go_granted_by req) cat" using Inr by (simp add: grant_checks_iff)
  have "override_traced (ops @ [OvGrant ulid now cat req]) (ob_id ?b) ?b"
    unfolding override_traced_def
    by (rule exI [of _ ulid], rule exI [of _ now], rule exI [of _ cat], rule exI [of _ req])
      (use q in \<open>simp add: granted_binding_def\<close>)
  moreover have "all_traced (ops @ [OvGrant ulid now cat req]) br"
    using assms by (auto simp: all_traced_def intro: override_traced_mono)
  ultimately have "all_traced (ops @ [OvGrant ulid now cat req]) (ov_put (ob_id ?b) ?b br)"
    by (intro all_traced_put)
  then show ?thesis using Inr by (simp add: grant_override_def Let_def all_traced_bindings [OF ov_emit_bindings])
qed

lemma all_traced_step:
  assumes "all_traced ops br"
  shows "all_traced (ops @ [op]) (override_step em op br)"
proof -
  have *: "all_traced (ops @ [op]) br"
    using assms by (auto simp: all_traced_def intro: override_traced_mono)
  then have b: "map_of (ov_bindings br) bid = Some b \<Longrightarrow> override_traced (ops @ [op]) bid b" for bid b
    by (simp add: all_traced_def)
  show ?thesis
  proof (cases op)
    case (OvGrant ulid now cat req)
    then show ?thesis using all_traced_grant [OF assms] by simp
  next
    case (OvConsume now bid who)
    then show ?thesis
      using * b by (auto simp: consume_override_def Let_def all_traced_bindings [OF ov_emit_bindings] all_traced_put
          split: option.splits override_binding_state.splits)
  next
    case (OvRevoke now bid who)
    then show ?thesis
      using * b by (auto simp: revoke_override_def all_traced_bindings [OF ov_emit_bindings] all_traced_put split: option.splits)
  next
    case (OvLookup now bid)
    then show ?thesis using * b by (auto simp: lookup_override_def Let_def all_traced_put split: option.splits)
  qed (use * in \<open>simp_all add: list_overrides_broker all_traced_expire\<close>)
qed

definition overrides_after :: "('sk, 'vk) vault_emitter option \<Rightarrow> override_call list \<Rightarrow> override_broker" where
  "overrides_after em ops = fold (override_step em) ops override_broker_new"

lemma all_traced_run: "all_traced ops (overrides_after em ops)"
proof (induction ops rule: rev_induct)
  case Nil
  then show ?case by (simp add: all_traced_def overrides_after_def override_broker_new_def)
next
  case (snoc op ops)
  then show ?case using all_traced_step [OF snoc, of op em] by (simp add: overrides_after_def)
qed

lemma distinct_bindings: "distinct (map fst (ov_bindings (overrides_after em ops)))"
proof (induction ops rule: rev_induct)
  case (snoc op ops)
  let ?br = "overrides_after em ops"
  have "distinct (map fst (ov_bindings (override_step em op ?br)))"
    using snoc
    by (cases op)
      (auto simp: list_overrides_broker grant_override_def consume_override_def revoke_override_def lookup_override_def
        ov_put_def expire_bindings_def Let_def AList.distinct_update comp_def case_prod_unfold
        split: option.splits sum.splits override_binding_state.splits)
  then show ?case by (simp add: overrides_after_def)
qed (simp add: overrides_after_def override_broker_new_def)

lemma all_entries_traced:
  "\<forall>(bid, b) \<in> set (ov_bindings (expire_bindings clock (overrides_after em ops))). override_traced ops bid b"
proof (intro ballI, clarify)
  fix bid b assume m: "(bid, b) \<in> set (ov_bindings (expire_bindings clock (overrides_after em ops)))"
  have "distinct (map fst (ov_bindings (expire_bindings clock (overrides_after em ops))))"
    using distinct_bindings [of em ops] by (simp add: expire_bindings_def comp_def case_prod_unfold)
  then have "map_of (ov_bindings (expire_bindings clock (overrides_after em ops))) bid = Some b"
    using m by simp
  then show "override_traced ops bid b"
    using all_traced_expire [OF all_traced_run [of ops em], of clock] by (auto simp: all_traced_def)
qed

text \<open>
  C25: Where a consumed override comes from. Whenever \<open>consume_override\<close> succeeds, the binding it returns was
  made by an earlier grant of the same identifier, has not reached the expiry that grant gave it,
  lists as many approvers as its class demands, and each of them was registered in the identity
  catalog as a human when the grant was made.
\<close>

theorem consumed_override_has_human_quorum:
  assumes "fst (consume_override em now bid who (overrides_after em ops)) = Inr b"
  shows "\<exists>ulid t cat req. OvGrant ulid t cat req \<in> set ops \<and> bid = ''ovr_'' @ ulid \<and>
    human_quorum (go_class req) (go_granted_by req) cat \<and> now < go_expires_at req \<and>
    b = (granted_binding ulid t req)\<lparr>ob_state := OvConsumed\<rparr>"
proof -
  obtain g where g: "map_of (ov_bindings (overrides_after em ops)) bid = Some g" "ob_state g = OvGranted"
      "now < ob_expires_at g" "b = g\<lparr>ob_state := OvConsumed\<rparr>"
    using consume_Ok [OF assms] by metis
  then obtain ulid t cat req where t: "OvGrant ulid t cat req \<in> set ops" "human_quorum (go_class req) (go_granted_by req) cat"
      "bid = ''ovr_'' @ ulid" "g\<lparr>ob_state := OvGranted\<rparr> = granted_binding ulid t req"
    using all_traced_run [of ops em] unfolding all_traced_def override_traced_def by blast
  have "g = granted_binding ulid t req" using t(4) g(2) by (metis override_binding.surjective override_binding.update_convs(7))
  then show ?thesis using t g by (intro exI [of _ ulid] exI [of _ t] exI [of _ cat] exI [of _ req])
      (simp add: granted_binding_def)
qed

text \<open>
  What the policy side is told. An override that the vault's boundary reports for an action at \<open>now\<close> is a
  binding that some earlier grant with a full human quorum made, that is neither revoked nor
  consumed nor past its expiry at \<open>now\<close>, and that names this action or no action at all.
\<close>

theorem reported_override_is_granted:
  assumes "fst (vault_is_overridden_at clock act subj now (overrides_after em ops)) = Some eo"
  shows "\<exists>ulid t cat req. OvGrant ulid t cat req \<in> set ops \<and> human_quorum (go_class req) (go_granted_by req) cat \<and>
    eo = emergency_override_from (granted_binding ulid t req) \<and> \<not> is_expired_or_revoked now eo \<and>
    go_target_action_id req \<in> {None, Some act}"
proof -
  let ?br = "expire_bindings clock (overrides_after em ops)"
  obtain b where b: "b \<in> set (map snd (ov_bindings ?br))" "binding_matches_action b act now" "eo = emergency_override_from b"
    using assms by (auto simp: vault_is_overridden_at_def list_overrides_def Let_def dest!: find_eq_Some_props)
  have "\<forall>(bid, b) \<in> set (ov_bindings ?br). override_traced ops bid b"
    by (rule all_entries_traced)
  then obtain bid where "override_traced ops bid b" using b(1) by fastforce
  then obtain ulid t cat req where t: "OvGrant ulid t cat req \<in> set ops" "human_quorum (go_class req) (go_granted_by req) cat"
      "b\<lparr>ob_state := OvGranted\<rparr> = granted_binding ulid t req"
    unfolding override_traced_def by blast
  have "b = granted_binding ulid t req"
    using t(3) b(2) by (metis binding_matches_action_def override_binding.surjective override_binding.update_convs(7))
  then show ?thesis using t b
    by (intro exI [of _ ulid] exI [of _ t] exI [of _ cat] exI [of _ req])
      (auto simp: binding_matches_action_def emergency_override_from_def is_expired_or_revoked_def granted_binding_def
        split: option.splits)
qed

section \<open>Witnesses and departures\<close>

definition sample_override_grant :: grant_override_request where
  "sample_override_grant = \<lparr>go_class = StrongSolo, go_granted_by = [''family:alice''], go_target_action_id = Some ''act_1'',
     go_expires_at = 100, go_reason = ''disk full''\<rparr>"

definition sample_override_calls :: "override_call list" where
  "sample_override_calls = [OvGrant ''G'' 1 (catalog_with_fixtures 0) sample_override_grant]"

definition no_emitter :: "(unit, unit) vault_emitter option" where
  "no_emitter = None"

lemma sample_grant_checks:
  "grant_checks (sample_override_grant\<lparr>go_class := cls, go_granted_by := replicate (unat (expected_approver_count cls)) ''family:alice''\<rparr>)
     (catalog_with_fixtures 0) = Inr ()"
  by (cases cls)
    (simp_all add: grant_checks_iff human_quorum_def list_all_iff sample_override_grant_def catalog_with_fixtures_def
      fixture_subjects_def insert_subject_def catalog_new_def)

lemma sample_grant_checks_solo: "grant_checks sample_override_grant (catalog_with_fixtures 0) = Inr ()"
  using sample_grant_checks [of StrongSolo] by (simp add: sample_override_grant_def)

lemma sample_overrides_eval:
  "overrides_after None sample_override_calls =
     \<lparr>ov_bindings = [(''ovr_G'', granted_binding ''G'' 1 sample_override_grant)], ov_chain = []\<rparr>"
  by (simp add: overrides_after_def sample_override_calls_def grant_override_def sample_grant_checks_solo Let_def
      ov_emit_def ov_put_def override_broker_new_def granted_binding_def)

theorem override_consumed_once_witness:
  "distinct (collect_run (override_step no_emitter) (override_uses no_emitter)
     (sample_override_calls @ [OvConsume 2 ''ovr_G'' ''agent:dev'', OvConsume 3 ''ovr_G'' ''agent:dev'']) override_broker_new)"
  by (rule override_consumed_once)
    (simp add: sample_override_calls_def sample_grant_checks_solo)

lemma sample_consume:
  "fst (consume_override None 2 ''ovr_G'' ''agent:dev'' (overrides_after None sample_override_calls)) =
     Inr ((granted_binding ''G'' 1 sample_override_grant)\<lparr>ob_state := OvConsumed\<rparr>)"
  by (simp add: consume_override_def sample_overrides_eval granted_binding_def sample_override_grant_def ov_emit_def Let_def)

theorem consumed_override_has_human_quorum_witness:
  "\<exists>ulid t cat req. OvGrant ulid t cat req \<in> set sample_override_calls \<and> ''ovr_G'' = ''ovr_'' @ ulid \<and>
    human_quorum (go_class req) (go_granted_by req) cat \<and> 2 < go_expires_at req \<and>
    (granted_binding ''G'' 1 sample_override_grant)\<lparr>ob_state := OvConsumed\<rparr> =
      (granted_binding ulid t req)\<lparr>ob_state := OvConsumed\<rparr>"
  by (rule consumed_override_has_human_quorum [OF sample_consume])

lemma sample_override_check:
  "fst (vault_is_overridden_at 2 ''act_1'' ''agent:dev'' 2 (overrides_after None sample_override_calls)) =
     Some (emergency_override_from (granted_binding ''G'' 1 sample_override_grant))"
  by (simp add: vault_is_overridden_at_def list_overrides_def sample_overrides_eval expire_bindings_def Let_def
      granted_binding_def sample_override_grant_def transition_expired_binding_def binding_matches_action_def)

theorem reported_override_is_granted_witness:
  "\<exists>ulid t cat req. OvGrant ulid t cat req \<in> set sample_override_calls \<and> human_quorum (go_class req) (go_granted_by req) cat \<and>
    emergency_override_from (granted_binding ''G'' 1 sample_override_grant) = emergency_override_from (granted_binding ulid t req) \<and>
    \<not> is_expired_or_revoked 2 (emergency_override_from (granted_binding ''G'' 1 sample_override_grant)) \<and>
    go_target_action_id req \<in> {None, Some ''act_1''}"
  by (rule reported_override_is_granted [OF sample_override_check])

text \<open>
  The quorum counts entries, not people: one human listed twice or three times satisfies a class
  that is named after two or three humans.
\<close>

lemma quorum_of_one_person:
  "fst (grant_override None ''G'' 1 (catalog_with_fixtures 0)
     (sample_override_grant\<lparr>go_class := TripleHuman, go_granted_by := replicate 3 ''family:alice''\<rparr>) override_broker_new) =
   Ok (granted_binding ''G'' 1
     (sample_override_grant\<lparr>go_class := TripleHuman, go_granted_by := replicate 3 ''family:alice''\<rparr>))"
  using sample_grant_checks [of TripleHuman] by (simp add: grant_override_def ov_emit_def Let_def)

text \<open>
  The check for AI approvers reads the subject's type and never its AI flag, so a subject registered as
  a human with the flag set grants overrides that the policy kernel's own boundary refuses it.
\<close>

lemma flagged_human_grants_override:
  "let cat = snd (register_subject \<lparr>vsub_id = ''h:bot'', vsub_type = VHuman, provisional_name = ''Bot'',
         vsub_groups = [], vsub_is_ai = True, vsub_created_at = 0\<rparr> catalog_new);
       r = \<lparr>granted_by_subject = hydrated_from_snapshot (snapshot_for_subject
              \<lparr>vsub_id = ''h:bot'', vsub_type = VHuman, provisional_name = ''Bot'', vsub_groups = [], vsub_is_ai = True,
               vsub_created_at = 0\<rparr> cat),
            req_scope = \<lparr>os_rule_id = [], os_action = ''act_1'', os_subjects = []\<rparr>, req_reason = [], ttl_seconds = 60,
            attempted_hard_deny = None\<rparr>
   in grant_checks (sample_override_grant\<lparr>go_granted_by := [''h:bot'']\<rparr>) cat = Ok () \<and>
      fst (request_override_at ''G'' r 0 boundary_new) = Err (HumanOnly ''h:bot'')"
  by (simp add: Let_def grant_checks_iff human_quorum_def register_subject_def catalog_new_def insert_subject_def
      sample_override_grant_def request_override_at_def hydrated_from_snapshot_def snapshot_for_subject_def)

text \<open>
  A binding without a target stands for every action and every subject on the vault's side, while the
  policy receipt made from it is in scope of no named action at all.
\<close>

lemma untargeted_override_covers_everything:
  assumes "ob_state b = OvGranted" and "now < ob_expires_at b" and "target_action_id b = None"
  shows "binding_matches_action b act now"
    and "act \<noteq> [] \<Longrightarrow> \<not> in_scope act subj (emergency_override_from b)"
  using assms by (simp_all add: binding_matches_action_def in_scope_def emergency_override_from_def)

text \<open>Revoking overwrites the final states: a consumed binding is reported as revoked afterwards.\<close>

lemma revoke_overwrites_consumed:
  assumes "map_of (ov_bindings br) bid = Some b" and "ob_state b = OvConsumed"
  shows "fst (revoke_override None now bid who br) = Ok () \<and>
    map_option ob_state (map_of (ov_bindings (snd (revoke_override None now bid who br))) bid) = Some OvRevoked"
  using assms by (simp add: revoke_override_def ov_emit_def)

end
