(* ===== verification/Vault_Policy.thy ===== *)
theory Vault_Policy
  imports Vault_Override Policy_Kernel
begin

text \<open>
  The policy kernel wired to the vault's identity catalog: the hydrator of the kernel is
  \<open>VaultPolicyHydrator\<close> over a catalog. The theorems say whom such a kernel can allow, and that it
  denies a request made under a session that has ended.
\<close>

section \<open>The wiring\<close>

text \<open>\<open>VaultPolicyHydrator::new\<close>: the kernel asks the catalog as it is.\<close>

definition vault_policy_hydrator :: "identity_catalog \<Rightarrow> hydrator_fn" where
  "vault_policy_hydrator cat = (\<lambda>now p. fst (vault_hydrate now p cat))"

text \<open>Who a name stands for at an instant: the subject of a live session, or a registered subject.\<close>

definition authenticates :: "identity_catalog \<Rightarrow> instant \<Rightarrow> string \<Rightarrow> vault_subject \<Rightarrow> bool" where
  "authenticates cat now p subj \<longleftrightarrow>
     (case map_of (cat_sessions cat) p of
        None \<Rightarrow> map_of (cat_subjects cat) p = Some subj
      | Some se \<Rightarrow> live now se \<and> map_of (cat_subjects cat) (subject_id se) = Some subj)"

lemma vault_hydrate_Ok_iff:
  "fst (vault_hydrate now p cat) = Ok s \<longleftrightarrow>
     (\<exists>subj. authenticates cat now p subj \<and> s = hydrated_from_snapshot (snapshot_for_subject subj cat))"
  by (auto simp: vault_hydrate_eq known_subject_def authenticates_def split: option.splits if_splits)

lemma deny_unknown: "decision (evaluate_with_chain_full ev env ctx None engine boundary) = Deny"
  by (cases "schema_valid env") (simp_all add: chain_unauthenticated chain_schema_invalid emit_decision_def)

lemma hydrate_context_vault:
  "hydrate_context (Some (vault_policy_hydrator cat)) now env ctx =
     Ok (case fst (vault_hydrate now (subject_canonical_id (env_identity env)) cat) of
           Inl _ \<Rightarrow> None | Inr s \<Rightarrow> Some (ctx\<lparr>subject := s\<rparr>))"
  using vph.only_unauthenticated [of now "subject_canonical_id (env_identity env)" cat]
  by (auto simp: hydrate_context_def vault_policy_hydrator_def split: sum.splits)

section \<open>Properties\<close>

text \<open>
  Only a known subject is ever allowed. When a kernel without a cache, hydrating from the vault,
  allows a request, then the name in its envelope is a session that is active and unexpired at the
  instant of hydration and belongs to a registered subject, or is itself the identifier of a
  registered subject; and the groups the decision was made with are those of that subject's record.
\<close>

theorem allowed_subject_is_in_the_catalog:
  assumes "cat = catalog_run cs (catalog_with_fixtures t0)" and "list_all (well_formed_call \<circ> snd) cs"
    and "subject_hydrator_fn k = Some (vault_policy_hydrator cat)" and "decision_cache k = None"
    and "fst (evaluate_policy L kev env ctx k) = Ok d" and "decision d = Allow"
  shows "\<exists>subj. authenticates cat (now_hydrate kev) (subject_canonical_id (env_identity env)) subj \<and>
    hydrate_context (subject_hydrator_fn k) (now_hydrate kev) env ctx =
      Ok (Some (ctx\<lparr>subject := hydrated_from_snapshot
        ((snapshot_from_subject subj)\<lparr>hss_groups := sort (vsub_groups subj)\<rparr>)\<rparr>))"
proof -
  let ?h = "fst (vault_hydrate (now_hydrate kev) (subject_canonical_id (env_identity env)) cat)"
  have hc: "hydrate_context (subject_hydrator_fn k) (now_hydrate kev) env ctx =
      Ok (case ?h of Inl _ \<Rightarrow> None | Inr s \<Rightarrow> Some (ctx\<lparr>subject := s\<rparr>))"
    by (simp only: assms(3) hydrate_context_vault)
  obtain s where s: "?h = Ok s"
  proof (cases ?h)
    case (Inl e)
    then have "decision d = Deny"
      using assms(4,5) hc deny_unknown by (auto simp: evaluate_uncached)
    then show thesis using assms(6) by simp
  qed
  then obtain subj where subj: "authenticates cat (now_hydrate kev) (subject_canonical_id (env_identity env)) subj"
      and eq: "s = hydrated_from_snapshot (snapshot_for_subject subj cat)"
    by (auto simp: vault_hydrate_Ok_iff)
  have inv: "catalog_inv cat"
    unfolding assms(1) by (rule catalog_inv_run [OF catalog_inv_fixtures assms(2)])
  obtain sid where sid: "map_of (cat_subjects cat) sid = Some subj"
    using subj by (auto simp: authenticates_def split: option.splits)
  then have "vsub_id subj = sid" using inv by (auto simp: catalog_inv_def)
  then have "snapshot_for_subject subj cat = (snapshot_from_subject subj)\<lparr>hss_groups := sort (vsub_groups subj)\<rparr>"
    using groups_for_subject_eq [OF inv sid] by (simp add: snapshot_for_subject_def snapshot_from_subject_def)
  then show ?thesis using subj hc s eq by auto
qed

text \<open>
  C40: A request under an ended session is denied. When the name in an envelope is the identifier of a session that was
  revoked, suspended or has expired, then after any further calls on the catalog that do not
  generate the same identifier again, a kernel without a decision cache that hydrates from it denies the
  request, whatever its overrides say, and gives as the reason that the subject is not authenticated (or, of
  a malformed envelope, that its schema is invalid). A kernel with a cache may serve a decision made
  before (\<open>cache_serves_any_subject\<close>), and an envelope that names the subject rather than the session is another
  matter (\<open>subject_without_session_hydrates\<close>).
\<close>

theorem ended_session_is_denied:
  assumes "map_of (cat_sessions cat) (subject_canonical_id (env_identity env)) = Some se" and "\<not> live t se"
    and "list_all (\<lambda>(_, c). \<not> starts (subject_canonical_id (env_identity env)) c) cs" and "t \<le> now_hydrate kev"
    and "subject_hydrator_fn k = Some (vault_policy_hydrator (catalog_run cs cat))" and "decision_cache k = None"
  shows "\<exists>d. fst (evaluate_policy L kev env ctx k) = Ok d \<and> decision d = Deny \<and>
     reason_code d = (if schema_valid env then SUBJECT_UNAUTHENTICATED else SCHEMA_INVALID)"
proof -
  have "fst (vault_hydrate (now_hydrate kev) (subject_canonical_id (env_identity env)) (catalog_run cs cat)) =
      Err SubjectUnauthenticated"
    by (rule ended_session_never_hydrates [OF assms(1-4)])
  then have "hydrate_context (subject_hydrator_fn k) (now_hydrate kev) env ctx = Ok None"
    by (simp add: assms(5) hydrate_context_vault)
  then show ?thesis using assms(6) by (cases "schema_valid env") (simp_all add: evaluate_uncached chain_cases)
qed

section \<open>Witnesses\<close>

definition sample_session_envelope :: "string \<Rightarrow> action_envelope" where
  "sample_session_envelope i = restart_envelope\<lparr>env_identity := (env_identity restart_envelope)\<lparr>subject_canonical_id := i\<rparr>\<rparr>"

definition sample_vault_kernel :: "identity_catalog \<Rightarrow> (nat \<times> (cache_key \<times> policy_decision) list) policy_kernel" where
  "sample_vault_kernel cat = with_override_boundary sample_boundary (new_with_subject_hydrator (vault_policy_hydrator cat))"

lemma sample_vault_kernel_fields [simp]:
  "subject_hydrator_fn (sample_vault_kernel cat) = Some (vault_policy_hydrator cat)"
  "decision_cache (sample_vault_kernel cat) = None"
  "kernel_boundary (sample_vault_kernel cat) = Some sample_boundary"
  "hard_deny_engine (sample_vault_kernel cat) = None"
  by (simp_all add: sample_vault_kernel_def with_override_boundary_def new_with_subject_hydrator_def kernel_new_def)

lemma sample_kernel_clock [simp]:
  "now_hydrate sample_kernel_env = 4" "eval_env.truncate sample_kernel_env = sample_env"
  by (simp_all add: sample_kernel_env_def eval_env.defs sample_env_def)

definition sample_early_calls :: "(instant \<times> catalog_call) list" where
  "sample_early_calls = [(1, CatStart ''A'' ''family:alice'' 5)]"

lemma sample_early_catalog:
  "map_of (cat_sessions (catalog_run sample_early_calls (catalog_with_fixtures 0))) ''sess_A'' =
     Some \<lparr>session_id = ''sess_A'', subject_id = ''family:alice'', started_at = 1, sess_expires_at = 5, sess_state = SessActive\<rparr>"
  "\<exists>subj. map_of (cat_subjects (catalog_run sample_early_calls (catalog_with_fixtures 0))) ''family:alice'' = Some subj"
  by (simp_all add: sample_early_calls_def catalog_with_fixtures_def fixture_subjects_def
      insert_subject_def catalog_new_def start_session_def Let_def expire_past_sessions_for_subject_def)

theorem allowed_subject_is_in_the_catalog_witness:
  "\<exists>subj. authenticates (catalog_run sample_early_calls (catalog_with_fixtures 0)) 4 ''sess_A'' subj"
proof -
  let ?cat = "catalog_run sample_early_calls (catalog_with_fixtures 0)"
  let ?env = "sample_session_envelope ''sess_A''" and ?ctx = "sample_policy_context sample_operator"
  have id: "subject_canonical_id (env_identity ?env) = ''sess_A''" by (simp add: sample_session_envelope_def)
  obtain subj where subj: "map_of (cat_subjects ?cat) ''family:alice'' = Some subj"
    using sample_early_catalog(2) by blast
  then obtain s where "fst (vault_hydrate 4 ''sess_A'' ?cat) = Ok s"
    by (simp add: vault_hydrate_eq sample_early_catalog(1) live_def known_subject_def)
  then have hc: "hydrate_context (subject_hydrator_fn (sample_vault_kernel ?cat)) (now_hydrate sample_kernel_env) ?env ?ctx =
      Ok (Some (?ctx\<lparr>subject := s\<rparr>))"
    by (simp add: hydrate_context_vault id)
  let ?d = "evaluate_with_chain_full sample_env ?env ?ctx (Some (?ctx\<lparr>subject := s\<rparr>)) None (Some sample_boundary)"
  have eval: "fst (evaluate_policy list_lru sample_kernel_env ?env ?ctx (sample_vault_kernel ?cat)) = Ok ?d"
    using hc by (simp add: evaluate_uncached)
  have "schema_valid ?env"
    using sample_schema_valid by (simp add: sample_session_envelope_def schema_valid_def)
  moreover have "action (env_request ?env) = ''svc.restart''"
    by (simp add: sample_session_envelope_def restart_envelope_def envelope_new_def request_new_def)
  ultimately have "decision ?d = Allow"
    by (simp add: chain_hydrated sample_env_def sample_boundary_grant)
  with allowed_subject_is_in_the_catalog [of ?cat sample_early_calls 0 "sample_vault_kernel ?cat", OF refl _ _ _ eval]
  show ?thesis by (auto simp: id sample_early_calls_def)
qed

theorem ended_session_is_denied_witness:
  "\<exists>d. fst (evaluate_policy list_lru sample_kernel_env (sample_session_envelope ''sess_A'')
     (sample_policy_context sample_operator)
     (sample_vault_kernel (catalog_run [] (snd (revoke_session ''sess_A''
       (catalog_run sample_early_calls (catalog_with_fixtures 0))))))) = Ok d \<and> decision d = Deny \<and>
     reason_code d = (if schema_valid (sample_session_envelope ''sess_A'') then SUBJECT_UNAUTHENTICATED else SCHEMA_INVALID)"
  by (rule ended_session_is_denied [where t = 4 and cs = "[]" and cat = "snd (revoke_session ''sess_A''
       (catalog_run sample_early_calls (catalog_with_fixtures 0)))" and se = "\<lparr>session_id = ''sess_A'',
       subject_id = ''family:alice'', started_at = 1, sess_expires_at = 5, sess_state = SessRevoked\<rparr>"])
    (auto simp: revoke_session_def sample_early_catalog set_session_def AList.update_conv' live_def
      sample_session_envelope_def)

end
