(* ===== verification/Sgr_Types.thy ===== *)
theory Sgr_Types
  imports Runtime_Evidence Rust_Float
begin

text \<open>
  The data of crate \<open>aios-sgr\<close>, the service graph runtime: the unit and graph states
  (\<open>state.rs\<close>), dependency edges (\<open>dependency.rs\<close>), unit identifiers and manifests with their parts
  (\<open>unit.rs\<close>), the errors (\<open>error.rs\<close>), and the JSON of a manifest that its publisher signs
  (\<open>in_memory_graph.rs\<close>). A \<open>UnitId\<close> is its string. The printing of a finite \<open>f64\<close> and of an instant,
  \<open>serde_json::to_vec\<close>, BLAKE3 and Ed25519 are parameters, collected in \<open>sgr_lib\<close>.
\<close>

section \<open>Unit identifiers\<close>

type_synonym unit_id = string

definition UNIT_PREFIX :: string where
  "UNIT_PREFIX = ''unit:''"

text \<open>\<open>str::split\<close> on one character: the separators delimit, so the empty text has one empty part.\<close>

fun split_on :: "char \<Rightarrow> string \<Rightarrow> string list" where
  "split_on c [] = [[]]"
| "split_on c (x # xs) =
     (if x = c then [] # split_on c xs
      else case split_on c xs of [] \<Rightarrow> [[x]] | p # ps \<Rightarrow> (x # p) # ps)"

definition ascii_lower :: "char \<Rightarrow> bool" where
  "ascii_lower c \<longleftrightarrow> 97 \<le> (of_char c :: nat) \<and> (of_char c :: nat) \<le> 122"

definition validate_vendor :: "string \<Rightarrow> (string, unit) result" where
  "validate_vendor input =
     (if input = [] then Err ''vendor segment is empty''
      else if 63 < length input then Err ''vendor segment exceeds 63 characters''
      else if hd input = CHR ''-'' \<or> last input = CHR ''-''
        then Err (''vendor segment cannot start or end with '' @ [CHR 0x27, CHR ''-'', CHR 0x27])
      else if \<not> list_all (\<lambda>b. ascii_lower b \<or> is_ascii_digit b \<or> b = CHR ''-'') input
        then Err (''vendor segment contains invalid characters: '' @ input)
      else Ok ())"

definition validate_name_like :: "string \<Rightarrow> string \<Rightarrow> (string, unit) result" where
  "validate_name_like input label =
     (if input = [] then Err (label @ '' segment is empty'')
      else if 63 < length input then Err (label @ '' segment exceeds 63 characters'')
      else if \<not> list_all (\<lambda>b. ascii_lower b \<or> is_ascii_digit b \<or> b = CHR ''-'' \<or> b = CHR ''_'') input
        then Err (label @ '' segment contains invalid characters: '' @ input)
      else Ok ())"

definition validate_unit_id :: "string \<Rightarrow> (string, string) result" where
  "validate_unit_id input =
     (if input = [] then Err ''unit id is empty''
      else case strip_prefix_str UNIT_PREFIX input of
             None \<Rightarrow> Err (''expected prefix '' @ UNIT_PREFIX @ '', got '' @ input)
           | Some rest \<Rightarrow>
               (case split_on (CHR '':'') rest of
                  [vnd, nm] \<Rightarrow>
                    try_then (validate_vendor vnd) (\<lambda>_.
                    try_then (validate_name_like nm ''name'') (\<lambda>_. Ok input))
                | [vnd, nm, variant] \<Rightarrow>
                    try_then (validate_vendor vnd) (\<lambda>_.
                    try_then (validate_name_like nm ''name'') (\<lambda>_.
                    try_then (validate_name_like variant ''variant'') (\<lambda>_. Ok input)))
                | _ \<Rightarrow> Err (''unit id must be unit:<vendor>:<name>[:<variant>], got '' @ input)))"

definition unit_id_parse :: "string \<Rightarrow> (string, unit_id) result" where
  "unit_id_parse input = validate_unit_id input"

definition unit_id_from_parts :: "string \<Rightarrow> string \<Rightarrow> string option \<Rightarrow> (string, unit_id) result" where
  "unit_id_from_parts vnd nm variant =
     try_then (validate_vendor vnd) (\<lambda>_.
     try_then (validate_name_like nm ''name'') (\<lambda>_.
     case variant of
       Some value \<Rightarrow>
         try_then (validate_name_like value ''variant'') (\<lambda>_.
           Ok (UNIT_PREFIX @ vnd @ '':'' @ nm @ '':'' @ value))
     | None \<Rightarrow> Ok (UNIT_PREFIX @ vnd @ '':'' @ nm)))"

definition generated_for_vendor :: "string \<Rightarrow> string \<Rightarrow> (string, unit_id) result" where
  "generated_for_vendor ulid vnd =
     unit_id_from_parts vnd (''unit_'' @ map to_ascii_lowercase ulid) None"

section \<open>States\<close>

datatype unit_state =
    UnitDraft | UnitQueued | UnitStarting | UnitRunning | UnitHealthy | UnitDegraded
  | UnitUnhealthy | UnitStopping | UnitStopped | UnitFailed | UnitRetired

definition unit_is_terminal :: "unit_state \<Rightarrow> bool" where
  "unit_is_terminal s \<longleftrightarrow> s \<in> {UnitStopped, UnitFailed, UnitRetired}"

fun unit_state_wire :: "unit_state \<Rightarrow> string" where
  "unit_state_wire UnitDraft = ''DRAFT''"
| "unit_state_wire UnitQueued = ''QUEUED''"
| "unit_state_wire UnitStarting = ''STARTING''"
| "unit_state_wire UnitRunning = ''RUNNING''"
| "unit_state_wire UnitHealthy = ''HEALTHY''"
| "unit_state_wire UnitDegraded = ''DEGRADED''"
| "unit_state_wire UnitUnhealthy = ''UNHEALTHY''"
| "unit_state_wire UnitStopping = ''STOPPING''"
| "unit_state_wire UnitStopped = ''STOPPED''"
| "unit_state_wire UnitFailed = ''FAILED''"
| "unit_state_wire UnitRetired = ''RETIRED''"

datatype graph_state =
    GraphEmpty | GraphResolving | GraphConverging | GraphConverged | GraphDegraded | GraphFailed

fun graph_state_wire :: "graph_state \<Rightarrow> string" where
  "graph_state_wire GraphEmpty = ''EMPTY''"
| "graph_state_wire GraphResolving = ''RESOLVING''"
| "graph_state_wire GraphConverging = ''CONVERGING''"
| "graph_state_wire GraphConverged = ''CONVERGED''"
| "graph_state_wire GraphDegraded = ''DEGRADED''"
| "graph_state_wire GraphFailed = ''FAILED''"

section \<open>Dependencies\<close>

datatype dependency_kind = RequiresHealthy | RequiresRunning | OrdersAfter

fun is_hard :: "dependency_kind \<Rightarrow> bool" where
  "is_hard RequiresHealthy = True"
| "is_hard RequiresRunning = True"
| "is_hard OrdersAfter = False"

fun dependency_kind_wire :: "dependency_kind \<Rightarrow> string" where
  "dependency_kind_wire RequiresHealthy = ''REQUIRES_HEALTHY''"
| "dependency_kind_wire RequiresRunning = ''REQUIRES_RUNNING''"
| "dependency_kind_wire OrdersAfter = ''ORDERS_AFTER''"

record unit_dependency =
  ud_unit_id :: unit_id
  ud_kind :: dependency_kind

record dependency_edge =
  from_unit_id :: unit_id
  to_unit_id :: unit_id
  edge_kind :: dependency_kind

section \<open>Manifests\<close>

datatype unit_kind =
    KindService | KindOneShotJob | KindTimer | KindMount | KindDevice | KindAppSession
  | KindAgentWorker | KindModelServer | KindRecoveryTask | KindObserver

fun unit_kind_wire :: "unit_kind \<Rightarrow> string" where
  "unit_kind_wire KindService = ''SERVICE''"
| "unit_kind_wire KindOneShotJob = ''ONE_SHOT_JOB''"
| "unit_kind_wire KindTimer = ''TIMER''"
| "unit_kind_wire KindMount = ''MOUNT''"
| "unit_kind_wire KindDevice = ''DEVICE''"
| "unit_kind_wire KindAppSession = ''APP_SESSION''"
| "unit_kind_wire KindAgentWorker = ''AGENT_WORKER''"
| "unit_kind_wire KindModelServer = ''MODEL_SERVER''"
| "unit_kind_wire KindRecoveryTask = ''RECOVERY_TASK''"
| "unit_kind_wire KindObserver = ''OBSERVER''"

datatype desired_state = WantRunning | WantStopped | WantRestarted | WantReloaded

fun desired_state_wire :: "desired_state \<Rightarrow> string" where
  "desired_state_wire WantRunning = ''RUNNING''"
| "desired_state_wire WantStopped = ''STOPPED''"
| "desired_state_wire WantRestarted = ''RESTARTED''"
| "desired_state_wire WantReloaded = ''RELOADED''"

datatype restart_policy =
    RestartNever | RestartOnFailure | RestartAlways | RestartUnlessStopped | RestartScheduled

fun restart_policy_wire :: "restart_policy \<Rightarrow> string" where
  "restart_policy_wire RestartNever = ''NEVER''"
| "restart_policy_wire RestartOnFailure = ''ON_FAILURE''"
| "restart_policy_wire RestartAlways = ''ALWAYS''"
| "restart_policy_wire RestartUnlessStopped = ''UNLESS_STOPPED''"
| "restart_policy_wire RestartScheduled = ''SCHEDULED''"

record restart_budget =
  max_attempts :: u32
  reset_window_seconds :: u32
  backoff_initial_seconds :: u32
  backoff_max_seconds :: u32

datatype health_check_kind = TcpPort | HttpOk | CommandExitZero | AiosfsPointerHealthy | CustomProbe

fun health_check_kind_wire :: "health_check_kind \<Rightarrow> string" where
  "health_check_kind_wire TcpPort = ''TCP_PORT''"
| "health_check_kind_wire HttpOk = ''HTTP_OK''"
| "health_check_kind_wire CommandExitZero = ''COMMAND_EXIT_ZERO''"
| "health_check_kind_wire AiosfsPointerHealthy = ''AIOSFS_POINTER_HEALTHY''"
| "health_check_kind_wire CustomProbe = ''CUSTOM_PROBE''"

record health_check_spec =
  hc_kind :: health_check_kind
  probe_interval_seconds :: u32
  probe_timeout_seconds :: u32
  startup_grace_seconds :: u32
  unhealthy_threshold :: u32
  healthy_threshold :: u32
  hc_args :: json

record verification_intent_ref =
  vi_type :: string
  vi_args :: json

datatype rollback_trigger = OnStartupFailure | OnHealthFailure | OnOperatorRequest | TriggerNever

fun rollback_trigger_wire :: "rollback_trigger \<Rightarrow> string" where
  "rollback_trigger_wire OnStartupFailure = ''ON_STARTUP_FAILURE''"
| "rollback_trigger_wire OnHealthFailure = ''ON_HEALTH_FAILURE''"
| "rollback_trigger_wire OnOperatorRequest = ''ON_OPERATOR_REQUEST''"
| "rollback_trigger_wire TriggerNever = ''NEVER''"

record rollback_pointer =
  aiosfs_pointer_id :: string
  expected_current_version_id :: string
  rp_trigger :: rollback_trigger

record gpu_budget =
  requires_compute :: bool
  vram_bytes_max :: u64

record resource_budget =
  memory_bytes_max :: u64
  cpu_quota_cores :: f64
  disk_bytes_max :: u64
  file_descriptors_max :: u32
  process_count_max :: u32
  queue_depth_max :: u32
  gpu :: "gpu_budget option"

record unit_manifest =
  um_schema_version :: string
  um_unit_id :: unit_id
  um_unit_kind :: unit_kind
  display_name :: string
  um_description :: string
  um_issued_at :: instant
  publisher_id :: string
  publisher_root_id :: string
  publisher_signature :: "u8 list"
  um_canonical_hash :: string
  dependencies :: "unit_dependency list"
  sandbox_profile_ref :: string
  um_verification_intent :: "verification_intent_ref list"
  um_rollback_pointer :: rollback_pointer
  um_resource_budget :: resource_budget
  um_restart_policy :: restart_policy
  um_restart_budget :: restart_budget
  um_health_check :: health_check_spec
  startup_deadline_seconds :: u32
  stop_deadline_seconds :: u32
  um_adapter_target :: json
  um_labels :: "json option"
  um_correlation_id :: "string option"
  um_desired_state :: desired_state
  um_provides :: "string list"
  um_adapter_id :: "string option"

record service_unit =
  su_unit_id :: unit_id
  su_manifest :: unit_manifest
  su_state :: unit_state
  last_transition_at :: instant
  su_evidence_chain :: "string list"

section \<open>Errors\<close>

datatype sgr_error =
    UnitNotFound unit_id
  | UnitAlreadyRegistered unit_id
  | DependencyCycleDetected "unit_id list"
  | InvalidStateTransition unit_state unit_state
  | ManifestSignatureInvalid
  | ManifestUnknownAuthority string
  | DependencyTargetNotRegistered unit_id
  | AdapterCapabilityMismatch unit_id "string list"
  | AdapterSuspended string
  | SgrEvidenceEmitFailed string
  | SgrInternal string

end
