(* ===== verification/Sgr_Evidence.thy ===== *)
theory Sgr_Evidence
  imports Sgr_Types
begin

text \<open>
  The evidence of the service graph runtime: the payloads (\<open>evidence_payloads.rs\<close>) and the emitter with
  its in-memory log (\<open>evidence_emit.rs\<close>). Every fallible operation of the crate runs over one state,
  the graph with the adapters and the log; \<open>sgr_then\<close> is the \<open>?\<close> operator over it, and the state after
  an error is kept, since the code rolls nothing back.
\<close>

section \<open>Adapters as they are declared\<close>

datatype manifest_registration_state =
    MrsDraft | MrsValidating | MrsRegistered | MrsDegraded | MrsDeregistered | MrsRetired

datatype adapter_capability_class =
    FilesystemWrite | FilesystemRead | ServiceLifecycle | NetworkOutbound | VaultOperation | GpuRender
  | GpuCompute | ExternalApiCall | EvidenceEmit | SchedulerPrivileged

datatype adapter_failure_mode =
    AfmSandboxApplicationFailed | AfmAdapterTimeout | AfmAdapterPanic | AfmResourceBudgetExceeded
  | AfmDependencyUnready | AfmBackendUnavailable | AfmRollbackPreconditionFailed | AfmBindingExpired
  | AfmAdapterRefused | AfmKindOrCapabilityOverrun

datatype adapter_rollback_strategy =
    RbNone | RbIdempotentReverse | RbCheckpointBased | RbExternalRequired | RbUnspecified

record sgr_action_declaration =
  sad_action_kind :: string
  sad_target_schema :: json
  sad_response_schema :: json
  sad_rollback_strategy :: adapter_rollback_strategy
  sad_timeout_seconds :: u32
  sad_template_string :: "string option"
  sad_template_substitution_variables :: "string list"
  sad_per_action_capabilities :: "adapter_capability_class list"

record sgr_adapter_manifest =
  sam_adapter_id :: string
  sam_vendor :: string
  sam_name :: string
  sam_adapter_version :: string
  sam_spec_version :: string
  sam_declared_actions :: "sgr_action_declaration list"
  sam_declared_capabilities :: "adapter_capability_class list"
  sam_declared_invariants_supported :: "string list"
  sam_io_mode :: adapter_io_mode
  sam_preferred_dispatch_kind :: action_dispatch_kind
  sam_declared_stability :: adapter_stability
  sam_sandbox_profile_minimum :: json
  sam_declared_failure_modes :: "adapter_failure_mode list"
  sam_default_adapter_timeout_seconds :: u32
  sam_default_rollback_timeout_seconds :: u32
  sam_network_outbound_hosts :: "string list"
  sam_external_api_hosts :: "string list"
  sam_declared_evidence_record_types :: "string list"
  sam_source_package_id :: string
  sam_publisher_root_id :: string
  sam_manifest_signature :: "u8 list"
  sam_signing_key_id :: string
  sam_manifest_created_at :: instant
  sam_manifest_expires_at :: instant

record adapter_capability =
  acap_id :: string
  acap_provides :: "string list"
  acap_requires :: "string list"
  risk_template :: string
  manifest_signature_ed25519 :: "u8 list"

datatype adapter_declaration =
    DeclManifest sgr_adapter_manifest
  | DeclCapability adapter_capability

datatype adapter_registration_state = RegPending | RegActive | RegSuspended | RegRetired

record sgr_registered_adapter =
  ra_capability :: adapter_capability
  ra_declaration :: adapter_declaration
  ra_registered_at :: instant
  ra_state :: adapter_registration_state

section \<open>Payloads\<close>

record ('sk, 'vk) sgr_emitter = "('sk, 'vk) emit_env" +
  se_subject :: string

definition AIOS_SGR_SUBJECT :: string where
  "AIOS_SGR_SUBJECT = ''_system:service:service-graph-runtime''"

definition sgr_instant :: "('sk, 'vk) sgr_emitter \<Rightarrow> instant \<Rightarrow> json" where
  "sgr_instant em t = JString (ser_datetime (em_lib em) t)"

definition hex_prefix :: "u8 list \<Rightarrow> nat \<Rightarrow> string" where
  "hex_prefix bs max_bytes = concat (map hex_byte (take max_bytes bs))"

definition authority_with_signature_prefix :: "string \<Rightarrow> u8 list \<Rightarrow> string" where
  "authority_with_signature_prefix authority sig =
     (let p = hex_prefix sig 8 in if p = [] then authority else authority @ '':sig:'' @ p)"

fun adapter_signing_authority :: "sgr_registered_adapter \<Rightarrow> string" where
  "adapter_signing_authority a =
     (case ra_declaration a of
        DeclManifest m \<Rightarrow>
          authority_with_signature_prefix (sam_signing_key_id m) (manifest_signature_ed25519 (ra_capability a))
      | DeclCapability c \<Rightarrow> authority_with_signature_prefix (acap_id c) (manifest_signature_ed25519 c))"

definition unit_registered_payload :: "('sk, 'vk) sgr_emitter \<Rightarrow> service_unit \<Rightarrow> json" where
  "unit_registered_payload em u = JObject
     [(''unit_id'', JString (su_unit_id u)),
      (''kind'', JString (unit_kind_wire (um_unit_kind (su_manifest u)))),
      (''name'', JString (display_name (su_manifest u))),
      (''signing_authority'', JString (authority_with_signature_prefix
          (publisher_root_id (su_manifest u)) (publisher_signature (su_manifest u)))),
      (''registered_at'', sgr_instant em (last_transition_at u))]"

definition unit_started_payload :: "('sk, 'vk) sgr_emitter \<Rightarrow> service_unit \<Rightarrow> json" where
  "unit_started_payload em u = JObject
     [(''unit_id'', JString (su_unit_id u)), (''started_at'', sgr_instant em (last_transition_at u))]"

definition unit_stopped_payload :: "('sk, 'vk) sgr_emitter \<Rightarrow> service_unit \<Rightarrow> json" where
  "unit_stopped_payload em u = JObject
     [(''unit_id'', JString (su_unit_id u)), (''stopped_at'', sgr_instant em (last_transition_at u)),
      (''requested_by_desired_state'', JBool (um_desired_state (su_manifest u) = WantStopped))]"

definition unit_failed_payload :: "('sk, 'vk) sgr_emitter \<Rightarrow> service_unit \<Rightarrow> string \<Rightarrow> json" where
  "unit_failed_payload em u why = JObject
     [(''unit_id'', JString (su_unit_id u)), (''reason'', JString why),
      (''failed_at'', sgr_instant em (last_transition_at u))]"

definition dependency_declared_payload :: "('sk, 'vk) sgr_emitter \<Rightarrow> instant \<Rightarrow> dependency_edge \<Rightarrow> json" where
  "dependency_declared_payload em now e = JObject
     [(''from'', JString (from_unit_id e)), (''to'', JString (to_unit_id e)),
      (''kind'', JString (dependency_kind_wire (edge_kind e))), (''declared_at'', sgr_instant em now)]"

definition graph_converged_payload ::
    "('sk, 'vk) sgr_emitter \<Rightarrow> instant \<Rightarrow> graph_state \<Rightarrow> nat \<Rightarrow> json" where
  "graph_converged_payload em now g n = JObject
     [(''graph_state'', JString (graph_state_wire g)), (''unit_count'', JNumber (JInt (int n))),
      (''converged_at'', sgr_instant em now)]"

definition adapter_registered_payload :: "('sk, 'vk) sgr_emitter \<Rightarrow> sgr_registered_adapter \<Rightarrow> json" where
  "adapter_registered_payload em a = JObject
     [(''capability_id'', JString (acap_id (ra_capability a))),
      (''registered_at'', sgr_instant em (ra_registered_at a)),
      (''signing_authority'', JString (adapter_signing_authority a))]"

section \<open>The state and its computations\<close>

record sgr_state =
  sg_units :: "(unit_id \<times> service_unit) list"
  sg_dependencies :: "(unit_id \<times> dependency_edge list) list"
  sg_adapters :: "(string \<times> sgr_registered_adapter) list"
  sg_paused :: "unit_id list"
  sg_log :: "evidence_receipt list"

type_synonym 'a sgr = "sgr_state \<Rightarrow> (sgr_error, 'a) result \<times> sgr_state"

definition sgr_return :: "'a \<Rightarrow> 'a sgr" where
  "sgr_return a s = (Ok a, s)"

definition sgr_fail :: "sgr_error \<Rightarrow> 'a sgr" where
  "sgr_fail e s = (Err e, s)"

definition sgr_then :: "'a sgr \<Rightarrow> ('a \<Rightarrow> 'b sgr) \<Rightarrow> 'b sgr" where
  "sgr_then m f s = (case m s of (Inl e, s') \<Rightarrow> (Err e, s') | (Inr a, s') \<Rightarrow> f a s')"

lemma sgr_return_simp [simp]: "sgr_return a s = (Ok a, s)"
  by (simp add: sgr_return_def)

lemma sgr_fail_simp [simp]: "sgr_fail e s = (Err e, s)"
  by (simp add: sgr_fail_def)

lemma sgr_then_Ok_iff [result_simps]:
  "sgr_then m f s = (Ok b, s'') \<longleftrightarrow> (\<exists>a s'. m s = (Ok a, s') \<and> f a s' = (Ok b, s''))"
  by (auto simp: sgr_then_def split: prod.splits sum.splits)

lemma sgr_then_eq [simp]:
  "m s = (Ok a, s') \<Longrightarrow> sgr_then m f s = f a s'"
  "m s = (Err e, s') \<Longrightarrow> sgr_then m f s = (Err e, s')"
  by (simp_all add: sgr_then_def)

section \<open>Emission\<close>

text \<open>
  The log checks the receipt the caller expects at its end (every emission of the crate passes
  \<open>None\<close>), seals the builder onto it and appends the receipt.
\<close>

definition sgr_expected_previous ::
    "evidence_receipt option \<Rightarrow> string option \<Rightarrow> (evidence_error, unit) result" where
  "sgr_expected_previous previous expected =
     (case (expected, previous) of
        (None, _) \<Rightarrow> Ok ()
      | (Some e, None) \<Rightarrow>
          Err (EncodingFailed (''expected previous receipt id '' @ e @ '', but chain is empty''))
      | (Some e, Some p) \<Rightarrow>
          if receipt_id p = e then Ok ()
          else Err (EncodingFailed (''expected previous receipt id '' @ e @
                 '', but chain tail is '' @ receipt_id p)))"

definition sgr_append_signed ::
    "('sk, 'vk) sgr_emitter \<Rightarrow> receipt_builder \<Rightarrow> string option \<Rightarrow> evidence_receipt list \<Rightarrow>
     (evidence_error, evidence_receipt) result \<times> evidence_receipt list" where
  "sgr_append_signed em b expected chain =
     (case sgr_expected_previous (last_receipt chain) expected of
        Inl e \<Rightarrow> (Err e, chain)
      | Inr _ \<Rightarrow>
          (case seal_signed (em_lib em) (em_ulid em (length chain)) (em_now em (length chain)) b
                  (last_receipt chain) (em_key em) of
             Inl e \<Rightarrow> (Err e, chain)
           | Inr r \<Rightarrow> (case chain_append (em_lib em) chain r of
                         Inl e \<Rightarrow> (Err e, chain)
                       | Inr chain' \<Rightarrow> (Ok r, chain'))))"

definition sgr_emit :: "('sk, 'vk) sgr_emitter \<Rightarrow> string \<Rightarrow> json \<Rightarrow> string option \<Rightarrow> string sgr" where
  "sgr_emit em rt payload prev s =
     (case sgr_append_signed em
             (with_payload payload
               (builder_new (RecordType rt) (retention_class_for (RecordType rt)) (se_subject em)))
             prev (sg_log s) of
        (Inl e, chain') \<Rightarrow> (Err (SgrEvidenceEmitFailed (em_show em e)), s\<lparr>sg_log := chain'\<rparr>)
      | (Inr r, chain') \<Rightarrow> (Ok (receipt_id r), s\<lparr>sg_log := chain'\<rparr>))"

definition emit_unit_registered :: "('sk, 'vk) sgr_emitter \<Rightarrow> service_unit \<Rightarrow> string sgr" where
  "emit_unit_registered em u = sgr_emit em ''UNIT_REGISTERED'' (unit_registered_payload em u) None"

definition emit_unit_started :: "('sk, 'vk) sgr_emitter \<Rightarrow> service_unit \<Rightarrow> string sgr" where
  "emit_unit_started em u = sgr_emit em ''UNIT_STARTED'' (unit_started_payload em u) None"

definition emit_unit_stopped :: "('sk, 'vk) sgr_emitter \<Rightarrow> service_unit \<Rightarrow> string sgr" where
  "emit_unit_stopped em u = sgr_emit em ''UNIT_STOPPED'' (unit_stopped_payload em u) None"

definition emit_unit_failed :: "('sk, 'vk) sgr_emitter \<Rightarrow> service_unit \<Rightarrow> string \<Rightarrow> string sgr" where
  "emit_unit_failed em u why = sgr_emit em ''UNIT_FAILED'' (unit_failed_payload em u why) None"

definition emit_dependency_declared :: "('sk, 'vk) sgr_emitter \<Rightarrow> instant \<Rightarrow> dependency_edge \<Rightarrow> string sgr" where
  "emit_dependency_declared em now e =
     sgr_emit em ''GRAPH_EVALUATED'' (dependency_declared_payload em now e) None"

definition emit_graph_converged ::
    "('sk, 'vk) sgr_emitter \<Rightarrow> instant \<Rightarrow> graph_state \<Rightarrow> nat \<Rightarrow> string sgr" where
  "emit_graph_converged em now g n = sgr_emit em ''GRAPH_CONVERGED'' (graph_converged_payload em now g n) None"

definition emit_adapter_registered :: "('sk, 'vk) sgr_emitter \<Rightarrow> sgr_registered_adapter \<Rightarrow> string sgr" where
  "emit_adapter_registered em a = sgr_emit em ''ADAPTER_REGISTERED'' (adapter_registered_payload em a) None"

text \<open>\<open>if let Some(emitter) = &self.evidence_emitter { emitter.emit_...(...).await?; }\<close>\<close>

definition emit_when ::
    "('sk, 'vk) sgr_emitter option \<Rightarrow> (('sk, 'vk) sgr_emitter \<Rightarrow> string sgr) \<Rightarrow> unit sgr" where
  "emit_when em f = (case em of None \<Rightarrow> sgr_return () | Some e \<Rightarrow> sgr_then (f e) (\<lambda>_. sgr_return ()))"

section \<open>An emission touches the log only\<close>

definition only_log :: "sgr_state \<Rightarrow> sgr_state \<Rightarrow> bool" where
  "only_log s s' \<longleftrightarrow> (\<exists>l. s' = s\<lparr>sg_log := l\<rparr>)"

lemma only_log_refl [simp]: "only_log s s"
  by (auto simp: only_log_def intro: exI [of _ "sg_log s"])

lemma only_log_trans: "only_log s s' \<Longrightarrow> only_log s' s'' \<Longrightarrow> only_log s s''"
  by (auto simp: only_log_def)

lemma only_log_fields:
  "only_log s s' \<Longrightarrow> sg_units s' = sg_units s \<and> sg_dependencies s' = sg_dependencies s \<and>
     sg_adapters s' = sg_adapters s \<and> sg_paused s' = sg_paused s"
  by (auto simp: only_log_def)

lemma sgr_emit_only_log: "only_log s (snd (sgr_emit em rt p prev s))"
  by (auto simp: sgr_emit_def only_log_def split: prod.splits sum.splits)

lemmas emission_defs = emit_unit_registered_def emit_unit_started_def emit_unit_stopped_def
  emit_unit_failed_def emit_dependency_declared_def emit_graph_converged_def emit_adapter_registered_def

lemma emissions_only_log:
  "only_log s (snd (emit_unit_registered em u s))"
  "only_log s (snd (emit_unit_started em u s))"
  "only_log s (snd (emit_unit_stopped em u s))"
  "only_log s (snd (emit_unit_failed em u why s))"
  "only_log s (snd (emit_dependency_declared em now e s))"
  "only_log s (snd (emit_graph_converged em now g n s))"
  "only_log s (snd (emit_adapter_registered em a s))"
  unfolding emission_defs by (rule sgr_emit_only_log)+

lemma emit_when_only_log:
  assumes "\<And>e. only_log s (snd (f e s))"
  shows "only_log s (snd (emit_when em f s))"
proof (cases em)
  case (Some e)
  then show ?thesis
    using assms [of e] by (cases "f e s"; cases "fst (f e s)") (auto simp: emit_when_def sgr_then_def)
qed (simp add: emit_when_def)

end
