(* ===== verification/Sgr_Graph.thy ===== *)
theory Sgr_Graph
  imports Sgr_Evidence Labelled_Runs "HOL-Library.Countable"
begin

text \<open>
  The in-memory service graph, \<open>in_memory_graph.rs\<close>: the check of a manifest's signature, the registration
  of units, the declaration of dependencies, the summary state of the graph and the guarded change of a
  unit's state. The unit map is an association list whose order stands for the iteration order of the
  \<open>HashMap\<close>. A dependency edge runs from the unit that depends to the unit it needs.
\<close>

section \<open>The signed body of a manifest\<close>

record 'vk sgr_lib =
  sl_show_f64 :: "f64 \<Rightarrow> string"
  sl_show_datetime :: "instant \<Rightarrow> string"
  sl_to_vec :: "json \<Rightarrow> (string, u8 list) result"
  sl_blake3 :: "u8 list \<Rightarrow> u8 list"
  sl_verify :: "'vk \<Rightarrow> u8 list \<Rightarrow> u8 list \<Rightarrow> bool"

definition json_word :: "'l::len word \<Rightarrow> json" where
  "json_word w = JNumber (JInt (uint w))"

text \<open>\<open>serde_json\<close> writes a float that is not finite as \<open>null\<close>.\<close>

definition json_f64 :: "'vk sgr_lib \<Rightarrow> f64 \<Rightarrow> json" where
  "json_f64 lib x = (if is_finite x then JNumber (JFloat (sl_show_f64 lib x)) else JNull)"

definition json_opt :: "json option \<Rightarrow> json" where
  "json_opt v = (case v of None \<Rightarrow> JNull | Some j \<Rightarrow> j)"

definition dependency_json :: "unit_dependency \<Rightarrow> json" where
  "dependency_json d = JObject
     [(''unit_id'', JString (ud_unit_id d)), (''kind'', JString (dependency_kind_wire (ud_kind d)))]"

definition sgr_verification_intent_json :: "verification_intent_ref \<Rightarrow> json" where
  "sgr_verification_intent_json v = JObject [(''type'', JString (vi_type v)), (''args'', vi_args v)]"

definition rollback_pointer_json :: "rollback_pointer \<Rightarrow> json" where
  "rollback_pointer_json r = JObject
     [(''aiosfs_pointer_id'', JString (aiosfs_pointer_id r)),
      (''expected_current_version_id'', JString (expected_current_version_id r)),
      (''trigger'', JString (rollback_trigger_wire (rp_trigger r)))]"

definition gpu_budget_json :: "gpu_budget \<Rightarrow> json" where
  "gpu_budget_json g = JObject
     [(''requires_compute'', JBool (requires_compute g)), (''vram_bytes_max'', json_word (vram_bytes_max g))]"

definition resource_budget_json :: "'vk sgr_lib \<Rightarrow> resource_budget \<Rightarrow> json" where
  "resource_budget_json lib b = JObject (
     [(''memory_bytes_max'', json_word (memory_bytes_max b)),
      (''cpu_quota_cores'', json_f64 lib (cpu_quota_cores b)),
      (''disk_bytes_max'', json_word (disk_bytes_max b)),
      (''file_descriptors_max'', json_word (file_descriptors_max b)),
      (''process_count_max'', json_word (process_count_max b)),
      (''queue_depth_max'', json_word (queue_depth_max b))] @
     (case gpu b of None \<Rightarrow> [] | Some g \<Rightarrow> [(''gpu'', gpu_budget_json g)]))"

definition restart_budget_json :: "restart_budget \<Rightarrow> json" where
  "restart_budget_json b = JObject
     [(''max_attempts'', json_word (max_attempts b)),
      (''reset_window_seconds'', json_word (reset_window_seconds b)),
      (''backoff_initial_seconds'', json_word (backoff_initial_seconds b)),
      (''backoff_max_seconds'', json_word (backoff_max_seconds b))]"

definition health_check_json :: "health_check_spec \<Rightarrow> json" where
  "health_check_json h = JObject
     [(''kind'', JString (health_check_kind_wire (hc_kind h))),
      (''probe_interval_seconds'', json_word (probe_interval_seconds h)),
      (''probe_timeout_seconds'', json_word (probe_timeout_seconds h)),
      (''startup_grace_seconds'', json_word (startup_grace_seconds h)),
      (''unhealthy_threshold'', json_word (unhealthy_threshold h)),
      (''healthy_threshold'', json_word (healthy_threshold h)),
      (''args'', hc_args h)]"

text \<open>Every field of the manifest but \<open>publisher_signature\<close> and \<open>canonical_hash\<close>, in the order of the struct.\<close>

definition signed_unit_manifest_body :: "'vk sgr_lib \<Rightarrow> unit_manifest \<Rightarrow> json" where
  "signed_unit_manifest_body lib m = JObject
     [(''schema_version'', JString (um_schema_version m)),
      (''unit_id'', JString (um_unit_id m)),
      (''unit_kind'', JString (unit_kind_wire (um_unit_kind m))),
      (''display_name'', JString (display_name m)),
      (''description'', JString (um_description m)),
      (''issued_at'', JString (sl_show_datetime lib (um_issued_at m))),
      (''publisher_id'', JString (publisher_id m)),
      (''publisher_root_id'', JString (publisher_root_id m)),
      (''dependencies'', JArray (map dependency_json (dependencies m))),
      (''sandbox_profile_ref'', JString (sandbox_profile_ref m)),
      (''verification_intent'', JArray (map sgr_verification_intent_json (um_verification_intent m))),
      (''rollback_pointer'', rollback_pointer_json (um_rollback_pointer m)),
      (''resource_budget'', resource_budget_json lib (um_resource_budget m)),
      (''restart_policy'', JString (restart_policy_wire (um_restart_policy m))),
      (''restart_budget'', restart_budget_json (um_restart_budget m)),
      (''health_check'', health_check_json (um_health_check m)),
      (''startup_deadline_seconds'', json_word (startup_deadline_seconds m)),
      (''stop_deadline_seconds'', json_word (stop_deadline_seconds m)),
      (''adapter_target'', um_adapter_target m),
      (''labels'', json_opt (um_labels m)),
      (''correlation_id'', opt_str_json (um_correlation_id m)),
      (''desired_state'', JString (desired_state_wire (um_desired_state m))),
      (''provides'', JArray (map JString (um_provides m))),
      (''adapter_id'', opt_str_json (um_adapter_id m))]"

definition canonical_manifest_digest :: "'vk sgr_lib \<Rightarrow> unit_manifest \<Rightarrow> (sgr_error, u8 list) result" where
  "canonical_manifest_digest lib m =
     (case sl_to_vec lib (signed_unit_manifest_body lib m) of
        Inl e \<Rightarrow> Err (SgrInternal (''unit manifest serialise: '' @ e))
      | Inr bs \<Rightarrow> Ok (sl_blake3 lib bs))"

record ('sk, 'vk) graph_env =
  ge_lib :: "'vk sgr_lib"
  trusted_authorities :: "(string \<times> 'vk) list"
  ge_emitter :: "('sk, 'vk) sgr_emitter option"

definition verify_manifest :: "('sk, 'vk) graph_env \<Rightarrow> unit_manifest \<Rightarrow> (sgr_error, unit) result" where
  "verify_manifest env m =
     (case map_of (trusted_authorities env) (publisher_root_id m) of
        None \<Rightarrow> Err (ManifestUnknownAuthority (publisher_root_id m))
      | Some vk \<Rightarrow>
          if length (publisher_signature m) \<noteq> 64 then Err ManifestSignatureInvalid
          else try_then (canonical_manifest_digest (ge_lib env) m) (\<lambda>digest.
            if um_canonical_hash m \<noteq> take 32 (concat (map hex_byte digest)) then Err ManifestSignatureInvalid
            else if sl_verify (ge_lib env) vk digest (publisher_signature m) then Ok ()
            else Err ManifestSignatureInvalid))"

section \<open>Operations of the graph\<close>

definition declared_edges :: "unit_manifest \<Rightarrow> dependency_edge list" where
  "declared_edges m = map (\<lambda>d. \<lparr>from_unit_id = um_unit_id m, to_unit_id = ud_unit_id d, edge_kind = ud_kind d\<rparr>)
     (dependencies m)"

definition new_service_unit :: "instant \<Rightarrow> unit_manifest \<Rightarrow> service_unit" where
  "new_service_unit now m =
     \<lparr>su_unit_id = um_unit_id m, su_manifest = m, su_state = UnitQueued, last_transition_at = now,
      su_evidence_chain = []\<rparr>"

text \<open>\<open>dependencies.entry(unit_id).or_default().extend(edges)\<close>\<close>

definition extend_edges :: "unit_id \<Rightarrow> dependency_edge list \<Rightarrow> sgr_state \<Rightarrow> sgr_state" where
  "extend_edges uid es s = s\<lparr>sg_dependencies :=
     AList.update uid (case_option [] id (map_of (sg_dependencies s) uid) @ es) (sg_dependencies s)\<rparr>"

definition register_unit :: "('sk, 'vk) graph_env \<Rightarrow> instant \<Rightarrow> unit_manifest \<Rightarrow> service_unit sgr" where
  "register_unit env now m s =
     (case verify_manifest env m of
        Inl e \<Rightarrow> (Err e, s)
      | Inr _ \<Rightarrow>
          let uid = um_unit_id m; edges = declared_edges m; unit = new_service_unit now m in
          if map_of (sg_units s) uid \<noteq> None then (Err (UnitAlreadyRegistered uid), s)
          else (case find (\<lambda>e. to_unit_id e \<noteq> uid \<and> map_of (sg_units s) (to_unit_id e) = None) edges of
                 Some e \<Rightarrow> (Err (DependencyTargetNotRegistered (to_unit_id e)), s)
               | None \<Rightarrow>
                   let s1 = s\<lparr>sg_units := AList.update uid unit (sg_units s)\<rparr>;
                       s2 = (if edges = [] then s1 else extend_edges uid edges s1)
                   in sgr_then (emit_when (ge_emitter env) (\<lambda>em. emit_unit_registered em unit))
                        (\<lambda>_. sgr_return unit) s2))"

definition get_unit :: "unit_id \<Rightarrow> service_unit sgr" where
  "get_unit uid s =
     (case map_of (sg_units s) uid of None \<Rightarrow> (Err (UnitNotFound uid), s) | Some u \<Rightarrow> (Ok u, s))"

definition list_units :: "service_unit list sgr" where
  "list_units s = (Ok (map snd (sg_units s)), s)"

definition declare_dependency ::
    "('sk, 'vk) graph_env \<Rightarrow> instant \<Rightarrow> unit_id \<Rightarrow> unit_id \<Rightarrow> dependency_kind \<Rightarrow> dependency_edge sgr" where
  "declare_dependency env now frm to kind s =
     (if map_of (sg_units s) frm = None then (Err (UnitNotFound frm), s)
      else if map_of (sg_units s) to = None then (Err (DependencyTargetNotRegistered to), s)
      else let edge = \<lparr>from_unit_id = frm, to_unit_id = to, edge_kind = kind\<rparr>
           in sgr_then (emit_when (ge_emitter env) (\<lambda>em. emit_dependency_declared em now edge))
                (\<lambda>_. sgr_return edge) (extend_edges frm [edge] s))"

definition edges_of :: "sgr_state \<Rightarrow> unit_id \<Rightarrow> dependency_edge list" where
  "edges_of s uid = case_option [] id (map_of (sg_dependencies s) uid)"

definition list_dependencies :: "unit_id \<Rightarrow> dependency_edge list sgr" where
  "list_dependencies uid s =
     (if map_of (sg_units s) uid = None then (Err (UnitNotFound uid), s) else (Ok (edges_of s uid), s))"

definition eq_ignore_ascii_case :: "string \<Rightarrow> string \<Rightarrow> bool" where
  "eq_ignore_ascii_case a b \<longleftrightarrow> map to_ascii_lowercase a = map to_ascii_lowercase b"

definition label_of :: "service_unit \<Rightarrow> string \<Rightarrow> json option" where
  "label_of u k = Option.bind (um_labels (su_manifest u)) (\<lambda>l. json_get l k)"

definition is_critical_unit :: "service_unit \<Rightarrow> bool" where
  "is_critical_unit u =
     (case Option.bind (label_of u ''criticality'') as_str of
        None \<Rightarrow> False | Some v \<Rightarrow> eq_ignore_ascii_case v ''critical'')"

text \<open>The part of the summary that \<open>graph_state\<close> and the evaluator's \<open>convergence_state\<close> write alike.\<close>

definition failed_units :: "service_unit list \<Rightarrow> service_unit list" where
  "failed_units us = filter (\<lambda>u. su_state u = UnitFailed) us"

definition is_transitional :: "unit_state \<Rightarrow> bool" where
  "is_transitional st \<longleftrightarrow> st \<in> {UnitDraft, UnitQueued, UnitStarting, UnitStopping}"

definition graph_state_of :: "graph_state sgr" where
  "graph_state_of s =
     (let us = map snd (sg_units s) in
      (Ok (if us = [] then GraphEmpty
           else if list_ex (\<lambda>u. su_state u = UnitFailed) us
           then (if list_ex (\<lambda>u. su_state u = UnitFailed \<and> is_critical_unit u) us \<or>
                    length (failed_units us) = length us
                 then GraphFailed else GraphDegraded)
           else if list_ex (\<lambda>u. su_state u \<in> {UnitDegraded, UnitUnhealthy, UnitRetired}) us then GraphDegraded
           else if list_ex (\<lambda>u. is_transitional (su_state u)) us then GraphConverging
           else GraphConverged), s))"

definition is_valid_transition :: "unit_state \<Rightarrow> unit_state \<Rightarrow> bool" where
  "is_valid_transition frm to \<longleftrightarrow>
     (frm \<in> {UnitDraft, UnitStopped} \<and> to \<in> {UnitQueued, UnitRetired}) \<or>
     (frm \<in> {UnitQueued, UnitFailed} \<and> to \<in> {UnitStarting, UnitRetired}) \<or>
     (frm = UnitStarting \<and> to \<in> {UnitRunning, UnitFailed}) \<or>
     (frm = UnitRunning \<and> to \<in> {UnitHealthy, UnitStopped, UnitFailed}) \<or>
     (frm = UnitHealthy \<and> to \<in> {UnitDegraded, UnitUnhealthy, UnitStopping}) \<or>
     (frm = UnitDegraded \<and> to \<in> {UnitHealthy, UnitUnhealthy, UnitStopping}) \<or>
     (frm = UnitUnhealthy \<and> to \<in> {UnitHealthy, UnitStarting, UnitFailed, UnitStopping}) \<or>
     (frm = UnitStopping \<and> to \<in> {UnitStopped, UnitFailed})"

definition set_unit_state :: "instant \<Rightarrow> unit_id \<Rightarrow> unit_state \<Rightarrow> service_unit sgr" where
  "set_unit_state now uid new s =
     (case map_of (sg_units s) uid of
        None \<Rightarrow> (Err (UnitNotFound uid), s)
      | Some u \<Rightarrow>
          if \<not> is_valid_transition (su_state u) new then (Err (InvalidStateTransition (su_state u) new), s)
          else let u' = u\<lparr>su_state := new, last_transition_at := now\<rparr>
               in (Ok u', s\<lparr>sg_units := AList.update uid u' (sg_units s)\<rparr>))"

section \<open>Runs of the graph\<close>

text \<open>
  What the calls of the crate do to the graph: a registration, a declaration, a change of state, or
  nothing (an emission, a change of the adapters or of the set of paused units).
\<close>

definition same_graph :: "sgr_state \<Rightarrow> sgr_state \<Rightarrow> bool" where
  "same_graph s s' \<longleftrightarrow> sg_units s' = sg_units s \<and> sg_dependencies s' = sg_dependencies s"

inductive graph_step :: "('sk, 'vk) graph_env \<Rightarrow> sgr_state \<Rightarrow> sgr_state \<Rightarrow> bool"
  for env :: "('sk, 'vk) graph_env" where
  step_register: "register_unit env now m s = (r, s') \<Longrightarrow> graph_step env s s'"
| step_declare: "declare_dependency env now frm to kind s = (r, s') \<Longrightarrow> graph_step env s s'"
| step_set: "set_unit_state now uid new s = (r, s') \<Longrightarrow> graph_step env s s'"
| step_same: "same_graph s s' \<Longrightarrow> graph_step env s s'"

abbreviation graph_reaches :: "('sk, 'vk) graph_env \<Rightarrow> sgr_state \<Rightarrow> sgr_state \<Rightarrow> bool" where
  "graph_reaches env \<equiv> (graph_step env)\<^sup>*\<^sup>*"

text \<open>
  The invariant: the maps are keyed by the identifiers inside, every manifest carries a valid signature
  of a trusted authority, and every edge joins two registered units.
\<close>

definition graph_inv :: "('sk, 'vk) graph_env \<Rightarrow> sgr_state \<Rightarrow> bool" where
  "graph_inv env s \<longleftrightarrow>
     distinct (map fst (sg_units s)) \<and>
     (\<forall>uid u. map_of (sg_units s) uid = Some u \<longrightarrow>
        su_unit_id u = uid \<and> um_unit_id (su_manifest u) = uid \<and> verify_manifest env (su_manifest u) = Ok ()) \<and>
     (\<forall>uid. \<forall>e \<in> set (edges_of s uid). from_unit_id e = uid \<and>
        map_of (sg_units s) uid \<noteq> None \<and> map_of (sg_units s) (to_unit_id e) \<noteq> None)"

definition empty_graph :: sgr_state where
  "empty_graph = \<lparr>sg_units = [], sg_dependencies = [], sg_adapters = [], sg_paused = [], sg_log = []\<rparr>"

lemma graph_inv_empty: "graph_inv env empty_graph"
  by (simp add: graph_inv_def empty_graph_def edges_of_def)

lemma extend_edges_fields [simp]:
  "sg_units (extend_edges uid es s) = sg_units s" "sg_log (extend_edges uid es s) = sg_log s"
  "sg_adapters (extend_edges uid es s) = sg_adapters s" "sg_paused (extend_edges uid es s) = sg_paused s"
  by (simp_all add: extend_edges_def)

lemma edges_of_extend: "edges_of (extend_edges uid es s) i = (if i = uid then edges_of s uid @ es else edges_of s i)"
  by (simp add: edges_of_def extend_edges_def AList.update_conv')

lemma only_log_same: "only_log s s' \<Longrightarrow> same_graph s s'"
  by (auto simp: only_log_def same_graph_def)

lemma same_graph_refl [simp]: "same_graph s s"
  by (simp add: same_graph_def)

lemma same_graph_trans: "same_graph s s' \<Longrightarrow> same_graph s' s'' \<Longrightarrow> same_graph s s''"
  by (simp add: same_graph_def)

lemma same_graph_inv: "same_graph s s' \<Longrightarrow> graph_inv env s' \<longleftrightarrow> graph_inv env s"
  by (simp add: same_graph_def graph_inv_def edges_of_def)

text \<open>An emission after the change returns the value or an error and keeps the graph.\<close>

lemma emit_then_return:
  assumes "\<And>e. only_log s (snd (f e s))"
    and "sgr_then (emit_when em f) (\<lambda>_. sgr_return a) s = (r, s')"
  shows "only_log s s' \<and> (r = Ok a \<or> (\<exists>e. r = Err e))"
proof -
  obtain q s1 where q: "emit_when em f s = (q, s1)" by (cases "emit_when em f s")
  have "only_log s s1" using emit_when_only_log [of s f em] assms(1) q by simp
  then show ?thesis using assms(2) q by (cases q) (auto simp: sgr_then_def)
qed

lemma register_unit_cases:
  assumes "register_unit env now m s = (r, s')"
  obtains e where "r = Err e" "s' = s"
  | "verify_manifest env m = Ok ()" "map_of (sg_units s) (um_unit_id m) = None"
    "\<forall>d \<in> set (dependencies m). ud_unit_id d = um_unit_id m \<or> map_of (sg_units s) (ud_unit_id d) \<noteq> None"
    "sg_units s' = AList.update (um_unit_id m) (new_service_unit now m) (sg_units s)"
    "\<forall>i. edges_of s' i = (if i = um_unit_id m then edges_of s i @ declared_edges m else edges_of s i)"
    "sg_adapters s' = sg_adapters s" "sg_paused s' = sg_paused s"
    "r = Ok (new_service_unit now m) \<or> (\<exists>e. r = Err e)"
proof (cases "s' = s \<and> (\<exists>e. r = Err e)")
  case True
  then show thesis using that(1) by blast
next
  case False
  let ?u = "new_service_unit now m" and ?id = "um_unit_id m"
  let ?s1 = "s\<lparr>sg_units := AList.update ?id ?u (sg_units s)\<rparr>"
  let ?s2 = "if declared_edges m = [] then ?s1 else extend_edges ?id (declared_edges m) ?s1"
  have v: "verify_manifest env m = Ok ()" and n: "map_of (sg_units s) ?id = None"
    and f: "find (\<lambda>e. to_unit_id e \<noteq> ?id \<and> map_of (sg_units s) (to_unit_id e) = None) (declared_edges m) = None"
    and t: "sgr_then (emit_when (ge_emitter env) (\<lambda>em. emit_unit_registered em ?u)) (\<lambda>_. sgr_return ?u) ?s2 = (r, s')"
    using assms False by (auto simp: register_unit_def Let_def split: sum.splits if_splits option.splits)
  have l: "only_log ?s2 s'" and r: "r = Ok ?u \<or> (\<exists>e. r = Err e)"
    using emit_then_return [OF emissions_only_log(1) t] by auto
  have u: "sg_units s' = AList.update ?id ?u (sg_units s)" "sg_adapters s' = sg_adapters s" "sg_paused s' = sg_paused s"
    using only_log_fields [OF l] by (auto split: if_splits)
  have e: "edges_of s' i = edges_of ?s2 i" for i
    using only_log_fields [OF l] by (simp add: edges_of_def)
  have "edges_of s' i = (if i = ?id then edges_of s i @ declared_edges m else edges_of s i)" for i
    unfolding e by (auto simp: edges_of_extend) (auto simp: edges_of_def)
  then show thesis using that(2) v n u r f
    by (auto simp: find_eq_None_iff declared_edges_def)
qed

lemma declare_dependency_cases:
  assumes "declare_dependency env now frm to kind s = (r, s')"
  obtains e where "r = Err e" "s' = s"
  | "map_of (sg_units s) frm \<noteq> None" "map_of (sg_units s) to \<noteq> None"
    "sg_units s' = sg_units s" "sg_adapters s' = sg_adapters s" "sg_paused s' = sg_paused s"
    "\<forall>i. edges_of s' i = (if i = frm then edges_of s i @ [\<lparr>from_unit_id = frm, to_unit_id = to, edge_kind = kind\<rparr>]
                     else edges_of s i)"
proof (cases "s' = s \<and> (\<exists>e. r = Err e)")
  case True
  then show thesis using that(1) by blast
next
  case False
  let ?e = "\<lparr>from_unit_id = frm, to_unit_id = to, edge_kind = kind\<rparr>"
  have reg: "map_of (sg_units s) frm \<noteq> None" "map_of (sg_units s) to \<noteq> None"
    and t: "sgr_then (emit_when (ge_emitter env) (\<lambda>em. emit_dependency_declared em now ?e)) (\<lambda>_. sgr_return ?e)
              (extend_edges frm [?e] s) = (r, s')"
    using assms False by (auto simp: declare_dependency_def Let_def split: if_splits)
  have l: "only_log (extend_edges frm [?e] s) s'"
    using emit_then_return [OF emissions_only_log(5) t] by blast
  then have "edges_of s' i = edges_of (extend_edges frm [?e] s) i" for i
    using only_log_fields [OF l] by (simp add: edges_of_def)
  then show thesis
    using that(2) reg only_log_fields [OF l] by (simp add: edges_of_extend)
qed

lemma set_unit_state_cases:
  assumes "set_unit_state now uid new s = (r, s')"
  obtains e where "r = Err e" "s' = s"
  | u where "map_of (sg_units s) uid = Some u" "is_valid_transition (su_state u) new"
    "r = Ok (u\<lparr>su_state := new, last_transition_at := now\<rparr>)"
    "s' = s\<lparr>sg_units := AList.update uid (u\<lparr>su_state := new, last_transition_at := now\<rparr>) (sg_units s)\<rparr>"
  using assms by (auto simp: set_unit_state_def Let_def split: option.splits if_splits)

lemma declared_edges_ends:
  "e \<in> set (declared_edges m) \<Longrightarrow> from_unit_id e = um_unit_id m \<and> to_unit_id e \<in> ud_unit_id ` set (dependencies m)"
  by (auto simp: declared_edges_def)

lemma graph_inv_step:
  assumes "graph_step env s s'" and inv: "graph_inv env s"
  shows "graph_inv env s'"
  using assms(1)
proof cases
  case (step_register now m r)
  from step_register show ?thesis
  proof (cases rule: register_unit_cases)
    case 2
    have "from_unit_id e = i \<and> map_of (sg_units s') i \<noteq> None \<and> map_of (sg_units s') (to_unit_id e) \<noteq> None"
      if "e \<in> set (edges_of s' i)" for e i
      using that 2(3,4,5) inv declared_edges_ends [of e m]
      by (auto simp: graph_inv_def AList.update_conv' split: if_splits) blast
    then show ?thesis
      using inv 2 unfolding graph_inv_def
      by (auto simp: AList.update_conv' AList.distinct_update new_service_unit_def)
  qed (use inv in simp)
next
  case (step_declare now frm to kind r)
  then show ?thesis
    by (cases rule: declare_dependency_cases) (use inv in \<open>auto simp: graph_inv_def split: if_splits\<close>)
next
  case (step_set now uid new r)
  from step_set show ?thesis
  proof (cases rule: set_unit_state_cases)
    case (2 u)
    then have "edges_of s' = edges_of s" by (simp add: edges_of_def fun_eq_iff)
    then show ?thesis
      using inv 2 unfolding graph_inv_def by (auto simp: AList.update_conv' AList.distinct_update)
  qed (use inv in simp)
qed (use inv same_graph_inv in blast)

lemma graph_inv_reaches: "graph_reaches env s s' \<Longrightarrow> graph_inv env s \<Longrightarrow> graph_inv env s'"
  by (induction rule: rtranclp_induct) (auto intro: graph_inv_step)

text \<open>
  What a step keeps of a unit: its manifest and its edges stay, and its state moves along the table
  of legal transitions or not at all.
\<close>

definition unit_follows :: "service_unit \<Rightarrow> service_unit \<Rightarrow> bool" where
  "unit_follows u u' \<longleftrightarrow> su_unit_id u' = su_unit_id u \<and> su_manifest u' = su_manifest u \<and>
     is_valid_transition\<^sup>*\<^sup>* (su_state u) (su_state u')"

lemma unit_follows_refl [simp]: "unit_follows u u"
  by (simp add: unit_follows_def)

lemma unit_follows_trans: "unit_follows u v \<Longrightarrow> unit_follows v w \<Longrightarrow> unit_follows u w"
  by (auto simp: unit_follows_def)

lemma step_unit_follows:
  assumes "graph_step env s s'" and "map_of (sg_units s) uid = Some u"
  shows "\<exists>u'. map_of (sg_units s') uid = Some u' \<and> unit_follows u u' \<and> prefix (edges_of s uid) (edges_of s' uid)"
  using assms(1)
proof cases
  case (step_register now m r)
  then show ?thesis
    by (cases rule: register_unit_cases) (use assms(2) in \<open>auto simp: AList.update_conv'\<close>)
next
  case (step_declare now frm to kind r)
  then show ?thesis
    by (cases rule: declare_dependency_cases) (use assms(2) in auto)
next
  case (step_set now i new r)
  then show ?thesis
    by (cases rule: set_unit_state_cases)
      (use assms(2) in \<open>auto simp: AList.update_conv' unit_follows_def edges_of_def\<close>)
qed (use assms(2) in \<open>auto simp: same_graph_def edges_of_def\<close>)

lemma reaches_unit_follows:
  assumes "graph_reaches env s s'" and "map_of (sg_units s) uid = Some u"
  shows "\<exists>u'. map_of (sg_units s') uid = Some u' \<and> unit_follows u u' \<and> prefix (edges_of s uid) (edges_of s' uid)"
  using assms(1)
proof (induction rule: rtranclp_induct)
  case base
  then show ?case using assms(2) by simp
next
  case (step t t')
  then show ?case using step_unit_follows [OF step.hyps(2)]
    by (metis unit_follows_trans prefix_order.trans)
qed

text \<open>
  The transitions the specification allows, row by row as in the table of \<open>01_unit_manifest.md\<close>, section 3.2.1. The guard
  of the graph admits exactly these.
\<close>

definition allowed_unit_transitions :: "(unit_state \<times> unit_state) list" where
  "allowed_unit_transitions =
     [(UnitDraft, UnitQueued), (UnitDraft, UnitRetired),
      (UnitQueued, UnitStarting), (UnitQueued, UnitRetired),
      (UnitStarting, UnitRunning), (UnitStarting, UnitFailed),
      (UnitRunning, UnitHealthy), (UnitRunning, UnitStopped), (UnitRunning, UnitFailed),
      (UnitHealthy, UnitDegraded), (UnitHealthy, UnitUnhealthy), (UnitHealthy, UnitStopping),
      (UnitDegraded, UnitHealthy), (UnitDegraded, UnitUnhealthy), (UnitDegraded, UnitStopping),
      (UnitUnhealthy, UnitHealthy), (UnitUnhealthy, UnitStarting), (UnitUnhealthy, UnitFailed), (UnitUnhealthy, UnitStopping),
      (UnitStopping, UnitStopped), (UnitStopping, UnitFailed),
      (UnitStopped, UnitQueued), (UnitStopped, UnitRetired),
      (UnitFailed, UnitStarting), (UnitFailed, UnitRetired)]"

lemma valid_iff_allowed: "is_valid_transition frm to \<longleftrightarrow> (frm, to) \<in> set allowed_unit_transitions"
  by (cases frm; cases to) (simp_all add: is_valid_transition_def allowed_unit_transitions_def)

text \<open>What one step does to the units: at most one changes its state, and a unit that is new is queued.\<close>

definition unit_step :: "sgr_state \<Rightarrow> sgr_state \<Rightarrow> unit_id \<Rightarrow> bool" where
  "unit_step s s' uid \<longleftrightarrow>
     (case (map_of (sg_units s) uid, map_of (sg_units s') uid) of
        (None, None) \<Rightarrow> True
      | (None, Some u') \<Rightarrow> su_state u' = UnitQueued
      | (Some u, None) \<Rightarrow> False
      | (Some u, Some u') \<Rightarrow> su_manifest u' = su_manifest u \<and>
          (u' = u \<or> (su_state u, su_state u') \<in> set allowed_unit_transitions \<and>
             (\<forall>i. i = uid \<or> map_of (sg_units s') i = map_of (sg_units s) i)))"

lemma step_unit_step:
  assumes "graph_step env s s'"
  shows "unit_step s s' uid"
  using assms
proof cases
  case (step_register now m r)
  then show ?thesis
    by (cases rule: register_unit_cases)
      (auto simp: unit_step_def AList.update_conv' new_service_unit_def split: option.splits)
next
  case (step_declare now frm to kind r)
  then show ?thesis
    by (cases rule: declare_dependency_cases) (auto simp: unit_step_def split: option.splits)
next
  case (step_set now i new r)
  then show ?thesis
    by (cases rule: set_unit_state_cases)
      (auto simp: unit_step_def AList.update_conv' valid_iff_allowed split: option.splits)
qed (auto simp: unit_step_def same_graph_def split: option.splits)

lemma step_edges_grow:
  assumes "graph_step env s s'"
  shows "prefix (edges_of s uid) (edges_of s' uid)"
  using assms
proof cases
  case (step_register now m r)
  then show ?thesis by (cases rule: register_unit_cases) auto
next
  case (step_declare now frm to kind r)
  then show ?thesis by (cases rule: declare_dependency_cases) auto
next
  case (step_set now i new r)
  then show ?thesis by (cases rule: set_unit_state_cases) (auto simp: edges_of_def)
qed (auto simp: same_graph_def edges_of_def)

text \<open>No unit of a reachable graph is a draft: units enter queued, and no transition leads back.\<close>

lemma reached_not_draft:
  assumes "graph_reaches env empty_graph s"
  shows "map_of (sg_units s) uid = Some u \<Longrightarrow> su_state u \<noteq> UnitDraft"
  using assms
proof (induction arbitrary: u rule: rtranclp_induct)
  case (step s s')
  then show ?case
    using step_unit_step [OF step.hyps(2), of uid]
    by (auto simp: unit_step_def allowed_unit_transitions_def split: option.splits)
qed (simp add: empty_graph_def)

lemma retired_stays: "is_valid_transition\<^sup>*\<^sup>* UnitRetired st \<Longrightarrow> st = UnitRetired"
  by (induction rule: rtranclp_induct) (auto simp: is_valid_transition_def)

section \<open>What the signature covers\<close>

lemma wires_inject [simp]:
  "unit_kind_wire k = unit_kind_wire k' \<longleftrightarrow> k = k'"
  "desired_state_wire d = desired_state_wire d' \<longleftrightarrow> d = d'"
  "restart_policy_wire p = restart_policy_wire p' \<longleftrightarrow> p = p'"
  "health_check_kind_wire h = health_check_kind_wire h' \<longleftrightarrow> h = h'"
  "rollback_trigger_wire r = rollback_trigger_wire r' \<longleftrightarrow> r = r'"
  "dependency_kind_wire e = dependency_kind_wire e' \<longleftrightarrow> e = e'"
  by ((cases k; cases k'; simp), (cases d; cases d'; simp), (cases p; cases p'; simp), (cases h; cases h'; simp),
      (cases r; cases r'; simp), (cases e; cases e'; simp))

lemma json_word_inject [simp]: "json_word w = json_word w' \<longleftrightarrow> w = w'"
  by (simp add: json_word_def word_uint_eq_iff)

lemma dependency_json_inject [simp]: "dependency_json d = dependency_json d' \<longleftrightarrow> d = d'"
  by (cases d; cases d') (simp add: dependency_json_def)

lemma sgr_verification_intent_json_inject [simp]: "sgr_verification_intent_json v = sgr_verification_intent_json v' \<longleftrightarrow> v = v'"
  by (cases v; cases v') (simp add: sgr_verification_intent_json_def)

lemma rollback_pointer_json_inject [simp]: "rollback_pointer_json r = rollback_pointer_json r' \<longleftrightarrow> r = r'"
  by (cases r; cases r') (simp add: rollback_pointer_json_def)

lemma restart_budget_json_inject [simp]: "restart_budget_json b = restart_budget_json b' \<longleftrightarrow> b = b'"
  by (cases b; cases b') (simp add: restart_budget_json_def)

lemma health_check_json_inject [simp]: "health_check_json h = health_check_json h' \<longleftrightarrow> h = h'"
  by (cases h; cases h') (simp add: health_check_json_def)

lemma gpu_budget_json_inject [simp]: "gpu_budget_json g = gpu_budget_json g' \<longleftrightarrow> g = g'"
  by (cases g; cases g') (simp add: gpu_budget_json_def)









section \<open>Guarantees\<close>


text \<open>
  C21: In every step of every run of the graph's operations, from the empty graph on, the graph stays closed (each
  edge joins registered units), declared edges are only ever added, no unit disappears or changes its
  manifest, a unit that appears is queued, and when a unit changes, then its state goes from one
  row of the specification's table of allowed transitions to its other side, and no other unit changes in the same step. In
  particular a retired unit never changes again.
\<close>

theorem graph_runs_are_legal:
  assumes "graph_reaches env empty_graph s" and "graph_step env s s'"
  shows "graph_inv env s' \<and> prefix (edges_of s uid) (edges_of s' uid) \<and>
     (case map_of (sg_units s) uid of
        None \<Rightarrow> (case map_of (sg_units s') uid of None \<Rightarrow> True | Some u' \<Rightarrow> su_state u' = UnitQueued)
      | Some u \<Rightarrow> \<exists>u'. map_of (sg_units s') uid = Some u' \<and> su_manifest u' = su_manifest u \<and>
          (u' = u \<or> (su_state u, su_state u') \<in> set allowed_unit_transitions \<and>
             (\<forall>i. i = uid \<or> map_of (sg_units s') i = map_of (sg_units s) i)))"
proof -
  have "graph_inv env s'" using graph_inv_step [OF assms(2)] graph_inv_reaches [OF assms(1) graph_inv_empty] by blast
  then show ?thesis
    using step_unit_step [OF assms(2), of uid] step_edges_grow [OF assms(2), of uid]
    by (auto simp: unit_step_def split: option.splits)
qed

section \<open>A sample graph\<close>

definition sample_tally :: "char \<Rightarrow> int \<Rightarrow> string" where
  "sample_tally c z = replicate (nat (if z < 0 then - 2 * z - 1 else 2 * z)) c"


fun sample_show_f64 :: "f64 \<Rightarrow> string" where
  "sample_show_f64 (Finite r) = (case quotient_of r of (a, b) \<Rightarrow> sample_tally (CHR ''a'') a @ sample_tally (CHR ''b'') b)"
| "sample_show_f64 _ = ''''"


definition sample_manifest :: "unit_id \<Rightarrow> unit_dependency list \<Rightarrow> unit_manifest" where
  "sample_manifest uid ds =
     \<lparr>um_schema_version = ''1'', um_unit_id = uid, um_unit_kind = KindService, display_name = ''n'',
      um_description = ''d'', um_issued_at = 0, publisher_id = ''p'', publisher_root_id = ''root'',
      publisher_signature = replicate 64 0, um_canonical_hash = [], dependencies = ds,
      sandbox_profile_ref = ''s'', um_verification_intent = [],
      um_rollback_pointer = \<lparr>aiosfs_pointer_id = ''a'', expected_current_version_id = ''v'', rp_trigger = TriggerNever\<rparr>,
      um_resource_budget = \<lparr>memory_bytes_max = 1, cpu_quota_cores = Finite 1, disk_bytes_max = 1,
        file_descriptors_max = 1, process_count_max = 1, queue_depth_max = 1, gpu = None\<rparr>,
      um_restart_policy = RestartNever,
      um_restart_budget = \<lparr>max_attempts = 1, reset_window_seconds = 1, backoff_initial_seconds = 1, backoff_max_seconds = 1\<rparr>,
      um_health_check = \<lparr>hc_kind = TcpPort, probe_interval_seconds = 1, probe_timeout_seconds = 1,
        startup_grace_seconds = 1, unhealthy_threshold = 1, healthy_threshold = 1, hc_args = JNull\<rparr>,
      startup_deadline_seconds = 1, stop_deadline_seconds = 1, um_adapter_target = JNull, um_labels = None,
      um_correlation_id = None, um_desired_state = WantRunning, um_provides = [], um_adapter_id = Some ''a1''\<rparr>"

definition sample_graph_lib :: "unit sgr_lib" where
  "sample_graph_lib =
     \<lparr>sl_show_f64 = sample_show_f64, sl_show_datetime = sample_tally (CHR ''t''),
      sl_to_vec = (\<lambda>_. Ok []), sl_blake3 = id, sl_verify = (\<lambda>_ _ _. True)\<rparr>"

definition sample_graph_env :: "(unit, unit) graph_env" where
  "sample_graph_env = \<lparr>ge_lib = sample_graph_lib, trusted_authorities = [(''root'', ())], ge_emitter = None\<rparr>"

lemma sample_manifest_fields [simp]:
  "um_unit_id (sample_manifest uid ds) = uid" "dependencies (sample_manifest uid ds) = ds"
  "publisher_root_id (sample_manifest uid ds) = ''root''" "um_canonical_hash (sample_manifest uid ds) = []"
  "publisher_signature (sample_manifest uid ds) = replicate 64 0" "um_labels (sample_manifest uid ds) = None"
  "cpu_quota_cores (um_resource_budget (sample_manifest uid ds)) = Finite 1"
  "um_desired_state (sample_manifest uid ds) = WantRunning" "um_adapter_id (sample_manifest uid ds) = Some ''a1''"
  "um_unit_kind (sample_manifest uid ds) = KindService"
  by (simp_all add: sample_manifest_def)

lemma sample_verify: "verify_manifest sample_graph_env (sample_manifest uid ds) = Ok ()"
  by (simp add: verify_manifest_def sample_graph_env_def sample_graph_lib_def canonical_manifest_digest_def)

lemma graph_step_register: "graph_step env s (snd (register_unit env now m s))"
  by (cases "register_unit env now m s") (auto intro: graph_step.step_register)

definition sample_graph :: sgr_state where
  "sample_graph = snd (register_unit sample_graph_env 1
     (sample_manifest ''unit:v:b'' [\<lparr>ud_unit_id = ''unit:v:a'', ud_kind = RequiresRunning\<rparr>])
     (snd (register_unit sample_graph_env 0 (sample_manifest ''unit:v:a'' []) empty_graph)))"

lemma sample_graph_reached: "graph_reaches sample_graph_env empty_graph sample_graph"
  unfolding sample_graph_def
  by (rule rtranclp.rtrancl_into_rtrancl [OF r_into_rtranclp]) (rule graph_step_register)+

lemma sample_graph_units:
  "sg_units sample_graph =
     [(''unit:v:a'', new_service_unit 0 (sample_manifest ''unit:v:a'' [])),
      (''unit:v:b'', new_service_unit 1 (sample_manifest ''unit:v:b'' [\<lparr>ud_unit_id = ''unit:v:a'', ud_kind = RequiresRunning\<rparr>]))]"
  "sg_dependencies sample_graph =
     [(''unit:v:b'', [\<lparr>from_unit_id = ''unit:v:b'', to_unit_id = ''unit:v:a'', edge_kind = RequiresRunning\<rparr>])]"
  unfolding sample_graph_def register_unit_def sample_verify
  by (simp_all add: sample_graph_env_def emit_when_def sgr_then_def empty_graph_def declared_edges_def
      Let_def new_service_unit_def extend_edges_def)

text \<open>
  A printer that tells all values apart, and a digest of 32 bytes that does not: it depends on the length of
  the printed text modulo 256.
\<close>

instance json_number :: countable by countable_datatype

instance json :: countable by countable_datatype












text \<open>A unit is registered beside another, then started; the step that starts it is legal.\<close>

theorem graph_runs_are_legal_witness:
  "\<exists>u'. map_of (sg_units (snd (set_unit_state 5 ''unit:v:b'' UnitStarting sample_graph))) ''unit:v:b'' = Some u' \<and>
     (UnitQueued, su_state u') \<in> set allowed_unit_transitions \<and>
     map_of (sg_units (snd (set_unit_state 5 ''unit:v:b'' UnitStarting sample_graph))) ''unit:v:a'' =
       map_of (sg_units sample_graph) ''unit:v:a''"
proof -
  let ?s' = "snd (set_unit_state 5 ''unit:v:b'' UnitStarting sample_graph)"
  let ?u = "new_service_unit 1 (sample_manifest ''unit:v:b'' [\<lparr>ud_unit_id = ''unit:v:a'', ud_kind = RequiresRunning\<rparr>])"
  have step: "graph_step sample_graph_env sample_graph ?s'"
    by (cases "set_unit_state 5 ''unit:v:b'' UnitStarting sample_graph") (auto intro: graph_step.step_set)
  have u: "map_of (sg_units sample_graph) ''unit:v:b'' = Some ?u" and q: "su_state ?u = UnitQueued"
    by (simp_all add: sample_graph_units new_service_unit_def)
  have "map_of (sg_units ?s') ''unit:v:b'' = Some (?u\<lparr>su_state := UnitStarting, last_transition_at := 5\<rparr>)"
    using u q by (simp add: set_unit_state_def is_valid_transition_def AList.update_conv' Let_def)
  moreover have "?u\<lparr>su_state := UnitStarting, last_transition_at := 5\<rparr> \<noteq> ?u"
    using q by (auto dest: arg_cong [where f = su_state])
  ultimately show ?thesis
    using graph_runs_are_legal [OF sample_graph_reached step, of "''unit:v:b''"] u q
    by (auto dest: spec [of _ "''unit:v:a''"])
qed

end
