(* ===== verification/Sgr_Evaluator.thy ===== *)
theory Sgr_Evaluator
  imports Sgr_Graph
begin

text \<open>
  The graph evaluator, \<open>evaluator.rs\<close>: the dependency index it loads from the graph, the topological sort
  and the parallel batches (Kahn's algorithm on counts of prerequisites), the search for cycles (Tarjan's
  algorithm with an explicit stack of frames), readiness, and convergence. The maps of the index are
  association lists; the stacks have their top at the head. The loops are recursive functions with
  termination proofs that hold for every index.
\<close>

section \<open>The dependency index\<close>

record dependency_index =
  ix_units :: "unit_id list"
  ix_adjacency :: "(unit_id \<times> unit_id list) list"
  ix_dependents :: "(unit_id \<times> unit_id list) list"
  ix_counts :: "(unit_id \<times> nat) list"
  ix_self_loops :: "unit_id list"

definition missing_index_entry :: "string \<Rightarrow> unit_id \<Rightarrow> sgr_error" where
  "missing_index_entry label uid = SgrInternal (''missing '' @ label @ '' for '' @ uid)"

fun dependency_kind_rank :: "dependency_kind \<Rightarrow> nat" where
  "dependency_kind_rank RequiresHealthy = 0"
| "dependency_kind_rank RequiresRunning = 1"
| "dependency_kind_rank OrdersAfter = 2"

text \<open>By target, then by rank: the stable sort by the target of the edges sorted by rank.\<close>

definition sort_dependency_edges :: "dependency_edge list \<Rightarrow> dependency_edge list" where
  "sort_dependency_edges es = sort_key to_unit_id (sort_key (\<lambda>e. dependency_kind_rank (edge_kind e)) es)"

definition push_at :: "unit_id \<Rightarrow> unit_id \<Rightarrow> (unit_id \<times> unit_id list) list \<Rightarrow> (unit_id \<times> unit_id list) list option" where
  "push_at k v m = map_option (\<lambda>vs. AList.update k (vs @ [v]) m) (map_of m k)"

text \<open>One edge of \<open>uid\<close>; each map entry that is absent is an internal error.\<close>

definition index_edge :: "unit_id \<Rightarrow> dependency_edge \<Rightarrow> dependency_index \<Rightarrow> (sgr_error, dependency_index) result" where
  "index_edge uid e ix =
     (if from_unit_id e \<noteq> uid
      then Err (SgrInternal (''dependency edge source mismatch: expected '' @ uid @ '', got '' @ from_unit_id e))
      else if to_unit_id e \<notin> set (ix_units ix) then Err (DependencyTargetNotRegistered (to_unit_id e))
      else case push_at uid (to_unit_id e) (ix_adjacency ix) of
             None \<Rightarrow> Err (missing_index_entry ''adjacency'' uid)
           | Some adj \<Rightarrow>
               (case push_at (to_unit_id e) uid (ix_dependents ix) of
                  None \<Rightarrow> Err (missing_index_entry ''dependents'' (to_unit_id e))
                | Some dep \<Rightarrow>
                    (case map_of (ix_counts ix) uid of
                       None \<Rightarrow> Err (missing_index_entry ''prerequisite count'' uid)
                     | Some n \<Rightarrow>
                         Ok (ix\<lparr>ix_adjacency := adj, ix_dependents := dep,
                                ix_counts := AList.update uid (n + 1) (ix_counts ix),
                                ix_self_loops := (if to_unit_id e = uid then List.insert uid (ix_self_loops ix)
                                                  else ix_self_loops ix)\<rparr>))))"

fun index_edges :: "unit_id \<Rightarrow> dependency_edge list \<Rightarrow> dependency_index \<Rightarrow> (sgr_error, dependency_index) result" where
  "index_edges uid [] ix = Ok ix"
| "index_edges uid (e # es) ix = try_then (index_edge uid e ix) (index_edges uid es)"

fun index_units :: "sgr_state \<Rightarrow> unit_id list \<Rightarrow> dependency_index \<Rightarrow> (sgr_error, dependency_index) result" where
  "index_units s [] ix = Ok ix"
| "index_units s (uid # uids) ix =
     try_then (fst (list_dependencies uid s)) (\<lambda>edges.
     try_then (index_edges uid (sort_dependency_edges edges) ix) (index_units s uids))"

definition sort_values :: "(unit_id \<times> unit_id list) list \<Rightarrow> (unit_id \<times> unit_id list) list" where
  "sort_values m = map (\<lambda>(k, vs). (k, sort vs)) m"

definition load_dependency_index :: "sgr_state \<Rightarrow> (sgr_error, dependency_index) result" where
  "load_dependency_index s =
     (let units = sort (map (\<lambda>(_, u). su_unit_id u) (sg_units s));
          ix = \<lparr>ix_units = units, ix_adjacency = map (\<lambda>i. (i, [])) units, ix_dependents = map (\<lambda>i. (i, [])) units,
                ix_counts = map (\<lambda>i. (i, 0)) units, ix_self_loops = []\<rparr>
      in try_then (index_units s units ix) (\<lambda>ix'.
           Ok (ix'\<lparr>ix_adjacency := sort_values (ix_adjacency ix'), ix_dependents := sort_values (ix_dependents ix')\<rparr>)))"

section \<open>Counting prerequisites down\<close>

definition count_or_zero :: "(unit_id \<times> nat) list \<Rightarrow> unit_id \<Rightarrow> nat" where
  "count_or_zero counts uid = case_option 0 id (map_of counts uid)"

definition zero_prerequisite_units :: "unit_id list \<Rightarrow> (unit_id \<times> nat) list \<Rightarrow> unit_id list" where
  "zero_prerequisite_units units counts = sort (filter (\<lambda>i. count_or_zero counts i = 0) units)"

definition decrement_prerequisite_count ::
    "(unit_id \<times> nat) list \<Rightarrow> unit_id \<Rightarrow> (sgr_error, (unit_id \<times> nat) list) result" where
  "decrement_prerequisite_count counts uid =
     (case map_of counts uid of
        None \<Rightarrow> Err (missing_index_entry ''prerequisite count'' uid)
      | Some n \<Rightarrow>
          if n = 0 then Err (SgrInternal (''dependency count underflow for '' @ uid))
          else Ok (AList.update uid (n - 1) counts))"

definition sort_and_dedup_unit_ids :: "unit_id list \<Rightarrow> unit_id list" where
  "sort_and_dedup_unit_ids ids = remdups_adj (sort ids)"

text \<open>The loop over the dependents of a unit that has been ordered; those that become free are pushed.\<close>

fun release_dependents ::
    "unit_id list \<Rightarrow> (unit_id \<times> nat) list \<Rightarrow> unit_id list \<Rightarrow>
     (sgr_error, (unit_id \<times> nat) list \<times> unit_id list) result" where
  "release_dependents [] counts ready = Ok (counts, ready)"
| "release_dependents (d # ds) counts ready =
     try_then (decrement_prerequisite_count counts d) (\<lambda>counts'.
       release_dependents ds counts' (if count_or_zero counts' d = 0 then ready @ [d] else ready))"

definition dependents_of :: "dependency_index \<Rightarrow> unit_id \<Rightarrow> unit_id list" where
  "dependents_of ix uid = case_option [] id (map_of (ix_dependents ix) uid)"

definition count_total :: "(unit_id \<times> nat) list \<Rightarrow> nat" where
  "count_total counts = sum_list (map snd counts)"

lemma count_total_update:
  "map_of counts k = Some n \<Longrightarrow> 0 < n \<Longrightarrow> Suc (count_total (AList.update k (n - 1) counts)) = count_total counts"
  by (induction counts) (auto simp: count_total_def)

lemma release_total:
  "release_dependents ds counts ready = Ok (counts', ready') \<Longrightarrow>
     count_total counts' + length ready' \<le> count_total counts + length ready"
proof (induction ds arbitrary: counts ready)
  case (Cons d ds)
  then obtain c where c: "decrement_prerequisite_count counts d = Ok c"
    and r: "release_dependents ds c (if count_or_zero c d = 0 then ready @ [d] else ready) = Ok (counts', ready')"
    by (auto simp: try_then_Ok_iff)
  have "Suc (count_total c) = count_total counts"
    using c count_total_update [of counts d]
    by (auto simp: decrement_prerequisite_count_def split: option.splits if_splits)
  then show ?case using Cons.IH [OF r] by (simp split: if_splits)
qed simp

lemma length_sort_and_dedup: "length (sort_and_dedup_unit_ids ids) \<le> length ids"
  using remdups_adj_length [of "sort ids"] by (simp add: sort_and_dedup_unit_ids_def)

section \<open>The topological sort\<close>

function topological_loop ::
    "dependency_index \<Rightarrow> (unit_id \<times> nat) list \<Rightarrow> unit_id list \<Rightarrow> unit_id list \<Rightarrow> (sgr_error, unit_id list) result" where
  "topological_loop ix counts ready ordered =
     (case ready of
        [] \<Rightarrow> Ok ordered
      | uid # rest \<Rightarrow>
          (case release_dependents (dependents_of ix uid) counts rest of
             Inl e \<Rightarrow> Err e
           | Inr (counts', ready') \<Rightarrow>
               topological_loop ix counts' (sort_and_dedup_unit_ids ready') (ordered @ [uid])))"
  by pat_completeness auto
termination
proof (relation "measure (\<lambda>(ix, counts, ready, ordered). count_total counts + length ready)", goal_cases)
  case (2 ix counts ready ordered uid rest p counts' ready')
  then have "release_dependents (dependents_of ix uid) counts rest = Ok (counts', ready')" by simp
  from release_total [OF this] length_sort_and_dedup [of ready'] show ?case using 2(1) by simp
qed simp

declare topological_loop.simps [simp del]

section \<open>Parallel batches\<close>

fun release_batch ::
    "dependency_index \<Rightarrow> unit_id list \<Rightarrow> (unit_id \<times> nat) list \<Rightarrow> unit_id list \<Rightarrow>
     (sgr_error, (unit_id \<times> nat) list \<times> unit_id list) result" where
  "release_batch ix [] counts nxt = Ok (counts, nxt)"
| "release_batch ix (uid # uids) counts nxt =
     try_then (release_dependents (dependents_of ix uid) counts nxt) (\<lambda>(counts', nxt').
       release_batch ix uids counts' nxt')"

lemma release_batch_total:
  "release_batch ix batch counts nxt = Ok (counts', nxt') \<Longrightarrow>
     count_total counts' + length nxt' \<le> count_total counts + length nxt"
proof (induction batch arbitrary: counts nxt)
  case (Cons uid uids)
  then obtain c r where "release_dependents (dependents_of ix uid) counts nxt = Ok (c, r)"
    and "release_batch ix uids c r = Ok (counts', nxt')" by (auto simp: try_then_Ok_iff)
  then show ?case using Cons.IH [of c r] release_total by fastforce
qed simp

function batch_loop ::
    "dependency_index \<Rightarrow> (unit_id \<times> nat) list \<Rightarrow> unit_id list \<Rightarrow> unit_id list list \<Rightarrow> unit_id list \<Rightarrow>
     (sgr_error, unit_id list list \<times> unit_id list) result" where
  "batch_loop ix counts ready batches processed =
     (if ready = [] then Ok (batches, processed)
      else case release_batch ix ready counts [] of
             Inl e \<Rightarrow> Err e
           | Inr (counts', nxt) \<Rightarrow>
               batch_loop ix counts' (sort_and_dedup_unit_ids nxt) (batches @ [ready]) (processed @ ready))"
  by pat_completeness auto
termination
proof (relation "measure (\<lambda>(ix, counts, ready, batches, processed). count_total counts + length ready)", goal_cases)
  case (2 ix counts ready batches processed p counts' nxt)
  then have "release_batch ix ready counts [] = Ok (counts', nxt)" by simp
  from release_batch_total [OF this] length_sort_and_dedup [of nxt] show ?case
    using 2(1) by (cases ready) auto
qed simp

declare batch_loop.simps [simp del]

section \<open>The search for cycles\<close>

record tarjan_state =
  tj_next_index :: nat
  tj_indexes :: "(unit_id \<times> nat) list"
  tj_lowlinks :: "(unit_id \<times> nat) list"
  tj_stack :: "unit_id list"
  tj_on_stack :: "unit_id list"
  tj_components :: "unit_id list list"

record tarjan_frame =
  tf_node :: unit_id
  tf_next_neighbor :: nat

definition tarjan_start :: tarjan_state where
  "tarjan_start = \<lparr>tj_next_index = 0, tj_indexes = [], tj_lowlinks = [], tj_stack = [], tj_on_stack = [], tj_components = []\<rparr>"

definition push_tarjan_node :: "unit_id \<Rightarrow> tarjan_state \<Rightarrow> tarjan_state" where
  "push_tarjan_node node t =
     t\<lparr>tj_next_index := tj_next_index t + 1,
       tj_indexes := AList.update node (tj_next_index t) (tj_indexes t),
       tj_lowlinks := AList.update node (tj_next_index t) (tj_lowlinks t),
       tj_stack := node # tj_stack t,
       tj_on_stack := List.insert node (tj_on_stack t)\<rparr>"

fun pop_component ::
    "unit_id list \<Rightarrow> unit_id list \<Rightarrow> unit_id \<Rightarrow> unit_id list \<Rightarrow>
     (sgr_error, unit_id list \<times> unit_id list \<times> unit_id list) result" where
  "pop_component [] on rt out = Err (SgrInternal ''empty Tarjan component stack'')"
| "pop_component (node # stack) on rt out =
     (if node = rt then Ok (sort (out @ [node]), stack, removeAll node on)
      else pop_component stack (removeAll node on) rt (out @ [node]))"

definition tarjan_value :: "(unit_id \<times> nat) list \<Rightarrow> unit_id \<Rightarrow> string \<Rightarrow> (sgr_error, nat) result" where
  "tarjan_value values uid label =
     (case map_of values uid of None \<Rightarrow> Err (missing_index_entry label uid) | Some n \<Rightarrow> Ok n)"

definition lower_lowlink :: "(unit_id \<times> nat) list \<Rightarrow> unit_id \<Rightarrow> nat \<Rightarrow> (sgr_error, (unit_id \<times> nat) list) result" where
  "lower_lowlink lowlinks uid candidate =
     (case map_of lowlinks uid of
        None \<Rightarrow> Err (missing_index_entry ''lowlink'' uid)
      | Some current \<Rightarrow> Ok (if candidate < current then AList.update uid candidate lowlinks else lowlinks))"

text \<open>
  One pass of the inner loop, on the top frame: visit its next neighbour, or, when there is none left, close
  the node: pop its component when it is a root, drop the frame and pass the low link on to the parent.
\<close>

definition visit_neighbor ::
    "tarjan_state \<Rightarrow> unit_id \<Rightarrow> unit_id \<Rightarrow> tarjan_frame list \<Rightarrow> (sgr_error, tarjan_state \<times> tarjan_frame list) result" where
  "visit_neighbor t node neighbor frames =
     (if map_of (tj_indexes t) neighbor = None
      then Ok (push_tarjan_node neighbor t, \<lparr>tf_node = neighbor, tf_next_neighbor = 0\<rparr> # frames)
      else if neighbor \<in> set (tj_on_stack t)
      then try_then (tarjan_value (tj_indexes t) neighbor ''index'') (\<lambda>i.
           try_then (lower_lowlink (tj_lowlinks t) node i) (\<lambda>low. Ok (t\<lparr>tj_lowlinks := low\<rparr>, frames)))
      else Ok (t, frames))"

definition close_node ::
    "tarjan_state \<Rightarrow> unit_id \<Rightarrow> tarjan_frame list \<Rightarrow> (sgr_error, tarjan_state \<times> tarjan_frame list) result" where
  "close_node t node rest =
     try_then (tarjan_value (tj_lowlinks t) node ''lowlink'') (\<lambda>low.
     try_then (tarjan_value (tj_indexes t) node ''index'') (\<lambda>i.
     try_then (if low = i
               then try_then (pop_component (tj_stack t) (tj_on_stack t) node []) (\<lambda>(out, stack, on).
                      Ok (t\<lparr>tj_stack := stack, tj_on_stack := on, tj_components := tj_components t @ [out]\<rparr>))
               else Ok t) (\<lambda>t1.
     case rest of
       [] \<Rightarrow> Ok (t1, rest)
     | parent # _ \<Rightarrow>
         try_then (tarjan_value (tj_lowlinks t1) node ''lowlink'') (\<lambda>child_low.
         try_then (lower_lowlink (tj_lowlinks t1) (tf_node parent) child_low) (\<lambda>lows.
           Ok (t1\<lparr>tj_lowlinks := lows\<rparr>, rest))))))"

fun tarjan_step ::
    "dependency_index \<Rightarrow> tarjan_state \<Rightarrow> tarjan_frame \<Rightarrow> tarjan_frame list \<Rightarrow>
     (sgr_error, tarjan_state \<times> tarjan_frame list) result" where
  "tarjan_step ix t frame rest =
     (case map_of (ix_adjacency ix) (tf_node frame) of
        None \<Rightarrow> Err (missing_index_entry ''adjacency'' (tf_node frame))
      | Some neighbors \<Rightarrow>
          if tf_next_neighbor frame < length neighbors
          then visit_neighbor t (tf_node frame) (neighbors ! tf_next_neighbor frame)
                 (frame\<lparr>tf_next_neighbor := tf_next_neighbor frame + 1\<rparr> # rest)
          else close_node t (tf_node frame) rest)"

definition tarjan_nodes :: "dependency_index \<Rightarrow> unit_id set" where
  "tarjan_nodes ix = set (ix_units ix) \<union> set (concat (map snd (ix_adjacency ix)))"

definition unvisited :: "dependency_index \<Rightarrow> tarjan_state \<Rightarrow> nat" where
  "unvisited ix t = card (tarjan_nodes ix - set (map fst (tj_indexes t)))"

definition frames_left :: "dependency_index \<Rightarrow> tarjan_frame list \<Rightarrow> nat" where
  "frames_left ix frames = sum_list (map (\<lambda>f.
     Suc (length (case_option [] id (map_of (ix_adjacency ix) (tf_node f))) - tf_next_neighbor f)) frames)"

lemma unvisited_push:
  assumes "node \<in> tarjan_nodes ix" and "map_of (tj_indexes t) node = None"
  shows "unvisited ix (push_tarjan_node node t) < unvisited ix t"
proof -
  have "finite (tarjan_nodes ix)" by (simp add: tarjan_nodes_def)
  moreover have "set (map fst (tj_indexes (push_tarjan_node node t))) = insert node (set (map fst (tj_indexes t)))"
    by (simp add: push_tarjan_node_def AList.update_conv' flip: dom_map_of_conv_image_fst)
  ultimately show ?thesis
    using assms unfolding unvisited_def
    by (intro psubset_card_mono) (auto simp: map_of_eq_None_iff)
qed

lemma close_node_effect:
  assumes "close_node t node rest = Ok (t', frames')"
  shows "frames' = rest \<and> tj_indexes t' = tj_indexes t"
  using assms by (cases rest) (auto simp: close_node_def try_then_Ok_iff split: if_splits)

lemma tarjan_step_decreases:
  assumes "tarjan_step ix t frame rest = Ok (t', frames')"
  shows "unvisited ix t' < unvisited ix t \<or>
     unvisited ix t' = unvisited ix t \<and> frames_left ix frames' < frames_left ix (frame # rest)"
proof -
  obtain ns where ns: "map_of (ix_adjacency ix) (tf_node frame) = Some ns"
    using assms by (auto split: option.splits)
  show ?thesis
  proof (cases "tf_next_neighbor frame < length ns")
    case True
    let ?nb = "ns ! tf_next_neighbor frame" and ?f = "frame\<lparr>tf_next_neighbor := tf_next_neighbor frame + 1\<rparr>"
    have v: "visit_neighbor t (tf_node frame) ?nb (?f # rest) = Ok (t', frames')"
      using assms ns True by simp
    have "?nb \<in> tarjan_nodes ix"
      using True map_of_SomeD [OF ns] by (force simp: tarjan_nodes_def)
    then show ?thesis
      using v unvisited_push [of ?nb ix t] ns True
      by (auto simp: visit_neighbor_def try_then_Ok_iff unvisited_def frames_left_def split: if_splits)
  next
    case False
    then have "close_node t (tf_node frame) rest = Ok (t', frames')" using assms ns by simp
    from close_node_effect [OF this] show ?thesis by (simp add: unvisited_def frames_left_def)
  qed
qed

function tarjan_loop ::
    "dependency_index \<Rightarrow> tarjan_state \<Rightarrow> tarjan_frame list \<Rightarrow> (sgr_error, tarjan_state) result" where
  "tarjan_loop ix t frames =
     (case frames of
        [] \<Rightarrow> Ok t
      | frame # rest \<Rightarrow>
          (case tarjan_step ix t frame rest of
             Inl e \<Rightarrow> Err e
           | Inr (t', frames') \<Rightarrow> tarjan_loop ix t' frames'))"
  by pat_completeness auto
termination
proof (relation "measures [\<lambda>(ix, t, frames). unvisited ix t, \<lambda>(ix, t, frames). frames_left ix frames]", goal_cases)
  case (2 ix t frames frame rest p t' frames')
  then have "tarjan_step ix t frame rest = Ok (t', frames')" by simp
  from tarjan_step_decreases [OF this] show ?case using 2(1) by auto
qed simp

declare tarjan_loop.simps [simp del]

fun tarjan_starts ::
    "dependency_index \<Rightarrow> unit_id list \<Rightarrow> tarjan_state \<Rightarrow> (sgr_error, tarjan_state) result" where
  "tarjan_starts ix [] t = Ok t"
| "tarjan_starts ix (start # starts) t =
     (if map_of (tj_indexes t) start \<noteq> None then tarjan_starts ix starts t
      else try_then (tarjan_loop ix (push_tarjan_node start t) [\<lparr>tf_node = start, tf_next_neighbor = 0\<rparr>])
             (tarjan_starts ix starts))"

definition detect_cycles_in_index :: "dependency_index \<Rightarrow> (sgr_error, unit_id list list) result" where
  "detect_cycles_in_index ix =
     try_then (tarjan_starts ix (ix_units ix) tarjan_start) (\<lambda>t.
       Ok (filter (\<lambda>c. 2 \<le> length c \<or> (c \<noteq> [] \<and> hd c \<in> set (ix_self_loops ix))) (tj_components t)))"

definition first_cycle_or_remaining :: "dependency_index \<Rightarrow> unit_id list \<Rightarrow> (sgr_error, unit_id list) result" where
  "first_cycle_or_remaining ix processed =
     try_then (detect_cycles_in_index ix) (\<lambda>cycles.
       case cycles of
         cycle # _ \<Rightarrow> Ok cycle
       | [] \<Rightarrow> Ok (sort (filter (\<lambda>i. i \<notin> set processed) (ix_units ix))))"

section \<open>The evaluator's queries\<close>

definition topological_sort :: "unit_id list sgr" where
  "topological_sort s =
     (try_then (load_dependency_index s) (\<lambda>ix.
      try_then (topological_loop ix (ix_counts ix) (zero_prerequisite_units (ix_units ix) (ix_counts ix)) []) (\<lambda>ordered.
        if length ordered \<noteq> length (ix_units ix)
        then try_then (first_cycle_or_remaining ix ordered) (\<lambda>c. Err (DependencyCycleDetected c))
        else Ok ordered)), s)"

definition detect_cycles :: "unit_id list list sgr" where
  "detect_cycles s = (try_then (load_dependency_index s) detect_cycles_in_index, s)"

definition identify_parallel_batches :: "unit_id list list sgr" where
  "identify_parallel_batches s =
     (try_then (load_dependency_index s) (\<lambda>ix.
      try_then (batch_loop ix (ix_counts ix) (zero_prerequisite_units (ix_units ix) (ix_counts ix)) [] []) (\<lambda>(batches, processed).
        if length processed \<noteq> length (ix_units ix)
        then try_then (first_cycle_or_remaining ix processed) (\<lambda>c. Err (DependencyCycleDetected c))
        else Ok batches)), s)"

definition is_running_stable :: "unit_state \<Rightarrow> bool" where
  "is_running_stable st \<longleftrightarrow> st \<in> {UnitRunning, UnitHealthy}"

fun desired_state_matches :: "desired_state \<Rightarrow> unit_state \<Rightarrow> bool" where
  "desired_state_matches WantStopped st = (st = UnitStopped)"
| "desired_state_matches _ st = is_running_stable st"

fun readiness_loop :: "dependency_edge list \<Rightarrow> bool sgr" where
  "readiness_loop [] = sgr_return True"
| "readiness_loop (e # es) =
     (if is_hard (edge_kind e)
      then sgr_then (get_unit (to_unit_id e)) (\<lambda>d.
             if \<not> is_running_stable (su_state d) then sgr_return False else readiness_loop es)
      else readiness_loop es)"

definition evaluate_readiness :: "unit_id \<Rightarrow> bool sgr" where
  "evaluate_readiness uid = sgr_then (list_dependencies uid) readiness_loop"

definition is_converged :: "bool sgr" where
  "is_converged = sgr_then list_units (\<lambda>us. sgr_return (list_all (\<lambda>u.
     \<not> is_transitional (su_state u) \<and> desired_state_matches (um_desired_state (su_manifest u)) (su_state u)) us))"

definition convergence_state :: "('sk, 'vk) sgr_emitter option \<Rightarrow> instant \<Rightarrow> graph_state sgr" where
  "convergence_state em now =
     sgr_then list_units (\<lambda>us.
       let st = (if us = [] then GraphEmpty
                 else if list_ex (\<lambda>u. su_state u = UnitFailed) us
                 then (if list_ex (\<lambda>u. su_state u = UnitFailed \<and> is_critical_unit u) us \<or>
                          length (failed_units us) = length us
                       then GraphFailed else GraphDegraded)
                 else if list_ex (\<lambda>u. su_state u \<in> {UnitDegraded, UnitUnhealthy, UnitRetired}) us then GraphDegraded
                 else if list_ex (\<lambda>u. is_transitional (su_state u)) us then GraphConverging
                 else if list_all (\<lambda>u. desired_state_matches (um_desired_state (su_manifest u)) (su_state u)) us
                 then GraphConverged else GraphConverging)
       in sgr_then (if st = GraphConverged
                    then emit_when em (\<lambda>e. emit_graph_converged e now st (length us)) else sgr_return ())
            (\<lambda>_. sgr_return st))"

end
