(* ===== verification/Sgr_Order.thy ===== *)
theory Sgr_Order
  imports Sgr_Evaluator "HOL-Library.Multiset"
begin

text \<open>
  Why the evaluator's orders are right. A locale states what Kahn's counting relies on, a finite graph
  given by the list of dependents of each unit; inside it, the counts left when a set of units is done,
  and the dichotomy between an exhausted graph and a cycle. It is interpreted on the dependency index, and
  the two loops are proved against it. The properties are then about the service graph that was loaded.
\<close>

section \<open>Counting on a finite graph\<close>

locale prerequisite_graph =
  fixes U :: "'a set" and D :: "'a \<Rightarrow> 'a list"
  assumes finite_units: "finite U"
    and dependents_inside: "u \<in> U \<Longrightarrow> set (D u) \<subseteq> U"
begin

text \<open>\<open>needs v u\<close>: unit \<open>v\<close> has unit \<open>u\<close> as a prerequisite.\<close>

definition needs :: "'a \<Rightarrow> 'a \<Rightarrow> bool" where
  "needs v u \<longleftrightarrow> u \<in> U \<and> v \<in> set (D u)"

definition remaining :: "'a set \<Rightarrow> 'a \<Rightarrow> nat" where
  "remaining S v = (\<Sum>u \<in> U - S. count_list (D u) v)"

lemma remaining_done:
  assumes "u \<in> U" and "u \<notin> S"
  shows "remaining S v = count_list (D u) v + remaining (insert u S) v"
proof -
  have eq: "U - S = insert u (U - insert u S)" using assms by auto
  show ?thesis unfolding remaining_def by (subst eq, subst sum.insert) (use finite_units in auto)
qed

lemma remaining_done_le: "u \<in> U \<Longrightarrow> u \<notin> S \<Longrightarrow> count_list (D u) v \<le> remaining S v"
  using remaining_done [of u S v] by simp

lemma remaining_zero_iff: "remaining S v = 0 \<longleftrightarrow> (\<forall>u. needs v u \<longrightarrow> u \<in> S)"
  using finite_units by (auto simp: remaining_def needs_def count_list_0_iff)

text \<open>A list of units each of which comes after its prerequisites.\<close>

definition in_order :: "'a list \<Rightarrow> bool" where
  "in_order xs \<longleftrightarrow> distinct xs \<and> set xs \<subseteq> U \<and> (\<forall>i < length xs. \<forall>u. needs (xs ! i) u \<longrightarrow> u \<in> set (take i xs))"

lemma in_order_Nil: "in_order []"
  by (simp add: in_order_def)

lemma in_order_snoc:
  assumes "in_order xs" and "v \<in> U" and "v \<notin> set xs" and "remaining (set xs) v = 0"
  shows "in_order (xs @ [v])"
  using assms by (auto simp: in_order_def nth_append remaining_zero_iff less_Suc_eq)

lemma in_order_prerequisites: "in_order xs \<Longrightarrow> v \<in> set xs \<Longrightarrow> needs v u \<Longrightarrow> u \<in> set xs"
  by (metis in_order_def in_set_conv_nth in_set_takeD)

lemma in_order_acyclic:
  assumes "in_order xs" and "set xs = U"
  shows "acyclic {(v, u). needs v u}"
proof (rule acyclicI_order)
  fix v u assume vu: "(v, u) \<in> {(v, u). needs v u}"
  define pos where "pos = (\<lambda>x. THE i. i < length xs \<and> xs ! i = x)"
  have d: "distinct xs" using assms by (simp add: in_order_def)
  have pos: "pos (xs ! i) = i" if "i < length xs" for i
    unfolding pos_def by (rule the_equality) (use that d nth_eq_iff_index_eq in \<open>auto\<close>)
  have "v \<in> U" using vu dependents_inside by (auto simp: needs_def)
  then obtain i where i: "i < length xs" "xs ! i = v" using assms(2) by (metis in_set_conv_nth)
  then have "u \<in> set (take i xs)" using assms(1) vu by (auto simp: in_order_def)
  then obtain j where "j < i" "xs ! j = u" using i by (auto simp: in_set_conv_nth)
  then show "pos u < pos v" using pos [of i] pos [of j] i by simp
qed

text \<open>When every unit left has a prerequisite left, the units left contain a cycle.\<close>

lemma stuck_cyclic:
  assumes "S \<noteq> U" and "S \<subseteq> U" and stuck: "\<forall>v \<in> U - S. remaining S v \<noteq> 0"
  shows "\<not> acyclic {(v, u). needs v u}"
proof
  let ?r = "{(v, u). needs v u} \<inter> (U - S) \<times> (U - S)"
  assume "acyclic {(v, u). needs v u}"
  then have "acyclic ?r" by (rule acyclic_subset) auto
  moreover have "finite ?r" using finite_units by (auto intro: finite_subset [of _ "U \<times> U"])
  ultimately have "wf (?r\<inverse>)" by (rule finite_acyclic_wf_converse [rotated])
  moreover obtain x where "x \<in> U - S" using assms(1,2) by auto
  ultimately obtain v where v: "v \<in> U - S" and min: "\<And>u. (u, v) \<in> ?r\<inverse> \<Longrightarrow> u \<notin> U - S"
    using wf_eq_minimal [of "?r\<inverse>"] by metis
  obtain u where "needs v u" "u \<notin> S" using stuck v by (auto simp: remaining_zero_iff)
  then show False using min [of u] v by (auto simp: needs_def)
qed

end

text \<open>The graph of an index: its units, and the dependents it lists that are units.\<close>

definition index_dependents :: "dependency_index \<Rightarrow> unit_id \<Rightarrow> unit_id list" where
  "index_dependents ix u = filter (\<lambda>v. v \<in> set (ix_units ix)) (dependents_of ix u)"

interpretation ixg: prerequisite_graph "set (ix_units ix)" "index_dependents ix" for ix
  by unfold_locales (auto simp: index_dependents_def)

section \<open>The loops\<close>

definition index_wf :: "dependency_index \<Rightarrow> bool" where
  "index_wf ix \<longleftrightarrow> distinct (ix_units ix) \<and>
     (\<forall>u \<in> set (ix_units ix). set (dependents_of ix u) \<subseteq> set (ix_units ix)) \<and>
     (\<forall>v \<in> set (ix_units ix). map_of (ix_counts ix) v = Some (ixg.remaining ix {} v))"

lemma index_dependents_eq: "index_wf ix \<Longrightarrow> u \<in> set (ix_units ix) \<Longrightarrow> index_dependents ix u = dependents_of ix u"
  unfolding index_dependents_def index_wf_def by (auto simp: filter_id_conv)

lemma decrement_eq:
  assumes "map_of counts d = Some n" and "0 < n"
  shows "decrement_prerequisite_count counts d = Ok (AList.update d (n - 1) counts)"
  using assms by (simp add: decrement_prerequisite_count_def)

lemma count_or_zero_update: "count_or_zero (AList.update d n counts) v = (if v = d then n else count_or_zero counts v)"
  by (simp add: count_or_zero_def AList.update_conv')

lemma release_dependents_effect:
  assumes "\<forall>d \<in> set ds. map_of counts d \<noteq> None" and "\<forall>d. count_list ds d \<le> count_or_zero counts d"
  shows "\<exists>counts' ready'. release_dependents ds counts ready = Ok (counts', ready') \<and>
     (\<forall>v. count_or_zero counts' v = count_or_zero counts v - count_list ds v) \<and>
     dom (map_of counts') = dom (map_of counts) \<and>
     set ready' = set ready \<union> {d \<in> set ds. count_or_zero counts d = count_list ds d}"
  using assms
proof (induction ds arbitrary: counts ready)
  case (Cons d ds)
  then obtain n where n: "map_of counts d = Some n" by auto
  have "count_list (d # ds) d \<le> count_or_zero counts d" using Cons.prems(2) by blast
  then have cd: "count_or_zero counts d = n" and pos: "0 < n" and le: "count_list ds d \<le> n - 1" using n by (simp_all add: count_or_zero_def)
  let ?c = "AList.update d (n - 1) counts" and ?r = "if n - 1 = 0 then ready @ [d] else ready"
  have dom: "dom (map_of ?c) = dom (map_of counts)" using n by (auto simp: AList.update_conv')
  have cz: "count_or_zero ?c v = (if v = d then n - 1 else count_or_zero counts v)" for v
    by (rule count_or_zero_update)
  have "count_list ds v \<le> count_or_zero ?c v" for v
    using Cons.prems(2)[rule_format, of v] le cz [of v] by (auto split: if_splits)
  moreover have "\<forall>d \<in> set ds. map_of ?c d \<noteq> None" using Cons.prems(1) dom by auto
  ultimately obtain counts' ready' where r: "release_dependents ds ?c ?r = Ok (counts', ready')"
    and c': "\<forall>v. count_or_zero counts' v = count_or_zero ?c v - count_list ds v"
    and d': "dom (map_of counts') = dom (map_of ?c)"
    and s': "set ready' = set ?r \<union> {d \<in> set ds. count_or_zero ?c d = count_list ds d}"
    using Cons.IH [of ?c ?r] by blast
  have "release_dependents (d # ds) counts ready = Ok (counts', ready')"
    using r decrement_eq [OF n pos] cz [of d] by simp
  moreover have "count_or_zero counts' v = count_or_zero counts v - count_list (d # ds) v" for v
    using c' cz [of v] n by (auto simp: count_or_zero_def)
  moreover have "set ready' = set ready \<union> {x \<in> set (d # ds). count_or_zero counts x = count_list (d # ds) x}"
  proof -
    have "n - 1 = count_list ds d \<longleftrightarrow> n = Suc (count_list ds d)" using pos by auto
    moreover have "n - 1 = 0 \<Longrightarrow> count_list ds d = 0" using le by simp
    moreover have "count_list ds d = 0 \<longleftrightarrow> d \<notin> set ds" by (simp add: count_list_0_iff)
    ultimately show ?thesis
      unfolding s' using cd pos by (auto simp: count_or_zero_update)
  qed
  ultimately show ?case using d' dom by (intro exI [of _ counts'] exI [of _ ready']) simp
qed simp

lemma set_sort_and_dedup [simp]: "set (sort_and_dedup_unit_ids ids) = set ids"
  by (simp add: sort_and_dedup_unit_ids_def)

lemma distinct_remdups_adj_sorted: "sorted xs \<Longrightarrow> distinct (remdups_adj xs)"
proof (induction xs rule: remdups_adj.induct)
  case (3 x y xs)
  then show ?case by (cases "x = y") (auto simp: order.antisym)
qed simp_all

lemma distinct_sort_and_dedup [simp]: "distinct (sort_and_dedup_unit_ids ids)"
  by (simp add: sort_and_dedup_unit_ids_def distinct_remdups_adj_sorted)

text \<open>
  The invariant of Kahn's loop: the units ordered come after their prerequisites, the counts are those left
  once the ordered units are done, and the ready units are exactly those with nothing left to wait for.
\<close>

definition counts_left :: "dependency_index \<Rightarrow> unit_id set \<Rightarrow> (unit_id \<times> nat) list \<Rightarrow> bool" where
  "counts_left ix S counts \<longleftrightarrow> (\<forall>v \<in> set (ix_units ix). map_of counts v = Some (ixg.remaining ix S v))"

definition free_units :: "dependency_index \<Rightarrow> unit_id set \<Rightarrow> unit_id set" where
  "free_units ix S = {v \<in> set (ix_units ix) - S. ixg.remaining ix S v = 0}"

definition kahn_inv :: "dependency_index \<Rightarrow> (unit_id \<times> nat) list \<Rightarrow> unit_id list \<Rightarrow> unit_id list \<Rightarrow> bool" where
  "kahn_inv ix counts ready ordered \<longleftrightarrow>
     ixg.in_order ix ordered \<and> counts_left ix (set ordered) counts \<and> distinct ready \<and>
     set ready = free_units ix (set ordered)"

lemma release_unit:
  assumes wf: "index_wf ix" and u: "u \<in> set (ix_units ix)" "u \<notin> S" and counts: "counts_left ix S counts"
  shows "\<exists>counts' ready'. release_dependents (dependents_of ix u) counts ready = Ok (counts', ready') \<and>
     counts_left ix (insert u S) counts' \<and>
     set ready' = set ready \<union> {d \<in> set (dependents_of ix u). ixg.remaining ix (insert u S) d = 0}"
proof -
  let ?D = "dependents_of ix u" and ?U = "set (ix_units ix)"
  have D: "index_dependents ix u = ?D" using index_dependents_eq [OF wf u(1)] .
  have sub: "set ?D \<subseteq> ?U" using wf u(1) by (auto simp: index_wf_def)
  have cz: "count_or_zero counts v = count_list ?D v + ixg.remaining ix (insert u S) v" if "v \<in> ?U" for v
    using counts that ixg.remaining_done [OF u, of v] D by (simp add: counts_left_def count_or_zero_def)
  have "count_list ?D v \<le> count_or_zero counts v" for v
  proof (cases "v \<in> ?U")
    case False
    then have "v \<notin> set ?D" using sub by blast
    then show ?thesis by (simp add: count_list_0_iff [THEN iffD2])
  qed (simp add: cz)
  moreover have "\<forall>d \<in> set ?D. map_of counts d \<noteq> None" using counts sub by (auto simp: counts_left_def)
  ultimately obtain counts' ready' where r: "release_dependents ?D counts ready = Ok (counts', ready')"
    and c': "\<forall>v. count_or_zero counts' v = count_or_zero counts v - count_list ?D v"
    and dom: "dom (map_of counts') = dom (map_of counts)"
    and s': "set ready' = set ready \<union> {d \<in> set ?D. count_or_zero counts d = count_list ?D d}"
    using release_dependents_effect [of ?D counts ready] by blast
  have "map_of counts' v = Some (ixg.remaining ix (insert u S) v)" if v: "v \<in> ?U" for v
  proof -
    have "v \<in> dom (map_of counts')" using counts v dom by (auto simp: counts_left_def)
    then obtain n where "map_of counts' v = Some n" by blast
    then show ?thesis using c'[rule_format, of v] cz [OF v] by (simp add: count_or_zero_def [of counts'])
  qed
  moreover have "{d \<in> set ?D. count_or_zero counts d = count_list ?D d} =
      {d \<in> set ?D. ixg.remaining ix (insert u S) d = 0}"
    using sub cz by auto
  ultimately show ?thesis using r s' by (auto simp: counts_left_def)
qed

lemma newly_free:
  assumes wf: "index_wf ix" and u: "u \<in> free_units ix S"
    and closed: "\<And>v w. v \<in> S \<Longrightarrow> ixg.needs ix v w \<Longrightarrow> w \<in> S"
  shows "free_units ix (insert u S) =
     (free_units ix S - {u}) \<union> {d \<in> set (dependents_of ix u). ixg.remaining ix (insert u S) d = 0}"
proof -
  have u': "u \<in> set (ix_units ix)" "u \<notin> S" and z: "ixg.remaining ix S u = 0" using u by (auto simp: free_units_def)
  have D: "index_dependents ix u = dependents_of ix u" using index_dependents_eq [OF wf u'(1)] .
  have rem: "ixg.remaining ix S v = count_list (dependents_of ix u) v + ixg.remaining ix (insert u S) v" for v
    using ixg.remaining_done [OF u', of v] D by simp
  have needs: "d \<in> set (dependents_of ix u) \<Longrightarrow> ixg.needs ix d u" for d
    using D u'(1) by (simp add: ixg.needs_def)
  have "u \<notin> set (dependents_of ix u)" using rem [of u] z by (auto simp: count_list_0_iff)
  moreover have "d \<notin> S" if "d \<in> set (dependents_of ix u)" for d
    using closed [OF _ needs [OF that]] u'(2) by blast
  moreover have "set (dependents_of ix u) \<subseteq> set (ix_units ix)" using wf u'(1) by (auto simp: index_wf_def)
  ultimately show ?thesis
    unfolding free_units_def using rem by (auto simp: count_list_0_iff)
qed

lemma kahn_step:
  assumes wf: "index_wf ix" and inv: "kahn_inv ix counts (u # rest) ordered"
  shows "\<exists>counts' ready'. release_dependents (dependents_of ix u) counts rest = Ok (counts', ready') \<and>
     kahn_inv ix counts' (sort_and_dedup_unit_ids ready') (ordered @ [u])"
proof -
  let ?S = "set ordered"
  have ord: "ixg.in_order ix ordered" and counts: "counts_left ix ?S counts" and dist: "distinct (u # rest)"
    and ready: "set (u # rest) = free_units ix ?S"
    using inv unfolding kahn_inv_def by blast+
  have free: "u \<in> free_units ix ?S" using ready by auto
  then have u: "u \<in> set (ix_units ix)" "u \<notin> ?S" "ixg.remaining ix ?S u = 0" by (auto simp: free_units_def)
  obtain counts' ready' where r: "release_dependents (dependents_of ix u) counts rest = Ok (counts', ready')"
    and c': "counts_left ix (insert u ?S) counts'"
    and s': "set ready' = set rest \<union> {d \<in> set (dependents_of ix u). ixg.remaining ix (insert u ?S) d = 0}"
    using release_unit [OF wf u(1,2) counts, of rest] by blast
  have "set rest = free_units ix ?S - {u}" using ready dist by auto
  then have "set ready' = free_units ix (insert u ?S)"
    using s' newly_free [OF wf free] ixg.in_order_prerequisites [OF ord] by simp
  moreover have "ixg.in_order ix (ordered @ [u])" using ixg.in_order_snoc [OF ord u] .
  ultimately show ?thesis using r c' by (simp add: kahn_inv_def)
qed

lemma topological_loop_result:
  assumes "index_wf ix" and "kahn_inv ix counts ready ordered"
  shows "\<exists>xs. topological_loop ix counts ready ordered = Ok xs \<and> ixg.in_order ix xs \<and> free_units ix (set xs) = {}"
  using assms
proof (induction ix counts ready ordered rule: topological_loop.induct)
  case (1 ix counts ready ordered)
  show ?case
  proof (cases ready)
    case Nil
    then show ?thesis using 1(3) by (subst topological_loop.simps) (simp add: kahn_inv_def)
  next
    case (Cons u rest)
    then obtain counts' ready' where r: "release_dependents (dependents_of ix u) counts rest = Ok (counts', ready')"
      and inv: "kahn_inv ix counts' (sort_and_dedup_unit_ids ready') (ordered @ [u])"
      using kahn_step [OF 1(2)] 1(3) by blast
    show ?thesis
      using 1(1) [OF Cons r _ 1(2) inv] r Cons by (subst topological_loop.simps) simp
  qed
qed

text \<open>A batch: its units are free, and releasing all of them leaves the units that are free afterwards.\<close>

lemma release_batch_effect:
  assumes wf: "index_wf ix" and "ixg.in_order ix ordered" and "counts_left ix (set ordered) counts"
    and "distinct us" and "free_units ix (set ordered) = set us \<union> set nxt" and "set us \<inter> set nxt = {}"
  shows "\<exists>counts' nxt'. release_batch ix us counts nxt = Ok (counts', nxt') \<and> ixg.in_order ix (ordered @ us) \<and>
     counts_left ix (set (ordered @ us)) counts' \<and> set nxt' = free_units ix (set (ordered @ us))"
  using assms(2-)
proof (induction us arbitrary: ordered counts nxt)
  case (Cons u us)
  let ?S = "set ordered"
  have free: "u \<in> free_units ix ?S" using Cons.prems(4) by auto
  then have u: "u \<in> set (ix_units ix)" "u \<notin> ?S" "ixg.remaining ix ?S u = 0" by (auto simp: free_units_def)
  obtain c n where r: "release_dependents (dependents_of ix u) counts nxt = Ok (c, n)"
    and c: "counts_left ix (insert u ?S) c"
    and n: "set n = set nxt \<union> {d \<in> set (dependents_of ix u). ixg.remaining ix (insert u ?S) d = 0}"
    using release_unit [OF wf u(1,2) Cons.prems(2), of nxt] by blast
  have new: "free_units ix (insert u ?S) =
      (free_units ix ?S - {u}) \<union> {d \<in> set (dependents_of ix u). ixg.remaining ix (insert u ?S) d = 0}"
    using newly_free [OF wf free] ixg.in_order_prerequisites [OF Cons.prems(1)] by blast
  have ord: "ixg.in_order ix (ordered @ [u])" using ixg.in_order_snoc [OF Cons.prems(1) u] .
  have fr: "free_units ix (set (ordered @ [u])) = set us \<union> set n"
    using new n Cons.prems(3-5) by auto
  have "set us \<inter> {d \<in> set (dependents_of ix u). ixg.remaining ix (insert u ?S) d = 0} = {}"
  proof -
    have "ixg.remaining ix ?S d = 0" if "d \<in> set us" for d
      using that Cons.prems(4) by (auto simp: free_units_def)
    moreover have "ixg.remaining ix ?S d = count_list (dependents_of ix u) d + ixg.remaining ix (insert u ?S) d" for d
      using ixg.remaining_done [OF u(1,2), of d] index_dependents_eq [OF wf u(1)] by simp
    ultimately show ?thesis by (auto simp: count_list_0_iff)
  qed
  then have "set us \<inter> set n = {}" using n Cons.prems(5) by auto
  then show ?case
    using Cons.IH [OF ord _ _ fr] c r Cons.prems(3) by simp
qed simp

definition layered :: "dependency_index \<Rightarrow> unit_id list list \<Rightarrow> bool" where
  "layered ix bs \<longleftrightarrow> (\<forall>k < length bs. bs ! k \<noteq> [] \<and> sorted (bs ! k) \<and> distinct (bs ! k) \<and>
     set (bs ! k) = free_units ix (set (concat (take k bs))))"

lemma batch_loop_result:
  assumes "index_wf ix" and "kahn_inv ix counts ready processed" and "processed = concat batches"
    and "layered ix batches" and "sorted ready"
  shows "\<exists>bs. batch_loop ix counts ready batches processed = Ok (bs, concat bs) \<and> ixg.in_order ix (concat bs) \<and>
     layered ix bs \<and> free_units ix (set (concat bs)) = {}"
  using assms
proof (induction ix counts ready batches processed rule: batch_loop.induct)
  case (1 ix counts ready batches processed)
  note wf = 1(2) and inv = 1(3) and proc = 1(4) and lay = 1(5)
  show ?case
  proof (cases "ready = []")
    case True
    then show ?thesis using inv proc lay by (subst batch_loop.simps) (auto simp: kahn_inv_def)
  next
    case False
    obtain counts' nxt where r: "release_batch ix ready counts [] = Ok (counts', nxt)"
      and "ixg.in_order ix (processed @ ready)" "counts_left ix (set (processed @ ready)) counts'"
      "set nxt = free_units ix (set (processed @ ready))"
      using release_batch_effect [OF wf, of processed counts ready "[]"] inv by (auto simp: kahn_inv_def)
    then have inv': "kahn_inv ix counts' (sort_and_dedup_unit_ids nxt) (processed @ ready)"
      by (simp add: kahn_inv_def)
    have lay': "layered ix (batches @ [ready])"
      using lay inv proc False 1(6) by (auto simp: layered_def nth_append kahn_inv_def less_Suc_eq)
    have "sorted (sort_and_dedup_unit_ids nxt)" by (simp add: sort_and_dedup_unit_ids_def)
    then show ?thesis
      using 1(1) [OF False r _ wf inv' _ lay'] r False proc by (subst batch_loop.simps) simp
  qed
qed

text \<open>Batches are as early as they can be: a later unit waits for one of the batch before it.\<close>

lemma layered_earliest:
  assumes "layered ix bs" and "Suc k < length bs" and "v \<in> set (bs ! Suc k)"
  shows "\<exists>u \<in> set (bs ! k). ixg.needs ix v u"
proof -
  let ?S = "set (concat (take k bs))"
  have k: "set (bs ! k) = free_units ix ?S"
    and k': "set (bs ! Suc k) = free_units ix (set (concat (take (Suc k) bs)))"
    using assms(1,2) by (auto simp: layered_def)
  have took: "set (concat (take (Suc k) bs)) = ?S \<union> set (bs ! k)"
    using assms(2) by (simp add: take_Suc_conv_app_nth)
  have v: "v \<in> set (ix_units ix)" "v \<notin> ?S" "v \<notin> set (bs ! k)"
    and all: "\<forall>u. ixg.needs ix v u \<longrightarrow> u \<in> ?S \<union> set (bs ! k)"
    using assms(3) k' took by (auto simp: free_units_def ixg.remaining_zero_iff)
  then have "ixg.remaining ix ?S v \<noteq> 0" using k by (auto simp: free_units_def)
  then show ?thesis using all by (auto simp: ixg.remaining_zero_iff)
qed

section \<open>What the index holds\<close>

definition adjacent :: "dependency_index \<Rightarrow> unit_id \<Rightarrow> unit_id list" where
  "adjacent ix v = case_option [] id (map_of (ix_adjacency ix) v)"

definition index_keys :: "dependency_index \<Rightarrow> bool" where
  "index_keys ix \<longleftrightarrow> dom (map_of (ix_adjacency ix)) = set (ix_units ix) \<and>
     dom (map_of (ix_dependents ix)) = set (ix_units ix) \<and> dom (map_of (ix_counts ix)) = set (ix_units ix)"

text \<open>What the edges \<open>es\<close> of \<open>uid\<close> add to an index.\<close>

definition edges_added :: "unit_id \<Rightarrow> unit_id list \<Rightarrow> dependency_index \<Rightarrow> dependency_index \<Rightarrow> bool" where
  "edges_added uid tos ix ix' \<longleftrightarrow> ix_units ix' = ix_units ix \<and> index_keys ix' \<and>
     (\<forall>v. adjacent ix' v = adjacent ix v @ (if v = uid then tos else [])) \<and>
     (\<forall>u v. count_list (dependents_of ix' u) v = count_list (dependents_of ix u) v + (if v = uid then count_list tos u else 0)) \<and>
     (\<forall>v. count_or_zero (ix_counts ix') v = count_or_zero (ix_counts ix) v + (if v = uid then length tos else 0)) \<and>
     set (ix_self_loops ix') = set (ix_self_loops ix) \<union> (if uid \<in> set tos then {uid} else {})"

lemma edges_added_none: "index_keys ix \<Longrightarrow> edges_added uid [] ix ix"
  by (simp add: edges_added_def)

lemma edges_added_trans:
  assumes "edges_added uid xs ix ix1" and "edges_added uid ys ix1 ix2"
  shows "edges_added uid (xs @ ys) ix ix2"
  using assms unfolding edges_added_def by (auto simp: count_list_append)

lemma index_edge_adds:
  assumes "index_keys ix" and "uid \<in> set (ix_units ix)" and "from_unit_id e = uid" and "to_unit_id e \<in> set (ix_units ix)"
  shows "\<exists>ix'. index_edge uid e ix = Ok ix' \<and> edges_added uid [to_unit_id e] ix ix'"
proof -
  let ?to = "to_unit_id e"
  obtain ns where ns: "map_of (ix_adjacency ix) uid = Some ns" using assms(1,2) unfolding index_keys_def by (metis domD)
  obtain ds where ds: "map_of (ix_dependents ix) ?to = Some ds" using assms(1,4) unfolding index_keys_def by (metis domD)
  obtain n where n: "map_of (ix_counts ix) uid = Some n" using assms(1,2) unfolding index_keys_def by (metis domD)
  let ?ix' = "ix\<lparr>ix_adjacency := AList.update uid (ns @ [?to]) (ix_adjacency ix),
      ix_dependents := AList.update ?to (ds @ [uid]) (ix_dependents ix),
      ix_counts := AList.update uid (n + 1) (ix_counts ix),
      ix_self_loops := (if ?to = uid then List.insert uid (ix_self_loops ix) else ix_self_loops ix)\<rparr>"
  have "index_edge uid e ix = Ok ?ix'"
    using assms ns ds n by (simp add: index_edge_def push_at_def)
  moreover have "index_keys ?ix'"
    using assms ns ds n by (auto simp: index_keys_def AList.update_conv')
  moreover have "edges_added uid [?to] ix ?ix'"
    using calculation(2) ns ds n
    by (auto simp: edges_added_def adjacent_def dependents_of_def count_or_zero_def AList.update_conv' count_list_append)
  ultimately show ?thesis by blast
qed

lemma index_edges_adds:
  assumes "index_keys ix" and "uid \<in> set (ix_units ix)"
    and "\<forall>e \<in> set es. from_unit_id e = uid \<and> to_unit_id e \<in> set (ix_units ix)"
  shows "\<exists>ix'. index_edges uid es ix = Ok ix' \<and> edges_added uid (map to_unit_id es) ix ix'"
  using assms
proof (induction es arbitrary: ix)
  case (Cons e es)
  obtain ix1 where 1: "index_edge uid e ix = Ok ix1" "edges_added uid [to_unit_id e] ix ix1"
    using index_edge_adds [of ix uid e] Cons.prems by auto
  then have "index_keys ix1" "ix_units ix1 = ix_units ix" by (simp_all add: edges_added_def)
  then obtain ix2 where "index_edges uid es ix1 = Ok ix2" "edges_added uid (map to_unit_id es) ix1 ix2"
    using Cons.IH [of ix1] Cons.prems by auto
  then show ?case using 1 edges_added_trans [of uid "[to_unit_id e]" ix ix1] by auto
qed (simp add: edges_added_none)

text \<open>The units a unit depends on, with multiplicity, in the order the evaluator reads them.\<close>

definition prerequisites :: "sgr_state \<Rightarrow> unit_id \<Rightarrow> unit_id list" where
  "prerequisites s v = map to_unit_id (sort_dependency_edges (edges_of s v))"

definition units_added :: "sgr_state \<Rightarrow> unit_id set \<Rightarrow> dependency_index \<Rightarrow> dependency_index \<Rightarrow> bool" where
  "units_added s V ix ix' \<longleftrightarrow> ix_units ix' = ix_units ix \<and> index_keys ix' \<and>
     (\<forall>v. adjacent ix' v = adjacent ix v @ (if v \<in> V then prerequisites s v else [])) \<and>
     (\<forall>u v. count_list (dependents_of ix' u) v =
        count_list (dependents_of ix u) v + (if v \<in> V then count_list (prerequisites s v) u else 0)) \<and>
     (\<forall>v. count_or_zero (ix_counts ix') v =
        count_or_zero (ix_counts ix) v + (if v \<in> V then length (prerequisites s v) else 0)) \<and>
     set (ix_self_loops ix') = set (ix_self_loops ix) \<union> {v \<in> V. v \<in> set (prerequisites s v)}"

lemma set_sort_edges [simp]: "set (sort_dependency_edges es) = set es"
  by (simp add: sort_dependency_edges_def)

lemma index_units_adds:
  assumes "index_keys ix" and "distinct uids" and "set uids \<subseteq> set (ix_units ix)"
    and "\<forall>v \<in> set uids. map_of (sg_units s) v \<noteq> None"
    and "\<forall>v. \<forall>e \<in> set (edges_of s v). from_unit_id e = v \<and> to_unit_id e \<in> set (ix_units ix)"
  shows "\<exists>ix'. index_units s uids ix = Ok ix' \<and> units_added s (set uids) ix ix'"
  using assms
proof (induction uids arbitrary: ix)
  case (Cons v uids)
  have l: "fst (list_dependencies v s) = Ok (edges_of s v)"
    using Cons.prems(4) by (auto simp: list_dependencies_def)
  obtain ix1 where 1: "index_edges v (sort_dependency_edges (edges_of s v)) ix = Ok ix1"
    and a: "edges_added v (prerequisites s v) ix ix1"
    using index_edges_adds [of ix v "sort_dependency_edges (edges_of s v)"] Cons.prems by (auto simp: prerequisites_def)
  then have "index_keys ix1" "ix_units ix1 = ix_units ix" by (simp_all add: edges_added_def)
  then obtain ix2 where 2: "index_units s uids ix1 = Ok ix2" and b: "units_added s (set uids) ix1 ix2"
    using Cons.IH [of ix1] Cons.prems by auto
  have "units_added s (set (v # uids)) ix ix2"
    using a b Cons.prems(2) unfolding edges_added_def units_added_def by auto
  then show ?case using l 1 2 by auto
qed (simp add: units_added_def)

definition depends :: "sgr_state \<Rightarrow> unit_id \<Rightarrow> unit_id \<Rightarrow> bool" where
  "depends s v u \<longleftrightarrow> (\<exists>e \<in> set (edges_of s v). to_unit_id e = u)"

definition unit_ids :: "sgr_state \<Rightarrow> unit_id set" where
  "unit_ids s = set (map fst (sg_units s))"

lemma set_prerequisites: "set (prerequisites s v) = {u. depends s v u}"
  by (auto simp: prerequisites_def depends_def)

lemma count_list_sort [simp]: "count_list (sort_key f xs) v = count_list xs v"
  by (metis count_mset mset_sort)

lemma sort_values_lookup [simp]: "map_of (sort_values m) k = map_option sort (map_of m k)"
  by (simp add: sort_values_def map_of_map)

lemma graph_inv_ids:
  assumes "graph_inv env s"
  shows "map (\<lambda>(_, u). su_unit_id u) (sg_units s) = map fst (sg_units s)" and "distinct (map fst (sg_units s))"
    and "map_of (sg_units s) v \<noteq> None \<longleftrightarrow> v \<in> unit_ids s"
proof -
  have d: "distinct (map fst (sg_units s))" using assms by (simp add: graph_inv_def)
  have "su_unit_id u = i" if "(i, u) \<in> set (sg_units s)" for i u
    using assms that map_of_is_SomeI [OF d] by (auto simp: graph_inv_def)
  then show "map (\<lambda>(_, u). su_unit_id u) (sg_units s) = map fst (sg_units s)" by auto
  show "distinct (map fst (sg_units s))" by (fact d)
  show "map_of (sg_units s) v \<noteq> None \<longleftrightarrow> v \<in> unit_ids s" by (simp add: unit_ids_def map_of_eq_None_keys)
qed

definition loads :: "sgr_state \<Rightarrow> dependency_index \<Rightarrow> bool" where
  "loads s ix \<longleftrightarrow> index_wf ix \<and> set (ix_units ix) = unit_ids s \<and> length (ix_units ix) = card (unit_ids s) \<and>
     sorted (ix_units ix) \<and> (\<forall>v u. ixg.needs ix v u \<longleftrightarrow> depends s v u) \<and>
     (\<forall>v \<in> unit_ids s. map_of (ix_adjacency ix) v \<noteq> None) \<and> (\<forall>v. set (adjacent ix v) = {u. depends s v u}) \<and>
     set (ix_self_loops ix) = {v. depends s v v}"

text \<open>The index before its lists are sorted: every edge of the graph is counted in each of its parts.\<close>

definition edges_counted :: "sgr_state \<Rightarrow> dependency_index \<Rightarrow> bool" where
  "edges_counted s ix \<longleftrightarrow> ix_units ix = sort (map fst (sg_units s)) \<and> index_keys ix \<and>
     (\<forall>v. adjacent ix v = (if v \<in> unit_ids s then prerequisites s v else [])) \<and>
     (\<forall>v w. count_list (dependents_of ix w) v = (if v \<in> unit_ids s then count_list (prerequisites s v) w else 0)) \<and>
     (\<forall>v. count_or_zero (ix_counts ix) v = (if v \<in> unit_ids s then length (prerequisites s v) else 0)) \<and>
     set (ix_self_loops ix) = {v \<in> unit_ids s. v \<in> set (prerequisites s v)}"

abbreviation sorted_index :: "dependency_index \<Rightarrow> dependency_index" where
  "sorted_index ix \<equiv> ix\<lparr>ix_adjacency := sort_values (ix_adjacency ix), ix_dependents := sort_values (ix_dependents ix)\<rparr>"

lemma edge_ends:
  assumes "graph_inv env s" and "e \<in> set (edges_of s v)"
  shows "from_unit_id e = v \<and> to_unit_id e \<in> unit_ids s \<and> v \<in> unit_ids s"
  using assms graph_inv_ids(3) [OF assms(1)] by (auto simp: graph_inv_def)

lemma depends_ends: "graph_inv env s \<Longrightarrow> depends s v w \<Longrightarrow> v \<in> unit_ids s \<and> w \<in> unit_ids s"
  using edge_ends by (auto simp: depends_def)

lemma load_dependency_index_counts:
  assumes inv: "graph_inv env s"
  shows "\<exists>ix. load_dependency_index s = Ok (sorted_index ix) \<and> edges_counted s ix"
proof -
  let ?units = "sort (map fst (sg_units s))"
  let ?ix0 = "\<lparr>ix_units = ?units, ix_adjacency = map (\<lambda>i. (i, [])) ?units, ix_dependents = map (\<lambda>i. (i, [])) ?units,
      ix_counts = map (\<lambda>i. (i, 0)) ?units, ix_self_loops = []\<rparr>"
  note ids = graph_inv_ids [OF inv]
  have U: "set ?units = unit_ids s" by (simp add: unit_ids_def)
  have const: "map_of (map (\<lambda>i. (i, c)) xs) v = (if v \<in> set xs then Some c else None)" for c :: 'z and xs :: "unit_id list" and v
    by (induction xs) auto
  have keys0: "index_keys ?ix0" by (auto simp: index_keys_def dom_def const)
  have "\<exists>ix. index_units s ?units ?ix0 = Ok ix \<and> units_added s (set ?units) ?ix0 ix"
  proof (rule index_units_adds [OF keys0])
    show "\<forall>v \<in> set ?units. map_of (sg_units s) v \<noteq> None" using ids(3) U by blast
  qed (use ids(2) edge_ends [OF inv] U in simp_all)
  then obtain ix where ix: "index_units s ?units ?ix0 = Ok ix" and add: "units_added s (unit_ids s) ?ix0 ix"
    using U by auto
  have "adjacent ?ix0 v = []" "dependents_of ?ix0 u = []" "count_or_zero (ix_counts ?ix0) v = 0" for u v
    by (simp_all add: adjacent_def dependents_of_def count_or_zero_def const)
  then have "edges_counted s ix" using add unfolding units_added_def edges_counted_def by simp
  moreover have "load_dependency_index s = Ok (sorted_index ix)"
    unfolding load_dependency_index_def ids(1) Let_def ix by simp
  ultimately show ?thesis by blast
qed

lemma counted_dependents:
  assumes inv: "graph_inv env s" and ix: "edges_counted s ix"
  shows "dependents_of (sorted_index ix) w = sort (dependents_of ix w)"
    and "v \<in> set (dependents_of (sorted_index ix) w) \<longleftrightarrow> depends s v w"
    and "index_dependents (sorted_index ix) w = dependents_of (sorted_index ix) w"
proof -
  show sorted: "dependents_of (sorted_index ix) w = sort (dependents_of ix w)" for w
    by (simp add: dependents_of_def split: option.splits)
  show member: "v \<in> set (dependents_of (sorted_index ix) w) \<longleftrightarrow> depends s v w" for v w
  proof -
    have "v \<in> set (dependents_of ix w) \<longleftrightarrow> count_list (dependents_of ix w) v \<noteq> 0" by (simp add: count_list_0_iff)
    also have "\<dots> \<longleftrightarrow> v \<in> unit_ids s \<and> w \<in> set (prerequisites s v)"
      using ix count_list_0_iff [of "prerequisites s v" w] by (auto simp: edges_counted_def)
    also have "\<dots> \<longleftrightarrow> depends s v w" using depends_ends [OF inv] by (auto simp: set_prerequisites)
    finally show ?thesis by (simp add: sorted)
  qed
  show "index_dependents (sorted_index ix) w = dependents_of (sorted_index ix) w"
    using member depends_ends [OF inv] ix
    by (auto simp: index_dependents_def filter_id_conv edges_counted_def unit_ids_def)
qed

lemma counted_remaining:
  assumes inv: "graph_inv env s" and ix: "edges_counted s ix" and v: "v \<in> unit_ids s"
  shows "map_of (ix_counts (sorted_index ix)) v = Some (ixg.remaining (sorted_index ix) {} v)"
proof -
  have U: "set (ix_units ix) = unit_ids s" using ix by (simp add: edges_counted_def unit_ids_def)
  have "ixg.remaining (sorted_index ix) {} v = (\<Sum>w \<in> unit_ids s. count_list (prerequisites s v) w)"
    unfolding ixg.remaining_def counted_dependents(3) [OF inv ix] counted_dependents(1) [OF inv ix]
    using ix U v by (simp add: edges_counted_def)
  also have "\<dots> = length (prerequisites s v)"
    using depends_ends [OF inv] by (intro sum_count_set) (auto simp: set_prerequisites unit_ids_def)
  finally have "count_or_zero (ix_counts ix) v = ixg.remaining (sorted_index ix) {} v"
    using ix v by (simp add: edges_counted_def)
  moreover have "v \<in> dom (map_of (ix_counts ix))" using ix U v by (simp add: edges_counted_def index_keys_def)
  ultimately show ?thesis by (auto simp: count_or_zero_def)
qed

lemma load_dependency_index_loads:
  assumes inv: "graph_inv env s"
  shows "\<exists>ix. load_dependency_index s = Ok ix \<and> loads s ix"
proof -
  obtain ix where load: "load_dependency_index s = Ok (sorted_index ix)" and ix: "edges_counted s ix"
    using load_dependency_index_counts [OF inv] by blast
  let ?ix = "sorted_index ix"
  note inside = depends_ends [OF inv] and dist = graph_inv_ids(2) [OF inv] and member = counted_dependents(2) [OF inv ix]
  have u: "ix_units ix = sort (map fst (sg_units s))" and keys: "index_keys ix"
    and self: "set (ix_self_loops ix) = {v \<in> unit_ids s. v \<in> set (prerequisites s v)}"
    using ix by (simp_all add: edges_counted_def)
  then have U: "set (ix_units ix) = unit_ids s" by (simp add: unit_ids_def)
  have "index_wf ?ix"
    using dist u U member inside counted_remaining [OF inv ix] by (auto simp: index_wf_def)
  moreover have "ixg.needs ?ix v w \<longleftrightarrow> depends s v w" for v w
    unfolding ixg.needs_def counted_dependents(3) [OF inv ix] using member inside U by auto
  moreover have "map_of (ix_adjacency ?ix) v \<noteq> None" if "v \<in> unit_ids s" for v
    using keys U that by (auto simp: index_keys_def dom_def)
  moreover have "set (adjacent ?ix v) = {w. depends s v w}" for v
  proof -
    have "adjacent ?ix v = sort (adjacent ix v)" by (simp add: adjacent_def split: option.splits)
    then show ?thesis using ix inside by (auto simp: set_prerequisites edges_counted_def)
  qed
  moreover have "length (ix_units ?ix) = card (unit_ids s)" using distinct_card [OF dist] u by (simp add: unit_ids_def)
  ultimately have "loads s ?ix"
    using u U self inside by (auto simp: loads_def set_prerequisites)
  then show ?thesis using load by blast
qed

end
