(* ===== verification/Sgr_Cycles.thy ===== *)
theory Sgr_Cycles
  imports Sgr_Order
begin

text \<open>
  Why the search for cycles is right: Tarjan's algorithm, with its explicit frames, returns the strongly
  connected components of the index. The invariant of the inner loop has four parts, the shape of the stacks,
  the paths behind them, what the low links say, and the components already popped; each kind of iteration
  keeps it.
\<close>

section \<open>The graph and the values\<close>

definition successor :: "dependency_index \<Rightarrow> (unit_id \<times> unit_id) set" where
  "successor ix = {(v, u). u \<in> set (adjacent ix v)}"

definition adjacency_wf :: "dependency_index \<Rightarrow> bool" where
  "adjacency_wf ix \<longleftrightarrow> distinct (ix_units ix) \<and>
     (\<forall>v \<in> set (ix_units ix). map_of (ix_adjacency ix) v \<noteq> None \<and> set (adjacent ix v) \<subseteq> set (ix_units ix))"

abbreviation idx :: "tarjan_state \<Rightarrow> unit_id \<Rightarrow> nat" where
  "idx t \<equiv> count_or_zero (tj_indexes t)"

abbreviation low :: "tarjan_state \<Rightarrow> unit_id \<Rightarrow> nat" where
  "low t \<equiv> count_or_zero (tj_lowlinks t)"

definition visited :: "tarjan_state \<Rightarrow> unit_id set" where
  "visited t = dom (map_of (tj_indexes t))"

definition popped :: "tarjan_state \<Rightarrow> unit_id set" where
  "popped t = set (concat (tj_components t))"

definition frame_nodes :: "tarjan_frame list \<Rightarrow> unit_id list" where
  "frame_nodes fs = map tf_node fs"

lemma frame_nodes_simps [simp]: "frame_nodes [] = []" "frame_nodes (f # fs) = tf_node f # frame_nodes fs"
  by (simp_all add: frame_nodes_def)

section \<open>The invariant\<close>

text \<open>Shape: the stack holds the visited nodes that are in no component, in the order of their indexes.\<close>

definition shape :: "dependency_index \<Rightarrow> tarjan_state \<Rightarrow> tarjan_frame list \<Rightarrow> bool" where
  "shape ix t fs \<longleftrightarrow>
     set (tj_on_stack t) = set (tj_stack t) \<and> dom (map_of (tj_lowlinks t)) = visited t \<and>
     visited t = set (tj_stack t) \<union> popped t \<and> set (tj_stack t) \<inter> popped t = {} \<and>
     visited t \<subseteq> set (ix_units ix) \<and> (\<forall>n \<in> visited t. idx t n < tj_next_index t) \<and>
     sorted_wrt (\<lambda>a b. idx t b < idx t a) (tj_stack t) \<and>
     set (frame_nodes fs) \<subseteq> set (tj_stack t) \<and> sorted_wrt (\<lambda>a b. idx t b < idx t a) (frame_nodes fs) \<and>
     (fs = [] \<longrightarrow> tj_stack t = []) \<and> (fs \<noteq> [] \<longrightarrow> last (frame_nodes fs) = last (tj_stack t)) \<and>
     (\<forall>f \<in> set fs. tf_next_neighbor f \<le> length (adjacent ix (tf_node f)))"

text \<open>Paths: a frame is the neighbour its parent looked at last, reaches all that lies above it on the stack,
  and every low link is the index of a node on the stack that can be reached.\<close>

fun frames_linked :: "dependency_index \<Rightarrow> tarjan_frame list \<Rightarrow> bool" where
  "frames_linked ix (c # p # fs) \<longleftrightarrow>
     0 < tf_next_neighbor p \<and> adjacent ix (tf_node p) ! (tf_next_neighbor p - 1) = tf_node c \<and> frames_linked ix (p # fs)"
| "frames_linked ix _ \<longleftrightarrow> True"

definition paths :: "dependency_index \<Rightarrow> tarjan_state \<Rightarrow> tarjan_frame list \<Rightarrow> bool" where
  "paths ix t fs \<longleftrightarrow> frames_linked ix fs \<and>
     (\<forall>f \<in> set (frame_nodes fs). \<forall>n \<in> set (tj_stack t). idx t f \<le> idx t n \<longrightarrow> (f, n) \<in> (successor ix)\<^sup>*) \<and>
     (\<forall>n \<in> set (tj_stack t). low t n \<le> idx t n \<and>
        (\<exists>m \<in> set (tj_stack t). idx t m = low t n \<and> (n, m) \<in> (successor ix)\<^sup>*))"

text \<open>Scan: what has been looked at is visited, and its index is accounted for in the low link.\<close>

definition seen :: "tarjan_state \<Rightarrow> unit_id \<Rightarrow> unit_id \<Rightarrow> bool" where
  "seen t n m \<longleftrightarrow> m \<in> visited t \<and> (m \<in> set (tj_stack t) \<longrightarrow> low t n \<le> idx t m)"

definition nearest :: "tarjan_state \<Rightarrow> tarjan_frame list \<Rightarrow> unit_id \<Rightarrow> unit_id \<Rightarrow> bool" where
  "nearest t fs f n \<longleftrightarrow> f \<in> set (frame_nodes fs) \<and> idx t f < idx t n \<and>
     (\<forall>g \<in> set (frame_nodes fs). idx t g < idx t n \<longrightarrow> idx t g \<le> idx t f)"

definition finished :: "tarjan_state \<Rightarrow> tarjan_frame list \<Rightarrow> unit_id set" where
  "finished t fs = set (tj_stack t) - set (frame_nodes fs)"

definition scan :: "dependency_index \<Rightarrow> tarjan_state \<Rightarrow> tarjan_frame list \<Rightarrow> bool" where
  "scan ix t fs \<longleftrightarrow>
     (\<forall>n \<in> finished t fs. low t n < idx t n \<and> (\<forall>m \<in> set (adjacent ix n). seen t n m) \<and>
        (\<forall>f. nearest t fs f n \<longrightarrow> low t f \<le> low t n)) \<and>
     (\<forall>f fs'. fs = f # fs' \<longrightarrow>
        (\<forall>m \<in> set (take (tf_next_neighbor f) (adjacent ix (tf_node f))). seen t (tf_node f) m) \<and>
        (\<forall>g \<in> set fs'. \<forall>m \<in> set (take (tf_next_neighbor g - 1) (adjacent ix (tf_node g))). seen t (tf_node g) m))"

text \<open>Components: each is strongly connected, and its edges lead to itself or to earlier ones.\<close>

definition closed_components :: "dependency_index \<Rightarrow> unit_id list list \<Rightarrow> bool" where
  "closed_components ix cs \<longleftrightarrow>
     distinct (concat cs) \<and>
     (\<forall>c \<in> set cs. c \<noteq> [] \<and> distinct c \<and> sorted c \<and> (\<forall>a \<in> set c. \<forall>b \<in> set c. (a, b) \<in> (successor ix)\<^sup>*)) \<and>
     (\<forall>k < length cs. \<forall>a \<in> set (cs ! k). set (adjacent ix a) \<subseteq> set (concat (take (Suc k) cs)))"

definition tarjan_inv :: "dependency_index \<Rightarrow> tarjan_state \<Rightarrow> tarjan_frame list \<Rightarrow> bool" where
  "tarjan_inv ix t fs \<longleftrightarrow> shape ix t fs \<and> paths ix t fs \<and> scan ix t fs \<and> closed_components ix (tj_components t)"

section \<open>Values after a change\<close>

lemma idx_push: "idx (push_tarjan_node m t) n = (if n = m then tj_next_index t else idx t n)"
  by (simp add: push_tarjan_node_def count_or_zero_update)

lemma low_push: "low (push_tarjan_node m t) n = (if n = m then tj_next_index t else low t n)"
  by (simp add: push_tarjan_node_def count_or_zero_update)

lemma visited_push: "visited (push_tarjan_node m t) = insert m (visited t)"
  by (simp add: visited_def push_tarjan_node_def AList.update_conv')

lemma push_fields [simp]:
  "tj_stack (push_tarjan_node m t) = m # tj_stack t" "tj_components (push_tarjan_node m t) = tj_components t"
  "tj_next_index (push_tarjan_node m t) = Suc (tj_next_index t)" "popped (push_tarjan_node m t) = popped t"
  "set (tj_on_stack (push_tarjan_node m t)) = insert m (set (tj_on_stack t))"
  "dom (map_of (tj_lowlinks (push_tarjan_node m t))) = insert m (dom (map_of (tj_lowlinks t)))"
  by (simp_all add: push_tarjan_node_def popped_def AList.update_conv')

lemma lower_lowlink_eq:
  assumes "n \<in> dom (map_of lows)"
  shows "\<exists>lows'. lower_lowlink lows n c = Ok lows' \<and> dom (map_of lows') = dom (map_of lows) \<and>
     (\<forall>m. count_or_zero lows' m = (if m = n then min (count_or_zero lows n) c else count_or_zero lows m))"
proof -
  obtain x where x: "map_of lows n = Some x" using assms by blast
  let ?l = "if c < x then AList.update n c lows else lows"
  have "lower_lowlink lows n c = Ok ?l" using x by (simp add: lower_lowlink_def)
  moreover have "dom (map_of ?l) = dom (map_of lows)" using x by (auto simp: AList.update_conv')
  moreover have "count_or_zero ?l m = (if m = n then min (count_or_zero lows n) c else count_or_zero lows m)" for m
    using x by (auto simp: count_or_zero_update) (auto simp: count_or_zero_def)
  ultimately show ?thesis by blast
qed

lemma tarjan_value_eq: "n \<in> dom (map_of vs) \<Longrightarrow> tarjan_value vs n label = Ok (count_or_zero vs n)"
  by (auto simp: tarjan_value_def count_or_zero_def)

section \<open>Visiting a neighbour\<close>

abbreviation advance :: "tarjan_frame \<Rightarrow> tarjan_frame" where
  "advance f \<equiv> f\<lparr>tf_next_neighbor := tf_next_neighbor f + 1\<rparr>"

abbreviation fresh_frame :: "unit_id \<Rightarrow> tarjan_frame" where
  "fresh_frame m \<equiv> \<lparr>tf_node = m, tf_next_neighbor = 0\<rparr>"

lemma sorted_wrt_cong: "(\<And>x y. x \<in> set xs \<Longrightarrow> y \<in> set xs \<Longrightarrow> P x y \<longleftrightarrow> Q x y) \<Longrightarrow> sorted_wrt P xs \<longleftrightarrow> sorted_wrt Q xs"
  by (induction xs) auto

lemma sorted_idx_same:
  "(\<And>n. n \<in> set xs \<Longrightarrow> idx t' n = idx t n) \<Longrightarrow>
     sorted_wrt (\<lambda>a b. idx t' b < idx t' a) xs \<longleftrightarrow> sorted_wrt (\<lambda>a b. idx t b < idx t a) xs"
  by (rule sorted_wrt_cong) simp

lemma sorted_idx_distinct: "sorted_wrt (\<lambda>a b. idx t b < idx t a) xs \<Longrightarrow> distinct xs"
  by (induction xs) auto

lemma frames_linked_advance: "frames_linked ix (f # rest) \<Longrightarrow> frames_linked ix (advance f # rest)"
  by (cases rest) auto

lemma shape_push:
  assumes sh: "shape ix t (f # rest)" and m: "m \<notin> visited t" "m \<in> set (ix_units ix)"
    and k: "tf_next_neighbor f < length (adjacent ix (tf_node f))"
  shows "shape ix (push_tarjan_node m t) (fresh_frame m # advance f # rest)"
proof -
  let ?t = "push_tarjan_node m t"
  have st: "set (tj_stack t) \<subseteq> visited t" and fr: "set (frame_nodes (f # rest)) \<subseteq> set (tj_stack t)"
    using sh by (auto simp: shape_def)
  have same: "idx ?t n = idx t n" if "n \<in> visited t" for n using that m by (auto simp: idx_push)
  have lt: "idx t n < tj_next_index t" if "n \<in> visited t" for n using sh that by (auto simp: shape_def)
  have "sorted_wrt (\<lambda>a b. idx ?t b < idx ?t a) (tj_stack t)"
    using sh same st by (subst sorted_idx_same [of _ ?t t]) (auto simp: shape_def)
  moreover have "sorted_wrt (\<lambda>a b. idx ?t b < idx ?t a) (frame_nodes (f # rest))"
  proof (subst sorted_idx_same [of _ ?t t])
    show "idx ?t n = idx t n" if "n \<in> set (frame_nodes (f # rest))" for n using that fr st same by blast
  qed (use sh in \<open>simp add: shape_def\<close>)
  moreover have "\<forall>b \<in> visited t. idx ?t b < idx ?t m" using same lt by (simp add: idx_push)
  moreover have "tj_stack t \<noteq> []" using fr by auto
  ultimately show ?thesis
    using sh m k st fr same lt
    unfolding shape_def visited_push push_fields frame_nodes_simps by (auto simp: idx_push less_Suc_eq)
qed

lemma paths_push:
  assumes sh: "shape ix t (f # rest)" and pa: "paths ix t (f # rest)" and m: "m \<notin> visited t"
    and k: "tf_next_neighbor f < length (adjacent ix (tf_node f))" "m = adjacent ix (tf_node f) ! tf_next_neighbor f"
  shows "paths ix (push_tarjan_node m t) (fresh_frame m # advance f # rest)"
proof -
  let ?t = "push_tarjan_node m t" and ?E = "(successor ix)\<^sup>*"
  have st: "set (tj_stack t) \<subseteq> visited t" and fr: "set (frame_nodes (f # rest)) \<subseteq> set (tj_stack t)"
    and so: "sorted_wrt (\<lambda>a b. idx t b < idx t a) (frame_nodes (f # rest))"
    and lt: "\<forall>n \<in> visited t. idx t n < tj_next_index t"
    using sh by (auto simp: shape_def)
  have same: "idx ?t n = idx t n" "low ?t n = low t n" if "n \<in> visited t" for n
    using that m by (auto simp: idx_push low_push)
  have edge: "(tf_node f, m) \<in> ?E" using k by (auto simp: successor_def)
  have up: "(g, n) \<in> ?E" if "g \<in> set (frame_nodes (f # rest))" "n \<in> set (tj_stack t)" "idx t g \<le> idx t n" for g n
    using pa that by (auto simp: paths_def)
  have to_m: "(g, m) \<in> ?E" if "g \<in> set (frame_nodes (f # rest))" for g
  proof -
    have "idx t g \<le> idx t (tf_node f)" using so that by (auto simp: less_imp_le)
    then have "(g, tf_node f) \<in> ?E" using up [OF that] fr by auto
    then show ?thesis using edge by simp
  qed
  have "low ?t n \<le> idx ?t n \<and> (\<exists>x \<in> set (tj_stack ?t). idx ?t x = low ?t n \<and> (n, x) \<in> ?E)" if n: "n \<in> set (tj_stack t)" for n
  proof -
    obtain x where "x \<in> set (tj_stack t)" "idx t x = low t n" "(n, x) \<in> ?E" "low t n \<le> idx t n"
      using pa n by (auto simp: paths_def)
    then show ?thesis using same st n by (metis list.set_intros(2) push_fields(1) subset_iff)
  qed
  moreover have "frames_linked ix (fresh_frame m # advance f # rest)"
    using pa k frames_linked_advance [of ix f rest] by (simp add: paths_def)
  moreover have "(g, n) \<in> ?E"
    if "g \<in> set (frame_nodes (fresh_frame m # advance f # rest))" "n \<in> set (tj_stack ?t)" "idx ?t g \<le> idx ?t n" for g n
  proof (cases "g = m")
    case True
    then have "n = m" using that st lt m by (auto simp: idx_push split: if_splits) (meson leD subsetD)
    then show ?thesis using True by simp
  next
    case False
    then have g: "g \<in> set (frame_nodes (f # rest))" using that(1) by auto
    show ?thesis
    proof (cases "n = m")
      case True
      then show ?thesis using to_m [OF g] by simp
    next
      case False
      then have "n \<in> set (tj_stack t)" using that(2) by simp
      moreover have "idx t g \<le> idx t n" using that(3) same g fr st calculation by (metis subset_iff)
      ultimately show ?thesis using up [OF g] by blast
    qed
  qed
  ultimately show ?thesis
    unfolding paths_def by (auto simp: idx_push low_push)
qed

lemma seen_push: "seen t n x \<Longrightarrow> n \<in> visited t \<Longrightarrow> m \<notin> visited t \<Longrightarrow> seen (push_tarjan_node m t) n x"
  unfolding seen_def by (auto simp: visited_push idx_push low_push)

lemma nearest_fewer:
  assumes "nearest t' fs' g n" and "g \<in> set (frame_nodes fs)" and "set (frame_nodes fs) \<subseteq> set (frame_nodes fs')"
    and "\<And>x. x \<in> set (frame_nodes fs) \<Longrightarrow> idx t' x = idx t x" and "idx t' n = idx t n"
  shows "nearest t fs g n"
  using assms unfolding nearest_def by (metis subsetD)

lemma scan_push:
  assumes sh: "shape ix t (f # rest)" and sc: "scan ix t (f # rest)" and m: "m \<notin> visited t"
  shows "scan ix (push_tarjan_node m t) (fresh_frame m # advance f # rest)"
proof -
  let ?t = "push_tarjan_node m t" and ?fs = "fresh_frame m # advance f # rest"
  have st: "set (tj_stack t) \<subseteq> visited t" and fr: "set (frame_nodes (f # rest)) \<subseteq> visited t"
    and lt: "\<forall>n \<in> visited t. idx t n < tj_next_index t"
    using sh by (auto simp: shape_def)
  have same: "idx ?t n = idx t n" "low ?t n = low t n" if "n \<in> visited t" for n
    using that m by (auto simp: idx_push low_push)
  have fin: "finished ?t ?fs = finished t (f # rest)"
    using m st by (auto simp: finished_def)
  have near: "nearest t (f # rest) g n" if "nearest ?t ?fs g n" and n: "n \<in> visited t" for g n
  proof -
    have "g \<noteq> m" using that lt m by (auto simp: nearest_def idx_push split: if_splits)
    moreover have "idx ?t x = idx t x" if "x \<in> set (frame_nodes (f # rest))" for x using that fr same by blast
    ultimately show ?thesis
      using that same by (intro nearest_fewer [of ?t ?fs g n "f # rest" t]) (auto simp: nearest_def)
  qed
  have "low ?t n < idx ?t n \<and> (\<forall>x \<in> set (adjacent ix n). seen ?t n x) \<and> (\<forall>g. nearest ?t ?fs g n \<longrightarrow> low ?t g \<le> low ?t n)"
    if "n \<in> finished ?t ?fs" for n
  proof -
    have n: "n \<in> finished t (f # rest)" "n \<in> visited t" using that fin st by (auto simp: finished_def)
    then have "low t n < idx t n" "\<forall>x \<in> set (adjacent ix n). seen t n x" "\<forall>g. nearest t (f # rest) g n \<longrightarrow> low t g \<le> low t n"
      using sc by (auto simp: scan_def)
    moreover have "g \<in> visited t" if "nearest t (f # rest) g n" for g using that fr by (auto simp: nearest_def)
    ultimately show ?thesis using n(2) same near seen_push [OF _ n(2) m] by auto
  qed
  moreover have "\<forall>x \<in> set (take (tf_next_neighbor g - 1) (adjacent ix (tf_node g))). seen ?t (tf_node g) x"
    if "g \<in> set (advance f # rest)" for g
  proof -
    have v: "tf_node g \<in> visited t" using that fr by (auto simp: frame_nodes_def)
    have "\<forall>x \<in> set (take (tf_next_neighbor g - 1) (adjacent ix (tf_node g))). seen t (tf_node g) x"
      using that sc by (auto simp: scan_def)
    then show ?thesis using seen_push [OF _ v m] by blast
  qed
  ultimately show ?thesis unfolding scan_def by auto
qed

lemma tarjan_inv_push:
  assumes "tarjan_inv ix t (f # rest)" and "m \<notin> visited t" and "m \<in> set (ix_units ix)"
    and "tf_next_neighbor f < length (adjacent ix (tf_node f))" and "m = adjacent ix (tf_node f) ! tf_next_neighbor f"
  shows "tarjan_inv ix (push_tarjan_node m t) (fresh_frame m # advance f # rest)"
  using assms shape_push paths_push scan_push unfolding tarjan_inv_def by (simp only: push_fields) blast

text \<open>A low link that is lowered to the index of a node on the stack that can be reached.\<close>

definition lowered :: "tarjan_state \<Rightarrow> unit_id \<Rightarrow> nat \<Rightarrow> (unit_id \<times> nat) list \<Rightarrow> bool" where
  "lowered t n c lows \<longleftrightarrow> dom (map_of lows) = dom (map_of (tj_lowlinks t)) \<and>
     (\<forall>x. count_or_zero lows x = (if x = n then min (low t n) c else low t x))"

lemma lows_same [simp]:
  "visited (t\<lparr>tj_lowlinks := lows\<rparr>) = visited t" "popped (t\<lparr>tj_lowlinks := lows\<rparr>) = popped t"
  "nearest (t\<lparr>tj_lowlinks := lows\<rparr>) = nearest t" "finished (t\<lparr>tj_lowlinks := lows\<rparr>) = finished t"
  by (auto simp: visited_def popped_def nearest_def finished_def fun_eq_iff)

lemma lowered_le: "lowered t n c lows \<Longrightarrow> count_or_zero lows x \<le> low t x"
  by (simp add: lowered_def)

lemma seen_lowered: "lowered t n c lows \<Longrightarrow> seen t x y \<Longrightarrow> seen (t\<lparr>tj_lowlinks := lows\<rparr>) x y"
  unfolding seen_def by (auto intro: order_trans [OF lowered_le])

lemma shape_lowered: "lowered t n c lows \<Longrightarrow> shape ix t fs \<Longrightarrow> shape ix (t\<lparr>tj_lowlinks := lows\<rparr>) fs"
  unfolding shape_def lowered_def lows_same by auto

lemma paths_lowered:
  assumes lo: "lowered t n c lows" and pa: "paths ix t fs"
    and m: "m \<in> set (tj_stack t)" "idx t m = c" "(n, m) \<in> (successor ix)\<^sup>*"
  shows "paths ix (t\<lparr>tj_lowlinks := lows\<rparr>) fs"
proof -
  have "count_or_zero lows x \<le> idx t x \<and> (\<exists>y \<in> set (tj_stack t). idx t y = count_or_zero lows x \<and> (x, y) \<in> (successor ix)\<^sup>*)"
    if x: "x \<in> set (tj_stack t)" for x
  proof -
    obtain y where y: "y \<in> set (tj_stack t)" "idx t y = low t x" "(x, y) \<in> (successor ix)\<^sup>*" "low t x \<le> idx t x"
      using pa x unfolding paths_def by blast
    show ?thesis
    proof (cases "x = n \<and> c < low t n")
      case True
      then have "count_or_zero lows x = c" using lo by (simp add: lowered_def)
      then show ?thesis using True m y(4) by (metis less_le_trans less_imp_le)
    next
      case False
      then have "count_or_zero lows x = low t x" using lo by (auto simp: lowered_def)
      then show ?thesis using y by metis
    qed
  qed
  then show ?thesis using pa unfolding paths_def by simp
qed

lemma pathsD:
  assumes "paths ix t fs"
  shows "g \<in> set (frame_nodes fs) \<Longrightarrow> n \<in> set (tj_stack t) \<Longrightarrow> idx t g \<le> idx t n \<Longrightarrow> (g, n) \<in> (successor ix)\<^sup>*"
    and "n \<in> set (tj_stack t) \<Longrightarrow> low t n \<le> idx t n"
    and "n \<in> set (tj_stack t) \<Longrightarrow> \<exists>m \<in> set (tj_stack t). idx t m = low t n \<and> (n, m) \<in> (successor ix)\<^sup>*"
    and "frames_linked ix fs"
  using assms unfolding paths_def by blast+

lemma scanD:
  assumes "scan ix t (f # rest)"
  shows "n \<in> finished t (f # rest) \<Longrightarrow> low t n < idx t n"
    and "n \<in> finished t (f # rest) \<Longrightarrow> m \<in> set (adjacent ix n) \<Longrightarrow> seen t n m"
    and "n \<in> finished t (f # rest) \<Longrightarrow> nearest t (f # rest) g n \<Longrightarrow> low t g \<le> low t n"
    and "m \<in> set (take (tf_next_neighbor f) (adjacent ix (tf_node f))) \<Longrightarrow> seen t (tf_node f) m"
    and "h \<in> set rest \<Longrightarrow> m \<in> set (take (tf_next_neighbor h - 1) (adjacent ix (tf_node h))) \<Longrightarrow> seen t (tf_node h) m"
  using assms unfolding scan_def by blast+

lemma scanI:
  assumes "\<And>n. n \<in> finished t (f # rest) \<Longrightarrow> low t n < idx t n"
    and "\<And>n m. n \<in> finished t (f # rest) \<Longrightarrow> m \<in> set (adjacent ix n) \<Longrightarrow> seen t n m"
    and "\<And>n g. n \<in> finished t (f # rest) \<Longrightarrow> nearest t (f # rest) g n \<Longrightarrow> low t g \<le> low t n"
    and "\<And>m. m \<in> set (take (tf_next_neighbor f) (adjacent ix (tf_node f))) \<Longrightarrow> seen t (tf_node f) m"
    and "\<And>h m. h \<in> set rest \<Longrightarrow> m \<in> set (take (tf_next_neighbor h - 1) (adjacent ix (tf_node h))) \<Longrightarrow> seen t (tf_node h) m"
  shows "scan ix t (f # rest)"
  using assms unfolding scan_def by blast

lemma scan_lowered:
  assumes lo: "lowered t (tf_node f) c lows" and sc: "scan ix t (f # rest)"
    and m: "m = adjacent ix (tf_node f) ! tf_next_neighbor f" "tf_next_neighbor f < length (adjacent ix (tf_node f))"
    and seen: "seen (t\<lparr>tj_lowlinks := lows\<rparr>) (tf_node f) m"
  shows "scan ix (t\<lparr>tj_lowlinks := lows\<rparr>) (advance f # rest)"
proof (rule scanI)
  have same: "finished t (advance f # rest) = finished t (f # rest)" "nearest t (advance f # rest) = nearest t (f # rest)"
    by (simp_all add: finished_def nearest_def fun_eq_iff)
  fix n assume "n \<in> finished (t\<lparr>tj_lowlinks := lows\<rparr>) (advance f # rest)"
  then have n: "n \<in> finished t (f # rest)" using same by simp
  then have eq: "count_or_zero lows n = low t n" using lo by (auto simp: lowered_def finished_def)
  show "low (t\<lparr>tj_lowlinks := lows\<rparr>) n < idx (t\<lparr>tj_lowlinks := lows\<rparr>) n"
    using scanD(1) [OF sc n] eq by simp
  show "seen (t\<lparr>tj_lowlinks := lows\<rparr>) n x" if "x \<in> set (adjacent ix n)" for x
    using seen_lowered [OF lo scanD(2) [OF sc n that]] .
  show "low (t\<lparr>tj_lowlinks := lows\<rparr>) g \<le> low (t\<lparr>tj_lowlinks := lows\<rparr>) n"
    if "nearest (t\<lparr>tj_lowlinks := lows\<rparr>) (advance f # rest) g n" for g
    using scanD(3) [OF sc n, of g] that same eq order_trans [OF lowered_le [OF lo]] by simp
next
  fix x assume "x \<in> set (take (tf_next_neighbor (advance f)) (adjacent ix (tf_node (advance f))))"
  then have "x = m \<or> x \<in> set (take (tf_next_neighbor f) (adjacent ix (tf_node f)))"
    using m by (auto simp: take_Suc_conv_app_nth)
  then show "seen (t\<lparr>tj_lowlinks := lows\<rparr>) (tf_node (advance f)) x"
    using seen seen_lowered [OF lo scanD(4) [OF sc]] by auto
next
  fix h x assume "h \<in> set rest" "x \<in> set (take (tf_next_neighbor h - 1) (adjacent ix (tf_node h)))"
  then show "seen (t\<lparr>tj_lowlinks := lows\<rparr>) (tf_node h) x" by (intro seen_lowered [OF lo] scanD(5) [OF sc])
qed

lemma shape_advance:
  assumes "shape ix t (f # rest)" and "tf_next_neighbor f < length (adjacent ix (tf_node f))"
  shows "shape ix t (advance f # rest)"
proof -
  have "frame_nodes (advance f # rest) = frame_nodes (f # rest)" by simp
  then show ?thesis using assms unfolding shape_def by auto
qed

lemma paths_advance:
  assumes "paths ix t (f # rest)"
  shows "paths ix t (advance f # rest)"
proof -
  have "frame_nodes (advance f # rest) = frame_nodes (f # rest)" by simp
  then show ?thesis using assms frames_linked_advance [of ix f rest] unfolding paths_def by metis
qed

text \<open>A neighbour that has been visited before leaves the frames as they are, one step on.\<close>

lemma visit_visited:
  assumes inv: "tarjan_inv ix t (f # rest)" and k: "tf_next_neighbor f < length (adjacent ix (tf_node f))"
    and m: "m = adjacent ix (tf_node f) ! tf_next_neighbor f" and vis: "m \<in> visited t"
  shows "\<exists>t'. visit_neighbor t (tf_node f) m (advance f # rest) = Ok (t', advance f # rest) \<and> tarjan_inv ix t' (advance f # rest)"
proof -
  have sh: "shape ix t (f # rest)" and pa: "paths ix t (f # rest)" and sc: "scan ix t (f # rest)"
    and co: "closed_components ix (tj_components t)" using inv unfolding tarjan_inv_def by blast+
  have f: "tf_node f \<in> set (tj_stack t)" and on: "set (tj_on_stack t) = set (tj_stack t)"
    and dom: "dom (map_of (tj_lowlinks t)) = visited t" and st: "set (tj_stack t) \<subseteq> visited t"
    using sh by (auto simp: shape_def)
  have edge: "(tf_node f, m) \<in> (successor ix)\<^sup>*" using k m by (auto simp: successor_def)
  have idxd: "map_of (tj_indexes t) m \<noteq> None" using vis by (auto simp: visited_def)
  show ?thesis
  proof (cases "m \<in> set (tj_stack t)")
    case True
    have "tf_node f \<in> dom (map_of (tj_lowlinks t))" using f dom st by auto
    then obtain lows where l: "lower_lowlink (tj_lowlinks t) (tf_node f) (idx t m) = Ok lows"
      and lo: "lowered t (tf_node f) (idx t m) lows"
      using lower_lowlink_eq [of "tf_node f" "tj_lowlinks t" "idx t m"] unfolding lowered_def by blast
    let ?t = "t\<lparr>tj_lowlinks := lows\<rparr>"
    have "tarjan_value (tj_indexes t) m ''index'' = Ok (idx t m)"
      using vis by (intro tarjan_value_eq) (simp add: visited_def)
    then have "visit_neighbor t (tf_node f) m (advance f # rest) = Ok (?t, advance f # rest)"
      using True idxd on l by (simp add: visit_neighbor_def)
    moreover have "seen ?t (tf_node f) m" using lo vis by (simp add: seen_def lowered_def)
    then have "scan ix ?t (advance f # rest)" using scan_lowered [OF lo sc m k] by blast
    moreover have "paths ix ?t (advance f # rest)"
      using paths_advance [OF paths_lowered [OF lo pa True refl edge]] .
    moreover have "shape ix ?t (advance f # rest)" using shape_advance [OF shape_lowered [OF lo sh] k] .
    ultimately show ?thesis using co unfolding tarjan_inv_def by auto
  next
    case False
    then have "visit_neighbor t (tf_node f) m (advance f # rest) = Ok (t, advance f # rest)"
      using idxd on by (simp add: visit_neighbor_def)
    moreover have lo: "lowered t (tf_node f) (low t (tf_node f)) (tj_lowlinks t)" by (simp add: lowered_def)
    have "seen (t\<lparr>tj_lowlinks := tj_lowlinks t\<rparr>) (tf_node f) m" using False vis by (simp add: seen_def)
    then have "scan ix t (advance f # rest)" using scan_lowered [OF lo sc m k] by simp
    ultimately show ?thesis
      using shape_advance [OF sh k] paths_advance [OF pa] co unfolding tarjan_inv_def by blast
  qed
qed

section \<open>Closing a node\<close>

lemma stack_split:
  assumes sh: "shape ix t (f # rest)"
  obtains pre st where "tj_stack t = pre @ tf_node f # st"
    and "\<And>x. x \<in> set pre \<Longrightarrow> idx t (tf_node f) < idx t x" and "\<And>x. x \<in> set st \<Longrightarrow> idx t x < idx t (tf_node f)"
    and "set pre \<inter> set (frame_nodes (f # rest)) = {}" and "set (frame_nodes rest) \<subseteq> set st" and "rest = [] \<Longrightarrow> st = []"
proof -
  have f: "tf_node f \<in> set (tj_stack t)" and so: "sorted_wrt (\<lambda>a b. idx t b < idx t a) (tj_stack t)"
    and fs: "sorted_wrt (\<lambda>a b. idx t b < idx t a) (frame_nodes (f # rest))"
    and sub: "set (frame_nodes rest) \<subseteq> set (tj_stack t)"
    and last: "last (frame_nodes (f # rest)) = last (tj_stack t)"
    using sh unfolding shape_def by auto
  obtain pre st where eq: "tj_stack t = pre @ tf_node f # st" using f by (meson split_list)
  have pre: "idx t (tf_node f) < idx t x" if "x \<in> set pre" for x using so that eq by (auto simp: sorted_wrt_append)
  have st: "idx t x < idx t (tf_node f)" if "x \<in> set st" for x using so that eq by (auto simp: sorted_wrt_append)
  have fr: "idx t x < idx t (tf_node f)" if "x \<in> set (frame_nodes rest)" for x using fs that by auto
  show thesis
  proof (rule that [OF eq pre st])
    show "set pre \<inter> set (frame_nodes (f # rest)) = {}"
    proof (rule ccontr)
      assume "set pre \<inter> set (frame_nodes (f # rest)) \<noteq> {}"
      then obtain x where "x \<in> set pre" "x = tf_node f \<or> x \<in> set (frame_nodes rest)" by auto
      then show False using pre [of x] fr [of x] by auto
    qed
    show "set (frame_nodes rest) \<subseteq> set st"
    proof
      fix x assume x: "x \<in> set (frame_nodes rest)"
      then have "x \<in> set pre \<or> x = tf_node f \<or> x \<in> set st" using sub eq by auto
      then show "x \<in> set st" using pre [of x] fr [OF x] by auto
    qed
    show "st = []" if "rest = []"
    proof (rule ccontr)
      assume "st \<noteq> []"
      then have "last st \<in> set st" "last st = tf_node f" using last eq that by auto
      then show False using st by auto
    qed
  qed
qed

lemma pop_component_eq:
  assumes "n \<notin> set pre"
  shows "\<exists>on'. pop_component (pre @ n # st) on n out = Ok (sort (out @ pre @ [n]), st, on') \<and>
     set on' = set on - set (n # pre)"
  using assms
proof (induction pre arbitrary: on out)
  case (Cons x pre)
  obtain on' where "pop_component (pre @ n # st) (removeAll x on) n (out @ [x]) = Ok (sort ((out @ [x]) @ pre @ [n]), st, on')"
    "set on' = set (removeAll x on) - set (n # pre)"
    using Cons.IH [of "removeAll x on" "out @ [x]"] Cons.prems by auto
  then show ?case using Cons.prems by auto
qed auto

text \<open>The nodes above a root on the stack form, with it, a strongly connected component closed under edges.\<close>

lemma root_component:
  assumes inv: "tarjan_inv ix t (f # rest)" and ex: "tf_next_neighbor f = length (adjacent ix (tf_node f))"
    and root: "low t (tf_node f) = idx t (tf_node f)" and eq: "tj_stack t = pre @ tf_node f # st"
    and pre: "\<And>x. x \<in> set pre \<Longrightarrow> idx t (tf_node f) < idx t x" and below: "\<And>x. x \<in> set st \<Longrightarrow> idx t x < idx t (tf_node f)"
    and nf: "set pre \<inter> set (frame_nodes (f # rest)) = {}"
  shows "\<forall>a \<in> set (tf_node f # pre). \<forall>b \<in> set (tf_node f # pre). (a, b) \<in> (successor ix)\<^sup>*"
    and "\<forall>a \<in> set (tf_node f # pre). set (adjacent ix a) \<subseteq> popped t \<union> set (tf_node f # pre)"
proof -
  let ?n = "tf_node f" and ?E = "(successor ix)\<^sup>*"
  have sh: "shape ix t (f # rest)" and pa: "paths ix t (f # rest)" and sc: "scan ix t (f # rest)"
    using inv unfolding tarjan_inv_def by blast+
  have fin: "x \<in> finished t (f # rest)" if "x \<in> set pre" for x using that eq nf by (auto simp: finished_def)
  have near: "nearest t (f # rest) ?n x" if "x \<in> set pre" for x
  proof -
    have "idx t g \<le> idx t ?n" if "g \<in> set (frame_nodes (f # rest))" for g
      using sh that unfolding shape_def by (auto simp: less_imp_le)
    then show ?thesis using pre [OF that] by (simp add: nearest_def)
  qed
  have low: "idx t ?n \<le> low t x" if "x \<in> set (?n # pre)" for x
    using that root scanD(3) [OF sc fin near] by auto
  have down: "(x, ?n) \<in> ?E" if "x \<in> set (?n # pre)" for x
    using that
  proof (induction "idx t x" arbitrary: x rule: less_induct)
    case less
    show ?case
    proof (cases "x = ?n")
      case False
      then have x: "x \<in> set pre" using less.prems by simp
      then obtain y where y: "y \<in> set (tj_stack t)" "idx t y = low t x" "(x, y) \<in> ?E"
        using pathsD(3) [OF pa, of x] eq by auto
      have "y \<in> set (?n # pre)" using y(1,2) low [OF less.prems] eq below [of y] by (auto simp: not_less [symmetric])
      moreover have "idx t y < idx t x" using scanD(1) [OF sc fin [OF x]] y(2) by simp
      ultimately show ?thesis using less.hyps [of y] y(3) by (meson rtrancl_trans)
    qed simp
  qed
  have forth: "(?n, x) \<in> ?E" if "x \<in> set (?n # pre)" for x
  proof -
    have "idx t ?n \<le> idx t x" "x \<in> set (tj_stack t)" using that pre eq by (auto simp: less_imp_le)
    then show ?thesis using pathsD(1) [OF pa, of ?n x] by simp
  qed
  show "\<forall>a \<in> set (?n # pre). \<forall>b \<in> set (?n # pre). (a, b) \<in> ?E" using down forth by (meson rtrancl_trans)
  have seen: "seen t a m" if "a \<in> set (?n # pre)" "m \<in> set (adjacent ix a)" for a m
    using that scanD(2) [OF sc fin] scanD(4) [OF sc] ex by auto
  show "\<forall>a \<in> set (?n # pre). set (adjacent ix a) \<subseteq> popped t \<union> set (?n # pre)"
  proof (intro ballI subsetI)
    fix a m assume a: "a \<in> set (?n # pre)" and m: "m \<in> set (adjacent ix a)"
    show "m \<in> popped t \<union> set (?n # pre)"
    proof (cases "m \<in> set (tj_stack t)")
      case True
      then have "idx t ?n \<le> idx t m" using seen [OF a m] low [OF a] by (simp add: seen_def)
      then show ?thesis using True eq below [of m] by (auto simp: not_less [symmetric])
    next
      case False
      then show ?thesis using seen [OF a m] sh by (auto simp: seen_def shape_def)
    qed
  qed
qed

lemma closed_components_snoc:
  assumes "closed_components ix cs" and "c \<noteq> []" and "distinct c" and "sorted c" and "set c \<inter> set (concat cs) = {}"
    and "\<forall>a \<in> set c. \<forall>b \<in> set c. (a, b) \<in> (successor ix)\<^sup>*"
    and "\<forall>a \<in> set c. set (adjacent ix a) \<subseteq> set (concat cs) \<union> set c"
  shows "closed_components ix (cs @ [c])"
proof -
  have "set (adjacent ix a) \<subseteq> set (concat (take (Suc k) (cs @ [c])))"
    if k: "k < length (cs @ [c])" and a: "a \<in> set ((cs @ [c]) ! k)" for k a
  proof (cases "k < length cs")
    case True
    then show ?thesis using assms(1) a by (simp add: closed_components_def nth_append)
  next
    case False
    then have "k = length cs" using k by simp
    then show ?thesis using assms(7) a by (simp add: nth_append)
  qed
  then show ?thesis using assms(1-6) unfolding closed_components_def by auto
qed

text \<open>The state after a component has been popped, and the frames left.\<close>

abbreviation after_pop :: "tarjan_state \<Rightarrow> unit_id list \<Rightarrow> unit_id list \<Rightarrow> unit_id list \<Rightarrow> tarjan_state" where
  "after_pop t c st on \<equiv> t\<lparr>tj_stack := st, tj_on_stack := on, tj_components := tj_components t @ [c]\<rparr>"

lemma pop_same [simp]:
  "visited (after_pop t c st on) = visited t" "popped (after_pop t c st on) = popped t \<union> set c"
  by (auto simp: visited_def popped_def)

lemma shape_popped:
  assumes sh: "shape ix t (f # rest)" and eq: "tj_stack t = pre @ tf_node f # st" and c: "set c = insert (tf_node f) (set pre)"
    and fr: "set (frame_nodes rest) \<subseteq> set st" and none: "rest = [] \<Longrightarrow> st = []"
    and on: "set on = set (tj_on_stack t) - set c"
  shows "shape ix (after_pop t c st on) rest"
proof -
  have so: "sorted_wrt (\<lambda>a b. idx t b < idx t a) (tj_stack t)" using sh by (simp add: shape_def)
  have dist: "distinct (pre @ tf_node f # st)" using sorted_idx_distinct [OF so] by (simp add: eq)
  have "last (frame_nodes rest) = last st" if "rest \<noteq> []"
  proof -
    have "frame_nodes rest \<noteq> []" "st \<noteq> []" using that fr by (auto simp: frame_nodes_def)
    then show ?thesis using sh eq unfolding shape_def by simp
  qed
  moreover have "set on = set st" using on c sh eq dist unfolding shape_def by auto
  moreover have "sorted_wrt (\<lambda>a b. idx t b < idx t a) st" using so eq by (simp add: sorted_wrt_append)
  ultimately show ?thesis
    using sh fr none eq dist c unfolding shape_def pop_same by auto
qed

lemma paths_popped:
  assumes pa: "paths ix t (f # rest)" and eq: "tj_stack t = pre @ tf_node f # st"
    and pre: "\<And>x. x \<in> set pre \<Longrightarrow> idx t (tf_node f) < idx t x" and below: "\<And>x. x \<in> set st \<Longrightarrow> idx t x < idx t (tf_node f)"
  shows "paths ix (after_pop t c st on) rest"
proof -
  have "\<exists>m \<in> set st. idx t m = low t n \<and> (n, m) \<in> (successor ix)\<^sup>*" if n: "n \<in> set st" for n
  proof -
    obtain m where m: "m \<in> set (tj_stack t)" "idx t m = low t n" "(n, m) \<in> (successor ix)\<^sup>*"
      using pathsD(3) [OF pa, of n] n eq by auto
    have "idx t m < idx t (tf_node f)" using m(2) pathsD(2) [OF pa, of n] below [OF n] n eq by auto
    then have "m \<in> set st" using m(1) eq pre [of m] by auto
    then show ?thesis using m by blast
  qed
  moreover have "frames_linked ix rest" using pathsD(4) [OF pa] by (cases rest) auto
  ultimately show ?thesis
    using pathsD(1,2) [OF pa] eq unfolding paths_def by auto
qed

text \<open>What popping the component of a root establishes.\<close>

definition root_popped ::
    "dependency_index \<Rightarrow> tarjan_state \<Rightarrow> tarjan_frame \<Rightarrow> tarjan_frame list \<Rightarrow> tarjan_state \<Rightarrow> bool" where
  "root_popped ix t f rest t' \<longleftrightarrow> shape ix t' rest \<and> paths ix t' rest \<and> closed_components ix (tj_components t') \<and>
     set (tj_stack t') \<subseteq> set (tj_stack t) - {tf_node f} \<and> (\<forall>g \<in> set (frame_nodes rest). idx t g < idx t (tf_node f)) \<and>
     finished t' rest \<subseteq> finished t (f # rest) \<and>
     (\<forall>n g. n \<in> finished t' rest \<longrightarrow> nearest t' rest g n \<longrightarrow> nearest t (f # rest) g n)"

lemma pop_root_inv:
  assumes inv: "tarjan_inv ix t (f # rest)" and ex: "tf_next_neighbor f = length (adjacent ix (tf_node f))"
    and root: "low t (tf_node f) = idx t (tf_node f)"
  shows "\<exists>c st on. pop_component (tj_stack t) (tj_on_stack t) (tf_node f) [] = Ok (c, st, on) \<and>
     root_popped ix t f rest (after_pop t c st on)"
proof -
  let ?n = "tf_node f"
  have sh: "shape ix t (f # rest)" and pa: "paths ix t (f # rest)" and co: "closed_components ix (tj_components t)"
    using inv unfolding tarjan_inv_def by blast+
  obtain pre st where eq: "tj_stack t = pre @ ?n # st"
    and pre: "\<And>x. x \<in> set pre \<Longrightarrow> idx t ?n < idx t x" and below: "\<And>x. x \<in> set st \<Longrightarrow> idx t x < idx t ?n"
    and nf: "set pre \<inter> set (frame_nodes (f # rest)) = {}" and fr: "set (frame_nodes rest) \<subseteq> set st"
    and none: "rest = [] \<Longrightarrow> st = []"
    using stack_split [OF sh] by blast
  have "sorted_wrt (\<lambda>a b. idx t b < idx t a) (tj_stack t)" using sh by (simp add: shape_def)
  then have dist: "distinct (pre @ ?n # st)" using sorted_idx_distinct by (metis eq)
  let ?c = "sort (pre @ [?n])"
  have c: "set ?c = insert ?n (set pre)" by simp
  obtain on where pop: "pop_component (tj_stack t) (tj_on_stack t) ?n [] = Ok (?c, st, on)"
    and on: "set on = set (tj_on_stack t) - set ?c"
    using pop_component_eq [of ?n pre st "tj_on_stack t" "[]"] dist eq by auto
  let ?t1 = "after_pop t ?c st on"
  have apart: "set (pre @ [?n]) \<inter> popped t = {}" using sh eq unfolding shape_def by auto
  have "length ?c \<noteq> 0" by simp
  then have "?c \<noteq> []" by (metis list.size(3))
  then have "closed_components ix (tj_components ?t1)"
    using root_component [OF inv ex root eq pre below nf] co dist apart
    by (simp, intro closed_components_snoc) (auto simp: popped_def)
  moreover have "set (tj_stack ?t1) \<subseteq> set (tj_stack t) - {?n}" "finished ?t1 rest \<subseteq> finished t (f # rest)"
    using dist eq by (auto simp: finished_def)
  moreover have "nearest t (f # rest) g n" if "n \<in> finished ?t1 rest" and "nearest ?t1 rest g n" for n g
    using that below [of n] by (auto simp: nearest_def finished_def dest: less_asym)
  ultimately have "root_popped ix t f rest ?t1"
    using shape_popped [OF sh eq c fr none on] paths_popped [OF pa eq pre below] fr below
    unfolding root_popped_def by blast
  then show ?thesis using pop by blast
qed

text \<open>Closing a node that is a root leaves its parent with everything it looked at accounted for.\<close>

lemma lowered_noop:
  assumes "lowered t p c lows" and "low t p \<le> c"
  shows "count_or_zero lows = low t"
  using assms by (auto simp: lowered_def fun_eq_iff)

lemma take_pred_snoc:
  assumes "0 < k" and "k \<le> length xs" and "m \<in> set (take k xs)"
  shows "m = xs ! (k - 1) \<or> m \<in> set (take (k - 1) xs)"
  using assms by (cases k) (auto simp: take_Suc_conv_app_nth)

lemma scan_parent:
  assumes sc: "scan ix t (f # p # rest)" and linked: "frames_linked ix (f # p # rest)"
    and bound: "tf_next_neighbor p \<le> length (adjacent ix (tf_node p))"
    and mono: "\<And>x y. seen t x y \<Longrightarrow> seen t' x y" and child: "seen t' (tf_node p) (tf_node f)"
    and fin: "\<And>n. n \<in> finished t' (p # rest) \<Longrightarrow> low t' n < idx t' n \<and> (\<forall>m \<in> set (adjacent ix n). seen t' n m) \<and>
       (\<forall>g. nearest t' (p # rest) g n \<longrightarrow> low t' g \<le> low t' n)"
  shows "scan ix t' (p # rest)"
proof -
  have link: "0 < tf_next_neighbor p" "adjacent ix (tf_node p) ! (tf_next_neighbor p - 1) = tf_node f"
    using linked by simp_all
  have "seen t' (tf_node p) m" if "m \<in> set (take (tf_next_neighbor p) (adjacent ix (tf_node p)))" for m
    using take_pred_snoc [OF link(1) bound that] link(2) child mono scanD(5) [OF sc, of p m] by auto
  moreover have "seen t' (tf_node h) m"
    if "h \<in> set rest" "m \<in> set (take (tf_next_neighbor h - 1) (adjacent ix (tf_node h)))" for h m
    using that mono scanD(5) [OF sc, of h m] by simp
  ultimately show ?thesis using fin by (intro scanI) blast+
qed

lemma scan_popped:
  assumes inv: "tarjan_inv ix t (f # p # rest)" and pop: "root_popped ix t f (p # rest) t1"
    and same: "visited t1 = visited t" "\<And>n. idx t1 n = idx t n" "\<And>n. low t1 n = low t n"
  shows "scan ix t1 (p # rest)"
proof (rule scan_parent)
  show sc: "scan ix t (f # p # rest)" and "frames_linked ix (f # p # rest)"
    using inv pathsD(4) unfolding tarjan_inv_def by blast+
  show "tf_next_neighbor p \<le> length (adjacent ix (tf_node p))" using pop by (simp add: root_popped_def shape_def)
  have "tf_node f \<in> visited t" using inv by (auto simp: tarjan_inv_def shape_def)
  then show "seen t1 (tf_node p) (tf_node f)" using pop same(1) by (auto simp: seen_def root_popped_def)
  show mono: "seen t1 x y" if "seen t x y" for x y using that pop same by (auto simp: seen_def root_popped_def)
  fix n assume n: "n \<in> finished t1 (p # rest)"
  then have n0: "n \<in> finished t (f # p # rest)" using pop by (auto simp: root_popped_def)
  have "low t1 g \<le> low t1 n" if "nearest t1 (p # rest) g n" for g
    using that n scanD(3) [OF sc n0] pop same(3) by (simp add: root_popped_def)
  then show "low t1 n < idx t1 n \<and> (\<forall>m \<in> set (adjacent ix n). seen t1 n m) \<and>
      (\<forall>g. nearest t1 (p # rest) g n \<longrightarrow> low t1 g \<le> low t1 n)"
    using scanD(1,2) [OF sc n0] same mono by auto
qed

lemma close_root:
  assumes inv: "tarjan_inv ix t (f # rest)" and ex: "tf_next_neighbor f = length (adjacent ix (tf_node f))"
    and root: "low t (tf_node f) = idx t (tf_node f)"
  shows "\<exists>t'. close_node t (tf_node f) rest = Ok (t', rest) \<and> tarjan_inv ix t' rest"
proof -
  let ?n = "tf_node f"
  have sh: "shape ix t (f # rest)" using inv unfolding tarjan_inv_def by blast
  then have nv: "?n \<in> visited t" and dom: "dom (map_of (tj_lowlinks t)) = visited t" unfolding shape_def by auto
  have vals: "tarjan_value (tj_lowlinks t) ?n ''lowlink'' = Ok (idx t ?n)" "tarjan_value (tj_indexes t) ?n ''index'' = Ok (idx t ?n)"
    using nv dom root tarjan_value_eq [of ?n "tj_lowlinks t"] tarjan_value_eq [of ?n "tj_indexes t"] by (auto simp: visited_def)
  obtain c st on where pop: "pop_component (tj_stack t) (tj_on_stack t) ?n [] = Ok (c, st, on)"
    and rp: "root_popped ix t f rest (after_pop t c st on)"
    using pop_root_inv [OF inv ex root] by blast
  let ?t1 = "after_pop t c st on"
  have sh1: "shape ix ?t1 rest" and pa: "paths ix ?t1 rest" and co: "closed_components ix (tj_components ?t1)"
    and lower: "\<forall>g \<in> set (frame_nodes rest). idx t g < idx t ?n" using rp unfolding root_popped_def by blast+
  show ?thesis
  proof (cases rest)
    case Nil
    then have "scan ix ?t1 rest" using sh1 by (simp add: shape_def scan_def finished_def)
    moreover have "close_node t ?n rest = Ok (?t1, rest)" using vals pop Nil by (simp add: close_node_def)
    ultimately show ?thesis using sh1 pa co unfolding tarjan_inv_def by blast
  next
    case (Cons p rest')
    have pst: "tf_node p \<in> set (tj_stack ?t1)" using sh1 Cons by (simp add: shape_def)
    then have "tf_node p \<in> dom (map_of (tj_lowlinks t))" using dom sh1 by (auto simp: shape_def)
    then obtain lows where l: "lower_lowlink (tj_lowlinks t) (tf_node p) (idx t ?n) = Ok lows"
      and lo: "lowered ?t1 (tf_node p) (idx t ?n) lows"
      using lower_lowlink_eq [of "tf_node p" "tj_lowlinks t" "idx t ?n"] unfolding lowered_def by auto
    have "low t (tf_node p) \<le> idx t ?n"
      using pathsD(2) [OF pa pst] lower Cons by (auto intro: order_trans less_imp_le)
    then have noop: "count_or_zero lows = low t" using lowered_noop [OF lo] by simp
    have "close_node t ?n rest = Ok (?t1\<lparr>tj_lowlinks := lows\<rparr>, rest)" using vals pop l Cons by (simp add: close_node_def)
    moreover have "root_popped ix t f rest (?t1\<lparr>tj_lowlinks := lows\<rparr>)"
      using rp noop shape_lowered [OF lo sh1] unfolding root_popped_def paths_def by simp
    moreover from this have "scan ix (?t1\<lparr>tj_lowlinks := lows\<rparr>) rest"
      using scan_popped [OF inv [unfolded Cons]] noop unfolding Cons by simp
    ultimately show ?thesis unfolding tarjan_inv_def root_popped_def by blast
  qed
qed

text \<open>Closing a node that is no root passes its low link on to its parent, which exists.\<close>

lemma parent_exists:
  assumes sh: "shape ix t (f # rest)" and pa: "paths ix t (f # rest)" and lt: "low t (tf_node f) < idx t (tf_node f)"
  shows "rest \<noteq> []"
proof
  assume "rest = []"
  then obtain pre where eq: "tj_stack t = pre @ [tf_node f]" and pre: "\<And>x. x \<in> set pre \<Longrightarrow> idx t (tf_node f) < idx t x"
    using stack_split [OF sh] by metis
  obtain m where "m \<in> set (tj_stack t)" "idx t m = low t (tf_node f)" using pathsD(3) [OF pa, of "tf_node f"] eq by auto
  then show False using eq pre [of m] lt by auto
qed

lemma nearest_parent:
  assumes sh: "shape ix t (f # p # rest)" and "nearest t (p # rest) g x"
  shows "nearest t (f # p # rest) g x \<or> g = tf_node p \<and> (nearest t (f # p # rest) (tf_node f) x)"
proof -
  have so: "sorted_wrt (\<lambda>a b. idx t b < idx t a) (frame_nodes (f # p # rest))" using sh by (simp add: shape_def)
  have above: "idx t h \<le> idx t (tf_node f)" if "h \<in> set (frame_nodes (f # p # rest))" for h
    using so that by (auto simp: less_imp_le)
  show ?thesis
  proof (cases "idx t (tf_node f) < idx t x")
    case True
    then have "idx t (tf_node p) < idx t x" using so by simp
    then have "idx t (tf_node p) \<le> idx t g" using assms(2) by (simp add: nearest_def)
    then have "g = tf_node p" using assms(2) so by (auto simp: nearest_def)
    then show ?thesis using True above by (simp add: nearest_def)
  next
    case False
    then show ?thesis using assms(2) by (simp add: nearest_def)
  qed
qed

lemma lowered_nearest:
  assumes sh: "shape ix t (f # p # rest)" and sc: "scan ix t (f # p # rest)"
    and lo: "lowered t (tf_node p) (low t (tf_node f)) lows"
    and x: "x \<in> finished t (p # rest)" and near: "nearest t (p # rest) g x"
  shows "count_or_zero lows g \<le> count_or_zero lows x"
proof -
  have pn: "idx t (tf_node p) < idx t (tf_node f)" using sh by (simp add: shape_def)
  have lp: "count_or_zero lows (tf_node p) \<le> low t (tf_node f)" using lo by (simp add: lowered_def)
  have same: "count_or_zero lows x = low t x" using lo x by (auto simp: lowered_def finished_def)
  have old: "low t h \<le> low t x" if "x \<noteq> tf_node f" "nearest t (f # p # rest) h x" for h
    using that scanD(3) [OF sc, of x h] x by (auto simp: finished_def)
  from nearest_parent [OF sh near] show ?thesis
  proof
    assume g: "nearest t (f # p # rest) g x"
    show ?thesis
    proof (cases "x = tf_node f")
      case True
      then have "idx t (tf_node p) \<le> idx t g" using g pn by (simp add: nearest_def)
      then have "g = tf_node p" using near sh by (auto simp: nearest_def shape_def)
      then show ?thesis using True lp same by simp
    next
      case False
      then show ?thesis using old g same order_trans [OF lowered_le [OF lo]] by simp
    qed
  next
    assume g: "g = tf_node p \<and> nearest t (f # p # rest) (tf_node f) x"
    then have "x \<noteq> tf_node f" by (auto simp: nearest_def)
    then have "low t (tf_node f) \<le> low t x" using old g by blast
    then show ?thesis using g lp same by simp
  qed
qed

lemma parent_paths:
  assumes pa: "paths ix t (f # p # rest)" and n: "tf_node f \<in> set (tj_stack t)"
    and bound: "tf_next_neighbor p \<le> length (adjacent ix (tf_node p))"
    and lo: "lowered t (tf_node p) (low t (tf_node f)) lows"
  shows "paths ix (t\<lparr>tj_lowlinks := lows\<rparr>) (p # rest)"
proof -
  have link: "0 < tf_next_neighbor p" "adjacent ix (tf_node p) ! (tf_next_neighbor p - 1) = tf_node f"
    using pathsD(4) [OF pa] by simp_all
  then have "tf_node f \<in> set (adjacent ix (tf_node p))"
    using bound by (metis Suc_pred diff_less less_le_trans nth_mem zero_less_one)
  then have edge: "(tf_node p, tf_node f) \<in> successor ix" by (simp add: successor_def)
  obtain m where m: "m \<in> set (tj_stack t)" "idx t m = low t (tf_node f)" "(tf_node f, m) \<in> (successor ix)\<^sup>*"
    using pathsD(3) [OF pa n] by blast
  have "paths ix t (p # rest)" using pa unfolding paths_def by auto
  from paths_lowered [OF lo this m(1,2) converse_rtrancl_into_rtrancl [OF edge m(3)]] show ?thesis .
qed

lemma close_nonroot:
  assumes inv: "tarjan_inv ix t (f # rest)" and ex: "tf_next_neighbor f = length (adjacent ix (tf_node f))"
    and root: "low t (tf_node f) \<noteq> idx t (tf_node f)"
  shows "\<exists>t'. close_node t (tf_node f) rest = Ok (t', rest) \<and> tarjan_inv ix t' rest"
proof -
  let ?n = "tf_node f"
  have sh: "shape ix t (f # rest)" and sc: "scan ix t (f # rest)" and pa: "paths ix t (f # rest)"
    and co: "closed_components ix (tj_components t)" using inv unfolding tarjan_inv_def by blast+
  have nst: "?n \<in> set (tj_stack t)" and dom: "dom (map_of (tj_lowlinks t)) = visited t"
    and sv: "set (tj_stack t) \<subseteq> visited t" using sh unfolding shape_def by auto
  have lt: "low t ?n < idx t ?n" using pathsD(2) [OF pa nst] root by simp
  obtain p rest' where r: "rest = p # rest'" using parent_exists [OF sh pa lt] by (cases rest) auto
  have pst: "tf_node p \<in> set (tj_stack t)" and bound: "tf_next_neighbor p \<le> length (adjacent ix (tf_node p))"
    using sh r by (auto simp: shape_def)
  obtain lows where l: "lower_lowlink (tj_lowlinks t) (tf_node p) (low t ?n) = Ok lows"
    and lo: "lowered t (tf_node p) (low t ?n) lows"
    using lower_lowlink_eq [of "tf_node p" "tj_lowlinks t" "low t ?n"] pst sv dom unfolding lowered_def by blast
  let ?t = "t\<lparr>tj_lowlinks := lows\<rparr>"
  have vals: "tarjan_value (tj_lowlinks t) ?n ''lowlink'' = Ok (low t ?n)" "tarjan_value (tj_indexes t) ?n ''index'' = Ok (idx t ?n)"
    using nst sv dom by (auto intro!: tarjan_value_eq simp: visited_def)
  have close: "close_node t ?n rest = Ok (?t, rest)" using vals root l r by (simp add: close_node_def)
  have "scan ix ?t (p # rest')"
  proof (rule scan_parent [OF sc [unfolded r] pathsD(4) [OF pa, unfolded r] bound seen_lowered [OF lo]])
    have "count_or_zero lows (tf_node p) \<le> low t ?n" using lo by (simp add: lowered_def)
    then show "seen ?t (tf_node p) ?n" using nst sv lt by (auto simp: seen_def)
    fix x assume "x \<in> finished ?t (p # rest')"
    then have x: "x \<in> finished t (p # rest')" by simp
    then have "low ?t x = low t x" and fin: "x = ?n \<or> x \<in> finished t (f # rest)"
      using lo r by (auto simp: lowered_def finished_def)
    moreover have "seen t ?n y" if "y \<in> set (adjacent ix ?n)" for y using scanD(4) [OF sc] ex that by simp
    ultimately show "low ?t x < idx ?t x \<and> (\<forall>m \<in> set (adjacent ix x). seen ?t x m) \<and>
        (\<forall>g. nearest ?t (p # rest') g x \<longrightarrow> low ?t g \<le> low ?t x)"
      using lt scanD(1,2) [OF sc] seen_lowered [OF lo] lowered_nearest [OF sh [unfolded r] sc [unfolded r] lo x] by auto
  qed
  moreover have "shape ix t rest" using sh r unfolding shape_def by auto
  from shape_lowered [OF lo this] have "shape ix ?t rest" .
  moreover have "paths ix ?t rest" using parent_paths [OF pa [unfolded r] nst bound lo] r by simp
  ultimately show ?thesis using close co r unfolding tarjan_inv_def by auto
qed

section \<open>The whole search\<close>

lemma tarjan_step_inv:
  assumes wf: "adjacency_wf ix" and inv: "tarjan_inv ix t (f # rest)"
  shows "\<exists>t' fs'. tarjan_step ix t f rest = Ok (t', fs') \<and> tarjan_inv ix t' fs' \<and> visited t \<subseteq> visited t'"
proof -
  let ?n = "tf_node f" and ?ns = "adjacent ix (tf_node f)"
  have sh: "shape ix t (f # rest)" using inv unfolding tarjan_inv_def by blast
  then have n: "?n \<in> set (ix_units ix)" and k: "tf_next_neighbor f \<le> length ?ns" unfolding shape_def by auto
  have adj: "map_of (ix_adjacency ix) ?n = Some ?ns" and inside: "set ?ns \<subseteq> set (ix_units ix)"
    using wf n by (auto simp: adjacency_wf_def adjacent_def)
  show ?thesis
  proof (cases "tf_next_neighbor f < length ?ns")
    case True
    let ?m = "?ns ! tf_next_neighbor f"
    have step: "tarjan_step ix t f rest = visit_neighbor t ?n ?m (advance f # rest)" using adj True by simp
    show ?thesis
    proof (cases "?m \<in> visited t")
      case vis: True
      then obtain t' where t': "visit_neighbor t ?n ?m (advance f # rest) = Ok (t', advance f # rest)"
        and "tarjan_inv ix t' (advance f # rest)" using visit_visited [OF inv True refl] by blast
      moreover have "visited t' = visited t"
        using t' vis by (auto simp: visit_neighbor_def try_then_Ok_iff visited_def split: if_splits)
      ultimately show ?thesis using step by (metis order_refl)
    next
      case False
      have "?m \<in> set (ix_units ix)" using inside True by auto
      from tarjan_inv_push [OF inv False this True refl]
      show ?thesis using step False by (auto simp: visit_neighbor_def visited_push) (auto simp: visited_def)
    qed
  next
    case False
    then have ex: "tf_next_neighbor f = length ?ns" using k by simp
    have step: "tarjan_step ix t f rest = close_node t ?n rest" using adj False by simp
    obtain t' where t': "close_node t ?n rest = Ok (t', rest)" "tarjan_inv ix t' rest"
      using close_root [OF inv ex] close_nonroot [OF inv ex] by blast
    moreover have "visited t' = visited t" using close_node_effect [OF t'(1)] by (simp add: visited_def)
    ultimately show ?thesis using step by (metis order_refl)
  qed
qed

lemma tarjan_loop_inv:
  assumes "adjacency_wf ix" and "tarjan_inv ix t fs"
  shows "\<exists>t'. tarjan_loop ix t fs = Ok t' \<and> tarjan_inv ix t' [] \<and> visited t \<subseteq> visited t'"
  using assms
proof (induction ix t fs rule: tarjan_loop.induct)
  case (1 ix t fs)
  show ?case
  proof (cases fs)
    case Nil
    then show ?thesis using 1(3) tarjan_loop.simps [of ix t fs] by simp
  next
    case (Cons f rest)
    then obtain t' fs' where 2: "tarjan_step ix t f rest = Ok (t', fs')" "tarjan_inv ix t' fs'" "visited t \<subseteq> visited t'"
      using tarjan_step_inv [OF 1(2)] 1(3) by blast
    have "tarjan_loop ix t fs = tarjan_loop ix t' fs'" using Cons 2(1) by (subst tarjan_loop.simps) simp
    then show ?thesis using 1(1) [OF Cons 2(1) refl 1(2) 2(2)] 2(3) by auto
  qed
qed

text \<open>A new start, on an empty stack.\<close>

lemma tarjan_inv_first:
  assumes inv: "tarjan_inv ix t []" and n: "n \<notin> visited t" "n \<in> set (ix_units ix)"
  shows "tarjan_inv ix (push_tarjan_node n t) [fresh_frame n]"
proof -
  let ?t = "push_tarjan_node n t"
  have sh: "shape ix t []" and co: "closed_components ix (tj_components t)" using inv unfolding tarjan_inv_def by blast+
  then have st: "tj_stack t = []" by (simp add: shape_def)
  have "idx ?t x < Suc (tj_next_index t)" if "x \<in> insert n (visited t)" for x
    using that sh by (auto simp: idx_push shape_def less_Suc_eq)
  then have "shape ix ?t [fresh_frame n]"
    using sh n st unfolding shape_def visited_push push_fields by auto
  moreover have "paths ix ?t [fresh_frame n]" using st by (simp add: paths_def idx_push low_push)
  moreover have "scan ix ?t [fresh_frame n]" using st by (simp add: scan_def finished_def)
  ultimately show ?thesis using co by (simp add: tarjan_inv_def)
qed

lemma tarjan_inv_start: "tarjan_inv ix tarjan_start []"
  by (simp add: tarjan_inv_def shape_def paths_def scan_def closed_components_def finished_def visited_def popped_def
      tarjan_start_def)

lemma tarjan_starts_inv:
  assumes "adjacency_wf ix" and "tarjan_inv ix t []" and "set starts \<subseteq> set (ix_units ix)"
  shows "\<exists>t'. tarjan_starts ix starts t = Ok t' \<and> tarjan_inv ix t' [] \<and> visited t \<union> set starts \<subseteq> visited t'"
  using assms(2,3)
proof (induction starts arbitrary: t)
  case (Cons n starts)
  show ?case
  proof (cases "n \<in> visited t")
    case True
    then have "map_of (tj_indexes t) n \<noteq> None" by (auto simp: visited_def)
    then show ?thesis using True Cons.IH [OF Cons.prems(1)] Cons.prems(2) by auto
  next
    case False
    have "tarjan_inv ix (push_tarjan_node n t) [fresh_frame n]"
      using tarjan_inv_first [OF Cons.prems(1) False] Cons.prems(2) by simp
    then obtain t1 where 1: "tarjan_loop ix (push_tarjan_node n t) [fresh_frame n] = Ok t1" "tarjan_inv ix t1 []"
      "insert n (visited t) \<subseteq> visited t1" using tarjan_loop_inv [OF assms(1)] by (metis visited_push)
    obtain t2 where "tarjan_starts ix starts t1 = Ok t2" "tarjan_inv ix t2 []" "visited t1 \<union> set starts \<subseteq> visited t2"
      using Cons.IH [OF 1(2)] Cons.prems(2) by auto
    moreover have "map_of (tj_indexes t) n = None" using False by (auto simp: visited_def)
    ultimately show ?thesis using 1 by auto
  qed
qed simp

lemma search_result:
  assumes "adjacency_wf ix"
  shows "\<exists>t. tarjan_starts ix (ix_units ix) tarjan_start = Ok t \<and> closed_components ix (tj_components t) \<and>
     set (concat (tj_components t)) = set (ix_units ix)"
proof -
  obtain t where t: "tarjan_starts ix (ix_units ix) tarjan_start = Ok t" "tarjan_inv ix t []" "set (ix_units ix) \<subseteq> visited t"
    using tarjan_starts_inv [OF assms tarjan_inv_start, of "ix_units ix"] by auto
  then have "visited t = popped t" "visited t \<subseteq> set (ix_units ix)" by (auto simp: tarjan_inv_def shape_def)
  then show ?thesis using t unfolding tarjan_inv_def popped_def by blast
qed

section \<open>Components and cycles\<close>

lemma disjoint_parts:
  assumes "distinct (concat cs)" and "i < j" and "j < length cs"
  shows "set (cs ! i) \<inter> set (cs ! j) = {}"
proof -
  have "cs = take j cs @ cs ! j # drop (Suc j) cs" using assms(3) by (rule id_take_nth_drop)
  then have "distinct (concat (take j cs) @ cs ! j @ concat (drop (Suc j) cs))"
    using assms(1) by (metis concat.simps(2) concat_append)
  moreover have "cs ! i \<in> set (take j cs)" using assms(2,3) by (auto simp: in_set_conv_nth)
  ultimately show ?thesis by auto
qed

lemma in_prefix: "a \<in> set (concat (take (Suc k) cs)) \<longleftrightarrow> (\<exists>j \<le> k. j < length cs \<and> a \<in> set (cs ! j))"
proof -
  have "set (take (Suc k) cs) = {cs ! j | j. j \<le> k \<and> j < length cs}"
    by (force simp: in_set_conv_nth less_Suc_eq_le)
  then show ?thesis by auto
qed

lemma reach_down:
  assumes cc: "closed_components ix cs" and "(a, b) \<in> (successor ix)\<^sup>*" and "a \<in> set (concat (take (Suc k) cs))"
  shows "b \<in> set (concat (take (Suc k) cs))"
  using assms(2,3)
proof (induction rule: rtrancl_induct)
  case (step b c)
  then obtain j where j: "j \<le> k" "j < length cs" "b \<in> set (cs ! j)" unfolding in_prefix by blast
  have "c \<in> set (adjacent ix b)" using step.hyps(2) by (simp add: successor_def)
  then have "c \<in> set (concat (take (Suc j) cs))" using cc j(2,3) unfolding closed_components_def by (meson subsetD)
  then show ?case using j(1) unfolding in_prefix by (meson order_trans)
qed

lemma component_is_scc:
  assumes cc: "closed_components ix cs" and c: "c \<in> set cs" and a: "a \<in> set c"
  shows "set c = {b. (a, b) \<in> (successor ix)\<^sup>* \<and> (b, a) \<in> (successor ix)\<^sup>*}"
proof -
  obtain i where i: "i < length cs" "c = cs ! i" using c by (metis in_set_conv_nth)
  have d: "distinct (concat cs)" using cc by (simp add: closed_components_def)
  have "b \<in> set c" if ab: "(a, b) \<in> (successor ix)\<^sup>*" and ba: "(b, a) \<in> (successor ix)\<^sup>*" for b
  proof -
    have "a \<in> set (concat (take (Suc i) cs))" unfolding in_prefix using a i by blast
    then have "b \<in> set (concat (take (Suc i) cs))" by (rule reach_down [OF cc ab])
    then obtain j where j: "j \<le> i" "j < length cs" "b \<in> set (cs ! j)" unfolding in_prefix by blast
    then have "b \<in> set (concat (take (Suc j) cs))" unfolding in_prefix by blast
    then have "a \<in> set (concat (take (Suc j) cs))" by (rule reach_down [OF cc ba])
    then obtain k where k: "k \<le> j" "a \<in> set (cs ! k)" unfolding in_prefix by blast
    then have "k = i" using disjoint_parts [OF d _ i(1), of k] a i(2) j(1) by (cases "k < i") auto
    then show ?thesis using j k(1) i(2) by simp
  qed
  moreover have "(a, b) \<in> (successor ix)\<^sup>* \<and> (b, a) \<in> (successor ix)\<^sup>*" if "b \<in> set c" for b
    using cc c a that unfolding closed_components_def by blast
  ultimately show ?thesis by blast
qed

lemma cyclic_component:
  assumes cc: "closed_components ix cs" and c: "c \<in> set cs" and a: "a \<in> set c"
    and self: "\<And>v. v \<in> set loops \<longleftrightarrow> (v, v) \<in> successor ix"
  shows "(2 \<le> length c \<or> (c \<noteq> [] \<and> hd c \<in> set loops)) \<longleftrightarrow> (a, a) \<in> (successor ix)\<^sup>+"
proof -
  let ?E = "successor ix"
  have d: "distinct c" using cc c by (simp add: closed_components_def)
  have scc: "b \<in> set c \<longleftrightarrow> (a, b) \<in> ?E\<^sup>* \<and> (b, a) \<in> ?E\<^sup>*" for b using component_is_scc [OF cc c a] by auto
  have other: "(a, a) \<in> ?E\<^sup>+" if "b \<in> set c" "b \<noteq> a" for b
    using that scc [of b] by (metis rtranclD rtrancl_trancl_trancl)
  have many: "\<exists>b \<in> set c. b \<noteq> a" if "2 \<le> length c"
  proof (rule ccontr)
    assume "\<not> ?thesis"
    then have "set c \<subseteq> {a}" by auto
    then have "card (set c) \<le> card {a}" by (intro card_mono) auto
    then show False using that distinct_card [OF d] by simp
  qed
  have few: "c = [a]" if "length c < 2" using that a by (cases c) auto
  show ?thesis
  proof
    assume "2 \<le> length c \<or> (c \<noteq> [] \<and> hd c \<in> set loops)"
    then show "(a, a) \<in> ?E\<^sup>+"
      using many other few self [of a] by (metis list.sel(1) not_less r_into_trancl')
  next
    assume "(a, a) \<in> ?E\<^sup>+"
    then obtain x where x: "(a, x) \<in> ?E" "(x, a) \<in> ?E\<^sup>*" by (meson tranclD)
    then have "x \<in> set c" using scc by blast
    then show "2 \<le> length c \<or> (c \<noteq> [] \<and> hd c \<in> set loops)"
      using few x(1) self [of a] by (cases "length c < 2") auto
  qed
qed

section \<open>The cycles of a service graph\<close>

definition dependency_relation :: "sgr_state \<Rightarrow> (unit_id \<times> unit_id) set" where
  "dependency_relation s = {(v, u). depends s v u}"

text \<open>The strongly connected components that hold a cycle.\<close>

definition dependency_cycles :: "sgr_state \<Rightarrow> unit_id set set" where
  "dependency_cycles s =
     {{b. (a, b) \<in> (dependency_relation s)\<^sup>+ \<and> (b, a) \<in> (dependency_relation s)\<^sup>+} |a. (a, a) \<in> (dependency_relation s)\<^sup>+}"

lemma dependency_cycles_empty: "dependency_cycles s = {} \<longleftrightarrow> acyclic (dependency_relation s)"
  by (auto simp: dependency_cycles_def acyclic_def)

lemma depends_inside: "loads s ix \<Longrightarrow> depends s v u \<Longrightarrow> v \<in> unit_ids s \<and> u \<in> unit_ids s"
  using ixg.dependents_inside [of u ix] unfolding loads_def ixg.needs_def by blast

lemma loads_successor: "loads s ix \<Longrightarrow> successor ix = dependency_relation s"
  by (auto simp: loads_def successor_def dependency_relation_def)

lemma loads_adjacency: "loads s ix \<Longrightarrow> adjacency_wf ix"
proof -
  assume l: "loads s ix"
  then have "distinct (ix_units ix)" "\<forall>v \<in> set (ix_units ix). map_of (ix_adjacency ix) v \<noteq> None"
    "\<And>v. set (adjacent ix v) = {u. depends s v u}" "set (ix_units ix) = unit_ids s"
    unfolding loads_def index_wf_def by blast+
  then show ?thesis unfolding adjacency_wf_def using depends_inside [OF l] by blast
qed

lemma scc_on_cycle:
  assumes "(a, a) \<in> E\<^sup>+"
  shows "{b. (a, b) \<in> E\<^sup>* \<and> (b, a) \<in> E\<^sup>*} = {b. (a, b) \<in> E\<^sup>+ \<and> (b, a) \<in> E\<^sup>+}"
  using assms by (auto dest: trancl_into_rtrancl)

lemma detect_in_index:
  assumes "loads s ix"
  shows "\<exists>cs. detect_cycles_in_index ix = Ok cs \<and> set ` set cs = dependency_cycles s \<and> distinct (concat cs) \<and> list_all sorted cs"
proof -
  let ?E = "dependency_relation s"
  obtain t where t: "tarjan_starts ix (ix_units ix) tarjan_start = Ok t"
    and cc: "closed_components ix (tj_components t)" and all: "set (concat (tj_components t)) = set (ix_units ix)"
    using search_result [OF loads_adjacency [OF assms]] by blast
  let ?P = "\<lambda>c. 2 \<le> length c \<or> (c \<noteq> [] \<and> hd c \<in> set (ix_self_loops ix))"
  let ?cs = "filter ?P (tj_components t)"
  have self: "v \<in> set (ix_self_loops ix) \<longleftrightarrow> (v, v) \<in> successor ix" for v
    using assms loads_successor [OF assms] by (simp add: loads_def dependency_relation_def)
  have cyc: "?P c \<longleftrightarrow> (a, a) \<in> ?E\<^sup>+" if "c \<in> set (tj_components t)" "a \<in> set c" for c a
    using cyclic_component [OF cc that self] loads_successor [OF assms] by simp
  have scc: "set c = {b. (a, b) \<in> ?E\<^sup>+ \<and> (b, a) \<in> ?E\<^sup>+}" if "c \<in> set (tj_components t)" "a \<in> set c" "(a, a) \<in> ?E\<^sup>+" for c a
    using component_is_scc [OF cc that(1,2)] scc_on_cycle [OF that(3)] loads_successor [OF assms] by simp
  have "set ` set ?cs = dependency_cycles s"
  proof (intro equalityI subsetI)
    fix C assume "C \<in> set ` set ?cs"
    then obtain c where c: "c \<in> set (tj_components t)" "?P c" "C = set c" by auto
    then obtain a where a: "a \<in> set c" using cc unfolding closed_components_def by (metis last_in_set)
    then show "C \<in> dependency_cycles s" unfolding dependency_cycles_def using cyc [OF c(1) a] scc [OF c(1) a] c by blast
  next
    fix C assume "C \<in> dependency_cycles s"
    then obtain a where a: "(a, a) \<in> ?E\<^sup>+" and C: "C = {b. (a, b) \<in> ?E\<^sup>+ \<and> (b, a) \<in> ?E\<^sup>+}"
      unfolding dependency_cycles_def by blast
    then obtain x where "(a, x) \<in> ?E" using tranclD by metis
    then have "depends s a x" by (simp add: dependency_relation_def)
    then have "a \<in> set (concat (tj_components t))" using depends_inside [OF assms] all assms by (auto simp: loads_def)
    then obtain c where c: "c \<in> set (tj_components t)" "a \<in> set c" by auto
    then show "C \<in> set ` set ?cs" using cyc [OF c] scc [OF c a] a C by auto
  qed
  moreover have "distinct (concat (filter Q cs))" if "distinct (concat cs)" for Q and cs :: "unit_id list list"
    using that by (induction cs) auto
  then have "distinct (concat ?cs)" using cc unfolding closed_components_def by blast
  moreover have "list_all sorted ?cs" using cc by (simp add: closed_components_def list_all_iff)
  ultimately show ?thesis using t by (auto simp: detect_cycles_in_index_def)
qed

lemma reached_loads: "graph_reaches env empty_graph s \<Longrightarrow> \<exists>ix. load_dependency_index s = Ok ix \<and> loads s ix"
  using load_dependency_index_loads [OF graph_inv_reaches [OF _ graph_inv_empty]] by blast

text \<open>
  C10: On every graph that can be reached, the search for cycles answers, changes nothing, and reports exactly
  the groups of units that depend on each other in a circle, a unit that depends on itself included: each
  such group once, whole, and sorted; so it reports none exactly when the graph is acyclic.
\<close>

theorem cycles_are_found:
  assumes "graph_reaches env empty_graph s"
  shows "\<exists>cs. detect_cycles s = (Ok cs, s) \<and> set ` set cs = dependency_cycles s \<and> distinct (concat cs) \<and>
     list_all sorted cs \<and> (cs = [] \<longleftrightarrow> acyclic (dependency_relation s))"
proof -
  obtain ix where ix: "load_dependency_index s = Ok ix" "loads s ix" using reached_loads [OF assms] by blast
  then obtain cs where "detect_cycles_in_index ix = Ok cs" "set ` set cs = dependency_cycles s" "distinct (concat cs)" "list_all sorted cs"
    using detect_in_index by blast
  then show ?thesis using ix(1) dependency_cycles_empty [of s] by (auto simp: detect_cycles_def)
qed

end
