(* ===== verification/Sgr_Plan.thy ===== *)
theory Sgr_Plan
  imports Sgr_Cycles
begin

text \<open>
  The properties of the evaluator's answers on every graph that can be reached: the start order, the
  parallel batches, readiness and convergence, each with a sample graph on which it is evaluated.
\<close>

section \<open>The start order\<close>

text \<open>The units that can start once those of a set have started.\<close>

definition startable :: "sgr_state \<Rightarrow> unit_id set \<Rightarrow> unit_id set" where
  "startable s S = {v \<in> unit_ids s - S. \<forall>u. depends s v u \<longrightarrow> u \<in> S}"

lemma loads_free: "loads s ix \<Longrightarrow> free_units ix S = startable s S"
proof -
  assume l: "loads s ix"
  have "\<And>v u. ixg.needs ix v u \<longleftrightarrow> depends s v u" using l unfolding loads_def by blast
  then have "ixg.remaining ix S v = 0 \<longleftrightarrow> (\<forall>u. depends s v u \<longrightarrow> u \<in> S)" for v by (simp add: ixg.remaining_zero_iff)
  then show ?thesis using l unfolding loads_def free_units_def startable_def by auto
qed

definition smallest_first :: "dependency_index \<Rightarrow> unit_id list \<Rightarrow> bool" where
  "smallest_first ix xs \<longleftrightarrow> (\<forall>i < length xs. xs ! i \<in> free_units ix (set (take i xs)) \<and>
     (\<forall>v \<in> free_units ix (set (take i xs)). xs ! i \<le> v))"

lemma smallest_first_snoc:
  "smallest_first ix (xs @ [x]) \<longleftrightarrow>
     smallest_first ix xs \<and> x \<in> free_units ix (set xs) \<and> (\<forall>v \<in> free_units ix (set xs). x \<le> v)"
  by (auto simp: smallest_first_def nth_append less_Suc_eq)

lemma topological_loop_least:
  assumes "index_wf ix" and "kahn_inv ix counts ready ordered" and "sorted ready" and "smallest_first ix ordered"
  shows "\<exists>xs. topological_loop ix counts ready ordered = Ok xs \<and> ixg.in_order ix xs \<and> free_units ix (set xs) = {} \<and>
     smallest_first ix xs"
  using assms
proof (induction ix counts ready ordered rule: topological_loop.induct)
  case (1 ix counts ready ordered)
  show ?case
  proof (cases ready)
    case Nil
    then show ?thesis using 1(3,5) by (subst topological_loop.simps) (simp add: kahn_inv_def)
  next
    case (Cons u rest)
    then obtain counts' ready' where r: "release_dependents (dependents_of ix u) counts rest = Ok (counts', ready')"
      and inv: "kahn_inv ix counts' (sort_and_dedup_unit_ids ready') (ordered @ [u])"
      using kahn_step [OF 1(2)] 1(3) by blast
    have "set ready = free_units ix (set ordered)" using 1(3) by (simp add: kahn_inv_def)
    then have "u \<in> free_units ix (set ordered)" "\<forall>v \<in> free_units ix (set ordered). u \<le> v"
      using Cons 1(4) by auto
    then have "smallest_first ix (ordered @ [u])" using 1(5) by (simp add: smallest_first_snoc)
    moreover have "sorted (sort_and_dedup_unit_ids ready')" by (simp add: sort_and_dedup_unit_ids_def)
    ultimately show ?thesis
      using 1(1) [OF Cons r _ 1(2) inv] r Cons by (subst topological_loop.simps) simp
  qed
qed

text \<open>The state both loops start from.\<close>

lemma kahn_start:
  assumes "loads s ix"
  shows "kahn_inv ix (ix_counts ix) (zero_prerequisite_units (ix_units ix) (ix_counts ix)) []"
    and "sorted (zero_prerequisite_units (ix_units ix) (ix_counts ix))"
proof -
  have wf: "index_wf ix" using assms by (simp add: loads_def)
  show "kahn_inv ix (ix_counts ix) (zero_prerequisite_units (ix_units ix) (ix_counts ix)) []"
    using wf by (auto simp: kahn_inv_def ixg.in_order_Nil counts_left_def index_wf_def zero_prerequisite_units_def
        free_units_def count_or_zero_def)
qed (simp add: zero_prerequisite_units_def)

text \<open>What is left when no unit is free: nothing, exactly when the graph is acyclic.\<close>

lemma exhausted_iff:
  assumes "loads s ix" and ord: "ixg.in_order ix xs" and free: "free_units ix (set xs) = {}"
  shows "length xs = length (ix_units ix) \<longleftrightarrow> acyclic (dependency_relation s)"
    and "length xs = length (ix_units ix) \<Longrightarrow> set xs = unit_ids s"
proof -
  have U: "set (ix_units ix) = unit_ids s" and d: "distinct (ix_units ix)"
    and rel: "{(v, u). ixg.needs ix v u} = dependency_relation s"
    using assms(1) by (auto simp: loads_def index_wf_def dependency_relation_def)
  have xs: "distinct xs" "set xs \<subseteq> set (ix_units ix)" using ord by (auto simp: ixg.in_order_def)
  have len: "length xs = length (ix_units ix) \<longleftrightarrow> set xs = set (ix_units ix)"
    using xs d by (metis List.finite_set card_subset_eq distinct_card)
  show "length xs = length (ix_units ix) \<Longrightarrow> set xs = unit_ids s" using len U by simp
  show "length xs = length (ix_units ix) \<longleftrightarrow> acyclic (dependency_relation s)"
    using ixg.in_order_acyclic [OF ord] ixg.stuck_cyclic [OF _ xs(2)] free len rel by (auto simp: free_units_def)
qed

lemma cycle_of_rest:
  assumes "loads s ix" and "\<not> acyclic (dependency_relation s)"
  shows "\<exists>c. first_cycle_or_remaining ix xs = Ok c \<and> set c \<in> dependency_cycles s"
proof -
  obtain cs where cs: "detect_cycles_in_index ix = Ok cs" "set ` set cs = dependency_cycles s"
    using detect_in_index [OF assms(1)] by blast
  then have "cs \<noteq> []" using assms(2) dependency_cycles_empty [of s] by auto
  then obtain c cs' where "cs = c # cs'" by (cases cs) auto
  then show ?thesis using cs by (auto simp: first_cycle_or_remaining_def)
qed

text \<open>
  C11: On every graph that can be reached, the topological sort answers and changes nothing. When the
  dependencies are acyclic the answer is a start order: every unit exactly once, each after all it depends on,
  and at every position the smallest identifier that can start there, so the order depends only on the
  graph and not on the order of the hash maps. Otherwise the answer is the error that names a whole cycle.
\<close>

theorem start_order_is_correct:
  assumes "graph_reaches env empty_graph s"
  shows "\<exists>r. topological_sort s = (r, s) \<and>
     (if acyclic (dependency_relation s)
      then \<exists>xs. r = Ok xs \<and> distinct xs \<and> set xs = unit_ids s \<and>
             (\<forall>i < length xs. xs ! i \<in> startable s (set (take i xs)) \<and> (\<forall>v \<in> startable s (set (take i xs)). xs ! i \<le> v))
      else \<exists>c. r = Err (DependencyCycleDetected c) \<and> set c \<in> dependency_cycles s)"
proof -
  obtain ix where ix: "load_dependency_index s = Ok ix" "loads s ix" using reached_loads [OF assms] by blast
  have wf: "index_wf ix" using ix(2) by (simp add: loads_def)
  obtain xs where run: "topological_loop ix (ix_counts ix) (zero_prerequisite_units (ix_units ix) (ix_counts ix)) [] = Ok xs"
    and ord: "ixg.in_order ix xs" and free: "free_units ix (set xs) = {}" and least: "smallest_first ix xs"
    using topological_loop_least [OF wf kahn_start [OF ix(2)]] by (auto simp: smallest_first_def)
  note iff = exhausted_iff [OF ix(2) ord free]
  show ?thesis
  proof (cases "acyclic (dependency_relation s)")
    case True
    then have "topological_sort s = (Ok xs, s)" using iff(1) ix(1) run by (simp add: topological_sort_def)
    moreover have "distinct xs" using ord by (simp add: ixg.in_order_def)
    ultimately show ?thesis
      using True iff least by (simp add: smallest_first_def loads_free [OF ix(2)])
  next
    case False
    obtain c where "first_cycle_or_remaining ix xs = Ok c" "set c \<in> dependency_cycles s"
      using cycle_of_rest [OF ix(2) False] by blast
    moreover have "topological_sort s = (try_then (first_cycle_or_remaining ix xs) (\<lambda>c. Err (DependencyCycleDetected c)), s)"
      using iff(1) False ix(1) run by (simp add: topological_sort_def)
    ultimately show ?thesis using False by simp
  qed
qed

section \<open>The parallel batches\<close>

text \<open>
  C18: On every graph that can be reached, the batches answer and change nothing. When the dependencies are
  acyclic they hold every unit exactly once, and each batch is, sorted, the set of all units that can start
  when the batches before it have started, so no unit could start a batch earlier. Otherwise the answer is
  the error that names a whole cycle.
\<close>

theorem batches_are_maximal:
  assumes "graph_reaches env empty_graph s"
  shows "\<exists>r. identify_parallel_batches s = (r, s) \<and>
     (if acyclic (dependency_relation s)
      then \<exists>bs. r = Ok bs \<and> distinct (concat bs) \<and> set (concat bs) = unit_ids s \<and>
             (\<forall>k < length bs. bs ! k \<noteq> [] \<and> sorted (bs ! k) \<and> set (bs ! k) = startable s (set (concat (take k bs))))
      else \<exists>c. r = Err (DependencyCycleDetected c) \<and> set c \<in> dependency_cycles s)"
proof -
  obtain ix where ix: "load_dependency_index s = Ok ix" "loads s ix" using reached_loads [OF assms] by blast
  have wf: "index_wf ix" using ix(2) by (simp add: loads_def)
  have "layered ix []" by (simp add: layered_def)
  then obtain bs where run: "batch_loop ix (ix_counts ix) (zero_prerequisite_units (ix_units ix) (ix_counts ix)) [] [] = Ok (bs, concat bs)"
    and ord: "ixg.in_order ix (concat bs)" and lay: "layered ix bs" and free: "free_units ix (set (concat bs)) = {}"
    using batch_loop_result [OF wf kahn_start(1) [OF ix(2)] _ _ kahn_start(2) [OF ix(2)], of "[]"] by auto
  note iff = exhausted_iff [OF ix(2) ord free]
  show ?thesis
  proof (cases "acyclic (dependency_relation s)")
    case True
    then have "identify_parallel_batches s = (Ok bs, s)" using iff(1) ix(1) run by (simp add: identify_parallel_batches_def)
    moreover have "distinct (concat bs)" using ord by (simp add: ixg.in_order_def)
    moreover have "set (concat bs) = unit_ids s" using iff True by blast
    moreover have "\<forall>k < length bs. bs ! k \<noteq> [] \<and> sorted (bs ! k) \<and> set (bs ! k) = startable s (set (concat (take k bs)))"
      using lay unfolding layered_def loads_free [OF ix(2)] by blast
    ultimately show ?thesis using True by auto
  next
    case False
    obtain c where "first_cycle_or_remaining ix (concat bs) = Ok c" "set c \<in> dependency_cycles s"
      using cycle_of_rest [OF ix(2) False] by blast
    moreover have "identify_parallel_batches s =
        (try_then (first_cycle_or_remaining ix (concat bs)) (\<lambda>c. Err (DependencyCycleDetected c)), s)"
      using iff(1) False ix(1) run by (simp add: identify_parallel_batches_def)
    ultimately show ?thesis using False by simp
  qed
qed

section \<open>Readiness\<close>

lemma readiness_loop_result:
  assumes "\<forall>e \<in> set es. map_of (sg_units s) (to_unit_id e) \<noteq> None"
  shows "readiness_loop es s =
     (Ok (list_all (\<lambda>e. is_hard (edge_kind e) \<longrightarrow> is_running_stable (su_state (the (map_of (sg_units s) (to_unit_id e))))) es), s)"
  using assms by (induction es) (auto simp: sgr_return_def sgr_then_def get_unit_def)

text \<open>
  On every graph that can be reached, a unit is ready exactly when every unit it requires, to be running or
  to be healthy alike, is running or healthy; a unit that is not registered is an error, and asking changes nothing.
\<close>

theorem readiness_is_decided:
  assumes "graph_reaches env empty_graph s"
  shows "evaluate_readiness uid s =
     (if uid \<in> unit_ids s
      then Ok (\<forall>e \<in> set (edges_of s uid). is_hard (edge_kind e) \<longrightarrow>
                 (\<exists>d. map_of (sg_units s) (to_unit_id e) = Some d \<and> su_state d \<in> {UnitRunning, UnitHealthy}))
      else Err (UnitNotFound uid), s)"
proof -
  have inv: "graph_inv env s" by (rule graph_inv_reaches [OF assms graph_inv_empty])
  have known: "\<forall>e \<in> set (edges_of s uid). map_of (sg_units s) (to_unit_id e) \<noteq> None"
    using inv unfolding graph_inv_def by blast
  have "uid \<in> unit_ids s \<longleftrightarrow> map_of (sg_units s) uid \<noteq> None" using graph_inv_ids(3) [OF inv] by blast
  moreover have "is_running_stable (su_state (the (map_of (sg_units s) (to_unit_id e)))) \<longleftrightarrow>
      (\<exists>d. map_of (sg_units s) (to_unit_id e) = Some d \<and> su_state d \<in> {UnitRunning, UnitHealthy})"
    if "e \<in> set (edges_of s uid)" for e
    using known that by (auto simp: is_running_stable_def)
  ultimately show ?thesis
    using readiness_loop_result [OF known]
    by (simp add: evaluate_readiness_def sgr_then_def list_dependencies_def list_all_iff)
qed

text \<open>A dependency on a healthy unit is met by one that is only running.\<close>

lemma readiness_accepts_running:
  assumes "map_of (sg_units s) uid = Some u" and "edges_of s uid = [e]" and "edge_kind e = RequiresHealthy"
    and "map_of (sg_units s) (to_unit_id e) = Some d" and "su_state d = UnitRunning"
  shows "evaluate_readiness uid s = (Ok True, s)"
  using assms by (simp add: evaluate_readiness_def sgr_then_def list_dependencies_def get_unit_def sgr_return_def is_running_stable_def)

section \<open>Convergence\<close>

definition unit_settled :: "service_unit \<Rightarrow> bool" where
  "unit_settled u \<longleftrightarrow> (case um_desired_state (su_manifest u) of
     WantStopped \<Rightarrow> su_state u = UnitStopped | _ \<Rightarrow> su_state u \<in> {UnitRunning, UnitHealthy})"

lemma settled_iff: "desired_state_matches (um_desired_state (su_manifest u)) (su_state u) \<longleftrightarrow> unit_settled u"
  by (cases "um_desired_state (su_manifest u)") (simp_all add: unit_settled_def is_running_stable_def)

lemma settled_state: "unit_settled u \<Longrightarrow> su_state u \<in> {UnitStopped, UnitRunning, UnitHealthy}"
  by (auto simp: unit_settled_def split: desired_state.splits)

text \<open>
  The graph is reported as converged exactly when it has units and each is where its manifest wants it, and
  this is the answer of \<open>is_converged\<close> too, the empty graph apart. The state the graph derives by itself agrees,
  except that it says converged also where settled units are not where their manifests want them.
\<close>

theorem convergence_is_desired:
  "\<exists>st g b. convergence_state (None :: ('sk, 'vk) sgr_emitter option) now s = (Ok st, s) \<and> graph_state_of s = (Ok g, s) \<and> is_converged s = (Ok b, s) \<and>
     b = (\<forall>(i, u) \<in> set (sg_units s). unit_settled u) \<and> (st = GraphConverged \<longleftrightarrow> sg_units s \<noteq> [] \<and> b) \<and>
     (g = st \<or> g = GraphConverged \<and> st = GraphConverging)"
proof -
  let ?us = "map snd (sg_units s)"
  have conv: "is_converged s = (Ok (list_all unit_settled ?us), s)"
    using settled_state by (force simp: is_converged_def sgr_then_def list_units_def sgr_return_def settled_iff
        list_all_iff is_transitional_def)
  obtain st where st: "convergence_state (None :: ('sk, 'vk) sgr_emitter option) now s = (Ok st, s)"
    and eq: "st = (if ?us = [] then GraphEmpty
                 else if list_ex (\<lambda>u. su_state u = UnitFailed) ?us
                 then (if list_ex (\<lambda>u. su_state u = UnitFailed \<and> is_critical_unit u) ?us \<or>
                          length (failed_units ?us) = length ?us
                       then GraphFailed else GraphDegraded)
                 else if list_ex (\<lambda>u. su_state u \<in> {UnitDegraded, UnitUnhealthy, UnitRetired}) ?us then GraphDegraded
                 else if list_ex (\<lambda>u. is_transitional (su_state u)) ?us then GraphConverging
                 else if list_all unit_settled ?us then GraphConverged else GraphConverging)"
    by (auto simp: convergence_state_def sgr_then_def list_units_def sgr_return_def emit_when_def Let_def settled_iff)
  have "st = GraphConverged \<longleftrightarrow> sg_units s \<noteq> [] \<and> list_all unit_settled ?us"
  proof
    assume "sg_units s \<noteq> [] \<and> list_all unit_settled ?us"
    moreover have none: "\<not> list_ex (\<lambda>u. su_state u \<in> S) ?us"
      if "list_all unit_settled ?us" "S \<inter> {UnitStopped, UnitRunning, UnitHealthy} = {}" for S
      using that settled_state unfolding list_all_iff list_ex_iff by blast
    moreover note none [of "{UnitFailed}"] none [of "{UnitDegraded, UnitUnhealthy, UnitRetired}"]
      none [of "{UnitDraft, UnitQueued, UnitStarting, UnitStopping}"]
    ultimately show "st = GraphConverged" unfolding eq by (simp add: is_transitional_def)
  qed (auto simp: eq split: if_splits)
  moreover have "list_all unit_settled ?us \<longleftrightarrow> (\<forall>(i, u) \<in> set (sg_units s). unit_settled u)"
    by (auto simp: list_all_iff)
  moreover obtain g where "graph_state_of s = (Ok g, s)" "g = st \<or> g = GraphConverged \<and> st = GraphConverging"
    unfolding eq graph_state_of_def Let_def by simp
  ultimately show ?thesis using st conv by blast
qed

section \<open>Sample graphs\<close>

definition sample_circle :: sgr_state where
  "sample_circle = snd (declare_dependency sample_graph_env 2 ''unit:v:a'' ''unit:v:b'' OrdersAfter sample_graph)"

lemma sample_circle_reached: "graph_reaches sample_graph_env empty_graph sample_circle"
proof -
  have "graph_step sample_graph_env sample_graph sample_circle"
    unfolding sample_circle_def
    by (cases "declare_dependency sample_graph_env 2 ''unit:v:a'' ''unit:v:b'' OrdersAfter sample_graph")
      (auto intro: graph_step.step_declare)
  then show ?thesis using sample_graph_reached by (rule rtranclp.rtrancl_into_rtrancl [rotated])
qed

lemma sample_relation: "dependency_relation sample_graph = {(''unit:v:b'', ''unit:v:a'')}"
  by (auto simp: dependency_relation_def depends_def edges_of_def sample_graph_units split: if_splits)

lemma sample_circle_relation:
  "dependency_relation sample_circle = {(''unit:v:a'', ''unit:v:b''), (''unit:v:b'', ''unit:v:a'')}"
  by (auto simp: dependency_relation_def depends_def edges_of_def sample_circle_def declare_dependency_def
      sample_graph_units extend_edges_def sgr_then_def emit_when_def sample_graph_env_def sgr_return_def Let_def
      split: if_splits)

lemma sample_acyclic: "acyclic (dependency_relation sample_graph)"
  unfolding sample_relation by (simp add: acyclic_insert wf_acyclic)

lemma sample_ids: "unit_ids sample_graph = {''unit:v:a'', ''unit:v:b''}"
  by (simp add: unit_ids_def sample_graph_units)

lemma sample_startable: "startable sample_graph {} = {''unit:v:a''}"
proof -
  have "depends sample_graph v u \<longleftrightarrow> v = ''unit:v:b'' \<and> u = ''unit:v:a''" for v u
    using sample_relation by (auto simp: dependency_relation_def)
  then show ?thesis by (auto simp: startable_def sample_ids)
qed

lemma sample_cycle: "dependency_cycles sample_circle = {{''unit:v:a'', ''unit:v:b''}}"
proof -
  let ?a = "''unit:v:a''" and ?b = "''unit:v:b''" and ?E = "dependency_relation sample_circle"
  have "(?a, ?b) \<in> ?E\<^sup>+" "(?b, ?a) \<in> ?E\<^sup>+" unfolding sample_circle_relation by auto
  moreover from this have "(?a, ?a) \<in> ?E\<^sup>+" "(?b, ?b) \<in> ?E\<^sup>+" by (blast intro: trancl_trans)+
  moreover have "?E\<^sup>+ \<subseteq> {?a, ?b} \<times> {?a, ?b}" unfolding sample_circle_relation by (rule trancl_subset_Sigma) auto
  ultimately have "?E\<^sup>+ = {?a, ?b} \<times> {?a, ?b}" by blast
  then show ?thesis unfolding dependency_cycles_def by auto
qed

lemma answer_if:
  assumes "\<exists>r. f = (r, s) \<and> (if P then \<exists>x. r = Ok x \<and> Q x else R r)" and P
  shows "\<exists>x. f = (Ok x, s) \<and> Q x"
  using assms by auto

theorem start_order_is_correct_witness:
  "\<exists>xs. topological_sort sample_graph = (Ok xs, sample_graph) \<and> distinct xs \<and>
     set xs = {''unit:v:a'', ''unit:v:b''} \<and> xs ! 0 = ''unit:v:a''"
proof -
  obtain xs where xs: "topological_sort sample_graph = (Ok xs, sample_graph)" "distinct xs" "set xs = unit_ids sample_graph"
    and least: "\<forall>i < length xs. xs ! i \<in> startable sample_graph (set (take i xs)) \<and>
       (\<forall>v \<in> startable sample_graph (set (take i xs)). xs ! i \<le> v)"
    using answer_if [OF start_order_is_correct [OF sample_graph_reached] sample_acyclic] by blast
  have "set xs \<noteq> {}" unfolding xs(3) sample_ids by (rule insert_not_empty)
  then have "xs \<noteq> []" by auto
  then have "xs ! 0 \<in> startable sample_graph {}" using least [rule_format, of 0] by simp
  then show ?thesis using xs by (simp add: sample_startable sample_ids)
qed

theorem batches_are_maximal_witness:
  "\<exists>bs. identify_parallel_batches sample_graph = (Ok bs, sample_graph) \<and>
     set (concat bs) = {''unit:v:a'', ''unit:v:b''} \<and> set (bs ! 0) = {''unit:v:a''}"
proof -
  obtain bs where bs: "identify_parallel_batches sample_graph = (Ok bs, sample_graph)" "set (concat bs) = unit_ids sample_graph"
    and lay: "\<forall>k < length bs. bs ! k \<noteq> [] \<and> sorted (bs ! k) \<and>
       set (bs ! k) = startable sample_graph (set (concat (take k bs)))"
    using answer_if [OF batches_are_maximal [OF sample_graph_reached] sample_acyclic] by blast
  have "set (concat bs) \<noteq> {}" unfolding bs(2) sample_ids by (rule insert_not_empty)
  then have "bs \<noteq> []" by auto
  then have "set (bs ! 0) = startable sample_graph {}" using lay [rule_format, of 0] by simp
  then show ?thesis using bs by (simp add: sample_startable sample_ids)
qed

theorem cycles_are_found_witness:
  "\<exists>cs. detect_cycles sample_circle = (Ok cs, sample_circle) \<and> set ` set cs = {{''unit:v:a'', ''unit:v:b''}}"
  using cycles_are_found [OF sample_circle_reached] unfolding sample_cycle by blast

theorem readiness_is_decided_witness:
  "evaluate_readiness ''unit:v:a'' sample_graph = (Ok True, sample_graph) \<and>
   evaluate_readiness ''unit:v:b'' sample_graph = (Ok False, sample_graph) \<and>
   evaluate_readiness ''unit:v:c'' sample_graph = (Err (UnitNotFound ''unit:v:c''), sample_graph)"
  using readiness_is_decided [OF sample_graph_reached, of "''unit:v:a''"]
    readiness_is_decided [OF sample_graph_reached, of "''unit:v:b''"]
    readiness_is_decided [OF sample_graph_reached, of "''unit:v:c''"]
  by (simp add: sample_ids edges_of_def sample_graph_units new_service_unit_def)

end
