(* ===== verification/Sgr_Adapters.thy ===== *)
theory Sgr_Adapters
  imports Sgr_Graph
begin

text \<open>
  The adapter registry of the service graph, \<open>adapter_registry.rs\<close>: registration of signed capabilities,
  withdrawal, and the choice of an adapter for a unit. The registered adapters are the map
  \<open>sg_adapters\<close> of the state; each method holds the lock from its first access to its last, and an emission
  follows after it.
\<close>

section \<open>Signatures\<close>

record ('sk, 'vk) registry_env =
  re_lib :: "'vk sgr_lib"
  re_trusted_authorities :: "(string \<times> 'vk) list"
  re_emitter :: "('sk, 'vk) sgr_emitter option"

definition signed_capability_body :: "adapter_capability \<Rightarrow> json" where
  "signed_capability_body c = JObject
     [(''capability_id'', JString (acap_id c)), (''provides'', JArray (map JString (acap_provides c))),
      (''requires'', JArray (map JString (acap_requires c))), (''risk_template'', JString (risk_template c))]"

definition canonical_capability_bytes :: "'vk sgr_lib \<Rightarrow> adapter_capability \<Rightarrow> (sgr_error, u8 list) result" where
  "canonical_capability_bytes lib c =
     (case sl_to_vec lib (signed_capability_body c) of
        Inl e \<Rightarrow> Err (SgrInternal (''adapter capability serialise: '' @ e))
      | Inr bs \<Rightarrow> Ok bs)"

fun declaration_signing_key_id :: "adapter_declaration \<Rightarrow> (sgr_error, string) result" where
  "declaration_signing_key_id (DeclManifest m) = Ok (sam_signing_key_id m)"
| "declaration_signing_key_id (DeclCapability c) =
     Err (ManifestUnknownAuthority ''adapter declaration missing signing_key_id'')"

definition verify_capability_signature ::
    "('sk, 'vk) registry_env \<Rightarrow> adapter_capability \<Rightarrow> adapter_declaration \<Rightarrow> (sgr_error, unit) result" where
  "verify_capability_signature env c d =
     try_then (declaration_signing_key_id d) (\<lambda>kid.
       case map_of (re_trusted_authorities env) kid of
         None \<Rightarrow> Err (ManifestUnknownAuthority kid)
       | Some vk \<Rightarrow>
           if length (manifest_signature_ed25519 c) \<noteq> 64 then Err ManifestSignatureInvalid
           else try_then (canonical_capability_bytes (re_lib env) c) (\<lambda>body.
                  if sl_verify (re_lib env) vk body (manifest_signature_ed25519 c) then Ok ()
                  else Err ManifestSignatureInvalid))"

section \<open>Operations\<close>

definition sgr_register_adapter ::
    "('sk, 'vk) registry_env \<Rightarrow> instant \<Rightarrow> adapter_capability \<Rightarrow> adapter_declaration \<Rightarrow> sgr_registered_adapter sgr" where
  "sgr_register_adapter env now c d s =
     (case verify_capability_signature env c d of
        Inl e \<Rightarrow> (Err e, s)
      | Inr _ \<Rightarrow>
          (case map_of (sg_adapters s) (acap_id c) of
             Some existing \<Rightarrow>
               if ra_capability existing = c \<and> ra_declaration existing = d then (Ok existing, s)
               else (Err (SgrInternal (''adapter capability already registered: '' @ acap_id c)), s)
           | None \<Rightarrow>
               let a = \<lparr>ra_capability = c, ra_declaration = d, ra_registered_at = now, ra_state = RegActive\<rparr>
               in sgr_then (emit_when (re_emitter env) (\<lambda>em. emit_adapter_registered em a)) (\<lambda>_. sgr_return a)
                    (s\<lparr>sg_adapters := AList.update (acap_id c) a (sg_adapters s)\<rparr>)))"

definition adapter_not_found :: "string \<Rightarrow> sgr_error" where
  "adapter_not_found cid = SgrInternal (''adapter capability not found: '' @ cid)"

definition sgr_lookup_adapter :: "string \<Rightarrow> sgr_registered_adapter sgr" where
  "sgr_lookup_adapter cid s =
     (case map_of (sg_adapters s) cid of None \<Rightarrow> (Err (adapter_not_found cid), s) | Some a \<Rightarrow> (Ok a, s))"

definition sgr_list_adapters :: "sgr_state \<Rightarrow> sgr_registered_adapter list" where
  "sgr_list_adapters s = map snd (sg_adapters s)"

definition set_adapter_state :: "adapter_registration_state \<Rightarrow> string \<Rightarrow> unit sgr" where
  "set_adapter_state st cid s =
     (case map_of (sg_adapters s) cid of
        None \<Rightarrow> (Err (adapter_not_found cid), s)
      | Some a \<Rightarrow> (Ok (), s\<lparr>sg_adapters := AList.update cid (a\<lparr>ra_state := st\<rparr>) (sg_adapters s)\<rparr>))"

definition suspend_adapter :: "string \<Rightarrow> string \<Rightarrow> unit sgr" where
  "suspend_adapter cid why = set_adapter_state RegSuspended cid"

definition retire_adapter :: "string \<Rightarrow> unit sgr" where
  "retire_adapter cid = set_adapter_state RegRetired cid"

fun required_strings :: "unit_id \<Rightarrow> json list \<Rightarrow> (sgr_error, string list) result" where
  "required_strings uid [] = Ok []"
| "required_strings uid (v # vs) =
     (case as_str v of
        None \<Rightarrow> Err (SgrInternal (''unit manifest requires entries must be strings: '' @ uid))
      | Some r \<Rightarrow> try_then (required_strings uid vs) (\<lambda>rs. Ok (r # rs)))"

definition manifest_required_capabilities :: "unit_manifest \<Rightarrow> (sgr_error, string list) result" where
  "manifest_required_capabilities m =
     (case json_get (um_adapter_target m) ''requires'' of
        None \<Rightarrow> Ok []
      | Some (JArray vs) \<Rightarrow> required_strings (um_unit_id m) vs
      | Some _ \<Rightarrow> Err (SgrInternal (''unit manifest requires must be a list: '' @ um_unit_id m)))"

definition provides_all :: "string list \<Rightarrow> sgr_registered_adapter \<Rightarrow> bool" where
  "provides_all needed a \<longleftrightarrow> list_all (\<lambda>r. List.member (acap_provides (ra_capability a)) r) needed"

text \<open>By time of registration, then by identifier: the stable sort by the time of those sorted by identifier.\<close>

definition sort_candidates :: "sgr_registered_adapter list \<Rightarrow> sgr_registered_adapter list" where
  "sort_candidates as = sort_key ra_registered_at (sort_key (\<lambda>a. acap_id (ra_capability a)) as)"

definition find_adapter_for_unit :: "unit_manifest \<Rightarrow> sgr_registered_adapter option sgr" where
  "find_adapter_for_unit m s =
     (try_then (manifest_required_capabilities m) (\<lambda>needed.
        if needed = [] then Ok None
        else Ok (find (provides_all needed)
                   (sort_candidates (filter (\<lambda>a. ra_state a = RegActive) (sgr_list_adapters s))))), s)"

section \<open>Runs of the registry\<close>

inductive sgr_registry_step :: "('sk, 'vk) registry_env \<Rightarrow> sgr_state \<Rightarrow> sgr_state \<Rightarrow> bool"
  for env :: "('sk, 'vk) registry_env" where
  step_register: "sgr_register_adapter env now c d s = (r, s') \<Longrightarrow> sgr_registry_step env s s'"
| step_suspend: "suspend_adapter cid why s = (r, s') \<Longrightarrow> sgr_registry_step env s s'"
| step_retire: "retire_adapter cid s = (r, s') \<Longrightarrow> sgr_registry_step env s s'"
| step_elsewhere: "sg_adapters s' = sg_adapters s \<Longrightarrow> sgr_registry_step env s s'"

abbreviation sgr_registry_reaches :: "('sk, 'vk) registry_env \<Rightarrow> sgr_state \<Rightarrow> sgr_state \<Rightarrow> bool" where
  "sgr_registry_reaches env \<equiv> (sgr_registry_step env)\<^sup>*\<^sup>*"

text \<open>Every adapter is stored under its own identifier and carries a valid signature.\<close>

definition sgr_registry_inv :: "('sk, 'vk) registry_env \<Rightarrow> sgr_state \<Rightarrow> bool" where
  "sgr_registry_inv env s \<longleftrightarrow> distinct (map fst (sg_adapters s)) \<and>
     (\<forall>cid a. map_of (sg_adapters s) cid = Some a \<longrightarrow>
        acap_id (ra_capability a) = cid \<and> verify_capability_signature env (ra_capability a) (ra_declaration a) = Ok ())"

lemma set_adapter_state_effect:
  assumes "set_adapter_state st cid s = (r, s')"
  shows "s' = s \<or> (\<exists>a. map_of (sg_adapters s) cid = Some a \<and>
     sg_adapters s' = AList.update cid (a\<lparr>ra_state := st\<rparr>) (sg_adapters s))"
  using assms by (cases "map_of (sg_adapters s) cid") (auto simp: set_adapter_state_def)

text \<open>What a step does to the adapters: one is added, one changes its state, or nothing changes.\<close>

lemma sgr_registry_step_cases:
  assumes "sgr_registry_step env s s'"
  obtains "sg_adapters s' = sg_adapters s"
  | c d t where "verify_capability_signature env c d = Ok ()" "map_of (sg_adapters s) (acap_id c) = None"
      "sg_adapters s' = AList.update (acap_id c)
         \<lparr>ra_capability = c, ra_declaration = d, ra_registered_at = t, ra_state = RegActive\<rparr> (sg_adapters s)"
  | cid a st where "map_of (sg_adapters s) cid = Some a" "st \<in> {RegSuspended, RegRetired}"
      "sg_adapters s' = AList.update cid (a\<lparr>ra_state := st\<rparr>) (sg_adapters s)"
  using assms
proof (cases rule: sgr_registry_step.cases)
  case (step_register now c d r)
  show ?thesis
  proof (cases "verify_capability_signature env c d = Ok () \<and> map_of (sg_adapters s) (acap_id c) = None")
    case True
    let ?a = "\<lparr>ra_capability = c, ra_declaration = d, ra_registered_at = now, ra_state = RegActive\<rparr>"
    let ?s = "s\<lparr>sg_adapters := AList.update (acap_id c) ?a (sg_adapters s)\<rparr>"
    obtain q s1 where q: "emit_when (re_emitter env) (\<lambda>em. emit_adapter_registered em ?a) ?s = (q, s1)"
      by (cases "emit_when (re_emitter env) (\<lambda>em. emit_adapter_registered em ?a) ?s")
    have "only_log ?s s1"
      using emit_when_only_log [of ?s "\<lambda>em. emit_adapter_registered em ?a"] emissions_only_log(7) q by (metis snd_conv)
    moreover have "s' = s1"
      using step_register True q by (cases q) (auto simp: sgr_register_adapter_def sgr_then_def)
    ultimately show ?thesis using True that(2) [of c d now] only_log_fields [of ?s s1] by simp
  next
    case False
    then have "s' = s"
      using step_register by (auto simp: sgr_register_adapter_def split: sum.splits option.splits if_splits)
    then show ?thesis using that(1) by simp
  qed
next
  case (step_suspend cid why r)
  then show ?thesis using set_adapter_state_effect [of RegSuspended cid s r s'] that(1) that(3) [of cid]
    unfolding suspend_adapter_def by blast
next
  case (step_retire cid r)
  then show ?thesis using set_adapter_state_effect [of RegRetired cid s r s'] that(1) that(3) [of cid]
    unfolding retire_adapter_def by blast
qed (use that(1) in blast)

lemma sgr_registry_inv_step:
  assumes "sgr_registry_step env s s'" and "sgr_registry_inv env s"
  shows "sgr_registry_inv env s'"
  using assms(1)
proof (cases rule: sgr_registry_step_cases)
  case (3 cid a st)
  then show ?thesis using assms(2) by (auto simp: sgr_registry_inv_def AList.distinct_update AList.update_conv')
qed (use assms(2) in \<open>auto simp: sgr_registry_inv_def AList.distinct_update AList.update_conv' split: if_splits\<close>)

lemma sgr_registry_inv_reaches:
  assumes "sgr_registry_reaches env empty_graph s"
  shows "sgr_registry_inv env s"
  using assms
proof (induction rule: rtranclp_induct)
  case base
  show ?case by (simp add: sgr_registry_inv_def empty_graph_def)
qed (rule sgr_registry_inv_step)

section \<open>The choice of an adapter\<close>

definition no_later :: "sgr_registered_adapter \<Rightarrow> sgr_registered_adapter \<Rightarrow> bool" where
  "no_later a b \<longleftrightarrow> ra_registered_at a < ra_registered_at b \<or>
     ra_registered_at a = ra_registered_at b \<and> acap_id (ra_capability a) \<le> acap_id (ra_capability b)"

lemma no_later_refl: "no_later a a"
  by (simp add: no_later_def)

lemma set_sort_candidates [simp]: "set (sort_candidates xs) = set xs"
  by (simp add: sort_candidates_def)

lemma sort_candidates_sorted: "sorted_wrt no_later (sort_candidates xs)"
proof -
  have "sorted_wrt no_later (sort_key ra_registered_at ys)"
    if "sorted_wrt (\<lambda>a b. acap_id (ra_capability a) \<le> acap_id (ra_capability b)) ys" for ys
    using that
  proof (induction ys)
    case (Cons y ys)
    have "sorted_wrt no_later (insort_key ra_registered_at y zs)"
      if "sorted_wrt no_later zs" "\<forall>z \<in> set zs. acap_id (ra_capability y) \<le> acap_id (ra_capability z)" for zs
      using that by (induction zs) (auto simp: no_later_def set_insort_key)
    then show ?case using Cons by simp
  qed simp
  moreover have "sorted_wrt (\<lambda>a b. acap_id (ra_capability a) \<le> acap_id (ra_capability b))
      (sort_key (\<lambda>a. acap_id (ra_capability a)) xs)"
    using sorted_sort_key [of "\<lambda>a. acap_id (ra_capability a)" xs] by (simp add: sorted_map)
  ultimately show ?thesis by (simp add: sort_candidates_def)
qed

lemma find_sorted:
  assumes "sorted_wrt R xs" and "find P xs = Some x" and "\<And>a. R a a"
  shows "x \<in> set xs \<and> P x \<and> (\<forall>y \<in> set xs. P y \<longrightarrow> R x y)"
  using assms by (induction xs) (auto split: if_splits)

text \<open>
  In every state of the registry, an adapter found for a unit is registered under its own identifier and
  active, carries a valid signature of the trusted authority its declaration names, and provides everything the
  manifest requires; of the adapters that do, it is the one registered first, and none is found only when
  the manifest requires nothing or no active adapter provides it all. Looking changes nothing.
\<close>

theorem adapter_choice_is_first_fit:
  assumes "sgr_registry_reaches env empty_graph s"
  shows "\<exists>r. find_adapter_for_unit m s = (r, s) \<and>
     (case manifest_required_capabilities m of
        Inl e \<Rightarrow> r = Err e
      | Inr needed \<Rightarrow> \<exists>found. r = Ok found \<and>
          (let fits = {a. map_of (sg_adapters s) (acap_id (ra_capability a)) = Some a \<and> ra_state a = RegActive \<and>
                          set needed \<subseteq> set (acap_provides (ra_capability a))}
           in case found of
                None \<Rightarrow> needed = [] \<or> fits = {}
              | Some a \<Rightarrow> needed \<noteq> [] \<and> a \<in> fits \<and> (\<forall>b \<in> fits. no_later a b) \<and>
                  verify_capability_signature env (ra_capability a) (ra_declaration a) = Ok ()))"
proof (cases "manifest_required_capabilities m")
  case (Inl e)
  then show ?thesis by (simp add: find_adapter_for_unit_def)
next
  case (Inr needed)
  let ?cs = "sort_candidates (filter (\<lambda>a. ra_state a = RegActive) (sgr_list_adapters s))"
  let ?fits = "{a. map_of (sg_adapters s) (acap_id (ra_capability a)) = Some a \<and> ra_state a = RegActive \<and>
      set needed \<subseteq> set (acap_provides (ra_capability a))}"
  have inv: "sgr_registry_inv env s" using sgr_registry_inv_reaches [OF assms] .
  then have stored: "a \<in> set (sgr_list_adapters s) \<longleftrightarrow> map_of (sg_adapters s) (acap_id (ra_capability a)) = Some a" for a
  proof -
    have d: "distinct (map fst (sg_adapters s))" using inv by (simp add: sgr_registry_inv_def)
    have "acap_id (ra_capability a) = k" if "(k, a) \<in> set (sg_adapters s)" for k
      using inv that map_of_is_SomeI [OF d that] unfolding sgr_registry_inv_def by blast
    moreover have "a \<in> set (sgr_list_adapters s) \<longleftrightarrow> (\<exists>k. (k, a) \<in> set (sg_adapters s))" by (force simp: sgr_list_adapters_def)
    ultimately show ?thesis using map_of_is_SomeI [OF d] map_of_SomeD by metis
  qed
  have fits: "a \<in> set ?cs \<and> provides_all needed a \<longleftrightarrow> a \<in> ?fits" for a
    by (auto simp: stored provides_all_def list_all_iff)
  have r: "find_adapter_for_unit m s = (Ok (if needed = [] then None else find (provides_all needed) ?cs), s)"
    using Inr by (simp add: find_adapter_for_unit_def)
  show ?thesis
  proof (cases "needed = [] \<or> find (provides_all needed) ?cs = None")
    case True
    then have "needed = [] \<or> ?fits = {}" using fits by (auto simp: find_None_iff)
    then show ?thesis using Inr r True by auto
  next
    case False
    then obtain a where a: "find (provides_all needed) ?cs = Some a" by auto
    have "a \<in> ?fits \<and> (\<forall>b \<in> ?fits. no_later a b)"
      using find_sorted [OF sort_candidates_sorted a no_later_refl] fits by blast
    moreover have "verify_capability_signature env (ra_capability a) (ra_declaration a) = Ok ()"
      using calculation inv by (auto simp: sgr_registry_inv_def)
    ultimately show ?thesis using Inr r a False by simp
  qed
qed

section \<open>Withdrawal\<close>

definition withdrawn :: "string \<Rightarrow> sgr_state \<Rightarrow> bool" where
  "withdrawn cid s \<longleftrightarrow> (\<exists>a. map_of (sg_adapters s) cid = Some a \<and> ra_state a \<in> {RegSuspended, RegRetired})"

lemma withdrawn_step: "sgr_registry_step env s s' \<Longrightarrow> withdrawn cid s \<Longrightarrow> withdrawn cid s'"
  by (erule sgr_registry_step_cases) (auto simp: withdrawn_def AList.update_conv' split: if_splits)

lemma withdrawn_reaches: "sgr_registry_reaches env s s' \<Longrightarrow> withdrawn cid s \<Longrightarrow> withdrawn cid s'"
  by (induction rule: rtranclp_induct) (auto intro: withdrawn_step)

text \<open>
  C23: Once an adapter has been suspended or retired, no later run of the registry, registrations of the same
  capability included, makes it a candidate again: it stays visible, never active, and is found for no unit.
\<close>

theorem withdrawn_adapter_is_never_found:
  assumes "sgr_registry_reaches env empty_graph s"
    and "suspend_adapter cid why s = (Ok (), s1) \<or> retire_adapter cid s = (Ok (), s1)"
    and "sgr_registry_reaches env s1 s2"
  shows "(\<exists>a. sgr_lookup_adapter cid s2 = (Ok a, s2) \<and> ra_state a \<in> {RegSuspended, RegRetired}) \<and>
     (\<forall>m b. fst (find_adapter_for_unit m s2) = Ok (Some b) \<longrightarrow> acap_id (ra_capability b) \<noteq> cid)"
proof -
  have "withdrawn cid s1"
    using assms(2) by (auto simp: suspend_adapter_def retire_adapter_def set_adapter_state_def withdrawn_def
        AList.update_conv' split: option.splits)
  then have w: "withdrawn cid s2" by (rule withdrawn_reaches [OF assms(3)])
  then have "\<exists>a. sgr_lookup_adapter cid s2 = (Ok a, s2) \<and> ra_state a \<in> {RegSuspended, RegRetired}"
    by (auto simp: withdrawn_def sgr_lookup_adapter_def)
  moreover have "sgr_registry_step env s s1" using assms(2) by (auto intro: sgr_registry_step.intros)
  then have "sgr_registry_reaches env empty_graph s2" using assms(1,3) by (meson rtranclp.rtrancl_into_rtrancl rtranclp_trans)
  then have inv: "sgr_registry_inv env s2" by (rule sgr_registry_inv_reaches)
  have "acap_id (ra_capability b) \<noteq> cid" if f: "fst (find_adapter_for_unit m s2) = Ok (Some b)" for m b
  proof -
    have "b \<in> set (sgr_list_adapters s2)" "ra_state b = RegActive"
      using f by (auto simp: find_adapter_for_unit_def find_Some_iff result_simps split: if_splits dest!: nth_mem)
    then obtain k where "map_of (sg_adapters s2) k = Some b" using inv by (auto simp: sgr_list_adapters_def sgr_registry_inv_def)
    moreover from this have "acap_id (ra_capability b) = k" using inv unfolding sgr_registry_inv_def by blast
    ultimately show ?thesis using \<open>ra_state b = RegActive\<close> w by (auto simp: withdrawn_def)
  qed
  ultimately show ?thesis by blast
qed

section \<open>Departures\<close>

text \<open>The signature covers the capability only: any manifest that names the same key passes with it.\<close>

lemma declaration_is_not_signed:
  assumes "sam_signing_key_id m' = sam_signing_key_id m"
  shows "verify_capability_signature env c (DeclManifest m') = verify_capability_signature env c (DeclManifest m)"
  using assms by (simp add: verify_capability_signature_def)

text \<open>Retirement is documented as terminal; a suspension takes a retired adapter out of it.\<close>

lemma suspension_undoes_retirement:
  assumes "retire_adapter cid s = (Ok (), s1)"
  shows "\<exists>s2 a. suspend_adapter cid why s1 = (Ok (), s2) \<and> map_of (sg_adapters s2) cid = Some a \<and> ra_state a = RegSuspended"
  using assms by (auto simp: retire_adapter_def suspend_adapter_def set_adapter_state_def AList.update_conv' split: option.splits)

section \<open>A sample registry\<close>

definition sample_adapter_manifest :: sgr_adapter_manifest where
  "sample_adapter_manifest =
     \<lparr>sam_adapter_id = ''adapter:v:n:1'', sam_vendor = ''v'', sam_name = ''n'', sam_adapter_version = ''1'',
      sam_spec_version = ''v1alpha1'', sam_declared_actions = [], sam_declared_capabilities = [ServiceLifecycle],
      sam_declared_invariants_supported = [], sam_io_mode = TypedParametersOnly, sam_preferred_dispatch_kind = InProcessRpc,
      sam_declared_stability = Stable, sam_sandbox_profile_minimum = JNull, sam_declared_failure_modes = [],
      sam_default_adapter_timeout_seconds = 1, sam_default_rollback_timeout_seconds = 1,
      sam_network_outbound_hosts = [], sam_external_api_hosts = [], sam_declared_evidence_record_types = [],
      sam_source_package_id = ''pkg'', sam_publisher_root_id = ''root'', sam_manifest_signature = [],
      sam_signing_key_id = ''root'', sam_manifest_created_at = 0, sam_manifest_expires_at = 9\<rparr>"

definition sample_capability :: "string \<Rightarrow> adapter_capability" where
  "sample_capability cid =
     \<lparr>acap_id = cid, acap_provides = [''gpu''], acap_requires = [], risk_template = ''low'',
      manifest_signature_ed25519 = replicate 64 0\<rparr>"

definition sgr_sample_registry_env :: "(unit, unit) registry_env" where
  "sgr_sample_registry_env = \<lparr>re_lib = sample_graph_lib, re_trusted_authorities = [(''root'', ())], re_emitter = None\<rparr>"

abbreviation sample_adapter :: "string \<Rightarrow> instant \<Rightarrow> sgr_registered_adapter" where
  "sample_adapter cid t \<equiv>
     \<lparr>ra_capability = sample_capability cid, ra_declaration = DeclManifest sample_adapter_manifest,
      ra_registered_at = t, ra_state = RegActive\<rparr>"

definition sample_register :: "string \<Rightarrow> instant \<Rightarrow> sgr_state \<Rightarrow> sgr_state" where
  "sample_register cid t s =
     snd (sgr_register_adapter sgr_sample_registry_env t (sample_capability cid) (DeclManifest sample_adapter_manifest) s)"

lemma sample_registered:
  assumes "map_of (sg_adapters s) cid = None"
  shows "sample_register cid t s = s\<lparr>sg_adapters := AList.update cid (sample_adapter cid t) (sg_adapters s)\<rparr>"
  using assms by (simp add: sample_register_def sgr_register_adapter_def verify_capability_signature_def sgr_sample_registry_env_def
      sample_adapter_manifest_def sample_capability_def canonical_capability_bytes_def sample_graph_lib_def emit_when_def
      sgr_then_def Let_def)

lemma sample_register_step: "sgr_registry_step sgr_sample_registry_env s (sample_register cid t s)"
  unfolding sample_register_def
  by (cases "sgr_register_adapter sgr_sample_registry_env t (sample_capability cid) (DeclManifest sample_adapter_manifest) s")
    (auto intro: sgr_registry_step.step_register)

definition sgr_sample_registry :: sgr_state where
  "sgr_sample_registry = sample_register ''c2'' 5 (sample_register ''c1'' 7 empty_graph)"

lemma sgr_sample_registry_adapters:
  "sg_adapters sgr_sample_registry = [(''c1'', sample_adapter ''c1'' 7), (''c2'', sample_adapter ''c2'' 5)]"
  by (simp add: sgr_sample_registry_def sample_registered empty_graph_def)

lemma sgr_sample_registry_reached: "sgr_registry_reaches sgr_sample_registry_env empty_graph sgr_sample_registry"
  unfolding sgr_sample_registry_def
  by (rule rtranclp.rtrancl_into_rtrancl [OF r_into_rtranclp]) (rule sample_register_step)+

definition sample_requiring_manifest :: unit_manifest where
  "sample_requiring_manifest =
     (sample_manifest ''unit:v:a'' [])\<lparr>um_adapter_target := JObject [(''requires'', JArray [JString ''gpu''])]\<rparr>"

theorem adapter_choice_is_first_fit_witness:
  "\<exists>a. find_adapter_for_unit sample_requiring_manifest sgr_sample_registry = (Ok (Some a), sgr_sample_registry) \<and>
     a \<in> {sample_adapter ''c1'' 7, sample_adapter ''c2'' 5} \<and> no_later a (sample_adapter ''c2'' 5) \<and>
     verify_capability_signature sgr_sample_registry_env (ra_capability a) (ra_declaration a) = Ok ()"
proof -
  have req: "manifest_required_capabilities sample_requiring_manifest = Ok [''gpu'']"
    by (simp add: manifest_required_capabilities_def sample_requiring_manifest_def json_get_def)
  let ?fits = "{a. map_of (sg_adapters sgr_sample_registry) (acap_id (ra_capability a)) = Some a \<and> ra_state a = RegActive \<and>
      set [''gpu''] \<subseteq> set (acap_provides (ra_capability a))}"
  have two: "sample_adapter ''c2'' 5 \<in> ?fits" by (simp add: sgr_sample_registry_adapters sample_capability_def)
  have sub: "?fits \<subseteq> {sample_adapter ''c1'' 7, sample_adapter ''c2'' 5}"
    by (auto simp: sgr_sample_registry_adapters split: if_splits)
  obtain f where f: "find_adapter_for_unit sample_requiring_manifest sgr_sample_registry = (Ok f, sgr_sample_registry)"
    and c: "case f of None \<Rightarrow> [''gpu''] = [] \<or> ?fits = {}
         | Some a \<Rightarrow> [''gpu''] \<noteq> [] \<and> a \<in> ?fits \<and> (\<forall>b \<in> ?fits. no_later a b) \<and>
             verify_capability_signature sgr_sample_registry_env (ra_capability a) (ra_declaration a) = Ok ()"
    using adapter_choice_is_first_fit [OF sgr_sample_registry_reached, of sample_requiring_manifest]
    unfolding req sum.case Let_def by blast
  show ?thesis
  proof (cases f)
    case None
    then show ?thesis using c [unfolded None option.case] two by blast
  next
    case (Some a)
    then show ?thesis using c [unfolded Some option.case] f two sub by blast
  qed
qed

theorem withdrawn_adapter_is_never_found_witness:
  "\<exists>a. sgr_lookup_adapter ''c1'' (sample_register ''c1'' 9 (snd (retire_adapter ''c1'' sgr_sample_registry))) =
       (Ok a, sample_register ''c1'' 9 (snd (retire_adapter ''c1'' sgr_sample_registry))) \<and>
     ra_state a \<in> {RegSuspended, RegRetired}"
proof -
  let ?s1 = "snd (retire_adapter ''c1'' sgr_sample_registry)"
  have "retire_adapter ''c1'' sgr_sample_registry = (Ok (), ?s1)"
    by (simp add: retire_adapter_def set_adapter_state_def sgr_sample_registry_adapters)
  moreover have "sgr_registry_reaches sgr_sample_registry_env ?s1 (sample_register ''c1'' 9 ?s1)"
    using sample_register_step by (rule r_into_rtranclp)
  ultimately show ?thesis using withdrawn_adapter_is_never_found [OF sgr_sample_registry_reached] by blast
qed

end
