(* ===== verification/Sgr_Fsm.thy ===== *)
theory Sgr_Fsm
  imports Sgr_Graph
begin

text \<open>
  The driver of unit lifecycles, \<open>state_fsm.rs\<close>: the table of transitions and the loops \<open>start\<close>, \<open>stop\<close>,
  \<open>restart\<close> and \<open>mark_failed\<close>, each of which reads the unit, decides the next state and applies it, until
  the unit is where it should be. Each loop is a recursion on fuel, \<open>None\<close> when the fuel is used up; the
  clock is a function of the fuel left. Other drivers may act between two iterations, which the section on
  interference covers: there, an iteration runs from an arbitrary later state.
\<close>

section \<open>The table\<close>

definition UNIT_TRANSITIONS :: "(unit_state \<times> unit_state) list" where
  "UNIT_TRANSITIONS =
     [(UnitDraft, UnitQueued), (UnitDraft, UnitRetired), (UnitQueued, UnitStarting), (UnitQueued, UnitRetired),
      (UnitStarting, UnitRunning), (UnitStarting, UnitFailed), (UnitRunning, UnitHealthy),
      (UnitRunning, UnitStopped), (UnitRunning, UnitFailed), (UnitHealthy, UnitDegraded),
      (UnitHealthy, UnitUnhealthy), (UnitHealthy, UnitStopping), (UnitDegraded, UnitHealthy),
      (UnitDegraded, UnitUnhealthy), (UnitDegraded, UnitStopping), (UnitUnhealthy, UnitHealthy),
      (UnitUnhealthy, UnitStarting), (UnitUnhealthy, UnitFailed), (UnitUnhealthy, UnitStopping),
      (UnitStopping, UnitStopped), (UnitStopping, UnitFailed), (UnitStopped, UnitQueued),
      (UnitStopped, UnitRetired), (UnitFailed, UnitStarting), (UnitFailed, UnitRetired)]"

definition is_legal_transition :: "unit_state \<Rightarrow> unit_state \<Rightarrow> bool" where
  "is_legal_transition frm to \<longleftrightarrow> List.member UNIT_TRANSITIONS (frm, to)"

section \<open>The loops\<close>

definition apply_or_observe :: "instant \<Rightarrow> unit_id \<Rightarrow> unit_state \<Rightarrow> unit_state \<Rightarrow> service_unit sgr" where
  "apply_or_observe now uid expected_from nxt s =
     (if \<not> is_legal_transition expected_from nxt then (Err (InvalidStateTransition expected_from nxt), s)
      else case set_unit_state now uid nxt s of
             (Inr u, s') \<Rightarrow> (Ok u, s')
           | (Inl (InvalidStateTransition frm to), s') \<Rightarrow>
               if frm \<noteq> expected_from \<and> to = nxt then get_unit uid s' else (Err (InvalidStateTransition frm to), s')
           | (Inl e, s') \<Rightarrow> (Err e, s'))"

text \<open>
  What an iteration decides for the state it reads: the loop is done, is refused with the target named
  in the error, or goes on to a next state. Each table below is the \<open>match\<close> of one loop.
\<close>

datatype fsm_decision = Done | Refuse unit_state | Next unit_state

datatype failed_start_policy = RejectFailed | RetryFailed

fun running_decision :: "failed_start_policy \<Rightarrow> unit_state \<Rightarrow> fsm_decision" where
  "running_decision p UnitRunning = Done"
| "running_decision p UnitDraft = Next UnitQueued"
| "running_decision p UnitStopped = Next UnitQueued"
| "running_decision p UnitQueued = Next UnitStarting"
| "running_decision p UnitStarting = Next UnitRunning"
| "running_decision p UnitFailed = (if p = RetryFailed then Next UnitStarting else Refuse UnitRunning)"
| "running_decision p _ = Refuse UnitRunning"

fun stop_decision :: "unit_state \<Rightarrow> fsm_decision" where
  "stop_decision UnitStopped = Done"
| "stop_decision UnitRunning = Next UnitStopped"
| "stop_decision UnitStopping = Next UnitStopped"
| "stop_decision UnitHealthy = Next UnitStopping"
| "stop_decision UnitDegraded = Next UnitStopping"
| "stop_decision UnitUnhealthy = Next UnitStopping"
| "stop_decision _ = Refuse UnitStopped"

fun failed_decision :: "unit_state \<Rightarrow> fsm_decision" where
  "failed_decision UnitFailed = Done"
| "failed_decision UnitDraft = Next UnitStarting"
| "failed_decision UnitQueued = Next UnitStarting"
| "failed_decision UnitStarting = Next UnitFailed"
| "failed_decision UnitRunning = Next UnitFailed"
| "failed_decision UnitUnhealthy = Next UnitFailed"
| "failed_decision UnitStopping = Next UnitFailed"
| "failed_decision UnitHealthy = Next UnitUnhealthy"
| "failed_decision UnitDegraded = Next UnitUnhealthy"
| "failed_decision _ = Refuse UnitFailed"

fun drive_loop ::
    "(unit_state \<Rightarrow> fsm_decision) \<Rightarrow> (nat \<Rightarrow> instant) \<Rightarrow> unit_id \<Rightarrow> nat \<Rightarrow> sgr_state \<Rightarrow>
     ((sgr_error, service_unit) result \<times> sgr_state) option" where
  "drive_loop decide clock uid 0 s = None"
| "drive_loop decide clock uid (Suc n) s =
     (case get_unit uid s of
        (Inl e, s1) \<Rightarrow> Some (Err e, s1)
      | (Inr u, s1) \<Rightarrow>
          (case decide (su_state u) of
             Done \<Rightarrow> Some (Ok u, s1)
           | Refuse tgt \<Rightarrow> Some (Err (InvalidStateTransition (su_state u) tgt), s1)
           | Next nxt \<Rightarrow>
               (case apply_or_observe (clock n) uid (su_state u) nxt s1 of
                  (Inl e, s2) \<Rightarrow> Some (Err e, s2)
                | (Inr _, s2) \<Rightarrow> drive_loop decide clock uid n s2)))"

text \<open>
  The emission that follows a loop: \<open>start\<close>, \<open>stop\<close> and \<open>mark_failed\<close> record the arrival unless the
  unit was already there when the call began.
\<close>

definition arrive ::
    "('sk, 'vk) sgr_emitter option \<Rightarrow> (('sk, 'vk) sgr_emitter \<Rightarrow> service_unit \<Rightarrow> string sgr) \<Rightarrow> bool \<Rightarrow>
     (sgr_error, service_unit) result \<times> sgr_state \<Rightarrow> (sgr_error, service_unit) result \<times> sgr_state" where
  "arrive em f already r =
     (case r of
        (Inl e, s) \<Rightarrow> (Err e, s)
      | (Inr u, s) \<Rightarrow>
          if already then (Ok u, s) else sgr_then (emit_when em (\<lambda>e. f e u)) (\<lambda>_. sgr_return u) s)"

text \<open>Five iterations suffice for every loop (theorem \<open>drivers_decide_by_state\<close>).\<close>

definition FSM_FUEL :: nat where
  "FSM_FUEL = 5"

definition drive_to_running ::
    "(nat \<Rightarrow> instant) \<Rightarrow> failed_start_policy \<Rightarrow> unit_id \<Rightarrow> sgr_state \<Rightarrow>
     ((sgr_error, service_unit) result \<times> sgr_state) option" where
  "drive_to_running clock p uid s = drive_loop (running_decision p) clock uid FSM_FUEL s"

definition fsm_start ::
    "('sk, 'vk) sgr_emitter option \<Rightarrow> (nat \<Rightarrow> instant) \<Rightarrow> unit_id \<Rightarrow> sgr_state \<Rightarrow>
     ((sgr_error, service_unit) result \<times> sgr_state) option" where
  "fsm_start em clock uid s =
     (case get_unit uid s of
        (Inl e, s1) \<Rightarrow> Some (Err e, s1)
      | (Inr initial, s1) \<Rightarrow>
          map_option (arrive em emit_unit_started (su_state initial = UnitRunning))
            (drive_to_running clock RejectFailed uid s1))"

definition fsm_stop ::
    "('sk, 'vk) sgr_emitter option \<Rightarrow> (nat \<Rightarrow> instant) \<Rightarrow> unit_id \<Rightarrow> sgr_state \<Rightarrow>
     ((sgr_error, service_unit) result \<times> sgr_state) option" where
  "fsm_stop em clock uid s =
     (case get_unit uid s of
        (Inl e, s1) \<Rightarrow> Some (Err e, s1)
      | (Inr initial, s1) \<Rightarrow>
          map_option (arrive em emit_unit_stopped (su_state initial = UnitStopped))
            (drive_loop stop_decision clock uid FSM_FUEL s1))"

definition fsm_mark_failed ::
    "('sk, 'vk) sgr_emitter option \<Rightarrow> (nat \<Rightarrow> instant) \<Rightarrow> unit_id \<Rightarrow> string \<Rightarrow> sgr_state \<Rightarrow>
     ((sgr_error, service_unit) result \<times> sgr_state) option" where
  "fsm_mark_failed em clock uid why s =
     (case get_unit uid s of
        (Inl e, s1) \<Rightarrow> Some (Err e, s1)
      | (Inr initial, s1) \<Rightarrow>
          map_option (arrive em (\<lambda>e u. emit_unit_failed e u why) (su_state initial = UnitFailed))
            (drive_loop failed_decision clock uid FSM_FUEL s1))"

definition fsm_restart ::
    "('sk, 'vk) sgr_emitter option \<Rightarrow> (nat \<Rightarrow> instant) \<Rightarrow> unit_id \<Rightarrow> sgr_state \<Rightarrow>
     ((sgr_error, service_unit) result \<times> sgr_state) option" where
  "fsm_restart em clock uid s =
     (case get_unit uid s of
        (Inl e, s1) \<Rightarrow> Some (Err e, s1)
      | (Inr u, s1) \<Rightarrow>
          if su_state u = UnitFailed then drive_to_running clock RetryFailed uid s1
          else if su_state u = UnitRetired then Some (Err (InvalidStateTransition UnitRetired UnitRunning), s1)
          else if su_state u \<in> {UnitRunning, UnitHealthy, UnitDegraded, UnitUnhealthy, UnitStopping}
          then (case fsm_stop em clock uid s1 of
                  None \<Rightarrow> None
                | Some (Inl e, s2) \<Rightarrow> Some (Err e, s2)
                | Some (Inr _, s2) \<Rightarrow> drive_to_running clock RejectFailed uid s2)
          else drive_to_running clock RejectFailed uid s1)"

definition fsm_transition :: "instant \<Rightarrow> unit_id \<Rightarrow> unit_state \<Rightarrow> service_unit sgr" where
  "fsm_transition now uid tgt =
     sgr_then (get_unit uid) (\<lambda>u.
       if su_state u = tgt then sgr_return u
       else if \<not> is_legal_transition (su_state u) tgt
       then sgr_fail (InvalidStateTransition (su_state u) tgt)
       else set_unit_state now uid tgt)"

section \<open>One driver at a time\<close>

lemma legal_iff_valid: "is_legal_transition frm to \<longleftrightarrow> is_valid_transition frm to"
  by (cases frm; cases to) (simp_all add: is_legal_transition_def UNIT_TRANSITIONS_def is_valid_transition_def)

lemma get_unit_simps [simp]:
  "map_of (sg_units s) uid = Some u \<Longrightarrow> get_unit uid s = (Ok u, s)"
  "map_of (sg_units s) uid = None \<Longrightarrow> get_unit uid s = (Err (UnitNotFound uid), s)"
  by (simp_all add: get_unit_def)

lemma apply_expected:
  assumes "map_of (sg_units s) uid = Some u"
  shows "apply_or_observe now uid (su_state u) nxt s =
     (if is_valid_transition (su_state u) nxt
      then (Ok (u\<lparr>su_state := nxt, last_transition_at := now\<rparr>),
            s\<lparr>sg_units := AList.update uid (u\<lparr>su_state := nxt, last_transition_at := now\<rparr>) (sg_units s)\<rparr>)
      else (Err (InvalidStateTransition (su_state u) nxt), s))"
  using assms by (simp add: apply_or_observe_def legal_iff_valid set_unit_state_def Let_def)

text \<open>The states a loop goes through, without the graph: the target, or the transition it refuses.\<close>

fun settle :: "(unit_state \<Rightarrow> fsm_decision) \<Rightarrow> nat \<Rightarrow> unit_state \<Rightarrow> (unit_state \<times> unit_state + unit_state) option" where
  "settle decide 0 st = None"
| "settle decide (Suc n) st =
     (case decide st of
        Done \<Rightarrow> Some (Inr st)
      | Refuse tgt \<Rightarrow> Some (Inl (st, tgt))
      | Next nxt \<Rightarrow> if is_valid_transition st nxt then settle decide n nxt else Some (Inl (st, nxt)))"

definition at_state :: "unit_id \<Rightarrow> unit_state \<Rightarrow> instant \<Rightarrow> service_unit \<Rightarrow> sgr_state \<Rightarrow> sgr_state" where
  "at_state uid st t u s =
     s\<lparr>sg_units := AList.update uid (u\<lparr>su_state := st, last_transition_at := t\<rparr>) (sg_units s)\<rparr>"

lemma update_same: "map_of al k = Some v \<Longrightarrow> AList.update k v al = al"
  by (induction al) auto

lemma update_update: "AList.update k v (AList.update k w al) = AList.update k v al"
  by (induction al) auto

lemma at_state_lookup [simp]:
  "map_of (sg_units (at_state uid st t u s)) i =
     (if i = uid then Some (u\<lparr>su_state := st, last_transition_at := t\<rparr>) else map_of (sg_units s) i)"
  by (simp add: at_state_def AList.update_conv')

text \<open>What a loop returns once its path is known; only the time of the last transition is left open.\<close>

fun drive_result ::
    "unit_id \<Rightarrow> service_unit \<Rightarrow> sgr_state \<Rightarrow> (unit_state \<times> unit_state + unit_state) \<Rightarrow> instant \<Rightarrow>
     (sgr_error, service_unit) result \<times> sgr_state" where
  "drive_result uid u s (Inr st) t = (Ok (u\<lparr>su_state := st, last_transition_at := t\<rparr>), at_state uid st t u s)"
| "drive_result uid u s (Inl (st, tgt)) t = (Err (InvalidStateTransition st tgt), at_state uid st t u s)"

lemma at_state_again:
  "at_state uid st t (u\<lparr>su_state := st', last_transition_at := t'\<rparr>) (at_state uid st' t' u s) = at_state uid st t u s"
  by (simp add: at_state_def update_update)

lemma drive_result_again:
  "drive_result uid (u\<lparr>su_state := st', last_transition_at := t'\<rparr>) (at_state uid st' t' u s) v t =
     drive_result uid u s v t"
proof (cases v)
  case (Inl p)
  then show ?thesis by (cases p) (simp add: at_state_again)
qed (simp add: at_state_again)

lemma drive_loop_settles:
  assumes "map_of (sg_units s) uid = Some u" and "settle decide n (su_state u) = Some v"
  shows "\<exists>t. drive_loop decide clock uid n s = Some (drive_result uid u s v t)"
  using assms
proof (induction n arbitrary: s u)
  case (Suc n)
  have same: "at_state uid (su_state u) (last_transition_at u) u s = s"
    using update_same [OF Suc.prems(1)] by (simp add: at_state_def)
  show ?case
  proof (cases "decide (su_state u)")
    case (Next nxt)
    show ?thesis
    proof (cases "is_valid_transition (su_state u) nxt")
      case True
      let ?u' = "u\<lparr>su_state := nxt, last_transition_at := clock n\<rparr>"
      have "drive_loop decide clock uid (Suc n) s = drive_loop decide clock uid n (at_state uid nxt (clock n) u s)"
        using Suc.prems(1) Next True by (simp add: apply_expected at_state_def)
      then show ?thesis
        using Suc.IH [of "at_state uid nxt (clock n) u s" ?u'] Suc.prems(2) Next True
        by (simp add: drive_result_again)
    next
      case False
      then show ?thesis using Suc.prems Next same
        by (auto simp: apply_expected intro!: exI [of _ "last_transition_at u"])
    qed
  qed (use Suc.prems same in \<open>auto intro!: exI [of _ "last_transition_at u"]\<close>)
qed simp

text \<open>
  The unit has reached \<open>st\<close> and nothing else of the graph has changed; the call returns the unit, or
  the failure of the emission that follows.
\<close>

definition arrived ::
    "unit_id \<Rightarrow> unit_state \<Rightarrow> sgr_state \<Rightarrow> (sgr_error, service_unit) result \<times> sgr_state \<Rightarrow> bool" where
  "arrived uid st s r \<longleftrightarrow>
     (\<exists>u t l. map_of (sg_units s) uid = Some u \<and> snd r = (at_state uid st t u s)\<lparr>sg_log := l\<rparr> \<and>
        (fst r = Ok (u\<lparr>su_state := st, last_transition_at := t\<rparr>) \<or> (\<exists>w. fst r = Err (SgrEvidenceEmitFailed w))))"

lemma sgr_emit_result: "fst (sgr_emit em rt p prev s) = Err e \<Longrightarrow> \<exists>w. e = SgrEvidenceEmitFailed w"
  by (auto simp: sgr_emit_def split: prod.splits sum.splits)

lemma emit_when_result:
  assumes "\<And>em s e. fst (f em s) = Err e \<Longrightarrow> \<exists>w. e = SgrEvidenceEmitFailed w" and "fst (emit_when o_em f s) = Err e"
  shows "\<exists>w. e = SgrEvidenceEmitFailed w"
proof (cases o_em)
  case (Some em)
  then show ?thesis
    using assms(1) [of em s e] assms(2)
    by (cases "f em s"; cases "fst (f em s)") (auto simp: emit_when_def sgr_then_def)
qed (use assms(2) in \<open>simp add: emit_when_def\<close>)

lemma arrive_arrived:
  assumes u: "map_of (sg_units s) uid = Some u"
    and f: "f = emit_unit_started \<or> f = emit_unit_stopped \<or> f = (\<lambda>e u. emit_unit_failed e u why)"
  shows "arrived uid st s (arrive em f already (drive_result uid u s (Inr st) t))"
proof (cases already)
  case True
  then show ?thesis
    using u by (auto simp: arrived_def arrive_def intro!: exI [of _ t] exI [of _ "sg_log s"]) (simp add: at_state_def)
next
  case False
  let ?u = "u\<lparr>su_state := st, last_transition_at := t\<rparr>" and ?s = "at_state uid st t u s"
  obtain q s' where q: "emit_when em (\<lambda>e. f e ?u) ?s = (q, s')"
    by (cases "emit_when em (\<lambda>e. f e ?u) ?s")
  have "only_log ?s (snd (f e ?u ?s))" for e
    using f by (auto intro: emissions_only_log)
  then have "only_log ?s s'"
    using emit_when_only_log [of ?s "\<lambda>e. f e ?u" em] q by simp
  moreover have "\<exists>w. x = SgrEvidenceEmitFailed w" if "fst (f e ?u s0) = Err x" for e x s0
    using f that by (auto simp: emission_defs dest: sgr_emit_result)
  then have "\<exists>w. e = SgrEvidenceEmitFailed w" if "q = Err e" for e
    using emit_when_result [of "\<lambda>e. f e ?u" em ?s e] that q by simp
  ultimately show ?thesis
    using u False q by (cases q) (auto simp: arrived_def arrive_def sgr_then_def only_log_def)
qed

text \<open>The paths of the four loops, from each state.\<close>

lemma settle_running:
  "settle (running_decision p) FSM_FUEL st =
     Some (if st \<in> {UnitRunning, UnitDraft, UnitStopped, UnitQueued, UnitStarting} \<or> st = UnitFailed \<and> p = RetryFailed
           then Inr UnitRunning else Inl (st, UnitRunning))"
  by (cases st; cases p) (simp_all add: FSM_FUEL_def eval_nat_numeral is_valid_transition_def)

lemma settle_stop:
  "settle stop_decision FSM_FUEL st =
     Some (if st \<in> {UnitStopped, UnitRunning, UnitStopping, UnitHealthy, UnitDegraded, UnitUnhealthy}
           then Inr UnitStopped else Inl (st, UnitStopped))"
  by (cases st) (simp_all add: FSM_FUEL_def eval_nat_numeral is_valid_transition_def)

lemma settle_failed:
  "settle failed_decision FSM_FUEL st =
     Some (if st \<in> {UnitStopped, UnitRetired} then Inl (st, UnitFailed)
           else if st = UnitDraft then Inl (st, UnitStarting) else Inr UnitFailed)"
  by (cases st) (simp_all add: FSM_FUEL_def eval_nat_numeral is_valid_transition_def)

lemma drive_refused:
  assumes "map_of (sg_units s) uid = Some u"
    and "decide (su_state u) = Refuse tgt \<or> decide (su_state u) = Next tgt \<and> \<not> is_valid_transition (su_state u) tgt"
  shows "drive_loop decide clock uid FSM_FUEL s = Some (Err (InvalidStateTransition (su_state u) tgt), s)"
proof -
  obtain n where n: "FSM_FUEL = Suc n" by (auto simp: FSM_FUEL_def eval_nat_numeral)
  show ?thesis unfolding n using assms by (auto simp: apply_expected)
qed

lemma drive_to_running_cases:
  assumes "map_of (sg_units s) uid = Some u"
  shows "\<exists>t. drive_to_running clock p uid s = Some
     (if su_state u \<in> {UnitRunning, UnitDraft, UnitStopped, UnitQueued, UnitStarting} \<or>
         su_state u = UnitFailed \<and> p = RetryFailed
      then drive_result uid u s (Inr UnitRunning) t
      else (Err (InvalidStateTransition (su_state u) UnitRunning), s))"
proof (cases "su_state u \<in> {UnitRunning, UnitDraft, UnitStopped, UnitQueued, UnitStarting} \<or>
         su_state u = UnitFailed \<and> p = RetryFailed")
  case True
  then have "settle (running_decision p) FSM_FUEL (su_state u) = Some (Inr UnitRunning)"
    using settle_running [of p "su_state u"] by (simp only: if_True)
  from drive_loop_settles [OF assms this] show ?thesis
    using True by (simp only: drive_to_running_def if_True)
next
  case False
  then have "running_decision p (su_state u) = Refuse UnitRunning" by (cases "su_state u"; cases p) auto
  then show ?thesis
    using False drive_refused [OF assms] by (simp only: drive_to_running_def if_False simp_thms)
qed

lemma start_cases:
  assumes u: "map_of (sg_units s) uid = Some u"
  shows "\<exists>r. fsm_start em clock uid s = Some r \<and>
     (if su_state u \<in> {UnitRunning, UnitDraft, UnitStopped, UnitQueued, UnitStarting}
      then arrived uid UnitRunning s r
      else r = (Err (InvalidStateTransition (su_state u) UnitRunning), s))"
proof -
  obtain t where t: "drive_to_running clock RejectFailed uid s = Some
     (if su_state u \<in> {UnitRunning, UnitDraft, UnitStopped, UnitQueued, UnitStarting}
      then drive_result uid u s (Inr UnitRunning) t
      else (Err (InvalidStateTransition (su_state u) UnitRunning), s))"
    using drive_to_running_cases [OF u, of clock RejectFailed] by auto
  show ?thesis
    using arrive_arrived [OF u, of emit_unit_started] u t
    by (auto simp: fsm_start_def arrive_def split: if_splits simp del: drive_result.simps)
qed

lemma stop_cases:
  assumes u: "map_of (sg_units s) uid = Some u"
  shows "\<exists>r. fsm_stop em clock uid s = Some r \<and>
     (if su_state u \<in> {UnitStopped, UnitRunning, UnitStopping, UnitHealthy, UnitDegraded, UnitUnhealthy}
      then arrived uid UnitStopped s r
      else r = (Err (InvalidStateTransition (su_state u) UnitStopped), s))"
proof (cases "su_state u \<in> {UnitStopped, UnitRunning, UnitStopping, UnitHealthy, UnitDegraded, UnitUnhealthy}")
  case True
  then have "settle stop_decision FSM_FUEL (su_state u) = Some (Inr UnitStopped)"
    using settle_stop [of "su_state u"] by (simp only: if_True)
  then obtain t where "drive_loop stop_decision clock uid FSM_FUEL s = Some (drive_result uid u s (Inr UnitStopped) t)"
    using drive_loop_settles [OF u] by blast
  then show ?thesis
    using True u arrive_arrived [OF u, of emit_unit_stopped]
    by (simp add: fsm_stop_def del: drive_result.simps)
next
  case False
  then have "stop_decision (su_state u) = Refuse UnitStopped" by (cases "su_state u") auto
  then show ?thesis
    using False u drive_refused [OF u, of stop_decision] by (simp add: fsm_stop_def arrive_def)
qed

lemma mark_failed_cases:
  assumes u: "map_of (sg_units s) uid = Some u"
  shows "\<exists>r. fsm_mark_failed em clock uid why s = Some r \<and>
     (if su_state u \<in> {UnitStopped, UnitRetired} then r = (Err (InvalidStateTransition (su_state u) UnitFailed), s)
      else if su_state u = UnitDraft then r = (Err (InvalidStateTransition UnitDraft UnitStarting), s)
      else arrived uid UnitFailed s r)"
proof (cases "su_state u \<in> {UnitStopped, UnitRetired, UnitDraft}")
  case True
  then have "failed_decision (su_state u) = Refuse UnitFailed \<or>
      su_state u = UnitDraft \<and> failed_decision (su_state u) = Next UnitStarting \<and> \<not> is_valid_transition (su_state u) UnitStarting"
    by (auto simp: is_valid_transition_def)
  then have "drive_loop failed_decision clock uid FSM_FUEL s =
      Some (Err (InvalidStateTransition (su_state u) (if su_state u = UnitDraft then UnitStarting else UnitFailed)), s)"
    using drive_refused [OF u, of failed_decision] by (auto split: if_splits)
  then show ?thesis using True u by (auto simp: fsm_mark_failed_def arrive_def)
next
  case False
  then have "settle failed_decision FSM_FUEL (su_state u) = Some (Inr UnitFailed)"
    using settle_failed [of "su_state u"] by simp
  then obtain t where "drive_loop failed_decision clock uid FSM_FUEL s = Some (drive_result uid u s (Inr UnitFailed) t)"
    using drive_loop_settles [OF u] by blast
  then show ?thesis
    using False u arrive_arrived [OF u, of "\<lambda>e u. emit_unit_failed e u why" why]
    by (simp add: fsm_mark_failed_def del: drive_result.simps)
qed

lemma restart_cases:
  assumes u: "map_of (sg_units s) uid = Some u"
  shows "\<exists>r. fsm_restart em clock uid s = Some r \<and>
     (if su_state u = UnitRetired then r = (Err (InvalidStateTransition UnitRetired UnitRunning), s)
      else arrived uid UnitRunning s r \<or> (\<exists>w. fst r = Err (SgrEvidenceEmitFailed w)) \<and> arrived uid UnitStopped s r)"
proof (cases "su_state u \<in> {UnitRunning, UnitHealthy, UnitDegraded, UnitUnhealthy, UnitStopping}")
  case True
  then obtain r0 s1 where st: "fsm_stop em clock uid s = Some (r0, s1)" and a: "arrived uid UnitStopped s (r0, s1)"
    using stop_cases [OF u, of em clock] by (auto split: if_splits)
  obtain t l where s1: "s1 = (at_state uid UnitStopped t u s)\<lparr>sg_log := l\<rparr>"
    and r0: "r0 = Ok (u\<lparr>su_state := UnitStopped, last_transition_at := t\<rparr>) \<or> (\<exists>w. r0 = Err (SgrEvidenceEmitFailed w))"
    using a u by (auto simp: arrived_def)
  let ?u1 = "u\<lparr>su_state := UnitStopped, last_transition_at := t\<rparr>"
  have u1: "map_of (sg_units s1) uid = Some ?u1" by (simp add: s1)
  obtain t' where d: "drive_to_running clock RejectFailed uid s1 = Some (drive_result uid ?u1 s1 (Inr UnitRunning) t')"
    using drive_to_running_cases [OF u1, of clock RejectFailed] by auto
  have "at_state uid UnitRunning t' ?u1 s1 = (at_state uid UnitRunning t' u s)\<lparr>sg_log := l\<rparr>"
    by (simp add: s1 at_state_def update_update)
  then have "arrived uid UnitRunning s (drive_result uid ?u1 s1 (Inr UnitRunning) t')"
    using u by (auto simp: arrived_def)
  moreover have "fsm_restart em clock uid s =
      (case r0 of Inl e \<Rightarrow> Some (Err e, s1) | Inr _ \<Rightarrow> drive_to_running clock RejectFailed uid s1)"
    using True u st by (auto simp: fsm_restart_def split: sum.splits)
  ultimately show ?thesis
    using True a r0 d by (cases r0) (auto simp del: drive_result.simps split_paired_Ex)
next
  case False
  have arr: "arrived uid UnitRunning s (drive_result uid u s (Inr UnitRunning) t)" for t
    using arrive_arrived [OF u, of emit_unit_started "[]" UnitRunning None True t] by (simp add: arrive_def)
  show ?thesis
    using False u arr drive_to_running_cases [OF u, of clock RetryFailed] drive_to_running_cases [OF u, of clock RejectFailed]
    by (cases "su_state u") (auto simp: fsm_restart_def simp del: drive_result.simps split_paired_Ex)
qed

text \<open>
  C29: Called on a registered unit with no other driver at work, \<open>start\<close>, \<open>stop\<close>, \<open>mark_failed\<close> and \<open>restart\<close> always
  return within their fuel, and the outcome is decided by the state the unit is in: the unit arrives
  at RUNNING, STOPPED, FAILED or RUNNING with nothing else of the graph changed, or the call is refused and
  changes nothing. Only a failed emission can turn an arrival into an error. A restart that fails to emit
  leaves the unit stopped.
\<close>

theorem drivers_decide_by_state:
  assumes u: "map_of (sg_units s) uid = Some u"
  shows "(\<exists>r. fsm_start em clock uid s = Some r \<and>
           (if su_state u \<in> {UnitRunning, UnitDraft, UnitStopped, UnitQueued, UnitStarting}
            then arrived uid UnitRunning s r
            else r = (Err (InvalidStateTransition (su_state u) UnitRunning), s))) \<and>
         (\<exists>r. fsm_stop em clock uid s = Some r \<and>
           (if su_state u \<in> {UnitStopped, UnitRunning, UnitStopping, UnitHealthy, UnitDegraded, UnitUnhealthy}
            then arrived uid UnitStopped s r
            else r = (Err (InvalidStateTransition (su_state u) UnitStopped), s))) \<and>
         (\<exists>r. fsm_mark_failed em clock uid why s = Some r \<and>
           (if su_state u \<in> {UnitStopped, UnitRetired} then r = (Err (InvalidStateTransition (su_state u) UnitFailed), s)
            else if su_state u = UnitDraft then r = (Err (InvalidStateTransition UnitDraft UnitStarting), s)
            else arrived uid UnitFailed s r)) \<and>
         (\<exists>r. fsm_restart em clock uid s = Some r \<and>
           (if su_state u = UnitRetired then r = (Err (InvalidStateTransition UnitRetired UnitRunning), s)
            else arrived uid UnitRunning s r \<or> (\<exists>w. fst r = Err (SgrEvidenceEmitFailed w)) \<and> arrived uid UnitStopped s r))"
  using start_cases [OF u] stop_cases [OF u] mark_failed_cases [OF u] restart_cases [OF u] by blast

theorem drivers_decide_by_state_witness:
  "(\<exists>r. fsm_start (None :: (unit, unit) sgr_emitter option) (\<lambda>n. 9 - int n) ''unit:v:a'' sample_graph = Some r \<and> arrived ''unit:v:a'' UnitRunning sample_graph r) \<and>
   (\<exists>r. fsm_stop (None :: (unit, unit) sgr_emitter option) (\<lambda>n. 9 - int n) ''unit:v:a'' sample_graph = Some r \<and>
      r = (Err (InvalidStateTransition UnitQueued UnitStopped), sample_graph))"
proof -
  have "map_of (sg_units sample_graph) ''unit:v:a'' = Some (new_service_unit 0 (sample_manifest ''unit:v:a'' []))"
    by (simp add: sample_graph_units)
  from drivers_decide_by_state [OF this, of "None :: (unit, unit) sgr_emitter option" "\<lambda>n. 9 - int n" "''w''"] show ?thesis
    by (auto simp: new_service_unit_def simp del: split_paired_Ex)
qed

section \<open>Drivers among other callers\<close>

text \<open>
  A loop with other callers at work: any calls on the graph may run before an iteration reads the unit,
  and between the reading and the application of the decision. The list collects the changes that the
  loop itself makes, each as the graph before and after it.
\<close>

inductive interleaved ::
    "('sk, 'vk) graph_env \<Rightarrow> (unit_state \<Rightarrow> fsm_decision) \<Rightarrow> unit_id \<Rightarrow> sgr_state \<Rightarrow> (sgr_state \<times> sgr_state) list \<Rightarrow>
     (sgr_error, service_unit) result \<Rightarrow> sgr_state \<Rightarrow> bool"
  for env :: "('sk, 'vk) graph_env" and decide :: "unit_state \<Rightarrow> fsm_decision" and uid :: unit_id where
  il_missing: "graph_reaches env s s1 \<Longrightarrow> get_unit uid s1 = (Err e, s1) \<Longrightarrow> interleaved env decide uid s [] (Err e) s1"
| il_done: "graph_reaches env s s1 \<Longrightarrow> get_unit uid s1 = (Ok u, s1) \<Longrightarrow> decide (su_state u) = Done \<Longrightarrow>
    interleaved env decide uid s [] (Ok u) s1"
| il_refuse: "graph_reaches env s s1 \<Longrightarrow> get_unit uid s1 = (Ok u, s1) \<Longrightarrow> decide (su_state u) = Refuse tgt \<Longrightarrow>
    interleaved env decide uid s [] (Err (InvalidStateTransition (su_state u) tgt)) s1"
| il_error: "graph_reaches env s s1 \<Longrightarrow> get_unit uid s1 = (Ok u, s1) \<Longrightarrow> decide (su_state u) = Next nxt \<Longrightarrow>
    graph_reaches env s1 s2 \<Longrightarrow> apply_or_observe now uid (su_state u) nxt s2 = (Err e, s3) \<Longrightarrow>
    interleaved env decide uid s [(s2, s3)] (Err e) s3"
| il_next: "graph_reaches env s s1 \<Longrightarrow> get_unit uid s1 = (Ok u, s1) \<Longrightarrow> decide (su_state u) = Next nxt \<Longrightarrow>
    graph_reaches env s1 s2 \<Longrightarrow> apply_or_observe now uid (su_state u) nxt s2 = (Ok v, s3) \<Longrightarrow>
    interleaved env decide uid s3 cs r s' \<Longrightarrow> interleaved env decide uid s ((s2, s3) # cs) r s'"

text \<open>
  The four loops, with what they are for: the state each leads to, and the states from which it is refused.
\<close>

datatype driver = StartDriver | RetryDriver | StopDriver | FailDriver

fun driver_decision :: "driver \<Rightarrow> unit_state \<Rightarrow> fsm_decision" where
  "driver_decision StartDriver = running_decision RejectFailed"
| "driver_decision RetryDriver = running_decision RetryFailed"
| "driver_decision StopDriver = stop_decision"
| "driver_decision FailDriver = failed_decision"

fun driver_target :: "driver \<Rightarrow> unit_state" where
  "driver_target StartDriver = UnitRunning"
| "driver_target RetryDriver = UnitRunning"
| "driver_target StopDriver = UnitStopped"
| "driver_target FailDriver = UnitFailed"

fun driver_refuses :: "driver \<Rightarrow> unit_state list" where
  "driver_refuses StartDriver = [UnitHealthy, UnitDegraded, UnitUnhealthy, UnitStopping, UnitFailed, UnitRetired]"
| "driver_refuses RetryDriver = [UnitHealthy, UnitDegraded, UnitUnhealthy, UnitStopping, UnitRetired]"
| "driver_refuses StopDriver = [UnitQueued, UnitStarting, UnitFailed, UnitRetired]"
| "driver_refuses FailDriver = [UnitStopped, UnitRetired]"

lemma driver_decides:
  "driver_decision d st = Done \<Longrightarrow> st = driver_target d"
  "driver_decision d st = Refuse tgt \<Longrightarrow> st \<noteq> UnitDraft \<Longrightarrow> tgt = driver_target d \<and> st \<in> set (driver_refuses d)"
  "driver_decision d st = Next nxt \<Longrightarrow> st \<noteq> UnitDraft \<Longrightarrow> is_valid_transition st nxt"
  by (cases d; cases st; auto simp: is_valid_transition_def)+

text \<open>
  What a loop may do to the graph: nothing, or move its unit along a row of the specification's table, from the
  state in which the graph holds the unit at that moment.
\<close>

definition legal_change :: "unit_id \<Rightarrow> sgr_state \<Rightarrow> sgr_state \<Rightarrow> bool" where
  "legal_change uid t t' \<longleftrightarrow> t' = t \<or>
     (\<exists>v st now. map_of (sg_units t) uid = Some v \<and> (su_state v, st) \<in> set allowed_unit_transitions \<and>
        t' = at_state uid st now v t)"

lemma apply_or_observe_change:
  assumes "apply_or_observe now uid frm nxt s = (r, s')"
  shows "legal_change uid s s'" and "graph_step env s s'"
proof -
  have "s' = s \<or> (\<exists>r1. set_unit_state now uid nxt s = (r1, s'))"
  proof (cases "is_legal_transition frm nxt")
    case True
    obtain r1 s1 where "set_unit_state now uid nxt s = (r1, s1)" by (cases "set_unit_state now uid nxt s")
    then show ?thesis
      using assms True
      by (auto simp: apply_or_observe_def get_unit_def split: sum.splits sgr_error.splits if_splits option.splits)
  qed (use assms in \<open>simp add: apply_or_observe_def\<close>)
  then show "graph_step env s s'" by (auto intro: graph_step.step_set graph_step.step_same)
  show "legal_change uid s s'"
    using \<open>s' = s \<or> (\<exists>r1. set_unit_state now uid nxt s = (r1, s'))\<close>
    by (auto simp: legal_change_def valid_iff_allowed [symmetric] at_state_def elim!: set_unit_state_cases)
qed

lemma apply_or_observe_error:
  assumes "apply_or_observe now uid frm nxt s = (Err e, s')" and "is_valid_transition frm nxt"
  shows "e = UnitNotFound uid \<and> map_of (sg_units s) uid = None"
proof (cases "map_of (sg_units s) uid")
  case (Some u)
  then show ?thesis
    using assms by (auto simp: apply_or_observe_def legal_iff_valid set_unit_state_def Let_def get_unit_def split: if_splits)
qed (use assms in \<open>auto simp: apply_or_observe_def legal_iff_valid set_unit_state_def\<close>)

lemma get_unit_Ok: "get_unit uid s = (Ok u, s') \<Longrightarrow> map_of (sg_units s) uid = Some u"
  by (auto simp: get_unit_def split: option.splits)

lemma interleaved_outcome:
  assumes "interleaved env (driver_decision d) uid s cs r s'" and "graph_reaches env empty_graph s"
    and "map_of (sg_units s) uid = Some u0"
  shows "(\<forall>(t, t') \<in> set cs. legal_change uid t t') \<and>
     (\<exists>u. map_of (sg_units s') uid = Some u \<and> su_manifest u = su_manifest u0 \<and>
       (case r of
          Inr v \<Rightarrow> v = u \<and> su_state u = driver_target d
        | Inl e \<Rightarrow> e = InvalidStateTransition (su_state u) (driver_target d) \<and> su_state u \<in> set (driver_refuses d)))"
  using assms
proof (induction arbitrary: u0 rule: interleaved.induct)
  case (il_missing s s1 e)
  then show ?case using reaches_unit_follows [OF il_missing.hyps(1)] by (fastforce simp: get_unit_def)
next
  case (il_done s s1 u)
  have "map_of (sg_units s1) uid = Some u" using il_done.hyps(2) by (rule get_unit_Ok)
  moreover have "su_manifest u = su_manifest u0"
    using reaches_unit_follows [OF il_done.hyps(1) il_done.prems(2)] calculation by (auto simp: unit_follows_def)
  ultimately show ?case using driver_decides(1) [OF il_done.hyps(3)] by simp
next
  case (il_refuse s s1 u tgt)
  have u: "map_of (sg_units s1) uid = Some u" using il_refuse.hyps(2) by (rule get_unit_Ok)
  moreover have "su_manifest u = su_manifest u0"
    using reaches_unit_follows [OF il_refuse.hyps(1) il_refuse.prems(2)] u by (auto simp: unit_follows_def)
  moreover have "su_state u \<noteq> UnitDraft"
    using reached_not_draft [OF rtranclp_trans [OF il_refuse.prems(1) il_refuse.hyps(1)] u] .
  ultimately show ?case using driver_decides(2) [OF il_refuse.hyps(3)] by simp
next
  case (il_error s s1 u nxt s2 now e s3)
  have u: "map_of (sg_units s1) uid = Some u" using il_error.hyps(2) by (rule get_unit_Ok)
  have "map_of (sg_units s2) uid \<noteq> None"
    using reaches_unit_follows [OF rtranclp_trans [OF il_error.hyps(1,4)] il_error.prems(2)] by auto
  moreover have "su_state u \<noteq> UnitDraft"
    using reached_not_draft [OF rtranclp_trans [OF il_error.prems(1) il_error.hyps(1)] u] .
  ultimately show ?case
    using apply_or_observe_error [OF il_error.hyps(5)] driver_decides(3) [OF il_error.hyps(3)] by simp
next
  case (il_next s s1 u nxt s2 now v s3 cs r s')
  have "graph_reaches env s s3"
    using il_next.hyps(1,4) apply_or_observe_change(2) [OF il_next.hyps(5)]
    by (meson rtranclp.rtrancl_into_rtrancl rtranclp_trans)
  moreover from reaches_unit_follows [OF this il_next.prems(2)] obtain u3
    where "map_of (sg_units s3) uid = Some u3" "su_manifest u3 = su_manifest u0" by (auto simp: unit_follows_def)
  moreover have "graph_reaches env empty_graph s3" using il_next.prems(1) calculation(1) by simp
  ultimately show ?case
    using il_next.IH [of u3] apply_or_observe_change(1) [OF il_next.hyps(5)] by auto
qed

text \<open>
  C30: However the calls of other callers interleave with a \<open>start\<close>, \<open>stop\<close> or \<open>mark_failed\<close> loop or the retry of a
  failed unit, on a graph that was reached from the empty one: every change the loop itself makes moves
  its unit, and nothing else, along a row of the specification's table of allowed transitions, from the state in which the graph
  holds the unit when the change is applied, also when this is not the state the loop has read. A result
  \<open>Ok\<close> is the unit as the graph holds it at the end, in the state the loop is for; an error is a refusal
  that names the state of the unit at the end, one of those from which the loop is not meant to start: losing
  a race is never reported as an error, and the unit keeps its manifest.
\<close>

theorem drivers_tolerate_interference:
  assumes "interleaved env (driver_decision d) uid s cs r s'" and "graph_reaches env empty_graph s"
    and "map_of (sg_units s) uid = Some u0"
  shows "(\<forall>(t, t') \<in> set cs. t' = t \<or>
       (\<exists>v st now. map_of (sg_units t) uid = Some v \<and> (su_state v, st) \<in> set allowed_unit_transitions \<and>
          t' = t\<lparr>sg_units := AList.update uid (v\<lparr>su_state := st, last_transition_at := now\<rparr>) (sg_units t)\<rparr>)) \<and>
     (\<exists>u. map_of (sg_units s') uid = Some u \<and> su_manifest u = su_manifest u0 \<and>
       (case r of
          Inr v \<Rightarrow> v = u \<and> su_state u = driver_target d
        | Inl e \<Rightarrow> e = InvalidStateTransition (su_state u) (driver_target d) \<and> su_state u \<in> set (driver_refuses d)))"
  using interleaved_outcome [OF assms] unfolding legal_change_def at_state_def .

lemma at_state_step:
  assumes "map_of (sg_units s) uid = Some u" and "is_valid_transition (su_state u) st"
  shows "graph_step env s (at_state uid st t u s)"
proof (rule graph_step.step_set)
  show "set_unit_state t uid st s = (Ok (u\<lparr>su_state := st, last_transition_at := t\<rparr>), at_state uid st t u s)"
    using assms by (simp add: set_unit_state_def at_state_def Let_def)
qed

text \<open>
  One iteration that reads the unit in one state and applies its decision after another caller has moved it:
  the change is made when it is legal from where the unit is now, and otherwise the loop looks again.
\<close>

lemma raced_apply:
  assumes "map_of (sg_units s) uid = Some v" and "is_valid_transition frm nxt" and "su_state v \<noteq> frm"
  shows "apply_or_observe t uid frm nxt s =
     (if is_valid_transition (su_state v) nxt
      then (Ok (v\<lparr>su_state := nxt, last_transition_at := t\<rparr>), at_state uid nxt t v s) else (Ok v, s))"
  using assms by (simp add: apply_or_observe_def legal_iff_valid set_unit_state_def at_state_def Let_def)

abbreviation sample_a :: service_unit where
  "sample_a \<equiv> new_service_unit 0 (sample_manifest ''unit:v:a'' [])"

text \<open>Another caller starts the unit between the reading and the application of a \<open>start\<close>.\<close>

theorem drivers_tolerate_interference_witness:
  "\<exists>cs s' u. interleaved sample_graph_env (driver_decision StartDriver) ''unit:v:a'' sample_graph cs (Ok u) s' \<and> length cs = 2 \<and>
     map_of (sg_units s') ''unit:v:a'' = Some u \<and> su_state u = UnitRunning"
proof -
  let ?at = "\<lambda>st t. at_state ''unit:v:a'' st t sample_a sample_graph" and ?d = "driver_decision StartDriver"
  let ?il = "interleaved sample_graph_env ?d ''unit:v:a''"
  have u: "map_of (sg_units sample_graph) ''unit:v:a'' = Some sample_a" by (simp add: sample_graph_units)
  have q: "su_state sample_a = UnitQueued" by (simp add: new_service_unit_def)
  let ?u = "\<lambda>st t. sample_a\<lparr>su_state := st, last_transition_at := t\<rparr>"
  have il1: "?il (?at UnitRunning 4) [] (Ok (?u UnitRunning 4)) (?at UnitRunning 4)"
    by (rule il_done) simp_all
  have ap1: "apply_or_observe 4 ''unit:v:a'' (su_state (?u UnitStarting 3)) UnitRunning (?at UnitStarting 3) =
      (Ok (?u UnitRunning 4), ?at UnitRunning 4)"
    by (subst apply_expected) (simp_all add: is_valid_transition_def at_state_def update_update AList.update_conv')
  have il2: "?il (?at UnitStarting 3) [(?at UnitStarting 3, ?at UnitRunning 4)] (Ok (?u UnitRunning 4)) (?at UnitRunning 4)"
    by (rule il_next [OF rtranclp.rtrancl_refl _ _ rtranclp.rtrancl_refl ap1 il1]) simp_all
  have ap2: "apply_or_observe 9 ''unit:v:a'' (su_state sample_a) UnitStarting (?at UnitStarting 3) =
      (Ok (?u UnitStarting 3), ?at UnitStarting 3)"
    using q raced_apply [of "?at UnitStarting 3" "''unit:v:a''" "?u UnitStarting 3" UnitQueued UnitStarting 9]
    by (simp add: is_valid_transition_def)
  have re: "graph_reaches sample_graph_env sample_graph (?at UnitStarting 3)"
    using u q by (intro r_into_rtranclp at_state_step) (simp_all add: is_valid_transition_def)
  have "?il sample_graph [(?at UnitStarting 3, ?at UnitStarting 3), (?at UnitStarting 3, ?at UnitRunning 4)]
      (Ok (?u UnitRunning 4)) (?at UnitRunning 4)"
    by (rule il_next [OF rtranclp.rtrancl_refl _ _ re ap2 il2]) (simp_all add: u q)
  from this drivers_tolerate_interference [OF this sample_graph_reached u, unfolded sum.case] show ?thesis
    by (intro exI conjI) (assumption | simp)+
qed

section \<open>Departures\<close>

text \<open>
  \<open>start\<close> refuses a failed unit, but a \<open>start\<close> that read the unit while it was queued brings it to RUNNING
  although it has failed meanwhile: the change to STARTING is legal from FAILED too.
\<close>

lemma raced_start_revives_failed_unit:
  assumes u: "map_of (sg_units s) uid = Some u" and "su_state u = UnitQueued"
  shows "\<exists>failed s'. graph_reaches env s failed \<and> map_option su_state (map_of (sg_units failed) uid) = Some UnitFailed \<and>
     (\<exists>r. fsm_start em clock uid failed = Some (Err (InvalidStateTransition UnitFailed UnitRunning), r)) \<and>
     apply_or_observe t uid UnitQueued UnitStarting failed =
       (Ok (u\<lparr>su_state := UnitStarting, last_transition_at := t\<rparr>), s')"
proof -
  let ?s1 = "at_state uid UnitStarting 1 u s" and ?u1 = "u\<lparr>su_state := UnitStarting, last_transition_at := 1\<rparr>"
  let ?s2 = "at_state uid UnitFailed 2 ?u1 ?s1" and ?u2 = "?u1\<lparr>su_state := UnitFailed, last_transition_at := 2\<rparr>"
  have "graph_step env s ?s1" using assms by (intro at_state_step) (simp_all add: is_valid_transition_def)
  moreover have "graph_step env ?s1 ?s2" by (intro at_state_step) (simp_all add: is_valid_transition_def)
  ultimately have "graph_reaches env s ?s2" by (meson converse_rtranclp_into_rtranclp r_into_rtranclp)
  moreover have u2: "map_of (sg_units ?s2) uid = Some ?u2" by simp
  moreover have "\<exists>r. fsm_start em clock uid ?s2 = Some (Err (InvalidStateTransition UnitFailed UnitRunning), r)"
    using start_cases [OF u2, of em clock] by auto
  moreover have "apply_or_observe t uid UnitQueued UnitStarting ?s2 =
      (Ok (u\<lparr>su_state := UnitStarting, last_transition_at := t\<rparr>), at_state uid UnitStarting t ?u2 ?s2)"
    by (subst raced_apply [OF u2]) (simp_all add: is_valid_transition_def)
  ultimately show ?thesis by (intro exI [of _ ?s2] exI [of _ "at_state uid UnitStarting t ?u2 ?s2"]) simp
qed

text \<open>A restart of a unit that is failed, queued or stopped brings it to RUNNING and records nothing.\<close>

lemma restart_records_no_start:
  assumes u: "map_of (sg_units s) uid = Some u" and "su_state u \<in> {UnitFailed, UnitQueued, UnitStopped}"
  shows "\<exists>r s'. fsm_restart em clock uid s = Some (r, s') \<and> sg_log s' = sg_log s \<and> r \<noteq> Err e"
  using assms drive_to_running_cases [OF u, of clock RetryFailed] drive_to_running_cases [OF u, of clock RejectFailed]
  by (auto simp: fsm_restart_def at_state_def)

end
