(* ===== verification/Sgr_Recovery.thy ===== *)
theory Sgr_Recovery
  imports Sgr_Fsm
begin

text \<open>
  The recovery hook of the service graph, \<open>recovery_adapter.rs\<close>: stopping the units of the normal mode while
  the host is in recovery, and starting them again. The set of paused units is \<open>sg_paused\<close>; the loops
  drive one unit after the other, and a clock is given for each.
\<close>

section \<open>Operations\<close>

definition is_live_normal_unit :: "unit_state \<Rightarrow> bool" where
  "is_live_normal_unit st \<longleftrightarrow> st \<in> {UnitRunning, UnitHealthy, UnitDegraded, UnitUnhealthy}"

definition recovery_mode_allowed :: "service_unit \<Rightarrow> bool" where
  "recovery_mode_allowed u \<longleftrightarrow> um_unit_kind (su_manifest u) = KindRecoveryTask \<or>
     case_option False id (Option.bind (label_of u ''recovery_mode_allowed'') as_bool)"

definition should_pause_for_recovery :: "service_unit \<Rightarrow> bool" where
  "should_pause_for_recovery u \<longleftrightarrow> is_live_normal_unit (su_state u) \<and> \<not> recovery_mode_allowed u"

fun pause_loop ::
    "('sk, 'vk) sgr_emitter option \<Rightarrow> (nat \<Rightarrow> nat \<Rightarrow> instant) \<Rightarrow> service_unit list \<Rightarrow> unit_id list \<Rightarrow> sgr_state \<Rightarrow>
     ((sgr_error, unit_id list) result \<times> sgr_state) option" where
  "pause_loop em clock [] paused s = Some (Ok paused, s)"
| "pause_loop em clock (u # us) paused s =
     (if should_pause_for_recovery u
      then (case fsm_stop em (clock (length us)) (su_unit_id u) s of
              None \<Rightarrow> None
            | Some (Inl e, s') \<Rightarrow> Some (Err e, s')
            | Some (Inr stopped, s') \<Rightarrow>
                pause_loop em clock us
                  (if su_state stopped = UnitStopped then paused @ [su_unit_id u] else paused) s')
      else pause_loop em clock us paused s)"

definition pause_normal_units ::
    "('sk, 'vk) sgr_emitter option \<Rightarrow> (nat \<Rightarrow> nat \<Rightarrow> instant) \<Rightarrow> sgr_state \<Rightarrow>
     ((sgr_error, unit_id list) result \<times> sgr_state) option" where
  "pause_normal_units em clock s =
     (case list_units s of
        (Inl e, s1) \<Rightarrow> Some (Err e, s1)
      | (Inr us, s1) \<Rightarrow>
          (case pause_loop em clock us [] s1 of
             None \<Rightarrow> None
           | Some (Inl e, s2) \<Rightarrow> Some (Err e, s2)
           | Some (Inr paused, s2) \<Rightarrow> Some (Ok paused, s2\<lparr>sg_paused := fold List.insert paused (sg_paused s2)\<rparr>)))"

fun resume_loop ::
    "('sk, 'vk) sgr_emitter option \<Rightarrow> (nat \<Rightarrow> nat \<Rightarrow> instant) \<Rightarrow> unit_id list \<Rightarrow> unit_id list \<Rightarrow> sgr_state \<Rightarrow>
     ((sgr_error, unit_id list) result \<times> sgr_state) option" where
  "resume_loop em clock [] resumed s = Some (Ok resumed, s)"
| "resume_loop em clock (i # is) resumed s =
     (case get_unit i s of
        (Inl e, s1) \<Rightarrow> Some (Err e, s1)
      | (Inr u, s1) \<Rightarrow>
          if su_state u = UnitStopped
          then (case fsm_start em (clock (length is)) i s1 of
                  None \<Rightarrow> None
                | Some (Inl e, s2) \<Rightarrow> Some (Err e, s2)
                | Some (Inr running, s2) \<Rightarrow>
                    resume_loop em clock is (if su_state running = UnitRunning then resumed @ [i] else resumed) s2)
          else resume_loop em clock is resumed s1)"

definition resume_normal_units ::
    "('sk, 'vk) sgr_emitter option \<Rightarrow> (nat \<Rightarrow> nat \<Rightarrow> instant) \<Rightarrow> sgr_state \<Rightarrow>
     ((sgr_error, unit_id list) result \<times> sgr_state) option" where
  "resume_normal_units em clock s =
     (let paused = sg_paused s in
      case resume_loop em clock paused [] s of
        None \<Rightarrow> None
      | Some (Inl e, s1) \<Rightarrow> Some (Err e, s1)
      | Some (Inr resumed, s1) \<Rightarrow> Some (Ok resumed, s1\<lparr>sg_paused := fold removeAll paused (sg_paused s1)\<rparr>))"

definition paused_units :: "sgr_state \<Rightarrow> unit_id list" where
  "paused_units s = sg_paused s"

section \<open>What the loops do to the units\<close>

text \<open>The units of a set are at a state, with nothing else of them changed, and all others are as they were.\<close>

definition moved :: "unit_id set \<Rightarrow> unit_state \<Rightarrow> sgr_state \<Rightarrow> sgr_state \<Rightarrow> bool" where
  "moved W st s s' \<longleftrightarrow> sg_dependencies s' = sg_dependencies s \<and> sg_adapters s' = sg_adapters s \<and>
     (\<forall>i \<in> W. \<exists>u t. map_of (sg_units s) i = Some u \<and>
        map_of (sg_units s') i = Some (u\<lparr>su_state := st, last_transition_at := t\<rparr>)) \<and>
     (\<forall>i. i \<notin> W \<longrightarrow> map_of (sg_units s') i = map_of (sg_units s) i)"

lemma moved_none: "moved {} st s s"
  by (simp add: moved_def)

lemma movedD:
  assumes "moved W st s s'"
  shows "i \<in> W \<Longrightarrow> \<exists>u t. map_of (sg_units s) i = Some u \<and>
           map_of (sg_units s') i = Some (u\<lparr>su_state := st, last_transition_at := t\<rparr>)"
    and "i \<notin> W \<Longrightarrow> map_of (sg_units s') i = map_of (sg_units s) i"
    and "sg_dependencies s' = sg_dependencies s" and "sg_adapters s' = sg_adapters s"
  using assms unfolding moved_def by blast+

lemma moved_more:
  assumes 1: "moved {i} st s s1" and 2: "moved W st s1 s2" and "i \<notin> W"
  shows "moved (insert i W) st s s2"
proof -
  have "\<exists>u t. map_of (sg_units s) k = Some u \<and> map_of (sg_units s2) k = Some (u\<lparr>su_state := st, last_transition_at := t\<rparr>)"
    if "k \<in> insert i W" for k
  proof (cases "k = i")
    case True
    then show ?thesis using movedD(1) [OF 1, of i] movedD(2) [OF 2, of i] assms(3) by simp
  next
    case False
    then show ?thesis using movedD(2) [OF 1, of k] movedD(1) [OF 2, of k] that by simp
  qed
  moreover have "map_of (sg_units s2) k = map_of (sg_units s) k" if "k \<notin> insert i W" for k
    using that movedD(2) [OF 1, of k] movedD(2) [OF 2, of k] by simp
  ultimately show ?thesis using movedD(3,4) [OF 1] movedD(3,4) [OF 2] unfolding moved_def by simp
qed

lemma moved_back:
  assumes 1: "moved W st s s1" and 2: "moved W st' s1 s2"
  shows "moved W st' s s2"
proof -
  have "\<exists>u t. map_of (sg_units s) k = Some u \<and> map_of (sg_units s2) k = Some (u\<lparr>su_state := st', last_transition_at := t\<rparr>)"
    if "k \<in> W" for k
    using movedD(1) [OF 1 that] movedD(1) [OF 2 that] by auto
  moreover have "map_of (sg_units s2) k = map_of (sg_units s) k" if "k \<notin> W" for k
    using that movedD(2) [OF 1, of k] movedD(2) [OF 2, of k] by simp
  ultimately show ?thesis using movedD(3,4) [OF 1] movedD(3,4) [OF 2] unfolding moved_def by simp
qed

lemma arrived_moved:
  assumes "arrived i st s (r, s')"
  shows "moved {i} st s s'" and "sg_paused s' = sg_paused s"
    and "(\<exists>u. r = Ok u \<and> su_state u = st) \<or> (\<exists>w. r = Err (SgrEvidenceEmitFailed w))"
proof -
  obtain u t l where u: "map_of (sg_units s) i = Some u" and s': "s' = (at_state i st t u s)\<lparr>sg_log := l\<rparr>"
    and r: "r = Ok (u\<lparr>su_state := st, last_transition_at := t\<rparr>) \<or> (\<exists>w. r = Err (SgrEvidenceEmitFailed w))"
    using assms by (auto simp: arrived_def)
  have "sg_dependencies s' = sg_dependencies s" "sg_adapters s' = sg_adapters s" "sg_paused s' = sg_paused s"
    by (simp_all add: s' at_state_def)
  moreover have "map_of (sg_units s') k = (if k = i then Some (u\<lparr>su_state := st, last_transition_at := t\<rparr>) else map_of (sg_units s) k)" for k
    by (simp add: s')
  ultimately show "moved {i} st s s'" "sg_paused s' = sg_paused s" using u by (auto simp: moved_def)
  show "(\<exists>u. r = Ok u \<and> su_state u = st) \<or> (\<exists>w. r = Err (SgrEvidenceEmitFailed w))" using r by auto
qed

text \<open>How a loop ends: it has moved all of its units, or an emission failed after some of them.\<close>

definition loop_ends :: "unit_state \<Rightarrow> unit_id list \<Rightarrow> unit_id list \<Rightarrow> sgr_state \<Rightarrow>
    ((sgr_error, unit_id list) result \<times> sgr_state) option \<Rightarrow> bool" where
  "loop_ends st is acc s res \<longleftrightarrow> (\<exists>r s'. res = Some (r, s') \<and> sg_paused s' = sg_paused s \<and>
     (case r of
        Inr acc' \<Rightarrow> acc' = acc @ is \<and> moved (set is) st s s'
      | Inl e \<Rightarrow> (\<exists>w W. e = SgrEvidenceEmitFailed w \<and> W \<subseteq> set is \<and> moved W st s s')))"

lemma loop_ends_more:
  assumes a: "arrived i st s (r, s1)" and i: "i \<notin> set is"
    and rest: "\<And>u. r = Ok u \<Longrightarrow> su_state u = st \<Longrightarrow> loop_ends st is (acc @ [i]) s1 (res u)"
  shows "loop_ends st (i # is) acc s (case r of Inl e \<Rightarrow> Some (Err e, s1) | Inr u \<Rightarrow> res u)"
proof (cases r)
  case (Inl e)
  then show ?thesis
    using arrived_moved [OF a] unfolding loop_ends_def by (auto intro!: exI [of _ "{i}"])
next
  case (Inr u)
  then have "loop_ends st is (acc @ [i]) s1 (res u)" using rest arrived_moved(3) [OF a] by auto
  then obtain q s2 where q: "res u = Some (q, s2)" "sg_paused s2 = sg_paused s1"
    "case q of Inr acc' \<Rightarrow> acc' = (acc @ [i]) @ is \<and> moved (set is) st s1 s2
       | Inl e \<Rightarrow> (\<exists>w W. e = SgrEvidenceEmitFailed w \<and> W \<subseteq> set is \<and> moved W st s1 s2)"
    unfolding loop_ends_def by blast
  note m = moved_more [OF arrived_moved(1) [OF a]]
  show ?thesis
  proof (cases q)
    case (Inl e)
    then obtain w W where w: "e = SgrEvidenceEmitFailed w" "W \<subseteq> set is" "moved W st s1 s2" using q(3) by auto
    then have "moved (insert i W) st s s2" using m i by blast
    then show ?thesis
      using Inr Inl w q(1,2) arrived_moved(2) [OF a] unfolding loop_ends_def
      by (auto intro!: exI [of _ "insert i W"])
  next
    case (Inr acc')
    then show ?thesis
      using \<open>r = Inr u\<close> q m [of "set is" s2] i arrived_moved(2) [OF a] unfolding loop_ends_def by auto
  qed
qed

lemma loop_ends_none: "loop_ends st [] acc s (Some (Ok acc, s))"
  by (simp add: loop_ends_def moved_none)

definition ids_to_pause :: "service_unit list \<Rightarrow> unit_id list" where
  "ids_to_pause us = map su_unit_id (filter should_pause_for_recovery us)"

lemma pause_loop_ends:
  assumes "distinct (map su_unit_id us)" and "\<forall>u \<in> set us. map_of (sg_units s) (su_unit_id u) = Some u"
  shows "loop_ends UnitStopped (ids_to_pause us) acc s (pause_loop em clock us acc s)"
  using assms
proof (induction us arbitrary: acc s)
  case (Cons u us)
  show ?case
  proof (cases "should_pause_for_recovery u")
    case True
    let ?i = "su_unit_id u"
    have u: "map_of (sg_units s) ?i = Some u" using Cons.prems by simp
    have "su_state u \<in> {UnitRunning, UnitHealthy, UnitDegraded, UnitUnhealthy}"
      using True by (simp add: should_pause_for_recovery_def is_live_normal_unit_def)
    then obtain r s1 where r: "fsm_stop em (clock (length us)) ?i s = Some (r, s1)" and a: "arrived ?i UnitStopped s (r, s1)"
      using stop_cases [OF u, of em "clock (length us)"] by (auto split: if_splits)
    have "?i \<notin> set (ids_to_pause us)" using Cons.prems(1) by (auto simp: ids_to_pause_def)
    moreover have "loop_ends UnitStopped (ids_to_pause us) (acc @ [?i]) s1 (pause_loop em clock us (acc @ [?i]) s1)"
    proof (rule Cons.IH)
      show "\<forall>v \<in> set us. map_of (sg_units s1) (su_unit_id v) = Some v"
      proof
        fix v assume v: "v \<in> set us"
        then have "su_unit_id v \<noteq> ?i" using Cons.prems(1) by (metis distinct.simps(2) image_eqI list.simps(9) set_map)
        then show "map_of (sg_units s1) (su_unit_id v) = Some v"
          using movedD(2) [OF arrived_moved(1) [OF a], of "su_unit_id v"] Cons.prems(2) v by simp
      qed
    qed (use Cons.prems in simp)
    ultimately have "loop_ends UnitStopped (?i # ids_to_pause us) acc s
        (case r of Inl e \<Rightarrow> Some (Err e, s1) | Inr v \<Rightarrow>
           pause_loop em clock us (if su_state v = UnitStopped then acc @ [?i] else acc) s1)"
      by (intro loop_ends_more [OF a]) simp_all
    then show ?thesis using True r by (cases r) (simp_all add: ids_to_pause_def)
  next
    case False
    then show ?thesis using Cons by (simp add: ids_to_pause_def)
  qed
qed (simp add: loop_ends_none ids_to_pause_def)

lemma resume_loop_ends:
  assumes "distinct is" and "\<forall>i \<in> set is. \<exists>u. map_of (sg_units s) i = Some u \<and> su_state u = UnitStopped"
  shows "loop_ends UnitRunning is acc s (resume_loop em clock is acc s)"
  using assms
proof (induction "is" arbitrary: acc s)
  case (Cons i ids)
  obtain u where u: "map_of (sg_units s) i = Some u" "su_state u = UnitStopped" using Cons.prems by auto
  then obtain r s1 where r: "fsm_start em (clock (length ids)) i s = Some (r, s1)" and a: "arrived i UnitRunning s (r, s1)"
    using start_cases [OF u(1), of em "clock (length ids)"] by (auto split: if_splits)
  have "loop_ends UnitRunning ids (acc @ [i]) s1 (resume_loop em clock ids (acc @ [i]) s1)"
  proof (rule Cons.IH)
    show "\<forall>k \<in> set ids. \<exists>u. map_of (sg_units s1) k = Some u \<and> su_state u = UnitStopped"
      using Cons.prems movedD(2) [OF arrived_moved(1) [OF a]] by (metis distinct.simps(2) list.set_intros(2) singletonD)
  qed (use Cons.prems in simp)
  then have "loop_ends UnitRunning (i # ids) acc s
      (case r of Inl e \<Rightarrow> Some (Err e, s1) | Inr v \<Rightarrow>
         resume_loop em clock ids (if su_state v = UnitRunning then acc @ [i] else acc) s1)"
    using Cons.prems(1) by (intro loop_ends_more [OF a]) simp_all
  then show ?case using u r by (cases r) simp_all
qed (simp add: loop_ends_none)

section \<open>Pausing and resuming\<close>

definition units_to_pause :: "sgr_state \<Rightarrow> unit_id set" where
  "units_to_pause s = {i. \<exists>u. map_of (sg_units s) i = Some u \<and> should_pause_for_recovery u}"

lemma set_ids_to_pause:
  assumes "graph_inv env s"
  shows "distinct (map su_unit_id (map snd (sg_units s)))" and "distinct (ids_to_pause (map snd (sg_units s)))"
    and "\<forall>u \<in> set (map snd (sg_units s)). map_of (sg_units s) (su_unit_id u) = Some u"
    and "set (ids_to_pause (map snd (sg_units s))) = units_to_pause s"
proof -
  have d: "distinct (map fst (sg_units s))" using assms by (simp add: graph_inv_def)
  have id: "su_unit_id u = i" if "(i, u) \<in> set (sg_units s)" for i u
    using assms map_of_is_SomeI [OF d that] unfolding graph_inv_def by blast
  have eq: "map su_unit_id (map snd (sg_units s)) = map fst (sg_units s)" using id by auto
  show d': "distinct (map su_unit_id (map snd (sg_units s)))" unfolding eq by (rule d)
  then show "distinct (ids_to_pause (map snd (sg_units s)))"
    unfolding ids_to_pause_def by (rule distinct_map_filter)
  show all: "\<forall>u \<in> set (map snd (sg_units s)). map_of (sg_units s) (su_unit_id u) = Some u"
    using id map_of_is_SomeI [OF d] by fastforce
  show "set (ids_to_pause (map snd (sg_units s))) = units_to_pause s"
  proof (intro equalityI subsetI)
    fix i assume "i \<in> set (ids_to_pause (map snd (sg_units s)))"
    then show "i \<in> units_to_pause s" using all by (auto simp: ids_to_pause_def units_to_pause_def)
  next
    fix i assume "i \<in> units_to_pause s"
    then obtain u where u: "(i, u) \<in> set (sg_units s)" "should_pause_for_recovery u"
      by (auto simp: units_to_pause_def dest: map_of_SomeD)
    then show "i \<in> set (ids_to_pause (map snd (sg_units s)))" using id [OF u(1)] by (force simp: ids_to_pause_def)
  qed
qed

lemma fold_insert_Nil: "distinct xs \<Longrightarrow> fold List.insert xs [] = rev xs"
proof -
  have "fold List.insert xs ys = rev xs @ ys" if "distinct xs" "set xs \<inter> set ys = {}" for ys
    using that by (induction xs arbitrary: ys) (auto simp: List.insert_def)
  then show "distinct xs \<Longrightarrow> fold List.insert xs [] = rev xs" by simp
qed

lemma fold_removeAll: "fold removeAll xs ys = filter (\<lambda>y. y \<notin> set xs) ys"
  by (induction xs arbitrary: ys) (auto simp: removeAll_filter_not_eq intro: filter_cong)

text \<open>Resuming the units of a pause, recorded and stopped as they are, makes them run.\<close>

lemma resume_ends:
  assumes "distinct ps" and "sg_paused s1 = ps" and m: "moved (set ps) UnitStopped s s1"
  shows "\<exists>r s2. resume_normal_units em clock s1 = Some (r, s2) \<and>
     (case r of
        Inl e \<Rightarrow> (\<exists>w. e = SgrEvidenceEmitFailed w)
      | Inr qs \<Rightarrow> qs = ps \<and> moved (set ps) UnitRunning s s2 \<and> paused_units s2 = [])"
proof -
  have "\<forall>i \<in> set ps. \<exists>u. map_of (sg_units s1) i = Some u \<and> su_state u = UnitStopped"
    using movedD(1) [OF m] by fastforce
  then have "loop_ends UnitRunning ps [] s1 (resume_loop em clock ps [] s1)"
    using assms(1) by (intro resume_loop_ends) simp_all
  then obtain q s2 where q: "resume_loop em clock ps [] s1 = Some (q, s2)" "sg_paused s2 = ps"
    and qe: "case q of Inr qs \<Rightarrow> qs = ps \<and> moved (set ps) UnitRunning s1 s2
       | Inl e \<Rightarrow> (\<exists>w W. e = SgrEvidenceEmitFailed w \<and> W \<subseteq> set ps \<and> moved W UnitRunning s1 s2)"
    using assms(2) unfolding loop_ends_def append_Nil by auto
  show ?thesis
  proof (cases q)
    case (Inl e)
    then show ?thesis using q(1) qe assms(2) by (auto simp: resume_normal_units_def)
  next
    case (Inr qs)
    then have "qs = ps" "moved (set ps) UnitRunning s s2" using qe moved_back [OF m] by auto
    moreover from this have "moved (set ps) UnitRunning s (s2\<lparr>sg_paused := []\<rparr>)" unfolding moved_def by simp
    ultimately show ?thesis using Inr q assms(2) by (simp add: resume_normal_units_def fold_removeAll paused_units_def)
  qed
qed

text \<open>
  C31: On every graph that can be reached with nothing paused yet, pausing returns; unless an emission fails,
  exactly the live units that are not allowed in recovery mode are stopped and recorded, and no other unit
  changes. Resuming right after returns too; unless an emission fails, exactly these units run again, each as it was but
  for its state and the time of its change, and nothing is left recorded.
\<close>

theorem recovery_pause_is_undone:
  assumes "graph_reaches env empty_graph s" and "sg_paused s = []"
  shows "\<exists>r1 s1. pause_normal_units em clock s = Some (r1, s1) \<and>
     (case r1 of
        Inl e \<Rightarrow> (\<exists>w. e = SgrEvidenceEmitFailed w)
      | Inr ps \<Rightarrow> distinct ps \<and> set ps = units_to_pause s \<and> moved (units_to_pause s) UnitStopped s s1 \<and>
          set (paused_units s1) = units_to_pause s \<and>
          (\<exists>r2 s2. resume_normal_units em clock' s1 = Some (r2, s2) \<and>
             (case r2 of
                Inl e \<Rightarrow> (\<exists>w. e = SgrEvidenceEmitFailed w)
              | Inr qs \<Rightarrow> distinct qs \<and> set qs = units_to_pause s \<and> moved (units_to_pause s) UnitRunning s s2 \<and>
                  paused_units s2 = [])))"
proof -
  let ?us = "map snd (sg_units s)" and ?P = "units_to_pause s"
  have inv: "graph_inv env s" by (rule graph_inv_reaches [OF assms(1) graph_inv_empty])
  note ids = set_ids_to_pause [OF inv]
  have "loop_ends UnitStopped (ids_to_pause ?us) [] s (pause_loop em clock ?us [] s)"
    by (rule pause_loop_ends [OF ids(1,3)])
  then obtain r s0 where r: "pause_loop em clock ?us [] s = Some (r, s0)" "sg_paused s0 = []"
    and ends: "case r of Inr ps \<Rightarrow> ps = ids_to_pause ?us \<and> moved (set (ids_to_pause ?us)) UnitStopped s s0
       | Inl e \<Rightarrow> (\<exists>w W. e = SgrEvidenceEmitFailed w \<and> W \<subseteq> set (ids_to_pause ?us) \<and> moved W UnitStopped s s0)"
    using assms(2) unfolding loop_ends_def append_Nil by auto
  show ?thesis
  proof (cases r)
    case (Inl e)
    then show ?thesis using r ends by (auto simp: pause_normal_units_def list_units_def)
  next
    case (Inr ps)
    then have ps: "ps = ids_to_pause ?us" and m: "moved ?P UnitStopped s s0" using ends ids(4) by auto
    let ?s1 = "s0\<lparr>sg_paused := rev ps\<rparr>"
    have pause: "pause_normal_units em clock s = Some (Ok ps, ?s1)"
      using r Inr fold_insert_Nil [of ps] ps ids(2) by (simp add: pause_normal_units_def list_units_def)
    have m1: "moved ?P UnitStopped s ?s1" using m unfolding moved_def by simp
    have set_ps: "distinct (rev ps)" "set (rev ps) = ?P" using ps ids(2,4) by simp_all
    obtain r2 s2 where "resume_normal_units em clock' ?s1 = Some (r2, s2)"
      "case r2 of Inl e \<Rightarrow> (\<exists>w. e = SgrEvidenceEmitFailed w)
        | Inr qs \<Rightarrow> qs = rev ps \<and> moved ?P UnitRunning s s2 \<and> paused_units s2 = []"
      using resume_ends [OF set_ps(1), of ?s1 s em clock'] m1 unfolding set_ps(2) by auto
    then have resume: "\<exists>r2 s2. resume_normal_units em clock' ?s1 = Some (r2, s2) \<and>
             (case r2 of
                Inl e \<Rightarrow> (\<exists>w. e = SgrEvidenceEmitFailed w)
              | Inr qs \<Rightarrow> distinct qs \<and> set qs = ?P \<and> moved ?P UnitRunning s s2 \<and> paused_units s2 = [])"
      using set_ps by (auto split: sum.splits)
    show ?thesis
      using pause m1 resume ps ids(2,4) by (intro exI [of _ "Ok ps"] exI [of _ ?s1]) (simp add: paused_units_def)
  qed
qed

text \<open>
  A departure: when pausing fails after some units have been stopped, none of them is recorded, so resuming
  does not start them again.
\<close>

lemma failed_pause_records_nothing:
  assumes "graph_reaches env empty_graph s" and "pause_normal_units em clock s = Some (Err e, s1)"
  shows "paused_units s1 = paused_units s"
proof -
  have inv: "graph_inv env s" by (rule graph_inv_reaches [OF assms(1) graph_inv_empty])
  have "loop_ends UnitStopped (ids_to_pause (map snd (sg_units s))) [] s (pause_loop em clock (map snd (sg_units s)) [] s)"
    by (rule pause_loop_ends [OF set_ids_to_pause(1,3) [OF inv]])
  then obtain r s' where "pause_loop em clock (map snd (sg_units s)) [] s = Some (r, s')" "sg_paused s' = sg_paused s"
    unfolding loop_ends_def by blast
  then show ?thesis using assms(2) by (cases r) (simp_all add: pause_normal_units_def list_units_def paused_units_def)
qed

definition sample_live_graph :: sgr_state where
  "sample_live_graph = snd (set_unit_state 4 ''unit:v:a'' UnitRunning
     (snd (set_unit_state 3 ''unit:v:a'' UnitStarting sample_graph)))"

lemma sample_live_graph_reached: "graph_reaches sample_graph_env empty_graph sample_live_graph"
proof -
  have "graph_step sample_graph_env s (snd (set_unit_state t i st s))" for s t i st
    by (cases "set_unit_state t i st s") (auto intro: graph_step.step_set)
  then show ?thesis
    unfolding sample_live_graph_def by (meson sample_graph_reached rtranclp.rtrancl_into_rtrancl)
qed

lemma sample_graph_paused: "sg_paused sample_graph = []"
  unfolding sample_graph_def register_unit_def sample_verify
  by (simp add: sample_graph_env_def emit_when_def sgr_then_def empty_graph_def declared_edges_def
      Let_def new_service_unit_def extend_edges_def)

lemma sample_live_units:
  "map_of (sg_units sample_live_graph) i =
     (if i = ''unit:v:a'' then Some ((new_service_unit 0 (sample_manifest ''unit:v:a'' []))\<lparr>su_state := UnitRunning, last_transition_at := 4\<rparr>)
      else map_of (sg_units sample_graph) i)"
  "sg_paused sample_live_graph = []"
  by (simp_all add: sample_live_graph_def set_unit_state_def sample_graph_units new_service_unit_def is_valid_transition_def
      sample_graph_paused Let_def)

lemma sample_units_to_pause: "units_to_pause sample_live_graph = {''unit:v:a''}"
proof -
  have "should_pause_for_recovery ((new_service_unit 0 (sample_manifest ''unit:v:a'' []))\<lparr>su_state := UnitRunning, last_transition_at := 4\<rparr>)"
    by (simp add: should_pause_for_recovery_def is_live_normal_unit_def recovery_mode_allowed_def new_service_unit_def label_of_def)
  moreover have "\<not> should_pause_for_recovery u" if "map_of (sg_units sample_graph) i = Some u" for i u
    using that by (auto simp: sample_graph_units should_pause_for_recovery_def is_live_normal_unit_def new_service_unit_def split: if_splits)
  ultimately show ?thesis by (auto simp: units_to_pause_def sample_live_units split: if_splits)
qed

theorem recovery_pause_is_undone_witness:
  "\<exists>r1 s1. pause_normal_units (None :: (unit, unit) sgr_emitter option) (\<lambda>k n. 9) sample_live_graph = Some (r1, s1) \<and>
     (case r1 of
        Inl e \<Rightarrow> (\<exists>w. e = SgrEvidenceEmitFailed w)
      | Inr ps \<Rightarrow> distinct ps \<and> set ps = {''unit:v:a''} \<and> moved {''unit:v:a''} UnitStopped sample_live_graph s1 \<and>
          set (paused_units s1) = {''unit:v:a''} \<and>
          (\<exists>r2 s2. resume_normal_units (None :: (unit, unit) sgr_emitter option) (\<lambda>k n. 9) s1 = Some (r2, s2) \<and>
             (case r2 of
                Inl e \<Rightarrow> (\<exists>w. e = SgrEvidenceEmitFailed w)
              | Inr qs \<Rightarrow> distinct qs \<and> set qs = {''unit:v:a''} \<and> moved {''unit:v:a''} UnitRunning sample_live_graph s2 \<and>
                  paused_units s2 = [])))"
  using recovery_pause_is_undone [OF sample_live_graph_reached sample_live_units(2), of "None :: (unit, unit) sgr_emitter option" "\<lambda>k n. 9" "\<lambda>k n. 9"]
  unfolding sample_units_to_pause .

end
