(* ===== verification/Sgr_Runtime.thy ===== *)
theory Sgr_Runtime
  imports Sgr_Fsm Runtime_Liveness
begin

text \<open>
  The bridge from the service graph to the capability runtime, \<open>runtime_adapter.rs\<close>: a unit is started or stopped
  by submitting an action, and the driver of unit lifecycles follows the status the runtime reports. The
  state is the graph together with the runtime; \<open>None\<close> stands for a driver that runs out of fuel, which
  the lemmas exclude. The factory of envelopes is a trait of the crate, hence a field of the bridge, and
  so are the texts that the crates derive for errors and states.
\<close>

section \<open>Envelopes\<close>

definition SGR_RUNTIME_SUBJECT :: string where
  "SGR_RUNTIME_SUBJECT = ''_system:sgr''"

definition UNIT_START_ACTION :: string where
  "UNIT_START_ACTION = ''unit.start''"

definition UNIT_STOP_ACTION :: string where
  "UNIT_STOP_ACTION = ''unit.stop''"

definition SGR_CODE_VERSION :: string where
  "SGR_CODE_VERSION = ''0.1.0-T093''"

definition unit_action_target :: "service_unit \<Rightarrow> string \<Rightarrow> string \<Rightarrow> json" where
  "unit_action_target u aid intent = JObject
     [(''unit_id'', JString (su_unit_id u)), (''adapter_id'', JString aid),
      (''adapter_target'', um_adapter_target (su_manifest u)), (''lifecycle_intent'', JString intent),
      (''manifest'', JObject
         [(''display_name'', JString (display_name (su_manifest u))),
          (''unit_kind'', JString (unit_kind_wire (um_unit_kind (su_manifest u)))),
          (''sandbox_profile_ref'', JString (sandbox_profile_ref (su_manifest u))),
          (''startup_deadline_seconds'', json_word (startup_deadline_seconds (su_manifest u))),
          (''stop_deadline_seconds'', json_word (stop_deadline_seconds (su_manifest u)))])]"

definition build_unit_action :: "instant \<Rightarrow> service_unit \<Rightarrow> string \<Rightarrow> string \<Rightarrow> (sgr_error, action_envelope) result" where
  "build_unit_action now u act intent =
     (case um_adapter_id (su_manifest u) of
        None \<Rightarrow> Err (AdapterCapabilityMismatch (su_unit_id u) [''adapter_id''])
      | Some aid \<Rightarrow>
          Ok (envelope_new (identity_new SGR_RUNTIME_SUBJECT False)
                ((request_new act (unit_action_target u aid intent))
                   \<lparr>idempotency_key := Some (act @ '':'' @ su_unit_id u)\<rparr>)
                \<lparr>trace_id = ''00000000000000000000000000000091'', span_id = ''0000000000000091'', parent_span_id = None\<rparr> now))"

definition default_build_action :: "instant \<Rightarrow> service_unit \<Rightarrow> (sgr_error, action_envelope) result" where
  "default_build_action now u = build_unit_action now u UNIT_START_ACTION ''start''"

fun set_intent :: "json \<Rightarrow> json" where
  "set_intent (JObject m) = JObject (AList.update ''lifecycle_intent'' (JString ''stop'') m)"
| "set_intent v = v"

definition retarget_for_stop :: "action_envelope \<Rightarrow> action_envelope" where
  "retarget_for_stop env =
     (let req = (env_request env)\<lparr>action := UNIT_STOP_ACTION\<rparr>;
          uid = (case Option.bind (json_get (target req) ''unit_id'') as_str of None \<Rightarrow> ''unknown'' | Some i \<Rightarrow> i)
      in env\<lparr>env_request := req\<lparr>idempotency_key := Some (UNIT_STOP_ACTION @ '':'' @ uid), target := set_intent (target req)\<rparr>\<rparr>)"

definition sgr_runtime_context :: runtime_context where
  "sgr_runtime_context = runtime_context_new SGR_RUNTIME_SUBJECT ''sgr-runtime-adapter'' SGR_CODE_VERSION"

section \<open>The bridge\<close>

record bridge_texts =
  bt_sgr_error :: "sgr_error \<Rightarrow> string"
  bt_runtime_error :: "runtime_error \<Rightarrow> string"
  bt_status :: "action_lifecycle_state \<Rightarrow> string"
  bt_reason :: "execution_failure_reason \<Rightarrow> string"

record ('c, 'rk, 'sk, 'vk) sgr_bridge =
  sb_wiring :: "('c, 'rk, 'sk, 'vk) runtime_wiring"
  sb_emitter :: "('sk, 'vk) sgr_emitter option"
  sb_factory :: "instant \<Rightarrow> service_unit \<Rightarrow> (sgr_error, action_envelope) result"
  sb_texts :: bridge_texts

type_synonym 'c bridge_state = "sgr_state \<times> 'c runtime_state"
type_synonym ('c, 'a) bridge = "'c bridge_state \<Rightarrow> ((sgr_error, 'a) result \<times> 'c bridge_state) option"

definition bridge_then :: "('c, 'a) bridge \<Rightarrow> ('a \<Rightarrow> ('c, 'b) bridge) \<Rightarrow> ('c, 'b) bridge" where
  "bridge_then m f st =
     (case m st of None \<Rightarrow> None | Some (Inl e, st') \<Rightarrow> Some (Err e, st') | Some (Inr a, st') \<Rightarrow> f a st')"

text \<open>A call on the driver: it works on the graph and leaves the runtime alone.\<close>

definition on_graph ::
    "(sgr_state \<Rightarrow> ((sgr_error, 'a) result \<times> sgr_state) option) \<Rightarrow> ('c, 'a) bridge" where
  "on_graph m st = map_option (\<lambda>(r, s). (r, (s, snd st))) (m (fst st))"

definition mark_failed_best_effort ::
    "('c, 'rk, 'sk, 'vk) sgr_bridge \<Rightarrow> (nat \<Rightarrow> instant) \<Rightarrow> unit_id \<Rightarrow> string \<Rightarrow> ('c, unit) bridge" where
  "mark_failed_best_effort br clock uid why =
     bridge_then (on_graph (fsm_mark_failed (sb_emitter br) clock uid why)) (\<lambda>_ st. Some (Ok (), st))"

definition runtime_error_to_sgr :: "('c, 'rk, 'sk, 'vk) sgr_bridge \<Rightarrow> runtime_error \<Rightarrow> sgr_error" where
  "runtime_error_to_sgr br e =
     SgrInternal (''capability runtime submission failed: '' @ bt_runtime_error (sb_texts br) e)"

definition failure_reason :: "('c, 'rk, 'sk, 'vk) sgr_bridge \<Rightarrow> action_context \<Rightarrow> string" where
  "failure_reason br ctx =
     (case ac_error ctx of
        None \<Rightarrow> ''capability runtime action ended as '' @ bt_status (sb_texts br) (status ctx)
      | Some why \<Rightarrow> ''capability runtime action failed: '' @ bt_reason (sb_texts br) why)"

definition submit_or_fail ::
    "('c, 'rk, 'sk, 'vk) sgr_bridge \<Rightarrow> (nat \<Rightarrow> instant) \<Rightarrow> string \<Rightarrow> instant \<Rightarrow> unit_id \<Rightarrow> action_envelope \<Rightarrow>
     runtime_context \<Rightarrow> ('c, action_context) bridge" where
  "submit_or_fail br clock ulid now uid env rc st =
     (case submit_action (sb_wiring br) ulid now env rc (snd st) of
        (Inr ctx, rt) \<Rightarrow> Some (Ok ctx, (fst st, rt))
      | (Inl e, rt) \<Rightarrow>
          bridge_then (mark_failed_best_effort br clock uid (bt_runtime_error (sb_texts br) e))
            (\<lambda>_ st'. Some (Err (runtime_error_to_sgr br e), st')) (fst st, rt))"

text \<open>\<open>apply_start_result\<close> and \<open>apply_stop_result\<close> differ in the call that a success makes.\<close>

definition apply_result ::
    "(sgr_state \<Rightarrow> ((sgr_error, service_unit) result \<times> sgr_state) option) \<Rightarrow>
     ('c, 'rk, 'sk, 'vk) sgr_bridge \<Rightarrow> (nat \<Rightarrow> instant) \<Rightarrow> unit_id \<Rightarrow> action_context \<Rightarrow> ('c, unit) bridge" where
  "apply_result go br clock uid ctx =
     (if status ctx = ActionSucceeded then bridge_then (on_graph go) (\<lambda>_ st. Some (Ok (), st))
      else if status ctx \<in> {ActionFailed, PolicyDenied, OverrideDenied, RollbackFailed}
      then mark_failed_best_effort br clock uid (failure_reason br ctx)
      else if status ctx = ActionRolledBack then mark_failed_best_effort br clock uid ''runtime rolled back''
      else (\<lambda>st. Some (Ok (), st)))"

definition apply_start_result ::
    "('c, 'rk, 'sk, 'vk) sgr_bridge \<Rightarrow> (nat \<Rightarrow> instant) \<Rightarrow> unit_id \<Rightarrow> action_context \<Rightarrow> ('c, unit) bridge" where
  "apply_start_result br clock uid ctx = apply_result (fsm_start (sb_emitter br) clock uid) br clock uid ctx"

definition apply_stop_result ::
    "('c, 'rk, 'sk, 'vk) sgr_bridge \<Rightarrow> (nat \<Rightarrow> instant) \<Rightarrow> unit_id \<Rightarrow> action_context \<Rightarrow> ('c, unit) bridge" where
  "apply_stop_result br clock uid ctx = apply_result (fsm_stop (sb_emitter br) clock uid) br clock uid ctx"

text \<open>The envelope of a unit; a factory that refuses has the unit marked as failed.\<close>

definition build_or_fail ::
    "('c, 'rk, 'sk, 'vk) sgr_bridge \<Rightarrow> (nat \<Rightarrow> instant) \<Rightarrow> instant \<Rightarrow> unit_id \<Rightarrow> service_unit \<Rightarrow>
     ('c, action_envelope) bridge" where
  "build_or_fail br clock now uid u st =
     (case sb_factory br now u of
        Inr env \<Rightarrow> Some (Ok env, st)
      | Inl e \<Rightarrow>
          bridge_then (mark_failed_best_effort br clock uid (bt_sgr_error (sb_texts br) e)) (\<lambda>_ st'. Some (Err e, st')) st)"

definition start_unit_via_runtime ::
    "('c, 'rk, 'sk, 'vk) sgr_bridge \<Rightarrow> (nat \<Rightarrow> instant) \<Rightarrow> string \<Rightarrow> instant \<Rightarrow> unit_id \<Rightarrow> ('c, action_context) bridge" where
  "start_unit_via_runtime br clock ulid now uid =
     bridge_then (on_graph (\<lambda>s. Some (get_unit uid s))) (\<lambda>u.
     bridge_then (build_or_fail br clock now uid u) (\<lambda>env.
     bridge_then (submit_or_fail br clock ulid now uid env sgr_runtime_context) (\<lambda>ctx.
     bridge_then (apply_start_result br clock uid ctx) (\<lambda>_ st. Some (Ok ctx, st)))))"

definition stop_unit_via_runtime ::
    "('c, 'rk, 'sk, 'vk) sgr_bridge \<Rightarrow> (nat \<Rightarrow> instant) \<Rightarrow> string \<Rightarrow> instant \<Rightarrow> unit_id \<Rightarrow> ('c, action_context) bridge" where
  "stop_unit_via_runtime br clock ulid now uid =
     bridge_then (on_graph (\<lambda>s. Some (get_unit uid s))) (\<lambda>u.
     bridge_then (build_or_fail br clock now uid u) (\<lambda>env.
     bridge_then (submit_or_fail br clock ulid now uid (retarget_for_stop env) sgr_runtime_context) (\<lambda>ctx.
     bridge_then (apply_stop_result br clock uid ctx) (\<lambda>_ st. Some (Ok ctx, st)))))"

section \<open>The unit follows the runtime\<close>

text \<open>
  How a call ends for the unit: it is at \<open>st\<close> with nothing else of the graph changed, and the call returns
  its answer or the failure of an emission; or the driver has refused and nothing has changed.
\<close>

definition unit_at :: "unit_id \<Rightarrow> unit_state \<Rightarrow> (sgr_error, 'a) result \<Rightarrow> sgr_state \<Rightarrow> (sgr_error, 'a) result \<Rightarrow> sgr_state \<Rightarrow> bool" where
  "unit_at uid st answer s r s' \<longleftrightarrow>
     (\<exists>u t l. map_of (sg_units s) uid = Some u \<and> s' = (at_state uid st t u s)\<lparr>sg_log := l\<rparr>) \<and>
     (r = answer \<or> (\<exists>w. r = Err (SgrEvidenceEmitFailed w)))"

definition refused :: "unit_state \<Rightarrow> unit_state \<Rightarrow> sgr_state \<Rightarrow> (sgr_error, 'a) result \<Rightarrow> sgr_state \<Rightarrow> bool" where
  "refused frm to s r s' \<longleftrightarrow> s' = s \<and> r = Err (InvalidStateTransition frm to)"

text \<open>A driver's call, followed by an answer that is known already.\<close>

lemma drive_then_answer:
  assumes "go s = Some q"
  shows "arrived uid st s q \<Longrightarrow>
           \<exists>r s'. bridge_then (on_graph go) (\<lambda>_ st. Some (a, st)) (s, rt) = Some (r, (s', rt)) \<and> unit_at uid st a s r s'"
    and "q = (Err (InvalidStateTransition frm to), s) \<Longrightarrow>
           \<exists>r s'. bridge_then (on_graph go) (\<lambda>_ st. Some (a, st)) (s, rt) = Some (r, (s', rt)) \<and> refused frm to s r s'"
proof -
  obtain v s' where q: "q = (v, s')" by (cases q)
  have eq: "bridge_then (on_graph go) (\<lambda>_ st. Some (a, st)) (s, rt) =
      Some (case v of Inl e \<Rightarrow> Err e | Inr _ \<Rightarrow> a, (s', rt))"
    using assms q by (cases v) (simp_all add: bridge_then_def on_graph_def)
  show "\<exists>r s'. bridge_then (on_graph go) (\<lambda>_ st. Some (a, st)) (s, rt) = Some (r, (s', rt)) \<and> unit_at uid st a s r s'"
    if "arrived uid st s q"
    using that q eq by (auto simp: arrived_def unit_at_def)
  show "\<exists>r s'. bridge_then (on_graph go) (\<lambda>_ st. Some (a, st)) (s, rt) = Some (r, (s', rt)) \<and> refused frm to s r s'"
    if "q = (Err (InvalidStateTransition frm to), s)"
    using that q eq by (auto simp: refused_def)
qed

lemma bridge_then_assoc:
  "bridge_then (bridge_then m f) g = bridge_then m (\<lambda>a. bridge_then (f a) g)"
  by (rule ext) (simp add: bridge_then_def split: option.splits prod.splits sum.splits)

lemma bridge_then_answer [simp]: "bridge_then (\<lambda>st. Some (Ok a, st)) f = f a"
  by (rule ext) (simp add: bridge_then_def)

text \<open>Marking a unit as failed: refused for units that are stopped, retired or still drafts.\<close>

definition failed_outcome ::
    "unit_id \<Rightarrow> unit_state \<Rightarrow> (sgr_error, 'a) result \<Rightarrow> sgr_state \<Rightarrow> (sgr_error, 'a) result \<Rightarrow> sgr_state \<Rightarrow> bool" where
  "failed_outcome uid now_at a s r s' \<longleftrightarrow>
     (if now_at \<in> {UnitStopped, UnitRetired} then refused now_at UnitFailed s r s'
      else if now_at = UnitDraft then refused UnitDraft UnitStarting s r s'
      else unit_at uid UnitFailed a s r s')"

lemma mark_then_answer:
  assumes u: "map_of (sg_units s) uid = Some u"
  shows "\<exists>r s'. bridge_then (mark_failed_best_effort br clock uid why) (\<lambda>_ st. Some (a, st)) (s, rt) = Some (r, (s', rt)) \<and>
     failed_outcome uid (su_state u) a s r s'"
proof -
  let ?go = "fsm_mark_failed (sb_emitter br) clock uid why"
  obtain q where q: "?go s = Some q"
    and c: "if su_state u \<in> {UnitStopped, UnitRetired} then q = (Err (InvalidStateTransition (su_state u) UnitFailed), s)
      else if su_state u = UnitDraft then q = (Err (InvalidStateTransition UnitDraft UnitStarting), s)
      else arrived uid UnitFailed s q"
    using mark_failed_cases [OF u, of "sb_emitter br" clock why] by blast
  have eq: "bridge_then (mark_failed_best_effort br clock uid why) (\<lambda>_ st. Some (a, st)) =
      bridge_then (on_graph ?go) (\<lambda>_ st. Some (a, st))"
    by (simp add: mark_failed_best_effort_def bridge_then_assoc)
  note no = drive_then_answer(2) [of ?go s q, OF q]
  show ?thesis
  proof (cases "su_state u \<in> {UnitStopped, UnitRetired}")
    case True
    then show ?thesis unfolding eq failed_outcome_def if_P [OF True] using c by (intro no) simp
  next
    case live: False
    show ?thesis
    proof (cases "su_state u = UnitDraft")
      case True
      then show ?thesis unfolding eq failed_outcome_def if_not_P [OF live] if_P [OF True] using c by (intro no) simp
    next
      case False
      then show ?thesis unfolding eq failed_outcome_def if_not_P [OF live] if_not_P [OF False]
        using c live by (intro drive_then_answer(1) [of ?go s q, OF q]) simp
    qed
  qed
qed

text \<open>The outcome for the unit by the status of the action: \<open>S\<close> are the states a success can move on to \<open>st\<close>.\<close>

definition bridge_outcome ::
    "unit_id \<Rightarrow> unit_state \<Rightarrow> unit_state set \<Rightarrow> unit_state \<Rightarrow> action_context \<Rightarrow> sgr_state \<Rightarrow>
     (sgr_error, action_context) result \<Rightarrow> sgr_state \<Rightarrow> bool" where
  "bridge_outcome uid now_at S st ctx s r s' \<longleftrightarrow>
     (if status ctx = ActionSucceeded
      then if now_at \<in> S then unit_at uid st (Ok ctx) s r s' else refused now_at st s r s'
      else if status ctx \<in> {ActionFailed, PolicyDenied, OverrideDenied, RollbackFailed, ActionRolledBack}
      then failed_outcome uid now_at (Ok ctx) s r s'
      else r = Ok ctx \<and> s' = s)"

lemma apply_then_answer:
  assumes u: "map_of (sg_units s) uid = Some u" and q: "go s = Some q"
    and go: "if su_state u \<in> S then arrived uid st s q else q = (Err (InvalidStateTransition (su_state u) st), s)"
  shows "\<exists>r s'. bridge_then (apply_result go br clock uid ctx) (\<lambda>_ st. Some (Ok ctx, st)) (s, rt) = Some (r, (s', rt)) \<and>
     bridge_outcome uid (su_state u) S st ctx s r s'"
proof (cases "status ctx = ActionSucceeded")
  case True
  have eq: "bridge_then (apply_result go br clock uid ctx) (\<lambda>_ st. Some (Ok ctx, st)) =
      bridge_then (on_graph go) (\<lambda>_ st. Some (Ok ctx, st))"
    using True by (simp add: apply_result_def bridge_then_assoc)
  show ?thesis
  proof (cases "su_state u \<in> S")
    case inside: True
    then show ?thesis unfolding eq bridge_outcome_def if_P [OF True] if_P [OF inside]
      using go by (intro drive_then_answer(1) [of go s q, OF q]) simp
  next
    case outside: False
    then show ?thesis unfolding eq bridge_outcome_def if_P [OF True] if_not_P [OF outside]
      using go by (intro drive_then_answer(2) [of go s q, OF q]) simp
  qed
next
  case False
  show ?thesis
  proof (cases "status ctx \<in> {ActionFailed, PolicyDenied, OverrideDenied, RollbackFailed, ActionRolledBack}")
    case True
    then obtain why where "apply_result go br clock uid ctx = mark_failed_best_effort br clock uid why"
      using False by (auto simp: apply_result_def)
    then show ?thesis
      unfolding bridge_outcome_def if_not_P [OF False] if_P [OF True] using mark_then_answer [OF u] by simp
  next
    case waiting: False
    then have "apply_result go br clock uid ctx = (\<lambda>st. Some (Ok (), st))"
      using False by (auto simp: apply_result_def)
    then show ?thesis unfolding bridge_outcome_def if_not_P [OF False] if_not_P [OF waiting] by simp
  qed
qed

lemma on_get_unit [simp]:
  "map_of (sg_units s) uid = Some u \<Longrightarrow> bridge_then (on_graph (\<lambda>s. Some (get_unit uid s))) f (s, rt) = f u (s, rt)"
  by (simp add: bridge_then_def on_graph_def)

lemma build_then [simp]:
  "sb_factory br now u = Ok env \<Longrightarrow> bridge_then (build_or_fail br clock now uid u) f st = f env st"
  by (simp add: bridge_then_def build_or_fail_def)

lemma submit_then [simp]:
  "submit_action (sb_wiring br) ulid now env rc rt = (Ok ctx, rt') \<Longrightarrow>
     bridge_then (submit_or_fail br clock ulid now uid env rc) f (s, rt) = f ctx (s, rt')"
  by (simp add: bridge_then_def submit_or_fail_def)

lemma start_outcome:
  assumes u: "map_of (sg_units s) uid = Some u" and env: "sb_factory br now u = Ok env"
    and start: "submit_action (sb_wiring br) ulid now env sgr_runtime_context rt = (Ok ctx, rt1)"
  shows "\<exists>r s'. start_unit_via_runtime br clock ulid now uid (s, rt) = Some (r, (s', rt1)) \<and>
     bridge_outcome uid (su_state u) {UnitRunning, UnitDraft, UnitStopped, UnitQueued, UnitStarting} UnitRunning ctx s r s'"
proof -
  obtain q where q: "fsm_start (sb_emitter br) clock uid s = Some q"
    "if su_state u \<in> {UnitRunning, UnitDraft, UnitStopped, UnitQueued, UnitStarting} then arrived uid UnitRunning s q
     else q = (Err (InvalidStateTransition (su_state u) UnitRunning), s)"
    using start_cases [OF u, of "sb_emitter br" clock] by blast
  show ?thesis
    using apply_then_answer [of s uid u "fsm_start (sb_emitter br) clock uid", OF u q, of br clock ctx rt1]
    unfolding start_unit_via_runtime_def apply_start_result_def
      on_get_unit [OF u] build_then [OF env] submit_then [OF start] .
qed

lemma stop_outcome:
  assumes u: "map_of (sg_units s) uid = Some u" and env: "sb_factory br now u = Ok env"
    and stop: "submit_action (sb_wiring br) ulid now (retarget_for_stop env) sgr_runtime_context rt = (Ok ctx, rt1)"
  shows "\<exists>r s'. stop_unit_via_runtime br clock ulid now uid (s, rt) = Some (r, (s', rt1)) \<and>
     bridge_outcome uid (su_state u) {UnitStopped, UnitRunning, UnitStopping, UnitHealthy, UnitDegraded, UnitUnhealthy}
       UnitStopped ctx s r s'"
proof -
  obtain p where p: "fsm_stop (sb_emitter br) clock uid s = Some p"
    "if su_state u \<in> {UnitStopped, UnitRunning, UnitStopping, UnitHealthy, UnitDegraded, UnitUnhealthy}
     then arrived uid UnitStopped s p else p = (Err (InvalidStateTransition (su_state u) UnitStopped), s)"
    using stop_cases [OF u, of "sb_emitter br" clock] by blast
  show ?thesis
    using apply_then_answer [of s uid u "fsm_stop (sb_emitter br) clock uid", OF u p, of br clock ctx rt1]
    unfolding stop_unit_via_runtime_def apply_stop_result_def
      on_get_unit [OF u] build_then [OF env] submit_then [OF stop] .
qed

text \<open>
  C32: Started or stopped through the runtime, a unit ends where the status of the submitted action says: a success
  drives it to RUNNING or STOPPED, or is refused from a state that has no way there; a failure, denial or
  rollback marks it as FAILED, or is refused for units that are stopped, retired or drafts; an action that waits leaves
  it alone. Nothing else of the graph changes, and the calls always return.
\<close>

theorem bridge_follows_the_runtime:
  assumes "map_of (sg_units s) uid = Some u" and "sb_factory br now u = Ok env"
    and "submit_action (sb_wiring br) ulid now env sgr_runtime_context rt = (Ok ctx, rt1)"
    and "submit_action (sb_wiring br) ulid now (retarget_for_stop env) sgr_runtime_context rt = (Ok ctx', rt2)"
  shows "(\<exists>r s'. start_unit_via_runtime br clock ulid now uid (s, rt) = Some (r, (s', rt1)) \<and>
       bridge_outcome uid (su_state u) {UnitRunning, UnitDraft, UnitStopped, UnitQueued, UnitStarting} UnitRunning ctx s r s') \<and>
     (\<exists>r s'. stop_unit_via_runtime br clock ulid now uid (s, rt) = Some (r, (s', rt2)) \<and>
       bridge_outcome uid (su_state u) {UnitStopped, UnitRunning, UnitStopping, UnitHealthy, UnitDegraded, UnitUnhealthy}
         UnitStopped ctx' s r s')"
  using start_outcome [OF assms(1-3)] stop_outcome [OF assms(1,2,4)] by blast

text \<open>A departure: a unit that runs is marked as failed when the policy denies the request to stop it.\<close>

lemma denied_stop_fails_the_unit:
  assumes "map_of (sg_units s) uid = Some u" and "su_state u = UnitRunning" and "sb_factory br now u = Ok env"
    and "submit_action (sb_wiring br) ulid now (retarget_for_stop env) sgr_runtime_context rt = (Ok ctx, rt1)"
    and "status ctx = PolicyDenied"
  shows "\<exists>r s'. stop_unit_via_runtime br clock ulid now uid (s, rt) = Some (r, (s', rt1)) \<and> unit_at uid UnitFailed (Ok ctx) s r s'"
  using stop_outcome [OF assms(1,3,4), of clock] assms(2,5)
  by (auto simp: bridge_outcome_def failed_outcome_def simp del: split_paired_Ex)

text \<open>A unit that runs after the call and did not before: the runtime has reported a success.\<close>

lemma failed_not_running:
  assumes "failed_outcome uid (su_state u) a s r s'" and "map_of (sg_units s) uid = Some u" and "su_state u \<noteq> UnitRunning"
    and "map_of (sg_units s') uid = Some u'"
  shows "su_state u' \<noteq> UnitRunning"
  using assms by (auto simp: failed_outcome_def unit_at_def refused_def split: if_splits)

lemma start_not_built:
  assumes run: "start_unit_via_runtime br clock ulid now uid (s, rt) = Some (r, (s', rt'))"
    and u: "map_of (sg_units s) uid = Some u" and e: "sb_factory br now u = Inl e"
  shows "failed_outcome uid (su_state u) (Err e) s r s'"
proof -
  have "bridge_then (build_or_fail br clock now uid u) f (s, rt) =
      bridge_then (mark_failed_best_effort br clock uid (bt_sgr_error (sb_texts br) e)) (\<lambda>_ st'. Some (Err e, st')) (s, rt)"
    for f :: "action_envelope \<Rightarrow> ('a, action_context) bridge"
    using e by (simp add: build_or_fail_def bridge_then_def split: option.splits prod.splits sum.splits)
  then have "bridge_then (mark_failed_best_effort br clock uid (bt_sgr_error (sb_texts br) e)) (\<lambda>_ st'. Some (Err e, st')) (s, rt) =
      Some (r, (s', rt'))"
    using run u(1) by (simp add: start_unit_via_runtime_def)
  then show ?thesis
    using mark_then_answer [OF u, of br clock "bt_sgr_error (sb_texts br) e" "Err e :: (sgr_error, action_context) result" rt] by auto
qed

lemma start_not_submitted:
  assumes run: "start_unit_via_runtime br clock ulid now uid (s, rt) = Some (r, (s', rt'))"
    and u: "map_of (sg_units s) uid = Some u" and env: "sb_factory br now u = Inr env"
    and e: "submit_action (sb_wiring br) ulid now env sgr_runtime_context rt = (Inl e, rt1)"
  shows "failed_outcome uid (su_state u) (Err (runtime_error_to_sgr br e)) s r s'"
proof -
  let ?m = "bridge_then (mark_failed_best_effort br clock uid (bt_runtime_error (sb_texts br) e))
    (\<lambda>_ st'. Some (Err (runtime_error_to_sgr br e), st')) (s, rt1)"
  have "bridge_then (submit_or_fail br clock ulid now uid env sgr_runtime_context) f (s, rt) = ?m"
    for f :: "action_context \<Rightarrow> ('a, action_context) bridge"
    using e by (simp add: submit_or_fail_def bridge_then_def split: option.splits prod.splits sum.splits)
  then have "?m = Some (r, (s', rt'))" using run u env by (simp add: start_unit_via_runtime_def)
  then show ?thesis
    using mark_then_answer [OF u, of br clock "bt_runtime_error (sb_texts br) e"
        "Err (runtime_error_to_sgr br e) :: (sgr_error, action_context) result" rt1] by auto
qed

lemma bridge_start_succeeded:
  assumes run: "start_unit_via_runtime br clock ulid now uid (s, rt) = Some (r, (s', rt'))"
    and u: "map_of (sg_units s) uid = Some u" "su_state u \<noteq> UnitRunning"
    and u': "map_of (sg_units s') uid = Some u'" "su_state u' = UnitRunning"
  shows "\<exists>env ctx rt1. sb_factory br now u = Ok env \<and>
     submit_action (sb_wiring br) ulid now env sgr_runtime_context rt = (Ok ctx, rt1) \<and> status ctx = ActionSucceeded"
proof -
  have running: False if "failed_outcome uid (su_state u) x s r s'" for x :: "(sgr_error, action_context) result"
    using failed_not_running [OF that u u'(1)] u'(2) by blast
  obtain env where env: "sb_factory br now u = Inr env"
    using start_not_built [OF run u(1)] running by (cases "sb_factory br now u") auto
  then obtain ctx rt1 where ctx: "submit_action (sb_wiring br) ulid now env sgr_runtime_context rt = (Inr ctx, rt1)"
    using start_not_submitted [OF run u(1) env] running by (metis obj_sumE surj_pair)
  obtain q where q: "fsm_start (sb_emitter br) clock uid s = Some q"
    "if su_state u \<in> {UnitRunning, UnitDraft, UnitStopped, UnitQueued, UnitStarting} then arrived uid UnitRunning s q
     else q = (Err (InvalidStateTransition (su_state u) UnitRunning), s)"
    using start_cases [OF u(1), of "sb_emitter br" clock] by blast
  have "bridge_then (apply_result (fsm_start (sb_emitter br) clock uid) br clock uid ctx) (\<lambda>_ st. Some (Ok ctx, st)) (s, rt1) =
      Some (r, (s', rt'))"
    using run u(1) env ctx by (simp add: start_unit_via_runtime_def apply_start_result_def)
  then have "bridge_outcome uid (su_state u) {UnitRunning, UnitDraft, UnitStopped, UnitQueued, UnitStarting} UnitRunning ctx s r s'"
    using apply_then_answer [of s uid u "fsm_start (sb_emitter br) clock uid", OF u(1) q, of br clock ctx rt1] by auto
  then have "status ctx = ActionSucceeded"
    using running u u' by (auto simp: bridge_outcome_def split: if_splits)
  then show ?thesis using env ctx by blast
qed

section \<open>A sample bridge\<close>

definition sample_texts :: bridge_texts where
  "sample_texts = \<lparr>bt_sgr_error = (\<lambda>_. []), bt_runtime_error = (\<lambda>_. []), bt_status = (\<lambda>_. []), bt_reason = (\<lambda>_. [])\<rparr>"

definition sample_bridge :: "(nat \<times> (cache_key \<times> policy_decision) list, unit, unit, unit) sgr_bridge" where
  "sample_bridge = \<lparr>sb_wiring = sample_wiring, sb_emitter = None, sb_factory = default_build_action, sb_texts = sample_texts\<rparr>"

theorem bridge_follows_the_runtime_witness:
  "\<exists>ctx ctx' rt1 rt2. (\<exists>r s'. start_unit_via_runtime sample_bridge (\<lambda>n. 9) ''A'' 0 ''unit:v:a'' (sample_graph, sample_runtime) =
         Some (r, (s', rt1)) \<and>
       bridge_outcome ''unit:v:a'' UnitQueued {UnitRunning, UnitDraft, UnitStopped, UnitQueued, UnitStarting} UnitRunning ctx
         sample_graph r s') \<and>
     (\<exists>r s'. stop_unit_via_runtime sample_bridge (\<lambda>n. 9) ''A'' 0 ''unit:v:a'' (sample_graph, sample_runtime) =
         Some (r, (s', rt2)) \<and>
       bridge_outcome ''unit:v:a'' UnitQueued {UnitStopped, UnitRunning, UnitStopping, UnitHealthy, UnitDegraded, UnitUnhealthy}
         UnitStopped ctx' sample_graph r s')"
proof -
  let ?u = "new_service_unit 0 (Sgr_Graph.sample_manifest ''unit:v:a'' [])"
  have u: "map_of (sg_units sample_graph) ''unit:v:a'' = Some ?u" by (simp add: sample_graph_units)
  obtain env where env: "sb_factory sample_bridge 0 ?u = Ok env"
    by (simp add: sample_bridge_def default_build_action_def build_unit_action_def new_service_unit_def)
  have "\<exists>ctx rt'. submit_action (sb_wiring sample_bridge) ''A'' 0 e sgr_runtime_context sample_runtime = (Ok ctx, rt')" for e
    unfolding sample_bridge_def sgr_bridge.simps
    by (rule submit_returns [OF sample_can_answer]) (simp add: policy_verdict_def sample_runtime_def sample_engines_def)
  then obtain ctx rt1 ctx' rt2 where
    "submit_action (sb_wiring sample_bridge) ''A'' 0 env sgr_runtime_context sample_runtime = (Ok ctx, rt1)"
    "submit_action (sb_wiring sample_bridge) ''A'' 0 (retarget_for_stop env) sgr_runtime_context sample_runtime = (Ok ctx', rt2)"
    by meson
  from bridge_follows_the_runtime [OF u env this, of "\<lambda>n. 9"]
  have "(\<exists>r s'. start_unit_via_runtime sample_bridge (\<lambda>n. 9) ''A'' 0 ''unit:v:a'' (sample_graph, sample_runtime) =
         Some (r, (s', rt1)) \<and>
       bridge_outcome ''unit:v:a'' UnitQueued {UnitRunning, UnitDraft, UnitStopped, UnitQueued, UnitStarting} UnitRunning ctx
         sample_graph r s') \<and>
     (\<exists>r s'. stop_unit_via_runtime sample_bridge (\<lambda>n. 9) ''A'' 0 ''unit:v:a'' (sample_graph, sample_runtime) =
         Some (r, (s', rt2)) \<and>
       bridge_outcome ''unit:v:a'' UnitQueued {UnitStopped, UnitRunning, UnitStopping, UnitHealthy, UnitDegraded, UnitUnhealthy}
         UnitStopped ctx' sample_graph r s')"
    by (simp only: new_service_unit_def service_unit.simps)
  then show ?thesis by blast
qed

end
