(* ===== verification/Recovery_Types.thy ===== *)
theory Recovery_Types
  imports Sgr_Evidence
begin

text \<open>
  The data of crate \<open>aios-recovery\<close>: recovery modes, scopes and sub-boundaries (\<open>mode.rs\<close>), the first-boot
  vocabulary (\<open>boot.rs\<close>), bundles (\<open>bundle.rs\<close>), kernel candidates (\<open>kernel.rs\<close>), the entry request
  (\<open>boundary.rs\<close>) and the errors (\<open>error.rs\<close>). Identifiers are their strings.
\<close>

section \<open>Modes and scopes\<close>

datatype recovery_sub_boundary = SubNetwork | SubStorage | SubCompute | SystemFull

datatype recovery_mode_kind = ModeNormal | ModeRecovery | ModeDegraded | ModeFirstBoot

datatype recovery_mutable_scope =
    ProcessLifecycle | NetworkReconfig | FilesystemMutation | SysctlTuning | MeshRouting

datatype healing_capability =
    CanRestartProcess | CanRestartNetwork | CanReconfigureDNS | CanIsolateMeshNode | CanSnapshotState
  | CanEscalateToOperator

fun from_mutable_scope :: "recovery_mutable_scope \<Rightarrow> recovery_sub_boundary option" where
  "from_mutable_scope ProcessLifecycle = Some SubCompute"
| "from_mutable_scope SysctlTuning = Some SubCompute"
| "from_mutable_scope NetworkReconfig = Some SubNetwork"
| "from_mutable_scope MeshRouting = Some SubNetwork"
| "from_mutable_scope FilesystemMutation = Some SubStorage"

fun sub_boundary_contains :: "recovery_sub_boundary \<Rightarrow> recovery_sub_boundary \<Rightarrow> bool" where
  "sub_boundary_contains SystemFull _ = True"
| "sub_boundary_contains SubNetwork SubNetwork = True"
| "sub_boundary_contains SubStorage SubStorage = True"
| "sub_boundary_contains SubCompute SubCompute = True"
| "sub_boundary_contains _ _ = False"

fun capability_required_scope :: "healing_capability \<Rightarrow> recovery_mutable_scope" where
  "capability_required_scope CanRestartProcess = ProcessLifecycle"
| "capability_required_scope CanEscalateToOperator = ProcessLifecycle"
| "capability_required_scope CanRestartNetwork = NetworkReconfig"
| "capability_required_scope CanReconfigureDNS = NetworkReconfig"
| "capability_required_scope CanIsolateMeshNode = MeshRouting"
| "capability_required_scope CanSnapshotState = FilesystemMutation"

fun capability_is_subset_of :: "healing_capability \<Rightarrow> recovery_mutable_scope \<Rightarrow> bool" where
  "capability_is_subset_of CanRestartProcess ProcessLifecycle = True"
| "capability_is_subset_of CanEscalateToOperator ProcessLifecycle = True"
| "capability_is_subset_of CanRestartNetwork NetworkReconfig = True"
| "capability_is_subset_of CanReconfigureDNS NetworkReconfig = True"
| "capability_is_subset_of CanIsolateMeshNode MeshRouting = True"
| "capability_is_subset_of CanSnapshotState FilesystemMutation = True"
| "capability_is_subset_of _ _ = False"

lemma capability_subset_iff: "capability_is_subset_of c s \<longleftrightarrow> capability_required_scope c = s"
  by (cases c; cases s) simp_all

fun recovery_mode_wire :: "recovery_mode_kind \<Rightarrow> string" where
  "recovery_mode_wire ModeNormal = ''NORMAL''"
| "recovery_mode_wire ModeRecovery = ''RECOVERY''"
| "recovery_mode_wire ModeDegraded = ''DEGRADED''"
| "recovery_mode_wire ModeFirstBoot = ''FIRST_BOOT''"

fun mutable_scope_wire :: "recovery_mutable_scope \<Rightarrow> string" where
  "mutable_scope_wire ProcessLifecycle = ''PROCESS_LIFECYCLE''"
| "mutable_scope_wire NetworkReconfig = ''NETWORK_RECONFIG''"
| "mutable_scope_wire FilesystemMutation = ''FILESYSTEM_MUTATION''"
| "mutable_scope_wire SysctlTuning = ''SYSCTL_TUNING''"
| "mutable_scope_wire MeshRouting = ''MESH_ROUTING''"

text \<open>The text \<open>{sub:?}\<close> that the derived \<open>Debug\<close> writes.\<close>

fun sub_boundary_debug :: "recovery_sub_boundary \<Rightarrow> string" where
  "sub_boundary_debug SubNetwork = ''Network''"
| "sub_boundary_debug SubStorage = ''Storage''"
| "sub_boundary_debug SubCompute = ''Compute''"
| "sub_boundary_debug SystemFull = ''SystemFull''"

record recovery_state =
  rcs_mode :: recovery_mode_kind
  rcs_entered_at :: "instant option"
  rcs_exit_planned_at :: "instant option"
  rcs_reason :: "string option"
  rcs_operator_grant :: "string option"
  rcs_active_sub_boundaries :: "recovery_sub_boundary list"

section \<open>First boot\<close>

datatype boot_phase = BootCold | BootBootstrap | BootFirstBoot | BootNormal | BootRecovery

datatype first_boot_phase =
    StageInstallerMediaVerified | StageDiskPartitioned | StageKernelInstalled | StageAiosFsInitialized
  | StageVaultRootGenerated | StageInvariantBundleLoaded | StagePolicyBundleLoaded | StageIdentityBundleLoaded
  | StageRecoveryOperatorRegistration | StageAiProviderConfiguration | StageFirstGroupRegistration
  | StageFirstUserRegistration | StageRuntimeServicesStarted | StageFirstBootComplete
  | StageFailedRequiresRecovery

fun first_boot_phase_wire :: "first_boot_phase \<Rightarrow> string" where
  "first_boot_phase_wire StageInstallerMediaVerified = ''STAGE_INSTALLER_MEDIA_VERIFIED''"
| "first_boot_phase_wire StageDiskPartitioned = ''STAGE_DISK_PARTITIONED''"
| "first_boot_phase_wire StageKernelInstalled = ''STAGE_KERNEL_INSTALLED''"
| "first_boot_phase_wire StageAiosFsInitialized = ''STAGE_AIOS_FS_INITIALIZED''"
| "first_boot_phase_wire StageVaultRootGenerated = ''STAGE_VAULT_ROOT_GENERATED''"
| "first_boot_phase_wire StageInvariantBundleLoaded = ''STAGE_INVARIANT_BUNDLE_LOADED''"
| "first_boot_phase_wire StagePolicyBundleLoaded = ''STAGE_POLICY_BUNDLE_LOADED''"
| "first_boot_phase_wire StageIdentityBundleLoaded = ''STAGE_IDENTITY_BUNDLE_LOADED''"
| "first_boot_phase_wire StageRecoveryOperatorRegistration = ''STAGE_RECOVERY_OPERATOR_REGISTRATION''"
| "first_boot_phase_wire StageAiProviderConfiguration = ''STAGE_AI_PROVIDER_CONFIGURATION''"
| "first_boot_phase_wire StageFirstGroupRegistration = ''STAGE_FIRST_GROUP_REGISTRATION''"
| "first_boot_phase_wire StageFirstUserRegistration = ''STAGE_FIRST_USER_REGISTRATION''"
| "first_boot_phase_wire StageRuntimeServicesStarted = ''STAGE_RUNTIME_SERVICES_STARTED''"
| "first_boot_phase_wire StageFirstBootComplete = ''STAGE_FIRST_BOOT_COMPLETE''"
| "first_boot_phase_wire StageFailedRequiresRecovery = ''STAGE_FAILED_REQUIRES_RECOVERY''"

datatype first_boot_status = FbNotStarted | FbInProgress | FbCompleted | FbFailed | FbSkipped

record first_boot_context =
  fb_boot_id :: string
  fb_started_at :: instant
  fb_completed_at :: "instant option"
  fb_status :: first_boot_status
  fb_performed_phases :: "first_boot_phase list"

section \<open>Bundles and requests\<close>

record recovery_bundle =
  rbu_bundle_id :: string
  rbu_loaded_at :: instant
  rbu_hard_deny_signatures :: "string list"
  rbu_override_signatures :: "string list"
  rbu_signing_authority :: string

record enter_recovery_request =
  er_reason :: string
  er_operator_grant :: "string option"
  er_expected_phases :: "boot_phase list"
  er_bundle :: "recovery_bundle option"

section \<open>Kernel candidates\<close>

datatype candidate_state =
    CsBuilding | CsBuilt | CsGating | CsGatePassed | CsGateFailed | CsAPromoted | CsBDemotedToA | CsRollback | CsRetired

fun candidate_state_wire :: "candidate_state \<Rightarrow> string" where
  "candidate_state_wire CsBuilding = ''BUILDING''"
| "candidate_state_wire CsBuilt = ''BUILT''"
| "candidate_state_wire CsGating = ''GATING''"
| "candidate_state_wire CsGatePassed = ''GATE_PASSED''"
| "candidate_state_wire CsGateFailed = ''GATE_FAILED''"
| "candidate_state_wire CsAPromoted = ''A_PROMOTED''"
| "candidate_state_wire CsBDemotedToA = ''B_DEMOTED_TO_A''"
| "candidate_state_wire CsRollback = ''ROLLBACK''"
| "candidate_state_wire CsRetired = ''RETIRED''"

record kernel_manifest =
  km_version :: string
  km_min_aios_version :: string
  km_requires_recovery_install :: bool
  km_verification_intent :: "string option"
  km_tags :: "string list"

record kernel_candidate =
  kc_candidate_id :: string
  kc_version :: string
  kc_kernel_blake3 :: string
  kc_signature_ed25519 :: "u8 list"
  kc_signing_authority :: string
  kc_registered_at :: instant
  kc_state :: candidate_state
  kc_manifest :: kernel_manifest

section \<open>Errors\<close>

datatype recovery_error =
    RecoveryNotActive
  | AlreadyInRecovery
  | RecoveryAuthorizationInvalid string
  | RecoveryOnlyPathMutationDenied (denied_path: string) (denied_reason: string)
  | AiPathMutationDenied string
  | RecoveryBundleSignatureInvalid
  | RecoveryBundleUnknownAuthority string
  | FirstBootAlreadyCompleted
  | InvalidPhaseTransition first_boot_phase first_boot_phase
  | CandidateNotFound string
  | InvalidCandidateTransition candidate_state candidate_state
  | KernelSignatureInvalid
  | KernelUnknownAuthority string
  | RecoveryEvidenceEmitFailed string
  | RecoveryInternal string
  | SelfHealingPolicyInvalid string
  | SelfHealingRecoveryNotActive string
  | SelfHealingComponentUnknown string
  | SelfHealingEscalationRequired string string

text \<open>The texts of the errors, as \<open>thiserror\<close> writes them, with the derived \<open>Debug\<close> of a phase.\<close>

fun first_boot_phase_debug :: "first_boot_phase \<Rightarrow> string" where
  "first_boot_phase_debug StageInstallerMediaVerified = ''StageInstallerMediaVerified''"
| "first_boot_phase_debug StageDiskPartitioned = ''StageDiskPartitioned''"
| "first_boot_phase_debug StageKernelInstalled = ''StageKernelInstalled''"
| "first_boot_phase_debug StageAiosFsInitialized = ''StageAiosFsInitialized''"
| "first_boot_phase_debug StageVaultRootGenerated = ''StageVaultRootGenerated''"
| "first_boot_phase_debug StageInvariantBundleLoaded = ''StageInvariantBundleLoaded''"
| "first_boot_phase_debug StagePolicyBundleLoaded = ''StagePolicyBundleLoaded''"
| "first_boot_phase_debug StageIdentityBundleLoaded = ''StageIdentityBundleLoaded''"
| "first_boot_phase_debug StageRecoveryOperatorRegistration = ''StageRecoveryOperatorRegistration''"
| "first_boot_phase_debug StageAiProviderConfiguration = ''StageAiProviderConfiguration''"
| "first_boot_phase_debug StageFirstGroupRegistration = ''StageFirstGroupRegistration''"
| "first_boot_phase_debug StageFirstUserRegistration = ''StageFirstUserRegistration''"
| "first_boot_phase_debug StageRuntimeServicesStarted = ''StageRuntimeServicesStarted''"
| "first_boot_phase_debug StageFirstBootComplete = ''StageFirstBootComplete''"
| "first_boot_phase_debug StageFailedRequiresRecovery = ''StageFailedRequiresRecovery''"

fun recovery_error_text :: "recovery_error \<Rightarrow> string" where
  "recovery_error_text RecoveryNotActive = ''recovery mode is not active''"
| "recovery_error_text AlreadyInRecovery = ''recovery mode is already active''"
| "recovery_error_text (RecoveryAuthorizationInvalid w) = ''recovery authorization invalid: '' @ w"
| "recovery_error_text (RecoveryOnlyPathMutationDenied p w) = ''recovery-only path mutation denied for '' @ p @ '': '' @ w"
| "recovery_error_text (AiPathMutationDenied p) = ''AI path mutation denied for '' @ p"
| "recovery_error_text RecoveryBundleSignatureInvalid = ''recovery bundle signature is invalid''"
| "recovery_error_text (RecoveryBundleUnknownAuthority a) = ''unknown recovery bundle signing authority: '' @ a"
| "recovery_error_text FirstBootAlreadyCompleted = ''first-boot has already completed''"
| "recovery_error_text (InvalidPhaseTransition a b) =
     ''invalid first-boot phase transition: '' @ first_boot_phase_debug a @ '' -> '' @ first_boot_phase_debug b"
| "recovery_error_text (CandidateNotFound c) = ''kernel candidate not found: '' @ c"
| "recovery_error_text (InvalidCandidateTransition a b) =
     ''invalid kernel candidate transition: '' @ candidate_state_wire a @ '' -> '' @ candidate_state_wire b"
| "recovery_error_text KernelSignatureInvalid = ''kernel candidate signature is invalid''"
| "recovery_error_text (KernelUnknownAuthority a) = ''unknown kernel candidate signing authority: '' @ a"
| "recovery_error_text (RecoveryEvidenceEmitFailed w) = ''evidence emission failed: '' @ w"
| "recovery_error_text (RecoveryInternal w) = ''recovery internal error: '' @ w"
| "recovery_error_text (SelfHealingPolicyInvalid w) = ''self-healing policy invalid: '' @ w"
| "recovery_error_text (SelfHealingRecoveryNotActive c) =
     ''self-healing action denied '' @ [CHR 0xE2, CHR 0x80, CHR 0x94] @ '' recovery not active for component: '' @ c"
| "recovery_error_text (SelfHealingComponentUnknown c) = ''self-healing component unknown: '' @ c"
| "recovery_error_text (SelfHealingEscalationRequired c w) = ''self-healing escalation required for component '' @ c @ '': '' @ w"

end
