(* ===== verification/Recovery_Evidence.thy ===== *)
theory Recovery_Evidence
  imports Recovery_Types
begin

text \<open>
  The evidence of the recovery crate: the payloads (\<open>evidence_payloads.rs\<close>) and the emitter with its
  in-memory log (\<open>evidence_emit.rs\<close>). The boundary, the kernel pipeline and the first-boot driver run over
  one state, since the drivers consult the boundary and all of them share the log; \<open>rcv_then\<close> is the
  \<open>?\<close> operator over it.
\<close>

section \<open>The state and its computations\<close>

datatype first_boot_stage_status = FbsSuccess | FbsSkipped | FbsFailed

record first_boot_stage_record =
  fsr_phase :: first_boot_phase
  fsr_started_at :: instant
  fsr_completed_at :: instant
  fsr_status :: first_boot_stage_status
  fsr_reason :: "string option"

record recovery_sys =
  ry_state :: recovery_state
  ry_exit_token :: "string option"
  ry_candidates :: "(string \<times> kernel_candidate) list"
  ry_active :: "string option"
  ry_rollback_stack :: "string list"
  ry_first_boot :: first_boot_context
  ry_stage_records :: "first_boot_stage_record list"
  ry_log :: "evidence_receipt list"

type_synonym 'a rcv = "recovery_sys \<Rightarrow> (recovery_error, 'a) result \<times> recovery_sys"

definition rcv_return :: "'a \<Rightarrow> 'a rcv" where
  "rcv_return a s = (Ok a, s)"

definition rcv_fail :: "recovery_error \<Rightarrow> 'a rcv" where
  "rcv_fail e s = (Err e, s)"

definition rcv_then :: "'a rcv \<Rightarrow> ('a \<Rightarrow> 'b rcv) \<Rightarrow> 'b rcv" where
  "rcv_then m f s = (case m s of (Inl e, s') \<Rightarrow> (Err e, s') | (Inr a, s') \<Rightarrow> f a s')"

lemma rcv_simps [simp]: "rcv_return a s = (Ok a, s)" "rcv_fail e s = (Err e, s)"
  by (simp_all add: rcv_return_def rcv_fail_def)

lemma rcv_then_eq [simp]:
  "m s = (Inr a, s') \<Longrightarrow> rcv_then m f s = f a s'"
  "m s = (Inl e, s') \<Longrightarrow> rcv_then m f s = (Err e, s')"
  by (simp_all add: rcv_then_def)

section \<open>Payloads\<close>

record ('sk, 'vk) recovery_emitter = "('sk, 'vk) emit_env" +
  rve_subject :: string

definition AIOS_RECOVERY_SUBJECT :: string where
  "AIOS_RECOVERY_SUBJECT = ''_system:service:recovery-coordinator''"

definition rcv_instant :: "('sk, 'vk) recovery_emitter \<Rightarrow> instant \<Rightarrow> json" where
  "rcv_instant em t = JString (ser_datetime (em_lib em) t)"

definition recovery_entered_payload :: "('sk, 'vk) recovery_emitter \<Rightarrow> instant \<Rightarrow> recovery_state \<Rightarrow> json" where
  "recovery_entered_payload em now st = JObject
     [(''from_mode'', JString (recovery_mode_wire ModeNormal)), (''to_mode'', JString (recovery_mode_wire (rcs_mode st))),
      (''entered_at'', rcv_instant em (case rcs_entered_at st of None \<Rightarrow> now | Some t \<Rightarrow> t)),
      (''reason'', opt_str_json (rcs_reason st)), (''operator_grant'', opt_str_json (rcs_operator_grant st))]"

definition recovery_exited_payload ::
    "('sk, 'vk) recovery_emitter \<Rightarrow> instant \<Rightarrow> recovery_state \<Rightarrow> string \<Rightarrow> json" where
  "recovery_exited_payload em now st exit_hash = JObject
     [(''from_mode'', JString (recovery_mode_wire ModeRecovery)), (''to_mode'', JString (recovery_mode_wire (rcs_mode st))),
      (''exited_at'', rcv_instant em now), (''exit_hash'', JString exit_hash)]"

definition first_boot_started_payload ::
    "('sk, 'vk) recovery_emitter \<Rightarrow> first_boot_phase list \<Rightarrow> first_boot_context \<Rightarrow> json" where
  "first_boot_started_payload em phases c = JObject
     [(''boot_id'', JString (fb_boot_id c)), (''started_at'', rcv_instant em (fb_started_at c)),
      (''expected_phases'', JArray (map (JString \<circ> first_boot_phase_wire) phases))]"

definition first_boot_phase_completed_payload ::
    "('sk, 'vk) recovery_emitter \<Rightarrow> instant \<Rightarrow> first_boot_phase \<Rightarrow> first_boot_context \<Rightarrow> json" where
  "first_boot_phase_completed_payload em now p c = JObject
     [(''boot_id'', JString (fb_boot_id c)), (''phase'', JString (first_boot_phase_wire p)),
      (''completed_at'', rcv_instant em now)]"

definition first_boot_completed_payload ::
    "('sk, 'vk) recovery_emitter \<Rightarrow> instant \<Rightarrow> first_boot_context \<Rightarrow> first_boot_phase list \<Rightarrow> json" where
  "first_boot_completed_payload em now c skipped = JObject
     [(''boot_id'', JString (fb_boot_id c)),
      (''completed_at'', rcv_instant em (case fb_completed_at c of None \<Rightarrow> now | Some t \<Rightarrow> t)),
      (''total_phases'', JNumber (JInt (int (length (fb_performed_phases c))))),
      (''skipped_phases'', JArray (map (JString \<circ> first_boot_phase_wire) skipped))]"

definition kernel_candidate_registered_payload :: "('sk, 'vk) recovery_emitter \<Rightarrow> kernel_candidate \<Rightarrow> json" where
  "kernel_candidate_registered_payload em c = JObject
     [(''candidate_id'', JString (kc_candidate_id c)), (''version'', JString (kc_version c)),
      (''kernel_blake3'', JString (kc_kernel_blake3 c)), (''signing_authority'', JString (kc_signing_authority c)),
      (''registered_at'', rcv_instant em (kc_registered_at c))]"

definition kernel_activated_payload :: "('sk, 'vk) recovery_emitter \<Rightarrow> instant \<Rightarrow> kernel_candidate \<Rightarrow> json" where
  "kernel_activated_payload em now c = JObject
     [(''candidate_id'', JString (kc_candidate_id c)), (''version'', JString (kc_version c)),
      (''kernel_blake3'', JString (kc_kernel_blake3 c)), (''activated_at'', rcv_instant em now),
      (''required_recovery'', JBool (km_requires_recovery_install (kc_manifest c)))]"

definition kernel_rolled_back_payload ::
    "('sk, 'vk) recovery_emitter \<Rightarrow> instant \<Rightarrow> kernel_candidate \<Rightarrow> string \<Rightarrow> string \<Rightarrow> json" where
  "kernel_rolled_back_payload em now c prev why = JObject
     [(''candidate_id'', JString (kc_candidate_id c)), (''previous_candidate_id'', JString prev),
      (''reason'', JString why), (''rolled_back_at'', rcv_instant em now)]"

definition kernel_gate_result_payload :: "('sk, 'vk) recovery_emitter \<Rightarrow> instant \<Rightarrow> kernel_candidate \<Rightarrow> json" where
  "kernel_gate_result_payload em now c = JObject
     [(''candidate_id'', JString (kc_candidate_id c)), (''version'', JString (kc_version c)),
      (''kernel_blake3'', JString (kc_kernel_blake3 c)), (''result'', JString ''GATE_PASSED''),
      (''completed_at'', rcv_instant em now)]"

section \<open>Emission\<close>

definition rcv_expected_previous ::
    "evidence_receipt option \<Rightarrow> string option \<Rightarrow> (evidence_error, unit) result" where
  "rcv_expected_previous previous expected =
     (case (expected, previous) of
        (None, _) \<Rightarrow> Ok ()
      | (Some e, None) \<Rightarrow>
          Err (EncodingFailed (''expected previous receipt id '' @ e @ '', but chain is empty''))
      | (Some e, Some p) \<Rightarrow>
          if receipt_id p = e then Ok ()
          else Err (EncodingFailed (''expected previous receipt id '' @ e @
                 '', but chain tail is '' @ receipt_id p)))"

definition rcv_append_signed ::
    "('sk, 'vk) recovery_emitter \<Rightarrow> receipt_builder \<Rightarrow> string option \<Rightarrow> evidence_receipt list \<Rightarrow>
     (evidence_error, evidence_receipt) result \<times> evidence_receipt list" where
  "rcv_append_signed em b expected chain =
     (case rcv_expected_previous (last_receipt chain) expected of
        Inl e \<Rightarrow> (Err e, chain)
      | Inr _ \<Rightarrow>
          (case seal_signed (em_lib em) (em_ulid em (length chain)) (em_now em (length chain)) b
                  (last_receipt chain) (em_key em) of
             Inl e \<Rightarrow> (Err e, chain)
           | Inr r \<Rightarrow> (case chain_append (em_lib em) chain r of
                         Inl e \<Rightarrow> (Err e, chain)
                       | Inr chain' \<Rightarrow> (Ok r, chain'))))"

definition rcv_emit :: "('sk, 'vk) recovery_emitter \<Rightarrow> string \<Rightarrow> json \<Rightarrow> string option \<Rightarrow> string rcv" where
  "rcv_emit em rt payload prev s =
     (case rcv_append_signed em
             (with_payload payload
               (builder_new (RecordType rt) (retention_class_for (RecordType rt)) (rve_subject em)))
             prev (ry_log s) of
        (Inl e, chain') \<Rightarrow> (Err (RecoveryEvidenceEmitFailed (em_show em e)), s\<lparr>ry_log := chain'\<rparr>)
      | (Inr r, chain') \<Rightarrow> (Ok (receipt_id r), s\<lparr>ry_log := chain'\<rparr>))"

definition hash_exit_token :: "('sk, 'vk) recovery_emitter \<Rightarrow> string \<Rightarrow> string" where
  "hash_exit_token em tok = ''blake3:'' @ hex_digest (em_lib em) tok"

definition emit_recovery_entered :: "('sk, 'vk) recovery_emitter \<Rightarrow> instant \<Rightarrow> recovery_state \<Rightarrow> string rcv" where
  "emit_recovery_entered em now st = rcv_emit em ''RECOVERY_BOOT_ENTERED'' (recovery_entered_payload em now st) None"

definition emit_recovery_exited_with_exit_token ::
    "('sk, 'vk) recovery_emitter \<Rightarrow> instant \<Rightarrow> recovery_state \<Rightarrow> string \<Rightarrow> string rcv" where
  "emit_recovery_exited_with_exit_token em now st tok =
     rcv_emit em ''RECOVERY_BOOT_EXITED'' (recovery_exited_payload em now st (hash_exit_token em tok)) None"

definition emit_first_boot_started ::
    "('sk, 'vk) recovery_emitter \<Rightarrow> first_boot_phase list \<Rightarrow> first_boot_context \<Rightarrow> string rcv" where
  "emit_first_boot_started em phases c = rcv_emit em ''FIRST_BOOT_STARTED'' (first_boot_started_payload em phases c) None"

definition emit_first_boot_phase_completed ::
    "('sk, 'vk) recovery_emitter \<Rightarrow> instant \<Rightarrow> first_boot_phase \<Rightarrow> first_boot_context \<Rightarrow> string rcv" where
  "emit_first_boot_phase_completed em now p c =
     rcv_emit em ''FIRST_BOOT_STAGE_COMPLETED'' (first_boot_phase_completed_payload em now p c) None"

definition emit_first_boot_completed_with_skipped ::
    "('sk, 'vk) recovery_emitter \<Rightarrow> instant \<Rightarrow> first_boot_context \<Rightarrow> first_boot_phase list \<Rightarrow> string rcv" where
  "emit_first_boot_completed_with_skipped em now c skipped =
     rcv_emit em ''FIRST_BOOT_COMPLETE'' (first_boot_completed_payload em now c skipped) None"

definition emit_kernel_candidate_registered :: "('sk, 'vk) recovery_emitter \<Rightarrow> kernel_candidate \<Rightarrow> string rcv" where
  "emit_kernel_candidate_registered em c =
     rcv_emit em ''KERNEL_PIPELINE_STARTED'' (kernel_candidate_registered_payload em c) None"

definition emit_kernel_gate_result :: "('sk, 'vk) recovery_emitter \<Rightarrow> instant \<Rightarrow> kernel_candidate \<Rightarrow> string rcv" where
  "emit_kernel_gate_result em now c = rcv_emit em ''KERNEL_GATE_RESULT'' (kernel_gate_result_payload em now c) None"

definition emit_kernel_activated :: "('sk, 'vk) recovery_emitter \<Rightarrow> instant \<Rightarrow> kernel_candidate \<Rightarrow> string rcv" where
  "emit_kernel_activated em now c = rcv_emit em ''KERNEL_PROMOTED_TO_A'' (kernel_activated_payload em now c) None"

definition emit_kernel_rolled_back_to_previous ::
    "('sk, 'vk) recovery_emitter \<Rightarrow> instant \<Rightarrow> kernel_candidate \<Rightarrow> string \<Rightarrow> string \<Rightarrow> string rcv" where
  "emit_kernel_rolled_back_to_previous em now c prev why =
     rcv_emit em ''KERNEL_ROLLBACK_PERFORMED'' (kernel_rolled_back_payload em now c prev why) None"

text \<open>\<open>if let Some(emitter) = &self.evidence_emitter { emitter.emit_...(...).await?; }\<close>\<close>

definition rcv_emit_when ::
    "('sk, 'vk) recovery_emitter option \<Rightarrow> (('sk, 'vk) recovery_emitter \<Rightarrow> string rcv) \<Rightarrow> unit rcv" where
  "rcv_emit_when em f = (case em of None \<Rightarrow> rcv_return () | Some e \<Rightarrow> rcv_then (f e) (\<lambda>_. rcv_return ()))"

section \<open>An emission touches the log only\<close>

definition emits_only :: "(('sk, 'vk) recovery_emitter \<Rightarrow> string rcv) \<Rightarrow> bool" where
  "emits_only f \<longleftrightarrow> (\<forall>em s. \<exists>l. (\<exists>x. f em s = (Ok x, s\<lparr>ry_log := l\<rparr>)) \<or>
     (\<exists>w. f em s = (Err (RecoveryEvidenceEmitFailed w), s\<lparr>ry_log := l\<rparr>)))"

lemma rcv_emit_only: "emits_only (\<lambda>em. rcv_emit em rt (p em) prev)"
  unfolding emits_only_def by (auto simp: rcv_emit_def split: prod.splits sum.splits)

lemmas recovery_emission_defs = emit_recovery_entered_def emit_recovery_exited_with_exit_token_def
  emit_first_boot_started_def emit_first_boot_phase_completed_def emit_first_boot_completed_with_skipped_def
  emit_kernel_candidate_registered_def emit_kernel_gate_result_def emit_kernel_activated_def
  emit_kernel_rolled_back_to_previous_def

lemma recovery_emissions_only [simp, intro]:
  "emits_only (\<lambda>em. emit_recovery_entered em now st)"
  "emits_only (\<lambda>em. emit_recovery_exited_with_exit_token em now st tok)"
  "emits_only (\<lambda>em. emit_first_boot_started em phases c)"
  "emits_only (\<lambda>em. emit_first_boot_phase_completed em now p c)"
  "emits_only (\<lambda>em. emit_first_boot_completed_with_skipped em now c skipped)"
  "emits_only (\<lambda>em. emit_kernel_candidate_registered em k)"
  "emits_only (\<lambda>em. emit_kernel_gate_result em now k)"
  "emits_only (\<lambda>em. emit_kernel_activated em now k)"
  "emits_only (\<lambda>em. emit_kernel_rolled_back_to_previous em now k prev why)"
  unfolding recovery_emission_defs by (rule rcv_emit_only)+

text \<open>So an emission, when there is an emitter, goes on with the log changed or ends with its own error.\<close>

lemma rcv_emit_when_cases:
  assumes "emits_only f"
  shows "\<exists>l. rcv_emit_when em f s = (Ok (), s\<lparr>ry_log := l\<rparr>) \<or>
     (\<exists>w. em \<noteq> None \<and> rcv_emit_when em f s = (Err (RecoveryEvidenceEmitFailed w), s\<lparr>ry_log := l\<rparr>))"
proof (cases em)
  case None
  then have "rcv_emit_when em f s = (Ok (), s\<lparr>ry_log := ry_log s\<rparr>)" by (simp add: rcv_emit_when_def)
  then show ?thesis by blast
next
  case (Some e)
  from assms obtain l where "(\<exists>x. f e s = (Ok x, s\<lparr>ry_log := l\<rparr>)) \<or>
      (\<exists>w. f e s = (Err (RecoveryEvidenceEmitFailed w), s\<lparr>ry_log := l\<rparr>))"
    unfolding emits_only_def by blast
  then show ?thesis using Some by (auto simp: rcv_emit_when_def)
qed

lemma rcv_emit_then:
  assumes "emits_only f"
  shows "\<exists>l. rcv_then (rcv_emit_when em f) g s = g () (s\<lparr>ry_log := l\<rparr>) \<or>
     (\<exists>w. em \<noteq> None \<and> rcv_then (rcv_emit_when em f) g s = (Err (RecoveryEvidenceEmitFailed w), s\<lparr>ry_log := l\<rparr>))"
  using rcv_emit_when_cases [OF assms, of em s] by auto

lemma rcv_emit_none [simp]: "rcv_then (rcv_emit_when None f) g s = g () s"
  by (simp add: rcv_emit_when_def)

end
