(* ===== verification/Recovery_Boundary.thy ===== *)
theory Recovery_Boundary
  imports Recovery_Evidence Labelled_Runs "HOL-Library.Multiset"
begin

text \<open>
  The in-memory recovery boundary, \<open>in_memory_boundary.rs\<close>: entering recovery mode with an operator grant or
  a fallback reason and an optional signed bundle, leaving it with the token minted at entry, and the
  sub-boundaries. Entering writes the state under one lock and the token under another, so the step
  relation has the two as separate steps; leaving holds both locks.
\<close>

section \<open>Signed bundles\<close>

record 'vk recovery_lib =
  rcl_to_vec :: "json \<Rightarrow> (string, u8 list) result"
  rcl_verify :: "'vk \<Rightarrow> u8 list \<Rightarrow> u8 list \<Rightarrow> bool"
  rcl_show_datetime :: "instant \<Rightarrow> string"
  rcl_hex_digest :: "u8 list \<Rightarrow> string"

record ('sk, 'vk) boundary_env =
  bd_lib :: "'vk recovery_lib"
  bd_trusted_authorities :: "(string \<times> 'vk) list"
  bd_emitter :: "('sk, 'vk) recovery_emitter option"

definition BUNDLE_SIGNATURE_PREFIX :: string where
  "BUNDLE_SIGNATURE_PREFIX = ''ed25519:''"

definition signed_material :: "string list \<Rightarrow> string list" where
  "signed_material values = filter (\<lambda>v. \<not> prefix BUNDLE_SIGNATURE_PREFIX v) values"

definition signed_recovery_bundle_body :: "'vk recovery_lib \<Rightarrow> recovery_bundle \<Rightarrow> json" where
  "signed_recovery_bundle_body lib b = JObject
     [(''bundle_id'', JString (rbu_bundle_id b)), (''loaded_at'', JString (rcl_show_datetime lib (rbu_loaded_at b))),
      (''signing_authority'', JString (rbu_signing_authority b)),
      (''hard_deny_signatures'', JArray (map JString (signed_material (rbu_hard_deny_signatures b)))),
      (''override_signatures'', JArray (map JString (signed_material (rbu_override_signatures b))))]"

definition canonical_bundle_body_bytes :: "'vk recovery_lib \<Rightarrow> recovery_bundle \<Rightarrow> (recovery_error, u8 list) result" where
  "canonical_bundle_body_bytes lib b =
     (case rcl_to_vec lib (signed_recovery_bundle_body lib b) of
        Inl e \<Rightarrow> Err (RecoveryInternal (''recovery bundle serialise: '' @ e))
      | Inr bytes \<Rightarrow> Ok bytes)"

definition recovery_hex_value :: "char \<Rightarrow> (recovery_error, u8) result" where
  "recovery_hex_value c =
     (let b = (of_char c :: nat) in
      if 48 \<le> b \<and> b \<le> 57 then Ok (of_nat (b - 48))
      else if 97 \<le> b \<and> b \<le> 102 then Ok (of_nat (b - 97 + 10))
      else if 65 \<le> b \<and> b \<le> 70 then Ok (of_nat (b - 65 + 10))
      else Err RecoveryBundleSignatureInvalid)"

fun recovery_hex_pairs :: "string \<Rightarrow> (recovery_error, u8 list) result" where
  "recovery_hex_pairs (a # b # rest) =
     try_then (recovery_hex_value a) (\<lambda>x. try_then (recovery_hex_value b) (\<lambda>y.
     try_then (recovery_hex_pairs rest) (\<lambda>zs. Ok ((push_bit 4 x OR y) # zs))))"
| "recovery_hex_pairs _ = Ok []"

definition recovery_decode_hex_signature :: "string \<Rightarrow> (recovery_error, u8 list) result" where
  "recovery_decode_hex_signature hex =
     (if length hex \<noteq> 128 then Err RecoveryBundleSignatureInvalid else recovery_hex_pairs hex)"

definition bundle_signature :: "recovery_bundle \<Rightarrow> (recovery_error, u8 list) result" where
  "bundle_signature b =
     (case List.map_filter (strip_prefix_str BUNDLE_SIGNATURE_PREFIX)
             (rbu_hard_deny_signatures b @ rbu_override_signatures b) of
        [sig] \<Rightarrow> recovery_decode_hex_signature sig
      | _ \<Rightarrow> Err RecoveryBundleSignatureInvalid)"

definition verify_bundle :: "('sk, 'vk) boundary_env \<Rightarrow> recovery_bundle \<Rightarrow> (recovery_error, unit) result" where
  "verify_bundle env b =
     (case map_of (bd_trusted_authorities env) (rbu_signing_authority b) of
        None \<Rightarrow> Err (RecoveryBundleUnknownAuthority (rbu_signing_authority b))
      | Some vk \<Rightarrow>
          try_then (bundle_signature b) (\<lambda>sig.
          try_then (canonical_bundle_body_bytes (bd_lib env) b) (\<lambda>body.
          if rcl_verify (bd_lib env) vk body sig then Ok () else Err RecoveryBundleSignatureInvalid)))"

section \<open>Entering and leaving\<close>

definition normal_state :: recovery_state where
  "normal_state = \<lparr>rcs_mode = ModeNormal, rcs_entered_at = None, rcs_exit_planned_at = None, rcs_reason = None,
     rcs_operator_grant = None, rcs_active_sub_boundaries = []\<rparr>"

definition is_s91_fallback_reason :: "string \<Rightarrow> bool" where
  "is_s91_fallback_reason reason \<longleftrightarrow> trim reason \<in>
     {''BOOT_FAILURE_AUTO'', ''INVARIANT_BUNDLE_SIGNATURE_FAILURE'', ''POLICY_BUNDLE_CORRUPTION'',
      ''AIOSFS_ROOT_UNRESOLVABLE'', ''VAULT_ROOT_KEY_UNAVAILABLE'', ''IDENTITY_BUNDLE_FAILURE'',
      ''EVIDENCE_LOG_TAMPER_DETECTED'', ''KERNEL_IMAGE_TAMPER_DETECTED'', ''FIRMWARE_TAMPER_DETECTED''}"

definition has_operator_grant :: "enter_recovery_request \<Rightarrow> bool" where
  "has_operator_grant req \<longleftrightarrow> (\<exists>g. er_operator_grant req = Some g \<and> trim g \<noteq> [])"

definition validate_entry_request :: "enter_recovery_request \<Rightarrow> (recovery_error, unit) result" where
  "validate_entry_request req =
     (if BootRecovery \<notin> set (er_expected_phases req)
      then Err (RecoveryAuthorizationInvalid ''expected phases must include RECOVERY'')
      else if has_operator_grant req \<or> is_s91_fallback_reason (er_reason req) then Ok ()
      else Err (RecoveryAuthorizationInvalid ''operator grant or S9.1 fallback entry reason required''))"

text \<open>The part of \<open>enter_recovery\<close> that holds the lock of the state.\<close>

definition begin_recovery :: "('sk, 'vk) boundary_env \<Rightarrow> instant \<Rightarrow> enter_recovery_request \<Rightarrow> recovery_state rcv" where
  "begin_recovery env now req s =
     (if rcs_mode (ry_state s) = ModeRecovery then (Err AlreadyInRecovery, s)
      else case try_then (validate_entry_request req) (\<lambda>_.
                  case er_bundle req of None \<Rightarrow> Ok () | Some b \<Rightarrow> verify_bundle env b) of
             Inl e \<Rightarrow> (Err e, s)
           | Inr _ \<Rightarrow>
               let next_state = \<lparr>rcs_mode = ModeRecovery, rcs_entered_at = Some now, rcs_exit_planned_at = None,
                     rcs_reason = Some (er_reason req), rcs_operator_grant = er_operator_grant req,
                     rcs_active_sub_boundaries = [SystemFull]\<rparr>
               in (Ok next_state, s\<lparr>ry_state := next_state\<rparr>))"

text \<open>The part that holds the lock of the token.\<close>

definition store_exit_token :: "string \<Rightarrow> unit rcv" where
  "store_exit_token tok s = (Ok (), s\<lparr>ry_exit_token := Some tok\<rparr>)"

definition enter_recovery ::
    "('sk, 'vk) boundary_env \<Rightarrow> string \<Rightarrow> instant \<Rightarrow> instant \<Rightarrow> enter_recovery_request \<Rightarrow> recovery_state rcv" where
  "enter_recovery env ulid now later req =
     rcv_then (begin_recovery env now req) (\<lambda>next_state.
     rcv_then (store_exit_token (''rexit_'' @ ulid)) (\<lambda>_.
     rcv_then (rcv_emit_when (bd_emitter env) (\<lambda>em. emit_recovery_entered em later next_state)) (\<lambda>_.
     rcv_return next_state)))"

definition exit_recovery :: "('sk, 'vk) boundary_env \<Rightarrow> instant \<Rightarrow> string \<Rightarrow> recovery_state rcv" where
  "exit_recovery env now tok s =
     (if rcs_mode (ry_state s) \<noteq> ModeRecovery then (Err RecoveryNotActive, s)
      else if ry_exit_token s \<noteq> Some tok then (Err (RecoveryAuthorizationInvalid ''exit token mismatch''), s)
      else rcv_then (rcv_emit_when (bd_emitter env)
                       (\<lambda>em. emit_recovery_exited_with_exit_token em now normal_state tok))
             (\<lambda>_. rcv_return normal_state) (s\<lparr>ry_state := normal_state, ry_exit_token := None\<rparr>))"

definition is_recovery_active :: "recovery_sys \<Rightarrow> bool" where
  "is_recovery_active s \<longleftrightarrow> rcs_mode (ry_state s) = ModeRecovery"

section \<open>Sub-boundaries\<close>

definition set_sub_boundaries :: "recovery_sub_boundary list \<Rightarrow> recovery_state rcv" where
  "set_sub_boundaries subs s =
     (let st = (ry_state s)\<lparr>rcs_active_sub_boundaries := subs\<rparr> in (Ok st, s\<lparr>ry_state := st\<rparr>))"

definition enter_sub_boundary :: "recovery_sub_boundary \<Rightarrow> recovery_state rcv" where
  "enter_sub_boundary sub s =
     (let subs = rcs_active_sub_boundaries (ry_state s) in
      if sub = SystemFull
      then if subs \<noteq> [] then (Err AlreadyInRecovery, s) else set_sub_boundaries [SystemFull] s
      else if SystemFull \<in> set subs
      then (Err (RecoveryAuthorizationInvalid ''cannot activate sub-boundary when SystemFull is active''), s)
      else if sub \<in> set subs
      then (Err (RecoveryAuthorizationInvalid (''sub-boundary '' @ sub_boundary_debug sub @ '' is already active'')), s)
      else set_sub_boundaries (subs @ [sub]) s)"

text \<open>\<open>Iterator::position\<close> and \<open>Vec::swap_remove\<close>: the last element takes the place of the one removed.\<close>

fun slot_position :: "'a \<Rightarrow> 'a list \<Rightarrow> nat option" where
  "slot_position x [] = None"
| "slot_position x (y # ys) = (if x = y then Some 0 else map_option Suc (slot_position x ys))"

definition swap_remove :: "nat \<Rightarrow> 'a list \<Rightarrow> 'a list" where
  "swap_remove i xs = (if i = length xs - 1 then butlast xs else butlast (xs[i := last xs]))"

definition exit_sub_boundary :: "recovery_sub_boundary \<Rightarrow> recovery_state rcv" where
  "exit_sub_boundary sub s =
     (let subs = rcs_active_sub_boundaries (ry_state s) in
      if sub = SystemFull then set_sub_boundaries [] s
      else if SystemFull \<in> set subs
      then (Err (RecoveryAuthorizationInvalid
             (''cannot exit individual sub-boundary when SystemFull is active '' @ [CHR 0xE2, CHR 0x80, CHR 0x94] @ '' exit SystemFull first'')), s)
      else case slot_position sub subs of
             None \<Rightarrow> (Err (RecoveryAuthorizationInvalid (''sub-boundary '' @ sub_boundary_debug sub @ '' is not active'')), s)
           | Some i \<Rightarrow> set_sub_boundaries (swap_remove i subs) s)"

definition is_sub_recovery_active :: "recovery_sub_boundary \<Rightarrow> recovery_sys \<Rightarrow> bool" where
  "is_sub_recovery_active sub s \<longleftrightarrow>
     SystemFull \<in> set (rcs_active_sub_boundaries (ry_state s)) \<or> sub \<in> set (rcs_active_sub_boundaries (ry_state s))"

lemma slot_position_Some: "slot_position x xs = Some i \<Longrightarrow> i < length xs \<and> xs ! i = x"
  by (induction xs arbitrary: i) (auto split: if_splits)

lemma slot_position_None: "slot_position x xs = None \<longleftrightarrow> x \<notin> set xs"
  by (induction xs) auto

lemma swap_remove_mset: "i < length xs \<Longrightarrow> mset (swap_remove i xs) = mset xs - {#xs ! i#}"
proof -
  assume i: "i < length xs"
  then obtain ys l where xs: "xs = ys @ [l]" by (metis append_butlast_last_id length_0_conv not_less_zero)
  show ?thesis
  proof (cases "i = length ys")
    case False
    then have "i < length ys" using i xs by simp
    then show ?thesis using xs by (simp add: swap_remove_def list_update_append nth_append mset_update)
  qed (simp add: swap_remove_def xs)
qed

lemma swap_remove_set:
  assumes "i < length xs" and "distinct xs"
  shows "distinct (swap_remove i xs)" "set (swap_remove i xs) = set xs - {xs ! i}"
proof -
  have m: "mset (swap_remove i xs) = mset_set (set xs - {xs ! i})"
    using swap_remove_mset [OF assms(1)] assms by (simp add: mset_set_Diff mset_set_set)
  then show eq: "set (swap_remove i xs) = set xs - {xs ! i}" by (metis finite_Diff finite_set set_mset_mset finite_set_mset_mset_set)
  have "length (swap_remove i xs) = card (set (swap_remove i xs))"
    unfolding eq using arg_cong [OF m, of size] by simp
  then show "distinct (swap_remove i xs)" by (simp add: card_distinct)
qed

section \<open>Sessions\<close>

datatype boundary_event =
    EvEnter enter_recovery_request string
  | EvToken string
  | EvExit string
  | EvEnterSub recovery_sub_boundary
  | EvExitSub recovery_sub_boundary
  | EvOther

text \<open>
  The calls of the boundary, interleaved: the second component of the state holds the tokens that an entry
  has minted and not yet stored. A refused entry, an emission and the work of the other drivers leave state
  and token alone.
\<close>

inductive boundary_step ::
    "('sk, 'vk) boundary_env \<Rightarrow> recovery_sys \<times> string list \<Rightarrow> boundary_event \<Rightarrow> recovery_sys \<times> string list \<Rightarrow> bool"
  for env where
  step_enter: "begin_recovery env now req s = (Ok st, s') \<Longrightarrow> boundary_step env (s, ps) (EvEnter req tok) (s', tok # ps)"
| step_token: "tok \<in> set ps \<Longrightarrow> store_exit_token tok s = (r, s') \<Longrightarrow> boundary_step env (s, ps) (EvToken tok) (s', remove1 tok ps)"
| step_exit: "exit_recovery env now tok s = (r, s') \<Longrightarrow> boundary_step env (s, ps) (EvExit tok) (s', ps)"
| step_enter_sub: "enter_sub_boundary sub s = (r, s') \<Longrightarrow> boundary_step env (s, ps) (EvEnterSub sub) (s', ps)"
| step_exit_sub: "exit_sub_boundary sub s = (r, s') \<Longrightarrow> boundary_step env (s, ps) (EvExitSub sub) (s', ps)"
| step_other: "ry_state s' = ry_state s \<Longrightarrow> ry_exit_token s' = ry_exit_token s \<Longrightarrow> boundary_step env (s, ps) EvOther (s', ps)"

definition subs_ok :: "recovery_sub_boundary list \<Rightarrow> bool" where
  "subs_ok subs \<longleftrightarrow> distinct subs \<and> (SystemFull \<in> set subs \<longrightarrow> subs = [SystemFull])"

definition session_inv :: "recovery_sys \<times> string list \<Rightarrow> bool" where
  "session_inv = (\<lambda>(s, ps).
     subs_ok (rcs_active_sub_boundaries (ry_state s)) \<and>
     (if is_recovery_active s
      then ps = [] \<and> ry_exit_token s \<noteq> None \<or> (\<exists>tok. ps = [tok]) \<and> ry_exit_token s = None
      else ps = [] \<and> ry_exit_token s = None \<and>
        (ry_state s)\<lparr>rcs_active_sub_boundaries := []\<rparr> = normal_state))"

text \<open>
  What a trusted bundle is, independently of the code that checks it: its authority is a trusted one, among all its
  strings exactly one starts with \<open>ed25519:\<close>, the rest of it spells 64 bytes in hexadecimal digits of either case, and these
  bytes are a signature of the authority over the canonical body.
\<close>

definition hex_digits :: "(char \<times> nat) list" where
  "hex_digits = zip ''0123456789abcdefABCDEF'' ([0..<16] @ [10..<16])"

primrec spells :: "u8 list \<Rightarrow> string \<Rightarrow> bool" where
  "spells [] hex = (hex = [])"
| "spells (x # xs) hex =
     (case hex of a # b # rest \<Rightarrow>
        map_of hex_digits a = Some (unat x div 16) \<and> map_of hex_digits b = Some (unat x mod 16) \<and> spells xs rest
      | _ \<Rightarrow> False)"

definition trusted_bundle :: "('sk, 'vk) boundary_env \<Rightarrow> recovery_bundle \<Rightarrow> bool" where
  "trusted_bundle env b \<longleftrightarrow> (\<exists>vk hex sig body.
     map_of (bd_trusted_authorities env) (rbu_signing_authority b) = Some vk \<and>
     filter (prefix ''ed25519:'') (rbu_hard_deny_signatures b @ rbu_override_signatures b) = [''ed25519:'' @ hex] \<and>
     length sig = 64 \<and> spells sig hex \<and>
     rcl_to_vec (bd_lib env) (signed_recovery_bundle_body (bd_lib env) b) = Ok body \<and> rcl_verify (bd_lib env) vk body sig)"

text \<open>An entry that may open a session.\<close>

definition accepted_entry :: "('sk, 'vk) boundary_env \<Rightarrow> enter_recovery_request \<Rightarrow> bool" where
  "accepted_entry env req \<longleftrightarrow> BootRecovery \<in> set (er_expected_phases req) \<and>
     ((\<exists>g. er_operator_grant req = Some g \<and> trim g \<noteq> []) \<or>
      trim (er_reason req) \<in> {''BOOT_FAILURE_AUTO'', ''INVARIANT_BUNDLE_SIGNATURE_FAILURE'', ''POLICY_BUNDLE_CORRUPTION'',
        ''AIOSFS_ROOT_UNRESOLVABLE'', ''VAULT_ROOT_KEY_UNAVAILABLE'', ''IDENTITY_BUNDLE_FAILURE'',
        ''EVIDENCE_LOG_TAMPER_DETECTED'', ''KERNEL_IMAGE_TAMPER_DETECTED'', ''FIRMWARE_TAMPER_DETECTED''}) \<and>
     (case er_bundle req of None \<Rightarrow> True | Some b \<Rightarrow> trusted_bundle env b)"

lemma recovery_hex_digits:
  "map_of hex_digits c = (let b = (of_char c :: nat) in
      if 48 \<le> b \<and> b \<le> 57 then Some (b - 48) else if 97 \<le> b \<and> b \<le> 102 then Some (b - 87)
      else if 65 \<le> b \<and> b \<le> 70 then Some (b - 55) else None)"
proof -
  have code: "map_of xs c = map_of (map (\<lambda>(d, v). (of_char d :: nat, v)) xs) (of_char c)" for xs :: "(char \<times> nat) list"
    by (induction xs) auto
  have nums: "map (\<lambda>(d, v). (of_char d :: nat, v)) hex_digits =
      [(48, 0), (49, 1), (50, 2), (51, 3), (52, 4), (53, 5), (54, 6), (55, 7), (56, 8), (57, 9),
       (97, 10), (98, 11), (99, 12), (100, 13), (101, 14), (102, 15),
       (65, 10), (66, 11), (67, 12), (68, 13), (69, 14), (70, 15)]" by code_simp
  have "n \<in> {48, 49, 50, 51, 52, 53, 54, 55, 56, 57}" if "48 \<le> n" "n \<le> 57" for n :: nat
    using that by simp presburger
  from this [of "of_char c"] show ?thesis
    unfolding code nums Let_def by (auto simp del: One_nat_def)
qed

lemma recovery_hex_value_digits:
  "recovery_hex_value c = (case map_of hex_digits c of None \<Rightarrow> Err RecoveryBundleSignatureInvalid | Some n \<Rightarrow> Ok (of_nat n))"
  unfolding recovery_hex_digits recovery_hex_value_def Let_def by simp

lemma hex_digit_bound: "map_of hex_digits c = Some n \<Longrightarrow> n < 16"
  unfolding recovery_hex_digits Let_def by (auto split: if_splits)

lemma recovery_byte: "m < 16 \<Longrightarrow> n < 16 \<Longrightarrow> unat (push_bit 4 (of_nat m) OR of_nat n :: u8) = 16 * m + n"
proof -
  have "\<forall>m \<in> set [0..<16]. \<forall>n \<in> set [0..<16]. unat (push_bit 4 (of_nat m) OR of_nat n :: u8) = 16 * m + n" by code_simp
  then show "m < 16 \<Longrightarrow> n < 16 \<Longrightarrow> ?thesis" by simp
qed

lemma hex_byte:
  fixes w :: u8
  assumes "m < 16" and "n < 16"
  shows "w = push_bit 4 (of_nat m) OR of_nat n \<longleftrightarrow> m = unat w div 16 \<and> n = unat w mod 16"
proof -
  have "w = push_bit 4 (of_nat m) OR of_nat n \<longleftrightarrow> unat w = 16 * m + n"
    unfolding recovery_byte [OF assms, symmetric] by (rule word_eq_iff_unsigned)
  also have "\<dots> \<longleftrightarrow> m = unat w div 16 \<and> n = unat w mod 16" using assms by auto
  finally show ?thesis .
qed

lemma spells_Nil: "spells xs [] \<longleftrightarrow> xs = []"
  by (cases xs) auto

lemma recovery_hex_pairs_Ok: "even (length hex) \<Longrightarrow> recovery_hex_pairs hex = Ok sig \<longleftrightarrow> spells sig hex"
proof (induction hex arbitrary: sig rule: recovery_hex_pairs.induct)
  case (1 a b rest)
  have IH: "recovery_hex_pairs rest = Ok zs \<longleftrightarrow> spells zs rest" for zs using 1 by simp
  have "recovery_hex_pairs (a # b # rest) = Ok sig \<longleftrightarrow> (\<exists>m n zs. map_of hex_digits a = Some m \<and> map_of hex_digits b = Some n \<and>
      spells zs rest \<and> sig = (push_bit 4 (of_nat m) OR of_nat n) # zs)"
    by (auto simp: result_simps recovery_hex_value_digits IH split: option.splits)
  also have "\<dots> \<longleftrightarrow> spells sig (a # b # rest)"
  proof (cases sig)
    case (Cons w ws)
    then show ?thesis using hex_byte [of _ _ w] hex_digit_bound by auto metis+
  qed simp
  finally show ?case .
qed (auto simp: spells_Nil)

lemma spells_length: "spells sig hex \<Longrightarrow> length hex = 2 * length sig"
  by (induction sig arbitrary: hex) (auto split: list.splits)

lemma recovery_decode_Ok: "recovery_decode_hex_signature hex = Ok sig \<longleftrightarrow> length sig = 64 \<and> spells sig hex"
  using recovery_hex_pairs_Ok [of hex sig] spells_length [of sig hex]
  by (auto simp: recovery_decode_hex_signature_def)

lemma signature_strings:
  "List.map_filter (strip_prefix_str p) vs = [hex] \<longleftrightarrow> filter (prefix p) vs = [p @ hex]"
proof -
  have "List.map_filter (strip_prefix_str p) vs = map (drop (length p)) (filter (prefix p) vs)"
    by (induction vs) (auto simp: strip_prefix_str_def List.map_filter_simps)
  moreover have "map (drop (length p)) ws = [hex] \<longleftrightarrow> ws = [p @ hex]" if "\<forall>w \<in> set ws. prefix p w" for ws
    using that by (cases ws) (auto simp: prefix_def)
  ultimately show ?thesis by simp
qed

lemma bundle_signature_Ok:
  "bundle_signature b = Ok sig \<longleftrightarrow> (\<exists>hex. length sig = 64 \<and> spells sig hex \<and>
     filter (prefix ''ed25519:'') (rbu_hard_deny_signatures b @ rbu_override_signatures b) = [''ed25519:'' @ hex])"
proof -
  have "bundle_signature b = Ok sig \<longleftrightarrow> (\<exists>hex. List.map_filter (strip_prefix_str BUNDLE_SIGNATURE_PREFIX)
      (rbu_hard_deny_signatures b @ rbu_override_signatures b) = [hex] \<and> recovery_decode_hex_signature hex = Ok sig)"
    by (auto simp: bundle_signature_def split: list.splits)
  then show ?thesis unfolding signature_strings recovery_decode_Ok BUNDLE_SIGNATURE_PREFIX_def by blast
qed

lemma verify_bundle_Ok: "verify_bundle env b = Ok () \<longleftrightarrow> trusted_bundle env b"
  unfolding trusted_bundle_def
  by (auto simp: verify_bundle_def result_simps bundle_signature_Ok canonical_bundle_body_bytes_def
      split: option.splits sum.splits if_splits)

lemma begin_recovery_Ok:
  "begin_recovery env now req s = (Ok st, s') \<longleftrightarrow>
     \<not> is_recovery_active s \<and> accepted_entry env req \<and>
     st = \<lparr>rcs_mode = ModeRecovery, rcs_entered_at = Some now, rcs_exit_planned_at = None,
       rcs_reason = Some (er_reason req), rcs_operator_grant = er_operator_grant req,
       rcs_active_sub_boundaries = [SystemFull]\<rparr> \<and> s' = s\<lparr>ry_state := st\<rparr>"
proof -
  have "accepted_entry env req \<longleftrightarrow> validate_entry_request req = Ok () \<and>
      (case er_bundle req of None \<Rightarrow> True | Some b \<Rightarrow> verify_bundle env b = Ok ())"
    by (auto simp: accepted_entry_def validate_entry_request_def has_operator_grant_def is_s91_fallback_reason_def
        verify_bundle_Ok split: option.splits)
  then show ?thesis
    by (auto simp: begin_recovery_def is_recovery_active_def Let_def result_simps split: sum.splits option.splits if_splits)
qed

lemma begin_recovery_Err: "begin_recovery env now req s = (Err e, s') \<Longrightarrow> s' = s"
  by (auto simp: begin_recovery_def Let_def split: sum.splits option.splits if_splits)

lemma exit_recovery_cases:
  assumes "exit_recovery env now tok s = (r, s')"
  shows "if is_recovery_active s \<and> ry_exit_token s = Some tok
     then (\<exists>l. s' = s\<lparr>ry_state := normal_state, ry_exit_token := None, ry_log := l\<rparr>) \<and>
       (r = Ok normal_state \<or> (\<exists>w. bd_emitter env \<noteq> None \<and> r = Err (RecoveryEvidenceEmitFailed w)))
     else s' = s \<and> r = Err (if is_recovery_active s then RecoveryAuthorizationInvalid ''exit token mismatch'' else RecoveryNotActive)"
proof (cases "is_recovery_active s \<and> ry_exit_token s = Some tok")
  case True
  then have "rcv_then (rcv_emit_when (bd_emitter env) (\<lambda>em. emit_recovery_exited_with_exit_token em now normal_state tok))
      (\<lambda>_. rcv_return normal_state) (s\<lparr>ry_state := normal_state, ry_exit_token := None\<rparr>) = (r, s')"
    using assms by (simp add: exit_recovery_def is_recovery_active_def)
  then show ?thesis
    using True rcv_emit_then [OF recovery_emissions_only(2), of "bd_emitter env" now normal_state tok "\<lambda>_. rcv_return normal_state"
        "s\<lparr>ry_state := normal_state, ry_exit_token := None\<rparr>"] by auto
qed (use assms in \<open>auto simp: exit_recovery_def is_recovery_active_def split: if_splits\<close>)

lemma enter_sub_cases:
  assumes "enter_sub_boundary sub s = (r, s')" and "subs_ok (rcs_active_sub_boundaries (ry_state s))"
  shows "\<exists>subs. subs_ok subs \<and> s' = s\<lparr>ry_state := (ry_state s)\<lparr>rcs_active_sub_boundaries := subs\<rparr>\<rparr> \<and>
     (\<forall>st. r = Ok st \<longrightarrow> set subs = insert sub (set (rcs_active_sub_boundaries (ry_state s))))"
proof (cases r)
  case (Inl e)
  then have "s' = s" using assms(1)
    by (simp add: enter_sub_boundary_def set_sub_boundaries_def Let_def split: if_splits)
  then show ?thesis using assms(2) Inl by (intro exI [of _ "rcs_active_sub_boundaries (ry_state s)"]) simp
next
  case (Inr st)
  let ?subs = "if sub = SystemFull then [SystemFull] else rcs_active_sub_boundaries (ry_state s) @ [sub]"
  have "s' = s\<lparr>ry_state := (ry_state s)\<lparr>rcs_active_sub_boundaries := ?subs\<rparr>\<rparr>" and "subs_ok ?subs"
    and "set ?subs = insert sub (set (rcs_active_sub_boundaries (ry_state s)))"
    using assms Inr
    by (auto simp: enter_sub_boundary_def set_sub_boundaries_def Let_def subs_ok_def split: if_splits)
  then show ?thesis by blast
qed

lemma exit_sub_cases:
  assumes "exit_sub_boundary sub s = (r, s')" and "subs_ok (rcs_active_sub_boundaries (ry_state s))"
  shows "\<exists>subs. subs_ok subs \<and> s' = s\<lparr>ry_state := (ry_state s)\<lparr>rcs_active_sub_boundaries := subs\<rparr>\<rparr> \<and>
     (\<forall>st. r = Ok st \<longrightarrow> set subs = set (rcs_active_sub_boundaries (ry_state s)) - {x. sub_boundary_contains sub x})"
proof (cases r)
  case (Inl e)
  then have "s' = s" using assms(1)
    by (simp add: exit_sub_boundary_def set_sub_boundaries_def Let_def split: if_splits option.splits)
  then show ?thesis using assms(2) Inl by (intro exI [of _ "rcs_active_sub_boundaries (ry_state s)"]) simp
next
  case (Inr st)
  show ?thesis
  proof (cases "sub = SystemFull")
    case True
    then have "s' = s\<lparr>ry_state := (ry_state s)\<lparr>rcs_active_sub_boundaries := []\<rparr>\<rparr>"
      using assms(1) by (simp add: exit_sub_boundary_def set_sub_boundaries_def Let_def)
    then show ?thesis using True by (intro exI [of _ "[]"]) (simp add: subs_ok_def)
  next
    case False
    then obtain i where i: "slot_position sub (rcs_active_sub_boundaries (ry_state s)) = Some i"
      "SystemFull \<notin> set (rcs_active_sub_boundaries (ry_state s))"
      and s': "s' = s\<lparr>ry_state := (ry_state s)\<lparr>rcs_active_sub_boundaries := swap_remove i (rcs_active_sub_boundaries (ry_state s))\<rparr>\<rparr>"
      using assms(1) Inr by (auto simp: exit_sub_boundary_def set_sub_boundaries_def Let_def split: if_splits option.splits)
    have "{x. sub_boundary_contains sub x} = {sub}" using False by (cases sub) (auto elim: sub_boundary_contains.elims)
    then show ?thesis
      using s' swap_remove_set [of i "rcs_active_sub_boundaries (ry_state s)"] slot_position_Some [OF i(1)] assms(2) i(2)
      by (intro exI [of _ "swap_remove i (rcs_active_sub_boundaries (ry_state s))"]) (auto simp: subs_ok_def)
  qed
qed

lemma session_inv_step:
  assumes "boundary_step env m e m'" and "session_inv m"
  shows "session_inv m'"
  using assms
proof (cases rule: boundary_step.cases)
  case (step_enter now req s st s' ps tok)
  then show ?thesis using assms(2) by (auto simp: begin_recovery_Ok session_inv_def subs_ok_def is_recovery_active_def split: if_splits)
next
  case (step_token tok ps s r s')
  then show ?thesis using assms(2) by (auto simp: store_exit_token_def session_inv_def is_recovery_active_def split: if_splits)
next
  case (step_exit now tok s r s' ps)
  then show ?thesis using assms(2) exit_recovery_cases [OF step_exit(4)]
    by (auto simp: session_inv_def is_recovery_active_def normal_state_def subs_ok_def split: if_splits)
next
  case (step_enter_sub sub s r s' ps)
  then show ?thesis using assms(2) enter_sub_cases [OF step_enter_sub(4)]
    by (auto simp: session_inv_def is_recovery_active_def split: if_splits)
next
  case (step_exit_sub sub s r s' ps)
  then show ?thesis using assms(2) exit_sub_cases [OF step_exit_sub(4)]
    by (auto simp: session_inv_def is_recovery_active_def split: if_splits)
next
  case (step_other s' s ps)
  then show ?thesis using assms(2) by (auto simp: session_inv_def is_recovery_active_def split: if_splits)
qed

definition recovery_boundary_new :: "first_boot_context \<Rightarrow> recovery_sys" where
  "recovery_boundary_new fb = \<lparr>ry_state = normal_state, ry_exit_token = None, ry_candidates = [], ry_active = None,
     ry_rollback_stack = [], ry_first_boot = fb, ry_stage_records = [], ry_log = []\<rparr>"

lemma session_inv_new: "session_inv (recovery_boundary_new fb, [])"
  by (simp add: session_inv_def recovery_boundary_new_def is_recovery_active_def normal_state_def subs_ok_def)

lemma session_inv_run: "lts_run (boundary_step env) m es m' \<Longrightarrow> session_inv m \<Longrightarrow> session_inv m'"
  by (erule lts_run_invariant) (auto intro: session_inv_step)

text \<open>The session a recovering host is in, as the run that led there determines it.\<close>

definition last_entry :: "boundary_event list \<Rightarrow> enter_recovery_request \<Rightarrow> string \<Rightarrow> bool" where
  "last_entry es req tok \<longleftrightarrow> (\<exists>es1 es2. es = es1 @ EvEnter req tok # es2 \<and> (\<forall>req' tok'. EvEnter req' tok' \<notin> set es2))"

lemma last_entry_now [simp]: "last_entry (es @ [EvEnter req tok]) req tok"
  unfolding last_entry_def by (intro exI [of _ es] exI [of _ "[]"]) simp

lemma last_entry_later: "last_entry es req tok \<Longrightarrow> (\<And>req' tok'. e \<noteq> EvEnter req' tok') \<Longrightarrow> last_entry (es @ [e]) req tok"
proof -
  assume "last_entry es req tok" and e: "\<And>req' tok'. e \<noteq> EvEnter req' tok'"
  then obtain es1 es2 where "es = es1 @ EvEnter req tok # es2" "\<forall>req' tok'. EvEnter req' tok' \<notin> set es2"
    unfolding last_entry_def by blast
  then show ?thesis unfolding last_entry_def using e by (intro exI [of _ es1] exI [of _ "es2 @ [e]"]) auto
qed

definition session_of ::
    "('sk, 'vk) boundary_env \<Rightarrow> enter_recovery_request \<Rightarrow> string \<Rightarrow> recovery_sys \<times> string list \<Rightarrow> bool" where
  "session_of env req tok = (\<lambda>(s, ps). accepted_entry env req \<and> rcs_reason (ry_state s) = Some (er_reason req) \<and>
     rcs_operator_grant (ry_state s) = er_operator_grant req \<and>
     (ry_exit_token s = Some tok \<and> ps = [] \<or> ry_exit_token s = None \<and> ps = [tok]))"

lemma session_of_step:
  assumes "boundary_step env (s, ps) e (s', ps')" and "session_inv (s, ps)" and "is_recovery_active s'"
  shows "(\<exists>req tok. e = EvEnter req tok \<and> session_of env req tok (s', ps')) \<or>
     is_recovery_active s \<and> (\<forall>req tok. e \<noteq> EvEnter req tok \<and> (session_of env req tok (s, ps) \<longrightarrow> session_of env req tok (s', ps')))"
  using assms(1)
proof (cases rule: boundary_step.cases)
  case (step_enter now req' st tok')
  then show ?thesis using assms(2) by (auto simp: session_of_def session_inv_def begin_recovery_Ok split: if_splits)
next
  case (step_token tok' r)
  then show ?thesis using assms(3) by (auto simp: session_of_def store_exit_token_def is_recovery_active_def)
next
  case (step_exit now tok' r)
  then have "s' = s" using exit_recovery_cases [OF step_exit(3)] assms(3)
    by (auto simp: is_recovery_active_def normal_state_def split: if_splits)
  then show ?thesis using step_exit assms(3) by simp
next
  case (step_enter_sub sub r)
  then show ?thesis using enter_sub_cases [OF step_enter_sub(3)] assms(2,3)
    by (auto simp: session_inv_def session_of_def is_recovery_active_def)
next
  case (step_exit_sub sub r)
  then show ?thesis using exit_sub_cases [OF step_exit_sub(3)] assms(2,3)
    by (auto simp: session_inv_def session_of_def is_recovery_active_def)
next
  case step_other
  then show ?thesis using assms(3) by (simp add: session_of_def is_recovery_active_def)
qed

lemma session_found:
  assumes "lts_run (boundary_step env) (recovery_boundary_new fb, []) es (s, ps)" and "is_recovery_active s"
  shows "\<exists>req tok. last_entry es req tok \<and> session_of env req tok (s, ps)"
  using assms
proof (induction es arbitrary: s ps rule: rev_induct)
  case Nil
  then show ?case by (simp add: recovery_boundary_new_def is_recovery_active_def normal_state_def)
next
  case (snoc e es)
  then obtain s0 ps0 where run: "lts_run (boundary_step env) (recovery_boundary_new fb, []) es (s0, ps0)"
    and step: "boundary_step env (s0, ps0) e (s, ps)" by (auto simp: lts_run_append)
  have inv: "session_inv (s0, ps0)" using session_inv_run [OF run session_inv_new] .
  show ?case
    using session_of_step [OF step inv snoc.prems(2)] snoc.IH [OF run] by (blast intro: last_entry_now last_entry_later)
qed

text \<open>
  C20: A host that is in recovery mode got there by its last accepted entry. However calls of the boundary interleave,
  the entry named the recovery phase, carried an operator grant or a fallback reason, and a bundle only when it
  holds exactly one signature, by a trusted authority and over its canonical body; the recorded reason and grant
  are those of that entry. The session is ended by the token this entry minted, once it is stored, and by no other: any
  other token is refused and changes nothing. Outside a session there is no token, and every exit is refused. The active
  sub-boundaries are without repetition, with the full one alone. (The exit takes place in the running host; the
  specification, section 10 of \<open>01_recovery_boundary.md\<close>, asks for a reboot and for a cap of eight hours.)
\<close>

theorem recovery_sessions_are_authorised:
  assumes "lts_run (boundary_step env) (recovery_boundary_new fb, []) es (s, ps)"
  shows "(if is_recovery_active s
     then \<exists>req tok. last_entry es req tok \<and> accepted_entry env req \<and>
       rcs_reason (ry_state s) = Some (er_reason req) \<and> rcs_operator_grant (ry_state s) = er_operator_grant req \<and>
       (ry_exit_token s = Some tok \<and> ps = [] \<or> ry_exit_token s = None \<and> ps = [tok]) \<and>
       (\<forall>now t. if t = tok \<and> ps = []
          then \<not> is_recovery_active (snd (exit_recovery env now t s)) \<and> ry_exit_token (snd (exit_recovery env now t s)) = None
          else exit_recovery env now t s = (Err (RecoveryAuthorizationInvalid ''exit token mismatch''), s))
     else ry_exit_token s = None \<and> ps = [] \<and> (\<forall>now t. exit_recovery env now t s = (Err RecoveryNotActive, s))) \<and>
     distinct (rcs_active_sub_boundaries (ry_state s)) \<and>
     (SystemFull \<in> set (rcs_active_sub_boundaries (ry_state s)) \<longrightarrow> rcs_active_sub_boundaries (ry_state s) = [SystemFull])"
proof (cases "is_recovery_active s")
  case True
  then obtain req tok where session: "last_entry es req tok" "session_of env req tok (s, ps)"
    using session_found [OF assms] by blast
  have "if t = tok \<and> ps = []
        then \<not> is_recovery_active (snd (exit_recovery env now t s)) \<and> ry_exit_token (snd (exit_recovery env now t s)) = None
        else exit_recovery env now t s = (Err (RecoveryAuthorizationInvalid ''exit token mismatch''), s)" for now t
  proof -
    obtain r s2 where e: "exit_recovery env now t s = (r, s2)" by fastforce
    show ?thesis
      unfolding e
      using exit_recovery_cases [OF e] True session(2)
      by (auto simp: session_of_def is_recovery_active_def normal_state_def split: if_splits)
  qed
  then show ?thesis
    using True session session_inv_run [OF assms session_inv_new] by (auto simp: session_of_def session_inv_def subs_ok_def)
next
  case False
  then have "exit_recovery env now t s = (Err RecoveryNotActive, s)" for now t
    by (simp add: exit_recovery_def is_recovery_active_def)
  then show ?thesis using False session_inv_run [OF assms session_inv_new] by (auto simp: session_inv_def subs_ok_def)
qed

text \<open>
  Leaving recovery undoes entering it. After an entry that was accepted, the token it minted, and no other,
  ends the session: state and token are as in normal mode and nothing else of the system has changed but the
  log, also when the exit fails to record itself. Any other token is refused and changes nothing.
\<close>

theorem recovery_exit_undoes_entry:
  assumes "enter_recovery env ulid now later req s = (Ok st, s1)"
  shows "st = ry_state s1 \<and> is_recovery_active s1 \<and> ry_exit_token s1 = Some (''rexit_'' @ ulid) \<and>
     (if tok = ''rexit_'' @ ulid
      then \<exists>l r. exit_recovery env t tok s1 = (r, s\<lparr>ry_state := normal_state, ry_exit_token := None, ry_log := l\<rparr>) \<and>
        (r = Ok normal_state \<or> (\<exists>w. bd_emitter env \<noteq> None \<and> r = Err (RecoveryEvidenceEmitFailed w)))
      else exit_recovery env t tok s1 = (Err (RecoveryAuthorizationInvalid ''exit token mismatch''), s1))"
proof -
  obtain s0 where b: "begin_recovery env now req s = (Ok st, s0)" and s0: "s0 = s\<lparr>ry_state := st\<rparr>" and m: "rcs_mode st = ModeRecovery"
    using assms by (auto simp: enter_recovery_def rcv_then_def begin_recovery_Ok split: prod.splits sum.splits)
  let ?s = "s0\<lparr>ry_exit_token := Some (''rexit_'' @ ulid)\<rparr>"
  obtain l where s1: "s1 = ?s\<lparr>ry_log := l\<rparr>"
    using rcv_emit_then [OF recovery_emissions_only(1), of "bd_emitter env" later st "\<lambda>_. rcv_return st" ?s] assms b
    by (auto simp: enter_recovery_def store_exit_token_def)
  have "is_recovery_active s1" "ry_exit_token s1 = Some (''rexit_'' @ ulid)" using s1 s0 m by (simp_all add: is_recovery_active_def)
  moreover obtain r s2 where "exit_recovery env t tok s1 = (r, s2)" by (cases "exit_recovery env t tok s1")
  moreover note exit_recovery_cases [OF this]
  ultimately show ?thesis using s1 s0 by auto
qed

text \<open>
  A departure: the full sub-boundary is entered in normal mode, with no grant, no reason and no receipt, and
  every sub-boundary then counts as being in recovery.
\<close>

lemma full_scope_without_recovery:
  assumes "ry_state s = normal_state"
  shows "\<exists>st s'. enter_sub_boundary SystemFull s = (Ok st, s') \<and> \<not> is_recovery_active s' \<and> is_sub_recovery_active sub s' \<and>
     ry_log s' = ry_log s"
  using assms by (simp add: enter_sub_boundary_def set_sub_boundaries_def is_recovery_active_def is_sub_recovery_active_def
      normal_state_def Let_def)

text \<open>Another: an entry whose receipt cannot be written reports an error and leaves the host in recovery.\<close>

lemma hex_pairs_error: "recovery_hex_pairs xs = Err e \<Longrightarrow> e = RecoveryBundleSignatureInvalid"
  by (induction xs rule: recovery_hex_pairs.induct)
    (auto simp: recovery_hex_value_def Let_def try_then_Err_iff split: if_splits)

lemma verify_bundle_error: "verify_bundle env b = Err e \<Longrightarrow> e \<noteq> RecoveryEvidenceEmitFailed w"
  by (auto simp: verify_bundle_def bundle_signature_def recovery_decode_hex_signature_def canonical_bundle_body_bytes_def
      try_then_Err_iff dest: hex_pairs_error split: option.splits list.splits if_splits sum.splits)

lemma failed_entry_enters:
  assumes "enter_recovery env ulid now later req s = (Err (RecoveryEvidenceEmitFailed w), s1)"
  shows "is_recovery_active s1 \<and> ry_exit_token s1 = Some (''rexit_'' @ ulid)"
proof (cases "begin_recovery env now req s")
  case (Pair b s0)
  show ?thesis
  proof (cases b)
    case (Inl e)
    then have "e = RecoveryEvidenceEmitFailed w" using assms Pair by (simp add: enter_recovery_def)
    then show ?thesis using Pair Inl
      by (auto simp: begin_recovery_def validate_entry_request_def Let_def dest: verify_bundle_error
          split: if_splits sum.splits option.splits)
  next
    case (Inr st)
    then have "s0 = s\<lparr>ry_state := st\<rparr>" "rcs_mode st = ModeRecovery" using Pair by (simp_all add: begin_recovery_Ok)
    then show ?thesis
      using assms Pair Inr rcv_emit_then [OF recovery_emissions_only(1), of "bd_emitter env" later st "\<lambda>_. rcv_return st"
          "s0\<lparr>ry_exit_token := Some (''rexit_'' @ ulid)\<rparr>"]
      by (auto simp: enter_recovery_def store_exit_token_def is_recovery_active_def)
  qed
qed

section \<open>A sample session\<close>

definition sample_first_boot :: first_boot_context where
  "sample_first_boot = \<lparr>fb_boot_id = ''boot_1'', fb_started_at = 0, fb_completed_at = None, fb_status = FbNotStarted,
     fb_performed_phases = []\<rparr>"

definition sample_recovery_lib :: "unit recovery_lib" where
  "sample_recovery_lib = \<lparr>rcl_to_vec = (\<lambda>_. Ok []), rcl_verify = (\<lambda>_ _ _. True), rcl_show_datetime = (\<lambda>_. []),
     rcl_hex_digest = (\<lambda>_. [])\<rparr>"

definition sample_boundary_env :: "(unit, unit) boundary_env" where
  "sample_boundary_env = \<lparr>bd_lib = sample_recovery_lib, bd_trusted_authorities = [(''root'', ())], bd_emitter = None\<rparr>"

definition sample_recovery_bundle :: recovery_bundle where
  "sample_recovery_bundle = \<lparr>rbu_bundle_id = ''rb_1'', rbu_loaded_at = 0,
     rbu_hard_deny_signatures = [''ed25519:'' @ replicate 128 CHR ''a''], rbu_override_signatures = [],
     rbu_signing_authority = ''root''\<rparr>"

definition sample_entry :: enter_recovery_request where
  "sample_entry = \<lparr>er_reason = ''maintenance'', er_operator_grant = Some ''ovr_1'', er_expected_phases = [BootRecovery],
     er_bundle = Some sample_recovery_bundle\<rparr>"

definition sample_recovering :: recovery_sys where
  "sample_recovering = (recovery_boundary_new sample_first_boot)\<lparr>ry_state := \<lparr>rcs_mode = ModeRecovery, rcs_entered_at = Some 5,
     rcs_exit_planned_at = None, rcs_reason = Some ''maintenance'', rcs_operator_grant = Some ''ovr_1'',
     rcs_active_sub_boundaries = [SystemFull]\<rparr>, ry_exit_token := Some ''rexit_A''\<rparr>"

lemma sample_accepted: "accepted_entry sample_boundary_env sample_entry"
proof -
  have "trim ''ovr_1'' = ''ovr_1''" and "verify_bundle sample_boundary_env sample_recovery_bundle = Ok ()" by code_simp+
  then show ?thesis by (simp add: accepted_entry_def sample_entry_def verify_bundle_Ok)
qed

lemma sample_begin:
  "begin_recovery sample_boundary_env 5 sample_entry (recovery_boundary_new sample_first_boot) =
     (Ok (ry_state sample_recovering), (recovery_boundary_new sample_first_boot)\<lparr>ry_state := ry_state sample_recovering\<rparr>)"
  using sample_accepted
  by (simp add: begin_recovery_Ok is_recovery_active_def recovery_boundary_new_def normal_state_def sample_recovering_def sample_entry_def)

lemma sample_run:
  "lts_run (boundary_step sample_boundary_env) (recovery_boundary_new sample_first_boot, [])
     [EvEnter sample_entry ''rexit_A'', EvToken ''rexit_A''] (sample_recovering, [])"
proof -
  let ?s = "(recovery_boundary_new sample_first_boot)\<lparr>ry_state := ry_state sample_recovering\<rparr>"
  have "boundary_step sample_boundary_env (recovery_boundary_new sample_first_boot, []) (EvEnter sample_entry ''rexit_A'') (?s, [''rexit_A''])"
    by (rule step_enter [OF sample_begin])
  moreover have "boundary_step sample_boundary_env (?s, [''rexit_A'']) (EvToken ''rexit_A'') (sample_recovering, remove1 ''rexit_A'' [''rexit_A''])"
    by (rule step_token [of _ _ _ "Ok ()"]) (simp_all add: store_exit_token_def sample_recovering_def)
  ultimately show ?thesis by auto
qed

theorem recovery_sessions_are_authorised_witness:
  "\<exists>req tok. last_entry [EvEnter sample_entry ''rexit_A'', EvToken ''rexit_A''] req tok \<and>
     accepted_entry sample_boundary_env req \<and> ry_exit_token sample_recovering = Some tok \<and>
     \<not> is_recovery_active (snd (exit_recovery sample_boundary_env 9 tok sample_recovering)) \<and>
     (\<forall>t. if t = tok then True else exit_recovery sample_boundary_env 9 t sample_recovering =
        (Err (RecoveryAuthorizationInvalid ''exit token mismatch''), sample_recovering))"
proof -
  have "is_recovery_active sample_recovering" by (simp add: is_recovery_active_def sample_recovering_def)
  then show ?thesis using recovery_sessions_are_authorised [OF sample_run] by simp metis
qed

theorem recovery_exit_undoes_entry_witness:
  "\<exists>l r. exit_recovery sample_boundary_env 9 ''rexit_A'' sample_recovering =
     (r, (recovery_boundary_new sample_first_boot)\<lparr>ry_state := normal_state, ry_exit_token := None, ry_log := l\<rparr>)"
proof -
  have "enter_recovery sample_boundary_env ''A'' 5 6 sample_entry (recovery_boundary_new sample_first_boot) =
      (Ok (ry_state sample_recovering), sample_recovering)"
    using sample_begin
    by (simp add: enter_recovery_def store_exit_token_def sample_boundary_env_def sample_recovering_def rcv_emit_when_def)
  from recovery_exit_undoes_entry [OF this, of "''rexit_A''" 9] show ?thesis by auto
qed

end
