(* ===== verification/Recovery_Kernel.thy ===== *)
theory Recovery_Kernel
  imports Recovery_Boundary
begin

text \<open>
  The pipeline of kernel candidates, \<open>kernel_pipeline.rs\<close>: registration of signed manifests, the gate, promotion
  to slot A, rollback to the candidate that was active before, and retirement. The candidates are an
  association list keyed by identifier; the rollback stack has its top at the end, as the vector has.
  \<open>activate_candidate\<close> asks the boundary before it takes its write locks, so it is split into its two parts.
\<close>

section \<open>Operations\<close>

definition ROLLBACK_STACK_CAPACITY :: nat where
  "ROLLBACK_STACK_CAPACITY = 8"

fun transition_allowed :: "candidate_state \<Rightarrow> candidate_state \<Rightarrow> bool" where
  "transition_allowed CsBuilding to = (to = CsBuilt)"
| "transition_allowed CsBuilt to = (to = CsGating)"
| "transition_allowed CsGating to = (to \<in> {CsGatePassed, CsGateFailed})"
| "transition_allowed CsGatePassed to = (to \<in> {CsAPromoted, CsRetired})"
| "transition_allowed CsAPromoted to = (to \<in> {CsBDemotedToA, CsRollback, CsRetired})"
| "transition_allowed CsBDemotedToA to = (to \<in> {CsRollback, CsRetired})"
| "transition_allowed CsRollback to = (to = CsRetired)"
| "transition_allowed CsGateFailed to = (to = CsRetired)"
| "transition_allowed CsRetired to = False"

definition ensure_transition :: "candidate_state \<Rightarrow> candidate_state \<Rightarrow> (recovery_error, unit) result" where
  "ensure_transition from to = (if transition_allowed from to then Ok () else Err (InvalidCandidateTransition from to))"

definition transition_candidate :: "kernel_candidate \<Rightarrow> candidate_state \<Rightarrow> (recovery_error, kernel_candidate) result" where
  "transition_candidate c to = try_then (ensure_transition (kc_state c) to) (\<lambda>_. Ok (c\<lparr>kc_state := to\<rparr>))"

definition trim_rollback_stack :: "string list \<Rightarrow> string list" where
  "trim_rollback_stack stack = drop (length stack - ROLLBACK_STACK_CAPACITY) stack"

definition kernel_manifest_json :: "kernel_manifest \<Rightarrow> json" where
  "kernel_manifest_json m = JObject
     [(''version'', JString (km_version m)), (''min_aios_version'', JString (km_min_aios_version m)),
      (''requires_recovery_install'', JBool (km_requires_recovery_install m)),
      (''verification_intent'', opt_str_json (km_verification_intent m)), (''tags'', JArray (map JString (km_tags m)))]"

definition canonical_manifest_body_bytes :: "'vk recovery_lib \<Rightarrow> kernel_manifest \<Rightarrow> (recovery_error, u8 list) result" where
  "canonical_manifest_body_bytes lib m =
     (case rcl_to_vec lib (kernel_manifest_json m) of
        Inl e \<Rightarrow> Err (RecoveryInternal (''kernel manifest serialise: '' @ e))
      | Inr bytes \<Rightarrow> Ok bytes)"

text \<open>The trusted authorities, in the order in which the map iterates them.\<close>

definition verify_manifest_signature ::
    "('sk, 'vk) boundary_env \<Rightarrow> u8 list \<Rightarrow> u8 list \<Rightarrow> (recovery_error, string) result" where
  "verify_manifest_signature env body sig =
     (if bd_trusted_authorities env = [] then Err (KernelUnknownAuthority ''no trusted kernel authorities configured'')
      else if length sig \<noteq> 64 then Err KernelSignatureInvalid
      else case find (\<lambda>(name, key). rcl_verify (bd_lib env) key body sig) (bd_trusted_authorities env) of
             None \<Rightarrow> Err KernelSignatureInvalid
           | Some (name, key) \<Rightarrow> Ok name)"

definition put_candidate :: "kernel_candidate \<Rightarrow> recovery_sys \<Rightarrow> recovery_sys" where
  "put_candidate c s = s\<lparr>ry_candidates := AList.update (kc_candidate_id c) c (ry_candidates s)\<rparr>"

definition register_candidate ::
    "('sk, 'vk) boundary_env \<Rightarrow> string \<Rightarrow> instant \<Rightarrow> kernel_manifest \<Rightarrow> u8 list \<Rightarrow> kernel_candidate rcv" where
  "register_candidate env ulid now m sig s =
     (case try_then (canonical_manifest_body_bytes (bd_lib env) m) (\<lambda>body.
             try_then (verify_manifest_signature env body sig) (\<lambda>authority.
             Ok \<lparr>kc_candidate_id = ''kc_'' @ ulid, kc_version = km_version m, kc_kernel_blake3 = rcl_hex_digest (bd_lib env) body,
                 kc_signature_ed25519 = sig, kc_signing_authority = authority, kc_registered_at = now,
                 kc_state = CsBuilt, kc_manifest = m\<rparr>)) of
        Inl e \<Rightarrow> (Err e, s)
      | Inr c \<Rightarrow>
          rcv_then (rcv_emit_when (bd_emitter env) (\<lambda>em. emit_kernel_candidate_registered em c))
            (\<lambda>_. rcv_return c) (put_candidate c s))"

definition verify_candidate :: "('sk, 'vk) boundary_env \<Rightarrow> instant \<Rightarrow> string \<Rightarrow> kernel_candidate rcv" where
  "verify_candidate env now cid s =
     (case map_of (ry_candidates s) cid of
        None \<Rightarrow> (Err (CandidateNotFound cid), s)
      | Some c \<Rightarrow>
          (case transition_candidate c CsGating of
             Inl e \<Rightarrow> (Err e, s)
           | Inr c1 \<Rightarrow>
               (case transition_candidate c1 CsGatePassed of
                  Inl e \<Rightarrow> (Err e, put_candidate c1 s)
                | Inr c2 \<Rightarrow>
                    rcv_then (rcv_emit_when (bd_emitter env) (\<lambda>em. emit_kernel_gate_result em now c2))
                      (\<lambda>_. rcv_return c2) (put_candidate c2 s))))"

text \<open>The first part of \<open>activate_candidate\<close>: what it needs and whether the boundary allows it.\<close>

definition activation_admitted :: "string \<Rightarrow> unit rcv" where
  "activation_admitted cid s =
     (case map_of (ry_candidates s) cid of
        None \<Rightarrow> (Err (CandidateNotFound cid), s)
      | Some c \<Rightarrow>
          if km_requires_recovery_install (kc_manifest c) \<and> \<not> is_recovery_active s
          then (Err RecoveryNotActive, s) else (Ok (), s))"

text \<open>The second part, under the write locks.\<close>

definition promote_candidate :: "string \<Rightarrow> kernel_candidate rcv" where
  "promote_candidate cid s =
     (case map_of (ry_candidates s) cid of
        None \<Rightarrow> (Err (CandidateNotFound cid), s)
      | Some c \<Rightarrow>
          (case transition_candidate c CsAPromoted of
             Inl e \<Rightarrow> (Err e, s)
           | Inr c' \<Rightarrow>
               let stack = (case ry_active s of
                     Some prev \<Rightarrow> if prev \<noteq> cid then trim_rollback_stack (ry_rollback_stack s @ [prev]) else ry_rollback_stack s
                   | None \<Rightarrow> ry_rollback_stack s)
               in (Ok c', (put_candidate c' s)\<lparr>ry_rollback_stack := stack, ry_active := Some cid\<rparr>)))"

definition activate_candidate :: "('sk, 'vk) boundary_env \<Rightarrow> instant \<Rightarrow> string \<Rightarrow> kernel_candidate rcv" where
  "activate_candidate env now cid =
     rcv_then (activation_admitted cid) (\<lambda>_.
     rcv_then (promote_candidate cid) (\<lambda>c.
     rcv_then (rcv_emit_when (bd_emitter env) (\<lambda>em. emit_kernel_activated em now c)) (\<lambda>_. rcv_return c)))"

definition rollback_candidate :: "('sk, 'vk) boundary_env \<Rightarrow> instant \<Rightarrow> string \<Rightarrow> kernel_candidate rcv" where
  "rollback_candidate env now cid s =
     (case map_of (ry_candidates s) cid of
        None \<Rightarrow> (Err (CandidateNotFound cid), s)
      | Some c \<Rightarrow>
          if ry_active s \<noteq> Some cid then (Err (InvalidCandidateTransition (kc_state c) CsRollback), s)
          else case ensure_transition (kc_state c) CsRollback of
            Inl e \<Rightarrow> (Err e, s)
          | Inr _ \<Rightarrow>
              if ry_rollback_stack s = [] then (Err (RecoveryInternal ''rollback requires previous active candidate''), s)
              else let prev = last (ry_rollback_stack s); s1 = s\<lparr>ry_rollback_stack := butlast (ry_rollback_stack s)\<rparr> in
                if map_of (ry_candidates s) prev = None
                then (Err (RecoveryInternal (''rollback stack points to missing candidate '' @ prev)), s1)
                else case transition_candidate c CsRollback of
                  Inl e \<Rightarrow> (Err e, s1)
                | Inr c' \<Rightarrow>
                    rcv_then (rcv_emit_when (bd_emitter env)
                        (\<lambda>em. emit_kernel_rolled_back_to_previous em now c' prev ''previous active restored''))
                      (\<lambda>_. rcv_return c') ((put_candidate c' s1)\<lparr>ry_active := Some prev\<rparr>))"

definition retire_candidate :: "string \<Rightarrow> string \<Rightarrow> unit rcv" where
  "retire_candidate cid why s =
     (case map_of (ry_candidates s) cid of
        None \<Rightarrow> (Err (CandidateNotFound cid), s)
      | Some c \<Rightarrow>
          if ry_active s = Some cid then (Err (InvalidCandidateTransition (kc_state c) CsRetired), s)
          else case transition_candidate c CsRetired of
                 Inl e \<Rightarrow> (Err e, s)
               | Inr c' \<Rightarrow> (Ok (), put_candidate c' s))"

definition list_candidates :: "recovery_sys \<Rightarrow> kernel_candidate list" where
  "list_candidates s = map snd (ry_candidates s)"

definition get_active :: "recovery_sys \<Rightarrow> kernel_candidate option" where
  "get_active s = Option.bind (ry_active s) (map_of (ry_candidates s))"

section \<open>Lifecycle of a candidate\<close>

fun candidate_rank :: "candidate_state \<Rightarrow> nat" where
  "candidate_rank CsBuilding = 7"
| "candidate_rank CsBuilt = 6"
| "candidate_rank CsGating = 5"
| "candidate_rank CsGatePassed = 4"
| "candidate_rank CsAPromoted = 3"
| "candidate_rank CsBDemotedToA = 2"
| "candidate_rank CsRollback = 1"
| "candidate_rank CsGateFailed = 1"
| "candidate_rank CsRetired = 0"

interpretation kcl: lifecycle_fsm transition_allowed "\<lambda>st. st = CsRetired" candidate_rank
proof
  show "st = CsRetired \<Longrightarrow> \<not> transition_allowed st st'" for st st' by simp
  show "st \<noteq> CsRetired \<Longrightarrow> \<exists>st'. transition_allowed st st'" for st by (cases st) auto
  show "transition_allowed st st' \<Longrightarrow> candidate_rank st' < candidate_rank st" for st st' by (cases st) auto
qed

lemma transition_candidate_Ok [simp]:
  "transition_candidate c to = Ok c' \<longleftrightarrow> transition_allowed (kc_state c) to \<and> c' = c\<lparr>kc_state := to\<rparr>"
  "transition_candidate c to = Err e \<longleftrightarrow> \<not> transition_allowed (kc_state c) to \<and> e = InvalidCandidateTransition (kc_state c) to"
  by (auto simp: transition_candidate_def ensure_transition_def)

lemma put_candidate_simps [simp]:
  "map_of (ry_candidates (put_candidate c s)) cid = (if cid = kc_candidate_id c then Some c else map_of (ry_candidates s) cid)"
  "ry_active (put_candidate c s) = ry_active s" "ry_rollback_stack (put_candidate c s) = ry_rollback_stack s"
  "ry_state (put_candidate c s) = ry_state s"
  by (simp_all add: put_candidate_def AList.update_conv')

lemma put_candidate_stack [simp]:
  "put_candidate c (s\<lparr>ry_rollback_stack := xs\<rparr>) = (put_candidate c s)\<lparr>ry_rollback_stack := xs\<rparr>"
  by (cases s) (simp add: put_candidate_def)

lemma trim_rollback_stack_simps:
  "length (trim_rollback_stack xs) \<le> ROLLBACK_STACK_CAPACITY" "set (trim_rollback_stack xs) \<subseteq> set xs"
  "distinct xs \<Longrightarrow> distinct (trim_rollback_stack xs)"
  by (auto simp: trim_rollback_stack_def dest: in_set_dropD)

section \<open>Runs of the pipeline\<close>

datatype kernel_event =
    KeRegister string
  | KeVerify string bool
  | KeAdmit string bool
  | KePromote string bool
  | KeRollback string
  | KeRetire string
  | KeOther

text \<open>
  The second component holds the activations that were admitted and have not yet promoted. Identifiers are
  fresh ULIDs. A verification is recorded together with whether the candidate went through the gate in it, from \<open>BUILT\<close>
  to \<open>GATE_PASSED\<close>, and a promotion with whether it succeeded. Whatever leaves the pipeline alone, the boundary
  and the emissions, is \<open>KeOther\<close>.
\<close>

definition gate_passed :: "string \<Rightarrow> recovery_sys \<Rightarrow> recovery_sys \<Rightarrow> bool" where
  "gate_passed cid s s' \<longleftrightarrow>
     map_option kc_state (map_of (ry_candidates s) cid) = Some CsBuilt \<and>
     map_option kc_state (map_of (ry_candidates s') cid) = Some CsGatePassed"

inductive kernel_step ::
    "('sk, 'vk) boundary_env \<Rightarrow> recovery_sys \<times> string list \<Rightarrow> kernel_event \<Rightarrow> recovery_sys \<times> string list \<Rightarrow> bool"
  for env where
  kernel_register: "map_of (ry_candidates s) (''kc_'' @ ulid) = None \<Longrightarrow> register_candidate env ulid now m sig s = (r, s') \<Longrightarrow>
     kernel_step env (s, ps) (KeRegister (''kc_'' @ ulid)) (s', ps)"
| kernel_verify: "verify_candidate env now cid s = (r, s') \<Longrightarrow> 
     kernel_step env (s, ps) (KeVerify cid (gate_passed cid s s')) (s', ps)"
| kernel_admit: "activation_admitted cid s = (Ok (), s') \<Longrightarrow>
     kernel_step env (s, ps) (KeAdmit cid (is_recovery_active s)) (s', cid # ps)"
| kernel_promote: "cid \<in> set ps \<Longrightarrow> promote_candidate cid s = (r, s') \<Longrightarrow>
     kernel_step env (s, ps) (KePromote cid (\<not> isl r)) (s', remove1 cid ps)"
| kernel_rollback: "rollback_candidate env now cid s = (r, s') \<Longrightarrow> kernel_step env (s, ps) (KeRollback cid) (s', ps)"
| kernel_retire: "retire_candidate cid why s = (r, s') \<Longrightarrow> kernel_step env (s, ps) (KeRetire cid) (s', ps)"
| kernel_other: "ry_candidates s' = ry_candidates s \<Longrightarrow> ry_active s' = ry_active s \<Longrightarrow>
     ry_rollback_stack s' = ry_rollback_stack s \<Longrightarrow> kernel_step env (s, ps) KeOther (s', ps)"

definition signed_by_trusted :: "('sk, 'vk) boundary_env \<Rightarrow> kernel_candidate \<Rightarrow> bool" where
  "signed_by_trusted env c \<longleftrightarrow> (\<exists>body key. canonical_manifest_body_bytes (bd_lib env) (kc_manifest c) = Ok body \<and>
     (kc_signing_authority c, key) \<in> set (bd_trusted_authorities env) \<and>
     length (kc_signature_ed25519 c) = 64 \<and> rcl_verify (bd_lib env) key body (kc_signature_ed25519 c))"

definition precedes :: "'a \<Rightarrow> 'a \<Rightarrow> 'a list \<Rightarrow> bool" where
  "precedes x y es \<longleftrightarrow> (\<exists>xs ys zs. es = xs @ x # ys @ y # zs)"

lemma precedes_append: "precedes x y es \<Longrightarrow> precedes x y (es @ fs)"
  unfolding precedes_def by (metis append.assoc append_Cons)

lemma precedes_last: "x \<in> set es \<Longrightarrow> precedes x y (es @ [y])"
  by (fastforce simp: precedes_def in_set_conv_decomp)

lemma precedes_mem: "precedes x y es \<Longrightarrow> x \<in> set es \<and> y \<in> set es"
  by (auto simp: precedes_def)

text \<open>What the events of a run must contain, and in which order, for a candidate to be in its state.\<close>

definition earned :: "kernel_event list \<Rightarrow> kernel_candidate \<Rightarrow> bool" where
  "earned E c \<longleftrightarrow>
     (kc_state c = CsGatePassed \<longrightarrow> KeVerify (kc_candidate_id c) True \<in> set E) \<and>
     (kc_state c \<in> {CsAPromoted, CsRollback} \<longrightarrow>
        precedes (KeVerify (kc_candidate_id c) True) (KePromote (kc_candidate_id c) True) E \<and>
        (km_requires_recovery_install (kc_manifest c) \<longrightarrow>
           precedes (KeAdmit (kc_candidate_id c) True) (KePromote (kc_candidate_id c) True) E)) \<and>
     kc_state c \<in> {CsBuilt, CsGatePassed, CsAPromoted, CsRollback, CsRetired}"

definition was_promoted :: "kernel_event list \<Rightarrow> recovery_sys \<Rightarrow> string \<Rightarrow> bool" where
  "was_promoted E s cid \<longleftrightarrow> (\<exists>c. map_of (ry_candidates s) cid = Some c \<and> kc_state c \<in> {CsAPromoted, CsRetired} \<and>
     earned E (c\<lparr>kc_state := CsAPromoted\<rparr>))"

definition slots :: "recovery_sys \<Rightarrow> string list" where
  "slots s = ry_rollback_stack s @ (case ry_active s of None \<Rightarrow> [] | Some cid \<Rightarrow> [cid])"

definition pipeline_inv :: "('sk, 'vk) boundary_env \<Rightarrow> kernel_event list \<Rightarrow> recovery_sys \<times> string list \<Rightarrow> bool" where
  "pipeline_inv env E = (\<lambda>(s, ps).
     (\<forall>cid c. map_of (ry_candidates s) cid = Some c \<longrightarrow> kc_candidate_id c = cid \<and> signed_by_trusted env c \<and> earned E c) \<and>
     (\<forall>cid \<in> set (slots s). was_promoted E s cid) \<and> distinct (slots s) \<and>
     length (ry_rollback_stack s) \<le> ROLLBACK_STACK_CAPACITY \<and> (ry_active s = None \<longrightarrow> ry_rollback_stack s = []) \<and>
     (\<forall>cid \<in> set ps. \<exists>c. map_of (ry_candidates s) cid = Some c \<and>
        (km_requires_recovery_install (kc_manifest c) \<longrightarrow> KeAdmit cid True \<in> set E)))"

lemma earned_mono: "earned E c \<Longrightarrow> earned (E @ F) c"
  by (auto simp: earned_def intro: precedes_append)

lemma was_promoted_mono: "was_promoted E s cid \<Longrightarrow> was_promoted (E @ F) s cid"
  by (auto simp: was_promoted_def intro: earned_mono)

lemma pipeline_inv_mono: "pipeline_inv env E m \<Longrightarrow> pipeline_inv env (E @ F) m"
  unfolding pipeline_inv_def using earned_mono was_promoted_mono by (fastforce split: prod.splits)

text \<open>The state of one candidate changes; the slots that name it stay promoted.\<close>

lemma was_promoted_put:
  assumes "was_promoted E s cid" and "map_of (ry_candidates s) (kc_candidate_id c) = Some c0"
    and "cid = kc_candidate_id c \<Longrightarrow> c = c0\<lparr>kc_state := CsRetired\<rparr>"
  shows "was_promoted E (put_candidate c s) cid"
  using assms by (cases "cid = kc_candidate_id c") (auto simp: was_promoted_def)

lemma pipeline_inv_log [simp]: "pipeline_inv env E (s\<lparr>ry_log := l\<rparr>, ps) \<longleftrightarrow> pipeline_inv env E (s, ps)"
  by (simp add: pipeline_inv_def was_promoted_def slots_def)

lemma pipeline_invD:
  assumes "pipeline_inv env E (s, ps)"
  shows "map_of (ry_candidates s) cid = Some c \<Longrightarrow> kc_candidate_id c = cid \<and> signed_by_trusted env c \<and> earned E c"
    and "cid \<in> set (slots s) \<Longrightarrow> was_promoted E s cid" and "distinct (slots s)"
    and "length (ry_rollback_stack s) \<le> ROLLBACK_STACK_CAPACITY" and "ry_active s = None \<Longrightarrow> ry_rollback_stack s = []"
    and "cid \<in> set ps \<Longrightarrow> \<exists>c. map_of (ry_candidates s) cid = Some c \<and>
        (km_requires_recovery_install (kc_manifest c) \<longrightarrow> KeAdmit cid True \<in> set E)"
  using assms unfolding pipeline_inv_def by simp_all

lemma pipeline_invI:
  assumes "\<And>cid c. map_of (ry_candidates s) cid = Some c \<Longrightarrow> kc_candidate_id c = cid \<and> signed_by_trusted env c \<and> earned E c"
    and "\<And>cid. cid \<in> set (slots s) \<Longrightarrow> was_promoted E s cid" and "distinct (slots s)"
    and "length (ry_rollback_stack s) \<le> ROLLBACK_STACK_CAPACITY" and "ry_active s = None \<Longrightarrow> ry_rollback_stack s = []"
    and "\<And>cid. cid \<in> set ps \<Longrightarrow> \<exists>c. map_of (ry_candidates s) cid = Some c \<and>
        (km_requires_recovery_install (kc_manifest c) \<longrightarrow> KeAdmit cid True \<in> set E)"
  shows "pipeline_inv env E (s, ps)"
  using assms unfolding pipeline_inv_def by simp

lemma pipeline_inv_put:
  assumes inv: "pipeline_inv env E (s, ps)" and c: "signed_by_trusted env c" "earned E c"
    and promoted: "\<And>cid. cid \<in> set (slots s) \<Longrightarrow> was_promoted E (put_candidate c s) cid"
    and same: "\<And>c0. map_of (ry_candidates s) (kc_candidate_id c) = Some c0 \<Longrightarrow> kc_manifest c = kc_manifest c0"
  shows "pipeline_inv env E (put_candidate c s, ps)"
proof (rule pipeline_invI)
  have slots: "slots (put_candidate c s) = slots s" by (simp add: slots_def)
  show "kc_candidate_id c' = cid \<and> signed_by_trusted env c' \<and> earned E c'"
    if "map_of (ry_candidates (put_candidate c s)) cid = Some c'" for cid c'
    using that c pipeline_invD(1) [OF inv, of cid c'] by (simp split: if_splits)
  show "was_promoted E (put_candidate c s) cid" if "cid \<in> set (slots (put_candidate c s))" for cid
    using that promoted unfolding slots by blast
  show "distinct (slots (put_candidate c s))" using pipeline_invD(3) [OF inv] unfolding slots .
  show "length (ry_rollback_stack (put_candidate c s)) \<le> ROLLBACK_STACK_CAPACITY"
    and "ry_active (put_candidate c s) = None \<Longrightarrow> ry_rollback_stack (put_candidate c s) = []"
    using pipeline_invD(4,5) [OF inv] by simp_all
  show "\<exists>c'. map_of (ry_candidates (put_candidate c s)) cid = Some c' \<and>
      (km_requires_recovery_install (kc_manifest c') \<longrightarrow> KeAdmit cid True \<in> set E)" if "cid \<in> set ps" for cid
    using pipeline_invD(6) [OF inv that] same by (cases "cid = kc_candidate_id c") auto
qed

lemma pipeline_inv_register:
  assumes "pipeline_inv env E (s, ps)" and fresh: "map_of (ry_candidates s) (''kc_'' @ ulid) = None"
    and "register_candidate env ulid now m sig s = (r, s')"
  shows "pipeline_inv env E (s', ps)"
proof (cases "s' = s")
  case False
  then obtain body authority where ok: "canonical_manifest_body_bytes (bd_lib env) m = Ok body"
    "verify_manifest_signature env body sig = Ok authority"
    using assms(3) by (auto simp: register_candidate_def try_then_Ok_iff split: sum.splits)
  let ?c = "\<lparr>kc_candidate_id = ''kc_'' @ ulid, kc_version = km_version m, kc_kernel_blake3 = rcl_hex_digest (bd_lib env) body,
      kc_signature_ed25519 = sig, kc_signing_authority = authority, kc_registered_at = now, kc_state = CsBuilt, kc_manifest = m\<rparr>"
  have "rcv_then (rcv_emit_when (bd_emitter env) (\<lambda>em. emit_kernel_candidate_registered em ?c)) (\<lambda>_. rcv_return ?c) (put_candidate ?c s) = (r, s')"
    using assms(3) ok by (simp add: register_candidate_def)
  then obtain l where s': "s' = (put_candidate ?c s)\<lparr>ry_log := l\<rparr>"
    using rcv_emit_then [OF recovery_emissions_only(6), of "bd_emitter env" ?c "\<lambda>_. rcv_return ?c" "put_candidate ?c s"] by auto
  have "signed_by_trusted env ?c"
    using ok by (auto simp: signed_by_trusted_def verify_manifest_signature_def dest!: find_eq_Some_props split: if_splits option.splits)
  moreover have "was_promoted E (put_candidate ?c s) cid" if "was_promoted E s cid" for cid
    using that fresh by (auto simp: was_promoted_def)
  ultimately have "pipeline_inv env E (put_candidate ?c s, ps)"
    using fresh pipeline_invD(2) [OF assms(1)] by (intro pipeline_inv_put [OF assms(1)]) (simp_all add: earned_def)
  then show ?thesis unfolding s' pipeline_inv_log .
qed (use assms in simp)

text \<open>A candidate moves to a new state that its history has earned, and no slot is concerned or it retires.\<close>

lemma pipeline_inv_move:
  assumes inv: "pipeline_inv env E (s, ps)" and c: "map_of (ry_candidates s) cid = Some c"
    and "earned E (c\<lparr>kc_state := st\<rparr>)" and "cid \<notin> set (slots s) \<or> st = CsRetired"
  shows "pipeline_inv env E (put_candidate (c\<lparr>kc_state := st\<rparr>) s, ps)"
proof -
  have id: "kc_candidate_id c = cid" "signed_by_trusted env c" using pipeline_invD(1) [OF inv c] by simp_all
  have "was_promoted E (put_candidate (c\<lparr>kc_state := st\<rparr>) s) i" if "i \<in> set (slots s)" for i
  proof (rule was_promoted_put)
    show "was_promoted E s i" using pipeline_invD(2) [OF inv that] .
    show "map_of (ry_candidates s) (kc_candidate_id (c\<lparr>kc_state := st\<rparr>)) = Some c" using c id by simp
    show "i = kc_candidate_id (c\<lparr>kc_state := st\<rparr>) \<Longrightarrow> c\<lparr>kc_state := st\<rparr> = c\<lparr>kc_state := CsRetired\<rparr>"
      using assms(4) that id by auto
  qed
  moreover have "signed_by_trusted env (c\<lparr>kc_state := st\<rparr>)" using id(2) by (simp add: signed_by_trusted_def)
  ultimately show ?thesis
    using c id assms(3) by (intro pipeline_inv_put [OF inv]) simp_all
qed

lemma slots_state:
  assumes "pipeline_inv env E (s, ps)" and "map_of (ry_candidates s) cid = Some c" and "cid \<in> set (slots s)"
  shows "kc_state c \<in> {CsAPromoted, CsRetired}"
  using pipeline_invD(2) [OF assms(1,3)] assms(2) by (auto simp: was_promoted_def)

lemma pipeline_inv_verify:
  assumes inv: "pipeline_inv env E (s, ps)" and run: "verify_candidate env now cid s = (r, s')"
    and gate: "gate_passed cid s s' \<Longrightarrow> KeVerify cid True \<in> set E"
  shows "pipeline_inv env E (s', ps)"
proof (cases "s' = s")
  case False
  then obtain c where c: "map_of (ry_candidates s) cid = Some c" "kc_state c = CsBuilt"
    using run by (cases "kc_state (the (map_of (ry_candidates s) cid))")
      (auto simp: verify_candidate_def split: option.splits sum.splits)
  let ?c = "c\<lparr>kc_state := CsGatePassed\<rparr>"
  have "rcv_then (rcv_emit_when (bd_emitter env) (\<lambda>em. emit_kernel_gate_result em now ?c)) (\<lambda>_. rcv_return ?c) (put_candidate ?c s) = (r, s')"
    using run c by (auto simp: verify_candidate_def split: sum.splits)
  then obtain l where s': "s' = (put_candidate ?c s)\<lparr>ry_log := l\<rparr>"
    using rcv_emit_then [OF recovery_emissions_only(7), of "bd_emitter env" now ?c "\<lambda>_. rcv_return ?c" "put_candidate ?c s"] by auto
  have id: "kc_candidate_id c = cid" using pipeline_invD(1) [OF inv c(1)] by simp
  then have "gate_passed cid s s'" using c by (simp add: gate_passed_def s')
  then have "earned E ?c" using gate id by (simp add: earned_def)
  moreover have "cid \<notin> set (slots s)" using slots_state [OF inv c(1)] c(2) by auto
  ultimately show ?thesis using pipeline_inv_move [OF inv c(1)] unfolding s' pipeline_inv_log by blast
qed (use inv in simp)

lemma pipeline_inv_retire:
  assumes inv: "pipeline_inv env E (s, ps)" and run: "retire_candidate cid why s = (r, s')"
  shows "pipeline_inv env E (s', ps)"
proof (cases "s' = s")
  case False
  then obtain c where c: "map_of (ry_candidates s) cid = Some c" "s' = put_candidate (c\<lparr>kc_state := CsRetired\<rparr>) s"
    using run by (auto simp: retire_candidate_def split: option.splits sum.splits if_splits)
  then show ?thesis using pipeline_inv_move [OF inv c(1)] by (simp add: earned_def)
qed (use inv in simp)

text \<open>Promotion and rollback also move the slots: \<open>slots\<close> gains its last entry, or loses it.\<close>

lemma pipeline_inv_slots:
  assumes inv: "pipeline_inv env E (s, ps)" and c: "signed_by_trusted env c" "earned E c" "kc_candidate_id c = cid"
    "map_of (ry_candidates s) cid = Some c0" "kc_manifest c = kc_manifest c0"
    and slots: "slots s' = stack @ [active]" "ry_active s' = Some active" "ry_rollback_stack s' = stack"
    and cands: "ry_candidates s' = ry_candidates (put_candidate c s)"
    and "set stack \<subseteq> set (slots s) - {cid}" "active \<in> set (slots s) - {cid} \<or> active = cid \<and> kc_state c = CsAPromoted"
    "active \<notin> set stack" "distinct stack" "length stack \<le> ROLLBACK_STACK_CAPACITY" "set ps' \<subseteq> set ps"
  shows "pipeline_inv env E (s', ps')"
proof (rule pipeline_invI)
  show "kc_candidate_id c' = i \<and> signed_by_trusted env c' \<and> earned E c'" if "map_of (ry_candidates s') i = Some c'" for i c'
    using that c pipeline_invD(1) [OF inv, of i c'] by (simp add: cands split: if_splits)
  have other: "was_promoted E s' i" if "i \<in> set (slots s) - {cid}" for i
    using pipeline_invD(2) [OF inv, of i] that c(3) by (auto simp: was_promoted_def cands)
  have self: "was_promoted E s' cid" if "kc_state c = CsAPromoted"
    using that c(2,3) by (auto simp: was_promoted_def cands earned_def)
  show "was_promoted E s' i" if "i \<in> set (slots s')" for i
    using that assms(11,12) other self unfolding slots(1) by auto
  show "distinct (slots s')" "length (ry_rollback_stack s') \<le> ROLLBACK_STACK_CAPACITY" using assms by simp_all
  show "ry_active s' = None \<Longrightarrow> ry_rollback_stack s' = []" using slots by simp
  show "\<exists>c'. map_of (ry_candidates s') i = Some c' \<and> (km_requires_recovery_install (kc_manifest c') \<longrightarrow> KeAdmit i True \<in> set E)"
    if "i \<in> set ps'" for i
    using pipeline_invD(6) [OF inv, of i] that assms(16) c by (cases "i = cid") (auto simp: cands)
qed

lemma promote_candidate_Ok:
  "promote_candidate cid s = (Ok c', s') \<longleftrightarrow> (\<exists>c. map_of (ry_candidates s) cid = Some c \<and> kc_state c = CsGatePassed \<and>
     c' = c\<lparr>kc_state := CsAPromoted\<rparr> \<and>
     s' = (put_candidate c' s)\<lparr>ry_rollback_stack := (case ry_active s of
           Some prev \<Rightarrow> if prev \<noteq> cid then trim_rollback_stack (ry_rollback_stack s @ [prev]) else ry_rollback_stack s
         | None \<Rightarrow> ry_rollback_stack s), ry_active := Some cid\<rparr>)"
proof -
  have "transition_allowed st CsAPromoted \<longleftrightarrow> st = CsGatePassed" for st by (cases st) auto
  then show ?thesis by (auto simp: promote_candidate_def Let_def split: option.splits sum.splits)
qed

lemma promote_candidate_Err: "promote_candidate cid s = (Err e, s') \<Longrightarrow> s' = s"
  by (auto simp: promote_candidate_def Let_def split: option.splits sum.splits)

lemma pipeline_inv_promote:
  fixes E cid r
  defines "E' \<equiv> E @ [KePromote cid (\<not> isl r)]"
  assumes inv0: "pipeline_inv env E (s, ps)" and run: "promote_candidate cid s = (r, s')" and "cid \<in> set ps"
  shows "pipeline_inv env E' (s', remove1 cid ps)"
proof -
  have inv: "pipeline_inv env E' (s, ps)" unfolding E'_def by (rule pipeline_inv_mono [OF inv0])
  show ?thesis
  proof (cases r)
    case (Inl e)
    then have "s' = s" using run promote_candidate_Err by blast
    then show ?thesis using inv notin_set_remove1 [of _ ps cid] unfolding pipeline_inv_def by (auto dest: notin_set_remove1)
  next
    case (Inr c')
    then obtain c where c: "map_of (ry_candidates s) cid = Some c" "kc_state c = CsGatePassed" "c' = c\<lparr>kc_state := CsAPromoted\<rparr>"
      and s': "s' = (put_candidate c' s)\<lparr>ry_rollback_stack := (case ry_active s of
             Some prev \<Rightarrow> if prev \<noteq> cid then trim_rollback_stack (ry_rollback_stack s @ [prev]) else ry_rollback_stack s
           | None \<Rightarrow> ry_rollback_stack s), ry_active := Some cid\<rparr>"
      using run by (auto simp: promote_candidate_Ok)
    note ids = pipeline_invD(1) [OF inv c(1)]
    have cid: "cid \<notin> set (slots s)" using slots_state [OF inv c(1)] c(2) by auto
    have "earned E' c'"
      using pipeline_invD(1) [OF inv0 c(1)] c Inr pipeline_invD(6) [OF inv0 assms(4)]
      by (auto simp: earned_def E'_def intro: precedes_last)
    moreover have "signed_by_trusted env c'" using ids c(3) by (simp add: signed_by_trusted_def)
    moreover have "ry_rollback_stack s' = trim_rollback_stack (slots s)"
    proof (cases "ry_active s")
      case None
      then show ?thesis using pipeline_invD(5) [OF inv] by (simp add: s' slots_def trim_rollback_stack_def)
    next
      case (Some prev)
      then show ?thesis using cid by (auto simp: s' slots_def)
    qed
    ultimately show ?thesis
      using trim_rollback_stack_simps [of "slots s"] cid ids c pipeline_invD(3) [OF inv]
      by (intro pipeline_inv_slots [OF inv, of c' cid c s' "ry_rollback_stack s'" cid])
        (auto simp: s' slots_def dest: notin_set_remove1)
  qed
qed

lemma rollback_succeeds:
  assumes inv: "pipeline_inv env E (s, ps)" and c: "map_of (ry_candidates s) cid = Some c" "ry_active s = Some cid"
    "kc_state c = CsAPromoted" "ry_rollback_stack s \<noteq> []"
  shows "\<exists>r l. rollback_candidate env now cid s =
       (r, (put_candidate (c\<lparr>kc_state := CsRollback\<rparr>) s)\<lparr>ry_rollback_stack := butlast (ry_rollback_stack s),
          ry_active := Some (last (ry_rollback_stack s)), ry_log := l\<rparr>) \<and>
     (r = Ok (c\<lparr>kc_state := CsRollback\<rparr>) \<or> (\<exists>w. bd_emitter env \<noteq> None \<and> r = Err (RecoveryEvidenceEmitFailed w)))"
proof -
  let ?prev = "last (ry_rollback_stack s)" and ?c = "c\<lparr>kc_state := CsRollback\<rparr>"
  let ?s = "(put_candidate ?c s)\<lparr>ry_rollback_stack := butlast (ry_rollback_stack s), ry_active := Some ?prev\<rparr>"
  have "?prev \<in> set (slots s)" using c(4) by (simp add: slots_def)
  then have "map_of (ry_candidates s) ?prev \<noteq> None" using pipeline_invD(2) [OF inv] by (auto simp: was_promoted_def)
  then have "rollback_candidate env now cid s = rcv_then (rcv_emit_when (bd_emitter env)
      (\<lambda>em. emit_kernel_rolled_back_to_previous em now ?c ?prev ''previous active restored'')) (\<lambda>_. rcv_return ?c) ?s"
    using c by (auto simp: rollback_candidate_def ensure_transition_def Let_def split: sum.splits)
  then show ?thesis
    using rcv_emit_then [OF recovery_emissions_only(9), of "bd_emitter env" now ?c ?prev "''previous active restored''" "\<lambda>_. rcv_return ?c" ?s]
    by auto
qed

lemma rollback_candidate_cases:
  assumes inv: "pipeline_inv env E (s, ps)" and run: "rollback_candidate env now cid s = (r, s')"
  shows "s' = s \<or>
     (\<exists>c l. map_of (ry_candidates s) cid = Some c \<and> ry_active s = Some cid \<and> kc_state c = CsAPromoted \<and> ry_rollback_stack s \<noteq> [] \<and>
        s' = (put_candidate (c\<lparr>kc_state := CsRollback\<rparr>) s)\<lparr>ry_rollback_stack := butlast (ry_rollback_stack s),
          ry_active := Some (last (ry_rollback_stack s)), ry_log := l\<rparr>)"
proof (cases "\<exists>c. map_of (ry_candidates s) cid = Some c \<and> ry_active s = Some cid \<and> kc_state c = CsAPromoted \<and> ry_rollback_stack s \<noteq> []")
  case True
  then show ?thesis using rollback_succeeds [OF inv, of cid _ now] run by fastforce
next
  case False
  have "kc_state c = CsAPromoted" if "map_of (ry_candidates s) cid = Some c" "ry_active s = Some cid" "transition_allowed (kc_state c) CsRollback" for c
    using slots_state [OF inv that(1)] that(2,3) by (auto simp: slots_def)
  then show ?thesis
    using False run by (auto simp: rollback_candidate_def ensure_transition_def split: option.splits if_splits)
qed

lemma pipeline_inv_rollback:
  assumes inv: "pipeline_inv env E (s, ps)" and run: "rollback_candidate env now cid s = (r, s')"
  shows "pipeline_inv env E (s', ps)"
proof (cases "s' = s")
  case False
  then obtain c l where c: "map_of (ry_candidates s) cid = Some c" "ry_active s = Some cid" "kc_state c = CsAPromoted"
    "ry_rollback_stack s \<noteq> []"
    and s': "s' = (put_candidate (c\<lparr>kc_state := CsRollback\<rparr>) s)\<lparr>ry_rollback_stack := butlast (ry_rollback_stack s),
          ry_active := Some (last (ry_rollback_stack s)), ry_log := l\<rparr>"
    using rollback_candidate_cases [OF inv run] by blast
  note ids = pipeline_invD(1) [OF inv c(1)]
  obtain ys y where stack: "ry_rollback_stack s = ys @ [y]" using c(4) by (metis append_butlast_last_id)
  then have d: "distinct (ys @ [y])" "cid \<notin> set (ys @ [y])" using pipeline_invD(3) [OF inv] c(2) by (auto simp: slots_def)
  show ?thesis
    using d ids c pipeline_invD(4) [OF inv] stack
    by (intro pipeline_inv_slots [OF inv, of "c\<lparr>kc_state := CsRollback\<rparr>" cid c s' ys y])
      (auto simp: s' slots_def earned_def signed_by_trusted_def)
qed (use inv in simp)

lemma pipeline_inv_step:
  assumes "kernel_step env (s, ps) e (s', ps')" and "pipeline_inv env E (s, ps)"
  shows "pipeline_inv env (E @ [e]) (s', ps')"
proof -
  have inv: "pipeline_inv env (E @ [e]) (s, ps)" by (rule pipeline_inv_mono [OF assms(2)])
  from assms(1) show ?thesis
  proof (cases rule: kernel_step.cases)
    case (kernel_register ulid now m sig r)
    then show ?thesis using pipeline_inv_register [OF inv] by blast
  next
    case (kernel_verify now cid r)
    then show ?thesis using pipeline_inv_verify [OF inv, of now cid r s'] by auto
  next
    case (kernel_admit cid)
    then obtain c where c: "map_of (ry_candidates s) cid = Some c" "s' = s"
      "km_requires_recovery_install (kc_manifest c) \<longrightarrow> is_recovery_active s"
      by (auto simp: activation_admitted_def split: option.splits if_splits)
    then show ?thesis using inv kernel_admit by (simp add: pipeline_inv_def)
  next
    case (kernel_promote cid r)
    then show ?thesis using pipeline_inv_promote [OF assms(2)] by blast
  next
    case (kernel_rollback now cid r)
    then show ?thesis using pipeline_inv_rollback [OF inv] by blast
  next
    case (kernel_retire cid why r)
    then show ?thesis using pipeline_inv_retire [OF inv] by blast
  next
    case kernel_other
    then show ?thesis using inv by (simp add: pipeline_inv_def was_promoted_def slots_def)
  qed
qed

lemma pipeline_inv_new: "pipeline_inv env [] (recovery_boundary_new fb, [])"
  by (simp add: pipeline_inv_def recovery_boundary_new_def slots_def ROLLBACK_STACK_CAPACITY_def)

lemma pipeline_inv_run: "lts_run (kernel_step env) (recovery_boundary_new fb, []) es (s, ps) \<Longrightarrow> pipeline_inv env es (s, ps)"
proof (induction es arbitrary: s ps rule: rev_induct)
  case Nil
  then show ?case using pipeline_inv_new by simp
next
  case (snoc e es)
  then obtain m where "lts_run (kernel_step env) (recovery_boundary_new fb, []) es m" "kernel_step env m e (s, ps)"
    by (auto simp: lts_run_append)
  then show ?case using snoc.IH pipeline_inv_step [of env "fst m" "snd m" e s ps es] by (cases m) simp
qed

text \<open>
  C19: The kernel in slot A earned its place. In every run of the pipeline, with promotions separated from the
  check that admits them, the active candidate and every one it can be rolled back to is registered and was signed over
  its manifest by a trusted authority; a call of the run took it through the gate, from built to gate passed, and a later
  call promoted it with success; and if its manifest demands that, it was admitted while the host was in
  recovery mode, before that promotion. No candidate fills two slots, and at most eight are
  kept to roll back to. The gate is the one of the code, which its comment calls shallow: the six gates of
  \<open>03_dedicated_kernel_pipeline.md\<close> are deferred, and every built candidate passes.
\<close>

theorem active_kernel_earned_its_slot:
  assumes "lts_run (kernel_step env) (recovery_boundary_new fb, []) es (s, ps)"
    and "ry_active s = Some cid \<or> cid \<in> set (ry_rollback_stack s)"
  shows "\<exists>c. map_of (ry_candidates s) cid = Some c \<and> signed_by_trusted env c \<and>
       (\<exists>xs ys zs. es = xs @ KeVerify cid True # ys @ KePromote cid True # zs) \<and>
       (km_requires_recovery_install (kc_manifest c) \<longrightarrow>
         (\<exists>xs ys zs. es = xs @ KeAdmit cid True # ys @ KePromote cid True # zs)) \<and>
       length (ry_rollback_stack s) \<le> 8 \<and> distinct (ry_rollback_stack s) \<and> ry_active s \<notin> Some ` set (ry_rollback_stack s)"
proof -
  have inv: "pipeline_inv env es (s, ps)" using pipeline_inv_run [OF assms(1)] .
  have "cid \<in> set (slots s)" using assms(2) by (auto simp: slots_def)
  then obtain c where c: "map_of (ry_candidates s) cid = Some c" "earned es (c\<lparr>kc_state := CsAPromoted\<rparr>)"
    using pipeline_invD(2) [OF inv] unfolding was_promoted_def by blast
  moreover have "distinct (ry_rollback_stack s)" "ry_active s \<notin> Some ` set (ry_rollback_stack s)"
    using pipeline_invD(3) [OF inv] by (auto simp: slots_def)
  ultimately show ?thesis
    using pipeline_invD(1) [OF inv c(1)] pipeline_invD(4) [OF inv]
    by (auto simp: earned_def precedes_def ROLLBACK_STACK_CAPACITY_def)
qed

lemma activation_step:
  assumes act: "activate_candidate env now cid s = (Ok c, s1)" and run: "lts_run (kernel_step env) (recovery_boundary_new fb, []) es (s, ps)"
  shows "\<exists>s0 l. promote_candidate cid s = (Ok c, s0) \<and> s1 = s0\<lparr>ry_log := l\<rparr> \<and>
     pipeline_inv env (es @ [KeAdmit cid (is_recovery_active s), KePromote cid True]) (s1, ps)"
proof -
  obtain s0 where adm: "activation_admitted cid s = (Ok (), s)" and pro: "promote_candidate cid s = (Ok c, s0)"
    and emit: "rcv_then (rcv_emit_when (bd_emitter env) (\<lambda>em. emit_kernel_activated em now c)) (\<lambda>_. rcv_return c) s0 = (Ok c, s1)"
    using act by (auto simp: activate_candidate_def rcv_then_def activation_admitted_def split: prod.splits sum.splits option.splits if_splits)
  obtain l where s1: "s1 = s0\<lparr>ry_log := l\<rparr>"
    using rcv_emit_then [OF recovery_emissions_only(8), of "bd_emitter env" now c "\<lambda>_. rcv_return c" s0] emit by auto
  have "lts_run (kernel_step env) (recovery_boundary_new fb, []) (es @ [KeAdmit cid (is_recovery_active s), KePromote cid True])
      (s0, remove1 cid (cid # ps))"
    using run kernel_admit [OF adm, of env ps] kernel_promote [OF _ pro, of "cid # ps" env] by (auto simp: lts_run_append)
  from pipeline_inv_run [OF this] show ?thesis using pro s1 by auto
qed

text \<open>
  C27: Rolling back undoes an activation. On every state that can be reached, when a candidate is activated over
  another and then rolled back, the other is active again and the rollback stack is as it was, but for
  its oldest entry when it was full; the candidate is marked as rolled back, and every other candidate is untouched.
  With nothing active before, the rollback is refused and changes nothing.
\<close>

theorem rollback_undoes_activation:
  assumes run: "lts_run (kernel_step env) (recovery_boundary_new fb, []) es (s, ps)"
    and act: "activate_candidate env now cid s = (Ok c, s1)"
  shows "case ry_active s of
       None \<Rightarrow> rollback_candidate env t cid s1 = (Err (RecoveryInternal ''rollback requires previous active candidate''), s1)
     | Some prev \<Rightarrow>
         \<exists>r s2. rollback_candidate env t cid s1 = (r, s2) \<and>
           (r = Ok (c\<lparr>kc_state := CsRollback\<rparr>) \<or> (\<exists>w. bd_emitter env \<noteq> None \<and> r = Err (RecoveryEvidenceEmitFailed w))) \<and>
           ry_active s2 = Some prev \<and>
           ry_rollback_stack s2 = (if length (ry_rollback_stack s) < 8 then ry_rollback_stack s else tl (ry_rollback_stack s)) \<and>
           (\<forall>i. map_of (ry_candidates s2) i =
              (if i = cid then Some (c\<lparr>kc_state := CsRollback\<rparr>) else map_of (ry_candidates s) i))"
proof -
  have inv: "pipeline_inv env es (s, ps)" using pipeline_inv_run [OF run] .
  obtain s0 l E where pro: "promote_candidate cid s = (Ok c, s0)" and s1: "s1 = s0\<lparr>ry_log := l\<rparr>" and inv1: "pipeline_inv env E (s1, ps)"
    using activation_step [OF act run] by blast
  obtain c0 where c0: "map_of (ry_candidates s) cid = Some c0" "kc_state c0 = CsGatePassed" "c = c0\<lparr>kc_state := CsAPromoted\<rparr>"
    using pro by (auto simp: promote_candidate_Ok)
  have id: "kc_candidate_id c = cid" using pipeline_invD(1) [OF inv c0(1)] c0(3) by simp
  have new: "cid \<notin> set (slots s)" using slots_state [OF inv c0(1)] c0(2) by auto
  have c1: "map_of (ry_candidates s1) i = (if i = cid then Some c else map_of (ry_candidates s) i)" "ry_active s1 = Some cid" for i
    using pro id by (auto simp: s1 promote_candidate_Ok)
  show ?thesis
  proof (cases "ry_active s")
    case None
    then have "ry_rollback_stack s1 = []" using pro pipeline_invD(5) [OF inv] by (auto simp: s1 promote_candidate_Ok)
    then show ?thesis using None c1 c0(3) by (simp add: rollback_candidate_def ensure_transition_def)
  next
    case (Some prev)
    have "ry_rollback_stack s1 = trim_rollback_stack (ry_rollback_stack s @ [prev])"
      using pro new Some by (auto simp: s1 promote_candidate_Ok slots_def)
    moreover have "length (ry_rollback_stack s) \<le> 8" using pipeline_invD(4) [OF inv] by (simp add: ROLLBACK_STACK_CAPACITY_def)
    ultimately have stack: "ry_rollback_stack s1 =
        (if length (ry_rollback_stack s) < 8 then ry_rollback_stack s else tl (ry_rollback_stack s)) @ [prev]"
      by (auto simp: trim_rollback_stack_def ROLLBACK_STACK_CAPACITY_def drop_Suc)
    have "\<exists>r l. rollback_candidate env t cid s1 =
         (r, (put_candidate (c\<lparr>kc_state := CsRollback\<rparr>) s1)\<lparr>ry_rollback_stack := butlast (ry_rollback_stack s1),
            ry_active := Some (last (ry_rollback_stack s1)), ry_log := l\<rparr>) \<and>
       (r = Ok (c\<lparr>kc_state := CsRollback\<rparr>) \<or> (\<exists>w. bd_emitter env \<noteq> None \<and> r = Err (RecoveryEvidenceEmitFailed w)))"
      using c1 c0(3) stack by (intro rollback_succeeds [OF inv1]) simp_all
    then show ?thesis using Some stack c1(1) id by auto
  qed
qed

text \<open>
  A departure: a candidate that waits in the rollback stack may be retired, and the next rollback makes the
  retired image, which is no longer bootable, the active one.
\<close>

lemma rollback_restores_retired:
  assumes inv: "pipeline_inv env E (s, ps)" and "map_of (ry_candidates s) cid = Some c" "ry_active s = Some cid" "kc_state c = CsAPromoted"
    and "ry_rollback_stack s = xs @ [prev]" "map_of (ry_candidates s) prev = Some p" "kc_state p = CsAPromoted"
    and "retire_candidate prev why s = (r, s1)" and "rollback_candidate env now cid s1 = (Ok c', s2)"
  shows "r = Ok () \<and> (\<exists>p'. get_active s2 = Some p' \<and> kc_candidate_id p' = prev \<and> kc_state p' = CsRetired)"
proof -
  have ids: "kc_candidate_id p = prev" "kc_candidate_id c = cid" using pipeline_invD(1) [OF inv] assms by blast+
  have ne: "prev \<noteq> cid" using pipeline_invD(3) [OF inv] assms by (auto simp: slots_def)
  have ret: "r = Ok ()" "s1 = put_candidate (p\<lparr>kc_state := CsRetired\<rparr>) s"
    using assms(3,6,7,8) ne by (auto simp: retire_candidate_def split: sum.splits)
  have inv1: "pipeline_inv env E (s1, ps)" using pipeline_inv_retire [OF inv assms(8)] .
  obtain l where "s2 = (put_candidate (c\<lparr>kc_state := CsRollback\<rparr>) s1)\<lparr>ry_rollback_stack := butlast (ry_rollback_stack s1),
      ry_active := Some (last (ry_rollback_stack s1)), ry_log := l\<rparr>"
    using rollback_succeeds [OF inv1, of cid c now] assms ret ids ne by auto
  then show ?thesis using ret ids ne assms(5) by (simp add: get_active_def)
qed

text \<open>
  Another: the hash kept as that of the kernel image is the digest of the manifest's bytes, so neither it nor the
  signature says anything about an image.
\<close>

lemma kernel_hash_is_of_manifest:
  assumes "register_candidate env ulid now m sig s = (Ok c, s')"
  shows "\<exists>body. canonical_manifest_body_bytes (bd_lib env) m = Ok body \<and> kc_kernel_blake3 c = rcl_hex_digest (bd_lib env) body"
proof (cases "try_then (canonical_manifest_body_bytes (bd_lib env) m) (\<lambda>body.
             try_then (verify_manifest_signature env body sig) (\<lambda>authority.
             Ok \<lparr>kc_candidate_id = ''kc_'' @ ulid, kc_version = km_version m, kc_kernel_blake3 = rcl_hex_digest (bd_lib env) body,
                 kc_signature_ed25519 = sig, kc_signing_authority = authority, kc_registered_at = now,
                 kc_state = CsBuilt, kc_manifest = m\<rparr>))")
  case (Inl e)
  then show ?thesis using assms by (simp add: register_candidate_def)
next
  case (Inr c0)
  then have "rcv_then (rcv_emit_when (bd_emitter env) (\<lambda>em. emit_kernel_candidate_registered em c0)) (\<lambda>_. rcv_return c0) (put_candidate c0 s) = (Ok c, s')"
    using assms by (simp add: register_candidate_def)
  then have "c = c0"
    using rcv_emit_then [OF recovery_emissions_only(6), of "bd_emitter env" c0 "\<lambda>_. rcv_return c0" "put_candidate c0 s"] by auto
  then show ?thesis using Inr by (auto simp: try_then_Ok_iff)
qed

section \<open>A sample pipeline\<close>

definition sample_kernel_manifest :: kernel_manifest where
  "sample_kernel_manifest = \<lparr>km_version = ''6.1'', km_min_aios_version = ''1'', km_requires_recovery_install = False,
     km_verification_intent = None, km_tags = []\<rparr>"

definition sample_kernel_pipeline_env :: "(unit, unit) boundary_env" where
  "sample_kernel_pipeline_env = \<lparr>bd_lib = sample_recovery_lib, bd_trusted_authorities = [(''root'', ())], bd_emitter = None\<rparr>"

definition built_kernel :: "string \<Rightarrow> recovery_sys \<Rightarrow> recovery_sys" where
  "built_kernel u s = snd (register_candidate sample_kernel_pipeline_env u 1 sample_kernel_manifest (replicate 64 7) s)"

definition built_and_gated :: "string \<Rightarrow> recovery_sys \<Rightarrow> recovery_sys" where
  "built_and_gated u s = snd (verify_candidate sample_kernel_pipeline_env 2 (''kc_'' @ u) (built_kernel u s))"

definition sample_kernel_one :: recovery_sys where
  "sample_kernel_one = snd (promote_candidate ''kc_A'' (built_and_gated ''A'' (recovery_boundary_new sample_first_boot)))"

definition sample_kernel_two :: recovery_sys where
  "sample_kernel_two = built_and_gated ''B'' sample_kernel_one"

lemma built_and_gated_run:
  assumes "lts_run (kernel_step sample_kernel_pipeline_env) m es (s, ps)" and "map_of (ry_candidates s) (''kc_'' @ u) = None"
    and "gate_passed (''kc_'' @ u) (built_kernel u s) (built_and_gated u s)"
  shows "lts_run (kernel_step sample_kernel_pipeline_env) m (es @ [KeRegister (''kc_'' @ u), KeVerify (''kc_'' @ u) True]) (built_and_gated u s, ps)"
proof -
  let ?s = "built_kernel u s"
  have "kernel_step sample_kernel_pipeline_env (s, ps) (KeRegister (''kc_'' @ u)) (?s, ps)"
    unfolding built_kernel_def by (rule kernel_register [OF assms(2) prod.collapse [symmetric]])
  moreover have "kernel_step sample_kernel_pipeline_env (?s, ps) (KeVerify (''kc_'' @ u) (gate_passed (''kc_'' @ u) ?s (built_and_gated u s)))
      (built_and_gated u s, ps)"
    unfolding built_and_gated_def by (rule kernel_verify [OF prod.collapse [symmetric]])
  ultimately have "lts_run (kernel_step sample_kernel_pipeline_env) (s, ps) [KeRegister (''kc_'' @ u), KeVerify (''kc_'' @ u) True] (built_and_gated u s, ps)"
    using assms(3) by auto
  then show ?thesis using assms(1) unfolding lts_run_append by blast
qed

lemma sample_kernel_one_run:
  "lts_run (kernel_step sample_kernel_pipeline_env) (recovery_boundary_new sample_first_boot, [])
     [KeRegister ''kc_A'', KeVerify ''kc_A'' True, KeAdmit ''kc_A'' False, KePromote ''kc_A'' True] (sample_kernel_one, [])"
proof -
  let ?s = "built_and_gated ''A'' (recovery_boundary_new sample_first_boot)"
  have run: "lts_run (kernel_step sample_kernel_pipeline_env) (recovery_boundary_new sample_first_boot, []) [KeRegister ''kc_A'', KeVerify ''kc_A'' True] (?s, [])"
  proof -
    have "gate_passed (''kc_'' @ ''A'') (built_kernel ''A'' (recovery_boundary_new sample_first_boot)) ?s" by code_simp
    then show ?thesis
      using built_and_gated_run [OF run_nil, of "recovery_boundary_new sample_first_boot" "''A''" "[]"] by (simp add: recovery_boundary_new_def)
  qed
  have "fst (activation_admitted ''kc_A'' ?s) = Ok ()" "is_recovery_active ?s = False" by code_simp+
  then have adm: "activation_admitted ''kc_A'' ?s = (Ok (), ?s)"
    by (auto simp: activation_admitted_def split: option.splits if_splits)
  have "kernel_step sample_kernel_pipeline_env (?s, []) (KeAdmit ''kc_A'' False) (?s, [''kc_A''])"
    using kernel_admit [OF adm] \<open>is_recovery_active ?s = False\<close> by metis
  moreover have "kernel_step sample_kernel_pipeline_env (?s, [''kc_A'']) (KePromote ''kc_A'' True) (sample_kernel_one, [])"
  proof -
    have "isl (fst (promote_candidate ''kc_A'' ?s)) = False" by code_simp
    then show ?thesis
      using kernel_promote [of "''kc_A''" "[''kc_A'']" ?s, OF _ prod.collapse [symmetric], of sample_kernel_pipeline_env]
      unfolding sample_kernel_one_def by simp
  qed
  ultimately have "lts_run (kernel_step sample_kernel_pipeline_env) (?s, []) [KeAdmit ''kc_A'' False, KePromote ''kc_A'' True] (sample_kernel_one, [])"
    by auto
  then show ?thesis using run lts_run_append [of "kernel_step sample_kernel_pipeline_env" _ "[KeRegister ''kc_A'', KeVerify ''kc_A'' True]"] by fastforce
qed

theorem active_kernel_earned_its_slot_witness:
  "\<exists>c. map_of (ry_candidates sample_kernel_one) ''kc_A'' = Some c \<and> signed_by_trusted sample_kernel_pipeline_env c \<and>
     length (ry_rollback_stack sample_kernel_one) \<le> 8"
proof -
  have "ry_active sample_kernel_one = Some ''kc_A''" by code_simp
  then show ?thesis using active_kernel_earned_its_slot [OF sample_kernel_one_run, of "''kc_A''"] by blast
qed

theorem rollback_undoes_activation_witness:
  "\<exists>c s1 r s2. activate_candidate sample_kernel_pipeline_env 9 ''kc_B'' sample_kernel_two = (Ok c, s1) \<and>
     rollback_candidate sample_kernel_pipeline_env 9 ''kc_B'' s1 = (r, s2) \<and> ry_active s2 = Some ''kc_A''"
proof -
  have "map_of (ry_candidates sample_kernel_one) (''kc_'' @ ''B'') = None"
    and "gate_passed (''kc_'' @ ''B'') (built_kernel ''B'' sample_kernel_one) (built_and_gated ''B'' sample_kernel_one)" by code_simp+
  from built_and_gated_run [OF sample_kernel_one_run this] obtain es
    where run: "lts_run (kernel_step sample_kernel_pipeline_env) (recovery_boundary_new sample_first_boot, []) es (sample_kernel_two, [])"
    unfolding sample_kernel_two_def by blast
  have "\<not> isl (fst (activate_candidate sample_kernel_pipeline_env 9 ''kc_B'' sample_kernel_two))" by code_simp
  then obtain c s1 where act: "activate_candidate sample_kernel_pipeline_env 9 ''kc_B'' sample_kernel_two = (Ok c, s1)"
    by (metis prod.collapse sum.collapse(2))
  have "ry_active sample_kernel_two = Some ''kc_A''" by code_simp
  then show ?thesis using act rollback_undoes_activation [OF run act, of 9] by auto
qed

end
