(* ===== verification/Recovery_First_Boot.thy ===== *)
theory Recovery_First_Boot
  imports Recovery_Boundary
begin

text \<open>
  The first-boot driver, \<open>first_boot.rs\<close>: fourteen provisioning stages in strict order, which can be performed,
  skipped or failed, and the completion of the whole. A call holds the lock of the context to its end, so it
  is one step. The loop over the stages recurses on fuel, \<open>None\<close> when it is used up; \<open>FIRST_BOOT_FUEL\<close> is
  one more than there are stages and is proved to suffice. The clock is a function of the stage records so far.
\<close>

section \<open>Operations\<close>

definition FIRST_BOOT_PROVISIONING_PHASES :: "first_boot_phase list" where
  "FIRST_BOOT_PROVISIONING_PHASES =
     [StageInstallerMediaVerified, StageDiskPartitioned, StageKernelInstalled, StageAiosFsInitialized,
      StageVaultRootGenerated, StageInvariantBundleLoaded, StagePolicyBundleLoaded, StageIdentityBundleLoaded,
      StageRecoveryOperatorRegistration, StageAiProviderConfiguration, StageFirstGroupRegistration,
      StageFirstUserRegistration, StageRuntimeServicesStarted, StageFirstBootComplete]"

record stage_clock =
  sc_started :: instant
  sc_completed :: instant
  sc_emitted :: instant

definition next_phase :: "first_boot_context \<Rightarrow> first_boot_phase option" where
  "next_phase c =
     (if fb_status c = FbFailed then Some StageFailedRequiresRecovery
      else if length (fb_performed_phases c) < length FIRST_BOOT_PROVISIONING_PHASES
      then Some (FIRST_BOOT_PROVISIONING_PHASES ! length (fb_performed_phases c)) else None)"

definition validate_next_phase :: "first_boot_context \<Rightarrow> first_boot_phase \<Rightarrow> (recovery_error, unit) result" where
  "validate_next_phase c to =
     (case next_phase c of
        None \<Rightarrow> Err (InvalidPhaseTransition StageFirstBootComplete to)
      | Some from \<Rightarrow> if from = to then Ok () else Err (InvalidPhaseTransition from to))"

definition set_status :: "first_boot_status \<Rightarrow> recovery_sys \<Rightarrow> recovery_sys" where
  "set_status st s = s\<lparr>ry_first_boot := (ry_first_boot s)\<lparr>fb_status := st\<rparr>\<rparr>"

definition record_stage ::
    "(nat \<Rightarrow> stage_clock) \<Rightarrow> first_boot_phase \<Rightarrow> first_boot_stage_status \<Rightarrow> string option \<Rightarrow> recovery_sys \<Rightarrow> instant \<times> recovery_sys" where
  "record_stage ck p st why s =
     (let t = ck (length (ry_stage_records s)) in
      (sc_completed t,
       s\<lparr>ry_first_boot := (ry_first_boot s)\<lparr>fb_performed_phases := fb_performed_phases (ry_first_boot s) @ [p]\<rparr>,
         ry_stage_records := ry_stage_records s @ [\<lparr>fsr_phase = p, fsr_started_at = sc_started t, fsr_completed_at = sc_completed t,
           fsr_status = st, fsr_reason = why\<rparr>]\<rparr>))"

definition skipped_phases :: "recovery_sys \<Rightarrow> first_boot_phase list" where
  "skipped_phases s = map fsr_phase (filter (\<lambda>r. fsr_status r = FbsSkipped) (ry_stage_records s))"

definition emit_stage ::
    "('sk, 'vk) boundary_env \<Rightarrow> (nat \<Rightarrow> stage_clock) \<Rightarrow> first_boot_phase \<Rightarrow> unit rcv" where
  "emit_stage env ck p s = rcv_emit_when (bd_emitter env)
     (\<lambda>em. emit_first_boot_phase_completed em (sc_emitted (ck (length (ry_stage_records s)))) p (ry_first_boot s)) s"

text \<open>The last stage, as \<open>run_provisioning\<close> and \<open>mark_complete\<close> perform it.\<close>

definition complete_first_boot :: "('sk, 'vk) boundary_env \<Rightarrow> (nat \<Rightarrow> stage_clock) \<Rightarrow> first_boot_context rcv" where
  "complete_first_boot env ck s =
     (let (completed_at, s1) = record_stage ck StageFirstBootComplete FbsSuccess None s in
      rcv_then (emit_stage env ck StageFirstBootComplete) (\<lambda>_ s2.
        let done = (ry_first_boot s2)\<lparr>fb_status := FbCompleted, fb_completed_at := Some completed_at\<rparr>;
            s3 = s2\<lparr>ry_first_boot := done\<rparr>
        in rcv_then (rcv_emit_when (bd_emitter env)
               (\<lambda>em. emit_first_boot_completed_with_skipped em completed_at done (skipped_phases s3)))
             (\<lambda>_. rcv_return done) s3) s1)"

fun provision_loop ::
    "nat \<Rightarrow> ('sk, 'vk) boundary_env \<Rightarrow> (nat \<Rightarrow> stage_clock) \<Rightarrow> recovery_sys \<Rightarrow>
     ((recovery_error, first_boot_context) result \<times> recovery_sys) option" where
  "provision_loop 0 env ck s = None"
| "provision_loop (Suc n) env ck s =
     (case next_phase (ry_first_boot s) of
        None \<Rightarrow> Some (Err (InvalidPhaseTransition StageFirstBootComplete StageFirstBootComplete), s)
      | Some p \<Rightarrow>
          if p = StageFirstBootComplete then Some (complete_first_boot env ck s)
          else case emit_stage env ck p (snd (record_stage ck p FbsSuccess None s)) of
                 (Inl e, s2) \<Rightarrow> Some (Err e, s2)
               | (Inr _, s2) \<Rightarrow> provision_loop n env ck s2)"

definition FIRST_BOOT_FUEL :: nat where
  "FIRST_BOOT_FUEL = 15"

definition run_provisioning ::
    "('sk, 'vk) boundary_env \<Rightarrow> (nat \<Rightarrow> stage_clock) \<Rightarrow> recovery_sys \<Rightarrow>
     ((recovery_error, first_boot_context) result \<times> recovery_sys) option" where
  "run_provisioning env ck s =
     (if fb_status (ry_first_boot s) \<in> {FbCompleted, FbFailed} then Some (Ok (ry_first_boot s), s)
      else if is_recovery_active s then Some (Err AlreadyInRecovery, s)
      else let s1 = set_status FbInProgress s in
        case rcv_emit_when (bd_emitter env)
               (\<lambda>em. emit_first_boot_started em FIRST_BOOT_PROVISIONING_PHASES (ry_first_boot s1)) s1 of
          (Inl e, s2) \<Rightarrow> Some (Err e, s2)
        | (Inr _, s2) \<Rightarrow> provision_loop FIRST_BOOT_FUEL env ck s2)"

definition mark_complete :: "('sk, 'vk) boundary_env \<Rightarrow> (nat \<Rightarrow> stage_clock) \<Rightarrow> unit rcv" where
  "mark_complete env ck s =
     (if is_recovery_active s then (Err AlreadyInRecovery, s)
      else if fb_status (ry_first_boot s) = FbCompleted then (Ok (), s)
      else case validate_next_phase (ry_first_boot s) StageFirstBootComplete of
             Inl e \<Rightarrow> (Err e, s)
           | Inr _ \<Rightarrow> rcv_then (complete_first_boot env ck) (\<lambda>_. rcv_return ()) s)"

definition skip_stage :: "('sk, 'vk) boundary_env \<Rightarrow> (nat \<Rightarrow> stage_clock) \<Rightarrow> first_boot_phase \<Rightarrow> string \<Rightarrow> unit rcv" where
  "skip_stage env ck p why s =
     (if p \<in> {StageFirstBootComplete, StageFailedRequiresRecovery}
      then (Err (InvalidPhaseTransition (case next_phase (ry_first_boot s) of None \<Rightarrow> StageFirstBootComplete | Some q \<Rightarrow> q) p), s)
      else case validate_next_phase (ry_first_boot s) p of
             Inl e \<Rightarrow> (Err e, s)
           | Inr _ \<Rightarrow>
               rcv_then (emit_stage env ck p) (\<lambda>_. rcv_return ())
                 (snd (record_stage ck p FbsSkipped (Some why) (set_status FbInProgress s))))"

definition fail_stage :: "(nat \<Rightarrow> stage_clock) \<Rightarrow> first_boot_phase \<Rightarrow> string \<Rightarrow> unit rcv" where
  "fail_stage ck p why s =
     (case validate_next_phase (ry_first_boot s) p of
        Inl e \<Rightarrow> (Err e, s)
      | Inr _ \<Rightarrow>
          let s1 = snd (record_stage ck p FbsFailed (Some why) (set_status FbInProgress s));
              (completed_at, s2) = record_stage ck StageFailedRequiresRecovery FbsFailed (Some why) s1
          in (Ok (), s2\<lparr>ry_first_boot := (ry_first_boot s2)\<lparr>fb_status := FbFailed, fb_completed_at := Some completed_at\<rparr>\<rparr>))"

definition first_boot_detect :: "recovery_sys \<Rightarrow> bool" where
  "first_boot_detect s \<longleftrightarrow> fb_status (ry_first_boot s) = FbNotStarted"

section \<open>Calls in order\<close>

inductive first_boot_step :: "('sk, 'vk) boundary_env \<Rightarrow> recovery_sys \<Rightarrow> recovery_sys \<Rightarrow> bool" for env where
  boot_run: "run_provisioning env ck s = Some (r, s') \<Longrightarrow> first_boot_step env s s'"
| boot_complete: "mark_complete env ck s = (r, s') \<Longrightarrow> first_boot_step env s s'"
| boot_skip: "skip_stage env ck p why s = (r, s') \<Longrightarrow> first_boot_step env s s'"
| boot_fail: "fail_stage ck p why s = (r, s') \<Longrightarrow> first_boot_step env s s'"
| boot_other: "ry_first_boot s' = ry_first_boot s \<Longrightarrow> ry_stage_records s' = ry_stage_records s \<Longrightarrow> first_boot_step env s s'"

abbreviation first_boot_reaches :: "('sk, 'vk) boundary_env \<Rightarrow> recovery_sys \<Rightarrow> recovery_sys \<Rightarrow> bool" where
  "first_boot_reaches env \<equiv> (first_boot_step env)\<^sup>*\<^sup>*"

definition first_boot_driver_new :: "string \<Rightarrow> instant \<Rightarrow> first_boot_context" where
  "first_boot_driver_new ulid now = \<lparr>fb_boot_id = ''boot_'' @ ulid, fb_started_at = now, fb_completed_at = None,
     fb_status = FbNotStarted, fb_performed_phases = []\<rparr>"

text \<open>Where the context stands after \<open>n\<close> stages.\<close>

definition boot_order :: "recovery_sys \<Rightarrow> bool" where
  "boot_order s \<longleftrightarrow> (let c = ry_first_boot s; done = fb_performed_phases c in
     map fsr_phase (ry_stage_records s) = done \<and>
     (case fb_status c of
        FbNotStarted \<Rightarrow> done = [] \<and> fb_completed_at c = None
      | FbInProgress \<Rightarrow> (\<exists>n \<le> 14. done = take n FIRST_BOOT_PROVISIONING_PHASES) \<and> fb_completed_at c = None
      | FbCompleted \<Rightarrow> done = FIRST_BOOT_PROVISIONING_PHASES \<and> fb_completed_at c \<noteq> None
      | FbFailed \<Rightarrow> (\<exists>n k. 0 < n \<and> n \<le> 14 \<and> 0 < k \<and>
          done = take n FIRST_BOOT_PROVISIONING_PHASES @ replicate k StageFailedRequiresRecovery) \<and> fb_completed_at c \<noteq> None
      | FbSkipped \<Rightarrow> False))"

lemmas boot_order_iff = boot_order_def [unfolded Let_def]

lemma phases_length [simp]: "length FIRST_BOOT_PROVISIONING_PHASES = 14"
  by (simp add: FIRST_BOOT_PROVISIONING_PHASES_def)

lemma phases_distinct: "distinct FIRST_BOOT_PROVISIONING_PHASES"
  by (simp add: FIRST_BOOT_PROVISIONING_PHASES_def)

lemma phase_complete_iff: "n < 14 \<Longrightarrow> FIRST_BOOT_PROVISIONING_PHASES ! n = StageFirstBootComplete \<longleftrightarrow> n = 13"
  using nth_eq_iff_index_eq [OF phases_distinct, of n 13] by (simp add: FIRST_BOOT_PROVISIONING_PHASES_def)

lemma emit_stage_cases:
  "\<exists>l. emit_stage env ck p s = (Ok (), s\<lparr>ry_log := l\<rparr>) \<or>
     (\<exists>w. bd_emitter env \<noteq> None \<and> emit_stage env ck p s = (Err (RecoveryEvidenceEmitFailed w), s\<lparr>ry_log := l\<rparr>))"
  unfolding emit_stage_def by (rule rcv_emit_when_cases) simp

lemma boot_order_log [simp]: "boot_order (s\<lparr>ry_log := l\<rparr>) \<longleftrightarrow> boot_order s"
  by (simp add: boot_order_def)

text \<open>The context is at stage \<open>n\<close>: the first \<open>n\<close> stages are behind it, each with its record.\<close>

definition at_stage :: "nat \<Rightarrow> recovery_sys \<Rightarrow> bool" where
  "at_stage n s \<longleftrightarrow> n \<le> 14 \<and> fb_performed_phases (ry_first_boot s) = take n FIRST_BOOT_PROVISIONING_PHASES \<and>
     map fsr_phase (ry_stage_records s) = fb_performed_phases (ry_first_boot s) \<and> fb_completed_at (ry_first_boot s) = None \<and>
     fb_status (ry_first_boot s) = FbInProgress"

lemma at_stage_log [simp]: "at_stage n (s\<lparr>ry_log := l\<rparr>) \<longleftrightarrow> at_stage n s"
  by (simp add: at_stage_def)

lemma at_stage_order: "at_stage n s \<Longrightarrow> boot_order s"
  by (auto simp: at_stage_def boot_order_iff)

lemma at_stage_next: "at_stage n s \<Longrightarrow> next_phase (ry_first_boot s) = (if n < 14 then Some (FIRST_BOOT_PROVISIONING_PHASES ! n) else None)"
  by (auto simp: at_stage_def next_phase_def)

lemma at_stage_record:
  assumes "at_stage n s" and "n < 14"
  shows "at_stage (Suc n) (snd (record_stage ck (FIRST_BOOT_PROVISIONING_PHASES ! n) st why s))"
  using assms by (simp add: at_stage_def record_stage_def Let_def take_Suc_conv_app_nth)

text \<open>Before any stage, or among them, the status may be set to in progress.\<close>

lemma at_stage_start:
  assumes "boot_order s" and "fb_status (ry_first_boot s) \<notin> {FbCompleted, FbFailed}"
  shows "\<exists>n. at_stage n (set_status FbInProgress s) \<and> length (fb_performed_phases (ry_first_boot s)) = n"
proof -
  obtain n where "n \<le> 14" "fb_performed_phases (ry_first_boot s) = take n FIRST_BOOT_PROVISIONING_PHASES"
    "fb_completed_at (ry_first_boot s) = None" "map fsr_phase (ry_stage_records s) = fb_performed_phases (ry_first_boot s)"
    using assms by (cases "fb_status (ry_first_boot s)") (auto simp: boot_order_iff)
  then show ?thesis by (intro exI [of _ n]) (simp add: at_stage_def set_status_def)
qed

definition boot_completed :: "recovery_sys \<Rightarrow> first_boot_context \<Rightarrow> bool" where
  "boot_completed s c \<longleftrightarrow> c = ry_first_boot s \<and> fb_status c = FbCompleted"

lemma complete_first_boot_result:
  assumes "at_stage 13 s"
  shows "\<exists>r s'. complete_first_boot env ck s = (r, s') \<and> boot_order s' \<and>
     (case r of Inr c \<Rightarrow> boot_completed s' c | Inl e \<Rightarrow> bd_emitter env \<noteq> None \<and> (\<exists>w. e = RecoveryEvidenceEmitFailed w))"
proof -
  let ?s1 = "snd (record_stage ck StageFirstBootComplete FbsSuccess None s)"
  let ?t = "fst (record_stage ck StageFirstBootComplete FbsSuccess None s)"
  have "FIRST_BOOT_PROVISIONING_PHASES ! 13 = StageFirstBootComplete" by (simp add: phase_complete_iff)
  then have at: "at_stage 14 ?s1" using at_stage_record [OF assms, of ck FbsSuccess None] by simp
  obtain l where l: "emit_stage env ck StageFirstBootComplete ?s1 = (Ok (), ?s1\<lparr>ry_log := l\<rparr>) \<or>
     (\<exists>w. bd_emitter env \<noteq> None \<and> emit_stage env ck StageFirstBootComplete ?s1 = (Err (RecoveryEvidenceEmitFailed w), ?s1\<lparr>ry_log := l\<rparr>))"
    using emit_stage_cases by blast
  define fin where "fin = (ry_first_boot ?s1)\<lparr>fb_status := FbCompleted, fb_completed_at := Some ?t\<rparr>"
  define s3 where "s3 = ?s1\<lparr>ry_log := l, ry_first_boot := fin\<rparr>"
  have order: "boot_order s3" "ry_first_boot s3 = fin" "fb_status fin = FbCompleted"
    using at by (simp_all add: at_stage_def boot_order_def fin_def s3_def)
  from l show ?thesis
  proof
    assume "emit_stage env ck StageFirstBootComplete ?s1 = (Ok (), ?s1\<lparr>ry_log := l\<rparr>)"
    then have "complete_first_boot env ck s =
        rcv_then (rcv_emit_when (bd_emitter env) (\<lambda>em. emit_first_boot_completed_with_skipped em ?t fin (skipped_phases s3)))
          (\<lambda>_. rcv_return fin) s3"
      by (simp add: complete_first_boot_def case_prod_unfold Let_def fin_def s3_def)
    then show ?thesis
      using order rcv_emit_then [OF recovery_emissions_only(5), of "bd_emitter env" ?t fin "skipped_phases s3" "\<lambda>_. rcv_return fin" s3]
      by (auto simp: boot_completed_def)
  next
    assume "\<exists>w. bd_emitter env \<noteq> None \<and>
      emit_stage env ck StageFirstBootComplete ?s1 = (Err (RecoveryEvidenceEmitFailed w), ?s1\<lparr>ry_log := l\<rparr>)"
    then show ?thesis using at_stage_order [OF at] by (auto simp: complete_first_boot_def case_prod_unfold Let_def)
  qed
qed

lemma provision_loop_result:
  assumes "at_stage n s" and "14 - n < fuel"
  shows "\<exists>r s'. provision_loop fuel env ck s = Some (r, s') \<and> boot_order s' \<and>
     (case r of Inr c \<Rightarrow> n < 14 \<and> boot_completed s' c
      | Inl e \<Rightarrow> if n = 14 then s' = s \<and> e = InvalidPhaseTransition StageFirstBootComplete StageFirstBootComplete
               else bd_emitter env \<noteq> None \<and> (\<exists>w. e = RecoveryEvidenceEmitFailed w))"
  using assms
proof (induction fuel arbitrary: n s)
  case (Suc fuel)
  have next_n: "next_phase (ry_first_boot s) = (if n < 14 then Some (FIRST_BOOT_PROVISIONING_PHASES ! n) else None)"
    by (rule at_stage_next [OF Suc.prems(1)])
  have "n \<le> 14" using Suc.prems(1) by (simp add: at_stage_def)
  then consider "n = 14" | "n = 13" | "n < 13" by linarith
  then show ?case
  proof cases
    case 1
    then show ?thesis using next_n at_stage_order [OF Suc.prems(1)] by simp
  next
    case 2
    then have "provision_loop (Suc fuel) env ck s = Some (complete_first_boot env ck s)" using next_n by (simp add: phase_complete_iff)
    then show ?thesis using complete_first_boot_result [of s env ck] Suc.prems(1) 2 by (auto split: sum.splits)
  next
    case 3
    let ?p = "FIRST_BOOT_PROVISIONING_PHASES ! n"
    let ?s1 = "snd (record_stage ck ?p FbsSuccess None s)"
    have at: "at_stage (Suc n) ?s1" using at_stage_record [OF Suc.prems(1)] 3 by simp
    have loop: "provision_loop (Suc fuel) env ck s = (case emit_stage env ck ?p ?s1 of
        (Inl e, s2) \<Rightarrow> Some (Err e, s2) | (Inr _, s2) \<Rightarrow> provision_loop fuel env ck s2)"
      using next_n 3 phase_complete_iff [of n] by simp
    obtain l where l: "emit_stage env ck ?p ?s1 = (Ok (), ?s1\<lparr>ry_log := l\<rparr>) \<or>
       (\<exists>w. bd_emitter env \<noteq> None \<and> emit_stage env ck ?p ?s1 = (Err (RecoveryEvidenceEmitFailed w), ?s1\<lparr>ry_log := l\<rparr>))"
      using emit_stage_cases by blast
    from l show ?thesis
    proof
      assume ok: "emit_stage env ck ?p ?s1 = (Ok (), ?s1\<lparr>ry_log := l\<rparr>)"
      have "14 - Suc n < fuel" using Suc.prems(2) 3 by simp
      then obtain r s' where "provision_loop fuel env ck (?s1\<lparr>ry_log := l\<rparr>) = Some (r, s')" "boot_order s'"
        "case r of Inr c \<Rightarrow> Suc n < 14 \<and> boot_completed s' c
          | Inl e \<Rightarrow> if Suc n = 14 then s' = ?s1\<lparr>ry_log := l\<rparr> \<and> e = InvalidPhaseTransition StageFirstBootComplete StageFirstBootComplete
                   else bd_emitter env \<noteq> None \<and> (\<exists>w. e = RecoveryEvidenceEmitFailed w)"
        using Suc.IH [of "Suc n" "?s1\<lparr>ry_log := l\<rparr>"] at by auto
      moreover from this(1) have "provision_loop (Suc fuel) env ck s = Some (r, s')" using loop ok by simp
      ultimately show ?thesis using 3 by (intro exI [of _ r] exI [of _ s']) (auto split: sum.splits)
    next
      assume "\<exists>w. bd_emitter env \<noteq> None \<and> emit_stage env ck ?p ?s1 = (Err (RecoveryEvidenceEmitFailed w), ?s1\<lparr>ry_log := l\<rparr>)"
      then show ?thesis using loop at_stage_order [OF at] 3 by auto
    qed
  qed
qed simp

text \<open>All stages are recorded, the last one without its receipt, and the boot is not completed.\<close>

definition boot_stuck :: "recovery_sys \<Rightarrow> bool" where
  "boot_stuck s \<longleftrightarrow> fb_status (ry_first_boot s) = FbInProgress \<and>
     fb_performed_phases (ry_first_boot s) = FIRST_BOOT_PROVISIONING_PHASES"

lemma boot_stuck_iff:
  assumes "boot_order s" and "fb_status (ry_first_boot s) \<notin> {FbCompleted, FbFailed}"
  shows "boot_stuck s \<longleftrightarrow> length (fb_performed_phases (ry_first_boot s)) = 14"
  using assms by (cases "fb_status (ry_first_boot s)") (auto simp: boot_order_iff boot_stuck_def)

lemma run_provisioning_result:
  assumes "boot_order s"
  shows "\<exists>r s'. run_provisioning env ck s = Some (r, s') \<and> boot_order s' \<and>
     (case r of
        Inr c \<Rightarrow> boot_completed s' c \<or> fb_status c = FbFailed \<and> c = ry_first_boot s \<and> s' = s
      | Inl e \<Rightarrow> e = AlreadyInRecovery \<and> is_recovery_active s \<and> s' = s \<or>
          bd_emitter env \<noteq> None \<and> (\<exists>w. e = RecoveryEvidenceEmitFailed w) \<or>
          boot_stuck s \<and> e = InvalidPhaseTransition StageFirstBootComplete StageFirstBootComplete \<and>
          ry_first_boot s' = ry_first_boot s \<and> ry_stage_records s' = ry_stage_records s)"
proof (cases "fb_status (ry_first_boot s) \<in> {FbCompleted, FbFailed} \<or> is_recovery_active s")
  case True
  then show ?thesis using assms by (auto simp: run_provisioning_def boot_completed_def)
next
  case False
  let ?s1 = "set_status FbInProgress s"
  obtain n where at: "at_stage n ?s1" and n: "length (fb_performed_phases (ry_first_boot s)) = n"
    using at_stage_start [OF assms] False by auto
  let ?emit = "rcv_emit_when (bd_emitter env) (\<lambda>em. emit_first_boot_started em FIRST_BOOT_PROVISIONING_PHASES (ry_first_boot ?s1)) ?s1"
  obtain l where l: "?emit = (Ok (), ?s1\<lparr>ry_log := l\<rparr>) \<or>
      (\<exists>w. bd_emitter env \<noteq> None \<and> ?emit = (Err (RecoveryEvidenceEmitFailed w), ?s1\<lparr>ry_log := l\<rparr>))"
    using rcv_emit_when_cases [OF recovery_emissions_only(3)] by blast
  have run: "run_provisioning env ck s = (case ?emit of (Inl e, s2) \<Rightarrow> Some (Err e, s2) | (Inr _, s2) \<Rightarrow> provision_loop FIRST_BOOT_FUEL env ck s2)"
    using False by (simp add: run_provisioning_def Let_def)
  have "14 - n < FIRST_BOOT_FUEL" by (simp add: FIRST_BOOT_FUEL_def)
  then obtain r s' where loop: "provision_loop FIRST_BOOT_FUEL env ck (?s1\<lparr>ry_log := l\<rparr>) = Some (r, s')" "boot_order s'"
    "case r of Inr c \<Rightarrow> n < 14 \<and> boot_completed s' c
      | Inl e \<Rightarrow> if n = 14 then s' = ?s1\<lparr>ry_log := l\<rparr> \<and> e = InvalidPhaseTransition StageFirstBootComplete StageFirstBootComplete
               else bd_emitter env \<noteq> None \<and> (\<exists>w. e = RecoveryEvidenceEmitFailed w)"
    using provision_loop_result [of n "?s1\<lparr>ry_log := l\<rparr>" FIRST_BOOT_FUEL env ck] at by auto
  from l show ?thesis
  proof
    assume "?emit = (Ok (), ?s1\<lparr>ry_log := l\<rparr>)"
    then have "run_provisioning env ck s = Some (r, s')" using run loop(1) by simp
    moreover have "boot_stuck s \<and> ry_first_boot s' = ry_first_boot s \<and> ry_stage_records s' = ry_stage_records s"
      if "n = 14" "s' = ?s1\<lparr>ry_log := l\<rparr>"
    proof -
      have "boot_stuck s" using boot_stuck_iff [OF assms] False n that(1) by simp
      then show ?thesis using that(2) by (simp add: boot_stuck_def set_status_def)
    qed
    ultimately show ?thesis using loop(2,3) by (auto split: sum.splits if_splits)
  next
    assume "\<exists>w. bd_emitter env \<noteq> None \<and> ?emit = (Err (RecoveryEvidenceEmitFailed w), ?s1\<lparr>ry_log := l\<rparr>)"
    then show ?thesis using run at_stage_order [OF at] by auto
  qed
qed

text \<open>A call that changes something: the last stage is due, or the stage skipped is not the last.\<close>

lemma mark_complete_at:
  assumes "boot_order s" and "mark_complete env ck s = (r, s')" and "s' \<noteq> s"
  shows "at_stage 13 s \<and> rcv_then (complete_first_boot env ck) (\<lambda>_. rcv_return ()) s = (r, s')"
proof -
  have v: "validate_next_phase (ry_first_boot s) StageFirstBootComplete = Ok ()"
    and fin: "rcv_then (complete_first_boot env ck) (\<lambda>_. rcv_return ()) s = (r, s')"
    using assms(2,3) by (auto simp: mark_complete_def split: if_splits sum.splits)
  have st: "fb_status (ry_first_boot s) \<notin> {FbCompleted, FbFailed}"
    using v assms by (auto simp: validate_next_phase_def next_phase_def boot_order_iff split: option.splits if_splits)
  obtain n where at: "at_stage n (set_status FbInProgress s)" "length (fb_performed_phases (ry_first_boot s)) = n"
    using at_stage_start [OF assms(1) st] by blast
  have "n = 13"
    using v st at by (auto simp: validate_next_phase_def next_phase_def phase_complete_iff split: option.splits if_splits)
  moreover have "fb_status (ry_first_boot s) = FbInProgress"
    using assms(1) st at(2) calculation by (cases "fb_status (ry_first_boot s)") (auto simp: boot_order_iff)
  ultimately show ?thesis using at fin by (simp add: at_stage_def set_status_def)
qed

lemma skip_stage_at:
  assumes "boot_order s" and "skip_stage env ck p why s = (r, s')" and "s' \<noteq> s"
  shows "\<exists>n \<le> 13. at_stage n s'"
proof -
  let ?s1 = "snd (record_stage ck p FbsSkipped (Some why) (set_status FbInProgress s))"
  have p: "p \<noteq> StageFailedRequiresRecovery" "p \<noteq> StageFirstBootComplete" and v: "validate_next_phase (ry_first_boot s) p = Ok ()"
    and emit: "rcv_then (emit_stage env ck p) (\<lambda>_. rcv_return ()) ?s1 = (r, s')"
    using assms(2,3) by (auto simp: skip_stage_def split: if_splits sum.splits)
  have st: "fb_status (ry_first_boot s) \<notin> {FbCompleted, FbFailed}"
    using v p(1) assms(1) by (auto simp: validate_next_phase_def next_phase_def boot_order_iff split: option.splits if_splits)
  obtain n where at: "at_stage n (set_status FbInProgress s)" "length (fb_performed_phases (ry_first_boot s)) = n"
    using at_stage_start [OF assms(1) st] by blast
  then have n: "n < 14" "p = FIRST_BOOT_PROVISIONING_PHASES ! n"
    using v st by (auto simp: validate_next_phase_def next_phase_def split: option.splits if_splits)
  then have "Suc n \<le> 13" using p(2) phase_complete_iff [of n] by auto
  moreover have "at_stage (Suc n) ?s1" using at_stage_record [OF at(1)] n by simp
  moreover obtain l where "s' = ?s1\<lparr>ry_log := l\<rparr>" using emit_stage_cases [of env ck p ?s1] emit by (auto simp: rcv_then_def)
  ultimately show ?thesis by (intro exI [of _ "Suc n"]) simp
qed

lemma boot_order_complete:
  assumes "boot_order s" and "mark_complete env ck s = (r, s')"
  shows "boot_order s' \<and> (bd_emitter env = None \<longrightarrow> s' = s \<or> fb_status (ry_first_boot s') = FbCompleted)"
proof (cases "s' = s")
  case False
  then have at: "at_stage 13 s" and fin: "rcv_then (complete_first_boot env ck) (\<lambda>_. rcv_return ()) s = (r, s')"
    using mark_complete_at [OF assms] by simp_all
  obtain r1 s1 where c: "complete_first_boot env ck s = (r1, s1)" "boot_order s1"
    and r1: "case r1 of Inr c \<Rightarrow> boot_completed s1 c | Inl e \<Rightarrow> bd_emitter env \<noteq> None \<and> (\<exists>w. e = RecoveryEvidenceEmitFailed w)"
    using complete_first_boot_result [OF at, of env ck] by blast
  then show ?thesis using fin by (cases r1) (auto simp: boot_completed_def)
qed (use assms in simp)

lemma boot_order_skip: "boot_order s \<Longrightarrow> skip_stage env ck p why s = (r, s') \<Longrightarrow> boot_order s'"
  using skip_stage_at at_stage_order by blast

lemma boot_order_fail:
  assumes "boot_order s" and "fail_stage ck p why s = (r, s')"
  shows "boot_order s'"
proof (cases "validate_next_phase (ry_first_boot s) p")
  case (Inl e)
  then show ?thesis using assms by (simp add: fail_stage_def)
next
  case (Inr u)
  let ?c = "ry_first_boot s" and ?c' = "ry_first_boot s'"
  have fin: "fb_performed_phases ?c' = fb_performed_phases ?c @ [p, StageFailedRequiresRecovery]" "fb_status ?c' = FbFailed"
    "fb_completed_at ?c' \<noteq> None" "map fsr_phase (ry_stage_records s') = map fsr_phase (ry_stage_records s) @ [p, StageFailedRequiresRecovery]"
    using assms(2) Inr by (auto simp: fail_stage_def record_stage_def set_status_def Let_def)
  have "\<exists>n k. 0 < n \<and> n \<le> 14 \<and> 0 < k \<and>
      fb_performed_phases ?c' = take n FIRST_BOOT_PROVISIONING_PHASES @ replicate k StageFailedRequiresRecovery"
  proof (cases "fb_status ?c = FbFailed")
    case True
    then obtain n k where "0 < n" "n \<le> 14" "fb_performed_phases ?c = take n FIRST_BOOT_PROVISIONING_PHASES @ replicate k StageFailedRequiresRecovery"
      using assms(1) by (auto simp: boot_order_iff)
    moreover have "p = StageFailedRequiresRecovery" using Inr True by (simp add: validate_next_phase_def next_phase_def split: if_splits)
    ultimately show ?thesis
      using fin(1) by (intro exI [of _ n] exI [of _ "k + 2"]) (simp add: replicate_add [symmetric] replicate_app_Cons_same flip: replicate_Suc)
  next
    case False
    then have st: "fb_status ?c \<notin> {FbCompleted, FbFailed}"
      using Inr assms(1) by (auto simp: validate_next_phase_def next_phase_def boot_order_iff split: option.splits if_splits)
    obtain n where at: "at_stage n (set_status FbInProgress s)" "length (fb_performed_phases ?c) = n"
      using at_stage_start [OF assms(1) st] by blast
    then have "n < 14" "p = FIRST_BOOT_PROVISIONING_PHASES ! n" "fb_performed_phases ?c = take n FIRST_BOOT_PROVISIONING_PHASES"
      using Inr False by (auto simp: validate_next_phase_def next_phase_def at_stage_def set_status_def split: option.splits if_splits)
    then show ?thesis using fin(1) by (intro exI [of _ "Suc n"] exI [of _ 1]) (simp add: take_Suc_conv_app_nth)
  qed
  moreover have "map fsr_phase (ry_stage_records s) = fb_performed_phases ?c" using assms(1) by (simp add: boot_order_iff)
  ultimately show ?thesis using fin by (simp add: boot_order_iff)
qed

lemma boot_order_step:
  assumes "first_boot_step env s s'" and "boot_order s"
  shows "boot_order s'"
  using assms(1)
proof (cases rule: first_boot_step.cases)
  case (boot_run ck r)
  then show ?thesis using run_provisioning_result [OF assms(2), of env ck] by auto
next
  case boot_other
  then show ?thesis using assms(2) by (simp add: boot_order_def)
qed (use assms(2) boot_order_complete boot_order_skip boot_order_fail in blast)+

lemma boot_order_reaches:
  assumes "first_boot_reaches env (recovery_boundary_new (first_boot_driver_new ulid now)) s"
  shows "boot_order s"
  using assms
proof (induction rule: rtranclp_induct)
  case base
  show ?case by (simp add: boot_order_def recovery_boundary_new_def first_boot_driver_new_def)
qed (rule boot_order_step)

text \<open>
  The stages of the first boot are performed in order, each at most once, and none is left out. After any calls
  from a new driver on, the stages recorded are a prefix of the fourteen; all of them once the boot is reported
  as completed, and those up to a failed one, with the failure marker after them, once it has failed.
\<close>

theorem first_boot_in_order:
  assumes "first_boot_reaches env (recovery_boundary_new (first_boot_driver_new ulid now)) s"
  shows "map fsr_phase (ry_stage_records s) = fb_performed_phases (ry_first_boot s) \<and>
     (case fb_status (ry_first_boot s) of
        FbNotStarted \<Rightarrow> fb_performed_phases (ry_first_boot s) = []
      | FbInProgress \<Rightarrow> (\<exists>n \<le> 14. fb_performed_phases (ry_first_boot s) = take n FIRST_BOOT_PROVISIONING_PHASES)
      | FbCompleted \<Rightarrow> fb_performed_phases (ry_first_boot s) = FIRST_BOOT_PROVISIONING_PHASES
      | FbFailed \<Rightarrow> (\<exists>n k. 0 < n \<and> n \<le> 14 \<and> 0 < k \<and> fb_performed_phases (ry_first_boot s) =
          take n FIRST_BOOT_PROVISIONING_PHASES @ replicate k StageFailedRequiresRecovery)
      | FbSkipped \<Rightarrow> False)"
  using boot_order_reaches [OF assms] unfolding boot_order_iff by (auto split: first_boot_status.splits)

text \<open>Without an emitter no receipt is lost, and the boot does not get stuck.\<close>

lemma not_stuck_step:
  assumes "first_boot_step env s s'" and "bd_emitter env = None" and order: "boot_order s" and "\<not> boot_stuck s"
  shows "\<not> boot_stuck s'"
  using assms(1)
proof (cases rule: first_boot_step.cases)
  case (boot_run ck r)
  then show ?thesis
    using run_provisioning_result [OF order, of env ck] assms(2,4) by (auto simp: boot_completed_def boot_stuck_def split: sum.splits)
next
  case (boot_complete ck r)
  then show ?thesis using boot_order_complete [OF order boot_complete] assms(2,4) by (auto simp: boot_stuck_def)
next
  case (boot_skip ck p why r)
  then show ?thesis using skip_stage_at [OF order, of env ck p why r s'] assms(4)
    by (cases "s' = s") (auto simp: boot_stuck_def at_stage_def dest: arg_cong [where f = length])
next
  case (boot_fail ck p why r)
  then show ?thesis using assms(4)
    by (auto simp: fail_stage_def boot_stuck_def Let_def record_stage_def split: sum.splits)
next
  case boot_other
  then show ?thesis using assms(4) by (simp add: boot_stuck_def)
qed

lemma not_stuck_reaches:
  assumes "first_boot_reaches env (recovery_boundary_new (first_boot_driver_new ulid now)) s" and "bd_emitter env = None"
  shows "\<not> boot_stuck s"
  using assms(1)
proof (induction rule: rtranclp_induct)
  case base
  show ?case by (simp add: boot_stuck_def recovery_boundary_new_def first_boot_driver_new_def)
next
  case (step s s')
  then show ?case using not_stuck_step [OF step.hyps(2) assms(2) boot_order_reaches [OF step.hyps(1)]] by blast
qed

text \<open>
  C28: Provisioning always returns, within its fuel, from every state that calls from a new driver on can reach. It ends in
  one of five ways: with the boot completed and all fourteen stages performed; with the unchanged
  context of a boot that had failed before; refused, and nothing changed, while the host is in recovery;
  with the failure of an emission; or, for a driver with an emitter whose receipt of the last stage was lost in an earlier call,
  with an invalid transition: all stages are recorded, the boot is still in progress, and context and records stay as they are
  (\<open>lost_receipt_blocks_first_boot\<close>).
\<close>

theorem provisioning_completes:
  assumes "first_boot_reaches env (recovery_boundary_new (first_boot_driver_new ulid now)) s"
  shows "\<exists>r s'. run_provisioning env ck s = Some (r, s') \<and>
     (case r of
        Inr c \<Rightarrow> c = ry_first_boot s' \<and> (fb_status c = FbCompleted \<and> fb_performed_phases c = FIRST_BOOT_PROVISIONING_PHASES \<or>
          fb_status c = FbFailed \<and> s' = s)
      | Inl e \<Rightarrow> e = AlreadyInRecovery \<and> is_recovery_active s \<and> s' = s \<or>
          bd_emitter env \<noteq> None \<and> (\<exists>w. e = RecoveryEvidenceEmitFailed w) \<or>
          bd_emitter env \<noteq> None \<and> fb_status (ry_first_boot s) = FbInProgress \<and>
            fb_performed_phases (ry_first_boot s) = FIRST_BOOT_PROVISIONING_PHASES \<and>
            e = InvalidPhaseTransition StageFirstBootComplete StageFirstBootComplete \<and>
            ry_first_boot s' = ry_first_boot s \<and> ry_stage_records s' = ry_stage_records s)"
proof -
  obtain r s' where run: "run_provisioning env ck s = Some (r, s')" and order: "boot_order s'" and
    res: "case r of
        Inr c \<Rightarrow> boot_completed s' c \<or> fb_status c = FbFailed \<and> c = ry_first_boot s \<and> s' = s
      | Inl e \<Rightarrow> e = AlreadyInRecovery \<and> is_recovery_active s \<and> s' = s \<or>
          bd_emitter env \<noteq> None \<and> (\<exists>w. e = RecoveryEvidenceEmitFailed w) \<or>
          boot_stuck s \<and> e = InvalidPhaseTransition StageFirstBootComplete StageFirstBootComplete \<and>
          ry_first_boot s' = ry_first_boot s \<and> ry_stage_records s' = ry_stage_records s"
    using run_provisioning_result [OF boot_order_reaches [OF assms]] by blast
  have "fb_performed_phases c = FIRST_BOOT_PROVISIONING_PHASES" if "boot_completed s' c" for c
    using order that by (auto simp: boot_completed_def boot_order_iff)
  moreover have "bd_emitter env \<noteq> None" if "boot_stuck s" using not_stuck_reaches [OF assms] that by blast
  ultimately show ?thesis
    using run res by (intro exI [of _ r] exI [of _ s']) (auto simp: boot_completed_def boot_stuck_def split: sum.splits)
qed

text \<open>
  A departure: when the receipt of the last stage cannot be written, the stage is recorded and the boot is not
  completed, and from then on no call of the driver completes it, fails it or moves it at all.
\<close>

lemma lost_receipt_blocks_first_boot:
  assumes "fb_status (ry_first_boot s) = FbInProgress" and "length (fb_performed_phases (ry_first_boot s)) = 14"
    and "\<not> is_recovery_active s" and "bd_emitter env = None"
  shows "run_provisioning env ck s = Some (Err (InvalidPhaseTransition StageFirstBootComplete StageFirstBootComplete), s)"
    and "mark_complete env ck s = (Err (InvalidPhaseTransition StageFirstBootComplete StageFirstBootComplete), s)"
    and "\<exists>e. skip_stage env ck p why s = (Err e, s)" and "\<exists>e. fail_stage ck p why s = (Err e, s)"
proof -
  have "set_status FbInProgress s = s" using assms(1) by (cases s) (simp add: set_status_def)
  moreover have "next_phase (ry_first_boot s) = None" using assms(1,2) by (simp add: next_phase_def)
  ultimately show "run_provisioning env ck s = Some (Err (InvalidPhaseTransition StageFirstBootComplete StageFirstBootComplete), s)"
    "mark_complete env ck s = (Err (InvalidPhaseTransition StageFirstBootComplete StageFirstBootComplete), s)"
    "\<exists>e. skip_stage env ck p why s = (Err e, s)" "\<exists>e. fail_stage ck p why s = (Err e, s)"
    using assms
    by (simp_all add: run_provisioning_def Let_def rcv_emit_when_def FIRST_BOOT_FUEL_def eval_nat_numeral mark_complete_def
        validate_next_phase_def skip_stage_def fail_stage_def)
qed

section \<open>A sample boot\<close>

definition sample_stage_clock :: "nat \<Rightarrow> stage_clock" where
  "sample_stage_clock n = \<lparr>sc_started = int n, sc_completed = int n, sc_emitted = int n\<rparr>"

lemma sample_first_boot_reached:
  "first_boot_reaches sample_boundary_env (recovery_boundary_new (first_boot_driver_new ''1'' 0))
     (snd (skip_stage sample_boundary_env sample_stage_clock StageInstallerMediaVerified ''media'' (recovery_boundary_new (first_boot_driver_new ''1'' 0))))"
  by (rule r_into_rtranclp) (rule boot_skip [OF prod.collapse [symmetric]])

theorem first_boot_in_order_witness:
  "\<exists>n \<le> 14. fb_performed_phases (ry_first_boot (snd (skip_stage sample_boundary_env sample_stage_clock StageInstallerMediaVerified ''media''
     (recovery_boundary_new (first_boot_driver_new ''1'' 0))))) = take n FIRST_BOOT_PROVISIONING_PHASES"
proof -
  have "fb_status (ry_first_boot (snd (skip_stage sample_boundary_env sample_stage_clock StageInstallerMediaVerified ''media''
     (recovery_boundary_new (first_boot_driver_new ''1'' 0))))) = FbInProgress" by code_simp
  then show ?thesis using first_boot_in_order [OF sample_first_boot_reached] by simp
qed

theorem provisioning_completes_witness:
  "\<exists>c s'. run_provisioning sample_boundary_env sample_stage_clock (recovery_boundary_new (first_boot_driver_new ''1'' 0)) = Some (Ok c, s') \<and>
     fb_status c = FbCompleted \<and> fb_performed_phases c = FIRST_BOOT_PROVISIONING_PHASES"
proof -
  let ?s = "recovery_boundary_new (first_boot_driver_new ''1'' 0)"
  have "fb_status (ry_first_boot ?s) = FbNotStarted" "\<not> is_recovery_active ?s" "bd_emitter sample_boundary_env = None"
    by (simp_all add: recovery_boundary_new_def first_boot_driver_new_def is_recovery_active_def normal_state_def sample_boundary_env_def)
  moreover obtain r s' where "run_provisioning sample_boundary_env sample_stage_clock ?s = Some (r, s')" and
     "case r of
        Inr c \<Rightarrow> c = ry_first_boot s' \<and> (fb_status c = FbCompleted \<and> fb_performed_phases c = FIRST_BOOT_PROVISIONING_PHASES \<or>
          fb_status c = FbFailed \<and> s' = ?s)
      | Inl e \<Rightarrow> e = AlreadyInRecovery \<and> is_recovery_active ?s \<and> s' = ?s \<or> bd_emitter sample_boundary_env \<noteq> None"
    using provisioning_completes [OF rtranclp.rtrancl_refl, of sample_boundary_env sample_stage_clock "''1''" 0]
    by (fastforce split: sum.splits)
  ultimately show ?thesis by (cases r) auto
qed

end
