(* ===== verification/Spec2Isabelle.thy ===== *)
theory Spec2Isabelle
  imports Policy_Service Policy_Condition_Roundtrip Policy_Condition_Eval Evidence_Read Runtime_Gate
    Runtime_Resume Vault_Guarantees Vault_Policy Sgr_Plan Sgr_Adapters Sgr_Recovery Sgr_Runtime
    Recovery_Kernel Recovery_First_Boot
begin

text \<open>
  A verification development for AIOS (AI-Native-Linux), an operating environment in which every
  privileged effect is a typed action that a policy kernel decides on before it runs.

  \<^bold>\<open>The program.\<close> The repository is a Rust workspace of crates under \<open>src/crates\<close>. An action is an
  envelope (\<open>aios-action\<close>): identity, request, execution state and trace. The policy kernel
  (\<open>aios-policy\<close>) receives an envelope, hydrates its subject, checks the constitutional hard
  denies, looks for an emergency override, and otherwise falls to default deny; it keeps the
  active policy bundle with a rollback stack, a decision cache and an explain log, and serves all
  of this over gRPC. The evidence log (\<open>aios-evidence\<close>) receives what happened as signed receipts,
  links them by hash, seals them into segments, redacts what a reader may not see and compacts what
  its retention class lets go. The capability runtime (\<open>aios-capability-runtime\<close>) drives an action
  through its lifecycle: it validates the envelope, asks the policy kernel, parks the action when an
  approval is needed, enrols it in a bounded dispatch queue, finds a signed adapter, verifies and
  rolls back, and leaves a receipt at each step. The vault (\<open>aios-vault\<close>) holds key material behind
  capabilities that can be used and never read, keeps the identities and sessions that the policy
  kernel hydrates subjects from, and brokers emergency overrides that need a quorum of humans.
  The service graph (\<open>aios-sgr\<close>) holds the units of the system as signed manifests with dependencies,
  orders their start, drives each through its lifecycle, chooses the adapters that serve them, pauses
  them for recovery, and starts and stops them through the capability runtime.
  The recovery crate (\<open>aios-recovery\<close>) keeps the boundary between normal and recovery mode, the pipeline
  of kernel candidates, some of which may be installed in recovery mode only, and the stages of a first boot.
  Around these crates stand the file system and some thirty more crates.

  \<^bold>\<open>What is modelled, and where.\<close>
  \<^item> \<open>Prelude\<close>: results and the question-mark operator, instants, saturating arithmetic, the
    \<open>HashMap\<close> interface (locale \<open>keyed_store\<close>, interpreted on association lists) and the
    interface of a lifecycle state machine (locale \<open>lifecycle_fsm\<close>).
  \<^item> \<open>Rust_Data\<close>: strings as UTF-8 bytes with the string operations the sources use, JSON values.
  \<^item> \<open>Action_Envelope\<close>: \<open>aios-action/src\<close>, files \<open>phase.rs\<close>, \<open>execution.rs\<close>, \<open>request.rs\<close>,
    \<open>identity.rs\<close>, \<open>trace.rs\<close>, \<open>envelope.rs\<close>: phases, conditions, the envelope, its transitions.
  \<^item> \<open>Action_Ids\<close>: \<open>id.rs\<close> and \<open>error.rs\<close>: prefixed identifiers, error codes, cause chains.
  \<^item> \<open>Policy_Types\<close>: the data of \<open>aios-policy\<close> (subjects, constraints, decisions, precedence,
    bundles, enrichment).
  \<^item> \<open>Policy_Conditions\<close>, \<open>Policy_Condition_Parser\<close>, \<open>Policy_Condition_Eval\<close>: the condition
    language (\<open>conditions.rs\<close>), its recursive-descent parser (\<open>conditions_parser.rs\<close>) and its
    evaluator (\<open>conditions_eval.rs\<close>); \<open>Policy_Condition_Roundtrip\<close> relates the parser to a
    reference printer.
  \<^item> \<open>Policy_Hard_Deny\<close>: \<open>hard_deny_engine.rs\<close>; \<open>Policy_Override\<close>: \<open>override_boundary.rs\<close>;
    \<open>Policy_Hydration\<close>: \<open>subject_hydration.rs\<close> (locale \<open>subject_hydrator\<close>); \<open>Policy_Cache\<close>:
    \<open>cache.rs\<close> over the third-party \<open>lru\<close> store (locale \<open>lru_cache\<close>).
  \<^item> \<open>Policy_Pipeline\<close>: \<open>pipeline.rs\<close>, the twelve-step decision pipeline; \<open>Policy_Kernel\<close>:
    \<open>kernel.rs\<close>, the kernel's state, bundle operations and evaluation.
  \<^item> \<open>Policy_Bundle_Loader\<close>: \<open>bundle_loader.rs\<close> and the signed body of \<open>bundle.rs\<close>;
    \<open>Policy_Decision_Log\<close>: \<open>explain.rs\<close>; \<open>Policy_Service\<close>: \<open>service/server.rs\<close> with the parts of
    \<open>service/conversions.rs\<close> it decides with.
  \<^item> \<open>Evidence_Records\<close>: \<open>aios-evidence/src\<close>, files \<open>record.rs\<close> (all record types with their wire
    names) and \<open>retention.rs\<close>; \<open>Evidence_Redaction\<close>: \<open>error.rs\<close> and \<open>redaction.rs\<close>;
    \<open>Evidence_Receipt\<close>: \<open>receipt.rs\<close>, the builder, the canonical body and the hex codec.
  \<^item> \<open>Evidence_Chain\<close>: \<open>chain.rs\<close>, the receipt chain; \<open>Evidence_Segment\<close>: \<open>segment.rs\<close> and
    \<open>segment_chain.rs\<close>. Both chains instantiate one interface (locale \<open>linked_log\<close>: a log whose
    entries name the digest of their predecessor), interpreted as \<open>rc\<close> and \<open>sc\<close>.
  \<^item> \<open>Evidence_Compaction\<close>: \<open>compaction.rs\<close>, the worker over any store (locale
    \<open>compaction_store\<close>, interpreted as \<open>lb\<close> on the in-memory log); \<open>Evidence_Privacy\<close>: \<open>privacy.rs\<close>.
  \<^item> \<open>Evidence_Log\<close> and \<open>Evidence_Read\<close>: \<open>service/impl_inmemory.rs\<close>, the log's state with its
    writing and its reading operations.

  \<^item> \<open>Rust_Float\<close>: binary floating point as Rust's \<open>f64\<close> rounds it, for the token buckets.
  \<^item> \<open>Runtime_Types\<close>: of \<open>aios-capability-runtime/src\<close> the files \<open>dispatch.rs\<close>, \<open>status.rs\<close>,
    \<open>failure.rs\<close>, \<open>error.rs\<close>, \<open>context.rs\<close>, \<open>adapter_manifest.rs\<close> and the transition table of
    \<open>pipeline.rs\<close> (\<open>lc\<close>, an instance of \<open>lifecycle_fsm\<close>); and the composition of fallible steps on
    shared state.
  \<^item> \<open>Runtime_Queue\<close>: \<open>dispatcher.rs\<close> and \<open>dispatch_queue.rs\<close> (locale \<open>class_queue\<close>, interpreted as
    \<open>dq\<close>); \<open>Runtime_Approval\<close>: \<open>approval.rs\<close> and \<open>approval_sink.rs\<close> (locale \<open>single_use\<close>, interpreted
    as \<open>sk\<close>); \<open>Runtime_Gate\<close>: \<open>approval_gate.rs\<close>; \<open>Runtime_Adapters\<close>: \<open>adapter_registry.rs\<close>,
    \<open>adapter_handle.rs\<close>, \<open>rollback_strategy.rs\<close>, \<open>rollback.rs\<close>; \<open>Runtime_Evidence\<close>:
    \<open>evidence_emit.rs\<close> and \<open>evidence_payloads.rs\<close>.
  \<^item> \<open>Runtime_Pipeline\<close>: \<open>pipeline.rs\<close>, every step and every driver; \<open>Runtime_Service\<close>:
    \<open>runtime.rs\<close> and the execute call of \<open>service/server.rs\<close>.
  \<^item> \<open>Runtime_Outcomes\<close>, \<open>Runtime_Liveness\<close>, \<open>Runtime_Resume\<close>: what is proved of whole runs. Three
    interfaces carry it: \<open>action_steps\<close> (what a driver relies on each step for, interpreted as
    \<open>plain\<close> and \<open>recording\<close>), its extension \<open>live_steps\<close> (what makes the steps return), and
    \<open>run_invariant\<close> (what every run keeps, interpreted as \<open>sink_kept\<close> and \<open>lane_kept\<close>).
  \<^item> \<open>Labelled_Runs\<close>: runs of a labelled transition system, for components whose calls interleave.
  \<^item> \<open>Vault_Types\<close>: of \<open>aios-vault/src\<close> the files \<open>capability.rs\<close>, \<open>key_material.rs\<close>, \<open>broker.rs\<close>,
    \<open>identity.rs\<close>, \<open>override_class.rs\<close>, \<open>error.rs\<close>, \<open>evidence_payloads.rs\<close>, \<open>evidence_emit.rs\<close>;
    \<open>Vault_Crypto\<close>: the four files of \<open>crypto\<close>, over the third-party primitives; \<open>Vault_Broker\<close>:
    \<open>in_memory_broker.rs\<close>, \<open>audit.rs\<close>, \<open>lifecycle.rs\<close>.
  \<^item> \<open>Vault_Lifecycle\<close>: the vault as an inductive step relation in which a use is admitted in one
    step and completes in another (\<open>vcap\<close>, an instance of \<open>lifecycle_fsm\<close>); \<open>Vault_Guarantees\<close>:
    round trips, non-interference and the expiration pass.
  \<^item> \<open>Vault_Identity\<close>: \<open>identity_catalog.rs\<close>, \<open>hydrator.rs\<close> and the hydrating half of
    \<open>integration.rs\<close> (\<open>vph\<close>, an instance of \<open>subject_hydrator\<close>); \<open>Vault_Override\<close>:
    \<open>override_broker.rs\<close> and the other half of \<open>integration.rs\<close> (\<open>ovr\<close>, an instance of \<open>single_use\<close>);
    \<open>Vault_Policy\<close>: the policy kernel wired to the catalog.
  \<^item> \<open>Sgr_Types\<close>: of \<open>aios-sgr/src\<close> the files \<open>unit.rs\<close>, \<open>state.rs\<close>, \<open>dependency.rs\<close>, \<open>error.rs\<close>;
    \<open>Sgr_Evidence\<close>: \<open>adapter.rs\<close>, \<open>evidence_payloads.rs\<close>, \<open>evidence_emit.rs\<close> and the state all operations
    share; \<open>Sgr_Graph\<close>: \<open>in_memory_graph.rs\<close>, with the graph's calls as a step relation; \<open>Sgr_Fsm\<close>:
    \<open>state_fsm.rs\<close>, the driver of unit lifecycles.
  \<^item> \<open>Sgr_Evaluator\<close>: \<open>evaluator.rs\<close>, Kahn's algorithm, Tarjan's algorithm, readiness and convergence;
    \<open>Sgr_Order\<close> proves the former (locale \<open>prerequisite_graph\<close>, a finite graph whose prerequisites are
    counted, interpreted as \<open>ixg\<close> on the dependency index), \<open>Sgr_Cycles\<close> the latter, \<open>Sgr_Plan\<close>
    states both of the graphs that can be reached.
  \<^item> \<open>Sgr_Adapters\<close>: \<open>adapter_registry.rs\<close>; \<open>Sgr_Recovery\<close>: \<open>recovery_adapter.rs\<close>; \<open>Sgr_Runtime\<close>:
    \<open>runtime_adapter.rs\<close>, over the modelled capability runtime.
  \<^item> \<open>Recovery_Types\<close>: of \<open>aios-recovery/src\<close> the files \<open>mode.rs\<close>, \<open>boot.rs\<close>, \<open>bundle.rs\<close>, \<open>boundary.rs\<close>,
    \<open>kernel.rs\<close>, \<open>error.rs\<close>; \<open>Recovery_Evidence\<close>: \<open>evidence_payloads.rs\<close>, \<open>evidence_emit.rs\<close> and the state
    all operations share; \<open>Recovery_Boundary\<close>: \<open>in_memory_boundary.rs\<close>, with its calls as a labelled
    transition system; \<open>Recovery_Kernel\<close>: \<open>kernel_pipeline.rs\<close>, likewise (\<open>kcl\<close>, an instance of
    \<open>lifecycle_fsm\<close>); \<open>Recovery_First_Boot\<close>: \<open>first_boot.rs\<close>.

  \<^bold>\<open>How the model corresponds to the code.\<close> A struct is a record with the field names of the
  source (prefixed where two records would clash), an enum is a datatype, a method is a function
  of the same name that takes the state and returns it updated, an early return or an error is a
  branch of a sum type. Every read of the clock, every ULID, every digest and every call into a
  third-party crate is an argument. A Rust string is the list of its UTF-8 bytes. Methods that
  hold a lock are single steps; where a method takes two locks in a row the model does not
  interleave other calls between them (\<open>register_unit\<close> among them), except for the use of a vault
  capability, the expiry of the approval gate, the entry into recovery and the activation of a kernel,
  whose two parts are separate steps, and for the
  loops of the unit driver, between whose iterations other drivers may act.

  \<^bold>\<open>What the theorems show.\<close> Envelopes only move forward through their phases, and a terminal
  envelope is frozen. Identifiers and plans round-trip through their parsers and error chains are
  bounded. The parser of conditions accepts exactly the well-formed conditions, among which those with timestamps are not; evaluation is a
  short-circuit conjunction that fails closed. The hard-deny engine reports the first class of the
  constitutional table, and no override outranks it. Every override in force goes back to an
  accepted, unexpired, unrevoked human request that covers the requesting subject. The pipeline evaluates in the order of the
  precedence ladder, with its decisions except at the tier of the override, and
  allows only by override. The rollback stack is bounded and behaves as an undo history; a bundle
  flip closes every override. The loader accepts exactly the correctly signed, well-formed bundles;
  the explain log is a window on the latest decisions; loading a bundle switches label, kernel,
  cache and overrides together.

  For the evidence log: in every reachable state of the log the open chain and every sealed segment
  verify; two chains, or two segment chains, with the same head are the same up to a digest
  collision; a verified chain is exactly one grown by appending. Default redaction reveals exactly
  the public fields and its output does not depend on a secret. Compaction takes
  bodies away only from segments past the age of their class, never from one kept for ever, leaves
  every seal as it is, and leaves no released segment warm when it succeeds. A
  query returns exactly the visible receipts that match, a subscription replays all of them.

  For the capability runtime: the status of a submitted action is the one a reference function reads
  off the wiring and the engines, a submission always answers when its engines do, a successful one
  leaves exactly the receipts of its steps, and the receipt chain of the service verifies after any
  calls. An executed action goes back to a human override, a resumed one to a granted, unexpired,
  single-use binding. The dispatch queue is fair within a class and bounded, its rate limits hold in
  floating point, adapters are served only with a trusted signature, and the approval gate accounts
  for every approval.

  For the vault: after a capability is revoked or expired nothing new is admitted on it and what was
  admitted before completes at most once; every executed operation was admitted on a live capability
  of the right class; key bytes influence no audit entry or receipt, and answers only through the
  shape of a key and the results of the cryptography; the audit log counts exactly; what one capability produces another with the same key
  checks; an expiration pass changes no verdict. A consumed override had a quorum of registered
  humans and is consumed once. No subject has two live sessions, an ended session authenticates
  nobody, the group index agrees with the records, and a kernel that hydrates from the vault allows
  only subjects the catalog knows.

  For the service graph: every registered unit was issued by a trusted publisher with exactly its
  content, up to a digest collision, and units move only along the specification's table of transitions, one step at a time. The start order takes the least unit whose
  dependencies are met, again and again, the batches are the layers of the graph, and the cycles reported are
  exactly its cycles: its strongly connected components of more than one unit and its self-loops. The
  drivers always return, arrive or refuse according to the state they find, and make only changes of that table
  when they race with each other.
  The adapter chosen is the first that serves the unit, one that was withdrawn is not chosen until it
  is registered again, a pause for recovery is undone by the resumption, a unit started or
  stopped through the runtime ends where the status of its action says, and a start that the runtime
  reports as succeeded goes back to a human grant.

  For recovery: a host in recovery mode got there by an authorised entry, whose token alone ends the session (in
  place, where the specification asks for a reboot).
  The active kernel, and every one it may be rolled back to, was signed, taken through the gate (which the code documents as
  shallow), then promoted, and admitted
  in recovery mode if it had to be; a rollback undoes an activation. The stages of a first boot are performed in
  order, and provisioning returns in one of five ways.

  \<^bold>\<open>Departures.\<close> Some theorems record behaviour that departs from what the sources
  say about themselves. In the policy kernel: a cached decision is served to any subject (\<open>cache_serves_any_subject\<close>), the
  tier of the emergency override allows where the ladder says deny (\<open>override_tier_allows\<close>), timestamp literals of the
  condition grammar are not parsed (\<open>timestamps_do_not_parse\<close>), a
  privacy change to an unknown class is not denied (\<open>unknown_new_class_not_denied\<close>), and a refused
  rollback displaces the active bundle (\<open>refused_rollback_displaces_bundle\<close>). In the evidence log:
  sealing stores receipts under the class of the segment and not their own
  (\<open>seal_ignores_receipt_retention\<close>), the secret patterns depend on the case of a key
  (\<open>secret_match_depends_on_case\<close>), a receipt appended while a reader subscribes is not delivered
  (\<open>subscription_gap\<close>), the terminal receipt of a segment is outside its seal
  (\<open>terminal_receipt_not_sealed\<close>), the strict profile leaves the personal data of two families in
  clear (\<open>strict_keeps_personal_data_of_recovery\<close>), the documented link of a first segment is
  refused (\<open>zero_hash_genesis_refused\<close>), and a caller without a name sees everything
  (\<open>anonymous_caller_sees_all\<close>). In the runtime: a full lane refuses for ever
  (\<open>full_lane_refuses_for_ever\<close>), the service does not enforce the approver classes of the policy
  (\<open>policy_classes_not_enforced\<close>), a binding resumes any action with an equal request
  (\<open>binding_resumes_other_action\<close>), the stability of an adapter is ignored (\<open>stability_ignored\<close>), a
  failure after resumption is not rolled back (\<open>resumed_failure_not_rolled_back\<close>), and the gate drops
  a resubmitted request (\<open>resubmission_drops_pending\<close>), records two decisions in a race
  (\<open>expiry_race\<close>), lets an agent approve (\<open>agent_may_approve\<close>) and expires before the announced
  deadline (\<open>announced_deadline_not_kept\<close>). In the vault: a use that was
  admitted completes after its capability is revoked (\<open>revocation_spares_uses_in_flight\<close>), a key of the wrong
  length is refused with its length (\<open>malformed_key_reveals_its_length\<close>), one human counts as a quorum of three
  (\<open>quorum_of_one_person\<close>), a subject flagged as an AI grants overrides
  (\<open>flagged_human_grants_override\<close>), an override without a target covers everything
  (\<open>untargeted_override_covers_everything\<close>), revoking hides a consumption
  (\<open>revoke_overwrites_consumed\<close>), expiry on use leaves no receipt
  (\<open>expiry_on_use_leaves_no_receipt\<close>), derived keys are never read (\<open>derived_keys_are_never_read\<close>), a
  repeated group splits the membership records (\<open>repeated_group_splits_the_records\<close>), and a subject
  whose sessions were revoked still hydrates by name (\<open>subject_without_session_hydrates\<close>). In the
  service graph: a dependency on a healthy unit is met by a running one (\<open>readiness_accepts_running\<close>),
  a start that races with a failure revives the unit (\<open>raced_start_revives_failed_unit\<close>), a restart
  leaves no receipt of the start (\<open>restart_records_no_start\<close>), suspension undoes retirement
  (\<open>suspension_undoes_retirement\<close>), the declaration of an adapter is outside its signature
  (\<open>declaration_is_not_signed\<close>), a pause that fails half-way is never resumed
  (\<open>failed_pause_records_nothing\<close>), a denied stop marks a running unit as failed
  (\<open>denied_stop_fails_the_unit\<close>), and the graph's own summary ignores what the manifests want
  (\<open>convergence_is_desired\<close>). In the recovery crate: a rollback makes a retired kernel active
  (\<open>rollback_restores_retired\<close>), the hash of a kernel is that of its manifest
  (\<open>kernel_hash_is_of_manifest\<close>), a lost receipt blocks the first boot for good
  (\<open>lost_receipt_blocks_first_boot\<close>), the full sub-boundary opens without recovery
  (\<open>full_scope_without_recovery\<close>), and an entry that reports an error has taken effect
  (\<open>failed_entry_enters\<close>).

  \<^bold>\<open>Termination and bounds.\<close> The loops of the unit driver recurse on fuel: five iterations,
  \<open>FSM_FUEL\<close>, since no unit is further than that from its goal, and that they suffice is part of what is
  proved of them. So does the loop of the first boot: fifteen, \<open>FIRST_BOOT_FUEL\<close>, one more than there are stages,
  proved enough as well. No other fuel is used: the parser's loops terminate because the offset into the text
  grows, the evaluator's because units or edges are used up, and the remaining recursions are structural.
  Integers are words where the code
  relies on their width (time-to-live fields, \<open>rules_consulted\<close>, the privacy ranks) and bounded
  integers where it parses them (\<open>i64\<close> literals).

  \<^bold>\<open>Not modelled.\<close> The protobuf message types and their conversion (generated code), tracing and
  \<open>Debug\<close> output, the transport, and the concrete cryptography, JSON and clock; of the evidence log
  the RocksDB persistence; of the runtime the read-only calls of its service and the modules that
  bind it to the host (SELinux, TPM, IMA, cgroups and the like), which consist of system calls and
  generated text. Of the vault, of the service graph and of the recovery crate the gRPC handlers are left out,
  and of the latter the self-healing driver. The
  other crates of the workspace build on the ones modelled here; the next in line are the capability and
  snapshot modules of the runtime, the file system (\<open>aios-fs\<close>), then the network state machine.
\<close>

section \<open>Properties that span components\<close>

text \<open>
  The subject an evaluation is about, told from the request alone: without a hydrator the subject of
  the context, with one the subject it returns for the name that the envelope carries.
\<close>

definition requesting_subject ::
    "hydrator_fn option \<Rightarrow> instant \<Rightarrow> action_envelope \<Rightarrow> policy_context \<Rightarrow> hydrated_subject \<Rightarrow> bool" where
  "requesting_subject h now env ctx subj \<longleftrightarrow>
     (case h of None \<Rightarrow> subj = subject ctx
      | Some f \<Rightarrow> f now (subject_canonical_id (env_identity env)) = Ok subj)"

lemma hydrated_requesting:
  assumes "hydrate_context h now env ctx = Ok (Some c)"
  shows "requesting_subject h now env ctx (subject c)"
  using assms
  by (auto simp: hydrate_context_def requesting_subject_def split: option.splits sum.splits policy_error.splits)

lemma requesting_subject_unique:
  assumes "requesting_subject h now env ctx subj" and "requesting_subject h now env ctx subj'"
  shows "subj = subj'"
  using assms by (auto simp: requesting_subject_def split: option.splits)

lemma allow_traced:
  assumes "decision_cache k = None" and "kernel_boundary k = Some (boundary_after ops)"
    and "fst (evaluate_policy L kev env ctx k) = Ok d" and "decision d = Allow"
  shows "\<exists>subj ulid req t. requesting_subject (subject_hydrator_fn k) (now_hydrate kev) env ctx subj \<and>
    OpRequest ulid req t \<in> set ops \<and> new_grant ulid req t \<in> snd ` set (boundary_after ops) \<and>
    \<not> is_ai (granted_by_subject req) \<and> attempted_hard_deny req = None \<and>
    unat (ttl_seconds req) \<le> 86400 \<and>
    now_override kev < t + duration_seconds (uint (ttl_seconds req)) \<and>
    os_action (req_scope req) = action (env_request env) \<and>
    (os_subjects (req_scope req) = [] \<or> canonical_subject_id subj \<in> set (os_subjects (req_scope req))) \<and>
    (case hard_deny_engine k of None \<Rightarrow> True | Some cfg \<Rightarrow> check cfg env subj = None)"
proof -
  obtain hyd where d: "d = evaluate_with_chain_full (eval_env.truncate kev) env ctx hyd
      (hard_deny_engine k) (Some (boundary_after ops))"
    and hyd: "hydrate_context (subject_hydrator_fn k) (now_hydrate kev) env ctx = Ok hyd"
    using assms(1-3) by (auto simp: evaluate_uncached split: sum.splits)
  obtain c g where c: "hyd = Some c" and free: "hard_deny_of (hard_deny_engine k) env c = None"
    and force: "is_overridden_at (action (env_request env)) (canonical_subject_id (subject c))
        (now_override (eval_env.truncate kev)) (boundary_after ops) = Some g"
    using chain_allow [OF assms(4) [unfolded d]] by auto
  have subj: "requesting_subject (subject_hydrator_fn k) (now_hydrate kev) env ctx (subject c)"
    using hydrated_requesting hyd c by blast
  have hd: "case hard_deny_engine k of None \<Rightarrow> True | Some cfg \<Rightarrow> check cfg env (subject c) = None"
    using free by (cases "hard_deny_engine k") simp_all
  have standing: "g \<in> snd ` set (boundary_after ops)"
    using force unfolding is_overridden_at_def by (metis find_Some_iff list.set_map nth_mem)
  have "now_override (eval_env.truncate kev) = now_override kev"
    by (simp add: eval_env.defs)
  with in_force_traced [OF force] standing subj hd show ?thesis by metis
qed

text \<open>
  C1: an allowed action goes back to a human. When a kernel without a cache, whose override
  boundary is the result of any run of requests, revocations, prunings and flips, allows a
  request, then the run contains an accepted request by a non-AI subject, not a hard-deny
  request, with a time to live of at most a day that has not elapsed, whose grant still stands
  unrevoked in the boundary and whose scope covers the action and the requesting subject; and the
  kernel's hard-deny engine, if any, has nothing against the request of this very subject. The
  requesting subject is the one that the kernel's hydrator returns for the name in the envelope,
  and the subject of the context when the kernel has no hydrator.
\<close>

theorem allow_traces_to_human_grant:
  assumes "decision_cache k = None" and "kernel_boundary k = Some (boundary_after ops)"
    and "fst (evaluate_policy L kev env ctx k) = Ok d" and "decision d = Allow"
  shows "\<exists>subj ulid req t. requesting_subject (subject_hydrator_fn k) (now_hydrate kev) env ctx subj \<and>
    OpRequest ulid req t \<in> set ops \<and> new_grant ulid req t \<in> snd ` set (boundary_after ops) \<and>
    \<not> is_ai (granted_by_subject req) \<and> attempted_hard_deny req = None \<and>
    unat (ttl_seconds req) \<le> 86400 \<and>
    now_override kev < t + duration_seconds (uint (ttl_seconds req)) \<and>
    os_action (req_scope req) = action (env_request env) \<and>
    (os_subjects (req_scope req) = [] \<or> canonical_subject_id subj \<in> set (os_subjects (req_scope req))) \<and>
    (case hard_deny_engine k of None \<Rightarrow> True | Some cfg \<Rightarrow> check cfg env subj = None)"
  using assms by (rule allow_traced)

theorem allow_traces_to_human_grant_witness:
  "\<exists>ulid req t. OpRequest ulid req t \<in> set [OpRequest ''U'' sample_override 0] \<and>
    new_grant ulid req t \<in> snd ` set sample_boundary \<and>
    \<not> is_ai (granted_by_subject req) \<and> attempted_hard_deny req = None \<and>
    unat (ttl_seconds req) \<le> 86400 \<and>
    now_override sample_kernel_env < t + duration_seconds (uint (ttl_seconds req)) \<and>
    os_action (req_scope req) = action (env_request restart_envelope) \<and>
    (os_subjects (req_scope req) = [] \<or>
     canonical_subject_id sample_operator \<in> set (os_subjects (req_scope req))) \<and>
    check spec_defaults restart_envelope sample_operator = None"
proof -
  let ?k = "with_override_boundary sample_boundary (new_with_hard_deny spec_defaults) ::
    (nat \<times> (cache_key \<times> policy_decision) list) policy_kernel"
  let ?d = "evaluate_with_chain_full sample_env restart_envelope (sample_policy_context sample_operator)
    (Some (sample_policy_context sample_operator)) (Some spec_defaults) (Some sample_boundary)"
  have trunc: "eval_env.truncate sample_kernel_env = sample_env"
    by (simp add: sample_kernel_env_def eval_env.defs sample_env_def)
  have eval: "fst (evaluate_policy list_lru sample_kernel_env restart_envelope
      (sample_policy_context sample_operator) ?k) = Ok ?d"
    by (simp add: evaluate_uncached trunc with_override_boundary_def new_with_hard_deny_def
        kernel_new_def hydrate_context_def)
  have allow: "decision ?d = Allow"
    by (simp add: chain_hydrated sample_schema_valid restart_check sample_env_def sample_boundary_grant)
  have "decision_cache ?k = None"
    and "kernel_boundary ?k = Some (boundary_after [OpRequest ''U'' sample_override 0])"
    by (simp_all add: with_override_boundary_def new_with_hard_deny_def kernel_new_def
        sample_boundary_def)
  from allow_traces_to_human_grant [OF this eval allow] show ?thesis
    by (simp add: with_override_boundary_def new_with_hard_deny_def kernel_new_def requesting_subject_def
        sample_policy_context_def sample_boundary_def)
qed

text \<open>
  The conditions of a loaded bundle are meaningful. Every condition text of every rule of a
  bundle the loader accepts parses to a well-formed condition over the closed vocabulary, which
  is recovered from its canonical text.
\<close>

theorem loaded_conditions_well_formed:
  assumes "load_from_bytes lib l bytes = Ok b" and "r \<in> set (rules b)"
    and "c \<in> set (rule_conditions r)"
  shows "\<exists>p. parse c = Ok p \<and> wf_condition p \<and> parse (print_condition p) = Ok p"
proof -
  have "check_rules (rules b) = Ok ()"
    using assms(1) by (auto simp: load_from_bytes_def result_simps split: sum.splits option.splits if_splits)
  then obtain p where "parse c = Ok p"
    using assms(2,3) by (auto simp: check_rules_Ok list_all_iff)
  then show ?thesis using parse_sound parse_print by blast
qed

definition conditioned_bundle :: policy_bundle where
  "conditioned_bundle =
     (signed_bundle ''v3'')\<lparr>rules :=
       [\<lparr>rule_id = ''r1'', scope = Global, effect = EffectDeny, priority = 0, rule_subjects = [],
         rule_actions = [], rule_conditions = [print_condition (Condition [Exists SubjectGroups])],
         rule_constraints = None, rule_approval = None, rule_reason_code = ''X''\<rparr>]\<rparr>"

theorem loaded_conditions_well_formed_witness:
  "\<exists>p. parse (print_condition (Condition [Exists SubjectGroups])) = Ok p \<and> wf_condition p \<and>
     parse (print_condition p) = Ok p"
proof (rule loaded_conditions_well_formed)
  let ?lib = "sample_lib\<lparr>from_slice := \<lambda>_. Ok conditioned_bundle\<rparr>"
  have "parse (print_condition (Condition [Exists SubjectGroups])) = Ok (Condition [Exists SubjectGroups])"
    by (rule parse_print) (simp add: wf_condition_def)
  then have ok: "check_rules (rules conditioned_bundle) = Ok ()"
    by (simp add: conditioned_bundle_def)
  show "load_from_bytes ?lib (loader_new [(''root'', ())]) [] = Ok conditioned_bundle"
    using ok by (simp add: load_from_bytes_def canonical_signed_body_bytes_def sample_lib_def loader_new_def)
      (simp add: conditioned_bundle_def signed_bundle_def sample_bundle_def)
  show "hd (rules conditioned_bundle) \<in> set (rules conditioned_bundle)"
    by (simp add: conditioned_bundle_def)
  show "print_condition (Condition [Exists SubjectGroups]) \<in> set (rule_conditions (hd (rules conditioned_bundle)))"
    by (simp add: conditioned_bundle_def)
qed

lemma succeeded_allowed:
  assumes "en_kernel (rs_engines rt) = Some k"
    and "submit_action rw ulid now env rc rt = (Ok ctx, rt')" and "status ctx = ActionSucceeded"
  shows "\<exists>d. fst (ask_kernel (wired_env rw rc) env rc k) = Ok d \<and> decision d = Allow"
proof -
  have "policy_verdict (wired_env rw rc) env (rs_engines rt) = Allow"
    using submit_Ok [OF assms(2)] assms(3) by (auto simp: verdict_def split: decision.splits if_splits)
  then show ?thesis
    using assms(1) by (auto simp: policy_verdict_def wired_env_def split: sum.splits if_splits)
qed

text \<open>
  C2: An executed action goes back to a human. When a runtime with a policy kernel (no cache, override
  boundary built by any run of requests, revocations, prunings and flips) reports a submitted action
  as succeeded, then a non-AI subject requested an override of at most a day whose grant stands unrevoked, which
  covers the action and the submitting subject and had not elapsed when the kernel decided, and the
  kernel's hard-deny engine had nothing against the action of this subject. The submitting subject is
  the one the kernel's hydrator returns for the name in the envelope, and the subject of the runtime
  context when the kernel has no hydrator.
\<close>

theorem executed_action_traces_to_human_grant:
  assumes "en_kernel (rs_engines rt) = Some k" and "decision_cache k = None"
    and "kernel_boundary k = Some (boundary_after ops)"
    and "submit_action rw ulid now env rc rt = (Ok ctx, rt')" and "status ctx = ActionSucceeded"
  shows "\<exists>subj u req t. requesting_subject (subject_hydrator_fn k) (now_hydrate (pe_kernel_env (rw_env rw))) env
      (context_new (rc_subject rc) enrichment_snapshot_default (rc_bundle_version rc) (rc_code_version rc)) subj \<and>
    OpRequest u req t \<in> set ops \<and> new_grant u req t \<in> snd ` set (boundary_after ops) \<and>
    \<not> is_ai (granted_by_subject req) \<and> attempted_hard_deny req = None \<and>
    unat (ttl_seconds req) \<le> 86400 \<and>
    now_override (pe_kernel_env (rw_env rw)) < t + duration_seconds (uint (ttl_seconds req)) \<and>
    os_action (req_scope req) = action (env_request env) \<and>
    (os_subjects (req_scope req) = [] \<or> canonical_subject_id subj \<in> set (os_subjects (req_scope req))) \<and>
    (case hard_deny_engine k of None \<Rightarrow> True | Some cfg \<Rightarrow> check cfg env subj = None)"
proof -
  obtain d where d: "fst (ask_kernel (wired_env rw rc) env rc k) = Ok d" "decision d = Allow"
    using succeeded_allowed [OF assms(1,4,5)] by blast
  have "pe_kernel_env (wired_env rw rc) = pe_kernel_env (rw_env rw)" by (simp add: wired_env_def)
  then show ?thesis using allow_traced [OF assms(2,3) d(1) [unfolded ask_kernel_def] d(2)] by simp
qed

definition sample_override_kernel :: "(nat \<times> (cache_key \<times> policy_decision) list) policy_kernel" where
  "sample_override_kernel = with_override_boundary sample_boundary (new_with_hard_deny spec_defaults)"

definition sample_kernel_runtime :: "(nat \<times> (cache_key \<times> policy_decision) list) runtime_state" where
  "sample_kernel_runtime = sample_runtime\<lparr>rs_engines := sample_engines\<lparr>en_kernel := Some sample_override_kernel\<rparr>\<rparr>"

lemma sample_kernel_allows:
  "policy_verdict (wired_env sample_wiring rc) restart_envelope (rs_engines sample_kernel_runtime) = Allow"
proof -
  have trunc: "eval_env.truncate sample_kernel_env = sample_env"
    by (simp add: sample_kernel_env_def eval_env.defs sample_env_def)
  show ?thesis
    by (simp add: policy_verdict_def sample_kernel_runtime_def sample_override_kernel_def ask_kernel_def
        wired_env_def sample_wiring_def sample_pipeline_env_def evaluate_uncached trunc
        with_override_boundary_def new_with_hard_deny_def kernel_new_def hydrate_context_def
        chain_hydrated sample_schema_valid restart_check sample_boundary_grant sample_env_def)
qed

lemma sample_kernel_succeeds:
  assumes "submit_action sample_wiring ''A'' 0 restart_envelope rc sample_kernel_runtime = (Ok ctx, rt')"
  shows "status ctx = ActionSucceeded"
proof -
  have "has_room (wired_env sample_wiring rc) restart_envelope (rs_engines sample_kernel_runtime)"
    by (simp add: has_room_def sample_kernel_runtime_def sample_engines_def)
  moreover have "runnable (wired_env sample_wiring rc) r restart_envelope"
    and "verified (wired_env sample_wiring rc) restart_envelope aid"
    and "\<not> failure_injected (effective_driver sample_wiring)" for r aid
    by (simp_all add: runnable_def verified_def effective_driver_def failure_injected_def wired_env_def
        sample_wiring_def sample_pipeline_env_def)
  ultimately show ?thesis
    using submit_Ok [OF assms] by (simp add: verdict_def sample_validated sample_kernel_allows)
qed

lemma sample_kernel_facts:
  "en_kernel (rs_engines sample_kernel_runtime) = Some sample_override_kernel"
  "decision_cache sample_override_kernel = None"
  "kernel_boundary sample_override_kernel = Some (boundary_after [OpRequest ''U'' sample_override 0])"
  by (simp_all add: sample_kernel_runtime_def sample_override_kernel_def with_override_boundary_def
      new_with_hard_deny_def kernel_new_def sample_boundary_def)

lemma sample_kernel_parts:
  "subject_hydrator_fn sample_override_kernel = None" "hard_deny_engine sample_override_kernel = Some spec_defaults"
  by (simp_all add: sample_override_kernel_def with_override_boundary_def new_with_hard_deny_def kernel_new_def)

theorem executed_action_traces_to_human_grant_witness:
  "\<exists>u req t. OpRequest u req t \<in> set [OpRequest ''U'' sample_override 0] \<and> \<not> is_ai (granted_by_subject req) \<and>
    os_action (req_scope req) = action (env_request restart_envelope) \<and>
    check spec_defaults restart_envelope (subject (context_new (rc_subject sample_runtime_context)
      enrichment_snapshot_default (rc_bundle_version sample_runtime_context)
      (rc_code_version sample_runtime_context))) = None"
proof -
  let ?rt = "sample_kernel_runtime"
  obtain ctx rt' where s: "submit_action sample_wiring ''A'' 0 restart_envelope sample_runtime_context ?rt = (Ok ctx, rt')"
    using submit_returns [OF sample_can_answer, of sample_runtime_context restart_envelope ?rt] sample_kernel_allows
    by fastforce
  from executed_action_traces_to_human_grant [OF sample_kernel_facts s sample_kernel_succeeds [OF s]]
  show ?thesis unfolding requesting_subject_def sample_kernel_parts by auto
qed

text \<open>
  C3: A unit of the service graph that the bridge has brought to RUNNING goes back to a human. When the runtime of the bridge has a policy
  kernel (no cache, override boundary built by any run), and a unit that was not running runs after it was started through
  the runtime, then the factory built an envelope for it, a non-AI subject requested an
  override of at most a day whose grant stands unrevoked, which covers the action of this envelope and its subject and had
  not elapsed when the kernel decided, and the hard-deny engine had nothing against the action of this
  subject. The subject is the one the kernel's hydrator returns for the name in the envelope, and the subject of
  the bridge's runtime context when the kernel has no hydrator.
\<close>

theorem started_unit_traces_to_human_grant:
  assumes "en_kernel (rs_engines rt) = Some k" and "decision_cache k = None"
    and "kernel_boundary k = Some (boundary_after ops)"
    and "start_unit_via_runtime br clock ulid now uid (s, rt) = Some (r, (s', rt'))"
    and "map_of (sg_units s) uid = Some u" and "su_state u \<noteq> UnitRunning"
    and "map_of (sg_units s') uid = Some u'" and "su_state u' = UnitRunning"
  shows "\<exists>env subj i req t. sb_factory br now u = Ok env \<and>
    requesting_subject (subject_hydrator_fn k) (now_hydrate (pe_kernel_env (rw_env (sb_wiring br)))) env
      (context_new (rc_subject sgr_runtime_context) enrichment_snapshot_default
        (rc_bundle_version sgr_runtime_context) (rc_code_version sgr_runtime_context)) subj \<and>
    OpRequest i req t \<in> set ops \<and> new_grant i req t \<in> snd ` set (boundary_after ops) \<and>
    \<not> is_ai (granted_by_subject req) \<and> attempted_hard_deny req = None \<and>
    unat (ttl_seconds req) \<le> 86400 \<and>
    now_override (pe_kernel_env (rw_env (sb_wiring br))) < t + duration_seconds (uint (ttl_seconds req)) \<and>
    os_action (req_scope req) = action (env_request env) \<and>
    (os_subjects (req_scope req) = [] \<or> canonical_subject_id subj \<in> set (os_subjects (req_scope req))) \<and>
    (case hard_deny_engine k of None \<Rightarrow> True | Some cfg \<Rightarrow> check cfg env subj = None)"
proof -
  let ?rw = "sb_wiring br" and ?rc = sgr_runtime_context
  obtain env ctx rt1 where env: "sb_factory br now u = Ok env"
    and sub: "submit_action ?rw ulid now env ?rc rt = (Ok ctx, rt1)" "status ctx = ActionSucceeded"
    using bridge_start_succeeded [OF assms(4-8)] by blast
  obtain d where d: "fst (ask_kernel (wired_env ?rw ?rc) env ?rc k) = Ok d" "decision d = Allow"
    using succeeded_allowed [OF assms(1) sub] by blast
  have "pe_kernel_env (wired_env ?rw ?rc) = pe_kernel_env (rw_env ?rw)" by (simp add: wired_env_def)
  then show ?thesis using env allow_traced [OF assms(2,3) d(1) [unfolded ask_kernel_def] d(2)] by auto
qed

definition sample_restart_bridge :: "(nat \<times> (cache_key \<times> policy_decision) list, unit, unit, unit) sgr_bridge" where
  "sample_restart_bridge = sample_bridge\<lparr>sb_factory := \<lambda>_ _. Ok restart_envelope\<rparr>"

theorem started_unit_traces_to_human_grant_witness:
  "\<exists>i req t. OpRequest i req t \<in> set [OpRequest ''U'' sample_override 0] \<and> \<not> is_ai (granted_by_subject req) \<and>
    os_action (req_scope req) = action (env_request restart_envelope) \<and>
    check spec_defaults restart_envelope (subject (context_new (rc_subject sgr_runtime_context)
      enrichment_snapshot_default (rc_bundle_version sgr_runtime_context)
      (rc_code_version sgr_runtime_context))) = None"
proof -
  let ?rt = "sample_kernel_runtime" and ?u = "new_service_unit 0 (Sgr_Graph.sample_manifest ''unit:v:a'' [])"
  have u: "map_of (sg_units sample_graph) ''unit:v:a'' = Some ?u" and q: "su_state ?u = UnitQueued"
    by (simp_all add: sample_graph_units new_service_unit_def)
  have w: "sb_wiring sample_restart_bridge = sample_wiring" and env: "sb_factory sample_restart_bridge 0 ?u = Ok restart_envelope"
    by (simp_all add: sample_restart_bridge_def sample_bridge_def)
  obtain ctx rt' where sub: "submit_action sample_wiring ''A'' 0 restart_envelope sgr_runtime_context ?rt = (Ok ctx, rt')"
    using submit_returns [OF sample_can_answer, of sgr_runtime_context restart_envelope ?rt] sample_kernel_allows
    by fastforce
  obtain r s' where run: "start_unit_via_runtime sample_restart_bridge (\<lambda>n. 9) ''A'' 0 ''unit:v:a'' (sample_graph, ?rt) = Some (r, (s', rt'))"
    and "unit_at ''unit:v:a'' UnitRunning (Ok ctx) sample_graph r s'"
    using start_outcome [OF u env sub [folded w], of "\<lambda>n. 9"] sample_kernel_succeeds [OF sub] q by (auto simp: bridge_outcome_def simp del: split_paired_Ex)
  then obtain u' where u': "map_of (sg_units s') ''unit:v:a'' = Some u'" "su_state u' = UnitRunning"
    by (auto simp: unit_at_def)
  have "su_state ?u \<noteq> UnitRunning" by (simp add: q)
  from started_unit_traces_to_human_grant [OF sample_kernel_facts run u this u'] show ?thesis
    using env unfolding requesting_subject_def sample_kernel_parts by auto
qed

text \<open>
  A resumed action goes back to a grant. When a runtime whose approval sink is the result of any run
  of its operations resumes an action, then a request was submitted to the sink, the binding was
  granted for that request by a subject of a class that the policy of the call accepts, an AI did
  not grant its own action, and the request is unchanged or was submitted without a hash.
\<close>

theorem resumed_action_traces_to_grant:
  assumes "en_sink (rs_engines rt) = Some (sink_after ops)"
    and "resume_with_binding rw now aid env rc bid rt = (Ok ctx, rt')"
  shows "\<exists>u t r who cls. SinkSubmit r \<in> set ops \<and> SinkInject u t (aq_request_id r) who cls \<in> set ops \<and>
    bid = id_new ApprovalBindingId u \<and> class_matches (rc_approval rc) cls \<and>
    (ident_is_ai (env_identity env) \<longrightarrow> who \<noteq> subject_canonical_id (env_identity env)) \<and>
    aq_bound_hash r \<in> {[], canonical_request_hash (rw_env rw) env}"
proof -
  obtain g where g: "map_of (sk_bindings (sink_after ops)) bid = Some g"
    and ok: "class_matches (rc_approval rc) (granted_by_class g)"
      "\<not> (ident_is_ai (env_identity env) \<and> granted_by g = subject_canonical_id (env_identity env))"
      "bound_action_canonical_hash g = [] \<or>
       bound_action_canonical_hash g = canonical_request_hash (rw_env rw) env"
    using resume_Ok [OF assms(2)] assms(1) by auto
  have "binding_traced ops bid g" using sink_after_traced [of ops] g by (simp add: sink_traced_def)
  then obtain u t r where "SinkSubmit r \<in> set ops"
    "SinkInject u t (aq_request_id r) (granted_by g) (granted_by_class g) \<in> set ops"
    "bid = id_new ApprovalBindingId u" "bound_action_canonical_hash g = aq_bound_hash r"
    unfolding binding_traced_def by blast
  then show ?thesis using ok by (metis insert_iff)
qed

theorem resumed_action_traces_to_grant_witness:
  "\<exists>u t rid who cls. SinkInject u t rid who cls \<in>
     set [SinkSubmit (sample_approval_request\<lparr>aq_bound_hash := canonical_request_hash sample_pipeline_env restart_envelope\<rparr>),
      SinkInject ''U'' 0 ''actrq_1'' ''operator:o'' ApOperator] \<and> class_matches (rc_approval sample_runtime_context) cls"
proof -
  obtain ctx rt' where r: "resume_with_binding sample_quiet_wiring 2 ''act_1'' restart_envelope sample_runtime_context
      ''appb_U'' (sample_waiting_runtime ''act_1'') = (Ok ctx, rt')"
    using sample_resumes by blast
  have "en_sink (rs_engines (sample_waiting_runtime ''act_1'')) = Some (sink_after
      [SinkSubmit (sample_approval_request\<lparr>aq_bound_hash := canonical_request_hash sample_pipeline_env restart_envelope\<rparr>),
       SinkInject ''U'' 0 ''actrq_1'' ''operator:o'' ApOperator])"
    by (simp add: sample_waiting_runtime_def sample_granted_sink_def)
  from resumed_action_traces_to_grant [OF this r] show ?thesis by blast
qed

end
